(* ===== verification/Go_Prelude.thy ===== *)
theory Go_Prelude
  imports Main "HOL-Library.Word" "HOL-Library.Char_ord" "HOL-Library.List_Lexorder"
    "HOL-Library.Sublist" "HOL-Library.AList"
begin

text \<open>
  What the components share: the parts of the Go language and of its standard library the sources
  use, and the generic lemmas about them.

  \<^item> Strings are byte sequences (\<open>string\<close>), as in Go. \<open>TrimSpace\<close> is exact on UTF-8: it removes
    the byte sequences of every code point for which \<open>unicode.IsSpace\<close> holds, from both ends.
    \<open>ToLower\<close> and \<open>ToUpper\<close> map the ASCII letters and leave every other byte alone, which is what
    Go does on ASCII text; the case mapping of other scripts is not modelled.
  \<^item> A Go map is an association list with distinct keys. The order of the list stands for the order
    in which one \<open>range\<close> loop visits the map, which Go leaves open, so a statement about every list
    is a statement about every iteration order.
  \<^item> \<open>sort.Slice\<close> is an insertion sort by the strict comparison the code passes; where the
    comparison leaves two elements unordered their relative position is unspecified in Go.
  \<^item> An error result is the left summand of a sum.
\<close>

named_theorems go_eval \<open>equations that evaluate the modelled library calls\<close>
named_theorems trim_simps \<open>facts about trimmed strings\<close>

type_synonym byte = "8 word"

section \<open>Strings\<close>

definition space_runes :: "string list" where
  "space_runes =
     [[CHR 0x09], [CHR 0x0A], [CHR 0x0B], [CHR 0x0C], [CHR 0x0D], [CHR 0x20],
      [CHR 0xC2, CHR 0x85], [CHR 0xC2, CHR 0xA0], [CHR 0xE1, CHR 0x9A, CHR 0x80],
      [CHR 0xE2, CHR 0x80, CHR 0x80], [CHR 0xE2, CHR 0x80, CHR 0x81],
      [CHR 0xE2, CHR 0x80, CHR 0x82], [CHR 0xE2, CHR 0x80, CHR 0x83],
      [CHR 0xE2, CHR 0x80, CHR 0x84], [CHR 0xE2, CHR 0x80, CHR 0x85],
      [CHR 0xE2, CHR 0x80, CHR 0x86], [CHR 0xE2, CHR 0x80, CHR 0x87],
      [CHR 0xE2, CHR 0x80, CHR 0x88], [CHR 0xE2, CHR 0x80, CHR 0x89],
      [CHR 0xE2, CHR 0x80, CHR 0x8A], [CHR 0xE2, CHR 0x80, CHR 0xA8],
      [CHR 0xE2, CHR 0x80, CHR 0xA9], [CHR 0xE2, CHR 0x80, CHR 0xAF],
      [CHR 0xE2, CHR 0x81, CHR 0x9F], [CHR 0xE3, CHR 0x80, CHR 0x80]]"

function trim_prefixes :: "string list \<Rightarrow> string \<Rightarrow> string" where
  "trim_prefixes ps s =
     (case find (\<lambda>p. p \<noteq> [] \<and> prefix p s) ps of
        None \<Rightarrow> s
      | Some p \<Rightarrow> trim_prefixes ps (drop (length p) s))"
  by pat_completeness auto
termination
  by (relation "measure (\<lambda>(ps, s). length s)") (auto simp: find_Some_iff prefix_def)

declare trim_prefixes.simps [simp del]

definition TrimSpace :: "string \<Rightarrow> string" where
  "TrimSpace s =
     rev (trim_prefixes (map rev space_runes) (rev (trim_prefixes space_runes s)))"

definition lower_char :: "char \<Rightarrow> char" where
  "lower_char c = (if CHR ''A'' \<le> c \<and> c \<le> CHR ''Z'' then char_of (of_char c + 32 :: nat) else c)"

definition upper_char :: "char \<Rightarrow> char" where
  "upper_char c = (if CHR ''a'' \<le> c \<and> c \<le> CHR ''z'' then char_of (of_char c - 32 :: nat) else c)"

definition ToLower :: "string \<Rightarrow> string" where
  "ToLower s = map lower_char s"

definition ToUpper :: "string \<Rightarrow> string" where
  "ToUpper s = map upper_char s"

definition EqualFold :: "string \<Rightarrow> string \<Rightarrow> bool" where
  "EqualFold a b \<longleftrightarrow> ToLower a = ToLower b"

definition Contains :: "string \<Rightarrow> string \<Rightarrow> bool" where
  "Contains s sub \<longleftrightarrow> sublist sub s"

definition ContainsAny :: "string \<Rightarrow> string \<Rightarrow> bool" where
  "ContainsAny s chars \<longleftrightarrow> (\<exists>c \<in> set s. c \<in> set chars)"

definition HasSuffix :: "string \<Rightarrow> string \<Rightarrow> bool" where
  "HasSuffix s suf \<longleftrightarrow> suffix suf s"

fun Join :: "string list \<Rightarrow> string \<Rightarrow> string" where
  "Join [] sep = []"
| "Join [x] sep = x"
| "Join (x # xs) sep = x @ sep @ Join xs sep"

subsection \<open>Trimming\<close>

definition no_prefix :: "string list \<Rightarrow> string \<Rightarrow> bool" where
  "no_prefix ps s \<longleftrightarrow> (\<forall>p \<in> set ps. p \<noteq> [] \<longrightarrow> \<not> prefix p s)"

lemma trim_prefixes_no_prefix: "no_prefix ps (trim_prefixes ps s)"
proof (induction ps s rule: trim_prefixes.induct)
  case (1 ps s)
  show ?case
  proof (cases "find (\<lambda>p. p \<noteq> [] \<and> prefix p s) ps")
    case None
    then have "no_prefix ps s" by (auto simp: no_prefix_def find_None_iff)
    with None show ?thesis by (simp add: trim_prefixes.simps [of ps s])
  next
    case (Some p)
    with 1 show ?thesis by (simp add: trim_prefixes.simps [of ps s])
  qed
qed

lemma trim_prefixes_id: "no_prefix ps s \<Longrightarrow> trim_prefixes ps s = s"
  by (subst trim_prefixes.simps) (auto simp: no_prefix_def find_Some_iff split: option.splits)

lemma trim_prefixes_suffix: "suffix (trim_prefixes ps s) s"
proof (induction ps s rule: trim_prefixes.induct)
  case (1 ps s)
  show ?case
  proof (cases "find (\<lambda>p. p \<noteq> [] \<and> prefix p s) ps")
    case None
    then show ?thesis by (simp add: trim_prefixes.simps [of ps s])
  next
    case (Some p)
    with 1 have "suffix (trim_prefixes ps (drop (length p) s)) (drop (length p) s)" by blast
    with Some show ?thesis
      by (simp add: trim_prefixes.simps [of ps s]) (metis suffix_drop suffix_order.trans)
  qed
qed

definition trimmed :: "string \<Rightarrow> bool" where
  "trimmed s \<longleftrightarrow> no_prefix space_runes s \<and> no_prefix (map rev space_runes) (rev s)"

lemma trimmed_TrimSpace [simp, trim_simps]: "trimmed (TrimSpace s)"
proof -
  let ?l = "trim_prefixes space_runes s"
  let ?r = "trim_prefixes (map rev space_runes) (rev ?l)"
  have "suffix ?r (rev ?l)" by (rule trim_prefixes_suffix)
  then have "prefix (rev ?r) ?l" by (simp add: suffix_to_prefix)
  then have "no_prefix space_runes (rev ?r)"
    using trim_prefixes_no_prefix [of space_runes s]
    by (auto simp: no_prefix_def dest: prefix_order.trans)
  moreover have "no_prefix (map rev space_runes) ?r" by (rule trim_prefixes_no_prefix)
  ultimately show ?thesis by (simp add: trimmed_def TrimSpace_def)
qed

lemma TrimSpace_trimmed: "trimmed s \<Longrightarrow> TrimSpace s = s"
  by (simp add: TrimSpace_def trimmed_def trim_prefixes_id)

lemma TrimSpace_idem [simp, trim_simps]: "TrimSpace (TrimSpace s) = TrimSpace s"
  by (simp add: TrimSpace_trimmed)

lemma trimmed_Nil [simp]: "trimmed []"
  by (simp add: trimmed_def no_prefix_def)

lemma TrimSpace_Nil [simp]: "TrimSpace [] = []"
  by (rule TrimSpace_trimmed) (simp add: trimmed_def no_prefix_def)

text \<open>Two ways to see that a literal is trimmed: neither end is a byte of a space sequence.\<close>

definition edge_bytes :: "char list" where
  "edge_bytes = map hd space_runes @ map last space_runes"

lemma space_runes_nonempty: "p \<in> set space_runes \<Longrightarrow> p \<noteq> []"
  by (auto simp: space_runes_def)

lemma trimmedI:
  assumes "s = [] \<or> (hd s \<notin> set edge_bytes \<and> last s \<notin> set edge_bytes)"
  shows "trimmed s"
proof (cases "s = []")
  case True
  then show ?thesis by (simp add: trimmed_def no_prefix_def)
next
  case False
  with assms have h: "hd s \<notin> set edge_bytes" and l: "hd (rev s) \<notin> set edge_bytes"
    by (auto simp: hd_rev)
  have "no_prefix space_runes s"
    using h by (auto simp: no_prefix_def edge_bytes_def prefix_def hd_append)
  moreover have "no_prefix (map rev space_runes) (rev s)"
    unfolding no_prefix_def
  proof (intro ballI impI notI)
    fix q assume q: "q \<in> set (map rev space_runes)" "q \<noteq> []" "prefix q (rev s)"
    from q(3) obtain zs where "rev s = q @ zs" by (auto simp: prefix_def)
    with q(2) have "hd (rev s) = hd q" by (simp add: hd_append)
    moreover from q(1,2) have "hd q \<in> set edge_bytes" by (auto simp: edge_bytes_def hd_rev)
    ultimately show False using l by simp
  qed
  ultimately show ?thesis by (simp add: trimmed_def)
qed

text \<open>The bytes outside the range of the ASCII letters, which case mapping never touches.\<close>

definition caseless :: "char \<Rightarrow> bool" where
  "caseless c \<longleftrightarrow> of_char c < (65::nat) \<or> 122 < (of_char c :: nat)"

lemma prefix_map_invariant:
  assumes "prefix p (map f t)" and "\<And>x. caseless (f x) \<Longrightarrow> f x = x" and "\<forall>c \<in> set p. caseless c"
  shows "prefix p t"
proof -
  from assms(1) obtain zs where "map f t = p @ zs" by (auto simp: prefix_def)
  then have p: "p = map f (take (length p) t)" by (metis append_eq_conv_conj take_map)
  have "f x = x" if "x \<in> set (take (length p) t)" for x
    by (rule assms(2)) (metis assms(3) image_eqI p list.set_map that)
  then have "map f (take (length p) t) = take (length p) t" by (simp add: map_idI)
  with p show ?thesis by (metis take_is_prefix)
qed

lemma space_rune_caseless: "p \<in> set space_runes \<Longrightarrow> \<forall>c \<in> set p. caseless c"
  by (auto simp: space_runes_def caseless_def)

lemma lower_char_caseless: "caseless (lower_char x) \<Longrightarrow> lower_char x = x"
  by (auto simp: lower_char_def caseless_def less_eq_char_def split: if_splits)

lemma upper_char_caseless: "caseless (upper_char x) \<Longrightarrow> upper_char x = x"
  by (auto simp: upper_char_def caseless_def less_eq_char_def split: if_splits)

lemma no_prefix_map:
  assumes "no_prefix ps t" and "\<And>x. caseless (f x) \<Longrightarrow> f x = x"
    and "\<And>p. p \<in> set ps \<Longrightarrow> \<forall>c \<in> set p. caseless c"
  shows "no_prefix ps (map f t)"
  unfolding no_prefix_def
proof (intro ballI impI notI)
  fix p assume p: "p \<in> set ps" "p \<noteq> []" "prefix p (map f t)"
  have "prefix p t" by (rule prefix_map_invariant [OF p(3) assms(2) assms(3) [OF p(1)]])
  with p assms(1) show False by (simp add: no_prefix_def)
qed

lemma trimmed_map:
  assumes "trimmed t" and "\<And>x. caseless (f x) \<Longrightarrow> f x = x"
  shows "trimmed (map f t)"
proof -
  have "no_prefix space_runes (map f t)"
    by (rule no_prefix_map [OF _ assms(2)])
       (use assms(1) space_rune_caseless in \<open>auto simp: trimmed_def\<close>)
  moreover have "no_prefix (map rev space_runes) (map f (rev t))"
    by (rule no_prefix_map [OF _ assms(2)])
       (use assms(1) space_rune_caseless in \<open>auto simp: trimmed_def\<close>)
  ultimately show ?thesis by (simp add: trimmed_def rev_map)
qed

lemma trimmed_ToLower [trim_simps]: "trimmed s \<Longrightarrow> trimmed (ToLower s)"
  by (simp add: ToLower_def trimmed_map lower_char_caseless)

lemma trimmed_ToUpper [trim_simps]: "trimmed s \<Longrightarrow> trimmed (ToUpper s)"
  by (simp add: ToUpper_def trimmed_map upper_char_caseless)

lemma lower_char_idem [simp]: "lower_char (lower_char c) = lower_char c"
  by (auto simp: lower_char_def less_eq_char_def)

lemma upper_char_idem [simp]: "upper_char (upper_char c) = upper_char c"
  by (auto simp: upper_char_def less_eq_char_def)

lemma ToLower_idem [simp]: "ToLower (ToLower s) = ToLower s"
  by (simp add: ToLower_def)

lemma ToUpper_idem [simp]: "ToUpper (ToUpper s) = ToUpper s"
  by (simp add: ToUpper_def)

lemma ToUpper_Nil_iff [simp]: "ToUpper s = [] \<longleftrightarrow> s = []"
  by (simp add: ToUpper_def)

lemma ToLower_Nil_iff [simp]: "ToLower s = [] \<longleftrightarrow> s = []"
  by (simp add: ToLower_def)

lemma TrimSpace_ToLower_TrimSpace [simp]: "TrimSpace (ToLower (TrimSpace s)) = ToLower (TrimSpace s)"
  by (simp add: TrimSpace_trimmed trimmed_ToLower)

lemma TrimSpace_ToUpper_TrimSpace [simp]: "TrimSpace (ToUpper (TrimSpace s)) = ToUpper (TrimSpace s)"
  by (simp add: TrimSpace_trimmed trimmed_ToUpper)

section \<open>Numbers as text\<close>

text \<open>\<open>strconv.Itoa\<close> on a non-negative number and the \<open>%x\<close> verb: digits in a base.\<close>

definition digit_char :: "nat \<Rightarrow> char" where
  "digit_char d = (if d < 10 then char_of (48 + d) else char_of (87 + d))"

definition digit_value :: "char \<Rightarrow> nat" where
  "digit_value c = (if of_char c < (58::nat) then of_char c - 48 else of_char c - 87)"

function show_base :: "nat \<Rightarrow> nat \<Rightarrow> string" where
  "show_base b n =
     (if n < b \<or> b < 2 then [digit_char n] else show_base b (n div b) @ [digit_char (n mod b)])"
  by pat_completeness auto
termination
  by (relation "measure snd") auto

declare show_base.simps [simp del]

definition read_base :: "nat \<Rightarrow> string \<Rightarrow> nat" where
  "read_base b s = foldl (\<lambda>acc c. acc * b + digit_value c) 0 s"

definition Itoa :: "int \<Rightarrow> string" where
  "Itoa n = (if n < 0 then ''-'' @ show_base 10 (nat (- n)) else show_base 10 (nat n))"

definition hex_padded :: "nat \<Rightarrow> nat \<Rightarrow> string" where
  "hex_padded w n = replicate (w - length (show_base 16 n)) CHR ''0'' @ show_base 16 n"

lemma digit_value_char: "d < 36 \<Longrightarrow> digit_value (digit_char d) = d"
  by (auto simp: digit_value_def digit_char_def)

lemma read_show_base:
  assumes "2 \<le> b" "b \<le> 36"
  shows "read_base b (show_base b n) = n"
  using assms
proof (induction b n rule: show_base.induct)
  case (1 b n)
  show ?case
  proof (cases "n < b")
    case True
    with 1 show ?thesis
      by (simp add: show_base.simps [of b n] read_base_def digit_value_char)
  next
    case False
    with 1 have "read_base b (show_base b (n div b)) = n div b" by simp
    moreover have "n mod b < 36" using 1(2,3) by (simp add: order_less_le_trans [of _ b])
    ultimately show ?thesis
      using False 1(2) by (simp add: show_base.simps [of b n] read_base_def digit_value_char)
  qed
qed

lemma show_base_inj:
  "2 \<le> b \<Longrightarrow> b \<le> 36 \<Longrightarrow> show_base b m = show_base b n \<longleftrightarrow> m = n"
  by (metis read_show_base)

lemma read_base_zeros: "read_base b (replicate k CHR ''0'' @ s) = read_base b s"
proof -
  have "foldl (\<lambda>acc c. acc * b + digit_value c) 0 (replicate k CHR ''0'') = 0"
    by (induction k) (auto simp: digit_value_def)
  then show ?thesis by (simp add: read_base_def)
qed

lemma hex_padded_inj: "hex_padded w m = hex_padded w n \<longleftrightarrow> m = n"
proof
  assume "hex_padded w m = hex_padded w n"
  then have "read_base 16 (hex_padded w m) = read_base 16 (hex_padded w n)" by simp
  then show "m = n" by (simp add: hex_padded_def read_base_zeros read_show_base)
qed simp

section \<open>Go maps\<close>

type_synonym ('k, 'v) gomap = "('k \<times> 'v) list"

definition gm_wf :: "('k, 'v) gomap \<Rightarrow> bool" where
  "gm_wf m \<longleftrightarrow> distinct (map fst m)"

definition gm_get :: "('k, 'v) gomap \<Rightarrow> 'k \<Rightarrow> 'v option" where
  "gm_get m k = map_of m k"

definition gm_put :: "'k \<Rightarrow> 'v \<Rightarrow> ('k, 'v) gomap \<Rightarrow> ('k, 'v) gomap" where
  "gm_put k v m = AList.update k v m"

definition gm_del :: "'k \<Rightarrow> ('k, 'v) gomap \<Rightarrow> ('k, 'v) gomap" where
  "gm_del k m = AList.delete k m"

lemma gm_get_Nil [simp]: "gm_get [] k = None"
  by (simp add: gm_get_def)

lemma gm_get_put [simp]: "gm_get (gm_put k v m) k' = (if k' = k then Some v else gm_get m k')"
  by (simp add: gm_get_def gm_put_def update_conv')

lemma gm_get_del [simp]: "gm_get (gm_del k m) k' = (if k' = k then None else gm_get m k')"
  by (simp add: gm_get_def gm_del_def delete_conv')

lemma gm_wf_Nil [simp]: "gm_wf []"
  by (simp add: gm_wf_def)

lemma gm_wf_put [simp]: "gm_wf m \<Longrightarrow> gm_wf (gm_put k v m)"
  by (simp add: gm_wf_def gm_put_def distinct_update)

lemma gm_wf_del [simp]: "gm_wf m \<Longrightarrow> gm_wf (gm_del k m)"
  by (simp add: gm_wf_def gm_del_def distinct_delete)

lemma gm_mem_iff: "gm_wf m \<Longrightarrow> (k, v) \<in> set m \<longleftrightarrow> gm_get m k = Some v"
  by (simp add: gm_wf_def gm_get_def)

lemma gm_get_SomeD: "gm_get m k = Some v \<Longrightarrow> (k, v) \<in> set m"
  by (simp add: gm_get_def map_of_SomeD)

lemma gm_reorder_get:
  assumes "gm_wf m" "gm_wf m'" "set m' = set m"
  shows "gm_get m' = gm_get m"
proof
  fix k
  have "gm_get m' k = Some v \<longleftrightarrow> gm_get m k = Some v" for v
    using assms by (simp add: gm_mem_iff [symmetric])
  then show "gm_get m' k = gm_get m k" by (metis option.exhaust)
qed

text \<open>
  Loops over a map. A loop that stops at the first row it wants is a \<open>find\<close>, a loop that rewrites
  rows is \<open>gm_map\<close>; the order of the list stands for the order in which the loop meets the rows.
\<close>

definition gm_map :: "('k \<Rightarrow> 'v \<Rightarrow> 'w) \<Rightarrow> ('k, 'v) gomap \<Rightarrow> ('k, 'w) gomap" where
  "gm_map f m = map (\<lambda>(k, v). (k, f k v)) m"

definition gm_find :: "('k \<Rightarrow> 'v \<Rightarrow> bool) \<Rightarrow> ('k, 'v) gomap \<Rightarrow> ('k \<times> 'v) option" where
  "gm_find P m = find (\<lambda>(k, v). P k v) m"

definition gm_rows :: "('v \<Rightarrow> bool) \<Rightarrow> ('k, 'v) gomap \<Rightarrow> 'v list" where
  "gm_rows P m = filter P (map snd m)"

lemma gm_get_map [simp]: "gm_get (gm_map f m) k = map_option (f k) (gm_get m k)"
  by (induction m) (auto simp: gm_map_def gm_get_def)

lemma gm_wf_map [simp]: "gm_wf (gm_map f m) \<longleftrightarrow> gm_wf m"
  by (simp add: gm_wf_def gm_map_def comp_def case_prod_unfold)

lemma gm_find_SomeD:
  assumes "gm_find P m = Some (k, v)" "gm_wf m"
  shows "gm_get m k = Some v" "P k v"
proof -
  from assms(1) have "(k, v) \<in> set m \<and> P k v"
    by (auto simp: gm_find_def find_Some_iff) (metis nth_mem)
  with assms(2) show "gm_get m k = Some v" "P k v" by (auto simp: gm_mem_iff)
qed

lemma gm_find_NoneD: "gm_find P m = None \<Longrightarrow> gm_get m k = Some v \<Longrightarrow> \<not> P k v"
  by (auto simp: gm_find_def find_None_iff dest: gm_get_SomeD)

lemma gm_find_cong_unique:
  assumes "gm_wf m" "gm_get m k = Some v" "P k v" "\<And>k' v'. gm_get m k' = Some v' \<Longrightarrow> P k' v' \<Longrightarrow> k' = k"
  shows "gm_find P m = Some (k, v)"
proof (cases "gm_find P m")
  case None
  with assms(2,3) show ?thesis by (auto dest: gm_find_NoneD)
next
  case (Some kv)
  with assms show ?thesis by (cases kv) (metis gm_find_SomeD option.inject)
qed

lemma set_gm_rows: "gm_wf m \<Longrightarrow> set (gm_rows P m) = {v. P v \<and> (\<exists>k. gm_get m k = Some v)}"
  by (force simp: gm_rows_def gm_mem_iff [symmetric])

lemma mem_map_filter: "y \<in> set (List.map_filter f xs) \<longleftrightarrow> (\<exists>x \<in> set xs. f x = Some y)"
  by (induction xs) (auto simp: map_filter_simps split: option.splits)

text \<open>A loop that copies rows into another map.\<close>

lemma gm_get_fold_put:
  "gm_wf cs \<Longrightarrow> gm_get (fold (\<lambda>(k, v) m. gm_put k v m) cs m0) k =
     (case gm_get cs k of None \<Rightarrow> gm_get m0 k | Some v \<Rightarrow> Some v)"
proof (induction cs arbitrary: m0)
  case (Cons kv cs)
  obtain k' v' where kv: "kv = (k', v')" by (cases kv)
  from Cons.prems have "gm_wf cs" "gm_get cs k' = None"
    by (auto simp: gm_wf_def gm_get_def kv map_of_eq_None_iff)
  moreover have "gm_get (kv # cs) k = (if k = k' then Some v' else gm_get cs k)" by (auto simp: gm_get_def kv)
  ultimately show ?case using Cons.IH [of "gm_put k' v' m0"] by (auto simp: kv split: option.splits)
qed simp

text \<open>A property of every row of a table, and a property of every two different rows.\<close>

definition gm_all :: "('k \<Rightarrow> 'v \<Rightarrow> bool) \<Rightarrow> ('k, 'v) gomap \<Rightarrow> bool" where
  "gm_all P m \<longleftrightarrow> (\<forall>k v. gm_get m k = Some v \<longrightarrow> P k v)"

definition gm_pairs :: "('v \<Rightarrow> 'v \<Rightarrow> bool) \<Rightarrow> ('k, 'v) gomap \<Rightarrow> bool" where
  "gm_pairs Q m \<longleftrightarrow>
     (\<forall>k v k' v'. gm_get m k = Some v \<longrightarrow> gm_get m k' = Some v' \<longrightarrow> k \<noteq> k' \<longrightarrow> Q v v')"

lemma gm_allD: "gm_all P m \<Longrightarrow> gm_get m k = Some v \<Longrightarrow> P k v"
  by (simp add: gm_all_def)

lemma gm_pairsD: "gm_pairs Q m \<Longrightarrow> gm_get m k = Some v \<Longrightarrow> gm_get m k' = Some v' \<Longrightarrow> k \<noteq> k' \<Longrightarrow> Q v v'"
  by (simp add: gm_pairs_def)

lemma gm_all_mono: "gm_all P m \<Longrightarrow> (\<And>k v. gm_get m k = Some v \<Longrightarrow> P k v \<Longrightarrow> P' k v) \<Longrightarrow> gm_all P' m"
  by (simp add: gm_all_def)

lemma gm_all_Nil [simp]: "gm_all P []"
  by (simp add: gm_all_def)

lemma gm_pairs_Nil [simp]: "gm_pairs Q []"
  by (simp add: gm_pairs_def)

lemma gm_all_put: "gm_all P m \<Longrightarrow> P k v \<Longrightarrow> gm_all P (gm_put k v m)"
  by (simp add: gm_all_def)

lemma gm_pairs_put:
  assumes "gm_pairs Q m" "\<And>k' v'. gm_get m k' = Some v' \<Longrightarrow> k' \<noteq> k \<Longrightarrow> Q v v' \<and> Q v' v"
  shows "gm_pairs Q (gm_put k v m)"
  using assms by (auto simp: gm_pairs_def)

lemma gm_all_map: "gm_all P m \<Longrightarrow> (\<And>k v. gm_get m k = Some v \<Longrightarrow> P k v \<Longrightarrow> P' k (f k v)) \<Longrightarrow> gm_all P' (gm_map f m)"
  by (auto simp: gm_all_def)

lemma gm_pairs_map:
  assumes "gm_pairs Q m"
    and "\<And>k v k' v'. gm_get m k = Some v \<Longrightarrow> gm_get m k' = Some v' \<Longrightarrow> k \<noteq> k' \<Longrightarrow> Q v v' \<Longrightarrow> Q' (f k v) (f k' v')"
  shows "gm_pairs Q' (gm_map f m)"
  using assms by (auto simp: gm_pairs_def)

section \<open>Sorting\<close>

text \<open>\<open>sort.Slice\<close> with the comparison function of the code.\<close>

fun insert_by :: "('a \<Rightarrow> 'a \<Rightarrow> bool) \<Rightarrow> 'a \<Rightarrow> 'a list \<Rightarrow> 'a list" where
  "insert_by lt x [] = [x]"
| "insert_by lt x (y # ys) = (if lt y x then y # insert_by lt x ys else x # y # ys)"

fun sort_by :: "('a \<Rightarrow> 'a \<Rightarrow> bool) \<Rightarrow> 'a list \<Rightarrow> 'a list" where
  "sort_by lt [] = []"
| "sort_by lt (x # xs) = insert_by lt x (sort_by lt xs)"

lemma set_insert_by [simp]: "set (insert_by lt x ys) = insert x (set ys)"
  by (induction ys) auto

lemma length_insert_by [simp]: "length (insert_by lt x ys) = Suc (length ys)"
  by (induction ys) auto

lemma set_sort_by [simp]: "set (sort_by lt xs) = set xs"
  by (induction xs) auto

lemma length_sort_by [simp]: "length (sort_by lt xs) = length xs"
  by (induction xs) auto

lemma distinct_insert_by: "distinct (insert_by lt x ys) \<longleftrightarrow> x \<notin> set ys \<and> distinct ys"
  by (induction ys) auto

lemma distinct_sort_by [simp]: "distinct (sort_by lt xs) \<longleftrightarrow> distinct xs"
  by (induction xs) (auto simp: distinct_insert_by)

text \<open>
  The contract a comparison function owes its caller: it is asymmetric and its negation is
  transitive (a strict weak order). Every comparison the sources pass to \<open>sort.Slice\<close> is an instance.
\<close>

locale comparator =
  fixes lt :: "'a \<Rightarrow> 'a \<Rightarrow> bool"
  assumes asym: "lt x y \<Longrightarrow> \<not> lt y x"
    and negtrans: "\<not> lt y x \<Longrightarrow> \<not> lt z y \<Longrightarrow> \<not> lt z x"
begin

lemma sorted_insert_by:
  assumes "sorted_wrt (\<lambda>a b. \<not> lt b a) ys"
  shows "sorted_wrt (\<lambda>a b. \<not> lt b a) (insert_by lt x ys)"
  using assms
proof (induction ys)
  case Nil
  then show ?case by simp
next
  case (Cons y ys)
  then have ys: "sorted_wrt (\<lambda>a b. \<not> lt b a) ys" and y: "\<forall>b \<in> set ys. \<not> lt b y" by auto
  show ?case
  proof (cases "lt y x")
    case True
    then have "\<not> lt x y" by (rule asym)
    with True y Cons.IH [OF ys] show ?thesis by simp
  next
    case False
    then have "\<forall>b \<in> set ys. \<not> lt b x" using y negtrans by blast
    with False ys y show ?thesis by simp
  qed
qed

lemma sorted_sort_by: "sorted_wrt (\<lambda>a b. \<not> lt b a) (sort_by lt xs)"
  by (induction xs) (auto intro: sorted_insert_by)

end

text \<open>Sorting by a key in ascending or in descending order, and by two keys one after the other.\<close>

definition by_asc :: "('a \<Rightarrow> 'k::linorder) \<Rightarrow> 'a \<Rightarrow> 'a \<Rightarrow> bool" where
  "by_asc key x y \<longleftrightarrow> key x < key y"

definition by_desc :: "('a \<Rightarrow> 'k::linorder) \<Rightarrow> 'a \<Rightarrow> 'a \<Rightarrow> bool" where
  "by_desc key x y \<longleftrightarrow> key y < key x"

definition then_by :: "('a \<Rightarrow> 'k) \<Rightarrow> ('a \<Rightarrow> 'a \<Rightarrow> bool) \<Rightarrow> ('a \<Rightarrow> 'a \<Rightarrow> bool) \<Rightarrow> 'a \<Rightarrow> 'a \<Rightarrow> bool" where
  "then_by key lt1 lt2 x y \<longleftrightarrow> (if key x = key y then lt2 x y else lt1 x y)"

interpretation asc: comparator "by_asc key" for key :: "'a \<Rightarrow> 'k::linorder"
  by unfold_locales (auto simp: by_asc_def)

interpretation desc: comparator "by_desc key" for key :: "'a \<Rightarrow> 'k::linorder"
  by unfold_locales (auto simp: by_desc_def)

interpretation asc_asc: comparator "then_by key (by_asc key) (by_asc key2)"
  for key :: "'a \<Rightarrow> 'k::linorder" and key2 :: "'a \<Rightarrow> 'l::linorder"
  by unfold_locales (auto simp: then_by_def by_asc_def split: if_splits)

interpretation desc_desc: comparator "then_by key (by_desc key) (by_desc key2)"
  for key :: "'a \<Rightarrow> 'k::linorder" and key2 :: "'a \<Rightarrow> 'l::linorder"
  by unfold_locales (auto simp: then_by_def by_desc_def split: if_splits)

interpretation desc_asc: comparator "then_by key (by_desc key) (by_asc key2)"
  for key :: "'a \<Rightarrow> 'k::linorder" and key2 :: "'a \<Rightarrow> 'l::linorder"
  by unfold_locales (auto simp: then_by_def by_desc_def by_asc_def split: if_splits)

section \<open>Transition systems\<close>

text \<open>
  The states a component can reach from its initial state, and the rule that an invariant of every
  step holds in all of them. Each stateful component interprets the locale on its own step relation.
\<close>

inductive reach :: "('s \<Rightarrow> bool) \<Rightarrow> ('s \<Rightarrow> 's \<Rightarrow> bool) \<Rightarrow> 's \<Rightarrow> bool"
  for init :: "'s \<Rightarrow> bool" and step :: "'s \<Rightarrow> 's \<Rightarrow> bool" where
  reach_init: "init s \<Longrightarrow> reach init step s"
| reach_step: "reach init step s \<Longrightarrow> step s t \<Longrightarrow> reach init step t"

locale invariant_system =
  fixes init :: "'s \<Rightarrow> bool" and step :: "'s \<Rightarrow> 's \<Rightarrow> bool" and inv :: "'s \<Rightarrow> bool"
  assumes inv_init: "init s \<Longrightarrow> inv s"
    and inv_step: "inv s \<Longrightarrow> step s t \<Longrightarrow> inv t"
begin

lemma reach_inv: "reach init step s \<Longrightarrow> inv s"
  by (induction rule: reach.induct) (auto intro: inv_init inv_step)

lemma steps_inv: "step\<^sup>*\<^sup>* s t \<Longrightarrow> inv s \<Longrightarrow> inv t"
  by (induction rule: rtranclp_induct) (auto intro: inv_step)

end

end
