(* ===== verification/Lease_Keys.thy ===== *)
theory Lease_Keys
  imports Go_Prelude
begin

text \<open>
  The Valkey keys of one ingest lease (\<open>src/internal/ingestlease/keys.go\<close>): a lease reference is
  a provider and a provider device id; \<open>Validate\<close> refuses references that could not be embedded in
  a hash tag, and \<open>KeysForRef\<close> builds the lease, session and fence keys.
\<close>

record LeaseRef =
  Provider :: string
  ProviderDeviceID :: string

record LeaseKeys =
  HashTag :: string
  LeaseKey :: string
  SessionKey :: string
  FenceKey :: string

datatype ref_error =
    ProviderRequired
  | ProviderDeviceIDRequired
  | ProviderReserved
  | ProviderDeviceIDReserved

definition keyPrefixIngest :: string where
  "keyPrefixIngest = ''pulse:v1:ingest''"

definition Validate :: "LeaseRef \<Rightarrow> ref_error option" where
  "Validate r =
     (let provider = TrimSpace (Provider r);
          deviceID = TrimSpace (ProviderDeviceID r)
      in if provider = [] then Some ProviderRequired
         else if deviceID = [] then Some ProviderDeviceIDRequired
         else if ContainsAny provider ''{}|'' then Some ProviderReserved
         else if ContainsAny deviceID ''{}|'' then Some ProviderDeviceIDReserved
         else None)"

definition KeysForRef :: "LeaseRef \<Rightarrow> ref_error + LeaseKeys" where
  "KeysForRef ref =
     (case Validate ref of
        Some e \<Rightarrow> Inl e
      | None \<Rightarrow>
          (let provider = TrimSpace (Provider ref);
               deviceID = TrimSpace (ProviderDeviceID ref);
               tag = ''{'' @ provider @ ''|'' @ deviceID @ ''}''
           in Inr \<lparr>HashTag = tag,
                   LeaseKey = keyPrefixIngest @ '':lease:'' @ tag,
                   SessionKey = keyPrefixIngest @ '':session:'' @ tag,
                   FenceKey = keyPrefixIngest @ '':fence:'' @ tag\<rparr>))"

definition normalizedRef :: "LeaseRef \<Rightarrow> LeaseRef" where
  "normalizedRef ref =
     \<lparr>Provider = TrimSpace (Provider ref), ProviderDeviceID = TrimSpace (ProviderDeviceID ref)\<rparr>"

section \<open>Keys identify the lease they belong to\<close>

lemma sep_append_inject:
  assumes "x \<notin> set a" "x \<notin> set a'"
  shows "a @ x # b = a' @ x # b' \<longleftrightarrow> a = a' \<and> b = b'"
proof
  assume eq: "a @ x # b = a' @ x # b'"
  have "takeWhile (\<lambda>c. c \<noteq> x) (a @ x # b) = a" "takeWhile (\<lambda>c. c \<noteq> x) (a' @ x # b') = a'"
    using assms by (simp_all add: takeWhile_append)
  with eq have "a = a'" by simp
  with eq show "a = a' \<and> b = b'" by simp
qed auto

lemma Validate_None_iff:
  "Validate r = None \<longleftrightarrow>
     TrimSpace (Provider r) \<noteq> [] \<and> TrimSpace (ProviderDeviceID r) \<noteq> [] \<and>
     \<not> ContainsAny (TrimSpace (Provider r)) ''{}|'' \<and>
     \<not> ContainsAny (TrimSpace (ProviderDeviceID r)) ''{}|''"
  by (simp add: Validate_def Let_def)

lemma KeysForRef_Inr_Validate: "KeysForRef ref = Inr ks \<Longrightarrow> Validate ref = None"
  by (cases "Validate ref") (simp_all add: KeysForRef_def)

lemma KeysForRef_InrD:
  assumes "KeysForRef ref = Inr ks"
  shows "CHR ''|'' \<notin> set (TrimSpace (Provider ref))"
    and "HashTag ks = CHR ''{'' # TrimSpace (Provider ref) @ CHR ''|'' # TrimSpace (ProviderDeviceID ref) @ ''}''"
    and "LeaseKey ks = keyPrefixIngest @ '':lease:'' @ HashTag ks"
    and "SessionKey ks = keyPrefixIngest @ '':session:'' @ HashTag ks"
    and "FenceKey ks = keyPrefixIngest @ '':fence:'' @ HashTag ks"
proof -
  have v: "Validate ref = None" using assms by (rule KeysForRef_Inr_Validate)
  then have "\<not> ContainsAny (TrimSpace (Provider ref)) ''{}|''" by (simp add: Validate_None_iff)
  then show "CHR ''|'' \<notin> set (TrimSpace (Provider ref))" by (auto simp: ContainsAny_def)
  let ?tag = "CHR ''{'' # TrimSpace (Provider ref) @ CHR ''|'' # TrimSpace (ProviderDeviceID ref) @ ''}''"
  from assms v have "ks = \<lparr>HashTag = ?tag, LeaseKey = keyPrefixIngest @ '':lease:'' @ ?tag,
      SessionKey = keyPrefixIngest @ '':session:'' @ ?tag, FenceKey = keyPrefixIngest @ '':fence:'' @ ?tag\<rparr>"
    by (simp add: KeysForRef_def Let_def)
  then show "HashTag ks = ?tag" "LeaseKey ks = keyPrefixIngest @ '':lease:'' @ HashTag ks"
    "SessionKey ks = keyPrefixIngest @ '':session:'' @ HashTag ks"
    "FenceKey ks = keyPrefixIngest @ '':fence:'' @ HashTag ks"
    by simp_all
qed

lemma HashTag_inject:
  assumes "KeysForRef r1 = Inr k1" "KeysForRef r2 = Inr k2"
  shows "HashTag k1 = HashTag k2 \<longleftrightarrow> normalizedRef r1 = normalizedRef r2"
  unfolding KeysForRef_InrD(2) [OF assms(1)] KeysForRef_InrD(2) [OF assms(2)]
  by (simp add: sep_append_inject KeysForRef_InrD(1) [OF assms(1)] KeysForRef_InrD(1) [OF assms(2)]
      normalizedRef_def)

lemma KeysForRef_roles_distinct:
  assumes "KeysForRef r1 = Inr k1" "KeysForRef r2 = Inr k2"
  shows "LeaseKey k1 \<noteq> SessionKey k2" and "LeaseKey k1 \<noteq> FenceKey k2" and "SessionKey k1 \<noteq> FenceKey k2"
  by (simp_all add: KeysForRef_InrD(3-5) [OF assms(1)] KeysForRef_InrD(3-5) [OF assms(2)] keyPrefixIngest_def)

lemma KeysForRef_error_iff:
  "(\<exists>e. KeysForRef ref = Inl e) \<longleftrightarrow>
     TrimSpace (Provider ref) = [] \<or> TrimSpace (ProviderDeviceID ref) = [] \<or>
     ContainsAny (TrimSpace (Provider ref)) ''{}|'' \<or>
     ContainsAny (TrimSpace (ProviderDeviceID ref)) ''{}|''"
  by (auto simp: KeysForRef_def Validate_def Let_def)

lemma KeysForRef_normalizedRef [simp]: "KeysForRef (normalizedRef ref) = KeysForRef ref"
  by (simp add: KeysForRef_def Validate_def normalizedRef_def Let_def)

end
