(* ===== verification/Lease_Scripts.thy ===== *)
theory Lease_Scripts
  imports Lease_Keys
begin

text \<open>
  The three Lua scripts of \<open>src/internal/ingestlease/scripts.go\<close>, each executed atomically by the
  Valkey server. The server and its Lua runtime are not part of the repository: the commands the
  scripts call are the fields of a record, an argument of every script, and the documented laws of
  those commands are the assumptions of the locale \<open>valkey_server\<close>. The last section gives a
  reference server that satisfies them.
\<close>

section \<open>The server the scripts run on\<close>

record 'db valkey =
  vk_exists :: "'db \<Rightarrow> string \<Rightarrow> bool"
  vk_hget :: "'db \<Rightarrow> string \<Rightarrow> string \<Rightarrow> string option"
  vk_incr :: "'db \<Rightarrow> string \<Rightarrow> ('db \<times> int) option"
  vk_hset :: "'db \<Rightarrow> string \<Rightarrow> (string \<times> string) list \<Rightarrow> 'db"
  vk_pexpire :: "'db \<Rightarrow> string \<Rightarrow> int \<Rightarrow> 'db"
  vk_del :: "'db \<Rightarrow> string \<Rightarrow> 'db"
  lua_tostring :: "int \<Rightarrow> string"
  lua_tonumber :: "string \<Rightarrow> int"
  lua_number_arg :: "int \<Rightarrow> string"

datatype resp = RInt int | RBulk string | RArray "resp list"

datatype script_error = IncrFailed

definition leaseStateActive :: string where
  "leaseStateActive = ''active''"

definition leaseStateDraining :: string where
  "leaseStateDraining = ''draining''"

section \<open>The scripts\<close>

definition hget_or :: "'db valkey \<Rightarrow> 'db \<Rightarrow> string \<Rightarrow> string \<Rightarrow> string \<Rightarrow> string" where
  "hget_or vk db k f d = (case vk_hget vk db k f of None \<Rightarrow> d | Some v \<Rightarrow> v)"

definition leaseAcquireScript ::
    "'db valkey \<Rightarrow> LeaseKeys \<Rightarrow> string \<Rightarrow> string \<Rightarrow> string \<Rightarrow> string \<Rightarrow> string \<Rightarrow> string \<Rightarrow>
       'db \<Rightarrow> 'db \<times> (script_error + resp)" where
  "leaseAcquireScript vk keys token worker_id ttl_arg now_ms provider provider_device_id db =
     (let lease_key = LeaseKey keys; session_key = SessionKey keys; fence_key = FenceKey keys;
          ttl_ms = lua_tonumber vk ttl_arg
      in if vk_exists vk db lease_key then
           (let current_token = hget_or vk db lease_key ''token'' '''';
                current_fence = lua_tonumber vk (hget_or vk db lease_key ''fence'' ''0'')
            in (db, Inr (RArray [RInt 0, RInt current_fence, RBulk current_token])))
         else
           (case vk_incr vk db fence_key of
              None \<Rightarrow> (db, Inl IncrFailed)
            | Some (db1, next_fence) \<Rightarrow>
                (let fence_str = lua_tostring vk next_fence;
                     db2 = vk_hset vk db1 lease_key
                       [(''token'', token), (''worker_id'', worker_id), (''fence'', fence_str),
                        (''state'', leaseStateActive), (''updated_at'', now_ms)];
                     db3 = vk_pexpire vk db2 lease_key ttl_ms;
                     db4 = vk_hset vk db3 session_key
                       [(''token'', token), (''worker_id'', worker_id), (''fence'', fence_str),
                        (''provider'', provider), (''provider_device_id'', provider_device_id),
                        (''state'', leaseStateActive), (''updated_at'', now_ms)];
                     db5 = vk_pexpire vk db4 session_key ttl_ms
                 in (db5, Inr (RArray [RInt 1, RInt next_fence, RBulk token])))))"

definition leaseRenewScript ::
    "'db valkey \<Rightarrow> LeaseKeys \<Rightarrow> string \<Rightarrow> string \<Rightarrow> string \<Rightarrow> string \<Rightarrow> string \<Rightarrow>
       'db \<Rightarrow> 'db \<times> (script_error + resp)" where
  "leaseRenewScript vk keys token worker_id ttl_arg now_ms state db =
     (let lease_key = LeaseKey keys; session_key = SessionKey keys;
          ttl_ms = lua_tonumber vk ttl_arg
      in if \<not> vk_exists vk db lease_key then
           (db, Inr (RArray [RInt 0, RInt 0, RBulk ''missing'']))
         else if vk_hget vk db lease_key ''token'' \<noteq> Some token then
           (let current_fence = lua_tonumber vk (hget_or vk db lease_key ''fence'' ''0'')
            in (db, Inr (RArray [RInt 0, RInt current_fence, RBulk ''token_mismatch''])))
         else
           (let current_fence = lua_tonumber vk (hget_or vk db lease_key ''fence'' ''0'');
                db1 = vk_hset vk db lease_key
                  [(''worker_id'', worker_id), (''state'', state), (''updated_at'', now_ms)];
                db2 = vk_pexpire vk db1 lease_key ttl_ms;
                db3 = vk_hset vk db2 session_key
                  [(''token'', token), (''worker_id'', worker_id),
                   (''fence'', lua_number_arg vk current_fence),
                   (''state'', state), (''updated_at'', now_ms)];
                db4 = vk_pexpire vk db3 session_key ttl_ms
            in (db4, Inr (RArray [RInt 1, RInt current_fence, RBulk state]))))"

definition leaseReleaseScript ::
    "'db valkey \<Rightarrow> LeaseKeys \<Rightarrow> string \<Rightarrow> 'db \<Rightarrow> 'db \<times> (script_error + resp)" where
  "leaseReleaseScript vk keys token db =
     (let lease_key = LeaseKey keys; session_key = SessionKey keys
      in if \<not> vk_exists vk db lease_key then (db, Inr (RArray [RInt 0, RBulk ''missing'']))
         else if vk_hget vk db lease_key ''token'' \<noteq> Some token then
           (db, Inr (RArray [RInt 0, RBulk ''token_mismatch'']))
         else
           (let db1 = vk_del vk db lease_key; db2 = vk_del vk db1 session_key
            in (db2, Inr (RArray [RInt 1, RBulk ''released'']))))"

section \<open>The laws of the server\<close>

text \<open>
  \<open>counter db k\<close> is what the integer commands see at a key: \<open>Some 0\<close> for a missing key, \<open>None\<close> for
  a key that does not hold an integer. Lua prints a number with fourteen significant digits, so
  \<open>tostring\<close> and \<open>tonumber\<close> are inverse to each other below \<open>10^14\<close>. A \<open>PEXPIRE\<close> with a
  positive timeout changes nothing a script can see at once; with a timeout of zero or less it
  deletes the key.
\<close>

definition fence_limit :: int where
  "fence_limit = 10 ^ 14"

locale valkey_server =
  fixes vk :: "'db valkey" and counter :: "'db \<Rightarrow> string \<Rightarrow> int option"
  assumes exists_hset: "fvs \<noteq> [] \<Longrightarrow>
        vk_exists vk (vk_hset vk db k fvs) k' \<longleftrightarrow> k' = k \<or> vk_exists vk db k'"
    and hget_hset: "vk_hget vk (vk_hset vk db k fvs) k' f =
        (if k' = k then (case map_of (rev fvs) f of None \<Rightarrow> vk_hget vk db k f | Some v \<Rightarrow> Some v)
         else vk_hget vk db k' f)"
    and counter_hset: "k' \<noteq> k \<Longrightarrow> counter (vk_hset vk db k fvs) k' = counter db k'"
    and hget_missing: "\<not> vk_exists vk db k \<Longrightarrow> vk_hget vk db k f = None"
    and incr_ok: "counter db k = Some c \<Longrightarrow> c < 2 ^ 63 - 1 \<Longrightarrow>
        \<exists>db'. vk_incr vk db k = Some (db', c + 1) \<and> counter db' k = Some (c + 1) \<and>
          (\<forall>k'. k' \<noteq> k \<longrightarrow> counter db' k' = counter db k' \<and>
             vk_exists vk db' k' = vk_exists vk db k' \<and>
             (\<forall>f. vk_hget vk db' k' f = vk_hget vk db k' f))"
    and incr_fails: "(\<forall>c. counter db k = Some c \<longrightarrow> 2 ^ 63 - 1 \<le> c) \<Longrightarrow> vk_incr vk db k = None"
    and pexpire_pos: "0 < ttl \<Longrightarrow> ttl < fence_limit \<Longrightarrow>
        vk_exists vk (vk_pexpire vk db k ttl) k' = vk_exists vk db k' \<and>
        vk_hget vk (vk_pexpire vk db k ttl) k' f = vk_hget vk db k' f \<and>
        counter (vk_pexpire vk db k ttl) k' = counter db k'"
    and pexpire_nonpos: "ttl \<le> 0 \<Longrightarrow> vk_pexpire vk db k ttl = vk_del vk db k"
    and exists_del: "vk_exists vk (vk_del vk db k) k' \<longleftrightarrow> k' \<noteq> k \<and> vk_exists vk db k'"
    and hget_del: "k' \<noteq> k \<Longrightarrow> vk_hget vk (vk_del vk db k) k' f = vk_hget vk db k' f"
    and counter_del: "k' \<noteq> k \<Longrightarrow> counter (vk_del vk db k) k' = counter db k'"
    and tonumber_tostring: "0 \<le> n \<Longrightarrow> n < fence_limit \<Longrightarrow> lua_tonumber vk (lua_tostring vk n) = n"
    and tonumber_Itoa: "0 \<le> n \<Longrightarrow> n < fence_limit \<Longrightarrow> lua_tonumber vk (Itoa n) = n"

section \<open>The abstract lease\<close>

text \<open>
  What the scripts implement for one lease group: at most one owner, a token with the fence it was
  granted, and the last fence ever granted.
\<close>

record lease_state =
  owner :: "(string \<times> int) option"
  last_fence :: int

datatype acquire_reply = Granted int | Denied int string
datatype renew_reply = Renewed int | RenewMissing | RenewMismatch int
datatype release_reply = Released | ReleaseMissing | ReleaseMismatch

definition spec_acquire :: "string \<Rightarrow> lease_state \<Rightarrow> lease_state \<times> acquire_reply" where
  "spec_acquire token st =
     (case owner st of
        Some (t, f) \<Rightarrow> (st, Denied f t)
      | None \<Rightarrow>
          (st\<lparr>owner := Some (token, last_fence st + 1), last_fence := last_fence st + 1\<rparr>,
           Granted (last_fence st + 1)))"

definition spec_renew :: "string \<Rightarrow> lease_state \<Rightarrow> lease_state \<times> renew_reply" where
  "spec_renew token st =
     (case owner st of
        None \<Rightarrow> (st, RenewMissing)
      | Some (t, f) \<Rightarrow> (st, if t = token then Renewed f else RenewMismatch f))"

definition spec_release :: "string \<Rightarrow> lease_state \<Rightarrow> lease_state \<times> release_reply" where
  "spec_release token st =
     (case owner st of
        None \<Rightarrow> (st, ReleaseMissing)
      | Some (t, f) \<Rightarrow>
          if t = token then (st\<lparr>owner := None\<rparr>, Released) else (st, ReleaseMismatch))"

text \<open>How the database stores an abstract lease, and how a reply encodes an abstract answer.\<close>

definition lease_rep ::
    "'db valkey \<Rightarrow> ('db \<Rightarrow> string \<Rightarrow> int option) \<Rightarrow> LeaseKeys \<Rightarrow> 'db \<Rightarrow> lease_state \<Rightarrow> bool" where
  "lease_rep vk counter ks db st \<longleftrightarrow>
     counter db (FenceKey ks) = Some (last_fence st) \<and> 0 \<le> last_fence st \<and>
     last_fence st < fence_limit \<and>
     (case owner st of
        None \<Rightarrow> \<not> vk_exists vk db (LeaseKey ks)
      | Some (t, f) \<Rightarrow>
          vk_exists vk db (LeaseKey ks) \<and>
          vk_hget vk db (LeaseKey ks) ''token'' = Some t \<and>
          vk_hget vk db (LeaseKey ks) ''fence'' = Some (lua_tostring vk f) \<and>
          0 \<le> f \<and> f \<le> last_fence st)"

fun enc_acquire :: "string \<Rightarrow> acquire_reply \<Rightarrow> resp" where
  "enc_acquire token (Granted f) = RArray [RInt 1, RInt f, RBulk token]"
| "enc_acquire token (Denied f t) = RArray [RInt 0, RInt f, RBulk t]"

fun enc_renew :: "string \<Rightarrow> renew_reply \<Rightarrow> resp" where
  "enc_renew state (Renewed f) = RArray [RInt 1, RInt f, RBulk state]"
| "enc_renew state RenewMissing = RArray [RInt 0, RInt 0, RBulk ''missing'']"
| "enc_renew state (RenewMismatch f) = RArray [RInt 0, RInt f, RBulk ''token_mismatch'']"

fun enc_release :: "release_reply \<Rightarrow> resp" where
  "enc_release Released = RArray [RInt 1, RBulk ''released'']"
| "enc_release ReleaseMissing = RArray [RInt 0, RBulk ''missing'']"
| "enc_release ReleaseMismatch = RArray [RInt 0, RBulk ''token_mismatch'']"

definition keys_ok :: "LeaseKeys \<Rightarrow> bool" where
  "keys_ok ks \<longleftrightarrow> (\<exists>ref. KeysForRef ref = Inr ks)"

lemma keys_ok_distinct:
  "keys_ok ks \<Longrightarrow> LeaseKey ks \<noteq> SessionKey ks"
  "keys_ok ks \<Longrightarrow> LeaseKey ks \<noteq> FenceKey ks"
  "keys_ok ks \<Longrightarrow> SessionKey ks \<noteq> FenceKey ks"
  by (auto simp: keys_ok_def dest: KeysForRef_roles_distinct)

lemma keys_ok_other:
  assumes "keys_ok ks" "keys_ok ks'" "HashTag ks \<noteq> HashTag ks'"
  shows "{LeaseKey ks, SessionKey ks, FenceKey ks} \<inter> {LeaseKey ks', SessionKey ks', FenceKey ks'} = {}"
proof -
  from assms obtain r r' where r: "KeysForRef r = Inr ks" "KeysForRef r' = Inr ks'"
    by (auto simp: keys_ok_def)
  note k = KeysForRef_InrD(3-5) [OF r(1)] KeysForRef_InrD(3-5) [OF r(2)]
  have "LeaseKey ks \<noteq> LeaseKey ks'" "SessionKey ks \<noteq> SessionKey ks'" "FenceKey ks \<noteq> FenceKey ks'"
    using assms(3) by (simp_all add: k)
  with KeysForRef_roles_distinct [OF r] KeysForRef_roles_distinct [OF r(2) r(1)]
  show ?thesis by auto
qed

definition untouched ::
    "'db valkey \<Rightarrow> ('db \<Rightarrow> string \<Rightarrow> int option) \<Rightarrow> string \<Rightarrow> 'db \<Rightarrow> 'db \<Rightarrow> bool" where
  "untouched vk counter k db db' \<longleftrightarrow>
     vk_exists vk db' k = vk_exists vk db k \<and>
     (\<forall>f. vk_hget vk db' k f = vk_hget vk db k f) \<and> counter db' k = counter db k"

lemma untouched_refl [simp]: "untouched vk counter k a a"
  by (simp add: untouched_def)

lemma untouched_trans [trans]:
  "untouched vk counter k a b \<Longrightarrow> untouched vk counter k b c \<Longrightarrow> untouched vk counter k a c"
  by (simp add: untouched_def)

lemma lease_rep_untouched:
  assumes "lease_rep vk counter ks db st"
    and "untouched vk counter (LeaseKey ks) db db'" and "untouched vk counter (FenceKey ks) db db'"
  shows "lease_rep vk counter ks db' st"
  using assms by (auto simp: lease_rep_def untouched_def split: option.splits)

context valkey_server
begin

lemma untouched_hset: "k' \<noteq> k \<Longrightarrow> fvs \<noteq> [] \<Longrightarrow> untouched vk counter k' db (vk_hset vk db k fvs)"
  by (simp add: untouched_def exists_hset hget_hset counter_hset)

lemma untouched_del: "k' \<noteq> k \<Longrightarrow> untouched vk counter k' db (vk_del vk db k)"
  by (simp add: untouched_def exists_del hget_del counter_del)

lemma untouched_pexpire_pos:
  "0 < ttl \<Longrightarrow> ttl < fence_limit \<Longrightarrow> untouched vk counter k' db (vk_pexpire vk db k ttl)"
  by (simp add: untouched_def pexpire_pos)

lemma incr_below:
  assumes "counter db k = Some c" "c < fence_limit"
  obtains db' where "vk_incr vk db k = Some (db', c + 1)" "counter db' k = Some (c + 1)"
    "\<And>k'. k' \<noteq> k \<Longrightarrow> untouched vk counter k' db db'"
proof -
  have "c < 2 ^ 63 - 1" using assms(2) by (simp add: fence_limit_def)
  from incr_ok [OF assms(1) this] show thesis using that by (auto simp: untouched_def)
qed

text \<open>The writes of a grant and of a renewal: one hash update and one timeout on each key.\<close>

lemma lease_writes:
  fixes db :: 'db
  assumes ks: "keys_ok ks" and ttl: "0 < ttl" "ttl < fence_limit" and ne: "fvs \<noteq> []" "svs \<noteq> []"
  defines "db' \<equiv> vk_pexpire vk (vk_hset vk (vk_pexpire vk (vk_hset vk db (LeaseKey ks) fvs)
                    (LeaseKey ks) ttl) (SessionKey ks) svs) (SessionKey ks) ttl"
  shows "vk_exists vk db' (LeaseKey ks)"
    and "vk_hget vk db' (LeaseKey ks) f =
           (case map_of (rev fvs) f of None \<Rightarrow> vk_hget vk db (LeaseKey ks) f | Some v \<Rightarrow> Some v)"
    and "counter db' (FenceKey ks) = counter db (FenceKey ks)"
  using keys_ok_distinct [OF ks] ne
  by (simp_all add: db'_def pexpire_pos [OF ttl] exists_hset hget_hset counter_hset)

lemma acquire_refines:
  assumes ks: "keys_ok ks" and rep: "lease_rep vk counter ks db st"
    and room: "last_fence st + 1 < fence_limit" and ttl: "0 < ttl" "ttl < fence_limit"
  shows "\<exists>db'. leaseAcquireScript vk ks token wid (Itoa ttl) now prov pdid db
           = (db', Inr (enc_acquire token (snd (spec_acquire token st)))) \<and>
         lease_rep vk counter ks db' (fst (spec_acquire token st))"
proof (cases "owner st")
  case (Some tf)
  obtain t f where tf: "tf = (t, f)" by (cases tf)
  with Some rep have "vk_exists vk db (LeaseKey ks)" "hget_or vk db (LeaseKey ks) ''token'' '''' = t"
    "lua_tonumber vk (hget_or vk db (LeaseKey ks) ''fence'' ''0'') = f"
    by (simp_all add: lease_rep_def hget_or_def tonumber_tostring)
  with Some tf rep show ?thesis by (simp add: leaseAcquireScript_def spec_acquire_def)
next
  case None
  with rep have c: "counter db (FenceKey ks) = Some (last_fence st)" "0 \<le> last_fence st"
    "last_fence st < fence_limit" and free: "\<not> vk_exists vk db (LeaseKey ks)"
    by (simp_all add: lease_rep_def)
  from c(1,3) obtain db1 where incr: "vk_incr vk db (FenceKey ks) = Some (db1, last_fence st + 1)"
    "counter db1 (FenceKey ks) = Some (last_fence st + 1)"
    by (rule incr_below)
  from incr free None c room ttl show ?thesis
    by (simp add: leaseAcquireScript_def spec_acquire_def tonumber_Itoa Let_def lease_rep_def
        lease_writes [OF ks ttl])
qed

lemma renew_refines:
  assumes ks: "keys_ok ks" and rep: "lease_rep vk counter ks db st" and ttl: "0 < ttl" "ttl < fence_limit"
  shows "\<exists>db'. leaseRenewScript vk ks token wid (Itoa ttl) now state db
           = (db', Inr (enc_renew state (snd (spec_renew token st)))) \<and>
         lease_rep vk counter ks db' (fst (spec_renew token st))"
proof (cases "owner st")
  case None
  with rep show ?thesis by (simp add: leaseRenewScript_def spec_renew_def lease_rep_def)
next
  case (Some tf)
  obtain t f where tf: "tf = (t, f)" by (cases tf)
  with Some rep have "lua_tonumber vk (hget_or vk db (LeaseKey ks) ''fence'' ''0'') = f"
    by (simp add: lease_rep_def hget_or_def tonumber_tostring)
  with Some tf rep ttl show ?thesis
    by (simp add: leaseRenewScript_def spec_renew_def lease_rep_def Let_def tonumber_Itoa
        lease_writes [OF ks ttl])
qed

lemma release_refines:
  assumes ks: "keys_ok ks" and rep: "lease_rep vk counter ks db st"
  shows "\<exists>db'. leaseReleaseScript vk ks token db
           = (db', Inr (enc_release (snd (spec_release token st)))) \<and>
         lease_rep vk counter ks db' (fst (spec_release token st))"
proof (cases "owner st")
  case None
  with rep show ?thesis by (simp add: leaseReleaseScript_def spec_release_def lease_rep_def)
next
  case (Some tf)
  obtain t f where tf: "tf = (t, f)" by (cases tf)
  with Some rep keys_ok_distinct [OF ks] show ?thesis
    by (simp add: leaseReleaseScript_def spec_release_def lease_rep_def Let_def exists_del counter_del)
qed

text \<open>A timeout that fires removes the lease key or the session key; the fence key has none.\<close>

lemma expire_lease_refines:
  "keys_ok ks \<Longrightarrow> lease_rep vk counter ks db st \<Longrightarrow>
     lease_rep vk counter ks (vk_del vk db (LeaseKey ks)) (st\<lparr>owner := None\<rparr>)"
  using keys_ok_distinct [of ks] by (simp add: lease_rep_def exists_del counter_del)

lemma expire_session_refines:
  assumes "keys_ok ks" "lease_rep vk counter ks db st"
  shows "lease_rep vk counter ks (vk_del vk db (SessionKey ks)) st"
proof (rule lease_rep_untouched [OF assms(2)])
  show "untouched vk counter (LeaseKey ks) db (vk_del vk db (SessionKey ks))"
    by (rule untouched_del) (rule keys_ok_distinct(1) [OF assms(1)])
  show "untouched vk counter (FenceKey ks) db (vk_del vk db (SessionKey ks))"
    by (rule untouched_del) (rule keys_ok_distinct(3) [OF assms(1), symmetric])
qed

end

section \<open>Runs of the scripts\<close>

text \<open>
  All clients of one lease group act on the server in some order; every script is one step, and a
  timeout may remove the lease or the session key at any moment. \<open>grants\<close> records, newest first,
  the fence and the token of every acquisition that succeeded.
\<close>

record 'db lease_world =
  wdb :: 'db
  grants :: "(int \<times> string) list"

fun granted_fence :: "script_error + resp \<Rightarrow> int option" where
  "granted_fence (Inr (RArray (RInt one # RInt f # _))) = (if one = 1 then Some f else None)"
| "granted_fence _ = None"

definition record_grant :: "string \<Rightarrow> script_error + resp \<Rightarrow> (int \<times> string) list \<Rightarrow> (int \<times> string) list" where
  "record_grant token r gs = (case granted_fence r of None \<Rightarrow> gs | Some f \<Rightarrow> (f, token) # gs)"

inductive lease_step ::
    "'db valkey \<Rightarrow> ('db \<Rightarrow> string \<Rightarrow> int option) \<Rightarrow> LeaseKeys \<Rightarrow> 'db lease_world \<Rightarrow> 'db lease_world \<Rightarrow> bool"
  for vk :: "'db valkey" and counter :: "'db \<Rightarrow> string \<Rightarrow> int option" and ks :: LeaseKeys where
  step_acquire:
    "leaseAcquireScript vk ks token wid (Itoa ttl) now prov pdid (wdb w) = (db', r) \<Longrightarrow>
     0 < ttl \<Longrightarrow> ttl < fence_limit \<Longrightarrow>
     counter (wdb w) (FenceKey ks) = Some c \<Longrightarrow> c + 1 < fence_limit \<Longrightarrow>
     lease_step vk counter ks w \<lparr>wdb = db', grants = record_grant token r (grants w)\<rparr>"
| step_renew:
    "leaseRenewScript vk ks token wid (Itoa ttl) now state (wdb w) = (db', r) \<Longrightarrow>
     0 < ttl \<Longrightarrow> ttl < fence_limit \<Longrightarrow> lease_step vk counter ks w (w\<lparr>wdb := db'\<rparr>)"
| step_release:
    "leaseReleaseScript vk ks token (wdb w) = (db', r) \<Longrightarrow> lease_step vk counter ks w (w\<lparr>wdb := db'\<rparr>)"
| step_expire_lease: "lease_step vk counter ks w (w\<lparr>wdb := vk_del vk (wdb w) (LeaseKey ks)\<rparr>)"
| step_expire_session: "lease_step vk counter ks w (w\<lparr>wdb := vk_del vk (wdb w) (SessionKey ks)\<rparr>)"

definition lease_init ::
    "'db valkey \<Rightarrow> ('db \<Rightarrow> string \<Rightarrow> int option) \<Rightarrow> LeaseKeys \<Rightarrow> 'db lease_world \<Rightarrow> bool" where
  "lease_init vk counter ks w \<longleftrightarrow>
     grants w = [] \<and> \<not> vk_exists vk (wdb w) (LeaseKey ks) \<and>
     (\<exists>c. counter (wdb w) (FenceKey ks) = Some c \<and> 0 \<le> c \<and> c < fence_limit)"

definition lease_inv ::
    "'db valkey \<Rightarrow> ('db \<Rightarrow> string \<Rightarrow> int option) \<Rightarrow> LeaseKeys \<Rightarrow> 'db lease_world \<Rightarrow> bool" where
  "lease_inv vk counter ks w \<longleftrightarrow>
     (\<exists>st. lease_rep vk counter ks (wdb w) st \<and>
       sorted_wrt (>) (map fst (grants w)) \<and>
       (\<forall>g \<in> set (grants w). fst g \<le> last_fence st) \<and>
       (\<forall>t f. owner st = Some (t, f) \<longrightarrow> (\<exists>gs. grants w = (f, t) # gs)))"

locale lease_group = valkey_server vk counter
  for vk :: "'db valkey" and counter :: "'db \<Rightarrow> string \<Rightarrow> int option" +
  fixes ks :: LeaseKeys
  assumes ks_ok: "keys_ok ks"
begin

lemma lease_inv_init: "lease_init vk counter ks w \<Longrightarrow> lease_inv vk counter ks w"
  unfolding lease_init_def lease_inv_def
  by (elim conjE exE, rule_tac x = "\<lparr>owner = None, last_fence = c\<rparr>" in exI) (simp add: lease_rep_def)

lemma record_grant_enc [simp]:
  "record_grant token (Inr (enc_acquire token' r)) gs =
     (case r of Granted f \<Rightarrow> (f, token) # gs | Denied _ _ \<Rightarrow> gs)"
  by (cases r) (simp_all add: record_grant_def)

lemma lease_inv_step:
  assumes inv: "lease_inv vk counter ks w" and step: "lease_step vk counter ks w w'"
  shows "lease_inv vk counter ks w'"
proof -
  from inv obtain st where rep: "lease_rep vk counter ks (wdb w) st"
    and hist: "sorted_wrt (>) (map fst (grants w))" "\<forall>g \<in> set (grants w). fst g \<le> last_fence st"
      "\<forall>t f. owner st = Some (t, f) \<longrightarrow> (\<exists>gs. grants w = (f, t) # gs)"
    by (auto simp: lease_inv_def)
  have keep: "lease_inv vk counter ks (w\<lparr>wdb := db'\<rparr>)"
    if "lease_rep vk counter ks db' st'" "last_fence st' = last_fence st"
      "owner st' = owner st \<or> owner st' = None" for db' st'
    using that hist unfolding lease_inv_def by (intro exI [of _ st']) auto
  from step show ?thesis
  proof cases
    case (step_acquire token wid ttl now prov pdid db' r c)
    have "c = last_fence st" using step_acquire(5) rep by (simp add: lease_rep_def)
    with step_acquire acquire_refines [OF ks_ok rep, of ttl token wid now prov pdid]
    have r: "r = Inr (enc_acquire token (snd (spec_acquire token st)))"
      and rep': "lease_rep vk counter ks db' (fst (spec_acquire token st))" by auto
    show ?thesis unfolding step_acquire(1) lease_inv_def
      using rep' r hist
      by (intro exI [of _ "fst (spec_acquire token st)"])
         (fastforce simp: spec_acquire_def split: option.splits)
  next
    case (step_renew token wid ttl now state db' r)
    with renew_refines [OF ks_ok rep, of ttl token wid now state]
    have "lease_rep vk counter ks db' (fst (spec_renew token st))" by auto
    then show ?thesis unfolding step_renew(1)
      by (rule keep) (simp_all add: spec_renew_def split: option.splits)
  next
    case (step_release token db' r)
    with release_refines [OF ks_ok rep, of token]
    have "lease_rep vk counter ks db' (fst (spec_release token st))" by auto
    then show ?thesis unfolding step_release(1)
      by (rule keep) (simp_all add: spec_release_def split: option.splits)
  next
    case step_expire_lease
    show ?thesis unfolding step_expire_lease
      by (rule keep [OF expire_lease_refines [OF ks_ok rep]]) simp_all
  next
    case step_expire_session
    show ?thesis unfolding step_expire_session
      by (rule keep [OF expire_session_refines [OF ks_ok rep]]) simp_all
  qed
qed

text \<open>Only the newest grant can renew or release, and it reports its own fence.\<close>

lemma renew_only_newest:
  assumes inv: "lease_inv vk counter ks w" and ttl: "0 < ttl" "ttl < fence_limit"
    and ok: "leaseRenewScript vk ks token wid (Itoa ttl) now state (wdb w)
               = (db', Inr (RArray [RInt 1, RInt f, x]))"
  shows "\<exists>gs. grants w = (f, token) # gs"
proof -
  from inv obtain st where rep: "lease_rep vk counter ks (wdb w) st"
    and newest: "\<forall>t f. owner st = Some (t, f) \<longrightarrow> (\<exists>gs. grants w = (f, t) # gs)"
    by (auto simp: lease_inv_def)
  from renew_refines [OF ks_ok rep ttl, of token wid now state] ok
  have "enc_renew state (snd (spec_renew token st)) = RArray [RInt 1, RInt f, x]" by auto
  then have "owner st = Some (token, f)"
    by (auto simp: spec_renew_def split: option.splits if_splits)
  with newest show ?thesis by blast
qed

lemma release_only_newest:
  assumes inv: "lease_inv vk counter ks w"
    and ok: "leaseReleaseScript vk ks token (wdb w) = (db', Inr (RArray [RInt 1, x]))"
  shows "\<exists>f gs. grants w = (f, token) # gs"
proof -
  from inv obtain st where rep: "lease_rep vk counter ks (wdb w) st"
    and newest: "\<forall>t f. owner st = Some (t, f) \<longrightarrow> (\<exists>gs. grants w = (f, t) # gs)"
    by (auto simp: lease_inv_def)
  from release_refines [OF ks_ok rep, of token] ok
  have "enc_release (snd (spec_release token st)) = RArray [RInt 1, x]" by auto
  then obtain f where "owner st = Some (token, f)"
    by (auto simp: spec_release_def split: option.splits if_splits)
  with newest show ?thesis by blast
qed

end

sublocale lease_group \<subseteq> runs: invariant_system "lease_init vk counter ks" "lease_step vk counter ks"
    "lease_inv vk counter ks"
  by unfold_locales (auto intro: lease_inv_init lease_inv_step)

context lease_group
begin

lemma reach_lease_inv:
  "reach (lease_init vk counter ks) (lease_step vk counter ks) w \<Longrightarrow> lease_inv vk counter ks w"
  by (rule runs.reach_inv)

lemma fencing_laws:
  assumes "reach (lease_init vk counter ks) (lease_step vk counter ks) w"
  shows "sorted_wrt (>) (map fst (grants w)) \<and>
    (\<forall>token wid ttl now state db' f x. 0 < ttl \<longrightarrow> ttl < fence_limit \<longrightarrow>
       leaseRenewScript vk ks token wid (Itoa ttl) now state (wdb w) = (db', Inr (RArray [RInt 1, RInt f, x])) \<longrightarrow>
       (\<exists>gs. grants w = (f, token) # gs)) \<and>
    (\<forall>token db' x. leaseReleaseScript vk ks token (wdb w) = (db', Inr (RArray [RInt 1, x])) \<longrightarrow>
       (\<exists>f gs. grants w = (f, token) # gs))"
proof -
  have inv: "lease_inv vk counter ks w" using assms by (rule reach_lease_inv)
  then have "sorted_wrt (>) (map fst (grants w))" by (auto simp: lease_inv_def)
  with renew_only_newest [OF inv] release_only_newest [OF inv] show ?thesis by blast
qed

end

section \<open>A reference server\<close>

text \<open>
  A server that satisfies the laws: hashes, integer keys and the deadlines set by \<open>PEXPIRE\<close>, with
  decimal printing for the Lua numbers. It instantiates the parameter in the witnesses.
\<close>

record ref_db =
  hashes :: "(string, (string, string) gomap) gomap"
  ints :: "(string, int) gomap"
  deadlines :: "(string, int) gomap"

definition empty_db :: ref_db where
  "empty_db = \<lparr>hashes = [], ints = [], deadlines = []\<rparr>"

definition ref_counter :: "ref_db \<Rightarrow> string \<Rightarrow> int option" where
  "ref_counter db k =
     (case gm_get (hashes db) k of
        Some _ \<Rightarrow> None
      | None \<Rightarrow> Some (case gm_get (ints db) k of None \<Rightarrow> 0 | Some n \<Rightarrow> n))"

definition ref_hget :: "ref_db \<Rightarrow> string \<Rightarrow> string \<Rightarrow> string option" where
  "ref_hget db k f = (case gm_get (hashes db) k of None \<Rightarrow> None | Some h \<Rightarrow> gm_get h f)"

definition ref_exists :: "ref_db \<Rightarrow> string \<Rightarrow> bool" where
  "ref_exists db k \<longleftrightarrow> gm_get (hashes db) k \<noteq> None \<or> gm_get (ints db) k \<noteq> None"

definition ref_incr :: "ref_db \<Rightarrow> string \<Rightarrow> (ref_db \<times> int) option" where
  "ref_incr db k =
     (case ref_counter db k of
        None \<Rightarrow> None
      | Some c \<Rightarrow> if c < 2 ^ 63 - 1 then Some (db\<lparr>ints := gm_put k (c + 1) (ints db)\<rparr>, c + 1) else None)"

definition put_all :: "(string \<times> string) list \<Rightarrow> (string, string) gomap \<Rightarrow> (string, string) gomap" where
  "put_all fvs h = fold (\<lambda>(f, v) m. gm_put f v m) fvs h"

definition ref_hset :: "ref_db \<Rightarrow> string \<Rightarrow> (string \<times> string) list \<Rightarrow> ref_db" where
  "ref_hset db k fvs =
     db\<lparr>hashes := gm_put k (put_all fvs (case gm_get (hashes db) k of None \<Rightarrow> [] | Some h \<Rightarrow> h)) (hashes db)\<rparr>"

definition ref_del :: "ref_db \<Rightarrow> string \<Rightarrow> ref_db" where
  "ref_del db k = \<lparr>hashes = gm_del k (hashes db), ints = gm_del k (ints db), deadlines = gm_del k (deadlines db)\<rparr>"

definition ref_pexpire :: "ref_db \<Rightarrow> string \<Rightarrow> int \<Rightarrow> ref_db" where
  "ref_pexpire db k ttl = (if ttl \<le> 0 then ref_del db k else db\<lparr>deadlines := gm_put k ttl (deadlines db)\<rparr>)"

definition ref_tonumber :: "string \<Rightarrow> int" where
  "ref_tonumber s = int (read_base 10 s)"

definition ref_server :: "ref_db valkey" where
  "ref_server =
     \<lparr>vk_exists = ref_exists, vk_hget = ref_hget, vk_incr = ref_incr, vk_hset = ref_hset,
      vk_pexpire = ref_pexpire, vk_del = ref_del, lua_tostring = Itoa, lua_tonumber = ref_tonumber,
      lua_number_arg = Itoa\<rparr>"

lemma gm_get_put_all:
  "gm_get (put_all fvs h) f = (case map_of (rev fvs) f of None \<Rightarrow> gm_get h f | Some v \<Rightarrow> Some v)"
  by (induction fvs arbitrary: h)
     (auto simp: put_all_def map_add_def gm_get_def [symmetric] split: option.splits)

lemma ref_tonumber_Itoa: "0 \<le> n \<Longrightarrow> ref_tonumber (Itoa n) = n"
  by (simp add: ref_tonumber_def Itoa_def read_show_base)

interpretation ref_valkey: valkey_server ref_server ref_counter
proof (unfold_locales, goal_cases)
  case (1 fvs db k k')
  then show ?case by (auto simp: ref_server_def ref_exists_def ref_hset_def)
next
  case (2 db k fvs k' f)
  then show ?case by (simp add: ref_server_def ref_hget_def ref_hset_def gm_get_put_all split: option.splits)
next
  case (3 k' k db fvs)
  then show ?case by (simp add: ref_server_def ref_counter_def ref_hset_def split: option.splits)
next
  case (4 db k f)
  then show ?case by (simp add: ref_server_def ref_exists_def ref_hget_def)
next
  case (5 db k c)
  then show ?case
    by (auto simp: ref_server_def ref_incr_def ref_counter_def ref_exists_def ref_hget_def split: option.splits)
next
  case (6 db k)
  then show ?case by (auto simp: ref_server_def ref_incr_def not_less split: option.splits)
next
  case (7 ttl db k k' f)
  then show ?case
    by (simp add: ref_server_def ref_pexpire_def ref_exists_def ref_hget_def ref_counter_def split: option.splits)
next
  case (8 ttl db k)
  then show ?case by (simp add: ref_server_def ref_pexpire_def)
next
  case (9 db k k')
  then show ?case by (simp add: ref_server_def ref_exists_def ref_del_def)
next
  case (10 k' k db f)
  then show ?case by (simp add: ref_server_def ref_hget_def ref_del_def)
next
  case (11 k' k db)
  then show ?case by (simp add: ref_server_def ref_counter_def ref_del_def split: option.splits)
next
  case (12 n)
  then show ?case by (simp add: ref_server_def ref_tonumber_Itoa)
next
  case (13 n)
  then show ?case by (simp add: ref_server_def ref_tonumber_Itoa)
qed

definition sample_ref :: LeaseRef where
  "sample_ref = \<lparr>Provider = ''ecoflow'', ProviderDeviceID = '' SN1''\<rparr>"

definition sample_keys :: LeaseKeys where
  "sample_keys = \<lparr>HashTag = ''{ecoflow|SN1}'', LeaseKey = ''pulse:v1:ingest:lease:{ecoflow|SN1}'',
     SessionKey = ''pulse:v1:ingest:session:{ecoflow|SN1}'', FenceKey = ''pulse:v1:ingest:fence:{ecoflow|SN1}''\<rparr>"

lemma KeysForRef_sample: "KeysForRef sample_ref = Inr sample_keys"
  by code_simp

lemma keys_ok_sample: "keys_ok sample_keys"
  using KeysForRef_sample by (auto simp: keys_ok_def)

interpretation ref_lease: lease_group ref_server ref_counter sample_keys
  by unfold_locales (rule keys_ok_sample)

text \<open>A run of the reference server: acquire, release, acquire again with another token.\<close>

definition sample_acquire :: "string \<Rightarrow> ref_db \<Rightarrow> ref_db \<times> (script_error + resp)" where
  "sample_acquire token db =
     leaseAcquireScript ref_server sample_keys token ''w'' (Itoa 45000) ''1'' ''ecoflow'' ''SN1'' db"

definition sample_w0 :: "ref_db lease_world" where
  "sample_w0 = \<lparr>wdb = empty_db, grants = []\<rparr>"

definition sample_w1 :: "ref_db lease_world" where
  "sample_w1 = \<lparr>wdb = fst (sample_acquire ''tok1'' empty_db), grants = [(1, ''tok1'')]\<rparr>"

definition sample_w2 :: "ref_db lease_world" where
  "sample_w2 = sample_w1\<lparr>wdb := fst (leaseReleaseScript ref_server sample_keys ''tok1'' (wdb sample_w1))\<rparr>"

definition sample_w3 :: "ref_db lease_world" where
  "sample_w3 = \<lparr>wdb = fst (sample_acquire ''tok2'' (wdb sample_w2)), grants = [(2, ''tok2''), (1, ''tok1'')]\<rparr>"

lemma sample_rep0: "lease_rep ref_server ref_counter sample_keys empty_db \<lparr>owner = None, last_fence = 0\<rparr>"
  by (simp add: lease_rep_def empty_db_def ref_server_def ref_exists_def ref_counter_def fence_limit_def)

lemma sample_acquire_free:
  assumes "lease_rep ref_server ref_counter sample_keys db \<lparr>owner = None, last_fence = c\<rparr>" "c + 1 < fence_limit"
  shows "snd (sample_acquire token db) = Inr (RArray [RInt 1, RInt (c + 1), RBulk token])"
    and "lease_rep ref_server ref_counter sample_keys (fst (sample_acquire token db))
           \<lparr>owner = Some (token, c + 1), last_fence = c + 1\<rparr>"
  using ref_valkey.acquire_refines [OF keys_ok_sample assms(1), of 45000 token "''w''" "''1''" "''ecoflow''" "''SN1''"] assms(2)
  by (auto simp: spec_acquire_def sample_acquire_def fence_limit_def)

lemma sample_rep1:
  "lease_rep ref_server ref_counter sample_keys (wdb sample_w1) \<lparr>owner = Some (''tok1'', 1), last_fence = 1\<rparr>"
  using sample_acquire_free(2) [OF sample_rep0] by (simp add: sample_w1_def fence_limit_def)

lemma sample_rep2:
  "lease_rep ref_server ref_counter sample_keys (wdb sample_w2) \<lparr>owner = None, last_fence = 1\<rparr>"
  using ref_valkey.release_refines [OF keys_ok_sample sample_rep1, of "''tok1''"]
  by (auto simp: spec_release_def sample_w2_def)

lemma sample_rep3:
  "lease_rep ref_server ref_counter sample_keys (wdb sample_w3) \<lparr>owner = Some (''tok2'', 2), last_fence = 2\<rparr>"
  using sample_acquire_free(2) [OF sample_rep2] by (simp add: sample_w3_def fence_limit_def)

lemma sample_acquire_step:
  assumes "lease_rep ref_server ref_counter sample_keys (wdb w) \<lparr>owner = None, last_fence = c\<rparr>"
    "c + 1 < fence_limit"
  shows "lease_step ref_server ref_counter sample_keys w
           \<lparr>wdb = fst (sample_acquire token (wdb w)), grants = (c + 1, token) # grants w\<rparr>"
proof -
  have "lease_step ref_server ref_counter sample_keys w
      \<lparr>wdb = fst (sample_acquire token (wdb w)),
       grants = record_grant token (snd (sample_acquire token (wdb w))) (grants w)\<rparr>"
    by (rule step_acquire [where ttl = 45000 and c = c])
       (use assms in \<open>simp_all add: sample_acquire_def fence_limit_def lease_rep_def\<close>)
  then show ?thesis by (simp add: sample_acquire_free(1) [OF assms] record_grant_def)
qed

lemma sample_reach:
  "reach (lease_init ref_server ref_counter sample_keys) (lease_step ref_server ref_counter sample_keys) sample_w3"
proof -
  let ?st = "lease_step ref_server ref_counter sample_keys"
  have init: "lease_init ref_server ref_counter sample_keys sample_w0"
    using sample_rep0 by (simp add: lease_init_def lease_rep_def sample_w0_def)
  have s1: "?st sample_w0 sample_w1"
    using sample_acquire_step [of sample_w0 0 "''tok1''"] sample_rep0
    by (simp add: sample_w0_def sample_w1_def fence_limit_def)
  have s2: "?st sample_w1 sample_w2"
    unfolding sample_w2_def
    by (rule step_release [where r = "snd (leaseReleaseScript ref_server sample_keys ''tok1'' (wdb sample_w1))"]) simp
  have s3: "?st sample_w2 sample_w3"
    using sample_acquire_step [OF sample_rep2, of "''tok2''"]
    by (simp add: sample_w3_def fence_limit_def) (simp add: sample_w2_def sample_w1_def)
  from init s1 s2 s3 show ?thesis by (blast intro: reach.intros)
qed

section \<open>What the scripts guarantee\<close>

text \<open>C6: On any server that obeys the Valkey laws, the acquire script implements the abstract lease
  acquisition: a free lease is granted with the next fence, a held one is refused with the current
  token and fence, the reply encodes that answer, and the stored lease is the abstract successor.\<close>

theorem acquire_script_refines:
  assumes "valkey_server vk counter" "keys_ok ks" "lease_rep vk counter ks db st"
    and "last_fence st + 1 < fence_limit" "0 < ttl" "ttl < fence_limit"
  shows "\<exists>db'. leaseAcquireScript vk ks token wid (Itoa ttl) now prov pdid db
           = (db', Inr (enc_acquire token (snd (spec_acquire token st)))) \<and>
         lease_rep vk counter ks db' (fst (spec_acquire token st))"
  using assms by (rule valkey_server.acquire_refines)

theorem acquire_script_refines_witness:
  "\<exists>db'. leaseAcquireScript ref_server sample_keys ''t'' ''w'' (Itoa 45000) ''1'' ''ecoflow'' ''SN1'' empty_db
           = (db', Inr (RArray [RInt 1, RInt 1, RBulk ''t''])) \<and>
         lease_rep ref_server ref_counter sample_keys db' \<lparr>owner = Some (''t'', 1), last_fence = 1\<rparr>"
  using acquire_script_refines [OF ref_valkey.valkey_server_axioms keys_ok_sample sample_rep0,
      of 45000 "''t''" "''w''" "''1''" "''ecoflow''" "''SN1''"]
  by (simp add: spec_acquire_def fence_limit_def)

text \<open>C17: The renew script implements the abstract renewal: it succeeds exactly for the token that
  owns the lease, reports that lease's fence, and never changes who owns the lease.\<close>

theorem renew_script_refines:
  assumes "valkey_server vk counter" "keys_ok ks" "lease_rep vk counter ks db st"
    and "0 < ttl" "ttl < fence_limit"
  shows "\<exists>db'. leaseRenewScript vk ks token wid (Itoa ttl) now state db
           = (db', Inr (enc_renew state (snd (spec_renew token st)))) \<and>
         lease_rep vk counter ks db' (fst (spec_renew token st))"
  using assms by (rule valkey_server.renew_refines)

theorem renew_script_refines_witness:
  "\<exists>db'. leaseRenewScript ref_server sample_keys ''tok1'' ''w'' (Itoa 45000) ''1'' ''active'' (wdb sample_w3)
           = (db', Inr (RArray [RInt 0, RInt 2, RBulk ''token_mismatch''])) \<and>
         lease_rep ref_server ref_counter sample_keys db' \<lparr>owner = Some (''tok2'', 2), last_fence = 2\<rparr>"
  using renew_script_refines [OF ref_valkey.valkey_server_axioms keys_ok_sample sample_rep3,
      of 45000 "''tok1''" "''w''" "''1''" "''active''"]
  by (simp add: spec_renew_def fence_limit_def)

text \<open>The release script implements the abstract release: only the owning token frees the lease,
  any other caller is refused and leaves the lease as it was.\<close>

theorem release_script_refines:
  assumes "valkey_server vk counter" "keys_ok ks" "lease_rep vk counter ks db st"
  shows "\<exists>db'. leaseReleaseScript vk ks token db
           = (db', Inr (enc_release (snd (spec_release token st)))) \<and>
         lease_rep vk counter ks db' (fst (spec_release token st))"
  using assms by (rule valkey_server.release_refines)

theorem release_script_refines_witness:
  "\<exists>db'. leaseReleaseScript ref_server sample_keys ''tok1'' (wdb sample_w3)
           = (db', Inr (RArray [RInt 0, RBulk ''token_mismatch''])) \<and>
         lease_rep ref_server ref_counter sample_keys db' \<lparr>owner = Some (''tok2'', 2), last_fence = 2\<rparr>"
  using release_script_refines [OF ref_valkey.valkey_server_axioms keys_ok_sample sample_rep3, of "''tok1''"]
  by (simp add: spec_release_def)

text \<open>C4: Fencing. In every run of the scripts, by any number of clients and with the lease expiring
  at any moment, the fences granted for one device strictly increase, and a renewal or a release
  succeeds only for the newest grant: a client that lost its lease can never act on it again.\<close>

theorem fencing:
  assumes "valkey_server vk counter" "keys_ok ks"
    and "reach (lease_init vk counter ks) (lease_step vk counter ks) w"
  shows "sorted_wrt (>) (map fst (grants w)) \<and>
    (\<forall>token wid ttl now state db' f x. 0 < ttl \<longrightarrow> ttl < fence_limit \<longrightarrow>
       leaseRenewScript vk ks token wid (Itoa ttl) now state (wdb w) = (db', Inr (RArray [RInt 1, RInt f, x])) \<longrightarrow>
       (\<exists>gs. grants w = (f, token) # gs)) \<and>
    (\<forall>token db' x. leaseReleaseScript vk ks token (wdb w) = (db', Inr (RArray [RInt 1, x])) \<longrightarrow>
       (\<exists>f gs. grants w = (f, token) # gs))"
proof -
  have "lease_group vk counter ks" using assms(1,2) by (simp add: lease_group_def lease_group_axioms_def)
  then show ?thesis using assms(3) by (rule lease_group.fencing_laws)
qed

theorem fencing_witness:
  "sorted_wrt (>) (map fst (grants sample_w3)) \<and> map fst (grants sample_w3) = [2, 1] \<and>
   (\<exists>db'. leaseReleaseScript ref_server sample_keys ''tok2'' (wdb sample_w3)
            = (db', Inr (RArray [RInt 1, RBulk ''released'']))) \<and>
   (\<exists>f gs. grants sample_w3 = (f, ''tok2'') # gs)"
proof -
  note f = fencing [OF ref_valkey.valkey_server_axioms keys_ok_sample sample_reach]
  obtain db' where rel: "leaseReleaseScript ref_server sample_keys ''tok2'' (wdb sample_w3)
      = (db', Inr (RArray [RInt 1, RBulk ''released'']))"
    using ref_valkey.release_refines [OF keys_ok_sample sample_rep3, of "''tok2''"]
    by (auto simp: spec_release_def)
  with f have "\<exists>f gs. grants sample_w3 = (f, ''tok2'') # gs" by blast
  with f rel show ?thesis by (simp add: sample_w3_def)
qed

end
