(* ===== verification/Lease_Manager.thy ===== *)
theory Lease_Manager
  imports Lease_Scripts Complex_Main
begin

text \<open>
  The lease manager (\<open>src/internal/ingestlease/manager.go\<close> and \<open>errors.go\<close>): configuration,
  the retry loop around every script, \<open>Acquire\<close>, \<open>Renew\<close>, \<open>Release\<close>, \<open>DrainAndRelease\<close> and
  the heartbeat loop.

  What the manager cannot see is an argument. A \<open>call_env\<close> says, for each attempt of one script
  call, whether the script reached the server and whether its reply came back, which context error
  interrupts the wait before the next attempt, the wall clock, and what other clients did to the
  server before the attempt. The conversions of the Valkey client library are the fields of
  \<open>client_conv\<close>. Durations are integers in nanoseconds. The random jitter of the waiting times is
  not modelled.
\<close>

section \<open>Configuration\<close>

definition Millisecond :: int where "Millisecond = 1000000"
definition Second :: int where "Second = 1000000000"

definition defaultLeaseTTL :: int where "defaultLeaseTTL = 45 * Second"
definition defaultHeartbeatInterval :: int where "defaultHeartbeatInterval = 15 * Second"
definition defaultHeartbeatJitter :: real where "defaultHeartbeatJitter = 0.10"
definition defaultMaxAttempts :: int where "defaultMaxAttempts = 3"
definition defaultMinBackoff :: int where "defaultMinBackoff = 20 * Millisecond"
definition defaultMaxBackoff :: int where "defaultMaxBackoff = 300 * Millisecond"

record RetryPolicy =
  MaxAttempts :: int
  MinBackoff :: int
  MaxBackoff :: int

record Config =
  LeaseTTL :: int
  HeartbeatInterval :: int
  HeartbeatJitter :: real
  CfgRetryPolicy :: RetryPolicy

record Manager =
  cfg :: Config
  ttlMs :: string
  retry :: RetryPolicy

record Lease =
  LRef :: LeaseRef
  Token :: string
  WorkerID :: string
  Fence :: int
  TTL :: int
  lkeys :: LeaseKeys

record AcquireResult =
  Acquired :: bool
  ALease :: Lease
  ExistingToken :: string
  ExistingFence :: int

record RenewResult =
  RenewedOK :: bool
  RenewFence :: int
  RenewReason :: string

record ReleaseResult =
  ReleasedOK :: bool
  ReleaseReason :: string

datatype config_error = JitterTooLarge | IntervalNotSmaller

definition DefaultConfig :: Config where
  "DefaultConfig =
     \<lparr>LeaseTTL = defaultLeaseTTL, HeartbeatInterval = defaultHeartbeatInterval,
      HeartbeatJitter = defaultHeartbeatJitter,
      CfgRetryPolicy = \<lparr>MaxAttempts = defaultMaxAttempts, MinBackoff = defaultMinBackoff,
                        MaxBackoff = defaultMaxBackoff\<rparr>\<rparr>"

definition normalizeRetry :: "RetryPolicy \<Rightarrow> RetryPolicy" where
  "normalizeRetry r =
     (let maxA = (if MaxAttempts r \<le> 0 then defaultMaxAttempts else MaxAttempts r);
          minB = (if MinBackoff r \<le> 0 then defaultMinBackoff else MinBackoff r);
          maxB = (if MaxBackoff r \<le> 0 then defaultMaxBackoff else MaxBackoff r)
      in if minB > maxB then \<lparr>MaxAttempts = maxA, MinBackoff = maxB, MaxBackoff = minB\<rparr>
         else \<lparr>MaxAttempts = maxA, MinBackoff = minB, MaxBackoff = maxB\<rparr>)"

text \<open>The client is always given: a \<open>Manager\<close> without one, which the code refuses first, is not a value of the model.\<close>

definition NewManager :: "Config \<Rightarrow> config_error + Manager" where
  "NewManager c0 =
     (let c1 = (if LeaseTTL c0 \<le> 0 then c0\<lparr>LeaseTTL := defaultLeaseTTL\<rparr> else c0);
          c2 = (if HeartbeatInterval c1 \<le> 0 then c1\<lparr>HeartbeatInterval := defaultHeartbeatInterval\<rparr> else c1);
          c3 = (if HeartbeatJitter c2 < 0 then c2\<lparr>HeartbeatJitter := defaultHeartbeatJitter\<rparr> else c2)
      in if HeartbeatJitter c3 > 1 then Inl JitterTooLarge
         else if HeartbeatInterval c3 \<ge> LeaseTTL c3 then Inl IntervalNotSmaller
         else Inr \<lparr>cfg = c3, ttlMs = Itoa (LeaseTTL c3 div Millisecond),
                   retry = normalizeRetry (CfgRetryPolicy c3)\<rparr>)"

text \<open>The final clamp of \<open>retryDelay\<close>, which bounds the jittered delay whatever its value.\<close>

definition clampDelay :: "RetryPolicy \<Rightarrow> int \<Rightarrow> int" where
  "clampDelay r delay =
     (if delay < MinBackoff r then MinBackoff r
      else if delay > MaxBackoff r then MaxBackoff r
      else delay)"

section \<open>Errors and the retry loop\<close>

record exec_err =
  err_canceled :: bool
  err_deadline :: bool
  err_closing :: bool
  err_eof :: bool
  err_net :: bool
  err_moved :: bool
  err_ask :: bool
  err_tryagain :: bool
  err_loading :: bool
  err_clusterdown :: bool
  err_text :: string

definition isRetryableErr :: "exec_err \<Rightarrow> bool" where
  "isRetryableErr e =
     (if err_canceled e \<or> err_deadline e then False
      else if err_closing e \<or> err_eof e then True
      else if err_net e then True
      else if err_moved e then True
      else if err_ask e then True
      else if err_tryagain e \<or> err_loading e \<or> err_clusterdown e then True
      else Contains (ToLower (err_text e)) ''connection reset'' \<or>
           Contains (ToLower (err_text e)) ''broken pipe'')"

definition plain_err :: "string \<Rightarrow> exec_err" where
  "plain_err m =
     \<lparr>err_canceled = False, err_deadline = False, err_closing = False, err_eof = False, err_net = False,
      err_moved = False, err_ask = False, err_tryagain = False, err_loading = False,
      err_clusterdown = False, err_text = m\<rparr>"

text \<open>An attempt is delivered, executed with its reply lost, or never executed.\<close>

datatype attempt = Delivered | ReplyLost exec_err | NotSent exec_err

record 'db call_env =
  attempts :: "nat \<Rightarrow> attempt"
  sleep_err :: "nat \<Rightarrow> exec_err option"
  now_ms :: int
  others :: "nat \<Rightarrow> 'db \<Rightarrow> 'db"

definition script_err :: "script_error \<Rightarrow> exec_err" where
  "script_err e = plain_err ''ERR increment or decrement would overflow''"

definition exec_once ::
    "('db \<Rightarrow> 'db \<times> (script_error + resp)) \<Rightarrow> attempt \<Rightarrow> 'db \<Rightarrow> 'db \<times> (exec_err + resp)" where
  "exec_once script a db =
     (case a of
        Delivered \<Rightarrow>
          (case script db of
             (db', Inl e) \<Rightarrow> (db', Inl (script_err e))
           | (db', Inr r) \<Rightarrow> (db', Inr r))
      | ReplyLost e \<Rightarrow> (fst (script db), Inl e)
      | NotSent e \<Rightarrow> (db, Inl e))"

text \<open>\<open>exec_loop script env attempt remaining\<close> makes attempt number \<open>attempt\<close> with \<open>remaining\<close> more to come.\<close>

fun exec_loop ::
    "('db \<Rightarrow> 'db \<times> (script_error + resp)) \<Rightarrow> 'db call_env \<Rightarrow> nat \<Rightarrow> nat \<Rightarrow> 'db \<Rightarrow> 'db \<times> (exec_err + resp)" where
  "exec_loop script env attempt 0 db = exec_once script (attempts env attempt) (others env attempt db)"
| "exec_loop script env attempt (Suc remaining) db =
     (case exec_once script (attempts env attempt) (others env attempt db) of
        (db', Inr r) \<Rightarrow> (db', Inr r)
      | (db', Inl e) \<Rightarrow>
          if \<not> isRetryableErr e then (db', Inl e)
          else (case sleep_err env attempt of
                  Some se \<Rightarrow> (db', Inl se)
                | None \<Rightarrow> exec_loop script env (Suc attempt) remaining db'))"

definition maxAttemptsFor :: "Manager \<Rightarrow> int \<Rightarrow> int" where
  "maxAttemptsFor m optMax =
     (let n = (if optMax > 0 then optMax else MaxAttempts (retry m))
      in if n \<le> 0 then 1 else n)"

definition execScript ::
    "Manager \<Rightarrow> int \<Rightarrow> 'db call_env \<Rightarrow> ('db \<Rightarrow> 'db \<times> (script_error + resp)) \<Rightarrow> 'db \<Rightarrow> 'db \<times> (exec_err + resp)" where
  "execScript m optMax env script db =
     exec_loop script env 1 (nat (maxAttemptsFor m optMax) - 1) db"

section \<open>Reading replies\<close>

record client_conv =
  toArray :: "resp \<Rightarrow> exec_err + resp list"
  toInt64 :: "resp \<Rightarrow> exec_err + int"
  toStr :: "resp \<Rightarrow> exec_err + string"

text \<open>\<open>strconv.ParseInt(raw, 10, 64)\<close>: an optional sign, decimal digits, the range of \<open>int64\<close>.\<close>

definition is_digit_char :: "char \<Rightarrow> bool" where
  "is_digit_char c \<longleftrightarrow> CHR ''0'' \<le> c \<and> c \<le> CHR ''9''"

definition ParseInt64 :: "string \<Rightarrow> int option" where
  "ParseInt64 s =
     (let neg = (case s of c # _ \<Rightarrow> c = CHR ''-'' | [] \<Rightarrow> False);
          body = (case s of c # cs \<Rightarrow> if c = CHR ''-'' \<or> c = CHR ''+'' then cs else s | [] \<Rightarrow> []);
          n = int (read_base 10 body); v = (if neg then - n else n)
      in if body = [] \<or> \<not> list_all is_digit_char body then None
         else if v < - (2 ^ 63) \<or> v > 2 ^ 63 - 1 then None
         else Some v)"

definition messageToInt64 :: "client_conv \<Rightarrow> resp \<Rightarrow> exec_err + int" where
  "messageToInt64 cl msg =
     (case toInt64 cl msg of
        Inr value \<Rightarrow> Inr value
      | Inl _ \<Rightarrow>
          (case toStr cl msg of
             Inl e \<Rightarrow> Inl e
           | Inr raw \<Rightarrow>
               (case ParseInt64 raw of None \<Rightarrow> Inl (plain_err ''invalid syntax'') | Some v \<Rightarrow> Inr v)))"

section \<open>Acquire, Renew, Release\<close>

datatype lease_err =
    RefError ref_error
  | TokenGenFailed exec_err
  | ExecFailed exec_err
  | ParseFailed string exec_err
  | TupleLength string nat
  | TokenRequired
  | WorkerRequired
  | ReleaseRejected string
  | LeaseRejected string string
  | ReacquireFailed lease_err

record host_env =
  hostname :: string
  pid :: int
  newToken :: "exec_err + string"

definition defaultWorkerID :: "host_env \<Rightarrow> string" where
  "defaultWorkerID h =
     (let name = TrimSpace (hostname h)
      in (if name = [] then ''unknown-host'' else name) @ '':'' @ Itoa (pid h))"

definition zeroLease :: Lease where
  "zeroLease =
     \<lparr>LRef = \<lparr>Provider = [], ProviderDeviceID = []\<rparr>, Token = [], WorkerID = [], Fence = 0, TTL = 0,
      lkeys = \<lparr>HashTag = [], LeaseKey = [], SessionKey = [], FenceKey = []\<rparr>\<rparr>"

definition NewLeaseRejectedError :: "string \<Rightarrow> string \<Rightarrow> lease_err" where
  "NewLeaseRejectedError operation reason = LeaseRejected (TrimSpace operation) (TrimSpace reason)"

definition normalizeState :: "string \<Rightarrow> string" where
  "normalizeState state =
     (let s = TrimSpace (ToLower state)
      in if s = [] \<or> s = leaseStateActive then leaseStateActive
         else if s = leaseStateDraining then leaseStateDraining
         else leaseStateActive)"

definition keysForLease :: "Lease \<Rightarrow> ref_error + LeaseKeys" where
  "keysForLease l =
     (let k = lkeys l
      in if HashTag k \<noteq> [] \<and> LeaseKey k \<noteq> [] \<and> SessionKey k \<noteq> [] \<and> FenceKey k \<noteq> [] then Inr k
         else KeysForRef (LRef l))"

definition parseAcquire ::
    "Manager \<Rightarrow> client_conv \<Rightarrow> LeaseRef \<Rightarrow> LeaseKeys \<Rightarrow> string \<Rightarrow> string \<Rightarrow> resp \<Rightarrow> lease_err + AcquireResult" where
  "parseAcquire m cl ref keys workerID token resp =
     (case toArray cl resp of
        Inl e \<Rightarrow> Inl (ParseFailed ''acquire response'' e)
      | Inr values \<Rightarrow>
          if length values < 3 then Inl (TupleLength ''acquire'' (length values))
          else
            (case toInt64 cl (values ! 0) of
               Inl e \<Rightarrow> Inl (ParseFailed ''acquire status'' e)
             | Inr acquired \<Rightarrow>
                 (case messageToInt64 cl (values ! 1) of
                    Inl e \<Rightarrow> Inl (ParseFailed ''acquire fence'' e)
                  | Inr fence \<Rightarrow>
                      (case toStr cl (values ! 2) of
                         Inl e \<Rightarrow> Inl (ParseFailed ''acquire token'' e)
                       | Inr currentToken \<Rightarrow>
                           if acquired = 1 then
                             Inr \<lparr>Acquired = True,
                                  ALease = \<lparr>LRef = normalizedRef ref, Token = token, WorkerID = workerID,
                                            Fence = fence, TTL = LeaseTTL (cfg m), lkeys = keys\<rparr>,
                                  ExistingToken = [], ExistingFence = 0\<rparr>
                           else
                             Inr \<lparr>Acquired = False, ALease = zeroLease,
                                  ExistingToken = currentToken, ExistingFence = fence\<rparr>))))"

definition Acquire ::
    "Manager \<Rightarrow> 'db valkey \<Rightarrow> client_conv \<Rightarrow> host_env \<Rightarrow> 'db call_env \<Rightarrow> LeaseRef \<Rightarrow> string \<Rightarrow> string \<Rightarrow> int \<Rightarrow>
       'db \<Rightarrow> 'db \<times> (lease_err + AcquireResult)" where
  "Acquire m vk cl h env ref workerID0 token0 optMax db =
     (case KeysForRef ref of
        Inl e \<Rightarrow> (db, Inl (RefError e))
      | Inr keys \<Rightarrow>
          (let workerID = (if TrimSpace workerID0 = [] then defaultWorkerID h else TrimSpace workerID0);
               tokenR = (if TrimSpace token0 = [] then newToken h else Inr (TrimSpace token0))
           in case tokenR of
                Inl e \<Rightarrow> (db, Inl (TokenGenFailed e))
              | Inr token \<Rightarrow>
                  (case execScript m optMax env
                          (leaseAcquireScript vk keys token workerID (ttlMs m) (Itoa (now_ms env))
                             (TrimSpace (Provider ref)) (TrimSpace (ProviderDeviceID ref))) db of
                     (db', Inl e) \<Rightarrow> (db', Inl (ExecFailed e))
                   | (db', Inr resp) \<Rightarrow> (db', parseAcquire m cl ref keys workerID token resp))))"

definition parseRenew :: "client_conv \<Rightarrow> resp \<Rightarrow> lease_err + RenewResult" where
  "parseRenew cl resp =
     (case toArray cl resp of
        Inl e \<Rightarrow> Inl (ParseFailed ''renew response'' e)
      | Inr values \<Rightarrow>
          if length values < 3 then Inl (TupleLength ''renew'' (length values))
          else
            (case toInt64 cl (values ! 0) of
               Inl e \<Rightarrow> Inl (ParseFailed ''renew status'' e)
             | Inr ok \<Rightarrow>
                 (case messageToInt64 cl (values ! 1) of
                    Inl e \<Rightarrow> Inl (ParseFailed ''renew fence'' e)
                  | Inr fence \<Rightarrow>
                      (case toStr cl (values ! 2) of
                         Inl e \<Rightarrow> Inl (ParseFailed ''renew reason'' e)
                       | Inr reason \<Rightarrow>
                           Inr \<lparr>RenewedOK = (ok = 1), RenewFence = fence, RenewReason = reason\<rparr>))))"

definition Renew ::
    "Manager \<Rightarrow> 'db valkey \<Rightarrow> client_conv \<Rightarrow> 'db call_env \<Rightarrow> Lease \<Rightarrow> string \<Rightarrow> int \<Rightarrow>
       'db \<Rightarrow> 'db \<times> (lease_err + RenewResult)" where
  "Renew m vk cl env lease state optMax db =
     (case keysForLease lease of
        Inl e \<Rightarrow> (db, Inl (RefError e))
      | Inr keys \<Rightarrow>
          if TrimSpace (Token lease) = [] then (db, Inl TokenRequired)
          else if TrimSpace (WorkerID lease) = [] then (db, Inl WorkerRequired)
          else
            (case execScript m optMax env
                    (leaseRenewScript vk keys (TrimSpace (Token lease)) (TrimSpace (WorkerID lease))
                       (ttlMs m) (Itoa (now_ms env)) (normalizeState state)) db of
               (db', Inl e) \<Rightarrow> (db', Inl (ExecFailed e))
             | (db', Inr resp) \<Rightarrow> (db', parseRenew cl resp)))"

definition parseRelease :: "client_conv \<Rightarrow> resp \<Rightarrow> lease_err + ReleaseResult" where
  "parseRelease cl resp =
     (case toArray cl resp of
        Inl e \<Rightarrow> Inl (ParseFailed ''release response'' e)
      | Inr values \<Rightarrow>
          if length values < 2 then Inl (TupleLength ''release'' (length values))
          else
            (case toInt64 cl (values ! 0) of
               Inl e \<Rightarrow> Inl (ParseFailed ''release status'' e)
             | Inr ok \<Rightarrow>
                 (case toStr cl (values ! 1) of
                    Inl e \<Rightarrow> Inl (ParseFailed ''release reason'' e)
                  | Inr reason \<Rightarrow> Inr \<lparr>ReleasedOK = (ok = 1), ReleaseReason = reason\<rparr>)))"

definition Release ::
    "Manager \<Rightarrow> 'db valkey \<Rightarrow> client_conv \<Rightarrow> 'db call_env \<Rightarrow> LeaseRef \<Rightarrow> string \<Rightarrow> int \<Rightarrow>
       'db \<Rightarrow> 'db \<times> (lease_err + ReleaseResult)" where
  "Release m vk cl env ref token optMax db =
     (case KeysForRef ref of
        Inl e \<Rightarrow> (db, Inl (RefError e))
      | Inr keys \<Rightarrow>
          if TrimSpace token = [] then (db, Inl TokenRequired)
          else
            (case execScript m optMax env (leaseReleaseScript vk keys (TrimSpace token)) db of
               (db', Inl e) \<Rightarrow> (db', Inl (ExecFailed e))
             | (db', Inr resp) \<Rightarrow> (db', parseRelease cl resp)))"

definition DrainAndRelease ::
    "Manager \<Rightarrow> 'db valkey \<Rightarrow> client_conv \<Rightarrow> 'db call_env \<Rightarrow> 'db call_env \<Rightarrow> Lease \<Rightarrow> int \<Rightarrow>
       'db \<Rightarrow> 'db \<times> (lease_err + ReleaseResult)" where
  "DrainAndRelease m vk cl env1 env2 lease optMax db =
     (case Renew m vk cl env1 lease leaseStateDraining optMax db of
        (db', Inl e) \<Rightarrow> (db', Inl e)
      | (db', Inr _) \<Rightarrow> Release m vk cl env2 (LRef lease) (Token lease) optMax db')"

section \<open>The heartbeat loop\<close>

text \<open>
  The loop waits for the context or for its timer. An event carries the environments of the (at
  most two) script calls it makes. The result is \<open>None\<close> while the loop still waits for an event,
  \<open>Some None\<close> when it returned without an error, \<open>Some (Some e)\<close> when it returned \<open>e\<close>.
\<close>

datatype 'db hb_event = CtxDone "'db call_env" "'db call_env" | TimerFired "'db call_env" "'db call_env"

record HeartbeatOptions =
  GracefulDrain :: bool
  OptMaxAttempts :: int
  StateDuringRenew :: string

definition hb_cancel ::
    "Manager \<Rightarrow> 'db valkey \<Rightarrow> client_conv \<Rightarrow> HeartbeatOptions \<Rightarrow> 'db call_env \<Rightarrow> 'db call_env \<Rightarrow> Lease \<Rightarrow>
       'db \<Rightarrow> 'db \<times> lease_err option" where
  "hb_cancel m vk cl opts env1 env2 lease db =
     (if GracefulDrain opts then
        (case DrainAndRelease m vk cl env1 env2 lease (OptMaxAttempts opts) db of
           (db', Inl e) \<Rightarrow> (db', Some e)
         | (db', Inr _) \<Rightarrow> (db', None))
      else if TrimSpace (Token lease) = [] then (db, None)
      else
        (case Release m vk cl env1 (LRef lease) (Token lease) (OptMaxAttempts opts) db of
           (db', Inl e) \<Rightarrow> (db', Some e)
         | (db', Inr released) \<Rightarrow>
             if \<not> ReleasedOK released \<and> ReleaseReason released \<noteq> ''not_found'' \<and>
                ReleaseReason released \<noteq> ''token_mismatch''
             then (db', Some (ReleaseRejected (ReleaseReason released)))
             else (db', None)))"

text \<open>One timer tick: either the loop goes on with an updated fence, or it returns an error.\<close>

definition hb_tick ::
    "Manager \<Rightarrow> 'db valkey \<Rightarrow> client_conv \<Rightarrow> host_env \<Rightarrow> HeartbeatOptions \<Rightarrow> 'db call_env \<Rightarrow> 'db call_env \<Rightarrow>
       Lease \<Rightarrow> 'db \<Rightarrow> 'db \<times> (lease_err + Lease)" where
  "hb_tick m vk cl h opts env1 env2 lease db =
     (case Renew m vk cl env1 lease (normalizeState (StateDuringRenew opts)) (OptMaxAttempts opts) db of
        (db', Inl e) \<Rightarrow> (db', Inl e)
      | (db', Inr result) \<Rightarrow>
          if RenewedOK result then (db', Inr (lease\<lparr>Fence := RenewFence result\<rparr>))
          else if RenewReason result = ''missing'' then
            (case Acquire m vk cl h env2 (LRef lease) (WorkerID lease) (Token lease) (OptMaxAttempts opts) db' of
               (db'', Inl e) \<Rightarrow> (db'', Inl (ReacquireFailed e))
             | (db'', Inr reacquired) \<Rightarrow>
                 if Acquired reacquired then (db'', Inr (lease\<lparr>Fence := Fence (ALease reacquired)\<rparr>))
                 else (db'', Inl (NewLeaseRejectedError ''renew'' (RenewReason result))))
          else (db', Inl (NewLeaseRejectedError ''renew'' (RenewReason result))))"

fun RunHeartbeat ::
    "Manager \<Rightarrow> 'db valkey \<Rightarrow> client_conv \<Rightarrow> host_env \<Rightarrow> HeartbeatOptions \<Rightarrow> 'db hb_event list \<Rightarrow> Lease \<Rightarrow>
       'db \<Rightarrow> 'db \<times> Lease \<times> lease_err option option" where
  "RunHeartbeat m vk cl h opts [] lease db = (db, lease, None)"
| "RunHeartbeat m vk cl h opts (CtxDone env1 env2 # evs) lease db =
     (case hb_cancel m vk cl opts env1 env2 lease db of (db', r) \<Rightarrow> (db', lease, Some r))"
| "RunHeartbeat m vk cl h opts (TimerFired env1 env2 # evs) lease db =
     (case hb_tick m vk cl h opts env1 env2 lease db of
        (db', Inl e) \<Rightarrow> (db', lease, Some (Some e))
      | (db', Inr lease') \<Rightarrow> RunHeartbeat m vk cl h opts evs lease' db')"

section \<open>What the manager relies on\<close>

text \<open>The conversions of the client library return what a reply of the right kind holds.\<close>

locale reply_reader =
  fixes cl :: client_conv
  assumes toArray_RArray [simp]: "toArray cl (RArray xs) = Inr xs"
    and toInt64_RInt [simp]: "toInt64 cl (RInt n) = Inr n"
    and toStr_RBulk [simp]: "toStr cl (RBulk s) = Inr s"
begin

lemma messageToInt64_RInt [simp]: "messageToInt64 cl (RInt n) = Inr n"
  by (simp add: messageToInt64_def)

lemma parseAcquire_enc:
  "parseAcquire m cl ref keys wid token (enc_acquire token r) = Inr
     (case r of
        Granted f \<Rightarrow> \<lparr>Acquired = True, ALease = \<lparr>LRef = normalizedRef ref, Token = token, WorkerID = wid,
             Fence = f, TTL = LeaseTTL (cfg m), lkeys = keys\<rparr>, ExistingToken = [], ExistingFence = 0\<rparr>
      | Denied f t \<Rightarrow> \<lparr>Acquired = False, ALease = zeroLease, ExistingToken = t, ExistingFence = f\<rparr>)"
  by (cases r) (simp_all add: parseAcquire_def)

lemma parseRenew_enc:
  "parseRenew cl (enc_renew state r) = Inr
     (case r of
        Renewed f \<Rightarrow> \<lparr>RenewedOK = True, RenewFence = f, RenewReason = state\<rparr>
      | RenewMissing \<Rightarrow> \<lparr>RenewedOK = False, RenewFence = 0, RenewReason = ''missing''\<rparr>
      | RenewMismatch f \<Rightarrow> \<lparr>RenewedOK = False, RenewFence = f, RenewReason = ''token_mismatch''\<rparr>)"
  by (cases r) (simp_all add: parseRenew_def)

lemma parseRelease_enc:
  "parseRelease cl (enc_release r) = Inr
     (case r of
        Released \<Rightarrow> \<lparr>ReleasedOK = True, ReleaseReason = ''released''\<rparr>
      | ReleaseMissing \<Rightarrow> \<lparr>ReleasedOK = False, ReleaseReason = ''missing''\<rparr>
      | ReleaseMismatch \<Rightarrow> \<lparr>ReleasedOK = False, ReleaseReason = ''token_mismatch''\<rparr>)"
  by (cases r) (simp_all add: parseRelease_def)

end

definition plain_conv :: client_conv where
  "plain_conv =
     \<lparr>toArray = (\<lambda>r. case r of RArray xs \<Rightarrow> Inr xs | _ \<Rightarrow> Inl (plain_err ''not an array'')),
      toInt64 = (\<lambda>r. case r of RInt n \<Rightarrow> Inr n | _ \<Rightarrow> Inl (plain_err ''not an integer'')),
      toStr = (\<lambda>r. case r of RBulk s \<Rightarrow> Inr s | _ \<Rightarrow> Inl (plain_err ''not a string''))\<rparr>"

interpretation plain: reply_reader plain_conv
  by unfold_locales (simp_all add: plain_conv_def)

section \<open>The retry loop\<close>

text \<open>
  What an attempt may assume and must leave behind, as a property with a budget: every attempt and
  everything the other clients do between two attempts spends some of it.
\<close>

definition loop_budget :: "nat \<Rightarrow> nat \<Rightarrow> nat" where
  "loop_budget b n = (b + 1) * n"

lemma exec_once_cases:
  assumes "exec_once script a db = (db', res)"
  shows "db' = db \<or> db' = fst (script db)"
    and "res = Inr r \<Longrightarrow> script db = (db', Inr r)"
  using assms by (auto simp: exec_once_def split: attempt.splits prod.splits sum.splits)

lemma exec_loop_sound:
  assumes others: "\<And>n k db. P (k + b) db \<Longrightarrow> P k (others env n db)"
    and script: "\<And>k db. P (Suc k) db \<Longrightarrow> P k (fst (script db))"
    and mono: "\<And>k db. P (Suc k) db \<Longrightarrow> P k db"
    and start: "P (loop_budget b (Suc rem) + j) db"
    and run: "exec_loop script env a rem db = (db', res)"
  shows "P j db' \<and> (\<forall>r. res = Inr r \<longrightarrow> (\<exists>db1. P (Suc j) db1 \<and> script db1 = (db', Inr r)))"
  using start run
proof (induction rem arbitrary: a db)
  case 0
  let ?db1 = "others env a db"
  have one: "exec_once script (attempts env a) ?db1 = (db', res)" using "0.prems"(2) by simp
  have "P (Suc j) ?db1" using "0.prems"(1) by (intro others) (simp add: loop_budget_def add.commute)
  with exec_once_cases [OF one] script mono show ?case by blast
next
  case (Suc rem)
  let ?db1 = "others env a db"
  obtain db2 res2 where one: "exec_once script (attempts env a) ?db1 = (db2, res2)" by fastforce
  have big: "P (Suc (loop_budget b (Suc rem) + j)) ?db1"
    using Suc.prems(1) by (intro others) (simp add: loop_budget_def algebra_simps)
  have down: "P i db0" if "P (n + i) db0" for n i db0
    using that by (induction n) (auto intro: mono)
  have after: "P (loop_budget b (Suc rem) + j) db2"
    using exec_once_cases(1) [OF one] script mono big by blast
  show ?case
  proof (cases res2)
    case (Inr r)
    with one Suc.prems(2) have "db' = db2" "res = Inr r" by auto
    moreover have "P (Suc j) ?db1"
      by (rule down [of "loop_budget b (Suc rem)"]) (use big in \<open>simp only: add_Suc_right\<close>)
    ultimately show ?thesis using down [OF after] exec_once_cases(2) [OF one] Inr by blast
  next
    case (Inl e)
    show ?thesis
    proof (cases "isRetryableErr e \<and> sleep_err env a = None")
      case True
      with one Inl Suc.prems(2) have "exec_loop script env (Suc a) rem db2 = (db', res)" by simp
      with after show ?thesis by (rule Suc.IH)
    next
      case False
      with one Inl Suc.prems(2) have "db' = db2" "\<forall>r. res \<noteq> Inr r" by (auto split: if_splits option.splits)
      with down [OF after] show ?thesis by simp
    qed
  qed
qed

lemma execScript_sound:
  assumes others: "\<And>n k db. P (k + b) db \<Longrightarrow> P k (others env n db)"
    and script: "\<And>k db. P (Suc k) db \<Longrightarrow> P k (fst (script db))"
    and mono: "\<And>k db. P (Suc k) db \<Longrightarrow> P k db"
    and start: "P (loop_budget b (nat (maxAttemptsFor m optMax)) + j) db"
    and run: "execScript m optMax env script db = (db', res)"
  shows "P j db' \<and> (\<forall>r. res = Inr r \<longrightarrow> (\<exists>db1. P (Suc j) db1 \<and> script db1 = (db', Inr r)))"
proof -
  have "0 < maxAttemptsFor m optMax" by (simp add: maxAttemptsFor_def Let_def)
  then have "Suc (nat (maxAttemptsFor m optMax) - 1) = nat (maxAttemptsFor m optMax)" by simp
  then show ?thesis
    using exec_loop_sound [of P b env script "nat (maxAttemptsFor m optMax) - 1" j db 1 db' res,
        OF others script mono] start run
    by (simp add: execScript_def)
qed

text \<open>A call whose first attempt is delivered makes no other attempt.\<close>

lemma execScript_delivered:
  assumes "attempts env 1 = Delivered" "script (others env 1 db) = (db', Inr r)"
  shows "execScript m optMax env script db = (db', Inr r)"
  using assms by (cases "nat (maxAttemptsFor m optMax) - 1") (simp_all add: execScript_def exec_once_def)

text \<open>
  The loop outlasts failures: if the first attempts never reach the server, for reasons worth a
  retry, and a later one within the allowance is delivered, the call returns its reply.
\<close>

definition delivered_at :: "'db call_env \<Rightarrow> nat \<Rightarrow> bool" where
  "delivered_at env n \<longleftrightarrow>
     1 \<le> n \<and> attempts env n = Delivered \<and>
     (\<forall>i \<in> {1..<n}. sleep_err env i = None \<and>
        (case attempts env i of NotSent e \<Rightarrow> isRetryableErr e | _ \<Rightarrow> False))"

lemma exec_loop_delivered:
  assumes "\<forall>i \<in> {a..<a + n}. sleep_err env i = None \<and>
        (case attempts env i of NotSent e \<Rightarrow> isRetryableErr e | _ \<Rightarrow> False)"
    and "attempts env (a + n) = Delivered" "\<forall>i db. others env i db = db" "n \<le> rem"
    and "script db = (db', Inr r)"
  shows "exec_loop script env a rem db = (db', Inr r)"
  using assms
proof (induction n arbitrary: a rem)
  case 0
  then show ?case by (cases rem) (simp_all add: exec_once_def)
next
  case (Suc n)
  then obtain rem' where rem: "rem = Suc rem'" by (cases rem) auto
  from Suc.prems(1) obtain e where e: "attempts env a = NotSent e" "isRetryableErr e" "sleep_err env a = None"
    by (cases "attempts env a") (auto dest: bspec [of _ _ a])
  have "exec_loop script env (Suc a) rem' db = (db', Inr r)"
    using Suc.prems rem by (intro Suc.IH) auto
  with e Suc.prems(3) show ?case by (simp add: rem exec_once_def)
qed

lemma execScript_delivered_at:
  assumes "delivered_at env n" "int n \<le> maxAttemptsFor m optMax" "\<forall>i db. others env i db = db"
    and "script db = (db', Inr r)"
  shows "execScript m optMax env script db = (db', Inr r)"
  unfolding execScript_def
  by (rule exec_loop_delivered [where n = "n - 1"]) (use assms in \<open>auto simp: delivered_at_def\<close>)

section \<open>Leases behind the manager\<close>

definition lease_room ::
    "'db valkey \<Rightarrow> ('db \<Rightarrow> string \<Rightarrow> int option) \<Rightarrow> LeaseKeys \<Rightarrow> nat \<Rightarrow> 'db \<Rightarrow> bool" where
  "lease_room vk counter ks k db \<longleftrightarrow>
     (\<exists>st. lease_rep vk counter ks db st \<and> last_fence st + int k < fence_limit)"

text \<open>The other clients keep the lease well formed and grant at most \<open>b\<close> leases between two attempts.\<close>

definition env_ok ::
    "'db valkey \<Rightarrow> ('db \<Rightarrow> string \<Rightarrow> int option) \<Rightarrow> LeaseKeys \<Rightarrow> nat \<Rightarrow> 'db call_env \<Rightarrow> bool" where
  "env_ok vk counter ks b env \<longleftrightarrow>
     (\<forall>n k db. lease_room vk counter ks (k + b) db \<longrightarrow> lease_room vk counter ks k (others env n db))"

fun event_envs :: "'db hb_event \<Rightarrow> 'db call_env list" where
  "event_envs (CtxDone e1 e2) = [e1, e2]"
| "event_envs (TimerFired e1 e2) = [e1, e2]"

definition event_ok ::
    "'db valkey \<Rightarrow> ('db \<Rightarrow> string \<Rightarrow> int option) \<Rightarrow> LeaseKeys \<Rightarrow> nat \<Rightarrow> 'db hb_event \<Rightarrow> bool" where
  "event_ok vk counter ks b ev \<longleftrightarrow> (\<forall>env \<in> set (event_envs ev). env_ok vk counter ks b env)"

definition manager_ok :: "Manager \<Rightarrow> bool" where
  "manager_ok m \<longleftrightarrow>
     ttlMs m = Itoa (LeaseTTL (cfg m) div Millisecond) \<and>
     0 < LeaseTTL (cfg m) div Millisecond \<and> LeaseTTL (cfg m) div Millisecond < fence_limit"

abbreviation call_cost :: "Manager \<Rightarrow> int \<Rightarrow> nat \<Rightarrow> nat" where
  "call_cost m optMax b \<equiv> loop_budget b (nat (maxAttemptsFor m optMax))"

locale lease_client = lease_group vk counter ks + reply_reader cl
  for vk :: "'db valkey" and counter :: "'db \<Rightarrow> string \<Rightarrow> int option" and ks :: LeaseKeys
    and cl :: client_conv +
  fixes m :: Manager
  assumes m_ok: "manager_ok m"
begin

abbreviation "room \<equiv> lease_room vk counter ks"

lemma ttlMs_eq: "ttlMs m = Itoa (LeaseTTL (cfg m) div Millisecond)"
  and ttl_pos: "0 < LeaseTTL (cfg m) div Millisecond"
  and ttl_lim: "LeaseTTL (cfg m) div Millisecond < fence_limit"
  using m_ok by (simp_all add: manager_ok_def)

lemma room_mono: "room (Suc k) db \<Longrightarrow> room k db"
  by (auto simp: lease_room_def)

lemma room_weaken: "room (n + k) db \<Longrightarrow> room k db"
  by (induction n) (auto intro: room_mono)

lemma room_others: "env_ok vk counter ks b env \<Longrightarrow> room (k + b) db \<Longrightarrow> room k (others env n db)"
  by (auto simp: env_ok_def)

lemma acquire_room:
  assumes "room (Suc k) db"
  shows "room k (fst (leaseAcquireScript vk ks token wid (ttlMs m) now prov pdid db))"
proof -
  from assms obtain st where st: "lease_rep vk counter ks db st" "last_fence st + int (Suc k) < fence_limit"
    by (auto simp: lease_room_def)
  then have "last_fence st + 1 < fence_limit" by simp
  from acquire_refines [OF ks_ok st(1) this ttl_pos ttl_lim, of token wid now prov pdid] st(2)
  show ?thesis
    by (auto simp: ttlMs_eq lease_room_def spec_acquire_def split: option.splits
        intro!: exI [of _ "fst (spec_acquire token st)"])
qed

lemma renew_room:
  assumes "room (Suc k) db"
  shows "room k (fst (leaseRenewScript vk ks token wid (ttlMs m) now state db))"
proof -
  from assms obtain st where st: "lease_rep vk counter ks db st" "last_fence st + int (Suc k) < fence_limit"
    by (auto simp: lease_room_def)
  from renew_refines [OF ks_ok st(1) ttl_pos ttl_lim, of token wid now state] st(2)
  show ?thesis
    by (auto simp: ttlMs_eq lease_room_def spec_renew_def split: option.splits
        intro!: exI [of _ "fst (spec_renew token st)"])
qed

lemma release_room:
  assumes "room (Suc k) db"
  shows "room k (fst (leaseReleaseScript vk ks token db))"
proof -
  from assms obtain st where st: "lease_rep vk counter ks db st" "last_fence st + int (Suc k) < fence_limit"
    by (auto simp: lease_room_def)
  from release_refines [OF ks_ok st(1), of token] st(2)
  show ?thesis
    by (auto simp: lease_room_def spec_release_def split: option.splits
        intro!: exI [of _ "fst (spec_release token st)"])
qed

text \<open>One manager call: what remains of the budget, and what a success says about the server.\<close>

lemma Acquire_sound:
  assumes ref: "KeysForRef ref = Inr ks" and env: "env_ok vk counter ks b env"
    and start: "room (call_cost m optMax b + j) db"
    and run: "Acquire m vk cl h env ref wid token optMax db = (db', res)"
  shows "room j db' \<and> (\<forall>a. res = Inr a \<and> Acquired a \<longrightarrow>
    LRef (ALease a) = normalizedRef ref \<and> lkeys (ALease a) = ks \<and>
    (TrimSpace token \<noteq> [] \<longrightarrow> Token (ALease a) = TrimSpace token) \<and>
    (\<exists>st. lease_rep vk counter ks db' st \<and> last_fence st = Fence (ALease a) \<and>
          owner st = Some (Token (ALease a), Fence (ALease a))))"
proof -
  define wid' where "wid' = (if TrimSpace wid = [] then defaultWorkerID h else TrimSpace wid)"
  define tokenR where "tokenR = (if TrimSpace token = [] then newToken h else Inr (TrimSpace token))"
  show ?thesis
  proof (cases tokenR)
    case (Inl e)
    with run ref have "db' = db" "res = Inl (TokenGenFailed e)"
      by (auto simp: Acquire_def tokenR_def [symmetric] Let_def)
    with room_weaken [OF start] show ?thesis by simp
  next
    case (Inr t)
    let ?script = "leaseAcquireScript vk ks t wid' (ttlMs m) (Itoa (now_ms env)) (TrimSpace (Provider ref))
        (TrimSpace (ProviderDeviceID ref))"
    obtain resp where ex: "execScript m optMax env ?script db = (db', resp)"
      and res: "res = (case resp of Inl e \<Rightarrow> Inl (ExecFailed e) | Inr x \<Rightarrow> parseAcquire m cl ref ks wid' t x)"
      using run ref Inr
      by (auto simp: Acquire_def tokenR_def [symmetric] wid'_def [symmetric] Let_def split: prod.splits sum.splits)
    have sound: "room j db' \<and> (\<forall>r. resp = Inr r \<longrightarrow> (\<exists>db1. room (Suc j) db1 \<and> ?script db1 = (db', Inr r)))"
      using room_others [OF env] acquire_room room_mono start ex by (rule execScript_sound)
    have ok: "?thesis" if r: "resp = Inr r" for r
    proof -
      from sound r obtain db1 st where st: "lease_rep vk counter ks db1 st" "last_fence st + 1 < fence_limit"
        and db1: "?script db1 = (db', Inr r)" by (fastforce simp: lease_room_def)
      from acquire_refines [OF ks_ok st ttl_pos ttl_lim, of t wid' "Itoa (now_ms env)" "TrimSpace (Provider ref)"
          "TrimSpace (ProviderDeviceID ref)"] db1
      have r': "r = enc_acquire t (snd (spec_acquire t st))"
        and rep: "lease_rep vk counter ks db' (fst (spec_acquire t st))" by (auto simp: ttlMs_eq)
      from res r r' have "res = Inr (case snd (spec_acquire t st) of
        Granted f \<Rightarrow> \<lparr>Acquired = True, ALease = \<lparr>LRef = normalizedRef ref, Token = t, WorkerID = wid',
             Fence = f, TTL = LeaseTTL (cfg m), lkeys = ks\<rparr>, ExistingToken = [], ExistingFence = 0\<rparr>
      | Denied f t \<Rightarrow> \<lparr>Acquired = False, ALease = zeroLease, ExistingToken = t, ExistingFence = f\<rparr>)"
        by (simp add: parseAcquire_enc)
      moreover have "TrimSpace token \<noteq> [] \<Longrightarrow> t = TrimSpace token" using Inr by (simp add: tokenR_def)
      ultimately show ?thesis using rep sound
        by (auto simp: spec_acquire_def split: option.splits)
    qed
    show ?thesis
    proof (cases resp)
      case (Inl e)
      with res sound show ?thesis by simp
    qed (rule ok)
  qed
qed

lemma Renew_sound:
  assumes keys: "keysForLease lease = Inr ks" and env: "env_ok vk counter ks b env"
    and start: "room (call_cost m optMax b + j) db"
    and run: "Renew m vk cl env lease state optMax db = (db', res)"
  shows "room j db' \<and> (\<forall>a. res = Inr a \<and> RenewedOK a \<longrightarrow>
    (\<exists>st. lease_rep vk counter ks db' st \<and> owner st = Some (TrimSpace (Token lease), RenewFence a)))"
proof (cases "TrimSpace (Token lease) = [] \<or> TrimSpace (WorkerID lease) = []")
  case True
  with run keys have "db' = db" "\<forall>a. res \<noteq> Inr a" by (auto simp: Renew_def split: if_splits)
  with room_weaken [OF start] show ?thesis by simp
next
  case False
  let ?t = "TrimSpace (Token lease)" and ?w = "TrimSpace (WorkerID lease)" and ?n = "Itoa (now_ms env)"
  let ?script = "leaseRenewScript vk ks ?t ?w (ttlMs m) ?n (normalizeState state)"
  obtain resp where ex: "execScript m optMax env ?script db = (db', resp)"
    and res: "res = (case resp of Inl e \<Rightarrow> Inl (ExecFailed e) | Inr x \<Rightarrow> parseRenew cl x)"
    using run keys False by (auto simp: Renew_def split: prod.splits sum.splits)
  have sound: "room j db' \<and> (\<forall>r. resp = Inr r \<longrightarrow> (\<exists>db1. room (Suc j) db1 \<and> ?script db1 = (db', Inr r)))"
    using room_others [OF env] renew_room room_mono start ex by (rule execScript_sound)
  show ?thesis
  proof (cases resp)
    case (Inl e)
    with res sound show ?thesis by simp
  next
    case (Inr r)
    with sound obtain db1 st where st: "lease_rep vk counter ks db1 st" and db1: "?script db1 = (db', Inr r)"
      by (fastforce simp: lease_room_def)
    from renew_refines [OF ks_ok st ttl_pos ttl_lim, of ?t ?w ?n "normalizeState state"] db1
    have r: "r = enc_renew (normalizeState state) (snd (spec_renew ?t st))"
      and rep: "lease_rep vk counter ks db' (fst (spec_renew ?t st))" by (auto simp: ttlMs_eq)
    from res Inr r rep sound show ?thesis
      by (auto simp: parseRenew_enc spec_renew_def split: option.splits if_splits)
  qed
qed

lemma Release_sound:
  assumes ref: "KeysForRef ref = Inr ks" and env: "env_ok vk counter ks b env"
    and start: "room (call_cost m optMax b + j) db"
    and run: "Release m vk cl env ref token optMax db = (db', res)"
  shows "room j db' \<and> (\<forall>a. res = Inr a \<longrightarrow>
    (\<exists>st. lease_rep vk counter ks db' st \<and>
       (if ReleasedOK a then owner st = None \<and> ReleaseReason a = ''released''
        else (owner st = None \<and> ReleaseReason a = ''missing'') \<or>
             (\<exists>t f. owner st = Some (t, f) \<and> t \<noteq> TrimSpace token \<and> ReleaseReason a = ''token_mismatch''))))"
proof (cases "TrimSpace token = []")
  case True
  with run ref have "db' = db" "\<forall>a. res \<noteq> Inr a" by (auto simp: Release_def)
  with room_weaken [OF start] show ?thesis by simp
next
  case False
  let ?script = "leaseReleaseScript vk ks (TrimSpace token)"
  obtain resp where ex: "execScript m optMax env ?script db = (db', resp)"
    and res: "res = (case resp of Inl e \<Rightarrow> Inl (ExecFailed e) | Inr x \<Rightarrow> parseRelease cl x)"
    using run ref False by (auto simp: Release_def split: prod.splits sum.splits)
  have sound: "room j db' \<and> (\<forall>r. resp = Inr r \<longrightarrow> (\<exists>db1. room (Suc j) db1 \<and> ?script db1 = (db', Inr r)))"
    using room_others [OF env] release_room room_mono start ex by (rule execScript_sound)
  show ?thesis
  proof (cases resp)
    case (Inl e)
    with res sound show ?thesis by simp
  next
    case (Inr r)
    with sound obtain db1 st where st: "lease_rep vk counter ks db1 st" and db1: "?script db1 = (db', Inr r)"
      by (fastforce simp: lease_room_def)
    from release_refines [OF ks_ok st, of "TrimSpace token"] db1
    have r: "r = enc_release (snd (spec_release (TrimSpace token) st))"
      and rep: "lease_rep vk counter ks db' (fst (spec_release (TrimSpace token) st))" by auto
    from res Inr r rep sound show ?thesis
      by (auto simp: parseRelease_enc spec_release_def split: option.splits if_splits
          intro!: exI [of _ "fst (spec_release (TrimSpace token) st)"])
  qed
qed

text \<open>One tick of the heartbeat: the loop goes on only as the owner of the lease, with its fence.\<close>

lemma hb_tick_sound:
  assumes keys: "keysForLease lease = Inr ks" and ref: "KeysForRef (LRef lease) = Inr ks"
    and tok: "TrimSpace (Token lease) = Token lease"
    and env: "env_ok vk counter ks b env1" "env_ok vk counter ks b env2"
    and start: "room (call_cost m (OptMaxAttempts opts) b + (call_cost m (OptMaxAttempts opts) b + j)) db"
    and run: "hb_tick m vk cl h opts env1 env2 lease db = (db', Inr lease')"
  shows "room j db' \<and> lease' = lease\<lparr>Fence := Fence lease'\<rparr> \<and>
    (\<exists>st. lease_rep vk counter ks db' st \<and> owner st = Some (Token lease, Fence lease'))"
proof -
  let ?opt = "OptMaxAttempts opts"
  obtain db1 res where ren: "Renew m vk cl env1 lease (normalizeState (StateDuringRenew opts)) ?opt db = (db1, res)"
    by fastforce
  note r = Renew_sound [OF keys env(1) start ren]
  from run ren obtain a where a: "res = Inr a" by (auto simp: hb_tick_def split: sum.splits)
  show ?thesis
  proof (cases "RenewedOK a")
    case True
    with run ren a have "db' = db1" "lease' = lease\<lparr>Fence := RenewFence a\<rparr>" by (auto simp: hb_tick_def)
    with r a True tok room_weaken show ?thesis by auto
  next
    case False
    obtain db2 res2 where acq: "Acquire m vk cl h env2 (LRef lease) (WorkerID lease) (Token lease) ?opt db1 = (db2, res2)"
      by fastforce
    from run ren a False acq obtain b2 where b2: "res2 = Inr b2" "Acquired b2" "db' = db2"
      "lease' = lease\<lparr>Fence := Fence (ALease b2)\<rparr>"
      by (auto simp: hb_tick_def split: sum.splits if_splits)
    note q = Acquire_sound [OF ref env(2) conjunct1 [OF r] acq]
    have "TrimSpace (Token lease) \<noteq> []"
      using ren a keys by (auto simp: Renew_def)
    with q b2 tok show ?thesis by auto
  qed
qed

text \<open>The whole loop: as long as it runs, it runs as the owner.\<close>

lemma RunHeartbeat_sound:
  assumes keys: "keysForLease lease = Inr ks" and ref: "KeysForRef (LRef lease) = Inr ks"
    and tok: "TrimSpace (Token lease) = Token lease"
    and env: "\<forall>ev \<in> set evs. event_ok vk counter ks b ev"
    and start: "room (length evs * (2 * call_cost m (OptMaxAttempts opts) b)) db"
    and run: "RunHeartbeat m vk cl h opts evs lease db = (db', lease', None)" and ne: "evs \<noteq> []"
  shows "\<exists>st. lease_rep vk counter ks db' st \<and> owner st = Some (Token lease, Fence lease')"
  using keys ref tok env start run ne
proof (induction evs arbitrary: lease db)
  case Nil
  then show ?case by simp
next
  case (Cons ev evs)
  let ?c = "call_cost m (OptMaxAttempts opts) b"
  from Cons.prems(6) obtain env1 env2 where ev: "ev = TimerFired env1 env2"
    by (cases ev) (auto split: prod.splits)
  from Cons.prems(6) ev obtain db1 lease1 where tick: "hb_tick m vk cl h opts env1 env2 lease db = (db1, Inr lease1)"
    and rest: "RunHeartbeat m vk cl h opts evs lease1 db1 = (db', lease', None)"
    by (auto split: prod.splits sum.splits)
  have envs: "env_ok vk counter ks b env1" "env_ok vk counter ks b env2"
    using Cons.prems(4) ev by (auto simp: event_ok_def)
  have room: "room (?c + (?c + length evs * (2 * ?c))) db" using Cons.prems(5) by (simp add: algebra_simps)
  note t = hb_tick_sound [OF Cons.prems(1-3) envs room tick]
  have same: "lease1 = lease\<lparr>Fence := Fence lease1\<rparr>" using t by blast
  then have same': "Token lease1 = Token lease" "keysForLease lease1 = keysForLease lease" "LRef lease1 = LRef lease"
    by (metis (no_types, lifting) Lease.select_convs Lease.surjective Lease.update_convs keysForLease_def)+
  show ?case
  proof (cases "evs = []")
    case True
    with rest t show ?thesis by simp
  next
    case False
    with rest Cons.prems same' t have "\<exists>st. lease_rep vk counter ks db' st \<and> owner st = Some (Token lease1, Fence lease')"
      by (intro Cons.IH) auto
    with same' show ?thesis by simp
  qed
qed

text \<open>Two definite answers of the server: a delivered call on a free lease, and a reply that got lost.\<close>

lemma Acquire_lost_reply:
  assumes ref: "KeysForRef ref = Inr ks" and tok: "TrimSpace token \<noteq> []"
    and rep: "lease_rep vk counter ks db st" and free: "owner st = None"
    and lim: "last_fence st + 2 < fence_limit"
    and others: "\<forall>n db. others env n db = db"
    and lost: "attempts env 1 = ReplyLost e" "isRetryableErr e" "sleep_err env 1 = None"
      "attempts env (Suc 1) = Delivered" and tries: "2 \<le> maxAttemptsFor m optMax"
  shows "\<exists>db' a. Acquire m vk cl h env ref wid token optMax db = (db', Inr a) \<and> \<not> Acquired a \<and>
     ExistingToken a = TrimSpace token \<and>
     lease_rep vk counter ks db' \<lparr>owner = Some (TrimSpace token, last_fence st + 1), last_fence = last_fence st + 1\<rparr>"
proof -
  define wid' where "wid' = (if TrimSpace wid = [] then defaultWorkerID h else TrimSpace wid)"
  let ?t = "TrimSpace token"
  let ?script = "leaseAcquireScript vk ks ?t wid' (ttlMs m) (Itoa (now_ms env)) (TrimSpace (Provider ref))
      (TrimSpace (ProviderDeviceID ref))"
  let ?st1 = "\<lparr>owner = Some (?t, last_fence st + 1), last_fence = last_fence st + 1\<rparr>"
  note acq = acquire_refines [OF ks_ok _ _ ttl_pos ttl_lim, of _ _ ?t wid' "Itoa (now_ms env)"
      "TrimSpace (Provider ref)" "TrimSpace (ProviderDeviceID ref)", folded ttlMs_eq]
  have st: "fst (spec_acquire ?t st) = ?st1" using free by (cases st) (simp add: spec_acquire_def)
  obtain db1 r where db1: "?script db = (db1, r)" "lease_rep vk counter ks db1 ?st1"
    using acq [OF rep] lim unfolding st by auto
  obtain db2 where db2: "?script db1 = (db2, Inr (RArray [RInt 0, RInt (last_fence st + 1), RBulk ?t]))"
    "lease_rep vk counter ks db2 ?st1"
    using acq [OF db1(2)] lim by (auto simp: spec_acquire_def)
  obtain k where k: "nat (maxAttemptsFor m optMax) - 1 = Suc k"
    using tries that [of "nat (maxAttemptsFor m optMax) - 2"] by linarith
  have "execScript m optMax env ?script db = (db2, Inr (RArray [RInt 0, RInt (last_fence st + 1), RBulk ?t]))"
    using lost others db1 db2 unfolding execScript_def k by (cases k) (simp_all add: exec_once_def)
  then show ?thesis using ref tok db2(2)
    by (simp add: Acquire_def wid'_def [symmetric] Let_def parseAcquire_def)
qed

lemma cancel_missing_lease:
  assumes ref: "KeysForRef (LRef lease) = Inr ks" and tok: "TrimSpace (Token lease) \<noteq> []"
    and rep: "lease_rep vk counter ks (others env1 1 db) st" and free: "owner st = None"
    and del: "attempts env1 1 = Delivered" and plain: "\<not> GracefulDrain opts"
  shows "snd (hb_cancel m vk cl opts env1 env2 lease db) = Some (ReleaseRejected ''missing'')"
proof -
  let ?t = "TrimSpace (Token lease)"
  obtain db' where "leaseReleaseScript vk ks ?t (others env1 1 db) = (db', Inr (RArray [RInt 0, RBulk ''missing'']))"
    using release_refines [OF ks_ok rep, of ?t] free by (auto simp: spec_release_def)
  with del have "execScript m (OptMaxAttempts opts) env1 (leaseReleaseScript vk ks ?t) db
      = (db', Inr (RArray [RInt 0, RBulk ''missing'']))"
    by (intro execScript_delivered)
  with ref tok plain show ?thesis
    by (simp add: hb_cancel_def Release_def parseRelease_def)
qed

text \<open>On a quiet server, a call that is delivered at last answers as the abstract lease does.\<close>

lemma Acquire_delivered:
  assumes ref: "KeysForRef ref = Inr ks" and tok: "TrimSpace token \<noteq> []"
    and rep: "lease_rep vk counter ks db st" and free: "owner st = None"
    and lim: "last_fence st + 1 < fence_limit"
    and env: "delivered_at env n" "int n \<le> maxAttemptsFor m optMax" "\<forall>i db. others env i db = db"
  shows "\<exists>db' a. Acquire m vk cl h env ref wid token optMax db = (db', Inr a) \<and> Acquired a \<and>
     Token (ALease a) = TrimSpace token \<and> Fence (ALease a) = last_fence st + 1 \<and>
     lease_rep vk counter ks db' \<lparr>owner = Some (TrimSpace token, last_fence st + 1), last_fence = last_fence st + 1\<rparr>"
proof -
  define wid' where "wid' = (if TrimSpace wid = [] then defaultWorkerID h else TrimSpace wid)"
  let ?t = "TrimSpace token"
  let ?script = "leaseAcquireScript vk ks ?t wid' (ttlMs m) (Itoa (now_ms env)) (TrimSpace (Provider ref))
      (TrimSpace (ProviderDeviceID ref))"
  let ?st1 = "\<lparr>owner = Some (?t, last_fence st + 1), last_fence = last_fence st + 1\<rparr>"
  have st: "spec_acquire ?t st = (?st1, Granted (last_fence st + 1))"
    using free by (cases st) (simp add: spec_acquire_def)
  obtain db1 where db1: "?script db = (db1, Inr (RArray [RInt 1, RInt (last_fence st + 1), RBulk ?t]))"
    "lease_rep vk counter ks db1 ?st1"
    using acquire_refines [OF ks_ok rep lim ttl_pos ttl_lim, of ?t wid' "Itoa (now_ms env)"
      "TrimSpace (Provider ref)" "TrimSpace (ProviderDeviceID ref)", folded ttlMs_eq]
    unfolding st by auto
  note execScript_delivered_at [where script = ?script, OF env db1(1)]
  then show ?thesis using ref tok db1(2)
    by (simp add: Acquire_def wid'_def [symmetric] Let_def parseAcquire_def)
qed

lemma Renew_delivered:
  assumes keys: "keysForLease lease = Inr ks" and ne: "TrimSpace (Token lease) \<noteq> []" "TrimSpace (WorkerID lease) \<noteq> []"
    and rep: "lease_rep vk counter ks db st" and own: "owner st = Some (TrimSpace (Token lease), f)"
    and env: "delivered_at env n" "int n \<le> maxAttemptsFor m optMax" "\<forall>i db. others env i db = db"
  shows "\<exists>db'. Renew m vk cl env lease state optMax db =
       (db', Inr \<lparr>RenewedOK = True, RenewFence = f, RenewReason = normalizeState state\<rparr>) \<and>
     lease_rep vk counter ks db' st"
proof -
  let ?script = "leaseRenewScript vk ks (TrimSpace (Token lease)) (TrimSpace (WorkerID lease)) (ttlMs m)
      (Itoa (now_ms env)) (normalizeState state)"
  obtain db1 where db1: "?script db = (db1, Inr (enc_renew (normalizeState state) (Renewed f)))"
    "lease_rep vk counter ks db1 st"
    using renew_refines [OF ks_ok rep ttl_pos ttl_lim, of "TrimSpace (Token lease)" "TrimSpace (WorkerID lease)"
      "Itoa (now_ms env)" "normalizeState state", folded ttlMs_eq] own
    by (auto simp: spec_renew_def)
  note execScript_delivered_at [where script = ?script, OF env db1(1)]
  with keys ne db1(2) show ?thesis by (simp add: Renew_def parseRenew_def)
qed

text \<open>A heartbeat whose calls get through keeps the lease it has, however many ticks it runs.\<close>

lemma RunHeartbeat_keeps:
  assumes keys: "keysForLease lease = Inr ks" and ne: "TrimSpace (Token lease) \<noteq> []" "TrimSpace (WorkerID lease) \<noteq> []"
    and own: "owner st = Some (TrimSpace (Token lease), Fence lease)"
    and rep: "lease_rep vk counter ks db st"
    and evs: "\<forall>ev \<in> set evs. \<exists>env1 env2 n. ev = TimerFired env1 env2 \<and> delivered_at env1 n \<and>
       int n \<le> maxAttemptsFor m (OptMaxAttempts opts) \<and> (\<forall>i db. others env1 i db = db)"
  shows "\<exists>db'. RunHeartbeat m vk cl h opts evs lease db = (db', lease, None) \<and> lease_rep vk counter ks db' st"
  using rep evs
proof (induction evs arbitrary: db)
  case Nil
  then show ?case by simp
next
  case (Cons ev evs)
  from Cons.prems(2) obtain env1 env2 n where ev: "ev = TimerFired env1 env2"
    and env: "delivered_at env1 n" "int n \<le> maxAttemptsFor m (OptMaxAttempts opts)" "\<forall>i db. others env1 i db = db"
    by auto
  from Renew_delivered [OF keys ne Cons.prems(1) own env, of "normalizeState (StateDuringRenew opts)"]
  obtain db1 where "hb_tick m vk cl h opts env1 env2 lease db = (db1, Inr lease)" "lease_rep vk counter ks db1 st"
    by (auto simp: hb_tick_def)
  with Cons ev show ?case by simp
qed

text \<open>Draining: the renewal that marks the lease, then the release.\<close>

lemma DrainAndRelease_sound:
  assumes keys: "keysForLease lease = Inr ks" and ref: "KeysForRef (LRef lease) = Inr ks"
    and env: "env_ok vk counter ks b env1" "env_ok vk counter ks b env2"
    and start: "room (call_cost m optMax b + (call_cost m optMax b + j)) db"
    and run: "DrainAndRelease m vk cl env1 env2 lease optMax db = (db', Inr a)"
  shows "\<exists>st. lease_rep vk counter ks db' st \<and> (\<forall>f. owner st \<noteq> Some (TrimSpace (Token lease), f))"
proof -
  obtain db1 res where ren: "Renew m vk cl env1 lease leaseStateDraining optMax db = (db1, res)" by fastforce
  note r = Renew_sound [OF keys env(1) start ren]
  from run ren obtain x where "Release m vk cl env2 (LRef lease) (Token lease) optMax db1 = (db', Inr a)"
    by (auto simp: DrainAndRelease_def split: sum.splits)
  from Release_sound [OF ref env(2) conjunct1 [OF r] this] show ?thesis by (auto split: if_splits)
qed

end

section \<open>The default manager\<close>

definition sample_manager :: Manager where
  "sample_manager = \<lparr>cfg = DefaultConfig, ttlMs = Itoa 45000, retry = CfgRetryPolicy DefaultConfig\<rparr>"

lemmas config_defs = DefaultConfig_def defaultLeaseTTL_def defaultHeartbeatInterval_def
  defaultHeartbeatJitter_def defaultMaxAttempts_def defaultMinBackoff_def defaultMaxBackoff_def
  Second_def Millisecond_def

lemma NewManager_default: "NewManager DefaultConfig = Inr sample_manager"
  by (simp add: NewManager_def normalizeRetry_def sample_manager_def config_defs)

lemma manager_ok_sample: "manager_ok sample_manager"
  by (simp add: manager_ok_def sample_manager_def config_defs fence_limit_def)

interpretation ref_client: lease_client ref_server ref_counter sample_keys plain_conv sample_manager
  by unfold_locales (rule manager_ok_sample)

text \<open>A manager of \<open>NewManager\<close> serves leases whenever its TTL is at least a millisecond.\<close>

lemma NewManager_manager_ok:
  assumes "NewManager c = Inr m" "Millisecond \<le> LeaseTTL (cfg m)" "LeaseTTL (cfg m) < fence_limit"
  shows "manager_ok m"
proof -
  have "LeaseTTL (cfg m) div Millisecond \<le> LeaseTTL (cfg m)"
    using assms(2) by (simp add: Millisecond_def)
  moreover have "0 < LeaseTTL (cfg m) div Millisecond"
    using assms(2) by (simp add: pos_imp_zdiv_pos_iff Millisecond_def)
  ultimately show ?thesis using assms
    by (auto simp: manager_ok_def NewManager_def Let_def split: if_splits)
qed

end
