(* ===== verification/Lease_Properties.thy ===== *)
theory Lease_Properties
  imports Lease_Manager
begin

text \<open>
  The properties of the lease manager, over any server that obeys the Valkey laws and any client
  library whose conversions read a reply of the right kind. The witnesses run the manager of
  \<open>DefaultConfig\<close> on the reference server.
\<close>

section \<open>From the interfaces to the manager\<close>

lemma lease_clientI:
  assumes "valkey_server vk counter" "reply_reader cl" "manager_ok m" "KeysForRef ref = Inr ks"
  shows "lease_client vk counter ks cl m"
proof -
  have "keys_ok ks" using assms(4) by (auto simp: keys_ok_def)
  then show ?thesis using assms(1-3)
    by (simp add: lease_client_def lease_group_def lease_group_axioms_def lease_client_axioms_def)
qed

definition calm_env :: "'db call_env" where
  "calm_env = \<lparr>attempts = (\<lambda>_. Delivered), sleep_err = (\<lambda>_. None), now_ms = 1, others = (\<lambda>_ db. db)\<rparr>"

definition sample_host :: host_env where
  "sample_host = \<lparr>hostname = ''h'', pid = 7, newToken = Inr ''tok2''\<rparr>"

definition sample_lease :: Lease where
  "sample_lease = \<lparr>LRef = sample_ref, Token = ''tok2'', WorkerID = ''w'', Fence = 2, TTL = defaultLeaseTTL,
     lkeys = sample_keys\<rparr>"

definition sample_opts :: HeartbeatOptions where
  "sample_opts = \<lparr>GracefulDrain = False, OptMaxAttempts = 0, StateDuringRenew = ''active''\<rparr>"

lemma env_ok_calm [simp]: "env_ok vk counter ks b calm_env"
proof -
  have "lease_room vk counter ks (k + b) db \<Longrightarrow> lease_room vk counter ks k db" for k db
    by (auto simp: lease_room_def)
  then show ?thesis by (simp add: env_ok_def calm_env_def)
qed

lemma delivered_at_calm [simp]: "delivered_at calm_env (Suc 0)"
  by (simp add: delivered_at_def calm_env_def)

lemma delivered_within_calm [simp]: "\<exists>n. delivered_at calm_env n \<and> n \<le> 3"
  by (rule exI [of _ "Suc 0"]) simp

lemma others_calm [simp]: "others calm_env n db = db"
  by (simp add: calm_env_def)

lemma sample_lease_keys [simp]: "keysForLease sample_lease = Inr sample_keys"
  by (simp add: keysForLease_def sample_lease_def sample_keys_def Let_def)

lemma sample_lease_ref [simp]: "KeysForRef (LRef sample_lease) = Inr sample_keys"
  by (simp add: sample_lease_def KeysForRef_sample)

lemma sample_tokens [simp]: "TrimSpace ''tok1'' = ''tok1''" "TrimSpace ''tok2'' = ''tok2''" "TrimSpace ''w'' = ''w''"
  by code_simp+

lemma sample_lease_token [simp]: "Token sample_lease = ''tok2''" "WorkerID sample_lease = ''w''" "Fence sample_lease = 2"
  by (simp_all add: sample_lease_def)

lemma sample_max [simp]: "maxAttemptsFor sample_manager 0 = 3"
  by (simp add: maxAttemptsFor_def sample_manager_def config_defs)

lemma sample_room:
  assumes "lease_rep ref_server ref_counter sample_keys db st" "last_fence st \<le> 2" "k < 1000"
  shows "lease_room ref_server ref_counter sample_keys k db"
  unfolding lease_room_def
  by (intro exI [of _ st] conjI assms(1)) (use assms(2,3) in \<open>simp add: fence_limit_def\<close>)

lemmas sample_laws = ref_valkey.valkey_server_axioms plain.reply_reader_axioms manager_ok_sample

section \<open>Configuration\<close>

text \<open>Every manager that \<open>NewManager\<close> accepts has a positive heartbeat interval shorter than its
  lease TTL, a jitter between 0 and 1, at least one attempt per call, ordered positive backoffs, and
  waits between two attempts no less than the smaller and no more than the larger backoff.\<close>

theorem NewManager_sane:
  assumes "NewManager c = Inr m"
  shows "0 < HeartbeatInterval (cfg m) \<and> HeartbeatInterval (cfg m) < LeaseTTL (cfg m) \<and>
    0 \<le> HeartbeatJitter (cfg m) \<and> HeartbeatJitter (cfg m) \<le> 1 \<and>
    1 \<le> maxAttemptsFor m optMax \<and> 0 < MinBackoff (retry m) \<and>
    MinBackoff (retry m) \<le> clampDelay (retry m) d \<and> clampDelay (retry m) d \<le> MaxBackoff (retry m)"
proof -
  have retry: "retry m = normalizeRetry (CfgRetryPolicy c)"
    using assms by (auto simp: NewManager_def Let_def split: if_splits)
  have "0 < HeartbeatInterval (cfg m)" "HeartbeatInterval (cfg m) < LeaseTTL (cfg m)"
    "0 \<le> HeartbeatJitter (cfg m)" "HeartbeatJitter (cfg m) \<le> 1"
    using assms by (auto simp: NewManager_def Let_def config_defs split: if_splits)
  moreover have "0 < MinBackoff (retry m)" "MinBackoff (retry m) \<le> MaxBackoff (retry m)"
    by (auto simp: retry normalizeRetry_def Let_def config_defs)
  ultimately show ?thesis by (simp add: maxAttemptsFor_def Let_def clampDelay_def)
qed

theorem NewManager_sane_witness:
  "NewManager DefaultConfig = Inr sample_manager \<and> HeartbeatInterval (cfg sample_manager) < LeaseTTL (cfg sample_manager) \<and>
   clampDelay (retry sample_manager) 999999999 \<le> MaxBackoff (retry sample_manager)"
  using NewManager_sane [OF NewManager_default] NewManager_default by blast

section \<open>Ownership\<close>

text \<open>When \<open>Acquire\<close> reports success, the server stores the caller's token as the owner of the
  lease with the very fence the caller was given, which is the last fence ever granted; this holds
  whatever attempts failed or lost their reply, and whatever other clients did meanwhile.\<close>

theorem Acquire_owns:
  assumes "valkey_server vk counter" "reply_reader cl" "manager_ok m" "KeysForRef ref = Inr ks"
    and "env_ok vk counter ks b env" "lease_room vk counter ks (call_cost m optMax b) db"
    and "Acquire m vk cl h env ref wid token optMax db = (db', Inr a)" "Acquired a"
  shows "\<exists>st. lease_rep vk counter ks db' st \<and> last_fence st = Fence (ALease a) \<and>
    owner st = Some (Token (ALease a), Fence (ALease a))"
proof -
  have "lease_client vk counter ks cl m" using assms(1-4) by (rule lease_clientI)
  from lease_client.Acquire_sound [OF this assms(4,5), where j = 0] assms(6-8) show ?thesis by auto
qed

theorem Acquire_owns_witness:
  "\<exists>db' a. Acquire sample_manager ref_server plain_conv sample_host calm_env sample_ref ''w'' ''tok1'' 0 empty_db
     = (db', Inr a) \<and> Acquired a \<and>
   (\<exists>st. lease_rep ref_server ref_counter sample_keys db' st \<and> owner st = Some (''tok1'', 1))"
proof -
  obtain db' a where run: "Acquire sample_manager ref_server plain_conv sample_host calm_env sample_ref ''w'' ''tok1'' 0 empty_db
      = (db', Inr a)" "Acquired a" "Token (ALease a) = ''tok1''" "Fence (ALease a) = 1"
    using ref_client.Acquire_delivered [OF KeysForRef_sample _ sample_rep0, of "''tok1''" calm_env 1 0 sample_host "''w''"]
    by (auto simp: fence_limit_def)
  have "lease_room ref_server ref_counter sample_keys (call_cost sample_manager 0 0) empty_db"
    by (rule sample_room [OF sample_rep0]) (simp_all add: loop_budget_def)
  from Acquire_owns [OF sample_laws KeysForRef_sample env_ok_calm this run(1,2)] run show ?thesis by auto
qed

text \<open>C18: On a free lease of an otherwise quiet server, \<open>Acquire\<close> succeeds with the next fence as soon
  as one attempt within the allowance is delivered, the earlier ones having failed to reach the
  server for reasons worth a retry.\<close>

theorem Acquire_succeeds:
  assumes "valkey_server vk counter" "reply_reader cl" "manager_ok m" "KeysForRef ref = Inr ks"
    and "TrimSpace token \<noteq> []" "lease_rep vk counter ks db st" "owner st = None" "last_fence st + 1 < fence_limit"
    and "delivered_at env n" "int n \<le> maxAttemptsFor m optMax" "\<forall>i db. others env i db = db"
  shows "\<exists>db' a. Acquire m vk cl h env ref wid token optMax db = (db', Inr a) \<and> Acquired a \<and>
     Token (ALease a) = TrimSpace token \<and> Fence (ALease a) = last_fence st + 1 \<and>
     lease_rep vk counter ks db' \<lparr>owner = Some (TrimSpace token, last_fence st + 1), last_fence = last_fence st + 1\<rparr>"
  by (rule lease_client.Acquire_delivered [OF lease_clientI [OF assms(1-4)] assms(4-11)])

definition flaky_env :: "'db call_env" where
  "flaky_env = calm_env\<lparr>attempts := (\<lambda>n. if n < 3 then NotSent ((plain_err ''x'')\<lparr>err_net := True\<rparr>) else Delivered)\<rparr>"

theorem Acquire_succeeds_witness:
  "\<exists>db' a. Acquire sample_manager ref_server plain_conv sample_host flaky_env sample_ref ''w'' ''tok1'' 0 empty_db
     = (db', Inr a) \<and> Acquired a \<and> Fence (ALease a) = 1"
  using Acquire_succeeds [OF sample_laws KeysForRef_sample _ sample_rep0, of "''tok1''" flaky_env 3 0 sample_host "''w''"]
  by (auto simp: flaky_env_def calm_env_def delivered_at_def isRetryableErr_def plain_err_def fence_limit_def)

text \<open>The heartbeat loop runs on only as the owner: whenever it waits for its next event after
  some ticks, the server stores the heartbeat's own token as the owner, with the fence it holds.\<close>

theorem RunHeartbeat_owns:
  assumes "valkey_server vk counter" "reply_reader cl" "manager_ok m"
    and "keysForLease lease = Inr ks" "KeysForRef (LRef lease) = Inr ks" "TrimSpace (Token lease) = Token lease"
    and "\<forall>ev \<in> set evs. event_ok vk counter ks b ev"
    and "lease_room vk counter ks (length evs * (2 * call_cost m (OptMaxAttempts opts) b)) db"
    and "RunHeartbeat m vk cl h opts evs lease db = (db', lease', None)" "evs \<noteq> []"
  shows "\<exists>st. lease_rep vk counter ks db' st \<and> owner st = Some (Token lease, Fence lease')"
  by (rule lease_client.RunHeartbeat_sound [OF lease_clientI [OF assms(1-3) assms(5)] assms(4-10)])

lemma sample_heartbeat:
  "\<exists>db'. RunHeartbeat sample_manager ref_server plain_conv sample_host sample_opts
      [TimerFired calm_env calm_env, TimerFired calm_env calm_env] sample_lease (wdb sample_w3) = (db', sample_lease, None)"
  using ref_client.RunHeartbeat_keeps [of sample_lease _ _ "[TimerFired calm_env calm_env, TimerFired calm_env calm_env]"
      sample_opts sample_host, OF _ _ _ _ sample_rep3]
  by (auto simp: sample_opts_def)

theorem RunHeartbeat_owns_witness:
  "\<exists>db' st. RunHeartbeat sample_manager ref_server plain_conv sample_host sample_opts
      [TimerFired calm_env calm_env, TimerFired calm_env calm_env] sample_lease (wdb sample_w3) = (db', sample_lease, None) \<and>
    lease_rep ref_server ref_counter sample_keys db' st \<and> owner st = Some (''tok2'', 2)"
proof -
  obtain db' where run: "RunHeartbeat sample_manager ref_server plain_conv sample_host sample_opts
      [TimerFired calm_env calm_env, TimerFired calm_env calm_env] sample_lease (wdb sample_w3) = (db', sample_lease, None)"
    using sample_heartbeat by blast
  have room: "lease_room ref_server ref_counter sample_keys (length [TimerFired calm_env calm_env, TimerFired calm_env calm_env] *
      (2 * call_cost sample_manager (OptMaxAttempts sample_opts) 0)) (wdb sample_w3)"
    by (rule sample_room [OF sample_rep3]) (simp_all add: loop_budget_def sample_opts_def)
  have ok: "\<forall>ev \<in> set [TimerFired calm_env calm_env, TimerFired calm_env calm_env].
      event_ok ref_server ref_counter sample_keys 0 ev"
    by (simp add: event_ok_def)
  from RunHeartbeat_owns [OF sample_laws _ _ _ ok room run] run show ?thesis by fastforce
qed

text \<open>A heartbeat whose renewals get through within their allowance, on an otherwise quiet
  server, keeps the lease: after any number of ticks it still runs, with the same token and fence,
  and the stored lease is unchanged.\<close>

theorem RunHeartbeat_runs_on:
  assumes "valkey_server vk counter" "reply_reader cl" "manager_ok m" "KeysForRef ref = Inr ks"
    and "keysForLease lease = Inr ks" "TrimSpace (Token lease) \<noteq> []" "TrimSpace (WorkerID lease) \<noteq> []"
    and "owner st = Some (TrimSpace (Token lease), Fence lease)" "lease_rep vk counter ks db st"
    and "\<forall>ev \<in> set evs. \<exists>env1 env2 n. ev = TimerFired env1 env2 \<and> delivered_at env1 n \<and>
       int n \<le> maxAttemptsFor m (OptMaxAttempts opts) \<and> (\<forall>i db. others env1 i db = db)"
  shows "\<exists>db'. RunHeartbeat m vk cl h opts evs lease db = (db', lease, None) \<and> lease_rep vk counter ks db' st"
  by (rule lease_client.RunHeartbeat_keeps [OF lease_clientI [OF assms(1-4)] assms(5-10)])

theorem RunHeartbeat_runs_on_witness:
  "\<exists>db'. RunHeartbeat sample_manager ref_server plain_conv sample_host sample_opts
      [TimerFired calm_env calm_env] sample_lease (wdb sample_w3) = (db', sample_lease, None) \<and>
    lease_rep ref_server ref_counter sample_keys db' \<lparr>owner = Some (''tok2'', 2), last_fence = 2\<rparr>"
  using RunHeartbeat_runs_on [OF sample_laws KeysForRef_sample, of sample_lease _ _ "[TimerFired calm_env calm_env]"
      sample_opts sample_host, OF _ _ _ _ sample_rep3]
  by (auto simp: sample_opts_def)

text \<open>\<open>Release\<close> answers what it did: after an answer the server is without a lease or another
  token holds it, and the answer says which of released, missing or token mismatch it was.\<close>

theorem Release_effect:
  assumes "valkey_server vk counter" "reply_reader cl" "manager_ok m" "KeysForRef ref = Inr ks"
    and "env_ok vk counter ks b env" "lease_room vk counter ks (call_cost m optMax b) db"
    and "Release m vk cl env ref token optMax db = (db', Inr a)"
  shows "\<exists>st. lease_rep vk counter ks db' st \<and>
    (if ReleasedOK a then owner st = None \<and> ReleaseReason a = ''released''
     else (owner st = None \<and> ReleaseReason a = ''missing'') \<or>
          (\<exists>t f. owner st = Some (t, f) \<and> t \<noteq> TrimSpace token \<and> ReleaseReason a = ''token_mismatch''))"
proof -
  have "lease_client vk counter ks cl m" using assms(1-4) by (rule lease_clientI)
  from lease_client.Release_sound [OF this assms(4,5), where j = 0] assms(6-7) show ?thesis by simp
qed

lemma sample_release:
  "Release sample_manager ref_server plain_conv calm_env sample_ref ''tok2'' 0 (wdb sample_w3)
     = (fst (leaseReleaseScript ref_server sample_keys ''tok2'' (wdb sample_w3)),
        Inr \<lparr>ReleasedOK = True, ReleaseReason = ''released''\<rparr>)"
proof -
  obtain db' where rel: "leaseReleaseScript ref_server sample_keys ''tok2'' (wdb sample_w3)
      = (db', Inr (RArray [RInt 1, RBulk ''released'']))"
    using ref_valkey.release_refines [OF keys_ok_sample sample_rep3, of "''tok2''"] by (auto simp: spec_release_def)
  then have "execScript sample_manager 0 calm_env (leaseReleaseScript ref_server sample_keys ''tok2'') (wdb sample_w3)
      = (db', Inr (RArray [RInt 1, RBulk ''released'']))"
    by (intro execScript_delivered) (simp_all add: calm_env_def)
  with rel show ?thesis by (simp add: Release_def KeysForRef_sample parseRelease_def)
qed

theorem Release_effect_witness:
  "\<exists>st. lease_rep ref_server ref_counter sample_keys
      (fst (leaseReleaseScript ref_server sample_keys ''tok2'' (wdb sample_w3))) st \<and> owner st = None"
proof -
  have "lease_room ref_server ref_counter sample_keys (call_cost sample_manager 0 0) (wdb sample_w3)"
    by (rule sample_room [OF sample_rep3]) (simp_all add: loop_budget_def)
  from Release_effect [OF sample_laws KeysForRef_sample env_ok_calm this sample_release] show ?thesis by auto
qed

text \<open>A \<open>DrainAndRelease\<close> that returns a result leaves the server without a lease of the caller's
  token.\<close>

theorem DrainAndRelease_effect:
  assumes "valkey_server vk counter" "reply_reader cl" "manager_ok m"
    and "keysForLease lease = Inr ks" "KeysForRef (LRef lease) = Inr ks"
    and "env_ok vk counter ks b env1" "env_ok vk counter ks b env2"
    and "lease_room vk counter ks (2 * call_cost m optMax b) db"
    and "DrainAndRelease m vk cl env1 env2 lease optMax db = (db', Inr a)"
  shows "\<exists>st. lease_rep vk counter ks db' st \<and> (\<forall>f. owner st \<noteq> Some (TrimSpace (Token lease), f))"
proof -
  have "lease_client vk counter ks cl m" using assms(1-3,5) by (rule lease_clientI)
  from lease_client.DrainAndRelease_sound [OF this assms(4-7), where j = 0] assms(8,9) show ?thesis
    by (simp add: mult_2)
qed

theorem DrainAndRelease_effect_witness:
  "\<exists>db' a st. DrainAndRelease sample_manager ref_server plain_conv calm_env calm_env sample_lease 0 (wdb sample_w3) = (db', Inr a) \<and>
    lease_rep ref_server ref_counter sample_keys db' st \<and> (\<forall>f. owner st \<noteq> Some (''tok2'', f))"
proof -
  obtain db1 x where ren: "Renew sample_manager ref_server plain_conv calm_env sample_lease leaseStateDraining 0 (wdb sample_w3) = (db1, Inr x)"
    and rep: "lease_rep ref_server ref_counter sample_keys db1 \<lparr>owner = Some (''tok2'', 2), last_fence = 2\<rparr>"
    using ref_client.Renew_delivered [of sample_lease _ _ _ calm_env 1 0 leaseStateDraining, OF _ _ _ sample_rep3] by auto
  obtain db2 y where rel: "leaseReleaseScript ref_server sample_keys ''tok2'' db1 = (db2, Inr (RArray [RInt 1, RBulk y]))"
    using ref_valkey.release_refines [OF keys_ok_sample rep, of "''tok2''"] by (auto simp: spec_release_def)
  then have "execScript sample_manager 0 calm_env (leaseReleaseScript ref_server sample_keys ''tok2'') db1
      = (db2, Inr (RArray [RInt 1, RBulk y]))"
    by (intro execScript_delivered) (simp_all add: calm_env_def)
  with ren obtain a where run: "DrainAndRelease sample_manager ref_server plain_conv calm_env calm_env sample_lease 0 (wdb sample_w3) = (db2, Inr a)"
    by (simp add: DrainAndRelease_def Release_def parseRelease_def)
  have "lease_room ref_server ref_counter sample_keys (2 * call_cost sample_manager 0 0) (wdb sample_w3)"
    by (rule sample_room [OF sample_rep3]) (simp_all add: loop_budget_def)
  from DrainAndRelease_effect [OF sample_laws _ _ _ _ this run] run show ?thesis by auto
qed

section \<open>Where the manager's answer and the server disagree\<close>

text \<open>On cancellation without draining, a lease that has already expired is reported as an error:
  the release script answers \<open>missing\<close>, which the heartbeat does not forgive (it forgives
  \<open>not_found\<close>, an answer no script gives).\<close>

theorem cancel_reports_missing:
  assumes "valkey_server vk counter" "reply_reader cl" "manager_ok m" "KeysForRef (LRef lease) = Inr ks"
    and "TrimSpace (Token lease) \<noteq> []" "lease_rep vk counter ks (others env1 1 db) st" "owner st = None"
    and "attempts env1 1 = Delivered" "\<not> GracefulDrain opts"
  shows "snd (hb_cancel m vk cl opts env1 env2 lease db) = Some (ReleaseRejected ''missing'')"
  by (rule lease_client.cancel_missing_lease [OF lease_clientI [OF assms(1-4)] assms(4-9)])

theorem cancel_reports_missing_witness:
  "snd (hb_cancel sample_manager ref_server plain_conv sample_opts calm_env calm_env sample_lease (wdb sample_w2))
     = Some (ReleaseRejected ''missing'')"
  using cancel_reports_missing [OF sample_laws sample_lease_ref, of calm_env "wdb sample_w2" _ sample_opts calm_env] sample_rep2
  by (fastforce simp: calm_env_def sample_opts_def)

text \<open>C19: When the server executes an acquisition but its reply is lost, the retry is refused: the
  caller is told it did not acquire the lease, while the server stores the caller's own token as
  the owner (the refusal names that token).\<close>

theorem Acquire_after_lost_reply:
  assumes "valkey_server vk counter" "reply_reader cl" "manager_ok m" "KeysForRef ref = Inr ks"
    and "TrimSpace token \<noteq> []" "lease_rep vk counter ks db st" "owner st = None" "last_fence st + 2 < fence_limit"
    and "\<forall>n db. others env n db = db" "attempts env 1 = ReplyLost e" "isRetryableErr e" "sleep_err env 1 = None"
    and "attempts env (Suc 1) = Delivered" "2 \<le> maxAttemptsFor m optMax"
  shows "\<exists>db' a. Acquire m vk cl h env ref wid token optMax db = (db', Inr a) \<and> \<not> Acquired a \<and>
     ExistingToken a = TrimSpace token \<and>
     lease_rep vk counter ks db' \<lparr>owner = Some (TrimSpace token, last_fence st + 1), last_fence = last_fence st + 1\<rparr>"
  by (rule lease_client.Acquire_lost_reply [OF lease_clientI [OF assms(1-4)] assms(4-14)])

definition lossy_env :: "'db call_env" where
  "lossy_env = calm_env\<lparr>attempts := (\<lambda>n. if n < 2 then ReplyLost ((plain_err ''x'')\<lparr>err_net := True\<rparr>) else Delivered)\<rparr>"

theorem Acquire_after_lost_reply_witness:
  "\<exists>db' a. Acquire sample_manager ref_server plain_conv sample_host lossy_env sample_ref ''w'' ''tok1'' 0 empty_db
     = (db', Inr a) \<and> \<not> Acquired a \<and> ExistingToken a = ''tok1''"
  using Acquire_after_lost_reply [OF sample_laws KeysForRef_sample _ sample_rep0,
      of "''tok1''" lossy_env "(plain_err ''x'')\<lparr>err_net := True\<rparr>" 0 sample_host "''w''"]
  by (auto simp: lossy_env_def calm_env_def isRetryableErr_def plain_err_def fence_limit_def)

context valkey_server
begin

lemma acquire_zero_ttl:
  assumes ks: "keys_ok ks" and rep: "lease_rep vk counter ks db st" and free: "owner st = None"
    and room: "last_fence st + 1 < fence_limit"
  shows "\<exists>db'. leaseAcquireScript vk ks token wid (Itoa 0) now prov pdid db
           = (db', Inr (RArray [RInt 1, RInt (last_fence st + 1), RBulk token])) \<and>
         lease_rep vk counter ks db' \<lparr>owner = None, last_fence = last_fence st + 1\<rparr>"
proof -
  from rep free have c: "counter db (FenceKey ks) = Some (last_fence st)" "0 \<le> last_fence st"
    "last_fence st < fence_limit" and gone: "\<not> vk_exists vk db (LeaseKey ks)"
    by (simp_all add: lease_rep_def)
  from c(1,3) obtain db1 where incr: "vk_incr vk db (FenceKey ks) = Some (db1, last_fence st + 1)"
    "counter db1 (FenceKey ks) = Some (last_fence st + 1)"
    by (rule incr_below)
  have zero: "lua_tonumber vk (Itoa 0) = 0" by (rule tonumber_Itoa) (simp_all add: fence_limit_def)
  have keys: "LeaseKey ks \<noteq> SessionKey ks" "FenceKey ks \<noteq> LeaseKey ks" "FenceKey ks \<noteq> SessionKey ks"
    using keys_ok_distinct [OF ks] by auto
  from incr gone c room keys show ?thesis
    by (simp add: leaseAcquireScript_def zero Let_def lease_rep_def pexpire_nonpos exists_del exists_hset
        counter_del counter_hset)
qed

end

text \<open>\<open>NewManager\<close> accepts a lease TTL below a millisecond. Its managers send a TTL of zero, and
  the server then deletes the lease in the very script that grants it: \<open>Acquire\<close> reports success
  and nobody owns the lease.\<close>

theorem Acquire_submillisecond:
  assumes "valkey_server vk counter" "reply_reader cl" "NewManager c = Inr m" "LeaseTTL (cfg m) < Millisecond"
    and "KeysForRef ref = Inr ks" "TrimSpace token \<noteq> []" "lease_rep vk counter ks db st" "owner st = None"
    and "last_fence st + 1 < fence_limit" "attempts env 1 = Delivered" "\<forall>n db. others env n db = db"
  shows "\<exists>db' a. Acquire m vk cl h env ref wid token optMax db = (db', Inr a) \<and> Acquired a \<and>
     lease_rep vk counter ks db' \<lparr>owner = None, last_fence = last_fence st + 1\<rparr>"
proof -
  define wid' where "wid' = (if TrimSpace wid = [] then defaultWorkerID h else TrimSpace wid)"
  let ?t = "TrimSpace token"
  let ?script = "leaseAcquireScript vk ks ?t wid' (ttlMs m) (Itoa (now_ms env)) (TrimSpace (Provider ref))
      (TrimSpace (ProviderDeviceID ref))"
  have "0 < LeaseTTL (cfg m)" "ttlMs m = Itoa (LeaseTTL (cfg m) div Millisecond)"
    using assms(3) by (auto simp: NewManager_def Let_def config_defs split: if_splits)
  then have ttl: "ttlMs m = Itoa 0" using assms(4) by (simp add: div_pos_pos_trivial)
  have ks: "keys_ok ks" using assms(5) by (auto simp: keys_ok_def)
  obtain db' where db': "?script db = (db', Inr (RArray [RInt 1, RInt (last_fence st + 1), RBulk ?t]))"
    "lease_rep vk counter ks db' \<lparr>owner = None, last_fence = last_fence st + 1\<rparr>"
    using valkey_server.acquire_zero_ttl [OF assms(1) ks assms(7-9), of ?t wid' "Itoa (now_ms env)"
      "TrimSpace (Provider ref)" "TrimSpace (ProviderDeviceID ref)", folded ttl] by blast
  have "?script (others env 1 db) = (db', Inr (RArray [RInt 1, RInt (last_fence st + 1), RBulk ?t]))"
    using db'(1) assms(11) by simp
  note execScript_delivered [where script = ?script, OF assms(10) this]
  moreover have "parseAcquire m cl ref ks wid' ?t (RArray [RInt 1, RInt (last_fence st + 1), RBulk ?t]) =
      Inr \<lparr>Acquired = True, ALease = \<lparr>LRef = normalizedRef ref, Token = ?t, WorkerID = wid',
        Fence = last_fence st + 1, TTL = LeaseTTL (cfg m), lkeys = ks\<rparr>, ExistingToken = [], ExistingFence = 0\<rparr>"
    using reply_reader.parseAcquire_enc [OF assms(2), of m ref ks wid' ?t "Granted (last_fence st + 1)"] by simp
  ultimately show ?thesis using assms(5,6) db'(2)
    by (simp add: Acquire_def wid'_def [symmetric] Let_def)
qed

definition tiny_config :: Config where
  "tiny_config = DefaultConfig\<lparr>LeaseTTL := 500000, HeartbeatInterval := 100000\<rparr>"

definition tiny_manager :: Manager where
  "tiny_manager = \<lparr>cfg = tiny_config, ttlMs = Itoa 0, retry = CfgRetryPolicy DefaultConfig\<rparr>"

theorem Acquire_submillisecond_witness:
  "NewManager tiny_config = Inr tiny_manager \<and>
   (\<exists>db' a. Acquire tiny_manager ref_server plain_conv sample_host calm_env sample_ref ''w'' ''tok1'' 0 empty_db
     = (db', Inr a) \<and> Acquired a \<and>
     lease_rep ref_server ref_counter sample_keys db' \<lparr>owner = None, last_fence = 1\<rparr>)"
proof -
  have new: "NewManager tiny_config = Inr tiny_manager"
    by (simp add: NewManager_def normalizeRetry_def tiny_manager_def tiny_config_def config_defs)
  have ttl: "LeaseTTL (cfg tiny_manager) < Millisecond" by (simp add: tiny_manager_def tiny_config_def Millisecond_def)
  from Acquire_submillisecond [OF sample_laws(1,2) new ttl KeysForRef_sample _ sample_rep0,
      of "''tok1''" calm_env sample_host "''w''" 0]
  show ?thesis using new by (auto simp: calm_env_def fence_limit_def)
qed

end
