(* ===== verification/Cp_Types.thy ===== *)
theory Cp_Types
  imports Go_Prelude
begin

text \<open>
  The rows, inputs and pure helpers of the control plane: \<open>store.go\<close>, \<open>keys.go\<close> and
  \<open>current_user.go\<close> of \<open>src/internal/controlplane\<close>, and the state of the memory store with its
  identifiers (\<open>store_memory.go\<close>).

  Field names carry a prefix that names the row, since a row of one table often has the fields of
  another. A time is a number of nanoseconds counted from Go's zero time, so \<open>IsZero\<close> is \<open>= 0\<close>
  and \<open>normalizeWriteTime\<close>, which only changes the time zone, is the identity. A \<open>float64\<close> is
  its bit pattern: the store copies it or stores the zero value. A \<open>map[string]any\<close> is \<open>None\<close> when
  nil. The SHA-256 digest is an argument.
\<close>

section \<open>Rows\<close>

datatype any = ANil | ABool bool | ANumber "64 word" | AString string | AList "any list" | AMap "(string \<times> any) list"

type_synonym anymap = "(string, any) gomap option"
type_synonym time = int

definition ProviderEcoFlow :: string where "ProviderEcoFlow = ''ecoflow''"
definition ProviderEcoFlowBLE :: string where "ProviderEcoFlowBLE = ''ecoflow_ble''"
definition ProviderPulseMQTT :: string where "ProviderPulseMQTT = ''pulsemqtt''"
definition ProviderPecron :: string where "ProviderPecron = ''pecron''"
definition ProviderAnkerSolix :: string where "ProviderAnkerSolix = ''anker_solix''"

definition edgeCollectorSetupTokenTTL :: time where
  "edgeCollectorSetupTokenTTL = 30 * 60 * 1000000000"

datatype store_error =
    ErrUserNotFound | ErrCredentialNotFound | ErrCredentialAlreadyExists | ErrDeviceNotFound
  | ErrPermissionDenied | ErrVerifiedEmailNotFound | ErrUserSubjectConflict
  | ErrEdgeCollectorNotFound | ErrEdgeDeviceSourceNotFound | ErrEdgeDeviceSourceNotPending
  | ErrEdgeDeviceSourceTargetMismatch

record ProviderCredential =
  pcID :: string
  pcUserID :: string
  pcProvider :: string
  pcAccessKeyMask :: string
  pcAccessKey :: string
  pcSecretKey :: string
  pcConfig :: anymap
  pcIsActive :: bool
  pcCreatedAt :: time
  pcUpdatedAt :: time

record ProviderDevice =
  pdID :: string
  pdDeviceID :: string
  pdProvider :: string
  pdProviderDeviceID :: string
  pdCredentialID :: string
  pdCanonicalSN :: string
  pdProductName :: string
  pdModel :: string
  pdCapabilities :: anymap
  pdMetadata :: anymap
  pdIsActive :: bool
  pdIngestDesiredState :: string

record UserDevice =
  udDeviceID :: string
  udEcoflowSN :: string
  udProductName :: string
  udModel :: string
  udRole :: string
  udCreatedAt :: time
  udUpdatedAt :: time

record EdgeCollector =
  ecID :: string
  ecUserID :: string
  ecDisplayName :: string
  ecSetupTokenHash :: string
  ecCollectorSecretHash :: string
  ecIsActive :: bool
  ecCollectorVersion :: string
  ecHostname :: string
  ecLastHeartbeatAt :: time
  ecCreatedAt :: time
  ecUpdatedAt :: time

record EdgeDeviceSource =
  esID :: string
  esCollectorID :: string
  esUserID :: string
  esProvider :: string
  esTransport :: string
  esProviderDeviceID :: string
  esDisplayName :: string
  esModel :: string
  esAddressHash :: string
  esRSSIDBm :: "32 word"
  esMetadata :: anymap
  esStatus :: string
  esLinkedDeviceID :: string
  esLastSeenAt :: time
  esCreatedAt :: time
  esUpdatedAt :: time

definition EdgeDeviceSourceStatusPending :: string where "EdgeDeviceSourceStatusPending = ''pending''"
definition EdgeDeviceSourceStatusLinked :: string where "EdgeDeviceSourceStatusLinked = ''linked''"

record CurrentUser =
  cuID :: string
  cuKeycloakSubject :: string
  cuEmail :: string
  cuEmailVerified :: bool
  cuDisplayName :: string
  cuDisplayNameSource :: string
  cuAvatarURL :: string
  cuGivenName :: string
  cuFamilyName :: string
  cuLocale :: string
  cuTimezone :: string
  cuWeatherLocationEnabled :: bool
  cuWeatherLocationSource :: string
  cuWeatherLocationLabel :: string
  cuWeatherLatitude :: "64 word"
  cuWeatherLongitude :: "64 word"
  cuHasWeatherLocation :: bool
  cuLastLoginAt :: time
  cuCreatedAt :: time
  cuUpdatedAt :: time

record IngestAssignment =
  iaProvider :: string
  iaProviderDeviceID :: string
  iaDeviceID :: string
  iaCredentialID :: string
  iaProductName :: string
  iaModel :: string
  iaAccessKey :: string
  iaSecretKey :: string
  iaCredentialConfig :: anymap
  iaDeviceIsActive :: bool
  iaCredentialIsActive :: bool
  iaIngestDesiredState :: string

record AdminLogFilterOption =
  aoKind :: string
  aoID :: string
  aoLabel :: string
  aoSecondaryLabel :: string
  aoDeviceIDs :: "string list"
  aoProvider :: string

text \<open>Go's zero values, which a lookup of an absent key returns.\<close>

definition zeroProviderDevice :: ProviderDevice where
  "zeroProviderDevice =
     \<lparr>pdID = [], pdDeviceID = [], pdProvider = [], pdProviderDeviceID = [], pdCredentialID = [],
      pdCanonicalSN = [], pdProductName = [], pdModel = [], pdCapabilities = None, pdMetadata = None,
      pdIsActive = False, pdIngestDesiredState = []\<rparr>"

definition zeroEdgeDeviceSource :: EdgeDeviceSource where
  "zeroEdgeDeviceSource =
     \<lparr>esID = [], esCollectorID = [], esUserID = [], esProvider = [], esTransport = [],
      esProviderDeviceID = [], esDisplayName = [], esModel = [], esAddressHash = [], esRSSIDBm = 0,
      esMetadata = None, esStatus = [], esLinkedDeviceID = [], esLastSeenAt = 0, esCreatedAt = 0,
      esUpdatedAt = 0\<rparr>"

definition zeroCurrentUser :: CurrentUser where
  "zeroCurrentUser =
     \<lparr>cuID = [], cuKeycloakSubject = [], cuEmail = [], cuEmailVerified = False, cuDisplayName = [],
      cuDisplayNameSource = [], cuAvatarURL = [], cuGivenName = [], cuFamilyName = [], cuLocale = [],
      cuTimezone = [], cuWeatherLocationEnabled = False, cuWeatherLocationSource = [],
      cuWeatherLocationLabel = [], cuWeatherLatitude = 0, cuWeatherLongitude = 0,
      cuHasWeatherLocation = False, cuLastLoginAt = 0, cuCreatedAt = 0, cuUpdatedAt = 0\<rparr>"

section \<open>Normalisation and keys\<close>

definition NormalizeProvider :: "string \<Rightarrow> string" where
  "NormalizeProvider provider = ToLower (TrimSpace provider)"

definition IsSupportedProvider :: "string \<Rightarrow> bool" where
  "IsSupportedProvider provider \<longleftrightarrow>
     NormalizeProvider provider \<in>
       {ProviderEcoFlow, ProviderEcoFlowBLE, ProviderPulseMQTT, ProviderPecron, ProviderAnkerSolix}"

definition MaskAccessKey :: "string \<Rightarrow> string" where
  "MaskAccessKey accessKey =
     (let key = TrimSpace accessKey; n = length key
      in if n = 0 then []
         else if n \<le> 4 then take 1 key @ ''***''
         else if n \<le> 8 then take 2 key @ ''...'' @ drop (n - 2) key
         else take 4 key @ ''...'' @ drop (n - 4) key)"

definition HashAccessKey :: "(string \<Rightarrow> byte list) \<Rightarrow> string \<Rightarrow> byte list" where
  "HashAccessKey sha256 accessKey = sha256 (TrimSpace accessKey)"

definition PreferredProviderDisplayName :: "string \<Rightarrow> string \<Rightarrow> string \<Rightarrow> string \<Rightarrow> string" where
  "PreferredProviderDisplayName displayName givenName familyName email =
     (if TrimSpace displayName \<noteq> [] then TrimSpace displayName
      else
        (let fullName = TrimSpace (Join [TrimSpace givenName, TrimSpace familyName] '' '')
         in if fullName \<noteq> [] then fullName else TrimSpace email))"

definition normalizeWriteTime :: "time \<Rightarrow> time" where
  "normalizeWriteTime value = value"

definition edgeCollectorSetupTokenCutoff :: "time \<Rightarrow> time" where
  "edgeCollectorSetupTokenCutoff now = normalizeWriteTime now - edgeCollectorSetupTokenTTL"

definition normalizeEdgeTransport :: "string \<Rightarrow> string" where
  "normalizeEdgeTransport value =
     (let transport = ToLower (TrimSpace value) in if transport = [] then ''ble'' else transport)"

definition cloneAnyMap :: "anymap \<Rightarrow> anymap" where
  "cloneAnyMap m =
     (case m of None \<Rightarrow> None | Some kvs \<Rightarrow> Some (fold (\<lambda>(key, v) out. gm_put key v out) kvs []))"

definition cloneProviderDevice :: "ProviderDevice \<Rightarrow> ProviderDevice" where
  "cloneProviderDevice d =
     d\<lparr>pdCapabilities := cloneAnyMap (pdCapabilities d), pdMetadata := cloneAnyMap (pdMetadata d)\<rparr>"

definition cloneProviderCredential :: "ProviderCredential \<Rightarrow> ProviderCredential" where
  "cloneProviderCredential c = c\<lparr>pcConfig := cloneAnyMap (pcConfig c)\<rparr>"

definition cloneEdgeDeviceSource :: "EdgeDeviceSource \<Rightarrow> EdgeDeviceSource" where
  "cloneEdgeDeviceSource r = r\<lparr>esMetadata := cloneAnyMap (esMetadata r)\<rparr>"

definition validateEdgeDeviceSourceApproval :: "EdgeDeviceSource \<Rightarrow> store_error option" where
  "validateEdgeDeviceSourceApproval source =
     (if esStatus source \<noteq> EdgeDeviceSourceStatusPending then Some ErrEdgeDeviceSourceNotPending else None)"

definition validateEdgeDeviceSourceTarget :: "EdgeDeviceSource \<Rightarrow> string \<Rightarrow> store_error option" where
  "validateEdgeDeviceSourceTarget source deviceSN =
     (let sourceID = ToUpper (TrimSpace (esProviderDeviceID source));
          targetID = ToUpper (TrimSpace deviceSN)
      in if sourceID = [] \<or> targetID = [] \<or> sourceID \<noteq> targetID
         then Some ErrEdgeDeviceSourceTargetMismatch else None)"

section \<open>The administrator's log filters\<close>

definition normalizeAdminLogFilterKind :: "string \<Rightarrow> string" where
  "normalizeAdminLogFilterKind kind =
     (let k = ToLower (TrimSpace kind)
      in if k = ''device'' then ''device'' else if k = ''serial'' then ''serial''
         else if k = ''user'' then ''user'' else [])"

definition normalizeAdminLogFilterLimit :: "int \<Rightarrow> int" where
  "normalizeAdminLogFilterLimit limit = (if limit \<le> 0 then 12 else if limit > 50 then 50 else limit)"

text \<open>The loop keeps a set of the identifiers it has seen, which are those it has put out.\<close>

fun collectDeviceIDs :: "string list \<Rightarrow> string list \<Rightarrow> string list" where
  "collectDeviceIDs out [] = out"
| "collectDeviceIDs out (v # vs) =
     (let deviceID = TrimSpace v
      in if deviceID = [] then collectDeviceIDs out vs
         else if deviceID \<in> set out then collectDeviceIDs out vs
         else collectDeviceIDs (out @ [deviceID]) vs)"

definition normalizeAdminLogDeviceIDs :: "string list \<Rightarrow> string list" where
  "normalizeAdminLogDeviceIDs values = sort_by (<) (collectDeviceIDs [] values)"

definition adminLogDeviceIDSet :: "string list \<Rightarrow> string list option" where
  "adminLogDeviceIDSet values =
     (let normalized = normalizeAdminLogDeviceIDs values
      in if normalized = [] then None else Some normalized)"

definition matchesAdminLogQuery :: "string \<Rightarrow> string list \<Rightarrow> bool" where
  "matchesAdminLogQuery query values =
     (let q = ToLower (TrimSpace query)
      in q = [] \<or> list_ex (\<lambda>v. Contains (ToLower (TrimSpace v)) q) values)"

fun adminLogFirstNonEmpty :: "string list \<Rightarrow> string" where
  "adminLogFirstNonEmpty [] = []"
| "adminLogFirstNonEmpty (v # vs) = (if TrimSpace v \<noteq> [] then TrimSpace v else adminLogFirstNonEmpty vs)"

definition shortID :: "string \<Rightarrow> string" where
  "shortID value = (let v = TrimSpace value in if length v \<le> 8 then v else take 8 v)"

section \<open>The memory store\<close>

record memoryDevice =
  mdID :: string
  mdEcoflowSN :: string
  mdProductName :: string
  mdModel :: string
  mdCreatedAt :: time
  mdUpdatedAt :: time

record MemoryStore =
  usersBySubject :: "(string, string) gomap"
  usersByID :: "(string, CurrentUser) gomap"
  credentials :: "(string, ProviderCredential) gomap"
  providerDevices :: "(string, ProviderDevice) gomap"
  edgeCollectors :: "(string, EdgeCollector) gomap"
  edgeSources :: "(string, EdgeDeviceSource) gomap"
  devicesByID :: "(string, memoryDevice) gomap"
  deviceBySN :: "(string, string) gomap"
  userDevices :: "(string, (string, string) gomap) gomap"
  idCounter :: "64 word"

type_synonym 'a outcome = "MemoryStore \<times> (store_error + 'a)"

definition zeroMemoryDevice :: memoryDevice where
  "zeroMemoryDevice =
     \<lparr>mdID = [], mdEcoflowSN = [], mdProductName = [], mdModel = [], mdCreatedAt = 0, mdUpdatedAt = 0\<rparr>"

definition providerUser :: "string \<Rightarrow> string \<Rightarrow> time \<Rightarrow> CurrentUser" where
  "providerUser uid subject now =
     zeroCurrentUser\<lparr>cuID := uid, cuKeycloakSubject := subject, cuDisplayNameSource := ''provider'',
       cuCreatedAt := now, cuUpdatedAt := now\<rparr>"

definition NewMemoryStore :: "time \<Rightarrow> MemoryStore" where
  "NewMemoryStore now =
     \<lparr>usersBySubject = [(''dev-user'', ''dev-user-id-1'')],
      usersByID = [(''dev-user-id-1'', providerUser ''dev-user-id-1'' ''dev-user'' now)],
      credentials = [], providerDevices = [], edgeCollectors = [], edgeSources = [],
      devicesByID = [], deviceBySN = [], userDevices = [], idCounter = 0\<rparr>"

text \<open>The counter is a \<open>uint64\<close>: it wraps around.\<close>

definition seqID :: "string \<Rightarrow> 64 word \<Rightarrow> string" where
  "seqID pfx seq = pfx @ ''-'' @ Itoa (uint seq)"

definition seqUUID :: "64 word \<Rightarrow> string" where
  "seqUUID seq = ''00000000-0000-4000-8000-'' @ hex_padded 12 (unat seq)"

definition nextID :: "string \<Rightarrow> MemoryStore \<Rightarrow> MemoryStore \<times> string" where
  "nextID pfx s = (let seq = idCounter s + 1 in (s\<lparr>idCounter := seq\<rparr>, seqID pfx seq))"

definition nextUUID :: "MemoryStore \<Rightarrow> MemoryStore \<times> string" where
  "nextUUID s = (let seq = idCounter s + 1 in (s\<lparr>idCounter := seq\<rparr>, seqUUID seq))"

end
