(* ===== verification/Cp_Invariant.thy ===== *)
theory Cp_Invariant
  imports Cp_Types
begin

text \<open>
  The well-formedness of the memory store, table by table, and what one table may rely on in
  another: identifiers are fresh while the counter does not wrap around, users and devices are
  never removed, a device keeps its serial number and a collector its owner. \<open>grows\<close> is that
  contract between the tables; the invariant of a table survives every operation that leaves the
  table alone and lets the store grow.
\<close>

section \<open>Identifiers\<close>

definition issued_id :: "string \<Rightarrow> 64 word \<Rightarrow> string \<Rightarrow> bool" where
  "issued_id pfx c i \<longleftrightarrow> (\<exists>n. 0 < n \<and> n \<le> unat c \<and> i = pfx @ ''-'' @ Itoa (int n))"

definition issued_uuid :: "64 word \<Rightarrow> string \<Rightarrow> bool" where
  "issued_uuid c i \<longleftrightarrow> (\<exists>n. 0 < n \<and> n \<le> unat c \<and> i = ''00000000-0000-4000-8000-'' @ hex_padded 12 n)"

definition id_room :: "MemoryStore \<Rightarrow> bool" where
  "id_room s \<longleftrightarrow> unat (idCounter s) + 2 < 2 ^ 64"

lemma unat_next: "unat c + 1 < 2 ^ 64 \<Longrightarrow> unat (c + 1) = unat c + 1" for c :: "64 word"
  by (simp add: unat_word_ariths)

lemma issued_id_mono: "issued_id pfx c i \<Longrightarrow> unat c \<le> unat c' \<Longrightarrow> issued_id pfx c' i"
  by (auto simp: issued_id_def)

lemma issued_uuid_mono: "issued_uuid c i \<Longrightarrow> unat c \<le> unat c' \<Longrightarrow> issued_uuid c' i"
  by (auto simp: issued_uuid_def)

lemma Itoa_nat_inj: "Itoa (int m) = Itoa (int n) \<longleftrightarrow> m = n"
  by (simp add: Itoa_def show_base_inj)

lemma seqID_issued:
  assumes "unat c + 1 < 2 ^ 64"
  shows "issued_id pfx (c + 1) (seqID pfx (c + 1))"
proof -
  have "0 < unat (c + 1)" using unat_next [OF assms] by simp
  then show ?thesis unfolding issued_id_def seqID_def by (intro exI [of _ "unat (c + 1)"]) simp
qed

lemma seqID_fresh: "unat c + 1 < 2 ^ 64 \<Longrightarrow> \<not> issued_id pfx c (seqID pfx (c + 1))"
  by (auto simp: issued_id_def seqID_def uint_nat unat_next Itoa_nat_inj simp del: of_nat_Suc of_nat_add unsigned_of_nat of_nat_unat of_nat_add)

lemma seqUUID_issued: "unat c + 1 < 2 ^ 64 \<Longrightarrow> issued_uuid (c + 1) (seqUUID (c + 1))"
  unfolding issued_uuid_def seqUUID_def
  by (rule exI [of _ "unat (c + 1)"]) (simp add: unat_next)

lemma seqUUID_fresh: "unat c + 1 < 2 ^ 64 \<Longrightarrow> \<not> issued_uuid c (seqUUID (c + 1))"
  by (auto simp: issued_uuid_def seqUUID_def unat_next hex_padded_inj)

lemma issued_nonempty: "issued_id pfx c i \<Longrightarrow> i \<noteq> []" "issued_uuid c i \<Longrightarrow> i \<noteq> []"
  by (auto simp: issued_id_def issued_uuid_def)

lemma last_show_base: "\<exists>d. d < b \<and> last (show_base b n) = digit_char d" if "2 \<le> b"
proof (cases "n < b")
  case True
  then show ?thesis by (subst show_base.simps) auto
next
  case False
  then show ?thesis using that by (subst show_base.simps) (auto intro!: exI [of _ "n mod b"])
qed

lemma hex_digit_not_edge: "d < 16 \<Longrightarrow> digit_char d \<notin> set edge_bytes"
proof -
  have "list_all (\<lambda>d. digit_char d \<notin> set edge_bytes) [0..<16]" by code_simp
  then show "d < 16 \<Longrightarrow> digit_char d \<notin> set edge_bytes" by (simp add: list_all_iff)
qed

lemma issued_uuid_trimmed: "issued_uuid c i \<Longrightarrow> trimmed i"
proof -
  assume "issued_uuid c i"
  then obtain n where i: "i = ''00000000-0000-4000-8000-'' @ hex_padded 12 n" by (auto simp: issued_uuid_def)
  have ne: "show_base 16 n \<noteq> []" by (subst show_base.simps) auto
  then have "last i = last (show_base 16 n)" by (simp add: i hex_padded_def)
  moreover have "hd i = CHR ''0''" by (simp add: i)
  moreover have "CHR ''0'' \<notin> set edge_bytes" by (simp add: edge_bytes_def space_runes_def)
  ultimately show ?thesis using last_show_base [of 16 n] hex_digit_not_edge by (intro trimmedI) auto
qed

section \<open>What the tables know of each other\<close>

definition known_user :: "MemoryStore \<Rightarrow> string \<Rightarrow> bool" where
  "known_user s uid \<longleftrightarrow> gm_get (usersByID s) uid \<noteq> None"

definition device_sn :: "MemoryStore \<Rightarrow> string \<Rightarrow> string option" where
  "device_sn s did = map_option mdEcoflowSN (gm_get (devicesByID s) did)"

definition collector_user :: "MemoryStore \<Rightarrow> string \<Rightarrow> string option" where
  "collector_user s cid = map_option ecUserID (gm_get (edgeCollectors s) cid)"

definition grows :: "MemoryStore \<Rightarrow> MemoryStore \<Rightarrow> bool" where
  "grows s s' \<longleftrightarrow>
     unat (idCounter s) \<le> unat (idCounter s') \<and>
     (\<forall>uid. known_user s uid \<longrightarrow> known_user s' uid) \<and>
     (\<forall>did sn. device_sn s did = Some sn \<longrightarrow> device_sn s' did = Some sn) \<and>
     (\<forall>cid uid. collector_user s cid = Some uid \<longrightarrow> collector_user s' cid = Some uid)"

lemma grows_refl [simp]: "grows s s"
  by (simp add: grows_def)

lemma grows_trans: "grows a b \<Longrightarrow> grows b c \<Longrightarrow> grows a c"
  by (auto simp: grows_def)

section \<open>The tables\<close>

definition user_row :: "MemoryStore \<Rightarrow> string \<Rightarrow> CurrentUser \<Rightarrow> bool" where
  "user_row s uid u \<longleftrightarrow>
     cuID u = uid \<and> trimmed (cuKeycloakSubject u) \<and> cuKeycloakSubject u \<noteq> [] \<and>
     (uid = ''dev-user-id-1'' \<or> issued_id ''usr'' (idCounter s) uid)"

definition users_inv :: "MemoryStore \<Rightarrow> bool" where
  "users_inv s \<longleftrightarrow>
     gm_wf (usersBySubject s) \<and> gm_wf (usersByID s) \<and> gm_all (user_row s) (usersByID s) \<and>
     (\<forall>sub uid. gm_get (usersBySubject s) sub = Some uid \<longleftrightarrow>
        (\<exists>u. gm_get (usersByID s) uid = Some u \<and> cuKeycloakSubject u = sub))"

definition cred_row :: "MemoryStore \<Rightarrow> string \<Rightarrow> ProviderCredential \<Rightarrow> bool" where
  "cred_row s i c \<longleftrightarrow>
     pcID c = i \<and> known_user s (pcUserID c) \<and> NormalizeProvider (pcProvider c) = pcProvider c \<and>
     issued_id ''cred'' (idCounter s) i \<and> pcAccessKeyMask c = MaskAccessKey (pcAccessKey c)"

definition cred_pair :: "(string \<Rightarrow> byte list) \<Rightarrow> ProviderCredential \<Rightarrow> ProviderCredential \<Rightarrow> bool" where
  "cred_pair sha c d \<longleftrightarrow>
     \<not> (pcUserID c = pcUserID d \<and> pcProvider c = pcProvider d \<and> pcIsActive c \<and> pcIsActive d) \<and>
     \<not> (pcProvider c = pcProvider d \<and> HashAccessKey sha (pcAccessKey c) = HashAccessKey sha (pcAccessKey d))"

definition creds_inv :: "(string \<Rightarrow> byte list) \<Rightarrow> MemoryStore \<Rightarrow> bool" where
  "creds_inv sha s \<longleftrightarrow>
     gm_wf (credentials s) \<and> gm_all (cred_row s) (credentials s) \<and> gm_pairs (cred_pair sha) (credentials s)"

definition canonical_sn :: "string \<Rightarrow> bool" where
  "canonical_sn sn \<longleftrightarrow> sn \<noteq> [] \<and> ToUpper (TrimSpace sn) = sn"

definition device_row :: "MemoryStore \<Rightarrow> string \<Rightarrow> memoryDevice \<Rightarrow> bool" where
  "device_row s did d \<longleftrightarrow>
     mdID d = did \<and> canonical_sn (mdEcoflowSN d) \<and> issued_uuid (idCounter s) did"

definition devices_inv :: "MemoryStore \<Rightarrow> bool" where
  "devices_inv s \<longleftrightarrow>
     gm_wf (devicesByID s) \<and> gm_wf (deviceBySN s) \<and> gm_all (device_row s) (devicesByID s) \<and>
     (\<forall>sn did. gm_get (deviceBySN s) sn = Some did \<longleftrightarrow> device_sn s did = Some sn)"

definition role_row :: "MemoryStore \<Rightarrow> string \<Rightarrow> (string, string) gomap \<Rightarrow> bool" where
  "role_row s uid roles \<longleftrightarrow>
     known_user s uid \<and> gm_wf roles \<and> gm_all (\<lambda>did r. device_sn s did \<noteq> None) roles"

definition roles_inv :: "MemoryStore \<Rightarrow> bool" where
  "roles_inv s \<longleftrightarrow> gm_wf (userDevices s) \<and> gm_all (role_row s) (userDevices s)"

definition pdev_row :: "MemoryStore \<Rightarrow> string \<Rightarrow> ProviderDevice \<Rightarrow> bool" where
  "pdev_row s i p \<longleftrightarrow>
     pdID p = i \<and> issued_id ''pdev'' (idCounter s) i \<and> NormalizeProvider (pdProvider p) = pdProvider p \<and>
     trimmed (pdProviderDeviceID p)"

definition pdev_pair :: "ProviderDevice \<Rightarrow> ProviderDevice \<Rightarrow> bool" where
  "pdev_pair p q \<longleftrightarrow> \<not> (pdProvider p = pdProvider q \<and> pdProviderDeviceID p = pdProviderDeviceID q)"

definition pdevs_inv :: "MemoryStore \<Rightarrow> bool" where
  "pdevs_inv s \<longleftrightarrow>
     gm_wf (providerDevices s) \<and> gm_all (pdev_row s) (providerDevices s) \<and> gm_pairs pdev_pair (providerDevices s)"

definition collector_row :: "MemoryStore \<Rightarrow> string \<Rightarrow> EdgeCollector \<Rightarrow> bool" where
  "collector_row s i c \<longleftrightarrow>
     ecID c = i \<and> known_user s (ecUserID c) \<and> issued_uuid (idCounter s) i \<and>
     trimmed (ecSetupTokenHash c) \<and> trimmed (ecCollectorSecretHash c) \<and>
     (ecIsActive c \<longrightarrow> ecSetupTokenHash c = []) \<and> (ecIsActive c \<longleftrightarrow> ecCollectorSecretHash c \<noteq> [])"

definition collectors_inv :: "MemoryStore \<Rightarrow> bool" where
  "collectors_inv s \<longleftrightarrow> gm_wf (edgeCollectors s) \<and> gm_all (collector_row s) (edgeCollectors s)"

definition source_row :: "MemoryStore \<Rightarrow> string \<Rightarrow> EdgeDeviceSource \<Rightarrow> bool" where
  "source_row s i r \<longleftrightarrow>
     esID r = i \<and> issued_uuid (idCounter s) i \<and> collector_user s (esCollectorID r) = Some (esUserID r) \<and>
     canonical_sn (esProviderDeviceID r) \<and> NormalizeProvider (esProvider r) = esProvider r \<and>
     normalizeEdgeTransport (esTransport r) = esTransport r \<and>
     (if esStatus r = EdgeDeviceSourceStatusLinked
      then device_sn s (esLinkedDeviceID r) = Some (esProviderDeviceID r)
      else esStatus r = EdgeDeviceSourceStatusPending \<and> esLinkedDeviceID r = [])"

definition source_pair :: "EdgeDeviceSource \<Rightarrow> EdgeDeviceSource \<Rightarrow> bool" where
  "source_pair r q \<longleftrightarrow>
     \<not> (esCollectorID r = esCollectorID q \<and> esProvider r = esProvider q \<and>
        esTransport r = esTransport q \<and> esProviderDeviceID r = esProviderDeviceID q)"

definition sources_inv :: "MemoryStore \<Rightarrow> bool" where
  "sources_inv s \<longleftrightarrow>
     gm_wf (edgeSources s) \<and> gm_all (source_row s) (edgeSources s) \<and> gm_pairs source_pair (edgeSources s)"

definition store_inv :: "(string \<Rightarrow> byte list) \<Rightarrow> MemoryStore \<Rightarrow> bool" where
  "store_inv sha s \<longleftrightarrow>
     users_inv s \<and> creds_inv sha s \<and> devices_inv s \<and> roles_inv s \<and> pdevs_inv s \<and>
     collectors_inv s \<and> sources_inv s"

lemma store_invD:
  assumes "store_inv sha s"
  shows "users_inv s" "creds_inv sha s" "devices_inv s" "roles_inv s" "pdevs_inv s" "collectors_inv s" "sources_inv s"
  using assms by (simp_all add: store_inv_def)

section \<open>Operations that leave a table alone\<close>

text \<open>Every row keeps its properties when the store grows.\<close>

lemma user_row_grows: "user_row s i u \<Longrightarrow> grows s s' \<Longrightarrow> user_row s' i u"
  by (auto simp: user_row_def grows_def dest: issued_id_mono)

lemma cred_row_grows: "cred_row s i c \<Longrightarrow> grows s s' \<Longrightarrow> cred_row s' i c"
  by (auto simp: cred_row_def grows_def dest: issued_id_mono)

lemma device_row_grows: "device_row s i d \<Longrightarrow> grows s s' \<Longrightarrow> device_row s' i d"
  by (auto simp: device_row_def grows_def dest: issued_uuid_mono)

lemma role_row_grows: "role_row s i r \<Longrightarrow> grows s s' \<Longrightarrow> role_row s' i r"
  by (fastforce simp: role_row_def grows_def gm_all_def)

lemma pdev_row_grows: "pdev_row s i p \<Longrightarrow> grows s s' \<Longrightarrow> pdev_row s' i p"
  by (auto simp: pdev_row_def grows_def dest: issued_id_mono)

lemma collector_row_grows: "collector_row s i c \<Longrightarrow> grows s s' \<Longrightarrow> collector_row s' i c"
  by (auto simp: collector_row_def grows_def dest: issued_uuid_mono)

lemma source_row_grows: "source_row s i r \<Longrightarrow> grows s s' \<Longrightarrow> source_row s' i r"
  by (auto simp: source_row_def grows_def dest: issued_uuid_mono split: if_splits)

lemmas rows_grow = user_row_grows cred_row_grows device_row_grows role_row_grows pdev_row_grows
  collector_row_grows source_row_grows

lemma users_inv_frame:
  assumes "users_inv s" "grows s s'" "usersBySubject s' = usersBySubject s" "usersByID s' = usersByID s"
  shows "users_inv s'"
  using assms by (auto simp: users_inv_def elim!: gm_all_mono intro: user_row_grows)

lemma creds_inv_frame:
  assumes "creds_inv sha s" "grows s s'" "credentials s' = credentials s"
  shows "creds_inv sha s'"
  using assms by (auto simp: creds_inv_def elim!: gm_all_mono intro: cred_row_grows)

lemma devices_inv_frame:
  assumes "devices_inv s" "grows s s'" "devicesByID s' = devicesByID s" "deviceBySN s' = deviceBySN s"
  shows "devices_inv s'"
  using assms by (auto simp: devices_inv_def device_sn_def elim!: gm_all_mono intro: device_row_grows)

lemma roles_inv_frame:
  assumes "roles_inv s" "grows s s'" "userDevices s' = userDevices s"
  shows "roles_inv s'"
  using assms by (auto simp: roles_inv_def elim!: gm_all_mono intro: role_row_grows)

lemma pdevs_inv_frame:
  assumes "pdevs_inv s" "grows s s'" "providerDevices s' = providerDevices s"
  shows "pdevs_inv s'"
  using assms by (auto simp: pdevs_inv_def elim!: gm_all_mono intro: pdev_row_grows)

lemma collectors_inv_frame:
  assumes "collectors_inv s" "grows s s'" "edgeCollectors s' = edgeCollectors s"
  shows "collectors_inv s'"
  using assms by (auto simp: collectors_inv_def elim!: gm_all_mono intro: collector_row_grows)

lemma sources_inv_frame:
  assumes "sources_inv s" "grows s s'" "edgeSources s' = edgeSources s"
  shows "sources_inv s'"
  using assms by (auto simp: sources_inv_def elim!: gm_all_mono intro: source_row_grows)

lemmas inv_frames = users_inv_frame creds_inv_frame devices_inv_frame roles_inv_frame pdevs_inv_frame
  collectors_inv_frame sources_inv_frame

text \<open>Which updates let the store grow.\<close>

lemma grows_credentials [simp]: "grows s (s\<lparr>credentials := x\<rparr>)"
  by (simp add: grows_def known_user_def device_sn_def collector_user_def)

lemma grows_providerDevices [simp]: "grows s (s\<lparr>providerDevices := x\<rparr>)"
  by (simp add: grows_def known_user_def device_sn_def collector_user_def)

lemma grows_edgeSources [simp]: "grows s (s\<lparr>edgeSources := x\<rparr>)"
  by (simp add: grows_def known_user_def device_sn_def collector_user_def)

lemma grows_userDevices [simp]: "grows s (s\<lparr>userDevices := x\<rparr>)"
  by (simp add: grows_def known_user_def device_sn_def collector_user_def)

lemma grows_deviceBySN [simp]: "grows s (s\<lparr>deviceBySN := x\<rparr>)"
  by (simp add: grows_def known_user_def device_sn_def collector_user_def)

lemma grows_usersBySubject [simp]: "grows s (s\<lparr>usersBySubject := x\<rparr>)"
  by (simp add: grows_def known_user_def device_sn_def collector_user_def)

lemma grows_usersByID_put [simp]: "grows s (s\<lparr>usersByID := gm_put k u (usersByID s)\<rparr>)"
  by (simp add: grows_def known_user_def device_sn_def collector_user_def)

lemma grows_counter:
  "unat (idCounter s) + 1 < 2 ^ 64 \<Longrightarrow> grows s (s\<lparr>idCounter := idCounter s + 1\<rparr>)"
  by (simp add: grows_def known_user_def device_sn_def collector_user_def unat_next)

lemma grows_device_put:
  "device_sn s k = None \<or> device_sn s k = Some (mdEcoflowSN d) \<Longrightarrow>
     grows s (s\<lparr>devicesByID := gm_put k d (devicesByID s)\<rparr>)"
  by (auto simp: grows_def known_user_def device_sn_def collector_user_def)

lemma grows_collector_put:
  "collector_user s k = None \<or> collector_user s k = Some (ecUserID c) \<Longrightarrow>
     grows s (s\<lparr>edgeCollectors := gm_put k c (edgeCollectors s)\<rparr>)"
  by (auto simp: grows_def known_user_def device_sn_def collector_user_def)

lemma NewMemoryStore_inv: "store_inv sha (NewMemoryStore now)"
proof -
  have "trimmed ''dev-user''"
    by (rule trimmedI) (simp add: edge_bytes_def space_runes_def)
  then show ?thesis
    by (auto simp: store_inv_def users_inv_def creds_inv_def devices_inv_def roles_inv_def pdevs_inv_def
        collectors_inv_def sources_inv_def NewMemoryStore_def gm_wf_def gm_get_def device_sn_def gm_all_def
        user_row_def providerUser_def split: if_splits)
qed

end
