(* ===== verification/Cp_Users.thy ===== *)
theory Cp_Users
  imports Cp_Invariant
begin

text \<open>
  The users of the memory store (\<open>store_memory.go\<close>): provisioning at login, the profile, and the
  move of an account to a new Keycloak subject. The clock readings of an operation are arguments.
\<close>

section \<open>Operations\<close>

definition EnsureUser :: "time \<Rightarrow> string \<Rightarrow> MemoryStore \<Rightarrow> MemoryStore \<times> string" where
  "EnsureUser now userSubject s =
     (let subject = TrimSpace userSubject
      in if subject = [] then (s, [])
         else
           (case gm_get (usersBySubject s) subject of
              Some uid \<Rightarrow> (s, uid)
            | None \<Rightarrow>
                (let (s1, uid) = nextID ''usr'' s;
                     s2 = s1\<lparr>usersBySubject := gm_put subject uid (usersBySubject s1)\<rparr>;
                     s3 = s2\<lparr>usersByID := gm_put uid (providerUser uid subject (normalizeWriteTime now)) (usersByID s2)\<rparr>
                 in (s3, uid))))"

definition ensureUserLocked :: "time \<Rightarrow> string \<Rightarrow> MemoryStore \<Rightarrow> MemoryStore \<times> CurrentUser" where
  "ensureUserLocked now subject0 s =
     (let subject = TrimSpace subject0
      in if subject = [] then (s, zeroCurrentUser)
         else
           (case Option.bind (gm_get (usersBySubject s) subject) (gm_get (usersByID s)) of
              Some entry \<Rightarrow> (s, entry)
            | None \<Rightarrow>
                (let (s1, uid) = nextID ''usr'' s;
                     user = providerUser uid subject (normalizeWriteTime now);
                     s2 = s1\<lparr>usersBySubject := gm_put subject uid (usersBySubject s1)\<rparr>;
                     s3 = s2\<lparr>usersByID := gm_put uid user (usersByID s2)\<rparr>
                 in (s3, user))))"

record GetOrProvisionCurrentUserInput =
  gpUserSubject :: string
  gpEmail :: string
  gpEmailVerified :: bool
  gpDisplayName :: string
  gpAvatarURL :: string
  gpGivenName :: string
  gpFamilyName :: string
  gpLocale :: string

text \<open>The display name a login leaves: the name the user chose in the application wins over the provider's.\<close>

definition loginDisplayName :: "GetOrProvisionCurrentUserInput \<Rightarrow> CurrentUser \<Rightarrow> CurrentUser" where
  "loginDisplayName inp user =
     (if cuDisplayNameSource user \<noteq> ''pulse'' \<or> TrimSpace (cuDisplayName user) = [] then
        (let displayName = PreferredProviderDisplayName (gpDisplayName inp) (gpGivenName inp) (gpFamilyName inp) (gpEmail inp);
             u1 = (if displayName \<noteq> [] then user\<lparr>cuDisplayName := displayName\<rparr> else user);
             u2 = (if cuDisplayNameSource u1 = [] then u1\<lparr>cuDisplayNameSource := ''provider''\<rparr> else u1)
         in if cuDisplayNameSource u2 = ''pulse'' \<and> TrimSpace (cuDisplayName u2) \<noteq> []
            then u2\<lparr>cuDisplayNameSource := ''provider''\<rparr> else u2)
      else user)"

definition GetOrProvisionCurrentUser ::
    "time \<Rightarrow> time \<Rightarrow> GetOrProvisionCurrentUserInput \<Rightarrow> MemoryStore \<Rightarrow> CurrentUser outcome" where
  "GetOrProvisionCurrentUser now1 now2 inp s =
     (let (s1, user) = ensureUserLocked now1 (TrimSpace (gpUserSubject inp)) s
      in if cuID user = [] then (s1, Inl ErrUserNotFound)
         else
           (let now = normalizeWriteTime now2;
                u1 = user\<lparr>cuKeycloakSubject := TrimSpace (gpUserSubject inp),
                          cuEmail := TrimSpace (gpEmail inp), cuEmailVerified := gpEmailVerified inp,
                          cuAvatarURL := TrimSpace (gpAvatarURL inp), cuGivenName := TrimSpace (gpGivenName inp),
                          cuFamilyName := TrimSpace (gpFamilyName inp), cuLocale := TrimSpace (gpLocale inp),
                          cuLastLoginAt := now\<rparr>;
                u2 = (loginDisplayName inp u1)\<lparr>cuUpdatedAt := now\<rparr>
            in (s1\<lparr>usersByID := gm_put (cuID u2) u2 (usersByID s1)\<rparr>, Inr u2)))"

record UpdateCurrentUserProfileInput =
  upUserSubject :: string
  upDisplayName :: string
  upTimezone :: string
  upWeatherLocationEnabled :: bool
  upWeatherLocationSource :: string
  upWeatherLocationLabel :: string
  upWeatherLatitude :: "64 word"
  upWeatherLongitude :: "64 word"
  upHasWeatherLocationValue :: bool

definition weatherProfile :: "UpdateCurrentUserProfileInput \<Rightarrow> CurrentUser \<Rightarrow> CurrentUser" where
  "weatherProfile inp user =
     (if \<not> upWeatherLocationEnabled inp then
        user\<lparr>cuWeatherLocationEnabled := False, cuWeatherLocationSource := ''none'', cuWeatherLocationLabel := [],
             cuWeatherLatitude := 0, cuWeatherLongitude := 0, cuHasWeatherLocation := False\<rparr>
      else
        (let source = (if TrimSpace (upWeatherLocationSource inp) = [] then ''auto''
                       else TrimSpace (upWeatherLocationSource inp));
             has = upHasWeatherLocationValue inp
         in user\<lparr>cuWeatherLocationEnabled := True, cuWeatherLocationSource := source,
                 cuWeatherLocationLabel := TrimSpace (upWeatherLocationLabel inp), cuHasWeatherLocation := has,
                 cuWeatherLatitude := (if has then upWeatherLatitude inp else 0),
                 cuWeatherLongitude := (if has then upWeatherLongitude inp else 0)\<rparr>))"

definition UpdateCurrentUserProfile ::
    "time \<Rightarrow> UpdateCurrentUserProfileInput \<Rightarrow> MemoryStore \<Rightarrow> CurrentUser outcome" where
  "UpdateCurrentUserProfile now inp s =
     (case gm_get (usersBySubject s) (TrimSpace (upUserSubject inp)) of
        None \<Rightarrow> (s, Inl ErrUserNotFound)
      | Some userID \<Rightarrow>
          (case gm_get (usersByID s) userID of
             None \<Rightarrow> (s, Inl ErrUserNotFound)
           | Some user \<Rightarrow>
               (let displayName = TrimSpace (upDisplayName inp);
                    u1 = (if displayName \<noteq> []
                          then user\<lparr>cuDisplayName := displayName, cuDisplayNameSource := ''pulse''\<rparr> else user);
                    u2 = weatherProfile inp (u1\<lparr>cuTimezone := TrimSpace (upTimezone inp)\<rparr>);
                    u3 = u2\<lparr>cuUpdatedAt := normalizeWriteTime now\<rparr>
                in (s\<lparr>usersByID := gm_put userID u3 (usersByID s)\<rparr>, Inr u3))))"

definition ReconcileUserSubjectByEmail ::
    "time \<Rightarrow> string \<Rightarrow> string \<Rightarrow> MemoryStore \<Rightarrow> CurrentUser outcome" where
  "ReconcileUserSubjectByEmail now inEmail inUserSubject s =
     (let email = TrimSpace inEmail; userSubject = TrimSpace inUserSubject
      in if email = [] then (s, Inl ErrVerifiedEmailNotFound)
         else if userSubject = [] then (s, Inl ErrUserNotFound)
         else
           (case gm_get (usersBySubject s) userSubject of
              Some existingID \<Rightarrow>
                (case gm_get (usersByID s) existingID of
                   None \<Rightarrow> (s, Inl ErrUserNotFound)
                 | Some existing \<Rightarrow>
                     if EqualFold (TrimSpace (cuEmail existing)) email then (s, Inr existing)
                     else (s, Inl ErrUserSubjectConflict))
            | None \<Rightarrow>
                (case gm_find (\<lambda>_ user. cuEmailVerified user \<and> EqualFold (TrimSpace (cuEmail user)) email)
                        (usersByID s) of
                   None \<Rightarrow> (s, Inl ErrVerifiedEmailNotFound)
                 | Some (userID, user) \<Rightarrow>
                     (let s1 = s\<lparr>usersBySubject := gm_del (TrimSpace (cuKeycloakSubject user)) (usersBySubject s)\<rparr>;
                          user' = user\<lparr>cuKeycloakSubject := userSubject, cuUpdatedAt := normalizeWriteTime now\<rparr>;
                          s2 = s1\<lparr>usersByID := gm_put userID user' (usersByID s1)\<rparr>;
                          s3 = s2\<lparr>usersBySubject := gm_put userSubject userID (usersBySubject s2)\<rparr>
                      in (s3, Inr user')))))"

section \<open>Preservation\<close>

text \<open>A subject always names the user that carries it.\<close>

lemma subject_userD:
  assumes "users_inv s" "gm_get (usersBySubject s) sub = Some uid"
  obtains u where "gm_get (usersByID s) uid = Some u" "cuKeycloakSubject u = sub" "cuID u = uid" "known_user s uid"
  using assms by (auto simp: users_inv_def user_row_def known_user_def dest: gm_allD)

text \<open>The two writes of this component: a user's own row, and a new row for a new subject.\<close>

lemma users_inv_same_subject:
  assumes "users_inv s" "gm_get (usersByID s) uid = Some u" "cuKeycloakSubject u' = cuKeycloakSubject u" "cuID u' = uid"
  shows "users_inv (s\<lparr>usersByID := gm_put uid u' (usersByID s)\<rparr>)"
proof -
  from assms have "user_row s uid u'" by (auto simp: users_inv_def user_row_def dest: gm_allD)
  then have "user_row (s\<lparr>usersByID := gm_put uid u' (usersByID s)\<rparr>) uid u'" by (rule user_row_grows) simp
  moreover have "gm_all (user_row (s\<lparr>usersByID := gm_put uid u' (usersByID s)\<rparr>)) (usersByID s)"
    by (rule gm_all_mono [of "user_row s"]) (use assms in \<open>auto simp: users_inv_def intro: user_row_grows\<close>)
  ultimately show ?thesis using assms by (auto simp: users_inv_def intro: gm_all_put)
qed

definition addUser :: "time \<Rightarrow> string \<Rightarrow> MemoryStore \<Rightarrow> MemoryStore" where
  "addUser now subject s =
     s\<lparr>idCounter := idCounter s + 1,
       usersBySubject := gm_put subject (seqID ''usr'' (idCounter s + 1)) (usersBySubject s),
       usersByID := gm_put (seqID ''usr'' (idCounter s + 1))
         (providerUser (seqID ''usr'' (idCounter s + 1)) subject (normalizeWriteTime now)) (usersByID s)\<rparr>"

lemma dev_user_not_issued: "\<not> issued_id ''usr'' c ''dev-user-id-1''"
  by (auto simp: issued_id_def)

lemma users_inv_addUser:
  assumes inv: "users_inv s" and room: "unat (idCounter s) + 1 < 2 ^ 64"
    and new: "gm_get (usersBySubject s) subject = None" "trimmed subject" "subject \<noteq> []"
  shows "users_inv (addUser now subject s)" and "grows s (addUser now subject s)"
proof -
  let ?id = "seqID ''usr'' (idCounter s + 1)" and ?s = "addUser now subject s"
  note iss = seqID_issued [OF room, of "''usr''"] and fresh = seqID_fresh [OF room, of "''usr''"]
  show g: "grows s ?s"
    using unat_next [OF room] by (simp add: addUser_def grows_def known_user_def device_sn_def collector_user_def)
  have notin: "gm_get (usersByID s) ?id = None"
  proof (rule ccontr)
    assume "gm_get (usersByID s) ?id \<noteq> None"
    with inv have "?id = ''dev-user-id-1'' \<or> issued_id ''usr'' (idCounter s) ?id"
      by (auto simp: users_inv_def user_row_def dest: gm_allD)
    with fresh iss dev_user_not_issued show False by metis
  qed
  have old: "gm_all (user_row ?s) (usersByID s)"
    by (rule gm_all_mono [of "user_row s"]) (use inv g in \<open>auto simp: users_inv_def intro: user_row_grows\<close>)
  have "user_row ?s ?id (providerUser ?id subject now')" for now'
    using iss new(2,3) by (simp add: user_row_def providerUser_def addUser_def)
  with old have rows: "gm_all (user_row ?s) (usersByID ?s)" by (simp add: addUser_def gm_all_put)
  have free: "gm_get (usersByID s) uid = Some u \<Longrightarrow> cuKeycloakSubject u \<noteq> subject" for uid u
    using inv new(1) unfolding users_inv_def by (metis not_Some_eq)
  have "gm_get (usersBySubject ?s) sub = Some uid \<longleftrightarrow>
      (\<exists>u. gm_get (usersByID ?s) uid = Some u \<and> cuKeycloakSubject u = sub)" for sub uid
    using inv notin free by (auto simp: addUser_def users_inv_def providerUser_def)
  with rows inv show "users_inv ?s" by (simp add: users_inv_def addUser_def)
qed

lemma EnsureUser_cases:
  assumes "users_inv s"
  obtains "EnsureUser now sub s = (s, [])" | uid where "EnsureUser now sub s = (s, uid)"
    "gm_get (usersBySubject s) (TrimSpace sub) = Some uid"
  | "EnsureUser now sub s = (addUser now (TrimSpace sub) s, seqID ''usr'' (idCounter s + 1))"
    "gm_get (usersBySubject s) (TrimSpace sub) = None" "TrimSpace sub \<noteq> []"
  using that
  by (cases "TrimSpace sub = []"; cases "gm_get (usersBySubject s) (TrimSpace sub)")
     (auto simp: EnsureUser_def nextID_def addUser_def Let_def)

lemma ensureUserLocked_cases:
  assumes "users_inv s"
  obtains "TrimSpace sub = []" "ensureUserLocked now sub s = (s, zeroCurrentUser)"
  | u where "ensureUserLocked now sub s = (s, u)" "gm_get (usersByID s) (cuID u) = Some u"
      "cuKeycloakSubject u = TrimSpace sub" "gm_get (usersBySubject s) (TrimSpace sub) = Some (cuID u)"
  | "ensureUserLocked now sub s = (addUser now (TrimSpace sub) s,
       providerUser (seqID ''usr'' (idCounter s + 1)) (TrimSpace sub) (normalizeWriteTime now))"
    "gm_get (usersBySubject s) (TrimSpace sub) = None" "TrimSpace sub \<noteq> []"
proof (cases "gm_get (usersBySubject s) (TrimSpace sub)")
  case None
  then show ?thesis using that
    by (cases "TrimSpace sub = []") (auto simp: ensureUserLocked_def nextID_def addUser_def Let_def)
next
  case (Some uid)
  with assms obtain u where "gm_get (usersByID s) uid = Some u" "cuKeycloakSubject u = TrimSpace sub" "cuID u = uid"
    by (rule subject_userD)
  then show ?thesis using that(1) that(2) [of u] Some
    by (cases "TrimSpace sub = []") (simp_all add: ensureUserLocked_def)
qed

lemma loginDisplayName_keeps [simp]:
  "cuID (loginDisplayName inp u) = cuID u" "cuKeycloakSubject (loginDisplayName inp u) = cuKeycloakSubject u"
  by (auto simp: loginDisplayName_def Let_def)

lemma weatherProfile_keeps [simp]:
  "cuID (weatherProfile inp u) = cuID u" "cuKeycloakSubject (weatherProfile inp u) = cuKeycloakSubject u"
  "cuEmail (weatherProfile inp u) = cuEmail u"
  by (auto simp: weatherProfile_def Let_def)

definition only_users :: "MemoryStore \<Rightarrow> MemoryStore \<Rightarrow> bool" where
  "only_users s s' \<longleftrightarrow>
     grows s s' \<and> credentials s' = credentials s \<and> providerDevices s' = providerDevices s \<and>
     edgeCollectors s' = edgeCollectors s \<and> edgeSources s' = edgeSources s \<and> devicesByID s' = devicesByID s \<and>
     deviceBySN s' = deviceBySN s \<and> userDevices s' = userDevices s"

lemma only_users_refl [simp]: "only_users s s"
  by (simp add: only_users_def)

lemma only_users_trans: "only_users a b \<Longrightarrow> only_users b c \<Longrightarrow> only_users a c"
  by (auto simp: only_users_def intro: grows_trans)

lemma only_users_store_inv: "only_users s s' \<Longrightarrow> users_inv s' \<Longrightarrow> store_inv sha s \<Longrightarrow> store_inv sha s'"
  by (auto simp: store_inv_def only_users_def intro: inv_frames)

lemma only_users_addUser:
  "users_inv s \<Longrightarrow> unat (idCounter s) + 1 < 2 ^ 64 \<Longrightarrow> gm_get (usersBySubject s) sub = None \<Longrightarrow> trimmed sub \<Longrightarrow>
     sub \<noteq> [] \<Longrightarrow> only_users s (addUser now sub s)"
  by (simp add: only_users_def users_inv_addUser(2)) (simp add: addUser_def)

lemma only_users_put [simp]: "only_users s (s\<lparr>usersByID := gm_put k u (usersByID s)\<rparr>)"
  by (simp add: only_users_def)

lemma EnsureUser_inv:
  assumes "users_inv s" "id_room s"
  shows "users_inv (fst (EnsureUser now sub s)) \<and> only_users s (fst (EnsureUser now sub s))"
  using EnsureUser_cases [OF assms(1), of now sub] assms
  by (cases) (auto simp: id_room_def intro: users_inv_addUser only_users_addUser)

lemma ensureUserLocked_inv:
  assumes "users_inv s" "id_room s" "ensureUserLocked now sub s = (s1, user)"
  shows "users_inv s1 \<and> only_users s s1 \<and> (cuID user \<noteq> [] \<longrightarrow>
    gm_get (usersByID s1) (cuID user) = Some user \<and> cuKeycloakSubject user = TrimSpace sub \<and>
    gm_get (usersBySubject s1) (TrimSpace sub) = Some (cuID user))"
  using assms(1)
proof (cases rule: ensureUserLocked_cases [of _ sub now])
  case 1
  with assms show ?thesis by (auto simp: zeroCurrentUser_def)
next
  case (2 u)
  with assms show ?thesis by simp
next
  case 3
  with assms have "s1 = addUser now (TrimSpace sub) s" by simp
  with 3 assms show ?thesis
    by (auto simp: id_room_def providerUser_def addUser_def intro: users_inv_addUser(1) [unfolded addUser_def providerUser_def] only_users_addUser [unfolded addUser_def providerUser_def])
qed

lemma GetOrProvisionCurrentUser_inv:
  assumes "users_inv s" "id_room s"
  shows "users_inv (fst (GetOrProvisionCurrentUser now1 now2 inp s)) \<and>
    only_users s (fst (GetOrProvisionCurrentUser now1 now2 inp s))"
proof -
  obtain s1 user where e: "ensureUserLocked now1 (TrimSpace (gpUserSubject inp)) s = (s1, user)" by fastforce
  note i = ensureUserLocked_inv [OF assms e]
  show ?thesis
  proof (cases "cuID user = []")
    case True
    with i e show ?thesis by (simp add: GetOrProvisionCurrentUser_def)
  next
    case False
    with i have "gm_get (usersByID s1) (cuID user) = Some user" "cuKeycloakSubject user = TrimSpace (gpUserSubject inp)"
      "users_inv s1" "only_users s s1" by auto
    with False e show ?thesis
      by (auto simp: GetOrProvisionCurrentUser_def Let_def intro: users_inv_same_subject only_users_trans)
  qed
qed

lemma UpdateCurrentUserProfile_inv:
  assumes "users_inv s"
  shows "users_inv (fst (UpdateCurrentUserProfile now inp s)) \<and> only_users s (fst (UpdateCurrentUserProfile now inp s))"
proof (cases "gm_get (usersBySubject s) (TrimSpace (upUserSubject inp))")
  case None
  with assms show ?thesis by (simp add: UpdateCurrentUserProfile_def)
next
  case (Some uid)
  with assms obtain u where u: "gm_get (usersByID s) uid = Some u" "cuID u = uid" by (rule subject_userD)
  with Some assms show ?thesis
    by (auto simp: UpdateCurrentUserProfile_def Let_def intro: users_inv_same_subject)
qed

text \<open>The move of an account: the new subject names the user, the old one names nobody.\<close>

lemma users_inv_move:
  assumes inv: "users_inv s" and u: "gm_get (usersByID s) uid = Some u"
    and new: "gm_get (usersBySubject s) sub = None" "trimmed sub" "sub \<noteq> []"
    and u': "cuID u' = uid" "cuKeycloakSubject u' = sub"
  shows "users_inv (s\<lparr>usersByID := gm_put uid u' (usersByID s),
     usersBySubject := gm_put sub uid (gm_del (cuKeycloakSubject u) (usersBySubject s))\<rparr>)" (is "users_inv ?s")
proof -
  have g: "grows s ?s" by (simp add: grows_def known_user_def device_sn_def collector_user_def)
  have old: "gm_all (user_row ?s) (usersByID s)"
    by (rule gm_all_mono [of "user_row s"]) (use inv g in \<open>auto simp: users_inv_def intro: user_row_grows\<close>)
  moreover have "user_row ?s uid u'"
    using gm_allD [OF old u] new(2,3) u' by (simp add: user_row_def)
  ultimately have rows: "gm_all (user_row ?s) (usersByID ?s)" by (simp add: gm_all_put)
  have idx: "gm_get (usersBySubject s) x = Some y \<longleftrightarrow>
      (\<exists>v. gm_get (usersByID s) y = Some v \<and> cuKeycloakSubject v = x)" for x y
    using inv by (auto simp: users_inv_def)
  have free: "cuKeycloakSubject v \<noteq> sub" if "gm_get (usersByID s) y = Some v" for y v
    using idx [of sub y] new(1) that by auto
  have only: "y = uid" if "gm_get (usersByID s) y = Some v" "cuKeycloakSubject v = cuKeycloakSubject u" for y v
    using idx [of "cuKeycloakSubject u" y] idx [of "cuKeycloakSubject u" uid] that u by auto
  have "gm_get (usersBySubject ?s) x = Some y \<longleftrightarrow>
      (\<exists>v. gm_get (usersByID ?s) y = Some v \<and> cuKeycloakSubject v = x)" for x y
    using u u' by (auto simp: idx dest: free only)
  with rows inv show ?thesis by (simp add: users_inv_def)
qed

lemma ReconcileUserSubjectByEmail_inv:
  assumes inv: "users_inv s"
  shows "users_inv (fst (ReconcileUserSubjectByEmail now email sub s)) \<and>
    only_users s (fst (ReconcileUserSubjectByEmail now email sub s))"
proof (cases "TrimSpace email = [] \<or> TrimSpace sub = [] \<or> gm_get (usersBySubject s) (TrimSpace sub) \<noteq> None")
  case True
  with inv show ?thesis
    by (auto simp: ReconcileUserSubjectByEmail_def Let_def split: option.splits)
next
  case False
  let ?f = "gm_find (\<lambda>_ user. cuEmailVerified user \<and> EqualFold (TrimSpace (cuEmail user)) (TrimSpace email)) (usersByID s)"
  show ?thesis
  proof (cases ?f)
    case None
    with False inv show ?thesis by (simp add: ReconcileUserSubjectByEmail_def Let_def)
  next
    case (Some p)
    then obtain uid u where p: "?f = Some (uid, u)" by (cases p) auto
    with inv have u: "gm_get (usersByID s) uid = Some u" by (auto simp: users_inv_def dest: gm_find_SomeD)
    with inv have row: "cuID u = uid" "TrimSpace (cuKeycloakSubject u) = cuKeycloakSubject u"
      by (auto simp: users_inv_def user_row_def TrimSpace_trimmed dest: gm_allD)
    from False p row users_inv_move [OF inv u, of "TrimSpace sub"] show ?thesis
      by (auto simp: ReconcileUserSubjectByEmail_def Let_def only_users_def grows_def known_user_def device_sn_def collector_user_def)
  qed
qed

end
