(* ===== verification/Cp_Credentials.thy ===== *)
theory Cp_Credentials
  imports Cp_Users
begin

text \<open>
  The provider credentials of the memory store: creation, listing, activation, update, lookup. At
  most one credential per user and provider is active; activating one moves the user's devices of
  that provider to it.
\<close>

section \<open>Operations\<close>

definition setExclusiveCredentialActiveLocked ::
    "string \<Rightarrow> string \<Rightarrow> string \<Rightarrow> time \<Rightarrow> MemoryStore \<Rightarrow> MemoryStore" where
  "setExclusiveCredentialActiveLocked userID provider credentialID now s =
     s\<lparr>credentials :=
         gm_map (\<lambda>i cred.
           if pcUserID cred \<noteq> userID \<or> pcProvider cred \<noteq> provider then cred
           else (let shouldBeActive = (i = credentialID)
                 in if pcIsActive cred = shouldBeActive then cred
                    else cred\<lparr>pcIsActive := shouldBeActive, pcUpdatedAt := now\<rparr>)) (credentials s)\<rparr>"

definition rebindProviderDevicesLocked ::
    "string \<Rightarrow> string \<Rightarrow> string \<Rightarrow> MemoryStore \<Rightarrow> MemoryStore" where
  "rebindProviderDevicesLocked userID provider credentialID s =
     s\<lparr>providerDevices :=
         gm_map (\<lambda>_ device.
           if NormalizeProvider (pdProvider device) \<noteq> provider then device
           else
             (case gm_get (credentials s) (pdCredentialID device) of
                None \<Rightarrow> device
              | Some credential \<Rightarrow>
                  if pcUserID credential \<noteq> userID \<or> pcProvider credential \<noteq> provider then device
                  else if pdCredentialID device = credentialID then device
                  else device\<lparr>pdCredentialID := credentialID\<rparr>)) (providerDevices s)\<rparr>"

definition providerAccessKeyExistsLocked ::
    "(string \<Rightarrow> byte list) \<Rightarrow> string \<Rightarrow> byte list \<Rightarrow> string \<Rightarrow> MemoryStore \<Rightarrow> bool" where
  "providerAccessKeyExistsLocked sha provider accessKeyHash excludeCredentialID s \<longleftrightarrow>
     gm_find (\<lambda>i cred. i \<noteq> excludeCredentialID \<and> pcProvider cred = provider \<and>
        HashAccessKey sha (pcAccessKey cred) = accessKeyHash) (credentials s) \<noteq> None"

text \<open>The end that creation, activation and update share: make the row exclusive, store it, move the devices.\<close>

definition commitCredential :: "time \<Rightarrow> ProviderCredential \<Rightarrow> MemoryStore \<Rightarrow> ProviderCredential outcome" where
  "commitCredential now row s =
     (let s1 = (if pcIsActive row
                then setExclusiveCredentialActiveLocked (pcUserID row) (pcProvider row) (pcID row) now s else s);
          s2 = s1\<lparr>credentials := gm_put (pcID row) row (credentials s1)\<rparr>;
          s3 = (if pcIsActive row
                then rebindProviderDevicesLocked (pcUserID row) (pcProvider row) (pcID row) s2 else s2)
      in (s3, Inr (cloneProviderCredential row)))"

record CreateProviderCredentialInput =
  ccUserSubject :: string
  ccProvider :: string
  ccAccessKey :: string
  ccSecretKey :: string
  ccConfig :: anymap
  ccIsActive :: bool

definition CreateProviderCredential ::
    "(string \<Rightarrow> byte list) \<Rightarrow> time \<Rightarrow> CreateProviderCredentialInput \<Rightarrow> MemoryStore \<Rightarrow> ProviderCredential outcome" where
  "CreateProviderCredential sha clock inp s =
     (case gm_get (usersBySubject s) (TrimSpace (ccUserSubject inp)) of
        None \<Rightarrow> (s, Inl ErrUserNotFound)
      | Some userID \<Rightarrow>
          (let now = normalizeWriteTime clock;
               (s1, i) = nextID ''cred'' s;
               row = \<lparr>pcID = i, pcUserID = userID, pcProvider = NormalizeProvider (ccProvider inp),
                      pcAccessKeyMask = MaskAccessKey (ccAccessKey inp), pcAccessKey = ccAccessKey inp,
                      pcSecretKey = ccSecretKey inp, pcConfig = cloneAnyMap (ccConfig inp),
                      pcIsActive = ccIsActive inp, pcCreatedAt = now, pcUpdatedAt = now\<rparr>
           in if providerAccessKeyExistsLocked sha (pcProvider row) (HashAccessKey sha (ccAccessKey inp)) [] s1
              then (s1, Inl ErrCredentialAlreadyExists)
              else commitCredential now row s1))"

definition ListProviderCredentials :: "string \<Rightarrow> string \<Rightarrow> MemoryStore \<Rightarrow> ProviderCredential list" where
  "ListProviderCredentials userSubject inProvider s =
     (case gm_get (usersBySubject s) (TrimSpace userSubject) of
        None \<Rightarrow> []
      | Some userID \<Rightarrow>
          (let provider = NormalizeProvider inProvider;
               out = map (\<lambda>row. row\<lparr>pcAccessKey := [], pcSecretKey := [], pcConfig := cloneAnyMap (pcConfig row)\<rparr>)
                 (gm_rows (\<lambda>row. pcUserID row = userID \<and> (provider = [] \<or> pcProvider row = provider)) (credentials s))
           in sort_by (then_by pcCreatedAt (by_desc pcCreatedAt) (by_desc pcID)) out))"

text \<open>The row a user may touch: the credential exists and is the user's own.\<close>

definition ownCredential :: "string \<Rightarrow> string \<Rightarrow> MemoryStore \<Rightarrow> ProviderCredential option" where
  "ownCredential userSubject credentialID s =
     (case gm_get (usersBySubject s) (TrimSpace userSubject) of
        None \<Rightarrow> None
      | Some userID \<Rightarrow>
          (case gm_get (credentials s) credentialID of
             None \<Rightarrow> None
           | Some row \<Rightarrow> if pcUserID row \<noteq> userID then None else Some row))"

definition SetProviderCredentialActive ::
    "time \<Rightarrow> string \<Rightarrow> string \<Rightarrow> bool \<Rightarrow> MemoryStore \<Rightarrow> ProviderCredential outcome" where
  "SetProviderCredentialActive clock userSubject credentialID isActive s =
     (case ownCredential userSubject credentialID s of
        None \<Rightarrow> (s, Inl ErrCredentialNotFound)
      | Some row \<Rightarrow>
          (let now = normalizeWriteTime clock
           in commitCredential now (row\<lparr>pcIsActive := isActive, pcUpdatedAt := now\<rparr>) s))"

record UpdateProviderCredentialInput =
  ucUserSubject :: string
  ucCredentialID :: string
  ucAccessKey :: string
  ucSecretKey :: string
  ucConfig :: anymap
  ucIsActive :: bool

definition UpdateProviderCredential ::
    "(string \<Rightarrow> byte list) \<Rightarrow> time \<Rightarrow> UpdateProviderCredentialInput \<Rightarrow> MemoryStore \<Rightarrow> ProviderCredential outcome" where
  "UpdateProviderCredential sha clock inp s =
     (case ownCredential (ucUserSubject inp) (ucCredentialID inp) s of
        None \<Rightarrow> (s, Inl ErrCredentialNotFound)
      | Some row0 \<Rightarrow>
          (let now = normalizeWriteTime clock;
               row = row0\<lparr>pcAccessKey := ucAccessKey inp, pcSecretKey := ucSecretKey inp,
                          pcConfig := cloneAnyMap (ucConfig inp), pcAccessKeyMask := MaskAccessKey (ucAccessKey inp),
                          pcIsActive := ucIsActive inp, pcUpdatedAt := now\<rparr>
           in if providerAccessKeyExistsLocked sha (pcProvider row) (HashAccessKey sha (ucAccessKey inp)) (pcID row) s
              then (s, Inl ErrCredentialAlreadyExists)
              else commitCredential now row s))"

definition GetProviderCredential :: "string \<Rightarrow> string \<Rightarrow> MemoryStore \<Rightarrow> store_error + ProviderCredential" where
  "GetProviderCredential userSubject credentialID s =
     (case ownCredential userSubject credentialID s of
        None \<Rightarrow> Inl ErrCredentialNotFound
      | Some row \<Rightarrow> Inr (cloneProviderCredential row))"

definition GetActiveProviderCredentialByUserID ::
    "string \<Rightarrow> string \<Rightarrow> MemoryStore \<Rightarrow> store_error + ProviderCredential" where
  "GetActiveProviderCredentialByUserID inUserID inProvider s =
     (let userID = TrimSpace inUserID; provider = NormalizeProvider inProvider
      in case gm_find (\<lambda>_ row. pcUserID row = userID \<and> pcProvider row = provider \<and> pcIsActive row) (credentials s) of
           None \<Rightarrow> Inl ErrCredentialNotFound
         | Some (_, row) \<Rightarrow> Inr (cloneProviderCredential row))"

section \<open>Preservation\<close>

lemma NormalizeProvider_idem [simp]: "NormalizeProvider (NormalizeProvider p) = NormalizeProvider p"
  by (simp add: NormalizeProvider_def)

lemma providerAccessKeyExistsLocked_False:
  assumes "\<not> providerAccessKeyExistsLocked sha p h x s" "gm_get (credentials s) i = Some c" "i \<noteq> x" "pcProvider c = p"
  shows "HashAccessKey sha (pcAccessKey c) \<noteq> h"
  using assms by (auto simp: providerAccessKeyExistsLocked_def simp del: not_None_eq dest: gm_find_NoneD)

definition only_creds :: "MemoryStore \<Rightarrow> MemoryStore \<Rightarrow> bool" where
  "only_creds s s' \<longleftrightarrow>
     grows s s' \<and> usersBySubject s' = usersBySubject s \<and> usersByID s' = usersByID s \<and>
     edgeCollectors s' = edgeCollectors s \<and> edgeSources s' = edgeSources s \<and> devicesByID s' = devicesByID s \<and>
     deviceBySN s' = deviceBySN s \<and> userDevices s' = userDevices s"

lemma only_creds_store_inv:
  "only_creds s s' \<Longrightarrow> creds_inv sha s' \<Longrightarrow> pdevs_inv s' \<Longrightarrow> store_inv sha s \<Longrightarrow> store_inv sha s'"
  by (auto simp: store_inv_def only_creds_def intro: inv_frames)

text \<open>Which credentials are stored after a commit.\<close>

definition deactivated :: "time \<Rightarrow> ProviderCredential \<Rightarrow> ProviderCredential \<Rightarrow> ProviderCredential" where
  "deactivated now row c =
     (if pcIsActive row \<and> pcUserID c = pcUserID row \<and> pcProvider c = pcProvider row \<and> pcIsActive c
      then c\<lparr>pcIsActive := False, pcUpdatedAt := now\<rparr> else c)"

lemma deactivated_keeps [simp]:
  "pcID (deactivated now row c) = pcID c" "pcUserID (deactivated now row c) = pcUserID c"
  "pcProvider (deactivated now row c) = pcProvider c" "pcAccessKey (deactivated now row c) = pcAccessKey c"
  "pcAccessKeyMask (deactivated now row c) = pcAccessKeyMask c"
  by (simp_all add: deactivated_def)

lemma deactivated_active [simp]:
  "pcIsActive (deactivated now row c) \<longleftrightarrow>
     pcIsActive c \<and> \<not> (pcIsActive row \<and> pcUserID c = pcUserID row \<and> pcProvider c = pcProvider row)"
  by (auto simp: deactivated_def)

lemma commitCredential_get:
  assumes "commitCredential now row s = (s', r)"
  shows "gm_get (credentials s') i =
    (if i = pcID row then Some row else map_option (deactivated now row) (gm_get (credentials s) i))"
  using assms
  by (auto simp: commitCredential_def setExclusiveCredentialActiveLocked_def rebindProviderDevicesLocked_def Let_def
      deactivated_def [abs_def] option.map_ident intro!: option.map_cong)

lemma commitCredential_frame:
  assumes "commitCredential now row s = (s', r)"
  shows "only_creds s s'" "idCounter s' = idCounter s" "gm_wf (credentials s) \<Longrightarrow> gm_wf (credentials s')"
  using assms
  by (auto simp: commitCredential_def setExclusiveCredentialActiveLocked_def rebindProviderDevicesLocked_def Let_def
      only_creds_def grows_def known_user_def device_sn_def collector_user_def split: if_splits)

lemma commitCredential_creds_inv:
  assumes inv: "creds_inv sha s" and run: "commitCredential now row s = (s', r)"
    and row: "cred_row s (pcID row) row"
    and uniq: "\<And>i c. gm_get (credentials s) i = Some c \<Longrightarrow> i \<noteq> pcID row \<Longrightarrow> pcProvider c = pcProvider row \<Longrightarrow>
       HashAccessKey sha (pcAccessKey c) \<noteq> HashAccessKey sha (pcAccessKey row)"
  shows "creds_inv sha s'"
proof -
  note get = commitCredential_get [OF run] and fr = commitCredential_frame [OF run]
  have g: "grows s s'" using fr(1) by (simp add: only_creds_def)
  have pairs: "gm_pairs (cred_pair sha) (credentials s)" and rows: "gm_all (cred_row s) (credentials s)"
    using inv by (simp_all add: creds_inv_def)
  have "cred_row s i (deactivated now row c)" if "gm_get (credentials s) i = Some c" for i c
    using gm_allD [OF rows that] by (simp add: cred_row_def)
  then have "cred_row s' i c" if "gm_get (credentials s') i = Some c" for i c
    using that row cred_row_grows [OF _ g] by (auto simp: get split: if_splits)
  moreover have "cred_pair sha c d"
    if c: "gm_get (credentials s') i = Some c" and d: "gm_get (credentials s') j = Some d" and "i \<noteq> j" for i j c d
  proof -
    have both: "cred_pair sha (deactivated now row x) (deactivated now row y)"
      if "gm_get (credentials s) i = Some x" "gm_get (credentials s) j = Some y" for x y
      using gm_pairsD [OF pairs that \<open>i \<noteq> j\<close>] by (auto simp: cred_pair_def)
    have one: "cred_pair sha row (deactivated now row x) \<and> cred_pair sha (deactivated now row x) row"
      if "gm_get (credentials s) k = Some x" "k \<noteq> pcID row" for k x
      using uniq [OF that] by (auto simp: cred_pair_def)
    show ?thesis using c d \<open>i \<noteq> j\<close> both one by (auto simp: get split: if_splits)
  qed
  ultimately show ?thesis using fr(3) inv by (auto simp: creds_inv_def gm_all_def gm_pairs_def)
qed

text \<open>The devices after a commit: those bound to a credential of the user for the provider are bound to the row.\<close>

definition rebound :: "string \<Rightarrow> string \<Rightarrow> string \<Rightarrow> MemoryStore \<Rightarrow> ProviderDevice \<Rightarrow> string" where
  "rebound userID provider credentialID s d =
     (if NormalizeProvider (pdProvider d) = provider \<and>
         (case gm_get (credentials s) (pdCredentialID d) of None \<Rightarrow> False
          | Some c \<Rightarrow> pcUserID c = userID \<and> pcProvider c = provider)
      then credentialID else pdCredentialID d)"

lemma rebind_devices:
  "providerDevices (rebindProviderDevicesLocked u p c s) =
     gm_map (\<lambda>_ d. d\<lparr>pdCredentialID := rebound u p c s d\<rparr>) (providerDevices s)"
proof -
  have "(if NormalizeProvider (pdProvider d) \<noteq> p then d
        else (case gm_get (credentials s) (pdCredentialID d) of None \<Rightarrow> d
              | Some x \<Rightarrow> if pcUserID x \<noteq> u \<or> pcProvider x \<noteq> p then d
                  else if pdCredentialID d = c then d else d\<lparr>pdCredentialID := c\<rparr>))
      = d\<lparr>pdCredentialID := rebound u p c s d\<rparr>" for d :: ProviderDevice
    by (auto simp: rebound_def split: option.splits)
  then show ?thesis by (simp add: rebindProviderDevicesLocked_def)
qed

lemma commitCredential_pdev:
  assumes "commitCredential now row s = (s', r)"
  obtains f :: "ProviderDevice \<Rightarrow> string"
  where "providerDevices s' = gm_map (\<lambda>_ p. p\<lparr>pdCredentialID := f p\<rparr>) (providerDevices s)"
    "\<And>p. f p = pdCredentialID p \<or> f p = pcID row"
proof (cases "pcIsActive row")
  case True
  with assms obtain s2 where "s' = rebindProviderDevicesLocked (pcUserID row) (pcProvider row) (pcID row) s2"
    "providerDevices s2 = providerDevices s"
    by (auto simp: commitCredential_def Let_def setExclusiveCredentialActiveLocked_def)
  with that [of "rebound (pcUserID row) (pcProvider row) (pcID row) s2"] show thesis by (simp add: rebind_devices rebound_def)
next
  case False
  with assms have "providerDevices s' = gm_map (\<lambda>_ p. p\<lparr>pdCredentialID := pdCredentialID p\<rparr>) (providerDevices s)"
    by (auto simp: commitCredential_def gm_map_def case_prod_unfold)
  with that show thesis by blast
qed

lemma commitCredential_pdevs_inv:
  assumes inv: "pdevs_inv s" and run: "commitCredential now row s = (s', r)"
  shows "pdevs_inv s'"
proof -
  from commitCredential_pdev [OF run] obtain f :: "ProviderDevice \<Rightarrow> string"
    where f: "providerDevices s' = gm_map (\<lambda>_ p. p\<lparr>pdCredentialID := f p\<rparr>) (providerDevices s)" .
  have g: "grows s s'" using commitCredential_frame(1) [OF run] by (simp add: only_creds_def)
  have "pdev_row s' k (p\<lparr>pdCredentialID := x\<rparr>)" if "pdev_row s k p" for k p x
    using pdev_row_grows [OF that g] by (simp add: pdev_row_def)
  then have "gm_all (pdev_row s') (providerDevices s')"
    unfolding f using inv by (intro gm_all_map [of "pdev_row s"]) (simp_all add: pdevs_inv_def)
  moreover have "gm_pairs pdev_pair (providerDevices s')"
    unfolding f using inv by (intro gm_pairs_map [of pdev_pair]) (simp_all add: pdevs_inv_def pdev_pair_def)
  ultimately show ?thesis using inv by (simp add: pdevs_inv_def f)
qed

lemma commitCredential_store_inv:
  assumes "store_inv sha s" "commitCredential now row s = (s', r)" "cred_row s (pcID row) row"
    and "\<And>i c. gm_get (credentials s) i = Some c \<Longrightarrow> i \<noteq> pcID row \<Longrightarrow> pcProvider c = pcProvider row \<Longrightarrow>
       HashAccessKey sha (pcAccessKey c) \<noteq> HashAccessKey sha (pcAccessKey row)"
  shows "store_inv sha s'"
  using commitCredential_creds_inv [of sha s now row s' r] commitCredential_pdevs_inv [of s now row s' r]
    commitCredential_frame(1) [OF assms(2)] assms
  by (blast intro: only_creds_store_inv dest: store_invD)

lemma counter_store_inv:
  assumes "store_inv sha s" "id_room s"
  shows "store_inv sha (s\<lparr>idCounter := idCounter s + 1\<rparr>)"
proof -
  have "grows s (s\<lparr>idCounter := idCounter s + 1\<rparr>)" using assms(2) by (simp add: grows_counter id_room_def)
  then show ?thesis using assms(1) by (auto simp: store_inv_def intro: inv_frames)
qed

lemma CreateProviderCredential_inv:
  assumes inv: "store_inv sha s" and room: "id_room s"
  shows "store_inv sha (fst (CreateProviderCredential sha clock inp s))"
proof (cases "gm_get (usersBySubject s) (TrimSpace (ccUserSubject inp))")
  case None
  with inv show ?thesis by (simp add: CreateProviderCredential_def)
next
  case (Some uid)
  let ?s1 = "s\<lparr>idCounter := idCounter s + 1\<rparr>" and ?i = "seqID ''cred'' (idCounter s + 1)"
  define row where "row = \<lparr>pcID = ?i, pcUserID = uid, pcProvider = NormalizeProvider (ccProvider inp),
      pcAccessKeyMask = MaskAccessKey (ccAccessKey inp), pcAccessKey = ccAccessKey inp,
      pcSecretKey = ccSecretKey inp, pcConfig = cloneAnyMap (ccConfig inp),
      pcIsActive = ccIsActive inp, pcCreatedAt = normalizeWriteTime clock, pcUpdatedAt = normalizeWriteTime clock\<rparr>"
  note inv1 = counter_store_inv [OF inv room]
  have prov: "pcProvider row = NormalizeProvider (ccProvider inp)" by (simp add: row_def)
  have "known_user s uid" using store_invD(1) [OF inv] Some by (rule subject_userD)
  then have crow: "cred_row ?s1 (pcID row) row"
    using room by (simp add: cred_row_def row_def known_user_def seqID_issued id_room_def)
  obtain s' r where run: "commitCredential (normalizeWriteTime clock) row ?s1 = (s', r)" by fastforce
  show ?thesis
  proof (cases "providerAccessKeyExistsLocked sha (pcProvider row) (HashAccessKey sha (ccAccessKey inp)) [] ?s1")
    case True
    with Some inv1 prov show ?thesis by (simp add: CreateProviderCredential_def nextID_def row_def [symmetric] Let_def)
  next
    case False
    have "store_inv sha s'"
    proof (rule commitCredential_store_inv [OF inv1 run crow])
      fix i c assume c: "gm_get (credentials ?s1) i = Some c" "i \<noteq> pcID row" "pcProvider c = pcProvider row"
      have "i \<noteq> []" using store_invD(2) [OF inv] c(1) by (auto simp: creds_inv_def cred_row_def issued_id_def dest: gm_allD)
      with False c show "HashAccessKey sha (pcAccessKey c) \<noteq> HashAccessKey sha (pcAccessKey row)"
        by (auto simp: row_def dest: providerAccessKeyExistsLocked_False)
    qed
    with Some False run prov show ?thesis
      by (simp add: CreateProviderCredential_def nextID_def row_def [symmetric] Let_def)
  qed
qed

lemma ownCredentialD:
  assumes "ownCredential sub cid s = Some row"
  shows "gm_get (credentials s) cid = Some row" "gm_get (usersBySubject s) (TrimSpace sub) = Some (pcUserID row)"
  using assms by (auto simp: ownCredential_def split: option.splits if_splits)

lemma ownCredential_row:
  assumes "creds_inv sha s" "ownCredential sub cid s = Some row"
  shows "cred_row s cid row" "pcID row = cid"
  using gm_allD [OF _ ownCredentialD(1) [OF assms(2)], of "cred_row s"] assms(1)
  by (auto simp: creds_inv_def cred_row_def)

lemma SetProviderCredentialActive_inv:
  assumes inv: "store_inv sha s"
  shows "store_inv sha (fst (SetProviderCredentialActive clock sub cid act s))"
proof (cases "ownCredential sub cid s")
  case None
  with inv show ?thesis by (simp add: SetProviderCredentialActive_def)
next
  case (Some row)
  note row = ownCredential_row [OF store_invD(2) [OF inv] Some] and get = ownCredentialD(1) [OF Some]
  let ?row = "row\<lparr>pcIsActive := act, pcUpdatedAt := normalizeWriteTime clock\<rparr>"
  obtain s' r where run: "commitCredential (normalizeWriteTime clock) ?row s = (s', r)" by fastforce
  have "store_inv sha s'"
  proof (rule commitCredential_store_inv [OF inv run])
    show "cred_row s (pcID ?row) ?row" using row by (simp add: cred_row_def)
  next
    fix i c assume c: "gm_get (credentials s) i = Some c" "i \<noteq> pcID ?row" "pcProvider c = pcProvider ?row"
    have "gm_pairs (cred_pair sha) (credentials s)" using store_invD(2) [OF inv] by (simp add: creds_inv_def)
    from gm_pairsD [OF this c(1) get] c(2,3) row(2)
    show "HashAccessKey sha (pcAccessKey c) \<noteq> HashAccessKey sha (pcAccessKey ?row)" by (simp add: cred_pair_def)
  qed
  with Some run show ?thesis by (simp add: SetProviderCredentialActive_def Let_def)
qed

lemma UpdateProviderCredential_inv:
  assumes inv: "store_inv sha s"
  shows "store_inv sha (fst (UpdateProviderCredential sha clock inp s))"
proof (cases "ownCredential (ucUserSubject inp) (ucCredentialID inp) s")
  case None
  with inv show ?thesis by (simp add: UpdateProviderCredential_def)
next
  case (Some row)
  note row = ownCredential_row [OF store_invD(2) [OF inv] Some]
  define row' where "row' = row\<lparr>pcAccessKey := ucAccessKey inp, pcSecretKey := ucSecretKey inp,
      pcConfig := cloneAnyMap (ucConfig inp), pcAccessKeyMask := MaskAccessKey (ucAccessKey inp),
      pcIsActive := ucIsActive inp, pcUpdatedAt := normalizeWriteTime clock\<rparr>"
  obtain s' r where run: "commitCredential (normalizeWriteTime clock) row' s = (s', r)" by fastforce
  have crow: "cred_row s (pcID row') row'" using row by (simp add: cred_row_def row'_def)
  have same: "pcProvider row' = pcProvider row" "pcID row' = pcID row" by (simp_all add: row'_def)
  show ?thesis
  proof (cases "providerAccessKeyExistsLocked sha (pcProvider row') (HashAccessKey sha (ucAccessKey inp)) (pcID row') s")
    case True
    with Some inv same show ?thesis by (simp add: UpdateProviderCredential_def row'_def [symmetric] Let_def)
  next
    case False
    have "store_inv sha s'"
      by (rule commitCredential_store_inv [OF inv run crow])
         (use False in \<open>auto simp: row'_def dest: providerAccessKeyExistsLocked_False\<close>)
    with Some False run same show ?thesis by (simp add: UpdateProviderCredential_def row'_def [symmetric] Let_def)
  qed
qed

lemma commitCredential_rebinds:
  assumes run: "commitCredential now row s = (s', r)" and act: "pcIsActive row"
    and d: "gm_get (providerDevices s') i = Some d" "NormalizeProvider (pdProvider d) = pcProvider row"
    and c: "gm_get (credentials s') (pdCredentialID d) = Some c" "pcUserID c = pcUserID row" "pcProvider c = pcProvider row"
  shows "pdCredentialID d = pcID row"
proof -
  from run act obtain s2 where s': "s' = rebindProviderDevicesLocked (pcUserID row) (pcProvider row) (pcID row) s2"
    by (auto simp: commitCredential_def Let_def)
  then have creds: "credentials s' = credentials s2" by (simp add: rebindProviderDevicesLocked_def)
  from d(1) obtain d0 where d0: "d = d0\<lparr>pdCredentialID := rebound (pcUserID row) (pcProvider row) (pcID row) s2 d0\<rparr>"
    by (auto simp: s' rebind_devices)
  with d(2) c creds show ?thesis by (auto simp: rebound_def split: if_splits option.splits)
qed

end
