(* ===== verification/Cp_Devices.thy ===== *)
theory Cp_Devices
  imports Cp_Credentials
begin

text \<open>
  Devices, the users' roles on them, and the provider devices that feed them: creation and sharing,
  import and refresh from a provider, the lists, and the ingest assignments the workers fetch.
\<close>

section \<open>Devices and roles\<close>

definition ensureDeviceLocked ::
    "string \<Rightarrow> string \<Rightarrow> string \<Rightarrow> time \<Rightarrow> MemoryStore \<Rightarrow> MemoryStore \<times> memoryDevice \<times> bool" where
  "ensureDeviceLocked sn productName model now s =
     (let canonicalSN = ToUpper (TrimSpace sn)
      in if canonicalSN = [] then (s, zeroMemoryDevice, False)
         else
           (case gm_get (deviceBySN s) canonicalSN of
              Some existingID \<Rightarrow>
                (let dev0 = (case gm_get (devicesByID s) existingID of None \<Rightarrow> zeroMemoryDevice | Some d \<Rightarrow> d);
                     dev1 = (if TrimSpace productName \<noteq> [] then dev0\<lparr>mdProductName := TrimSpace productName\<rparr> else dev0);
                     dev2 = (if TrimSpace model \<noteq> [] then dev1\<lparr>mdModel := TrimSpace model\<rparr> else dev1);
                     dev = dev2\<lparr>mdUpdatedAt := now\<rparr>
                 in (s\<lparr>devicesByID := gm_put (mdID dev) dev (devicesByID s)\<rparr>, dev, False))
            | None \<Rightarrow>
                (let (s1, i) = nextUUID s;
                     dev = \<lparr>mdID = i, mdEcoflowSN = canonicalSN, mdProductName = TrimSpace productName,
                            mdModel = TrimSpace model, mdCreatedAt = now, mdUpdatedAt = now\<rparr>;
                     s2 = s1\<lparr>deviceBySN := gm_put canonicalSN i (deviceBySN s1)\<rparr>;
                     s3 = s2\<lparr>devicesByID := gm_put i dev (devicesByID s2)\<rparr>
                 in (s3, dev, True))))"

definition ensureUserDeviceRoleLocked :: "string \<Rightarrow> string \<Rightarrow> string \<Rightarrow> MemoryStore \<Rightarrow> MemoryStore" where
  "ensureUserDeviceRoleLocked userID deviceID role s =
     (let roles = (case gm_get (userDevices s) userID of None \<Rightarrow> [] | Some rs \<Rightarrow> rs)
      in s\<lparr>userDevices := gm_put userID (gm_put deviceID (TrimSpace role) roles) (userDevices s)\<rparr>)"

text \<open>\<open>s.userDevices[userID][deviceID]\<close>: the empty string when either key is absent.\<close>

definition roleOf :: "MemoryStore \<Rightarrow> string \<Rightarrow> string \<Rightarrow> string" where
  "roleOf s userID deviceID =
     (case Option.bind (gm_get (userDevices s) userID) (\<lambda>roles. gm_get roles deviceID) of
        None \<Rightarrow> [] | Some role \<Rightarrow> role)"

definition userDeviceOf :: "memoryDevice \<Rightarrow> string \<Rightarrow> UserDevice" where
  "userDeviceOf dev role =
     \<lparr>udDeviceID = mdID dev, udEcoflowSN = mdEcoflowSN dev, udProductName = mdProductName dev,
      udModel = mdModel dev, udRole = role, udCreatedAt = mdCreatedAt dev, udUpdatedAt = mdUpdatedAt dev\<rparr>"

definition CreateDevice ::
    "time \<Rightarrow> string \<Rightarrow> string \<Rightarrow> string \<Rightarrow> string \<Rightarrow> MemoryStore \<Rightarrow> UserDevice outcome" where
  "CreateDevice clock userSubject ecoflowSN productName model s =
     (if TrimSpace ecoflowSN = [] then (s, Inl ErrDeviceNotFound)
      else
        (case gm_get (usersBySubject s) (TrimSpace userSubject) of
           None \<Rightarrow> (s, Inl ErrUserNotFound)
         | Some userID \<Rightarrow>
             (let now = normalizeWriteTime clock;
                  (s1, dev0, created) = ensureDeviceLocked ecoflowSN productName model now s;
                  dev = (if created then dev0 else dev0\<lparr>mdUpdatedAt := now\<rparr>);
                  s2 = (if created then s1 else s1\<lparr>devicesByID := gm_put (mdID dev) dev (devicesByID s1)\<rparr>);
                  s3 = ensureUserDeviceRoleLocked userID (mdID dev) ''admin'' s2
              in (s3, Inr (userDeviceOf dev ''admin'')))))"

definition LinkDevice ::
    "string \<Rightarrow> string \<Rightarrow> string \<Rightarrow> string \<Rightarrow> MemoryStore \<Rightarrow> UserDevice outcome" where
  "LinkDevice userSubject targetUserSubject inDeviceID role s =
     (case gm_get (usersBySubject s) (TrimSpace userSubject) of
        None \<Rightarrow> (s, Inl ErrUserNotFound)
      | Some requesterID \<Rightarrow>
          (let targetSubject = (if TrimSpace targetUserSubject = [] then TrimSpace userSubject
                                else TrimSpace targetUserSubject)
           in case gm_get (usersBySubject s) targetSubject of
                None \<Rightarrow> (s, Inl ErrUserNotFound)
              | Some targetUserID \<Rightarrow>
                  (let deviceID = TrimSpace inDeviceID
                   in case gm_get (devicesByID s) deviceID of
                        None \<Rightarrow> (s, Inl ErrDeviceNotFound)
                      | Some dev \<Rightarrow>
                          if gm_get (userDevices s) requesterID = None \<or> roleOf s requesterID deviceID \<noteq> ''admin''
                          then (s, Inl ErrPermissionDenied)
                          else (ensureUserDeviceRoleLocked targetUserID deviceID role s,
                                Inr (userDeviceOf dev role)))))"

definition ListUserDevices :: "string \<Rightarrow> MemoryStore \<Rightarrow> UserDevice list" where
  "ListUserDevices userSubject s =
     (case gm_get (usersBySubject s) (TrimSpace userSubject) of
        None \<Rightarrow> []
      | Some userID \<Rightarrow>
          (let roles = (case gm_get (userDevices s) userID of None \<Rightarrow> [] | Some rs \<Rightarrow> rs);
               out = List.map_filter (\<lambda>(deviceID, role).
                 case gm_get (devicesByID s) deviceID of None \<Rightarrow> None | Some dev \<Rightarrow> Some (userDeviceOf dev role)) roles
           in sort_by (then_by udProductName (by_asc udProductName) (by_asc udEcoflowSN)) out))"

section \<open>Provider devices\<close>

definition PutProviderDevice :: "ProviderDevice \<Rightarrow> MemoryStore \<Rightarrow> MemoryStore" where
  "PutProviderDevice device s =
     (let (s1, d1) = (if TrimSpace (pdID device) = []
                      then (let (t, i) = nextID ''pdev'' s in (t, device\<lparr>pdID := i\<rparr>)) else (s, device));
          d2 = (if TrimSpace (pdProvider d1) = [] then d1\<lparr>pdProvider := ProviderEcoFlow\<rparr> else d1);
          d3 = d2\<lparr>pdProvider := NormalizeProvider (pdProvider d2),
                  pdProviderDeviceID := ToUpper (TrimSpace (pdProviderDeviceID d2)),
                  pdCapabilities := cloneAnyMap (pdCapabilities d2), pdMetadata := cloneAnyMap (pdMetadata d2)\<rparr>
      in s1\<lparr>providerDevices := gm_put (pdID d3) d3 (providerDevices s1)\<rparr>)"

text \<open>The search for the row of a provider's device, which gives a new identifier when there is none.\<close>

definition providerDeviceSlot :: "string \<Rightarrow> string \<Rightarrow> MemoryStore \<Rightarrow> MemoryStore \<times> string" where
  "providerDeviceSlot provider providerDeviceID s =
     (let existingID = (case gm_find (\<lambda>_ row. pdProvider row = provider \<and> pdProviderDeviceID row = providerDeviceID)
                          (providerDevices s) of None \<Rightarrow> [] | Some (i, _) \<Rightarrow> i)
      in if existingID = [] then nextID ''pdev'' s else (s, existingID))"

definition orElse :: "string \<Rightarrow> string \<Rightarrow> string" where
  "orElse a b = (if a = [] then b else a)"

definition refreshedMap :: "anymap \<Rightarrow> anymap \<Rightarrow> anymap" where
  "refreshedMap new old = (if new \<noteq> None then cloneAnyMap new else cloneAnyMap old)"

definition refreshDevice :: "string \<Rightarrow> string \<Rightarrow> string \<Rightarrow> time \<Rightarrow> string \<Rightarrow> MemoryStore \<Rightarrow> MemoryStore \<times> string" where
  "refreshDevice deviceID productName model now canonicalSN s =
     (case gm_get (devicesByID s) deviceID of
        None \<Rightarrow> (s, canonicalSN)
      | Some dev0 \<Rightarrow>
          (let dev1 = (if productName \<noteq> [] then dev0\<lparr>mdProductName := productName\<rparr> else dev0);
               dev2 = (if model \<noteq> [] then dev1\<lparr>mdModel := model\<rparr> else dev1);
               dev = dev2\<lparr>mdUpdatedAt := now\<rparr>
           in (s\<lparr>devicesByID := gm_put (mdID dev) dev (devicesByID s)\<rparr>, mdEcoflowSN dev)))"

record UpsertProviderDeviceInput =
  upsDeviceID :: string
  upsProvider :: string
  upsProviderDeviceID :: string
  upsCredentialID :: string
  upsProductName :: string
  upsModel :: string
  upsCapabilities :: anymap
  upsMetadata :: anymap
  upsIsActive :: bool
  upsIngestDesiredState :: string

definition UpsertProviderDevice :: "time \<Rightarrow> UpsertProviderDeviceInput \<Rightarrow> MemoryStore \<Rightarrow> ProviderDevice outcome" where
  "UpsertProviderDevice clock inp s =
     (let provider = NormalizeProvider (upsProvider inp);
          providerDeviceID = ToUpper (TrimSpace (upsProviderDeviceID inp));
          now = normalizeWriteTime clock;
          (s1, existingID) = providerDeviceSlot provider providerDeviceID s;
          existing = (case gm_get (providerDevices s1) existingID of None \<Rightarrow> zeroProviderDevice | Some p \<Rightarrow> p);
          deviceID = orElse (TrimSpace (upsDeviceID inp)) (TrimSpace (pdDeviceID existing));
          credentialID = orElse (TrimSpace (upsCredentialID inp)) (TrimSpace (pdCredentialID existing));
          productName = orElse (TrimSpace (upsProductName inp)) (TrimSpace (pdProductName existing));
          model = orElse (TrimSpace (upsModel inp)) (TrimSpace (pdModel existing));
          canonicalSN0 = orElse (TrimSpace (pdCanonicalSN existing)) providerDeviceID;
          (s2, canonicalSN) = refreshDevice deviceID productName model now canonicalSN0 s1;
          row = \<lparr>pdID = existingID, pdDeviceID = deviceID, pdProvider = provider,
                 pdProviderDeviceID = providerDeviceID, pdCredentialID = credentialID, pdCanonicalSN = canonicalSN,
                 pdProductName = productName, pdModel = model,
                 pdCapabilities = refreshedMap (upsCapabilities inp) (pdCapabilities existing),
                 pdMetadata = refreshedMap (upsMetadata inp) (pdMetadata existing),
                 pdIsActive = upsIsActive inp,
                 pdIngestDesiredState = ToLower (TrimSpace (upsIngestDesiredState inp))\<rparr>
      in (s2\<lparr>providerDevices := gm_put (pdID row) row (providerDevices s2)\<rparr>, Inr (cloneProviderDevice row)))"

record ImportProviderDeviceInput =
  ipUserSubject :: string
  ipProvider :: string
  ipProviderDeviceID :: string
  ipCredentialID :: string
  ipCanonicalSN :: string
  ipProductName :: string
  ipModel :: string
  ipCapabilities :: anymap
  ipMetadata :: anymap
  ipIsActive :: bool
  ipIngestDesiredState :: string

definition ImportProviderDevice ::
    "time \<Rightarrow> ImportProviderDeviceInput \<Rightarrow> MemoryStore \<Rightarrow> (ProviderDevice \<times> UserDevice) outcome" where
  "ImportProviderDevice clock inp s =
     (case gm_get (usersBySubject s) (TrimSpace (ipUserSubject inp)) of
        None \<Rightarrow> (s, Inl ErrUserNotFound)
      | Some userID \<Rightarrow>
          (let providerDeviceID = TrimSpace (ipProviderDeviceID inp);
               canonicalSN = orElse (TrimSpace (ipCanonicalSN inp)) providerDeviceID
           in if canonicalSN = [] then (s, Inl ErrDeviceNotFound)
              else
                (let now = normalizeWriteTime clock;
                     (s1, dev0, created) = ensureDeviceLocked canonicalSN (ipProductName inp) (ipModel inp) now s;
                     dev = (if created then dev0 else dev0\<lparr>mdUpdatedAt := now\<rparr>);
                     s2 = (if created then s1 else s1\<lparr>devicesByID := gm_put (mdID dev) dev (devicesByID s1)\<rparr>);
                     s3 = ensureUserDeviceRoleLocked userID (mdID dev) ''admin'' s2;
                     provider = NormalizeProvider (ipProvider inp);
                     (s4, existingID) = providerDeviceSlot provider providerDeviceID s3;
                     existing = (case gm_get (providerDevices s4) existingID of None \<Rightarrow> zeroProviderDevice | Some p \<Rightarrow> p);
                     row = \<lparr>pdID = existingID, pdDeviceID = mdID dev, pdProvider = provider,
                            pdProviderDeviceID = providerDeviceID, pdCredentialID = TrimSpace (ipCredentialID inp),
                            pdCanonicalSN = mdEcoflowSN dev,
                            pdProductName = orElse (TrimSpace (ipProductName inp)) (TrimSpace (pdProductName existing)),
                            pdModel = orElse (TrimSpace (ipModel inp)) (TrimSpace (pdModel existing)),
                            pdCapabilities = refreshedMap (ipCapabilities inp) (pdCapabilities existing),
                            pdMetadata = refreshedMap (ipMetadata inp) (pdMetadata existing),
                            pdIsActive = ipIsActive inp,
                            pdIngestDesiredState = ToLower (TrimSpace (ipIngestDesiredState inp))\<rparr>;
                     s5 = s4\<lparr>providerDevices := gm_put (pdID row) row (providerDevices s4)\<rparr>
                 in (s5, Inr (cloneProviderDevice row, userDeviceOf dev ''admin'')))))"

definition ListProviderDevices :: "string \<Rightarrow> bool \<Rightarrow> MemoryStore \<Rightarrow> ProviderDevice list" where
  "ListProviderDevices inProvider activeOnly s =
     (let provider = NormalizeProvider inProvider;
          out = map cloneProviderDevice
            (gm_rows (\<lambda>row. (provider = [] \<or> pdProvider row = provider) \<and> (activeOnly \<longrightarrow> pdIsActive row)) (providerDevices s))
      in sort_by (then_by pdProvider (by_asc pdProvider) (by_asc pdCanonicalSN)) out)"

definition deviceRank :: "ProviderDevice \<Rightarrow> int" where
  "deviceRank row =
     (if pdIsActive row then 2 else 0) + (if TrimSpace (ToLower (pdIngestDesiredState row)) = ''active'' then 1 else 0)"

text \<open>The loop carries the best row so far; before the first match there is none.\<close>

definition betterDevice :: "string \<Rightarrow> ProviderDevice option \<Rightarrow> ProviderDevice \<Rightarrow> ProviderDevice option" where
  "betterDevice deviceID best row =
     (if TrimSpace (pdDeviceID row) \<noteq> deviceID then best
      else
        (case best of
           None \<Rightarrow> Some (cloneProviderDevice row)
         | Some b \<Rightarrow>
             if deviceRank row > deviceRank b \<or>
                (deviceRank row = deviceRank b \<and> pdProviderDeviceID row < pdProviderDeviceID b)
             then Some (cloneProviderDevice row) else best))"

definition GetProviderDeviceByDeviceID :: "string \<Rightarrow> MemoryStore \<Rightarrow> store_error + ProviderDevice" where
  "GetProviderDeviceByDeviceID inDeviceID s =
     (let deviceID = TrimSpace inDeviceID
      in if deviceID = [] then Inl ErrDeviceNotFound
         else
           (case foldl (betterDevice deviceID) None (map snd (providerDevices s)) of
              None \<Rightarrow> Inl ErrDeviceNotFound
            | Some best \<Rightarrow> Inr best))"

definition assignmentOf :: "ProviderDevice \<Rightarrow> ProviderCredential \<Rightarrow> IngestAssignment" where
  "assignmentOf dev cred =
     \<lparr>iaProvider = pdProvider dev, iaProviderDeviceID = pdProviderDeviceID dev, iaDeviceID = pdDeviceID dev,
      iaCredentialID = pdCredentialID dev, iaProductName = pdProductName dev, iaModel = pdModel dev,
      iaAccessKey = pcAccessKey cred, iaSecretKey = pcSecretKey cred,
      iaCredentialConfig = cloneAnyMap (pcConfig cred), iaDeviceIsActive = pdIsActive dev,
      iaCredentialIsActive = pcIsActive cred, iaIngestDesiredState = pdIngestDesiredState dev\<rparr>"

definition wantedDevice :: "string \<Rightarrow> bool \<Rightarrow> ProviderDevice \<Rightarrow> bool" where
  "wantedDevice provider activeOnly dev \<longleftrightarrow>
     (provider = [] \<or> pdProvider dev = provider) \<and>
     (activeOnly \<longrightarrow> pdIsActive dev \<and> TrimSpace (ToLower (pdIngestDesiredState dev)) = ''active'')"

definition ListIngestAssignments :: "string \<Rightarrow> bool \<Rightarrow> MemoryStore \<Rightarrow> IngestAssignment list" where
  "ListIngestAssignments inProvider activeOnly s =
     (let provider = NormalizeProvider inProvider;
          credsByID = fold (\<lambda>(_, cred) m. gm_put (pcID cred) cred m) (credentials s) [];
          out = List.map_filter (\<lambda>dev. map_option (assignmentOf dev) (gm_get credsByID (pdCredentialID dev)))
            (gm_rows (wantedDevice provider activeOnly) (providerDevices s))
      in sort_by (then_by iaProvider (by_asc iaProvider) (by_asc iaProviderDeviceID)) out)"

definition memoryDeviceMatchesProviderLocked :: "string \<Rightarrow> string \<Rightarrow> MemoryStore \<Rightarrow> bool" where
  "memoryDeviceMatchesProviderLocked deviceID provider s \<longleftrightarrow>
     gm_find (\<lambda>_ row. pdDeviceID row = deviceID \<and> pdProvider row = provider) (providerDevices s) \<noteq> None"

section \<open>Preservation\<close>

lemma canonical_sn_upper [simp]: "canonical_sn (ToUpper (TrimSpace s)) \<longleftrightarrow> TrimSpace s \<noteq> []"
  by (simp add: canonical_sn_def)

lemma devices_inv_touch:
  assumes inv: "devices_inv s" and d: "gm_get (devicesByID s) did = Some d"
    and d': "mdID d' = did" "mdEcoflowSN d' = mdEcoflowSN d"
  shows "devices_inv (s\<lparr>devicesByID := gm_put did d' (devicesByID s)\<rparr>)" (is "devices_inv ?s")
    and "grows s (s\<lparr>devicesByID := gm_put did d' (devicesByID s)\<rparr>)"
proof -
  have sn: "device_sn ?s = device_sn s" using d d'(2) by (auto simp: device_sn_def)
  show g: "grows s ?s" by (rule grows_device_put) (simp add: device_sn_def d d'(2))
  have rows: "gm_all (device_row s) (devicesByID s)" using inv by (simp add: devices_inv_def)
  have "device_row s did d'" using gm_allD [OF rows d] d' by (simp add: device_row_def)
  with rows have "gm_all (device_row s) (gm_put did d' (devicesByID s))" by (rule gm_all_put)
  then have "gm_all (device_row ?s) (devicesByID ?s)" by (simp add: device_row_def [abs_def])
  with sn inv show "devices_inv ?s" by (simp add: devices_inv_def)
qed

lemma devices_inv_add:
  assumes inv: "devices_inv s" and room: "unat (idCounter s) + 1 < 2 ^ 64"
    and new: "gm_get (deviceBySN s) sn = None" "canonical_sn sn"
    and d: "mdID d = seqUUID (idCounter s + 1)" "mdEcoflowSN d = sn"
  defines "s' \<equiv> s\<lparr>idCounter := idCounter s + 1, deviceBySN := gm_put sn (mdID d) (deviceBySN s),
     devicesByID := gm_put (mdID d) d (devicesByID s)\<rparr>"
  shows "devices_inv s'" and "grows s s'"
proof -
  have rows: "gm_all (device_row s) (devicesByID s)" and idx: "\<And>sn did. gm_get (deviceBySN s) sn = Some did \<longleftrightarrow> device_sn s did = Some sn"
    using inv by (simp_all add: devices_inv_def)
  have fresh: "gm_get (devicesByID s) (mdID d) = None"
    using seqUUID_fresh [OF room] d(1) gm_allD [OF rows, of "mdID d"]
    by (cases "gm_get (devicesByID s) (mdID d)") (auto simp: device_row_def)
  show g: "grows s s'"
    using unat_next [OF room] fresh by (auto simp: s'_def grows_def known_user_def device_sn_def collector_user_def)
  have "gm_all (device_row s') (devicesByID s)" by (rule gm_all_mono [OF rows]) (rule device_row_grows [OF _ g])
  moreover have "device_row s' (mdID d) d"
    using seqUUID_issued [OF room] new(2) d by (simp add: device_row_def s'_def)
  ultimately have "gm_all (device_row s') (devicesByID s')" by (simp add: s'_def gm_all_put)
  moreover have "device_sn s' = (device_sn s)(mdID d \<mapsto> sn)" using d(2) by (auto simp: s'_def device_sn_def)
  moreover have "device_sn s (mdID d) = None" "\<And>did. device_sn s did \<noteq> Some sn"
    using fresh idx [of sn] new(1) by (auto simp: device_sn_def)
  then have "gm_get (deviceBySN s') x = Some y \<longleftrightarrow> ((device_sn s)(mdID d \<mapsto> sn)) y = Some x" for x y
    using idx [of x y] by (auto simp: s'_def)
  ultimately show "devices_inv s'" using inv by (simp add: devices_inv_def s'_def)
qed

definition only_devices :: "MemoryStore \<Rightarrow> MemoryStore \<Rightarrow> bool" where
  "only_devices s s' \<longleftrightarrow>
     grows s s' \<and> usersBySubject s' = usersBySubject s \<and> usersByID s' = usersByID s \<and>
     credentials s' = credentials s \<and> edgeCollectors s' = edgeCollectors s \<and> edgeSources s' = edgeSources s \<and>
     providerDevices s' = providerDevices s \<and> userDevices s' = userDevices s"

lemma only_devices_store_inv: "only_devices s s' \<Longrightarrow> devices_inv s' \<Longrightarrow> store_inv sha s \<Longrightarrow> store_inv sha s'"
  by (auto simp: store_inv_def only_devices_def intro: inv_frames)

lemma ensureDeviceLocked_spec:
  assumes inv: "devices_inv s" and room: "unat (idCounter s) + 1 < 2 ^ 64" and sn: "TrimSpace sn \<noteq> []"
    and run: "ensureDeviceLocked sn pn mo now s = (s1, dev, created)"
  shows "devices_inv s1 \<and> only_devices s s1 \<and> gm_get (devicesByID s1) (mdID dev) = Some dev \<and>
    mdEcoflowSN dev = ToUpper (TrimSpace sn) \<and> unat (idCounter s1) \<le> unat (idCounter s) + 1 \<and>
    (created \<longleftrightarrow> gm_get (deviceBySN s) (ToUpper (TrimSpace sn)) = None) \<and>
    (\<not> created \<longrightarrow> gm_get (deviceBySN s) (ToUpper (TrimSpace sn)) = Some (mdID dev))"
proof (cases "gm_get (deviceBySN s) (ToUpper (TrimSpace sn))")
  case None
  let ?i = "seqUUID (idCounter s + 1)"
  let ?d = "\<lparr>mdID = ?i, mdEcoflowSN = ToUpper (TrimSpace sn), mdProductName = TrimSpace pn, mdModel = TrimSpace mo,
      mdCreatedAt = now, mdUpdatedAt = now\<rparr>"
  from run None sn have r: "s1 = s\<lparr>idCounter := idCounter s + 1, deviceBySN := gm_put (ToUpper (TrimSpace sn)) ?i (deviceBySN s),
      devicesByID := gm_put ?i ?d (devicesByID s)\<rparr>" "dev = ?d" "created"
    by (auto simp: ensureDeviceLocked_def Let_def nextUUID_def)
  note add = devices_inv_add [OF inv room None, of ?d]
  from add sn unat_next [OF room] None show ?thesis by (simp add: r only_devices_def)
next
  case (Some did)
  with inv obtain d where d: "gm_get (devicesByID s) did = Some d" "mdEcoflowSN d = ToUpper (TrimSpace sn)"
    by (auto simp: devices_inv_def device_sn_def)
  with inv have id: "mdID d = did" by (auto simp: devices_inv_def device_row_def dest: gm_allD)
  from run Some sn d(1) id have r: "s1 = s\<lparr>devicesByID := gm_put did dev (devicesByID s)\<rparr>" "mdID dev = did"
    "mdEcoflowSN dev = mdEcoflowSN d" "\<not> created"
    by (auto simp: ensureDeviceLocked_def Let_def)
  from devices_inv_touch [OF inv d(1) r(2,3)] Some d(2) r show ?thesis by (simp add: only_devices_def)
qed

text \<open>The second write of the same device, which \<open>CreateDevice\<close> and \<open>ImportProviderDevice\<close> make.\<close>

lemma touch_store_inv:
  assumes inv: "store_inv sha s" and d: "gm_get (devicesByID s) did = Some d"
    and d': "mdID d' = did" "mdEcoflowSN d' = mdEcoflowSN d"
  shows "store_inv sha (s\<lparr>devicesByID := gm_put did d' (devicesByID s)\<rparr>)"
proof (rule only_devices_store_inv [OF _ _ inv])
  note t = devices_inv_touch [OF store_invD(3) [OF inv] d d']
  show "devices_inv (s\<lparr>devicesByID := gm_put did d' (devicesByID s)\<rparr>)" by (rule t(1))
  show "only_devices s (s\<lparr>devicesByID := gm_put did d' (devicesByID s)\<rparr>)" using t(2) by (simp add: only_devices_def)
qed

lemma ensureUserDeviceRoleLocked_inv:
  assumes inv: "store_inv sha s" and u: "known_user s uid" and d: "gm_get (devicesByID s) did \<noteq> None"
  shows "store_inv sha (ensureUserDeviceRoleLocked uid did role s)"
proof -
  let ?s = "ensureUserDeviceRoleLocked uid did role s"
  have g: "grows s ?s" by (simp add: ensureUserDeviceRoleLocked_def Let_def)
  have rows: "gm_all (role_row s) (userDevices s)" "gm_wf (userDevices s)"
    using store_invD(4) [OF inv] by (simp_all add: roles_inv_def)
  define roles where "roles = (case gm_get (userDevices s) uid of None \<Rightarrow> [] | Some rs \<Rightarrow> rs)"
  have "gm_wf roles \<and> gm_all (\<lambda>did r. device_sn s did \<noteq> None) roles"
    using gm_allD [OF rows(1), of uid] by (auto simp: roles_def role_row_def split: option.splits)
  then have "role_row s uid (gm_put did (TrimSpace role) roles)"
    using u d by (auto simp: role_row_def device_sn_def intro: gm_all_put)
  with rows(1) have "gm_all (role_row s) (gm_put uid (gm_put did (TrimSpace role) roles) (userDevices s))"
    by (rule gm_all_put)
  moreover have "userDevices ?s = gm_put uid (gm_put did (TrimSpace role) roles) (userDevices s)"
    by (simp add: ensureUserDeviceRoleLocked_def roles_def)
  ultimately have all: "gm_all (role_row s) (userDevices ?s)" by simp
  have "gm_all (role_row ?s) (userDevices ?s)"
    by (rule gm_all_mono [OF all]) (rule role_row_grows [OF _ g])
  then have "roles_inv ?s" using rows(2) by (simp add: roles_inv_def ensureUserDeviceRoleLocked_def Let_def)
  then show ?thesis using inv g
    by (auto simp: store_inv_def ensureUserDeviceRoleLocked_def Let_def intro: inv_frames)
qed

lemma known_subject: "users_inv s \<Longrightarrow> gm_get (usersBySubject s) sub = Some uid \<Longrightarrow> known_user s uid"
  by (erule (1) subject_userD)

lemma role_users [simp]:
  "usersByID (ensureUserDeviceRoleLocked u d r s) = usersByID s"
  "usersBySubject (ensureUserDeviceRoleLocked u d r s) = usersBySubject s"
  "devicesByID (ensureUserDeviceRoleLocked u d r s) = devicesByID s"
  "providerDevices (ensureUserDeviceRoleLocked u d r s) = providerDevices s"
  "idCounter (ensureUserDeviceRoleLocked u d r s) = idCounter s"
  by (simp_all add: ensureUserDeviceRoleLocked_def Let_def)

text \<open>What creation and import do to a device: the device of the serial number exists and its admin is the user.\<close>

definition claimDevice :: "time \<Rightarrow> string \<Rightarrow> string \<Rightarrow> string \<Rightarrow> string \<Rightarrow> MemoryStore \<Rightarrow> MemoryStore \<times> memoryDevice" where
  "claimDevice now userID sn productName model s =
     (let (s1, dev0, created) = ensureDeviceLocked sn productName model now s;
          dev = (if created then dev0 else dev0\<lparr>mdUpdatedAt := now\<rparr>);
          s2 = (if created then s1 else s1\<lparr>devicesByID := gm_put (mdID dev) dev (devicesByID s1)\<rparr>)
      in (ensureUserDeviceRoleLocked userID (mdID dev) ''admin'' s2, dev))"

lemma claimDevice_spec:
  assumes inv: "store_inv sha s" and room: "unat (idCounter s) + 1 < 2 ^ 64" and sn: "TrimSpace sn \<noteq> []"
    and u: "known_user s uid" and run: "claimDevice now uid sn pn mo s = (s', dev)"
  shows "store_inv sha s' \<and> gm_get (devicesByID s') (mdID dev) = Some dev \<and> mdEcoflowSN dev = ToUpper (TrimSpace sn) \<and>
    unat (idCounter s') \<le> unat (idCounter s) + 1 \<and> providerDevices s' = providerDevices s"
proof -
  obtain s1 dev0 created where e: "ensureDeviceLocked sn pn mo now s = (s1, dev0, created)" by (metis prod_cases3)
  note spec = ensureDeviceLocked_spec [OF store_invD(3) [OF inv] room sn e]
  have inv1: "store_inv sha s1" using spec inv by (blast intro: only_devices_store_inv)
  have u1: "known_user s1 uid" using u spec by (simp add: known_user_def only_devices_def)
  show ?thesis
  proof (cases created)
    case True
    with run e have r: "s' = ensureUserDeviceRoleLocked uid (mdID dev0) ''admin'' s1" "dev = dev0"
      by (auto simp: claimDevice_def Let_def)
    from ensureUserDeviceRoleLocked_inv [OF inv1 u1, of "mdID dev0"] spec show ?thesis
      by (simp add: r only_devices_def)
  next
    case False
    let ?d = "dev0\<lparr>mdUpdatedAt := now\<rparr>" and ?s2 = "s1\<lparr>devicesByID := gm_put (mdID dev0) (dev0\<lparr>mdUpdatedAt := now\<rparr>) (devicesByID s1)\<rparr>"
    from False run e have r: "s' = ensureUserDeviceRoleLocked uid (mdID dev0) ''admin'' ?s2" "dev = ?d"
      by (auto simp: claimDevice_def Let_def)
    have inv2: "store_inv sha ?s2" by (rule touch_store_inv [OF inv1]) (use spec in auto)
    have "known_user ?s2 uid" using u1 by (simp add: known_user_def)
    from ensureUserDeviceRoleLocked_inv [OF inv2 this, of "mdID dev0"] spec show ?thesis
      by (simp add: r only_devices_def)
  qed
qed

lemma CreateDevice_claim:
  "CreateDevice clock sub sn pn mo s =
     (if TrimSpace sn = [] then (s, Inl ErrDeviceNotFound)
      else case gm_get (usersBySubject s) (TrimSpace sub) of
          None \<Rightarrow> (s, Inl ErrUserNotFound)
        | Some uid \<Rightarrow> (case claimDevice (normalizeWriteTime clock) uid sn pn mo s of
            (s', dev) \<Rightarrow> (s', Inr (userDeviceOf dev ''admin''))))"
  by (simp add: CreateDevice_def claimDevice_def Let_def split: option.splits prod.splits)

lemma CreateDevice_inv:
  assumes inv: "store_inv sha s" and room: "id_room s"
  shows "store_inv sha (fst (CreateDevice clock sub sn pn mo s))"
proof (cases "TrimSpace sn = [] \<or> gm_get (usersBySubject s) (TrimSpace sub) = None")
  case True
  with inv show ?thesis by (auto simp: CreateDevice_def)
next
  case False
  then obtain uid where uid: "gm_get (usersBySubject s) (TrimSpace sub) = Some uid" by auto
  obtain s' dev where c: "claimDevice (normalizeWriteTime clock) uid sn pn mo s = (s', dev)" by fastforce
  from claimDevice_spec [OF inv _ _ known_subject [OF store_invD(1) [OF inv] uid] c] room False uid c
  show ?thesis by (simp add: CreateDevice_claim id_room_def)
qed

lemma LinkDevice_inv:
  assumes inv: "store_inv sha s"
  shows "store_inv sha (fst (LinkDevice sub target did role s))"
proof (cases "snd (LinkDevice sub target did role s)")
  case (Inl e)
  with inv show ?thesis by (auto simp: LinkDevice_def Let_def split: option.splits if_splits)
next
  case (Inr d)
  then obtain uid where "gm_get (usersBySubject s) (if TrimSpace target = [] then TrimSpace sub else TrimSpace target) = Some uid"
    "gm_get (devicesByID s) (TrimSpace did) \<noteq> None"
    "fst (LinkDevice sub target did role s) = ensureUserDeviceRoleLocked uid (TrimSpace did) role s"
    by (auto simp: LinkDevice_def Let_def split: option.splits if_splits)
  with inv show ?thesis by (simp add: ensureUserDeviceRoleLocked_inv known_subject store_invD(1))
qed

text \<open>The slot of a provider's device: no other row is the same device.\<close>

lemma providerDeviceSlot_spec:
  assumes inv: "pdevs_inv s" and room: "unat (idCounter s) + 1 < 2 ^ 64"
    and run: "providerDeviceSlot prov pdid s = (s1, i)"
  shows "(s1 = s \<or> s1 = s\<lparr>idCounter := idCounter s + 1\<rparr>) \<and> issued_id ''pdev'' (idCounter s1) i \<and>
    (\<forall>j q. gm_get (providerDevices s) j = Some q \<longrightarrow> j \<noteq> i \<longrightarrow>
       \<not> (pdProvider q = prov \<and> pdProviderDeviceID q = pdid))"
proof (cases "gm_find (\<lambda>_ row. pdProvider row = prov \<and> pdProviderDeviceID row = pdid) (providerDevices s)")
  case None
  with run have "s1 = s\<lparr>idCounter := idCounter s + 1\<rparr>" "i = seqID ''pdev'' (idCounter s + 1)"
    by (auto simp: providerDeviceSlot_def nextID_def Let_def)
  with seqID_issued [OF room] gm_find_NoneD [OF None] show ?thesis by auto
next
  case (Some jq)
  obtain j q where jq: "jq = (j, q)" by (cases jq)
  have wf: "gm_wf (providerDevices s)" and rows: "gm_all (pdev_row s) (providerDevices s)"
    and pairs: "gm_pairs pdev_pair (providerDevices s)"
    using inv by (simp_all add: pdevs_inv_def)
  note q = gm_find_SomeD [OF Some [unfolded jq] wf]
  have iss: "issued_id ''pdev'' (idCounter s) j" using gm_allD [OF rows q(1)] by (simp add: pdev_row_def)
  with run Some jq have "s1 = s" "i = j"
    by (auto simp: providerDeviceSlot_def Let_def dest: issued_nonempty)
  with iss q gm_pairsD [OF pairs _ q(1)] show ?thesis by (auto simp: pdev_pair_def)
qed

lemma pdevs_inv_put:
  assumes inv: "pdevs_inv s" and row: "pdev_row s i p"
    and uniq: "\<And>j q. gm_get (providerDevices s) j = Some q \<Longrightarrow> j \<noteq> i \<Longrightarrow>
       \<not> (pdProvider q = pdProvider p \<and> pdProviderDeviceID q = pdProviderDeviceID p)"
  shows "pdevs_inv (s\<lparr>providerDevices := gm_put i p (providerDevices s)\<rparr>)"
proof -
  have "gm_all (pdev_row s) (gm_put i p (providerDevices s))"
    by (rule gm_all_put) (use inv row in \<open>simp_all add: pdevs_inv_def\<close>)
  moreover have "gm_pairs pdev_pair (gm_put i p (providerDevices s))"
  proof (rule gm_pairs_put)
    show "gm_pairs pdev_pair (providerDevices s)" using inv by (simp add: pdevs_inv_def)
    show "pdev_pair p q \<and> pdev_pair q p" if "gm_get (providerDevices s) j = Some q" "j \<noteq> i" for j q
      using uniq [OF that] by (auto simp: pdev_pair_def)
  qed
  ultimately show ?thesis using inv by (simp add: pdevs_inv_def pdev_row_def [abs_def])
qed

lemma put_pdev_store_inv:
  assumes inv: "store_inv sha s" and "pdev_row s i p"
    and "\<And>j q. gm_get (providerDevices s) j = Some q \<Longrightarrow> j \<noteq> i \<Longrightarrow>
       \<not> (pdProvider q = pdProvider p \<and> pdProviderDeviceID q = pdProviderDeviceID p)"
  shows "store_inv sha (s\<lparr>providerDevices := gm_put i p (providerDevices s)\<rparr>)"
proof -
  let ?s = "s\<lparr>providerDevices := gm_put i p (providerDevices s)\<rparr>"
  have "pdevs_inv ?s" using store_invD(5) [OF inv] assms(2,3) by (rule pdevs_inv_put)
  moreover have "grows s ?s" by simp
  ultimately show ?thesis using inv by (auto simp: store_inv_def intro: inv_frames)
qed

lemma slot_store_inv:
  assumes inv: "store_inv sha s" and room: "unat (idCounter s) + 1 < 2 ^ 64"
    and run: "providerDeviceSlot prov pdid s = (s1, i)"
  shows "store_inv sha s1" "providerDevices s1 = providerDevices s" "devicesByID s1 = devicesByID s"
proof -
  note spec = providerDeviceSlot_spec [OF store_invD(5) [OF inv] room run]
  have "grows s s1" using spec grows_counter [OF room] by auto
  then show "store_inv sha s1" using inv spec by (auto simp: store_inv_def intro: inv_frames)
  show "providerDevices s1 = providerDevices s" "devicesByID s1 = devicesByID s" using spec by auto
qed

lemma refreshDevice_store_inv:
  assumes inv: "store_inv sha s" and run: "refreshDevice did pn mo now csn s = (s', sn)"
  shows "store_inv sha s' \<and> providerDevices s' = providerDevices s \<and> idCounter s' = idCounter s"
proof (cases "gm_get (devicesByID s) did")
  case None
  with run inv show ?thesis by (simp add: refreshDevice_def)
next
  case (Some d)
  have "mdID d = did" using store_invD(3) [OF inv] Some by (auto simp: devices_inv_def device_row_def dest: gm_allD)
  with Some run obtain d' where "s' = s\<lparr>devicesByID := gm_put did d' (devicesByID s)\<rparr>" "mdID d' = did"
    "mdEcoflowSN d' = mdEcoflowSN d"
    by (cases "pn = []"; cases "mo = []") (auto simp: refreshDevice_def Let_def)
  with touch_store_inv [OF inv Some] show ?thesis by simp
qed

lemma UpsertProviderDevice_inv:
  assumes inv: "store_inv sha s" and room: "id_room s"
  shows "store_inv sha (fst (UpsertProviderDevice clock inp s))"
proof -
  let ?prov = "NormalizeProvider (upsProvider inp)" and ?pdid = "ToUpper (TrimSpace (upsProviderDeviceID inp))"
  obtain s1 i where slot: "providerDeviceSlot ?prov ?pdid s = (s1, i)" by fastforce
  have r1: "unat (idCounter s) + 1 < 2 ^ 64" using room by (simp add: id_room_def)
  note spec = providerDeviceSlot_spec [OF store_invD(5) [OF inv] r1 slot] and inv1 = slot_store_inv [OF inv r1 slot]
  define ex where "ex = (case gm_get (providerDevices s1) i of None \<Rightarrow> zeroProviderDevice | Some p \<Rightarrow> p)"
  define did where "did = orElse (TrimSpace (upsDeviceID inp)) (TrimSpace (pdDeviceID ex))"
  define pn where "pn = orElse (TrimSpace (upsProductName inp)) (TrimSpace (pdProductName ex))"
  define mo where "mo = orElse (TrimSpace (upsModel inp)) (TrimSpace (pdModel ex))"
  define csn where "csn = orElse (TrimSpace (pdCanonicalSN ex)) ?pdid"
  obtain s2 sn where ref: "refreshDevice did pn mo (normalizeWriteTime clock) csn s1 = (s2, sn)" by fastforce
  obtain row where u: "fst (UpsertProviderDevice clock inp s) = s2\<lparr>providerDevices := gm_put i row (providerDevices s2)\<rparr>"
    and row: "pdID row = i" "pdProvider row = ?prov" "pdProviderDeviceID row = ?pdid"
    using ref
    by (simp add: UpsertProviderDevice_def Let_def slot ex_def [symmetric] did_def [symmetric] pn_def [symmetric]
        mo_def [symmetric] csn_def [symmetric])
  have inv2: "store_inv sha s2 \<and> providerDevices s2 = providerDevices s \<and> idCounter s2 = idCounter s1"
    using refreshDevice_store_inv [OF inv1(1) ref] inv1(2) by simp
  have "pdev_row s2 i row" using spec row inv2 by (simp add: pdev_row_def trimmed_ToUpper)
  then have "store_inv sha (s2\<lparr>providerDevices := gm_put i row (providerDevices s2)\<rparr>)"
    using inv2 spec row by (intro put_pdev_store_inv) auto
  then show ?thesis by (simp add: u)
qed

lemma ImportProviderDevice_inv:
  assumes inv: "store_inv sha s" and room: "id_room s"
  shows "store_inv sha (fst (ImportProviderDevice clock inp s))"
proof (cases "gm_get (usersBySubject s) (TrimSpace (ipUserSubject inp)) = None \<or>
    orElse (TrimSpace (ipCanonicalSN inp)) (TrimSpace (ipProviderDeviceID inp)) = []")
  case True
  with inv show ?thesis by (auto simp: ImportProviderDevice_def Let_def split: option.splits)
next
  case False
  let ?sn = "orElse (TrimSpace (ipCanonicalSN inp)) (TrimSpace (ipProviderDeviceID inp))"
  let ?prov = "NormalizeProvider (ipProvider inp)" and ?pdid = "TrimSpace (ipProviderDeviceID inp)"
  from False obtain uid where uid: "gm_get (usersBySubject s) (TrimSpace (ipUserSubject inp)) = Some uid" by auto
  obtain s3 dev where c: "claimDevice (normalizeWriteTime clock) uid ?sn (ipProductName inp) (ipModel inp) s = (s3, dev)"
    by fastforce
  have sn: "TrimSpace ?sn \<noteq> []" using False by (auto simp: orElse_def)
  note claim = claimDevice_spec [OF inv _ sn known_subject [OF store_invD(1) [OF inv] uid] c]
  have inv3: "store_inv sha s3" and r3: "unat (idCounter s3) + 1 < 2 ^ 64" using claim room by (auto simp: id_room_def)
  obtain s4 i where slot: "providerDeviceSlot ?prov ?pdid s3 = (s4, i)" by fastforce
  note spec = providerDeviceSlot_spec [OF store_invD(5) [OF inv3] r3 slot] and inv4 = slot_store_inv [OF inv3 r3 slot]
  obtain row where u: "fst (ImportProviderDevice clock inp s) = s4\<lparr>providerDevices := gm_put i row (providerDevices s4)\<rparr>"
    and row: "pdID row = i" "pdProvider row = ?prov" "pdProviderDeviceID row = ?pdid"
    using uid False c slot by (auto simp: ImportProviderDevice_def claimDevice_def Let_def split: prod.splits)
  have "store_inv sha (s4\<lparr>providerDevices := gm_put i row (providerDevices s4)\<rparr>)"
    using inv4 spec row by (intro put_pdev_store_inv) (auto simp: pdev_row_def)
  then show ?thesis by (simp add: u)
qed

section \<open>The assignments\<close>

lemma creds_by_id:
  assumes "creds_inv sha s"
  shows "gm_get (fold (\<lambda>(_, cred) m. gm_put (pcID cred) cred m) (credentials s) []) = gm_get (credentials s)"
proof -
  have wf: "gm_wf (credentials s)" and rows: "gm_all (cred_row s) (credentials s)" using assms by (auto simp: creds_inv_def)
  have "pcID c = i" if "(i, c) \<in> set (credentials s)" for i c
    using gm_allD [OF rows, of i c] that wf by (simp add: gm_mem_iff cred_row_def)
  then have "fold (\<lambda>(_, cred) m. gm_put (pcID cred) cred m) (credentials s) [] = fold (\<lambda>(i, cred) m. gm_put i cred m) (credentials s) []"
    by (intro fold_cong) auto
  then show ?thesis by (auto simp: gm_get_fold_put [OF wf] split: option.splits)
qed

lemma ListIngestAssignments_mem:
  assumes "store_inv sha s"
  shows "a \<in> set (ListIngestAssignments prov act s) \<longleftrightarrow>
    (\<exists>i dev cred. gm_get (providerDevices s) i = Some dev \<and> wantedDevice (NormalizeProvider prov) act dev \<and>
       gm_get (credentials s) (pdCredentialID dev) = Some cred \<and> a = assignmentOf dev cred)"
proof -
  have wf: "gm_wf (providerDevices s)" using store_invD(5) [OF assms] by (simp add: pdevs_inv_def)
  show ?thesis
    by (auto simp: ListIngestAssignments_def Let_def creds_by_id [OF store_invD(2) [OF assms]] mem_map_filter
        set_gm_rows [OF wf])
qed

lemma ListIngestAssignments_sorted:
  "sorted_wrt (\<lambda>x y. (iaProvider x, iaProviderDeviceID x) = (iaProvider y, iaProviderDeviceID y) \<or>
      iaProvider x < iaProvider y \<or> (iaProvider x = iaProvider y \<and> iaProviderDeviceID x < iaProviderDeviceID y))
     (ListIngestAssignments prov act s)"
proof -
  have "sorted_wrt (\<lambda>a b. \<not> then_by iaProvider (by_asc iaProvider) (by_asc iaProviderDeviceID) b a)
      (ListIngestAssignments prov act s)"
    by (simp add: ListIngestAssignments_def Let_def asc_asc.sorted_sort_by)
  then show ?thesis
    by (rule sorted_wrt_mono_rel [rotated]) (auto simp: then_by_def by_asc_def not_less split: if_splits)
qed

end
