(* ===== verification/Cp_Edge.thy ===== *)
theory Cp_Edge
  imports Cp_Devices
begin

text \<open>
  Edge collectors and the device sources they report: setup tokens, enrolment, authentication,
  heartbeats, the discovery of sources and their approval by the owner.
\<close>

section \<open>Collectors\<close>

definition CreateEdgeCollector ::
    "time \<Rightarrow> string \<Rightarrow> string \<Rightarrow> string \<Rightarrow> MemoryStore \<Rightarrow> EdgeCollector outcome" where
  "CreateEdgeCollector clock userSubject inDisplayName inSetupTokenHash s =
     (case gm_get (usersBySubject s) (TrimSpace userSubject) of
        None \<Rightarrow> (s, Inl ErrUserNotFound)
      | Some userID \<Rightarrow>
          if TrimSpace inSetupTokenHash = [] then (s, Inl ErrEdgeCollectorNotFound)
          else
            (let now = normalizeWriteTime clock;
                 displayName = orElse (TrimSpace inDisplayName) ''Pulse Edge Collector'';
                 (s1, i) = nextUUID s;
                 row = \<lparr>ecID = i, ecUserID = userID, ecDisplayName = displayName,
                        ecSetupTokenHash = TrimSpace inSetupTokenHash, ecCollectorSecretHash = [],
                        ecIsActive = False, ecCollectorVersion = [], ecHostname = [], ecLastHeartbeatAt = 0,
                        ecCreatedAt = now, ecUpdatedAt = now\<rparr>
             in (s1\<lparr>edgeCollectors := gm_put (ecID row) row (edgeCollectors s1)\<rparr>, Inr row)))"

definition ListEdgeCollectors :: "string \<Rightarrow> MemoryStore \<Rightarrow> EdgeCollector list" where
  "ListEdgeCollectors userSubject s =
     (case gm_get (usersBySubject s) (TrimSpace userSubject) of
        None \<Rightarrow> []
      | Some userID \<Rightarrow>
          sort_by (then_by ecCreatedAt (by_desc ecCreatedAt) (by_desc ecID))
            (gm_rows (\<lambda>row. ecUserID row = userID) (edgeCollectors s)))"

definition RevokeEdgeCollectorSetupToken ::
    "time \<Rightarrow> string \<Rightarrow> string \<Rightarrow> MemoryStore \<Rightarrow> EdgeCollector outcome" where
  "RevokeEdgeCollectorSetupToken clock userSubject inCollectorID s =
     (case gm_get (usersBySubject s) (TrimSpace userSubject) of
        None \<Rightarrow> (s, Inl ErrUserNotFound)
      | Some userID \<Rightarrow>
          (let collectorID = TrimSpace inCollectorID
           in case gm_get (edgeCollectors s) collectorID of
                None \<Rightarrow> (s, Inl ErrEdgeCollectorNotFound)
              | Some row \<Rightarrow>
                  if ecUserID row \<noteq> userID then (s, Inl ErrEdgeCollectorNotFound)
                  else if \<not> ecIsActive row \<and> TrimSpace (ecSetupTokenHash row) \<noteq> [] then
                    (let row' = row\<lparr>ecSetupTokenHash := [], ecUpdatedAt := normalizeWriteTime clock\<rparr>
                     in (s\<lparr>edgeCollectors := gm_put collectorID row' (edgeCollectors s)\<rparr>, Inr row'))
                  else (s, Inr row)))"

text \<open>
  The enrolment loop stops at the first collector with the token: it enrols it, or gives up when
  the collector is active already or its token has expired.
\<close>

definition EnrollEdgeCollector ::
    "time \<Rightarrow> string \<Rightarrow> string \<Rightarrow> string \<Rightarrow> string \<Rightarrow> MemoryStore \<Rightarrow> EdgeCollector outcome" where
  "EnrollEdgeCollector clock inSetupTokenHash inCollectorSecretHash collectorVersion hostname s =
     (let setupTokenHash = TrimSpace inSetupTokenHash; collectorSecretHash = TrimSpace inCollectorSecretHash
      in if setupTokenHash = [] \<or> collectorSecretHash = [] then (s, Inl ErrEdgeCollectorNotFound)
         else
           (let now = normalizeWriteTime clock
            in case gm_find (\<lambda>_ row. ecSetupTokenHash row = setupTokenHash) (edgeCollectors s) of
                 None \<Rightarrow> (s, Inl ErrEdgeCollectorNotFound)
               | Some (i, row) \<Rightarrow>
                   if ecIsActive row \<or> ecCreatedAt row < edgeCollectorSetupTokenCutoff now
                   then (s, Inl ErrEdgeCollectorNotFound)
                   else
                     (let row' = row\<lparr>ecSetupTokenHash := [], ecCollectorSecretHash := collectorSecretHash,
                                     ecCollectorVersion := TrimSpace collectorVersion, ecHostname := TrimSpace hostname,
                                     ecIsActive := True, ecLastHeartbeatAt := now, ecUpdatedAt := now\<rparr>
                      in (s\<lparr>edgeCollectors := gm_put i row' (edgeCollectors s)\<rparr>, Inr row'))))"

definition GetEdgeCollectorBySetupTokenHash :: "time \<Rightarrow> string \<Rightarrow> MemoryStore \<Rightarrow> store_error + EdgeCollector" where
  "GetEdgeCollectorBySetupTokenHash clock inSetupTokenHash s =
     (let setupTokenHash = TrimSpace inSetupTokenHash; now = normalizeWriteTime clock
      in if setupTokenHash = [] then Inl ErrEdgeCollectorNotFound
         else
           (case gm_find (\<lambda>_ row. ecSetupTokenHash row = setupTokenHash \<and> \<not> ecIsActive row \<and>
                     \<not> ecCreatedAt row < edgeCollectorSetupTokenCutoff now) (edgeCollectors s) of
              None \<Rightarrow> Inl ErrEdgeCollectorNotFound
            | Some (_, row) \<Rightarrow> Inr row))"

definition AuthenticateEdgeCollector :: "string \<Rightarrow> MemoryStore \<Rightarrow> store_error + EdgeCollector" where
  "AuthenticateEdgeCollector inCollectorSecretHash s =
     (let collectorSecretHash = TrimSpace inCollectorSecretHash
      in if collectorSecretHash = [] then Inl ErrEdgeCollectorNotFound
         else
           (case gm_find (\<lambda>_ row. ecCollectorSecretHash row = collectorSecretHash \<and> ecIsActive row) (edgeCollectors s) of
              None \<Rightarrow> Inl ErrEdgeCollectorNotFound
            | Some (_, row) \<Rightarrow> Inr row))"

definition UpdateEdgeCollectorHeartbeat ::
    "time \<Rightarrow> string \<Rightarrow> string \<Rightarrow> string \<Rightarrow> MemoryStore \<Rightarrow> EdgeCollector outcome" where
  "UpdateEdgeCollectorHeartbeat clock collectorID collectorVersion hostname s =
     (case gm_get (edgeCollectors s) (TrimSpace collectorID) of
        None \<Rightarrow> (s, Inl ErrEdgeCollectorNotFound)
      | Some row \<Rightarrow>
          if \<not> ecIsActive row then (s, Inl ErrEdgeCollectorNotFound)
          else
            (let now = normalizeWriteTime clock;
                 row' = row\<lparr>ecLastHeartbeatAt := now, ecUpdatedAt := now,
                            ecCollectorVersion := orElse (TrimSpace collectorVersion) (ecCollectorVersion row),
                            ecHostname := orElse (TrimSpace hostname) (ecHostname row)\<rparr>
             in (s\<lparr>edgeCollectors := gm_put (ecID row') row' (edgeCollectors s)\<rparr>, Inr row')))"

section \<open>Device sources\<close>

record UpsertEdgeDeviceSourceInput =
  ueCollectorID :: string
  ueProvider :: string
  ueTransport :: string
  ueProviderDeviceID :: string
  ueDisplayName :: string
  ueModel :: string
  ueAddressHash :: string
  ueRSSIDBm :: "32 word"
  ueMetadata :: anymap
  ueObservedAt :: time

definition sameSource :: "string \<Rightarrow> string \<Rightarrow> string \<Rightarrow> string \<Rightarrow> EdgeDeviceSource \<Rightarrow> bool" where
  "sameSource collectorID provider transport providerDeviceID row \<longleftrightarrow>
     esCollectorID row = collectorID \<and> esProvider row = provider \<and> esTransport row = transport \<and>
     esProviderDeviceID row = providerDeviceID"

definition UpsertEdgeDeviceSource ::
    "time \<Rightarrow> UpsertEdgeDeviceSourceInput \<Rightarrow> MemoryStore \<Rightarrow> EdgeDeviceSource outcome" where
  "UpsertEdgeDeviceSource clock inp s =
     (case gm_get (edgeCollectors s) (TrimSpace (ueCollectorID inp)) of
        None \<Rightarrow> (s, Inl ErrEdgeCollectorNotFound)
      | Some collector \<Rightarrow>
          if \<not> ecIsActive collector then (s, Inl ErrEdgeCollectorNotFound)
          else
            (let provider = NormalizeProvider (ueProvider inp);
                 transport = normalizeEdgeTransport (ueTransport inp);
                 providerDeviceID = ToUpper (TrimSpace (ueProviderDeviceID inp))
             in if provider = [] \<or> transport = [] \<or> providerDeviceID = [] then (s, Inl ErrEdgeDeviceSourceNotFound)
                else
                  (let existingID0 = (case gm_find (\<lambda>_ row. sameSource (ecID collector) provider transport providerDeviceID row)
                                        (edgeSources s) of None \<Rightarrow> [] | Some (i, _) \<Rightarrow> i);
                       now = normalizeWriteTime clock;
                       observedAt = (if normalizeWriteTime (ueObservedAt inp) = 0 then now
                                     else normalizeWriteTime (ueObservedAt inp));
                       (s1, existingID) = (if existingID0 = [] then nextUUID s else (s, existingID0));
                       row0 = (case gm_get (edgeSources s1) existingID of None \<Rightarrow> zeroEdgeDeviceSource | Some r \<Rightarrow> r);
                       row1 = (if esID row0 = []
                               then row0\<lparr>esID := existingID, esCollectorID := ecID collector, esUserID := ecUserID collector,
                                         esProvider := provider, esTransport := transport,
                                         esProviderDeviceID := providerDeviceID,
                                         esStatus := EdgeDeviceSourceStatusPending, esCreatedAt := now\<rparr>
                               else row0);
                       row = row1\<lparr>esDisplayName := TrimSpace (ueDisplayName inp), esModel := TrimSpace (ueModel inp),
                                  esAddressHash := TrimSpace (ueAddressHash inp), esRSSIDBm := ueRSSIDBm inp,
                                  esMetadata := cloneAnyMap (ueMetadata inp), esLastSeenAt := observedAt,
                                  esUpdatedAt := now\<rparr>
                   in (s1\<lparr>edgeSources := gm_put (esID row) row (edgeSources s1)\<rparr>, Inr (cloneEdgeDeviceSource row)))))"

definition ListEdgeDeviceSources :: "string \<Rightarrow> string \<Rightarrow> string \<Rightarrow> MemoryStore \<Rightarrow> EdgeDeviceSource list" where
  "ListEdgeDeviceSources userSubject inCollectorID inStatus s =
     (case gm_get (usersBySubject s) (TrimSpace userSubject) of
        None \<Rightarrow> []
      | Some userID \<Rightarrow>
          (let collectorID = TrimSpace inCollectorID; status = ToLower (TrimSpace inStatus);
               out = map cloneEdgeDeviceSource
                 (gm_rows (\<lambda>row. esUserID row = userID \<and> (collectorID = [] \<or> esCollectorID row = collectorID) \<and>
                    (status = [] \<or> esStatus row = status)) (edgeSources s))
           in sort_by (then_by esLastSeenAt (by_desc esLastSeenAt) (by_asc esProviderDeviceID)) out))"

text \<open>
  The device an approval links: the one the user names, the one that has the serial number already,
  or a new one. The store is returned as it is when the choice fails.
\<close>

definition approvalTarget ::
    "time \<Rightarrow> string \<Rightarrow> EdgeDeviceSource \<Rightarrow> string \<Rightarrow> string \<Rightarrow> string \<Rightarrow> MemoryStore \<Rightarrow> memoryDevice outcome" where
  "approvalTarget now userID source inDeviceID inProductName inModel s =
     (let deviceID = TrimSpace inDeviceID
      in if deviceID \<noteq> [] then
           (case gm_get (devicesByID s) deviceID of
              None \<Rightarrow> (s, Inl ErrDeviceNotFound)
            | Some existing \<Rightarrow>
                if roleOf s userID deviceID \<noteq> ''admin'' then (s, Inl ErrPermissionDenied)
                else
                  (case validateEdgeDeviceSourceTarget source (mdEcoflowSN existing) of
                     Some e \<Rightarrow> (s, Inl e)
                   | None \<Rightarrow> (s, Inr existing)))
         else
           (let productName = orElse (TrimSpace inProductName) (esDisplayName source);
                model = orElse (TrimSpace inModel) (esModel source);
                canonicalSN = ToUpper (TrimSpace (esProviderDeviceID source))
            in case gm_get (deviceBySN s) canonicalSN of
                 Some existingID \<Rightarrow>
                   if roleOf s userID existingID \<noteq> ''admin'' then (s, Inl ErrPermissionDenied)
                   else
                     (let dev0 = (case gm_get (devicesByID s) existingID of None \<Rightarrow> zeroMemoryDevice | Some d \<Rightarrow> d);
                          dev1 = (if productName \<noteq> [] then dev0\<lparr>mdProductName := productName\<rparr> else dev0);
                          dev2 = (if model \<noteq> [] then dev1\<lparr>mdModel := model\<rparr> else dev1);
                          dev = dev2\<lparr>mdUpdatedAt := now\<rparr>
                      in (s\<lparr>devicesByID := gm_put (mdID dev) dev (devicesByID s)\<rparr>, Inr dev))
               | None \<Rightarrow>
                   (let (s1, dev, created) = ensureDeviceLocked (esProviderDeviceID source) productName model now s
                    in if \<not> created then (s1, Inl ErrPermissionDenied) else (s1, Inr dev))))"

definition ApproveEdgeDeviceSource ::
    "time \<Rightarrow> string \<Rightarrow> string \<Rightarrow> string \<Rightarrow> string \<Rightarrow> string \<Rightarrow> MemoryStore \<Rightarrow> (EdgeDeviceSource \<times> UserDevice) outcome" where
  "ApproveEdgeDeviceSource clock userSubject sourceID deviceID productName model s =
     (case gm_get (usersBySubject s) (TrimSpace userSubject) of
        None \<Rightarrow> (s, Inl ErrUserNotFound)
      | Some userID \<Rightarrow>
          (case gm_get (edgeSources s) (TrimSpace sourceID) of
             None \<Rightarrow> (s, Inl ErrEdgeDeviceSourceNotFound)
           | Some source \<Rightarrow>
               if esUserID source \<noteq> userID then (s, Inl ErrEdgeDeviceSourceNotFound)
               else
                 (case validateEdgeDeviceSourceApproval source of
                    Some e \<Rightarrow> (s, Inl e)
                  | None \<Rightarrow>
                      (let now = normalizeWriteTime clock
                       in case approvalTarget now userID source deviceID productName model s of
                            (s1, Inl e) \<Rightarrow> (s1, Inl e)
                          | (s1, Inr dev) \<Rightarrow>
                              (let s2 = ensureUserDeviceRoleLocked userID (mdID dev) ''admin'' s1;
                                   source' = source\<lparr>esStatus := EdgeDeviceSourceStatusLinked,
                                                    esLinkedDeviceID := mdID dev, esUpdatedAt := now\<rparr>
                               in (s2\<lparr>edgeSources := gm_put (esID source') source' (edgeSources s2)\<rparr>,
                                   Inr (cloneEdgeDeviceSource source', userDeviceOf dev ''admin'')))))))"

definition GetLinkedEdgeDeviceSource ::
    "string \<Rightarrow> string \<Rightarrow> string \<Rightarrow> string \<Rightarrow> MemoryStore \<Rightarrow> store_error + EdgeDeviceSource" where
  "GetLinkedEdgeDeviceSource collectorID inProvider inTransport inProviderDeviceID s =
     (let provider = NormalizeProvider inProvider; transport = normalizeEdgeTransport inTransport;
          providerDeviceID = ToUpper (TrimSpace inProviderDeviceID)
      in case gm_find (\<lambda>_ row. sameSource (TrimSpace collectorID) provider transport providerDeviceID row \<and>
                 esStatus row = EdgeDeviceSourceStatusLinked \<and> TrimSpace (esLinkedDeviceID row) \<noteq> []) (edgeSources s) of
           None \<Rightarrow> Inl ErrEdgeDeviceSourceNotFound
         | Some (_, row) \<Rightarrow> Inr (cloneEdgeDeviceSource row))"

section \<open>Preservation\<close>

definition only_collectors :: "MemoryStore \<Rightarrow> MemoryStore \<Rightarrow> bool" where
  "only_collectors s s' \<longleftrightarrow>
     grows s s' \<and> usersBySubject s' = usersBySubject s \<and> usersByID s' = usersByID s \<and>
     credentials s' = credentials s \<and> providerDevices s' = providerDevices s \<and> edgeSources s' = edgeSources s \<and>
     devicesByID s' = devicesByID s \<and> deviceBySN s' = deviceBySN s \<and> userDevices s' = userDevices s"

lemma only_collectors_store_inv: "only_collectors s s' \<Longrightarrow> collectors_inv s' \<Longrightarrow> store_inv sha s \<Longrightarrow> store_inv sha s'"
  by (auto simp: store_inv_def only_collectors_def intro: inv_frames)

text \<open>A write of one collector's row: the owner stays, the row is well formed.\<close>

lemma put_collector_store_inv:
  assumes inv: "store_inv sha s" and c: "gm_get (edgeCollectors s) i = None \<or> (\<exists>c. gm_get (edgeCollectors s) i = Some c \<and> ecUserID c = ecUserID c')"
    and row: "collector_row s i c'"
  shows "store_inv sha (s\<lparr>edgeCollectors := gm_put i c' (edgeCollectors s)\<rparr>)" (is "store_inv sha ?s")
proof (rule only_collectors_store_inv [OF _ _ inv])
  have g: "grows s ?s" by (rule grows_collector_put) (use c in \<open>auto simp: collector_user_def\<close>)
  then show "only_collectors s ?s" by (simp add: only_collectors_def)
  have rows: "gm_all (collector_row s) (edgeCollectors s)" "gm_wf (edgeCollectors s)"
    using store_invD(6) [OF inv] by (simp_all add: collectors_inv_def)
  have "gm_all (collector_row s) (edgeCollectors ?s)" using gm_all_put [OF rows(1) row] by simp
  then have "gm_all (collector_row ?s) (edgeCollectors ?s)"
    by (rule gm_all_mono) (rule collector_row_grows [OF _ g])
  with rows(2) show "collectors_inv ?s" by (simp add: collectors_inv_def)
qed

lemma collector_get_row: "collectors_inv s \<Longrightarrow> gm_get (edgeCollectors s) i = Some c \<Longrightarrow> collector_row s i c"
  by (auto simp: collectors_inv_def dest: gm_allD)

lemma CreateEdgeCollector_inv:
  assumes inv: "store_inv sha s" and room: "id_room s"
  shows "store_inv sha (fst (CreateEdgeCollector clock sub dn tok s))"
proof (cases "gm_get (usersBySubject s) (TrimSpace sub) = None \<or> TrimSpace tok = []")
  case True
  with inv show ?thesis by (auto simp: CreateEdgeCollector_def split: option.splits)
next
  case False
  then obtain uid where uid: "gm_get (usersBySubject s) (TrimSpace sub) = Some uid" by auto
  let ?s1 = "s\<lparr>idCounter := idCounter s + 1\<rparr>" and ?i = "seqUUID (idCounter s + 1)"
  have r: "unat (idCounter s) + 1 < 2 ^ 64" using room by (simp add: id_room_def)
  obtain row where f: "fst (CreateEdgeCollector clock sub dn tok s) = ?s1\<lparr>edgeCollectors := gm_put ?i row (edgeCollectors ?s1)\<rparr>"
    and row: "ecID row = ?i" "ecUserID row = uid" "ecSetupTokenHash row = TrimSpace tok" "ecCollectorSecretHash row = []"
      "\<not> ecIsActive row"
    using uid False by (simp add: CreateEdgeCollector_def nextUUID_def Let_def)
  have "gm_get (edgeCollectors s) ?i = None"
    using seqUUID_fresh [OF r] collector_get_row [OF store_invD(6) [OF inv], of ?i]
    by (cases "gm_get (edgeCollectors s) ?i") (auto simp: collector_row_def)
  moreover have "known_user s uid" using known_subject [OF store_invD(1) [OF inv] uid] .
  then have "collector_row ?s1 ?i row"
    using row seqUUID_issued [OF r] by (simp add: collector_row_def known_user_def)
  ultimately show ?thesis unfolding f using counter_store_inv [OF inv room] by (intro put_collector_store_inv) auto
qed

lemma RevokeEdgeCollectorSetupToken_inv:
  assumes inv: "store_inv sha s"
  shows "store_inv sha (fst (RevokeEdgeCollectorSetupToken clock sub cid s))"
proof (cases "\<exists>uid row. gm_get (usersBySubject s) (TrimSpace sub) = Some uid \<and>
    gm_get (edgeCollectors s) (TrimSpace cid) = Some row \<and> ecUserID row = uid \<and> \<not> ecIsActive row \<and>
    TrimSpace (ecSetupTokenHash row) \<noteq> []")
  case True
  then obtain row where row: "gm_get (usersBySubject s) (TrimSpace sub) = Some (ecUserID row)"
    "gm_get (edgeCollectors s) (TrimSpace cid) = Some row" "\<not> ecIsActive row" "TrimSpace (ecSetupTokenHash row) \<noteq> []" by auto
  let ?row = "row\<lparr>ecSetupTokenHash := [], ecUpdatedAt := normalizeWriteTime clock\<rparr>"
  have "collector_row s (TrimSpace cid) ?row"
    using collector_get_row [OF store_invD(6) [OF inv] row(2)] row(3) by (auto simp: collector_row_def)
  then have "store_inv sha (s\<lparr>edgeCollectors := gm_put (TrimSpace cid) ?row (edgeCollectors s)\<rparr>)"
    using inv row(2) by (intro put_collector_store_inv) auto
  with row show ?thesis by (simp add: RevokeEdgeCollectorSetupToken_def Let_def)
next
  case False
  with inv show ?thesis by (auto simp: RevokeEdgeCollectorSetupToken_def Let_def split: option.splits)
qed

text \<open>A successful enrolment, seen from its result.\<close>

lemma EnrollEdgeCollector_InrD:
  assumes inv: "collectors_inv s" and run: "EnrollEdgeCollector clock tok sec ver host s = (s', Inr row')"
  obtains i row where "gm_get (edgeCollectors s) i = Some row" "ecSetupTokenHash row = TrimSpace tok" "\<not> ecIsActive row"
    "normalizeWriteTime clock - edgeCollectorSetupTokenTTL \<le> ecCreatedAt row" "TrimSpace tok \<noteq> []" "TrimSpace sec \<noteq> []"
    "row' = row\<lparr>ecSetupTokenHash := [], ecCollectorSecretHash := TrimSpace sec, ecCollectorVersion := TrimSpace ver,
       ecHostname := TrimSpace host, ecIsActive := True, ecLastHeartbeatAt := normalizeWriteTime clock,
       ecUpdatedAt := normalizeWriteTime clock\<rparr>"
    "s' = s\<lparr>edgeCollectors := gm_put i row' (edgeCollectors s)\<rparr>"
proof -
  have wf: "gm_wf (edgeCollectors s)" using inv by (simp add: collectors_inv_def)
  from run obtain i row where f: "gm_find (\<lambda>_ row. ecSetupTokenHash row = TrimSpace tok) (edgeCollectors s) = Some (i, row)"
    by (auto simp: EnrollEdgeCollector_def Let_def split: if_splits option.splits)
  note g = gm_find_SomeD [OF f wf]
  from run f g that show thesis
    by (auto simp: EnrollEdgeCollector_def Let_def edgeCollectorSetupTokenCutoff_def normalizeWriteTime_def split: if_splits)
qed

lemma EnrollEdgeCollector_inv:
  assumes inv: "store_inv sha s"
  shows "store_inv sha (fst (EnrollEdgeCollector clock tok sec ver host s))"
proof (cases "snd (EnrollEdgeCollector clock tok sec ver host s)")
  case (Inl e)
  with inv show ?thesis by (auto simp: EnrollEdgeCollector_def Let_def split: if_splits option.splits)
next
  case (Inr row')
  obtain s' where run: "EnrollEdgeCollector clock tok sec ver host s = (s', Inr row')" using Inr by (metis prod.collapse)
  from store_invD(6) [OF inv] run show ?thesis
  proof (rule EnrollEdgeCollector_InrD)
    fix i row
    assume row: "gm_get (edgeCollectors s) i = Some row" "TrimSpace sec \<noteq> []"
      and row': "row' = row\<lparr>ecSetupTokenHash := [], ecCollectorSecretHash := TrimSpace sec, ecCollectorVersion := TrimSpace ver,
       ecHostname := TrimSpace host, ecIsActive := True, ecLastHeartbeatAt := normalizeWriteTime clock,
       ecUpdatedAt := normalizeWriteTime clock\<rparr>"
      and s': "s' = s\<lparr>edgeCollectors := gm_put i row' (edgeCollectors s)\<rparr>"
    have "collector_row s i row'"
      using collector_get_row [OF store_invD(6) [OF inv] row(1)] row(2) by (simp add: row' collector_row_def)
    then have "store_inv sha s'" unfolding s' using inv row(1) by (intro put_collector_store_inv) (auto simp: row')
    then show ?thesis by (simp add: run)
  qed
qed

lemma UpdateEdgeCollectorHeartbeat_inv:
  assumes inv: "store_inv sha s"
  shows "store_inv sha (fst (UpdateEdgeCollectorHeartbeat clock cid ver host s))"
proof (cases "gm_get (edgeCollectors s) (TrimSpace cid)")
  case None
  with inv show ?thesis by (simp add: UpdateEdgeCollectorHeartbeat_def)
next
  case (Some row)
  note r = collector_get_row [OF store_invD(6) [OF inv] Some]
  then have "ecID row = TrimSpace cid" by (simp add: collector_row_def)
  moreover have "collector_row s (TrimSpace cid) (row\<lparr>ecLastHeartbeatAt := a, ecUpdatedAt := b, ecCollectorVersion := v, ecHostname := h\<rparr>)" for a b v h
    using r by (simp add: collector_row_def)
  ultimately show ?thesis using inv Some
    by (auto simp: UpdateEdgeCollectorHeartbeat_def Let_def intro: put_collector_store_inv)
qed

lemma put_source_store_inv:
  assumes inv: "store_inv sha s" and row: "source_row s i r"
    and uniq: "\<And>j q. gm_get (edgeSources s) j = Some q \<Longrightarrow> j \<noteq> i \<Longrightarrow>
       \<not> sameSource (esCollectorID r) (esProvider r) (esTransport r) (esProviderDeviceID r) q"
  shows "store_inv sha (s\<lparr>edgeSources := gm_put i r (edgeSources s)\<rparr>)" (is "store_inv sha ?s")
proof -
  have s: "sources_inv s" using store_invD(7) [OF inv] .
  have "gm_all (source_row s) (gm_put i r (edgeSources s))"
    by (rule gm_all_put) (use s row in \<open>simp_all add: sources_inv_def\<close>)
  moreover have "gm_pairs source_pair (gm_put i r (edgeSources s))"
  proof (rule gm_pairs_put)
    show "gm_pairs source_pair (edgeSources s)" using s by (simp add: sources_inv_def)
    show "source_pair r q \<and> source_pair q r" if "gm_get (edgeSources s) j = Some q" "j \<noteq> i" for j q
      using uniq [OF that] by (auto simp: source_pair_def sameSource_def)
  qed
  moreover have "source_row ?s = source_row s"
    by (intro ext) (simp add: source_row_def collector_user_def device_sn_def)
  ultimately have "sources_inv ?s" using s by (simp add: sources_inv_def)
  moreover have "grows s ?s" by simp
  ultimately show ?thesis using inv by (auto simp: store_inv_def intro: inv_frames)
qed

lemma source_get_row: "sources_inv s \<Longrightarrow> gm_get (edgeSources s) i = Some r \<Longrightarrow> source_row s i r"
  by (auto simp: sources_inv_def dest: gm_allD)

lemma source_get_pair:
  "sources_inv s \<Longrightarrow> gm_get (edgeSources s) j = Some q \<Longrightarrow> gm_get (edgeSources s) i = Some r \<Longrightarrow> j \<noteq> i \<Longrightarrow> source_pair q r"
  by (auto simp: sources_inv_def dest: gm_pairsD)

text \<open>The static part of a source never changes after the collector has reported it.\<close>

lemma source_row_refresh:
  assumes "source_row s i r" "esID r' = esID r" "esCollectorID r' = esCollectorID r" "esUserID r' = esUserID r"
    "esProvider r' = esProvider r" "esTransport r' = esTransport r"
    "esProviderDeviceID r' = esProviderDeviceID r" "esStatus r' = esStatus r" "esLinkedDeviceID r' = esLinkedDeviceID r"
  shows "source_row s i r'"
  using assms by (simp add: source_row_def)

lemma normalizeEdgeTransport_idem [simp]: "normalizeEdgeTransport (normalizeEdgeTransport v) = normalizeEdgeTransport v"
proof -
  have "normalizeEdgeTransport ''ble'' = ''ble''" by code_simp
  then show ?thesis by (auto simp: normalizeEdgeTransport_def Let_def)
qed

lemma UpsertEdgeDeviceSource_inv:
  assumes inv: "store_inv sha s" and room: "id_room s"
  shows "store_inv sha (fst (UpsertEdgeDeviceSource clock inp s))"
proof (cases "\<exists>c. gm_get (edgeCollectors s) (TrimSpace (ueCollectorID inp)) = Some c \<and> ecIsActive c \<and>
    NormalizeProvider (ueProvider inp) \<noteq> [] \<and> normalizeEdgeTransport (ueTransport inp) \<noteq> [] \<and>
    ToUpper (TrimSpace (ueProviderDeviceID inp)) \<noteq> []")
  case False
  with inv show ?thesis by (auto simp: UpsertEdgeDeviceSource_def Let_def split: option.splits)
next
  case True
  then obtain c where c: "gm_get (edgeCollectors s) (TrimSpace (ueCollectorID inp)) = Some c" "ecIsActive c"
    and ne: "NormalizeProvider (ueProvider inp) \<noteq> []" "normalizeEdgeTransport (ueTransport inp) \<noteq> []"
      "ToUpper (TrimSpace (ueProviderDeviceID inp)) \<noteq> []" by auto
  let ?p = "NormalizeProvider (ueProvider inp)" and ?t = "normalizeEdgeTransport (ueTransport inp)"
    and ?d = "ToUpper (TrimSpace (ueProviderDeviceID inp))"
  define obs where "obs = (if normalizeWriteTime (ueObservedAt inp) = 0 then normalizeWriteTime clock else normalizeWriteTime (ueObservedAt inp))"
  define upd :: "EdgeDeviceSource \<Rightarrow> EdgeDeviceSource" where
    "upd = (\<lambda>r. r\<lparr>esDisplayName := TrimSpace (ueDisplayName inp), esModel := TrimSpace (ueModel inp),
       esAddressHash := TrimSpace (ueAddressHash inp), esRSSIDBm := ueRSSIDBm inp,
       esMetadata := cloneAnyMap (ueMetadata inp), esLastSeenAt := obs, esUpdatedAt := normalizeWriteTime clock\<rparr>)"
  have upd [simp]: "esID (upd r) = esID r" "esCollectorID (upd r) = esCollectorID r" "esUserID (upd r) = esUserID r"
    "esProvider (upd r) = esProvider r" "esTransport (upd r) = esTransport r"
    "esProviderDeviceID (upd r) = esProviderDeviceID r" "esStatus (upd r) = esStatus r"
    "esLinkedDeviceID (upd r) = esLinkedDeviceID r" for r by (simp_all add: upd_def)
  have cid: "ecID c = TrimSpace (ueCollectorID inp)"
    using collector_get_row [OF store_invD(6) [OF inv] c(1)] by (simp add: collector_row_def)
  have src: "sources_inv s" using store_invD(7) [OF inv] .
  then have wf: "gm_wf (edgeSources s)" by (simp add: sources_inv_def)
  show ?thesis
  proof (cases "gm_find (\<lambda>_ row. sameSource (ecID c) ?p ?t ?d row) (edgeSources s)")
    case (Some jr)
    obtain j r where jr: "jr = (j, r)" by (cases jr)
    note r = gm_find_SomeD [OF Some [unfolded jr] wf]
    note row = source_get_row [OF src r(1)]
    from row have j: "esID r = j" "j \<noteq> []" by (auto simp: source_row_def dest: issued_nonempty)
    have "fst (UpsertEdgeDeviceSource clock inp s) = s\<lparr>edgeSources := gm_put j (upd r) (edgeSources s)\<rparr>"
      using c ne Some jr j r(1) by (simp add: UpsertEdgeDeviceSource_def Let_def upd_def obs_def)
    moreover have "store_inv sha (s\<lparr>edgeSources := gm_put j (upd r) (edgeSources s)\<rparr>)"
    proof (rule put_source_store_inv [OF inv])
      show "source_row s j (upd r)" by (rule source_row_refresh [OF row]) simp_all
      show "\<not> sameSource (esCollectorID (upd r)) (esProvider (upd r)) (esTransport (upd r)) (esProviderDeviceID (upd r)) q"
        if "gm_get (edgeSources s) k = Some q" "k \<noteq> j" for k q
        using source_get_pair [OF src that(1) r(1) that(2)] by (auto simp: source_pair_def sameSource_def)
    qed
    ultimately show ?thesis by simp
  next
    case None
    let ?s1 = "s\<lparr>idCounter := idCounter s + 1\<rparr>" and ?i = "seqUUID (idCounter s + 1)"
    have rm: "unat (idCounter s) + 1 < 2 ^ 64" using room by (simp add: id_room_def)
    have fresh: "gm_get (edgeSources s) ?i = None"
      using seqUUID_fresh [OF rm] source_get_row [OF src, of ?i]
      by (cases "gm_get (edgeSources s) ?i") (auto simp: source_row_def)
    define r where "r = zeroEdgeDeviceSource\<lparr>esID := ?i, esCollectorID := ecID c, esUserID := ecUserID c,
      esProvider := ?p, esTransport := ?t, esProviderDeviceID := ?d,
      esStatus := EdgeDeviceSourceStatusPending, esCreatedAt := normalizeWriteTime clock\<rparr>"
    have u: "fst (UpsertEdgeDeviceSource clock inp s) = ?s1\<lparr>edgeSources := gm_put ?i (upd r) (edgeSources ?s1)\<rparr>"
      using c ne None fresh
      by (simp add: UpsertEdgeDeviceSource_def Let_def nextUUID_def upd_def obs_def r_def zeroEdgeDeviceSource_def)
    have "store_inv sha (?s1\<lparr>edgeSources := gm_put ?i (upd r) (edgeSources ?s1)\<rparr>)"
    proof (rule put_source_store_inv [OF counter_store_inv [OF inv room]])
      have "collector_user ?s1 (ecID c) = Some (ecUserID c)" using c(1) cid by (simp add: collector_user_def)
      then have "source_row ?s1 ?i r"
        using seqUUID_issued [OF rm] ne(3)
        by (simp add: source_row_def r_def zeroEdgeDeviceSource_def EdgeDeviceSourceStatusPending_def EdgeDeviceSourceStatusLinked_def)
      then show "source_row ?s1 ?i (upd r)" by (rule source_row_refresh) simp_all
      show "\<not> sameSource (esCollectorID (upd r)) (esProvider (upd r)) (esTransport (upd r)) (esProviderDeviceID (upd r)) q"
        if "gm_get (edgeSources ?s1) k = Some q" "k \<noteq> ?i" for k q
        using gm_find_NoneD [OF None] that(1) by (simp add: r_def)
    qed
    with u show ?thesis by simp
  qed
qed

text \<open>The device an approval may link: it has the source's serial number and exists.\<close>

lemma approvalTarget_spec:
  assumes inv: "store_inv sha s" and room: "id_room s" and sn: "canonical_sn (esProviderDeviceID source)"
    and run: "approvalTarget now uid source did pn mo s = (s1, res)"
  shows "store_inv sha s1 \<and> grows s s1 \<and> edgeSources s1 = edgeSources s \<and> usersByID s1 = usersByID s \<and> userDevices s1 = userDevices s \<and>
    (\<forall>dev. res = Inr dev \<longrightarrow> gm_get (devicesByID s1) (mdID dev) = Some dev \<and> mdEcoflowSN dev = esProviderDeviceID source \<and>
       (gm_get (deviceBySN s) (esProviderDeviceID source) = None \<or> roleOf s uid (mdID dev) = ''admin''))"
proof -
  have dinv: "devices_inv s" using store_invD(3) [OF inv] .
  have can: "ToUpper (TrimSpace (esProviderDeviceID source)) = esProviderDeviceID source" "esProviderDeviceID source \<noteq> []"
    using sn by (simp_all add: canonical_sn_def)
  show ?thesis
  proof (cases "TrimSpace did = []")
    case False
    show ?thesis
    proof (cases "gm_get (devicesByID s) (TrimSpace did)")
      case None
      with run False inv show ?thesis by (auto simp: approvalTarget_def)
    next
      case (Some d)
      with dinv have d: "mdID d = TrimSpace did" "canonical_sn (mdEcoflowSN d)"
        by (auto simp: devices_inv_def device_row_def dest: gm_allD)
      with run False Some inv can show ?thesis
        by (auto simp: approvalTarget_def validateEdgeDeviceSourceTarget_def canonical_sn_def Let_def split: if_splits)
    qed
  next
    case True
    show ?thesis
    proof (cases "gm_get (deviceBySN s) (esProviderDeviceID source)")
      case None
      let ?pn = "orElse (TrimSpace pn) (esDisplayName source)" and ?mo = "orElse (TrimSpace mo) (esModel source)"
      obtain s2 dev created where e: "ensureDeviceLocked (esProviderDeviceID source) ?pn ?mo now s = (s2, dev, created)"
        by (metis prod_cases3)
      have "TrimSpace (esProviderDeviceID source) \<noteq> []" using can by (metis ToUpper_Nil_iff)
      note spec = ensureDeviceLocked_spec [OF dinv _ this e]
      then have "created" using None can room by (simp add: id_room_def)
      with run True None can e have "s1 = s2" "res = Inr dev" by (auto simp: approvalTarget_def Let_def)
      moreover have "store_inv sha s2" using spec room inv by (auto simp: id_room_def intro: only_devices_store_inv)
      ultimately show ?thesis using spec room None can by (simp add: id_room_def only_devices_def)
    next
      case (Some i)
      with dinv obtain d where d: "gm_get (devicesByID s) i = Some d" "mdEcoflowSN d = esProviderDeviceID source"
        by (auto simp: devices_inv_def device_sn_def)
      with dinv have id: "mdID d = i" by (auto simp: devices_inv_def device_row_def dest: gm_allD)
      show ?thesis
      proof (cases "roleOf s uid i = ''admin''")
        case False
        with run True Some can inv show ?thesis by (auto simp: approvalTarget_def Let_def)
      next
        case adm: True
        let ?pn = "orElse (TrimSpace pn) (esDisplayName source)" and ?mo = "orElse (TrimSpace mo) (esModel source)"
        define d1 where "d1 = (if ?pn \<noteq> [] then d\<lparr>mdProductName := ?pn\<rparr> else d)"
        define d' where "d' = (if ?mo \<noteq> [] then d1\<lparr>mdModel := ?mo\<rparr> else d1)\<lparr>mdUpdatedAt := now\<rparr>"
        have keep: "mdID d' = i" "mdEcoflowSN d' = mdEcoflowSN d" by (auto simp: d'_def d1_def id)
        have "approvalTarget now uid source did pn mo s = (s\<lparr>devicesByID := gm_put (mdID d') d' (devicesByID s)\<rparr>, Inr d')"
          using True Some can adm d(1) by (simp add: approvalTarget_def Let_def d'_def d1_def)
        with run keep have d': "mdID d' = i" "mdEcoflowSN d' = mdEcoflowSN d" "res = Inr d'"
          "s1 = s\<lparr>devicesByID := gm_put i d' (devicesByID s)\<rparr>" by auto
        with touch_store_inv [OF inv d(1) d'(1,2)] devices_inv_touch(2) [OF dinv d(1) d'(1,2)] adm d(2) show ?thesis by simp
      qed
    qed
  qed
qed

lemma ApproveEdgeDeviceSource_inv:
  assumes inv: "store_inv sha s" and room: "id_room s"
  shows "store_inv sha (fst (ApproveEdgeDeviceSource clock sub sid did pn mo s))"
proof (cases "\<exists>uid src. gm_get (usersBySubject s) (TrimSpace sub) = Some uid \<and> gm_get (edgeSources s) (TrimSpace sid) = Some src \<and>
    esUserID src = uid \<and> validateEdgeDeviceSourceApproval src = None")
  case False
  with inv show ?thesis by (auto simp: ApproveEdgeDeviceSource_def split: option.splits)
next
  case True
  then obtain src where src: "gm_get (usersBySubject s) (TrimSpace sub) = Some (esUserID src)"
    "gm_get (edgeSources s) (TrimSpace sid) = Some src" "validateEdgeDeviceSourceApproval src = None" by auto
  note sinv = store_invD(7) [OF inv] note row = source_get_row [OF sinv src(2)]
  have can: "canonical_sn (esProviderDeviceID src)" and id: "esID src = TrimSpace sid" using row by (auto simp: source_row_def)
  obtain s1 res where t: "approvalTarget (normalizeWriteTime clock) (esUserID src) src did pn mo s = (s1, res)" by fastforce
  note spec = approvalTarget_spec [OF inv room can t]
  show ?thesis
  proof (cases res)
    case (Inl e)
    with src t spec show ?thesis by (simp add: ApproveEdgeDeviceSource_def)
  next
    case (Inr dev)
    let ?s2 = "ensureUserDeviceRoleLocked (esUserID src) (mdID dev) ''admin'' s1"
    let ?r = "src\<lparr>esStatus := EdgeDeviceSourceStatusLinked, esLinkedDeviceID := mdID dev, esUpdatedAt := normalizeWriteTime clock\<rparr>"
    have u: "known_user s1 (esUserID src)"
      using known_subject [OF store_invD(1) [OF inv] src(1)] spec by (simp add: known_user_def)
    have inv2: "store_inv sha ?s2"
      using spec Inr by (intro ensureUserDeviceRoleLocked_inv) (auto intro: u)
    have es: "edgeSources ?s2 = edgeSources s" using spec by (simp add: ensureUserDeviceRoleLocked_def Let_def)
    have get2: "gm_get (edgeSources ?s2) (TrimSpace sid) = Some src" using src(2) es by simp
    have "source_row ?s2 (TrimSpace sid) ?r"
      using source_get_row [OF store_invD(7) [OF inv2] get2] spec Inr by (simp add: source_row_def device_sn_def)
    then have "store_inv sha (?s2\<lparr>edgeSources := gm_put (TrimSpace sid) ?r (edgeSources ?s2)\<rparr>)"
      by (rule put_source_store_inv [OF inv2])
         (use source_get_pair [OF store_invD(7) [OF inv2] _ get2] in \<open>auto simp: source_pair_def sameSource_def\<close>)
    with src t Inr id show ?thesis by (simp add: ApproveEdgeDeviceSource_def Let_def)
  qed
qed

end
