(* ===== verification/Cp_Admin.thy ===== *)
theory Cp_Admin
  imports Cp_Devices
begin

text \<open>
  The search behind the administrator's log filters (\<open>SearchAdminLogFilters\<close> of \<open>store_memory.go\<close>):
  devices within the caller's scope, and users for a global administrator only. A loop over sorted
  rows is a recursion that carries the options found so far and stops at the limit.
\<close>

record SearchAdminLogFiltersInput =
  saQuery :: string
  saKind :: string
  saLimit :: int
  saProvider :: string
  saDeviceIDs :: "string list"
  saUserSubject :: string
  saGlobalAdmin :: bool

definition deviceOption :: "string \<Rightarrow> memoryDevice \<Rightarrow> AdminLogFilterOption" where
  "deviceOption provider device =
     \<lparr>aoKind = ''device'', aoID = mdID device,
      aoLabel = adminLogFirstNonEmpty [mdProductName device, mdModel device, ''Device '' @ shortID (mdID device)],
      aoSecondaryLabel = adminLogFirstNonEmpty [mdModel device, ''UUID '' @ shortID (mdID device)],
      aoDeviceIDs = [mdID device], aoProvider = provider\<rparr>"

definition serialOption :: "string \<Rightarrow> memoryDevice \<Rightarrow> AdminLogFilterOption" where
  "serialOption provider device =
     \<lparr>aoKind = ''serial'', aoID = mdID device, aoLabel = mdEcoflowSN device,
      aoSecondaryLabel = adminLogFirstNonEmpty [mdProductName device, mdModel device, ''Device '' @ shortID (mdID device)],
      aoDeviceIDs = [mdID device], aoProvider = provider\<rparr>"

fun deviceLoop ::
    "string \<Rightarrow> string \<Rightarrow> string \<Rightarrow> int \<Rightarrow> AdminLogFilterOption list \<Rightarrow> memoryDevice list \<Rightarrow> AdminLogFilterOption list" where
  "deviceLoop kind query provider limit out [] = out"
| "deviceLoop kind query provider limit out (device # devices) =
     (if int (length out) \<ge> limit then out
      else if query \<noteq> [] \<and>
              \<not> matchesAdminLogQuery query [mdID device, mdEcoflowSN device, mdProductName device, mdModel device]
      then deviceLoop kind query provider limit out devices
      else
        (let out1 = (if kind = [] \<or> kind = ''device'' then out @ [deviceOption provider device] else out)
         in if int (length out1) \<ge> limit then out1
            else
              (let out2 = (if kind = [] \<or> kind = ''serial'' then out1 @ [serialOption provider device] else out1)
               in deviceLoop kind query provider limit out2 devices)))"

definition userOption :: "CurrentUser \<Rightarrow> string list \<Rightarrow> AdminLogFilterOption" where
  "userOption user deviceIDs =
     \<lparr>aoKind = ''user'', aoID = cuID user, aoLabel = cuEmail user,
      aoSecondaryLabel = adminLogFirstNonEmpty [cuDisplayName user, Itoa (int (length deviceIDs)) @ '' devices''],
      aoDeviceIDs = deviceIDs, aoProvider = []\<rparr>"

fun userLoop ::
    "MemoryStore \<Rightarrow> string \<Rightarrow> string list option \<Rightarrow> int \<Rightarrow> AdminLogFilterOption list \<Rightarrow> CurrentUser list \<Rightarrow>
       AdminLogFilterOption list" where
  "userLoop s query requested limit out [] = out"
| "userLoop s query requested limit out (user # users) =
     (if int (length out) \<ge> limit then out
      else if TrimSpace (cuEmail user) = [] then userLoop s query requested limit out users
      else if query \<noteq> [] \<and> \<not> matchesAdminLogQuery query [cuEmail user, cuDisplayName user, cuKeycloakSubject user]
      then userLoop s query requested limit out users
      else
        (let roles = (case gm_get (userDevices s) (cuID user) of None \<Rightarrow> [] | Some rs \<Rightarrow> rs);
             deviceIDs = filter (\<lambda>d. case requested of None \<Rightarrow> True | Some ids \<Rightarrow> d \<in> set ids) (map fst roles)
         in if requested \<noteq> None \<and> deviceIDs = [] then userLoop s query requested limit out users
            else userLoop s query requested limit (out @ [userOption user (sort_by (<) deviceIDs)]) users))"

definition adminDevices ::
    "string list option \<Rightarrow> string list option \<Rightarrow> string \<Rightarrow> MemoryStore \<Rightarrow> memoryDevice list" where
  "adminDevices scoped requested provider s =
     sort_by (by_asc (\<lambda>d. ToLower (adminLogFirstNonEmpty [mdProductName d, mdModel d, mdEcoflowSN d, mdID d])))
       (gm_rows (\<lambda>device.
          (case scoped of None \<Rightarrow> True | Some ids \<Rightarrow> mdID device \<in> set ids) \<and>
          (case requested of None \<Rightarrow> True | Some ids \<Rightarrow> mdID device \<in> set ids) \<and>
          (provider = [] \<or> memoryDeviceMatchesProviderLocked (mdID device) provider s)) (devicesByID s))"

definition adminUsers :: "MemoryStore \<Rightarrow> CurrentUser list" where
  "adminUsers s =
     sort_by (by_asc (\<lambda>u. ToLower (adminLogFirstNonEmpty [cuEmail u, cuDisplayName u, cuID u])))
       (gm_rows (\<lambda>_. True) (usersByID s))"

text \<open>The scope of a caller: everything for a global administrator, otherwise the devices the caller has a role on.\<close>

definition SearchAdminLogFilters :: "SearchAdminLogFiltersInput \<Rightarrow> MemoryStore \<Rightarrow> AdminLogFilterOption list" where
  "SearchAdminLogFilters inp s =
     (let kind = normalizeAdminLogFilterKind (saKind inp);
          query = ToLower (TrimSpace (saQuery inp));
          limit = normalizeAdminLogFilterLimit (saLimit inp);
          provider = NormalizeProvider (saProvider inp);
          requested = adminLogDeviceIDSet (saDeviceIDs inp);
          userID = gm_get (usersBySubject s) (TrimSpace (saUserSubject inp))
      in if \<not> saGlobalAdmin inp \<and> userID = None then []
         else
           (let scoped = (if saGlobalAdmin inp then None
                          else Some (map fst (case Option.bind userID (gm_get (userDevices s)) of None \<Rightarrow> [] | Some rs \<Rightarrow> rs)));
                out = (if kind = [] \<or> kind = ''device'' \<or> kind = ''serial''
                       then deviceLoop kind query provider limit [] (adminDevices scoped requested provider s) else [])
            in if saGlobalAdmin inp \<and> (kind = [] \<or> kind = ''user'')
               then userLoop s query requested limit out (adminUsers s) else out))"

section \<open>Bounds and scope of the loops\<close>

lemma deviceLoop_length: "int (length out) \<le> limit \<Longrightarrow> int (length (deviceLoop k q p limit out ds)) \<le> limit"
  by (induction ds arbitrary: out) (auto simp: Let_def)

lemma userLoop_length: "int (length out) \<le> limit \<Longrightarrow> int (length (userLoop s q r limit out us)) \<le> limit"
  by (induction us arbitrary: out) (auto simp: Let_def)

lemma deviceLoop_set:
  "set (deviceLoop k q p limit out ds) \<subseteq> set out \<union> deviceOption p ` set ds \<union> serialOption p ` set ds"
proof (induction ds arbitrary: out)
  case (Cons d ds)
  let ?a = "deviceOption p d" and ?b = "serialOption p d"
  have "set (deviceLoop k q p limit x ds) \<subseteq> set out \<union> deviceOption p ` set (d # ds) \<union> serialOption p ` set (d # ds)"
    if "set x \<subseteq> set out \<union> {?a, ?b}" for x
    using Cons.IH [of x] that by auto
  note step = this
  show ?case using step [of out] step [of "out @ [?a]"] step [of "out @ [?b]"] step [of "out @ [?a, ?b]"]
    by (simp add: Let_def) blast
qed simp

lemma SearchAdminLogFilters_length:
  "int (length (SearchAdminLogFilters inp s)) \<le> normalizeAdminLogFilterLimit (saLimit inp)"
proof -
  have "0 \<le> normalizeAdminLogFilterLimit (saLimit inp)" by (simp add: normalizeAdminLogFilterLimit_def)
  then show ?thesis by (simp add: SearchAdminLogFilters_def Let_def deviceLoop_length userLoop_length)
qed

text \<open>What a caller who is not a global administrator may see.\<close>

lemma SearchAdminLogFilters_scoped:
  assumes "gm_wf (devicesByID s)" "\<not> saGlobalAdmin inp" "opt \<in> set (SearchAdminLogFilters inp s)"
  obtains uid roles d where "gm_get (usersBySubject s) (TrimSpace (saUserSubject inp)) = Some uid"
    "gm_get (userDevices s) uid = Some roles" "mdID d \<in> fst ` set roles"
    "\<exists>k. gm_get (devicesByID s) k = Some d" "aoDeviceIDs opt = [mdID d]" "aoID opt = mdID d" "aoKind opt \<noteq> ''user''"
proof -
  let ?p = "NormalizeProvider (saProvider inp)"
  from assms(2,3) obtain uid where uid: "gm_get (usersBySubject s) (TrimSpace (saUserSubject inp)) = Some uid"
    by (auto simp: SearchAdminLogFilters_def Let_def split: if_splits)
  let ?ids = "map fst (case gm_get (userDevices s) uid of None \<Rightarrow> [] | Some rs \<Rightarrow> rs)"
  let ?ds = "adminDevices (Some ?ids) (adminLogDeviceIDSet (saDeviceIDs inp)) ?p s"
  from assms(2,3) uid have "opt \<in> set (deviceLoop (normalizeAdminLogFilterKind (saKind inp)) (ToLower (TrimSpace (saQuery inp))) ?p
      (normalizeAdminLogFilterLimit (saLimit inp)) [] ?ds)"
    by (auto simp: SearchAdminLogFilters_def Let_def split: if_splits)
  then have "opt \<in> deviceOption ?p ` set ?ds \<union> serialOption ?p ` set ?ds" using deviceLoop_set by fastforce
  then obtain d where d: "d \<in> set ?ds" "opt = deviceOption ?p d \<or> opt = serialOption ?p d" by auto
  then have "mdID d \<in> set ?ids" "\<exists>k. gm_get (devicesByID s) k = Some d"
    using assms(1) by (auto simp: adminDevices_def set_gm_rows)
  moreover from this obtain roles where roles: "gm_get (userDevices s) uid = Some roles" "mdID d \<in> fst ` set roles"
    by (cases "gm_get (userDevices s) uid") auto
  moreover have "aoDeviceIDs opt = [mdID d]" "aoID opt = mdID d" "aoKind opt \<noteq> ''user''"
    using d(2) by (auto simp: deviceOption_def serialOption_def)
  ultimately show thesis using that [OF uid] by blast
qed

end
