(* ===== verification/Cp_Store.thy ===== *)
theory Cp_Store
  imports Cp_Edge Cp_Admin
begin

text \<open>
  The memory store as a transition system: every operation that changes it is one step (the store
  holds its lock for the whole operation), and between two operations a map may change the order in
  which a loop meets its rows. The invariant of \<open>Cp_Invariant\<close> holds in every reachable state.
  \<open>PutProviderDevice\<close>, which only the tests call, is not a step: it stores a row under an
  identifier its caller chooses.
\<close>

section \<open>Requests\<close>

datatype store_op =
    OpEnsureUser time string
  | OpProvision time time GetOrProvisionCurrentUserInput
  | OpProfile time UpdateCurrentUserProfileInput
  | OpReconcile time string string
  | OpCreateCredential time CreateProviderCredentialInput
  | OpSetCredentialActive time string string bool
  | OpUpdateCredential time UpdateProviderCredentialInput
  | OpCreateDevice time string string string string
  | OpLinkDevice string string string string
  | OpUpsertProviderDevice time UpsertProviderDeviceInput
  | OpImportProviderDevice time ImportProviderDeviceInput
  | OpCreateCollector time string string string
  | OpRevokeToken time string string
  | OpEnroll time string string string string
  | OpCollectorHeartbeat time string string string
  | OpUpsertSource time UpsertEdgeDeviceSourceInput
  | OpApproveSource time string string string string string

fun applyOp :: "(string \<Rightarrow> byte list) \<Rightarrow> store_op \<Rightarrow> MemoryStore \<Rightarrow> MemoryStore" where
  "applyOp sha (OpEnsureUser now sub) s = fst (EnsureUser now sub s)"
| "applyOp sha (OpProvision n1 n2 inp) s = fst (GetOrProvisionCurrentUser n1 n2 inp s)"
| "applyOp sha (OpProfile now inp) s = fst (UpdateCurrentUserProfile now inp s)"
| "applyOp sha (OpReconcile now email sub) s = fst (ReconcileUserSubjectByEmail now email sub s)"
| "applyOp sha (OpCreateCredential now inp) s = fst (CreateProviderCredential sha now inp s)"
| "applyOp sha (OpSetCredentialActive now sub cid act) s = fst (SetProviderCredentialActive now sub cid act s)"
| "applyOp sha (OpUpdateCredential now inp) s = fst (UpdateProviderCredential sha now inp s)"
| "applyOp sha (OpCreateDevice now sub sn pn mo) s = fst (CreateDevice now sub sn pn mo s)"
| "applyOp sha (OpLinkDevice sub target did role) s = fst (LinkDevice sub target did role s)"
| "applyOp sha (OpUpsertProviderDevice now inp) s = fst (UpsertProviderDevice now inp s)"
| "applyOp sha (OpImportProviderDevice now inp) s = fst (ImportProviderDevice now inp s)"
| "applyOp sha (OpCreateCollector now sub dn tok) s = fst (CreateEdgeCollector now sub dn tok s)"
| "applyOp sha (OpRevokeToken now sub cid) s = fst (RevokeEdgeCollectorSetupToken now sub cid s)"
| "applyOp sha (OpEnroll now tok sec ver host) s = fst (EnrollEdgeCollector now tok sec ver host s)"
| "applyOp sha (OpCollectorHeartbeat now cid ver host) s = fst (UpdateEdgeCollectorHeartbeat now cid ver host s)"
| "applyOp sha (OpUpsertSource now inp) s = fst (UpsertEdgeDeviceSource now inp s)"
| "applyOp sha (OpApproveSource now sub sid did pn mo) s = fst (ApproveEdgeDeviceSource now sub sid did pn mo s)"

text \<open>Two stores that differ only in the order of their maps.\<close>

definition same_map :: "('k, 'v) gomap \<Rightarrow> ('k, 'v) gomap \<Rightarrow> bool" where
  "same_map m m' \<longleftrightarrow> gm_wf m' \<and> gm_get m' = gm_get m"

definition reordered :: "MemoryStore \<Rightarrow> MemoryStore \<Rightarrow> bool" where
  "reordered s s' \<longleftrightarrow>
     same_map (usersBySubject s) (usersBySubject s') \<and> same_map (usersByID s) (usersByID s') \<and>
     same_map (credentials s) (credentials s') \<and> same_map (providerDevices s) (providerDevices s') \<and>
     same_map (edgeCollectors s) (edgeCollectors s') \<and> same_map (edgeSources s) (edgeSources s') \<and>
     same_map (devicesByID s) (devicesByID s') \<and> same_map (deviceBySN s) (deviceBySN s') \<and>
     gm_wf (userDevices s') \<and>
     (\<forall>uid. rel_option same_map (gm_get (userDevices s) uid) (gm_get (userDevices s') uid)) \<and>
     idCounter s' = idCounter s"

inductive store_step :: "(string \<Rightarrow> byte list) \<Rightarrow> MemoryStore \<Rightarrow> MemoryStore \<Rightarrow> bool"
  for sha :: "string \<Rightarrow> byte list" where
  step_op: "id_room s \<Longrightarrow> store_step sha s (applyOp sha op s)"
| step_reorder: "reordered s s' \<Longrightarrow> store_step sha s s'"

inductive_cases store_stepE: "store_step sha s s'"

definition store_init :: "MemoryStore \<Rightarrow> bool" where
  "store_init s \<longleftrightarrow> (\<exists>now. s = NewMemoryStore now)"

section \<open>The invariant of every reachable store\<close>

lemma user_step_inv: "store_inv sha s \<Longrightarrow> users_inv s' \<and> only_users s s' \<Longrightarrow> store_inv sha s'"
  by (blast intro: only_users_store_inv)

lemmas user_ops_inv =
  user_step_inv [OF _ EnsureUser_inv [OF store_invD(1)]]
  user_step_inv [OF _ GetOrProvisionCurrentUser_inv [OF store_invD(1)]]
  user_step_inv [OF _ UpdateCurrentUserProfile_inv [OF store_invD(1)]]
  user_step_inv [OF _ ReconcileUserSubjectByEmail_inv [OF store_invD(1)]]

lemma applyOp_inv: "store_inv sha s \<Longrightarrow> id_room s \<Longrightarrow> store_inv sha (applyOp sha op s)"
  by (cases op)
     (simp_all add: user_ops_inv [of sha] CreateProviderCredential_inv SetProviderCredentialActive_inv UpdateProviderCredential_inv
        CreateDevice_inv LinkDevice_inv UpsertProviderDevice_inv ImportProviderDevice_inv CreateEdgeCollector_inv
        RevokeEdgeCollectorSetupToken_inv EnrollEdgeCollector_inv UpdateEdgeCollectorHeartbeat_inv
        UpsertEdgeDeviceSource_inv ApproveEdgeDeviceSource_inv)

lemma same_mapD:
  assumes "same_map m m'"
  shows "gm_wf m'" "gm_get m' = gm_get m" "gm_all P m' \<longleftrightarrow> gm_all P m" "gm_pairs Q m' \<longleftrightarrow> gm_pairs Q m"
  using assms by (simp_all add: same_map_def gm_all_def gm_pairs_def)

lemma reorderedD:
  assumes "reordered s s'"
  shows "same_map (usersBySubject s) (usersBySubject s')" "same_map (usersByID s) (usersByID s')"
    "same_map (credentials s) (credentials s')" "same_map (providerDevices s) (providerDevices s')"
    "same_map (edgeCollectors s) (edgeCollectors s')" "same_map (edgeSources s) (edgeSources s')"
    "same_map (devicesByID s) (devicesByID s')" "same_map (deviceBySN s) (deviceBySN s')"
    "gm_wf (userDevices s')" "\<And>uid. rel_option same_map (gm_get (userDevices s) uid) (gm_get (userDevices s') uid)"
    "idCounter s' = idCounter s"
  using assms by (simp_all add: reordered_def)

lemma reordered_views:
  assumes "reordered s s'"
  shows "known_user s' = known_user s" "device_sn s' = device_sn s" "collector_user s' = collector_user s"
  using reorderedD(2,5,7) [OF assms, THEN same_mapD(2)]
  by (auto simp: known_user_def device_sn_def collector_user_def)

lemma reordered_rows:
  assumes "reordered s s'"
  shows "user_row s' = user_row s" "cred_row s' = cred_row s" "device_row s' = device_row s"
    "pdev_row s' = pdev_row s" "collector_row s' = collector_row s" "source_row s' = source_row s"
  using reordered_views [OF assms] reorderedD(11) [OF assms]
  by (simp_all add: fun_eq_iff user_row_def cred_row_def device_row_def pdev_row_def collector_row_def source_row_def)

lemma role_row_same:
  assumes "reordered s s'" "same_map roles roles'" "role_row s uid roles"
  shows "role_row s' uid roles'"
  using assms(3) same_mapD(1,3) [OF assms(2)] reordered_views(1,2) [OF assms(1)] by (simp add: role_row_def)

lemma reordered_roles:
  assumes "reordered s s'" "roles_inv s"
  shows "roles_inv s'"
proof -
  have all: "gm_all (role_row s) (userDevices s)" using assms(2) by (simp add: roles_inv_def)
  have "role_row s' uid roles'" if "gm_get (userDevices s') uid = Some roles'" for uid roles'
    using reorderedD(10) [OF assms(1), of uid] that role_row_same [OF assms(1)] gm_allD [OF all, of uid]
    by (cases "gm_get (userDevices s) uid") auto
  then show ?thesis using reorderedD(9) [OF assms(1)] by (simp add: roles_inv_def gm_all_def)
qed

lemma reordered_inv:
  assumes r: "reordered s s'" and inv: "store_inv sha s"
  shows "store_inv sha s'"
proof -
  note m = reorderedD [OF r] note same = reordered_rows [OF r] reordered_views [OF r]
  have "users_inv s'"
    using store_invD(1) [OF inv] m(1,2) [THEN same_mapD(1)] m(1,2) [THEN same_mapD(2)] same_mapD(3) [OF m(2)] same
    by (simp add: users_inv_def)
  moreover have "creds_inv sha s'" using store_invD(2) [OF inv] same_mapD(1,3,4) [OF m(3)] same by (simp add: creds_inv_def)
  moreover have "devices_inv s'"
    using store_invD(3) [OF inv] m(7,8) [THEN same_mapD(1)] same_mapD(3) [OF m(7)] same_mapD(2) [OF m(8)] same
    by (simp add: devices_inv_def)
  moreover have "roles_inv s'" using reordered_roles [OF r store_invD(4) [OF inv]] .
  moreover have "pdevs_inv s'" using store_invD(5) [OF inv] same_mapD(1,3,4) [OF m(4)] same by (simp add: pdevs_inv_def)
  moreover have "collectors_inv s'" using store_invD(6) [OF inv] same_mapD(1,3) [OF m(5)] same by (simp add: collectors_inv_def)
  moreover have "sources_inv s'" using store_invD(7) [OF inv] same_mapD(1,3,4) [OF m(6)] same by (simp add: sources_inv_def)
  ultimately show ?thesis by (simp add: store_inv_def)
qed

interpretation store_runs: invariant_system store_init "store_step sha" "store_inv sha" for sha
proof (unfold_locales, goal_cases)
  case (1 s)
  then show ?case by (auto simp: store_init_def NewMemoryStore_inv)
next
  case (2 s t)
  then show ?case by (auto elim!: store_stepE intro: applyOp_inv reordered_inv)
qed

end
