(* ===== verification/Cp_Properties.thy ===== *)
theory Cp_Properties
  imports Cp_Store
begin

text \<open>
  What the control plane guarantees: the invariant of every reachable store, who may see and change
  credentials, who may change roles, what enrolment and approval of edge devices establish. The
  witnesses run the store on a small history with a digest that is the key itself.
\<close>

section \<open>A sample history\<close>

definition sample_sha :: "string \<Rightarrow> byte list" where
  "sample_sha k = map (\<lambda>c. word_of_nat (of_char c)) k"

definition sample_cred :: "string \<Rightarrow> CreateProviderCredentialInput" where
  "sample_cred key = \<lparr>ccUserSubject = ''dev-user'', ccProvider = ''ecoflow'', ccAccessKey = key, ccSecretKey = ''s'',
     ccConfig = None, ccIsActive = True\<rparr>"

lemma trim_words [simp]:
  "TrimSpace ''dev-user'' = ''dev-user''" "TrimSpace ''ecoflow'' = ''ecoflow''" "TrimSpace ''SN1'' = ''SN1''"
  "TrimSpace ''AK1'' = ''AK1''" "TrimSpace ''AK2'' = ''AK2''" "TrimSpace ''hash'' = ''hash''" "TrimSpace ''secret'' = ''secret''"
  "TrimSpace ''kc-2'' = ''kc-2''" "TrimSpace ''a@b'' = ''a@b''" "TrimSpace ''cred-1'' = ''cred-1''" "TrimSpace ''admin'' = ''admin''"
  "TrimSpace ''kc-1'' = ''kc-1''" "TrimSpace ''active'' = ''active''" "TrimSpace ''viewer'' = ''viewer''"
  "TrimSpace ''00000000-0000-4000-8000-000000000001'' = ''00000000-0000-4000-8000-000000000001''"
  "TrimSpace ''00000000-0000-4000-8000-000000000002'' = ''00000000-0000-4000-8000-000000000002''"
  by (rule TrimSpace_trimmed; rule trimmedI; simp add: edge_bytes_def space_runes_def)+

definition sample_store0 :: MemoryStore where
  "sample_store0 = NewMemoryStore 1"

definition sample_store1 :: MemoryStore where
  "sample_store1 = applyOp sample_sha (OpCreateCredential 2 (sample_cred ''AK1'')) sample_store0"

definition sample_store2 :: MemoryStore where
  "sample_store2 = applyOp sample_sha (OpCreateCredential 3 (sample_cred ''AK2'')) sample_store1"

lemma reach_store0: "reach store_init (store_step sha) sample_store0"
  by (rule reach_init) (auto simp: store_init_def sample_store0_def)

lemma reach_store2: "reach store_init (store_step sample_sha) sample_store2"
proof -
  have r0: "reach store_init (store_step sample_sha) sample_store0" by (rule reach_store0)
  have "id_room sample_store0" by (simp add: id_room_def sample_store0_def NewMemoryStore_def)
  then have r1: "reach store_init (store_step sample_sha) sample_store1"
    unfolding sample_store1_def by (intro reach_step [OF r0] step_op)
  have c1: "idCounter sample_store1 = 1"
    by (simp add: sample_store1_def sample_store0_def NewMemoryStore_def CreateProviderCredential_def sample_cred_def
        gm_get_def providerAccessKeyExistsLocked_def gm_find_def commitCredential_def nextID_def Let_def
        setExclusiveCredentialActiveLocked_def rebindProviderDevicesLocked_def)
  then have "id_room sample_store1" by (simp add: id_room_def)
  then show ?thesis unfolding sample_store2_def by (intro reach_step [OF r1] step_op)
qed

section \<open>Reachable stores\<close>

text \<open>C5: Every store reachable from a new one, by any sequence of operations and whatever the order in
  which its maps are traversed, is well formed: subjects and users correspond one to one, rows carry
  their own keys and refer to existing rows, serial numbers and devices correspond one to one, and
  provider devices and edge sources are not duplicated.\<close>

theorem store_always_well_formed:
  assumes "reach store_init (store_step sha) s"
  shows "store_inv sha s"
  using assms by (rule store_runs.reach_inv)

theorem store_always_well_formed_witness: "store_inv sample_sha sample_store2"
  by (rule store_always_well_formed [OF reach_store2])

text \<open>C16: In every reachable store at most one credential of a user for a provider is active, and no two
  credentials of a provider have the same access key.\<close>

theorem credentials_exclusive:
  assumes "reach store_init (store_step sha) s"
    and "gm_get (credentials s) i = Some c" "gm_get (credentials s) j = Some d" "i \<noteq> j" "pcProvider c = pcProvider d"
  shows "TrimSpace (pcAccessKey c) \<noteq> TrimSpace (pcAccessKey d) \<and>
    (pcUserID c = pcUserID d \<longrightarrow> \<not> (pcIsActive c \<and> pcIsActive d))"
proof -
  have "gm_pairs (cred_pair sha) (credentials s)"
    using store_runs.reach_inv [OF assms(1)] by (auto simp: store_inv_def creds_inv_def)
  from gm_pairsD [OF this assms(2-4)] assms(5) show ?thesis by (auto simp: cred_pair_def HashAccessKey_def)
qed

lemma sample_hash: "HashAccessKey sample_sha ''AK1'' \<noteq> HashAccessKey sample_sha ''AK2''"
  by (simp add: HashAccessKey_def sample_sha_def)

lemma sample_ids: "seqID ''cred'' 1 = ''cred-1''" "seqID ''cred'' 2 = ''cred-2''"
  by code_simp+

lemma sample_ecoflow: "NormalizeProvider ''ecoflow'' = ''ecoflow''"
  by (simp add: NormalizeProvider_def ToLower_def lower_char_def less_eq_char_def)

lemma sample_creds:
  "gm_get (credentials sample_store2) ''cred-1'' = Some
     \<lparr>pcID = ''cred-1'', pcUserID = ''dev-user-id-1'', pcProvider = ''ecoflow'', pcAccessKeyMask = MaskAccessKey ''AK1'',
      pcAccessKey = ''AK1'', pcSecretKey = ''s'', pcConfig = None, pcIsActive = False, pcCreatedAt = 2, pcUpdatedAt = 3\<rparr>"
  "gm_get (credentials sample_store2) ''cred-2'' = Some
     \<lparr>pcID = ''cred-2'', pcUserID = ''dev-user-id-1'', pcProvider = ''ecoflow'', pcAccessKeyMask = MaskAccessKey ''AK2'',
      pcAccessKey = ''AK2'', pcSecretKey = ''s'', pcConfig = None, pcIsActive = True, pcCreatedAt = 3, pcUpdatedAt = 3\<rparr>"
  using sample_hash
  by (auto simp: sample_store2_def sample_store1_def sample_store0_def NewMemoryStore_def CreateProviderCredential_def sample_cred_def
      gm_get_def providerAccessKeyExistsLocked_def gm_find_def commitCredential_def nextID_def Let_def sample_ids sample_ecoflow
      setExclusiveCredentialActiveLocked_def rebindProviderDevicesLocked_def normalizeWriteTime_def cloneAnyMap_def
      gm_put_def gm_map_def)

theorem credentials_exclusive_witness:
  "\<exists>c d. gm_get (credentials sample_store2) ''cred-1'' = Some c \<and> gm_get (credentials sample_store2) ''cred-2'' = Some d \<and>
     TrimSpace (pcAccessKey c) \<noteq> TrimSpace (pcAccessKey d) \<and> \<not> (pcIsActive c \<and> pcIsActive d)"
  using credentials_exclusive [OF reach_store2 sample_creds] sample_creds by simp

section \<open>Credentials\<close>

lemma sample_subject: "gm_get (usersBySubject sample_store2) ''dev-user'' = Some ''dev-user-id-1''"
  "gm_get (usersBySubject sample_store2) ''kc-2'' = None"
  using sample_hash
  by (auto simp: sample_store2_def sample_store1_def sample_store0_def NewMemoryStore_def CreateProviderCredential_def sample_cred_def
      gm_get_def providerAccessKeyExistsLocked_def gm_find_def commitCredential_def nextID_def Let_def sample_ids sample_ecoflow
      setExclusiveCredentialActiveLocked_def rebindProviderDevicesLocked_def normalizeWriteTime_def cloneAnyMap_def
      gm_put_def gm_map_def)

text \<open>A listing of credentials shows exactly the caller's own rows of the provider asked for, newest
  first, and never an access key or a secret key.\<close>

theorem ListProviderCredentials_own_and_blank:
  assumes "store_inv sha s" "gm_get (usersBySubject s) (TrimSpace sub) = Some uid"
  shows "sorted_wrt (\<lambda>x y. pcCreatedAt x \<ge> pcCreatedAt y) (ListProviderCredentials sub prov s) \<and>
    (x \<in> set (ListProviderCredentials sub prov s) \<longleftrightarrow>
       (\<exists>i row. gm_get (credentials s) i = Some row \<and> pcUserID row = uid \<and>
          (NormalizeProvider prov = [] \<or> pcProvider row = NormalizeProvider prov) \<and>
          x = row\<lparr>pcAccessKey := [], pcSecretKey := [], pcConfig := cloneAnyMap (pcConfig row)\<rparr>))"
proof -
  have wf: "gm_wf (credentials s)" using assms(1) by (simp add: store_inv_def creds_inv_def)
  have "sorted_wrt (\<lambda>a b. \<not> then_by pcCreatedAt (by_desc pcCreatedAt) (by_desc pcID) b a) (ListProviderCredentials sub prov s)"
    using assms(2) by (simp add: ListProviderCredentials_def Let_def desc_desc.sorted_sort_by)
  then have "sorted_wrt (\<lambda>x y. pcCreatedAt x \<ge> pcCreatedAt y) (ListProviderCredentials sub prov s)"
    by (rule sorted_wrt_mono_rel [rotated]) (auto simp: then_by_def by_desc_def split: if_splits)
  moreover have "x \<in> set (ListProviderCredentials sub prov s) \<longleftrightarrow>
       (\<exists>i row. gm_get (credentials s) i = Some row \<and> pcUserID row = uid \<and>
          (NormalizeProvider prov = [] \<or> pcProvider row = NormalizeProvider prov) \<and>
          x = row\<lparr>pcAccessKey := [], pcSecretKey := [], pcConfig := cloneAnyMap (pcConfig row)\<rparr>)"
    using assms(2) by (auto simp: ListProviderCredentials_def Let_def set_gm_rows [OF wf])
  ultimately show ?thesis by blast
qed

theorem ListProviderCredentials_own_and_blank_witness:
  "\<exists>x \<in> set (ListProviderCredentials '' dev-user'' ''ecoflow'' sample_store2).
     pcID x = ''cred-1'' \<and> pcAccessKey x = [] \<and> pcSecretKey x = []"
proof -
  have t: "TrimSpace '' dev-user'' = ''dev-user''" by code_simp
  have inv: "store_inv sample_sha sample_store2" by (rule store_runs.reach_inv [OF reach_store2])
  obtain c where c: "gm_get (credentials sample_store2) ''cred-1'' = Some c" "pcUserID c = ''dev-user-id-1''"
    "pcProvider c = ''ecoflow''" "pcID c = ''cred-1''" using sample_creds(1) by simp
  have "c\<lparr>pcAccessKey := [], pcSecretKey := [], pcConfig := cloneAnyMap (pcConfig c)\<rparr>
      \<in> set (ListProviderCredentials '' dev-user'' ''ecoflow'' sample_store2)"
    using ListProviderCredentials_own_and_blank [OF inv, of "'' dev-user''" "''dev-user-id-1''" "''ecoflow''"
        "c\<lparr>pcAccessKey := [], pcSecretKey := [], pcConfig := cloneAnyMap (pcConfig c)\<rparr>"] c sample_subject(1)
    unfolding t sample_ecoflow by blast
  then show ?thesis using c(4) by (intro bexI [of _ "c\<lparr>pcAccessKey := [], pcSecretKey := [], pcConfig := cloneAnyMap (pcConfig c)\<rparr>"]) simp_all
qed

text \<open>A user can neither read nor change a credential of another user: every operation that names it
  answers that there is no such credential and leaves the store as it was.\<close>

theorem credential_of_another_user:
  assumes "gm_get (credentials s) cid = Some row" "gm_get (usersBySubject s) (TrimSpace sub) \<noteq> Some (pcUserID row)"
    and "ucUserSubject inp = sub" "ucCredentialID inp = cid"
  shows "GetProviderCredential sub cid s = Inl ErrCredentialNotFound \<and>
    SetProviderCredentialActive clock sub cid act s = (s, Inl ErrCredentialNotFound) \<and>
    UpdateProviderCredential sha clock inp s = (s, Inl ErrCredentialNotFound)"
proof -
  have "ownCredential sub cid s = None" using assms(1,2) by (auto simp: ownCredential_def split: option.splits)
  then show ?thesis using assms(3,4)
    by (simp add: GetProviderCredential_def SetProviderCredentialActive_def UpdateProviderCredential_def)
qed

theorem credential_of_another_user_witness:
  "SetProviderCredentialActive 9 ''kc-2'' ''cred-1'' True sample_store2 = (sample_store2, Inl ErrCredentialNotFound)"
  using credential_of_another_user [OF sample_creds(1), of "''kc-2''"
      "\<lparr>ucUserSubject = ''kc-2'', ucCredentialID = ''cred-1'', ucAccessKey = ''x'', ucSecretKey = ''y'', ucConfig = None, ucIsActive = True\<rparr>"
      9 True sample_sha] sample_subject(2)
  by simp

text \<open>Activating a credential moves the user's devices of that provider to it: afterwards every
  ingest assignment of a device of the provider whose credential is one of the user's for that
  provider uses the activated credential, with its keys, and that credential is active.\<close>

theorem activation_moves_devices:
  assumes "store_inv sha s" "SetProviderCredentialActive clock sub cid True s = (s', Inr row)"
    and "a \<in> set (ListIngestAssignments prov act s')" "iaProvider a = pcProvider row"
    and "gm_get (credentials s') (iaCredentialID a) = Some c" "pcUserID c = pcUserID row" "pcProvider c = pcProvider row"
  shows "iaCredentialID a = cid \<and> iaCredentialIsActive a \<and> iaAccessKey a = pcAccessKey row"
proof -
  have inv': "store_inv sha s'" using SetProviderCredentialActive_inv [OF assms(1), of clock sub cid True] assms(2) by simp
  from assms(2) obtain row0 where own: "ownCredential sub cid s = Some row0"
    and commit: "commitCredential (normalizeWriteTime clock) (row0\<lparr>pcIsActive := True, pcUpdatedAt := normalizeWriteTime clock\<rparr>) s = (s', Inr row)"
    by (auto simp: SetProviderCredentialActive_def Let_def split: option.splits)
  let ?row = "row0\<lparr>pcIsActive := True, pcUpdatedAt := normalizeWriteTime clock\<rparr>"
  have cid: "pcID row0 = cid" using ownCredential_row(2) [OF store_invD(2) [OF assms(1)] own] .
  have row: "row = cloneProviderCredential ?row" using commit by (simp add: commitCredential_def Let_def)
  from assms(3) obtain i dev cred where dev: "gm_get (providerDevices s') i = Some dev" "a = assignmentOf dev cred"
    "gm_get (credentials s') (pdCredentialID dev) = Some cred"
    by (auto simp: ListIngestAssignments_mem [OF inv'])
  have "NormalizeProvider (pdProvider dev) = pdProvider dev"
    using store_invD(5) [OF inv'] dev(1) by (auto simp: pdevs_inv_def pdev_row_def dest: gm_allD)
  with commitCredential_rebinds [OF commit _ dev(1) _ dev(3)] assms(4-7) dev row cid
  have id: "pdCredentialID dev = cid" by (simp add: assignmentOf_def cloneProviderCredential_def)
  with dev(3) commitCredential_get [OF commit, of cid] cid have "cred = ?row" by simp
  with id dev(2) row show ?thesis by (simp add: assignmentOf_def cloneProviderCredential_def)
qed

definition sample_store3 :: MemoryStore where
  "sample_store3 = applyOp sample_sha (OpUpsertProviderDevice 4
     \<lparr>upsDeviceID = [], upsProvider = ''ecoflow'', upsProviderDeviceID = ''SN1'', upsCredentialID = ''cred-1'', upsProductName = [],
      upsModel = [], upsCapabilities = None, upsMetadata = None, upsIsActive = True, upsIngestDesiredState = ''active''\<rparr>) sample_store2"

lemmas sample_eval = sample_store2_def sample_store1_def sample_store0_def NewMemoryStore_def CreateProviderCredential_def
  sample_cred_def gm_get_def providerAccessKeyExistsLocked_def gm_find_def commitCredential_def nextID_def Let_def sample_ids
  sample_ecoflow setExclusiveCredentialActiveLocked_def rebindProviderDevicesLocked_def normalizeWriteTime_def cloneAnyMap_def
  gm_put_def gm_map_def

lemma sample_store2_rest:
  "idCounter sample_store2 = 2" "providerDevices sample_store2 = []" "devicesByID sample_store2 = []"
  using sample_hash by (simp_all add: sample_eval)

lemma sample_id3: "seqID ''pdev'' 3 = ''pdev-3''" "ToUpper ''SN1'' = ''SN1''" "ToLower ''active'' = ''active''"
  by code_simp+

definition sample_pdev :: ProviderDevice where
  "sample_pdev = \<lparr>pdID = ''pdev-3'', pdDeviceID = [], pdProvider = ''ecoflow'', pdProviderDeviceID = ''SN1'',
     pdCredentialID = ''cred-1'', pdCanonicalSN = ''SN1'', pdProductName = [], pdModel = [], pdCapabilities = None,
     pdMetadata = None, pdIsActive = True, pdIngestDesiredState = ''active''\<rparr>"

lemma sample_upsert:
  "sample_store3 = sample_store2\<lparr>idCounter := 3, providerDevices := [(''pdev-3'', sample_pdev)]\<rparr>"
  by (simp add: sample_store3_def UpsertProviderDevice_def providerDeviceSlot_def sample_store2_rest gm_find_def nextID_def Let_def
      sample_id3 refreshDevice_def gm_get_def gm_put_def orElse_def zeroProviderDevice_def sample_ecoflow sample_pdev_def
      refreshedMap_def cloneAnyMap_def)

lemma reach_store3: "reach store_init (store_step sample_sha) sample_store3"
proof -
  have "id_room sample_store2" by (simp add: id_room_def sample_store2_rest)
  then show ?thesis unfolding sample_store3_def by (intro reach_step [OF reach_store2] step_op)
qed

lemma sample_inv3: "store_inv sample_sha sample_store3"
  by (rule store_runs.reach_inv [OF reach_store3])

theorem activation_moves_devices_witness:
  "\<exists>s' row a. SetProviderCredentialActive 5 ''dev-user'' ''cred-2'' True sample_store3 = (s', Inr row) \<and>
     a \<in> set (ListIngestAssignments [] False s') \<and> iaProviderDeviceID a = ''SN1'' \<and> iaCredentialID a = ''cred-2'' \<and>
     iaCredentialIsActive a \<and> iaAccessKey a = ''AK2''"
proof -
  obtain dev where s3: "sample_store3 = sample_store2\<lparr>idCounter := 3, providerDevices := [(''pdev-3'', dev)]\<rparr>"
    and dev: "pdID dev = ''pdev-3''" "pdProvider dev = ''ecoflow''" "pdCredentialID dev = ''cred-1''" "pdProviderDeviceID dev = ''SN1''"
    using sample_upsert by (simp add: sample_pdev_def)
  obtain row0 where row0: "gm_get (credentials sample_store3) ''cred-2'' = Some row0" "pcID row0 = ''cred-2''"
    "pcUserID row0 = ''dev-user-id-1''" "pcProvider row0 = ''ecoflow''" "pcAccessKey row0 = ''AK2''"
    using sample_creds(2) by (simp add: s3)
  have own: "ownCredential ''dev-user'' ''cred-2'' sample_store3 = Some row0"
    using row0 sample_subject(1) by (simp add: ownCredential_def s3)
  let ?row = "row0\<lparr>pcIsActive := True, pcUpdatedAt := normalizeWriteTime 5\<rparr>"
  obtain s' where commit: "commitCredential (normalizeWriteTime 5) ?row sample_store3 = (s', Inr (cloneProviderCredential ?row))"
    by (simp add: commitCredential_def Let_def)
  then have set: "SetProviderCredentialActive 5 ''dev-user'' ''cred-2'' True sample_store3 = (s', Inr (cloneProviderCredential ?row))"
    using own by (simp add: SetProviderCredentialActive_def Let_def)
  have inv': "store_inv sample_sha s'"
    using SetProviderCredentialActive_inv [OF sample_inv3, of 5 "''dev-user''" "''cred-2''" True] set by simp
  have c1: "\<exists>c. gm_get (credentials s') ''cred-1'' = Some c \<and> pcUserID c = ''dev-user-id-1'' \<and> pcProvider c = ''ecoflow''"
    using commitCredential_get [OF commit, of "''cred-1''"] sample_creds(1) row0 by (simp add: s3)
  obtain f :: "ProviderDevice \<Rightarrow> string" where f: "providerDevices s' = gm_map (\<lambda>_ p. p\<lparr>pdCredentialID := f p\<rparr>) (providerDevices sample_store3)"
    and fd: "f dev = ''cred-1'' \<or> f dev = ''cred-2''"
    using commitCredential_pdev [OF commit] dev(3) row0(2) by (metis ProviderCredential.select_convs(1) ProviderCredential.surjective ProviderCredential.update_convs(8,10))
  then have d': "gm_get (providerDevices s') ''pdev-3'' = Some (dev\<lparr>pdCredentialID := f dev\<rparr>)" by (simp add: s3 gm_get_def gm_map_def)
  have "\<exists>c. gm_get (credentials s') (f dev) = Some c \<and> pcUserID c = ''dev-user-id-1'' \<and> pcProvider c = ''ecoflow''"
    using fd c1 row0 commitCredential_get [OF commit, of "''cred-2''"] by auto
  then obtain c where c: "gm_get (credentials s') (f dev) = Some c" "pcUserID c = ''dev-user-id-1''" "pcProvider c = ''ecoflow''" by blast
  let ?a = "assignmentOf (dev\<lparr>pdCredentialID := f dev\<rparr>) c"
  have mem: "?a \<in> set (ListIngestAssignments [] False s')"
    unfolding ListIngestAssignments_mem [OF inv']
    by (intro exI [of _ "''pdev-3''"] exI [of _ "dev\<lparr>pdCredentialID := f dev\<rparr>"] exI [of _ c])
       (use d' c(1) in \<open>simp add: wantedDevice_def NormalizeProvider_def ToLower_def\<close>)
  have "iaCredentialID ?a = ''cred-2'' \<and> iaCredentialIsActive ?a \<and> iaAccessKey ?a = pcAccessKey (cloneProviderCredential ?row)"
    by (rule activation_moves_devices [OF sample_inv3 set mem])
       (use c row0 dev in \<open>simp_all add: assignmentOf_def cloneProviderCredential_def\<close>)
  with mem set row0 dev(4) show ?thesis
    by (intro exI [of _ s'] exI [of _ "cloneProviderCredential ?row"] exI [of _ ?a])
       (simp add: assignmentOf_def cloneProviderCredential_def)
qed

section \<open>Roles\<close>

lemma roleOf_cong: "userDevices s' = userDevices s \<Longrightarrow> roleOf s' = roleOf s"
  by (simp add: roleOf_def fun_eq_iff)

lemma roleOf_set:
  "roleOf (ensureUserDeviceRoleLocked u d r s) uid did = (if uid = u \<and> did = d then TrimSpace r else roleOf s uid did)"
  by (auto simp: roleOf_def ensureUserDeviceRoleLocked_def Let_def split: option.splits)

lemma ensureDevice_roles: "ensureDeviceLocked sn pn mo now s = (s1, dev, cr) \<Longrightarrow> userDevices s1 = userDevices s"
  by (auto simp: ensureDeviceLocked_def Let_def nextUUID_def split: if_splits option.splits)

lemma roleOf_upd [simp]:
  "roleOf (s\<lparr>devicesByID := a\<rparr>) = roleOf s" "roleOf (s\<lparr>providerDevices := b\<rparr>) = roleOf s"
  "roleOf (s\<lparr>edgeSources := c\<rparr>) = roleOf s"
  by (simp_all add: roleOf_def fun_eq_iff)

lemma claimDevice_roles:
  assumes "claimDevice now u sn pn mo s = (s', dev)"
  shows "roleOf s' uid did = (if uid = u \<and> did = mdID dev then ''admin'' else roleOf s uid did)"
proof -
  obtain s1 dev0 cr where e: "ensureDeviceLocked sn pn mo now s = (s1, dev0, cr)" by (metis prod_cases3)
  with assms show ?thesis using roleOf_cong [OF ensureDevice_roles [OF e]]
    by (cases cr) (auto simp: claimDevice_def Let_def roleOf_set)
qed

lemma slot_roles: "providerDeviceSlot p d s = (s1, i) \<Longrightarrow> userDevices s1 = userDevices s"
  by (auto simp: providerDeviceSlot_def nextID_def Let_def split: if_splits)

lemma refresh_roles: "refreshDevice d pn mo now c s = (s1, x) \<Longrightarrow> userDevices s1 = userDevices s"
  by (auto simp: refreshDevice_def Let_def split: option.splits)

lemma UpsertProviderDevice_roles: "userDevices (fst (UpsertProviderDevice now inp s)) = userDevices s"
  by (auto simp: UpsertProviderDevice_def Let_def dest!: slot_roles refresh_roles split: prod.splits)

lemma credential_ops_roles:
  "userDevices (fst (CreateProviderCredential sha now inp s)) = userDevices s"
  "userDevices (fst (SetProviderCredentialActive now sub cid act s)) = userDevices s"
  "userDevices (fst (UpdateProviderCredential sha now uinp s)) = userDevices s"
proof -
  have c: "userDevices (fst (commitCredential n row t)) = userDevices t" for n row t
    using commitCredential_frame(1) [of n row t] by (cases "commitCredential n row t") (simp add: only_creds_def)
  show "userDevices (fst (CreateProviderCredential sha now inp s)) = userDevices s"
    by (simp add: CreateProviderCredential_def nextID_def Let_def c split: option.splits)
  show "userDevices (fst (SetProviderCredentialActive now sub cid act s)) = userDevices s"
    by (simp add: SetProviderCredentialActive_def Let_def c split: option.splits)
  show "userDevices (fst (UpdateProviderCredential sha now uinp s)) = userDevices s"
    by (simp add: UpdateProviderCredential_def Let_def c split: option.splits)
qed

lemma edge_ops_roles:
  "userDevices (fst (CreateEdgeCollector now sub dn tok s)) = userDevices s"
  "userDevices (fst (RevokeEdgeCollectorSetupToken now sub cid s)) = userDevices s"
  "userDevices (fst (EnrollEdgeCollector now tok sec ver host s)) = userDevices s"
  "userDevices (fst (UpdateEdgeCollectorHeartbeat now cid ver host s)) = userDevices s"
  "userDevices (fst (UpsertEdgeDeviceSource now einp s)) = userDevices s"
  by (auto simp: CreateEdgeCollector_def RevokeEdgeCollectorSetupToken_def EnrollEdgeCollector_def UpdateEdgeCollectorHeartbeat_def
      UpsertEdgeDeviceSource_def nextUUID_def Let_def split: option.splits prod.splits if_splits)

lemma user_ops_roles:
  assumes "users_inv s" "id_room s"
  shows "userDevices (fst (EnsureUser now sub s)) = userDevices s"
    "userDevices (fst (GetOrProvisionCurrentUser n1 n2 inp s)) = userDevices s"
    "userDevices (fst (UpdateCurrentUserProfile now pinp s)) = userDevices s"
    "userDevices (fst (ReconcileUserSubjectByEmail now email sub s)) = userDevices s"
  using EnsureUser_inv [OF assms] GetOrProvisionCurrentUser_inv [OF assms] UpdateCurrentUserProfile_inv [OF assms(1)]
    ReconcileUserSubjectByEmail_inv [OF assms(1)]
  by (simp_all add: only_users_def)

lemma CreateDevice_roles:
  assumes "roleOf (fst (CreateDevice now sub sn pn mo s)) uid did \<noteq> roleOf s uid did"
  shows "gm_get (usersBySubject s) (TrimSpace sub) = Some uid"
  using assms by (auto simp: CreateDevice_claim claimDevice_roles split: if_splits option.splits prod.splits)

lemma ImportProviderDevice_roles:
  assumes "roleOf (fst (ImportProviderDevice now inp s)) uid did \<noteq> roleOf s uid did"
  shows "gm_get (usersBySubject s) (TrimSpace (ipUserSubject inp)) = Some uid"
proof (rule ccontr)
  assume no: "\<not> ?thesis"
  have "roleOf (fst (ImportProviderDevice now inp s)) uid did = roleOf s uid did"
    using no
    by (auto simp: ImportProviderDevice_def Let_def roleOf_set dest!: slot_roles ensureDevice_roles
        split: option.splits prod.splits if_splits)
       (auto simp: roleOf_def ensureUserDeviceRoleLocked_def Let_def split: option.splits if_splits)
  with assms show False by simp
qed

lemma ApproveEdgeDeviceSource_roles:
  assumes inv: "store_inv sha s" and room: "id_room s"
    and ch: "roleOf (fst (ApproveEdgeDeviceSource now sub sid dv pn mo s)) uid did \<noteq> roleOf s uid did"
  shows "gm_get (usersBySubject s) (TrimSpace sub) = Some uid \<and> device_sn s did = None"
proof -
  from ch obtain src where src: "gm_get (usersBySubject s) (TrimSpace sub) = Some (esUserID src)"
    "gm_get (edgeSources s) (TrimSpace sid) = Some src" "validateEdgeDeviceSourceApproval src = None"
    by (auto simp: ApproveEdgeDeviceSource_def split: option.splits if_splits)
  have can: "canonical_sn (esProviderDeviceID src)"
    using source_get_row [OF store_invD(7) [OF inv] src(2)] by (auto simp: source_row_def)
  obtain s1 res where t: "approvalTarget (normalizeWriteTime now) (esUserID src) src dv pn mo s = (s1, res)" by fastforce
  note spec = approvalTarget_spec [OF inv room can t]
  have same: "roleOf s1 = roleOf s" using spec by (intro roleOf_cong) simp
  from ch src t same obtain dev where dev: "res = Inr dev"
    by (cases res) (auto simp: ApproveEdgeDeviceSource_def)
  have role: "roleOf (fst (ApproveEdgeDeviceSource now sub sid dv pn mo s)) uid did =
      (if uid = esUserID src \<and> did = mdID dev then ''admin'' else roleOf s uid did)"
    using src t dev same by (simp add: ApproveEdgeDeviceSource_def Let_def roleOf_set)
  with ch have eq: "uid = esUserID src" "did = mdID dev" "roleOf s uid (mdID dev) \<noteq> ''admin''" by (auto split: if_splits)
  with spec dev have none: "gm_get (deviceBySN s) (esProviderDeviceID src) = None"
    and sn1: "device_sn s1 (mdID dev) = Some (esProviderDeviceID src)" by (auto simp: device_sn_def)
  have "device_sn s (mdID dev) \<noteq> Some x" for x
    using spec sn1 none store_invD(3) [OF inv] unfolding grows_def devices_inv_def by (metis option.distinct(1) option.inject)
  then show ?thesis using src(1) eq by auto
qed

text \<open>C20: Roles change only with authority. An operation changes a role of a user on a device only if it is
  a \<open>LinkDevice\<close> whose caller is an admin of the device, or a \<open>CreateDevice\<close> or an import by that very
  user, or that user's approval of a source that creates the device.\<close>

theorem role_changes_authorised:
  assumes "store_inv sha s" "id_room s" "roleOf (applyOp sha op s) uid did \<noteq> roleOf s uid did"
  shows "(\<exists>sub target role d rid. op = OpLinkDevice sub target d role \<and> did = TrimSpace d \<and>
       gm_get (usersBySubject s) (TrimSpace sub) = Some rid \<and> roleOf s rid did = ''admin'') \<or>
    (\<exists>now sub sn pn mo. op = OpCreateDevice now sub sn pn mo \<and> gm_get (usersBySubject s) (TrimSpace sub) = Some uid) \<or>
    (\<exists>now inp. op = OpImportProviderDevice now inp \<and> gm_get (usersBySubject s) (TrimSpace (ipUserSubject inp)) = Some uid) \<or>
    (\<exists>now sub sid dv pn mo. op = OpApproveSource now sub sid dv pn mo \<and>
       gm_get (usersBySubject s) (TrimSpace sub) = Some uid \<and> device_sn s did = None)"
proof -
  have changed: "userDevices (applyOp sha op s) \<noteq> userDevices s" using assms(3) by (metis roleOf_cong)
  note frames = user_ops_roles [OF store_invD(1) [OF assms(1)] assms(2)] credential_ops_roles edge_ops_roles UpsertProviderDevice_roles
  show ?thesis
  proof (cases op)
    case (OpLinkDevice sub target d role)
    with assms(3) obtain rid where "gm_get (usersBySubject s) (TrimSpace sub) = Some rid" "roleOf s rid (TrimSpace d) = ''admin''"
      "did = TrimSpace d"
      by (auto simp: LinkDevice_def Let_def roleOf_set split: option.splits if_splits)
    with OpLinkDevice show ?thesis by blast
  next
    case (OpCreateDevice now sub sn pn mo)
    with assms(3) CreateDevice_roles show ?thesis by auto
  next
    case (OpImportProviderDevice now inp)
    with assms(3) ImportProviderDevice_roles show ?thesis by auto
  next
    case (OpApproveSource now sub sid dv pn mo)
    with assms(3) ApproveEdgeDeviceSource_roles [OF assms(1,2)] show ?thesis by auto
  qed (use changed frames in simp_all)
qed

definition sample_store4 :: MemoryStore where
  "sample_store4 = applyOp sample_sha (OpCreateDevice 4 ''dev-user'' ''SN1'' [] []) sample_store2"

lemma sample_uuid3: "seqUUID 3 = ''00000000-0000-4000-8000-000000000003''" "ToUpper ''SN1'' = ''SN1''"
  by code_simp+

lemma sample_role: "roleOf sample_store4 ''dev-user-id-1'' ''00000000-0000-4000-8000-000000000003'' = ''admin''"
  using sample_subject(1) sample_store2_rest
  by (simp add: sample_store4_def CreateDevice_def ensureDeviceLocked_def Let_def nextUUID_def sample_uuid3 roleOf_set
      split: option.splits)
     (simp add: sample_eval)

theorem role_changes_authorised_witness:
  "gm_get (usersBySubject sample_store2) (TrimSpace ''dev-user'') = Some ''dev-user-id-1''"
proof -
  have inv: "store_inv sample_sha sample_store2" by (rule store_runs.reach_inv [OF reach_store2])
  have room: "id_room sample_store2" by (simp add: id_room_def sample_store2_rest)
  have none: "roleOf sample_store2 ''dev-user-id-1'' ''00000000-0000-4000-8000-000000000003'' = []"
    using store_invD(4) [OF inv] sample_store2_rest(3)
    by (auto simp: roleOf_def roles_inv_def role_row_def device_sn_def gm_all_def split: option.splits Option.bind_splits)
  have "roleOf (applyOp sample_sha (OpCreateDevice 4 ''dev-user'' ''SN1'' [] []) sample_store2) ''dev-user-id-1''
      ''00000000-0000-4000-8000-000000000003'' \<noteq> roleOf sample_store2 ''dev-user-id-1'' ''00000000-0000-4000-8000-000000000003''"
    using sample_role none unfolding sample_store4_def by simp
  from role_changes_authorised [OF inv room this] show ?thesis by auto
qed

section \<open>Accounts\<close>

text \<open>Moving an account to a new subject needs a user with that verified email; afterwards the new subject
  names that user, the old subject names nobody, and the user's devices and roles are what they were.\<close>

theorem Reconcile_moves_account:
  assumes inv: "store_inv sha s" and run: "ReconcileUserSubjectByEmail now email sub s = (s', Inr u)"
    and new: "gm_get (usersBySubject s) (TrimSpace sub) = None"
  shows "\<exists>old. gm_get (usersByID s) (cuID u) = Some old \<and> cuEmailVerified old \<and>
    EqualFold (TrimSpace (cuEmail old)) (TrimSpace email) \<and>
    gm_get (usersBySubject s') (TrimSpace sub) = Some (cuID u) \<and> gm_get (usersBySubject s') (cuKeycloakSubject old) = None \<and>
    ListUserDevices sub s' = ListUserDevices (cuKeycloakSubject old) s"
proof -
  let ?P = "\<lambda>_ user. cuEmailVerified user \<and> EqualFold (TrimSpace (cuEmail user)) (TrimSpace email)"
  note uinv = store_invD(1) [OF inv]
  from run new obtain uid old where f: "gm_find ?P (usersByID s) = Some (uid, old)"
    by (auto simp: ReconcileUserSubjectByEmail_def Let_def split: if_splits option.splits)
  have wf: "gm_wf (usersByID s)" using uinv by (simp add: users_inv_def)
  note old = gm_find_SomeD [OF f wf]
  have row: "cuID old = uid" "TrimSpace (cuKeycloakSubject old) = cuKeycloakSubject old"
    "gm_get (usersBySubject s) (cuKeycloakSubject old) = Some uid"
    using uinv old(1) by (auto simp: users_inv_def user_row_def TrimSpace_trimmed dest: gm_allD)
  from run new f row(1,2) have r: "cuID u = uid"
    "s' = s\<lparr>usersByID := gm_put uid u (usersByID s),
       usersBySubject := gm_put (TrimSpace sub) uid (gm_del (cuKeycloakSubject old) (usersBySubject s))\<rparr>"
    by (auto simp: ReconcileUserSubjectByEmail_def Let_def split: if_splits)
  have ne: "cuKeycloakSubject old \<noteq> TrimSpace sub" using row(3) new by auto
  then have "ListUserDevices sub s' = ListUserDevices (cuKeycloakSubject old) s"
    using row r by (simp add: ListUserDevices_def)
  with old row r ne show ?thesis by simp
qed

definition sample_login :: GetOrProvisionCurrentUserInput where
  "sample_login = \<lparr>gpUserSubject = ''kc-1'', gpEmail = ''a@b'', gpEmailVerified = True, gpDisplayName = ''a@b'', gpAvatarURL = [],
     gpGivenName = [], gpFamilyName = [], gpLocale = []\<rparr>"

definition sample_store5 :: MemoryStore where
  "sample_store5 = applyOp sample_sha (OpProvision 2 2 sample_login) sample_store0"

lemma sample_usr: "seqID ''usr'' 1 = ''usr-1''"
  by code_simp

lemma sample_inv5: "store_inv sample_sha sample_store5"
proof -
  have "id_room sample_store0" by (simp add: id_room_def sample_store0_def NewMemoryStore_def)
  then show ?thesis unfolding sample_store5_def
    by (intro applyOp_inv store_runs.reach_inv [OF reach_store0])
qed

theorem Reconcile_moves_account_witness:
  "\<exists>s' u. ReconcileUserSubjectByEmail 3 ''a@b'' ''kc-2'' sample_store5 = (s', Inr u) \<and>
     gm_get (usersBySubject s') ''kc-2'' = Some ''usr-1'' \<and> gm_get (usersBySubject s') ''kc-1'' = None"
proof -
  obtain u where s5: "usersBySubject sample_store5 = [(''dev-user'', ''dev-user-id-1''), (''kc-1'', ''usr-1'')]"
    "usersByID sample_store5 = [(''dev-user-id-1'', providerUser ''dev-user-id-1'' ''dev-user'' 1), (''usr-1'', u)]"
    "cuEmailVerified u" "cuEmail u = ''a@b''" "cuID u = ''usr-1''" "cuKeycloakSubject u = ''kc-1''"
    by (simp add: sample_store5_def sample_login_def sample_store0_def GetOrProvisionCurrentUser_def ensureUserLocked_def NewMemoryStore_def
        gm_get_def gm_put_def nextID_def Let_def sample_usr providerUser_def zeroCurrentUser_def normalizeWriteTime_def loginDisplayName_def
        PreferredProviderDisplayName_def)
  have new: "gm_get (usersBySubject sample_store5) (TrimSpace ''kc-2'') = None" by (simp add: s5 gm_get_def)
  obtain s' u' where run: "ReconcileUserSubjectByEmail 3 ''a@b'' ''kc-2'' sample_store5 = (s', Inr u')" "cuID u' = ''usr-1''"
    using s5 by (simp add: ReconcileUserSubjectByEmail_def Let_def gm_get_def gm_find_def providerUser_def zeroCurrentUser_def EqualFold_def)
  from Reconcile_moves_account [OF sample_inv5 run(1) new] run s5 show ?thesis by (auto simp: gm_get_def)
qed

section \<open>Edge collectors\<close>

text \<open>C21: Enrolment consumes its token. A collector is enrolled only by the token it was created with, only
  while it is inactive and no longer than the lifetime of a token after its creation; afterwards it is
  active under the given secret, authenticates with it (when no other collector has that secret), and
  the token enrols nothing any more (when no other collector has that token).\<close>

theorem Enroll_single_use:
  assumes inv: "store_inv sha s" and run: "EnrollEdgeCollector clock tok sec ver host s = (s', Inr row')"
  shows "(\<exists>row. gm_get (edgeCollectors s) (ecID row') = Some row \<and> ecSetupTokenHash row = TrimSpace tok \<and> \<not> ecIsActive row \<and>
       clock - edgeCollectorSetupTokenTTL \<le> ecCreatedAt row \<and> ecUserID row' = ecUserID row) \<and>
    gm_get (edgeCollectors s') (ecID row') = Some row' \<and> ecIsActive row' \<and>
    ((\<forall>j c. gm_get (edgeCollectors s) j = Some c \<longrightarrow> ecCollectorSecretHash c \<noteq> TrimSpace sec) \<longrightarrow>
       AuthenticateEdgeCollector sec s' = Inr row') \<and>
    ((\<forall>j c. gm_get (edgeCollectors s) j = Some c \<longrightarrow> ecSetupTokenHash c = TrimSpace tok \<longrightarrow> j = ecID row') \<longrightarrow>
       EnrollEdgeCollector clock' tok sec' ver' host' s' = (s', Inl ErrEdgeCollectorNotFound))"
  using store_invD(6) [OF inv] run
proof (rule EnrollEdgeCollector_InrD)
  fix i row
  assume row: "gm_get (edgeCollectors s) i = Some row" "ecSetupTokenHash row = TrimSpace tok" "\<not> ecIsActive row"
    "normalizeWriteTime clock - edgeCollectorSetupTokenTTL \<le> ecCreatedAt row" and ne: "TrimSpace tok \<noteq> []" "TrimSpace sec \<noteq> []"
    and row': "row' = row\<lparr>ecSetupTokenHash := [], ecCollectorSecretHash := TrimSpace sec, ecCollectorVersion := TrimSpace ver,
       ecHostname := TrimSpace host, ecIsActive := True, ecLastHeartbeatAt := normalizeWriteTime clock,
       ecUpdatedAt := normalizeWriteTime clock\<rparr>"
    and s': "s' = s\<lparr>edgeCollectors := gm_put i row' (edgeCollectors s)\<rparr>"
  have id: "ecID row = i" using collector_get_row [OF store_invD(6) [OF inv] row(1)] by (simp add: collector_row_def)
  then have id': "ecID row' = i" by (simp add: row')
  have wf': "gm_wf (edgeCollectors s')" using store_invD(6) [OF inv] by (simp add: s' collectors_inv_def)
  have auth: "AuthenticateEdgeCollector sec s' = Inr row'"
    if u: "\<forall>j c. gm_get (edgeCollectors s) j = Some c \<longrightarrow> ecCollectorSecretHash c \<noteq> TrimSpace sec"
  proof -
    have "gm_find (\<lambda>_ c. ecCollectorSecretHash c = TrimSpace sec \<and> ecIsActive c) (edgeCollectors s') = Some (i, row')"
      by (rule gm_find_cong_unique [OF wf']) (use u in \<open>auto simp: s' row' split: if_splits\<close>)
    then show ?thesis using ne by (simp add: AuthenticateEdgeCollector_def)
  qed
  have enr: "EnrollEdgeCollector clock' tok sec' ver' host' s' = (s', Inl ErrEdgeCollectorNotFound)"
    if u: "\<forall>j c. gm_get (edgeCollectors s) j = Some c \<longrightarrow> ecSetupTokenHash c = TrimSpace tok \<longrightarrow> j = i"
  proof -
    have "gm_find (\<lambda>_ c. ecSetupTokenHash c = TrimSpace tok) (edgeCollectors s') = None"
    proof (cases "gm_find (\<lambda>_ c. ecSetupTokenHash c = TrimSpace tok) (edgeCollectors s')")
      case (Some jc)
      then obtain j c where "gm_get (edgeCollectors s') j = Some c" "ecSetupTokenHash c = TrimSpace tok"
        using gm_find_SomeD [OF _ wf'] by (cases jc) blast
      with u ne show ?thesis by (auto simp: s' row' split: if_splits)
    qed
    then show ?thesis by (simp add: EnrollEdgeCollector_def Let_def)
  qed
  have first: "clock - edgeCollectorSetupTokenTTL \<le> ecCreatedAt row" "ecUserID row' = ecUserID row" "ecIsActive row'"
    using row(4) by (simp_all add: row' normalizeWriteTime_def)
  have "gm_get (edgeCollectors s') i = Some row'" by (simp add: s')
  with row first auth enr show ?thesis unfolding id' by blast
qed

definition sample_store6 :: MemoryStore where
  "sample_store6 = applyOp sample_sha (OpCreateCollector 2 ''dev-user'' [] ''hash'') sample_store0"

lemma sample_uuid1: "seqUUID 1 = ''00000000-0000-4000-8000-000000000001''"
  by code_simp

lemma sample_inv6: "store_inv sample_sha sample_store6"
proof -
  have "id_room sample_store0" by (simp add: id_room_def sample_store0_def NewMemoryStore_def)
  then show ?thesis unfolding sample_store6_def
    by (intro applyOp_inv store_runs.reach_inv [OF reach_store0])
qed

definition sample_collector :: EdgeCollector where
  "sample_collector = \<lparr>ecID = ''00000000-0000-4000-8000-000000000001'', ecUserID = ''dev-user-id-1'', ecDisplayName = ''Pulse Edge Collector'',
     ecSetupTokenHash = ''hash'', ecCollectorSecretHash = [], ecIsActive = False, ecCollectorVersion = [], ecHostname = [],
     ecLastHeartbeatAt = 0, ecCreatedAt = 2, ecUpdatedAt = 2\<rparr>"

lemma sample_collectors: "edgeCollectors sample_store6 = [(''00000000-0000-4000-8000-000000000001'', sample_collector)]"
  by (simp add: sample_store6_def sample_store0_def NewMemoryStore_def CreateEdgeCollector_def gm_get_def nextUUID_def Let_def
      sample_uuid1 gm_put_def orElse_def normalizeWriteTime_def sample_collector_def)

theorem Enroll_single_use_witness:
  "\<exists>s' row. EnrollEdgeCollector 3 ''hash'' ''secret'' [] [] sample_store6 = (s', Inr row) \<and>
     AuthenticateEdgeCollector ''secret'' s' = Inr row \<and>
     EnrollEdgeCollector 4 ''hash'' ''secret'' [] [] s' = (s', Inl ErrEdgeCollectorNotFound)"
proof -
  obtain s' row where run: "EnrollEdgeCollector 3 ''hash'' ''secret'' [] [] sample_store6 = (s', Inr row)"
    and id: "ecID row = ''00000000-0000-4000-8000-000000000001''"
    by (simp add: EnrollEdgeCollector_def Let_def sample_collectors gm_find_def sample_collector_def edgeCollectorSetupTokenCutoff_def
        normalizeWriteTime_def edgeCollectorSetupTokenTTL_def)
  from Enroll_single_use [OF sample_inv6 run, of 4 "''secret''" "[]" "[]"] run id show ?thesis
    by (auto simp: sample_collectors gm_get_def sample_collector_def)
qed

text \<open>A setup token that its owner has revoked enrols nothing (when no other collector has that token).\<close>

theorem revoked_token_rejected:
  assumes inv: "store_inv sha s" and c: "gm_get (edgeCollectors s) (TrimSpace cid) = Some c" "\<not> ecIsActive c"
    and tok: "ecSetupTokenHash c = TrimSpace tok"
    and uniq: "\<forall>j d. gm_get (edgeCollectors s) j = Some d \<longrightarrow> ecSetupTokenHash d = TrimSpace tok \<longrightarrow> j = TrimSpace cid"
    and run: "RevokeEdgeCollectorSetupToken clock sub cid s = (s', Inr row)"
  shows "EnrollEdgeCollector clock' tok sec ver host s' = (s', Inl ErrEdgeCollectorNotFound)"
proof (cases "TrimSpace tok = []")
  case True
  then show ?thesis by (simp add: EnrollEdgeCollector_def)
next
  case False
  with c tok run have s': "s' = s\<lparr>edgeCollectors := gm_put (TrimSpace cid) row (edgeCollectors s)\<rparr>" "ecSetupTokenHash row = []"
    by (auto simp: RevokeEdgeCollectorSetupToken_def Let_def split: option.splits if_splits)
  have wf': "gm_wf (edgeCollectors s')" using store_invD(6) [OF inv] by (simp add: s' collectors_inv_def)
  have "gm_find (\<lambda>_ d. ecSetupTokenHash d = TrimSpace tok) (edgeCollectors s') = None"
  proof (cases "gm_find (\<lambda>_ d. ecSetupTokenHash d = TrimSpace tok) (edgeCollectors s')")
    case (Some jc)
    then obtain j d where "gm_get (edgeCollectors s') j = Some d" "ecSetupTokenHash d = TrimSpace tok"
      using gm_find_SomeD [OF _ wf'] by (cases jc) blast
    with uniq s' False show ?thesis by (auto split: if_splits)
  qed
  then show ?thesis by (simp add: EnrollEdgeCollector_def Let_def)
qed

theorem revoked_token_rejected_witness:
  "\<exists>s' row. RevokeEdgeCollectorSetupToken 3 ''dev-user'' ''00000000-0000-4000-8000-000000000001'' sample_store6 = (s', Inr row) \<and>
     EnrollEdgeCollector 3 ''hash'' ''secret'' [] [] s' = (s', Inl ErrEdgeCollectorNotFound)"
proof -
  let ?id = "''00000000-0000-4000-8000-000000000001''"
  have c: "gm_get (edgeCollectors sample_store6) (TrimSpace ?id) = Some sample_collector" by (simp add: sample_collectors gm_get_def)
  have u: "usersBySubject sample_store6 = [(''dev-user'', ''dev-user-id-1'')]"
    by (simp add: sample_store6_def sample_store0_def NewMemoryStore_def CreateEdgeCollector_def gm_get_def nextUUID_def Let_def)
  obtain s' row where run: "RevokeEdgeCollectorSetupToken 3 ''dev-user'' ?id sample_store6 = (s', Inr row)"
    using c by (simp add: RevokeEdgeCollectorSetupToken_def u gm_get_def sample_collector_def Let_def)
  have "EnrollEdgeCollector 3 ''hash'' ''secret'' [] [] s' = (s', Inl ErrEdgeCollectorNotFound)"
    by (rule revoked_token_rejected [OF sample_inv6 c _ _ _ run]) (simp_all add: sample_collectors gm_get_def sample_collector_def)
  with run show ?thesis by blast
qed

end
