(* ===== verification/Cp_Queries.thy ===== *)
theory Cp_Queries
  imports Cp_Properties
begin

text \<open>
  What the store's compound operations and queries promise together: the approval of a source that an
  edge collector has found, the choice of a device's provider row, the options of the log filter and
  the single row a provider's device has.
\<close>

section \<open>Approval of a device source\<close>

lemma Approve_InrD:
  assumes inv: "store_inv sha s" and room: "id_room s"
    and run: "ApproveEdgeDeviceSource clock sub sid did pn mo s = (s', Inr (src', ud))"
  obtains src dev row where "gm_get (usersBySubject s) (TrimSpace sub) = Some (esUserID src)"
    "gm_get (edgeSources s) (TrimSpace sid) = Some src" "esID src = TrimSpace sid"
    "row = src\<lparr>esStatus := EdgeDeviceSourceStatusLinked, esLinkedDeviceID := mdID dev, esUpdatedAt := normalizeWriteTime clock\<rparr>"
    "src' = cloneEdgeDeviceSource row" "ud = userDeviceOf dev ''admin''" "mdEcoflowSN dev = esProviderDeviceID src"
    "gm_get (deviceBySN s) (esProviderDeviceID src) = None \<or> roleOf s (esUserID src) (mdID dev) = ''admin''"
    "edgeSources s' = gm_put (TrimSpace sid) row (edgeSources s)" "usersByID s' = usersByID s"
    "roleOf s' (esUserID src) (mdID dev) = ''admin''"
proof -
  from run obtain src where src: "gm_get (usersBySubject s) (TrimSpace sub) = Some (esUserID src)"
    "gm_get (edgeSources s) (TrimSpace sid) = Some src" "validateEdgeDeviceSourceApproval src = None"
    by (auto simp: ApproveEdgeDeviceSource_def split: option.splits if_splits)
  have can: "canonical_sn (esProviderDeviceID src)" and id: "esID src = TrimSpace sid"
    using source_get_row [OF store_invD(7) [OF inv] src(2)] by (auto simp: source_row_def)
  obtain s1 res where t: "approvalTarget (normalizeWriteTime clock) (esUserID src) src did pn mo s = (s1, res)" by fastforce
  note spec = approvalTarget_spec [OF inv room can t]
  from run src t obtain dev where dev: "res = Inr dev" by (cases res) (auto simp: ApproveEdgeDeviceSource_def)
  let ?src' = "src\<lparr>esStatus := EdgeDeviceSourceStatusLinked, esLinkedDeviceID := mdID dev, esUpdatedAt := normalizeWriteTime clock\<rparr>"
  let ?s2 = "ensureUserDeviceRoleLocked (esUserID src) (mdID dev) ''admin'' s1"
  from run src t dev id have eqs: "s' = ?s2\<lparr>edgeSources := gm_put (TrimSpace sid) ?src' (edgeSources ?s2)\<rparr>"
    "src' = cloneEdgeDeviceSource ?src'" "ud = userDeviceOf dev ''admin''"
    by (simp_all add: ApproveEdgeDeviceSource_def Let_def)
  have "edgeSources ?s2 = edgeSources s" "usersByID ?s2 = usersByID s"
    using spec by (simp_all add: ensureUserDeviceRoleLocked_def Let_def)
  moreover have "roleOf s' (esUserID src) (mdID dev) = ''admin''"
    unfolding eqs(1) by (simp add: roleOf_set)
  ultimately show thesis using src id eqs spec dev by (intro that) auto
qed

text \<open>An approval links the source to the device of its own serial number. The approver owns the source, was
  already an administrator of the device if the device existed before, and is one afterwards; the collector then
  finds the linked source, and the source cannot be approved a second time.\<close>

theorem Approve_links:
  assumes inv: "store_inv sha s" and room: "id_room s"
    and run: "ApproveEdgeDeviceSource clock sub sid did pn mo s = (s', Inr (src, ud))"
  shows "\<exists>uid. gm_get (usersBySubject s) (TrimSpace sub) = Some uid \<and> esUserID src = uid \<and>
      udEcoflowSN ud = esProviderDeviceID src \<and> esLinkedDeviceID src = udDeviceID ud \<and>
      (gm_get (deviceBySN s) (udEcoflowSN ud) = None \<or> roleOf s uid (udDeviceID ud) = ''admin'') \<and>
      roleOf s' uid (udDeviceID ud) = ''admin'' \<and>
      GetLinkedEdgeDeviceSource (esCollectorID src) (esProvider src) (esTransport src) (esProviderDeviceID src) s' = Inr src \<and>
      ApproveEdgeDeviceSource clock' sub sid did' pn' mo' s' = (s', Inl ErrEdgeDeviceSourceNotPending)"
proof -
  from Approve_InrD [OF inv room run] obtain src0 dev row where a: "gm_get (usersBySubject s) (TrimSpace sub) = Some (esUserID src0)"
    "gm_get (edgeSources s) (TrimSpace sid) = Some src0" "esID src0 = TrimSpace sid"
    "row = src0\<lparr>esStatus := EdgeDeviceSourceStatusLinked, esLinkedDeviceID := mdID dev, esUpdatedAt := normalizeWriteTime clock\<rparr>"
    "src = cloneEdgeDeviceSource row" "ud = userDeviceOf dev ''admin''" "mdEcoflowSN dev = esProviderDeviceID src0"
    "gm_get (deviceBySN s) (esProviderDeviceID src0) = None \<or> roleOf s (esUserID src0) (mdID dev) = ''admin''"
    "edgeSources s' = gm_put (TrimSpace sid) row (edgeSources s)" "usersByID s' = usersByID s"
    "roleOf s' (esUserID src0) (mdID dev) = ''admin''" by metis
  have inv': "store_inv sha s'" using ApproveEdgeDeviceSource_inv [OF inv room, of clock sub sid did pn mo] run by simp
  note sinv' = store_invD(7) [OF inv']
  have get: "gm_get (edgeSources s') (TrimSpace sid) = Some row" using a(9) by simp
  have sub': "gm_get (usersBySubject s') (TrimSpace sub) = Some (esUserID src0)"
    using a(1,10) store_invD(1) [OF inv] store_invD(1) [OF inv'] by (simp add: users_inv_def)
  have same: "esCollectorID row = esCollectorID src" "esProvider row = esProvider src" "esTransport row = esTransport src"
    "esProviderDeviceID row = esProviderDeviceID src"
    by (simp_all add: a(5) cloneEdgeDeviceSource_def)
  note row = source_get_row [OF sinv' get, unfolded source_row_def same]
  then obtain c where "gm_get (edgeCollectors s') (esCollectorID src) = Some c"
    by (auto simp: collector_user_def)
  with store_invD(6) [OF inv'] have "issued_uuid (idCounter s') (esCollectorID src)"
    by (auto dest: collector_get_row simp: collector_row_def)
  then have cid: "TrimSpace (esCollectorID src) = esCollectorID src" by (simp add: issued_uuid_trimmed TrimSpace_trimmed)
  from row have norm: "NormalizeProvider (esProvider src) = esProvider src" "normalizeEdgeTransport (esTransport src) = esTransport src"
    "ToUpper (TrimSpace (esProviderDeviceID src)) = esProviderDeviceID src"
    by (simp_all add: canonical_sn_def)
  from row a(4) have "device_sn s' (mdID dev) \<noteq> None" by simp
  with store_invD(3) [OF inv'] have dev: "issued_uuid (idCounter s') (mdID dev)"
    by (auto simp: device_sn_def devices_inv_def device_row_def dest: gm_allD)
  from dev have did: "TrimSpace (mdID dev) = mdID dev" "mdID dev \<noteq> []"
    by (simp add: issued_uuid_trimmed TrimSpace_trimmed) (use dev in \<open>auto simp: issued_uuid_def\<close>)
  have "gm_find (\<lambda>_ r. sameSource (esCollectorID src) (esProvider src) (esTransport src) (esProviderDeviceID src) r \<and>
      esStatus r = EdgeDeviceSourceStatusLinked \<and> TrimSpace (esLinkedDeviceID r) \<noteq> []) (edgeSources s') = Some (TrimSpace sid, row)"
    by (rule gm_find_cong_unique)
       (use sinv' get a(4) did same source_get_pair [OF sinv' _ get] in \<open>auto simp: sources_inv_def sameSource_def source_pair_def\<close>)
  then have "GetLinkedEdgeDeviceSource (esCollectorID src) (esProvider src) (esTransport src) (esProviderDeviceID src) s' = Inr src"
    by (simp add: GetLinkedEdgeDeviceSource_def norm cid) (simp add: a(5))
  moreover have "ApproveEdgeDeviceSource clock' sub sid did' pn' mo' s' = (s', Inl ErrEdgeDeviceSourceNotPending)"
    using sub' get a(4) by (simp add: ApproveEdgeDeviceSource_def validateEdgeDeviceSourceApproval_def
        EdgeDeviceSourceStatusLinked_def EdgeDeviceSourceStatusPending_def)
  ultimately show ?thesis using a by (auto simp: userDeviceOf_def cloneEdgeDeviceSource_def)
qed

text \<open>A run that reaches an approval: a collector is created and enrolled, reports a device, and its owner approves it.\<close>

definition sample_store7 :: MemoryStore where
  "sample_store7 = applyOp sample_sha (OpEnroll 3 ''hash'' ''secret'' [] []) sample_store6"

definition sample_source :: UpsertEdgeDeviceSourceInput where
  "sample_source = \<lparr>ueCollectorID = ''00000000-0000-4000-8000-000000000001'', ueProvider = ''ecoflow'', ueTransport = ''ble'',
     ueProviderDeviceID = ''SN1'', ueDisplayName = ''Delta'', ueModel = [], ueAddressHash = [], ueRSSIDBm = 0,
     ueMetadata = None, ueObservedAt = 4\<rparr>"

definition sample_store8 :: MemoryStore where
  "sample_store8 = applyOp sample_sha (OpUpsertSource 4 sample_source) sample_store7"

lemma sample_uuid2: "seqUUID 2 = ''00000000-0000-4000-8000-000000000002''"
  by code_simp

lemma sample_edge_words [simp]:
  "TrimSpace ''ble'' = ''ble''" "TrimSpace ''SN1'' = ''SN1''" "TrimSpace ''ecoflow'' = ''ecoflow''" "TrimSpace ''Delta'' = ''Delta''"
  "TrimSpace ''00000000-0000-4000-8000-000000000001'' = ''00000000-0000-4000-8000-000000000001''"
  "TrimSpace ''00000000-0000-4000-8000-000000000002'' = ''00000000-0000-4000-8000-000000000002''"
  "normalizeEdgeTransport ''ble'' = ''ble''" "NormalizeProvider ''ecoflow'' = ''ecoflow''" "ToUpper ''SN1'' = ''SN1''"
  by code_simp+

definition sample_row :: EdgeDeviceSource where
  "sample_row = \<lparr>esID = ''00000000-0000-4000-8000-000000000002'', esCollectorID = ''00000000-0000-4000-8000-000000000001'',
     esUserID = ''dev-user-id-1'', esProvider = ''ecoflow'', esTransport = ''ble'', esProviderDeviceID = ''SN1'', esDisplayName = ''Delta'',
     esModel = [], esAddressHash = [], esRSSIDBm = 0, esMetadata = cloneAnyMap None, esStatus = ''pending'', esLinkedDeviceID = [],
     esLastSeenAt = 4, esCreatedAt = 4, esUpdatedAt = 4\<rparr>"

lemma sample_store7_view:
  "sample_store7 = sample_store6\<lparr>edgeCollectors := [(''00000000-0000-4000-8000-000000000001'', sample_collector
     \<lparr>ecSetupTokenHash := [], ecCollectorSecretHash := ''secret'', ecCollectorVersion := [], ecHostname := [], ecIsActive := True,
      ecLastHeartbeatAt := 3, ecUpdatedAt := 3\<rparr>)]\<rparr>"
  by (simp add: sample_store7_def EnrollEdgeCollector_def Let_def sample_collectors gm_find_def sample_collector_def
      edgeCollectorSetupTokenCutoff_def normalizeWriteTime_def edgeCollectorSetupTokenTTL_def gm_put_def)

lemma sample_store6_rest:
  "edgeSources sample_store6 = []" "idCounter sample_store6 = 1" "deviceBySN sample_store6 = []" "devicesByID sample_store6 = []"
  "userDevices sample_store6 = []" "usersBySubject sample_store6 = [(''dev-user'', ''dev-user-id-1'')]" "gm_get (usersBySubject sample_store6) ''dev-user'' = Some ''dev-user-id-1''"
  by (simp_all add: sample_store6_def sample_store0_def NewMemoryStore_def CreateEdgeCollector_def gm_get_def nextUUID_def Let_def)

lemma sample_store8_view:
  "sample_store8 = sample_store7\<lparr>idCounter := 2, edgeSources := [(''00000000-0000-4000-8000-000000000002'', sample_row)]\<rparr>"
  by (simp add: sample_store8_def UpsertEdgeDeviceSource_def Let_def sample_store7_view sample_store6_rest sample_source_def
      gm_get_def gm_find_def gm_put_def nextUUID_def sample_uuid2 sample_collector_def normalizeWriteTime_def zeroEdgeDeviceSource_def
      sample_row_def EdgeDeviceSourceStatusPending_def)

lemma sample_inv8: "store_inv sample_sha sample_store8" "id_room sample_store8"
proof -
  have "store_inv sample_sha sample_store7" unfolding sample_store7_def
    by (intro applyOp_inv sample_inv6) (simp add: id_room_def sample_store6_rest)
  then show "store_inv sample_sha sample_store8" unfolding sample_store8_def
    by (rule applyOp_inv) (simp add: id_room_def sample_store7_view sample_store6_rest)
  show "id_room sample_store8" by (simp add: sample_store8_view id_room_def)
qed

lemma sample_approval:
  "\<exists>s' src ud. ApproveEdgeDeviceSource 5 ''dev-user'' ''00000000-0000-4000-8000-000000000002'' [] [] [] sample_store8 =
     (s', Inr (src, ud)) \<and> udEcoflowSN ud = ''SN1'' \<and> esUserID src = ''dev-user-id-1'' \<and>
     udDeviceID ud = ''00000000-0000-4000-8000-000000000003''"
  by (simp add: ApproveEdgeDeviceSource_def sample_store8_view sample_store7_view sample_store6_rest gm_get_def sample_row_def
      validateEdgeDeviceSourceApproval_def EdgeDeviceSourceStatusPending_def approvalTarget_def Let_def ensureDeviceLocked_def
      nextUUID_def sample_uuid3 orElse_def userDeviceOf_def cloneEdgeDeviceSource_def)

theorem Approve_links_witness:
  "\<exists>s' src ud. ApproveEdgeDeviceSource 5 ''dev-user'' ''00000000-0000-4000-8000-000000000002'' [] [] [] sample_store8 = (s', Inr (src, ud)) \<and>
     udEcoflowSN ud = ''SN1'' \<and> esProviderDeviceID src = ''SN1'' \<and>
     roleOf s' ''dev-user-id-1'' ''00000000-0000-4000-8000-000000000003'' = ''admin'' \<and>
     GetLinkedEdgeDeviceSource (esCollectorID src) (esProvider src) (esTransport src) ''SN1'' s' = Inr src"
proof -
  obtain s' src ud where run: "ApproveEdgeDeviceSource 5 ''dev-user'' ''00000000-0000-4000-8000-000000000002'' [] [] [] sample_store8 =
      (s', Inr (src, ud))" and v: "udEcoflowSN ud = ''SN1''" "esUserID src = ''dev-user-id-1''"
      "udDeviceID ud = ''00000000-0000-4000-8000-000000000003''"
    using sample_approval by blast
  from Approve_links [OF sample_inv8 run] v show ?thesis unfolding run by auto
qed

section \<open>The row of a device\<close>

text \<open>The order in which the query prefers rows: a higher rank, then a smaller identifier at the provider.\<close>

definition preferredTo :: "ProviderDevice \<Rightarrow> ProviderDevice \<Rightarrow> bool" where
  "preferredTo p q \<longleftrightarrow>
     deviceRank q < deviceRank p \<or> (deviceRank q = deviceRank p \<and> pdProviderDeviceID p \<le> pdProviderDeviceID q)"

lemma preferred_trans: "preferredTo a b \<Longrightarrow> preferredTo b c \<Longrightarrow> preferredTo a c"
  by (auto simp: preferredTo_def)

lemma clone_rank [simp]: "deviceRank (cloneProviderDevice p) = deviceRank p" "pdProviderDeviceID (cloneProviderDevice p) = pdProviderDeviceID p"
  by (simp_all add: cloneProviderDevice_def deviceRank_def)

lemma preferred_clone [simp]: "preferredTo (cloneProviderDevice p) q = preferredTo p q" "preferredTo p (cloneProviderDevice q) = preferredTo p q"
  by (simp_all add: preferredTo_def)

lemma best_fold:
  assumes "best = None \<or> (\<exists>r. best = Some (cloneProviderDevice r) \<and> TrimSpace (pdDeviceID r) = d)"
  shows "case foldl (betterDevice d) best rows of
      None \<Rightarrow> best = None \<and> (\<forall>q \<in> set rows. TrimSpace (pdDeviceID q) \<noteq> d)
    | Some p \<Rightarrow> (best = Some p \<or> (\<exists>r \<in> set rows. p = cloneProviderDevice r \<and> TrimSpace (pdDeviceID r) = d)) \<and>
        (\<forall>b. best = Some b \<longrightarrow> preferredTo p b) \<and> (\<forall>q \<in> set rows. TrimSpace (pdDeviceID q) = d \<longrightarrow> preferredTo p q)"
  using assms
proof (induction rows arbitrary: best)
  case Nil
  then show ?case by (auto simp: preferredTo_def split: option.splits)
next
  case (Cons r rows)
  let ?b = "betterDevice d best r"
  have b: "?b = None \<or> (\<exists>r. ?b = Some (cloneProviderDevice r) \<and> TrimSpace (pdDeviceID r) = d)"
    using Cons.prems by (auto simp: betterDevice_def split: option.splits)
  have keep: "TrimSpace (pdDeviceID r) \<noteq> d \<Longrightarrow> ?b = best"
    "TrimSpace (pdDeviceID r) = d \<Longrightarrow> ?b \<noteq> None \<and> (?b = Some (cloneProviderDevice r) \<or> ?b = best)"
    "\<And>x. best = Some x \<Longrightarrow> ?b = Some y \<Longrightarrow> preferredTo y x"
    "TrimSpace (pdDeviceID r) = d \<Longrightarrow> ?b = Some y \<Longrightarrow> preferredTo y r" for y
    by (auto simp: betterDevice_def preferredTo_def split: option.splits if_splits)
  show ?case
  proof (cases "foldl (betterDevice d) ?b rows")
    case None
    with Cons.IH [OF b] keep(1,2) show ?thesis by auto
  next
    case (Some p)
    with Cons.IH [OF b] have ih: "?b = Some p \<or> (\<exists>r \<in> set rows. p = cloneProviderDevice r \<and> TrimSpace (pdDeviceID r) = d)"
      "\<And>b. ?b = Some b \<Longrightarrow> preferredTo p b" "\<forall>q \<in> set rows. TrimSpace (pdDeviceID q) = d \<longrightarrow> preferredTo p q" by simp_all
    have "best = Some x \<Longrightarrow> preferredTo p x" for x
    proof -
      assume x: "best = Some x"
      with keep(1,2) obtain y where y: "?b = Some y" by fastforce
      from preferred_trans [OF ih(2) [OF y] keep(3) [OF x y]] show "preferredTo p x" .
    qed
    moreover have "TrimSpace (pdDeviceID r) = d \<Longrightarrow> preferredTo p r"
      using ih(2) keep(2,4) by (cases ?b) (auto dest: preferred_trans)
    moreover have "best = Some p \<or> (\<exists>q \<in> set (r # rows). p = cloneProviderDevice q \<and> TrimSpace (pdDeviceID q) = d)"
      using ih(1) keep(1,2) by (cases "TrimSpace (pdDeviceID r) = d") auto
    ultimately show ?thesis using Some ih(3) by simp
  qed
qed

text \<open>The query for a device's provider row answers a row of that device that is preferred to every other row of
  it (active before inactive, wanted before unwanted, then the smaller identifier), whatever the order in which the
  rows are met, and fails only if the device has no row.\<close>

theorem GetProviderDeviceByDeviceID_best:
  assumes inv: "store_inv sha s"
  shows "case GetProviderDeviceByDeviceID did s of
      Inl e \<Rightarrow> e = ErrDeviceNotFound \<and>
        (TrimSpace did = [] \<or> (\<forall>k q. gm_get (providerDevices s) k = Some q \<longrightarrow> TrimSpace (pdDeviceID q) \<noteq> TrimSpace did))
    | Inr p \<Rightarrow> (\<exists>k r. gm_get (providerDevices s) k = Some r \<and> p = cloneProviderDevice r \<and> TrimSpace (pdDeviceID r) = TrimSpace did) \<and>
        (\<forall>k q. gm_get (providerDevices s) k = Some q \<longrightarrow> TrimSpace (pdDeviceID q) = TrimSpace did \<longrightarrow>
           deviceRank q < deviceRank p \<or> deviceRank q = deviceRank p \<and> pdProviderDeviceID p \<le> pdProviderDeviceID q)"
proof -
  define rows where "rows = map snd (providerDevices s)"
  have mem: "q \<in> set rows \<longleftrightarrow> (\<exists>k. gm_get (providerDevices s) k = Some q)" for q
    using store_invD(5) [OF inv] by (force simp: rows_def pdevs_inv_def gm_mem_iff [symmetric])
  show ?thesis
    using best_fold [of None "TrimSpace did" rows, unfolded Ball_def Bex_def mem]
    by (auto simp: GetProviderDeviceByDeviceID_def Let_def preferredTo_def rows_def [symmetric] split: option.splits)
qed

definition sample_link :: UpsertProviderDeviceInput where
  "sample_link = \<lparr>upsDeviceID = ''d1'', upsProvider = ''ecoflow'', upsProviderDeviceID = ''SN1'', upsCredentialID = [], upsProductName = [],
      upsModel = [], upsCapabilities = None, upsMetadata = None, upsIsActive = True, upsIngestDesiredState = ''active''\<rparr>"

definition sample_store9 :: MemoryStore where
  "sample_store9 = applyOp sample_sha (OpUpsertProviderDevice 5 sample_link) sample_store3"

lemma sample_room3: "id_room sample_store3"
  by (simp add: id_room_def sample_upsert)

lemma sample_inv9: "store_inv sample_sha sample_store9"
  unfolding sample_store9_def by (rule applyOp_inv [OF sample_inv3 sample_room3])

lemma sample_link_words [simp]: "TrimSpace ''d1'' = ''d1''" "TrimSpace ''cred-1'' = ''cred-1''" "TrimSpace ''active'' = ''active''"
  by code_simp+

lemma sample_relink:
  "UpsertProviderDevice 5 sample_link sample_store3 = (sample_store9, Inr (sample_pdev\<lparr>pdDeviceID := ''d1''\<rparr>))"
  "providerDevices sample_store9 = [(''pdev-3'', sample_pdev\<lparr>pdDeviceID := ''d1''\<rparr>)]"
  by (simp_all add: sample_store9_def UpsertProviderDevice_def sample_upsert sample_link_def providerDeviceSlot_def gm_find_def
      sample_pdev_def gm_get_def Let_def orElse_def refreshDevice_def sample_store2_rest refreshedMap_def sample_id3
      cloneProviderDevice_def cloneAnyMap_def gm_put_def)

theorem GetProviderDeviceByDeviceID_best_witness:
  "\<exists>p. GetProviderDeviceByDeviceID ''d1'' sample_store9 = Inr p \<and> pdProviderDeviceID p = ''SN1''"
  using GetProviderDeviceByDeviceID_best [OF sample_inv9, of "''d1''"]
  by (auto simp: sample_relink gm_get_def sample_pdev_def cloneProviderDevice_def split: sum.splits if_splits)

section \<open>The single row of a provider's device\<close>

lemma gm_rows_unique:
  assumes "gm_wf m" "gm_get m k = Some v" "P v" "\<And>k' v'. gm_get m k' = Some v' \<Longrightarrow> P v' \<Longrightarrow> k' = k"
  shows "gm_rows P m = [v]"
  using assms
proof (induction m)
  case (Cons kv m)
  obtain a b where kv: "kv = (a, b)" by (cases kv)
  have wf: "gm_wf m" "a \<notin> fst ` set m" using Cons.prems(1) by (auto simp: kv gm_wf_def)
  have sub: "gm_get m k' = Some v' \<Longrightarrow> gm_get (kv # m) k' = Some v'" for k' v'
    using wf(2) by (force simp: kv gm_get_def dest: map_of_SomeD)
  show ?case
  proof (cases "a = k")
    case True
    then have "b = v" using Cons.prems(2) by (simp add: kv gm_get_def)
    moreover have "\<not> P v'" if "v' \<in> set (map snd m)" for v'
    proof -
      from that obtain k' where k': "(k', v') \<in> set m" by auto
      then have "k' \<noteq> k" using wf(2) True by force
      with Cons.prems(4) [OF sub] k' wf(1) show ?thesis by (auto simp: gm_mem_iff)
    qed
    ultimately show ?thesis using Cons.prems(3) by (simp add: kv gm_rows_def filter_empty_conv)
  next
    case False
    then have "gm_get m k = Some v" using Cons.prems(2) by (simp add: kv gm_get_def)
    then have "gm_rows P m = [v]" using Cons.IH [OF wf(1)] Cons.prems(3,4) sub by blast
    moreover have "\<not> P b" using Cons.prems(4) [of a b] False by (auto simp: kv gm_get_def)
    ultimately show ?thesis by (simp add: kv gm_rows_def)
  qed
qed (simp add: gm_get_def)

lemma filter_insert_by_length: "length (filter P (insert_by lt x ys)) = length (filter P (x # ys))"
  by (induction ys) auto

lemma filter_sort_by_length: "length (filter P (sort_by lt xs)) = length (filter P xs)"
  by (induction xs) (simp_all add: filter_insert_by_length)

lemma filter_sort_by_single:
  assumes "filter P xs = [x]"
  shows "filter P (sort_by lt xs) = [x]"
proof -
  have "length (filter P (sort_by lt xs)) = 1" by (simp add: filter_sort_by_length assms)
  then obtain y where y: "filter P (sort_by lt xs) = [y]" by (auto simp: length_Suc_conv)
  have "set (filter P (sort_by lt xs)) = set (filter P xs)" by simp
  then show ?thesis unfolding assms y by simp
qed

lemma clone_fields [simp]: "pdProvider (cloneProviderDevice p) = pdProvider p" "pdID (cloneProviderDevice p) = pdID p"
  by (simp_all add: cloneProviderDevice_def)

lemma UpsertProviderDevice_stores:
  assumes "UpsertProviderDevice clock inp s = (s', Inr p)"
  obtains row where "gm_get (providerDevices s') (pdID p) = Some row" "p = cloneProviderDevice row"
    "pdProvider row = NormalizeProvider (upsProvider inp)" "pdProviderDeviceID row = ToUpper (TrimSpace (upsProviderDeviceID inp))"
    "pdID p = snd (providerDeviceSlot (NormalizeProvider (upsProvider inp)) (ToUpper (TrimSpace (upsProviderDeviceID inp))) s)"
  using assms by (auto simp: UpsertProviderDevice_def Let_def split: prod.splits)

lemma UpsertProviderDevice_total: "\<exists>s' p. UpsertProviderDevice clock inp s = (s', Inr p)"
  by (simp add: UpsertProviderDevice_def Let_def case_prod_unfold)

lemma listing_rows:
  assumes "gm_rows Q m = [row]" "\<And>q. Q q \<Longrightarrow> R q" "\<And>q. Q (cloneProviderDevice q) = Q q"
  shows "filter Q (map cloneProviderDevice (gm_rows R m)) = [cloneProviderDevice row]"
proof -
  have "filter Q (gm_rows R m) = gm_rows Q m" unfolding gm_rows_def filter_filter by (rule filter_cong) (use assms(2) in auto)
  moreover have "filter Q (map cloneProviderDevice xs) = map cloneProviderDevice (filter Q xs)" for xs
    by (simp add: filter_map comp_def assms(3))
  ultimately show ?thesis using assms(1) by simp
qed

text \<open>A provider's device has one row. After an upsert, a listing of the provider's devices shows exactly one row for
  the device, the one the upsert answered, and upserting the device again keeps its identifier.\<close>

theorem Upsert_single_row:
  assumes inv: "store_inv sha s" and room: "id_room s" and run: "UpsertProviderDevice clock inp s = (s', Inr p)"
    and again: "UpsertProviderDevice clock' inp s' = (s'', Inr p')"
  shows "filter (\<lambda>q. pdProvider q = NormalizeProvider (upsProvider inp) \<and> pdProviderDeviceID q = ToUpper (TrimSpace (upsProviderDeviceID inp)))
      (ListProviderDevices (upsProvider inp) False s') = [p] \<and> pdID p' = pdID p"
proof -
  let ?prov = "NormalizeProvider (upsProvider inp)" and ?pdid = "ToUpper (TrimSpace (upsProviderDeviceID inp))"
  let ?P = "\<lambda>q. pdProvider q = ?prov \<and> pdProviderDeviceID q = ?pdid"
  have inv': "store_inv sha s'" using UpsertProviderDevice_inv [OF inv room, of clock inp] run by simp
  obtain row where row: "gm_get (providerDevices s') (pdID p) = Some row" "p = cloneProviderDevice row" "?P row"
    using UpsertProviderDevice_stores [OF run] by metis
  have uniq: "k = pdID p" if "gm_get (providerDevices s') k = Some q" "?P q" for k q
    using that row store_invD(5) [OF inv'] by (auto simp: pdevs_inv_def pdev_pair_def dest: gm_pairsD)
  have wf: "gm_wf (providerDevices s')" using store_invD(5) [OF inv'] by (simp add: pdevs_inv_def)
  have "gm_rows ?P (providerDevices s') = [row]" by (rule gm_rows_unique [where P = ?P, OF wf row(1)]) (use row(3) uniq in auto)
  then have "filter ?P (ListProviderDevices (upsProvider inp) False s') = [p]"
    unfolding ListProviderDevices_def Let_def row(2) by (intro filter_sort_by_single listing_rows) auto
  moreover have "gm_find (\<lambda>_ q. ?P q) (providerDevices s') = Some (pdID p, row)"
    by (rule gm_find_cong_unique [OF wf row(1)]) (use row(3) uniq in auto)
  moreover have "pdID p \<noteq> []" using store_invD(5) [OF inv'] row(1)
    by (metis gm_allD issued_nonempty pdev_row_def pdevs_inv_def)
  moreover have "pdID p' = snd (providerDeviceSlot ?prov ?pdid s')" using UpsertProviderDevice_stores [OF again] by blast
  ultimately show ?thesis by (simp add: providerDeviceSlot_def)
qed

theorem Upsert_single_row_witness:
  "filter (\<lambda>q. pdProvider q = ''ecoflow'' \<and> pdProviderDeviceID q = ''SN1'') (ListProviderDevices ''ecoflow'' False sample_store9) =
     [sample_pdev\<lparr>pdDeviceID := ''d1''\<rparr>]"
proof -
  obtain s'' p' where "UpsertProviderDevice 6 sample_link sample_store9 = (s'', Inr p')"
    using UpsertProviderDevice_total by blast
  from Upsert_single_row [OF sample_inv3 sample_room3 sample_relink(1) this] show ?thesis by (simp add: sample_link_def)
qed

section \<open>The scope of the log filter\<close>

text \<open>A caller who is not a global administrator sees at most fifty options, only of devices and serial numbers,
  each naming exactly one device, on which the caller has a role.\<close>

theorem SearchAdminLogFilters_scope:
  assumes inv: "store_inv sha s" and user: "\<not> saGlobalAdmin inp"
  shows "length (SearchAdminLogFilters inp s) \<le> 50 \<and>
    (\<forall>opt \<in> set (SearchAdminLogFilters inp s). aoKind opt \<noteq> ''user'' \<and>
       (\<exists>uid roles role. gm_get (usersBySubject s) (TrimSpace (saUserSubject inp)) = Some uid \<and>
          gm_get (userDevices s) uid = Some roles \<and> gm_get roles (aoID opt) = Some role \<and> aoDeviceIDs opt = [aoID opt]))"
proof
  have "int (length (SearchAdminLogFilters inp s)) \<le> 50"
    by (rule order.trans [OF SearchAdminLogFilters_length]) (simp add: normalizeAdminLogFilterLimit_def)
  then show "length (SearchAdminLogFilters inp s) \<le> 50" by simp
  show "\<forall>opt \<in> set (SearchAdminLogFilters inp s). aoKind opt \<noteq> ''user'' \<and>
       (\<exists>uid roles role. gm_get (usersBySubject s) (TrimSpace (saUserSubject inp)) = Some uid \<and>
          gm_get (userDevices s) uid = Some roles \<and> gm_get roles (aoID opt) = Some role \<and> aoDeviceIDs opt = [aoID opt])"
  proof
    fix opt
    assume opt: "opt \<in> set (SearchAdminLogFilters inp s)"
    have wf: "gm_wf (devicesByID s)" using store_invD(3) [OF inv] by (simp add: devices_inv_def)
    obtain uid roles and d :: memoryDevice where o: "gm_get (usersBySubject s) (TrimSpace (saUserSubject inp)) = Some uid"
      "gm_get (userDevices s) uid = Some roles" "mdID d \<in> fst ` set roles" "aoDeviceIDs opt = [mdID d]" "aoID opt = mdID d"
      "aoKind opt \<noteq> ''user''"
      by (rule SearchAdminLogFilters_scoped [OF wf user opt]) (rule that)
    from o(3) obtain role where "gm_get roles (mdID d) = Some role" by (auto simp: gm_get_def dest: weak_map_of_SomeI)
    with o show "aoKind opt \<noteq> ''user'' \<and>
       (\<exists>uid roles role. gm_get (usersBySubject s) (TrimSpace (saUserSubject inp)) = Some uid \<and>
          gm_get (userDevices s) uid = Some roles \<and> gm_get roles (aoID opt) = Some role \<and> aoDeviceIDs opt = [aoID opt])" by auto
  qed
qed

definition sample_search :: SearchAdminLogFiltersInput where
  "sample_search = \<lparr>saQuery = [], saKind = ''device'', saLimit = 0, saProvider = [], saDeviceIDs = [], saUserSubject = ''dev-user'',
     saGlobalAdmin = False\<rparr>"

lemma sample_inv4: "store_inv sample_sha sample_store4"
proof -
  have "id_room sample_store2" by (simp add: id_room_def sample_store2_rest)
  then show ?thesis unfolding sample_store4_def
    by (intro applyOp_inv store_runs.reach_inv [OF reach_store2])
qed

lemma sample_search_words [simp]: "normalizeAdminLogFilterKind ''device'' = ''device''" "ToLower [] = []" "NormalizeProvider [] = []"
  by code_simp+

lemma sample_rows4:
  "\<exists>d. map snd (devicesByID sample_store4) = [d] \<and> mdID d = ''00000000-0000-4000-8000-000000000003''"
  "gm_get (usersBySubject sample_store4) ''dev-user'' = Some ''dev-user-id-1''"
  "\<exists>r. gm_get (userDevices sample_store4) ''dev-user-id-1'' = Some [(''00000000-0000-4000-8000-000000000003'', r)]"
  using sample_subject(1) sample_store2_rest sample_hash
  by (simp_all add: sample_store4_def CreateDevice_def ensureDeviceLocked_def Let_def nextUUID_def sample_uuid3 
      sample_eval ensureUserDeviceRoleLocked_def)

lemma sample_options:
  "\<exists>opt. SearchAdminLogFilters sample_search sample_store4 = [opt] \<and> aoID opt = ''00000000-0000-4000-8000-000000000003''"
proof -
  obtain d r where v: "map snd (devicesByID sample_store4) = [d]" "mdID d = ''00000000-0000-4000-8000-000000000003''"
    "gm_get (userDevices sample_store4) ''dev-user-id-1'' = Some [(''00000000-0000-4000-8000-000000000003'', r)]"
    using sample_rows4(1,3) by metis
  show ?thesis
    by (simp add: SearchAdminLogFilters_def sample_search_def Let_def sample_rows4(2) v adminDevices_def gm_rows_def
        normalizeAdminLogFilterLimit_def adminLogDeviceIDSet_def normalizeAdminLogDeviceIDs_def deviceOption_def)
qed

theorem SearchAdminLogFilters_scope_witness:
  "\<exists>opt uid roles role. SearchAdminLogFilters sample_search sample_store4 = [opt] \<and>
     gm_get (usersBySubject sample_store4) ''dev-user'' = Some uid \<and> gm_get (userDevices sample_store4) uid = Some roles \<and>
     gm_get roles ''00000000-0000-4000-8000-000000000003'' = Some role"
proof -
  obtain opt where opt: "SearchAdminLogFilters sample_search sample_store4 = [opt]" "aoID opt = ''00000000-0000-4000-8000-000000000003''"
    using sample_options by blast
  have "\<not> saGlobalAdmin sample_search" by (simp add: sample_search_def)
  from SearchAdminLogFilters_scope [OF sample_inv4 this] opt show ?thesis by (auto simp: sample_search_def)
qed

end
