(* ===== verification/Ble_Bytes.thy ===== *)
theory Ble_Bytes
  imports Go_Prelude "HOL-Library.Monad_Syntax"
begin

text \<open>
  Byte slices as the Bluetooth tools use them. Reading outside a slice stops a Go program with a
  run-time panic: here the read is \<open>None\<close>, and a routine that reads returns an option, so that
  "the routine never panics" is the statement that it never returns \<open>None\<close>. Little-endian words
  follow \<open>encoding/binary\<close>. The two checksums of \<open>ecoflow_frames.go\<close> are folds over the bytes; what
  they detect is proved once, for every checksum that shifts and absorbs reversibly.
\<close>

unbundle bit_operations_syntax

named_theorems slice_simps \<open>reads inside a slice\<close>

section \<open>Slices\<close>

definition at :: "byte list \<Rightarrow> nat \<Rightarrow> byte option" where
  "at data i = (if i < length data then Some (data ! i) else None)"

definition slice :: "byte list \<Rightarrow> nat \<Rightarrow> nat \<Rightarrow> byte list option" where
  "slice data i j = (if i \<le> j \<and> j \<le> length data then Some (take (j - i) (drop i data)) else None)"

definition le16 :: "byte \<Rightarrow> byte \<Rightarrow> 16 word" where
  "le16 lo hi = ucast lo OR push_bit 8 (ucast hi)"

definition Uint16 :: "byte list \<Rightarrow> 16 word option" where
  "Uint16 data = (case data of lo # hi # _ \<Rightarrow> Some (le16 lo hi) | _ \<Rightarrow> None)"

definition put16 :: "16 word \<Rightarrow> byte list" where
  "put16 w = [ucast w, ucast (drop_bit 8 w)]"

definition AppendUint16 :: "byte list \<Rightarrow> 16 word \<Rightarrow> byte list" where
  "AppendUint16 data w = data @ put16 w"

fun le_value :: "byte list \<Rightarrow> nat" where
  "le_value [] = 0"
| "le_value (b # bs) = unat b + 256 * le_value bs"

definition Uint32 :: "byte list \<Rightarrow> 32 word option" where
  "Uint32 data = (if length data < 4 then None else Some (word_of_nat (le_value (take 4 data))))"

definition Uint64 :: "byte list \<Rightarrow> 64 word option" where
  "Uint64 data = (if length data < 8 then None else Some (word_of_nat (le_value (take 8 data))))"

definition hexString :: "byte list \<Rightarrow> string" where
  "hexString data = concat (map (\<lambda>b. hex_padded 2 (unat b)) data)"

lemma at_simps [slice_simps]:
  "at (b # data) 0 = Some b" "at (b # data) (Suc i) = at data i" "i < length data \<Longrightarrow> at data i = Some (data ! i)"
  by (simp_all add: at_def)

lemma at_append [slice_simps]: "at (xs @ ys) i = (if i < length xs then at xs i else at ys (i - length xs))"
  by (auto simp: at_def nth_append)

lemma slice_Some: "i \<le> j \<Longrightarrow> j \<le> length data \<Longrightarrow> slice data i j = Some (take (j - i) (drop i data))"
  by (simp add: slice_def)

lemma le16_split [simp]: "le16 (ucast w) (ucast (drop_bit 8 w)) = w"
proof (rule bit_word_eqI)
  fix n :: nat
  assume "n < LENGTH(16)"
  then show "bit (le16 (ucast w) (ucast (drop_bit 8 w))) n = bit w n"
    by (auto simp: le16_def bit_simps)
qed

lemma Uint16_put [simp]: "Uint16 (put16 w @ rest) = Some w" "Uint16 (put16 w) = Some w"
  by (simp_all add: Uint16_def put16_def)

lemma length_put16 [simp]: "length (put16 w) = 2"
  by (simp add: put16_def)

section \<open>Checksums\<close>

definition crc8_shift :: "byte \<Rightarrow> byte" where
  "crc8_shift crc = (if crc AND 0x80 \<noteq> 0 then push_bit 1 crc XOR 0x07 else push_bit 1 crc)"

definition crc16_shift :: "16 word \<Rightarrow> 16 word" where
  "crc16_shift crc = (if crc AND 0x0001 \<noteq> 0 then drop_bit 1 crc XOR 0xa001 else drop_bit 1 crc)"

definition ecoFlowCRC8 :: "byte list \<Rightarrow> byte" where
  "ecoFlowCRC8 data = foldl (\<lambda>crc b. (crc8_shift ^^ 8) (crc XOR b)) 0 data"

definition ecoFlowCRC16 :: "byte list \<Rightarrow> 16 word" where
  "ecoFlowCRC16 data = foldl (\<lambda>crc b. (crc16_shift ^^ 8) (crc XOR ucast b)) 0 data"

text \<open>
  A checksum that takes a byte in reversibly and then shifts reversibly. From any state the fold is
  then injective in its start state, so a change of a single byte changes the result.
\<close>

locale checksum =
  fixes shift :: "'c \<Rightarrow> 'c" and absorb :: "'c \<Rightarrow> byte \<Rightarrow> 'c"
  assumes shift_inj: "shift c = shift d \<Longrightarrow> c = d"
    and absorb_inj: "absorb c b = absorb d b \<Longrightarrow> c = d"
    and absorb_byte_inj: "absorb c a = absorb c b \<Longrightarrow> a = b"
begin

lemma shifts_inj: "(shift ^^ n) c = (shift ^^ n) d \<longleftrightarrow> c = d"
  by (induction n arbitrary: c d) (auto dest: shift_inj)

lemma fold_inj:
  "foldl (\<lambda>c b. (shift ^^ n) (absorb c b)) c bs = foldl (\<lambda>c b. (shift ^^ n) (absorb c b)) d bs \<longleftrightarrow> c = d"
  by (induction bs arbitrary: c d) (auto simp: shifts_inj dest: absorb_inj)

lemma one_byte_changes:
  assumes "a \<noteq> b"
  shows "foldl (\<lambda>c b. (shift ^^ n) (absorb c b)) c (xs @ a # ys) \<noteq> foldl (\<lambda>c b. (shift ^^ n) (absorb c b)) c (xs @ b # ys)"
  using assms by (auto simp: fold_inj shifts_inj dest: absorb_byte_inj)

lemma one_byte_update:
  assumes "i < length data" "v \<noteq> data ! i"
  shows "foldl (\<lambda>c b. (shift ^^ n) (absorb c b)) c (data[i := v]) \<noteq> foldl (\<lambda>c b. (shift ^^ n) (absorb c b)) c data"
  using one_byte_changes [OF assms(2), where c = c and n = n and xs = "take i data" and ys = "drop (Suc i) data"] assms(1)
  by (simp add: upd_conv_take_nth_drop id_take_nth_drop [OF assms(1), symmetric])

end

lemma xor_cancel: "x XOR z = y XOR z \<longleftrightarrow> x = y" for x y z :: "'a::len word"
  by (metis xor.assoc xor.right_neutral xor_self_eq)

lemma crc8_shift_inj:
  assumes "crc8_shift c = crc8_shift d"
  shows "c = d"
proof -
  have top: "c AND 0x80 \<noteq> 0 \<longleftrightarrow> bit c 7" for c :: byte
    using and_exp_eq_0_iff_not_bit [of c 7] by simp
  have low: "bit (crc8_shift c) 0 = bit c 7" for c
    by (simp add: crc8_shift_def top bit_simps bit_0 even_xor_iff)
  then have seven: "bit c 7 = bit d 7" using assms by metis
  then have eq: "push_bit 1 c = push_bit 1 d" using assms by (auto simp: crc8_shift_def top xor_cancel split: if_splits)
  show ?thesis
  proof (rule bit_word_eqI)
    fix n :: nat
    assume n: "n < LENGTH(8)"
    show "bit c n = bit d n"
    proof (cases "n = 7")
      case False
      have "bit (push_bit 1 c) (Suc n) = bit (push_bit 1 d) (Suc n)" using eq by simp
      with n False show ?thesis by (simp only: bit_push_bit_iff) simp
    qed (use seven in simp)
  qed
qed

lemma crc16_shift_inj:
  assumes "crc16_shift c = crc16_shift d"
  shows "c = d"
proof -
  have low: "c AND 1 \<noteq> 0 \<longleftrightarrow> bit c 0" for c :: "16 word"
    using and_exp_eq_0_iff_not_bit [of c 0] by simp
  have "bit (crc16_shift c) 15 = bit c 0" for c
    using bit_imp_le_length [of c 16] by (auto simp: crc16_shift_def low bit_simps)
  then have zero: "bit c 0 = bit d 0" using assms by metis
  then have eq: "drop_bit 1 c = drop_bit 1 d" using assms by (auto simp: crc16_shift_def low xor_cancel split: if_splits)
  have "bit c n = bit d n" for n
  proof (cases n)
    case (Suc m)
    have "bit (drop_bit 1 c) m = bit (drop_bit 1 d) m" using eq by simp
    then show ?thesis by (simp add: Suc bit_simps)
  qed (use zero in simp)
  then show ?thesis by (intro bit_eqI)
qed

lemma ucast_byte_inj: "(ucast a :: 16 word) = ucast b \<Longrightarrow> a = b" for a b :: byte
proof (rule bit_word_eqI)
  fix n :: nat
  assume eq: "(ucast a :: 16 word) = ucast b" and n: "n < LENGTH(8)"
  from eq have "bit (ucast a :: 16 word) n = bit (ucast b :: 16 word) n" by simp
  with n show "bit a n = bit b n" by (simp add: bit_simps)
qed

interpretation crc8: checksum crc8_shift "\<lambda>c b. c XOR b"
proof
  show "a = b" if "c XOR a = c XOR b" for a b c :: byte
    using that by (simp add: xor.commute [of c] xor_cancel)
qed (auto simp: xor_cancel dest: crc8_shift_inj)

interpretation crc16: checksum crc16_shift "\<lambda>c b. c XOR ucast b"
proof
  show "a = b" if "c XOR ucast a = c XOR ucast b" for a b :: byte and c :: "16 word"
    using that by (simp add: xor.commute [of c] xor_cancel ucast_byte_inj)
qed (auto simp: xor_cancel dest: crc16_shift_inj)

lemma CRC8_detects: "i < length data \<Longrightarrow> v \<noteq> data ! i \<Longrightarrow> ecoFlowCRC8 (data[i := v]) \<noteq> ecoFlowCRC8 data"
  unfolding ecoFlowCRC8_def by (rule crc8.one_byte_update)

lemma CRC16_detects: "i < length data \<Longrightarrow> v \<noteq> data ! i \<Longrightarrow> ecoFlowCRC16 (data[i := v]) \<noteq> ecoFlowCRC16 data"
  unfolding ecoFlowCRC16_def by (rule crc16.one_byte_update)

end
