(* ===== verification/Ble_Frames.thy ===== *)
theory Ble_Frames
  imports Ble_Bytes
begin

text \<open>
  The Bluetooth frames of \<open>cmd/ecoflow-ble-discover/ecoflow_frames.go\<close>: packets with a checksummed
  header, the envelope around them, the protobuf fields of a display upload and the metrics read from
  them. A result \<open>None\<close> is a run-time panic (a read outside a slice); \<open>Some (Inl e)\<close> is the error
  \<open>e\<close>. The decimal text of a floating-point number (\<open>strconv.FormatFloat\<close> on the IEEE bits) is the
  parameter \<open>fmtFloat\<close>.
\<close>

section \<open>Data\<close>

record probeMetric =
  pmName :: string
  pmValue :: string
  pmUnit :: string
  pmSource :: string
  pmDecoder :: string

record ecoFlowPacketSummary =
  sumFamily :: string
  sumCommand :: string
  sumPayloadLength :: nat
  sumDescription :: string

record ecoFlowPacket =
  VersionByte :: byte
  Version :: nat
  Sentinel :: bool
  Src :: byte
  Dst :: byte
  DSrc :: byte
  DDst :: byte
  CmdSet :: byte
  CmdID :: byte
  Payload :: "byte list"
  HeaderCRCOK :: bool
  PacketCRCOK :: bool
  PayloadLength :: nat

record notificationDecode =
  ndFrame :: string
  ndDetail :: string
  ndDecodedHex :: string
  ndDecodedPayload :: "byte list"
  ndPacket :: "ecoFlowPacketSummary option"
  ndMetrics :: "probeMetric list"

record protoScalar =
  psFieldNumber :: int
  psWireType :: int
  psVarint :: "64 word"
  psFixed32 :: "32 word"
  psFixed64 :: "64 word"
  psBytes :: "byte list"

datatype protoMetricKind =
    protoMetricFloat32 | protoMetricOutputFloat32 | protoMetricBatteryInputFloat32 | protoMetricBatteryOutputFloat32
  | protoMetricUint | protoMetricBool | protoMetricPVState | protoMetricDCChargingType

datatype delta3DisplayMetricDescriptor = Descriptor (dFieldNumber: int) (dName: string) (dUnit: string) (dKind: protoMetricKind)

definition delta3DisplayMetricDescriptors :: "delta3DisplayMetricDescriptor list" where
  "delta3DisplayMetricDescriptors =
     [Descriptor 3 ''input_power_w'' ''W'' protoMetricFloat32,
      Descriptor 4 ''output_power_w'' ''W'' protoMetricFloat32,
      Descriptor 54 ''ac_input_power_w'' ''W'' protoMetricFloat32,
      Descriptor 368 ''ac_output_power_w'' ''W'' protoMetricOutputFloat32,
      Descriptor 361 ''pv_input_power_w'' ''W'' protoMetricFloat32,
      Descriptor 70 ''pv2_input_power_w'' ''W'' protoMetricFloat32,
      Descriptor 363 ''pv_input_state'' '''' protoMetricPVState,
      Descriptor 422 ''pv2_input_state'' '''' protoMetricPVState,
      Descriptor 11 ''usb_c_1_output_power_w'' ''W'' protoMetricOutputFloat32,
      Descriptor 12 ''usb_c_2_output_power_w'' ''W'' protoMetricOutputFloat32,
      Descriptor 100 ''usb_c_3_output_power_w'' ''W'' protoMetricOutputFloat32,
      Descriptor 9 ''usb_a_1_output_power_w'' ''W'' protoMetricOutputFloat32,
      Descriptor 10 ''usb_a_2_output_power_w'' ''W'' protoMetricOutputFloat32,
      Descriptor 37 ''dc_12v_output_power_w'' ''W'' protoMetricOutputFloat32,
      Descriptor 158 ''battery_power_w'' ''W'' protoMetricFloat32,
      Descriptor 158 ''battery_input_power_w'' ''W'' protoMetricBatteryInputFloat32,
      Descriptor 158 ''battery_output_power_w'' ''W'' protoMetricBatteryOutputFloat32,
      Descriptor 148 ''dc_charging_type'' '''' protoMetricDCChargingType,
      Descriptor 262 ''battery_soc_percent'' ''%'' protoMetricFloat32,
      Descriptor 242 ''main_battery_soc_percent'' ''%'' protoMetricFloat32,
      Descriptor 268 ''battery_discharge_remaining_min'' ''min'' protoMetricUint,
      Descriptor 269 ''battery_charge_remaining_min'' ''min'' protoMetricUint,
      Descriptor 61 ''ac_input_plugged'' '''' protoMetricBool,
      Descriptor 202 ''ac_charger_connected'' '''' protoMetricBool,
      Descriptor 367 ''ac_output_enabled'' '''' protoMetricBool,
      Descriptor 1 ''error_code'' '''' protoMetricUint]"

section \<open>Packets\<close>

definition zeroPacket :: ecoFlowPacket where
  "zeroPacket = \<lparr>VersionByte = 0, Version = 0, Sentinel = False, Src = 0, Dst = 0, DSrc = 0, DDst = 0, CmdSet = 0, CmdID = 0,
     Payload = [], HeaderCRCOK = False, PacketCRCOK = False, PayloadLength = 0\<rparr>"

text \<open>The payload of a sentinel packet: masked with a byte of the sequence number and closed by a marker.\<close>

definition sentinelPayload :: "byte \<Rightarrow> byte list \<Rightarrow> byte list" where
  "sentinelPayload seqXOR payload0 =
     (let payload = (if seqXOR \<noteq> 0 then map (\<lambda>b. b XOR seqXOR) payload0 else payload0)
      in if 2 \<le> length payload \<and> payload ! (length payload - 2) = 0xbb \<and> payload ! (length payload - 1) = 0xbb
         then take (length payload - 2) payload else payload)"

definition parseEcoFlowPacket :: "byte list \<Rightarrow> (string + ecoFlowPacket) option" where
  "parseEcoFlowPacket data =
     (if length data < 5 then Some (Inl ''invalid packet prefix'')
      else do {
        b0 \<leftarrow> at data 0;
        if b0 \<noteq> 0xaa then Some (Inl ''invalid packet prefix'')
        else do {
          versionByte \<leftarrow> at data 1;
          let version = unat (versionByte AND 0x0f);
          if versionByte = 0x04 then Some (Inl ''v4 packet parsing is not implemented'')
          else if version \<noteq> 2 \<and> version \<noteq> 3
          then Some (Inl (''unsupported packet version 0x'' @ hex_padded 2 (unat versionByte)))
          else do {
            lenField \<leftarrow> Option.bind (slice data 2 4) Uint16;
            let payloadLength = unat lenField;
            let payloadStart = (if version = 3 then 18 else 16);
            if length data < payloadStart then Some (Inl ''packet too short'')
            else do {
              let sentinel = (versionByte AND 0x10 \<noteq> 0);
              let totalLength = payloadStart + payloadLength + (if sentinel then 0 else 2);
              if length data < totalLength then Some (Inl ''packet length mismatch'')
              else do {
                src \<leftarrow> at data 12;
                dst \<leftarrow> at data 13;
                header \<leftarrow> slice data 0 4;
                headerCRC \<leftarrow> at data 4;
                d14 \<leftarrow> at data 14;
                d15 \<leftarrow> at data 15;
                let packet0 = zeroPacket\<lparr>VersionByte := versionByte, Version := version, Sentinel := sentinel, Src := src, Dst := dst,
                  PayloadLength := payloadLength, HeaderCRCOK := (ecoFlowCRC8 header = headerCRC), PacketCRCOK := True\<rparr>;
                packet1 \<leftarrow>
                  (if version = 2 then Some (packet0\<lparr>CmdSet := d14, CmdID := d15\<rparr>)
                   else do {
                     d16 \<leftarrow> at data 16;
                     d17 \<leftarrow> at data 17;
                     Some (packet0\<lparr>DSrc := d14, DDst := d15, CmdSet := d16, CmdID := d17\<rparr>)
                   });
                payload \<leftarrow> slice data payloadStart (payloadStart + payloadLength);
                if sentinel then do {
                  seqXOR \<leftarrow> at data 6;
                  Some (Inr (packet1\<lparr>Payload := sentinelPayload seqXOR payload\<rparr>))
                }
                else do {
                  body \<leftarrow> slice data 0 (totalLength - 2);
                  wantCRC \<leftarrow> Option.bind (slice data (totalLength - 2) totalLength) Uint16;
                  Some (Inr (packet1\<lparr>Payload := payload, PacketCRCOK := (ecoFlowCRC16 body = wantCRC)\<rparr>))
                }
              }
            }
          }
        }
      })"

section \<open>Protobuf fields\<close>

fun readVarintFrom :: "nat \<Rightarrow> 64 word \<Rightarrow> byte list \<Rightarrow> (64 word \<times> nat) option" where
  "readVarintFrom i value [] = None"
| "readVarintFrom i value (b # bs) =
     (if i = 10 then None
      else (let value' = value OR push_bit (7 * i) (ucast (b AND 0x7f))
            in if b < 0x80 then Some (value', i + 1) else readVarintFrom (i + 1) value' bs))"

text \<open>\<open>None\<close> stands for the answer \<open>(0, 0, false)\<close>.\<close>

definition readProtoVarint :: "byte list \<Rightarrow> (64 word \<times> nat) option" where
  "readProtoVarint data = readVarintFrom 0 0 data"

definition tailFrom :: "byte list \<Rightarrow> nat \<Rightarrow> byte list option" where
  "tailFrom data n = slice data n (length data)"

definition zeroScalar :: "int \<Rightarrow> int \<Rightarrow> protoScalar" where
  "zeroScalar fieldNumber wireType =
     \<lparr>psFieldNumber = fieldNumber, psWireType = wireType, psVarint = 0, psFixed32 = 0, psFixed64 = 0, psBytes = []\<rparr>"

text \<open>The value of a field after its key, and the bytes that follow it.\<close>

definition readProtoValue :: "protoScalar \<Rightarrow> byte list \<Rightarrow> (string + protoScalar \<times> byte list) option" where
  "readProtoValue field data =
     (if psWireType field = 0 then
        (case readProtoVarint data of
           None \<Rightarrow> Some (Inl ''invalid protobuf varint'')
         | Some (value, n) \<Rightarrow> do { rest \<leftarrow> tailFrom data n; Some (Inr (field\<lparr>psVarint := value\<rparr>, rest)) })
      else if psWireType field = 1 then
        (if length data < 8 then Some (Inl ''invalid protobuf fixed64'')
         else do { v \<leftarrow> Option.bind (slice data 0 8) Uint64; rest \<leftarrow> tailFrom data 8; Some (Inr (field\<lparr>psFixed64 := v\<rparr>, rest)) })
      else if psWireType field = 2 then
        (case readProtoVarint data of
           None \<Rightarrow> Some (Inl ''invalid protobuf bytes'')
         | Some (len, n) \<Rightarrow> do {
             body \<leftarrow> tailFrom data n;
             if len > word_of_nat (length body) then Some (Inl ''invalid protobuf bytes'')
             else do {
               bytes \<leftarrow> slice body 0 (unat len);
               rest \<leftarrow> tailFrom body (unat len);
               Some (Inr (field\<lparr>psBytes := bytes\<rparr>, rest))
             }
           })
      else if psWireType field = 5 then
        (if length data < 4 then Some (Inl ''invalid protobuf fixed32'')
         else do { v \<leftarrow> Option.bind (slice data 0 4) Uint32; rest \<leftarrow> tailFrom data 4; Some (Inr (field\<lparr>psFixed32 := v\<rparr>, rest)) })
      else Some (Inl (''unsupported protobuf wire type '' @ Itoa (psWireType field))))"

text \<open>One turn of the loop of \<open>parseProtoScalars\<close>.\<close>

definition readProtoField :: "byte list \<Rightarrow> (string + protoScalar \<times> byte list) option" where
  "readProtoField data =
     (case readProtoVarint data of
        None \<Rightarrow> Some (Inl ''invalid protobuf field key'')
      | Some (key, n) \<Rightarrow> do {
          rest \<leftarrow> tailFrom data n;
          let fieldNumber = uint (drop_bit 3 key);
          let wireType = uint (key AND 0x07);
          if fieldNumber \<le> 0 then Some (Inl ''invalid protobuf field number'')
          else readProtoValue (zeroScalar fieldNumber wireType) rest
        })"

lemma readVarintFrom_bounds:
  "readVarintFrom i v data = Some (w, n) \<Longrightarrow> i \<le> 10 \<Longrightarrow> i < n \<and> n \<le> i + length data \<and> n \<le> 10"
proof (induction i v data rule: readVarintFrom.induct)
  case (2 i v b bs)
  then show ?case by (auto simp: Let_def split: if_splits)
qed simp

lemma readProtoVarint_bounds: "readProtoVarint data = Some (w, n) \<Longrightarrow> 0 < n \<and> n \<le> length data \<and> n \<le> 10"
  using readVarintFrom_bounds [of 0 0 data w n] by (simp add: readProtoVarint_def)

lemma tailFrom_Some: "tailFrom data n = Some rest \<longleftrightarrow> n \<le> length data \<and> rest = drop n data"
  by (auto simp: tailFrom_def slice_def)

lemma readProtoValue_rest: "readProtoValue f data = Some (Inr (g, rest)) \<Longrightarrow> length rest \<le> length data"
  by (auto simp: readProtoValue_def tailFrom_Some bind_eq_Some_conv split: if_splits option.splits prod.splits)

lemma readProtoField_shorter: "readProtoField data = Some (Inr (g, rest)) \<Longrightarrow> length rest < length data"
  by (auto simp: readProtoField_def tailFrom_Some bind_eq_Some_conv Let_def split: if_splits option.splits prod.splits
      dest!: readProtoVarint_bounds readProtoValue_rest)

function parseProtoLoop :: "protoScalar list \<Rightarrow> byte list \<Rightarrow> (string + protoScalar list) option" where
  "parseProtoLoop acc data =
     (if data = [] then Some (Inr acc)
      else
        (case readProtoField data of
           None \<Rightarrow> None
         | Some (Inl e) \<Rightarrow> Some (Inl e)
         | Some (Inr (field, rest)) \<Rightarrow> parseProtoLoop (acc @ [field]) rest))"
  by pat_completeness auto
termination
  by (relation "measure (\<lambda>(_, data). length data)") (auto dest: readProtoField_shorter)

declare parseProtoLoop.simps [simp del]

definition parseProtoScalars :: "byte list \<Rightarrow> (string + protoScalar list) option" where
  "parseProtoScalars data = parseProtoLoop [] data"

section \<open>Metrics of a display upload\<close>

text \<open>
  Go's arithmetic on the IEEE bits of a 32-bit number: a change of sign flips the top bit, and a
  comparison with zero looks at the sign; a number that is not a number stays one.
\<close>

definition f32_zero :: "32 word \<Rightarrow> bool" where
  "f32_zero x \<longleftrightarrow> x AND 0x7fffffff = 0"

definition f32_nan :: "32 word \<Rightarrow> bool" where
  "f32_nan x \<longleftrightarrow> x AND 0x7fffffff > 0x7f800000"

definition f32_neg :: "32 word \<Rightarrow> 32 word" where
  "f32_neg x = x XOR 0x80000000"

definition f32_max0 :: "32 word \<Rightarrow> 32 word" where
  "f32_max0 x = (if f32_nan x then x else if bit x 31 then 0 else x)"

definition f32_min0 :: "32 word \<Rightarrow> 32 word" where
  "f32_min0 x = (if f32_nan x then x else if bit x 31 then x else 0)"

definition describeDelta3PVState :: "64 word \<Rightarrow> string" where
  "describeDelta3PVState v =
     (if v = 0 then ''off'' else if v = 1 then ''car'' else if v = 2 then ''solar''
      else ''unknown_'' @ Itoa (uint v))"

definition describeEcoFlowDCChargingType :: "64 word \<Rightarrow> string" where
  "describeEcoFlowDCChargingType v =
     (if v = 0 then ''auto'' else if v = 1 then ''car'' else if v = 2 then ''solar''
      else ''unknown_'' @ Itoa (uint v))"

definition formatDelta3MetricValue ::
    "(32 word \<Rightarrow> string) \<Rightarrow> delta3DisplayMetricDescriptor \<Rightarrow> protoScalar \<Rightarrow> string option" where
  "formatDelta3MetricValue fmtFloat descriptor v =
     (case dKind descriptor of
        protoMetricFloat32 \<Rightarrow> if psWireType v \<noteq> 5 then None else Some (fmtFloat (psFixed32 v))
      | protoMetricOutputFloat32 \<Rightarrow>
          if psWireType v \<noteq> 5 then None
          else Some (fmtFloat (if \<not> f32_zero (psFixed32 v) then f32_neg (psFixed32 v) else psFixed32 v))
      | protoMetricBatteryInputFloat32 \<Rightarrow>
          if psWireType v \<noteq> 5 then None else Some (fmtFloat (f32_max0 (psFixed32 v)))
      | protoMetricBatteryOutputFloat32 \<Rightarrow>
          if psWireType v \<noteq> 5 then None else Some (fmtFloat (f32_neg (f32_min0 (psFixed32 v))))
      | protoMetricUint \<Rightarrow> if psWireType v \<noteq> 0 then None else Some (Itoa (uint (psVarint v)))
      | protoMetricBool \<Rightarrow>
          if psWireType v \<noteq> 0 then None else Some (if psVarint v = 0 then ''false'' else ''true'')
      | protoMetricPVState \<Rightarrow> if psWireType v \<noteq> 0 then None else Some (describeDelta3PVState (psVarint v))
      | protoMetricDCChargingType \<Rightarrow>
          if psWireType v \<noteq> 0 then None else Some (describeEcoFlowDCChargingType (psVarint v)))"

definition metricOf ::
    "(32 word \<Rightarrow> string) \<Rightarrow> (int, protoScalar) gomap \<Rightarrow> delta3DisplayMetricDescriptor \<Rightarrow> probeMetric option" where
  "metricOf fmtFloat values descriptor =
     (case gm_get values (dFieldNumber descriptor) of
        None \<Rightarrow> None
      | Some v \<Rightarrow>
          map_option (\<lambda>metricValue. \<lparr>pmName = dName descriptor, pmValue = metricValue, pmUnit = dUnit descriptor,
            pmSource = ''ble_notify'', pmDecoder = ''v3_display''\<rparr>) (formatDelta3MetricValue fmtFloat descriptor v))"

definition decodeDelta3DisplayUploadMetrics :: "(32 word \<Rightarrow> string) \<Rightarrow> byte list \<Rightarrow> probeMetric list option" where
  "decodeDelta3DisplayUploadMetrics fmtFloat payload = do {
     parsed \<leftarrow> parseProtoScalars payload;
     case parsed of
       Inl _ \<Rightarrow> Some []
     | Inr scalars \<Rightarrow>
         (let values = fold (\<lambda>field m. gm_put (psFieldNumber field) field m) scalars []
          in Some (List.map_filter (metricOf fmtFloat values) delta3DisplayMetricDescriptors))
   }"

section \<open>Descriptions\<close>

definition describeEcoFlowEncFrameType :: "byte \<Rightarrow> string" where
  "describeEcoFlowEncFrameType frameType =
     (if frameType = 0x00 then ''command''
      else if frameType = 0x01 then ''protocol''
      else if frameType = 0x10 then ''protocol_int''
      else ''0x'' @ hex_padded 2 (unat frameType))"

definition joinDetails :: "string list \<Rightarrow> string" where
  "joinDetails parts = Join (filter (\<lambda>p. p \<noteq> []) parts) '', ''"

definition describeEcoFlowSimplePayload :: "byte list \<Rightarrow> string" where
  "describeEcoFlowSimplePayload payload =
     (case payload of
        [] \<Rightarrow> []
      | b # _ \<Rightarrow>
          if b = 0x01 then (if 42 \<le> length payload then ''simple=ecdh_public_key'' else ''simple=ecdh_public_key_short'')
          else if b = 0x02 then ''simple=session_key_info''
          else [])"

definition describeEcoFlowAuthResult :: "byte list \<Rightarrow> string" where
  "describeEcoFlowAuthResult payload =
     (case payload of
        [] \<Rightarrow> ''empty''
      | b # _ \<Rightarrow>
          if b = 0 then ''ok'' else if b = 1 then ''need_refresh_token'' else if b = 2 then ''device_internal_error''
          else if b = 3 then ''device_already_bound'' else if b = 4 then ''need_bind_install_first''
          else if b = 5 then ''app_send_data_error'' else if b = 6 then ''wrong_key'' else if b = 7 then ''maximum_devices''
          else ''unknown_'' @ hex_padded 2 (unat b))"

definition packetDescription :: "ecoFlowPacket \<Rightarrow> string" where
  "packetDescription packet =
     (let d1 = (if Src packet = 0x02 \<and> CmdSet packet = 0xfe \<and> CmdID packet = 0x15 then ''v3 display property upload'' else []);
          d2 = (if CmdSet packet = 0x35 \<and> CmdID packet = 0x86
                then (if Src packet = 0x21 \<and> Dst packet = 0x35 then ''auth request'' else ''auth response'') else d1);
          d3 = (if Src packet = 0x35 \<and> CmdSet packet = 0x35 \<and> CmdID packet = 0x20 then ''ble ping'' else d2)
      in if CmdSet packet = 0x01 then
           (if CmdID packet = 0x52
            then (if Src packet = 0x35 \<and> Payload packet = [] then ''device time request'' else ''rtc time response'')
            else if CmdID packet = 0x53 then ''rtc time check''
            else if CmdID packet = 0x55 then ''utc time sync'' else d3)
         else d3)"

definition packetCommand :: "byte \<Rightarrow> byte \<Rightarrow> byte \<Rightarrow> byte \<Rightarrow> string" where
  "packetCommand src dst cmdSet cmdID =
     ''src=0x'' @ hex_padded 2 (unat src) @ '',dst=0x'' @ hex_padded 2 (unat dst) @
     '',cmd_set=0x'' @ hex_padded 2 (unat cmdSet) @ '',cmd_id=0x'' @ hex_padded 2 (unat cmdID)"

definition summarizeEcoFlowPacket :: "ecoFlowPacket \<Rightarrow> ecoFlowPacketSummary" where
  "summarizeEcoFlowPacket packet =
     \<lparr>sumFamily = ''v'' @ Itoa (int (Version packet)) @ (if Sentinel packet then ''_sentinel'' else []),
      sumCommand = packetCommand (Src packet) (Dst packet) (CmdSet packet) (CmdID packet),
      sumPayloadLength = length (Payload packet), sumDescription = packetDescription packet\<rparr>"

definition formatEcoFlowPacketSummary :: "ecoFlowPacketSummary \<Rightarrow> string" where
  "formatEcoFlowPacketSummary summary =
     Join ([sumFamily summary, sumCommand summary, ''payload='' @ Itoa (int (sumPayloadLength summary))] @
       (if sumDescription summary \<noteq> []
        then [''description='' @ map (\<lambda>c. if c = CHR '' '' then CHR ''_'' else c) (sumDescription summary)] else [])) '',''"

section \<open>Notifications\<close>

definition plainDecode :: "string \<Rightarrow> string \<Rightarrow> notificationDecode" where
  "plainDecode frame detail =
     \<lparr>ndFrame = frame, ndDetail = detail, ndDecodedHex = [], ndDecodedPayload = [], ndPacket = None, ndMetrics = []\<rparr>"

definition decodeEcoFlowPacketMetrics ::
    "(32 word \<Rightarrow> string) \<Rightarrow> ecoFlowPacket \<Rightarrow> string \<Rightarrow> notificationDecode option" where
  "decodeEcoFlowPacketMetrics fmtFloat packet frame =
     (let decoded = (plainDecode frame [])\<lparr>ndDecodedHex := hexString (Payload packet), ndDecodedPayload := Payload packet,
                      ndPacket := Some (summarizeEcoFlowPacket packet)\<rparr>
      in if \<not> HeaderCRCOK packet then Some (decoded\<lparr>ndDetail := ''header_crc8_mismatch''\<rparr>)
         else if \<not> PacketCRCOK packet then Some (decoded\<lparr>ndDetail := ''packet_crc16_mismatch''\<rparr>)
         else do {
           metrics \<leftarrow>
             (if Src packet = 0x02 \<and> CmdSet packet = 0xfe \<and> CmdID packet = 0x15
              then decodeDelta3DisplayUploadMetrics fmtFloat (Payload packet) else Some []);
           let auth =
             (if CmdSet packet = 0x35 \<and> CmdID packet = 0x86 \<and> Src packet \<noteq> 0x21
              then [\<lparr>pmName = ''auth_result'', pmValue = describeEcoFlowAuthResult (Payload packet), pmUnit = [],
                     pmSource = ''ble_auth'', pmDecoder = []\<rparr>] else []);
           Some (decoded\<lparr>ndMetrics := metrics @ auth\<rparr>)
         })"

definition decodeEcoFlowEncPacket :: "(32 word \<Rightarrow> string) \<Rightarrow> byte list \<Rightarrow> notificationDecode option" where
  "decodeEcoFlowEncPacket fmtFloat data =
     (let fail = plainDecode ''ecoflow_enc_packet''
      in if length data < 8 then Some (fail ''too short'')
         else do {
           lenField \<leftarrow> Option.bind (slice data 4 6) Uint16;
           let payloadLength = unat lenField;
           if payloadLength < 2 then Some (fail ''invalid payload length'')
           else (let end = 6 + payloadLength
             in if end > length data then Some (fail ''incomplete frame'')
                else do {
                  payload \<leftarrow> slice data 6 (end - 2);
                  wantCRC \<leftarrow> Option.bind (slice data (end - 2) end) Uint16;
                  body \<leftarrow> slice data 0 (end - 2);
                  if ecoFlowCRC16 body \<noteq> wantCRC then Some (fail ''crc16 mismatch'')
                  else do {
                    d2 \<leftarrow> at data 2;
                    let frameType = drop_bit 4 d2;
                    let detail = ''frame_type='' @ describeEcoFlowEncFrameType frameType;
                    let opaque = (\<lambda>text. (fail (joinDetails [detail, text]))\<lparr>ndDecodedHex := hexString payload,
                                           ndDecodedPayload := payload\<rparr>);
                    if payload = [] \<or> payload ! 0 \<noteq> 0xaa
                    then
                      (let simple = (if frameType = 0 then describeEcoFlowSimplePayload payload else [])
                       in Some (opaque (if simple = [] then ''encrypted_or_unknown_payload'' else simple)))
                    else do {
                      parsed \<leftarrow> parseEcoFlowPacket payload;
                      case parsed of
                        Inl _ \<Rightarrow> Some (opaque ''encrypted_or_unknown_payload'')
                      | Inr packet \<Rightarrow> do {
                          decoded \<leftarrow> decodeEcoFlowPacketMetrics fmtFloat packet ''ecoflow_enc_packet'';
                          Some (decoded\<lparr>ndFrame := ''ecoflow_enc_packet'', ndDecodedHex := hexString payload,
                            ndDecodedPayload := payload,
                            ndDetail := (if ndDetail decoded = [] then detail else detail @ '', '' @ ndDetail decoded)\<rparr>)
                        }
                    }
                  }
                })
         })"

definition decodeEcoFlowNotification :: "(32 word \<Rightarrow> string) \<Rightarrow> byte list \<Rightarrow> notificationDecode option" where
  "decodeEcoFlowNotification fmtFloat data =
     (if data = [] then Some (plainDecode ''empty'' ''empty notification'')
      else do {
        b0 \<leftarrow> at data 0;
        if 2 \<le> length data \<and> b0 = 0x5a \<and> data ! 1 = 0x5a then decodeEcoFlowEncPacket fmtFloat data
        else if b0 = 0xaa then do {
          parsed \<leftarrow> parseEcoFlowPacket data;
          case parsed of
            Inl e \<Rightarrow> Some (plainDecode ''ecoflow_packet'' e)
          | Inr packet \<Rightarrow> decodeEcoFlowPacketMetrics fmtFloat packet ''ecoflow_packet''
        }
        else Some (plainDecode ''unknown'' ''unknown notification prefix'')
      })"

end
