(* ===== verification/Ble_Curve.thy ===== *)
theory Ble_Curve
  imports Ble_Bytes
begin

text \<open>
  The elliptic curve of the key exchange (\<open>secp160r1Curve\<close> of
  \<open>cmd/ecoflow-ble-discover/ecoflow_active.go\<close>). A \<open>big.Int\<close> is an \<open>int\<close>; a nil pair of coordinates
  is \<open>None\<close>. \<open>ModInverse\<close> leaves its receiver unchanged when there is no inverse, as documented.
  Points stay on the curve when the modulus is prime, which is a hypothesis of the lemmas.
\<close>

section \<open>Arithmetic\<close>

record secp160r1Curve =
  curve_p :: int
  curve_n :: int
  curve_b :: int
  curve_gx :: int
  curve_gy :: int

definition newSECP160R1Curve :: secp160r1Curve where
  "newSECP160R1Curve =
     \<lparr>curve_p = 0xFFFFFFFFFFFFFFFFFFFFFFFFFFFFFFFF7FFFFFFF,
      curve_n = 0x0100000000000000000001F4C8F927AED3CA752257,
      curve_b = 0x1C97BEFC54BD7A8B65ACF89F81D4D4ADC565FA45,
      curve_gx = 0x4A96B5688EF573284664698968C38BB913CBFC82,
      curve_gy = 0x23A628553168947D59DCC912042351377AC5FB32\<rparr>"

definition ModInverse :: "int \<Rightarrow> int \<Rightarrow> int" where
  "ModInverse g n =
     (if gcd g n = 1 then fst (bezw (nat (g mod n)) (nat n)) mod n else g)"

definition isOnCurve :: "secp160r1Curve \<Rightarrow> int \<Rightarrow> int \<Rightarrow> bool" where
  "isOnCurve c x y \<longleftrightarrow>
     \<not> (x < 0 \<or> y < 0 \<or> x \<ge> curve_p c \<or> y \<ge> curve_p c) \<and>
     (y * y) mod curve_p c = (x * x * x - x * 3 + curve_b c) mod curve_p c"

definition double :: "secp160r1Curve \<Rightarrow> int \<Rightarrow> int \<Rightarrow> (int \<times> int) option" where
  "double c x1 y1 =
     (if y1 = 0 then None
      else
        (let threeX2 = x1 * x1 * 3 - 3;
             denominator = ModInverse ((y1 * 2) mod curve_p c) (curve_p c);
             lambda = (threeX2 * denominator) mod curve_p c;
             x3 = (lambda * lambda - x1 * 2) mod curve_p c;
             y3 = (lambda * (x1 - x3) - y1) mod curve_p c
         in Some (x3, y3)))"

definition add :: "secp160r1Curve \<Rightarrow> int \<Rightarrow> int \<Rightarrow> int \<Rightarrow> int \<Rightarrow> (int \<times> int) option" where
  "add c x1 y1 x2 y2 =
     (if x1 = x2 then
        (if (y1 + y2) mod curve_p c = 0 then None else double c x1 y1)
      else
        (let numerator = y2 - y1;
             denominator = ModInverse ((x2 - x1) mod curve_p c) (curve_p c);
             lambda = (numerator * denominator) mod curve_p c;
             x3 = (lambda * lambda - x1 - x2) mod curve_p c;
             y3 = (lambda * (x1 - x3) - y1) mod curve_p c
         in Some (x3, y3)))"

text \<open>One bit of the scalar: double what there is, then add the base point if the bit is set.\<close>

definition scalarBit :: "secp160r1Curve \<Rightarrow> int \<Rightarrow> int \<Rightarrow> (int \<times> int) option \<Rightarrow> bool \<Rightarrow> (int \<times> int) option" where
  "scalarBit c bx by' pt b =
     (let doubled = (case pt of None \<Rightarrow> None | Some (x, y) \<Rightarrow> double c x y)
      in if b then (case doubled of None \<Rightarrow> Some (bx, by') | Some (x, y) \<Rightarrow> add c x y bx by') else doubled)"

definition bitsOf :: "byte \<Rightarrow> bool list" where
  "bitsOf b = map (\<lambda>i. drop_bit i b AND 1 = 1) [7, 6, 5, 4, 3, 2, 1, 0]"

definition scalarMult :: "secp160r1Curve \<Rightarrow> int \<Rightarrow> int \<Rightarrow> byte list \<Rightarrow> int \<times> int" where
  "scalarMult c bx by' scalar =
     (case foldl (scalarBit c bx by') None (concat (map bitsOf scalar)) of
        None \<Rightarrow> (0, 0)
      | Some (x, y) \<Rightarrow> (x, y))"

text \<open>\<open>big.Int.Bytes\<close>, \<open>SetBytes\<close> and the padding of \<open>leftPadBytes\<close>, which panics on a number that is too long.\<close>

function Bytes :: "nat \<Rightarrow> byte list" where
  "Bytes n = (if n = 0 then [] else Bytes (n div 256) @ [word_of_nat (n mod 256)])"
  by pat_completeness auto
termination
  by (relation "measure id") auto

declare Bytes.simps [simp del]

definition SetBytes :: "byte list \<Rightarrow> nat" where
  "SetBytes data = foldl (\<lambda>acc b. acc * 256 + unat b) 0 data"

definition leftPadBytes :: "nat \<Rightarrow> nat \<Rightarrow> byte list option" where
  "leftPadBytes v sz =
     (if length (Bytes v) \<le> sz then Some (replicate (sz - length (Bytes v)) 0 @ Bytes v) else None)"

text \<open>The key pair for the number \<open>r\<close> that \<open>rand.Int\<close> draws below \<open>n - 1\<close>.\<close>

definition generateSECP160R1Key :: "nat \<Rightarrow> (byte list \<times> byte list) option" where
  "generateSECP160R1Key r = do {
     let curve = newSECP160R1Curve;
     let privateScalar = r + 1;
     let (x, y) = scalarMult curve (curve_gx curve) (curve_gy curve) (Bytes privateScalar);
     privateBytes \<leftarrow> leftPadBytes privateScalar 20;
     xBytes \<leftarrow> leftPadBytes (nat x) 20;
     yBytes \<leftarrow> leftPadBytes (nat y) 20;
     Some (privateBytes, xBytes @ yBytes)
   }"

section \<open>Padding\<close>

lemma length_Bytes: "length (Bytes n) \<le> k \<longleftrightarrow> n < 256 ^ k"
proof (induction n arbitrary: k rule: Bytes.induct)
  case (1 n)
  show ?case
  proof (cases "n = 0")
    case True
    then show ?thesis by (simp add: Bytes.simps [of 0])
  next
    case False
    then have "length (Bytes n) = Suc (length (Bytes (n div 256)))" by (simp add: Bytes.simps [of n])
    with 1 [OF False] show ?thesis
      using False by (cases k) (auto simp: div_less_iff_less_mult mult.commute)
  qed
qed

lemma leftPadBytes_length: "leftPadBytes v sz = Some out \<Longrightarrow> length out = sz"
  by (auto simp: leftPadBytes_def split: if_splits)

lemma leftPadBytes_Some: "leftPadBytes v sz \<noteq> None \<longleftrightarrow> v < 256 ^ sz"
  by (simp add: leftPadBytes_def length_Bytes)

lemma SetBytes_append: "SetBytes (xs @ [b]) = SetBytes xs * 256 + unat b"
  by (simp add: SetBytes_def)

lemma SetBytes_Bytes: "SetBytes (Bytes n) = n"
proof (induction n rule: Bytes.induct)
  case (1 n)
  show ?case
  proof (cases "n = 0")
    case False
    have "unat (word_of_nat (n mod 256) :: byte) = n mod 256" by (simp add: unat_of_nat)
    with False 1 show ?thesis by (simp add: Bytes.simps [of n] SetBytes_append div_mult_mod_eq)
  qed (simp add: Bytes.simps [of 0] SetBytes_def)
qed

lemma SetBytes_zeros: "SetBytes (replicate k 0 @ xs) = SetBytes xs"
proof -
  have "foldl (\<lambda>acc b. acc * 256 + unat b) 0 (replicate k (0::byte)) = 0" by (induction k) auto
  then show ?thesis by (simp add: SetBytes_def)
qed

lemma leftPadBytes_value: "leftPadBytes v sz = Some out \<Longrightarrow> SetBytes out = v"
  by (auto simp: leftPadBytes_def SetBytes_zeros SetBytes_Bytes split: if_splits)

section \<open>Points stay on the curve\<close>

text \<open>A prime modulus, as far as the arithmetic needs it.\<close>

definition prime_modulus :: "int \<Rightarrow> bool" where
  "prime_modulus p \<longleftrightarrow> 3 < p \<and> (\<forall>a. 0 < a \<longrightarrow> a < p \<longrightarrow> coprime a p)"

lemma ModInverse_mult:
  assumes "0 < p" "coprime g p" "0 \<le> g" "g < p"
  shows "p dvd ModInverse g p * g - 1"
proof -
  let ?u = "fst (bezw (nat g) (nat p))" and ?v = "snd (bezw (nat g) (nat p))"
  have "int (gcd (nat g) (nat p)) = ?u * int (nat g) + ?v * int (nat p)"
    by (rule bezw_aux)
  moreover have "int (gcd (nat g) (nat p)) = 1"
    using assms by (simp add: gcd_int_int_eq [symmetric])
  ultimately have "?u * g - 1 = - ?v * p" using assms by simp
  moreover have "ModInverse g p = ?u mod p" using assms by (simp add: ModInverse_def)
  moreover have "p dvd ?u mod p * g - ?u * g"
    by (metis dvd_mult2 left_diff_distrib mod_eq_dvd_iff mod_mod_trivial)
  ultimately show ?thesis by (smt (verit) dvd_add_right_iff dvd_minus_iff dvd_triv_right)
qed

lemma dvd_diff_chain: "p dvd x - y \<Longrightarrow> p dvd y - z \<Longrightarrow> p dvd x - z" for p :: int
proof -
  assume "p dvd x - y" "p dvd y - z"
  then have "p dvd (x - y) + (y - z)" by (rule dvd_add)
  then show ?thesis by simp
qed

text \<open>A line through two points of the cubic meets it in a third one.\<close>

lemma chord:
  fixes p :: int
  assumes "coprime (x2 - x1) p"
    and c1: "p dvd y1 * y1 - (x1 * x1 * x1 - x1 * 3 + b)" and c2: "p dvd y2 * y2 - (x2 * x2 * x2 - x2 * 3 + b)"
    and l: "p dvd l * (x2 - x1) - (y2 - y1)"
    and x3: "x3 = l * l - x1 - x2"
  shows "p dvd (l * (x1 - x3) - y1) * (l * (x1 - x3) - y1) - (x3 * x3 * x3 - x3 * 3 + b)"
proof -
  define A where "A = - 3 + 2 * l * l * x1 - 2 * l * y1 - (x1 * x2 + x1 * x3 + x2 * x3)"
  define B where "B = b - l * l * x1 * x1 + 2 * l * x1 * y1 - y1 * y1 + x1 * x2 * x3"
  have g: "(x * x * x - x * 3 + b) - (l * (x - x1) + y1) * (l * (x - x1) + y1) = (x - x1) * (x - x2) * (x - x3) + A * x + B" for x
    by (simp add: A_def B_def x3 algebra_simps)
  have "p dvd (x1 * x1 * x1 - x1 * 3 + b) - y1 * y1" using c1 by (subst dvd_diff_commute)
  then have a1: "p dvd A * x1 + B" using g [of x1] by simp
  have "p dvd (l * (x2 - x1) + y1) * (l * (x2 - x1) + y1) - y2 * y2"
  proof -
    have "(l * (x2 - x1) + y1) * (l * (x2 - x1) + y1) - y2 * y2 = (l * (x2 - x1) - (y2 - y1)) * (l * (x2 - x1) + y1 + y2)"
      by (simp add: algebra_simps)
    with l show ?thesis by simp
  qed
  from dvd_diff_chain [OF this c2]
  have "p dvd (l * (x2 - x1) + y1) * (l * (x2 - x1) + y1) - (x2 * x2 * x2 - x2 * 3 + b)" .
  then have "p dvd (x2 * x2 * x2 - x2 * 3 + b) - (l * (x2 - x1) + y1) * (l * (x2 - x1) + y1)" by (subst dvd_diff_commute)
  then have a2: "p dvd A * x2 + B" using g [of x2] by simp
  have "A * (x2 - x1) = (A * x2 + B) - (A * x1 + B)" by (simp add: algebra_simps)
  then have "p dvd A * (x2 - x1)" using a1 a2 by (metis dvd_diff)
  with assms(1) have pA: "p dvd A" by (metis coprime_commute coprime_dvd_mult_left_iff)
  with a1 have pB: "p dvd B" by (metis dvd_add_right_iff dvd_mult2)
  have "(l * (x1 - x3) - y1) * (l * (x1 - x3) - y1) = (l * (x3 - x1) + y1) * (l * (x3 - x1) + y1)" by (simp add: algebra_simps)
  moreover have "p dvd A * x3 + B" using pA pB by (meson dvd_add dvd_mult2)
  ultimately show ?thesis using g [of x3] by (subst dvd_diff_commute) simp
qed

text \<open>So does the tangent at a point.\<close>

lemma tangent:
  fixes p :: int
  assumes c1: "p dvd y1 * y1 - (x1 * x1 * x1 - x1 * 3 + b)" and l: "p dvd l * (y1 * 2) - (x1 * x1 * 3 - 3)"
    and x3: "x3 = l * l - x1 * 2"
  shows "p dvd (l * (x1 - x3) - y1) * (l * (x1 - x3) - y1) - (x3 * x3 * x3 - x3 * 3 + b)"
proof -
  define A where "A = - 3 + 2 * l * l * x1 - 2 * l * y1 - (x1 * x1 + 2 * x1 * x3)"
  define B where "B = b - l * l * x1 * x1 + 2 * l * x1 * y1 - y1 * y1 + x1 * x1 * x3"
  have g: "(x * x * x - x * 3 + b) - (l * (x - x1) + y1) * (l * (x - x1) + y1) = (x - x1) * (x - x1) * (x - x3) + A * x + B" for x
    by (simp add: A_def B_def x3 algebra_simps)
  have "p dvd (x1 * x1 * x1 - x1 * 3 + b) - y1 * y1" using c1 by (subst dvd_diff_commute)
  then have a1: "p dvd A * x1 + B" using g [of x1] by simp
  have "A = (x1 * x1 * 3 - 3) - l * (y1 * 2)" by (simp add: A_def x3 algebra_simps)
  with l have pA: "p dvd A" by (simp add: dvd_diff_commute)
  with a1 have pB: "p dvd B" by (metis dvd_add_right_iff dvd_mult2)
  have "(l * (x1 - x3) - y1) * (l * (x1 - x3) - y1) = (l * (x3 - x1) + y1) * (l * (x3 - x1) + y1)" by (simp add: algebra_simps)
  moreover have "p dvd A * x3 + B" using pA pB by (meson dvd_add dvd_mult2)
  ultimately show ?thesis using g [of x3] by (subst dvd_diff_commute) simp
qed

lemma isOnCurve_dvd:
  "isOnCurve c x y \<longleftrightarrow> 0 \<le> x \<and> 0 \<le> y \<and> x < curve_p c \<and> y < curve_p c \<and>
     curve_p c dvd y * y - (x * x * x - x * 3 + curve_b c)"
  by (auto simp: isOnCurve_def mod_eq_dvd_iff)

text \<open>The results are reduced modulo \<open>p\<close>, which does not leave the curve.\<close>

lemma reduced:
  fixes p :: int
  assumes "0 < p" "p dvd (l * (x1 - x3) - y1) * (l * (x1 - x3) - y1) - (x3 * x3 * x3 - x3 * 3 + b)"
  defines "r \<equiv> x3 mod p" and "t \<equiv> (l * (x1 - x3 mod p) - y1) mod p"
  shows "p dvd t * t - (r * r * r - r * 3 + b)"
proof -
  let ?t = "l * (x1 - x3) - y1"
  have "l * (x1 - x3 mod p) - y1 = ?t + p * (l * (x3 div p))"
    by (simp add: minus_mult_div_eq_mod [symmetric] algebra_simps)
  then have "t mod p = ?t mod p" unfolding t_def by (simp only: mod_mult_self2 mod_mod_trivial)
  then have t: "(t * t) mod p = (?t * ?t) mod p" by (metis mod_mult_eq)
  have r: "(r * r * r - r * 3 + b) mod p = (x3 * x3 * x3 - x3 * 3 + b) mod p"
  proof -
    have "(r * r * r - r * 3 + b) - (x3 * x3 * x3 - x3 * 3 + b) = (r - x3) * (r * r + r * x3 + x3 * x3 - 3)"
      by (simp add: algebra_simps)
    moreover have "p dvd r - x3" by (simp add: r_def flip: mod_eq_dvd_iff)
    ultimately show ?thesis by (simp add: mod_eq_dvd_iff)
  qed
  from assms(2) have "(?t * ?t) mod p = (x3 * x3 * x3 - x3 * 3 + b) mod p" by (simp add: mod_eq_dvd_iff)
  with t r show ?thesis by (simp flip: mod_eq_dvd_iff)
qed

lemma slope:
  assumes p: "prime_modulus p" and d: "\<not> p dvd d"
  shows "p dvd (m * ModInverse (d mod p) p) mod p * d - m"
proof -
  let ?g = "d mod p"
  have p0: "0 < p" using p by (simp add: prime_modulus_def)
  then have g: "0 < ?g" "?g < p" using d pos_mod_sign [of p d] pos_mod_bound [of p d] by (auto simp: dvd_eq_mod_eq_0 order_less_le)
  then have "p dvd ModInverse ?g p * ?g - 1" using p p0 by (intro ModInverse_mult) (auto simp: prime_modulus_def)
  then have "(ModInverse ?g p * ?g) mod p = 1 mod p" by (simp add: mod_eq_dvd_iff)
  then have "(ModInverse ?g p * d) mod p = 1 mod p" by (simp add: mod_simps)
  then have "(m * (ModInverse ?g p * d)) mod p = (m * 1) mod p" by (metis mod_mult_right_eq)
  then have "((m * ModInverse ?g p) mod p * d) mod p = m mod p" by (simp add: mod_simps mult.assoc)
  then show ?thesis by (simp add: mod_eq_dvd_iff)
qed

lemma prime_not_dvd:
  assumes "prime_modulus p" "0 < a" "a < p"
  shows "\<not> p dvd a"
  using assms by (auto simp: zdvd_not_zless)

lemma prime_coprime_diff:
  assumes "prime_modulus p" "\<not> p dvd a"
  shows "coprime a p"
proof -
  have "0 < p" using assms(1) by (simp add: prime_modulus_def)
  then have "0 < a mod p" "a mod p < p" using assms(2) pos_mod_sign [of p a] pos_mod_bound [of p a] by (auto simp: dvd_eq_mod_eq_0 order_less_le)
  then have "coprime (a mod p) p" using assms(1) by (simp add: prime_modulus_def)
  then show ?thesis using \<open>0 < p\<close> by simp
qed

lemma double_on_curve:
  assumes p: "prime_modulus (curve_p c)" and P: "isOnCurve c x1 y1" and run: "double c x1 y1 = Some (x3, y3)"
  shows "isOnCurve c x3 y3"
proof -
  let ?p = "curve_p c"
  have p0: "3 < ?p" using p by (simp add: prime_modulus_def)
  from P have y1: "0 \<le> y1" "y1 < ?p" and c1: "?p dvd y1 * y1 - (x1 * x1 * x1 - x1 * 3 + curve_b c)" by (auto simp: isOnCurve_dvd)
  from run y1 have "0 < y1" by (auto simp: double_def split: if_splits)
  with p y1(2) have "coprime y1 ?p" by (simp add: prime_modulus_def)
  moreover have small: "coprime a ?p" if "0 < a" "a < ?p" for a using p that by (simp add: prime_modulus_def)
  have "coprime 2 ?p" by (rule small) (use p0 in simp_all)
  ultimately have "coprime (y1 * 2) ?p" by (rule coprime_mult_left_iff [THEN iffD2, OF conjI])
  then have nd: "\<not> ?p dvd y1 * 2" using p0 coprime_common_divisor [of "y1 * 2" ?p ?p] by auto
  define l where "l = ((x1 * x1 * 3 - 3) * ModInverse ((y1 * 2) mod ?p) ?p) mod ?p"
  have "?p dvd l * (y1 * 2) - (x1 * x1 * 3 - 3)" unfolding l_def by (rule slope [OF p nd])
  note t = tangent [OF c1 this refl]
  have eqs: "x3 = (l * l - x1 * 2) mod ?p" "y3 = (l * (x1 - x3) - y1) mod ?p"
    using run \<open>0 < y1\<close> unfolding double_def Let_def l_def [symmetric] by auto
  from reduced [OF _ t] p0 show ?thesis by (simp add: isOnCurve_dvd eqs)
qed

lemma add_on_curve:
  assumes p: "prime_modulus (curve_p c)" and P: "isOnCurve c x1 y1" and Q: "isOnCurve c x2 y2"
    and run: "add c x1 y1 x2 y2 = Some (x3, y3)"
  shows "isOnCurve c x3 y3"
proof (cases "x1 = x2")
  case True
  with run have "double c x1 y1 = Some (x3, y3)" by (auto simp: add_def split: if_splits)
  with double_on_curve [OF p P] show ?thesis .
next
  case False
  let ?p = "curve_p c"
  have p0: "3 < ?p" using p by (simp add: prime_modulus_def)
  from P Q have x: "0 \<le> x1" "x1 < ?p" "0 \<le> x2" "x2 < ?p"
    and c1: "?p dvd y1 * y1 - (x1 * x1 * x1 - x1 * 3 + curve_b c)" and c2: "?p dvd y2 * y2 - (x2 * x2 * x2 - x2 * 3 + curve_b c)"
    by (auto simp: isOnCurve_dvd)
  have nd: "\<not> ?p dvd x2 - x1" using x False by (metis mod_eq_dvd_iff mod_pos_pos_trivial)
  define l where "l = ((y2 - y1) * ModInverse ((x2 - x1) mod ?p) ?p) mod ?p"
  have "?p dvd l * (x2 - x1) - (y2 - y1)" unfolding l_def by (rule slope [OF p nd])
  note t = chord [OF prime_coprime_diff [OF p nd] c1 c2 this refl]
  have eqs: "x3 = (l * l - x1 - x2) mod ?p" "y3 = (l * (x1 - x3) - y1) mod ?p"
    using run False unfolding add_def Let_def l_def [symmetric] by auto
  from reduced [OF _ t] p0 show ?thesis by (simp add: isOnCurve_dvd eqs)
qed

lemma scalarBit_on_curve:
  assumes p: "prime_modulus (curve_p c)" and P: "isOnCurve c bx by'" and pt: "\<forall>(x, y) \<in> set_option pt. isOnCurve c x y"
  shows "\<forall>(x, y) \<in> set_option (scalarBit c bx by' pt b). isOnCurve c x y"
proof -
  define doubled where "doubled = (case pt of None \<Rightarrow> None | Some (x, y) \<Rightarrow> double c x y)"
  have d: "doubled = Some (x, y) \<Longrightarrow> isOnCurve c x y" for x y
    using pt double_on_curve [OF p] by (auto simp: doubled_def split: option.splits)
  have "scalarBit c bx by' pt b = Some (x, y) \<Longrightarrow> isOnCurve c x y" for x y
  proof (cases doubled)
    case None
    then show "scalarBit c bx by' pt b = Some (x, y) \<Longrightarrow> isOnCurve c x y"
      using P by (simp add: scalarBit_def doubled_def [symmetric] split: if_splits)
  next
    case (Some q)
    obtain u v where q: "q = (u, v)" by (cases q)
    show "scalarBit c bx by' pt b = Some (x, y) \<Longrightarrow> isOnCurve c x y"
      using d Some q add_on_curve [OF p d P, of u v x y] by (simp add: scalarBit_def doubled_def [symmetric] Let_def split: if_splits)
  qed
  then show ?thesis by auto
qed

lemma scalarMult_loop:
  assumes "prime_modulus (curve_p c)" "isOnCurve c bx by'" "\<forall>(x, y) \<in> set_option pt. isOnCurve c x y"
  shows "\<forall>(x, y) \<in> set_option (foldl (scalarBit c bx by') pt bs). isOnCurve c x y"
  using assms(3)
proof (induction bs arbitrary: pt)
  case (Cons b bs)
  from Cons.IH [OF scalarBit_on_curve [OF assms(1,2) Cons.prems]] show ?case by simp
qed simp

lemma scalarMult_cases:
  assumes "prime_modulus (curve_p c)" "isOnCurve c bx by'" "scalarMult c bx by' k = (x, y)"
  shows "(x, y) = (0, 0) \<or> isOnCurve c x y"
  using scalarMult_loop [OF assms(1,2), of None "concat (map bitsOf k)"] assms(3)
  by (auto simp: scalarMult_def split: option.splits)

end
