(* ===== verification/Ble_Crypto.thy ===== *)
theory Ble_Crypto
  imports Ble_Frames Ble_Curve
begin

text \<open>
  Building, wrapping and encrypting packets (\<open>cmd/ecoflow-ble-discover/ecoflow_active.go\<close>). The AES
  block functions and MD5 are parameters; cipher block chaining, padding, framing and the derivation
  of the keys are definitions.
\<close>

section \<open>Building packets\<close>

definition buildEcoFlowV3Packet :: "byte \<Rightarrow> byte \<Rightarrow> byte \<Rightarrow> byte \<Rightarrow> byte list \<Rightarrow> byte list" where
  "buildEcoFlowV3Packet src dst cmdSet cmdID payload =
     (let p1 = AppendUint16 [0xaa, 0x03] (word_of_nat (length payload));
          p2 = p1 @ [ecoFlowCRC8 p1];
          p3 = p2 @ [0x0d, 0x00, 0x00, 0x00, 0x00, 0x00, 0x00, src, dst, 0x01, 0x01, cmdSet, cmdID];
          p4 = p3 @ payload
      in AppendUint16 p4 (ecoFlowCRC16 p4))"

definition wrapFrame :: "byte \<Rightarrow> byte list \<Rightarrow> byte list" where
  "wrapFrame frameByte payload =
     (let p1 = AppendUint16 [0x5a, 0x5a, frameByte, 0x01] (word_of_nat (length payload + 2));
          p2 = p1 @ payload
      in AppendUint16 p2 (ecoFlowCRC16 p2))"

definition wrapEcoFlowSimpleEncPacket :: "byte list \<Rightarrow> byte list" where
  "wrapEcoFlowSimpleEncPacket payload = wrapFrame 0x00 payload"

section \<open>Encryption\<close>

text \<open>The AES block functions for a key: encryption and decryption of one block.\<close>

type_synonym block_cipher = "(byte list \<Rightarrow> byte list \<Rightarrow> byte list) \<times> (byte list \<Rightarrow> byte list \<Rightarrow> byte list)"

definition xor_block :: "byte list \<Rightarrow> byte list \<Rightarrow> byte list" where
  "xor_block a b = map2 (XOR) a b"

function cbc_encrypt :: "(byte list \<Rightarrow> byte list) \<Rightarrow> byte list \<Rightarrow> byte list \<Rightarrow> byte list" where
  "cbc_encrypt enc iv data =
     (if length data < 16 then []
      else (let c = enc (xor_block (take 16 data) iv) in c @ cbc_encrypt enc c (drop 16 data)))"
  by pat_completeness auto
termination
  by (relation "measure (\<lambda>(_, _, data). length data)") auto

function cbc_decrypt :: "(byte list \<Rightarrow> byte list) \<Rightarrow> byte list \<Rightarrow> byte list \<Rightarrow> byte list" where
  "cbc_decrypt dec iv data =
     (if length data < 16 then []
      else xor_block (dec (take 16 data)) iv @ cbc_decrypt dec (take 16 data) (drop 16 data))"
  by pat_completeness auto
termination
  by (relation "measure (\<lambda>(_, _, data). length data)") auto

declare cbc_encrypt.simps [simp del] cbc_decrypt.simps [simp del]

definition bytesRepeat :: "byte \<Rightarrow> nat \<Rightarrow> byte list" where
  "bytesRepeat v count = replicate count v"

definition pkcs7Unpad :: "byte list \<Rightarrow> nat \<Rightarrow> byte list \<times> bool" where
  "pkcs7Unpad data blockSize =
     (if data = [] \<or> length data mod blockSize \<noteq> 0 then (data, False)
      else
        (let padding = unat (last data)
         in if padding = 0 \<or> padding > blockSize \<or> padding > length data then (data, False)
            else if list_ex (\<lambda>v. unat v \<noteq> padding) (drop (length data - padding) data) then (data, False)
            else (take (length data - padding) data, True)))"

definition encryptEcoFlowType7 :: "block_cipher \<Rightarrow> byte list \<Rightarrow> byte list \<Rightarrow> byte list \<Rightarrow> string + byte list" where
  "encryptEcoFlowType7 aes plaintext key iv =
     (if length key \<noteq> 16 then Inl (''invalid AES key length '' @ Itoa (int (length key)))
      else if length iv \<noteq> 16 then Inl (''invalid AES IV length '' @ Itoa (int (length iv)))
      else
        (let padding = 16 - length plaintext mod 16;
             padded = plaintext @ bytesRepeat (word_of_nat padding) padding
         in Inr (cbc_encrypt (fst aes key) iv padded)))"

definition decryptEcoFlowType7 :: "block_cipher \<Rightarrow> byte list \<Rightarrow> byte list \<Rightarrow> byte list \<Rightarrow> string + byte list" where
  "decryptEcoFlowType7 aes ciphertext key iv =
     (if length key \<noteq> 16 then Inl (''invalid AES key length '' @ Itoa (int (length key)))
      else if length iv \<noteq> 16 then Inl (''invalid AES IV length '' @ Itoa (int (length iv)))
      else
        (let aligned = length ciphertext - length ciphertext mod 16
         in if aligned = 0 then Inr ciphertext
            else
              (let decrypted = cbc_decrypt (snd aes key) iv (take aligned ciphertext)
               in case pkcs7Unpad decrypted 16 of
                    (unpadded, True) \<Rightarrow> Inr unpadded
                  | (_, False) \<Rightarrow> Inr decrypted)))"

definition decryptEcoFlowEncPacketPayload ::
    "block_cipher \<Rightarrow> byte list \<Rightarrow> byte list \<Rightarrow> byte list \<Rightarrow> (string + byte list) option" where
  "decryptEcoFlowEncPacketPayload aes data key iv =
     (if length data < 8 then Some (Inl ''invalid EncPacket prefix'')
      else do {
        b0 \<leftarrow> at data 0;
        b1 \<leftarrow> at data 1;
        if b0 \<noteq> 0x5a \<or> b1 \<noteq> 0x5a then Some (Inl ''invalid EncPacket prefix'')
        else do {
          lenField \<leftarrow> Option.bind (slice data 4 6) Uint16;
          let payloadLength = unat lenField;
          if payloadLength < 2 then Some (Inl ''invalid EncPacket payload length'')
          else (let end = 6 + payloadLength
            in if end > length data then Some (Inl ''incomplete EncPacket'')
               else do {
                 body \<leftarrow> slice data 0 (end - 2);
                 wantCRC \<leftarrow> Option.bind (slice data (end - 2) end) Uint16;
                 if ecoFlowCRC16 body \<noteq> wantCRC then Some (Inl ''EncPacket crc16 mismatch'')
                 else do {
                   payload \<leftarrow> slice data 6 (end - 2);
                   Some (decryptEcoFlowType7 aes payload key iv)
                 }
               })
        }
      })"

definition wrapEcoFlowEncryptedProtocolPacket :: "block_cipher \<Rightarrow> byte list \<Rightarrow> byte list \<Rightarrow> byte list \<Rightarrow> string + byte list" where
  "wrapEcoFlowEncryptedProtocolPacket aes plaintext key iv =
     (case encryptEcoFlowType7 aes plaintext key iv of
        Inl e \<Rightarrow> Inl e
      | Inr encrypted \<Rightarrow> Inr (wrapFrame 0x10 encrypted))"

section \<open>Keys\<close>

definition ecoFlowECDHTypeSize :: "byte \<Rightarrow> nat" where
  "ecoFlowECDHTypeSize ecdhType =
     (if ecdhType = 1 then 52 else if ecdhType = 2 then 56 else if ecdhType = 3 \<or> ecdhType = 4 then 64 else 40)"

definition deriveType7InitialEncryption ::
    "(byte list \<Rightarrow> byte list) \<Rightarrow> byte list \<Rightarrow> byte list \<Rightarrow> (string + byte list \<times> byte list) option" where
  "deriveType7InitialEncryption md5 privateScalar payload =
     (if privateScalar = [] then Some (Inl ''missing private scalar'')
      else if length payload < 3 then Some (Inl ''not an ECDH public key payload'')
      else do {
        b0 \<leftarrow> at payload 0;
        if b0 \<noteq> 0x01 then Some (Inl ''not an ECDH public key payload'')
        else do {
          kind \<leftarrow> at payload 2;
          let keySize = ecoFlowECDHTypeSize kind;
          if length payload < 3 + keySize
          then Some (Inl (''short ECDH public key payload: have '' @ Itoa (int (length payload - 3)) @ '' want '' @ Itoa (int keySize)))
          else if keySize \<noteq> 40 then Some (Inl (''unsupported ECDH public key size '' @ Itoa (int keySize)))
          else do {
            let curve = newSECP160R1Curve;
            publicKey \<leftarrow> slice payload 3 (3 + keySize);
            xBytes \<leftarrow> slice publicKey 0 20;
            yBytes \<leftarrow> slice publicKey 20 (length publicKey);
            let x = int (SetBytes xBytes);
            let y = int (SetBytes yBytes);
            if \<not> isOnCurve curve x y then Some (Inl ''device public key is not on secp160r1'')
            else do {
              sharedKey \<leftarrow> leftPadBytes (nat (fst (scalarMult curve x y privateScalar))) 20;
              Some (Inr (take 16 sharedKey, md5 sharedKey))
            }
          }
        }
      })"

definition deriveEcoFlowSessionKeyWithLoginKey ::
    "(byte list \<Rightarrow> byte list) \<Rightarrow> byte list \<Rightarrow> byte list \<Rightarrow> byte list \<Rightarrow> (string + byte list) option" where
  "deriveEcoFlowSessionKeyWithLoginKey md5 seed srand loginKey =
     (if length seed \<noteq> 2 then Some (Inl (''invalid seed length '' @ Itoa (int (length seed))))
      else if length srand < 16 then Some (Inl (''invalid srand length '' @ Itoa (int (length srand))))
      else
        (let pos = unat (seed ! 0) * 0x10 + unat (seed ! 1 - 1) * 0x100
         in if pos + 16 > length loginKey then Some (Inl (''seed index '' @ Itoa (int pos) @ '' outside login key table''))
            else do {
              row \<leftarrow> slice loginKey pos (pos + 16);
              prefix \<leftarrow> slice srand 0 16;
              Some (Inr (md5 (row @ prefix)))
            }))"

section \<open>Padding and chaining are undone by decryption\<close>

text \<open>What the code relies on of AES: blocks have sixteen bytes and decryption undoes encryption.\<close>

definition aes_laws :: "block_cipher \<Rightarrow> bool" where
  "aes_laws aes \<longleftrightarrow>
     (\<forall>key b. length key = 16 \<longrightarrow> length b = 16 \<longrightarrow>
        length (fst aes key b) = 16 \<and> snd aes key (fst aes key b) = b)"

lemma xor_block_undo: "length a = length b \<Longrightarrow> xor_block (xor_block a b) b = a"
  by (induction a b rule: list_induct2) (auto simp: xor_block_def xor.assoc)

lemma length_xor_block [simp]: "length (xor_block a b) = min (length a) (length b)"
  by (simp add: xor_block_def)

lemma cbc_length:
  assumes "\<And>b. length b = 16 \<Longrightarrow> length (enc b) = 16" "length iv = 16" "16 dvd length data"
  shows "length (cbc_encrypt enc iv data) = length data"
  using assms
proof (induction enc iv data rule: cbc_encrypt.induct)
  case (1 enc iv data)
  show ?case
  proof (cases "length data < 16")
    case True
    with 1(4) have "data = []" by auto
    then show ?thesis by (simp add: cbc_encrypt.simps)
  next
    case False
    let ?c = "enc (xor_block (take 16 data) iv)"
    have "length ?c = 16" using 1(2,3) False by simp
    moreover have "length (cbc_encrypt enc ?c (drop 16 data)) = length (drop 16 data)"
      by (rule 1(1) [OF False refl 1(2)]) (use 1(2-4) False in \<open>auto simp: dvd_diff_nat\<close>)
    ultimately show ?thesis using False by (simp add: cbc_encrypt.simps [of enc iv data] Let_def)
  qed
qed

lemma cbc_roundtrip:
  assumes "\<And>b. length b = 16 \<Longrightarrow> length (enc b) = 16 \<and> dec (enc b) = b" "length iv = 16" "16 dvd length data"
  shows "cbc_decrypt dec iv (cbc_encrypt enc iv data) = data"
  using assms
proof (induction enc iv data rule: cbc_encrypt.induct)
  case (1 enc iv data)
  show ?case
  proof (cases "length data < 16")
    case True
    with 1(4) have "data = []" by auto
    then show ?thesis by (simp add: cbc_encrypt.simps cbc_decrypt.simps)
  next
    case False
    let ?b = "xor_block (take 16 data) iv"
    let ?c = "enc ?b"
    have c: "length ?c = 16" "dec ?c = ?b" using 1(2) [of ?b] 1(3) False by simp_all
    have "cbc_decrypt dec ?c (cbc_encrypt enc ?c (drop 16 data)) = drop 16 data"
      by (rule 1(1) [OF False refl 1(2)]) (use 1(4) c False in \<open>auto simp: dvd_diff_nat\<close>)
    moreover have "xor_block ?b iv = take 16 data" using 1(3) False by (intro xor_block_undo) simp
    ultimately show ?thesis using False c
      by (simp add: cbc_encrypt.simps [of enc iv data] Let_def cbc_decrypt.simps [of dec iv "?c @ rest" for rest])
  qed
qed

lemma pkcs7_roundtrip:
  fixes data :: "byte list"
  defines "n \<equiv> 16 - length data mod 16"
  shows "pkcs7Unpad (data @ bytesRepeat (word_of_nat n) n) 16 = (data, True)"
proof -
  have n: "0 < n" "n \<le> 16" by (simp_all add: n_def)
  then have u: "unat (word_of_nat n :: byte) = n" by (simp add: unat_of_nat)
  have "length data + n = 16 * (length data div 16 + 1)" unfolding n_def by (simp add: algebra_simps) presburger
  then have "(length data + n) mod 16 = 0" by simp
  with n u show ?thesis by (simp add: pkcs7Unpad_def bytesRepeat_def Let_def list_ex_iff)
qed

lemma type7_roundtrip:
  assumes aes: "aes_laws aes" and len: "length key = 16" "length iv = 16"
  shows "\<exists>c. encryptEcoFlowType7 aes plaintext key iv = Inr c \<and> length c = 16 * (length plaintext div 16 + 1) \<and>
    decryptEcoFlowType7 aes c key iv = Inr plaintext"
proof -
  define n where "n = 16 - length plaintext mod 16"
  define padded where "padded = plaintext @ bytesRepeat (word_of_nat n) n"
  let ?c = "cbc_encrypt (fst aes key) iv padded"
  have laws: "length b = 16 \<Longrightarrow> length (fst aes key b) = 16 \<and> snd aes key (fst aes key b) = b" for b
    using aes len by (simp add: aes_laws_def)
  have l: "length padded = 16 * (length plaintext div 16 + 1)"
    by (simp add: padded_def n_def bytesRepeat_def algebra_simps) presburger
  then have dvd: "16 dvd length padded" by (metis dvd_triv_left)
  have "length ?c = length padded" using laws len dvd by (intro cbc_length) auto
  moreover have "cbc_decrypt (snd aes key) iv ?c = padded" using laws len dvd by (intro cbc_roundtrip) auto
  moreover have "pkcs7Unpad padded 16 = (plaintext, True)" unfolding padded_def n_def by (rule pkcs7_roundtrip)
  moreover have "encryptEcoFlowType7 aes plaintext key iv = Inr ?c"
    using len by (simp add: encryptEcoFlowType7_def padded_def n_def Let_def)
  ultimately show ?thesis using len l by (simp add: decryptEcoFlowType7_def Let_def)
qed

end
