(* ===== verification/Ble_Session.thy ===== *)
theory Ble_Session
  imports Ble_Crypto
begin

text \<open>
  The active probe of \<open>cmd/ecoflow-ble-discover/ecoflow_active.go\<close>: the advertisement record, the
  choice of a transport, and the session that exchanges keys with a device, derives the session key
  and asks for authentication. The session is a map from transports to exchanges, passed from handler
  to handler. A characteristic is a function from the bytes written to an error text, if any; a nil
  characteristic is \<open>None\<close>, and writing to it is a panic. The cipher, the digest and the text of
  floating-point numbers are the environment of the handlers.
\<close>

section \<open>Data\<close>

record ble_env =
  envAES :: block_cipher
  envMD5 :: "byte list \<Rightarrow> byte list"
  envFmtFloat :: "32 word \<Rightarrow> string"

record ecoFlowScanRecord =
  srKnown :: bool
  srProtoVersion :: nat
  srEncryptType :: nat
  srSerial :: string
  srActive :: bool
  srSupportVerified :: bool
  srVerified :: bool
  srSupport5G :: bool

record probeNotification =
  pnDirection :: string
  pnServiceUUID :: string
  pnCharacteristicUUID :: string
  pnRole :: string
  pnStep :: string
  pnBytes :: nat
  pnFrame :: string
  pnPacket :: string
  pnDetail :: string
  pnValueHex :: string
  pnDecodedHex :: string

record rawBLENotification =
  rawServiceUUID :: string
  rawCharacteristicUUID :: string
  rawRole :: string
  rawData :: "byte list"

record probeOptions =
  poRawNotifications :: bool
  poActiveProbe :: string
  poAuthUserID :: string
  poAuthDeviceSerial :: string

record activeProbeRequest =
  rqStep :: string
  rqData :: "byte list"
  rqPrivateScalar :: "byte list"

type_synonym writer = "byte list \<Rightarrow> string option"

record activeProbeTransport =
  tpName :: string
  tpWriteServiceUUID :: string
  tpWriteCharacteristicUUID :: string
  tpWriteRole :: string
  tpWrite :: "writer option"
  tpHasWrite :: bool
  tpHasNotify :: bool

record activeProbeTransports =
  tpsRfcomm :: activeProbeTransport
  tpsAlt :: activeProbeTransport

record activeProbeExchange =
  exTransport :: activeProbeTransport
  exPrivateScalar :: "byte list"
  exStage :: string
  exInitialKey :: "byte list"
  exSessionKey :: "byte list"
  exIV :: "byte list"

record activeProbeSession =
  seExchanges :: "(string, activeProbeExchange) gomap"
  seLoginKey :: "byte list"
  seAuthUserID :: string
  seAuthDeviceSerial :: string

record probeEvent =
  evNotifications :: "probeNotification list"
  evMetrics :: "probeMetric list"

definition bytesOf :: "string \<Rightarrow> byte list" where
  "bytesOf s = map (\<lambda>c. word_of_nat (of_char c)) s"

definition textOf :: "byte list \<Rightarrow> string" where
  "textOf data = map (\<lambda>b. char_of (unat b)) data"

definition zeroNotification :: probeNotification where
  "zeroNotification = \<lparr>pnDirection = [], pnServiceUUID = [], pnCharacteristicUUID = [], pnRole = [], pnStep = [], pnBytes = 0,
     pnFrame = [], pnPacket = [], pnDetail = [], pnValueHex = [], pnDecodedHex = []\<rparr>"

definition emptyEvent :: probeEvent where
  "emptyEvent = \<lparr>evNotifications = [], evMetrics = []\<rparr>"

section \<open>The advertisement\<close>

text \<open>Every byte outside printable ASCII belongs to a code point outside it, so the test of the runes is a test of the bytes.\<close>

definition printableEcoFlowSerial :: "byte list \<Rightarrow> string" where
  "printableEcoFlowSerial data =
     (let serial = rev (dropWhile (\<lambda>c. c = CHR 0x00) (rev (TrimSpace (textOf data))))
      in if serial = [] then []
         else if list_ex (\<lambda>c. of_char c < (32::nat) \<or> of_char c > (126::nat)) serial then []
         else serial)"

definition parseEcoFlowScanRecord :: "byte list \<Rightarrow> ecoFlowScanRecord option" where
  "parseEcoFlowScanRecord data =
     (if length data < 17 then None
      else
        (let flags = (if length data > 22 then data ! 22 else 0x38);
             status = (if length data > 17 then data ! 17 else 0)
         in Some \<lparr>srKnown = True, srProtoVersion = unat (data ! 0), srEncryptType = unat (drop_bit 3 (flags AND 0x38)),
                  srSerial = printableEcoFlowSerial (take 16 (drop 1 data)), srActive = (drop_bit 7 status AND 0x01 = 1),
                  srSupportVerified = (flags AND 0x02 \<noteq> 0), srVerified = (flags AND 0x04 \<noteq> 0),
                  srSupport5G = (drop_bit 6 flags AND 0x01 \<noteq> 0)\<rparr>))"

section \<open>Transports\<close>

definition transportNameFromRole :: "string \<Rightarrow> string" where
  "transportNameFromRole role =
     (if role = ''ecoflow_rfcomm_write'' \<or> role = ''ecoflow_rfcomm_notify'' then ''rfcomm''
      else if role = ''ecoflow_alt_write'' \<or> role = ''ecoflow_alt_notify'' then ''alt''
      else [])"

definition newTransport :: "string \<Rightarrow> activeProbeTransport" where
  "newTransport name = \<lparr>tpName = name, tpWriteServiceUUID = [], tpWriteCharacteristicUUID = [], tpWriteRole = [],
     tpWrite = None, tpHasWrite = False, tpHasNotify = False\<rparr>"

definition newActiveProbeTransports :: activeProbeTransports where
  "newActiveProbeTransports = \<lparr>tpsRfcomm = newTransport ''rfcomm'', tpsAlt = newTransport ''alt''\<rparr>"

definition observeTransport :: "string \<Rightarrow> string \<Rightarrow> string \<Rightarrow> writer \<Rightarrow> activeProbeTransport \<Rightarrow> activeProbeTransport" where
  "observeTransport serviceUUID characteristicUUID role characteristic t0 =
     (let t1 = (if HasSuffix role ''_write''
                then t0\<lparr>tpWriteServiceUUID := serviceUUID, tpWriteCharacteristicUUID := characteristicUUID, tpWriteRole := role,
                        tpWrite := Some characteristic, tpHasWrite := True\<rparr> else t0)
      in if HasSuffix role ''_notify'' then t1\<lparr>tpHasNotify := True\<rparr> else t1)"

definition Observe :: "string \<Rightarrow> string \<Rightarrow> string \<Rightarrow> writer \<Rightarrow> activeProbeTransports \<Rightarrow> activeProbeTransports" where
  "Observe serviceUUID characteristicUUID role characteristic t =
     (let transportName = transportNameFromRole role
      in if transportName = [] then t
         else if transportName = ''alt''
         then t\<lparr>tpsAlt := observeTransport serviceUUID characteristicUUID role characteristic (tpsAlt t)\<rparr>
         else t\<lparr>tpsRfcomm := observeTransport serviceUUID characteristicUUID role characteristic (tpsRfcomm t)\<rparr>)"

definition complete :: "activeProbeTransport \<Rightarrow> bool" where
  "complete transport \<longleftrightarrow> tpHasWrite transport \<and> tpHasNotify transport"

definition Select :: "string \<Rightarrow> activeProbeTransports \<Rightarrow> activeProbeTransport list" where
  "Select selection t =
     (if selection = ''rfcomm'' then (if complete (tpsRfcomm t) then [tpsRfcomm t] else [])
      else if selection = ''alt'' then (if complete (tpsAlt t) then [tpsAlt t] else [])
      else if selection = ''both'' then filter complete [tpsRfcomm t, tpsAlt t]
      else if complete (tpsRfcomm t) then [tpsRfcomm t]
      else if complete (tpsAlt t) then [tpsAlt t]
      else [])"

section \<open>Requests\<close>

definition buildAuthStatusProbeRequest :: activeProbeRequest where
  "buildAuthStatusProbeRequest =
     \<lparr>rqStep = ''auth_status_request'', rqData = buildEcoFlowV3Packet 0x21 0x35 0x35 0x89 [], rqPrivateScalar = []\<rparr>"

text \<open>\<open>random\<close> is what \<open>rand.Int\<close> answers: an error or a number below the order of the group less one.\<close>

definition buildECDHProbeRequest :: "string + nat \<Rightarrow> (string + activeProbeRequest) option" where
  "buildECDHProbeRequest random =
     (case random of
        Inl e \<Rightarrow> Some (Inl e)
      | Inr r \<Rightarrow> do {
          (privateScalar, publicKey) \<leftarrow> generateSECP160R1Key r;
          Some (Inr \<lparr>rqStep = ''ecdh_public_key_request'', rqData = wrapEcoFlowSimpleEncPacket ([0x01, 0x00] @ publicKey),
                     rqPrivateScalar = privateScalar\<rparr>)
        })"

definition buildActiveProbeRequest :: "string + nat \<Rightarrow> string \<Rightarrow> ecoFlowScanRecord \<Rightarrow> (string + activeProbeRequest) option" where
  "buildActiveProbeRequest random mode record =
     (if mode = ''auto'' then
        (if srKnown record \<and> srEncryptType record = 0 then Some (Inr buildAuthStatusProbeRequest)
         else buildECDHProbeRequest random)
      else if mode = ''ecdh'' then buildECDHProbeRequest random
      else if mode = ''auth-status'' then Some (Inr buildAuthStatusProbeRequest)
      else if mode = ''none'' then Some (Inl ''active probe disabled'')
      else Some (Inl (''unsupported active probe '' @ [CHR 0x22] @ mode @ [CHR 0x22])))"

section \<open>Starting a session\<close>

definition writeTo :: "activeProbeTransport \<Rightarrow> byte list \<Rightarrow> string option option" where
  "writeTo transport data = map_option (\<lambda>w. w data) (tpWrite transport)"

text \<open>The detail of a notification after a write: the error of the write is appended.\<close>

definition afterWrite :: "string option \<Rightarrow> probeNotification \<Rightarrow> probeNotification" where
  "afterWrite err n =
     (case err of None \<Rightarrow> n | Some e \<Rightarrow> n\<lparr>pnDetail := joinDetails [pnDetail n, ''write_error='' @ e]\<rparr>)"

definition txNotification ::
    "probeOptions \<Rightarrow> activeProbeTransport \<Rightarrow> string \<Rightarrow> byte list \<Rightarrow> notificationDecode \<Rightarrow> probeNotification" where
  "txNotification options transport stp data decoded =
     zeroNotification\<lparr>pnDirection := ''tx'', pnServiceUUID := tpWriteServiceUUID transport,
       pnCharacteristicUUID := tpWriteCharacteristicUUID transport, pnRole := tpWriteRole transport, pnStep := stp,
       pnBytes := length data, pnFrame := ndFrame decoded, pnDetail := ndDetail decoded,
       pnValueHex := (if poRawNotifications options then hexString data else []),
       pnDecodedHex := (if poRawNotifications options then ndDecodedHex decoded else [])\<rparr>"

definition trackECDHExchange :: "activeProbeTransport \<Rightarrow> byte list \<Rightarrow> activeProbeSession \<Rightarrow> activeProbeSession" where
  "trackECDHExchange transport privateScalar s =
     (if privateScalar = [] then s
      else s\<lparr>seExchanges := gm_put (tpName transport)
        \<lparr>exTransport = transport, exPrivateScalar = privateScalar, exStage = ''ecdh_public_key_request'',
         exInitialKey = [], exSessionKey = [], exIV = []\<rparr> (seExchanges s)\<rparr>)"

fun sendLoop ::
    "ble_env \<Rightarrow> probeOptions \<Rightarrow> activeProbeRequest \<Rightarrow> activeProbeTransport list \<Rightarrow> probeNotification list \<Rightarrow> activeProbeSession \<Rightarrow>
       (probeNotification list \<times> activeProbeSession) option" where
  "sendLoop env options request [] notifications s = Some (notifications, s)"
| "sendLoop env options request (transport # rest) notifications s = do {
     decoded \<leftarrow> decodeEcoFlowNotification (envFmtFloat env) (rqData request);
     let notification = txNotification options transport (rqStep request) (rqData request) decoded;
     err \<leftarrow> writeTo transport (rqData request);
     let s' = (if err = None \<and> rqStep request = ''ecdh_public_key_request''
               then trackECDHExchange transport (rqPrivateScalar request) s else s);
     sendLoop env options request rest (notifications @ [afterWrite err notification]) s'
   }"

definition noneNotification :: "probeOptions \<Rightarrow> string \<Rightarrow> probeNotification" where
  "noneNotification options detail =
     zeroNotification\<lparr>pnDirection := ''tx'', pnStep := poActiveProbe options, pnFrame := ''none'', pnDetail := detail\<rparr>"

definition sendActiveProbeRequests ::
    "ble_env \<Rightarrow> string + nat \<Rightarrow> byte list \<Rightarrow> activeProbeTransport list \<Rightarrow> probeOptions \<Rightarrow> ecoFlowScanRecord \<Rightarrow>
       (probeNotification list \<times> activeProbeSession option) option" where
  "sendActiveProbeRequests env random loginKey transports options record =
     (if transports = [] then Some ([noneNotification options ''no complete EcoFlow write/notify transport matched''], None)
      else do {
        request \<leftarrow> buildActiveProbeRequest random (poActiveProbe options) record;
        case request of
          Inl e \<Rightarrow> Some ([noneNotification options e], None)
        | Inr req \<Rightarrow> do {
            let session = \<lparr>seExchanges = [], seLoginKey = loginKey, seAuthUserID = TrimSpace (poAuthUserID options),
              seAuthDeviceSerial = (if TrimSpace (poAuthDeviceSerial options) \<noteq> [] then TrimSpace (poAuthDeviceSerial options)
                                    else srSerial record)\<rparr>;
            (notifications, session') \<leftarrow> sendLoop env options req transports [] session;
            Some (notifications, if seExchanges session' = [] then None else Some session')
          }
      })"

section \<open>Handling notifications\<close>

definition activeProbeDiagnostic ::
    "rawBLENotification \<Rightarrow> probeOptions \<Rightarrow> string \<Rightarrow> string \<Rightarrow> string \<Rightarrow> byte list \<Rightarrow> probeNotification" where
  "activeProbeDiagnostic raw options stp frame detail decodedPayload =
     zeroNotification\<lparr>pnDirection := ''rx'', pnServiceUUID := rawServiceUUID raw, pnCharacteristicUUID := rawCharacteristicUUID raw,
       pnRole := rawRole raw, pnStep := stp, pnBytes := length decodedPayload, pnFrame := frame, pnDetail := detail,
       pnValueHex := (if poRawNotifications options then hexString (rawData raw) else []),
       pnDecodedHex := (if poRawNotifications options then hexString decodedPayload else [])\<rparr>"

definition encryptedActiveProbeTXNotification ::
    "ble_env \<Rightarrow> activeProbeTransport \<Rightarrow> string \<Rightarrow> byte list \<Rightarrow> byte list \<Rightarrow> probeOptions \<Rightarrow> probeNotification option" where
  "encryptedActiveProbeTXNotification env transport stp data plaintext options = do {
     decoded \<leftarrow> decodeEcoFlowNotification (envFmtFloat env) data;
     plaintextDecoded \<leftarrow> decodeEcoFlowNotification (envFmtFloat env) plaintext;
     let detail1 = joinDetails [ndDetail decoded, ''encrypted_payload''];
     let detail2 = (case ndPacket plaintextDecoded of
                      None \<Rightarrow> detail1
                    | Some packet \<Rightarrow> joinDetails [detail1, ''plaintext_packet='' @ formatEcoFlowPacketSummary packet]);
     Some ((txNotification options transport stp data decoded)\<lparr>pnDetail := detail2,
       pnDecodedHex := (if poRawNotifications options then hexString plaintext else [])\<rparr>)
   }"

definition encryptError :: "string \<Rightarrow> string \<Rightarrow> probeNotification" where
  "encryptError stp e =
     zeroNotification\<lparr>pnDirection := ''tx'', pnStep := stp, pnFrame := ''ecoflow_enc_packet'', pnDetail := ''encrypt_error='' @ e\<rparr>"

definition sendEncryptedAuthStatus :: "ble_env \<Rightarrow> activeProbeExchange \<Rightarrow> probeOptions \<Rightarrow> probeNotification option" where
  "sendEncryptedAuthStatus env exchange options =
     (let plaintext = buildEcoFlowV3Packet 0x21 0x35 0x35 0x89 []
      in case wrapEcoFlowEncryptedProtocolPacket (envAES env) plaintext (exSessionKey exchange) (exIV exchange) of
           Inl e \<Rightarrow> Some (encryptError ''auth_status_request'' e)
         | Inr requestData \<Rightarrow> do {
             notification \<leftarrow>
               encryptedActiveProbeTXNotification env (exTransport exchange) ''auth_status_request'' requestData plaintext options;
             err \<leftarrow> writeTo (exTransport exchange) requestData;
             Some (afterWrite err notification)
           })"

text \<open>The authentication request. The stage it sets is set again by its only caller, whatever happens here.\<close>

definition sendAuthRequest :: "ble_env \<Rightarrow> activeProbeSession \<Rightarrow> activeProbeExchange \<Rightarrow> probeOptions \<Rightarrow>
    (activeProbeExchange \<times> probeNotification) option" where
  "sendAuthRequest env s exchange options =
     (if TrimSpace (seAuthUserID s) = [] \<or> TrimSpace (seAuthDeviceSerial s) = []
      then Some (exchange, zeroNotification\<lparr>pnDirection := ''tx'', pnServiceUUID := tpWriteServiceUUID (exTransport exchange),
             pnCharacteristicUUID := tpWriteCharacteristicUUID (exTransport exchange), pnRole := tpWriteRole (exTransport exchange),
             pnStep := ''auth_request'', pnFrame := ''ecoflow_auth'', pnDetail := ''auth_skipped=missing_user_id_or_device_serial''\<rparr>)
      else
        (let payloadHash = envMD5 env (bytesOf (seAuthUserID s @ seAuthDeviceSerial s));
             payload = bytesOf (ToUpper (hexString payloadHash));
             plaintext = buildEcoFlowV3Packet 0x21 0x35 0x35 0x86 payload
         in case wrapEcoFlowEncryptedProtocolPacket (envAES env) plaintext (exSessionKey exchange) (exIV exchange) of
              Inl e \<Rightarrow> Some (exchange, encryptError ''auth_request'' e)
            | Inr requestData \<Rightarrow> do {
                n0 \<leftarrow> encryptedActiveProbeTXNotification env (exTransport exchange) ''auth_request'' requestData plaintext options;
                let notification = n0\<lparr>pnDetail := joinDetails [pnDetail n0, ''auth_payload=redacted''], pnDecodedHex := []\<rparr>;
                err \<leftarrow> writeTo (exTransport exchange) requestData;
                Some (exchange\<lparr>exStage := ''auth_request''\<rparr>, afterWrite err notification)
              }))"

definition isEcoFlowAuthStatusResponse :: "ecoFlowPacketSummary option \<Rightarrow> bool" where
  "isEcoFlowAuthStatusResponse packet \<longleftrightarrow>
     (case packet of None \<Rightarrow> False | Some p \<Rightarrow> sumCommand p = ''src=0x35,dst=0x21,cmd_set=0x35,cmd_id=0x89'')"

definition handleECDHPublicKey ::
    "ble_env \<Rightarrow> rawBLENotification \<Rightarrow> activeProbeExchange \<Rightarrow> byte list \<Rightarrow> probeOptions \<Rightarrow>
       (activeProbeExchange \<times> probeNotification list) option" where
  "handleECDHPublicKey env raw exchange payload options = do {
     derived \<leftarrow> deriveType7InitialEncryption (envMD5 env) (exPrivateScalar exchange) payload;
     case derived of
       Inl e \<Rightarrow> Some (exchange, [activeProbeDiagnostic raw options ''ecdh_shared_key'' ''ecoflow_session_key'' (''derive_error='' @ e) payload])
     | Inr (initialKey, iv) \<Rightarrow> do {
         let exchange' = exchange\<lparr>exInitialKey := initialKey, exIV := iv, exStage := ''session_key_info_request''\<rparr>;
         let requestData = wrapEcoFlowSimpleEncPacket [0x02];
         decoded \<leftarrow> decodeEcoFlowNotification (envFmtFloat env) requestData;
         err \<leftarrow> writeTo (exTransport exchange') requestData;
         Some (exchange', [afterWrite err (txNotification options (exTransport exchange') ''session_key_info_request'' requestData decoded)])
       }
   }"

definition handleSessionKeyInfo ::
    "ble_env \<Rightarrow> activeProbeSession \<Rightarrow> rawBLENotification \<Rightarrow> activeProbeExchange \<Rightarrow> byte list \<Rightarrow> probeOptions \<Rightarrow>
       (activeProbeExchange \<times> probeNotification list) option" where
  "handleSessionKeyInfo env s raw exchange payload options =
     (case decryptEcoFlowType7 (envAES env) (drop 1 payload) (exInitialKey exchange) (exIV exchange) of
        Inl e \<Rightarrow> Some (exchange, [activeProbeDiagnostic raw options ''session_key_info_decrypted'' ''ecoflow_session_key'' (''decrypt_error='' @ e) payload])
      | Inr decrypted \<Rightarrow>
          (let notification = zeroNotification\<lparr>pnDirection := ''rx'', pnServiceUUID := rawServiceUUID raw,
                 pnCharacteristicUUID := rawCharacteristicUUID raw, pnRole := rawRole raw, pnStep := ''session_key_info_decrypted'',
                 pnBytes := length decrypted, pnFrame := ''ecoflow_session_key'',
                 pnDetail := (if 18 \<le> length decrypted then ''srand_seed'' else ''decrypted''),
                 pnDecodedHex := (if poRawNotifications options then hexString decrypted else [])\<rparr>
           in if length decrypted < 18 then Some (exchange, [notification])
              else if tpWrite (exTransport exchange) = None then Some (exchange, [notification])
              else do {
                seed \<leftarrow> slice decrypted 16 18;
                srand \<leftarrow> slice decrypted 0 16;
                derived \<leftarrow> deriveEcoFlowSessionKeyWithLoginKey (envMD5 env) seed srand (seLoginKey s);
                case derived of
                  Inl e \<Rightarrow> Some (exchange, [notification,
                    activeProbeDiagnostic raw options ''auth_status_request'' ''ecoflow_session_key'' (''session_key_error='' @ e) decrypted])
                | Inr sessionKey \<Rightarrow> do {
                    let exchange' = exchange\<lparr>exSessionKey := sessionKey, exStage := ''auth_status_request''\<rparr>;
                    tx \<leftarrow> sendEncryptedAuthStatus env exchange' options;
                    Some (exchange', [notification, tx])
                  }
              }))"

definition handleEncryptedType7Packet ::
    "ble_env \<Rightarrow> activeProbeSession \<Rightarrow> rawBLENotification \<Rightarrow> activeProbeExchange \<Rightarrow> probeOptions \<Rightarrow>
       (activeProbeExchange \<times> probeEvent) option" where
  "handleEncryptedType7Packet env s raw exchange options = do {
     res \<leftarrow> decryptEcoFlowEncPacketPayload (envAES env) (rawData raw) (exSessionKey exchange) (exIV exchange);
     case res of
       Inl e \<Rightarrow> Some (exchange, emptyEvent\<lparr>evNotifications :=
         [activeProbeDiagnostic raw options ''type7_packet_decrypted'' ''ecoflow_packet'' (''decrypt_error='' @ e) (rawData raw)]\<rparr>)
     | Inr plaintext \<Rightarrow> do {
         decoded \<leftarrow> decodeEcoFlowNotification (envFmtFloat env) plaintext;
         let notification = zeroNotification\<lparr>pnDirection := ''rx'', pnServiceUUID := rawServiceUUID raw,
           pnCharacteristicUUID := rawCharacteristicUUID raw, pnRole := rawRole raw, pnStep := ''type7_packet_decrypted'',
           pnBytes := length plaintext, pnFrame := ndFrame decoded,
           pnPacket := (case ndPacket decoded of None \<Rightarrow> [] | Some p \<Rightarrow> formatEcoFlowPacketSummary p), pnDetail := ndDetail decoded,
           pnValueHex := (if poRawNotifications options then hexString (rawData raw) else []),
           pnDecodedHex := (if poRawNotifications options then hexString plaintext else [])\<rparr>;
         (exchange', notifications) \<leftarrow>
           (if exStage exchange = ''auth_status_request'' \<and> isEcoFlowAuthStatusResponse (ndPacket decoded)
            then do { (exchange', n) \<leftarrow> sendAuthRequest env s exchange options; Some (exchange', [notification, n]) }
            else Some (exchange, [notification]));
         Some (exchange'\<lparr>exStage := ''type7_packet_stream''\<rparr>, \<lparr>evNotifications = notifications, evMetrics = ndMetrics decoded\<rparr>)
       }
   }"

definition handleStage ::
    "ble_env \<Rightarrow> activeProbeSession \<Rightarrow> rawBLENotification \<Rightarrow> activeProbeExchange \<Rightarrow> byte list \<Rightarrow> probeOptions \<Rightarrow>
       (activeProbeExchange \<times> probeEvent) option" where
  "handleStage env s raw exchange payload options =
     (if exStage exchange = ''ecdh_public_key_request'' then
        (if payload ! 0 \<noteq> 0x01 then Some (exchange, emptyEvent)
         else map_option (\<lambda>(ex, ns). (ex, emptyEvent\<lparr>evNotifications := ns\<rparr>)) (handleECDHPublicKey env raw exchange payload options))
      else if exStage exchange = ''session_key_info_request'' then
        (if payload ! 0 \<noteq> 0x02 then Some (exchange, emptyEvent)
         else map_option (\<lambda>(ex, ns). (ex, emptyEvent\<lparr>evNotifications := ns\<rparr>)) (handleSessionKeyInfo env s raw exchange payload options))
      else if exStage exchange = ''auth_status_request'' \<or> exStage exchange = ''type7_packet_stream''
      then handleEncryptedType7Packet env s raw exchange options
      else Some (exchange, emptyEvent))"

text \<open>The exchange is a pointer in the map, so what a handler leaves in it is stored under the same transport.\<close>

definition HandleNotificationEvent ::
    "ble_env \<Rightarrow> rawBLENotification \<Rightarrow> probeOptions \<Rightarrow> activeProbeSession \<Rightarrow> (activeProbeSession \<times> probeEvent) option" where
  "HandleNotificationEvent env raw options s =
     (let transportName = transportNameFromRole (rawRole raw)
      in case gm_get (seExchanges s) transportName of
           None \<Rightarrow> Some (s, emptyEvent)
         | Some exchange \<Rightarrow> do {
             decoded \<leftarrow> decodeEcoFlowNotification (envFmtFloat env) (rawData raw);
             let payload = ndDecodedPayload decoded;
             if payload = [] then Some (s, emptyEvent)
             else do {
               (exchange', event) \<leftarrow> handleStage env s raw exchange payload options;
               Some (s\<lparr>seExchanges := gm_put transportName exchange' (seExchanges s)\<rparr>, event)
             }
           })"

end
