(* ===== verification/Go_Varint.thy ===== *)
theory Go_Varint
  imports Go_Prelude
begin

text \<open>
  Variable-length integers: the writer and the reader of \<open>encoding/binary\<close>, and the facts about the
  seven-bit groups that every reader of the format needs.
\<close>

unbundle bit_operations_syntax

section \<open>Writing\<close>

text \<open>\<open>binary.PutUvarint\<close> writes the groups from the lowest, each but the last with its top bit set.\<close>

lemma unat_drop7: "unat (drop_bit 7 v) = unat v div 128" for v :: "64 word"
  unfolding unat_drop_bit_eq by (simp add: drop_bit_eq_div)

function enc_varint :: "64 word \<Rightarrow> byte list" where
  "enc_varint v = (if v < 0x80 then [ucast v] else (ucast (v AND 0x7f) OR 0x80) # enc_varint (drop_bit 7 v))"
  by pat_completeness auto
termination
proof (relation "measure unat")
  fix v :: "64 word"
  assume "\<not> v < 0x80"
  then have "128 \<le> unat v" by (simp add: word_less_nat_alt)
  then show "(drop_bit 7 v, v) \<in> measure unat" by (simp add: unat_drop7 del: drop_bit_numeral_bit1)
qed simp

declare enc_varint.simps [simp del]

section \<open>Groups of seven bits\<close>

lemma mask7: "(0x7f :: 'a::len word) = mask 7"
  by (simp add: mask_eq_exp_minus_1)

lemma bit_top: "bit (0x80 :: 'a::len word) n \<longleftrightarrow> n = 7 \<and> 7 < LENGTH('a)"
  using bit_exp_iff [where 'a = "'a word", of 7 n] by (auto simp: possible_bit_word)

lemma bit_top_num: "bit (0x80 :: nat) n \<longleftrightarrow> n = 7" "bit (0x80 :: int) n \<longleftrightarrow> n = 7"
  using bit_exp_iff [where 'a = nat, of 7 n] bit_exp_iff [where 'a = int, of 7 n] by auto

lemma byte_top: "bit b 7 \<Longrightarrow> 0x80 \<le> b" for b :: byte
proof (rule ccontr)
  assume b: "bit b 7" and "\<not> 0x80 \<le> b"
  then have "unat b < 128" by (simp add: word_le_nat_alt)
  moreover have "bit (unat b) 7" using b by (simp add: bit_unsigned_iff)
  ultimately show False by (simp add: bit_iff_odd)
qed

lemma enc_varint_low:
  fixes v :: "64 word"
  shows "ucast ((ucast (v AND 0x7f) OR 0x80 :: byte) AND 0x7f) = v AND 0x7f" "\<not> (ucast (v AND 0x7f) OR 0x80 :: byte) < 0x80"
    "v < 0x80 \<Longrightarrow> ucast ((ucast v :: byte) AND 0x7f) = v" "v < 0x80 \<Longrightarrow> (ucast v :: byte) < 0x80"
proof -
  show "ucast ((ucast (v AND 0x7f) OR 0x80 :: byte) AND 0x7f) = v AND 0x7f"
    unfolding mask7 by (rule bit_word_eqI) (auto simp: bit_simps bit_top bit_top_num)
  have "bit (ucast (v AND 0x7f) OR 0x80 :: byte) 7" by (simp add: bit_simps bit_top)
  then show "\<not> (ucast (v AND 0x7f) OR 0x80 :: byte) < 0x80" by (simp only: not_less byte_top)
  assume v: "v < 0x80"
  then have u: "unat v < 128" by (simp add: word_less_nat_alt)
  then have b: "unat (ucast v :: byte) = unat v" by (simp add: unsigned_ucast_eq take_bit_eq_mod)
  then show "(ucast v :: byte) < 0x80" using u by (simp add: word_less_nat_alt)
  have "unat ((ucast v :: byte) AND 0x7f) = unat v"
    unfolding mask7 take_bit_eq_mask [symmetric] unsigned_take_bit_eq b using u by (simp add: take_bit_eq_mod)
  then have "unat (ucast ((ucast v :: byte) AND 0x7f) :: 64 word) = unat v"
    using u unfolding unsigned_ucast_eq by (simp add: take_bit_eq_mod)
  then show "ucast ((ucast v :: byte) AND 0x7f) = v" by (simp add: word_unat_eq_iff)
qed

lemma varint_split: "(v AND 0x7f) OR push_bit 7 (drop_bit 7 v) = v" for v :: "64 word"
  unfolding mask7 by (rule bit_word_eqI) (auto simp: bit_simps, metis le_add_diff_inverse not_less)

text \<open>What is left of a number after \<open>i\<close> groups still fits into the ten bytes of the format.\<close>

definition varint_room :: "nat \<Rightarrow> 64 word \<Rightarrow> bool" where
  "varint_room i v \<longleftrightarrow> i \<le> 9 \<and> unat v < 2 ^ (64 - 7 * i)"

lemma varint_room_0: "varint_room 0 v"
  using unsigned_less [of v] by (simp add: varint_room_def)

lemma varint_room_step:
  assumes "varint_room i v" "\<not> v < 0x80"
  shows "varint_room (Suc i) (drop_bit 7 v)"
proof -
  have v: "unat v < 2 ^ (64 - 7 * i)" using assms(1) by (simp add: varint_room_def)
  have "128 \<le> unat v" using assms(2) by (simp add: word_less_nat_alt)
  with v have "2 ^ 7 < (2::nat) ^ (64 - 7 * i)" by simp
  then have "7 < 64 - 7 * i" using power_less_imp_less_exp [of 2 7] by simp
  then have i: "Suc i \<le> 9" and e: "64 - 7 * i = 7 + (64 - 7 * Suc i)" by simp_all
  have "unat (drop_bit 7 v) < 2 ^ (64 - 7 * Suc i)"
    using v unfolding e unat_drop7 power_add by (simp add: div_less_iff_less_mult mult.commute)
  with i show ?thesis by (simp add: varint_room_def)
qed

lemma varint_acc:
  "(acc OR push_bit (7 * i) (v AND 0x7f)) OR push_bit (7 + 7 * i) (drop_bit 7 v) = acc OR push_bit (7 * i) v" for v :: "64 word"
proof -
  have "push_bit (7 + 7 * i) (drop_bit 7 v) = push_bit (7 * i) (push_bit 7 (drop_bit 7 v))" by (simp add: push_bit_push_bit add.commute)
  then have "(acc OR push_bit (7 * i) (v AND 0x7f)) OR push_bit (7 + 7 * i) (drop_bit 7 v) =
      acc OR push_bit (7 * i) ((v AND 0x7f) OR push_bit 7 (drop_bit 7 v))"
    by (simp add: push_bit_or or.assoc)
  also have "\<dots> = acc OR push_bit (7 * i) v" by (simp only: varint_split)
  finally show ?thesis .
qed

section \<open>Reading\<close>

datatype read_error = EOF | ErrUnexpectedEOF | ErrOverflow

text \<open>\<open>binary.ReadUvarint\<close> on the rest of a reader: \<open>i\<close> bytes have been read into \<open>x\<close>.\<close>

fun readUvarintFrom :: "nat \<Rightarrow> 64 word \<Rightarrow> byte list \<Rightarrow> read_error + 64 word \<times> byte list" where
  "readUvarintFrom i x [] = Inl (if 10 \<le> i then ErrOverflow else if 0 < i then ErrUnexpectedEOF else EOF)"
| "readUvarintFrom i x (b # bs) =
     (if 10 \<le> i then Inl ErrOverflow
      else if b < 0x80
      then if i = 9 \<and> 1 < b then Inl ErrOverflow else Inr (x OR push_bit (7 * i) (ucast b), bs)
      else readUvarintFrom (i + 1) (x OR push_bit (7 * i) (ucast (b AND 0x7f))) bs)"

definition ReadUvarint :: "byte list \<Rightarrow> read_error + 64 word \<times> byte list" where
  "ReadUvarint data = readUvarintFrom 0 0 data"

lemma readUvarintFrom_shorter: "readUvarintFrom i x data = Inr (v, rest) \<Longrightarrow> length rest < length data"
  by (induction i x data rule: readUvarintFrom.induct) (fastforce split: if_splits)+

lemma ReadUvarint_shorter: "ReadUvarint data = Inr (v, rest) \<Longrightarrow> length rest < length data"
  unfolding ReadUvarint_def by (rule readUvarintFrom_shorter)

lemma ReadUvarint_EOF: "ReadUvarint data = Inl EOF \<longleftrightarrow> data = []"
proof -
  have "readUvarintFrom i x data = Inl EOF \<Longrightarrow> data = [] \<and> i = 0" for i x
    by (induction i x data rule: readUvarintFrom.induct) (auto split: if_splits)
  then show ?thesis by (auto simp: ReadUvarint_def)
qed

lemma readUvarint_enc:
  assumes "varint_room i v"
  shows "readUvarintFrom i acc (enc_varint v @ rest) = Inr (acc OR push_bit (7 * i) v, rest)"
  using assms
proof (induction v arbitrary: i acc rule: enc_varint.induct)
  case (1 v)
  show ?case
  proof (cases "v < 0x80")
    case True
    have small: "unat (ucast v :: byte) = unat v"
      using True by (simp add: unsigned_ucast_eq take_bit_eq_mod word_less_nat_alt)
    have "unat v < 128" using True by (simp add: word_less_nat_alt)
    then have "unat (ucast (ucast v :: byte) :: 64 word) = unat v"
      unfolding unsigned_ucast_eq [of "ucast v :: byte"] small by (simp add: take_bit_eq_mod)
    then have wide: "ucast (ucast v :: byte) = v" by (rule word_unat_eq_iff [THEN iffD2])
    have "\<not> (i = 9 \<and> 1 < (ucast v :: byte))"
      using 1(2) small by (auto simp: varint_room_def word_less_nat_alt)
    with 1(2) True wide show ?thesis by (simp add: enc_varint.simps [of v] enc_varint_low varint_room_def)
  next
    case False
    from varint_room_step [OF 1(2) False] have room: "varint_room (Suc i) (drop_bit 7 v)" .
    from 1(1) [OF False this] room False show ?thesis
      by (simp add: enc_varint.simps [of v] enc_varint_low varint_room_def varint_acc [unfolded push_bit_and])
  qed
qed

lemma ReadUvarint_enc: "ReadUvarint (enc_varint v @ rest) = Inr (v, rest)"
  using readUvarint_enc [OF varint_room_0, of 0 v rest] by (simp add: ReadUvarint_def)

end
