(* ===== verification/Ble_Lemmas.thy ===== *)
theory Ble_Lemmas
  imports Ble_Session Go_Varint
begin

text \<open>
  What the Bluetooth codecs and the session guarantee: no routine reads outside a slice, frames and
  fields that were written are read back, and the stages of a session hold the keys they need.
\<close>

section \<open>Reads stay inside the slices\<close>

text \<open>Rules that walk through a routine and leave one goal for each read, under the guards before it.\<close>

named_theorems panic_free \<open>rules for routines that do not panic\<close>

lemma bind_safe [panic_free]: "m \<noteq> None \<Longrightarrow> (\<And>x. m = Some x \<Longrightarrow> f x \<noteq> None) \<Longrightarrow> Option.bind m f \<noteq> None"
  by (cases m) auto

lemma if_safe [panic_free]: "(b \<Longrightarrow> m \<noteq> None) \<Longrightarrow> (\<not> b \<Longrightarrow> n \<noteq> None) \<Longrightarrow> (if b then m else n) \<noteq> None"
  by simp

lemma sum_safe [panic_free]:
  "(\<And>e. r = Inl e \<Longrightarrow> f e \<noteq> None) \<Longrightarrow> (\<And>v. r = Inr v \<Longrightarrow> g v \<noteq> None) \<Longrightarrow> (case r of Inl e \<Rightarrow> f e | Inr v \<Rightarrow> g v) \<noteq> None"
  by (cases r) auto

lemma option_safe [panic_free]:
  "(r = None \<Longrightarrow> m \<noteq> None) \<Longrightarrow> (\<And>v. r = Some v \<Longrightarrow> g v \<noteq> None) \<Longrightarrow> (case r of None \<Rightarrow> m | Some v \<Rightarrow> g v) \<noteq> None"
  by (cases r) auto

lemma prod_safe [panic_free]: "(\<And>a b. p = (a, b) \<Longrightarrow> f a b \<noteq> None) \<Longrightarrow> (case p of (a, b) \<Rightarrow> f a b) \<noteq> None"
  by (cases p) auto

lemma Some_safe [panic_free]: "Some x \<noteq> None"
  by simp

lemma at_None [simp]: "at d i = None \<longleftrightarrow> length d \<le> i"
  by (auto simp: at_def)

lemma slice_None [simp]: "slice d i j = None \<longleftrightarrow> \<not> (i \<le> j \<and> j \<le> length d)"
  by (auto simp: slice_def)

lemma slice_length: "slice d i j = Some x \<Longrightarrow> i \<le> j \<and> j \<le> length d \<and> length x = j - i"
  by (auto simp: slice_def split: if_splits)

lemma Uint16_None [simp]: "Uint16 x = None \<longleftrightarrow> length x < 2"
  by (auto simp: Uint16_def Suc_le_eq numeral_2_eq_2 split: list.splits)

lemma Uint32_None [simp]: "Uint32 x = None \<longleftrightarrow> length x < 4"
  by (simp add: Uint32_def)

lemma Uint64_None [simp]: "Uint64 x = None \<longleftrightarrow> length x < 8"
  by (simp add: Uint64_def)

lemma tailFrom_None [simp]: "tailFrom d n = None \<longleftrightarrow> length d < n"
  by (auto simp: tailFrom_def)

lemma parseEcoFlowPacket_safe [panic_free]: "parseEcoFlowPacket data \<noteq> None"
  unfolding parseEcoFlowPacket_def Let_def
  by (intro panic_free) (auto dest!: slice_length split: if_splits)

lemma word_length_le: "l \<le> word_of_nat n \<Longrightarrow> unat l \<le> n" for l :: "64 word"
  by (metis mod_less_eq_dividend order.trans unat_of_nat word_le_nat_alt)

lemma readProtoValue_safe [panic_free]: "readProtoValue f data \<noteq> None"
  unfolding readProtoValue_def
  by (intro panic_free) (auto dest!: slice_length readProtoVarint_bounds dest: word_length_le simp: not_less tailFrom_Some simp del: of_nat_diff)

lemma readProtoField_safe [panic_free]: "readProtoField data \<noteq> None"
  unfolding readProtoField_def Let_def
  by (intro panic_free) (auto dest!: readProtoVarint_bounds)

lemma parseProtoLoop_safe [panic_free]: "parseProtoLoop acc data \<noteq> None"
proof (induction acc data rule: parseProtoLoop.induct)
  case (1 acc data)
  show ?case unfolding parseProtoLoop.simps [of acc data]
    by (intro panic_free) (use 1 readProtoField_safe in auto)
qed

lemma decodeDelta3_safe [panic_free]: "decodeDelta3DisplayUploadMetrics fmt payload \<noteq> None"
  unfolding decodeDelta3DisplayUploadMetrics_def parseProtoScalars_def Let_def by (intro panic_free)

lemma decodeEcoFlowPacketMetrics_safe [panic_free]: "decodeEcoFlowPacketMetrics fmt packet frame \<noteq> None"
  unfolding decodeEcoFlowPacketMetrics_def Let_def by (intro panic_free)

lemma decodeEcoFlowEncPacket_safe [panic_free]: "decodeEcoFlowEncPacket fmt data \<noteq> None"
  unfolding decodeEcoFlowEncPacket_def Let_def
  by (intro panic_free) (auto dest!: slice_length)

lemma decodeEcoFlowNotification_safe [panic_free]: "decodeEcoFlowNotification fmt data \<noteq> None"
  unfolding decodeEcoFlowNotification_def by (intro panic_free) auto

lemma decryptEncPacket_safe [panic_free]: "decryptEcoFlowEncPacketPayload aes data key iv \<noteq> None"
  unfolding decryptEcoFlowEncPacketPayload_def Let_def
  by (intro panic_free) (auto dest!: slice_length)

section \<open>Envelopes\<close>

lemma slice_mid: "i = length a \<Longrightarrow> j = length a + length b \<Longrightarrow> slice (a @ b @ c) i j = Some b"
  by (simp add: slice_def)

lemma slice_front: "j = length a \<Longrightarrow> slice (a @ c) 0 j = Some a"
  by (simp add: slice_def)

lemma le16_bytes: "ucast (le16 lo hi) = lo" "ucast (drop_bit 8 (le16 lo hi)) = hi"
proof -
  show "ucast (le16 lo hi) = lo" by (rule bit_word_eqI) (simp add: le16_def bit_simps)
  show "ucast (drop_bit 8 (le16 lo hi)) = hi"
    by (rule bit_word_eqI) (auto simp: le16_def bit_simps dest: bit_imp_le_length)
qed

lemma le16_inj: "le16 a b = le16 c d \<longleftrightarrow> a = c \<and> b = d"
  by (metis le16_bytes)

text \<open>What both receivers read of an envelope: header, payload, checksum, and whatever follows.\<close>

lemma envelope_reads:
  assumes data: "data = hdr @ payload @ crc @ rest" and len: "length hdr = 6" "length crc = 2"
  shows "slice data 4 6 = Some (drop 4 hdr)"
    and "slice data 6 (6 + length payload) = Some payload"
    and "slice data (6 + length payload) (8 + length payload) = Some crc"
    and "slice data 0 (6 + length payload) = Some (hdr @ payload)"
    and "8 + length payload \<le> length data"
proof -
  show "slice data 4 6 = Some (drop 4 hdr)" using len by (simp add: data slice_def)
  show "slice data 6 (6 + length payload) = Some payload" unfolding data using len by (intro slice_mid) simp_all
  have "slice ((hdr @ payload) @ crc @ rest) (6 + length payload) (8 + length payload) = Some crc"
    using len by (intro slice_mid) simp_all
  then show "slice data (6 + length payload) (8 + length payload) = Some crc" by (simp add: data)
  have "slice ((hdr @ payload) @ crc @ rest) 0 (6 + length payload) = Some (hdr @ payload)" using len by (intro slice_front) simp
  then show "slice data 0 (6 + length payload) = Some (hdr @ payload)" by (simp add: data)
  show "8 + length payload \<le> length data" using len by (simp add: data)
qed

lemma decodeEnc_envelope:
  assumes data: "data = hdr @ payload @ crc @ rest" and len: "length hdr = 6" "length crc = 2"
    and field: "Uint16 (drop 4 hdr) = Some n" "unat n = length payload + 2" and w: "Uint16 crc = Some w"
  shows "w \<noteq> ecoFlowCRC16 (hdr @ payload) \<Longrightarrow>
      decodeEcoFlowEncPacket fmt data = Some (plainDecode ''ecoflow_enc_packet'' ''crc16 mismatch'')"
    and "w = ecoFlowCRC16 (hdr @ payload) \<Longrightarrow>
      \<exists>d. decodeEcoFlowEncPacket fmt data = Some d \<and> ndFrame d = ''ecoflow_enc_packet'' \<and> ndDecodedPayload d = payload \<and>
        ndDecodedHex d = hexString payload"
proof -
  note r = envelope_reads [OF data len]
  have long: "\<not> length data < 8 + length payload" "\<not> length data < 8" using r(5) by simp_all
  show "decodeEcoFlowEncPacket fmt data = Some (plainDecode ''ecoflow_enc_packet'' ''crc16 mismatch'')"
    if "w \<noteq> ecoFlowCRC16 (hdr @ payload)"
    using that by (simp add: decodeEcoFlowEncPacket_def Let_def r(1-4) long field w)
  show "\<exists>d. decodeEcoFlowEncPacket fmt data = Some d \<and> ndFrame d = ''ecoflow_enc_packet'' \<and> ndDecodedPayload d = payload \<and>
        ndDecodedHex d = hexString payload"
    if "w = ecoFlowCRC16 (hdr @ payload)"
  proof -
    have at2: "at data 2 = Some (data ! 2)" using r(5) by (simp add: at_def)
    obtain res where res: "parseEcoFlowPacket payload = Some res" using parseEcoFlowPacket_safe by blast
    have "\<exists>d. decodeEcoFlowPacketMetrics fmt p ''ecoflow_enc_packet'' = Some d" for p
      using decodeEcoFlowPacketMetrics_safe by blast
    then obtain dm where dm: "\<And>p. decodeEcoFlowPacketMetrics fmt p ''ecoflow_enc_packet'' = Some (dm p)" by metis
    show ?thesis
      using that by (simp add: decodeEcoFlowEncPacket_def Let_def r(1-4) long field w at2 res dm plainDecode_def split: sum.splits)
  qed
qed

lemma decryptEnc_envelope:
  assumes data: "data = [0x5a, 0x5a, t, u, l0, l1] @ payload @ crc @ rest" and len: "length crc = 2"
    and field: "unat (le16 l0 l1) = length payload + 2" and w: "Uint16 crc = Some w"
  shows "w \<noteq> ecoFlowCRC16 ([0x5a, 0x5a, t, u, l0, l1] @ payload) \<Longrightarrow>
      decryptEcoFlowEncPacketPayload aes data key iv = Some (Inl ''EncPacket crc16 mismatch'')"
    and "w = ecoFlowCRC16 ([0x5a, 0x5a, t, u, l0, l1] @ payload) \<Longrightarrow>
      decryptEcoFlowEncPacketPayload aes data key iv = Some (decryptEcoFlowType7 aes payload key iv)"
proof -
  note r = envelope_reads [OF data _ len, simplified]
  have at01: "at data 0 = Some 0x5a" "at data (Suc 0) = Some 0x5a" by (simp_all add: data at_def)
  have long: "\<not> length data < 8 + length payload" "\<not> length data < 8" using r(5) by simp_all
  have l: "Uint16 [l0, l1] = Some (le16 l0 l1)" by (simp add: Uint16_def)
  show "decryptEcoFlowEncPacketPayload aes data key iv = Some (Inl ''EncPacket crc16 mismatch'')"
    if "w \<noteq> ecoFlowCRC16 ([0x5a, 0x5a, t, u, l0, l1] @ payload)"
    using that by (simp add: decryptEcoFlowEncPacketPayload_def Let_def at01 r(1-4) long l field w)
  show "decryptEcoFlowEncPacketPayload aes data key iv = Some (decryptEcoFlowType7 aes payload key iv)"
    if "w = ecoFlowCRC16 ([0x5a, 0x5a, t, u, l0, l1] @ payload)"
    using that by (simp add: decryptEcoFlowEncPacketPayload_def Let_def at01 r(1-4) long l field w)
qed

lemma wrapFrame_parts:
  fixes payload :: "byte list"
  defines "n \<equiv> word_of_nat (length payload + 2) :: 16 word"
  defines "hdr \<equiv> \<lambda>t. [0x5a, 0x5a, t, 0x01, ucast n, ucast (drop_bit 8 n)]"
  shows "wrapFrame t payload = hdr t @ payload @ put16 (ecoFlowCRC16 (hdr t @ payload))"
  by (simp add: wrapFrame_def AppendUint16_def put16_def hdr_def n_def Let_def)

lemma frame_length_field:
  "length payload + 2 < 2 ^ 16 \<Longrightarrow> unat (word_of_nat (length payload + 2) :: 16 word) = length payload + 2"
  unfolding unat_of_nat by simp

lemma wrapFrame_decode:
  assumes "length payload + 2 < 2 ^ 16"
  shows "\<exists>d. decodeEcoFlowEncPacket fmt (wrapFrame t payload @ rest) = Some d \<and> ndFrame d = ''ecoflow_enc_packet'' \<and>
    ndDecodedPayload d = payload \<and> ndDecodedHex d = hexString payload"
proof -
  define n where "n = (word_of_nat (length payload + 2) :: 16 word)"
  let ?hdr = "[0x5a, 0x5a, t, 0x01, ucast n, ucast (drop_bit 8 n)]"
  let ?crc = "put16 (ecoFlowCRC16 (?hdr @ payload))"
  have data: "wrapFrame t payload @ rest = ?hdr @ payload @ ?crc @ rest" unfolding n_def by (simp add: wrapFrame_parts)
  have n: "Uint16 (drop 4 ?hdr) = Some n" "unat n = length payload + 2"
    using frame_length_field [OF assms] by (simp_all add: Uint16_def n_def)
  show ?thesis unfolding data by (rule decodeEnc_envelope(2) [OF refl _ _ n]) simp_all
qed

lemma wrapFrame_decrypt:
  assumes "length payload + 2 < 2 ^ 16"
  shows "decryptEcoFlowEncPacketPayload aes (wrapFrame t payload @ rest) key iv = Some (decryptEcoFlowType7 aes payload key iv)"
proof -
  define n where "n = (word_of_nat (length payload + 2) :: 16 word)"
  let ?hdr = "[0x5a, 0x5a, t, 0x01, ucast n, ucast (drop_bit 8 n)]"
  have data: "wrapFrame t payload @ rest = ?hdr @ payload @ put16 (ecoFlowCRC16 (?hdr @ payload)) @ rest"
    unfolding n_def by (simp add: wrapFrame_parts)
  have n: "unat (le16 (ucast n) (ucast (drop_bit 8 n))) = length payload + 2"
    using frame_length_field [OF assms] by (simp add: n_def)
  show ?thesis unfolding data by (rule decryptEnc_envelope(2) [OF refl _ n]) simp_all
qed

text \<open>A frame in which one byte outside the prefix and the length has changed no longer matches its checksum.\<close>

lemma wrapFrame_tampered:
  assumes len: "length payload + 2 < 2 ^ 16" and i: "i < length (wrapFrame t payload)" "i \<notin> {0, 1, 4, 5}"
    and v: "v \<noteq> wrapFrame t payload ! i"
  obtains t' u payload' w and n :: "16 word" where "(wrapFrame t payload)[i := v] =
      [0x5a, 0x5a, t', u, ucast n, ucast (drop_bit 8 n)] @ payload' @ put16 w" "length payload' = length payload"
    "unat n = length payload + 2" "w \<noteq> ecoFlowCRC16 ([0x5a, 0x5a, t', u, ucast n, ucast (drop_bit 8 n)] @ payload')"
proof -
  define n where "n = (word_of_nat (length payload + 2) :: 16 word)"
  let ?hdr = "\<lambda>t u. [0x5a, 0x5a, t, u, ucast n, ucast (drop_bit 8 n)]"
  let ?w = "ecoFlowCRC16 (?hdr t 0x01 @ payload)"
  have data: "wrapFrame t payload = (?hdr t 0x01 @ payload) @ put16 ?w" unfolding n_def by (simp add: wrapFrame_parts)
  have n: "unat n = length payload + 2" using frame_length_field [OF len] by (simp add: n_def)
  show thesis
  proof (cases "i < 6 + length payload")
    case True
    then have upd: "(wrapFrame t payload)[i := v] = ((?hdr t 0x01 @ payload)[i := v]) @ put16 ?w"
      unfolding data by (intro list_update_append1) simp
    have v': "v \<noteq> (?hdr t 0x01 @ payload) ! i" using v True unfolding data by (simp only: nth_append) simp
    have i6: "i < length (?hdr t 0x01 @ payload)" using True by simp
    note crc = CRC16_detects [OF i6 v']
    obtain t' u payload' where b: "(?hdr t 0x01 @ payload)[i := v] = ?hdr t' u @ payload'" "length payload' = length payload"
    proof (cases "i < 6")
      case True
      with i(2) have "i = 2 \<or> i = 3" by auto
      then show ?thesis using that [of v "0x01" payload] that [of t v payload] by auto
    next
      case False
      then have "(?hdr t 0x01 @ payload)[i := v] = ?hdr t 0x01 @ payload[i - 6 := v]"
        by (subst list_update_append) (simp add: eval_nat_numeral)
      then show ?thesis by (rule that) simp
    qed
    show thesis by (rule that [of t' u n payload' ?w]) (use upd b n crc in auto)
  next
    case False
    define j where "j = i - (6 + length payload)"
    have j: "j < 2" using i(1) False by (simp add: data j_def)
    have upd: "(wrapFrame t payload)[i := v] = (?hdr t 0x01 @ payload) @ (put16 ?w)[j := v]"
      unfolding data by (subst list_update_append) (use False in \<open>simp add: j_def eval_nat_numeral\<close>)
    have vj: "v \<noteq> put16 ?w ! j" using v False unfolding data by (simp only: nth_append) (simp add: j_def eval_nat_numeral)
    obtain a b where ab: "(put16 ?w)[j := v] = [a, b]" by (cases "j = 0") (use j in \<open>auto simp: put16_def less_2_cases_iff\<close>)
    then have p: "put16 (le16 a b) = [a, b]" by (simp add: put16_def le16_bytes)
    have "le16 a b \<noteq> ?w"
    proof
      assume "le16 a b = ?w"
      then have "(put16 ?w)[j := v] = put16 ?w" using p ab by simp
      with vj j show False by (metis length_put16 nth_list_update_eq)
    qed
    then show thesis using that [of t "0x01" n payload "le16 a b"] upd ab p n by simp
  qed
qed

section \<open>Packets\<close>

lemma v3_roundtrip:
  assumes "length payload < 2 ^ 16"
  shows "parseEcoFlowPacket (buildEcoFlowV3Packet src dst cmdSet cmdID payload @ rest) =
    Some (Inr \<lparr>VersionByte = 3, Version = 3, Sentinel = False, Src = src, Dst = dst, DSrc = 1, DDst = 1, CmdSet = cmdSet,
      CmdID = cmdID, Payload = payload, HeaderCRCOK = True, PacketCRCOK = True, PayloadLength = length payload\<rparr>)"
proof -
  define n where "n = (word_of_nat (length payload) :: 16 word)"
  define h4 where "h4 = [0xaa, 0x03, ucast n, ucast (drop_bit 8 n) :: byte]"
  define hdr where "hdr = h4 @ [ecoFlowCRC8 h4, 0x0d, 0, 0, 0, 0, 0, 0, src, dst, 0x01, 0x01, cmdSet, cmdID]"
  define w where "w = ecoFlowCRC16 (hdr @ payload)"
  define data where "data = hdr @ payload @ put16 w @ rest"
  have n: "unat n = length payload" unfolding n_def unat_of_nat using assms by simp
  have build: "buildEcoFlowV3Packet src dst cmdSet cmdID payload @ rest = data"
    by (simp add: buildEcoFlowV3Packet_def AppendUint16_def put16_def Let_def data_def w_def hdr_def h4_def n_def)
  have hl: "length hdr = 18" "length h4 = 4" by (simp_all add: hdr_def h4_def)
  have s1: "slice data 2 4 = Some [ucast n, ucast (drop_bit 8 n)]" by (simp add: data_def hdr_def h4_def slice_def)
  have u: "Uint16 [ucast n, ucast (drop_bit 8 n)] = Some n" by (simp add: Uint16_def)
  have s2: "slice data 0 4 = Some h4" by (simp add: data_def hdr_def h4_def slice_def)
  have s3: "slice data 18 (18 + length payload) = Some payload" unfolding data_def using hl by (intro slice_mid) simp_all
  have s4: "slice data 0 (18 + length payload) = Some (hdr @ payload)" using hl by (simp add: data_def slice_def)
  have "slice ((hdr @ payload) @ put16 w @ rest) (18 + length payload) (20 + length payload) = Some (put16 w)"
    using hl by (intro slice_mid) simp_all
  then have s5: "slice data (18 + length payload) (20 + length payload) = Some (put16 w)" by (simp add: data_def)
  have a: "at data i = Some (hdr ! i)" if "i < 18" for i using that hl by (simp add: data_def at_def nth_append)
  have hs: "hdr ! 0 = 0xaa" "hdr ! Suc 0 = 0x03" "hdr ! 4 = ecoFlowCRC8 h4" "hdr ! 12 = src" "hdr ! 13 = dst" "hdr ! 14 = 1"
    "hdr ! 15 = 1" "hdr ! 16 = cmdSet" "hdr ! 17 = cmdID"
    by (simp_all add: hdr_def h4_def)
  have l: "\<not> length data < 5" "\<not> length data < 18" "\<not> length data < 20 + length payload" using hl by (simp_all add: data_def)
  show ?thesis unfolding build
    by (simp add: parseEcoFlowPacket_def Let_def l s1 u s2 s3 s4 s5 a hs n zeroPacket_def w_def)
qed

section \<open>Protobuf fields\<close>

text \<open>The encoder of the wire format: the specification that the parser is checked against.\<close>

primrec le_bytes :: "nat \<Rightarrow> 'a::len word \<Rightarrow> byte list" where
  "le_bytes 0 w = []"
| "le_bytes (Suc k) w = ucast w # le_bytes k (drop_bit 8 w)"

definition enc_key :: "protoScalar \<Rightarrow> 64 word" where
  "enc_key f = push_bit 3 (word_of_int (psFieldNumber f)) OR word_of_int (psWireType f)"

definition enc_scalar :: "protoScalar \<Rightarrow> byte list" where
  "enc_scalar f = enc_varint (enc_key f) @
     (if psWireType f = 0 then enc_varint (psVarint f)
      else if psWireType f = 1 then le_bytes 8 (psFixed64 f)
      else if psWireType f = 2 then enc_varint (word_of_nat (length (psBytes f))) @ psBytes f
      else le_bytes 4 (psFixed32 f))"

text \<open>A field has a number, one of the four wire types, and only the value of that type.\<close>

definition scalar_ok :: "protoScalar \<Rightarrow> bool" where
  "scalar_ok f \<longleftrightarrow>
     0 < psFieldNumber f \<and> psFieldNumber f < 2 ^ 61 \<and> psWireType f \<in> {0, 1, 2, 5} \<and> length (psBytes f) < 2 ^ 64 \<and>
     (psWireType f \<noteq> 0 \<longrightarrow> psVarint f = 0) \<and> (psWireType f \<noteq> 1 \<longrightarrow> psFixed64 f = 0) \<and>
     (psWireType f \<noteq> 2 \<longrightarrow> psBytes f = []) \<and> (psWireType f \<noteq> 5 \<longrightarrow> psFixed32 f = 0)"

lemma readVarint_enc:
  assumes "varint_room i v"
  shows "readVarintFrom i acc (enc_varint v @ rest) = Some (acc OR push_bit (7 * i) v, i + length (enc_varint v))"
  using assms
proof (induction v arbitrary: i acc rule: enc_varint.induct)
  case (1 v)
  show ?case
  proof (cases "v < 0x80")
    case True
    with 1(2) show ?thesis by (simp add: enc_varint.simps [of v] enc_varint_low varint_room_def)
  next
    case False
    from varint_room_step [OF 1(2) False] have room: "varint_room (Suc i) (drop_bit 7 v)" .
    from 1(1) [OF False this] room False show ?thesis
      by (simp add: enc_varint.simps [of v] enc_varint_low varint_room_def varint_acc [unfolded push_bit_and])
  qed
qed

lemma readProtoVarint_enc: "readProtoVarint (enc_varint v @ rest) = Some (v, length (enc_varint v))"
  using readVarint_enc [OF varint_room_0, of 0 v rest] by (simp add: readProtoVarint_def)

lemma le_value_bytes: "le_value (le_bytes k w) = take_bit (8 * k) (unat w)" for w :: "'a::len word"
proof (induction k arbitrary: w)
  case (Suc k)
  have "unat (ucast w :: byte) = unat w mod 256" by (simp add: unsigned_ucast_eq take_bit_eq_mod)
  moreover have "take_bit (8 * k) (unat (drop_bit 8 w)) = (unat w div 256) mod 2 ^ (8 * k)"
    unfolding unat_drop_bit_eq by (simp add: take_bit_eq_mod drop_bit_eq_div)
  moreover have "unat w mod 2 ^ (8 * Suc k) = unat w mod 256 + 256 * ((unat w div 256) mod 2 ^ (8 * k))"
    using mod_mult2_eq [of "unat w" 256 "2 ^ (8 * k)"] by (simp add: power_add)
  ultimately show ?case by (simp add: Suc.IH take_bit_eq_mod)
qed simp

lemma length_le_bytes [simp]: "length (le_bytes k w) = k"
  by (induction k arbitrary: w) auto

lemma Uint_le_bytes: "Uint32 (le_bytes 4 w @ rest) = Some w" "Uint64 (le_bytes 8 v @ rest) = Some v"
proof -
  have "take_bit 32 (unat w) = unat w" "take_bit 64 (unat v) = unat v"
    using unsigned_less [of w] unsigned_less [of v] by (simp_all add: take_bit_nat_eq_self_iff)
  then show "Uint32 (le_bytes 4 w @ rest) = Some w" "Uint64 (le_bytes 8 v @ rest) = Some v"
    by (simp_all add: Uint32_def Uint64_def le_value_bytes)
qed

lemma enc_key_parts:
  assumes "scalar_ok f"
  shows "uint (drop_bit 3 (enc_key f)) = psFieldNumber f" "uint (enc_key f AND 0x07) = psWireType f"
proof -
  define N where "N = (word_of_int (psFieldNumber f) :: 64 word)"
  define W where "W = (word_of_int (psWireType f) :: 64 word)"
  have key: "enc_key f = push_bit 3 N OR W" by (simp add: enc_key_def N_def W_def)
  have n: "0 < psFieldNumber f" "psFieldNumber f < 2 ^ 61" and w: "psWireType f \<in> {0, 1, 2, 5}"
    using assms by (simp_all add: scalar_ok_def)
  have uN: "uint N = psFieldNumber f" using n by (simp add: N_def uint_word_of_int take_bit_int_eq_self)
  then have "take_bit 61 N = N" using n by (simp add: word_uint_eq_iff unsigned_take_bit_eq take_bit_int_eq_self)
  then have bN: "bit N m \<Longrightarrow> m < 61" for m by (metis bit_take_bit_iff)
  have "take_bit 3 W = W" using w by (auto simp: W_def)
  then have bW: "bit W m \<Longrightarrow> m < 3" for m by (metis bit_take_bit_iff)
  have "drop_bit 3 (enc_key f) = N" unfolding key
    by (rule bit_word_eqI) (auto simp: bit_simps dest: bN bW)
  then show "uint (drop_bit 3 (enc_key f)) = psFieldNumber f" using uN by simp
  have seven: "(0x07 :: 64 word) = mask 3" by (simp add: mask_eq_exp_minus_1)
  have "enc_key f AND 0x07 = W" unfolding key seven
    by (rule bit_word_eqI) (auto simp: bit_simps dest: bN bW)
  moreover have "uint W = psWireType f" using w by (auto simp: W_def)
  ultimately show "uint (enc_key f AND 0x07) = psWireType f" by simp
qed

lemma readProtoField_enc:
  assumes ok: "scalar_ok f" and short: "length (enc_scalar f @ rest) < 2 ^ 64"
  shows "readProtoField (enc_scalar f @ rest) = Some (Inr (f, rest))"
proof -
  let ?z = "zeroScalar (psFieldNumber f) (psWireType f)"
  have len: "unat (word_of_nat (length (psBytes f)) :: 64 word) = length (psBytes f)"
    unfolding unat_of_nat using ok by (simp add: scalar_ok_def)
  have "f = \<lparr>psFieldNumber = psFieldNumber f, psWireType = psWireType f, psVarint = psVarint f, psFixed32 = psFixed32 f,
      psFixed64 = psFixed64 f, psBytes = psBytes f\<rparr>" by simp
  note f_eq = this
  have val: "readProtoValue ?z (body @ rest) = Some (Inr (f, rest))" if "enc_scalar f = enc_varint (enc_key f) @ body" for body
  proof -
    from ok consider "psWireType f = 0" | "psWireType f = 1" | "psWireType f = 2" | "psWireType f = 5" by (auto simp: scalar_ok_def)
    then show ?thesis
    proof cases
      case 1
      with that have "body = enc_varint (psVarint f)" by (simp add: enc_scalar_def)
      with 1 ok show ?thesis by (subst f_eq) (simp add: readProtoValue_def zeroScalar_def readProtoVarint_enc tailFrom_def slice_def scalar_ok_def)
    next
      case 2
      with that have "body = le_bytes 8 (psFixed64 f)" by (simp add: enc_scalar_def)
      with 2 ok show ?thesis
        by (subst f_eq) (simp add: readProtoValue_def zeroScalar_def tailFrom_def slice_def scalar_ok_def Uint_le_bytes(2) [where rest = "[]", simplified])
    next
      case 3
      with that have "body = enc_varint (word_of_nat (length (psBytes f))) @ psBytes f" by (simp add: enc_scalar_def)
      moreover have "length (psBytes f @ rest) < 2 ^ 64" using short 3 by (simp add: enc_scalar_def)
      then have "\<not> (word_of_nat (length (psBytes f @ rest)) :: 64 word) < word_of_nat (length (psBytes f))"
        unfolding word_less_nat_alt unat_of_nat by simp
      ultimately show ?thesis using 3 ok
        by (subst f_eq) (simp add: readProtoValue_def zeroScalar_def readProtoVarint_enc tailFrom_def slice_def scalar_ok_def len)
    next
      case 4
      with that have "body = le_bytes 4 (psFixed32 f)" by (simp add: enc_scalar_def)
      with 4 ok show ?thesis
        by (subst f_eq) (simp add: readProtoValue_def zeroScalar_def tailFrom_def slice_def scalar_ok_def Uint_le_bytes(1) [where rest = "[]", simplified])
    qed
  qed
  obtain body where body: "enc_scalar f = enc_varint (enc_key f) @ body" by (simp add: enc_scalar_def)
  then show ?thesis using val [OF body] ok enc_key_parts [OF ok] readProtoVarint_enc
    by (simp add: readProtoField_def tailFrom_def slice_def scalar_ok_def Let_def)
qed

lemma parseProtoLoop_enc:
  assumes "list_all scalar_ok fs" "length (concat (map enc_scalar fs)) < 2 ^ 64"
  shows "parseProtoLoop acc (concat (map enc_scalar fs)) = Some (Inr (acc @ fs))"
  using assms
proof (induction fs arbitrary: acc)
  case (Cons f fs)
  have "enc_scalar f \<noteq> []" by (simp add: enc_scalar_def enc_varint.simps [of "enc_key f"])
  with Cons readProtoField_enc [of f "concat (map enc_scalar fs)"] show ?case by (subst parseProtoLoop.simps) simp
qed (simp add: parseProtoLoop.simps)

section \<open>Sessions\<close>

text \<open>The digest has sixteen bytes.\<close>

definition md5_law :: "(byte list \<Rightarrow> byte list) \<Rightarrow> bool" where
  "md5_law md5 \<longleftrightarrow> (\<forall>x. length (md5 x) = 16)"

text \<open>What an exchange holds in each of its stages.\<close>

definition stage_rank :: "string \<Rightarrow> nat" where
  "stage_rank stg =
     (if stg = ''ecdh_public_key_request'' then 0 else if stg = ''session_key_info_request'' then 1
      else if stg = ''auth_status_request'' then 2 else if stg = ''type7_packet_stream'' then 3 else 4)"

definition exchange_ok :: "activeProbeExchange \<Rightarrow> bool" where
  "exchange_ok ex \<longleftrightarrow>
     tpWrite (exTransport ex) \<noteq> None \<and> exPrivateScalar ex \<noteq> [] \<and> stage_rank (exStage ex) \<le> 3 \<and>
     (1 \<le> stage_rank (exStage ex) \<longrightarrow> length (exInitialKey ex) = 16 \<and> length (exIV ex) = 16) \<and>
     (2 \<le> stage_rank (exStage ex) \<longrightarrow> length (exSessionKey ex) = 16)"

definition session_inv :: "activeProbeSession \<Rightarrow> bool" where
  "session_inv s \<longleftrightarrow> gm_wf (seExchanges s) \<and> gm_all (\<lambda>_ ex. exchange_ok ex) (seExchanges s)"

lemma stage_ranks [simp]:
  "stage_rank ''ecdh_public_key_request'' = 0" "stage_rank ''session_key_info_request'' = 1"
  "stage_rank ''auth_status_request'' = 2" "stage_rank ''type7_packet_stream'' = 3"
  by (simp_all add: stage_rank_def)

definition in_range :: "secp160r1Curve \<Rightarrow> int \<Rightarrow> bool" where
  "in_range c v \<longleftrightarrow> 0 \<le> v \<and> v < curve_p c"

lemma scalarBit_range:
  assumes p: "0 < curve_p c" and base: "in_range c bx" "in_range c by'" and pt: "\<forall>(x, y) \<in> set_option pt. in_range c x \<and> in_range c y"
  shows "\<forall>(x, y) \<in> set_option (scalarBit c bx by' pt b). in_range c x \<and> in_range c y"
proof -
  have m: "in_range c (v mod curve_p c)" for v using p by (simp add: in_range_def)
  have d: "double c u v = Some (x, y) \<Longrightarrow> in_range c x \<and> in_range c y" for u v x y
    using m by (auto simp: double_def Let_def split: if_splits)
  have a: "add c u v bx by' = Some (x, y) \<Longrightarrow> in_range c x \<and> in_range c y" for u v x y
    using m d by (auto simp: add_def Let_def split: if_splits)
  have "scalarBit c bx by' pt b = Some (x, y) \<Longrightarrow> in_range c x \<and> in_range c y" for x y
    using base pt d a by (cases pt) (auto simp: scalarBit_def Let_def split: option.splits if_splits)
  then show ?thesis by auto
qed

lemma scalarMult_range:
  assumes "0 < curve_p c" "in_range c bx" "in_range c by'"
  shows "in_range c (fst (scalarMult c bx by' k)) \<and> in_range c (snd (scalarMult c bx by' k))"
proof -
  have "\<forall>(x, y) \<in> set_option (foldl (scalarBit c bx by') pt bs). in_range c x \<and> in_range c y"
    if "\<forall>(x, y) \<in> set_option pt. in_range c x \<and> in_range c y" for pt bs
    using that
  proof (induction bs arbitrary: pt)
    case (Cons b bs)
    from Cons.IH [OF scalarBit_range [OF assms Cons.prems]] show ?case by simp
  qed simp
  from this [of None "concat (map bitsOf k)"] show ?thesis
    using assms by (auto simp: scalarMult_def in_range_def split: option.splits)
qed

text \<open>Every coordinate of the curve of the device fits into twenty bytes.\<close>

lemma coordinate_fits:
  assumes "in_range newSECP160R1Curve x" "in_range newSECP160R1Curve y"
  shows "leftPadBytes (nat (fst (scalarMult newSECP160R1Curve x y k))) 20 \<noteq> None"
    "leftPadBytes (nat (snd (scalarMult newSECP160R1Curve x y k))) 20 \<noteq> None"
proof -
  have "0 < curve_p newSECP160R1Curve" "curve_p newSECP160R1Curve < 256 ^ 20" by (simp_all add: newSECP160R1Curve_def)
  with scalarMult_range [OF this(1) assms, of k] show
    "leftPadBytes (nat (fst (scalarMult newSECP160R1Curve x y k))) 20 \<noteq> None"
    "leftPadBytes (nat (snd (scalarMult newSECP160R1Curve x y k))) 20 \<noteq> None"
    unfolding leftPadBytes_Some in_range_def nat_less_iff [symmetric] by (simp_all add: nat_less_iff)
qed

lemma derive_safe: "deriveType7InitialEncryption md5 scalar payload \<noteq> None"
proof -
  have key: "leftPadBytes (nat (fst (scalarMult newSECP160R1Curve x y scalar))) 20 \<noteq> None"
    if "isOnCurve newSECP160R1Curve x y" for x y
    using that by (intro coordinate_fits) (auto simp: isOnCurve_def in_range_def)
  show ?thesis unfolding deriveType7InitialEncryption_def Let_def
    by (intro panic_free) (auto dest!: slice_length simp: key)
qed

lemma derive_lengths:
  "deriveType7InitialEncryption md5 scalar payload = Some (Inr (k, iv)) \<Longrightarrow> md5_law md5 \<Longrightarrow> length k = 16 \<and> length iv = 16"
  by (auto simp: deriveType7InitialEncryption_def Let_def bind_eq_Some_conv md5_law_def dest!: leftPadBytes_length split: if_splits)

lemma session_key_safe: "deriveEcoFlowSessionKeyWithLoginKey md5 seed srand key \<noteq> None"
  unfolding deriveEcoFlowSessionKeyWithLoginKey_def Let_def by (intro panic_free) auto

lemma session_key_length:
  "deriveEcoFlowSessionKeyWithLoginKey md5 seed srand key = Some (Inr k) \<Longrightarrow> md5_law md5 \<Longrightarrow> length k = 16"
  by (auto simp: deriveEcoFlowSessionKeyWithLoginKey_def Let_def bind_eq_Some_conv md5_law_def split: if_splits)

lemma writeTo_safe: "tpWrite t \<noteq> None \<Longrightarrow> writeTo t data \<noteq> None"
  by (simp add: writeTo_def)

lemma encryptedTX_safe: "encryptedActiveProbeTXNotification env t stp data plain options \<noteq> None"
  unfolding encryptedActiveProbeTXNotification_def Let_def by (intro panic_free)

text \<open>No other notification carries the step of an authentication request.\<close>

definition authCount :: "probeNotification list \<Rightarrow> nat" where
  "authCount ns = length (filter (\<lambda>n. pnStep n = ''auth_request'') ns)"

lemma authCount_simps [simp]:
  "authCount [] = 0" "authCount (n # ns) = (if pnStep n = ''auth_request'' then 1 else 0) + authCount ns"
  "authCount (xs @ ys) = authCount xs + authCount ys"
  by (simp_all add: authCount_def)

lemma steps [simp]:
  "pnStep (afterWrite e n) = pnStep n" "pnStep (txNotification o' t stp d dec) = stp"
  "pnStep (activeProbeDiagnostic raw o' stp fr det pl) = stp" "pnStep (encryptError stp e') = stp"
  by (simp_all add: afterWrite_def txNotification_def activeProbeDiagnostic_def encryptError_def split: option.splits)

lemma roles [simp]:
  "pnRole (afterWrite e n) = pnRole n" "pnRole (txNotification o' t stp d dec) = tpWriteRole t" "pnRole (encryptError stp e') = []"
  by (simp_all add: afterWrite_def txNotification_def encryptError_def zeroNotification_def split: option.splits)

lemma encryptedTX_step:
  "encryptedActiveProbeTXNotification env t stp data plain options = Some n \<Longrightarrow> pnStep n = stp \<and> pnRole n = tpWriteRole t"
  by (auto simp: encryptedActiveProbeTXNotification_def Let_def bind_eq_Some_conv)

text \<open>What one step of an exchange guarantees. An authentication request is reported under the role of the transport it is
  written to; one that could not be encrypted is written nowhere and reported under no role.\<close>

definition good_step :: "activeProbeExchange \<Rightarrow> activeProbeExchange \<Rightarrow> probeNotification list \<Rightarrow> bool" where
  "good_step ex ex' ns \<longleftrightarrow>
     exchange_ok ex' \<and> exTransport ex' = exTransport ex \<and> stage_rank (exStage ex) \<le> stage_rank (exStage ex') \<and>
     (\<forall>n \<in> set ns. pnStep n = ''auth_request'' \<longrightarrow> pnRole n = tpWriteRole (exTransport ex) \<or> pnRole n = []) \<and>
     authCount ns + (if stage_rank (exStage ex) = 3 then 1 else 0) \<le> (if stage_rank (exStage ex') = 3 then 1 else 0)"

lemma handleECDH_good:
  assumes ok: "exchange_ok ex" and st: "exStage ex = ''ecdh_public_key_request''" and md5: "md5_law (envMD5 env)"
  shows "\<exists>ex' ns. handleECDHPublicKey env raw ex payload options = Some (ex', ns) \<and> good_step ex ex' ns"
proof -
  obtain d where d: "deriveType7InitialEncryption (envMD5 env) (exPrivateScalar ex) payload = Some d"
    using derive_safe by blast
  obtain dec where dec: "decodeEcoFlowNotification (envFmtFloat env) (wrapEcoFlowSimpleEncPacket [0x02]) = Some dec"
    using decodeEcoFlowNotification_safe by blast
  obtain wr where wr: "tpWrite (exTransport ex) = Some wr" using ok by (auto simp: exchange_ok_def)
  show ?thesis
  proof (cases d)
    case (Inl e)
    then have "handleECDHPublicKey env raw ex payload options =
        Some (ex, [activeProbeDiagnostic raw options ''ecdh_shared_key'' ''ecoflow_session_key'' (''derive_error='' @ e) payload])"
      using d by (simp add: handleECDHPublicKey_def)
    moreover have "good_step ex ex [activeProbeDiagnostic raw options ''ecdh_shared_key'' ''ecoflow_session_key'' (''derive_error='' @ e) payload]"
      using ok st by (simp add: good_step_def)
    ultimately show ?thesis by blast
  next
    case (Inr kv)
    obtain k iv where kv: "kv = (k, iv)" by (cases kv)
    let ?ex = "ex\<lparr>exInitialKey := k, exIV := iv, exStage := ''session_key_info_request''\<rparr>"
    obtain n where "handleECDHPublicKey env raw ex payload options = Some (?ex, [n])" "pnStep n = ''session_key_info_request''"
      using d Inr kv dec wr by (simp add: handleECDHPublicKey_def writeTo_def Let_def)
    moreover have "length k = 16 \<and> length iv = 16" using derive_lengths [OF _ md5] d Inr kv by simp
    ultimately show ?thesis using ok st by (simp add: good_step_def exchange_ok_def)
  qed
qed

lemma sendEncryptedAuthStatus_good:
  assumes "tpWrite (exTransport ex) \<noteq> None"
  shows "\<exists>n. sendEncryptedAuthStatus env ex options = Some n \<and> pnStep n = ''auth_status_request''"
proof (cases "wrapEcoFlowEncryptedProtocolPacket (envAES env) (buildEcoFlowV3Packet 0x21 0x35 0x35 0x89 []) (exSessionKey ex) (exIV ex)")
  case (Inl e)
  then show ?thesis by (simp add: sendEncryptedAuthStatus_def)
next
  case (Inr data)
  obtain n where n: "encryptedActiveProbeTXNotification env (exTransport ex) ''auth_status_request'' data
      (buildEcoFlowV3Packet 0x21 0x35 0x35 0x89 []) options = Some n" using encryptedTX_safe by blast
  obtain w where w: "tpWrite (exTransport ex) = Some w" using assms by blast
  show ?thesis using Inr n w encryptedTX_step [OF n] by (simp add: sendEncryptedAuthStatus_def writeTo_def)
qed

lemma handleSessionKeyInfo_good:
  assumes ok: "exchange_ok ex" and st: "exStage ex = ''session_key_info_request''" and md5: "md5_law (envMD5 env)"
  shows "\<exists>ex' ns. handleSessionKeyInfo env s raw ex payload options = Some (ex', ns) \<and> good_step ex ex' ns"
proof (cases "decryptEcoFlowType7 (envAES env) (drop 1 payload) (exInitialKey ex) (exIV ex)")
  case (Inl e)
  then show ?thesis using ok st by (simp add: handleSessionKeyInfo_def good_step_def)
next
  case (Inr dec)
  obtain w where w: "tpWrite (exTransport ex) = Some w" using ok by (auto simp: exchange_ok_def)
  show ?thesis
  proof (cases "length dec < 18")
    case True
    then show ?thesis using Inr ok st by (simp add: handleSessionKeyInfo_def good_step_def Let_def zeroNotification_def)
  next
    case False
    obtain seed srand where sl: "slice dec 16 18 = Some seed" "slice dec 0 16 = Some srand"
      using False slice_None [of dec 16 18] slice_None [of dec 0 16] by fastforce
    obtain d where d: "deriveEcoFlowSessionKeyWithLoginKey (envMD5 env) seed srand (seLoginKey s) = Some d"
      using session_key_safe by blast
    show ?thesis
    proof (cases d)
      case d_err: (Inl e)
      then show ?thesis using Inr False sl d w ok st
        by (simp add: handleSessionKeyInfo_def good_step_def Let_def zeroNotification_def)
    next
      case d_key: (Inr k)
      have k: "length k = 16" using session_key_length [OF _ md5] d d_key by simp
      let ?ex = "ex\<lparr>exSessionKey := k, exStage := ''auth_status_request''\<rparr>"
      obtain tx where tx: "sendEncryptedAuthStatus env ?ex options = Some tx" "pnStep tx = ''auth_status_request''"
        using sendEncryptedAuthStatus_good [of ?ex env options] w by auto
      obtain n where "handleSessionKeyInfo env s raw ex payload options = Some (?ex, [n, tx])" "pnStep n = ''session_key_info_decrypted''"
        using Inr False sl d d_key w tx by (simp add: handleSessionKeyInfo_def Let_def zeroNotification_def)
      then show ?thesis using ok st k tx by (simp add: good_step_def exchange_ok_def)
    qed
  qed
qed

lemma sendAuthRequest_good:
  assumes w: "tpWrite (exTransport ex) \<noteq> None"
  shows "\<exists>stg n. sendAuthRequest env s ex options = Some (ex\<lparr>exStage := stg\<rparr>, n) \<and> pnStep n = ''auth_request'' \<and>
    (pnRole n = tpWriteRole (exTransport ex) \<or> pnRole n = [])"
proof (cases "TrimSpace (seAuthUserID s) = [] \<or> TrimSpace (seAuthDeviceSerial s) = []")
  case True
  have "ex\<lparr>exStage := exStage ex\<rparr> = ex" by simp
  then show ?thesis using True by (auto simp: sendAuthRequest_def intro!: exI [of _ "exStage ex"])
next
  case False
  define plain where "plain = buildEcoFlowV3Packet 0x21 0x35 0x35 0x86
    (bytesOf (ToUpper (hexString (envMD5 env (bytesOf (seAuthUserID s @ seAuthDeviceSerial s))))))"
  obtain wr where wr: "tpWrite (exTransport ex) = Some wr" using w by blast
  show ?thesis
  proof (cases "wrapEcoFlowEncryptedProtocolPacket (envAES env) plain (exSessionKey ex) (exIV ex)")
    case (Inl e)
    then have "sendAuthRequest env s ex options = Some (ex, encryptError ''auth_request'' e)"
      using False by (simp add: sendAuthRequest_def plain_def Let_def)
    then show ?thesis by (auto intro!: exI [of _ "exStage ex"])
  next
    case (Inr data)
    obtain n where n: "encryptedActiveProbeTXNotification env (exTransport ex) ''auth_request'' data plain options = Some n"
      using encryptedTX_safe by blast
    from Inr n wr False encryptedTX_step [OF n] show ?thesis
      by (auto simp: sendAuthRequest_def plain_def [symmetric] Let_def writeTo_def)
  qed
qed

lemma handleEncrypted_good:
  assumes ok: "exchange_ok ex" and st: "exStage ex = ''auth_status_request'' \<or> exStage ex = ''type7_packet_stream''"
  shows "\<exists>ex' ev. handleEncryptedType7Packet env s raw ex options = Some (ex', ev) \<and> good_step ex ex' (evNotifications ev)"
proof -
  obtain res where res: "decryptEcoFlowEncPacketPayload (envAES env) (rawData raw) (exSessionKey ex) (exIV ex) = Some res"
    using decryptEncPacket_safe by blast
  show ?thesis
  proof (cases res)
    case (Inl e)
    then show ?thesis using res ok st by (auto simp: handleEncryptedType7Packet_def good_step_def emptyEvent_def)
  next
    case (Inr plain)
    obtain dec where dec: "decodeEcoFlowNotification (envFmtFloat env) plain = Some dec" using decodeEcoFlowNotification_safe by blast
    let ?ex = "ex\<lparr>exStage := ''type7_packet_stream''\<rparr>"
    have okx: "exchange_ok ?ex" using ok st by (auto simp: exchange_ok_def)
    show ?thesis
    proof (cases "exStage ex = ''auth_status_request'' \<and> isEcoFlowAuthStatusResponse (ndPacket dec)")
      case True
      obtain stg n where n: "sendAuthRequest env s ex options = Some (ex\<lparr>exStage := stg\<rparr>, n)" "pnStep n = ''auth_request''"
          "pnRole n = tpWriteRole (exTransport ex) \<or> pnRole n = []"
        using sendAuthRequest_good [of ex env s options] ok by (auto simp: exchange_ok_def)
      obtain ev m where "handleEncryptedType7Packet env s raw ex options = Some (?ex, ev)" "evNotifications ev = [m, n]"
        "pnStep m = ''type7_packet_decrypted''"
        using res Inr dec True n by (simp add: handleEncryptedType7Packet_def Let_def zeroNotification_def)
      then show ?thesis using okx True n by (simp add: good_step_def)
    next
      case False
      obtain ev m where "handleEncryptedType7Packet env s raw ex options = Some (?ex, ev)" "evNotifications ev = [m]"
        "pnStep m = ''type7_packet_decrypted''"
        using res Inr dec False by (simp add: handleEncryptedType7Packet_def Let_def zeroNotification_def)
      then show ?thesis using okx st by (auto simp: good_step_def)
    qed
  qed
qed

lemma handleStage_good:
  assumes ok: "exchange_ok ex" and md5: "md5_law (envMD5 env)"
  shows "\<exists>ex' ev. handleStage env s raw ex payload options = Some (ex', ev) \<and> good_step ex ex' (evNotifications ev)"
proof -
  have idle: "good_step ex ex []" using ok by (simp add: good_step_def)
  from ok have "exStage ex = ''ecdh_public_key_request'' \<or> exStage ex = ''session_key_info_request'' \<or>
      exStage ex = ''auth_status_request'' \<or> exStage ex = ''type7_packet_stream''"
    by (auto simp: exchange_ok_def stage_rank_def split: if_splits)
  then consider (a) "exStage ex = ''ecdh_public_key_request''" | (b) "exStage ex = ''session_key_info_request''"
    | (c) "exStage ex = ''auth_status_request'' \<or> exStage ex = ''type7_packet_stream''" by blast
  then show ?thesis
  proof cases
    case a
    with handleECDH_good [OF ok a md5, of raw payload options] idle show ?thesis
      by (auto simp: handleStage_def emptyEvent_def)
  next
    case b
    with handleSessionKeyInfo_good [OF ok b md5, of s raw payload options] idle show ?thesis
      by (auto simp: handleStage_def emptyEvent_def)
  next
    case c
    with handleEncrypted_good [OF ok c, of env s raw options] show ?thesis by (auto simp: handleStage_def)
  qed
qed

lemma HandleNotificationEvent_good:
  assumes inv: "session_inv s" and md5: "md5_law (envMD5 env)"
  shows "\<exists>s' ev. HandleNotificationEvent env raw options s = Some (s', ev) \<and> session_inv s' \<and>
    (let t = transportNameFromRole (rawRole raw)
     in (\<forall>t'. t' \<noteq> t \<longrightarrow> gm_get (seExchanges s') t' = gm_get (seExchanges s) t') \<and>
        (case gm_get (seExchanges s) t of
           None \<Rightarrow> s' = s \<and> evNotifications ev = []
         | Some ex \<Rightarrow> \<exists>ex'. gm_get (seExchanges s') t = Some ex' \<and> good_step ex ex' (evNotifications ev)))"
proof -
  let ?t = "transportNameFromRole (rawRole raw)"
  show ?thesis
  proof (cases "gm_get (seExchanges s) ?t")
    case None
    then show ?thesis using inv by (simp add: HandleNotificationEvent_def emptyEvent_def Let_def)
  next
    case (Some ex)
    have ok: "exchange_ok ex" using inv Some by (auto simp: session_inv_def dest: gm_allD)
    obtain dec where dec: "decodeEcoFlowNotification (envFmtFloat env) (rawData raw) = Some dec"
      using decodeEcoFlowNotification_safe by blast
    show ?thesis
    proof (cases "ndDecodedPayload dec = []")
      case True
      have "good_step ex ex []" using ok by (simp add: good_step_def)
      then show ?thesis using Some dec True inv by (simp add: HandleNotificationEvent_def emptyEvent_def Let_def)
    next
      case False
      obtain ex' ev where h: "handleStage env s raw ex (ndDecodedPayload dec) options = Some (ex', ev)"
        "good_step ex ex' (evNotifications ev)" using handleStage_good [OF ok md5] by blast
      let ?s = "s\<lparr>seExchanges := gm_put ?t ex' (seExchanges s)\<rparr>"
      have "HandleNotificationEvent env raw options s = Some (?s, ev)"
        using Some dec False h by (simp add: HandleNotificationEvent_def Let_def)
      moreover have "session_inv ?s" using inv h(2) by (simp add: session_inv_def gm_all_put good_step_def)
      ultimately show ?thesis using Some h(2) by (simp add: Let_def)
    qed
  qed
qed

end
