(* ===== verification/Ble_Runs.thy ===== *)
theory Ble_Runs
  imports Ble_Lemmas
begin

text \<open>
  The session of a probe of one device (\<open>cmd/ecoflow-ble-discover/main.go\<close>, \<open>ProbeWithOptions\<close>): the transports
  are found among the characteristics, the first requests are sent, and then every notification is reported
  and handed to the session. Connecting, enabling notifications, reading the characteristics with known contents and
  the capabilities that are reported are left out; they do not touch the transports and the session, and when
  no notification could be enabled the loop gets none. The event sink is a function of the events emitted before and the event
  at hand; when it answers an error the loop ends and the caller drops the probe.
\<close>

section \<open>Roles and reports\<close>

definition inferEcoFlowCharacteristicRole :: "string \<Rightarrow> string \<Rightarrow> string" where
  "inferEcoFlowCharacteristicRole serviceUUID characteristicUUID =
     (let c = ToLower (TrimSpace characteristicUUID); s = ToLower (TrimSpace serviceUUID)
      in if c = ''00000002-0000-1000-8000-00805f9b34fb'' then ''ecoflow_rfcomm_write''
         else if c = ''00000003-0000-1000-8000-00805f9b34fb'' then ''ecoflow_rfcomm_notify''
         else if c = ''00000006-0000-1000-8000-00805f9b34fb'' then ''ecoflow_alt_write''
         else if c = ''00000007-0000-1000-8000-00805f9b34fb'' then ''ecoflow_alt_notify''
         else if c = ''6e400002-b5a3-f393-e0a9-e50e24dcca9e'' then ''ecoflow_nordic_uart_write''
         else if c = ''6e400003-b5a3-f393-e0a9-e50e24dcca9e'' then ''ecoflow_nordic_uart_notify''
         else if s = ''00000001-0000-1000-8000-00805f9b34fb'' \<or> s = ''00000005-0000-1000-8000-00805f9b34fb'' then ''ecoflow_unknown''
         else [])"

definition isEcoFlowNotifyRole :: "string \<Rightarrow> bool" where
  "isEcoFlowNotifyRole role \<longleftrightarrow> HasSuffix role ''_notify''"

definition probeNotificationFromRaw ::
    "ble_env \<Rightarrow> rawBLENotification \<Rightarrow> bool \<Rightarrow> (probeNotification \<times> probeMetric list) option" where
  "probeNotificationFromRaw env raw includeRaw = do {
     decoded \<leftarrow> decodeEcoFlowNotification (envFmtFloat env) (rawData raw);
     Some (zeroNotification\<lparr>pnServiceUUID := rawServiceUUID raw, pnCharacteristicUUID := rawCharacteristicUUID raw,
             pnRole := rawRole raw, pnBytes := length (rawData raw), pnFrame := ndFrame decoded, pnDetail := ndDetail decoded,
             pnPacket := (case ndPacket decoded of None \<Rightarrow> [] | Some p \<Rightarrow> formatEcoFlowPacketSummary p),
             pnValueHex := (if includeRaw then hexString (rawData raw) else []),
             pnDecodedHex := (if includeRaw then ndDecodedHex decoded else [])\<rparr>, ndMetrics decoded)
   }"

text \<open>The transports that are found among the characteristics of all services, in the order in which they are discovered: the
  calls of \<open>Observe\<close> in the loop of \<open>ProbeWithOptions\<close>.\<close>

definition observeAll :: "(string \<times> string \<times> writer) list \<Rightarrow> activeProbeTransports" where
  "observeAll cs =
     fold (\<lambda>(serviceUUID, characteristicUUID, characteristic) t.
             Observe serviceUUID characteristicUUID (inferEcoFlowCharacteristicRole serviceUUID characteristicUUID) characteristic t)
       cs newActiveProbeTransports"

section \<open>Listening\<close>

record listenState =
  lsNotifications :: "probeNotification list"
  lsMetrics :: "probeMetric list"
  lsSession :: "activeProbeSession option"
  lsEmitted :: "probeEvent list"

type_synonym event_sink = "(probeEvent list \<Rightarrow> probeEvent \<Rightarrow> string option) option"

definition emitProbeEvent :: "event_sink \<Rightarrow> probeEvent \<Rightarrow> listenState \<Rightarrow> listenState \<times> string option" where
  "emitProbeEvent sink event st =
     (case sink of
        None \<Rightarrow> (st, None)
      | Some f \<Rightarrow> (st\<lparr>lsEmitted := lsEmitted st @ [event]\<rparr>, f (lsEmitted st) event))"

definition addEvent :: "probeEvent \<Rightarrow> listenState \<Rightarrow> listenState" where
  "addEvent event st = st\<lparr>lsNotifications := lsNotifications st @ evNotifications event, lsMetrics := lsMetrics st @ evMetrics event\<rparr>"

definition followUp :: "ble_env \<Rightarrow> rawBLENotification \<Rightarrow> probeOptions \<Rightarrow> activeProbeSession option \<Rightarrow>
    (activeProbeSession option \<times> probeEvent) option" where
  "followUp env raw options session =
     (case session of
        None \<Rightarrow> Some (None, emptyEvent)
      | Some s \<Rightarrow> map_option (map_prod Some id) (HandleNotificationEvent env raw options s))"

definition listenStep ::
    "ble_env \<Rightarrow> event_sink \<Rightarrow> probeOptions \<Rightarrow> rawBLENotification \<Rightarrow> listenState \<Rightarrow> (listenState \<times> string option) option" where
  "listenStep env sink options raw st = do {
     (decodedNotification, metrics) \<leftarrow> probeNotificationFromRaw env raw (poRawNotifications options);
     let event = \<lparr>evNotifications = [decodedNotification], evMetrics = metrics\<rparr>;
     let (st1, err) = emitProbeEvent sink event (addEvent event st);
     if err \<noteq> None then Some (st1, err)
     else do {
       (session, followUpEvent) \<leftarrow> followUp env raw options (lsSession st1);
       let st2 = st1\<lparr>lsSession := session\<rparr>;
       Some (if evNotifications followUpEvent \<noteq> [] \<or> evMetrics followUpEvent \<noteq> []
             then emitProbeEvent sink followUpEvent (addEvent followUpEvent st2) else (st2, None))
     }
   }"

primrec listenLoop ::
    "ble_env \<Rightarrow> event_sink \<Rightarrow> probeOptions \<Rightarrow> rawBLENotification list \<Rightarrow> listenState \<Rightarrow> (listenState \<times> string option) option" where
  "listenLoop env sink options [] st = Some (st, None)"
| "listenLoop env sink options (raw # raws) st = do {
     (st', err) \<leftarrow> listenStep env sink options raw st;
     if err \<noteq> None then Some (st', err) else listenLoop env sink options raws st'
   }"

definition listenStart :: "probeNotification list \<Rightarrow> activeProbeSession option \<Rightarrow> listenState" where
  "listenStart ns session = \<lparr>lsNotifications = ns, lsMetrics = [], lsSession = session, lsEmitted = []\<rparr>"

section \<open>Starting a session\<close>

definition transport_ok :: "activeProbeTransport \<Rightarrow> bool" where
  "transport_ok t \<longleftrightarrow> (tpHasWrite t \<longrightarrow> tpWrite t \<noteq> None)"

lemma observe_ok:
  "transport_ok (tpsRfcomm t) \<Longrightarrow> transport_ok (tpsAlt t) \<Longrightarrow>
   transport_ok (tpsRfcomm (Observe s c r w t)) \<and> transport_ok (tpsAlt (Observe s c r w t))"
  by (simp add: Observe_def observeTransport_def transport_ok_def Let_def)

lemma observeAll_ok: "transport_ok (tpsRfcomm (observeAll cs)) \<and> transport_ok (tpsAlt (observeAll cs))"
proof -
  have "transport_ok (tpsRfcomm t) \<and> transport_ok (tpsAlt t) \<Longrightarrow>
    transport_ok (tpsRfcomm (fold (\<lambda>(s, c, w). Observe s c (inferEcoFlowCharacteristicRole s c) w) cs t)) \<and>
    transport_ok (tpsAlt (fold (\<lambda>(s, c, w). Observe s c (inferEcoFlowCharacteristicRole s c) w) cs t))" for t
    by (induction cs arbitrary: t) (use observe_ok in \<open>auto split: prod.splits\<close>)
  then show ?thesis unfolding observeAll_def
    by (simp add: newActiveProbeTransports_def newTransport_def transport_ok_def)
qed

lemma Select_writable: "t \<in> set (Select sel (observeAll cs)) \<Longrightarrow> tpWrite t \<noteq> None"
  using observeAll_ok [of cs] by (auto simp: Select_def complete_def transport_ok_def split: if_splits)

text \<open>The number of exchanges that have not come to the stream of packets.\<close>

definition pending :: "activeProbeSession \<Rightarrow> nat" where
  "pending s = length (filter (\<lambda>(k, ex). stage_rank (exStage ex) < 3) (seExchanges s))"

lemma length_filter_update:
  "length (filter P (AList.update k v m)) \<le> Suc (length (filter P m))"
  by (induction m) auto

lemma sendLoop_inv:
  assumes "sendLoop env options request ts ns s = Some (ns', s')" "session_inv s"
  shows "session_inv s' \<and> pending s' \<le> pending s + length ts"
  using assms
proof (induction ts arbitrary: ns s)
  case (Cons t ts)
  obtain err s1 ns1 where one: "writeTo t (rqData request) = Some err"
    "s1 = (if err = None \<and> rqStep request = ''ecdh_public_key_request'' then trackECDHExchange t (rqPrivateScalar request) s else s)"
    "sendLoop env options request ts ns1 s1 = Some (ns', s')"
    using Cons.prems(1) by (auto simp: bind_eq_Some_conv Let_def)
  then have w: "tpWrite t \<noteq> None" by (auto simp: writeTo_def)
  have "session_inv s1" using Cons.prems(2) w
    by (auto simp: one(2) trackECDHExchange_def session_inv_def exchange_ok_def intro!: gm_all_put)
  moreover have "pending s1 \<le> Suc (pending s)"
    by (auto simp: one(2) trackECDHExchange_def pending_def gm_put_def intro: length_filter_update le_SucI)
  ultimately show ?case using Cons.IH [OF one(3)] by auto
qed simp

lemma sendLoop_safe:
  "\<forall>t \<in> set ts. tpWrite t \<noteq> None \<Longrightarrow> sendLoop env options request ts ns s \<noteq> None"
proof (induction ts arbitrary: ns s)
  case (Cons t ts)
  obtain d where "decodeEcoFlowNotification (envFmtFloat env) (rqData request) = Some d" using decodeEcoFlowNotification_safe by blast
  moreover obtain w where "tpWrite t = Some w" using Cons.prems by auto
  ultimately show ?case using Cons by (simp add: writeTo_def Let_def)
qed simp

lemma start_inv:
  assumes "sendActiveProbeRequests env random loginKey ts options record = Some (ns, Some s)"
  shows "session_inv s \<and> pending s \<le> length ts"
proof -
  obtain req where req: "buildActiveProbeRequest random (poActiveProbe options) record = Some req" and ts: "ts \<noteq> []"
    using assms by (auto simp: sendActiveProbeRequests_def bind_eq_Some_conv split: if_splits)
  obtain request l where "sendLoop env options request ts [] \<lparr>seExchanges = [], seLoginKey = loginKey,
      seAuthUserID = TrimSpace (poAuthUserID options), seAuthDeviceSerial = l\<rparr> = Some (ns, s)"
    using assms req ts
    by (cases req) (auto simp: sendActiveProbeRequests_def bind_eq_Some_conv Let_def split: if_splits)
  from sendLoop_inv [OF this] show ?thesis by (simp add: session_inv_def pending_def)
qed

lemma start_safe:
  assumes "\<forall>t \<in> set ts. tpWrite t \<noteq> None" "case random of Inl _ \<Rightarrow> True | Inr r \<Rightarrow> generateSECP160R1Key r \<noteq> None"
  shows "sendActiveProbeRequests env random loginKey ts options record \<noteq> None"
proof -
  have "buildECDHProbeRequest random \<noteq> None"
    using assms(2) by (auto simp: buildECDHProbeRequest_def split: sum.splits)
  then have "buildActiveProbeRequest random (poActiveProbe options) record \<noteq> None" by (simp add: buildActiveProbeRequest_def)
  then show ?thesis unfolding sendActiveProbeRequests_def Let_def
    by (intro panic_free sendLoop_safe assms(1)) auto
qed

section \<open>Runs\<close>

inductive ble_start :: "activeProbeSession \<Rightarrow> bool" where
  "sendActiveProbeRequests env random loginKey ts options record = Some (ns, Some s) \<Longrightarrow> ble_start s"

inductive ble_step :: "activeProbeSession \<Rightarrow> activeProbeSession \<Rightarrow> bool" where
  "md5_law (envMD5 env) \<Longrightarrow> HandleNotificationEvent env raw options s = Some (s', event) \<Longrightarrow> ble_step s s'"

interpretation ble_runs: invariant_system ble_start ble_step session_inv
proof
  show "session_inv s" if "ble_start s" for s using that by (auto elim!: ble_start.cases dest: start_inv)
  show "session_inv s'" if "session_inv s" "ble_step s s'" for s s'
    using that(2)
  proof cases
    case (1 env raw options ev)
    with HandleNotificationEvent_good [OF that(1) 1(1), of raw options] show ?thesis by auto
  qed
qed

text \<open>Every authentication request takes an exchange to the stream of packets, where no other is sent.\<close>

lemma length_filter_put:
  assumes "gm_wf m" "gm_get m k = Some old"
  shows "length (filter P (gm_put k v m)) + (if P (k, old) then 1 else 0) = length (filter P m) + (if P (k, v) then 1 else 0)"
  using assms unfolding gm_wf_def gm_get_def gm_put_def
  by (induction m) (auto simp: update_conv' split: if_splits)

lemma Handle_pending:
  assumes inv: "session_inv s" and md5: "md5_law (envMD5 env)" and h: "HandleNotificationEvent env raw options s = Some (s', ev)"
  shows "session_inv s' \<and> authCount (evNotifications ev) + pending s' \<le> pending s"
proof -
  let ?t = "transportNameFromRole (rawRole raw)"
  note good = HandleNotificationEvent_good [OF inv md5, of raw options, unfolded h]
  show ?thesis
  proof (cases "gm_get (seExchanges s) ?t")
    case None
    with good show ?thesis by (auto simp: Let_def)
  next
    case (Some ex)
    with good obtain ex' where ex': "gm_get (seExchanges s') ?t = Some ex'" "good_step ex ex' (evNotifications ev)" "session_inv s'"
      by (auto simp: Let_def)
    have "seExchanges s' = seExchanges s \<and> ex' = ex \<or> seExchanges s' = gm_put ?t ex' (seExchanges s)"
      using h Some ex'(1) by (auto simp: HandleNotificationEvent_def Let_def bind_eq_Some_conv split: if_splits)
    moreover have wf: "gm_wf (seExchanges s)" using inv by (simp add: session_inv_def)
    note length_filter_put [OF wf Some, of "\<lambda>(k, ex). stage_rank (exStage ex) < 3" ex']
    moreover have "stage_rank (exStage ex) \<le> 3" "stage_rank (exStage ex') \<le> 3"
      using inv Some ex'(2) by (auto simp: session_inv_def good_step_def exchange_ok_def dest: gm_allD)
    ultimately show ?thesis using ex'(2,3) by (auto simp: pending_def good_step_def split: if_splits)
  qed
qed

lemma probeNotificationFromRaw_plain:
  "\<exists>n ms. probeNotificationFromRaw env raw b = Some (n, ms) \<and> pnStep n = []"
proof -
  obtain d where "decodeEcoFlowNotification (envFmtFloat env) (rawData raw) = Some d" using decodeEcoFlowNotification_safe by blast
  then show ?thesis by (simp add: probeNotificationFromRaw_def zeroNotification_def)
qed

lemma emit_same [simp]:
  "lsNotifications (fst (emitProbeEvent sink ev st)) = lsNotifications st"
  "lsSession (fst (emitProbeEvent sink ev st)) = lsSession st"
  "lsNotifications (addEvent ev st) = lsNotifications st @ evNotifications ev" "lsSession (addEvent ev st) = lsSession st"
  by (simp_all add: emitProbeEvent_def addEvent_def split: option.splits)

section \<open>Counting authentication requests\<close>

text \<open>
  A way of counting authentication requests in what is reported, and a budget of those that a session may still
  send. If no notification that is handled exceeds the budget, no run of the listening loop does.
\<close>

locale auth_budget =
  fixes ready :: "activeProbeSession option \<Rightarrow> bool"
    and count :: "probeNotification list \<Rightarrow> nat"
    and budget :: "activeProbeSession option \<Rightarrow> nat"
  assumes count_append: "count (xs @ ys) = count xs + count ys"
    and count_plain: "pnStep n = [] \<Longrightarrow> count [n] = 0"
    and followUp_good: "ready session \<Longrightarrow> md5_law (envMD5 env) \<Longrightarrow>
      \<exists>session' ev. followUp env raw options session = Some (session', ev) \<and> ready session' \<and>
        count (evNotifications ev) + budget session' \<le> budget session"
begin

lemma listenStep_good:
  assumes "ready (lsSession st)" "md5_law (envMD5 env)"
  shows "\<exists>st' err. listenStep env sink options raw st = Some (st', err) \<and> ready (lsSession st') \<and>
    count (lsNotifications st') + budget (lsSession st') \<le> count (lsNotifications st) + budget (lsSession st)"
proof -
  obtain n ms where n: "probeNotificationFromRaw env raw (poRawNotifications options) = Some (n, ms)" "pnStep n = []"
    using probeNotificationFromRaw_plain by blast
  define ev where "ev = \<lparr>evNotifications = [n], evMetrics = ms\<rparr>"
  obtain st1 err where st1: "emitProbeEvent sink ev (addEvent ev st) = (st1, err)" by fastforce
  then have same: "lsNotifications st1 = lsNotifications st @ [n]" "lsSession st1 = lsSession st"
    using emit_same(1,2) [of sink ev "addEvent ev st", unfolded st1] by (simp_all add: ev_def)
  have cnt: "count (lsNotifications st @ [n]) = count (lsNotifications st)" by (simp add: count_append count_plain n(2))
  show ?thesis
  proof (cases err)
    case (Some e)
    then show ?thesis using n st1 same cnt assms(1) by (simp add: listenStep_def ev_def [symmetric] Let_def)
  next
    case None
    obtain session fev where f: "followUp env raw options (lsSession st) = Some (session, fev)" "ready session"
      "count (evNotifications fev) + budget session \<le> budget (lsSession st)"
      using followUp_good [OF assms] by blast
    define st2 where "st2 = st1\<lparr>lsSession := session\<rparr>"
    have eq: "listenStep env sink options raw st = Some (if evNotifications fev \<noteq> [] \<or> evMetrics fev \<noteq> []
        then emitProbeEvent sink fev (addEvent fev st2) else (st2, None))"
      using n st1 same None f(1) by (simp add: listenStep_def ev_def [symmetric] Let_def st2_def)
    obtain st3 err3 where st3: "emitProbeEvent sink fev (addEvent fev st2) = (st3, err3)" by fastforce
    have same3: "lsNotifications st3 = (lsNotifications st @ [n]) @ evNotifications fev" "lsSession st3 = session"
      using emit_same(1,2) [of sink fev "addEvent fev st2", unfolded st3] same by (simp_all add: st2_def)
    have "count (lsNotifications st3) = count (lsNotifications st) + count (evNotifications fev)" unfolding same3 count_append [of _ "evNotifications fev"] cnt ..
    then show ?thesis unfolding eq using f(2,3) cnt same same3(2) st3 by (auto simp: st2_def)
  qed
qed

lemma listenLoop_good:
  assumes "ready (lsSession st)" "md5_law (envMD5 env)"
  shows "\<exists>st' err. listenLoop env sink options raws st = Some (st', err) \<and> ready (lsSession st') \<and>
    count (lsNotifications st') + budget (lsSession st') \<le> count (lsNotifications st) + budget (lsSession st)"
  using assms(1)
proof (induction raws arbitrary: st)
  case (Cons raw raws)
  obtain st1 err where one: "listenStep env sink options raw st = Some (st1, err)" "ready (lsSession st1)"
      "count (lsNotifications st1) + budget (lsSession st1) \<le> count (lsNotifications st) + budget (lsSession st)"
    using listenStep_good [OF Cons.prems assms(2)] by blast
  show ?case
  proof (cases err)
    case None
    with Cons.IH [OF one(2)] one show ?thesis by (auto intro: order_trans)
  qed (use one in simp)
qed simp

end

text \<open>All requests, against the number of exchanges that have not come to the stream of packets.\<close>

definition sessionOK :: "activeProbeSession option \<Rightarrow> bool" where
  "sessionOK session \<longleftrightarrow> (case session of None \<Rightarrow> True | Some s \<Rightarrow> session_inv s)"

definition pendingIn :: "activeProbeSession option \<Rightarrow> nat" where
  "pendingIn session = (case session of None \<Rightarrow> 0 | Some s \<Rightarrow> pending s)"

interpretation all_requests: auth_budget sessionOK authCount pendingIn
proof
  fix session raw options and env :: ble_env
  assume ready: "sessionOK session" and md5: "md5_law (envMD5 env)"
  show "\<exists>session' ev. followUp env raw options session = Some (session', ev) \<and> sessionOK session' \<and>
      authCount (evNotifications ev) + pendingIn session' \<le> pendingIn session"
  proof (cases session)
    case None
    then show ?thesis by (simp add: followUp_def sessionOK_def emptyEvent_def)
  next
    case (Some s)
    with ready have inv: "session_inv s" by (simp add: sessionOK_def)
    obtain s' ev where h: "HandleNotificationEvent env raw options s = Some (s', ev)"
      using HandleNotificationEvent_good [OF inv md5] by blast
    with Handle_pending [OF inv md5 h] Some show ?thesis by (simp add: followUp_def sessionOK_def pendingIn_def)
  qed
qed (simp_all)

text \<open>The requests that are written to one transport: they are reported under the role of its write characteristic. A
  session is ready when every exchange is kept under the name of the transport it writes to.\<close>

definition authCountOn :: "string \<Rightarrow> probeNotification list \<Rightarrow> nat" where
  "authCountOn t ns = length (filter (\<lambda>n. pnStep n = ''auth_request'' \<and> pnRole n \<noteq> [] \<and> transportNameFromRole (pnRole n) = t) ns)"

lemma authCountOn_le: "authCountOn t ns \<le> authCount ns"
  unfolding authCountOn_def authCount_def by (induction ns) auto

definition pendingOn :: "string \<Rightarrow> activeProbeSession option \<Rightarrow> nat" where
  "pendingOn t session =
     (case session of None \<Rightarrow> 0
      | Some s \<Rightarrow> (case gm_get (seExchanges s) t of None \<Rightarrow> 0 | Some ex \<Rightarrow> if stage_rank (exStage ex) < 3 then 1 else 0))"

definition named :: "activeProbeSession \<Rightarrow> bool" where
  "named s \<longleftrightarrow> gm_all (\<lambda>t ex. transportNameFromRole (tpWriteRole (exTransport ex)) = t) (seExchanges s)"

definition sessionNamed :: "activeProbeSession option \<Rightarrow> bool" where
  "sessionNamed session \<longleftrightarrow> (case session of None \<Rightarrow> True | Some s \<Rightarrow> session_inv s \<and> named s)"

lemma Handle_pendingOn:
  assumes inv: "session_inv s" "named s" and md5: "md5_law (envMD5 env)"
  shows "\<exists>s' ev. HandleNotificationEvent env raw options s = Some (s', ev) \<and> session_inv s' \<and> named s' \<and>
    authCountOn t (evNotifications ev) + pendingOn t (Some s') \<le> pendingOn t (Some s)"
proof -
  let ?t = "transportNameFromRole (rawRole raw)"
  obtain s' ev where h: "HandleNotificationEvent env raw options s = Some (s', ev)" "session_inv s'"
    and other: "\<And>t'. t' \<noteq> ?t \<Longrightarrow> gm_get (seExchanges s') t' = gm_get (seExchanges s) t'"
    and own: "case gm_get (seExchanges s) ?t of None \<Rightarrow> s' = s \<and> evNotifications ev = []
      | Some ex \<Rightarrow> \<exists>ex'. gm_get (seExchanges s') ?t = Some ex' \<and> good_step ex ex' (evNotifications ev)"
    using HandleNotificationEvent_good [OF inv(1) md5, of raw options] by (auto simp: Let_def)
  show ?thesis
  proof (cases "gm_get (seExchanges s) ?t")
    case None
    then show ?thesis using own h inv(2) by (auto simp: authCountOn_def)
  next
    case (Some ex)
    with own obtain ex' where ex': "gm_get (seExchanges s') ?t = Some ex'" "good_step ex ex' (evNotifications ev)" by auto
    have name: "transportNameFromRole (tpWriteRole (exTransport ex)) = ?t" using inv(2) Some by (auto simp: named_def dest: gm_allD)
    have "named s'" unfolding named_def gm_all_def
    proof (intro allI impI)
      fix k x assume x: "gm_get (seExchanges s') k = Some x"
      show "transportNameFromRole (tpWriteRole (exTransport x)) = k"
        using x ex' name other [of k] inv(2) by (cases "k = ?t") (auto simp: good_step_def named_def dest: gm_allD)
    qed
    moreover have "authCountOn t (evNotifications ev) + pendingOn t (Some s') \<le> pendingOn t (Some s)"
    proof (cases "t = ?t")
      case False
      then have "authCountOn t (evNotifications ev) = 0" using ex'(2) name by (auto simp: authCountOn_def good_step_def filter_empty_conv)
      then show ?thesis using other [OF False] by (simp add: pendingOn_def)
    next
      case True
      have "stage_rank (exStage ex) \<le> 3" "stage_rank (exStage ex') \<le> 3"
        using inv(1) Some ex'(2) by (auto simp: session_inv_def good_step_def exchange_ok_def dest: gm_allD)
      then show ?thesis
        using ex' Some True authCountOn_le [of t "evNotifications ev"] by (auto simp: pendingOn_def good_step_def split: if_splits)
    qed
    ultimately show ?thesis using h by blast
  qed
qed

interpretation requests_on: auth_budget sessionNamed "authCountOn t" "pendingOn t" for t
proof
  fix session raw options and env :: ble_env
  assume ready: "sessionNamed session" and md5: "md5_law (envMD5 env)"
  show "\<exists>session' ev. followUp env raw options session = Some (session', ev) \<and> sessionNamed session' \<and>
      authCountOn t (evNotifications ev) + pendingOn t session' \<le> pendingOn t session"
  proof (cases session)
    case None
    then show ?thesis by (simp add: followUp_def sessionNamed_def emptyEvent_def authCountOn_def)
  next
    case (Some s)
    with ready obtain s' ev where "HandleNotificationEvent env raw options s = Some (s', ev)" "session_inv s'" "named s'"
        "authCountOn t (evNotifications ev) + pendingOn t (Some s') \<le> pendingOn t (Some s)"
      using Handle_pendingOn [OF _ _ md5, of s raw options t] by (auto simp: sessionNamed_def)
    then show ?thesis by (simp add: Some followUp_def sessionNamed_def)
  qed
qed (simp_all add: authCountOn_def)

text \<open>What the characteristics of a device lead to: transports under the roles of their names, and a session with at most one
  exchange for each of them, none of which has sent an authentication request.\<close>

definition transport_named :: "string \<Rightarrow> activeProbeTransport \<Rightarrow> bool" where
  "transport_named name t \<longleftrightarrow> tpName t = name \<and> (tpHasWrite t \<longrightarrow> transportNameFromRole (tpWriteRole t) = name)"

lemma observeAll_named: "transport_named ''rfcomm'' (tpsRfcomm (observeAll cs)) \<and> transport_named ''alt'' (tpsAlt (observeAll cs))"
proof -
  have step: "transport_named ''rfcomm'' (tpsRfcomm (Observe s c r w t)) \<and> transport_named ''alt'' (tpsAlt (Observe s c r w t))"
    if "transport_named ''rfcomm'' (tpsRfcomm t) \<and> transport_named ''alt'' (tpsAlt t)" for s c r w t
  proof -
    have "transportNameFromRole r \<in> {[], ''alt'', ''rfcomm''}" by (simp add: transportNameFromRole_def)
    then consider "transportNameFromRole r = []" | "transportNameFromRole r = ''alt''" | "transportNameFromRole r = ''rfcomm''" by blast
    then show ?thesis by cases (use that in \<open>simp_all add: Observe_def observeTransport_def transport_named_def Let_def\<close>)
  qed
  have "transport_named ''rfcomm'' (tpsRfcomm t) \<and> transport_named ''alt'' (tpsAlt t) \<Longrightarrow>
    transport_named ''rfcomm'' (tpsRfcomm (fold (\<lambda>(s, c, w). Observe s c (inferEcoFlowCharacteristicRole s c) w) cs t)) \<and>
    transport_named ''alt'' (tpsAlt (fold (\<lambda>(s, c, w). Observe s c (inferEcoFlowCharacteristicRole s c) w) cs t))" for t
    by (induction cs arbitrary: t) (use step in \<open>auto split: prod.splits\<close>)
  then show ?thesis unfolding observeAll_def by (simp add: newActiveProbeTransports_def newTransport_def transport_named_def)
qed

lemma Select_named: "t \<in> set (Select sel (observeAll cs)) \<Longrightarrow> transportNameFromRole (tpWriteRole t) = tpName t"
  using observeAll_named [of cs] by (auto simp: Select_def complete_def transport_named_def split: if_splits)

lemma sendLoop_named:
  assumes "sendLoop env options request ts ns s = Some (ns', s')" "named s" "\<forall>t \<in> set ts. transportNameFromRole (tpWriteRole t) = tpName t"
    and "rqStep request \<noteq> ''auth_request''"
  shows "named s' \<and> authCountOn t ns' = authCountOn t ns \<and> (\<forall>k. gm_get (seExchanges s') k \<noteq> None \<longrightarrow> gm_get (seExchanges s) k \<noteq> None \<or> k \<in> tpName ` set ts)"
  using assms
proof (induction ts arbitrary: ns s)
  case (Cons t0 ts)
  obtain dec err where o: "decodeEcoFlowNotification (envFmtFloat env) (rqData request) = Some dec" "writeTo t0 (rqData request) = Some err"
    using Cons.prems(1) by (auto simp: bind_eq_Some_conv Let_def)
  define s1 where "s1 = (if err = None \<and> rqStep request = ''ecdh_public_key_request'' then trackECDHExchange t0 (rqPrivateScalar request) s else s)"
  define n where "n = afterWrite err (txNotification options t0 (rqStep request) (rqData request) dec)"
  have one: "sendLoop env options request ts (ns @ [n]) s1 = Some (ns', s')" "pnStep n = rqStep request"
    using Cons.prems(1) o by (simp_all add: Let_def s1_def n_def)
  have "named s1" using Cons.prems(2,3) by (auto simp: s1_def trackECDHExchange_def named_def intro!: gm_all_put)
  moreover have keys: "gm_get (seExchanges s) k \<noteq> None \<or> k = tpName t0" if "gm_get (seExchanges s1) k \<noteq> None" for k
    using that by (auto simp: s1_def trackECDHExchange_def split: if_splits)
  moreover have "authCountOn t (ns @ [n]) = authCountOn t ns" using one(2) Cons.prems(4) by (simp add: authCountOn_def)
  ultimately have rest: "named s' \<and> authCountOn t ns' = authCountOn t ns \<and>
      (\<forall>k. gm_get (seExchanges s') k \<noteq> None \<longrightarrow> gm_get (seExchanges s1) k \<noteq> None \<or> k \<in> tpName ` set ts)"
    using Cons.IH [OF one(1)] Cons.prems(3,4) by simp
  moreover have "gm_get (seExchanges s) k \<noteq> None \<or> k \<in> tpName ` set (t0 # ts)" if "gm_get (seExchanges s') k \<noteq> None" for k
    using rest keys [of k] that by (auto simp del: not_None_eq)
  ultimately show ?case by blast
qed simp

lemma start_named:
  assumes start: "sendActiveProbeRequests env random loginKey ts options record = Some (ns, session)"
    and roles: "\<forall>t \<in> set ts. transportNameFromRole (tpWriteRole t) = tpName t"
  shows "sessionNamed session" "authCountOn t ns = 0" "pendingOn t session \<le> (if t \<in> tpName ` set ts then 1 else 0)"
proof -
  have quiet: "authCountOn t [noneNotification options detail] = 0" for detail
    by (simp add: authCountOn_def noneNotification_def zeroNotification_def)
  have "sessionNamed session \<and> authCountOn t ns = 0 \<and> pendingOn t session \<le> (if t \<in> tpName ` set ts then 1 else 0)"
  proof (cases "session = None \<and> (\<exists>detail. ns = [noneNotification options detail])")
    case True
    then show ?thesis using quiet by (auto simp: sessionNamed_def pendingOn_def)
  next
    case False
    have ts: "ts \<noteq> []" using start False by (auto simp: sendActiveProbeRequests_def)
    obtain req where "buildActiveProbeRequest random (poActiveProbe options) record = Some req"
      using start ts by (auto simp: sendActiveProbeRequests_def bind_eq_Some_conv)
    with start ts False obtain request where req: "buildActiveProbeRequest random (poActiveProbe options) record = Some (Inr request)"
      by (cases req) (auto simp: sendActiveProbeRequests_def)
    define l where "l = (if TrimSpace (poAuthDeviceSerial options) \<noteq> [] then TrimSpace (poAuthDeviceSerial options) else srSerial record)"
    obtain s' where loop: "sendLoop env options request ts [] \<lparr>seExchanges = [], seLoginKey = loginKey,
        seAuthUserID = TrimSpace (poAuthUserID options), seAuthDeviceSerial = l\<rparr> = Some (ns, s')"
      and s': "session = (if seExchanges s' = [] then None else Some s')"
      using start ts req unfolding sendActiveProbeRequests_def l_def [symmetric] by (auto simp: bind_eq_Some_conv Let_def)
    have "rqStep request \<noteq> ''auth_request''"
      using req by (auto simp: buildActiveProbeRequest_def buildAuthStatusProbeRequest_def buildECDHProbeRequest_def bind_eq_Some_conv split: if_splits sum.splits)
    note named = sendLoop_named [OF loop _ roles this]
    have "session_inv s'" using sendLoop_inv [OF loop] by (simp add: session_inv_def)
    then show ?thesis
      using named [of t] by (auto simp: sessionNamed_def s' pendingOn_def named_def authCountOn_def split: option.splits)
  qed
  then show "sessionNamed session" "authCountOn t ns = 0" "pendingOn t session \<le> (if t \<in> tpName ` set ts then 1 else 0)" by blast+
qed

section \<open>The answer to the status request\<close>

lemma hex_byte_length: "length (hex_padded 2 (unat b)) = 2" for b :: byte
proof -
  have b: "unat b < 256" using unsigned_less [of b] by simp
  show ?thesis
  proof (cases "unat b < 16")
    case True
    then show ?thesis by (simp add: hex_padded_def show_base.simps [of 16 "unat b"])
  next
    case False
    with b show ?thesis by (simp add: hex_padded_def show_base.simps [of 16 "unat b"] show_base.simps [of 16 "unat b div 16"])
  qed
qed

lemma packetCommand_inj: "packetCommand a b c d = packetCommand a' b' c' d' \<longleftrightarrow> (a, b, c, d) = (a', b', c', d')"
proof
  assume "packetCommand a b c d = packetCommand a' b' c' d'"
  then have "hex_padded 2 (unat a) = hex_padded 2 (unat a') \<and> hex_padded 2 (unat b) = hex_padded 2 (unat b') \<and>
      hex_padded 2 (unat c) = hex_padded 2 (unat c') \<and> hex_padded 2 (unat d) = hex_padded 2 (unat d')"
    by (simp add: packetCommand_def append_eq_append_conv hex_byte_length)
  then show "(a, b, c, d) = (a', b', c', d')" by (simp add: hex_padded_inj word_unat_eq_iff)
qed simp

lemma status_answer_command:
  "packetCommand src dst cmdSet cmdID = ''src=0x35,dst=0x21,cmd_set=0x35,cmd_id=0x89'' \<longleftrightarrow>
   (src, dst, cmdSet, cmdID) = (0x35, 0x21, 0x35, 0x89)"
proof -
  have "packetCommand 0x35 0x21 0x35 0x89 = ''src=0x35,dst=0x21,cmd_set=0x35,cmd_id=0x89''" by code_simp
  then show ?thesis using packetCommand_inj [of src dst cmdSet cmdID "0x35" "0x21" "0x35" "0x89"] by simp
qed

lemma decode_v3:
  assumes "length payload < 2 ^ 16"
  shows "\<exists>d. decodeEcoFlowNotification fmt (buildEcoFlowV3Packet src dst cmdSet cmdID payload) = Some d \<and>
    (isEcoFlowAuthStatusResponse (ndPacket d) \<longleftrightarrow> (src, dst, cmdSet, cmdID) = (0x35, 0x21, 0x35, 0x89))"
proof -
  let ?data = "buildEcoFlowV3Packet src dst cmdSet cmdID payload"
  obtain p where p: "parseEcoFlowPacket ?data = Some (Inr p)" "Src p = src" "Dst p = dst" "CmdSet p = cmdSet" "CmdID p = cmdID"
    using v3_roundtrip [OF assms, of src dst cmdSet cmdID "[]"] by simp
  obtain xs where first: "?data = 0xaa # 0x03 # xs" by (simp add: buildEcoFlowV3Packet_def AppendUint16_def Let_def)
  obtain d where d: "decodeEcoFlowPacketMetrics fmt p ''ecoflow_packet'' = Some d" using decodeEcoFlowPacketMetrics_safe by blast
  have "ndPacket d = Some (summarizeEcoFlowPacket p)"
    using d by (auto simp: decodeEcoFlowPacketMetrics_def Let_def bind_eq_Some_conv split: if_splits)
  then have "isEcoFlowAuthStatusResponse (ndPacket d) \<longleftrightarrow> (src, dst, cmdSet, cmdID) = (0x35, 0x21, 0x35, 0x89)"
    unfolding status_answer_command [symmetric] by (simp add: isEcoFlowAuthStatusResponse_def summarizeEcoFlowPacket_def p)
  moreover have "decodeEcoFlowNotification fmt ?data = Some d"
    using p(1) d unfolding first by (simp add: decodeEcoFlowNotification_def at_simps)
  ultimately show ?thesis by blast
qed

lemma build_length: "length (buildEcoFlowV3Packet src dst cmdSet cmdID payload) = 20 + length payload"
  by (simp add: buildEcoFlowV3Packet_def AppendUint16_def Let_def)

text \<open>An encrypted packet is taken in by the decoder as an opaque payload, and decrypted to its plaintext.\<close>

lemma encrypted_delivery:
  assumes aes: "aes_laws aes" and len: "length key = 16" "length iv = 16" and short: "length plaintext < 65500"
    and packet: "wrapEcoFlowEncryptedProtocolPacket aes plaintext key iv = Inr packet"
  shows "decryptEcoFlowEncPacketPayload aes packet key iv = Some (Inr plaintext)"
    and "\<exists>d. decodeEcoFlowNotification fmt packet = Some d \<and> ndDecodedPayload d \<noteq> []"
proof -
  obtain c where c: "encryptEcoFlowType7 aes plaintext key iv = Inr c" "length c = 16 * (length plaintext div 16 + 1)"
    "decryptEcoFlowType7 aes c key iv = Inr plaintext" using type7_roundtrip [OF aes len] by blast
  then have l: "length c + 2 < 2 ^ 16" using short by simp
  have p: "packet = wrapFrame 0x10 c" using packet c(1) by (simp add: wrapEcoFlowEncryptedProtocolPacket_def)
  show "decryptEcoFlowEncPacketPayload aes packet key iv = Some (Inr plaintext)"
    using wrapFrame_decrypt [OF l, of aes "0x10" "[]" key iv] c(3) p by simp
  obtain d where d: "decodeEcoFlowEncPacket fmt packet = Some d" "ndDecodedPayload d = c"
    using wrapFrame_decode [OF l, of fmt "0x10" "[]"] p by auto
  obtain xs where "packet = 0x5a # 0x5a # xs" using p by (simp add: wrapFrame_parts)
  then have "decodeEcoFlowNotification fmt packet = decodeEcoFlowEncPacket fmt packet"
    by (simp add: decodeEcoFlowNotification_def at_simps)
  moreover have "c \<noteq> []" using c(2) by auto
  ultimately show "\<exists>d. decodeEcoFlowNotification fmt packet = Some d \<and> ndDecodedPayload d \<noteq> []" using d by simp
qed

lemma handle_status_answer:
  assumes ok: "exchange_ok ex" and st: "exStage ex = ''auth_status_request''" and aes: "aes_laws (envAES env)"
    and short: "length payload < 65000"
    and packet: "wrapEcoFlowEncryptedProtocolPacket (envAES env) (buildEcoFlowV3Packet src dst cmdSet cmdID payload)
      (exSessionKey ex) (exIV ex) = Inr (rawData raw)"
  shows "\<exists>ev. handleEncryptedType7Packet env s raw ex options = Some (ex\<lparr>exStage := ''type7_packet_stream''\<rparr>, ev) \<and>
    authCount (evNotifications ev) = (if (src, dst, cmdSet, cmdID) = (0x35, 0x21, 0x35, 0x89) then 1 else 0)"
proof -
  have len: "length (exSessionKey ex) = 16" "length (exIV ex) = 16" using ok st by (simp_all add: exchange_ok_def)
  have p: "length (buildEcoFlowV3Packet src dst cmdSet cmdID payload) < 65500" using short by (simp add: build_length)
  note dec = encrypted_delivery(1) [OF aes len p packet]
  obtain d where d: "decodeEcoFlowNotification (envFmtFloat env) (buildEcoFlowV3Packet src dst cmdSet cmdID payload) = Some d"
    "isEcoFlowAuthStatusResponse (ndPacket d) \<longleftrightarrow> (src, dst, cmdSet, cmdID) = (0x35, 0x21, 0x35, 0x89)"
    using decode_v3 [of payload] short by force
  show ?thesis
  proof (cases "(src, dst, cmdSet, cmdID) = (0x35, 0x21, 0x35, 0x89)")
    case True
    obtain stg n where "sendAuthRequest env s ex options = Some (ex\<lparr>exStage := stg\<rparr>, n)" "pnStep n = ''auth_request''"
      using sendAuthRequest_good [of ex env s options] ok by (auto simp: exchange_ok_def)
    then show ?thesis using dec d True st
      by (simp add: handleEncryptedType7Packet_def Let_def zeroNotification_def)
  next
    case False
    then have "\<not> isEcoFlowAuthStatusResponse (ndPacket d)" using d(2) by blast
    then show ?thesis unfolding if_not_P [OF False] using dec d(1) st
      by (simp add: handleEncryptedType7Packet_def Let_def zeroNotification_def)
  qed
qed

section \<open>The handshake with a device that follows the protocol\<close>

lemma simple_delivery:
  assumes "length payload + 2 < 2 ^ 16"
  shows "\<exists>d. decodeEcoFlowNotification fmt (wrapEcoFlowSimpleEncPacket payload) = Some d \<and> ndDecodedPayload d = payload"
proof -
  obtain xs where x: "wrapEcoFlowSimpleEncPacket payload = 0x5a # 0x5a # xs" by (simp add: wrapEcoFlowSimpleEncPacket_def wrapFrame_parts)
  have "decodeEcoFlowNotification fmt (0x5a # 0x5a # xs) = decodeEcoFlowEncPacket fmt (0x5a # 0x5a # xs)"
    by (simp add: decodeEcoFlowNotification_def at_simps)
  then show ?thesis using wrapFrame_decode [OF assms, of fmt 0 "[]"] unfolding x [symmetric]
    by (auto simp: wrapEcoFlowSimpleEncPacket_def)
qed

lemma derive_answer:
  assumes scalar: "scalar \<noteq> []" and on: "isOnCurve newSECP160R1Curve x y"
    and b: "leftPadBytes (nat x) 20 = Some xb" "leftPadBytes (nat y) 20 = Some yb"
    and sh: "leftPadBytes (nat (fst (scalarMult newSECP160R1Curve x y scalar))) 20 = Some shared"
  shows "deriveType7InitialEncryption md5 scalar ([0x01, 0x00, 0x00] @ xb @ yb) = Some (Inr (take 16 shared, md5 shared))"
proof -
  have len: "length xb = 20" "length yb = 20" using b leftPadBytes_length by blast+
  have val: "int (SetBytes xb) = x" "int (SetBytes yb) = y"
    using leftPadBytes_value [OF b(1)] leftPadBytes_value [OF b(2)] on by (simp_all add: isOnCurve_def)
  have s: "slice ([0x01, 0x00, 0x00] @ xb @ yb) 3 43 = Some (xb @ yb)" "slice (xb @ yb) 0 20 = Some xb" "slice (xb @ yb) 20 40 = Some yb"
    using len by (simp_all add: slice_def)
  show ?thesis using scalar on sh len val s
    by (simp add: deriveType7InitialEncryption_def at_def ecoFlowECDHTypeSize_def Let_def)
qed

lemma ecdh_answer:
  assumes ok: "exchange_ok ex" and d: "deriveType7InitialEncryption (envMD5 env) (exPrivateScalar ex) payload = Some (Inr (key, iv))"
  shows "\<exists>n. handleECDHPublicKey env raw ex payload options =
    Some (ex\<lparr>exInitialKey := key, exIV := iv, exStage := ''session_key_info_request''\<rparr>, [n])"
proof -
  obtain dec where "decodeEcoFlowNotification (envFmtFloat env) (wrapEcoFlowSimpleEncPacket [0x02]) = Some dec"
    using decodeEcoFlowNotification_safe by blast
  moreover obtain w where "tpWrite (exTransport ex) = Some w" using ok by (auto simp: exchange_ok_def)
  ultimately show ?thesis using d by (simp add: handleECDHPublicKey_def writeTo_def Let_def)
qed

lemma session_info_answer:
  assumes ok: "tpWrite (exTransport ex) \<noteq> None"
    and dec: "decryptEcoFlowType7 (envAES env) c (exInitialKey ex) (exIV ex) = Inr (srand @ [a, b])" and srand: "length srand = 16"
    and pos: "pos = unat a * 0x10 + unat (b - 1) * 0x100" "pos + 16 \<le> length (seLoginKey s)"
  shows "\<exists>ns. handleSessionKeyInfo env s raw ex (0x02 # c) options =
    Some (ex\<lparr>exSessionKey := envMD5 env (take 16 (drop pos (seLoginKey s)) @ srand), exStage := ''auth_status_request''\<rparr>, ns)"
proof -
  let ?k = "envMD5 env (take 16 (drop pos (seLoginKey s)) @ srand)"
  let ?ex = "ex\<lparr>exSessionKey := ?k, exStage := ''auth_status_request''\<rparr>"
  obtain w where w: "tpWrite (exTransport ex) = Some w" using ok by blast
  have sl: "slice (srand @ [a, b]) 16 18 = Some [a, b]" "slice (srand @ [a, b]) 0 16 = Some srand"
    using srand by (simp_all add: slice_def)
  have row: "slice (seLoginKey s) pos (pos + 16) = Some (take 16 (drop pos (seLoginKey s)))" "slice srand 0 16 = Some srand"
    using pos srand by (simp_all add: slice_def)
  have key: "deriveEcoFlowSessionKeyWithLoginKey (envMD5 env) [a, b] srand (seLoginKey s) = Some (Inr ?k)"
    using row srand pos(2) unfolding deriveEcoFlowSessionKeyWithLoginKey_def by (simp add: pos(1) [symmetric] Let_def)
  obtain tx where tx: "sendEncryptedAuthStatus env ?ex options = Some tx"
    using sendEncryptedAuthStatus_good [of ?ex env options] w by auto
  show ?thesis using dec srand sl key tx w
    by (simp add: handleSessionKeyInfo_def Let_def)
qed

lemma status_answer_handled:
  assumes ok: "exchange_ok ex" "exStage ex = ''auth_status_request''" and aes: "aes_laws (envAES env)"
    and ex: "gm_get (seExchanges s) (transportNameFromRole (rawRole raw)) = Some ex" and short: "length payload < 65000"
    and packet: "wrapEcoFlowEncryptedProtocolPacket (envAES env) (buildEcoFlowV3Packet src dst cmdSet cmdID payload)
      (exSessionKey ex) (exIV ex) = Inr (rawData raw)"
  shows "\<exists>ev. HandleNotificationEvent env raw options s =
      Some (s\<lparr>seExchanges := gm_put (transportNameFromRole (rawRole raw)) (ex\<lparr>exStage := ''type7_packet_stream''\<rparr>) (seExchanges s)\<rparr>, ev) \<and>
    authCount (evNotifications ev) = (if (src, dst, cmdSet, cmdID) = (0x35, 0x21, 0x35, 0x89) then 1 else 0)"
proof -
  have len: "length (exSessionKey ex) = 16" "length (exIV ex) = 16" using ok by (simp_all add: exchange_ok_def)
  obtain d where d: "decodeEcoFlowNotification (envFmtFloat env) (rawData raw) = Some d" "ndDecodedPayload d \<noteq> []"
    using encrypted_delivery(2) [OF aes len _ packet, of "envFmtFloat env"] short by (auto simp: build_length)
  obtain ev where ev: "handleEncryptedType7Packet env s raw ex options = Some (ex\<lparr>exStage := ''type7_packet_stream''\<rparr>, ev)"
    "authCount (evNotifications ev) = (if (src, dst, cmdSet, cmdID) = (0x35, 0x21, 0x35, 0x89) then 1 else 0)"
    using handle_status_answer [OF ok aes short packet] by blast
  then show ?thesis using ex d ok(2) by (simp add: HandleNotificationEvent_def handleStage_def Let_def)
qed

text \<open>Without a sink, the loop goes on with what the session left.\<close>

lemma listen_quiet:
  assumes "HandleNotificationEvent env raw options s = Some (s', ev)" "lsSession st = Some s"
  shows "\<exists>st'. listenStep env None options raw st = Some (st', None) \<and> lsSession st' = Some s' \<and>
    authCount (lsNotifications st') = authCount (lsNotifications st) + authCount (evNotifications ev)"
proof -
  obtain n ms where n: "probeNotificationFromRaw env raw (poRawNotifications options) = Some (n, ms)" "pnStep n = []"
    using probeNotificationFromRaw_plain by blast
  then show ?thesis using assms by (simp add: listenStep_def emitProbeEvent_def addEvent_def followUp_def Let_def)
qed

text \<open>The two answers of a device: its public key, and the session key information under the keys that both sides now share.\<close>

lemma handshake_run:
  assumes ok: "exchange_ok ex" "exStage ex = ''ecdh_public_key_request''" and aes: "aes_laws (envAES env)" and md5: "md5_law (envMD5 env)"
    and s: "gm_get (seExchanges s) t = Some ex" and role: "transportNameFromRole (rawRole raw1) = t" "transportNameFromRole (rawRole raw2) = t"
    and on: "isOnCurve newSECP160R1Curve x y" and b: "leftPadBytes (nat x) 20 = Some xb" "leftPadBytes (nat y) 20 = Some yb"
    and sh: "leftPadBytes (nat (fst (scalarMult newSECP160R1Curve x y (exPrivateScalar ex)))) 20 = Some shared"
    and raw1: "rawData raw1 = wrapEcoFlowSimpleEncPacket ([0x01, 0x00, 0x00] @ xb @ yb)"
    and c: "encryptEcoFlowType7 (envAES env) (srand @ [p, q]) (take 16 shared) (envMD5 env shared) = Inr c" "length srand = 16"
    and raw2: "rawData raw2 = wrapEcoFlowSimpleEncPacket (0x02 # c)"
    and pos: "pos = unat p * 0x10 + unat (q - 1) * 0x100" "pos + 16 \<le> length (seLoginKey s)"
  shows "\<exists>s1 ev1 s2 ev2. HandleNotificationEvent env raw1 options s = Some (s1, ev1) \<and>
    HandleNotificationEvent env raw2 options s1 = Some (s2, ev2) \<and>
    gm_get (seExchanges s2) t = Some (ex\<lparr>exInitialKey := take 16 shared, exIV := envMD5 env shared,
      exSessionKey := envMD5 env (take 16 (drop pos (seLoginKey s)) @ srand), exStage := ''auth_status_request''\<rparr>)"
proof -
  let ?ex1 = "ex\<lparr>exInitialKey := take 16 shared, exIV := envMD5 env shared, exStage := ''session_key_info_request''\<rparr>"
  have lens: "length xb = 20" "length yb = 20" "length shared = 20" using b sh leftPadBytes_length by blast+
  have scalar: "exPrivateScalar ex \<noteq> []" using ok(1) by (simp add: exchange_ok_def)
  obtain n where n: "handleECDHPublicKey env raw1 ex ([0x01, 0x00, 0x00] @ xb @ yb) options = Some (?ex1, [n])"
    using ecdh_answer [OF ok(1) derive_answer [OF scalar on b sh]] by blast
  obtain d1 where d1: "decodeEcoFlowNotification (envFmtFloat env) (rawData raw1) = Some d1" "ndDecodedPayload d1 = [0x01, 0x00, 0x00] @ xb @ yb"
    using simple_delivery [of "[0x01, 0x00, 0x00] @ xb @ yb" "envFmtFloat env"] lens raw1 by auto
  let ?s1 = "s\<lparr>seExchanges := gm_put t ?ex1 (seExchanges s)\<rparr>"
  obtain ev1 where h1: "HandleNotificationEvent env raw1 options s = Some (?s1, ev1)"
    using d1 n s ok(2) role by (simp add: HandleNotificationEvent_def handleStage_def Let_def)
  have "length (take 16 shared) = 16" "length (envMD5 env shared) = 16" using lens md5 by (simp_all add: md5_law_def)
  note rt = type7_roundtrip [OF aes this, of "srand @ [p, q]"]
  have dec: "decryptEcoFlowType7 (envAES env) c (exInitialKey ?ex1) (exIV ?ex1) = Inr (srand @ [p, q])" and lc: "length c = 32"
    using rt c by auto
  obtain d2 where d2: "decodeEcoFlowNotification (envFmtFloat env) (rawData raw2) = Some d2" "ndDecodedPayload d2 = 0x02 # c"
    using simple_delivery [of "0x02 # c" "envFmtFloat env"] lc raw2 by auto
  have w: "tpWrite (exTransport ?ex1) \<noteq> None" using ok(1) by (auto simp: exchange_ok_def)
  obtain ns where h2: "handleSessionKeyInfo env ?s1 raw2 ?ex1 (0x02 # c) options =
      Some (?ex1\<lparr>exSessionKey := envMD5 env (take 16 (drop pos (seLoginKey ?s1)) @ srand), exStage := ''auth_status_request''\<rparr>, ns)"
    using session_info_answer [where s = ?s1, OF w dec c(2) pos(1)] pos(2) by auto
  obtain s2 ev2 where "HandleNotificationEvent env raw2 options ?s1 = Some (s2, ev2)"
    "gm_get (seExchanges s2) t = Some (?ex1\<lparr>exSessionKey := envMD5 env (take 16 (drop pos (seLoginKey ?s1)) @ srand), exStage := ''auth_status_request''\<rparr>)"
    using d2 h2 role by (simp add: HandleNotificationEvent_def handleStage_def Let_def)
  with h1 show ?thesis by simp
qed

end
