(* ===== verification/Ble_Properties.thy ===== *)
theory Ble_Properties
  imports Ble_Runs
begin

text \<open>
  The properties of the Bluetooth tools: what was built is parsed back, damaged frames are rejected,
  no input makes a decoder panic, and a session goes through its stages with the keys it needs.
\<close>

section \<open>Frames\<close>

text \<open>A packet that \<open>buildEcoFlowV3Packet\<close> builds is parsed back with its addresses, command and payload, and with
  both checksums in order, whatever bytes follow it.\<close>

theorem packet_roundtrip:
  assumes "length payload < 2 ^ 16"
  shows "parseEcoFlowPacket (buildEcoFlowV3Packet src dst cmdSet cmdID payload @ rest) =
    Some (Inr \<lparr>VersionByte = 3, Version = 3, Sentinel = False, Src = src, Dst = dst, DSrc = 1, DDst = 1, CmdSet = cmdSet,
      CmdID = cmdID, Payload = payload, HeaderCRCOK = True, PacketCRCOK = True, PayloadLength = length payload\<rparr>)"
  using assms by (rule v3_roundtrip)

theorem packet_roundtrip_witness:
  "\<exists>p. parseEcoFlowPacket (buildEcoFlowV3Packet 0x21 0x35 0x35 0x89 [1, 2, 3]) = Some (Inr p) \<and> Payload p = [1, 2, 3] \<and> PacketCRCOK p"
  using packet_roundtrip [where payload = "[1, 2, 3]" and rest = "[]" and src = "0x21" and dst = "0x35" and cmdSet = "0x35" and cmdID = "0x89"]
  by simp

text \<open>C23: An envelope is opened again, and one damaged byte is noticed: a frame in which any byte outside the prefix and
  the length field has changed is rejected by the decoder and by the decryption, whatever the byte became.\<close>

theorem envelope_integrity:
  assumes len: "length payload + 2 < 2 ^ 16"
  shows "(\<exists>d. decodeEcoFlowNotification fmt (wrapEcoFlowSimpleEncPacket payload) = Some d \<and> ndDecodedPayload d = payload) \<and>
    (\<forall>i v. i < length (wrapEcoFlowSimpleEncPacket payload) \<longrightarrow> i \<notin> {0, 1, 4, 5} \<longrightarrow> v \<noteq> wrapEcoFlowSimpleEncPacket payload ! i \<longrightarrow>
       decodeEcoFlowNotification fmt ((wrapEcoFlowSimpleEncPacket payload)[i := v]) =
         Some (plainDecode ''ecoflow_enc_packet'' ''crc16 mismatch'') \<and>
       decryptEcoFlowEncPacketPayload aes ((wrapEcoFlowSimpleEncPacket payload)[i := v]) key iv =
         Some (Inl ''EncPacket crc16 mismatch''))"
proof (intro conjI allI impI)
  have enc: "decodeEcoFlowNotification fmt (0x5a # 0x5a # xs) = decodeEcoFlowEncPacket fmt (0x5a # 0x5a # xs)" for xs
    by (simp add: decodeEcoFlowNotification_def at_simps)
  let ?f = "wrapEcoFlowSimpleEncPacket payload"
  show "\<exists>d. decodeEcoFlowNotification fmt ?f = Some d \<and> ndDecodedPayload d = payload" using len by (rule simple_delivery)
  fix i v
  assume "i < length ?f" "i \<notin> {0, 1, 4, 5}" "v \<noteq> ?f ! i"
  with len obtain t u payload' w and n :: "16 word" where f: "?f[i := v] = [0x5a, 0x5a, t, u, ucast n, ucast (drop_bit 8 n)] @ payload' @ put16 w @ []"
    "length payload' = length payload" "unat n = length payload + 2"
    "w \<noteq> ecoFlowCRC16 ([0x5a, 0x5a, t, u, ucast n, ucast (drop_bit 8 n)] @ payload')"
    unfolding wrapEcoFlowSimpleEncPacket_def by (elim wrapFrame_tampered) simp_all
  have field: "Uint16 (drop 4 [0x5a, 0x5a, t, u, ucast n, ucast (drop_bit 8 n)]) = Some n" by (simp add: Uint16_def)
  show "decodeEcoFlowNotification fmt (?f[i := v]) = Some (plainDecode ''ecoflow_enc_packet'' ''crc16 mismatch'')"
  proof -
    have "decodeEcoFlowEncPacket fmt (?f[i := v]) = Some (plainDecode ''ecoflow_enc_packet'' ''crc16 mismatch'')"
      by (rule decodeEnc_envelope(1) [OF f(1) _ _ field _ _ f(4)]) (use f(2,3) in simp_all)
    with enc f(1) show ?thesis by simp
  qed
  show "decryptEcoFlowEncPacketPayload aes (?f[i := v]) key iv = Some (Inl ''EncPacket crc16 mismatch'')"
    by (rule decryptEnc_envelope(1) [OF f(1) _ _ _ f(4)]) (use f(2,3) in simp_all)
qed

theorem envelope_integrity_witness:
  "decodeEcoFlowNotification (\<lambda>_. []) ((wrapEcoFlowSimpleEncPacket [0x02])[6 := 0x03]) =
     Some (plainDecode ''ecoflow_enc_packet'' ''crc16 mismatch'')"
  by (rule envelope_integrity [of "[0x02]", THEN conjunct2, rule_format, THEN conjunct1])
     (simp_all add: wrapEcoFlowSimpleEncPacket_def wrapFrame_parts)

text \<open>No notification makes the decoders read outside it: for every sequence of bytes, decoding, decrypting and parsing
  return a result.\<close>

theorem decoders_never_panic:
  "(\<exists>d. decodeEcoFlowNotification fmt data = Some d) \<and> (\<exists>r. parseEcoFlowPacket data = Some r) \<and>
   (\<exists>r. parseProtoScalars data = Some r) \<and> (\<exists>r. decryptEcoFlowEncPacketPayload aes data key iv = Some r) \<and>
   (\<exists>r. deriveType7InitialEncryption md5 scalar data = Some r)"
  using decodeEcoFlowNotification_safe parseEcoFlowPacket_safe parseProtoLoop_safe decryptEncPacket_safe derive_safe
  unfolding parseProtoScalars_def by blast

text \<open>The field parser reads back every list of protobuf fields that the wire format encodes.\<close>

theorem proto_roundtrip:
  assumes "list_all scalar_ok fs" "length (concat (map enc_scalar fs)) < 2 ^ 64"
  shows "parseProtoScalars (concat (map enc_scalar fs)) = Some (Inr fs)"
  using parseProtoLoop_enc [OF assms, of "[]"] by (simp add: parseProtoScalars_def)

definition sample_fields :: "protoScalar list" where
  "sample_fields = [(zeroScalar 3 5)\<lparr>psFixed32 := 0x42c80000\<rparr>, (zeroScalar 268 0)\<lparr>psVarint := 300\<rparr>]"

theorem proto_roundtrip_witness:
  "parseProtoScalars (concat (map enc_scalar sample_fields)) = Some (Inr sample_fields)"
proof (rule proto_roundtrip)
  show "list_all scalar_ok sample_fields" by (simp add: sample_fields_def scalar_ok_def zeroScalar_def)
  have short: "length (enc_varint v) \<le> 10" for v
    using readProtoVarint_bounds [of "enc_varint v" v "length (enc_varint v)"] readProtoVarint_enc [of v "[]"] by simp
  show "length (concat (map enc_scalar sample_fields)) < 2 ^ 64"
    using short [of "enc_key (sample_fields ! 0)"] short [of "enc_key (sample_fields ! 1)"] short [of 300]
    by (simp add: sample_fields_def enc_scalar_def zeroScalar_def)
qed

section \<open>Keys\<close>

text \<open>Multiplying a point of the curve by a scalar gives a point of the curve, or the pair of zeros that stands for the
  point at infinity, for every curve with a prime modulus.\<close>

theorem scalarMult_on_curve:
  assumes "prime_modulus (curve_p c)" "isOnCurve c bx by'" "scalarMult c bx by' k = (x, y)"
  shows "(x, y) = (0, 0) \<or> isOnCurve c x y"
  using assms by (rule scalarMult_cases)

definition small_curve :: secp160r1Curve where
  "small_curve = \<lparr>curve_p = 7, curve_n = 11, curve_b = 1, curve_gx = 0, curve_gy = 1\<rparr>"

lemma small_prime: "prime_modulus 7"
proof -
  have "coprime a 7" if "0 < a" "a < 7" for a :: int
  proof -
    have "a \<in> {1, 2, 3, 4, 5, 6}" using that by auto
    moreover have "list_all (\<lambda>a::int. gcd a 7 = 1) [1, 2, 3, 4, 5, 6]" by code_simp
    ultimately show ?thesis by (auto simp: coprime_iff_gcd_eq_1)
  qed
  then show ?thesis by (simp add: prime_modulus_def)
qed

theorem scalarMult_on_curve_witness: "\<exists>x y. scalarMult small_curve 0 1 [2] = (x, y) \<and> isOnCurve small_curve x y"
proof -
  obtain x y where xy: "scalarMult small_curve 0 1 [2] = (x, y)" by fastforce
  have "isOnCurve small_curve 0 1" by (simp add: isOnCurve_def small_curve_def)
  moreover have "scalarMult small_curve 0 1 [2] = (4, 5)" by code_simp
  ultimately show ?thesis using scalarMult_on_curve [of small_curve 0 1 "[2]" x y] xy small_prime by (auto simp: small_curve_def)
qed

lemma keygen_coordinates:
  assumes "scalarMult newSECP160R1Curve (curve_gx newSECP160R1Curve) (curve_gy newSECP160R1Curve) k = (x, y)"
  obtains xb yb where "leftPadBytes (nat x) 20 = Some xb" "leftPadBytes (nat y) 20 = Some yb" "length xb = 20" "length yb = 20"
proof -
  let ?c = newSECP160R1Curve
  have "leftPadBytes (nat x) 20 \<noteq> None" "leftPadBytes (nat y) 20 \<noteq> None"
    using coordinate_fits [of "curve_gx ?c" "curve_gy ?c" k] assms by (simp_all add: in_range_def newSECP160R1Curve_def)
  then obtain xb yb where "leftPadBytes (nat x) 20 = Some xb" "leftPadBytes (nat y) 20 = Some yb" by blast
  then show thesis using that leftPadBytes_length by blast
qed

lemma twenty_bytes: "(256::nat) ^ 20 = 2 ^ 160"
  by simp

lemma key_generation_works:
  assumes "r + 1 < 2 ^ 160"
  shows "\<exists>priv pub. generateSECP160R1Key r = Some (priv, pub) \<and> length priv = 20 \<and> SetBytes priv = r + 1 \<and> length pub = 40"
proof -
  let ?c = newSECP160R1Curve
  obtain x y where xy: "scalarMult ?c (curve_gx ?c) (curve_gy ?c) (Bytes (Suc r)) = (x, y)" by fastforce
  obtain xb yb where b: "leftPadBytes (nat x) 20 = Some xb" "leftPadBytes (nat y) 20 = Some yb" "length xb = 20" "length yb = 20"
    using keygen_coordinates [OF xy] .
  have "leftPadBytes (r + 1) 20 \<noteq> None" using assms unfolding leftPadBytes_Some twenty_bytes .
  then obtain pb where pb: "leftPadBytes (Suc r) 20 = Some pb" by auto
  have "length pb = 20" "SetBytes pb = Suc r" using leftPadBytes_length leftPadBytes_value pb by blast+
  with pb b xy show ?thesis by (simp add: generateSECP160R1Key_def Let_def)
qed

text \<open>Key generation works exactly for the private numbers below two to the 160, where it returns the number itself and a
  public key of forty bytes. The order of the group is larger than that, so some numbers it may draw make it panic: the
  private key is padded to twenty bytes, and those numbers need twenty-one.\<close>

theorem key_generation:
  "(r + 1 < 2 ^ 160 \<longrightarrow> (\<exists>priv pub. generateSECP160R1Key r = Some (priv, pub) \<and> length priv = 20 \<and> SetBytes priv = r + 1 \<and> length pub = 40)) \<and>
   (2 ^ 160 \<le> r + 1 \<longrightarrow> generateSECP160R1Key r = None) \<and> 2 ^ 160 < curve_n newSECP160R1Curve - 1"
proof (intro conjI impI)
  let ?c = newSECP160R1Curve
  show "\<exists>priv pub. generateSECP160R1Key r = Some (priv, pub) \<and> length priv = 20 \<and> SetBytes priv = r + 1 \<and> length pub = 40"
    if "r + 1 < 2 ^ 160" using that by (rule key_generation_works)
  show "2 ^ 160 < curve_n newSECP160R1Curve - 1" by (simp add: newSECP160R1Curve_def)
  assume "2 ^ 160 \<le> r + 1"
  then have "leftPadBytes (r + 1) 20 = None" using leftPadBytes_Some [of "r + 1" 20] unfolding twenty_bytes by auto
  moreover obtain x y where xy: "scalarMult ?c (curve_gx ?c) (curve_gy ?c) (Bytes (Suc r)) = (x, y)" by fastforce
  ultimately show "generateSECP160R1Key r = None" using keygen_coordinates [OF xy] by (auto simp: generateSECP160R1Key_def Let_def)
qed

theorem key_generation_witness: "generateSECP160R1Key (2 ^ 160) = None \<and> int (2 ^ 160) < curve_n newSECP160R1Curve - 1"
  using key_generation [of "2 ^ 160"] by simp

section \<open>Sessions\<close>

text \<open>A cipher and a digest that obey the laws, and the session of a probe of one transport.\<close>

definition id_cipher :: block_cipher where
  "id_cipher = (\<lambda>_ b. b, \<lambda>_ b. b)"

definition quiet_env :: ble_env where
  "quiet_env = \<lparr>envAES = id_cipher, envMD5 = (\<lambda>_. replicate 16 0), envFmtFloat = (\<lambda>_. [])\<rparr>"

definition demo_characteristics :: "(string \<times> string \<times> writer) list" where
  "demo_characteristics =
     [(''00000001-0000-1000-8000-00805f9b34fb'', ''00000002-0000-1000-8000-00805f9b34fb'', \<lambda>_. None),
      (''00000001-0000-1000-8000-00805f9b34fb'', ''00000003-0000-1000-8000-00805f9b34fb'', \<lambda>_. None)]"

definition demo_transport :: activeProbeTransport where
  "demo_transport = (newTransport ''rfcomm'')\<lparr>tpWriteServiceUUID := ''00000001-0000-1000-8000-00805f9b34fb'',
     tpWriteCharacteristicUUID := ''00000002-0000-1000-8000-00805f9b34fb'', tpWriteRole := ''ecoflow_rfcomm_write'',
     tpWrite := Some (\<lambda>_. None), tpHasWrite := True, tpHasNotify := True\<rparr>"

definition demo_options :: probeOptions where
  "demo_options = \<lparr>poRawNotifications = False, poActiveProbe = ''ecdh'', poAuthUserID = ''7'', poAuthDeviceSerial = ''D3''\<rparr>"

definition demo_record :: ecoFlowScanRecord where
  "demo_record = \<lparr>srKnown = False, srProtoVersion = 0, srEncryptType = 0, srSerial = [], srActive = False, srSupportVerified = False,
     srVerified = False, srSupport5G = False\<rparr>"

definition demo_raw :: "byte list \<Rightarrow> rawBLENotification" where
  "demo_raw data = \<lparr>rawServiceUUID = [], rawCharacteristicUUID = [], rawRole = ''ecoflow_rfcomm_notify'', rawData = data\<rparr>"

lemma quiet_laws: "aes_laws (envAES quiet_env)" "md5_law (envMD5 quiet_env)"
  by (simp_all add: quiet_env_def aes_laws_def id_cipher_def md5_law_def)

lemma demo_role: "transportNameFromRole (rawRole (demo_raw data)) = ''rfcomm''" "rawData (demo_raw data) = data"
  by (simp_all add: demo_raw_def transportNameFromRole_def)

lemma demo_select: "Select ''auto'' (observeAll demo_characteristics) = [demo_transport]"
proof -
  have roles: "inferEcoFlowCharacteristicRole ''00000001-0000-1000-8000-00805f9b34fb'' ''00000002-0000-1000-8000-00805f9b34fb'' = ''ecoflow_rfcomm_write''"
    "inferEcoFlowCharacteristicRole ''00000001-0000-1000-8000-00805f9b34fb'' ''00000003-0000-1000-8000-00805f9b34fb'' = ''ecoflow_rfcomm_notify''"
    "transportNameFromRole ''ecoflow_rfcomm_write'' = ''rfcomm''" "transportNameFromRole ''ecoflow_rfcomm_notify'' = ''rfcomm''"
    "HasSuffix ''ecoflow_rfcomm_write'' ''_write''" "\<not> HasSuffix ''ecoflow_rfcomm_write'' ''_notify''"
    "\<not> HasSuffix ''ecoflow_rfcomm_notify'' ''_write''" "HasSuffix ''ecoflow_rfcomm_notify'' ''_notify''"
    by code_simp+
  show ?thesis
    by (simp add: observeAll_def demo_characteristics_def roles Observe_def observeTransport_def newActiveProbeTransports_def Select_def
        complete_def demo_transport_def newTransport_def Let_def)
qed

lemma demo_session:
  obtains s ex ns where "ble_start s" "seExchanges s = [(''rfcomm'', ex)]" "exchange_ok ex" "exStage ex = ''ecdh_public_key_request''"
    "seLoginKey s = replicate 16 0"
    "sendActiveProbeRequests quiet_env (Inr 5) (replicate 16 0) [demo_transport] demo_options demo_record = Some (ns, Some s)"
proof -
  obtain priv pub where k: "generateSECP160R1Key 5 = Some (priv, pub)" "length priv = 20" using key_generation_works [of 5] by auto
  then have "priv \<noteq> []" by auto
  let ?req = "wrapEcoFlowSimpleEncPacket ([0x01, 0x00] @ pub)"
  obtain d where d: "decodeEcoFlowNotification (envFmtFloat quiet_env) ?req = Some d"
    using decodeEcoFlowNotification_safe by blast
  define ex where "ex = \<lparr>exTransport = demo_transport, exPrivateScalar = priv, exStage = ''ecdh_public_key_request'', exInitialKey = [],
    exSessionKey = [], exIV = []\<rparr>"
  obtain ns s where s: "sendActiveProbeRequests quiet_env (Inr 5) (replicate 16 0) [demo_transport] demo_options demo_record = Some (ns, Some s)"
    "seExchanges s = [(''rfcomm'', ex)]" "seLoginKey s = replicate 16 0"
    using k(1) d \<open>priv \<noteq> []\<close>
    by (simp add: sendActiveProbeRequests_def buildActiveProbeRequest_def buildECDHProbeRequest_def demo_options_def writeTo_def demo_transport_def
        newTransport_def trackECDHExchange_def gm_put_def ex_def Let_def)
  have "exchange_ok ex" using \<open>priv \<noteq> []\<close> by (simp add: exchange_ok_def ex_def demo_transport_def)
  then show thesis using that [of s ex ns] s ble_start.intros [OF s(1)] by (simp add: ex_def)
qed

text \<open>A device whose key pair is the generator itself.\<close>

lemma demo_device:
  assumes "exchange_ok ex"
  obtains xb yb shared c where "leftPadBytes (nat (curve_gx newSECP160R1Curve)) 20 = Some xb" "leftPadBytes (nat (curve_gy newSECP160R1Curve)) 20 = Some yb"
    "leftPadBytes (nat (fst (scalarMult newSECP160R1Curve (curve_gx newSECP160R1Curve) (curve_gy newSECP160R1Curve) (exPrivateScalar ex)))) 20 = Some shared"
    "encryptEcoFlowType7 (envAES quiet_env) (replicate 16 0 @ [0, 1]) (take 16 shared) (envMD5 quiet_env shared) = Inr c"
proof -
  let ?c = newSECP160R1Curve
  have "leftPadBytes (nat (curve_gx ?c)) 20 \<noteq> None" "leftPadBytes (nat (curve_gy ?c)) 20 \<noteq> None"
    unfolding leftPadBytes_Some by (simp_all add: newSECP160R1Curve_def)
  moreover have "leftPadBytes (nat (fst (scalarMult ?c (curve_gx ?c) (curve_gy ?c) (exPrivateScalar ex)))) 20 \<noteq> None"
    by (rule coordinate_fits) (simp_all add: in_range_def newSECP160R1Curve_def)
  ultimately obtain xb yb shared where b: "leftPadBytes (nat (curve_gx ?c)) 20 = Some xb" "leftPadBytes (nat (curve_gy ?c)) 20 = Some yb"
    "leftPadBytes (nat (fst (scalarMult ?c (curve_gx ?c) (curve_gy ?c) (exPrivateScalar ex)))) 20 = Some shared" by blast
  have "length (take 16 shared) = 16" "length (envMD5 quiet_env shared) = 16"
    using leftPadBytes_length [OF b(3)] quiet_laws(2) by (simp_all add: md5_law_def)
  then obtain c where "encryptEcoFlowType7 (envAES quiet_env) (replicate 16 0 @ [0, 1]) (take 16 shared) (envMD5 quiet_env shared) = Inr c"
    using type7_roundtrip [OF quiet_laws(1)] by blast
  with b show thesis by (rule that)
qed

lemma generator_on_curve: "isOnCurve newSECP160R1Curve (curve_gx newSECP160R1Curve) (curve_gy newSECP160R1Curve)"
  by (simp add: isOnCurve_def newSECP160R1Curve_def)

text \<open>A device that follows the protocol completes the handshake: when it answers with any point of the curve, and then
  sends a random number and a seed under the keys derived from the shared secret, the exchange comes to the status
  request with the digest of the selected table row and the random number as its session key.\<close>

theorem handshake_completes:
  assumes "exchange_ok ex" "exStage ex = ''ecdh_public_key_request''" "aes_laws (envAES env)" "md5_law (envMD5 env)"
    and "gm_get (seExchanges s) t = Some ex" "transportNameFromRole (rawRole raw1) = t" "transportNameFromRole (rawRole raw2) = t"
    and "isOnCurve newSECP160R1Curve x y" "leftPadBytes (nat x) 20 = Some xb" "leftPadBytes (nat y) 20 = Some yb"
    and "leftPadBytes (nat (fst (scalarMult newSECP160R1Curve x y (exPrivateScalar ex)))) 20 = Some shared"
    and "rawData raw1 = wrapEcoFlowSimpleEncPacket ([0x01, 0x00, 0x00] @ xb @ yb)"
    and "encryptEcoFlowType7 (envAES env) (srand @ [p, q]) (take 16 shared) (envMD5 env shared) = Inr c" "length srand = 16"
    and "rawData raw2 = wrapEcoFlowSimpleEncPacket (0x02 # c)"
    and "pos = unat p * 0x10 + unat (q - 1) * 0x100" "pos + 16 \<le> length (seLoginKey s)"
  shows "\<exists>s1 ev1 s2 ev2. HandleNotificationEvent env raw1 options s = Some (s1, ev1) \<and>
    HandleNotificationEvent env raw2 options s1 = Some (s2, ev2) \<and>
    gm_get (seExchanges s2) t = Some (ex\<lparr>exInitialKey := take 16 shared, exIV := envMD5 env shared,
      exSessionKey := envMD5 env (take 16 (drop pos (seLoginKey s)) @ srand), exStage := ''auth_status_request''\<rparr>)"
  using assms by (rule handshake_run)

theorem handshake_completes_witness:
  "\<exists>s raw1 raw2 s1 ev1 s2 ev2 ex. ble_start s \<and> HandleNotificationEvent quiet_env raw1 demo_options s = Some (s1, ev1) \<and>
    HandleNotificationEvent quiet_env raw2 demo_options s1 = Some (s2, ev2) \<and> gm_get (seExchanges s2) ''rfcomm'' = Some ex \<and>
    exStage ex = ''auth_status_request''"
proof -
  obtain s ex where s: "ble_start s" "seExchanges s = [(''rfcomm'', ex)]" "exchange_ok ex" "exStage ex = ''ecdh_public_key_request''"
    "seLoginKey s = replicate 16 0" using demo_session .
  obtain xb yb shared c where d: "leftPadBytes (nat (curve_gx newSECP160R1Curve)) 20 = Some xb" "leftPadBytes (nat (curve_gy newSECP160R1Curve)) 20 = Some yb"
    "leftPadBytes (nat (fst (scalarMult newSECP160R1Curve (curve_gx newSECP160R1Curve) (curve_gy newSECP160R1Curve) (exPrivateScalar ex)))) 20 = Some shared"
    "encryptEcoFlowType7 (envAES quiet_env) (replicate 16 0 @ [0, 1]) (take 16 shared) (envMD5 quiet_env shared) = Inr c"
    using demo_device [OF s(3)] .
  have "gm_get (seExchanges s) ''rfcomm'' = Some ex" by (simp add: s(2) gm_get_def)
  from handshake_completes [OF s(3,4) quiet_laws this demo_role(1) demo_role(1) generator_on_curve d(1-3) demo_role(2) d(4) _ demo_role(2) refl] s(1,5)
  show ?thesis by fastforce
qed

text \<open>C22: In every session that a probe can come to, an exchange that waits for the status answer or reads the stream of
  packets has the keys it needs: encrypting any request with them succeeds and gives a frame that decrypts to that request.\<close>

theorem session_keys:
  assumes "reach ble_start ble_step s" "gm_get (seExchanges s) t = Some ex" "aes_laws aes" "length plaintext < 65500"
    and "exStage ex = ''auth_status_request'' \<or> exStage ex = ''type7_packet_stream''"
  shows "\<exists>packet. wrapEcoFlowEncryptedProtocolPacket aes plaintext (exSessionKey ex) (exIV ex) = Inr packet \<and>
    decryptEcoFlowEncPacketPayload aes packet (exSessionKey ex) (exIV ex) = Some (Inr plaintext)"
proof -
  have "exchange_ok ex" using ble_runs.reach_inv [OF assms(1)] assms(2) by (auto simp: session_inv_def dest: gm_allD)
  then have len: "length (exSessionKey ex) = 16" "length (exIV ex) = 16" using assms(5) by (auto simp: exchange_ok_def)
  obtain packet where p: "wrapEcoFlowEncryptedProtocolPacket aes plaintext (exSessionKey ex) (exIV ex) = Inr packet"
    using type7_roundtrip [OF assms(3) len, of plaintext] by (auto simp: wrapEcoFlowEncryptedProtocolPacket_def)
  from p encrypted_delivery(1) [OF assms(3) len assms(4) p] show ?thesis by blast
qed

theorem session_keys_witness:
  "\<exists>s ex packet. reach ble_start ble_step s \<and> gm_get (seExchanges s) ''rfcomm'' = Some ex \<and> exStage ex = ''auth_status_request'' \<and>
    wrapEcoFlowEncryptedProtocolPacket id_cipher [1, 2, 3] (exSessionKey ex) (exIV ex) = Inr packet \<and>
    decryptEcoFlowEncPacketPayload id_cipher packet (exSessionKey ex) (exIV ex) = Some (Inr [1, 2, 3])"
proof -
  obtain s ex where s: "ble_start s" "seExchanges s = [(''rfcomm'', ex)]" "exchange_ok ex" "exStage ex = ''ecdh_public_key_request''"
    "seLoginKey s = replicate 16 0" using demo_session .
  obtain xb yb shared c where d: "leftPadBytes (nat (curve_gx newSECP160R1Curve)) 20 = Some xb" "leftPadBytes (nat (curve_gy newSECP160R1Curve)) 20 = Some yb"
    "leftPadBytes (nat (fst (scalarMult newSECP160R1Curve (curve_gx newSECP160R1Curve) (curve_gy newSECP160R1Curve) (exPrivateScalar ex)))) 20 = Some shared"
    "encryptEcoFlowType7 (envAES quiet_env) (replicate 16 0 @ [0, 1]) (take 16 shared) (envMD5 quiet_env shared) = Inr c"
    using demo_device [OF s(3)] .
  have "gm_get (seExchanges s) ''rfcomm'' = Some ex" by (simp add: s(2) gm_get_def)
  from handshake_run [OF s(3,4) quiet_laws this demo_role(1) demo_role(1) generator_on_curve d(1-3) demo_role(2) d(4) _ demo_role(2) refl] s(5)
  obtain s1 ev1 s2 ev2 ex2 where h: "HandleNotificationEvent quiet_env (demo_raw (wrapEcoFlowSimpleEncPacket ([0x01, 0x00, 0x00] @ xb @ yb))) demo_options s = Some (s1, ev1)"
    "HandleNotificationEvent quiet_env (demo_raw (wrapEcoFlowSimpleEncPacket (0x02 # c))) demo_options s1 = Some (s2, ev2)"
    "gm_get (seExchanges s2) ''rfcomm'' = Some ex2" "exStage ex2 = ''auth_status_request''" by fastforce
  have "reach ble_start ble_step s" using s(1) by (rule reach_init)
  then have "reach ble_start ble_step s1" using ble_step.intros [OF quiet_laws(2) h(1)] by (rule reach_step)
  then have "reach ble_start ble_step s2" using ble_step.intros [OF quiet_laws(2) h(2)] by (rule reach_step)
  with session_keys [OF this h(3), of id_cipher "[1, 2, 3]"] h(3,4) quiet_laws(1) show ?thesis by (auto simp: quiet_env_def)
qed

text \<open>C15: The session of a probe does not panic and asks for authentication at most once on each transport it selected, and on no
  other. The characteristics may be discovered in any order, the device may answer with any bytes, writes may fail and the
  event sink may end the loop; the only numbers that key generation must not draw are those that do not fit into
  twenty bytes. A request is counted for the transport under whose write role it is reported.\<close>

theorem probe_session_safe:
  assumes md5: "md5_law (envMD5 env)" and r: "r + 1 < 2 ^ 160"
  shows "\<exists>ns session. sendActiveProbeRequests env (Inr r) loginKey (Select sel (observeAll cs)) options record = Some (ns, session) \<and>
    (\<exists>st err. listenLoop env sink options raws (listenStart ns session) = Some (st, err) \<and>
       (\<forall>t. authCountOn t (lsNotifications st) \<le> (if t \<in> tpName ` set (Select sel (observeAll cs)) then 1 else 0)))"
proof -
  let ?ts = "Select sel (observeAll cs)"
  have "generateSECP160R1Key r \<noteq> None" using key_generation_works [OF r] by auto
  then have "sendActiveProbeRequests env (Inr r) loginKey ?ts options record \<noteq> None"
    using Select_writable by (intro start_safe) auto
  then obtain ns session where start: "sendActiveProbeRequests env (Inr r) loginKey ?ts options record = Some (ns, session)" by auto
  have "\<forall>t \<in> set ?ts. transportNameFromRole (tpWriteRole t) = tpName t" using Select_named by blast
  note ok = start_named [OF start this]
  have ready: "sessionNamed (lsSession (listenStart ns session))" using ok(1) by (simp add: listenStart_def)
  obtain st err where run: "listenLoop env sink options raws (listenStart ns session) = Some (st, err)"
    using requests_on.listenLoop_good [OF ready md5] by blast
  have "authCountOn t (lsNotifications st) \<le> (if t \<in> tpName ` set ?ts then 1 else 0)" for t
    using requests_on.listenLoop_good [OF ready md5, where t = t and sink = sink and options = options and raws = raws] run ok(2,3) [of t] by (auto simp: listenStart_def split: if_splits)
  with start run show ?thesis by blast
qed

text \<open>The sample device completes the handshake and answers the status request.\<close>

lemma demo_status:
  obtains ns s raws st where
    "sendActiveProbeRequests quiet_env (Inr 5) (replicate 16 0) (Select ''auto'' (observeAll demo_characteristics)) demo_options demo_record = Some (ns, Some s)"
    "listenLoop quiet_env None demo_options raws (listenStart ns (Some s)) = Some (st, None)"
    "authCount (lsNotifications st) = Suc (authCount ns)"
proof -
  obtain s ex ns where s: "seExchanges s = [(''rfcomm'', ex)]" "exchange_ok ex" "exStage ex = ''ecdh_public_key_request''" "seLoginKey s = replicate 16 0"
    "sendActiveProbeRequests quiet_env (Inr 5) (replicate 16 0) [demo_transport] demo_options demo_record = Some (ns, Some s)"
    using demo_session .
  obtain xb yb shared c where d: "leftPadBytes (nat (curve_gx newSECP160R1Curve)) 20 = Some xb" "leftPadBytes (nat (curve_gy newSECP160R1Curve)) 20 = Some yb"
    "leftPadBytes (nat (fst (scalarMult newSECP160R1Curve (curve_gx newSECP160R1Curve) (curve_gy newSECP160R1Curve) (exPrivateScalar ex)))) 20 = Some shared"
    "encryptEcoFlowType7 (envAES quiet_env) (replicate 16 0 @ [0, 1]) (take 16 shared) (envMD5 quiet_env shared) = Inr c"
    using demo_device [OF s(2)] .
  let ?raw1 = "demo_raw (wrapEcoFlowSimpleEncPacket ([0x01, 0x00, 0x00] @ xb @ yb))" and ?raw2 = "demo_raw (wrapEcoFlowSimpleEncPacket (0x02 # c))"
  have "gm_get (seExchanges s) ''rfcomm'' = Some ex" by (simp add: s(1) gm_get_def)
  from handshake_run [OF s(2,3) quiet_laws this demo_role(1) demo_role(1) generator_on_curve d(1-3) demo_role(2) d(4) _ demo_role(2) refl] s(4)
  obtain s1 ev1 s2 ev2 ex2 where h: "HandleNotificationEvent quiet_env ?raw1 demo_options s = Some (s1, ev1)"
    "HandleNotificationEvent quiet_env ?raw2 demo_options s1 = Some (s2, ev2)"
    "gm_get (seExchanges s2) ''rfcomm'' = Some ex2" "exStage ex2 = ''auth_status_request''" by fastforce
  have i: "session_inv s" using s(1,2) by (simp add: session_inv_def gm_wf_def gm_all_def gm_get_def)
  note p1 = Handle_pending [OF i quiet_laws(2) h(1)]
  note p2 = Handle_pending [OF conjunct1 [OF p1] quiet_laws(2) h(2)]
  have ok: "exchange_ok ex2" using conjunct1 [OF p2] h(3) by (auto simp: session_inv_def dest: gm_allD)
  then have len: "length (exSessionKey ex2) = 16" "length (exIV ex2) = 16" using h(4) by (simp_all add: exchange_ok_def)
  obtain c2 where "encryptEcoFlowType7 (envAES quiet_env) (buildEcoFlowV3Packet 0x35 0x21 0x35 0x89 []) (exSessionKey ex2) (exIV ex2) = Inr c2"
    using type7_roundtrip [OF quiet_laws(1) len] by blast
  then obtain data where data: "wrapEcoFlowEncryptedProtocolPacket (envAES quiet_env) (buildEcoFlowV3Packet 0x35 0x21 0x35 0x89 [])
      (exSessionKey ex2) (exIV ex2) = Inr data" by (simp add: wrapEcoFlowEncryptedProtocolPacket_def)
  obtain s3 ev3 where h3: "HandleNotificationEvent quiet_env (demo_raw data) demo_options s2 = Some (s3, ev3)" "authCount (evNotifications ev3) = 1"
    using status_answer_handled [OF ok h(4) quiet_laws(1), of s2 "demo_raw data" "[]" "0x35" "0x21" "0x35" "0x89" demo_options] h(3) data by (auto simp: demo_role)
  have "pending s = 1" using s(1,3) by (simp add: pending_def)
  then have none: "authCount (evNotifications ev1) = 0" "authCount (evNotifications ev2) = 0"
    using p1 p2 Handle_pending [OF conjunct1 [OF p2] quiet_laws(2) h3(1)] h3(2) by auto
  obtain st1 where st1: "listenStep quiet_env None demo_options ?raw1 (listenStart ns (Some s)) = Some (st1, None)" "lsSession st1 = Some s1"
      "authCount (lsNotifications st1) = authCount ns"
    using listen_quiet [OF h(1), of "listenStart ns (Some s)"] none(1) by (auto simp: listenStart_def)
  obtain st2 where st2: "listenStep quiet_env None demo_options ?raw2 st1 = Some (st2, None)" "lsSession st2 = Some s2"
      "authCount (lsNotifications st2) = authCount ns"
    using listen_quiet [OF h(2) st1(2)] none(2) st1(3) by auto
  obtain st3 where st3: "listenStep quiet_env None demo_options (demo_raw data) st2 = Some (st3, None)" "authCount (lsNotifications st3) = Suc (authCount ns)"
    using listen_quiet [OF h3(1) st2(2)] h3(2) st2(3) by auto
  have "listenLoop quiet_env None demo_options [?raw1, ?raw2, demo_raw data] (listenStart ns (Some s)) = Some (st3, None)"
    using st1(1) st2(1) st3(1) by simp
  from that [OF s(5) [folded demo_select] this st3(2)] show thesis .
qed

theorem probe_session_safe_witness:
  "\<exists>ns s raws st. sendActiveProbeRequests quiet_env (Inr 5) (replicate 16 0) (Select ''auto'' (observeAll demo_characteristics)) demo_options demo_record = Some (ns, Some s) \<and>
     listenLoop quiet_env None demo_options raws (listenStart ns (Some s)) = Some (st, None) \<and>
     authCount (lsNotifications st) = Suc (authCount ns) \<and> authCountOn ''rfcomm'' (lsNotifications st) \<le> 1 \<and> authCountOn ''alt'' (lsNotifications st) = 0"
proof (rule demo_status)
  fix ns s raws st
  assume run: "sendActiveProbeRequests quiet_env (Inr 5) (replicate 16 0) (Select ''auto'' (observeAll demo_characteristics)) demo_options demo_record = Some (ns, Some s)"
    "listenLoop quiet_env None demo_options raws (listenStart ns (Some s)) = Some (st, None)" "authCount (lsNotifications st) = Suc (authCount ns)"
  have "tpName demo_transport = ''rfcomm''" by (simp add: demo_transport_def newTransport_def)
  then have "authCountOn t (lsNotifications st) \<le> (if t = ''rfcomm'' then 1 else 0)" for t
    using probe_session_safe [OF quiet_laws(2), of 5 "replicate 16 0" "''auto''" demo_characteristics demo_options demo_record None raws] run(1,2)
    by (auto simp: demo_select)
  from this [of "''rfcomm''"] this [of "''alt''"] run show ?thesis by auto
qed

text \<open>The first packet that a device sends after the status request decides whether the probe ever authenticates. The
  status answer is followed by exactly one authentication request; any other packet moves the exchange on to the stream
  of packets just the same, and from there no authentication request is sent, whatever arrives later, even the status
  answer itself.\<close>

theorem status_answer_decides:
  assumes "exchange_ok ex" "exStage ex = ''auth_status_request''" "aes_laws (envAES env)" "md5_law (envMD5 env)"
    and "seExchanges s = [(transportNameFromRole (rawRole raw), ex)]" and "length payload < 65000"
    and "wrapEcoFlowEncryptedProtocolPacket (envAES env) (buildEcoFlowV3Packet src dst cmdSet cmdID payload)
      (exSessionKey ex) (exIV ex) = Inr (rawData raw)"
  shows "\<exists>s' ev. HandleNotificationEvent env raw options s = Some (s', ev) \<and>
    authCount (evNotifications ev) = (if (src, dst, cmdSet, cmdID) = (0x35, 0x21, 0x35, 0x89) then 1 else 0) \<and>
    (\<exists>st err. listenLoop env sink options raws (listenStart ns (Some s')) = Some (st, err) \<and>
       authCount (lsNotifications st) \<le> authCount ns)"
proof -
  let ?t = "transportNameFromRole (rawRole raw)" and ?ex = "ex\<lparr>exStage := ''type7_packet_stream''\<rparr>"
  let ?s = "s\<lparr>seExchanges := [(?t, ?ex)]\<rparr>"
  have ex: "gm_get (seExchanges s) ?t = Some ex" "gm_put ?t ?ex (seExchanges s) = [(?t, ?ex)]"
    by (simp_all add: assms(5) gm_get_def gm_put_def)
  obtain ev where h: "HandleNotificationEvent env raw options s = Some (?s, ev)"
    and ev: "authCount (evNotifications ev) = (if (src, dst, cmdSet, cmdID) = (0x35, 0x21, 0x35, 0x89) then 1 else 0)"
    using status_answer_handled [OF assms(1-3) ex(1) assms(6,7)] by (auto simp: ex(2))
  have "exchange_ok ?ex" using assms(1,2) by (auto simp: exchange_ok_def)
  then have "sessionOK (Some ?s)" "pending ?s = 0"
    by (simp_all add: sessionOK_def session_inv_def gm_wf_def gm_all_def gm_get_def pending_def)
  then obtain st err where "listenLoop env sink options raws (listenStart ns (Some ?s)) = Some (st, err)"
    "authCount (lsNotifications st) \<le> authCount ns"
    using all_requests.listenLoop_good [of "listenStart ns (Some ?s)" env sink options raws] assms(4)
    by (auto simp: listenStart_def pendingIn_def)
  with h ev show ?thesis by blast
qed

theorem status_answer_decides_witness:
  "\<exists>ex s raw s' ev st err. exStage ex = ''auth_status_request'' \<and> seExchanges s = [(''rfcomm'', ex)] \<and>
    HandleNotificationEvent quiet_env raw demo_options s = Some (s', ev) \<and> authCount (evNotifications ev) = 0 \<and>
    listenLoop quiet_env None demo_options [raw, raw] (listenStart [] (Some s')) = Some (st, err) \<and> authCount (lsNotifications st) = 0"
proof -
  define ex where "ex = \<lparr>exTransport = demo_transport, exPrivateScalar = [1], exStage = ''auth_status_request'', exInitialKey = replicate 16 0,
    exSessionKey = replicate 16 0, exIV = replicate 16 0 :: byte list\<rparr>"
  define s where "s = \<lparr>seExchanges = [(''rfcomm'', ex)], seLoginKey = [], seAuthUserID = ''7'', seAuthDeviceSerial = ''D3''\<rparr>"
  have ok: "exchange_ok ex" by (simp add: exchange_ok_def ex_def demo_transport_def)
  have st: "exStage ex = ''auth_status_request''" by (simp add: ex_def)
  obtain c where "encryptEcoFlowType7 (envAES quiet_env) (buildEcoFlowV3Packet 0x02 0x21 0xfe 0x15 []) (exSessionKey ex) (exIV ex) = Inr c"
    using type7_roundtrip [OF quiet_laws(1), of "exSessionKey ex" "exIV ex"] by (fastforce simp: ex_def)
  then obtain data where data: "wrapEcoFlowEncryptedProtocolPacket (envAES quiet_env) (buildEcoFlowV3Packet 0x02 0x21 0xfe 0x15 [])
      (exSessionKey ex) (exIV ex) = Inr data" by (simp add: wrapEcoFlowEncryptedProtocolPacket_def)
  have "seExchanges s = [(transportNameFromRole (rawRole (demo_raw data)), ex)]" by (simp add: s_def demo_role)
  from status_answer_decides [OF ok st quiet_laws this, of "[]" "0x02" "0x21" "0xfe" "0x15" demo_options None "[demo_raw data, demo_raw data]" "[]"] data
  obtain s' ev t err where "HandleNotificationEvent quiet_env (demo_raw data) demo_options s = Some (s', ev)" "authCount (evNotifications ev) = 0"
    "listenLoop quiet_env None demo_options [demo_raw data, demo_raw data] (listenStart [] (Some s')) = Some (t, err)" "authCount (lsNotifications t) = 0"
    by (auto simp: demo_role)
  moreover have "seExchanges s = [(''rfcomm'', ex)]" by (simp add: s_def)
  ultimately show ?thesis using st by blast
qed

end
