(* ===== verification/Go_Time.thy ===== *)
theory Go_Time
  imports Go_Prelude
begin

text \<open>
  Integers, durations and times of Go. A duration is a number of nanoseconds; an instant is the
  number of nanoseconds since the start of 1970, in UTC. The calendar is the proleptic Gregorian one
  of package \<open>time\<close>, computed by the same steps: cycles of 400, 100, 4 years and one year.
\<close>

section \<open>Numbers and durations\<close>

text \<open>The wrap-around of signed 64-bit integers.\<close>

definition wrap64 :: "int \<Rightarrow> int" where
  "wrap64 x = (x + 2 ^ 63) mod 2 ^ 64 - 2 ^ 63"

text \<open>\<open>Duration.Milliseconds\<close> divides towards zero, \<open>Time.UnixMilli\<close> rounds down.\<close>

definition Milliseconds :: "int \<Rightarrow> int" where
  "Milliseconds d = (if d < 0 then - ((- d) div 1000000) else d div 1000000)"

definition UnixMilli :: "int \<Rightarrow> int" where
  "UnixMilli t = t div 1000000"

definition second :: int where "second = 1000000000"

definition minute :: int where "minute = 60 * second"

text \<open>\<open>Time.Sub\<close> saturates at the ends of the 64-bit range.\<close>

definition timeSub :: "int \<Rightarrow> int \<Rightarrow> int" where
  "timeSub t u = max (- (2 ^ 63)) (min (2 ^ 63 - 1) (t - u))"

text \<open>\<open>Time.Truncate(time.Hour)\<close>: hours are counted from a time that is a whole number of hours before 1970.\<close>

definition hour :: int where "hour = 60 * minute"

definition TruncateHour :: "int \<Rightarrow> int" where
  "TruncateHour t = t div hour * hour"

lemma hour_pos: "0 < hour"
  by (simp add: hour_def minute_def second_def)

lemma TruncateHour_idem [simp]: "TruncateHour (TruncateHour t) = TruncateHour t"
  using hour_pos by (simp add: TruncateHour_def)

section \<open>Decimal numbers of a fixed width\<close>

text \<open>The verb \<open>%0wd\<close> for a number that is not negative.\<close>

definition dec_padded :: "nat \<Rightarrow> nat \<Rightarrow> string" where
  "dec_padded w n = replicate (w - length (show_base 10 n)) CHR ''0'' @ show_base 10 n"

text \<open>The same verb for any number: the sign counts for the width.\<close>

definition dec_signed :: "nat \<Rightarrow> int \<Rightarrow> string" where
  "dec_signed w n = (if n < 0 then CHR ''-'' # dec_padded (w - 1) (nat (- n)) else dec_padded w (nat n))"

definition is_digit :: "char \<Rightarrow> bool" where
  "is_digit c \<longleftrightarrow> CHR ''0'' \<le> c \<and> c \<le> CHR ''9''"

lemma dec_padded_inj: "dec_padded w m = dec_padded w n \<longleftrightarrow> m = n"
proof
  assume "dec_padded w m = dec_padded w n"
  then have "read_base 10 (dec_padded w m) = read_base 10 (dec_padded w n)" by simp
  then show "m = n" by (simp add: dec_padded_def read_base_zeros read_show_base)
qed simp

lemma digit_char_is_digit: "d < 10 \<Longrightarrow> is_digit (digit_char d)"
  by (simp add: is_digit_def digit_char_def less_eq_char_def)

lemma show_base_digits: "\<forall>c \<in> set (show_base 10 n). is_digit c"
proof (induction n rule: less_induct)
  case (less n)
  show ?case
  proof (cases "n < 10")
    case True
    then show ?thesis by (simp add: show_base.simps [of 10 n] digit_char_is_digit)
  next
    case False
    with less [of "n div 10"] show ?thesis by (auto simp: show_base.simps [of 10 n] digit_char_is_digit)
  qed
qed

lemma dec_padded_digits: "\<forall>c \<in> set (dec_padded w n). is_digit c"
  using show_base_digits [of n] by (auto simp: dec_padded_def is_digit_def less_eq_char_def)

lemma dec_signed_chars: "c \<in> set (dec_signed w n) \<Longrightarrow> is_digit c \<or> c = CHR ''-'' \<and> n < 0"
  using dec_padded_digits by (auto simp: dec_signed_def split: if_splits)

lemma dec_signed_inj: "dec_signed w m = dec_signed w n \<longleftrightarrow> m = n"
proof -
  have "hd (dec_padded v k) \<noteq> CHR ''-''" if "dec_padded v k \<noteq> []" for v k
    using dec_padded_digits [of v k] that by (auto simp: is_digit_def less_eq_char_def dest!: hd_in_set)
  then show ?thesis by (auto simp: dec_signed_def dec_padded_inj dest: arg_cong [of _ _ hd]) (metis list.discI list.sel(1))+
qed

text \<open>A text is delimited by the first character that does not occur in it.\<close>

lemma delimited:
  assumes "s @ c # xs = t @ c # ys" "c \<notin> set s" "c \<notin> set t"
  shows "s = t \<and> xs = ys"
proof -
  have "takeWhile (\<lambda>d. d \<noteq> c) (u @ c # v) = u" if "c \<notin> set u" for u v
    using that by (induction u) auto
  from this [OF assms(2)] this [OF assms(3)] have "takeWhile (\<lambda>d. d \<noteq> c) (s @ c # xs) = s" "takeWhile (\<lambda>d. d \<noteq> c) (t @ c # ys) = t"
    by blast+
  with assms(1) show ?thesis by simp
qed

lemma dec_signed_delimited:
  assumes "dec_signed w m @ c # xs = dec_signed w n @ c # ys" "\<not> is_digit c" "c \<noteq> CHR ''-'' \<or> 0 \<le> m \<and> 0 \<le> n"
  shows "m = n \<and> xs = ys"
proof -
  have "c \<notin> set (dec_signed w m)" "c \<notin> set (dec_signed w n)" using assms(2,3) dec_signed_chars [of c w] by fastforce+
  from delimited [OF assms(1) this] show ?thesis by (simp add: dec_signed_inj)
qed

section \<open>The calendar\<close>

text \<open>Year and day of the year, from zero, of a day counted from the first of January 1970.\<close>

definition yearAndDay :: "int \<Rightarrow> int \<times> int" where
  "yearAndDay day =
     (let d0 = day + 719162;
          n400 = d0 div 146097; d1 = d0 - 146097 * n400;
          n100 = min 3 (d1 div 36524); d2 = d1 - 36524 * n100;
          n4 = d2 div 1461; d3 = d2 - 1461 * n4;
          n1 = min 3 (d3 div 365)
      in (400 * n400 + 100 * n100 + 4 * n4 + n1 + 1, d3 - 365 * n1))"

definition isLeap :: "int \<Rightarrow> bool" where
  "isLeap year \<longleftrightarrow> year mod 4 = 0 \<and> (year mod 100 \<noteq> 0 \<or> year mod 400 = 0)"

text \<open>The days of the year before each month.\<close>

definition daysBefore :: "bool \<Rightarrow> int list" where
  "daysBefore leap =
     (if leap then [0, 31, 60, 91, 121, 152, 182, 213, 244, 274, 305, 335]
      else [0, 31, 59, 90, 120, 151, 181, 212, 243, 273, 304, 334])"

definition monthIndex :: "bool \<Rightarrow> int \<Rightarrow> nat" where
  "monthIndex leap yday = length (takeWhile (\<lambda>b. b \<le> yday) (daysBefore leap)) - 1"

text \<open>Year, month and day of the month of an instant, and its hour.\<close>

definition Date :: "int \<Rightarrow> int \<times> int \<times> int" where
  "Date t =
     (let (year, yday) = yearAndDay (t div (24 * hour));
          m = monthIndex (isLeap year) yday
      in (year, int m + 1, yday - daysBefore (isLeap year) ! m + 1))"

definition Hour :: "int \<Rightarrow> int" where
  "Hour t = t mod (24 * hour) div hour"

text \<open>The day a date names.\<close>

definition dayOf :: "int \<times> int \<times> int \<Rightarrow> int" where
  "dayOf date =
     (let (year, month, d) = date; y = year - 1
      in 365 * y + y div 4 - y div 100 + y div 400 + daysBefore (isLeap year) ! nat (month - 1) + d - 1 - 719162)"

lemma cycle_rest:
  fixes x k :: int
  assumes "0 < k"
  shows "0 \<le> x - k * (x div k)" "x - k * (x div k) < k"
  using assms by (simp_all add: minus_mult_div_eq_mod)

text \<open>The last of four cycles may be longer.\<close>

lemma cycle_min:
  fixes x k :: int
  assumes "0 < k" "0 \<le> x"
  shows "0 \<le> min 3 (x div k)" "min 3 (x div k) \<le> 3" "0 \<le> x - k * min 3 (x div k)"
    "x - k * min 3 (x div k) < k \<or> x - k * min 3 (x div k) = x - 3 * k"
proof -
  note rest = cycle_rest [OF assms(1), of x]
  show "0 \<le> min 3 (x div k)" "min 3 (x div k) \<le> 3" using assms by (simp_all add: pos_imp_zdiv_nonneg_iff)
  have "k * min 3 (x div k) \<le> k * (x div k)" using assms(1) by (intro mult_left_mono) simp_all
  then show "0 \<le> x - k * min 3 (x div k)" using rest(1) by linarith
  show "x - k * min 3 (x div k) < k \<or> x - k * min 3 (x div k) = x - 3 * k"
    using rest by (cases "x div k \<le> 3") simp_all
qed

lemma yearAndDay_days:
  assumes "yearAndDay day = (year, yday)"
  shows "day = 365 * (year - 1) + (year - 1) div 4 - (year - 1) div 100 + (year - 1) div 400 + yday - 719162"
proof -
  define d0 where "d0 = day + 719162"
  define a where "a = d0 div 146097"
  define d1 where "d1 = d0 - 146097 * a"
  define b where "b = min 3 (d1 div 36524)"
  define d2 where "d2 = d1 - 36524 * b"
  define c where "c = d2 div 1461"
  define d3 where "d3 = d2 - 1461 * c"
  define e where "e = min 3 (d3 div 365)"
  have y: "year - 1 = 400 * a + (100 * b + (4 * c + e))" and yd: "yday = d3 - 365 * e"
    using assms [unfolded yearAndDay_def Let_def, folded d0_def, folded a_def, folded d1_def, folded b_def,
        folded d2_def, folded c_def, folded d3_def, folded e_def] by simp_all
  have d1: "0 \<le> d1" "d1 < 146097" using cycle_rest [of 146097 d0] by (simp_all add: d1_def a_def)
  have b: "0 \<le> b" "b \<le> 3" and d2: "0 \<le> d2" "d2 \<le> 36524"
    using cycle_min [of 36524 d1] d1 unfolding b_def d2_def by auto
  have d3: "0 \<le> d3" "d3 < 1461" using cycle_rest [of 1461 d2] by (simp_all add: d3_def c_def)
  have c: "0 \<le> c" "c \<le> 24" using d2 d3 by (simp_all add: d3_def c_def)
  have e: "0 \<le> e" "e \<le> 3" using cycle_min [of 365 d3] d3 unfolding e_def by auto
  have "(year - 1) div 400 = a" by (rule int_div_pos_eq [of _ _ _ "100 * b + (4 * c + e)"]) (use y b c e in simp_all)
  moreover have "(year - 1) div 100 = 4 * a + b" by (rule int_div_pos_eq [of _ _ _ "4 * c + e"]) (use y b c e in simp_all)
  moreover have "(year - 1) div 4 = 100 * a + 25 * b + c" by (rule int_div_pos_eq [of _ _ _ e]) (use y b c e in simp_all)
  ultimately show ?thesis unfolding y yd d3_def d2_def d1_def d0_def by simp
qed

lemma dayOf_Date: "dayOf (Date t) = t div (24 * hour)"
proof -
  obtain year yday where yd: "yearAndDay (t div (24 * hour)) = (year, yday)" by fastforce
  have "dayOf (Date t) = 365 * (year - 1) + (year - 1) div 4 - (year - 1) div 100 + (year - 1) div 400 + yday - 719162"
    by (simp add: Date_def dayOf_def yd Let_def)
  then show ?thesis using yearAndDay_days [OF yd] by (rule trans [OF _ sym])
qed

text \<open>An hour is named by its date and its hour of the day.\<close>

lemma Date_Hour_inj:
  assumes "Date (TruncateHour s) = Date (TruncateHour t)" "Hour (TruncateHour s) = Hour (TruncateHour t)"
  shows "TruncateHour s = TruncateHour t"
proof -
  define i j where "i = s div hour" and "j = t div hour"
  have nz: "hour \<noteq> 0" using hour_pos by simp
  have day: "(k * hour) div (24 * hour) = k div 24" and hr: "(k * hour) mod (24 * hour) div hour = k mod 24" for k
    using nz by (simp_all add: mult_mod_left div_mult_mult2 mult.commute [of 24])
  from arg_cong [OF assms(1), of dayOf] have "i div 24 = j div 24"
    unfolding dayOf_Date TruncateHour_def i_def j_def day .
  moreover from assms(2) have "i mod 24 = j mod 24" unfolding Hour_def TruncateHour_def i_def j_def hr .
  ultimately have "i = j" by (metis mult_div_mod_eq)
  then show ?thesis by (simp add: TruncateHour_def i_def j_def)
qed

end
