(* ===== verification/Gap_Model.thy ===== *)
theory Gap_Model
  imports Cp_Devices Go_Time "HOL-Library.Multiset"
begin

text \<open>
  The repair of gaps in projected telemetry (\<open>internal/gaprepair\<close>): the detector compares what the
  archive covers with how far the projection of each assigned device has come and publishes repair
  requests; the publisher validates them and puts them on the bus; the worker takes a request from
  the bus and replays the archive. Timestamps are 64-bit milliseconds, written as integers with the
  wrap-around of every addition and subtraction; durations are nanoseconds; an instant is the number
  of nanoseconds since 1970. The database, the snapshot reader, the bus, the replay and the
  protobuf encoding are arguments of the definitions that call them.
\<close>

unbundle bit_operations_syntax

section \<open>Subjects and shards\<close>

record SubjectConfig =
  scPrefix :: string
  scShardCount :: "32 word"

definition DefaultShardCount :: "32 word" where "DefaultShardCount = 128"

definition Normalized :: "SubjectConfig \<Rightarrow> SubjectConfig" where
  "Normalized c =
     c\<lparr>scPrefix := (if scPrefix c = [] then ''pulse'' else scPrefix c),
       scShardCount := (if scShardCount c = 0 then DefaultShardCount else scShardCount c)\<rparr>"

text \<open>The hashes of \<open>hash/fnv\<close>, variant 1a.\<close>

definition fnv32a :: "string \<Rightarrow> 32 word" where
  "fnv32a s = foldl (\<lambda>h c. (h XOR word_of_nat (of_char c)) * 16777619) 2166136261 s"

definition fnv64a :: "string \<Rightarrow> 64 word" where
  "fnv64a s = foldl (\<lambda>h c. (h XOR word_of_nat (of_char c)) * 1099511628211) 14695981039346656037 s"

definition ShardForDevice :: "string \<Rightarrow> 32 word \<Rightarrow> 32 word" where
  "ShardForDevice deviceID shardCount =
     (let n = (if shardCount = 0 then DefaultShardCount else shardCount) in fnv32a deviceID mod n)"

definition GapRepairSubject :: "SubjectConfig \<Rightarrow> 32 word \<Rightarrow> string" where
  "GapRepairSubject cfg shard = scPrefix (Normalized cfg) @ ''.telemetry.gaprepair.s'' @ dec_padded 3 (unat shard)"

section \<open>Data\<close>

record CoverageWindow =
  cwProviderDeviceID :: string
  cwMinUnixMS :: int
  cwMaxUnixMS :: int
  cwObjectCount :: int

record GapRepairRequest =
  grRequestId :: string
  grProvider :: string
  grDeviceId :: string
  grProviderDeviceId :: string
  grShard :: "32 word"
  grShardCount :: "32 word"
  grFromUnixMs :: int
  grToUnixMs :: int
  grReason :: string
  grDetectedAtUnixMs :: int
  grMaxObjects :: int

record plannedGapRepair =
  plRequest :: GapRepairRequest
  plLagMs :: int

record DetectorConfig =
  dcProviderFilter :: string
  dcPollInterval :: int
  dcLookbackWindow :: int
  dcLagThreshold :: int
  dcLagAlertWindow :: int
  dcLagAlertThreshold :: int
  dcLagAlertCooldown :: int
  dcWindowPadding :: int
  dcMaxReplayWindow :: int
  dcSafeDelay :: int
  dcMaxObjectsPerJob :: int
  dcMaxJobsPerCycle :: int
  dcEvaluationWorkers :: int
  dcSubjectShardCount :: "32 word"
  dcDryRun :: bool

record DetectorReport =
  drAssignments :: nat
  drCandidates :: nat
  drEnqueued :: nat
  drSkipped :: nat

definition positiveOr :: "int \<Rightarrow> int \<Rightarrow> int" where
  "positiveOr v dflt = (if v \<le> 0 then dflt else v)"

text \<open>The jitter of the poll interval is a floating-point number and is left out with the timer that uses it.\<close>

definition normalizeDetectorConfig :: "DetectorConfig \<Rightarrow> DetectorConfig" where
  "normalizeDetectorConfig cfg =
     cfg\<lparr>dcProviderFilter := NormalizeProvider (TrimSpace (dcProviderFilter cfg)),
         dcPollInterval := positiveOr (dcPollInterval cfg) (30 * second),
         dcLookbackWindow := positiveOr (dcLookbackWindow cfg) (30 * minute),
         dcLagThreshold := positiveOr (dcLagThreshold cfg) (90 * second),
         dcLagAlertWindow := positiveOr (dcLagAlertWindow cfg) (15 * minute),
         dcLagAlertThreshold := positiveOr (dcLagAlertThreshold cfg) 12,
         dcLagAlertCooldown := positiveOr (dcLagAlertCooldown cfg) (5 * minute),
         dcWindowPadding := max 0 (dcWindowPadding cfg),
         dcMaxReplayWindow := positiveOr (dcMaxReplayWindow cfg) (30 * minute),
         dcSafeDelay := max 0 (dcSafeDelay cfg),
         dcMaxJobsPerCycle := positiveOr (dcMaxJobsPerCycle cfg) 64,
         dcEvaluationWorkers := positiveOr (dcEvaluationWorkers cfg) 16,
         dcSubjectShardCount := (if dcSubjectShardCount cfg = 0 then DefaultShardCount else dcSubjectShardCount cfg)\<rparr>"

section \<open>Alerts\<close>

text \<open>\<open>None\<close> is the zero time. The rate per minute is only logged and left out.\<close>

record failureRateTracker =
  frWindow :: int
  frThreshold :: int
  frCooldown :: int
  frLastAlert :: "int option"
  frEvents :: "int list"

definition newFailureRateTracker :: "int \<Rightarrow> int \<Rightarrow> int \<Rightarrow> failureRateTracker" where
  "newFailureRateTracker window threshold cooldown =
     \<lparr>frWindow = window, frThreshold = threshold, frCooldown = cooldown, frLastAlert = None, frEvents = []\<rparr>"

definition Record :: "int \<Rightarrow> failureRateTracker \<Rightarrow> nat \<times> bool \<times> failureRateTracker" where
  "Record now t =
     (if frWindow t \<le> 0 then (0, False, t)
      else
        (let cutoff = now - frWindow t;
             t' = t\<lparr>frEvents := filter (\<lambda>ts. \<not> ts < cutoff) (frEvents t) @ [now]\<rparr>;
             count = length (frEvents t')
         in if frThreshold t \<le> 0 \<or> int count < frThreshold t then (count, False, t')
            else if (case frLastAlert t of None \<Rightarrow> False | Some l \<Rightarrow> timeSub now l < frCooldown t) then (count, False, t')
            else (count, True, t'\<lparr>frLastAlert := Some now\<rparr>)))"

section \<open>Coverage\<close>

fun dedupeUpper :: "string list \<Rightarrow> string list \<Rightarrow> string list \<Rightarrow> string list" where
  "dedupeUpper seen out [] = out"
| "dedupeUpper seen out (raw # rest) =
     (let clean = ToUpper (TrimSpace raw)
      in if clean = [] \<or> clean \<in> set seen then dedupeUpper seen out rest
         else dedupeUpper (clean # seen) (out @ [clean]) rest)"

definition normalizeProviderDeviceIDs :: "string list \<Rightarrow> string list" where
  "normalizeProviderDeviceIDs values = sort_by (by_asc id) (dedupeUpper [] [] values)"

text \<open>A row of the query: identifier, first and last timestamp, number of objects; or an error of \<open>Scan\<close>.\<close>

type_synonym coverage_row = "string + string \<times> int \<times> int \<times> int"
type_synonym coverage_map = "(string, CoverageWindow) gomap"

fun scanCoverage :: "coverage_map \<Rightarrow> coverage_row list \<Rightarrow> string + coverage_map" where
  "scanCoverage out [] = Inr out"
| "scanCoverage out (Inl e # rows) = Inl (''scan gap coverage row: '' @ e)"
| "scanCoverage out (Inr (providerID, minTS, maxTS, objectCount) # rows) =
     (if objectCount < 0 \<or> objectCount > 2 ^ 63 - 1 then Inl (''gap coverage object_count out of range: '' @ Itoa objectCount)
      else
        (let pid = ToUpper (TrimSpace providerID)
         in if pid = [] then scanCoverage out rows
            else scanCoverage (gm_put pid \<lparr>cwProviderDeviceID = pid, cwMinUnixMS = minTS, cwMaxUnixMS = maxTS,
                   cwObjectCount = objectCount\<rparr> out) rows))"

text \<open>\<open>query\<close> is the database: it answers an error, or rows with the error that ends the iteration, if any.\<close>

definition CoverageByProviderDevices ::
    "(string \<Rightarrow> int \<Rightarrow> int \<Rightarrow> string list \<Rightarrow> string + coverage_row list \<times> string option) \<Rightarrow>
       string \<Rightarrow> string list \<Rightarrow> int \<Rightarrow> int \<Rightarrow> string + coverage_map" where
  "CoverageByProviderDevices query provider0 providerDeviceIDs fromUnixMS toUnixMS =
     (let provider = TrimSpace provider0
      in if provider = [] then Inl ''provider is required''
         else if fromUnixMS \<le> 0 \<or> toUnixMS \<le> 0 \<or> fromUnixMS > toUnixMS then Inl ''invalid coverage query window''
         else
           (let ids = normalizeProviderDeviceIDs providerDeviceIDs
            in if ids = [] then Inr []
               else case query provider fromUnixMS toUnixMS ids of
                      Inl e \<Rightarrow> Inl (''query gap coverage windows: '' @ e)
                    | Inr (rows, err) \<Rightarrow>
                        (case scanCoverage [] rows of
                           Inl e \<Rightarrow> Inl e
                         | Inr out \<Rightarrow>
                             (case err of None \<Rightarrow> Inr out | Some e \<Rightarrow> Inl (''iterate gap coverage rows: '' @ e)))))"

section \<open>The detector\<close>

definition sanitizeAssignment :: "IngestAssignment \<Rightarrow> IngestAssignment" where
  "sanitizeAssignment a =
     a\<lparr>iaProvider := NormalizeProvider (iaProvider a), iaProviderDeviceID := ToUpper (TrimSpace (iaProviderDeviceID a)),
       iaDeviceID := TrimSpace (iaDeviceID a)\<rparr>"

text \<open>What the detector calls: the coverage of the archive, the cursor of a snapshot, and a fresh request identifier
  for an assignment. A snapshot that does not exist is \<open>Inr None\<close>; a failing identifier source is \<open>None\<close>.\<close>

record detector_env =
  deCoverage :: "string \<Rightarrow> string list \<Rightarrow> int \<Rightarrow> int \<Rightarrow> string + coverage_map"
  deReadSnapshot :: "string \<Rightarrow> string \<Rightarrow> string + int option"
  deNewV7 :: "IngestAssignment \<Rightarrow> string option"

definition idsByProvider :: "IngestAssignment list \<Rightarrow> (string, string list) gomap" where
  "idsByProvider assignments =
     fold (\<lambda>a0 m. let a = sanitizeAssignment a0
             in if iaProvider a = [] \<or> iaProviderDeviceID a = [] then m
                else gm_put (iaProvider a)
                  ((case gm_get m (iaProvider a) of None \<Rightarrow> [] | Some ids \<Rightarrow> ids) @ [iaProviderDeviceID a]) m)
       assignments []"

text \<open>The loop over the providers. The order of the map decides only which of several errors is answered.\<close>

fun loadCoverageLoop :: "detector_env \<Rightarrow> int \<Rightarrow> int \<Rightarrow> (string, string list) gomap \<Rightarrow> (string, coverage_map) gomap \<Rightarrow>
    string + (string, coverage_map) gomap" where
  "loadCoverageLoop env fromUnixMS toUnixMS [] out = Inr out"
| "loadCoverageLoop env fromUnixMS toUnixMS ((provider, ids) # rest) out =
     (case deCoverage env provider ids fromUnixMS toUnixMS of
        Inl e \<Rightarrow> Inl e
      | Inr coverage \<Rightarrow> loadCoverageLoop env fromUnixMS toUnixMS rest (gm_put provider coverage out))"

definition loadCoverage :: "detector_env \<Rightarrow> IngestAssignment list \<Rightarrow> int \<Rightarrow> int \<Rightarrow> string + (string, coverage_map) gomap" where
  "loadCoverage env assignments fromUnixMS toUnixMS = loadCoverageLoop env fromUnixMS toUnixMS (idsByProvider assignments) []"

text \<open>The window of a repair and its reason, or no repair.\<close>

definition planWindow :: "DetectorConfig \<Rightarrow> CoverageWindow \<Rightarrow> int \<Rightarrow> int \<Rightarrow> (int \<times> int \<times> string) option" where
  "planWindow cfg coverage cursorTS nowUnixMS =
     (if cwMaxUnixMS coverage \<le> 0 \<or> cwMinUnixMS coverage \<le> 0 \<or> cwMaxUnixMS coverage < cwMinUnixMS coverage then None
      else if cursorTS > 0 \<and> cwMaxUnixMS coverage \<le> wrap64 (cursorTS + Milliseconds (dcLagThreshold cfg)) then None
      else
        (let reason = (if cursorTS > 0 then ''projection_lag'' else ''snapshot_missing'');
             from0 = (if cursorTS > 0 then wrap64 (cursorTS - Milliseconds (dcWindowPadding cfg)) else cwMinUnixMS coverage);
             from1 = (if from0 < cwMinUnixMS coverage then cwMinUnixMS coverage else from0);
             to = (if cwMaxUnixMS coverage > nowUnixMS then nowUnixMS else cwMaxUnixMS coverage)
         in if to \<le> from1 then None
            else
              (let maxWindowMS = Milliseconds (dcMaxReplayWindow cfg);
                   clamped = (maxWindowMS > 0 \<and> wrap64 (to - from1) > maxWindowMS);
                   cut = wrap64 (to - maxWindowMS);
                   from2 = (if clamped then (if cut < cwMinUnixMS coverage then cwMinUnixMS coverage else cut) else from1)
               in if to \<le> from2 then None else Some (from2, to, if clamped then reason @ ''_window_clamped'' else reason))))"

definition planRepair :: "detector_env \<Rightarrow> DetectorConfig \<Rightarrow> IngestAssignment \<Rightarrow> CoverageWindow \<Rightarrow> int \<Rightarrow> int \<Rightarrow> plannedGapRepair option" where
  "planRepair env cfg a coverage cursorTS nowUnixMS =
     (case planWindow cfg coverage cursorTS nowUnixMS of
        None \<Rightarrow> None
      | Some (frm, to, reason) \<Rightarrow>
          (case deNewV7 env a of
             None \<Rightarrow> None
           | Some requestID \<Rightarrow>
               (let lagMS = (if cursorTS \<le> 0 then wrap64 (to - frm) else wrap64 (to - cursorTS))
                in Some \<lparr>plRequest = \<lparr>grRequestId = requestID, grProvider = iaProvider a, grDeviceId = iaDeviceID a,
                           grProviderDeviceId = iaProviderDeviceID a,
                           grShard = ShardForDevice (iaProviderDeviceID a) (dcSubjectShardCount cfg),
                           grShardCount = dcSubjectShardCount cfg, grFromUnixMs = frm, grToUnixMs = to, grReason = reason,
                           grDetectedAtUnixMs = nowUnixMS,
                           grMaxObjects = (if dcMaxObjectsPerJob cfg > 0 then min (dcMaxObjectsPerJob cfg) (2 ^ 31 - 1) else 0)\<rparr>,
                         plLagMs = max 0 lagMS\<rparr>)))"

definition evaluateOne :: "detector_env \<Rightarrow> DetectorConfig \<Rightarrow> (string, coverage_map) gomap \<Rightarrow> int \<Rightarrow> IngestAssignment \<Rightarrow> plannedGapRepair option" where
  "evaluateOne env cfg coverageByProvider nowUnixMS a =
     (case gm_get coverageByProvider (iaProvider a) of
        None \<Rightarrow> None
      | Some providerCoverage \<Rightarrow>
          (case gm_get providerCoverage (iaProviderDeviceID a) of
             None \<Rightarrow> None
           | Some coverage \<Rightarrow>
               (case deReadSnapshot env (iaDeviceID a) (iaProviderDeviceID a) of
                  Inl e \<Rightarrow> None
                | Inr snap \<Rightarrow> planRepair env cfg a coverage (case snap of None \<Rightarrow> 0 | Some ts \<Rightarrow> ts) nowUnixMS)))"

text \<open>The workers take the assignments from a channel and put their plans on another one, so the plans come in any order:
  \<open>arrival\<close> stands for the order in which they arrive.\<close>

definition evaluateAssignments ::
    "(plannedGapRepair list \<Rightarrow> plannedGapRepair list) \<Rightarrow> detector_env \<Rightarrow> DetectorConfig \<Rightarrow> IngestAssignment list \<Rightarrow>
       (string, coverage_map) gomap \<Rightarrow> int \<Rightarrow> plannedGapRepair list" where
  "evaluateAssignments arrival env cfg assignments coverageByProvider nowUnixMS =
     arrival (List.map_filter (\<lambda>a. evaluateOne env cfg coverageByProvider nowUnixMS (sanitizeAssignment a)) assignments)"

definition planOrder :: "plannedGapRepair \<Rightarrow> plannedGapRepair \<Rightarrow> bool" where
  "planOrder = then_by plLagMs (by_desc plLagMs) (by_asc (\<lambda>p. grProviderDeviceId (plRequest p)))"

text \<open>Publishing the plans. \<open>publish\<close> takes the state of the bus along; a dry run leaves it alone.\<close>

fun enqueuePlans :: "bool \<Rightarrow> (GapRepairRequest \<Rightarrow> 'b \<Rightarrow> 'b \<times> string option) \<Rightarrow> plannedGapRepair list \<Rightarrow> DetectorReport \<times> 'b \<Rightarrow> DetectorReport \<times> 'b" where
  "enqueuePlans dryRun publish [] (report, bus) = (report, bus)"
| "enqueuePlans dryRun publish (plan # rest) (report, bus) =
     (if dryRun then enqueuePlans dryRun publish rest (report\<lparr>drEnqueued := drEnqueued report + 1\<rparr>, bus)
      else
        (case publish (plRequest plan) bus of
           (bus', Some e) \<Rightarrow> enqueuePlans dryRun publish rest (report\<lparr>drSkipped := drSkipped report + 1\<rparr>, bus')
         | (bus', None) \<Rightarrow> enqueuePlans dryRun publish rest (report\<lparr>drEnqueued := drEnqueued report + 1\<rparr>, bus')))"

definition detectorWindow :: "DetectorConfig \<Rightarrow> int \<Rightarrow> int \<times> int" where
  "detectorWindow cfg now =
     (let nowUnixMS = UnixMilli now;
          to0 = UnixMilli (now - dcSafeDelay cfg);
          to = (if to0 \<le> 0 \<or> to0 > nowUnixMS then nowUnixMS else to0);
          from0 = wrap64 (to - Milliseconds (dcLookbackWindow cfg))
      in (if from0 \<le> 0 then 1 else from0, to))"

definition DetectAndEnqueue ::
    "(plannedGapRepair list \<Rightarrow> plannedGapRepair list) \<Rightarrow> detector_env \<Rightarrow> (GapRepairRequest \<Rightarrow> 'b \<Rightarrow> 'b \<times> string option) \<Rightarrow>
       DetectorConfig \<Rightarrow> string + IngestAssignment list \<Rightarrow> int \<Rightarrow> failureRateTracker \<times> 'b \<Rightarrow>
       DetectorReport \<times> string option \<times> failureRateTracker \<times> 'b" where
  "DetectAndEnqueue arrival env publish cfg listed now st =
     (let (tracker, bus) = st;
          report0 = \<lparr>drAssignments = 0, drCandidates = 0, drEnqueued = 0, drSkipped = 0\<rparr>;
          nowUnixMS = UnixMilli now;
          (fromUnixMS, toUnixMS) = detectorWindow cfg now
      in case listed of
           Inl e \<Rightarrow> (report0, Some e, tracker, bus)
         | Inr assignments \<Rightarrow>
             (let report1 = report0\<lparr>drAssignments := length assignments\<rparr>
              in if assignments = [] then (report1, None, tracker, bus)
                 else case loadCoverage env assignments fromUnixMS toUnixMS of
                        Inl e \<Rightarrow> (report1, Some e, tracker, bus)
                      | Inr coverageByProvider \<Rightarrow>
                          (let plans0 = evaluateAssignments arrival env cfg assignments coverageByProvider nowUnixMS;
                               report2 = report1\<lparr>drCandidates := length plans0\<rparr>
                           in if plans0 = [] then (report2, None, tracker, bus)
                              else
                                (let plans = sort_by planOrder plans0;
                                     (_, _, tracker') = Record now tracker;
                                     limit = (if dcMaxJobsPerCycle cfg > int (length plans) then length plans else nat (dcMaxJobsPerCycle cfg));
                                     report3 = report2\<lparr>drSkipped := length plans - limit\<rparr>;
                                     (report4, bus') = enqueuePlans (dcDryRun cfg) publish (take limit plans) (report3, bus)
                                 in (report4, None, tracker', bus')))))"

section \<open>The publisher\<close>

record NATSPublisherConfig =
  npSubjectConfig :: SubjectConfig
  npUseJetStream :: bool
  npMsgIDBucket :: int

definition normalizePublisherConfig :: "NATSPublisherConfig \<Rightarrow> NATSPublisherConfig" where
  "normalizePublisherConfig cfg =
     cfg\<lparr>npSubjectConfig := Normalized (npSubjectConfig cfg), npMsgIDBucket := positiveOr (npMsgIDBucket cfg) minute\<rparr>"

record natsMsg =
  nmSubject :: string
  nmData :: "byte list"
  nmMsgID :: string

text \<open>Division of 64-bit integers towards zero; the identifier is formatted in sixteen hexadecimal digits.\<close>

definition quot64 :: "int \<Rightarrow> int \<Rightarrow> int" where
  "quot64 a b = (if a < 0 then - ((- a) div b) else a div b)"

definition msgID :: "NATSPublisherConfig \<Rightarrow> GapRepairRequest \<Rightarrow> string" where
  "msgID cfg req =
     (let bucketMS = positiveOr (Milliseconds (npMsgIDBucket cfg)) 60000;
          base = Join [TrimSpace (grProvider req), ToUpper (TrimSpace (grProviderDeviceId req)),
                       Itoa (quot64 (grFromUnixMs req) bucketMS), Itoa (quot64 (grToUnixMs req) bucketMS)] ''|''
      in ''gaprepair:'' @ hex_padded 16 (unat (fnv64a base)))"

definition normalizeRequest :: "NATSPublisherConfig \<Rightarrow> GapRepairRequest \<Rightarrow> string + GapRepairRequest" where
  "normalizeRequest cfg req =
     (let provider = TrimSpace (grProvider req);
          providerDeviceID = ToUpper (TrimSpace (grProviderDeviceId req))
      in if provider = [] then Inl ''gap-repair request provider is required''
         else if providerDeviceID = [] then Inl ''gap-repair request provider_device_id is required''
         else if grFromUnixMs req \<le> 0 \<or> grToUnixMs req \<le> 0 \<or> grFromUnixMs req \<ge> grToUnixMs req
         then Inl ''gap-repair request window is invalid''
         else
           (let count1 = (if grShardCount req = 0 then scShardCount (npSubjectConfig cfg) else grShardCount req);
                count = (if count1 = 0 then DefaultShardCount else count1);
                shard = (if grShard req \<ge> count then ShardForDevice providerDeviceID count else grShard req);
                out = req\<lparr>grProvider := provider, grProviderDeviceId := providerDeviceID,
                         grDeviceId := (if grDeviceId req \<noteq> [] then TrimSpace (grDeviceId req) else grDeviceId req),
                         grShardCount := count, grShard := shard\<rparr>
            in Inr (out\<lparr>grRequestId := (if TrimSpace (grRequestId out) = [] then msgID cfg out else grRequestId out),
                        grReason := TrimSpace (grReason out)\<rparr>)))"

text \<open>The bus is the list of the messages that were handed to it without an error; \<open>send\<close> answers the error of the connection, if any.
  A JetStream server may drop a message whose identifier it saw within its own window; that is the server's, and the list keeps such
  messages.\<close>

definition PublishGapRepair ::
    "NATSPublisherConfig \<Rightarrow> (GapRepairRequest \<Rightarrow> string + byte list) \<Rightarrow> (natsMsg list \<Rightarrow> natsMsg \<Rightarrow> string option) \<Rightarrow>
       GapRepairRequest \<Rightarrow> natsMsg list \<Rightarrow> natsMsg list \<times> string option" where
  "PublishGapRepair cfg marshal send req bus =
     (case normalizeRequest cfg req of
        Inl e \<Rightarrow> (bus, Some e)
      | Inr normalized \<Rightarrow>
          (case marshal normalized of
             Inl e \<Rightarrow> (bus, Some (''marshal gap-repair request: '' @ e))
           | Inr payload \<Rightarrow>
               (let subject = GapRepairSubject (npSubjectConfig cfg) (grShard normalized);
                    msg = \<lparr>nmSubject = subject, nmData = payload, nmMsgID = msgID cfg normalized\<rparr>
                in case send bus msg of
                     Some e \<Rightarrow> (bus, Some ((if npUseJetStream cfg then ''publish gap-repair request via jetstream subject=''
                                           else ''publish gap-repair request subject='') @ subject @ '': '' @ e))
                   | None \<Rightarrow> (bus @ [msg], None))))"

section \<open>The worker\<close>

record ReplayRequest =
  rrProvider :: string
  rrFromUnixMS :: int
  rrToUnixMS :: int
  rrDeviceIDs :: "string list"
  rrProviderDeviceIDs :: "string list"
  rrShards :: "32 word list"
  rrMaxObjects :: int

datatype delivery_action = Ack | Nak | Term

definition normalizeGapRequest :: "GapRepairRequest \<Rightarrow> string + GapRepairRequest" where
  "normalizeGapRequest req =
     (let out = req\<lparr>grProvider := TrimSpace (grProvider req), grProviderDeviceId := ToUpper (TrimSpace (grProviderDeviceId req)),
                   grDeviceId := TrimSpace (grDeviceId req), grReason := TrimSpace (grReason req)\<rparr>
      in if grProvider out = [] then Inl ''provider is required''
         else if grProviderDeviceId out = [] then Inl ''provider_device_id is required''
         else if grFromUnixMs out \<le> 0 \<or> grToUnixMs out \<le> 0 \<or> grFromUnixMs out \<ge> grToUnixMs out then Inl ''invalid replay window''
         else Inr (if grMaxObjects out < 0 then out\<lparr>grMaxObjects := 0\<rparr> else out))"

text \<open>The handler answers the action on the message, the replay it ran, if any, and the tracker of failures. \<open>replay\<close>
  answers the error of the replay, if any; an error of the acknowledgement itself is only logged.\<close>

definition handleDelivery ::
    "int \<Rightarrow> (byte list \<Rightarrow> string + GapRepairRequest) \<Rightarrow> (ReplayRequest \<Rightarrow> string option) \<Rightarrow> int \<Rightarrow> byte list \<Rightarrow> failureRateTracker \<Rightarrow>
       delivery_action \<times> ReplayRequest option \<times> failureRateTracker" where
  "handleDelivery defaultMaxObjects unmarshal replay now data tracker =
     (case unmarshal data of
        Inl e \<Rightarrow> (Term, None, tracker)
      | Inr req \<Rightarrow>
          (case normalizeGapRequest req of
             Inl e \<Rightarrow> (Term, None, tracker)
           | Inr normalized \<Rightarrow>
               (let maxObjects = (if grMaxObjects normalized \<le> 0 then defaultMaxObjects else grMaxObjects normalized);
                    request = \<lparr>rrProvider = grProvider normalized, rrFromUnixMS = grFromUnixMs normalized,
                      rrToUnixMS = grToUnixMs normalized, rrDeviceIDs = [], rrProviderDeviceIDs = [grProviderDeviceId normalized],
                      rrShards = [], rrMaxObjects = maxObjects\<rparr>
                in case replay request of
                     Some e \<Rightarrow> (Nak, Some request, snd (snd (Record now tracker)))
                   | None \<Rightarrow> (Ack, Some request, tracker))))"

end
