(* ===== verification/Gap_Repair.thy ===== *)
theory Gap_Repair
  imports Gap_Model
begin

text \<open>
  What the repair of gaps guarantees: the windows the detector plans, the choice of the plans it
  publishes, and that whatever it publishes is replayed by the worker for a device of the control
  plane that is to be ingested.
\<close>

section \<open>Windows\<close>

definition small :: "int \<Rightarrow> bool" where
  "small x \<longleftrightarrow> - (2 ^ 62) < x \<and> x < 2 ^ 62"

lemma wrap64_id: "- (2 ^ 63) \<le> x \<Longrightarrow> x < 2 ^ 63 \<Longrightarrow> wrap64 x = x"
  by (simp add: wrap64_def)

lemma Milliseconds_nonneg: "0 \<le> d \<Longrightarrow> 0 \<le> Milliseconds d"
  by (simp add: Milliseconds_def)

lemma Milliseconds_bound: "0 \<le> d \<Longrightarrow> d < 2 ^ 63 \<Longrightarrow> Milliseconds d < 2 ^ 62"
  by (simp add: Milliseconds_def)

text \<open>A configuration after normalisation, whose durations are 64-bit numbers.\<close>

definition config_ok :: "DetectorConfig \<Rightarrow> bool" where
  "config_ok cfg \<longleftrightarrow> 0 < dcLagThreshold cfg \<and> dcLagThreshold cfg < 2 ^ 63 \<and> 0 \<le> dcWindowPadding cfg \<and> dcWindowPadding cfg < 2 ^ 63 \<and>
     0 < dcMaxReplayWindow cfg \<and> dcMaxReplayWindow cfg < 2 ^ 63 \<and> 0 < dcMaxJobsPerCycle cfg"

lemma normalized_config_ok:
  "dcLagThreshold cfg < 2 ^ 63 \<Longrightarrow> dcWindowPadding cfg < 2 ^ 63 \<Longrightarrow> dcMaxReplayWindow cfg < 2 ^ 63 \<Longrightarrow>
   config_ok (normalizeDetectorConfig cfg)"
  by (simp add: config_ok_def normalizeDetectorConfig_def positiveOr_def minute_def second_def)

text \<open>Where a repair may begin at the earliest, without the bound on its length.\<close>

definition repairStart :: "DetectorConfig \<Rightarrow> CoverageWindow \<Rightarrow> int \<Rightarrow> int" where
  "repairStart cfg cov cursor =
     (if 0 < cursor then max (cwMinUnixMS cov) (cursor - Milliseconds (dcWindowPadding cfg)) else cwMinUnixMS cov)"

definition validCoverage :: "CoverageWindow \<Rightarrow> bool" where
  "validCoverage cov \<longleftrightarrow> 0 < cwMinUnixMS cov \<and> cwMinUnixMS cov \<le> cwMaxUnixMS cov"

lemma planWindow_eq:
  assumes "config_ok cfg" "small cursor" "small now" "small (cwMinUnixMS cov)" "small (cwMaxUnixMS cov)"
  defines "to \<equiv> min (cwMaxUnixMS cov) now" and "w \<equiv> Milliseconds (dcMaxReplayWindow cfg)" and "start \<equiv> repairStart cfg cov cursor"
  shows "map_option (\<lambda>(f, t, _). (f, t)) (planWindow cfg cov cursor now) =
    (if \<not> validCoverage cov \<or> 0 < cursor \<and> cwMaxUnixMS cov \<le> cursor + Milliseconds (dcLagThreshold cfg) \<or> to \<le> start then None
     else Some (if 0 < w then max start (to - w) else start, to))"
proof -
  have m: "0 \<le> Milliseconds (dcLagThreshold cfg)" "Milliseconds (dcLagThreshold cfg) < 2 ^ 62"
    "0 \<le> Milliseconds (dcWindowPadding cfg)" "Milliseconds (dcWindowPadding cfg) < 2 ^ 62" "0 \<le> w" "w < 2 ^ 62"
    using assms(1) Milliseconds_nonneg Milliseconds_bound by (auto simp: config_ok_def w_def)
  note b = assms(2-5) [unfolded small_def]
  have wr: "wrap64 (cursor + Milliseconds (dcLagThreshold cfg)) = cursor + Milliseconds (dcLagThreshold cfg)"
    "wrap64 (cursor - Milliseconds (dcWindowPadding cfg)) = cursor - Milliseconds (dcWindowPadding cfg)"
    using b m by (auto intro!: wrap64_id)
  have to: "(if now < cwMaxUnixMS cov then now else cwMaxUnixMS cov) = to" by (simp add: to_def)
  have st: "start = (let f = (if 0 < cursor then cursor - Milliseconds (dcWindowPadding cfg) else cwMinUnixMS cov)
      in if f < cwMinUnixMS cov then cwMinUnixMS cov else f)"
    by (auto simp: start_def repairStart_def Let_def max_def)
  have bt: "to < 2 ^ 62" "start \<ge> cwMinUnixMS cov" using b by (auto simp: to_def start_def repairStart_def)
  have win: "0 < cwMinUnixMS cov \<Longrightarrow> start < to \<Longrightarrow> wrap64 (to - start) = to - start \<and> wrap64 (to - w) = to - w"
    using bt m by (auto intro!: wrap64_id)
  show ?thesis
  proof (cases "validCoverage cov")
    case True
    then show ?thesis
      using win bt(2) unfolding planWindow_def wr to Let_def st [unfolded Let_def, symmetric] w_def [symmetric]
      by (auto simp: validCoverage_def)
  qed (auto simp: planWindow_def validCoverage_def)
qed

text \<open>Whatever the numbers, a window that is planned lies inside the coverage, is not empty and does not end in the future.\<close>

lemma planWindow_safe:
  assumes "planWindow cfg cov cursor now = Some (frm, to, reason)"
  shows "0 < frm" "cwMinUnixMS cov \<le> frm" "frm < to" "to \<le> now" "to \<le> cwMaxUnixMS cov"
  using assms unfolding planWindow_def Let_def by (auto split: if_splits)

section \<open>Plans\<close>

lemma planRepair_Some:
  "planRepair env cfg a cov cursor now = Some p \<longleftrightarrow>
   (\<exists>frm to reason rid. planWindow cfg cov cursor now = Some (frm, to, reason) \<and> deNewV7 env a = Some rid \<and>
      p = \<lparr>plRequest = \<lparr>grRequestId = rid, grProvider = iaProvider a, grDeviceId = iaDeviceID a, grProviderDeviceId = iaProviderDeviceID a,
             grShard = ShardForDevice (iaProviderDeviceID a) (dcSubjectShardCount cfg), grShardCount = dcSubjectShardCount cfg,
             grFromUnixMs = frm, grToUnixMs = to, grReason = reason, grDetectedAtUnixMs = now,
             grMaxObjects = (if dcMaxObjectsPerJob cfg > 0 then min (dcMaxObjectsPerJob cfg) (2 ^ 31 - 1) else 0)\<rparr>,
           plLagMs = max 0 (if cursor \<le> 0 then wrap64 (to - frm) else wrap64 (to - cursor))\<rparr>)"
  by (auto simp: planRepair_def Let_def split: option.splits)

lemma idsByProvider_keys: "gm_get (idsByProvider as) k = Some ids \<Longrightarrow> k \<noteq> []"
proof -
  have "(\<And>k ids. gm_get m k = Some ids \<Longrightarrow> k \<noteq> []) \<Longrightarrow> gm_get (fold (\<lambda>a0 m. let a = sanitizeAssignment a0
             in if iaProvider a = [] \<or> iaProviderDeviceID a = [] then m
                else gm_put (iaProvider a)
                  ((case gm_get m (iaProvider a) of None \<Rightarrow> [] | Some ids \<Rightarrow> ids) @ [iaProviderDeviceID a]) m) as m) k = Some ids \<Longrightarrow> k \<noteq> []" for m
  proof (induction as arbitrary: m)
    case (Cons a as)
    show ?case by (rule Cons.IH) (use Cons.prems in \<open>auto simp: Let_def split: if_splits\<close>)
  qed auto
  from this [of "[]"] show "gm_get (idsByProvider as) k = Some ids \<Longrightarrow> k \<noteq> []" by (simp add: idsByProvider_def)
qed

lemma gm_wf_ids: "gm_wf (idsByProvider as)"
proof -
  have "gm_wf m \<Longrightarrow> gm_wf (fold (\<lambda>a0 m. let a = sanitizeAssignment a0
             in if iaProvider a = [] \<or> iaProviderDeviceID a = [] then m
                else gm_put (iaProvider a)
                  ((case gm_get m (iaProvider a) of None \<Rightarrow> [] | Some ids \<Rightarrow> ids) @ [iaProviderDeviceID a]) m) as m)" for m
    by (induction as arbitrary: m) (auto simp: Let_def)
  from this [of "[]"] show ?thesis by (simp add: idsByProvider_def)
qed

lemma loadCoverageLoop_get:
  "loadCoverageLoop env f t l out = Inr out' \<Longrightarrow> gm_get out' k = Some m \<Longrightarrow>
   gm_get out k = Some m \<or> (\<exists>ids. (k, ids) \<in> set l \<and> deCoverage env k ids f t = Inr m)"
  by (induction env f t l out rule: loadCoverageLoop.induct) (auto split: sum.splits if_splits)

lemma loadCoverage_get:
  assumes "loadCoverage env as f t = Inr out" "gm_get out k = Some m"
  obtains ids where "k \<noteq> []" "deCoverage env k ids f t = Inr m"
  using loadCoverageLoop_get [OF assms(1) [unfolded loadCoverage_def] assms(2)] idsByProvider_keys gm_mem_iff [OF gm_wf_ids] by fastforce

text \<open>The coverage the detector relies on: a device without an identifier is never covered.\<close>

locale coverage_store =
  fixes coverage :: "string \<Rightarrow> string list \<Rightarrow> int \<Rightarrow> int \<Rightarrow> string + coverage_map"
  assumes covered_id: "coverage p ids f t = Inr m \<Longrightarrow> gm_get m k = Some w \<Longrightarrow> k \<noteq> []"
begin

lemma evaluateOne_ids:
  assumes "deCoverage env = coverage" "loadCoverage env as f t = Inr out"
    and "evaluateOne env cfg out now (sanitizeAssignment a) = Some p"
  shows "grProvider (plRequest p) = NormalizeProvider (iaProvider a) \<and> grProvider (plRequest p) \<noteq> [] \<and>
    grProviderDeviceId (plRequest p) = ToUpper (TrimSpace (iaProviderDeviceID a)) \<and> grProviderDeviceId (plRequest p) \<noteq> [] \<and>
    0 < grFromUnixMs (plRequest p) \<and> grFromUnixMs (plRequest p) < grToUnixMs (plRequest p) \<and> grToUnixMs (plRequest p) \<le> now \<and>
    grShard (plRequest p) = ShardForDevice (grProviderDeviceId (plRequest p)) (dcSubjectShardCount cfg) \<and>
    grShardCount (plRequest p) = dcSubjectShardCount cfg"
proof -
  let ?a = "sanitizeAssignment a"
  from assms(3) obtain pc cov cursor where e: "gm_get out (iaProvider ?a) = Some pc" "gm_get pc (iaProviderDeviceID ?a) = Some cov"
    "planRepair env cfg ?a cov cursor now = Some p"
    by (auto simp: evaluateOne_def split: option.splits sum.splits)
  obtain ids where k: "iaProvider ?a \<noteq> []" "coverage (iaProvider ?a) ids f t = Inr pc"
    using loadCoverage_get [OF assms(2) e(1)] assms(1) by metis
  then have "iaProviderDeviceID ?a \<noteq> []" using covered_id e(2) by blast
  with k(1) e(3) show ?thesis using planWindow_safe by (auto simp: planRepair_Some sanitizeAssignment_def)
qed

end

lemma scanCoverage_keys: "scanCoverage out rows = Inr m \<Longrightarrow> gm_get out [] = None \<Longrightarrow> gm_get m [] = None"
proof (induction out rows rule: scanCoverage.induct)
  case (3 out providerID minTS maxTS objectCount rows)
  have nil: "ToUpper [] = []" by (simp add: ToUpper_def)
  show ?case
  proof (cases "ToUpper (TrimSpace providerID) = []")
    case True
    with 3 nil show ?thesis by (auto split: if_splits)
  next
    case False
    then have "[] \<noteq> ToUpper (TrimSpace providerID)" by metis
    with 3 False show ?thesis by (auto simp: Let_def split: if_splits)
  qed
qed auto

interpretation pg: coverage_store "CoverageByProviderDevices query" for query
proof
  fix p ids f t m k w
  assume m: "CoverageByProviderDevices query p ids f t = Inr m" "gm_get m k = Some w"
  then have "gm_get m [] = None"
    by (auto simp: CoverageByProviderDevices_def Let_def split: if_splits sum.splits option.splits
        dest!: scanCoverage_keys [of "[]"])
  with m(2) show "k \<noteq> []" by auto
qed

section \<open>Publishing the plans\<close>

lemma enqueuePlans_eq:
  assumes "enqueuePlans dry publish plans (r, bus) = (r', bus')"
  shows "drEnqueued r' + drSkipped r' = drEnqueued r + drSkipped r + length plans \<and> drEnqueued r' \<le> drEnqueued r + length plans \<and>
    drCandidates r' = drCandidates r \<and> drAssignments r' = drAssignments r \<and>
    bus' = (if dry then bus else fold (\<lambda>p b. fst (publish (plRequest p) b)) plans bus)"
  using assms
proof (induction plans arbitrary: r bus)
  case (Cons p plans)
  show ?case
  proof (cases dry)
    case True
    with Cons.prems Cons.IH [of "r\<lparr>drEnqueued := drEnqueued r + 1\<rparr>" bus] show ?thesis by auto
  next
    case False
    obtain b e where pub: "publish (plRequest p) bus = (b, e)" by fastforce
    with False Cons.prems Cons.IH [of "r\<lparr>drEnqueued := drEnqueued r + 1\<rparr>" b] Cons.IH [of "r\<lparr>drSkipped := drSkipped r + 1\<rparr>" b]
    show ?thesis by (cases e) auto
  qed
qed auto

lemma planOrder_sorted:
  "sorted_wrt (\<lambda>p q. plLagMs q \<le> plLagMs p) (sort_by planOrder ps)"
  using desc_asc.sorted_sort_by [of plLagMs "\<lambda>p. grProviderDeviceId (plRequest p)" ps, folded planOrder_def]
  by (rule sorted_wrt_mono_rel [rotated]) (auto simp: planOrder_def then_by_def by_desc_def not_less split: if_splits)

lemma mset_insert_by: "mset (insert_by lt x ys) = add_mset x (mset ys)"
  by (induction ys) auto

lemma mset_sort_by: "mset (sort_by lt xs) = mset xs"
  by (induction xs) (auto simp: mset_insert_by)

text \<open>The plans of one cycle, before their order is decided.\<close>

definition cyclePlans :: "detector_env \<Rightarrow> DetectorConfig \<Rightarrow> int \<Rightarrow> IngestAssignment list \<Rightarrow> plannedGapRepair list" where
  "cyclePlans env cfg now as =
     (case loadCoverage env as (fst (detectorWindow cfg now)) (snd (detectorWindow cfg now)) of
        Inl e \<Rightarrow> []
      | Inr cov \<Rightarrow> List.map_filter (\<lambda>a. evaluateOne env cfg cov (UnixMilli now) (sanitizeAssignment a)) as)"

lemma DetectAndEnqueue_cycle:
  assumes run: "DetectAndEnqueue arrival env publish cfg listed now (tr, bus) = (report, err, tr', bus')"
    and arrival: "\<And>xs. mset (arrival xs) = mset xs" and cfg: "0 < dcMaxJobsPerCycle cfg"
  shows "(err \<noteq> None \<longrightarrow> bus' = bus \<and> tr' = tr) \<and>
    (\<forall>as. listed = Inr as \<longrightarrow> err = None \<longrightarrow>
       (\<exists>sel rest. mset (sel @ rest) = mset (cyclePlans env cfg now as) \<and>
          length sel = min (length (cyclePlans env cfg now as)) (nat (dcMaxJobsPerCycle cfg)) \<and>
          sorted_wrt (\<lambda>p q. plLagMs q \<le> plLagMs p) (sel @ rest) \<and>
          bus' = (if dcDryRun cfg then bus else fold (\<lambda>p b. fst (publish (plRequest p) b)) sel bus) \<and>
          drCandidates report = length (cyclePlans env cfg now as) \<and> drEnqueued report + drSkipped report = drCandidates report \<and>
          drEnqueued report \<le> length sel))"
proof (cases listed)
  case (Inl e)
  with run show ?thesis by (auto simp: DetectAndEnqueue_def Let_def split: prod.splits)
next
  case (Inr as)
  obtain f t where ft: "detectorWindow cfg now = (f, t)" by fastforce
  show ?thesis
  proof (cases "as = []")
    case True
    then have "cyclePlans env cfg now as = []" by (simp add: cyclePlans_def loadCoverage_def idsByProvider_def List.map_filter_def)
    with run Inr True ft show ?thesis by (auto simp: DetectAndEnqueue_def Let_def)
  next
    case False
    show ?thesis
    proof (cases "loadCoverage env as f t")
      case (Inl e)
      with run Inr False ft show ?thesis by (auto simp: DetectAndEnqueue_def Let_def)
    next
      case cov: (Inr cov)
      define plans0 where "plans0 = arrival (cyclePlans env cfg now as)"
      have p0: "evaluateAssignments arrival env cfg as cov (UnixMilli now) = plans0"
        using cov ft by (simp add: plans0_def cyclePlans_def evaluateAssignments_def)
      have ms: "mset plans0 = mset (cyclePlans env cfg now as)" by (simp add: plans0_def arrival)
      then have len: "length plans0 = length (cyclePlans env cfg now as)" by (metis size_mset)
      show ?thesis
      proof (cases "plans0 = []")
        case True
        with run Inr False ft cov p0 ms show ?thesis by (auto simp: DetectAndEnqueue_def Let_def)
      next
        case plans: False
        define ps where "ps = sort_by planOrder plans0"
        define limit where "limit = (if dcMaxJobsPerCycle cfg > int (length ps) then length ps else nat (dcMaxJobsPerCycle cfg))"
        have lim: "limit = min (length ps) (nat (dcMaxJobsPerCycle cfg))" by (auto simp: limit_def)
        define r3 where "r3 = \<lparr>drAssignments = length as, drCandidates = length plans0, drEnqueued = 0, drSkipped = length ps - limit\<rparr>"
        obtain c sp tr2 where rec: "Record now tr = (c, sp, tr2)" by (metis prod_cases3)
        obtain r4 b4 where e: "enqueuePlans (dcDryRun cfg) publish (take limit ps) (r3, bus) = (r4, b4)" by fastforce
        have "report = r4" "err = None" "bus' = b4"
          using run Inr False ft cov p0 plans rec e by (simp_all add: DetectAndEnqueue_def Let_def ps_def limit_def r3_def cong: if_cong)
        moreover define sel rest where sel: "sel = take limit ps" and "rest = drop limit ps"
        moreover note enqueuePlans_eq [OF e, folded sel]
        moreover have app: "sel @ rest = ps" and "length sel = limit" using lim by (simp_all add: sel \<open>rest = drop limit ps\<close>)
        moreover have "mset (sel @ rest) = mset (cyclePlans env cfg now as)" "length ps = length plans0"
          using ms app by (simp_all add: ps_def mset_sort_by)
        moreover have "sorted_wrt (\<lambda>p q. plLagMs q \<le> plLagMs p) (sel @ rest)" unfolding app by (simp add: ps_def planOrder_sorted)
        ultimately have "mset (sel @ rest) = mset (cyclePlans env cfg now as) \<and>
          length sel = min (length (cyclePlans env cfg now as)) (nat (dcMaxJobsPerCycle cfg)) \<and>
          sorted_wrt (\<lambda>p q. plLagMs q \<le> plLagMs p) (sel @ rest) \<and>
          bus' = (if dcDryRun cfg then bus else fold (\<lambda>p b. fst (publish (plRequest p) b)) sel bus) \<and>
          drCandidates report = length (cyclePlans env cfg now as) \<and> drEnqueued report + drSkipped report = drCandidates report \<and>
          drEnqueued report \<le> length sel"
          using len lim by (simp add: r3_def)
        with Inr \<open>err = None\<close> show ?thesis by blast
      qed
    qed
  qed
qed

section \<open>From the detector to the worker\<close>

lemma shard_below: "n \<noteq> 0 \<Longrightarrow> ShardForDevice d n < n"
  by (simp add: ShardForDevice_def word_less_nat_alt unat_mod unat_gt_0)

text \<open>What the detector knows of a request it publishes.\<close>

definition request_ok :: "GapRepairRequest \<Rightarrow> bool" where
  "request_ok r \<longleftrightarrow> grProvider r \<noteq> [] \<and> TrimSpace (grProvider r) = grProvider r \<and>
     grProviderDeviceId r \<noteq> [] \<and> ToUpper (TrimSpace (grProviderDeviceId r)) = grProviderDeviceId r \<and>
     0 < grFromUnixMs r \<and> grFromUnixMs r < grToUnixMs r \<and> grShard r < grShardCount r"

definition same_repair :: "GapRepairRequest \<Rightarrow> GapRepairRequest \<Rightarrow> bool" where
  "same_repair r r' \<longleftrightarrow> grProvider r' = grProvider r \<and> grProviderDeviceId r' = grProviderDeviceId r \<and>
     grFromUnixMs r' = grFromUnixMs r \<and> grToUnixMs r' = grToUnixMs r \<and> grShard r' = grShard r"

lemma normalizeRequest_ok:
  assumes "request_ok r"
  shows "\<exists>n. normalizeRequest pcfg r = Inr n \<and> request_ok n \<and> same_repair r n"
proof -
  have "grShardCount r \<noteq> 0" using assms by (auto simp: request_ok_def)
  with assms show ?thesis by (auto simp: normalizeRequest_def request_ok_def same_repair_def Let_def)
qed

definition replayOf :: "int \<Rightarrow> GapRepairRequest \<Rightarrow> ReplayRequest" where
  "replayOf dmo r = \<lparr>rrProvider = grProvider r, rrFromUnixMS = grFromUnixMs r, rrToUnixMS = grToUnixMs r, rrDeviceIDs = [],
     rrProviderDeviceIDs = [grProviderDeviceId r], rrShards = [], rrMaxObjects = (if grMaxObjects r \<le> 0 then dmo else grMaxObjects r)\<rparr>"

lemma handleDelivery_ok:
  assumes "request_ok n" "unmarshal data = Inr n"
  shows "\<exists>tr'. handleDelivery dmo unmarshal replay t data tr =
    (if replay (replayOf dmo n) = None then Ack else Nak, Some (replayOf dmo n), tr')"
  using assms by (auto simp: handleDelivery_def normalizeGapRequest_def request_ok_def replayOf_def Let_def split: option.splits)

text \<open>A message on the bus carries a request that was published.\<close>

lemma publish_fold:
  assumes "m \<in> set (fold (\<lambda>p b. fst (PublishGapRepair pcfg marshal send (plRequest p) b)) sel bus)" "\<forall>p \<in> set sel. request_ok (plRequest p)"
  shows "m \<in> set bus \<or> (\<exists>p n. p \<in> set sel \<and> request_ok n \<and> same_repair (plRequest p) n \<and> marshal n = Inr (nmData m) \<and>
    nmSubject m = GapRepairSubject (npSubjectConfig pcfg) (grShard n))"
  using assms
proof (induction sel arbitrary: bus)
  case (Cons p sel)
  let ?b = "fst (PublishGapRepair pcfg marshal send (plRequest p) bus)"
  obtain n where n: "normalizeRequest pcfg (plRequest p) = Inr n" "request_ok n" "same_repair (plRequest p) n"
    using normalizeRequest_ok Cons.prems(2) by fastforce
  have one: "m \<in> set ?b \<Longrightarrow> m \<in> set bus \<or> marshal n = Inr (nmData m) \<and> nmSubject m = GapRepairSubject (npSubjectConfig pcfg) (grShard n)"
    using n(1) by (auto simp: PublishGapRepair_def Let_def split: sum.splits option.splits)
  from Cons.IH [of ?b] Cons.prems one n show ?case by fastforce
qed simp

text \<open>The store the detector relies on lists only what its client asked for.\<close>

locale assignment_store =
  fixes listing :: "string \<Rightarrow> bool \<Rightarrow> 's \<Rightarrow> IngestAssignment list" and inv :: "'s \<Rightarrow> bool"
    and wanted :: "string \<Rightarrow> bool \<Rightarrow> 's \<Rightarrow> IngestAssignment \<Rightarrow> bool"
  assumes listed: "inv s \<Longrightarrow> a \<in> set (listing p act s) \<Longrightarrow> wanted p act s a"

locale repair_cycle = coverage_store coverage + assignment_store listing inv wanted
  for coverage :: "string \<Rightarrow> string list \<Rightarrow> int \<Rightarrow> int \<Rightarrow> string + coverage_map"
    and listing :: "string \<Rightarrow> bool \<Rightarrow> 's \<Rightarrow> IngestAssignment list" and inv and wanted
begin

lemma cyclePlans_mem:
  assumes "deCoverage env = coverage" "inv s" "p \<in> set (cyclePlans env cfg now (listing flt True s))" "dcSubjectShardCount cfg \<noteq> 0"
  obtains a where "wanted flt True s a" "request_ok (plRequest p)" "grProvider (plRequest p) = NormalizeProvider (iaProvider a)"
    "grProviderDeviceId (plRequest p) = ToUpper (TrimSpace (iaProviderDeviceID a))" "grToUnixMs (plRequest p) \<le> UnixMilli now"
    "grShard (plRequest p) = ShardForDevice (grProviderDeviceId (plRequest p)) (dcSubjectShardCount cfg)"
proof -
  from assms(3) obtain cov a where c: "loadCoverage env (listing flt True s) (fst (detectorWindow cfg now)) (snd (detectorWindow cfg now)) = Inr cov"
    "a \<in> set (listing flt True s)" "evaluateOne env cfg cov (UnixMilli now) (sanitizeAssignment a) = Some p"
    by (cases "loadCoverage env (listing flt True s) (fst (detectorWindow cfg now)) (snd (detectorWindow cfg now))")
       (auto simp: cyclePlans_def mem_map_filter)
  note ids = evaluateOne_ids [OF assms(1) c(1,3)]
  have "request_ok (plRequest p)" using ids shard_below [OF assms(4)] by (auto simp: request_ok_def NormalizeProvider_def)
  then show thesis using that [OF listed [OF assms(2) c(2)]] ids by blast
qed

lemma published_is_replayed:
  assumes run: "DetectAndEnqueue arrival env (PublishGapRepair pcfg marshal send) cfg (Inr (listing flt True s)) now (tr, []) =
      (report, err, tr', bus)"
    and env: "deCoverage env = coverage" and inv: "inv s" and arrival: "\<And>xs. mset (arrival xs) = mset xs"
    and cfg: "0 < dcMaxJobsPerCycle cfg" "dcSubjectShardCount cfg \<noteq> 0"
    and codec: "\<And>r d. marshal r = Inr d \<Longrightarrow> unmarshal d = Inr r" and m: "m \<in> set bus"
  shows "\<exists>a req tr2. wanted flt True s a \<and>
    handleDelivery dmo unmarshal replay t (nmData m) tr1 = (if replay req = None then Ack else Nak, Some req, tr2) \<and>
    rrProvider req = NormalizeProvider (iaProvider a) \<and> rrProviderDeviceIDs req = [ToUpper (TrimSpace (iaProviderDeviceID a))] \<and>
    0 < rrFromUnixMS req \<and> rrFromUnixMS req < rrToUnixMS req \<and> rrToUnixMS req \<le> UnixMilli now \<and>
    nmSubject m = GapRepairSubject (npSubjectConfig pcfg) (ShardForDevice (ToUpper (TrimSpace (iaProviderDeviceID a))) (dcSubjectShardCount cfg))"
proof -
  let ?as = "listing flt True s"
  note cycle = DetectAndEnqueue_cycle [OF run arrival cfg(1)]
  have "err = None" using cycle m by auto
  with cycle obtain sel rest where sel: "mset (sel @ rest) = mset (cyclePlans env cfg now ?as)"
    "bus = (if dcDryRun cfg then [] else fold (\<lambda>p b. fst (PublishGapRepair pcfg marshal send (plRequest p) b)) sel [])" by blast
  have sub: "set sel \<subseteq> set (cyclePlans env cfg now ?as)" using mset_eq_setD [OF sel(1)] by auto
  have ok: "\<forall>p \<in> set sel. request_ok (plRequest p)"
  proof
    fix p assume "p \<in> set sel"
    then show "request_ok (plRequest p)" by (rule cyclePlans_mem [OF env inv subsetD [OF sub] cfg(2)])
  qed
  obtain p n where p: "p \<in> set sel" "request_ok n" "same_repair (plRequest p) n" "marshal n = Inr (nmData m)"
    "nmSubject m = GapRepairSubject (npSubjectConfig pcfg) (grShard n)"
    using publish_fold [of m pcfg marshal send sel "[]"] ok m sel(2) by (auto split: if_splits)
  obtain a where a: "wanted flt True s a" "grProvider (plRequest p) = NormalizeProvider (iaProvider a)"
    "grProviderDeviceId (plRequest p) = ToUpper (TrimSpace (iaProviderDeviceID a))" "grToUnixMs (plRequest p) \<le> UnixMilli now"
    "grShard (plRequest p) = ShardForDevice (grProviderDeviceId (plRequest p)) (dcSubjectShardCount cfg)"
    by (rule cyclePlans_mem [OF env inv subsetD [OF sub p(1)] cfg(2)])
  obtain tr2 where h: "handleDelivery dmo unmarshal replay t (nmData m) tr1 =
      (if replay (replayOf dmo n) = None then Ack else Nak, Some (replayOf dmo n), tr2)"
    using handleDelivery_ok [OF p(2), of unmarshal] codec [OF p(4)] by blast
  have "rrProvider (replayOf dmo n) = NormalizeProvider (iaProvider a)"
    "rrProviderDeviceIDs (replayOf dmo n) = [ToUpper (TrimSpace (iaProviderDeviceID a))]" "rrToUnixMS (replayOf dmo n) \<le> UnixMilli now"
    "nmSubject m = GapRepairSubject (npSubjectConfig pcfg) (ShardForDevice (ToUpper (TrimSpace (iaProviderDeviceID a))) (dcSubjectShardCount cfg))"
    using a p(3,5) by (simp_all add: replayOf_def same_repair_def)
  moreover have "0 < rrFromUnixMS (replayOf dmo n)" "rrFromUnixMS (replayOf dmo n) < rrToUnixMS (replayOf dmo n)"
    using p(2) by (simp_all add: replayOf_def request_ok_def)
  ultimately show ?thesis using h a(1) by blast
qed

end

text \<open>The devices of the control plane that are to be ingested, with the credential of each.\<close>

definition ingested :: "string \<Rightarrow> bool \<Rightarrow> MemoryStore \<Rightarrow> IngestAssignment \<Rightarrow> bool" where
  "ingested flt act s a \<longleftrightarrow> (\<exists>(_, dev) \<in> set (providerDevices s). \<exists>(_, cred) \<in> set (credentials s).
     wantedDevice (NormalizeProvider flt) act dev \<and> a = assignmentOf dev cred)"

interpretation mem: assignment_store ListIngestAssignments "store_inv sha" ingested for sha
proof
  fix s a p act
  assume "store_inv sha s" "a \<in> set (ListIngestAssignments p act s)"
  then show "ingested p act s a" by (fastforce simp: ListIngestAssignments_mem ingested_def dest: gm_get_SomeD)
qed

interpretation cycle: repair_cycle "CoverageByProviderDevices query" ListIngestAssignments "store_inv sha" ingested for query sha
  by unfold_locales

end
