(* ===== verification/Gap_Properties.thy ===== *)
theory Gap_Properties
  imports Gap_Repair Cp_Properties
begin

text \<open>
  The properties of the repair of gaps, from the window of one repair to the replay of what one
  cycle of the detector published.
\<close>

text \<open>C24: A repair is planned exactly when the archive covers more than the projection has seen by more than the lag
  threshold and something of it lies in the past, and its window is the part of the coverage from the cursor, less the
  padding, to the present, cut to the longest window from its end. No sum of the code overflows for timestamps below two
  to the 62 milliseconds.\<close>

theorem planRepair_window:
  assumes "config_ok cfg" "small cursor" "small now" "small (cwMinUnixMS cov)" "small (cwMaxUnixMS cov)" "deNewV7 env a \<noteq> None"
  shows "case planRepair env cfg a cov cursor now of
    None \<Rightarrow> \<not> validCoverage cov \<or> 0 < cursor \<and> cwMaxUnixMS cov \<le> cursor + Milliseconds (dcLagThreshold cfg) \<or>
      min (cwMaxUnixMS cov) now \<le> repairStart cfg cov cursor
  | Some p \<Rightarrow> validCoverage cov \<and> (0 < cursor \<longrightarrow> cursor + Milliseconds (dcLagThreshold cfg) < cwMaxUnixMS cov) \<and>
      grToUnixMs (plRequest p) = min (cwMaxUnixMS cov) now \<and>
      grFromUnixMs (plRequest p) =
        (if 0 < Milliseconds (dcMaxReplayWindow cfg)
         then max (repairStart cfg cov cursor) (min (cwMaxUnixMS cov) now - Milliseconds (dcMaxReplayWindow cfg))
         else repairStart cfg cov cursor) \<and>
      repairStart cfg cov cursor < grToUnixMs (plRequest p)"
proof -
  note eq = planWindow_eq [OF assms(1-5)]
  show ?thesis
  proof (cases "planWindow cfg cov cursor now")
    case None
    with eq have "\<not> validCoverage cov \<or> 0 < cursor \<and> cwMaxUnixMS cov \<le> cursor + Milliseconds (dcLagThreshold cfg) \<or>
        min (cwMaxUnixMS cov) now \<le> repairStart cfg cov cursor" by (simp split: if_splits)
    with None show ?thesis by (simp add: planRepair_def)
  next
    case (Some w)
    obtain frm to reason where w: "w = (frm, to, reason)" by (cases w) auto
    from eq Some w have "validCoverage cov \<and> (0 < cursor \<longrightarrow> cursor + Milliseconds (dcLagThreshold cfg) < cwMaxUnixMS cov) \<and>
        to = min (cwMaxUnixMS cov) now \<and> repairStart cfg cov cursor < to \<and>
        frm = (if 0 < Milliseconds (dcMaxReplayWindow cfg)
         then max (repairStart cfg cov cursor) (min (cwMaxUnixMS cov) now - Milliseconds (dcMaxReplayWindow cfg))
         else repairStart cfg cov cursor)" by (auto split: if_splits)
    moreover obtain rid where "deNewV7 env a = Some rid" using assms(6) by blast
    then obtain p where p: "planRepair env cfg a cov cursor now = Some p" "grFromUnixMs (plRequest p) = frm" "grToUnixMs (plRequest p) = to"
      using Some w by (simp add: planRepair_def Let_def)
    ultimately show ?thesis unfolding p option.case by blast
  qed
qed

definition sample_detector :: DetectorConfig where
  "sample_detector = normalizeDetectorConfig \<lparr>dcProviderFilter = [], dcPollInterval = 0, dcLookbackWindow = 0, dcLagThreshold = 0,
     dcLagAlertWindow = 0, dcLagAlertThreshold = 0, dcLagAlertCooldown = 0, dcWindowPadding = 30 * second, dcMaxReplayWindow = 0,
     dcSafeDelay = 0, dcMaxObjectsPerJob = 0, dcMaxJobsPerCycle = 0, dcEvaluationWorkers = 0, dcSubjectShardCount = 0, dcDryRun = False\<rparr>"

definition sample_query :: "string \<Rightarrow> int \<Rightarrow> int \<Rightarrow> string list \<Rightarrow> string + coverage_row list \<times> string option" where
  "sample_query p f t ids = Inr (map (\<lambda>i. Inr (i, 1000, 500000, 1)) ids, None)"

definition sample_env :: detector_env where
  "sample_env = \<lparr>deCoverage = CoverageByProviderDevices sample_query, deReadSnapshot = (\<lambda>_ _. Inr (Some 100000)), deNewV7 = (\<lambda>_. Some ''r1'')\<rparr>"

lemma sample_config: "config_ok sample_detector" "0 < dcMaxJobsPerCycle sample_detector" "dcSubjectShardCount sample_detector \<noteq> 0"
  by (simp_all add: sample_detector_def config_ok_def normalizeDetectorConfig_def positiveOr_def second_def minute_def DefaultShardCount_def)

lemma sample_config_values: "Milliseconds (dcLagThreshold sample_detector) = 90000" "Milliseconds (dcWindowPadding sample_detector) = 30000"
  "Milliseconds (dcMaxReplayWindow sample_detector) = 1800000"
  by (simp_all add: sample_detector_def normalizeDetectorConfig_def positiveOr_def second_def minute_def Milliseconds_def)

definition sample_coverage :: CoverageWindow where
  "sample_coverage = \<lparr>cwProviderDeviceID = ''SN1'', cwMinUnixMS = 1000, cwMaxUnixMS = 500000, cwObjectCount = 1\<rparr>"

definition sample_assignment :: IngestAssignment where
  "sample_assignment = \<lparr>iaProvider = ''ecoflow'', iaProviderDeviceID = ''SN1'', iaDeviceID = [], iaCredentialID = ''cred-1'',
     iaProductName = [], iaModel = [], iaAccessKey = ''AK1'', iaSecretKey = ''s'', iaCredentialConfig = None, iaDeviceIsActive = True,
     iaCredentialIsActive = False, iaIngestDesiredState = ''active''\<rparr>"

theorem planRepair_window_witness:
  "\<exists>p. planRepair sample_env sample_detector sample_assignment sample_coverage 100000 600000 = Some p \<and>
     grFromUnixMs (plRequest p) = 70000 \<and> grToUnixMs (plRequest p) = 500000"
proof -
  have "deNewV7 sample_env sample_assignment \<noteq> None" by (simp add: sample_env_def)
  from planRepair_window [OF sample_config(1) _ _ _ _ this, of 100000 600000 sample_coverage]
  show ?thesis
    by (cases "planRepair sample_env sample_detector sample_assignment sample_coverage 100000 600000")
       (simp_all add: small_def sample_coverage_def validCoverage_def repairStart_def sample_config_values)
qed

text \<open>One cycle of the detector publishes the most urgent plans and no more than the limit of a cycle, whatever the
  order in which the concurrent evaluation delivers them: the plans taken are ordered by lag, and none that is left out lags
  more than one that is taken. Every candidate is counted as enqueued or as skipped; a failure to list the assignments or
  to read the coverage publishes nothing.\<close>

theorem detector_cycle:
  assumes "DetectAndEnqueue arrival env publish cfg listed now (tr, bus) = (report, err, tr', bus')"
    and "\<And>xs. mset (arrival xs) = mset xs" and "0 < dcMaxJobsPerCycle cfg"
  shows "(err \<noteq> None \<longrightarrow> bus' = bus \<and> tr' = tr) \<and>
    (\<forall>as. listed = Inr as \<longrightarrow> err = None \<longrightarrow>
       (\<exists>sel rest. mset (sel @ rest) = mset (cyclePlans env cfg now as) \<and>
          length sel = min (length (cyclePlans env cfg now as)) (nat (dcMaxJobsPerCycle cfg)) \<and>
          sorted_wrt (\<lambda>p q. plLagMs q \<le> plLagMs p) (sel @ rest) \<and>
          bus' = (if dcDryRun cfg then bus else fold (\<lambda>p b. fst (publish (plRequest p) b)) sel bus) \<and>
          drCandidates report = length (cyclePlans env cfg now as) \<and> drEnqueued report + drSkipped report = drCandidates report \<and>
          drEnqueued report \<le> length sel))"
  using assms by (rule DetectAndEnqueue_cycle)

lemma sample_listing: "ListIngestAssignments [] True sample_store3 = [sample_assignment]"
proof -
  have get: "gm_get (credentials sample_store3) ''cred-1'' = gm_get (credentials sample_store2) ''cred-1''" by (simp add: sample_upsert)
  have wanted: "gm_rows (wantedDevice (NormalizeProvider []) True) (providerDevices sample_store3) = [sample_pdev]"
    by (simp add: sample_upsert gm_rows_def wantedDevice_def sample_pdev_def NormalizeProvider_def sample_id3)
  show ?thesis
    unfolding ListIngestAssignments_def Let_def wanted creds_by_id [OF store_invD(2) [OF sample_inv3]]
    by (simp add: List.map_filter_def sample_pdev_def get sample_creds(1) assignmentOf_def sample_assignment_def cloneAnyMap_def)
qed

lemma sample_sanitize: "sanitizeAssignment sample_assignment = sample_assignment"
proof -
  have "TrimSpace ''SN1'' = ''SN1''" by code_simp
  then show ?thesis by (simp add: sanitizeAssignment_def sample_assignment_def sample_ecoflow sample_id3)
qed

lemma sample_loaded:
  "loadCoverage sample_env [sample_assignment] (fst (detectorWindow sample_detector (600000 * 1000000)))
     (snd (detectorWindow sample_detector (600000 * 1000000))) = Inr [(''ecoflow'', [(''SN1'', sample_coverage)])]"
proof -
  obtain f t where ft: "detectorWindow sample_detector (600000 * 1000000) = (f, t)" "0 < f" "0 < t" "\<not> t < f"
    by (simp add: detectorWindow_def sample_detector_def normalizeDetectorConfig_def UnixMilli_def Milliseconds_def positiveOr_def
        minute_def second_def wrap64_def)
  have sn: "TrimSpace ''SN1'' = ''SN1''" "TrimSpace ''ecoflow'' = ''ecoflow''" by code_simp+
  have ids: "idsByProvider [sample_assignment] = [(''ecoflow'', [''SN1''])]"
    by (simp add: idsByProvider_def sample_sanitize Let_def gm_put_def) (simp add: sample_assignment_def)
  have "deCoverage sample_env ''ecoflow'' [''SN1''] f t = Inr [(''SN1'', sample_coverage)]"
    using ft(2-4) by (simp add: sample_env_def CoverageByProviderDevices_def normalizeProviderDeviceIDs_def sn sample_id3 sample_query_def gm_put_def
        sample_coverage_def Let_def)
  then show ?thesis unfolding ft(1) by (simp add: loadCoverage_def ids gm_put_def)
qed

text \<open>The one plan of a cycle ten minutes after the epoch.\<close>

lemma sample_cycle:
  obtains p where "cyclePlans sample_env sample_detector (600000 * 1000000) [sample_assignment] = [p]"
    "planRepair sample_env sample_detector sample_assignment sample_coverage 100000 600000 = Some p"
proof -
  obtain p where p: "planRepair sample_env sample_detector sample_assignment sample_coverage 100000 600000 = Some p"
    using planWindow_eq [OF sample_config(1), of 100000 600000 sample_coverage]
    by (auto simp: planRepair_def sample_env_def small_def sample_coverage_def validCoverage_def repairStart_def sample_config_values Let_def)
  have "evaluateOne sample_env sample_detector [(''ecoflow'', [(''SN1'', sample_coverage)])] 600000 sample_assignment = Some p"
    using p by (simp add: evaluateOne_def gm_get_def sample_env_def) (simp add: sample_assignment_def)
  then have "cyclePlans sample_env sample_detector (600000 * 1000000) [sample_assignment] = [p]"
    unfolding cyclePlans_def sample_loaded by (simp add: List.map_filter_def sample_sanitize UnixMilli_def)
  with p show thesis by (rule that [rotated])
qed

theorem detector_cycle_witness:
  "\<exists>report tr' bus'. DetectAndEnqueue rev sample_env (\<lambda>r b. (b @ [r], None)) sample_detector (Inr [sample_assignment]) (600000 * 1000000)
      (newFailureRateTracker minute 1 minute, []) = (report, None, tr', bus') \<and> drCandidates report = 1 \<and> length bus' = 1"
proof -
  obtain p where p: "cyclePlans sample_env sample_detector (600000 * 1000000) [sample_assignment] = [p]" using sample_cycle .
  obtain report err tr' bus' where run: "DetectAndEnqueue rev sample_env (\<lambda>r b. (b @ [r], None)) sample_detector (Inr [sample_assignment])
      (600000 * 1000000) (newFailureRateTracker minute 1 minute, []) = (report, err, tr', bus')" by (metis prod_cases4)
  have err: "err = None" using run sample_loaded by (auto simp: DetectAndEnqueue_def Let_def split: prod.splits if_splits)
  have "\<not> dcDryRun sample_detector" by (simp add: sample_detector_def normalizeDetectorConfig_def)
  with detector_cycle [OF run _ sample_config(2)] err p obtain sel rest where sel: "mset (sel @ rest) = mset [p]"
    "length sel = min 1 (nat (dcMaxJobsPerCycle sample_detector))" "bus' = fold (\<lambda>p b. b @ [plRequest p]) sel []" "drCandidates report = 1"
    by auto
  from sel(2) sample_config(2) obtain q where "sel = [q]" by (auto simp: length_Suc_conv min_def split: if_splits)
  then show ?thesis using run err sel(3,4) by auto
qed

section \<open>From end to end\<close>

text \<open>C7: Whatever the detector publishes for the assignments of the control plane is repaired: the worker accepts every
  message, runs one replay for a device that is to be ingested, over a window in the past that is not empty, and then
  acknowledges the message or, when the replay failed, asks for it again; it never discards it. The message was put on the
  subject of the shard of its device.\<close>

theorem published_repairs_are_replayed:
  assumes "DetectAndEnqueue arrival env (PublishGapRepair pcfg marshal send) cfg (Inr (ListIngestAssignments flt True s)) now (tr, []) =
      (report, err, tr', bus)"
    and "deCoverage env = CoverageByProviderDevices query" and "store_inv sha s" and "\<And>xs. mset (arrival xs) = mset xs"
    and "0 < dcMaxJobsPerCycle cfg" "dcSubjectShardCount cfg \<noteq> 0"
    and "\<And>r d. marshal r = Inr d \<Longrightarrow> unmarshal d = Inr r" and "m \<in> set bus"
  shows "\<exists>a req tr2. ingested flt True s a \<and>
    handleDelivery dmo unmarshal replay t (nmData m) tr1 = (if replay req = None then Ack else Nak, Some req, tr2) \<and>
    rrProvider req = NormalizeProvider (iaProvider a) \<and> rrProviderDeviceIDs req = [ToUpper (TrimSpace (iaProviderDeviceID a))] \<and>
    0 < rrFromUnixMS req \<and> rrFromUnixMS req < rrToUnixMS req \<and> rrToUnixMS req \<le> UnixMilli now \<and>
    nmSubject m = GapRepairSubject (npSubjectConfig pcfg) (ShardForDevice (ToUpper (TrimSpace (iaProviderDeviceID a))) (dcSubjectShardCount cfg))"
  using assms by (rule cycle.published_is_replayed)

definition sample_publisher :: NATSPublisherConfig where
  "sample_publisher = normalizePublisherConfig \<lparr>npSubjectConfig = \<lparr>scPrefix = [], scShardCount = 0\<rparr>, npUseJetStream = True, npMsgIDBucket = 0\<rparr>"

theorem published_repairs_are_replayed_witness:
  "\<exists>marshal unmarshal report err tr' bus m req tr2.
     DetectAndEnqueue rev sample_env (PublishGapRepair sample_publisher marshal (\<lambda>_ _. None)) sample_detector
       (Inr (ListIngestAssignments [] True sample_store3)) (600000 * 1000000) (newFailureRateTracker minute 1 minute, []) = (report, err, tr', bus) \<and>
     m \<in> set bus \<and> handleDelivery 0 unmarshal (\<lambda>_. None) 0 (nmData m) (newFailureRateTracker minute 1 minute) = (Ack, Some req, tr2) \<and>
     0 < rrFromUnixMS req"
proof -
  let ?now = "600000 * 1000000" and ?tr = "newFailureRateTracker minute 1 minute"
  obtain p where p: "cyclePlans sample_env sample_detector ?now [sample_assignment] = [p]" using sample_cycle .
  have ok: "request_ok (plRequest p)"
    by (rule cycle.cyclePlans_mem [of sample_env sample_query sample_sha sample_store3 p sample_detector ?now "[]"])
       (use sample_inv3 sample_config(3) p in \<open>simp_all add: sample_env_def sample_listing\<close>)
  obtain n where n: "normalizeRequest sample_publisher (plRequest p) = Inr n" using normalizeRequest_ok [OF ok] by blast
  define marshal where "marshal r = (if r = n then Inr [] else Inl [] :: string + byte list)" for r
  define unmarshal where "unmarshal d = (Inr n :: string + GapRepairRequest)" for d :: "byte list"
  let ?publish = "PublishGapRepair sample_publisher marshal (\<lambda>_ _. None)"
  obtain report err tr' bus where run: "DetectAndEnqueue rev sample_env ?publish sample_detector
      (Inr (ListIngestAssignments [] True sample_store3)) ?now (?tr, []) = (report, err, tr', bus)" by (metis prod_cases4)
  have err: "err = None" using run sample_loaded by (auto simp: sample_listing DetectAndEnqueue_def Let_def split: prod.splits if_splits)
  have "\<not> dcDryRun sample_detector" by (simp add: sample_detector_def normalizeDetectorConfig_def)
  with DetectAndEnqueue_cycle [OF run _ sample_config(2)] err p obtain sel rest where sel: "mset (sel @ rest) = mset [p]"
    "length sel = min 1 (nat (dcMaxJobsPerCycle sample_detector))" "bus = fold (\<lambda>p b. fst (?publish (plRequest p) b)) sel []"
    by (auto simp: sample_listing)
  from sel(2) sample_config(2) obtain q where "sel = [q]" by (auto simp: length_Suc_conv min_def split: if_splits)
  then have "bus = fst (?publish (plRequest p) [])" using sel(1,3) by simp
  then obtain m where m: "m \<in> set bus" using n by (auto simp: PublishGapRepair_def marshal_def Let_def)
  have "deCoverage sample_env = CoverageByProviderDevices sample_query" by (simp add: sample_env_def)
  moreover have codec: "marshal r = Inr d \<Longrightarrow> unmarshal d = Inr r" for r d
    by (auto simp: marshal_def unmarshal_def split: if_splits)
  moreover have "mset (rev xs) = mset xs" for xs :: "plannedGapRepair list" by simp
  ultimately obtain req tr2 where "handleDelivery 0 unmarshal (\<lambda>_. None) 0 (nmData m) ?tr = (Ack, Some req, tr2)" "0 < rrFromUnixMS req"
    using published_repairs_are_replayed [OF run _ sample_inv3 _ sample_config(2,3) _ m, of sample_query unmarshal 0 "\<lambda>_. None" 0 ?tr] by auto
  then show ?thesis using run m by blast
qed

end
