(* ===== verification/Archive_Dedup.thy ===== *)
theory Archive_Dedup
  imports Go_Time
begin

text \<open>
  The memory of recent envelopes (\<open>internal/archiveworker/dedup.go\<close>): a map from keys to the time at
  which they expire, a queue of the entries in the order they were added, and the index of the
  queue's first live entry. The queue is a slice whose backing array grows when it is full and is
  compacted when half of it is dead; how far an array grows is left to the Go run time and is the
  argument \<open>grow\<close>. Instants are readings of the monotonic clock.
\<close>

record recentEnvelopeDeduper =
  rdWindow :: int
  rdMaxEntries :: int
  rdEntries :: "(string, int) gomap"
  rdOrder :: "(string \<times> int) list"
  rdHead :: nat
  rdCap :: nat

definition defaultDedupWindow :: int where "defaultDedupWindow = 30 * minute"

definition defaultDedupMaxEntries :: int where "defaultDedupMaxEntries = 250000"

definition newRecentEnvelopeDeduper :: "int \<Rightarrow> int \<Rightarrow> recentEnvelopeDeduper" where
  "newRecentEnvelopeDeduper window0 maxEntries0 =
     (let window = (if window0 \<le> 0 then defaultDedupWindow else window0);
          maxEntries = (if maxEntries0 \<le> 0 then defaultDedupMaxEntries else maxEntries0)
      in \<lparr>rdWindow = window, rdMaxEntries = maxEntries, rdEntries = [], rdOrder = [], rdHead = 0, rdCap = nat maxEntries\<rparr>)"

definition compact :: "recentEnvelopeDeduper \<Rightarrow> recentEnvelopeDeduper" where
  "compact d =
     (if rdHead d = 0 then d
      else if rdHead d < rdCap d div 2 \<and> int (length (rdOrder d)) - int (rdHead d) \<le> rdMaxEntries d then d
      else if int (length (rdOrder d)) - int (rdHead d) \<le> 0 then d\<lparr>rdOrder := [], rdHead := 0\<rparr>
      else d\<lparr>rdOrder := drop (rdHead d) (rdOrder d), rdHead := 0\<rparr>)"

text \<open>The loops: what they do to the map and how far they move the index, on the live part of the queue.\<close>

fun expireLoop :: "int \<Rightarrow> (string, int) gomap \<Rightarrow> (string \<times> int) list \<Rightarrow> (string, int) gomap \<times> nat" where
  "expireLoop now entries [] = (entries, 0)"
| "expireLoop now entries ((key, expiresAt) # rest) =
     (if (case gm_get entries key of None \<Rightarrow> True | Some current \<Rightarrow> current \<noteq> expiresAt \<or> \<not> now < current)
      then (case expireLoop now (gm_del key entries) rest of (entries', n) \<Rightarrow> (entries', Suc n))
      else (entries, 0))"

definition evictExpired :: "int \<Rightarrow> recentEnvelopeDeduper \<Rightarrow> recentEnvelopeDeduper" where
  "evictExpired now d =
     (if length (rdOrder d) \<le> rdHead d then d
      else case expireLoop now (rdEntries d) (drop (rdHead d) (rdOrder d)) of
             (entries, n) \<Rightarrow> compact (d\<lparr>rdEntries := entries, rdHead := rdHead d + n\<rparr>))"

fun overflowLoop :: "int \<Rightarrow> (string, int) gomap \<Rightarrow> (string \<times> int) list \<Rightarrow> (string, int) gomap \<times> nat" where
  "overflowLoop remove entries [] = (entries, 0)"
| "overflowLoop remove entries ((key, expiresAt) # rest) =
     (if remove \<le> 0 then (entries, 0)
      else if gm_get entries key \<noteq> Some expiresAt
      then (case overflowLoop remove entries rest of (entries', n) \<Rightarrow> (entries', Suc n))
      else (case overflowLoop (remove - 1) (gm_del key entries) rest of (entries', n) \<Rightarrow> (entries', Suc n)))"

definition evictOverflow :: "recentEnvelopeDeduper \<Rightarrow> recentEnvelopeDeduper" where
  "evictOverflow d =
     (if int (length (rdEntries d)) \<le> rdMaxEntries d then d
      else case overflowLoop (int (length (rdEntries d)) - rdMaxEntries d) (rdEntries d) (drop (rdHead d) (rdOrder d)) of
             (entries, n) \<Rightarrow> compact (d\<lparr>rdEntries := entries, rdHead := rdHead d + n\<rparr>))"

definition enter :: "(nat \<Rightarrow> nat) \<Rightarrow> int \<Rightarrow> string \<Rightarrow> recentEnvelopeDeduper \<Rightarrow> recentEnvelopeDeduper" where
  "enter grow now key d =
     d\<lparr>rdEntries := gm_put key (now + rdWindow d) (rdEntries d), rdOrder := rdOrder d @ [(key, now + rdWindow d)],
       rdCap := (if length (rdOrder d) < rdCap d then rdCap d else max (length (rdOrder d) + 1) (grow (rdCap d)))\<rparr>"

definition Add :: "(nat \<Rightarrow> nat) \<Rightarrow> int \<Rightarrow> string \<Rightarrow> recentEnvelopeDeduper \<Rightarrow> bool \<times> recentEnvelopeDeduper" where
  "Add grow now key0 d0 =
     (let key = TrimSpace key0
      in if key = [] then (True, d0)
         else
           (let d = evictExpired now d0
            in case gm_get (rdEntries d) key of
                 Some expiresAt \<Rightarrow> if now < expiresAt then (False, d) else (True, evictOverflow (enter grow now key d))
               | None \<Rightarrow> (True, evictOverflow (enter grow now key d))))"

section \<open>The reference\<close>

text \<open>
  What the structure is for: the list of the keys accepted within the window, oldest first, cut to
  the most recent ones where there are too many.
\<close>

definition refAdd :: "int \<Rightarrow> nat \<Rightarrow> int \<Rightarrow> string \<Rightarrow> (string \<times> int) list \<Rightarrow> bool \<times> (string \<times> int) list" where
  "refAdd window maxEntries now key0 xs =
     (let key = TrimSpace key0
      in if key = [] then (True, xs)
         else
           (let live = filter (\<lambda>(k, e). now < e) xs;
                ys = live @ [(key, now + window)]
            in if key \<in> fst ` set live then (False, live) else (True, drop (length ys - maxEntries) ys)))"

fun runAdd :: "(int \<Rightarrow> string \<Rightarrow> 's \<Rightarrow> bool \<times> 's) \<Rightarrow> (int \<times> string) list \<Rightarrow> 's \<Rightarrow> bool list \<times> 's" where
  "runAdd add [] s = ([], s)"
| "runAdd add ((now, key) # rest) s =
     (case add now key s of (r, s') \<Rightarrow> case runAdd add rest s' of (rs, s'') \<Rightarrow> (r # rs, s''))"

section \<open>The queue holds the reference\<close>

definition live :: "recentEnvelopeDeduper \<Rightarrow> (string \<times> int) list" where
  "live d = drop (rdHead d) (rdOrder d)"

text \<open>The map and the live part of the queue agree; the entries expire in the order they were added.\<close>

definition dedup_inv :: "int \<Rightarrow> recentEnvelopeDeduper \<Rightarrow> bool" where
  "dedup_inv now d \<longleftrightarrow>
     rdHead d \<le> length (rdOrder d) \<and> gm_wf (rdEntries d) \<and> gm_get (rdEntries d) = map_of (live d) \<and>
     distinct (map fst (live d)) \<and> sorted (map snd (live d)) \<and> (\<forall>(k, e) \<in> set (live d). e \<le> now + rdWindow d) \<and>
     int (length (live d)) \<le> rdMaxEntries d \<and> 0 < rdWindow d \<and> 0 < rdMaxEntries d"

lemma dedup_invD:
  assumes "dedup_inv now d"
  shows "rdHead d \<le> length (rdOrder d)" "gm_wf (rdEntries d)" "gm_get (rdEntries d) = map_of (live d)"
    "distinct (map fst (live d))" "sorted (map snd (live d))" "\<And>k e. (k, e) \<in> set (live d) \<Longrightarrow> e \<le> now + rdWindow d"
    "int (length (live d)) \<le> rdMaxEntries d" "0 < rdWindow d" "0 < rdMaxEntries d"
  using assms by (auto simp: dedup_inv_def)

lemma compact_same:
  assumes "rdHead d \<le> length (rdOrder d)"
  shows "live (compact d) = live d" "rdEntries (compact d) = rdEntries d" "rdWindow (compact d) = rdWindow d"
    "rdMaxEntries (compact d) = rdMaxEntries d" "rdHead (compact d) \<le> length (rdOrder (compact d))"
  using assms by (auto simp: compact_def live_def)

lemma compact_inv:
  assumes "rdHead d \<le> length (rdOrder d)" "live d = drop n ys" "gm_wf (rdEntries d)" "gm_get (rdEntries d) = map_of (drop n ys)"
    and "distinct (map fst ys)" "sorted (map snd ys)" "\<And>k e. (k, e) \<in> set ys \<Longrightarrow> e \<le> now + rdWindow d"
    and "int (length (drop n ys)) \<le> rdMaxEntries d" "0 < rdWindow d" "0 < rdMaxEntries d"
  shows "dedup_inv now (compact d)"
proof -
  have "distinct (map fst (drop n ys))" "sorted (map snd (drop n ys))"
    using assms(5,6) by (simp_all add: drop_map [symmetric] distinct_drop sorted_wrt_drop)
  then show ?thesis unfolding dedup_inv_def compact_same [OF assms(1)] assms(2)
    using compact_same(5) [OF assms(1)] assms(3,4,7-10) by (auto dest!: in_set_dropD)
qed

lemma del_head:
  assumes "gm_get m = map_of ((k, e) # rest)" "k \<notin> fst ` set rest"
  shows "gm_get (gm_del k m) = map_of rest"
proof
  fix x
  show "gm_get (gm_del k m) x = map_of rest x"
    using assms by (cases "x = k") (simp_all add: map_of_eq_None_iff [THEN iffD2])
qed

lemma expireLoop_spec:
  assumes "gm_get entries = map_of xs" "distinct (map fst xs)" "gm_wf entries"
  shows "case expireLoop now entries xs of (entries', n) \<Rightarrow>
     drop n xs = dropWhile (\<lambda>(k, e). e \<le> now) xs \<and> n \<le> length xs \<and> gm_get entries' = map_of (drop n xs) \<and> gm_wf entries'"
  using assms
proof (induction now entries xs rule: expireLoop.induct)
  case (2 now entries key e rest)
  have get: "gm_get entries key = Some e" using 2(2) by simp
  show ?case
  proof (cases "e \<le> now")
    case True
    have "gm_get (gm_del key entries) = map_of rest" by (rule del_head [OF 2(2)]) (use 2(3) in simp)
    from 2(1) [OF _ this] get True 2(3,4) show ?thesis by (auto split: prod.splits)
  qed (use get 2(2,4) in \<open>simp add: fun_eq_iff\<close>)
qed simp

lemma overflowLoop_spec:
  assumes "gm_get entries = map_of xs" "distinct (map fst xs)" "gm_wf entries" "0 \<le> r" "r \<le> int (length xs)"
  shows "case overflowLoop r entries xs of (entries', n) \<Rightarrow> n = nat r \<and> gm_get entries' = map_of (drop n xs) \<and> gm_wf entries'"
  using assms
proof (induction r entries xs rule: overflowLoop.induct)
  case (2 r entries key e rest)
  have get: "gm_get entries key = Some e" using 2(3) by simp
  show ?case
  proof (cases "r \<le> 0")
    case False
    have del: "gm_get (gm_del key entries) = map_of rest" by (rule del_head [OF 2(3)]) (use 2(4) in simp)
    have "case overflowLoop (r - 1) (gm_del key entries) rest of (entries', n) \<Rightarrow>
        n = nat (r - 1) \<and> gm_get entries' = map_of (drop n rest) \<and> gm_wf entries'"
      by (rule 2(2)) (use False get del 2(4-7) in simp_all)
    then show ?thesis using False get by (auto split: prod.splits simp: nat_diff_distrib Suc_nat_eq_nat_zadd1)
  qed (use 2(3,5,6) in \<open>simp add: fun_eq_iff\<close>)
qed simp

lemma entries_length:
  assumes "gm_wf m" "gm_get m = map_of xs" "distinct (map fst xs)"
  shows "length m = length xs"
proof -
  have "fst ` set m = dom (map_of m)" "fst ` set xs = dom (map_of xs)" by (simp_all add: dom_map_of_conv_image_fst)
  moreover have "map_of m = map_of xs" using assms(2) by (simp add: gm_get_def fun_eq_iff)
  ultimately have "set (map fst m) = set (map fst xs)" by simp
  with assms(1,3) show ?thesis unfolding gm_wf_def by (metis distinct_card length_map)
qed

lemma dropWhile_expired:
  fixes now :: int
  assumes "sorted (map snd xs)"
  shows "dropWhile (\<lambda>(k, e). e \<le> now) xs = filter (\<lambda>(k, e). now < e) xs"
  using assms by (induction xs) (auto simp: not_le intro!: filter_True [symmetric])

lemma evictExpired_spec:
  assumes "dedup_inv t d" "t \<le> now"
  shows "dedup_inv now (evictExpired now d)" "live (evictExpired now d) = filter (\<lambda>(k, e). now < e) (live d)"
    "rdWindow (evictExpired now d) = rdWindow d" "rdMaxEntries (evictExpired now d) = rdMaxEntries d"
proof -
  note inv = dedup_invD [OF assms(1)]
  define d1 where "d1 = (case expireLoop now (rdEntries d) (live d) of (entries, n) \<Rightarrow> d\<lparr>rdEntries := entries, rdHead := rdHead d + n\<rparr>)"
  have ev: "evictExpired now d = (if live d = [] then d else compact d1)"
    by (auto simp: evictExpired_def d1_def live_def split: prod.splits)
  obtain entries n where run: "expireLoop now (rdEntries d) (live d) = (entries, n)" by fastforce
  from expireLoop_spec [OF inv(3,4,2), of now] run
  have spec: "drop n (live d) = filter (\<lambda>(k, e). now < e) (live d)" "n \<le> length (live d)" "gm_get entries = map_of (drop n (live d))" "gm_wf entries"
    by (simp_all add: dropWhile_expired [OF inv(5)])
  have d1: "d1 = d\<lparr>rdEntries := entries, rdHead := rdHead d + n\<rparr>" by (simp add: d1_def run)
  have l1: "live d1 = drop n (live d)" by (simp add: d1 live_def add.commute)
  have h1: "rdHead d1 \<le> length (rdOrder d1)" using inv(1) spec(2) by (simp add: d1 live_def)
  note c = compact_same [OF h1]
  have le: "e \<le> now + rdWindow d" if "(k, e) \<in> set (live d)" for k e using inv(6) [OF that] assms(2) by simp
  have fits: "int (length (drop n (live d))) \<le> rdMaxEntries d" using inv(7) by simp
  have "dedup_inv now (compact d1)"
    by (rule compact_inv [OF h1 l1]) (use spec(3,4) inv(4,5,8,9) le fits in \<open>simp_all add: d1\<close>)
  moreover have "dedup_inv now d" using assms(1) le by (auto simp: dedup_inv_def)
  ultimately show "dedup_inv now (evictExpired now d)" by (simp add: ev)
  show "live (evictExpired now d) = filter (\<lambda>(k, e). now < e) (live d)" using c l1 spec(1) by (simp add: ev)
  show "rdWindow (evictExpired now d) = rdWindow d" "rdMaxEntries (evictExpired now d) = rdMaxEntries d"
    using c by (simp_all add: ev d1)
qed

lemma enter_overflow:
  assumes "dedup_inv now d" "key \<notin> fst ` set (live d)" "d' = evictOverflow (enter grow now key d)"
  shows "dedup_inv now d'" "live d' = (let ys = live d @ [(key, now + rdWindow d)] in drop (length ys - nat (rdMaxEntries d)) ys)"
    "rdWindow d' = rdWindow d" "rdMaxEntries d' = rdMaxEntries d"
proof -
  note inv = dedup_invD [OF assms(1)]
  define ys where "ys = live d @ [(key, now + rdWindow d)]"
  define e where "e = enter grow now key d"
  have e: "live e = ys" "rdHead e \<le> length (rdOrder e)" "gm_wf (rdEntries e)" "rdWindow e = rdWindow d" "rdMaxEntries e = rdMaxEntries d"
    using inv(1,2) by (simp_all add: e_def enter_def live_def ys_def)
  have none: "map_of (live d) key = None" using assms(2) by (simp add: map_of_eq_None_iff)
  have ge: "gm_get (rdEntries e) = map_of ys"
    using inv(3) none by (auto simp: e_def enter_def ys_def fun_eq_iff map_add_def split: option.splits)
  have dy: "distinct (map fst ys)" "sorted (map snd ys)" "\<And>k x. (k, x) \<in> set ys \<Longrightarrow> x \<le> now + rdWindow d"
    using inv(4,5,6) assms(2) by (auto simp: ys_def sorted_append)
  have len: "length (rdEntries e) = length ys" by (rule entries_length [OF e(3) ge dy(1)])
  have ly: "int (length ys) \<le> rdMaxEntries d + 1" using inv(7) by (simp add: ys_def)
  define d1 where "d1 = (case overflowLoop (int (length ys) - rdMaxEntries d) (rdEntries e) ys of (entries, n) \<Rightarrow> e\<lparr>rdEntries := entries, rdHead := rdHead e + n\<rparr>)"
  have ov: "d' = (if int (length ys) \<le> rdMaxEntries d then e else compact d1)"
    using e(1,5) len by (auto simp: assms(3) evictOverflow_def e_def [symmetric] d1_def live_def split: prod.splits)
  have fits: "dedup_inv now e" if "int (length ys) \<le> rdMaxEntries d"
    unfolding dedup_inv_def e using e ge dy that inv(8,9) by auto
  have cut: "dedup_inv now (compact d1) \<and> live (compact d1) = drop (length ys - nat (rdMaxEntries d)) ys \<and>
      rdWindow (compact d1) = rdWindow d \<and> rdMaxEntries (compact d1) = rdMaxEntries d" if "\<not> int (length ys) \<le> rdMaxEntries d"
  proof -
    define r where "r = int (length ys) - rdMaxEntries d"
    obtain entries n where run: "overflowLoop r (rdEntries e) ys = (entries, n)" by fastforce
    have "0 \<le> r" "r \<le> int (length ys)" using that inv(9) by (simp_all add: r_def)
    from overflowLoop_spec [OF ge dy(1) e(3) this] run
    have spec: "n = nat r" "gm_get entries = map_of (drop n ys)" "gm_wf entries" by simp_all
    have n: "n = length ys - nat (rdMaxEntries d)" using inv(9) by (simp add: spec(1) r_def nat_diff_distrib)
    have d1: "d1 = e\<lparr>rdEntries := entries, rdHead := rdHead e + n\<rparr>" using run by (simp add: d1_def r_def)
    have l1: "live d1 = drop n ys" by (simp add: d1 live_def add.commute e(1) [symmetric])
    have "n \<le> length (live e)" by (simp add: n e(1))
    then have h1: "rdHead d1 \<le> length (rdOrder d1)" using e(2) by (simp add: d1 live_def)
    have fits: "int (length (drop n ys)) \<le> rdMaxEntries d" using inv(9) by (simp add: n)
    have "dedup_inv now (compact d1)"
      by (rule compact_inv [OF h1 l1]) (use spec(2,3) dy inv(8,9) e(4,5) fits in \<open>simp_all add: d1\<close>)
    then show ?thesis using compact_same [OF h1] l1 e(4,5) n by (simp add: d1)
  qed
  show "dedup_inv now d'" "live d' = (let ys = live d @ [(key, now + rdWindow d)] in drop (length ys - nat (rdMaxEntries d)) ys)"
    "rdWindow d' = rdWindow d" "rdMaxEntries d' = rdMaxEntries d"
    using fits cut ov e unfolding ys_def [symmetric] Let_def by (auto split: if_splits)
qed

text \<open>One call of \<open>Add\<close> is one step of the reference.\<close>

lemma Add_refines:
  assumes "dedup_inv t d" "t \<le> now" "Add grow now key d = (r, d')"
  shows "dedup_inv now d' \<and> refAdd (rdWindow d) (nat (rdMaxEntries d)) now key (live d) = (r, live d') \<and>
    rdWindow d' = rdWindow d \<and> rdMaxEntries d' = rdMaxEntries d"
proof (cases "TrimSpace key = []")
  case True
  have "dedup_inv now d" using assms(1,2) by (fastforce simp: dedup_inv_def)
  then show ?thesis using assms(3) True by (simp add: Add_def refAdd_def)
next
  case False
  note ev = evictExpired_spec [OF assms(1,2)]
  let ?d = "evictExpired now d" and ?k = "TrimSpace key"
  have get: "gm_get (rdEntries ?d) ?k = map_of (live ?d) ?k" by (simp add: dedup_invD(3) [OF ev(1)])
  show ?thesis
  proof (cases "?k \<in> fst ` set (live ?d)")
    case True
    then obtain e where e: "map_of (live ?d) ?k = Some e" by (metis map_of_eq_None_iff not_None_eq)
    then have "(?k, e) \<in> set (live ?d)" by (rule map_of_SomeD)
    then have "now < e" by (simp add: ev(2))
    then have "r = False" "d' = ?d" using assms(3) False get e by (simp_all add: Add_def Let_def)
    then show ?thesis using False True ev by (simp add: refAdd_def Let_def)
  next
    case fresh: False
    then have "map_of (live ?d) ?k = None" by (simp add: map_of_eq_None_iff)
    then have r: "r = True" "d' = evictOverflow (enter grow now ?k ?d)" using assms(3) False get by (simp_all add: Add_def Let_def)
    note ov = enter_overflow [OF ev(1) fresh r(2)]
    show ?thesis using False fresh ov ev r(1) by (simp add: refAdd_def Let_def)
  qed
qed

lemma new_dedup_inv: "dedup_inv t (newRecentEnvelopeDeduper window maxEntries)" "live (newRecentEnvelopeDeduper window maxEntries) = []"
  by (simp_all add: dedup_inv_def newRecentEnvelopeDeduper_def live_def Let_def defaultDedupWindow_def defaultDedupMaxEntries_def
      minute_def second_def fun_eq_iff)

lemma runAdd_refines:
  assumes "dedup_inv t d" "sorted (t # map fst calls)" "runAdd (Add grow) calls d = (rs, d')"
  shows "runAdd (refAdd (rdWindow d) (nat (rdMaxEntries d))) calls (live d) = (rs, live d') \<and> (\<exists>t'. dedup_inv t' d') \<and>
    rdMaxEntries d' = rdMaxEntries d"
  using assms
proof (induction calls arbitrary: t d rs)
  case (Cons call calls)
  obtain now key where call: "call = (now, key)" by fastforce
  obtain r d1 where add: "Add grow now key d = (r, d1)" by fastforce
  obtain rs1 where rest: "runAdd (Add grow) calls d1 = (rs1, d')" "rs = r # rs1"
    using Cons(4) add by (auto simp: call split: prod.splits)
  have le: "t \<le> now" using Cons(3) by (simp add: call)
  note step = Add_refines [OF Cons(2) le add]
  have "sorted (now # map fst calls)" using Cons(3) by (simp add: call)
  from Cons(1) [OF _ this rest(1)] step show ?case by (simp add: call rest(2))
qed auto

text \<open>A key is remembered only after it was added.\<close>

lemma evict_keys:
  "gm_get (rdEntries (evictExpired now d)) k \<noteq> None \<Longrightarrow> gm_get (rdEntries d) k \<noteq> None"
  "gm_get (rdEntries (evictOverflow d)) k \<noteq> None \<Longrightarrow> gm_get (rdEntries d) k \<noteq> None"
proof -
  have x: "gm_get (fst (expireLoop now m xs)) k \<noteq> None \<Longrightarrow> gm_get m k \<noteq> None" for m xs
    by (induction now m xs rule: expireLoop.induct) (auto split: prod.splits if_splits option.splits)
  have v: "gm_get (fst (overflowLoop r m xs)) k \<noteq> None \<Longrightarrow> gm_get m k \<noteq> None" for r m xs
    by (induction r m xs rule: overflowLoop.induct) (auto split: prod.splits if_splits option.splits)
  have c: "rdEntries (compact d) = rdEntries d" for d by (simp add: compact_def)
  show "gm_get (rdEntries (evictExpired now d)) k \<noteq> None \<Longrightarrow> gm_get (rdEntries d) k \<noteq> None"
    using x [of "rdEntries d" "drop (rdHead d) (rdOrder d)"] by (auto simp: evictExpired_def c split: prod.splits if_splits)
  show "gm_get (rdEntries (evictOverflow d)) k \<noteq> None \<Longrightarrow> gm_get (rdEntries d) k \<noteq> None"
    using v [of "int (length (rdEntries d)) - rdMaxEntries d" "rdEntries d" "drop (rdHead d) (rdOrder d)"]
    by (auto simp: evictOverflow_def c split: prod.splits if_splits)
qed

lemma Add_keys:
  assumes "Add grow now key d = (r, d')"
  shows "gm_get (rdEntries d') k \<noteq> None \<Longrightarrow> gm_get (rdEntries d) k \<noteq> None \<or> r \<and> k = TrimSpace key \<and> k \<noteq> []"
    "\<not> r \<Longrightarrow> gm_get (rdEntries d) (TrimSpace key) \<noteq> None"
proof -
  let ?d = "evictExpired now d" and ?k = "TrimSpace key"
  have cases: "r \<and> d' = d \<and> ?k = [] \<or> ?k \<noteq> [] \<and> \<not> r \<and> d' = ?d \<and> gm_get (rdEntries ?d) ?k \<noteq> None \<or>
      ?k \<noteq> [] \<and> r \<and> d' = evictOverflow (enter grow now ?k ?d)"
    using assms by (auto simp: Add_def Let_def split: if_splits option.splits)
  show "\<not> r \<Longrightarrow> gm_get (rdEntries d) ?k \<noteq> None" using cases evict_keys(1) by blast
  assume k: "gm_get (rdEntries d') k \<noteq> None"
  have "gm_get (rdEntries ?d) k \<noteq> None \<or> k = ?k" if "d' = evictOverflow (enter grow now ?k ?d)"
    using evict_keys(2) k unfolding that by (fastforce simp: enter_def split: if_splits)
  then show "gm_get (rdEntries d) k \<noteq> None \<or> r \<and> k = ?k \<and> k \<noteq> []"
    using cases k evict_keys(1) [of now d k] by (elim disjE) auto
qed

end
