(* ===== verification/Archive_Store.thy ===== *)
theory Archive_Store
  imports Go_Time
begin

text \<open>
  Where archived telemetry goes (\<open>internal/archiveworker/store.go\<close>, \<open>manifest_store.go\<close>, \<open>outbox.go\<close>): the
  object store, the table of manifests and the directory of uploads that wait. Each is a map. A call
  of an outside service is carried out, refused, or carried out with its answer lost; which of the
  three happens is decided by the record \<open>services\<close>, which every step of a run may choose anew.
\<close>

section \<open>Calls of services\<close>

datatype call_outcome = Done | Refused string | Unanswered string

fun callEffect :: "call_outcome \<Rightarrow> ('s \<Rightarrow> 's) \<Rightarrow> 's \<Rightarrow> 's \<times> string option" where
  "callEffect Done f s = (f s, None)"
| "callEffect (Refused e) f s = (s, Some e)"
| "callEffect (Unanswered e) f s = (f s, Some e)"

lemma callEffect_None: "callEffect out f s = (s', None) \<longleftrightarrow> out = Done \<and> s' = f s"
  by (cases out) auto

lemma callEffect_cases: "callEffect out f s = (s', e) \<Longrightarrow> s' = s \<or> s' = f s"
  by (cases out) auto

section \<open>Text helpers\<close>

definition trimSlashes :: "string \<Rightarrow> string" where
  "trimSlashes s = rev (dropWhile (\<lambda>c. c = CHR ''/'') (rev (dropWhile (\<lambda>c. c = CHR ''/'') s)))"

fun dedupStrings :: "bool \<Rightarrow> string list \<Rightarrow> string list \<Rightarrow> string list \<Rightarrow> string list" where
  "dedupStrings upper seen out [] = out"
| "dedupStrings upper seen out (value # rest) =
     (let trimmed = TrimSpace value;
          normalized = (if upper then ToUpper trimmed else trimmed)
      in if trimmed = [] \<or> normalized \<in> set seen then dedupStrings upper seen out rest
         else dedupStrings upper (normalized # seen) (out @ [normalized]) rest)"

definition normalizeStringSet :: "string list \<Rightarrow> bool \<Rightarrow> string list" where
  "normalizeStringSet values upper = sort_by (by_asc id) (dedupStrings upper [] [] values)"

text \<open>The entries whose trimmed key is empty are left out; a later entry replaces an earlier one of the same key.\<close>

definition copyMetadata :: "(string, string) gomap \<Rightarrow> (string, string) gomap" where
  "copyMetadata m = fold (\<lambda>(k, v) out. if TrimSpace k = [] then out else gm_put (TrimSpace k) (TrimSpace v) out) m []"

section \<open>Data\<close>

definition defaultObjectContentType :: string where "defaultObjectContentType = ''application/x-protobuf+zstd''"

definition defaultManifestProvider :: string where "defaultManifestProvider = ''unknown''"

definition defaultManifestCompression :: string where "defaultManifestCompression = ''zstd''"

text \<open>The zero value of \<open>time.Time\<close> is the first of January of the year one.\<close>

definition zeroTime :: int where "zeroTime = - 62135596800 * second"

record PutObjectRequest =
  poBucket :: string
  poKey :: string
  poBody :: "byte list"
  poContentType :: string
  poMetadata :: "(string, string) gomap"

record ManifestRecord =
  mrProvider :: string
  mrShard :: "32 word"
  mrShardCount :: "32 word"
  mrPartitionHour :: int
  mrTSMinUnixMS :: int
  mrTSMaxUnixMS :: int
  mrRecordCount :: int
  mrObjectBucket :: string
  mrObjectKey :: string
  mrObjectSizeBytes :: int
  mrContentType :: string
  mrCompression :: string
  mrChecksumCRC32 :: string
  mrWriterID :: string
  mrDeviceIDs :: "string list"
  mrProviderDeviceIDs :: "string list"
  mrCreatedAt :: int
  mrUpdatedAt :: int

record ArchiveUploadOutboxEntry =
  oeObject :: PutObjectRequest
  oeManifest :: "ManifestRecord option"
  oeCreatedAt :: int

record archive_store =
  asObjects :: "(string \<times> string, PutObjectRequest) gomap"
  asManifests :: "(string \<times> string, ManifestRecord) gomap"
  asOutbox :: "(string, ArchiveUploadOutboxEntry) gomap"

record services =
  svNow :: int
  svCtxErr :: "string \<Rightarrow> string option"
  svEnsureBucket :: "string \<Rightarrow> string option"
  svPut :: "PutObjectRequest \<Rightarrow> call_outcome"
  svExec :: "ManifestRecord \<Rightarrow> call_outcome"
  svReadDir :: "string option"
  svReadFile :: "string \<Rightarrow> string option"
  svWriteFile :: "string \<Rightarrow> call_outcome"
  svRemoveFile :: "string \<Rightarrow> call_outcome"
  svEntrySize :: "ArchiveUploadOutboxEntry \<Rightarrow> int"

section \<open>Objects\<close>

definition PutObject :: "services \<Rightarrow> PutObjectRequest \<Rightarrow> archive_store \<Rightarrow> archive_store \<times> string option" where
  "PutObject sv request0 st =
     (let request = request0\<lparr>poBucket := TrimSpace (poBucket request0), poKey := trimSlashes (TrimSpace (poKey request0))\<rparr>
      in if poBucket request = [] then (st, Some ''object bucket is required'')
         else if poKey request = [] then (st, Some ''object key is required'')
         else if poBody request = [] then (st, Some ''object body is required'')
         else case svEnsureBucket sv (poBucket request) of
                Some e \<Rightarrow> (st, Some e)
              | None \<Rightarrow>
                  (let contentType = (if TrimSpace (poContentType request) = [] then defaultObjectContentType else TrimSpace (poContentType request));
                       stored = request\<lparr>poContentType := contentType, poMetadata := copyMetadata (poMetadata request)\<rparr>
                   in case callEffect (svPut sv request) (asObjects_update (gm_put (poBucket request, poKey request) stored)) st of
                        (st', None) \<Rightarrow> (st', None)
                      | (st', Some e) \<Rightarrow> (st', Some (''put object '' @ poBucket request @ ''/'' @ poKey request @ '': '' @ e))))"

section \<open>Manifests\<close>

definition normalizeManifestRecord :: "ManifestRecord \<Rightarrow> int \<Rightarrow> ManifestRecord" where
  "normalizeManifestRecord r now =
     r\<lparr>mrProvider := (let p = ToLower (TrimSpace (mrProvider r)) in if p = [] then defaultManifestProvider else p),
       mrPartitionHour := TruncateHour (mrPartitionHour r),
       mrObjectBucket := TrimSpace (mrObjectBucket r),
       mrObjectKey := trimSlashes (TrimSpace (mrObjectKey r)),
       mrContentType := (if TrimSpace (mrContentType r) = [] then defaultObjectContentType else TrimSpace (mrContentType r)),
       mrCompression := (let c = ToLower (TrimSpace (mrCompression r)) in if c = [] then defaultManifestCompression else c),
       mrChecksumCRC32 := ToLower (TrimSpace (mrChecksumCRC32 r)),
       mrWriterID := TrimSpace (mrWriterID r),
       mrDeviceIDs := normalizeStringSet (mrDeviceIDs r) False,
       mrProviderDeviceIDs := normalizeStringSet (mrProviderDeviceIDs r) True,
       mrCreatedAt := (if mrCreatedAt r = zeroTime then now else mrCreatedAt r),
       mrUpdatedAt := (if mrUpdatedAt r = zeroTime then now else mrUpdatedAt r)\<rparr>"

definition validateManifestRecord :: "ManifestRecord \<Rightarrow> string option" where
  "validateManifestRecord r =
     (if TrimSpace (mrProvider r) = [] then Some ''manifest provider is required''
      else if TrimSpace (mrObjectBucket r) = [] then Some ''manifest object bucket is required''
      else if TrimSpace (mrObjectKey r) = [] then Some ''manifest object key is required''
      else if TrimSpace (mrWriterID r) = [] then Some ''manifest writer id is required''
      else if mrShardCount r = 0 then Some ''manifest shard count must be positive''
      else if mrShardCount r \<le> mrShard r then Some ''manifest shard must be less than shard_count''
      else if mrRecordCount r \<le> 0 then Some ''manifest record count must be positive''
      else if mrObjectSizeBytes r \<le> 0 then Some ''manifest object size must be positive''
      else if mrTSMinUnixMS r \<le> 0 \<or> mrTSMaxUnixMS r \<le> 0 then Some ''manifest timestamps must be positive''
      else if mrTSMinUnixMS r > mrTSMaxUnixMS r then Some ''manifest timestamps must be ordered''
      else if mrPartitionHour r = zeroTime then Some ''manifest partition hour is required''
      else None)"

definition uint32ToInt32 :: "32 word \<Rightarrow> string \<Rightarrow> string + int" where
  "uint32ToInt32 value field =
     (if 2147483647 < uint value then Inl (field @ '' exceeds int32 bounds: '' @ Itoa (uint value)) else Inr (uint value))"

definition intToInt32 :: "int \<Rightarrow> string \<Rightarrow> string + int" where
  "intToInt32 value field =
     (if value < - 2147483648 \<or> 2147483647 < value then Inl (field @ '' exceeds int32 bounds: '' @ Itoa value) else Inr value)"

text \<open>The statement inserts the row or replaces all of an existing row but its time of creation.\<close>

definition upsertRow :: "ManifestRecord \<Rightarrow> archive_store \<Rightarrow> archive_store" where
  "upsertRow r st =
     (let k = (mrObjectBucket r, mrObjectKey r)
      in st\<lparr>asManifests := gm_put k (case gm_get (asManifests st) k of None \<Rightarrow> r | Some old \<Rightarrow> r\<lparr>mrCreatedAt := mrCreatedAt old\<rparr>)
             (asManifests st)\<rparr>)"

definition UpsertObjectManifest :: "services \<Rightarrow> ManifestRecord \<Rightarrow> archive_store \<Rightarrow> archive_store \<times> string option" where
  "UpsertObjectManifest sv record0 st =
     (let record = normalizeManifestRecord record0 (svNow sv)
      in case validateManifestRecord record of
           Some e \<Rightarrow> (st, Some e)
         | None \<Rightarrow>
             (case uint32ToInt32 (mrShard record) ''manifest shard'' of
                Inl e \<Rightarrow> (st, Some e)
              | Inr shard \<Rightarrow>
                  (case uint32ToInt32 (mrShardCount record) ''manifest shard_count'' of
                     Inl e \<Rightarrow> (st, Some e)
                   | Inr shardCount \<Rightarrow>
                       (case intToInt32 (mrRecordCount record) ''manifest record_count'' of
                          Inl e \<Rightarrow> (st, Some e)
                        | Inr recordCount \<Rightarrow>
                            (case callEffect (svExec sv record) (upsertRow record) st of
                               (st', None) \<Rightarrow> (st', None)
                             | (st', Some e) \<Rightarrow> (st', Some (''upsert archive object manifest '' @ mrObjectBucket record @ ''/'' @
                                 mrObjectKey record @ '': '' @ e)))))))"

section \<open>The outbox\<close>

text \<open>
  A waiting upload is a file named by the digest of its object; the file holds the entry as JSON,
  here the entry itself; the digest is an argument. A file is linked into place only if there is none of that name.
\<close>

definition normalizeArchiveOutboxEntry :: "ArchiveUploadOutboxEntry \<Rightarrow> int \<Rightarrow> string + ArchiveUploadOutboxEntry" where
  "normalizeArchiveOutboxEntry entry now =
     (let obj0 = oeObject entry;
          obj = obj0\<lparr>poBucket := TrimSpace (poBucket obj0), poKey := trimSlashes (TrimSpace (poKey obj0)),
                    poContentType := (if TrimSpace (poContentType obj0) = [] then defaultObjectContentType else TrimSpace (poContentType obj0))\<rparr>
      in if poBucket obj = [] then Inl ''archive upload outbox object bucket is required''
         else if poKey obj = [] then Inl ''archive upload outbox object key is required''
         else if poBody obj = [] then Inl ''archive upload outbox object body is required''
         else Inr \<lparr>oeObject = obj\<lparr>poMetadata := copyMetadata (poMetadata obj)\<rparr>,
                   oeManifest = map_option (\<lambda>m. normalizeManifestRecord m now) (oeManifest entry),
                   oeCreatedAt = (if oeCreatedAt entry = zeroTime then now else oeCreatedAt entry)\<rparr>)"

definition entryPath :: "(string \<Rightarrow> string) \<Rightarrow> ArchiveUploadOutboxEntry \<Rightarrow> string" where
  "entryPath sha256Hex entry = sha256Hex (poBucket (oeObject entry) @ [CHR 0x00] @ poKey (oeObject entry)) @ ''.json''"

definition pendingPaths :: "services \<Rightarrow> archive_store \<Rightarrow> string + string list" where
  "pendingPaths sv st =
     (case svReadDir sv of
        Some e \<Rightarrow> Inl (''read archive upload outbox dir: '' @ e)
      | None \<Rightarrow> Inr (sort_by (by_asc id) (map fst (asOutbox st))))"

definition checkCapacity :: "services \<Rightarrow> int \<Rightarrow> string \<Rightarrow> int \<Rightarrow> archive_store \<Rightarrow> string option" where
  "checkCapacity sv maxBytes path entryBytes st =
     (if maxBytes \<le> 0 then None
      else case svReadDir sv of
             Some e \<Rightarrow> Some (''read archive upload outbox dir for capacity: '' @ e)
           | None \<Rightarrow>
               (let used = sum_list (map (\<lambda>(p, e). if p = path then 0 else svEntrySize sv e) (asOutbox st))
                in if used + entryBytes > maxBytes
                   then Some (''archive upload outbox capacity exceeded: used='' @ Itoa used @ '' entry='' @ Itoa entryBytes @ '' max='' @ Itoa maxBytes)
                   else None))"

definition Enqueue :: "(string \<Rightarrow> string) \<Rightarrow> services \<Rightarrow> int \<Rightarrow> ArchiveUploadOutboxEntry \<Rightarrow> archive_store \<Rightarrow> archive_store \<times> string option" where
  "Enqueue sha256Hex sv maxBytes entry st =
     (case svCtxErr sv [] of
        Some e \<Rightarrow> (st, Some e)
      | None \<Rightarrow>
          (case normalizeArchiveOutboxEntry entry (svNow sv) of
             Inl e \<Rightarrow> (st, Some e)
           | Inr normalized \<Rightarrow>
               (let path = entryPath sha256Hex normalized
                in case checkCapacity sv maxBytes path (svEntrySize sv normalized) st of
                     Some e \<Rightarrow> (st, Some e)
                   | None \<Rightarrow>
                       if gm_get (asOutbox st) path \<noteq> None
                       then (st, Some ''persist archive upload outbox entry: archive upload outbox entry already exists'')
                       else case callEffect (svWriteFile sv path) (asOutbox_update (gm_put path normalized)) st of
                              (st', None) \<Rightarrow> (st', None)
                            | (st', Some e) \<Rightarrow> (st', Some (''persist archive upload outbox entry: '' @ e)))))"

definition readArchiveOutboxEntry :: "services \<Rightarrow> string \<Rightarrow> archive_store \<Rightarrow> string + ArchiveUploadOutboxEntry" where
  "readArchiveOutboxEntry sv path st =
     (case svReadFile sv path of
        Some e \<Rightarrow> Inl (''read archive upload outbox entry: '' @ e)
      | None \<Rightarrow>
          (case gm_get (asOutbox st) path of
             None \<Rightarrow> Inl ''read archive upload outbox entry: no such file''
           | Some entry \<Rightarrow> normalizeArchiveOutboxEntry entry (svNow sv)))"

text \<open>The context is read once before the loop, for which \<open>svCtxErr\<close> is asked with the empty path, and once for each file. When
  the file was removed and then an error follows, it is that of syncing the directory.\<close>

definition flushEntry :: "services \<Rightarrow> bool \<Rightarrow> string \<Rightarrow> archive_store \<Rightarrow> archive_store \<times> string option" where
  "flushEntry sv manifest path st =
     (case svCtxErr sv path of
        Some e \<Rightarrow> (st, Some e)
      | None \<Rightarrow>
          (case readArchiveOutboxEntry sv path st of
             Inl e \<Rightarrow> (st, Some e)
           | Inr entry \<Rightarrow>
               if oeManifest entry \<noteq> None \<and> \<not> manifest then (st, Some ''archive upload outbox manifest store is required'')
               else
                 (case PutObject sv (oeObject entry) st of
                    (st1, Some e) \<Rightarrow> (st1, Some (''upload archive outbox object '' @ poBucket (oeObject entry) @ ''/'' @ poKey (oeObject entry) @ '': '' @ e))
                  | (st1, None) \<Rightarrow>
                      (case (case oeManifest entry of None \<Rightarrow> (st1, None) | Some record \<Rightarrow> UpsertObjectManifest sv record st1) of
                         (st2, Some e) \<Rightarrow> (st2, Some (''persist archive outbox manifest '' @ poBucket (oeObject entry) @ ''/'' @ poKey (oeObject entry) @ '': '' @ e))
                       | (st2, None) \<Rightarrow>
                           (case callEffect (svRemoveFile sv path) (asOutbox_update (gm_del path)) st2 of
                              (st3, None) \<Rightarrow> (st3, None)
                            | (st3, Some e) \<Rightarrow> (st3, Some ((if svRemoveFile sv path = Refused e then ''remove uploaded archive outbox entry: ''
                                 else ''sync archive upload outbox dir after remove: '') @ e)))))))"

fun flushPaths :: "services \<Rightarrow> bool \<Rightarrow> string list \<Rightarrow> archive_store \<Rightarrow> archive_store \<times> string option" where
  "flushPaths sv manifest [] st = (st, None)"
| "flushPaths sv manifest (path # rest) st =
     (case flushEntry sv manifest path st of
        (st', Some e) \<Rightarrow> (st', Some e)
      | (st', None) \<Rightarrow> flushPaths sv manifest rest st')"

definition Flush :: "services \<Rightarrow> bool \<Rightarrow> archive_store \<Rightarrow> archive_store \<times> string option" where
  "Flush sv manifest st =
     (case svCtxErr sv [] of
        Some e \<Rightarrow> (st, Some e)
      | None \<Rightarrow>
          (case pendingPaths sv st of
             Inl e \<Rightarrow> (st, Some e)
           | Inr paths \<Rightarrow> flushPaths sv manifest paths st))"

end
