(* ===== verification/Envelope.thy ===== *)
theory Envelope
  imports Go_Time
begin

text \<open>
  The telemetry envelope that ingest publishes and every worker of the data plane consumes
  (\<open>gen/pulse/envelope/v1\<close>), and the key by which consumers recognise a repeated envelope
  (\<open>internal/envelopededup\<close>). The protobuf encoding is an argument of the definitions that use it.
\<close>

record TelemetryEnvelope =
  EnvelopeId :: string
  EnvelopeVersion :: "32 word"
  DeviceId :: string
  EcoflowSn :: string
  Shard :: "32 word"
  ShardCount :: "32 word"
  MessageId :: string
  DeviceTimeUnixMs :: int
  ObservedTimeUnixMs :: int
  IngestedTimeUnixMs :: int
  SourceKind :: int
  Source :: string
  TypeCode :: string
  PayloadType :: string
  PayloadVersion :: "32 word"
  PayloadEncoding :: int
  EnvPayload :: "byte list"
  Labels :: "(string, string) gomap"

definition zeroEnvelope :: TelemetryEnvelope where
  "zeroEnvelope = \<lparr>EnvelopeId = [], EnvelopeVersion = 0, DeviceId = [], EcoflowSn = [], Shard = 0, ShardCount = 0,
     MessageId = [], DeviceTimeUnixMs = 0, ObservedTimeUnixMs = 0, IngestedTimeUnixMs = 0, SourceKind = 0, Source = [],
     TypeCode = [], PayloadType = [], PayloadVersion = 0, PayloadEncoding = 0, EnvPayload = [], Labels = []\<rparr>"

text \<open>Indexing a Go map of strings gives the empty string for a missing key.\<close>

definition label :: "TelemetryEnvelope \<Rightarrow> string \<Rightarrow> string" where
  "label env k = (case gm_get (Labels env) k of None \<Rightarrow> [] | Some v \<Rightarrow> v)"

definition Key :: "TelemetryEnvelope \<Rightarrow> string" where
  "Key env =
     (let envelopeID = TrimSpace (EnvelopeId env);
          deviceID = TrimSpace (DeviceId env);
          messageID = TrimSpace (MessageId env)
      in if envelopeID \<noteq> [] then ''env:'' @ envelopeID
         else if deviceID \<noteq> [] \<and> messageID \<noteq> [] then ''msg:'' @ deviceID @ '':'' @ messageID
         else [])"

end
