(* ===== verification/Archive_Worker.thy ===== *)
theory Archive_Worker
  imports Archive_Dedup Archive_Store Envelope Gap_Model Go_Varint
begin

text \<open>
  The archive worker (\<open>internal/archiveworker/worker.go\<close>, \<open>key.go\<close>): it collects envelopes in one segment
  per hour and shard, writes a full or old segment as one compressed object with a manifest, and
  only then acknowledges the messages in it. The compressor and the protobuf encoding are arguments.
  The mutex serialises the operations, so a run is a sequence of them. What the worker told the
  message system is the list \<open>awActions\<close>; a failing acknowledgement is ignored by the code.
\<close>

unbundle bit_operations_syntax

section \<open>Keys\<close>

definition is_writer_char :: "char \<Rightarrow> bool" where
  "is_writer_char c \<longleftrightarrow> c \<in> {CHR ''a''..CHR ''z''} \<or> c \<in> {CHR ''A''..CHR ''Z''} \<or> is_digit c \<or> c \<in> {CHR ''_'', CHR ''-''}"

text \<open>\<open>ReplaceAllString\<close> with the pattern of one or more other characters: each run becomes one dash.\<close>

fun replaceRuns :: "bool \<Rightarrow> string \<Rightarrow> string" where
  "replaceRuns inRun [] = []"
| "replaceRuns inRun (c # cs) =
     (if is_writer_char c then c # replaceRuns False cs
      else if inRun then replaceRuns True cs
      else CHR ''-'' # replaceRuns True cs)"

definition trimDashes :: "string \<Rightarrow> string" where
  "trimDashes s = rev (dropWhile (\<lambda>c. c = CHR ''-'') (rev (dropWhile (\<lambda>c. c = CHR ''-'') s)))"

definition sanitizeWriterID :: "string \<Rightarrow> string" where
  "sanitizeWriterID raw =
     (if TrimSpace raw = [] then ''writer''
      else (let r = trimDashes (replaceRuns False (TrimSpace raw)) in if r = [] then ''writer'' else r))"

definition buildArchiveObjectKey :: "string \<Rightarrow> int \<Rightarrow> 32 word \<Rightarrow> int \<Rightarrow> string \<Rightarrow> string" where
  "buildArchiveObjectKey prefix0 partitionTime shard part0 writerID =
     (let prefix1 = trimSlashes (TrimSpace prefix0);
          prefix = (if prefix1 = [] then ''raw'' else prefix1);
          part = (if part0 \<le> 0 then 1 else part0);
          (year, month, day) = Date partitionTime
      in prefix @ ''/yyyy='' @ dec_signed 4 year @ ''/mm='' @ dec_signed 2 month @ ''/dd='' @ dec_signed 2 day @
         ''/hh='' @ dec_signed 2 (Hour partitionTime) @ ''/shard='' @ dec_padded 3 (unat shard) @ ''/part-'' @ dec_signed 5 part @
         ''-'' @ sanitizeWriterID writerID @ ''.pb.zst'')"

text \<open>The time of an envelope: ingestion, else observation, else the clock of the device, else the fallback.\<close>

definition envelopePartitionTime :: "TelemetryEnvelope \<Rightarrow> int \<Rightarrow> int" where
  "envelopePartitionTime env fallback =
     (let ts1 = IngestedTimeUnixMs env;
          ts2 = (if ts1 \<le> 0 then ObservedTimeUnixMs env else ts1);
          ts3 = (if ts2 \<le> 0 then DeviceTimeUnixMs env else ts2)
      in if ts3 \<le> 0 then fallback else ts3 * 1000000)"

section \<open>Checksums of objects\<close>

text \<open>\<open>crc32.ChecksumIEEE\<close>, bit by bit.\<close>

definition crc32_shift :: "32 word \<Rightarrow> 32 word" where
  "crc32_shift crc = (if crc AND 1 \<noteq> 0 then drop_bit 1 crc XOR 0xEDB88320 else drop_bit 1 crc)"

definition ChecksumIEEE :: "byte list \<Rightarrow> 32 word" where
  "ChecksumIEEE data = NOT (foldl (\<lambda>crc b. (crc32_shift ^^ 8) (crc XOR ucast b)) (- 1) data)"

section \<open>Configuration and state\<close>

record ArchiveConfig =
  acSubjectConfig :: SubjectConfig
  acStreamName :: string
  acDurable :: string
  acQueueGroup :: string
  acAckWait :: int
  acMaxAckPending :: int
  acProcessTimeout :: int
  acDrainTimeout :: int
  acFailureAlertWindow :: int
  acFailureAlertThreshold :: int
  acFailureAlertCooldown :: int
  acFlushInterval :: int
  acFlushTimeout :: int
  acMaxRecordsPerPart :: int
  acMaxBytesPerPart :: int
  acObjectBucket :: string
  acObjectPrefix :: string
  acWriterID :: string
  acZstdEncoderLevel :: int
  acDedupWindow :: int
  acDedupMaxEntries :: int

definition textOr :: "string \<Rightarrow> string \<Rightarrow> string" where
  "textOr s dflt = (if TrimSpace s = [] then dflt else s)"

text \<open>\<open>defaultWriterID\<close> is made of the host name and the process number, which the system gives.\<close>

definition normalizedArchive :: "string \<Rightarrow> ArchiveConfig \<Rightarrow> ArchiveConfig" where
  "normalizedArchive defaultWriterID c =
     c\<lparr>acSubjectConfig := Normalized (acSubjectConfig c),
       acStreamName := textOr (acStreamName c) ''PULSE_TELEMETRY_INGEST'',
       acDurable := textOr (acDurable c) ''archive-raw-v1'',
       acQueueGroup := textOr (acQueueGroup c) ''archive-raw'',
       acAckWait := positiveOr (acAckWait c) (60 * second),
       acMaxAckPending := positiveOr (acMaxAckPending c) 4096,
       acProcessTimeout := positiveOr (acProcessTimeout c) (3 * second),
       acDrainTimeout := positiveOr (acDrainTimeout c) (8 * second),
       acFailureAlertWindow := positiveOr (acFailureAlertWindow c) (10 * minute),
       acFailureAlertThreshold := positiveOr (acFailureAlertThreshold c) 6,
       acFailureAlertCooldown := positiveOr (acFailureAlertCooldown c) (5 * minute),
       acFlushInterval := positiveOr (acFlushInterval c) (30 * second),
       acFlushTimeout := positiveOr (acFlushTimeout c) (12 * second),
       acMaxRecordsPerPart := positiveOr (acMaxRecordsPerPart c) 1024,
       acMaxBytesPerPart := positiveOr (acMaxBytesPerPart c) (4 * 1024 * 1024),
       acDedupWindow := positiveOr (acDedupWindow c) defaultDedupWindow,
       acDedupMaxEntries := positiveOr (acDedupMaxEntries c) defaultDedupMaxEntries,
       acObjectBucket := textOr (acObjectBucket c) ''pulse-telemetry-raw'',
       acObjectPrefix := textOr (acObjectPrefix c) ''raw'',
       acWriterID := (let w = sanitizeWriterID (acWriterID c) in if w = [] then defaultWriterID else w)\<rparr>"

record delivery =
  dlID :: nat
  dlData :: "byte list"

record archiveSegment =
  sgHour :: int
  sgShard :: "32 word"
  sgPart :: int
  sgOpenedAt :: int
  sgWritten :: "byte list"
  sgPending :: "delivery list"
  sgRecords :: int
  sgTsMin :: int
  sgTsMax :: int
  sgProviders :: "(string, unit) gomap"
  sgDeviceIDs :: "(string, unit) gomap"
  sgProviderDeviceIDs :: "(string, unit) gomap"

record archiveRecordMeta =
  rmProvider :: string
  rmDeviceID :: string
  rmProviderDeviceID :: string

text \<open>The optional manifest store and outbox are a flag and the capacity of the outbox.\<close>

record archive_worker =
  awSegments :: "(string, archiveSegment) gomap"
  awPartCounts :: "(string, int) gomap"
  awDeduper :: recentEnvelopeDeduper
  awStore :: archive_store
  awActions :: "(nat \<times> delivery_action) list"

record archive_setup =
  suConfig :: ArchiveConfig
  suManifestStore :: bool
  suOutbox :: "int option"
  suSha256Hex :: "string \<Rightarrow> string"

definition newArchiveWorker :: "ArchiveConfig \<Rightarrow> archive_store \<Rightarrow> archive_worker" where
  "newArchiveWorker cfg st =
     \<lparr>awSegments = [], awPartCounts = [], awDeduper = newRecentEnvelopeDeduper (acDedupWindow cfg) (acDedupMaxEntries cfg),
      awStore = st, awActions = []\<rparr>"

text \<open>The encoder: whether it can be made, whether a write fails, how much of the result has reached the
  buffer so far, and the whole result when it is closed.\<close>

record zstd_encoder =
  zsNew :: "string option"
  zsWrite :: "byte list \<Rightarrow> byte list \<Rightarrow> string option"
  zsBuffered :: "byte list \<Rightarrow> int"
  zsClose :: "byte list \<Rightarrow> string + byte list"

record envelope_codec =
  ecUnmarshal :: "byte list \<Rightarrow> string + TelemetryEnvelope"
  ecMarshal :: "TelemetryEnvelope \<Rightarrow> string + byte list"

text \<open>The readings of the clock while one message is handled.\<close>

record clock =
  ckPartition :: int
  ckDedup :: int
  ckOpen :: int
  ckRecord :: int

section \<open>Segments\<close>

text \<open>The verb \<open>%d\<close> of the Unix time and \<open>%03d\<close> of the shard.\<close>

definition mapKey :: "int \<Rightarrow> 32 word \<Rightarrow> string" where
  "mapKey partitionHour shard = Itoa (partitionHour div second) @ ''/'' @ dec_padded 3 (unat shard)"

definition segmentForKeyLocked ::
    "zstd_encoder \<Rightarrow> int \<Rightarrow> int \<Rightarrow> 32 word \<Rightarrow> archive_worker \<Rightarrow> (string + archiveSegment) \<times> archive_worker" where
  "segmentForKeyLocked zs openedAt partitionHour shard w =
     (let k = mapKey partitionHour shard
      in case gm_get (awSegments w) k of
           Some existing \<Rightarrow> (Inr existing, w)
         | None \<Rightarrow>
             (let part = (case gm_get (awPartCounts w) k of None \<Rightarrow> 0 | Some n \<Rightarrow> n) + 1;
                  w1 = w\<lparr>awPartCounts := gm_put k part (awPartCounts w)\<rparr>;
                  segment = \<lparr>sgHour = partitionHour, sgShard = shard, sgPart = part, sgOpenedAt = openedAt, sgWritten = [], sgPending = [],
                    sgRecords = 0, sgTsMin = 0, sgTsMax = 0, sgProviders = [], sgDeviceIDs = [], sgProviderDeviceIDs = []\<rparr>
              in case zsNew zs of
                   Some e \<Rightarrow> (Inl (''init zstd encoder: '' @ e), w1)
                 | None \<Rightarrow> (Inr segment, w1\<lparr>awSegments := gm_put k segment (awSegments w1)\<rparr>)))"

definition addTo :: "string \<Rightarrow> (string, unit) gomap \<Rightarrow> (string, unit) gomap" where
  "addTo s m = (if s = [] then m else gm_put s () m)"

definition appendRecord :: "zstd_encoder \<Rightarrow> byte list \<Rightarrow> delivery \<Rightarrow> int \<Rightarrow> archiveRecordMeta \<Rightarrow> archiveSegment \<Rightarrow> string + archiveSegment" where
  "appendRecord zs payload d recordTs meta s =
     (if payload = [] then Inl ''archive payload is empty''
      else
        (let sizePrefix = enc_varint (word_of_nat (length payload))
         in case zsWrite zs (sgWritten s) sizePrefix of
              Some e \<Rightarrow> Inl (''write record length prefix: '' @ e)
            | None \<Rightarrow>
                (case zsWrite zs (sgWritten s @ sizePrefix) payload of
                   Some e \<Rightarrow> Inl (''write record body: '' @ e)
                 | None \<Rightarrow>
                     (let records = sgRecords s + 1
                      in Inr (s\<lparr>sgWritten := sgWritten s @ sizePrefix @ payload, sgRecords := records,
                            sgTsMin := (if records = 1 then recordTs else min recordTs (sgTsMin s)),
                            sgTsMax := (if records = 1 then recordTs else max recordTs (sgTsMax s)),
                            sgProviders := addTo (ToLower (TrimSpace (rmProvider meta))) (sgProviders s),
                            sgDeviceIDs := addTo (TrimSpace (rmDeviceID meta)) (sgDeviceIDs s),
                            sgProviderDeviceIDs := addTo (TrimSpace (rmProviderDeviceID meta)) (sgProviderDeviceIDs s),
                            sgPending := sgPending s @ [d]\<rparr>)))))"

definition manifestRecordMetaFromEnvelope :: "TelemetryEnvelope \<Rightarrow> archiveRecordMeta" where
  "manifestRecordMetaFromEnvelope env =
     (let labelled = TrimSpace (label env ''provider_device_id'')
      in \<lparr>rmProvider = TrimSpace (label env ''provider''), rmDeviceID = TrimSpace (DeviceId env),
          rmProviderDeviceID = (if labelled = [] then TrimSpace (EcoflowSn env) else labelled)\<rparr>)"

definition segmentProvider :: "(string, unit) gomap \<Rightarrow> string" where
  "segmentProvider providers =
     (case providers of [] \<Rightarrow> defaultManifestProvider | [(provider, _)] \<Rightarrow> provider | _ \<Rightarrow> ''mixed'')"

definition recordTimestampUnixMilli :: "int \<Rightarrow> TelemetryEnvelope \<Rightarrow> int" where
  "recordTimestampUnixMilli now env =
     (if 0 < IngestedTimeUnixMs env then IngestedTimeUnixMs env
      else if 0 < ObservedTimeUnixMs env then ObservedTimeUnixMs env
      else if 0 < DeviceTimeUnixMs env then DeviceTimeUnixMs env
      else UnixMilli now)"

section \<open>Settling messages\<close>

definition settle :: "delivery_action \<Rightarrow> delivery list \<Rightarrow> archive_worker \<Rightarrow> archive_worker" where
  "settle a ds w = w\<lparr>awActions := awActions w @ map (\<lambda>d. (dlID d, a)) ds\<rparr>"

definition dropSegmentLocked :: "archiveSegment \<Rightarrow> archive_worker \<Rightarrow> archive_worker" where
  "dropSegmentLocked segment w = w\<lparr>awSegments := gm_del (mapKey (sgHour segment) (sgShard segment)) (awSegments w)\<rparr>"

section \<open>Writing a segment\<close>

text \<open>The verb \<open>%q\<close> for a text without characters to escape; it occurs in error messages only.\<close>

definition quote :: "string \<Rightarrow> string" where
  "quote s = CHR 0x22 # s @ [CHR 0x22]"

definition segmentRequest :: "ArchiveConfig \<Rightarrow> archiveSegment \<Rightarrow> byte list \<Rightarrow> PutObjectRequest" where
  "segmentRequest cfg segment body =
     \<lparr>poBucket = acObjectBucket cfg,
      poKey = buildArchiveObjectKey (acObjectPrefix cfg) (sgHour segment) (sgShard segment) (sgPart segment) (acWriterID cfg),
      poBody = body, poContentType = defaultObjectContentType,
      poMetadata = [(''record_count'', Itoa (sgRecords segment)), (''ts_min_unix_ms'', Itoa (sgTsMin segment)),
        (''ts_max_unix_ms'', Itoa (sgTsMax segment)), (''shard'', Itoa (uint (sgShard segment))),
        (''shard_count'', Itoa (uint (scShardCount (acSubjectConfig cfg)))), (''writer_id'', acWriterID cfg),
        (''checksum_crc32'', hex_padded 8 (unat (ChecksumIEEE body)))]\<rparr>"

definition segmentRecord :: "ArchiveConfig \<Rightarrow> archiveSegment \<Rightarrow> PutObjectRequest \<Rightarrow> ManifestRecord" where
  "segmentRecord cfg segment req =
     \<lparr>mrProvider = segmentProvider (sgProviders segment), mrShard = sgShard segment, mrShardCount = scShardCount (acSubjectConfig cfg),
      mrPartitionHour = sgHour segment, mrTSMinUnixMS = sgTsMin segment, mrTSMaxUnixMS = sgTsMax segment, mrRecordCount = sgRecords segment,
      mrObjectBucket = poBucket req, mrObjectKey = poKey req, mrObjectSizeBytes = int (length (poBody req)), mrContentType = poContentType req,
      mrCompression = defaultManifestCompression, mrChecksumCRC32 = hex_padded 8 (unat (ChecksumIEEE (poBody req))), mrWriterID = acWriterID cfg,
      mrDeviceIDs = normalizeStringSet (map fst (sgDeviceIDs segment)) False,
      mrProviderDeviceIDs = normalizeStringSet (map fst (sgProviderDeviceIDs segment)) True, mrCreatedAt = zeroTime, mrUpdatedAt = zeroTime\<rparr>"

text \<open>Persisting an object and its manifest: into the outbox if there is one, else directly.\<close>

definition persistSegment ::
    "archive_setup \<Rightarrow> services \<Rightarrow> PutObjectRequest \<Rightarrow> ManifestRecord \<Rightarrow> archive_store \<Rightarrow> archive_store \<times> string option" where
  "persistSegment su sv req record st =
     (case suOutbox su of
        Some maxBytes \<Rightarrow>
          (case Enqueue (suSha256Hex su) sv maxBytes \<lparr>oeObject = req, oeManifest = Some record, oeCreatedAt = zeroTime\<rparr> st of
             (st', Some e) \<Rightarrow> (st', Some (''persist archive upload outbox '' @ quote (poKey req) @ '': '' @ e))
           | (st', None) \<Rightarrow> (st', None))
      | None \<Rightarrow>
          (case PutObject sv req st of
             (st', Some e) \<Rightarrow> (st', Some (''write archive object '' @ quote (poKey req) @ '': '' @ e))
           | (st', None) \<Rightarrow>
               if suManifestStore su
               then (case UpsertObjectManifest sv record st' of
                       (st'', Some e) \<Rightarrow> (st'', Some (''persist archive manifest '' @ quote (poKey req) @ '': '' @ e))
                     | (st'', None) \<Rightarrow> (st'', None))
               else (st', None)))"

definition flushSegmentLocked ::
    "archive_setup \<Rightarrow> zstd_encoder \<Rightarrow> services \<Rightarrow> archiveSegment \<Rightarrow> archive_worker \<Rightarrow> string option \<times> archive_worker" where
  "flushSegmentLocked su zs sv segment w0 =
     (let w = dropSegmentLocked segment w0; cfg = suConfig su
      in if sgRecords segment = 0 then (None, w)
         else case zsClose zs (sgWritten segment) of
                Inl e \<Rightarrow> (Some (''close zstd encoder: '' @ e), settle Nak (sgPending segment) w)
              | Inr body \<Rightarrow>
                  (let req = segmentRequest cfg segment body; record = segmentRecord cfg segment req
                   in case persistSegment su sv req record (awStore w) of
                        (st, Some e) \<Rightarrow> (Some e, settle Nak (sgPending segment) (w\<lparr>awStore := st\<rparr>))
                      | (st, None) \<Rightarrow> (None, settle Ack (sgPending segment) (w\<lparr>awStore := st\<rparr>))))"

text \<open>The loops over the map of segments remember the first error.\<close>

fun flushEach ::
    "archive_setup \<Rightarrow> zstd_encoder \<Rightarrow> services \<Rightarrow> archiveSegment list \<Rightarrow> string option \<times> archive_worker \<Rightarrow> string option \<times> archive_worker" where
  "flushEach su zs sv [] r = r"
| "flushEach su zs sv (segment # rest) (firstErr, w) =
     (case flushSegmentLocked su zs sv segment w of
        (err, w') \<Rightarrow> flushEach su zs sv rest (if firstErr = None then err else firstErr, w'))"

definition flushDue :: "archive_setup \<Rightarrow> zstd_encoder \<Rightarrow> services \<Rightarrow> int \<Rightarrow> archive_worker \<Rightarrow> string option \<times> archive_worker" where
  "flushDue su zs sv now w =
     flushEach su zs sv (filter (\<lambda>s. \<not> timeSub now (sgOpenedAt s) < acFlushInterval (suConfig su)) (map snd (awSegments w))) (None, w)"

definition flushAll :: "archive_setup \<Rightarrow> zstd_encoder \<Rightarrow> services \<Rightarrow> archive_worker \<Rightarrow> string option \<times> archive_worker" where
  "flushAll su zs sv w = flushEach su zs sv (map snd (awSegments w)) (None, w)"

definition flushArchiveOutbox :: "archive_setup \<Rightarrow> services \<Rightarrow> archive_store \<Rightarrow> archive_store \<times> string option" where
  "flushArchiveOutbox su sv st = (case suOutbox su of None \<Rightarrow> (st, None) | Some _ \<Rightarrow> Flush sv (suManifestStore su) st)"

definition withOutbox :: "archive_setup \<Rightarrow> services \<Rightarrow> archive_worker \<Rightarrow> archive_worker" where
  "withOutbox su sv w = w\<lparr>awStore := fst (flushArchiveOutbox su sv (awStore w))\<rparr>"

section \<open>Handling a message\<close>

definition deliveryKey :: "ArchiveConfig \<Rightarrow> int \<Rightarrow> TelemetryEnvelope \<Rightarrow> int \<times> 32 word" where
  "deliveryKey cfg now env =
     (TruncateHour (envelopePartitionTime env now),
      if ShardCount env = 0 \<or> ShardCount env \<le> Shard env
      then ShardForDevice (TrimSpace (DeviceId env)) (scShardCount (acSubjectConfig cfg)) else Shard env)"

definition bufferDelivery ::
    "archive_setup \<Rightarrow> zstd_encoder \<Rightarrow> services \<Rightarrow> clock \<Rightarrow> TelemetryEnvelope \<Rightarrow> byte list \<Rightarrow> delivery \<Rightarrow> archive_worker \<Rightarrow> string option \<times> archive_worker" where
  "bufferDelivery su zs sv ck env payload d w =
     (let cfg = suConfig su; (partitionHour, shard) = deliveryKey cfg (ckPartition ck) env
      in case segmentForKeyLocked zs (ckOpen ck) partitionHour shard w of
           (Inl e, w1) \<Rightarrow> (Some e, settle Nak [d] w1)
         | (Inr segment, w1) \<Rightarrow>
             (case appendRecord zs payload d (recordTimestampUnixMilli (ckRecord ck) env) (manifestRecordMetaFromEnvelope env) segment of
                Inl e \<Rightarrow> (Some (''append envelope to archive segment: '' @ e), dropSegmentLocked segment (settle Nak [d] w1))
              | Inr segment' \<Rightarrow>
                  (let w2 = w1\<lparr>awSegments := gm_put (mapKey partitionHour shard) segment' (awSegments w1)\<rparr>
                   in if acMaxRecordsPerPart cfg \<le> sgRecords segment' \<or> acMaxBytesPerPart cfg \<le> zsBuffered zs (sgWritten segment')
                      then flushSegmentLocked su zs sv segment' w2
                      else (None, w2))))"

definition processDelivery ::
    "archive_setup \<Rightarrow> (nat \<Rightarrow> nat) \<Rightarrow> envelope_codec \<Rightarrow> zstd_encoder \<Rightarrow> services \<Rightarrow> clock \<Rightarrow> delivery \<Rightarrow> archive_worker \<Rightarrow>
       string option \<times> archive_worker" where
  "processDelivery su grow ec zs sv ck d w =
     (case ecUnmarshal ec (dlData d) of
        Inl e \<Rightarrow> (Some (''unmarshal telemetry envelope: '' @ e), settle Term [d] w)
      | Inr env \<Rightarrow>
          (case ecMarshal ec env of
             Inl e \<Rightarrow> (Some (''marshal telemetry envelope for archive: '' @ e), settle Term [d] w)
           | Inr payload \<Rightarrow>
               (let dedupKey = TrimSpace (Key env)
                in if dedupKey \<noteq> []
                   then (case Add grow (ckDedup ck) dedupKey (awDeduper w) of
                           (False, dd) \<Rightarrow> (None, settle Ack [d] (w\<lparr>awDeduper := dd\<rparr>))
                         | (True, dd) \<Rightarrow> bufferDelivery su zs sv ck env payload d (w\<lparr>awDeduper := dd\<rparr>))
                   else bufferDelivery su zs sv ck env payload d w)))"

section \<open>Runs\<close>

text \<open>
  What happens to a worker: the outbox is flushed at the start, messages arrive, the ticker of \<open>Run\<close>
  fires, and at the end everything is flushed. Each event brings the answers of the services while it
  is handled. The outbox is flushed without the mutex; as a flush may stop at any file, the messages
  that arrive meanwhile are those of the events between two such flushes.
\<close>

datatype archive_event = Deliver services clock delivery | Tick services int | FlushOutbox services | Shutdown services

definition stopWorker :: "archive_setup \<Rightarrow> zstd_encoder \<Rightarrow> services \<Rightarrow> archive_worker \<Rightarrow> string option \<times> archive_worker" where
  "stopWorker su zs sv w =
     (case flushAll su zs sv w of
        (Some e, w') \<Rightarrow> (Some (''flush archive segments on shutdown: '' @ e), w')
      | (None, w') \<Rightarrow> (None, withOutbox su sv w'))"

fun archiveStep ::
    "archive_setup \<Rightarrow> (nat \<Rightarrow> nat) \<Rightarrow> envelope_codec \<Rightarrow> zstd_encoder \<Rightarrow> archive_event \<Rightarrow> archive_worker \<Rightarrow> archive_worker" where
  "archiveStep su grow ec zs (Deliver sv ck d) w = snd (processDelivery su grow ec zs sv ck d w)"
| "archiveStep su grow ec zs (Tick sv now) w = withOutbox su sv (snd (flushDue su zs sv now w))"
| "archiveStep su grow ec zs (FlushOutbox sv) w = withOutbox su sv w"
| "archiveStep su grow ec zs (Shutdown sv) w = snd (stopWorker su zs sv w)"

definition archiveRun ::
    "archive_setup \<Rightarrow> (nat \<Rightarrow> nat) \<Rightarrow> envelope_codec \<Rightarrow> zstd_encoder \<Rightarrow> archive_event list \<Rightarrow> archive_worker \<Rightarrow> archive_worker" where
  "archiveRun su grow ec zs = fold (archiveStep su grow ec zs)"

end
