(* ===== verification/Archive_Uploads.thy ===== *)
theory Archive_Uploads
  imports Archive_Worker
begin

text \<open>
  The two ways an object is persisted, directly or through the outbox, keep one contract: an object
  that was accepted under a key of its own stays, whatever else is persisted or flushed. The keys of
  the segments are such keys.
\<close>

section \<open>Object keys\<close>

definition objectPrefix :: "string \<Rightarrow> string" where
  "objectPrefix prefix0 = (let p = trimSlashes (TrimSpace prefix0) in if p = [] then ''raw'' else p)"

definition normal_key :: "string \<Rightarrow> bool" where
  "normal_key k \<longleftrightarrow> k \<noteq> [] \<and> trimSlashes (TrimSpace k) = k"

lemma trimSlashes_id:
  assumes "s \<noteq> []" "hd s \<noteq> CHR ''/''" "last s \<noteq> CHR ''/''"
  shows "trimSlashes s = s"
proof -
  have "dropWhile (\<lambda>c. c = CHR ''/'') s = s" using assms(1,2) by (cases s) simp_all
  moreover have "dropWhile (\<lambda>c. c = CHR ''/'') (rev s) = rev s" using assms(1,3) by (cases s rule: rev_cases) simp_all
  ultimately show ?thesis by (simp add: trimSlashes_def)
qed

lemma writer_char_inner: "is_writer_char c \<Longrightarrow> c \<notin> set edge_bytes \<and> c \<noteq> CHR ''/''"
  by (auto simp: is_writer_char_def is_digit_def edge_bytes_def space_runes_def less_eq_char_def)

lemma normal_keyI:
  assumes "k \<noteq> []" "is_writer_char (hd k)" "is_writer_char (last k)"
  shows "normal_key k"
proof -
  have "TrimSpace k = k" by (rule TrimSpace_trimmed, rule trimmedI) (use assms writer_char_inner in simp)
  then show ?thesis using assms trimSlashes_id [of k] writer_char_inner by (auto simp: normal_key_def)
qed

definition segKey :: "ArchiveConfig \<Rightarrow> int \<Rightarrow> 32 word \<Rightarrow> int \<Rightarrow> string" where
  "segKey cfg hr shard part = buildArchiveObjectKey (acObjectPrefix cfg) hr shard part (acWriterID cfg)"

definition prefix_ok :: "ArchiveConfig \<Rightarrow> bool" where
  "prefix_ok cfg \<longleftrightarrow> is_writer_char (hd (objectPrefix (acObjectPrefix cfg)))"

lemma segKey_normal:
  assumes "prefix_ok cfg"
  shows "normal_key (segKey cfg hr shard part)"
proof -
  have ne: "objectPrefix (acObjectPrefix cfg) \<noteq> []" by (simp add: objectPrefix_def Let_def)
  have op: "(if trimSlashes (TrimSpace p) = [] then ''raw'' else trimSlashes (TrimSpace p)) = objectPrefix p" for p
    by (simp add: objectPrefix_def Let_def)
  obtain y m d where date: "Date hr = (y, m, d)" by (metis prod_cases3)
  have "is_writer_char CHR ''t''" by (simp add: is_writer_char_def less_eq_char_def)
  then show ?thesis
    using assms ne unfolding segKey_def buildArchiveObjectKey_def Let_def date prod.case op
    by (intro normal_keyI) (simp_all add: prefix_ok_def hd_append)
qed

text \<open>Hour, shard and part can be read off a key.\<close>

lemma segKey_inj:
  assumes "segKey cfg hr shard part = segKey cfg hr' shard' part'" "TruncateHour hr = hr" "TruncateHour hr' = hr'" "1 \<le> part" "1 \<le> part'"
  shows "hr = hr' \<and> shard = shard' \<and> part = part'"
proof -
  obtain y m d where d: "Date hr = (y, m, d)" by (metis prod_cases3)
  obtain y' m' d' where d': "Date hr' = (y', m', d')" by (metis prod_cases3)
  have slash: "\<not> is_digit CHR ''/''" "\<not> is_digit CHR ''-''" by (simp_all add: is_digit_def less_eq_char_def)
  note cut = dec_signed_delimited [OF _ slash(1)] and cut' = dec_signed_delimited [OF _ slash(2)]
  have pad: "dec_padded 3 n = dec_signed 3 (int n)" for n by (simp add: dec_signed_def)
  from assms(1,4,5) have "y = y' \<and> m = m' \<and> d = d' \<and> Hour hr = Hour hr' \<and> int (unat shard) = int (unat shard') \<and> part = part'"
    unfolding segKey_def buildArchiveObjectKey_def Let_def d d' prod.case pad
    by (auto simp: dec_signed_inj dest!: cut cut')
  then have "Date hr = Date hr'" "Hour hr = Hour hr'" "shard = shard'" "part = part'" by (simp_all add: d d' word_uint_eq_iff)
  then show ?thesis using Date_Hour_inj [of hr hr'] assms(2,3) by simp
qed

section \<open>What the calls change\<close>

lemma PutObject_effect:
  assumes "PutObject sv req st = (st', e)"
  shows "asOutbox st' = asOutbox st" "asManifests st' = asManifests st"
    "k \<noteq> (TrimSpace (poBucket req), trimSlashes (TrimSpace (poKey req))) \<Longrightarrow> gm_get (asObjects st') k = gm_get (asObjects st) k"
    "e = None \<Longrightarrow> map_option poBody (gm_get (asObjects st') (TrimSpace (poBucket req), trimSlashes (TrimSpace (poKey req)))) = Some (poBody req)"
  using assms by (auto simp: PutObject_def Let_def callEffect_None split: if_splits option.splits prod.splits dest!: callEffect_cases)

text \<open>A row holds the normalized record, with a time of creation that may be older.\<close>

definition rowOf :: "ManifestRecord \<Rightarrow> ManifestRecord \<Rightarrow> bool" where
  "rowOf r row \<longleftrightarrow> (\<exists>now created. row = (normalizeManifestRecord r now)\<lparr>mrCreatedAt := created\<rparr>)"

lemma rowOf_normalized: "rowOf r (normalizeManifestRecord r now)" "rowOf r ((normalizeManifestRecord r now)\<lparr>mrCreatedAt := created\<rparr>)"
  unfolding rowOf_def by (rule exI [of _ now], rule exI [of _ "mrCreatedAt (normalizeManifestRecord r now)"], simp) blast

lemma UpsertObjectManifest_effect:
  assumes "UpsertObjectManifest sv r st = (st', e)"
  shows "asOutbox st' = asOutbox st" "asObjects st' = asObjects st"
    "k \<noteq> (TrimSpace (mrObjectBucket r), trimSlashes (TrimSpace (mrObjectKey r))) \<Longrightarrow> gm_get (asManifests st') k = gm_get (asManifests st) k"
    "e = None \<Longrightarrow> \<exists>row. gm_get (asManifests st') (TrimSpace (mrObjectBucket r), trimSlashes (TrimSpace (mrObjectKey r))) = Some row \<and> rowOf r row"
proof -
  let ?n = "normalizeManifestRecord r (svNow sv)"
  have k: "mrObjectBucket ?n = TrimSpace (mrObjectBucket r)" "mrObjectKey ?n = trimSlashes (TrimSpace (mrObjectKey r))"
    by (simp_all add: normalizeManifestRecord_def)
  have "st' = st \<or> st' = upsertRow ?n st"
    using assms by (auto simp: UpsertObjectManifest_def Let_def split: if_splits option.splits prod.splits sum.splits dest!: callEffect_cases)
  moreover have "e = None \<Longrightarrow> st' = upsertRow ?n st"
    using assms by (auto simp: UpsertObjectManifest_def Let_def callEffect_None split: if_splits option.splits prod.splits sum.splits)
  ultimately show "asOutbox st' = asOutbox st" "asObjects st' = asObjects st"
    "k \<noteq> (TrimSpace (mrObjectBucket r), trimSlashes (TrimSpace (mrObjectKey r))) \<Longrightarrow> gm_get (asManifests st') k = gm_get (asManifests st) k"
    "e = None \<Longrightarrow> \<exists>row. gm_get (asManifests st') (TrimSpace (mrObjectBucket r), trimSlashes (TrimSpace (mrObjectKey r))) = Some row \<and> rowOf r row"
    by (auto simp: upsertRow_def Let_def k rowOf_normalized split: option.splits)
qed

section \<open>The contract\<close>

definition bodies :: "archive_store \<Rightarrow> byte list set" where
  "bodies st = {poBody o1 |k o1. gm_get (asObjects st) k = Some o1} \<union> {poBody (oeObject e) |p e. gm_get (asOutbox st) p = Some e}"

text \<open>
  \<open>kept st k b r\<close>: the bytes \<open>b\<close> that were persisted with the record \<open>r\<close> under the key \<open>k\<close> are in the
  store, or on the way there. A client that persists under ever new keys never loses what was
  accepted.
\<close>

definition recordFor :: "PutObjectRequest \<Rightarrow> ManifestRecord \<Rightarrow> bool" where
  "recordFor req r \<longleftrightarrow> mrObjectBucket r = poBucket req \<and> mrObjectKey r = poKey req"

locale upload_path =
  fixes su :: archive_setup and wf :: "archive_store \<Rightarrow> bool" and kept :: "archive_store \<Rightarrow> string \<Rightarrow> byte list \<Rightarrow> ManifestRecord \<Rightarrow> bool"
  assumes persist_wf: "wf st \<Longrightarrow> normal_key (poKey req) \<Longrightarrow> persistSegment su sv req rec st = (st', e) \<Longrightarrow> wf st'"
    and persist_kept: "wf st \<Longrightarrow> normal_key (poKey req) \<Longrightarrow> poBucket req = acObjectBucket (suConfig su) \<Longrightarrow> recordFor req rec \<Longrightarrow>
      persistSegment su sv req rec st = (st', None) \<Longrightarrow> kept st' (poKey req) (poBody req) rec"
    and persist_other: "wf st \<Longrightarrow> normal_key (poKey req) \<Longrightarrow> recordFor req rec \<Longrightarrow> persistSegment su sv req rec st = (st', e) \<Longrightarrow>
      kept st k b r \<Longrightarrow> k \<noteq> poKey req \<Longrightarrow> kept st' k b r"
    and tidy_wf: "wf st \<Longrightarrow> flushArchiveOutbox su sv st = (st', e) \<Longrightarrow> wf st'"
    and tidy_kept: "wf st \<Longrightarrow> kept st k b r \<Longrightarrow> flushArchiveOutbox su sv st = (st', e) \<Longrightarrow> kept st' k b r"
    and kept_body: "kept st k b r \<Longrightarrow> b \<in> bodies st"

section \<open>Direct uploads\<close>

definition objectHeld :: "archive_setup \<Rightarrow> archive_store \<Rightarrow> string \<Rightarrow> byte list \<Rightarrow> bool" where
  "objectHeld su st k b \<longleftrightarrow> map_option poBody (gm_get (asObjects st) (TrimSpace (acObjectBucket (suConfig su)), k)) = Some b"

lemma objectHeld_body: "objectHeld su st k b \<Longrightarrow> b \<in> bodies st"
  by (auto simp: objectHeld_def bodies_def)

lemma direct_persist:
  assumes "persistSegment (su\<lparr>suOutbox := None\<rparr>) sv req rec st = (st', e)" "normal_key (poKey req)"
  shows "k \<noteq> poKey req \<Longrightarrow> objectHeld su st k b \<Longrightarrow> objectHeld su st' k b"
    "e = None \<Longrightarrow> poBucket req = acObjectBucket (suConfig su) \<Longrightarrow> objectHeld su st' (poKey req) (poBody req)"
proof -
  obtain st1 e1 where put: "PutObject sv req st = (st1, e1)" by fastforce
  have obj: "asObjects st' = asObjects st1" "e = None \<Longrightarrow> e1 = None"
    using assms(1) put by (auto simp: persistSegment_def split: option.splits if_splits prod.splits dest: UpsertObjectManifest_effect(2))
  note eff = PutObject_effect [OF put]
  have k: "trimSlashes (TrimSpace (poKey req)) = poKey req" using assms(2) by (simp add: normal_key_def)
  show "k \<noteq> poKey req \<Longrightarrow> objectHeld su st k b \<Longrightarrow> objectHeld su st' k b" using eff(3) obj by (auto simp: objectHeld_def k)
  show "e = None \<Longrightarrow> poBucket req = acObjectBucket (suConfig su) \<Longrightarrow> objectHeld su st' (poKey req) (poBody req)"
    using eff(4) obj by (simp add: objectHeld_def k)
qed

interpretation direct: upload_path "su\<lparr>suOutbox := None\<rparr>" "\<lambda>_. True" "\<lambda>st k b r. objectHeld su st k b" for su
proof
  fix st req sv rec st' e k b
  show "normal_key (poKey req) \<Longrightarrow> poBucket req = acObjectBucket (suConfig (su\<lparr>suOutbox := None\<rparr>)) \<Longrightarrow>
      persistSegment (su\<lparr>suOutbox := None\<rparr>) sv req rec st = (st', None) \<Longrightarrow> objectHeld su st' (poKey req) (poBody req)"
    by (simp add: direct_persist(2))
  show "normal_key (poKey req) \<Longrightarrow> persistSegment (su\<lparr>suOutbox := None\<rparr>) sv req rec st = (st', e) \<Longrightarrow>
      objectHeld su st k b \<Longrightarrow> k \<noteq> poKey req \<Longrightarrow> objectHeld su st' k b" by (rule direct_persist(1))
  show "objectHeld su st k b \<Longrightarrow> flushArchiveOutbox (su\<lparr>suOutbox := None\<rparr>) sv st = (st', e) \<Longrightarrow> objectHeld su st' k b"
    by (simp add: flushArchiveOutbox_def)
qed (simp_all add: objectHeld_body)

text \<open>With a manifest store, what was accepted is also indexed: the row of its record is there.\<close>

definition indexedAt :: "archive_setup \<Rightarrow> archive_store \<Rightarrow> string \<Rightarrow> byte list \<Rightarrow> ManifestRecord \<Rightarrow> bool" where
  "indexedAt su st k b r \<longleftrightarrow> objectHeld su st k b \<and>
     (\<exists>row. gm_get (asManifests st) (TrimSpace (acObjectBucket (suConfig su)), k) = Some row \<and> rowOf r row)"

lemma indexed_persist:
  assumes "persistSegment (su\<lparr>suManifestStore := True, suOutbox := None\<rparr>) sv req rec st = (st', e)" "normal_key (poKey req)" "recordFor req rec"
  shows "k \<noteq> poKey req \<Longrightarrow> indexedAt su st k b r \<Longrightarrow> indexedAt su st' k b r"
    "e = None \<Longrightarrow> poBucket req = acObjectBucket (suConfig su) \<Longrightarrow> indexedAt su st' (poKey req) (poBody req) rec"
proof -
  let ?su = "su\<lparr>suManifestStore := True\<rparr>"
  have held: "objectHeld ?su = objectHeld su" by (simp add: objectHeld_def fun_eq_iff)
  have "persistSegment (?su\<lparr>suOutbox := None\<rparr>) sv req rec st = (st', e)" using assms(1) by simp
  note direct = direct_persist [OF this assms(2), unfolded held]
  have key: "trimSlashes (TrimSpace (poKey req)) = poKey req" using assms(2) by (simp add: normal_key_def)
  obtain st1 e1 where put: "PutObject sv req st = (st1, e1)" by fastforce
  have same: "asManifests st1 = asManifests st" by (rule PutObject_effect(2) [OF put])
  obtain st2 e2 where up: "UpsertObjectManifest sv rec st1 = (st2, e2)" by fastforce
  have cases: "e \<noteq> None \<and> st' = st1 \<or> st' = st2 \<and> (e = None \<longrightarrow> e2 = None)"
    using assms(1) put up by (auto simp: persistSegment_def split: option.splits)
  note eff = UpsertObjectManifest_effect(3,4) [OF up, unfolded assms(3) [unfolded recordFor_def, THEN conjunct1] assms(3) [unfolded recordFor_def, THEN conjunct2] key]
  show "k \<noteq> poKey req \<Longrightarrow> indexedAt su st k b r \<Longrightarrow> indexedAt su st' k b r"
    using direct(1) cases eff(1) same by (auto simp: indexedAt_def)
  show "e = None \<Longrightarrow> poBucket req = acObjectBucket (suConfig su) \<Longrightarrow> indexedAt su st' (poKey req) (poBody req) rec"
    using direct(2) cases eff(2) by (auto simp: indexedAt_def)
qed

interpretation indexed: upload_path "su\<lparr>suManifestStore := True, suOutbox := None\<rparr>" "\<lambda>_. True" "indexedAt su" for su
proof
  fix st req sv rec st' e k b r
  show "normal_key (poKey req) \<Longrightarrow> poBucket req = acObjectBucket (suConfig (su\<lparr>suManifestStore := True, suOutbox := None\<rparr>)) \<Longrightarrow> recordFor req rec \<Longrightarrow>
      persistSegment (su\<lparr>suManifestStore := True, suOutbox := None\<rparr>) sv req rec st = (st', None) \<Longrightarrow> indexedAt su st' (poKey req) (poBody req) rec"
    by (simp add: indexed_persist(2))
  show "normal_key (poKey req) \<Longrightarrow> recordFor req rec \<Longrightarrow> persistSegment (su\<lparr>suManifestStore := True, suOutbox := None\<rparr>) sv req rec st = (st', e) \<Longrightarrow>
      indexedAt su st k b r \<Longrightarrow> k \<noteq> poKey req \<Longrightarrow> indexedAt su st' k b r" by (rule indexed_persist(1))
  show "indexedAt su st k b r \<Longrightarrow> flushArchiveOutbox (su\<lparr>suManifestStore := True, suOutbox := None\<rparr>) sv st = (st', e) \<Longrightarrow> indexedAt su st' k b r"
    by (simp add: flushArchiveOutbox_def)
  show "indexedAt su st k b r \<Longrightarrow> b \<in> bodies st" by (auto simp: indexedAt_def dest: objectHeld_body)
qed simp_all

section \<open>Uploads through the outbox\<close>

definition outbox_wf :: "(string \<Rightarrow> string) \<Rightarrow> archive_store \<Rightarrow> bool" where
  "outbox_wf sha st \<longleftrightarrow>
     (\<forall>p e. gm_get (asOutbox st) p = Some e \<longrightarrow>
        p = entryPath sha e \<and> normal_key (poKey (oeObject e)) \<and> TrimSpace (poBucket (oeObject e)) = poBucket (oeObject e))"

definition pathOf :: "(string \<Rightarrow> string) \<Rightarrow> string \<Rightarrow> string \<Rightarrow> string" where
  "pathOf sha bucket k = sha (bucket @ [CHR 0x00] @ k) @ ''.json''"

text \<open>The upload that waits for a key, if there is one.\<close>

definition waiting :: "archive_setup \<Rightarrow> archive_store \<Rightarrow> string \<Rightarrow> ArchiveUploadOutboxEntry option" where
  "waiting su st k =
     (let bucket = TrimSpace (acObjectBucket (suConfig su))
      in case gm_get (asOutbox st) (pathOf (suSha256Hex su) bucket k) of
           None \<Rightarrow> None
         | Some e \<Rightarrow> if poBucket (oeObject e) = bucket \<and> poKey (oeObject e) = k then Some e else None)"

definition uploadHeld :: "archive_setup \<Rightarrow> archive_store \<Rightarrow> string \<Rightarrow> byte list \<Rightarrow> bool" where
  "uploadHeld su st k b \<longleftrightarrow> (case waiting su st k of Some e \<Rightarrow> poBody (oeObject e) = b | None \<Rightarrow> objectHeld su st k b)"

lemma uploadHeld_body: "uploadHeld su st k b \<Longrightarrow> b \<in> bodies st"
  by (auto simp: uploadHeld_def waiting_def bodies_def objectHeld_def Let_def split: option.splits if_splits)

lemma normalize_entry:
  assumes "normalizeArchiveOutboxEntry entry now = Inr n"
  shows "poBucket (oeObject n) = TrimSpace (poBucket (oeObject entry))" "poKey (oeObject n) = trimSlashes (TrimSpace (poKey (oeObject entry)))"
    "poBody (oeObject n) = poBody (oeObject entry)" "poBody (oeObject n) \<noteq> []" "oeManifest n = None \<longleftrightarrow> oeManifest entry = None"
  using assms by (auto simp: normalizeArchiveOutboxEntry_def Let_def split: if_splits)

lemma Enqueue_cases:
  assumes "Enqueue sha sv maxBytes entry st = (st', e)"
  obtains "st' = st" "e \<noteq> None"
  | n where "st' = st\<lparr>asOutbox := gm_put (entryPath sha n) n (asOutbox st)\<rparr>" "gm_get (asOutbox st) (entryPath sha n) = None"
      "normalizeArchiveOutboxEntry entry (svNow sv) = Inr n"
proof (cases "normalizeArchiveOutboxEntry entry (svNow sv)")
  case (Inl err)
  with assms have "st' = st" "e \<noteq> None" by (cases "svCtxErr sv []"; auto simp: Enqueue_def)+
  then show ?thesis by (rule that(1))
next
  case (Inr n)
  show ?thesis
  proof (cases "st' = st \<and> e \<noteq> None")
    case True
    then show ?thesis using that(1) by simp
  next
    case False
    have out: "gm_get (asOutbox st) (entryPath sha n) = None"
      using assms Inr False by (auto simp: Enqueue_def Let_def split: if_splits option.splits)
    moreover have "st' = st\<lparr>asOutbox := gm_put (entryPath sha n) n (asOutbox st)\<rparr>"
      using assms Inr False out
      by (cases "svWriteFile sv (entryPath sha n)") (auto simp: Enqueue_def Let_def split: if_splits option.splits)
    ultimately show ?thesis using that(2) Inr by blast
  qed
qed

lemma entryPath_pathOf: "entryPath sha e = pathOf sha (poBucket (oeObject e)) (poKey (oeObject e))"
  by (simp add: entryPath_def pathOf_def)

text \<open>An upload that is added to the outbox waits there under its key and changes nothing for the others.\<close>

lemma waiting_put:
  assumes "gm_get (asOutbox st) (entryPath (suSha256Hex su) n) = None"
  shows "waiting su (st\<lparr>asOutbox := gm_put (entryPath (suSha256Hex su) n) n (asOutbox st)\<rparr>) k =
    (if poBucket (oeObject n) = TrimSpace (acObjectBucket (suConfig su)) \<and> poKey (oeObject n) = k then Some n else waiting su st k)"
  using assms by (auto simp: waiting_def Let_def entryPath_pathOf split: option.splits if_splits)

lemma waiting_cong: "asOutbox st' = asOutbox st \<Longrightarrow> waiting su st' k = waiting su st k"
  by (simp add: waiting_def)

lemma objectHeld_cong: "asObjects st' = asObjects st \<Longrightarrow> objectHeld su st' k b \<longleftrightarrow> objectHeld su st k b"
  by (simp add: objectHeld_def)

lemma objectHeld_outbox [simp]: "objectHeld su (st\<lparr>asOutbox := x\<rparr>) k b \<longleftrightarrow> objectHeld su st k b"
  by (rule objectHeld_cong) simp

lemma boxed_persist:
  assumes "persistSegment (su\<lparr>suOutbox := Some m\<rparr>) sv req rec st = (st', e)" "normal_key (poKey req)"
  shows "outbox_wf (suSha256Hex su) st \<Longrightarrow> outbox_wf (suSha256Hex su) st'"
    "k \<noteq> poKey req \<Longrightarrow> uploadHeld su st k b \<Longrightarrow> uploadHeld su st' k b"
    "e = None \<Longrightarrow> poBucket req = acObjectBucket (suConfig su) \<Longrightarrow> uploadHeld su st' (poKey req) (poBody req)"
proof -
  let ?entry = "\<lparr>oeObject = req, oeManifest = Some rec, oeCreatedAt = zeroTime\<rparr>"
  obtain e1 where enq: "Enqueue (suSha256Hex su) sv m ?entry st = (st', e1)" "e = None \<longleftrightarrow> e1 = None"
    using assms(1) by (auto simp: persistSegment_def split: prod.splits option.splits)
  have "(outbox_wf (suSha256Hex su) st \<longrightarrow> outbox_wf (suSha256Hex su) st') \<and>
    (k \<noteq> poKey req \<longrightarrow> uploadHeld su st k b \<longrightarrow> uploadHeld su st' k b) \<and>
    (e = None \<longrightarrow> poBucket req = acObjectBucket (suConfig su) \<longrightarrow> uploadHeld su st' (poKey req) (poBody req))"
    using enq(1)
  proof (cases rule: Enqueue_cases)
    case (2 n)
    note n = normalize_entry [OF 2(3)]
    have key: "poKey (oeObject n) = poKey req" "normal_key (poKey (oeObject n))" using n(2) assms(2) by (simp_all add: normal_key_def)
    show ?thesis
      using key n(1,3) unfolding uploadHeld_def 2(1) waiting_put [OF 2(2)]
      by (auto simp: outbox_wf_def 2(1) split: option.splits)
  qed (use enq(2) in auto)
  then show "outbox_wf (suSha256Hex su) st \<Longrightarrow> outbox_wf (suSha256Hex su) st'"
    "k \<noteq> poKey req \<Longrightarrow> uploadHeld su st k b \<Longrightarrow> uploadHeld su st' k b"
    "e = None \<Longrightarrow> poBucket req = acObjectBucket (suConfig su) \<Longrightarrow> uploadHeld su st' (poKey req) (poBody req)" by blast+
qed

text \<open>One step of a flush: the object is written, and only then its file removed.\<close>

lemma flushEntry_cases:
  assumes "flushEntry sv manifest path st = (st', e)" "outbox_wf sha st"
  obtains "st' = st"
  | entry n st1 e1 where "gm_get (asOutbox st) path = Some entry" "PutObject sv n st = (st1, e1)"
      "poBucket n = poBucket (oeObject entry)" "poKey n = poKey (oeObject entry)" "poBody n = poBody (oeObject entry)"
      "asObjects st' = asObjects st1" "asOutbox st' = asOutbox st \<or> e1 = None \<and> asOutbox st' = gm_del path (asOutbox st)"
proof (cases "\<exists>n. readArchiveOutboxEntry sv path st = Inr n \<and> svCtxErr sv path = None \<and> (oeManifest n = None \<or> manifest)")
  case False
  with assms(1) have "st' = st" by (auto simp: flushEntry_def split: option.splits sum.splits if_splits)
  then show ?thesis by (rule that(1))
next
  case True
  then obtain n where n: "readArchiveOutboxEntry sv path st = Inr n" "svCtxErr sv path = None" "oeManifest n = None \<or> manifest" by blast
  then obtain entry where entry: "gm_get (asOutbox st) path = Some entry" "normalizeArchiveOutboxEntry entry (svNow sv) = Inr n"
    by (auto simp: readArchiveOutboxEntry_def split: option.splits)
  note norm = normalize_entry [OF entry(2)]
  obtain st1 e1 where put: "PutObject sv (oeObject n) st = (st1, e1)" by fastforce
  have same: "poBucket (oeObject n) = poBucket (oeObject entry)" "poKey (oeObject n) = poKey (oeObject entry)"
    using assms(2) entry(1) norm(1,2) by (simp_all add: outbox_wf_def normal_key_def)
  obtain st2 e2 where up: "(case oeManifest n of None \<Rightarrow> (st1, None) | Some r \<Rightarrow> UpsertObjectManifest sv r st1) = (st2, e2)" by fastforce
  then have same2: "asOutbox st2 = asOutbox st1" "asObjects st2 = asObjects st1"
    by (auto split: option.splits dest: UpsertObjectManifest_effect)
  have "flushEntry sv manifest path st = (case e1 of Some x \<Rightarrow> (st1, Some (''upload archive outbox object '' @ poBucket (oeObject n) @ ''/'' @ poKey (oeObject n) @ '': '' @ x))
      | None \<Rightarrow> (case e2 of Some x \<Rightarrow> (st2, Some (''persist archive outbox manifest '' @ poBucket (oeObject n) @ ''/'' @ poKey (oeObject n) @ '': '' @ x))
      | None \<Rightarrow> (case callEffect (svRemoveFile sv path) (asOutbox_update (gm_del path)) st2 of (st3, None) \<Rightarrow> (st3, None)
          | (st3, Some x) \<Rightarrow> (st3, Some ((if svRemoveFile sv path = Refused x then ''remove uploaded archive outbox entry: ''
              else ''sync archive upload outbox dir after remove: '') @ x)))))"
    using n up by (auto simp: flushEntry_def put split: option.splits prod.splits)
  then have "asObjects st' = asObjects st1" "asOutbox st' = asOutbox st \<or> e1 = None \<and> asOutbox st' = gm_del path (asOutbox st)"
    using assms(1) same2 PutObject_effect(1) [OF put] by (auto split: option.splits prod.splits dest!: callEffect_cases)
  then show ?thesis using that(2) [OF entry(1) put same norm(3)] by blast
qed

lemma outbox_path:
  "outbox_wf sha st \<Longrightarrow> gm_get (asOutbox st) p = Some e \<Longrightarrow> p = pathOf sha (poBucket (oeObject e)) (poKey (oeObject e))"
  by (simp add: outbox_wf_def entryPath_pathOf)

lemma waiting_unique:
  assumes "gm_get (asOutbox st) path = Some entry" "outbox_wf (suSha256Hex su) st"
    "poBucket (oeObject entry) = TrimSpace (acObjectBucket (suConfig su))" "poKey (oeObject entry) = k"
  shows "waiting su st k = Some entry"
  using assms(1,3,4) outbox_path [OF assms(2,1)] by (simp add: waiting_def Let_def)

lemma waiting_del:
  assumes "gm_get (asOutbox st) path = Some entry" "outbox_wf (suSha256Hex su) st" "asOutbox st' = gm_del path (asOutbox st)"
  shows "waiting su st' k = (if poBucket (oeObject entry) = TrimSpace (acObjectBucket (suConfig su)) \<and> poKey (oeObject entry) = k
    then None else waiting su st k)"
proof -
  let ?p = "pathOf (suSha256Hex su) (TrimSpace (acObjectBucket (suConfig su))) k"
  show ?thesis
  proof (cases "?p = path")
    case True
    then show ?thesis using assms by (simp add: waiting_def Let_def)
  next
    case False
    then show ?thesis using outbox_path [OF assms(2,1)] assms(3) by (auto simp: waiting_def Let_def)
  qed
qed

lemma flushEntry_keeps:
  assumes "flushEntry sv manifest path st = (st', e)" "outbox_wf (suSha256Hex su) st"
  shows "outbox_wf (suSha256Hex su) st' \<and> (uploadHeld su st k b \<longrightarrow> uploadHeld su st' k b)"
  using assms
proof (cases rule: flushEntry_cases)
  case (2 entry n st1 e1)
  let ?own = "poBucket (oeObject entry) = TrimSpace (acObjectBucket (suConfig su)) \<and> poKey (oeObject entry) = k"
  have wf: "outbox_wf (suSha256Hex su) st'" using assms(2) 2(7) by (auto simp: outbox_wf_def split: if_splits)
  have norm: "TrimSpace (poBucket n) = poBucket n" "trimSlashes (TrimSpace (poKey n)) = poKey n"
    using assms(2) 2(1,3,4) by (auto simp: outbox_wf_def normal_key_def)
  note eff = PutObject_effect [OF 2(2), unfolded norm]
  have "uploadHeld su st' k b" if held: "uploadHeld su st k b"
  proof (cases ?own)
    case True
    then have w: "waiting su st k = Some entry" by (intro waiting_unique [OF 2(1) assms(2)]) simp_all
    with held have b: "poBody (oeObject entry) = b" by (simp add: uploadHeld_def)
    from 2(7) show ?thesis
    proof
      assume "asOutbox st' = asOutbox st"
      from waiting_cong [OF this] w b show ?thesis by (simp add: uploadHeld_def)
    next
      assume del: "e1 = None \<and> asOutbox st' = gm_del path (asOutbox st)"
      with eff(4) b True have "objectHeld su st' k b" by (simp add: objectHeld_def 2(3-6))
      then show ?thesis using waiting_del [OF 2(1) assms(2)] del True by (simp add: uploadHeld_def)
    qed
  next
    case False
    then have "waiting su st' k = waiting su st k" using 2(7) waiting_del [OF 2(1) assms(2)] waiting_cong by metis
    moreover have "objectHeld su st' k b = objectHeld su st k b" using eff(3) False by (auto simp: objectHeld_def 2(3,4,6))
    ultimately show ?thesis using held by (simp add: uploadHeld_def split: option.splits)
  qed
  with wf show ?thesis by blast
qed (use assms in simp)

lemma Flush_keeps:
  assumes "Flush sv manifest st = (st', e)" "outbox_wf (suSha256Hex su) st"
  shows "outbox_wf (suSha256Hex su) st' \<and> (uploadHeld su st k b \<longrightarrow> uploadHeld su st' k b)"
proof -
  have "outbox_wf (suSha256Hex su) st' \<and> (uploadHeld su st k b \<longrightarrow> uploadHeld su st' k b)"
    if "flushPaths sv manifest paths st = (st', e)" "outbox_wf (suSha256Hex su) st" for paths st
    using that
  proof (induction paths arbitrary: st)
    case (Cons path paths)
    obtain st1 e1 where step: "flushEntry sv manifest path st = (st1, e1)" by fastforce
    note keeps = flushEntry_keeps [OF step Cons(3), of k b]
    show ?case
    proof (cases e1)
      case None
      with Cons(2) step have "flushPaths sv manifest paths st1 = (st', e)" by simp
      from Cons(1) [OF this] keeps show ?thesis by blast
    qed (use Cons(2) step keeps in auto)
  qed auto
  then show ?thesis using assms by (auto simp: Flush_def split: sum.splits option.splits)
qed

interpretation boxed: upload_path "su\<lparr>suOutbox := Some m\<rparr>" "outbox_wf (suSha256Hex su)" "\<lambda>st k b r. uploadHeld su st k b" for su m
proof
  fix st req sv rec st' e k b
  show "outbox_wf (suSha256Hex su) st \<Longrightarrow> normal_key (poKey req) \<Longrightarrow> persistSegment (su\<lparr>suOutbox := Some m\<rparr>) sv req rec st = (st', e) \<Longrightarrow>
      outbox_wf (suSha256Hex su) st'" by (rule boxed_persist(1))
  show "normal_key (poKey req) \<Longrightarrow> poBucket req = acObjectBucket (suConfig (su\<lparr>suOutbox := Some m\<rparr>)) \<Longrightarrow>
      persistSegment (su\<lparr>suOutbox := Some m\<rparr>) sv req rec st = (st', None) \<Longrightarrow> uploadHeld su st' (poKey req) (poBody req)"
    by (simp add: boxed_persist(3))
  show "normal_key (poKey req) \<Longrightarrow> persistSegment (su\<lparr>suOutbox := Some m\<rparr>) sv req rec st = (st', e) \<Longrightarrow>
      uploadHeld su st k b \<Longrightarrow> k \<noteq> poKey req \<Longrightarrow> uploadHeld su st' k b" by (rule boxed_persist(2))
  show "outbox_wf (suSha256Hex su) st \<Longrightarrow> flushArchiveOutbox (su\<lparr>suOutbox := Some m\<rparr>) sv st = (st', e) \<Longrightarrow> outbox_wf (suSha256Hex su) st'"
    "outbox_wf (suSha256Hex su) st \<Longrightarrow> uploadHeld su st k b \<Longrightarrow> flushArchiveOutbox (su\<lparr>suOutbox := Some m\<rparr>) sv st = (st', e) \<Longrightarrow> uploadHeld su st' k b"
    using Flush_keeps [of sv "suManifestStore su" st st' e su k b] by (simp_all add: flushArchiveOutbox_def)
qed (simp_all add: uploadHeld_body)

end
