(* ===== verification/Replay_Frames.thy ===== *)
theory Replay_Frames
  imports Go_Varint
begin

text \<open>
  The records of an archive object (\<open>internal/replaycli/decoder.go\<close>): each is its length as a varint,
  followed by its bytes. The loop of the decoder has no bound of its own, so it is a partial
  function, and that it returns is a theorem. Decompression is an argument.
\<close>

section \<open>The decoder\<close>

definition readErrorText :: "read_error \<Rightarrow> string" where
  "readErrorText e = (case e of EOF \<Rightarrow> ''EOF'' | ErrUnexpectedEOF \<Rightarrow> ''unexpected EOF'' | ErrOverflow \<Rightarrow> ''binary: varint overflows a 64-bit integer'')"

partial_function (option) decodeLoop :: "byte list \<Rightarrow> byte list list \<Rightarrow> (string + byte list list) option" where
  "decodeLoop reader out =
     (case ReadUvarint reader of
        Inl e \<Rightarrow> if e = EOF then Some (Inr out) else Some (Inl (''read envelope frame size: '' @ readErrorText e))
      | Inr (sz, rest) \<Rightarrow>
          if sz = 0 then Some (Inl ''invalid envelope frame size: 0'')
          else if length rest < unat sz
          then Some (Inl (''truncated envelope frame: declared='' @ Itoa (uint sz) @ '' remaining='' @ Itoa (int (length rest))))
          else decodeLoop (drop (unat sz) rest) (out @ [take (unat sz) rest]))"

definition DecodeEnvelopeFrames :: "(byte list \<Rightarrow> string + byte list) \<Rightarrow> byte list \<Rightarrow> (string + byte list list) option" where
  "DecodeEnvelopeFrames decodeAll payload =
     (if payload = [] then Some (Inr [])
      else case decodeAll payload of
             Inl e \<Rightarrow> Some (Inl (''zstd decode archive object: '' @ e))
           | Inr decoded \<Rightarrow> decodeLoop decoded [])"

section \<open>What the archive writes\<close>

definition frameOf :: "byte list \<Rightarrow> byte list" where
  "frameOf payload = enc_varint (word_of_nat (length payload)) @ payload"

text \<open>A record has at least one byte and its length is a 64-bit number.\<close>

definition frame_ok :: "byte list \<Rightarrow> bool" where
  "frame_ok p \<longleftrightarrow> p \<noteq> [] \<and> length p < 2 ^ 64"

lemma decodeLoop_returns: "\<exists>r. decodeLoop reader out = Some r"
proof (induction "length reader" arbitrary: reader out rule: less_induct)
  case less
  show ?case
  proof (cases "ReadUvarint reader")
    case (Inr p)
    obtain sz rest where p: "p = (sz, rest)" by fastforce
    have "length (drop (unat sz) rest) < length reader" using ReadUvarint_shorter [OF Inr [unfolded p]] by simp
    from less [OF this] show ?thesis using Inr p by (subst decodeLoop.simps) auto
  qed (subst decodeLoop.simps, simp)
qed

text \<open>A size and one byte: a record takes two bytes at least.\<close>

lemma decodeLoop_bound:
  assumes "decodeLoop reader out = Some (Inr frames)"
  shows "2 * length frames \<le> 2 * length out + length reader"
  using assms
proof (induction "length reader" arbitrary: reader out rule: less_induct)
  case less
  show ?case
  proof (cases "ReadUvarint reader")
    case (Inl e)
    with less(2) show ?thesis by (subst (asm) decodeLoop.simps) (auto split: if_splits)
  next
    case (Inr p)
    obtain sz rest where p: "p = (sz, rest)" by fastforce
    have shorter: "length rest < length reader" by (rule ReadUvarint_shorter [OF Inr [unfolded p]])
    from less(2) have s: "sz \<noteq> 0" "unat sz \<le> length rest"
        "decodeLoop (drop (unat sz) rest) (out @ [take (unat sz) rest]) = Some (Inr frames)"
      unfolding decodeLoop.simps [of reader] Inr p by (simp_all split: if_splits)
    have "0 < unat sz" using s(1) by (simp add: unat_gt_0)
    moreover have "2 * length frames \<le> 2 * length (out @ [take (unat sz) rest]) + length (drop (unat sz) rest)"
      by (rule less(1) [OF _ s(3)]) (use shorter in simp)
    ultimately show ?thesis using shorter s(2) by simp
  qed
qed

lemma decodeLoop_frame:
  assumes "frame_ok p"
  shows "decodeLoop (frameOf p @ rest) out = decodeLoop rest (out @ [p])"
proof -
  have n: "unat (word_of_nat (length p) :: 64 word) = length p" using assms by (simp add: frame_ok_def unat_of_nat)
  have "(word_of_nat (length p) :: 64 word) \<noteq> 0" using assms n by (metis frame_ok_def length_0_conv unat_0)
  with n show ?thesis
    by (subst decodeLoop.simps) (simp add: frameOf_def ReadUvarint_enc)
qed

lemma decodeLoop_frames:
  assumes "\<forall>p \<in> set ps. frame_ok p"
  shows "decodeLoop (concat (map frameOf ps)) out = Some (Inr (out @ ps))"
  using assms
proof (induction ps arbitrary: out)
  case Nil
  show ?case by (subst decodeLoop.simps) (simp add: ReadUvarint_def)
qed (simp add: decodeLoop_frame)

section \<open>Truncated objects\<close>

lemma readUvarint_prefix:
  assumes "varint_room i v" "n < length (enc_varint v)"
  shows "readUvarintFrom i acc (take n (enc_varint v)) = Inl (if i = 0 \<and> n = 0 then EOF else ErrUnexpectedEOF)"
  using assms
proof (induction v arbitrary: i n acc rule: enc_varint.induct)
  case (1 v)
  have i: "\<not> 10 \<le> i" using 1(2) by (simp add: varint_room_def)
  show ?case
  proof (cases n)
    case 0
    with i show ?thesis by simp
  next
    case (Suc m)
    then have big: "\<not> v < 0x80" using 1(3) by (auto simp: enc_varint.simps [of v])
    from 1(1) [OF big varint_room_step [OF 1(2) big], of m] 1(3) big Suc i show ?thesis
      by (simp add: enc_varint.simps [of v] enc_varint_low)
  qed
qed

text \<open>Of a truncated stream the decoder never makes up a record: it fails, or the cut is between two records.\<close>

lemma decodeLoop_cut:
  assumes "\<forall>p \<in> set ps. frame_ok p" "decodeLoop (take n (concat (map frameOf ps))) out = Some (Inr frames)"
  shows "\<exists>k \<le> length ps. frames = out @ take k ps \<and> take n (concat (map frameOf ps)) = concat (map frameOf (take k ps))"
  using assms
proof (induction ps arbitrary: out n)
  case Nil
  then show ?case by (subst (asm) decodeLoop.simps) (simp add: ReadUvarint_def)
next
  case (Cons p ps)
  let ?v = "word_of_nat (length p) :: 64 word"
  have ok: "frame_ok p" using Cons(2) by simp
  have len: "unat ?v = length p" using ok by (simp add: frame_ok_def unat_of_nat)
  consider "length (frameOf p) \<le> n" | "n = 0" | "0 < n" "n < length (enc_varint ?v)" | "length (enc_varint ?v) \<le> n" "n < length (frameOf p)"
    by linarith
  then show ?case
  proof cases
    case 1
    then have split: "take n (concat (map frameOf (p # ps))) = frameOf p @ take (n - length (frameOf p)) (concat (map frameOf ps))" by simp
    from Cons(3) obtain k where "k \<le> length ps" "frames = (out @ [p]) @ take k ps"
        "take (n - length (frameOf p)) (concat (map frameOf ps)) = concat (map frameOf (take k ps))"
      unfolding split decodeLoop_frame [OF ok] using Cons(1,2) by (metis list.set_intros(2))
    then show ?thesis unfolding split by (intro exI [where x = "Suc k"]) simp
  next
    case 2
    with Cons(3) show ?thesis by (subst (asm) decodeLoop.simps) (auto simp: ReadUvarint_def)
  next
    case 3
    then have "take n (concat (map frameOf (p # ps))) = take n (enc_varint ?v)" by (simp add: frameOf_def)
    with Cons(3) readUvarint_prefix [OF varint_room_0 3(2), of 0] 3(1) show ?thesis
      by (subst (asm) decodeLoop.simps) (simp add: ReadUvarint_def)
  next
    case 4
    then have "take n (concat (map frameOf (p # ps))) = enc_varint ?v @ take (n - length (enc_varint ?v)) p"
      "length (take (n - length (enc_varint ?v)) p) < length p" by (auto simp: frameOf_def)
    with Cons(3) len show ?thesis by (subst (asm) decodeLoop.simps) (simp add: ReadUvarint_enc split: if_splits)
  qed
qed

end
