(* ===== verification/Archive_Runs.thy ===== *)
theory Archive_Runs
  imports Archive_Uploads Replay_Frames
begin

text \<open>
  What holds in every run of the archive worker, whichever way it persists objects: an open segment
  holds exactly the records of the messages that wait in it, every key of an object is used once,
  and a message is acknowledged only when its record is kept or when it repeats an earlier message.
\<close>

lemma distinct_map_split:
  assumes "distinct (map f xs)" "xs = as @ a # bs" "xs = cs @ c # ds" "f a = f c"
  shows "cs = as \<and> c = a"
proof -
  have "xs ! length as = a" "length as < length xs" by (simp_all add: assms(2))
  moreover have "xs ! length cs = c" "length cs < length xs" by (simp_all add: assms(3))
  ultimately have "length as = length cs" using assms(1,4) by (metis length_map nth_eq_iff_index_eq nth_map)
  then show ?thesis using assms(2,3) by simp
qed

section \<open>Messages and their records\<close>

definition keyOf :: "envelope_codec \<Rightarrow> delivery \<Rightarrow> string" where
  "keyOf ec d = (case ecUnmarshal ec (dlData d) of Inl _ \<Rightarrow> [] | Inr env \<Rightarrow> TrimSpace (Key env))"

definition payloadOf :: "envelope_codec \<Rightarrow> delivery \<Rightarrow> byte list option" where
  "payloadOf ec d =
     (case ecUnmarshal ec (dlData d) of
        Inl _ \<Rightarrow> None
      | Inr env \<Rightarrow> (case ecMarshal ec env of Inl _ \<Rightarrow> None | Inr p \<Rightarrow> Some p))"

fun deliveredBy :: "archive_event \<Rightarrow> delivery list" where
  "deliveredBy (Deliver sv ck d) = [d]"
| "deliveredBy (Tick sv now) = []"
| "deliveredBy (FlushOutbox sv) = []"
| "deliveredBy (Shutdown sv) = []"

definition deliveries :: "archive_event list \<Rightarrow> delivery list" where
  "deliveries evs = concat (map deliveredBy evs)"

definition codec_small :: "envelope_codec \<Rightarrow> bool" where
  "codec_small ec \<longleftrightarrow> (\<forall>env p. ecMarshal ec env = Inr p \<longrightarrow> length p < 2 ^ 64)"

section \<open>The invariant\<close>

text \<open>The metadata of a segment cover the envelopes in it.\<close>

definition stamped :: "TelemetryEnvelope \<Rightarrow> bool" where
  "stamped env \<longleftrightarrow> 0 < IngestedTimeUnixMs env \<or> 0 < ObservedTimeUnixMs env \<or> 0 < DeviceTimeUnixMs env"

definition covers :: "archiveSegment \<Rightarrow> TelemetryEnvelope \<Rightarrow> bool" where
  "covers s env \<longleftrightarrow>
     (stamped env \<longrightarrow> sgTsMin s \<le> recordTimestampUnixMilli 0 env \<and> recordTimestampUnixMilli 0 env \<le> sgTsMax s) \<and>
     (rmDeviceID (manifestRecordMetaFromEnvelope env) \<noteq> [] \<longrightarrow>
        rmDeviceID (manifestRecordMetaFromEnvelope env) \<in> fst ` set (sgDeviceIDs s)) \<and>
     (rmProviderDeviceID (manifestRecordMetaFromEnvelope env) \<noteq> [] \<longrightarrow>
        rmProviderDeviceID (manifestRecordMetaFromEnvelope env) \<in> fst ` set (sgProviderDeviceIDs s))"

definition providerOf :: "TelemetryEnvelope \<Rightarrow> string" where
  "providerOf env = ToLower (TrimSpace (label env ''provider''))"

definition segment_indexed :: "envelope_codec \<Rightarrow> archiveSegment \<Rightarrow> bool" where
  "segment_indexed ec s \<longleftrightarrow>
     (\<forall>d env. d \<in> set (sgPending s) \<longrightarrow> ecUnmarshal ec (dlData d) = Inr env \<longrightarrow> covers s env) \<and>
     gm_wf (sgProviders s) \<and>
     (\<forall>x. x \<in> fst ` set (sgProviders s) \<longleftrightarrow> x \<noteq> [] \<and> (\<exists>d env. d \<in> set (sgPending s) \<and> ecUnmarshal ec (dlData d) = Inr env \<and> x = providerOf env))"

definition segment_ok :: "envelope_codec \<Rightarrow> delivery list \<Rightarrow> archiveSegment \<Rightarrow> bool" where
  "segment_ok ec ds s \<longleftrightarrow>
     TruncateHour (sgHour s) = sgHour s \<and> 1 \<le> sgPart s \<and> segment_indexed ec s \<and>
     (\<exists>ps. sgWritten s = concat (map frameOf ps) \<and> sgRecords s = int (length ps) \<and> (\<forall>p \<in> set ps. frame_ok p) \<and>
        list_all2 (\<lambda>d p. d \<in> set ds \<and> payloadOf ec d = Some p) (sgPending s) ps)"

text \<open>A part of an hour and a shard that has been handed out and is not the one of the open segment.\<close>

definition used :: "archive_worker \<Rightarrow> int \<Rightarrow> 32 word \<Rightarrow> int \<Rightarrow> bool" where
  "used w hr shard part \<longleftrightarrow>
     TruncateHour hr = hr \<and> 1 \<le> part \<and> (\<exists>n. gm_get (awPartCounts w) (mapKey hr shard) = Some n \<and> part \<le> n) \<and>
     (\<forall>s. gm_get (awSegments w) (mapKey hr shard) = Some s \<longrightarrow> part < sgPart s)"

text \<open>A segment in which the message waited was persisted, with its record.\<close>

definition persisted ::
    "(archive_store \<Rightarrow> string \<Rightarrow> byte list \<Rightarrow> ManifestRecord \<Rightarrow> bool) \<Rightarrow> ArchiveConfig \<Rightarrow> envelope_codec \<Rightarrow> zstd_encoder \<Rightarrow>
       delivery list \<Rightarrow> archive_worker \<Rightarrow> delivery \<Rightarrow> bool" where
  "persisted kept cfg ec zs ds w d \<longleftrightarrow>
     (\<exists>s body. used w (sgHour s) (sgShard s) (sgPart s) \<and> segment_ok ec ds s \<and> d \<in> set (sgPending s) \<and> zsClose zs (sgWritten s) = Inr body \<and>
        kept (awStore w) (segKey cfg (sgHour s) (sgShard s) (sgPart s)) body (segmentRecord cfg s (segmentRequest cfg s body)))"

definition ack_reason :: "envelope_codec \<Rightarrow> (delivery \<Rightarrow> bool) \<Rightarrow> delivery list \<Rightarrow> nat \<Rightarrow> bool" where
  "ack_reason ec safe ds i \<longleftrightarrow>
     (\<exists>ds1 d ds2 p. ds = ds1 @ d # ds2 \<and> dlID d = i \<and> payloadOf ec d = Some p \<and>
        (safe d \<or> keyOf ec d \<noteq> [] \<and> keyOf ec d \<in> keyOf ec ` set ds1))"

definition segments_ok :: "envelope_codec \<Rightarrow> delivery list \<Rightarrow> archive_worker \<Rightarrow> bool" where
  "segments_ok ec ds w \<longleftrightarrow>
     gm_wf (awSegments w) \<and>
     (\<forall>k s. gm_get (awSegments w) k = Some s \<longrightarrow>
        k = mapKey (sgHour s) (sgShard s) \<and> segment_ok ec ds s \<and> gm_get (awPartCounts w) k = Some (sgPart s)) \<and>
     (\<forall>k n. gm_get (awPartCounts w) k = Some n \<longrightarrow> 1 \<le> n) \<and>
     (\<forall>k. gm_get (rdEntries (awDeduper w)) k \<noteq> None \<longrightarrow> k \<in> keyOf ec ` set ds)"

lemma list_all2_left: "list_all2 P xs ys \<Longrightarrow> x \<in> set xs \<Longrightarrow> \<exists>y. y \<in> set ys \<and> P x y"
  by (induction rule: list_all2_induct) auto

lemma segment_ok_mono: "segment_ok ec ds s \<Longrightarrow> set ds \<subseteq> set ds' \<Longrightarrow> segment_ok ec ds' s"
  unfolding segment_ok_def by (elim conjE exE, intro conjI exI, assumption+) (erule list_all2_mono, blast)

lemma ack_reason_mono:
  assumes "ack_reason ec safe ds i" "\<And>d. safe d \<Longrightarrow> safe' d"
  shows "ack_reason ec safe' (ds @ ds') i"
  using assms unfolding ack_reason_def by (metis append.assoc append_Cons)

lemma segments_okD:
  assumes "segments_ok ec ds w" "gm_get (awSegments w) k = Some s"
  shows "k = mapKey (sgHour s) (sgShard s)" "segment_ok ec ds s" "gm_get (awPartCounts w) k = Some (sgPart s)"
  using assms by (auto simp: segments_ok_def)

lemma settle_simps [simp]:
  "awSegments (settle a ds w) = awSegments w" "awPartCounts (settle a ds w) = awPartCounts w" "awDeduper (settle a ds w) = awDeduper w"
  "awStore (settle a ds w) = awStore w" "awActions (settle a ds w) = awActions w @ map (\<lambda>d. (dlID d, a)) ds"
  by (simp_all add: settle_def)

lemma dropSegmentLocked_simps [simp]:
  "awSegments (dropSegmentLocked s w) = gm_del (mapKey (sgHour s) (sgShard s)) (awSegments w)"
  "awPartCounts (dropSegmentLocked s w) = awPartCounts w" "awDeduper (dropSegmentLocked s w) = awDeduper w"
  "awStore (dropSegmentLocked s w) = awStore w" "awActions (dropSegmentLocked s w) = awActions w"
  by (simp_all add: dropSegmentLocked_def)

lemma flushSegmentLocked_simps [simp]:
  "awSegments (snd (flushSegmentLocked su zs sv s w)) = gm_del (mapKey (sgHour s) (sgShard s)) (awSegments w)"
  "awPartCounts (snd (flushSegmentLocked su zs sv s w)) = awPartCounts w"
  "awDeduper (snd (flushSegmentLocked su zs sv s w)) = awDeduper w"
  by (simp_all add: flushSegmentLocked_def Let_def split: sum.splits prod.splits option.splits)

lemma segments_ok_del:
  assumes "segments_ok ec ds w" "awSegments w' = gm_del k (awSegments w)" "awPartCounts w' = awPartCounts w" "awDeduper w' = awDeduper w"
  shows "segments_ok ec ds w'"
  using assms by (auto simp: segments_ok_def split: if_splits)

definition run_ok ::
    "(archive_store \<Rightarrow> bool) \<Rightarrow> (archive_store \<Rightarrow> string \<Rightarrow> byte list \<Rightarrow> ManifestRecord \<Rightarrow> bool) \<Rightarrow> ArchiveConfig \<Rightarrow> envelope_codec \<Rightarrow> zstd_encoder \<Rightarrow>
       delivery list \<Rightarrow> archive_worker \<Rightarrow> bool" where
  "run_ok swf kept cfg ec zs ds w \<longleftrightarrow>
     swf (awStore w) \<and> segments_ok ec ds w \<and> (\<forall>i. (i, Ack) \<in> set (awActions w) \<longrightarrow> ack_reason ec (persisted kept cfg ec zs ds w) ds i)"

lemma run_okI:
  assumes "run_ok swf kept cfg ec zs ds w" "swf (awStore w')" "segments_ok ec (ds @ ds') w'"
    and "\<And>d. persisted kept cfg ec zs ds w d \<Longrightarrow> persisted kept cfg ec zs (ds @ ds') w' d"
    and "\<And>i. (i, Ack) \<in> set (awActions w') \<Longrightarrow> (i, Ack) \<notin> set (awActions w) \<Longrightarrow> ack_reason ec (persisted kept cfg ec zs (ds @ ds') w') (ds @ ds') i"
  shows "run_ok swf kept cfg ec zs (ds @ ds') w'"
proof -
  have "ack_reason ec (persisted kept cfg ec zs (ds @ ds') w') (ds @ ds') i" if "(i, Ack) \<in> set (awActions w')" for i
  proof (cases "(i, Ack) \<in> set (awActions w)")
    case True
    then have "ack_reason ec (persisted kept cfg ec zs ds w) ds i" using assms(1) by (simp add: run_ok_def)
    from this assms(4) show ?thesis by (rule ack_reason_mono)
  qed (use assms(5) that in simp)
  with assms(2,3) show ?thesis by (simp add: run_ok_def)
qed

lemma persisted_mono:
  assumes "persisted kept cfg ec zs ds w d" "\<And>hr shard part. used w hr shard part \<Longrightarrow> used w' hr shard part"
    and "\<And>hr shard part b r. used w hr shard part \<Longrightarrow> kept (awStore w) (segKey cfg hr shard part) b r \<Longrightarrow> kept (awStore w') (segKey cfg hr shard part) b r"
  shows "persisted kept cfg ec zs (ds @ ds') w' d"
proof -
  have mono: "segment_ok ec ds s \<Longrightarrow> segment_ok ec (ds @ ds') s" for s by (erule segment_ok_mono) simp
  show ?thesis using assms unfolding persisted_def by (metis mono)
qed

lemmas persisted_mono' = persisted_mono [where ds' = "[]", simplified]

lemma addTo_keys [simp]: "fst ` set (addTo x m) = (if x = [] then {} else {x}) \<union> fst ` set m"
  using dom_update [of x "()" m] by (auto simp: addTo_def gm_put_def dom_map_of_conv_image_fst)

lemma recordTimestamp_stamped: "stamped env \<Longrightarrow> recordTimestampUnixMilli now env = recordTimestampUnixMilli 0 env"
  by (auto simp: stamped_def recordTimestampUnixMilli_def)

lemma append_indexed:
  assumes "segment_indexed ec s" "appendRecord zs payload d (recordTimestampUnixMilli now env) (manifestRecordMetaFromEnvelope env) s = Inr s'"
    and "ecUnmarshal ec (dlData d) = Inr env" "sgRecords s = int (length (sgPending s))"
  shows "segment_indexed ec s'"
proof -
  let ?meta = "manifestRecordMetaFromEnvelope env" and ?ts = "recordTimestampUnixMilli now env"
  have s': "sgPending s' = sgPending s @ [d]" "sgTsMin s' = (if sgPending s = [] then ?ts else min ?ts (sgTsMin s))"
      "sgTsMax s' = (if sgPending s = [] then ?ts else max ?ts (sgTsMax s))" "sgProviders s' = addTo (providerOf env) (sgProviders s)"
      "sgDeviceIDs s' = addTo (rmDeviceID ?meta) (sgDeviceIDs s)" "sgProviderDeviceIDs s' = addTo (rmProviderDeviceID ?meta) (sgProviderDeviceIDs s)"
    using assms(2,4) by (auto simp: appendRecord_def Let_def manifestRecordMetaFromEnvelope_def providerOf_def split: if_splits option.splits)
  have new: "covers s' env" by (auto simp: covers_def s' dest: recordTimestamp_stamped [of env now])
  have old: "covers s' env'" if "d' \<in> set (sgPending s)" "ecUnmarshal ec (dlData d') = Inr env'" for d' env'
  proof -
    have "covers s env'" using assms(1) that by (auto simp: segment_indexed_def)
    then show ?thesis using that(1) by (auto simp: covers_def s')
  qed
  have "gm_wf (sgProviders s')" using assms(1) by (simp add: segment_indexed_def s' addTo_def)
  then show ?thesis
    using assms(1,3) new old by (auto simp: segment_indexed_def s')
qed

section \<open>Runs preserve it\<close>

lemma stopWorker_cases:
  "snd (stopWorker su zs sv w) = snd (flushAll su zs sv w) \<or> snd (stopWorker su zs sv w) = withOutbox su sv (snd (flushAll su zs sv w))"
  by (auto simp: stopWorker_def split: prod.splits option.splits)

context upload_path
begin

lemma flush_ok:
  assumes "run_ok wf kept (suConfig su) ec zs ds w" "gm_get (awSegments w) (mapKey (sgHour s) (sgShard s)) = Some s" "prefix_ok (suConfig su)"
  shows "run_ok wf kept (suConfig su) ec zs ds (snd (flushSegmentLocked su zs sv s w))"
proof -
  let ?cfg = "suConfig su" and ?k = "mapKey (sgHour s) (sgShard s)" and ?w' = "snd (flushSegmentLocked su zs sv s w)"
  have ok: "wf (awStore w)" "segments_ok ec ds w" using assms(1) by (simp_all add: run_ok_def)
  note seg = segments_okD [OF ok(2) assms(2)]
  from seg(2) obtain ps where ps: "sgWritten s = concat (map frameOf ps)" "sgRecords s = int (length ps)" "\<forall>p \<in> set ps. frame_ok p"
      "list_all2 (\<lambda>d p. d \<in> set ds \<and> payloadOf ec d = Some p) (sgPending s) ps" "TruncateHour (sgHour s) = sgHour s" "1 \<le> sgPart s"
    by (auto simp: segment_ok_def)
  have sok: "segments_ok ec ds ?w'" by (rule segments_ok_del [OF ok(2)]) simp_all
  have used': "used ?w' hr shard part" if "used w hr shard part" for hr shard part using that by (auto simp: used_def)
  have new: "used ?w' (sgHour s) (sgShard s) (sgPart s)" using ps(5,6) seg(3) by (simp add: used_def)
  have other: "segKey ?cfg hr shard part \<noteq> segKey ?cfg (sgHour s) (sgShard s) (sgPart s)" if "used w hr shard part" for hr shard part
    using segKey_inj [of ?cfg hr shard part "sgHour s" "sgShard s" "sgPart s"] that ps(5,6) assms(2) by (auto simp: used_def)
  let ?persist = "\<lambda>body. persistSegment su sv (segmentRequest ?cfg s body) (segmentRecord ?cfg s (segmentRequest ?cfg s body)) (awStore w)"
  have run: "flushSegmentLocked su zs sv s w = (let w1 = dropSegmentLocked s w in
      if sgRecords s = 0 then (None, w1) else case zsClose zs (sgWritten s) of
        Inl e \<Rightarrow> (Some (''close zstd encoder: '' @ e), settle Nak (sgPending s) w1)
      | Inr body \<Rightarrow> (case ?persist body of (st, Some e) \<Rightarrow> (Some e, settle Nak (sgPending s) (w1\<lparr>awStore := st\<rparr>))
          | (st, None) \<Rightarrow> (None, settle Ack (sgPending s) (w1\<lparr>awStore := st\<rparr>))))"
    by (simp add: flushSegmentLocked_def Let_def split: sum.splits)
  have same: ?thesis if "awStore ?w' = awStore w" "\<And>i. (i, Ack) \<in> set (awActions ?w') \<Longrightarrow> (i, Ack) \<in> set (awActions w)"
    using run_okI [OF assms(1), of ?w' "[]"] that ok(1) sok used' persisted_mono' [of kept ?cfg ec zs ds w _ ?w'] by simp
  show ?thesis
  proof (cases "sgRecords s = 0 \<or> (\<exists>e. zsClose zs (sgWritten s) = Inl e)")
    case True
    then show ?thesis by (intro same) (auto simp: run Let_def split: sum.splits if_splits)
  next
    case False
    then obtain body where body: "zsClose zs (sgWritten s) = Inr body" by (metis sum.exhaust)
    define req where "req = segmentRequest ?cfg s body"
    have req: "poKey req = segKey ?cfg (sgHour s) (sgShard s) (sgPart s)" "poBucket req = acObjectBucket ?cfg" "poBody req = body"
      by (simp_all add: req_def segmentRequest_def segKey_def)
    have normal: "normal_key (poKey req)" unfolding req(1) by (rule segKey_normal [OF assms(3)])
    have fits: "recordFor req (segmentRecord ?cfg s req)" by (simp add: recordFor_def segmentRecord_def)
    obtain st e where st: "?persist body = (st, e)" by fastforce
    have w': "awStore ?w' = st" "awActions ?w' = awActions w @ map (\<lambda>d. (dlID d, if e = None then Ack else Nak)) (sgPending s)"
      using False body st by (auto simp: run Let_def split: option.splits)
    note persist = st [folded req_def]
    have wf': "wf st" by (rule persist_wf [OF ok(1) normal persist])
    have mono: "persisted kept ?cfg ec zs ds ?w' d" if "persisted kept ?cfg ec zs ds w d" for d
      using that by (rule persisted_mono') (use used' persist_other [OF ok(1) normal fits persist] other in \<open>auto simp: w'(1) req(1)\<close>)
    have fresh: "ack_reason ec (persisted kept ?cfg ec zs ds ?w') ds (dlID d)" if pend: "d \<in> set (sgPending s)" and none: "e = None" for d
    proof -
      obtain p where p: "p \<in> set ps" "payloadOf ec d = Some p" "d \<in> set ds" using list_all2_left [OF ps(4) pend] by blast
      have "kept st (poKey req) body (segmentRecord ?cfg s req)"
        using persist_kept [OF ok(1) normal req(2) fits, of sv st] persist none req(3) by auto
      then have "persisted kept ?cfg ec zs ds ?w' d"
        unfolding persisted_def using new pend seg(2) body w'(1) req(1) req_def by metis
      moreover obtain ds1 ds2 where "ds = ds1 @ d # ds2" using p(3) by (meson split_list)
      ultimately show ?thesis using p(2) unfolding ack_reason_def by blast
    qed
    have "run_ok wf kept ?cfg ec zs (ds @ []) ?w'"
      by (rule run_okI [OF assms(1)]) (use wf' sok mono fresh w' in \<open>auto split: if_splits\<close>)
    then show ?thesis by simp
  qed
qed

lemma flushEach_ok:
  assumes "run_ok wf kept (suConfig su) ec zs ds w" "prefix_ok (suConfig su)" "distinct (map (\<lambda>s. mapKey (sgHour s) (sgShard s)) ss)"
    and "\<forall>s \<in> set ss. gm_get (awSegments w) (mapKey (sgHour s) (sgShard s)) = Some s"
  shows "run_ok wf kept (suConfig su) ec zs ds (snd (flushEach su zs sv ss (e, w)))"
  using assms
proof (induction ss arbitrary: e w)
  case (Cons s ss)
  obtain e1 w1 where flush: "flushSegmentLocked su zs sv s w = (e1, w1)" by fastforce
  have w1: "w1 = snd (flushSegmentLocked su zs sv s w)" by (simp add: flush)
  have "run_ok wf kept (suConfig su) ec zs ds w1" unfolding w1 using Cons(2,3,5) by (intro flush_ok) simp_all
  moreover have "\<forall>t \<in> set ss. gm_get (awSegments w1) (mapKey (sgHour t) (sgShard t)) = Some t"
  proof
    fix t
    assume t: "t \<in> set ss"
    have "mapKey (sgHour t) (sgShard t) \<noteq> mapKey (sgHour s) (sgShard s)" using Cons(4) t by (auto simp: image_iff)
    then show "gm_get (awSegments w1) (mapKey (sgHour t) (sgShard t)) = Some t" unfolding w1 using Cons(5) t by simp
  qed
  ultimately show ?case using Cons(1) [of w1] Cons(3,4) by (simp add: flush)
qed simp

lemma tidy_ok:
  assumes "run_ok wf kept (suConfig su) ec zs ds w"
  shows "run_ok wf kept (suConfig su) ec zs ds (withOutbox su sv w)"
proof -
  obtain st e where st: "flushArchiveOutbox su sv (awStore w) = (st, e)" by fastforce
  have w': "withOutbox su sv w = w\<lparr>awStore := st\<rparr>" by (simp add: withOutbox_def st)
  have ok: "wf (awStore w)" "segments_ok ec ds w" using assms by (simp_all add: run_ok_def)
  have "run_ok wf kept (suConfig su) ec zs (ds @ []) (withOutbox su sv w)"
  proof (rule run_okI [OF assms])
    show "wf (awStore (withOutbox su sv w))" using tidy_wf [OF ok(1) st] by (simp add: w')
    show "segments_ok ec (ds @ []) (withOutbox su sv w)" using ok(2) by (simp add: segments_ok_def w')
    show "persisted kept (suConfig su) ec zs ds w d \<Longrightarrow> persisted kept (suConfig su) ec zs (ds @ []) (withOutbox su sv w) d" for d
      by (erule persisted_mono) (use tidy_kept [OF ok(1) _ st] in \<open>auto simp: used_def w'\<close>)
  qed (simp add: w')
  then show ?thesis by simp
qed

lemma listed_segments:
  assumes "segments_ok ec ds w"
  shows "\<forall>s \<in> set (map snd (awSegments w)). gm_get (awSegments w) (mapKey (sgHour s) (sgShard s)) = Some s"
    "distinct (map (\<lambda>s. mapKey (sgHour s) (sgShard s)) (map snd (awSegments w)))"
proof -
  have wf: "gm_wf (awSegments w)" using assms by (simp add: segments_ok_def)
  have k: "fst p = mapKey (sgHour (snd p)) (sgShard (snd p)) \<and> gm_get (awSegments w) (fst p) = Some (snd p)" if "p \<in> set (awSegments w)" for p
    using that segments_okD(1) [OF assms, of "fst p" "snd p"] gm_mem_iff [OF wf, of "fst p" "snd p"] by simp
  then show "\<forall>s \<in> set (map snd (awSegments w)). gm_get (awSegments w) (mapKey (sgHour s) (sgShard s)) = Some s" by fastforce
  have "map (\<lambda>s. mapKey (sgHour s) (sgShard s)) (map snd (awSegments w)) = map fst (awSegments w)" using k by simp
  then show "distinct (map (\<lambda>s. mapKey (sgHour s) (sgShard s)) (map snd (awSegments w)))" using wf by (simp only: gm_wf_def)
qed

lemma flush_listed_ok:
  assumes "run_ok wf kept (suConfig su) ec zs ds w" "prefix_ok (suConfig su)"
  shows "run_ok wf kept (suConfig su) ec zs ds (snd (flushDue su zs sv now w))" "run_ok wf kept (suConfig su) ec zs ds (snd (flushAll su zs sv w))"
proof -
  have "segments_ok ec ds w" using assms(1) by (simp add: run_ok_def)
  note listed = listed_segments [OF this]
  have "distinct (map (\<lambda>s. mapKey (sgHour s) (sgShard s)) (filter P (map snd (awSegments w))))" for P
    using listed(2) by (rule distinct_map_filter)
  with listed assms show "run_ok wf kept (suConfig su) ec zs ds (snd (flushDue su zs sv now w))"
    unfolding flushDue_def by (intro flushEach_ok) auto
  show "run_ok wf kept (suConfig su) ec zs ds (snd (flushAll su zs sv w))"
    unfolding flushAll_def by (rule flushEach_ok [OF assms listed(2,1)])
qed

lemma segmentFor_ok:
  assumes "run_ok wf kept (suConfig su) ec zs ds w" "TruncateHour hr = hr"
    and "segmentForKeyLocked zs openedAt hr shard w = (r, w')"
  shows "run_ok wf kept (suConfig su) ec zs ds w'" "awActions w' = awActions w"
    "r = Inr s \<Longrightarrow> gm_get (awSegments w') (mapKey hr shard) = Some s"
    "r = Inr s \<Longrightarrow> mapKey (sgHour s) (sgShard s) = mapKey hr shard"
proof -
  let ?k = "mapKey hr shard"
  have ok: "wf (awStore w)" "segments_ok ec ds w" using assms(1) by (simp_all add: run_ok_def)
  have "run_ok wf kept (suConfig su) ec zs ds w' \<and> awActions w' = awActions w \<and>
    (\<forall>s. r = Inr s \<longrightarrow> gm_get (awSegments w') ?k = Some s \<and> mapKey (sgHour s) (sgShard s) = ?k)"
  proof (cases "gm_get (awSegments w) ?k")
    case (Some s0)
    then have "r = Inr s0" "w' = w" using assms(3) by (simp_all add: segmentForKeyLocked_def)
    with Some assms(1) segments_okD(1) [OF ok(2) Some] show ?thesis by simp
  next
    case None
    define n where "n = (case gm_get (awPartCounts w) ?k of None \<Rightarrow> 0 | Some n \<Rightarrow> n) + 1"
    define s1 where "s1 = \<lparr>sgHour = hr, sgShard = shard, sgPart = n, sgOpenedAt = openedAt, sgWritten = [], sgPending = [],
      sgRecords = 0, sgTsMin = 0, sgTsMax = 0, sgProviders = [], sgDeviceIDs = [], sgProviderDeviceIDs = []\<rparr>"
    define w1 where "w1 = w\<lparr>awPartCounts := gm_put ?k n (awPartCounts w)\<rparr>"
    have "1 \<le> m" if "gm_get (awPartCounts w) ?k = Some m" for m using ok(2) that by (simp add: segments_ok_def)
    then have n: "1 \<le> n" by (force simp: n_def split: option.splits)
    have cases: "r = Inr s1 \<and> w' = w1\<lparr>awSegments := gm_put ?k s1 (awSegments w)\<rparr> \<or> (\<exists>e. r = Inl e) \<and> w' = w1"
      using assms(3) None by (cases "zsNew zs") (auto simp: segmentForKeyLocked_def Let_def w1_def s1_def n_def)
    have s1: "segment_ok ec ds s1" using n assms(2) by (simp add: segment_ok_def segment_indexed_def s1_def)
    have old: "gm_get (awSegments w) k \<noteq> None \<Longrightarrow> k \<noteq> ?k" for k using None by auto
    have sok: "segments_ok ec ds w1"
      unfolding segments_ok_def using ok(2) n old by (auto simp: segments_ok_def w1_def)
    then have sok': "segments_ok ec ds (w1\<lparr>awSegments := gm_put ?k s1 (awSegments w)\<rparr>)"
      using s1 n by (auto simp: segments_ok_def w1_def s1_def split: if_splits)
    have pc: "gm_get (awPartCounts w) ?k = Some m \<Longrightarrow> m < n" for m by (simp add: n_def)
    have used1: "used w1 h x p" if "used w h x p" for h x p
      using that pc by (fastforce simp: used_def w1_def split: if_splits)
    have used2: "used (w1\<lparr>awSegments := gm_put ?k s1 (awSegments w)\<rparr>) h x p" if "used w h x p" for h x p
      using that used1 [OF that] pc by (fastforce simp: used_def w1_def s1_def split: if_splits)
    have sok'': "segments_ok ec ds w'" using cases sok sok' by auto
    have used': "used w' h x p" if "used w h x p" for h x p using cases used1 [OF that] used2 [OF that] by auto
    have same: "awStore w' = awStore w" "awActions w' = awActions w" using cases by (auto simp: w1_def)
    have "run_ok wf kept (suConfig su) ec zs (ds @ []) w'"
      by (rule run_okI [OF assms(1)]) (use ok(1) sok'' same used' persisted_mono' [of kept "suConfig su" ec zs ds w _ w'] in auto)
    with same cases show ?thesis by (auto simp: s1_def w1_def)
  qed
  then show "run_ok wf kept (suConfig su) ec zs ds w'" "awActions w' = awActions w"
    "r = Inr s \<Longrightarrow> gm_get (awSegments w') ?k = Some s" "r = Inr s \<Longrightarrow> mapKey (sgHour s) (sgShard s) = ?k" by auto
qed

lemma extend_ok:
  assumes "run_ok wf kept (suConfig su) ec zs ds w"
  shows "run_ok wf kept (suConfig su) ec zs (ds @ ds') w"
proof (rule run_okI [OF assms])
  show "segments_ok ec (ds @ ds') w" using assms segment_ok_mono [of ec ds _ "ds @ ds'"] by (auto simp: run_ok_def segments_ok_def)
  show "persisted kept (suConfig su) ec zs ds w d \<Longrightarrow> persisted kept (suConfig su) ec zs (ds @ ds') w d" for d by (erule persisted_mono)
qed (use assms in \<open>simp_all add: run_ok_def\<close>)

lemma settle_ok:
  assumes "run_ok wf kept (suConfig su) ec zs ds w" "a = Ack \<Longrightarrow> \<forall>d \<in> set dd. ack_reason ec (persisted kept (suConfig su) ec zs ds w) ds (dlID d)"
  shows "run_ok wf kept (suConfig su) ec zs ds (settle a dd w)"
proof -
  have p: "persisted kept (suConfig su) ec zs ds (settle a dd w) = persisted kept (suConfig su) ec zs ds w"
    by (simp add: persisted_def used_def fun_eq_iff)
  show ?thesis using assms unfolding run_ok_def p by (auto simp: segments_ok_def)
qed

lemma drop_ok:
  assumes "run_ok wf kept (suConfig su) ec zs ds w"
  shows "run_ok wf kept (suConfig su) ec zs ds (dropSegmentLocked s w)"
proof -
  have "segments_ok ec ds (dropSegmentLocked s w)" by (rule segments_ok_del [of ec ds w]) (use assms in \<open>simp_all add: run_ok_def\<close>)
  moreover have "persisted kept (suConfig su) ec zs ds (dropSegmentLocked s w) d" if "persisted kept (suConfig su) ec zs ds w d" for d
    using that by (rule persisted_mono') (auto simp: used_def)
  ultimately have "run_ok wf kept (suConfig su) ec zs (ds @ []) (dropSegmentLocked s w)"
    using assms by (intro run_okI [OF assms]) (simp_all add: run_ok_def)
  then show ?thesis by simp
qed

lemma append_ok:
  assumes "run_ok wf kept (suConfig su) ec zs ds w" "gm_get (awSegments w) k = Some s" "d \<in> set ds" "payloadOf ec d = Some payload"
    and "codec_small ec" "appendRecord zs payload d (recordTimestampUnixMilli now env) (manifestRecordMetaFromEnvelope env) s = Inr s'"
    and "ecUnmarshal ec (dlData d) = Inr env"
  shows "run_ok wf kept (suConfig su) ec zs ds (w\<lparr>awSegments := gm_put k s' (awSegments w)\<rparr>)"
    "sgHour s' = sgHour s" "sgShard s' = sgShard s"
proof -
  let ?w' = "w\<lparr>awSegments := gm_put k s' (awSegments w)\<rparr>"
  have ok: "wf (awStore w)" "segments_ok ec ds w" using assms(1) by (simp_all add: run_ok_def)
  note seg = segments_okD [OF ok(2) assms(2)]
  have s': "sgHour s' = sgHour s" "sgShard s' = sgShard s" "sgPart s' = sgPart s" "sgWritten s' = sgWritten s @ frameOf payload"
      "sgRecords s' = sgRecords s + 1" "sgPending s' = sgPending s @ [d]" "payload \<noteq> []"
    using assms(6) by (auto simp: appendRecord_def Let_def frameOf_def split: if_splits option.splits)
  have "length payload < 2 ^ 64" using assms(4,5) by (auto simp: payloadOf_def codec_small_def split: sum.splits)
  then have fok: "frame_ok payload" using s'(7) by (simp add: frame_ok_def)
  from seg(2) obtain ps where ps: "sgWritten s = concat (map frameOf ps)" "sgRecords s = int (length ps)" "\<forall>p \<in> set ps. frame_ok p"
      "list_all2 (\<lambda>d p. d \<in> set ds \<and> payloadOf ec d = Some p) (sgPending s) ps" "TruncateHour (sgHour s) = sgHour s" "1 \<le> sgPart s"
    by (auto simp: segment_ok_def)
  have "segment_indexed ec s'"
    by (rule append_indexed [OF _ assms(6,7)]) (use seg(2) ps(2,4) in \<open>auto simp: segment_ok_def dest: list_all2_lengthD\<close>)
  then have "segment_ok ec ds s'"
    unfolding segment_ok_def s' using ps fok assms(3,4)
    by (intro conjI exI [of _ "ps @ [payload]"]) (simp_all add: list_all2_appendI)
  then have sok: "segments_ok ec ds ?w'" using ok(2) seg(1,3) s'(1-3) by (auto simp: segments_ok_def)
  have used': "used ?w' h x p" if "used w h x p" for h x p using that assms(2) s'(3) by (auto simp: used_def)
  have "run_ok wf kept (suConfig su) ec zs (ds @ []) ?w'"
    by (rule run_okI [OF assms(1)]) (use ok(1) sok used' persisted_mono' [of kept "suConfig su" ec zs ds w _ ?w'] in auto)
  then show "run_ok wf kept (suConfig su) ec zs ds ?w'" by simp
  show "sgHour s' = sgHour s" "sgShard s' = sgShard s" by (rule s')+
qed

lemma buffer_ok:
  assumes "run_ok wf kept (suConfig su) ec zs ds w" "d \<in> set ds" "payloadOf ec d = Some payload" "codec_small ec" "prefix_ok (suConfig su)"
    and "ecUnmarshal ec (dlData d) = Inr env"
  shows "run_ok wf kept (suConfig su) ec zs ds (snd (bufferDelivery su zs sv ck env payload d w))"
proof -
  obtain hr shard where key: "deliveryKey (suConfig su) (ckPartition ck) env = (hr, shard)" by fastforce
  then have hr: "TruncateHour hr = hr" by (auto simp: deliveryKey_def)
  obtain r w1 where r: "segmentForKeyLocked zs (ckOpen ck) hr shard w = (r, w1)" by fastforce
  note seg = segmentFor_ok [OF assms(1) hr r]
  show ?thesis
  proof (cases r)
    case (Inl e)
    then show ?thesis using settle_ok [OF seg(1), of Nak "[d]"] by (simp add: bufferDelivery_def key r)
  next
    case (Inr s)
    show ?thesis
    proof (cases "appendRecord zs payload d (recordTimestampUnixMilli (ckRecord ck) env) (manifestRecordMetaFromEnvelope env) s")
      case (Inl e)
      then show ?thesis using drop_ok [OF settle_ok [OF seg(1), of Nak "[d]"]] Inr by (simp add: bufferDelivery_def key r)
    next
      case app: (Inr s')
      note ap = append_ok [OF seg(1) seg(3) [OF Inr] assms(2,3,4) app assms(6)]
      let ?w2 = "w1\<lparr>awSegments := gm_put (mapKey hr shard) s' (awSegments w1)\<rparr>"
      have "gm_get (awSegments ?w2) (mapKey (sgHour s') (sgShard s')) = Some s'" using seg(4) [OF Inr] ap(2,3) by simp
      from flush_ok [OF ap(1) this assms(5)] ap(1) show ?thesis by (simp add: bufferDelivery_def key r Inr app Let_def)
    qed
  qed
qed

lemma process_ok:
  assumes "run_ok wf kept (suConfig su) ec zs ds w" "codec_small ec" "prefix_ok (suConfig su)"
  shows "run_ok wf kept (suConfig su) ec zs (ds @ [d]) (snd (processDelivery su grow ec zs sv ck d w))"
proof -
  note ext = extend_ok [OF assms(1), of "[d]"]
  show ?thesis
  proof (cases "payloadOf ec d")
    case None
    then have "snd (processDelivery su grow ec zs sv ck d w) = settle Term [d] w"
      by (auto simp: payloadOf_def processDelivery_def split: sum.splits)
    then show ?thesis using settle_ok [OF ext, of Term "[d]"] by simp
  next
    case (Some payload)
    then obtain env where env: "ecUnmarshal ec (dlData d) = Inr env" "ecMarshal ec env = Inr payload"
      by (auto simp: payloadOf_def split: sum.splits)
    have key: "keyOf ec d = TrimSpace (Key env)" by (simp add: keyOf_def env)
    note buffer = buffer_ok [OF _ _ Some assms(2,3) env(1)]
    obtain fresh dd where add: "Add grow (ckDedup ck) (keyOf ec d) (awDeduper w) = (fresh, dd)" by fastforce
    let ?w1 = "w\<lparr>awDeduper := dd\<rparr>"
    have "gm_get (rdEntries dd) k \<noteq> None \<Longrightarrow> k \<in> keyOf ec ` set (ds @ [d])" for k
      using Add_keys(1) [OF add, of k] assms(1) by (auto simp: run_ok_def segments_ok_def key)
    then have sok: "segments_ok ec (ds @ [d]) ?w1" using ext by (auto simp: run_ok_def segments_ok_def)
    have p: "persisted kept (suConfig su) ec zs (ds @ [d]) ?w1 = persisted kept (suConfig su) ec zs (ds @ [d]) w" by (simp add: persisted_def used_def fun_eq_iff)
    have w1: "run_ok wf kept (suConfig su) ec zs (ds @ [d]) ?w1" using ext sok by (simp add: run_ok_def p)
    have dup: "ack_reason ec (persisted kept (suConfig su) ec zs (ds @ [d]) ?w1) (ds @ [d]) (dlID d)" if "\<not> fresh" "keyOf ec d \<noteq> []"
    proof -
      have "keyOf ec d \<in> keyOf ec ` set ds" using Add_keys(2) [OF add that(1)] assms(1) by (simp add: run_ok_def segments_ok_def key)
      then show ?thesis unfolding ack_reason_def using Some that(2) by blast
    qed
    show ?thesis
    proof (cases "keyOf ec d = [] \<or> fresh")
      case True
      then show ?thesis using buffer [OF ext, of sv ck] buffer [OF w1, of sv ck] add
        by (auto simp: processDelivery_def env key Let_def)
    next
      case False
      then show ?thesis using settle_ok [OF w1, of Ack "[d]"] dup add by (simp add: processDelivery_def env key Let_def)
    qed
  qed
qed

lemma step_ok:
  assumes "run_ok wf kept (suConfig su) ec zs ds w" "codec_small ec" "prefix_ok (suConfig su)"
  shows "run_ok wf kept (suConfig su) ec zs (ds @ deliveredBy ev) (archiveStep su grow ec zs ev w)"
proof (cases ev)
  case (Shutdown sv)
  show ?thesis using stopWorker_cases [of su zs sv w] flush_listed_ok(2) [OF assms(1,3)] tidy_ok by (auto simp: Shutdown)
qed (use assms in \<open>simp_all add: process_ok tidy_ok flush_listed_ok\<close>)

text \<open>The contract carries over to whole runs.\<close>

lemma run_keeps:
  assumes "run_ok wf kept (suConfig su) ec zs ds w" "codec_small ec" "prefix_ok (suConfig su)"
  shows "run_ok wf kept (suConfig su) ec zs (ds @ deliveries evs) (archiveRun su grow ec zs evs w)"
  using assms(1)
proof (induction evs arbitrary: ds w)
  case (Cons ev evs)
  from Cons(1) [OF step_ok [OF Cons(2) assms(2,3)]] show ?case by (simp add: archiveRun_def deliveries_def)
qed (simp add: archiveRun_def deliveries_def)

lemma new_ok:
  assumes "wf st"
  shows "run_ok wf kept (suConfig su) ec zs [] (newArchiveWorker cfg st)"
  using assms by (simp add: run_ok_def segments_ok_def newArchiveWorker_def newRecentEnvelopeDeduper_def Let_def)

end

section \<open>What is acknowledged is archived\<close>

text \<open>Some object, stored or waiting, decodes to records of which \<open>p\<close> is one.\<close>

definition archived :: "(byte list \<Rightarrow> string + byte list) \<Rightarrow> archive_store \<Rightarrow> byte list \<Rightarrow> bool" where
  "archived decodeAll st p \<longleftrightarrow> (\<exists>b \<in> bodies st. \<exists>frames. DecodeEnvelopeFrames decodeAll b = Some (Inr frames) \<and> p \<in> set frames)"

definition zstd_laws :: "zstd_encoder \<Rightarrow> (byte list \<Rightarrow> string + byte list) \<Rightarrow> bool" where
  "zstd_laws zs decodeAll \<longleftrightarrow> (\<forall>data b. zsClose zs data = Inr b \<longrightarrow> b \<noteq> [] \<and> decodeAll b = Inr data)"

lemma segment_frames:
  assumes "segment_ok ec ds s" "d \<in> set (sgPending s)" "zsClose zs (sgWritten s) = Inr body" "zstd_laws zs decodeAll"
  obtains ps p where "DecodeEnvelopeFrames decodeAll body = Some (Inr ps)" "p \<in> set ps" "payloadOf ec d = Some p"
proof -
  from assms(1) obtain ps where ps: "sgWritten s = concat (map frameOf ps)" "\<forall>p \<in> set ps. frame_ok p"
      "list_all2 (\<lambda>d p. d \<in> set ds \<and> payloadOf ec d = Some p) (sgPending s) ps"
    by (auto simp: segment_ok_def)
  obtain p where p: "p \<in> set ps" "payloadOf ec d = Some p" using list_all2_left [OF ps(3) assms(2)] by blast
  have "body \<noteq> []" "decodeAll body = Inr (concat (map frameOf ps))" using assms(3,4) ps(1) by (auto simp: zstd_laws_def)
  then have "DecodeEnvelopeFrames decodeAll body = Some (Inr ps)"
    using decodeLoop_frames [OF ps(2), of "[]"] by (simp add: DecodeEnvelopeFrames_def)
  from that [OF this p] show thesis .
qed

text \<open>An open segment holds the records of the messages that wait in it, in order.\<close>

lemma segment_payloads:
  assumes "segment_ok ec ds s"
  obtains ps where "sgWritten s = concat (map frameOf ps)" "\<forall>p \<in> set ps. frame_ok p" "map (payloadOf ec) (sgPending s) = map Some ps"
proof -
  from assms obtain ps where ps: "sgWritten s = concat (map frameOf ps)" "\<forall>p \<in> set ps. frame_ok p"
      "list_all2 (\<lambda>d p. d \<in> set ds \<and> payloadOf ec d = Some p) (sgPending s) ps"
    by (auto simp: segment_ok_def)
  from ps(3) have "map (payloadOf ec) (sgPending s) = map Some ps" by (induction rule: list_all2_induct) auto
  with that ps(1,2) show thesis by blast
qed

context upload_path
begin

lemma open_segment:
  assumes "wf st" "codec_small ec" "prefix_ok (suConfig su)" "w = archiveRun su grow ec zs evs (newArchiveWorker (suConfig su) st)"
    and "gm_get (awSegments w) k = Some s"
  shows "segment_ok ec (deliveries evs) s"
proof -
  have "run_ok wf kept (suConfig su) ec zs ([] @ deliveries evs) w" unfolding assms(4) by (rule run_keeps [OF new_ok [OF assms(1)] assms(2,3)])
  then have "segments_ok ec (deliveries evs) w" by (simp add: run_ok_def)
  from segments_okD(2) [OF this assms(5)] show ?thesis .
qed

lemma acked_persisted:
  assumes "wf st" "codec_small ec" "prefix_ok (suConfig su)" "w = archiveRun su grow ec zs evs (newArchiveWorker (suConfig su) st)"
    and "(i, Ack) \<in> set (awActions w)"
  shows "ack_reason ec (persisted kept (suConfig su) ec zs (deliveries evs) w) (deliveries evs) i"
proof -
  have "run_ok wf kept (suConfig su) ec zs ([] @ deliveries evs) w" unfolding assms(4) by (rule run_keeps [OF new_ok [OF assms(1)] assms(2,3)])
  then show ?thesis using assms(5) by (simp add: run_ok_def)
qed

lemma acked_archived:
  assumes "wf st" "codec_small ec" "prefix_ok (suConfig su)" "zstd_laws zs decodeAll"
    and "w = archiveRun su grow ec zs evs (newArchiveWorker (suConfig su) st)" "(i, Ack) \<in> set (awActions w)"
  shows "ack_reason ec (\<lambda>d. \<exists>p. payloadOf ec d = Some p \<and> archived decodeAll (awStore w) p) (deliveries evs) i"
proof -
  note acked_persisted [OF assms(1-3,5,6)]
  moreover have "\<exists>p. payloadOf ec d = Some p \<and> archived decodeAll (awStore w) p"
    if "persisted kept (suConfig su) ec zs (deliveries evs) w d" for d
  proof -
    from that obtain s body where s: "segment_ok ec (deliveries evs) s" "d \<in> set (sgPending s)" "zsClose zs (sgWritten s) = Inr body"
        "kept (awStore w) (segKey (suConfig su) (sgHour s) (sgShard s) (sgPart s)) body (segmentRecord (suConfig su) s (segmentRequest (suConfig su) s body))"
      by (auto simp: persisted_def)
    from segment_frames [OF s(1-3) assms(4)] kept_body [OF s(4)] show ?thesis unfolding archived_def by metis
  qed
  ultimately show ?thesis using ack_reason_mono [of ec _ "deliveries evs" i _ "[]"] by simp
qed

end

text \<open>When no two messages share an identifier, a message that is acknowledged as a repetition leads back to one that
  is safe, or to one that was not acknowledged.\<close>

lemma acked_origin:
  assumes "\<And>i. (i, Ack) \<in> A \<Longrightarrow> ack_reason ec safe ds i" "distinct (map dlID ds)" "ds = before @ d # after" "(dlID d, Ack) \<in> A"
  shows "safe d \<or> (\<exists>d0 \<in> set before. keyOf ec d \<noteq> [] \<and> keyOf ec d0 = keyOf ec d \<and> (safe d0 \<or> (dlID d0, Ack) \<notin> A))"
  using assms(3,4)
proof (induction "length before" arbitrary: before d after rule: less_induct)
  case less
  obtain ds1 d1 ds2 where r: "ds = ds1 @ d1 # ds2" "dlID d1 = dlID d" "safe d1 \<or> keyOf ec d1 \<noteq> [] \<and> keyOf ec d1 \<in> keyOf ec ` set ds1"
    using assms(1) [OF less.prems(2)] unfolding ack_reason_def by blast
  have at: "ds1 = before \<and> d1 = d" using distinct_map_split [OF assms(2) less.prems(1) r(1)] r(2) by simp
  show ?case
  proof (cases "safe d")
    case False
    with r(3) at obtain d0 where d0: "d0 \<in> set before" "keyOf ec d \<noteq> []" "keyOf ec d0 = keyOf ec d" by (metis imageE)
    then obtain xs ys where xs: "before = xs @ d0 # ys" by (meson split_list)
    have "safe d0 \<or> (dlID d0, Ack) \<notin> A \<or> (\<exists>d' \<in> set xs. keyOf ec d' = keyOf ec d0 \<and> (safe d' \<or> (dlID d', Ack) \<notin> A))"
      using less.hyps [of xs d0 "ys @ d # after"] xs less.prems(1) by auto
    with d0 xs show ?thesis by (metis Un_iff set_append)
  qed simp
qed

end
