(* ===== verification/Archive_Settling.thy ===== *)
theory Archive_Settling
  imports Archive_Runs
begin

text \<open>
  Two more invariants of the runs of the archive worker: every message is settled or waits in a
  segment, and the segments have the times a manifest needs.
\<close>

section \<open>Segments\<close>

definition clock_ok :: "clock \<Rightarrow> bool" where
  "clock_ok ck \<longleftrightarrow> 0 \<le> ckPartition ck \<and> 0 < UnixMilli (ckRecord ck)"

fun event_ok :: "archive_event \<Rightarrow> bool" where
  "event_ok (Deliver sv ck d) = clock_ok ck"
| "event_ok (Tick sv now) = True"
| "event_ok (FlushOutbox sv) = True"
| "event_ok (Shutdown sv) = True"

definition segment_good :: "archiveSegment \<Rightarrow> bool" where
  "segment_good s \<longleftrightarrow>
     sgRecords s = int (length (sgPending s)) \<and> 0 \<le> sgHour s \<and> (0 < sgRecords s \<longrightarrow> 0 < sgTsMin s \<and> sgTsMin s \<le> sgTsMax s)"

definition worker_good :: "archive_worker \<Rightarrow> bool" where
  "worker_good w \<longleftrightarrow>
     gm_wf (awSegments w) \<and> (\<forall>k s. gm_get (awSegments w) k = Some s \<longrightarrow> k = mapKey (sgHour s) (sgShard s) \<and> segment_good s)"

text \<open>The message has been settled, or it waits in an open segment.\<close>

definition accounted :: "archive_worker \<Rightarrow> delivery \<Rightarrow> bool" where
  "accounted w d \<longleftrightarrow> dlID d \<in> fst ` set (awActions w) \<or> (\<exists>k s. gm_get (awSegments w) k = Some s \<and> d \<in> set (sgPending s))"

lemma worker_goodD:
  assumes "worker_good w" "gm_get (awSegments w) k = Some s"
  shows "k = mapKey (sgHour s) (sgShard s)" "segment_good s"
  using assms by (auto simp: worker_good_def)

lemma worker_good_del: "worker_good w \<Longrightarrow> awSegments w' = gm_del k (awSegments w) \<Longrightarrow> worker_good w'"
  by (auto simp: worker_good_def split: if_splits)

lemma worker_good_put: "worker_good w \<Longrightarrow> segment_good s \<Longrightarrow> worker_good (w\<lparr>awSegments := gm_put (mapKey (sgHour s) (sgShard s)) s (awSegments w)\<rparr>)"
  by (auto simp: worker_good_def split: if_splits)

lemma flush_good: "worker_good w \<Longrightarrow> worker_good (snd (flushSegmentLocked su zs sv s w))"
  by (erule worker_good_del) (rule flushSegmentLocked_simps(1))

lemma flush_actions:
  assumes "segment_good s"
  shows "\<exists>a. awActions (snd (flushSegmentLocked su zs sv s w)) = awActions w @ map (\<lambda>d. (dlID d, a)) (sgPending s)"
  using assms by (auto simp: flushSegmentLocked_def segment_good_def Let_def split: sum.splits prod.splits option.splits)

lemma flush_accounted:
  assumes "worker_good w" "gm_get (awSegments w) (mapKey (sgHour s) (sgShard s)) = Some s" "accounted w d"
  shows "accounted (snd (flushSegmentLocked su zs sv s w)) d"
proof -
  obtain a where a: "awActions (snd (flushSegmentLocked su zs sv s w)) = awActions w @ map (\<lambda>d. (dlID d, a)) (sgPending s)"
    using flush_actions [OF worker_goodD(2) [OF assms(1,2)]] by blast
  from assms(3) show ?thesis unfolding accounted_def
  proof
    assume "\<exists>k t. gm_get (awSegments w) k = Some t \<and> d \<in> set (sgPending t)"
    then obtain k t where t: "gm_get (awSegments w) k = Some t" "d \<in> set (sgPending t)" by blast
    show "dlID d \<in> fst ` set (awActions (snd (flushSegmentLocked su zs sv s w))) \<or>
        (\<exists>k t. gm_get (awSegments (snd (flushSegmentLocked su zs sv s w))) k = Some t \<and> d \<in> set (sgPending t))"
    proof (cases "k = mapKey (sgHour s) (sgShard s)")
      case True
      with t assms(2) have "d \<in> set (sgPending s)" by simp
      then show ?thesis by (force simp: a)
    next
      case False
      with t have "gm_get (awSegments (snd (flushSegmentLocked su zs sv s w))) k = Some t" by simp
      with t(2) show ?thesis by blast
    qed
  qed (auto simp: a)
qed

section \<open>Flushing\<close>

lemma flushEach_good: "worker_good w \<Longrightarrow> worker_good (snd (flushEach su zs sv ss (e, w)))"
proof (induction ss arbitrary: e w)
  case (Cons s ss)
  then show ?case using flush_good [OF Cons(2), of su zs sv s] by (cases "flushSegmentLocked su zs sv s w") simp
qed simp

lemma flushEach_segments:
  "awSegments (snd (flushEach su zs sv ss (e, w))) = fold gm_del (map (\<lambda>s. mapKey (sgHour s) (sgShard s)) ss) (awSegments w)"
proof (induction ss arbitrary: e w)
  case (Cons s ss)
  then show ?case using flushSegmentLocked_simps(1) [of su zs sv s w] by (cases "flushSegmentLocked su zs sv s w") simp
qed simp

lemma flushEach_accounted:
  assumes "worker_good w" "distinct (map (\<lambda>s. mapKey (sgHour s) (sgShard s)) ss)" "accounted w d"
    and "\<forall>s \<in> set ss. gm_get (awSegments w) (mapKey (sgHour s) (sgShard s)) = Some s"
  shows "accounted (snd (flushEach su zs sv ss (e, w))) d"
  using assms
proof (induction ss arbitrary: e w)
  case (Cons s ss)
  obtain e1 w1 where flush: "flushSegmentLocked su zs sv s w = (e1, w1)" by fastforce
  have w1: "w1 = snd (flushSegmentLocked su zs sv s w)" by (simp add: flush)
  have "gm_get (awSegments w1) (mapKey (sgHour t) (sgShard t)) = Some t" if t: "t \<in> set ss" for t
  proof -
    have "mapKey (sgHour t) (sgShard t) \<noteq> mapKey (sgHour s) (sgShard s)" using Cons(3) t by (auto simp: image_iff)
    then show ?thesis unfolding w1 using Cons(5) t by simp
  qed
  moreover have "accounted w1 d" unfolding w1 using Cons(2,4,5) by (intro flush_accounted) simp_all
  moreover have "worker_good w1" unfolding w1 by (rule flush_good [OF Cons(2)])
  ultimately show ?case using Cons(1) [of w1] Cons(3) by (simp add: flush)
qed simp

lemma good_listed:
  assumes "worker_good w"
  shows "\<forall>s \<in> set (map snd (awSegments w)). gm_get (awSegments w) (mapKey (sgHour s) (sgShard s)) = Some s"
    "map (\<lambda>s. mapKey (sgHour s) (sgShard s)) (map snd (awSegments w)) = map fst (awSegments w)"
    "distinct (map fst (awSegments w))"
proof -
  have wf: "gm_wf (awSegments w)" using assms by (simp add: worker_good_def)
  have k: "fst p = mapKey (sgHour (snd p)) (sgShard (snd p)) \<and> gm_get (awSegments w) (fst p) = Some (snd p)" if "p \<in> set (awSegments w)" for p
    using that worker_goodD(1) [OF assms, of "fst p" "snd p"] gm_mem_iff [OF wf, of "fst p" "snd p"] by simp
  then show "\<forall>s \<in> set (map snd (awSegments w)). gm_get (awSegments w) (mapKey (sgHour s) (sgShard s)) = Some s" by fastforce
  show "map (\<lambda>s. mapKey (sgHour s) (sgShard s)) (map snd (awSegments w)) = map fst (awSegments w)" using k by simp
  show "distinct (map fst (awSegments w))" using wf by (simp only: gm_wf_def)
qed

lemma fold_del_keys: "(\<And>p. p \<in> set m \<Longrightarrow> fst p \<in> set ks) \<Longrightarrow> fold gm_del ks m = []" for m :: "('k, 'v) gomap"
proof (induction ks arbitrary: m)
  case Nil
  then show ?case by (cases m) auto
next
  case (Cons k ks)
  have "fst p \<in> set ks" if "p \<in> set (gm_del k m)" for p
  proof -
    have "p \<in> set m" "fst p \<noteq> k" using that by (auto simp: gm_del_def AList.delete_eq)
    with Cons(2) show ?thesis by fastforce
  qed
  from Cons(1) [OF this] show ?case by simp
qed

lemma flushDue_keeps:
  assumes "worker_good w"
  shows "worker_good (snd (flushDue su zs sv now w))" "accounted w d \<Longrightarrow> accounted (snd (flushDue su zs sv now w)) d"
proof -
  note listed = good_listed [OF assms]
  show "worker_good (snd (flushDue su zs sv now w))" unfolding flushDue_def by (rule flushEach_good [OF assms])
  have "distinct (map (\<lambda>s. mapKey (sgHour s) (sgShard s)) (filter P (map snd (awSegments w))))" for P
    by (rule distinct_map_filter) (simp only: listed(2,3))
  then show "accounted w d \<Longrightarrow> accounted (snd (flushDue su zs sv now w)) d"
    unfolding flushDue_def using listed(1) by (intro flushEach_accounted [OF assms]) auto
qed

lemma flushAll_keeps:
  assumes "worker_good w"
  shows "worker_good (snd (flushAll su zs sv w))" "accounted w d \<Longrightarrow> accounted (snd (flushAll su zs sv w)) d"
    "awSegments (snd (flushAll su zs sv w)) = []"
proof -
  note listed = good_listed [OF assms]
  show "worker_good (snd (flushAll su zs sv w))" unfolding flushAll_def by (rule flushEach_good [OF assms])
  have "distinct (map (\<lambda>s. mapKey (sgHour s) (sgShard s)) (map snd (awSegments w)))" by (simp only: listed(2,3))
  from flushEach_accounted [OF assms this _ listed(1)]
  show "accounted w d \<Longrightarrow> accounted (snd (flushAll su zs sv w)) d" unfolding flushAll_def .
  show "awSegments (snd (flushAll su zs sv w)) = []" unfolding flushAll_def flushEach_segments listed(2) by (simp add: fold_del_keys)
qed

section \<open>Messages\<close>

lemma segmentFor_good:
  assumes "worker_good w" "0 \<le> hr" "segmentForKeyLocked zs openedAt hr shard w = (r, w')"
  shows "worker_good w'" "awActions w' = awActions w" "accounted w d \<Longrightarrow> accounted w' d"
    "r = Inr s \<Longrightarrow> gm_get (awSegments w') (mapKey hr shard) = Some s \<and> mapKey (sgHour s) (sgShard s) = mapKey hr shard"
proof -
  have "worker_good w' \<and> awActions w' = awActions w \<and> (accounted w d \<longrightarrow> accounted w' d) \<and>
    (r = Inr s \<longrightarrow> gm_get (awSegments w') (mapKey hr shard) = Some s \<and> mapKey (sgHour s) (sgShard s) = mapKey hr shard)"
  proof (cases "gm_get (awSegments w) (mapKey hr shard)")
    case (Some s0)
    then show ?thesis using assms(1,3) worker_goodD(1) [OF assms(1) Some] by (auto simp: segmentForKeyLocked_def)
  next
    case None
    define n where "n = (case gm_get (awPartCounts w) (mapKey hr shard) of None \<Rightarrow> 0 | Some n \<Rightarrow> n) + 1"
    define s1 where "s1 = \<lparr>sgHour = hr, sgShard = shard, sgPart = n, sgOpenedAt = openedAt, sgWritten = [], sgPending = [],
      sgRecords = 0, sgTsMin = 0, sgTsMax = 0, sgProviders = [], sgDeviceIDs = [], sgProviderDeviceIDs = []\<rparr>"
    define w1 where "w1 = w\<lparr>awPartCounts := gm_put (mapKey hr shard) n (awPartCounts w)\<rparr>"
    have cases: "r = Inr s1 \<and> w' = w1\<lparr>awSegments := gm_put (mapKey (sgHour s1) (sgShard s1)) s1 (awSegments w1)\<rparr> \<or> (\<exists>e. r = Inl e) \<and> w' = w1"
      using assms(3) None by (cases "zsNew zs") (auto simp: segmentForKeyLocked_def Let_def w1_def s1_def n_def)
    have g1: "worker_good w1" using assms(1) by (simp add: worker_good_def w1_def)
    have "segment_good s1" using assms(2) by (simp add: segment_good_def s1_def)
    from worker_good_put [OF g1 this] g1 cases have good: "worker_good w'" by blast
    have same: "awActions w' = awActions w" using cases by (auto simp: w1_def)
    have "gm_get (awSegments w') k = Some t" if "gm_get (awSegments w) k = Some t" for k t
      using cases that None by (auto simp: w1_def s1_def)
    then have "accounted w d \<longrightarrow> accounted w' d" unfolding accounted_def same by blast
    with good same cases show ?thesis by (auto simp: s1_def)
  qed
  then show "worker_good w'" "awActions w' = awActions w" "accounted w d \<Longrightarrow> accounted w' d"
    "r = Inr s \<Longrightarrow> gm_get (awSegments w') (mapKey hr shard) = Some s \<and> mapKey (sgHour s) (sgShard s) = mapKey hr shard" by blast+
qed

lemma append_good:
  assumes "segment_good s" "0 < ts" "appendRecord zs payload d ts meta s = Inr s'"
  shows "segment_good s'" "sgHour s' = sgHour s" "sgShard s' = sgShard s" "sgPending s' = sgPending s @ [d]"
  using assms by (auto simp: appendRecord_def segment_good_def Let_def split: if_splits option.splits)

lemma record_time: "clock_ok ck \<Longrightarrow> 0 < recordTimestampUnixMilli (ckRecord ck) env"
  by (simp add: recordTimestampUnixMilli_def clock_ok_def)

lemma delivery_hour:
  assumes "clock_ok ck" "deliveryKey cfg (ckPartition ck) env = (hr, shard)"
  shows "0 \<le> hr"
proof -
  have "0 \<le> envelopePartitionTime env (ckPartition ck)" using assms(1) by (simp add: envelopePartitionTime_def clock_ok_def Let_def)
  then show ?thesis using assms(2) hour_pos by (auto simp: deliveryKey_def TruncateHour_def pos_imp_zdiv_nonneg_iff)
qed

text \<open>An encoder that accepts every record, as one that writes into memory does.\<close>

definition writes_ok :: "zstd_encoder \<Rightarrow> bool" where
  "writes_ok zs \<longleftrightarrow> zsWrite zs = (\<lambda>_ _. None)"

lemma settled_accounted: "dlID d \<in> fst ` set (awActions w) \<Longrightarrow> accounted w d"
  by (simp add: accounted_def)

lemma accounted_same: "accounted w d \<Longrightarrow> awSegments w' = awSegments w \<Longrightarrow> set (awActions w) \<subseteq> set (awActions w') \<Longrightarrow> accounted w' d"
  by (auto simp: accounted_def)

lemma buffer_good:
  assumes "worker_good w" "clock_ok ck"
  shows "worker_good (snd (bufferDelivery su zs sv ck env payload d w))"
    "writes_ok zs \<Longrightarrow> payload \<noteq> [] \<Longrightarrow> accounted (snd (bufferDelivery su zs sv ck env payload d w)) d \<and>
       (accounted w d' \<longrightarrow> accounted (snd (bufferDelivery su zs sv ck env payload d w)) d')"
proof -
  obtain hr shard where key: "deliveryKey (suConfig su) (ckPartition ck) env = (hr, shard)" by fastforce
  obtain r w1 where r: "segmentForKeyLocked zs (ckOpen ck) hr shard w = (r, w1)" by fastforce
  note seg = segmentFor_good [OF assms(1) delivery_hour [OF assms(2) key] r]
  let ?w' = "snd (bufferDelivery su zs sv ck env payload d w)"
  have "worker_good ?w' \<and> (writes_ok zs \<longrightarrow> payload \<noteq> [] \<longrightarrow> accounted ?w' d \<and> (accounted w d' \<longrightarrow> accounted ?w' d'))"
  proof (cases r)
    case (Inl e)
    then have w': "?w' = settle Nak [d] w1" by (simp add: bufferDelivery_def key r)
    have "worker_good ?w'" using seg(1) by (simp add: w' worker_good_def)
    moreover have "accounted ?w' d" by (simp add: w' accounted_def)
    moreover have "accounted w d' \<longrightarrow> accounted ?w' d'" using seg(3) [of d'] accounted_same [of w1 d' ?w'] by (auto simp: w')
    ultimately show ?thesis by blast
  next
    case (Inr s)
    note at = seg(4) [OF Inr, THEN conjunct1] and keys = seg(4) [OF Inr, THEN conjunct2]
    note good = worker_goodD(2) [OF seg(1) at]
    show ?thesis
    proof (cases "appendRecord zs payload d (recordTimestampUnixMilli (ckRecord ck) env) (manifestRecordMetaFromEnvelope env) s")
      case (Inl e)
      then have w': "?w' = dropSegmentLocked s (settle Nak [d] w1)" using Inr by (simp add: bufferDelivery_def key r)
      have "worker_good ?w'" unfolding w' by (rule worker_good_del [OF seg(1)]) simp
      moreover have "\<not> (writes_ok zs \<and> payload \<noteq> [])"
        using Inl by (auto simp: writes_ok_def appendRecord_def Let_def split: if_splits)
      ultimately show ?thesis by blast
    next
      case app: (Inr s')
      note ap = append_good [OF good record_time [OF assms(2)] app]
      define w2 where "w2 = w1\<lparr>awSegments := gm_put (mapKey hr shard) s' (awSegments w1)\<rparr>"
      have k: "mapKey (sgHour s') (sgShard s') = mapKey hr shard" using keys ap(2,3) by simp
      have g2: "worker_good w2" using worker_good_put [OF seg(1) ap(1)] by (simp add: w2_def k)
      have at2: "gm_get (awSegments w2) (mapKey (sgHour s') (sgShard s')) = Some s'" by (simp add: w2_def k)
      have a2: "accounted w2 d" using at2 ap(4) unfolding accounted_def by fastforce
      have keep: "accounted w2 d'" if "accounted w d'"
        using seg(3) [OF that] at ap(4) unfolding accounted_def w2_def
        by (auto split: if_splits) (metis UnCI gm_get_put option.inject set_append)+
      have w': "?w' = w2 \<or> ?w' = snd (flushSegmentLocked su zs sv s' w2)"
        by (simp add: bufferDelivery_def key r Inr app w2_def Let_def)
      have "worker_good ?w'" "accounted ?w' d" "accounted w d' \<longrightarrow> accounted ?w' d'"
        using w' g2 a2 keep flush_good [OF g2] flush_accounted [OF g2 at2] by metis+
      then show ?thesis by blast
    qed
  qed
  then show "worker_good ?w'" "writes_ok zs \<Longrightarrow> payload \<noteq> [] \<Longrightarrow> accounted ?w' d \<and> (accounted w d' \<longrightarrow> accounted ?w' d')"
    by blast+
qed

lemma process_good:
  assumes "worker_good w" "clock_ok ck"
  shows "worker_good (snd (processDelivery su grow ec zs sv ck d w))"
    "writes_ok zs \<Longrightarrow> payloadOf ec d \<noteq> Some [] \<Longrightarrow> accounted (snd (processDelivery su grow ec zs sv ck d w)) d \<and>
       (accounted w d' \<longrightarrow> accounted (snd (processDelivery su grow ec zs sv ck d w)) d')"
proof -
  let ?w' = "snd (processDelivery su grow ec zs sv ck d w)"
  have "(\<exists>a dd. ?w' = settle a [d] (w\<lparr>awDeduper := dd\<rparr>)) \<or>
      (\<exists>env payload dd. payloadOf ec d = Some payload \<and> ?w' = snd (bufferDelivery su zs sv ck env payload d (w\<lparr>awDeduper := dd\<rparr>)))"
  proof (cases "payloadOf ec d")
    case None
    then have "?w' = settle Term [d] (w\<lparr>awDeduper := awDeduper w\<rparr>)" by (auto simp: payloadOf_def processDelivery_def split: sum.splits)
    then show ?thesis by blast
  next
    case (Some payload)
    then obtain env where env: "ecUnmarshal ec (dlData d) = Inr env" "ecMarshal ec env = Inr payload"
      by (auto simp: payloadOf_def split: sum.splits)
    obtain fresh dd where add: "Add grow (ckDedup ck) (TrimSpace (Key env)) (awDeduper w) = (fresh, dd)" by fastforce
    have "?w' = snd (bufferDelivery su zs sv ck env payload d (w\<lparr>awDeduper := awDeduper w\<rparr>)) \<or>
        ?w' = settle Ack [d] (w\<lparr>awDeduper := dd\<rparr>) \<or> ?w' = snd (bufferDelivery su zs sv ck env payload d (w\<lparr>awDeduper := dd\<rparr>))"
      by (cases fresh) (auto simp: processDelivery_def env add Let_def)
    then show ?thesis using Some by blast
  qed
  then consider (settled) a dd where "?w' = settle a [d] (w\<lparr>awDeduper := dd\<rparr>)"
    | (buffered) env payload dd where "payloadOf ec d = Some payload" "?w' = snd (bufferDelivery su zs sv ck env payload d (w\<lparr>awDeduper := dd\<rparr>))"
    by blast
  then have "worker_good ?w' \<and> (writes_ok zs \<longrightarrow> payloadOf ec d \<noteq> Some [] \<longrightarrow> accounted ?w' d \<and> (accounted w d' \<longrightarrow> accounted ?w' d'))"
  proof cases
    case (settled a dd)
    then show ?thesis using assms(1) by (auto simp: worker_good_def accounted_def)
  next
    case (buffered env payload dd)
    have "worker_good (w\<lparr>awDeduper := dd\<rparr>)" using assms(1) by (simp add: worker_good_def)
    note b = buffer_good [OF this assms(2), where su = su and zs = zs and sv = sv and env = env and payload = payload and d = d]
    have "accounted (w\<lparr>awDeduper := dd\<rparr>) d' = accounted w d'" by (simp add: accounted_def)
    with b(1) b(2) [where d' = d'] buffered show ?thesis by simp
  qed
  then show "worker_good ?w'" "writes_ok zs \<Longrightarrow> payloadOf ec d \<noteq> Some [] \<Longrightarrow> accounted ?w' d \<and> (accounted w d' \<longrightarrow> accounted ?w' d')" by blast+
qed

section \<open>Runs\<close>

lemma withOutbox_keeps: "worker_good (withOutbox su sv w) = worker_good w" "accounted (withOutbox su sv w) d = accounted w d"
  by (simp_all add: withOutbox_def worker_good_def accounted_def)

lemma run_good:
  assumes "worker_good w" "\<forall>ev \<in> set evs. event_ok ev"
  shows "worker_good (archiveRun su grow ec zs evs w)"
  using assms
proof (induction evs arbitrary: w)
  case (Cons ev evs)
  have "worker_good (archiveStep su grow ec zs ev w)"
  proof (cases ev)
    case (Shutdown sv)
    show ?thesis using stopWorker_cases [of su zs sv w] flushAll_keeps(1) [OF Cons(2)] by (auto simp: Shutdown withOutbox_keeps)
  qed (use Cons(2,3) in \<open>simp_all add: process_good(1) withOutbox_keeps flushDue_keeps(1)\<close>)
  with Cons(1,3) show ?case by (simp add: archiveRun_def)
qed (simp add: archiveRun_def)

lemma run_accounted:
  assumes "worker_good w" "\<forall>ev \<in> set evs. event_ok ev" "writes_ok zs" "\<forall>d \<in> set ds. accounted w d"
    and "\<forall>d \<in> set (deliveries evs). payloadOf ec d \<noteq> Some []"
  shows "\<forall>d \<in> set (ds @ deliveries evs). accounted (archiveRun su grow ec zs evs w) d"
  using assms(1,2,4,5)
proof (induction evs arbitrary: w ds)
  case (Cons ev evs)
  let ?w1 = "archiveStep su grow ec zs ev w"
  have g: "worker_good ?w1" using run_good [of w "[ev]" su grow ec zs] Cons(2,3) by (simp add: archiveRun_def)
  have "\<forall>d \<in> set (ds @ deliveredBy ev). accounted ?w1 d"
  proof (cases ev)
    case (Deliver sv ck d0)
    then have "clock_ok ck" using Cons(3) by simp
    from process_good(2) [OF Cons(2) this assms(3)] Cons(4,5) show ?thesis by (simp add: Deliver deliveries_def)
  next
    case (Shutdown sv)
    have "\<forall>d \<in> set ds. accounted (snd (flushAll su zs sv w)) d" using Cons(2,4) flushAll_keeps(2) by blast
    then show ?thesis using stopWorker_cases [of su zs sv w] by (auto simp: Shutdown withOutbox_keeps)
  qed (use Cons(2,4) flushDue_keeps(2) in \<open>simp_all add: withOutbox_keeps\<close>)
  from Cons(1) [OF g _ this] Cons(3,5) show ?case by (simp add: archiveRun_def deliveries_def)
qed (simp add: archiveRun_def deliveries_def)

lemma new_good: "worker_good (newArchiveWorker cfg st)"
  by (simp add: worker_good_def newArchiveWorker_def)

end
