(* ===== verification/Archive_Losses.thy ===== *)
theory Archive_Losses
  imports Archive_Settling
begin

text \<open>
  Single steps of the archive worker in detail: how a repeated message is handled, what a failing
  step leaves behind, and what a worker that has just started writes first.
\<close>

section \<open>Repeated messages\<close>

lemma Add_known:
  assumes "dedup_inv t d" "t \<le> now" "(key, e) \<in> set (live d)" "now < e" "TrimSpace key = key" "key \<noteq> []"
  shows "\<exists>d'. Add grow now key d = (False, d')"
proof -
  obtain r d' where add: "Add grow now key d = (r, d')" by fastforce
  note ref = Add_refines [OF assms(1,2) add]
  have "key \<in> fst ` set (filter (\<lambda>(k, e). now < e) (live d))" using assms(3,4) by force
  with ref have "\<not> r" using assms(5,6) by (simp add: refAdd_def Let_def)
  with add show ?thesis by simp
qed

lemma Add_remembers:
  assumes "dedup_inv t d" "t \<le> now" "Add grow now key d = (True, d')" "TrimSpace key = key" "key \<noteq> []"
  shows "dedup_inv now d'" "(key, now + rdWindow d) \<in> set (live d')"
proof -
  note ref = Add_refines [OF assms(1,2,3)]
  then show "dedup_inv now d'" by blast
  have max: "0 < nat (rdMaxEntries d)" using dedup_invD(9) [OF assms(1)] by simp
  let ?ys = "filter (\<lambda>(k, e). now < e) (live d) @ [(key, now + rdWindow d)]"
  have l: "live d' = drop (length ?ys - nat (rdMaxEntries d)) ?ys"
    using ref assms(4,5) by (auto simp: refAdd_def Let_def split: if_splits)
  have "length ?ys - nat (rdMaxEntries d) \<le> length (filter (\<lambda>(k, e). now < e) (live d))" using max by simp
  then show "(key, now + rdWindow d) \<in> set (live d')" unfolding l by (subst drop_append) simp
qed

lemma keyOf_trimmed: "TrimSpace (keyOf ec d) = keyOf ec d"
  by (simp add: keyOf_def split: sum.splits)

text \<open>A message whose key is remembered is acknowledged and nothing else happens.\<close>

lemma repeated_acked:
  assumes "payloadOf ec d = Some p" "keyOf ec d \<noteq> []" "dedup_inv t (awDeduper w)" "t \<le> ckDedup ck"
    and "(keyOf ec d, e) \<in> set (live (awDeduper w))" "ckDedup ck < e"
  shows "\<exists>dd. processDelivery su grow ec zs sv ck d w = (None, settle Ack [d] (w\<lparr>awDeduper := dd\<rparr>))"
proof -
  obtain env where env: "ecUnmarshal ec (dlData d) = Inr env" "ecMarshal ec env = Inr p"
    using assms(1) by (auto simp: payloadOf_def split: sum.splits)
  have key: "keyOf ec d = TrimSpace (Key env)" by (simp add: keyOf_def env)
  obtain dd where "Add grow (ckDedup ck) (keyOf ec d) (awDeduper w) = (False, dd)"
    using Add_known [OF assms(3-6) keyOf_trimmed assms(2)] by blast
  then show ?thesis using assms(2) by (auto simp: processDelivery_def env key Let_def)
qed

section \<open>Failing steps\<close>

lemma flush_fails:
  assumes "flushSegmentLocked su zs sv s w = (Some e, w')" "d \<in> set (sgPending s)"
  shows "(dlID d, Nak) \<in> set (awActions w')" "awDeduper w' = awDeduper w"
  using assms by (auto simp: flushSegmentLocked_def Let_def split: if_splits sum.splits prod.splits option.splits)

lemma segmentFor_deduper: "segmentForKeyLocked zs t hr shard w = (r, w') \<Longrightarrow> awDeduper w' = awDeduper w \<and> awStore w' = awStore w \<and> awActions w' = awActions w"
  by (auto simp: segmentForKeyLocked_def Let_def split: option.splits)

lemma appended_pending: "appendRecord zs payload d ts meta s = Inr s' \<Longrightarrow> sgPending s' = sgPending s @ [d]"
  by (auto simp: appendRecord_def Let_def split: if_splits option.splits)

lemma buffer_fails:
  assumes "bufferDelivery su zs sv ck env payload d w = (Some e, w')" "worker_good w"
  shows "(dlID d, Nak) \<in> set (awActions w')" "awDeduper w' = awDeduper w"
    "gm_get (awSegments w') k = Some x \<Longrightarrow> gm_get (awSegments w) k = Some x"
proof -
  obtain hr shard where key: "deliveryKey (suConfig su) (ckPartition ck) env = (hr, shard)" by fastforce
  obtain r w1 where r: "segmentForKeyLocked zs (ckOpen ck) hr shard w = (r, w1)" by fastforce
  note seg = segmentFor_deduper [OF r]
  have segs: "gm_get (awSegments w1) k = Some x \<Longrightarrow> k \<noteq> mapKey hr shard \<Longrightarrow> gm_get (awSegments w) k = Some x"
    and segs_Inl: "r = Inl y \<Longrightarrow> awSegments w1 = awSegments w"
    and at: "r = Inr s \<Longrightarrow> mapKey (sgHour s) (sgShard s) = mapKey hr shard" for y s
    using r assms(2) by (auto simp: segmentForKeyLocked_def worker_good_def Let_def split: option.splits if_splits)
  have "(dlID d, Nak) \<in> set (awActions w') \<and> awDeduper w' = awDeduper w \<and> (gm_get (awSegments w') k = Some x \<longrightarrow> gm_get (awSegments w) k = Some x)"
  proof (cases r)
    case (Inl x)
    with assms(1) seg segs_Inl show ?thesis by (auto simp: bufferDelivery_def key r)
  next
    case (Inr s)
    show ?thesis
    proof (cases "appendRecord zs payload d (recordTimestampUnixMilli (ckRecord ck) env) (manifestRecordMetaFromEnvelope env) s")
      case (Inl x)
      with assms(1) seg Inr segs at [OF Inr] show ?thesis by (auto simp: bufferDelivery_def key r split: if_splits)
    next
      case app: (Inr s')
      let ?w2 = "w1\<lparr>awSegments := gm_put (mapKey hr shard) s' (awSegments w1)\<rparr>"
      have s': "d \<in> set (sgPending s')" "mapKey (sgHour s') (sgShard s') = mapKey hr shard"
        using app at [OF Inr] by (auto simp: appendRecord_def Let_def split: if_splits option.splits)
      have flush: "flushSegmentLocked su zs sv s' ?w2 = (Some e, w')"
        using assms(1) app Inr by (auto simp: bufferDelivery_def key r Let_def split: if_splits)
      have "awSegments w' = gm_del (mapKey hr shard) (awSegments ?w2)"
        using flushSegmentLocked_simps(1) [of su zs sv s' ?w2] by (simp add: flush s'(2))
      then show ?thesis using flush_fails [OF flush s'(1)] seg segs by (auto split: if_splits)
    qed
  qed
  then show "(dlID d, Nak) \<in> set (awActions w')" "awDeduper w' = awDeduper w"
    "gm_get (awSegments w') k = Some x \<Longrightarrow> gm_get (awSegments w) k = Some x" by blast+
qed

lemma process_fails:
  assumes "processDelivery su grow ec zs sv ck d w = (Some e, w')" "payloadOf ec d = Some p" "keyOf ec d \<noteq> []"
    and "dedup_inv t (awDeduper w)" "t \<le> ckDedup ck" "worker_good w"
  shows "(dlID d, Nak) \<in> set (awActions w')" "dedup_inv (ckDedup ck) (awDeduper w')"
    "(keyOf ec d, ckDedup ck + rdWindow (awDeduper w)) \<in> set (live (awDeduper w'))"
    "gm_get (awSegments w') k = Some x \<Longrightarrow> gm_get (awSegments w) k = Some x"
proof -
  obtain env where env: "ecUnmarshal ec (dlData d) = Inr env" "ecMarshal ec env = Inr p"
    using assms(2) by (auto simp: payloadOf_def split: sum.splits)
  have key: "keyOf ec d = TrimSpace (Key env)" by (simp add: keyOf_def env)
  obtain r dd where add: "Add grow (ckDedup ck) (keyOf ec d) (awDeduper w) = (r, dd)" by fastforce
  have r: "r = True" and buf: "bufferDelivery su zs sv ck env p d (w\<lparr>awDeduper := dd\<rparr>) = (Some e, w')"
    using assms(1,3) add by (auto simp: processDelivery_def env key Let_def split: bool.splits)
  have good: "worker_good (w\<lparr>awDeduper := dd\<rparr>)" using assms(6) by (simp add: worker_good_def)
  note rem = Add_remembers [OF assms(4,5) add [unfolded r] keyOf_trimmed assms(3)] and fails = buffer_fails [OF buf good]
  show "(dlID d, Nak) \<in> set (awActions w')" by (rule fails)
  show "dedup_inv (ckDedup ck) (awDeduper w')" "(keyOf ec d, ckDedup ck + rdWindow (awDeduper w)) \<in> set (live (awDeduper w'))"
    using rem fails(2) by simp_all
  show "gm_get (awSegments w') k = Some x \<Longrightarrow> gm_get (awSegments w) k = Some x" using fails(3) by simp
qed

text \<open>A message that is new leaves its key behind, whatever becomes of it.\<close>

lemma buffer_deduper: "awDeduper (snd (bufferDelivery su zs sv ck env payload d w)) = awDeduper w"
proof -
  obtain hr shard where key: "deliveryKey (suConfig su) (ckPartition ck) env = (hr, shard)" by fastforce
  obtain r w1 where r: "segmentForKeyLocked zs (ckOpen ck) hr shard w = (r, w1)" by fastforce
  show ?thesis using segmentFor_deduper [OF r] by (auto simp: bufferDelivery_def key r Let_def split: sum.splits)
qed

lemma process_remembers:
  assumes "processDelivery su grow ec zs sv ck d w = (r, w')" "payloadOf ec d = Some p" "keyOf ec d \<noteq> []"
    and "dedup_inv t (awDeduper w)" "t \<le> ckDedup ck" "gm_get (rdEntries (awDeduper w)) (keyOf ec d) = None"
  shows "dedup_inv (ckDedup ck) (awDeduper w')" "(keyOf ec d, ckDedup ck + rdWindow (awDeduper w)) \<in> set (live (awDeduper w'))"
proof -
  obtain env where env: "ecUnmarshal ec (dlData d) = Inr env" "ecMarshal ec env = Inr p"
    using assms(2) by (auto simp: payloadOf_def split: sum.splits)
  have key: "keyOf ec d = TrimSpace (Key env)" by (simp add: keyOf_def env)
  obtain fresh dd where add: "Add grow (ckDedup ck) (keyOf ec d) (awDeduper w) = (fresh, dd)" by fastforce
  have fresh: "fresh = True" using Add_keys(2) [OF add] assms(6) by (auto simp: keyOf_trimmed)
  have "awDeduper w' = dd"
    using assms(1,3) add fresh buffer_deduper [of su zs sv ck env p d "w\<lparr>awDeduper := dd\<rparr>"] by (auto simp: processDelivery_def env key Let_def)
  then show "dedup_inv (ckDedup ck) (awDeduper w')" "(keyOf ec d, ckDedup ck + rdWindow (awDeduper w)) \<in> set (live (awDeduper w'))"
    using Add_remembers [OF assms(4,5) add [unfolded fresh] keyOf_trimmed assms(3)] by simp_all
qed

text \<open>A step stores nothing when the object store refuses.\<close>

lemma refused_put:
  assumes "\<And>r. \<exists>x. svPut sv r = Refused x"
  shows "\<exists>x. PutObject sv req st = (st, Some x)"
proof -
  obtain x where "svPut sv (req\<lparr>poBucket := TrimSpace (poBucket req), poKey := trimSlashes (TrimSpace (poKey req))\<rparr>) = Refused x" using assms by blast
  then show ?thesis by (auto simp: PutObject_def Let_def split: option.splits)
qed

lemma refused_flush:
  assumes "suOutbox su = None" "\<And>r. \<exists>x. svPut sv r = Refused x"
  shows "awStore (snd (flushSegmentLocked su zs sv s w)) = awStore w" "sgRecords s \<noteq> 0 \<Longrightarrow> \<exists>e. fst (flushSegmentLocked su zs sv s w) = Some e"
proof -
  have "\<exists>e. persistSegment su sv req rec st = (st, Some e)" for req rec st
    using refused_put [OF assms(2), of req st] by (auto simp: persistSegment_def assms(1))
  then obtain e where e: "persistSegment su sv req rec st = (st, Some (e req rec st))" for req rec st by metis
  show "awStore (snd (flushSegmentLocked su zs sv s w)) = awStore w" "sgRecords s \<noteq> 0 \<Longrightarrow> \<exists>e. fst (flushSegmentLocked su zs sv s w) = Some e"
    by (simp_all add: flushSegmentLocked_def Let_def e split: sum.splits)
qed

lemma refused_store:
  assumes "suOutbox su = None" "\<And>r. \<exists>x. svPut sv r = Refused x"
  shows "awStore (snd (processDelivery su grow ec zs sv ck d w)) = awStore w"
proof -
  have "awStore (snd (bufferDelivery su zs sv ck env payload d w)) = awStore w" for env payload w
    using refused_flush(1) [OF assms] segmentFor_deduper
    by (auto simp: bufferDelivery_def Let_def split: prod.splits sum.splits)
  then show ?thesis by (auto simp: processDelivery_def Let_def split: sum.splits prod.splits bool.splits)
qed

section \<open>An empty message\<close>

lemma empty_drops:
  assumes "ecUnmarshal ec (dlData d0) = Inr env" "ecMarshal ec env = Inr []" "Key env = []"
    and "deliveryKey (suConfig su) (ckPartition ck) env = (hr, shard)" "gm_get (awSegments w) (mapKey hr shard) = Some s"
  shows "snd (processDelivery su grow ec zs sv ck d0 w) = dropSegmentLocked s (settle Nak [d0] w)"
  using assms by (simp add: processDelivery_def bufferDelivery_def segmentForKeyLocked_def appendRecord_def Let_def)

section \<open>The first object of a worker\<close>

text \<open>A new worker gives the first segment of an hour and shard the part number one.\<close>

lemma first_delivery:
  assumes "zsNew zs = None" "zsWrite zs = (\<lambda>_ _. None)" "ecUnmarshal ec (dlData d) = Inr env" "ecMarshal ec env = Inr p" "p \<noteq> []"
    and "deliveryKey (suConfig su) (ckPartition ck) env = (hr, shard)" "w0 = newArchiveWorker cfg st"
  obtains s w1 dd where "sgHour s = hr" "sgShard s = shard" "sgPart s = 1" "sgWritten s = frameOf p" "sgPending s = [d]" "sgRecords s = 1"
    "w1 = w0\<lparr>awDeduper := dd, awPartCounts := [(mapKey hr shard, 1)], awSegments := [(mapKey hr shard, s)]\<rparr>"
    "processDelivery su grow ec zs sv ck d w0 =
       (if acMaxRecordsPerPart (suConfig su) \<le> 1 \<or> acMaxBytesPerPart (suConfig su) \<le> zsBuffered zs (frameOf p)
        then flushSegmentLocked su zs sv s w1 else (None, w1))"
proof -
  let ?k = "mapKey hr shard"
  obtain fresh dd where add: "Add grow (ckDedup ck) (TrimSpace (Key env)) (awDeduper w0) = (fresh, dd)" by fastforce
  have fresh: "TrimSpace (Key env) = [] \<or> fresh"
    using Add_keys(2) [OF add] by (auto simp: assms(7) newArchiveWorker_def newRecentEnvelopeDeduper_def Let_def)
  define x where "x = (if TrimSpace (Key env) = [] then awDeduper w0 else dd)"
  have step: "processDelivery su grow ec zs sv ck d w0 = bufferDelivery su zs sv ck env p d (w0\<lparr>awDeduper := x\<rparr>)"
    using fresh add by (auto simp: processDelivery_def assms(3,4) x_def Let_def)
  define meta where "meta = manifestRecordMetaFromEnvelope env"
  define ts where "ts = recordTimestampUnixMilli (ckRecord ck) env"
  define s where "s = \<lparr>sgHour = hr, sgShard = shard, sgPart = 1, sgOpenedAt = ckOpen ck, sgWritten = frameOf p, sgPending = [d], sgRecords = 1,
    sgTsMin = ts, sgTsMax = ts, sgProviders = addTo (ToLower (TrimSpace (rmProvider meta))) [],
    sgDeviceIDs = addTo (TrimSpace (rmDeviceID meta)) [], sgProviderDeviceIDs = addTo (TrimSpace (rmProviderDeviceID meta)) []\<rparr>"
  define w1 where "w1 = w0\<lparr>awDeduper := x, awPartCounts := [(?k, 1)], awSegments := [(?k, s)]\<rparr>"
  have "bufferDelivery su zs sv ck env p d (w0\<lparr>awDeduper := x\<rparr>) =
      (if acMaxRecordsPerPart (suConfig su) \<le> 1 \<or> acMaxBytesPerPart (suConfig su) \<le> zsBuffered zs (frameOf p)
       then flushSegmentLocked su zs sv s w1 else (None, w1))"
    using assms(1,2,5,6)
    by (simp add: bufferDelivery_def segmentForKeyLocked_def appendRecord_def Let_def frameOf_def assms(7) newArchiveWorker_def gm_put_def
        w1_def s_def meta_def ts_def)
  then show ?thesis using that [of s w1 x] step by (simp add: s_def w1_def)
qed

text \<open>The manifest of a segment is valid but for its shard.\<close>

lemma segment_valid:
  assumes "segment_good s" "0 < sgRecords s" "body \<noteq> []" "prefix_ok cfg"
    and "TrimSpace (acObjectBucket cfg) \<noteq> []" "TrimSpace (acWriterID cfg) \<noteq> []" "scShardCount (acSubjectConfig cfg) \<noteq> 0"
  shows "validateManifestRecord (normalizeManifestRecord (segmentRecord cfg s (segmentRequest cfg s body)) now) =
    (if scShardCount (acSubjectConfig cfg) \<le> sgShard s then Some ''manifest shard must be less than shard_count'' else None)"
proof -
  from assms(1,2) have good: "0 \<le> sgHour s" "0 < sgTsMin s" "sgTsMin s \<le> sgTsMax s" by (simp_all add: segment_good_def)
  let ?key = "buildArchiveObjectKey (acObjectPrefix cfg) (sgHour s) (sgShard s) (sgPart s) (acWriterID cfg)"
  have key: "trimSlashes (TrimSpace ?key) = ?key" "?key \<noteq> []"
    using segKey_normal [OF assms(4), of "sgHour s" "sgShard s" "sgPart s"] by (simp_all add: normal_key_def segKey_def)
  then have "TrimSpace ?key \<noteq> []" by (metis dropWhile.simps(1) rev.simps(1) trimSlashes_def)
  moreover have "TrimSpace defaultManifestProvider \<noteq> []" by (simp add: defaultManifestProvider_def) code_simp
  moreover have "TruncateHour (sgHour s) \<noteq> zeroTime"
    using good(1) hour_pos by (simp add: TruncateHour_def zeroTime_def second_def) (metis (no_types) not_le mult_nonneg_nonneg neg_less_0_iff_less order_less_imp_le pos_imp_zdiv_nonneg_iff zero_less_numeral)
  ultimately show ?thesis
    using good assms(2,3,5-7) key
    by (simp add: validateManifestRecord_def normalizeManifestRecord_def segmentRecord_def segmentRequest_def Let_def)
qed

text \<open>When the object store does what it is asked the object of a segment is there afterwards.\<close>

lemma direct_upload:
  assumes "suOutbox su = None" "prefix_ok (suConfig su)" "TrimSpace (acObjectBucket (suConfig su)) \<noteq> []"
    and "svEnsureBucket sv = (\<lambda>_. None)" "svPut sv = (\<lambda>_. Done)" "body \<noteq> []"
  defines "r s st \<equiv> persistSegment su sv (segmentRequest (suConfig su) s body) (segmentRecord (suConfig su) s (segmentRequest (suConfig su) s body)) st"
  shows "objectHeld su (fst (r s st)) (segKey (suConfig su) (sgHour s) (sgShard s) (sgPart s)) body"
    "\<not> suManifestStore su \<Longrightarrow> snd (r s st) = None"
    "suManifestStore su \<Longrightarrow> svExec sv = (\<lambda>_. Done) \<Longrightarrow> validateManifestRecord (normalizeManifestRecord
        (segmentRecord (suConfig su) s (segmentRequest (suConfig su) s body)) (svNow sv)) = None \<Longrightarrow>
      uint (sgShard s) \<le> 2147483647 \<Longrightarrow> uint (scShardCount (acSubjectConfig (suConfig su))) \<le> 2147483647 \<Longrightarrow> sgRecords s \<in> {1..2147483647} \<Longrightarrow>
      snd (r s st) = None \<and> asManifests (fst (r s st)) = asManifests (upsertRow (normalizeManifestRecord
        (segmentRecord (suConfig su) s (segmentRequest (suConfig su) s body)) (svNow sv)) st)"
proof -
  let ?cfg = "suConfig su"
  define req where "req = segmentRequest ?cfg s body"
  have req: "poKey req = segKey ?cfg (sgHour s) (sgShard s) (sgPart s)" "poBucket req = acObjectBucket ?cfg" "poBody req = body"
    by (simp_all add: req_def segmentRequest_def segKey_def)
  have normal: "normal_key (poKey req)" unfolding req(1) by (rule segKey_normal [OF assms(2)])
  obtain st2 where put: "PutObject sv req st = (st2, None)"
    using normal assms(3-6) by (simp add: PutObject_def Let_def req normal_key_def)
  have r: "r s st = (if suManifestStore su then (case UpsertObjectManifest sv (segmentRecord ?cfg s req) st2 of
      (st'', Some e) \<Rightarrow> (st'', Some (''persist archive manifest '' @ quote (poKey req) @ '': '' @ e)) | (st'', None) \<Rightarrow> (st'', None)) else (st2, None))"
    using put by (simp add: r_def persistSegment_def assms(1) req_def split: prod.splits option.splits)
  have "asObjects (fst (r s st)) = asObjects st2"
    by (auto simp: r split: prod.splits option.splits dest: UpsertObjectManifest_effect(2))
  then show "objectHeld su (fst (r s st)) (segKey ?cfg (sgHour s) (sgShard s) (sgPart s)) body"
    using PutObject_effect(4) [OF put] normal by (simp add: objectHeld_def req normal_key_def)
  show "\<not> suManifestStore su \<Longrightarrow> snd (r s st) = None" by (simp add: r)
  have fields: "mrShard (normalizeManifestRecord (segmentRecord ?cfg s req) t) = sgShard s" "mrRecordCount (normalizeManifestRecord (segmentRecord ?cfg s req) t) = sgRecords s"
    "mrShardCount (normalizeManifestRecord (segmentRecord ?cfg s req) t) = scShardCount (acSubjectConfig ?cfg)" for t
    by (simp_all add: normalizeManifestRecord_def segmentRecord_def)
  assume "suManifestStore su" "svExec sv = (\<lambda>_. Done)" "validateManifestRecord (normalizeManifestRecord (segmentRecord ?cfg s (segmentRequest ?cfg s body)) (svNow sv)) = None"
    "uint (sgShard s) \<le> 2147483647" "uint (scShardCount (acSubjectConfig ?cfg)) \<le> 2147483647" "sgRecords s \<in> {1..2147483647}"
  then show "snd (r s st) = None \<and> asManifests (fst (r s st)) = asManifests (upsertRow (normalizeManifestRecord
      (segmentRecord ?cfg s (segmentRequest ?cfg s body)) (svNow sv)) st)"
    using PutObject_effect(2) [OF put]
    by (simp add: r UpsertObjectManifest_def Let_def uint32ToInt32_def intToInt32_def upsertRow_def fields req_def [symmetric])
qed

text \<open>One message and a shutdown: its segment is persisted.\<close>

lemma first_flush:
  assumes "suOutbox su = None" "zsNew zs = None" "zsWrite zs = (\<lambda>_ _. None)"
    and "zsClose zs (frameOf p) = Inr body" "ecUnmarshal ec (dlData d) = Inr env" "ecMarshal ec env = Inr p" "p \<noteq> []"
    and "1 < acMaxRecordsPerPart (suConfig su)" "zsBuffered zs (frameOf p) < acMaxBytesPerPart (suConfig su)"
    and "deliveryKey (suConfig su) (ckPartition ck) env = (hr, shard)"
    and w: "w = archiveRun su grow ec zs [Deliver sv ck d, Shutdown sv'] (newArchiveWorker (suConfig su) st)"
  obtains s st1 e1 where "sgHour s = hr" "sgShard s = shard" "sgPart s = 1" "sgRecords s = 1" "clock_ok ck \<longrightarrow> segment_good s"
    "persistSegment su sv' (segmentRequest (suConfig su) s body) (segmentRecord (suConfig su) s (segmentRequest (suConfig su) s body)) st = (st1, e1)"
    "awStore w = st1" "awActions w = [(dlID d, if e1 = None then Ack else Nak)]"
proof -
  let ?cfg = "suConfig su"
  define w0 where "w0 = newArchiveWorker ?cfg st"
  obtain s w1 dd where s: "sgHour s = hr" "sgShard s = shard" "sgPart s = 1" "sgWritten s = frameOf p" "sgPending s = [d]" "sgRecords s = 1"
    and w1_def: "w1 = w0\<lparr>awDeduper := dd, awPartCounts := [(mapKey hr shard, 1)], awSegments := [(mapKey hr shard, s)]\<rparr>"
    and deliver: "processDelivery su grow ec zs sv ck d w0 = (None, w1)"
    by (rule first_delivery [OF assms(2,3,5,6,7,10) w0_def, of grow sv]) (use assms(8,9) in auto)
  define req where "req = segmentRequest ?cfg s body"
  obtain st1 e1 where persist: "persistSegment su sv' req (segmentRecord ?cfg s req) st = (st1, e1)" by fastforce
  have "w = archiveStep su grow ec zs (Shutdown sv') w1"
    unfolding w archiveRun_def w0_def [symmetric] by (simp add: deliver del: archiveStep.simps(4))
  then have "w = snd (flushSegmentLocked su zs sv' s w1)"
    by (simp add: stopWorker_def withOutbox_def flushArchiveOutbox_def assms(1) flushAll_def w1_def split: prod.splits option.splits)
  then have "awStore w = st1" "awActions w = [(dlID d, if e1 = None then Ack else Nak)]"
    using persist assms(4) s
    by (auto simp: flushSegmentLocked_def Let_def req_def [symmetric] w1_def w0_def newArchiveWorker_def split: option.splits)
  moreover have "segment_good s" if "clock_ok ck"
  proof -
    have "worker_good w1" using process_good(1) [OF new_good that, of su grow ec zs sv d ?cfg st] by (simp add: deliver w0_def [symmetric])
    from worker_goodD(2) [OF this, of "mapKey hr shard" s] show ?thesis by (simp add: w1_def gm_get_def)
  qed
  ultimately show thesis using that [OF s(1-3,6)] persist by (simp add: req_def)
qed

lemma first_upload:
  assumes "suOutbox su = None" "prefix_ok (suConfig su)" "TrimSpace (acObjectBucket (suConfig su)) \<noteq> []"
    and "svEnsureBucket sv' = (\<lambda>_. None)" "svPut sv' = (\<lambda>_. Done)" "zsNew zs = None" "zsWrite zs = (\<lambda>_ _. None)"
    and "zsClose zs (frameOf p) = Inr body" "body \<noteq> []" "ecUnmarshal ec (dlData d) = Inr env" "ecMarshal ec env = Inr p" "p \<noteq> []"
    and "1 < acMaxRecordsPerPart (suConfig su)" "zsBuffered zs (frameOf p) < acMaxBytesPerPart (suConfig su)"
    and "deliveryKey (suConfig su) (ckPartition ck) env = (hr, shard)"
    and "w = archiveRun su grow ec zs [Deliver sv ck d, Shutdown sv'] (newArchiveWorker (suConfig su) st)"
  shows "objectHeld su (awStore w) (segKey (suConfig su) hr shard 1) body"
    "\<not> suManifestStore su \<Longrightarrow> awActions w = [(dlID d, Ack)]"
proof -
  obtain s st1 e1 where s: "sgHour s = hr" "sgShard s = shard" "sgPart s = 1"
    and w: "persistSegment su sv' (segmentRequest (suConfig su) s body) (segmentRecord (suConfig su) s (segmentRequest (suConfig su) s body)) st = (st1, e1)"
      "awStore w = st1" "awActions w = [(dlID d, if e1 = None then Ack else Nak)]"
    by (rule first_flush [OF assms(1,6-8,10-16)])
  note up = direct_upload [OF assms(1-5,9), of s st, unfolded s w(1) fst_conv snd_conv]
  show "objectHeld su (awStore w) (segKey (suConfig su) hr shard 1) body" using up(1) w(2) by simp
  show "\<not> suManifestStore su \<Longrightarrow> awActions w = [(dlID d, Ack)]" using up(2) w(3) by simp
qed

end
