(* ===== verification/Archive_Properties.thy ===== *)
theory Archive_Properties
  imports Archive_Losses
begin

text \<open>
  The properties of the archive: what its record format and its memory of recent messages guarantee,
  that an acknowledged message is archived, and the ways in which a message can still be lost.
\<close>

section \<open>The memory of recent messages\<close>

text \<open>C8: The memory of recent envelopes answers as the plain list of the keys accepted within the window would, for every
  sequence of calls with a clock that does not run backwards and whatever the growth of its backing array, and it never
  holds more entries than its limit.\<close>

theorem dedup_equivalent:
  assumes "sorted (map fst calls)" "runAdd (Add grow) calls (newRecentEnvelopeDeduper window maxEntries) = (answers, d)"
  shows "fst (runAdd (refAdd (if window \<le> 0 then defaultDedupWindow else window) (nat (if maxEntries \<le> 0 then defaultDedupMaxEntries else maxEntries)))
      calls []) = answers \<and>
    int (length (rdEntries d)) \<le> (if maxEntries \<le> 0 then defaultDedupMaxEntries else maxEntries)"
proof -
  let ?d = "newRecentEnvelopeDeduper window maxEntries" and ?t = "if calls = [] then 0 else fst (hd calls)"
  have "sorted (?t # map fst calls)" using assms(1) by (cases calls) auto
  from runAdd_refines [OF new_dedup_inv(1) this assms(2)] obtain t where ref:
      "runAdd (refAdd (rdWindow ?d) (nat (rdMaxEntries ?d))) calls [] = (answers, live d)" "dedup_inv t d" "rdMaxEntries d = rdMaxEntries ?d"
    by (auto simp: new_dedup_inv(2))
  note inv = dedup_invD [OF ref(2)]
  have "int (length (rdEntries d)) \<le> rdMaxEntries ?d" using inv(7) entries_length [OF inv(2,3,4)] ref(3) by simp
  with ref(1) show ?thesis by (simp add: newRecentEnvelopeDeduper_def Let_def split: if_splits)
qed

theorem dedup_equivalent_witness:
  "\<exists>d. runAdd (Add (\<lambda>n. 2 * n)) [(1, ''a''), (2, ''b''), (3, ''a''), (12, ''a'')] (newRecentEnvelopeDeduper 10 1) = ([True, True, True, False], d) \<and>
     fst (runAdd (refAdd 10 1) [(1, ''a''), (2, ''b''), (3, ''a''), (12, ''a'')] []) = [True, True, True, False] \<and> int (length (rdEntries d)) \<le> 1"
proof -
  have trim: "TrimSpace ''a'' = ''a''" "TrimSpace ''b'' = ''b''" by code_simp+
  let ?calls = "[(1, ''a''), (2, ''b''), (3, ''a''), (12, ''a'')] :: (int \<times> string) list"
  have ref: "fst (runAdd (refAdd 10 1) ?calls []) = [True, True, True, False]" by code_simp
  obtain answers d where run: "runAdd (Add (\<lambda>n. 2 * n)) ?calls (newRecentEnvelopeDeduper 10 1) = (answers, d)" by fastforce
  from dedup_equivalent [OF _ this] ref run show ?thesis by auto
qed

section \<open>Records\<close>

text \<open>C25: The records the archive writes are read back, in order. In every run of the worker, when the encoder closes an open
  segment, the decoder reads from the object exactly the records of the messages that wait in the segment, with any compressor that
  decompresses what it compressed. From an object that decompresses to a beginning of what was written only, the
  decoder reads whole records that were written, a prefix of them, and it accepts the object only when the cut lies between two
  records.\<close>

theorem frames_roundtrip:
  assumes "prefix_ok (suConfig su)" "codec_small ec" "zstd_laws zs decodeAll" "outbox_wf (suSha256Hex su) st"
    and "w = archiveRun su grow ec zs evs (newArchiveWorker (suConfig su) st)" "gm_get (awSegments w) k = Some s" "zsClose zs (sgWritten s) = Inr body"
  shows "\<exists>ps. map (payloadOf ec) (sgPending s) = map Some ps \<and> DecodeEnvelopeFrames decodeAll body = Some (Inr ps) \<and>
    (\<forall>object n frames. object \<noteq> [] \<longrightarrow> decodeAll object = Inr (take n (sgWritten s)) \<longrightarrow> DecodeEnvelopeFrames decodeAll object = Some (Inr frames) \<longrightarrow>
       (\<exists>k \<le> length ps. frames = take k ps \<and> take n (sgWritten s) = concat (map frameOf (take k ps))))"
proof -
  have "segment_ok ec (deliveries evs) s"
  proof (cases "suOutbox su")
    case None
    then have su: "su = su\<lparr>suOutbox := None\<rparr>" by simp
    show ?thesis by (rule direct.open_segment [where su = su and zs = zs and st = st, folded su]) (use assms in simp_all)
  next
    case (Some m)
    then have su: "su = su\<lparr>suOutbox := Some m\<rparr>" by simp
    show ?thesis by (rule boxed.open_segment [where su = su and m = m and zs = zs and st = st, folded su]) (use assms in simp_all)
  qed
  then obtain ps where ps: "sgWritten s = concat (map frameOf ps)" "\<forall>p \<in> set ps. frame_ok p" "map (payloadOf ec) (sgPending s) = map Some ps"
    by (rule segment_payloads)
  have "body \<noteq> []" "decodeAll body = Inr (concat (map frameOf ps))" using assms(3,7) ps(1) by (auto simp: zstd_laws_def)
  then have "DecodeEnvelopeFrames decodeAll body = Some (Inr ps)" using decodeLoop_frames [OF ps(2), of "[]"] by (simp add: DecodeEnvelopeFrames_def)
  moreover have "\<exists>k \<le> length ps. frames = take k ps \<and> take n (sgWritten s) = concat (map frameOf (take k ps))"
    if "object \<noteq> []" "decodeAll object = Inr (take n (sgWritten s))" "DecodeEnvelopeFrames decodeAll object = Some (Inr frames)" for object n frames
    using decodeLoop_cut [OF ps(2), of n "[]" frames] that by (simp add: DecodeEnvelopeFrames_def ps(1))
  ultimately show ?thesis using ps(3) by blast
qed

text \<open>C27: The decoder returns on every input, and it answers at most half as many records as the object has decoded bytes.\<close>

theorem decoder_terminates:
  "\<exists>r. DecodeEnvelopeFrames decodeAll payload = Some r \<and>
     (case r of Inl e \<Rightarrow> True
      | Inr frames \<Rightarrow> frames = [] \<or> (\<exists>decoded. decodeAll payload = Inr decoded \<and> 2 * length frames \<le> length decoded))"
proof -
  obtain r where r: "DecodeEnvelopeFrames decodeAll payload = Some r"
    using decodeLoop_returns by (cases "payload = []"; cases "decodeAll payload") (auto simp: DecodeEnvelopeFrames_def)
  moreover have "frames = [] \<or> (\<exists>decoded. decodeAll payload = Inr decoded \<and> 2 * length frames \<le> length decoded)" if "r = Inr frames" for frames
    using r that decodeLoop_bound [of _ "[]" frames] by (auto simp: DecodeEnvelopeFrames_def split: if_splits sum.splits)
  ultimately show ?thesis by (cases r) auto
qed

section \<open>Acknowledged messages\<close>

text \<open>C3: In every run of the archive worker, with any messages, any times, any answers of the services and either way of
  persisting objects, a message is acknowledged only when the store or the outbox holds an object whose records include
  its own, or when an earlier message of the run had the same deduplication key.\<close>

theorem acked_is_archived:
  assumes "prefix_ok (suConfig su)" "codec_small ec" "zstd_laws zs decodeAll" "outbox_wf (suSha256Hex su) st"
    and "w = archiveRun su grow ec zs evs (newArchiveWorker (suConfig su) st)" and "(i, Ack) \<in> set (awActions w)"
  shows "\<exists>before d after p. deliveries evs = before @ d # after \<and> dlID d = i \<and> payloadOf ec d = Some p \<and>
    (archived decodeAll (awStore w) p \<or> keyOf ec d \<noteq> [] \<and> keyOf ec d \<in> keyOf ec ` set before)"
proof -
  have "ack_reason ec (\<lambda>d. \<exists>p. payloadOf ec d = Some p \<and> archived decodeAll (awStore w) p) (deliveries evs) i"
  proof (cases "suOutbox su")
    case None
    then have su: "su = su\<lparr>suOutbox := None\<rparr>" by simp
    show ?thesis
      by (rule direct.acked_archived [where su = su and zs = zs and st = st, folded su]) (use assms in simp_all)
  next
    case (Some m)
    then have su: "su = su\<lparr>suOutbox := Some m\<rparr>" by simp
    show ?thesis
      by (rule boxed.acked_archived [where su = su and m = m and zs = zs and st = st, folded su]) (use assms in simp_all)
  qed
  then show ?thesis unfolding ack_reason_def by (metis option.inject)
qed

text \<open>A worker in miniature: two envelopes, an encoder that puts one byte before its input, and services that do what they are asked.\<close>

definition sample_env1 :: TelemetryEnvelope where
  "sample_env1 = zeroEnvelope\<lparr>EnvelopeId := ''e1'', DeviceId := ''dev'', Shard := 69, ShardCount := 128, IngestedTimeUnixMs := 7200000\<rparr>"

definition sample_env2 :: TelemetryEnvelope where
  "sample_env2 = sample_env1\<lparr>EnvelopeId := ''e2''\<rparr>"

definition sample_codec :: envelope_codec where
  "sample_codec = \<lparr>ecUnmarshal = (\<lambda>data. if data = [] then Inr zeroEnvelope else if data = [1] then Inr sample_env1
       else if data = [2] then Inr sample_env2 else Inl ''bad wire format''),
     ecMarshal = (\<lambda>env. if env = zeroEnvelope then Inr [] else if env = sample_env1 then Inr [1]
       else if env = sample_env2 then Inr [2] else Inl ''cannot marshal'')\<rparr>"

definition sample_zstd :: zstd_encoder where
  "sample_zstd = \<lparr>zsNew = None, zsWrite = (\<lambda>_ _. None), zsBuffered = (\<lambda>_. 0), zsClose = (\<lambda>data. Inr (40 # data))\<rparr>"

definition sample_decode :: "byte list \<Rightarrow> string + byte list" where
  "sample_decode b = (case b of [] \<Rightarrow> Inl ''empty'' | _ # data \<Rightarrow> Inr data)"

definition sample_archive_config :: "int \<Rightarrow> ArchiveConfig" where
  "sample_archive_config maxRecords = \<lparr>acSubjectConfig = \<lparr>scPrefix = ''pulse'', scShardCount = 128\<rparr>, acStreamName = ''s'', acDurable = ''d'',
     acQueueGroup = ''q'', acAckWait = minute, acMaxAckPending = 4096, acProcessTimeout = second, acDrainTimeout = second,
     acFailureAlertWindow = minute, acFailureAlertThreshold = 6, acFailureAlertCooldown = minute, acFlushInterval = second, acFlushTimeout = second,
     acMaxRecordsPerPart = maxRecords, acMaxBytesPerPart = 1000, acObjectBucket = ''b'', acObjectPrefix = ''raw'', acWriterID = ''w-1'',
     acZstdEncoderLevel = 3, acDedupWindow = minute, acDedupMaxEntries = 10\<rparr>"

definition sample_archive :: "int \<Rightarrow> archive_setup" where
  "sample_archive maxRecords = \<lparr>suConfig = sample_archive_config maxRecords, suManifestStore = False, suOutbox = None, suSha256Hex = id\<rparr>"

definition fine_services :: services where
  "fine_services = \<lparr>svNow = 0, svCtxErr = (\<lambda>_. None), svEnsureBucket = (\<lambda>_. None), svPut = (\<lambda>_. Done), svExec = (\<lambda>_. Done),
     svReadDir = None, svReadFile = (\<lambda>_. None), svWriteFile = (\<lambda>_. Done), svRemoveFile = (\<lambda>_. Done), svEntrySize = (\<lambda>_. 1)\<rparr>"

definition failing_services :: services where
  "failing_services = fine_services\<lparr>svPut := (\<lambda>_. Refused ''unavailable'')\<rparr>"

definition sample_clock :: clock where
  "sample_clock = \<lparr>ckPartition = 7200000 * 1000000, ckDedup = 7200000 * 1000000, ckOpen = 7200000 * 1000000, ckRecord = 7200000 * 1000000\<rparr>"

definition sample_delivery :: "nat \<Rightarrow> byte list \<Rightarrow> delivery" where
  "sample_delivery i data = \<lparr>dlID = i, dlData = data\<rparr>"

definition emptyStore :: archive_store where
  "emptyStore = \<lparr>asObjects = [], asManifests = [], asOutbox = []\<rparr>"

lemma sample_prefix: "prefix_ok (suConfig (sample_archive n))"
proof -
  have "TrimSpace ''raw'' = ''raw''" "trimSlashes ''raw'' = ''raw''" by code_simp+
  then show ?thesis
    by (simp add: prefix_ok_def objectPrefix_def sample_archive_def sample_archive_config_def is_writer_char_def less_eq_char_def)
qed

lemma sample_trim: "TrimSpace ''b'' = ''b''" "TrimSpace ''w-1'' = ''w-1''" "TrimSpace ''dev'' = ''dev''" "TrimSpace ''env:e1'' = ''env:e1''"
  "TrimSpace ''e1'' = ''e1''"
  by code_simp+

lemma sample_envs: "zeroEnvelope \<noteq> sample_env1" "zeroEnvelope \<noteq> sample_env2" "sample_env1 \<noteq> sample_env2"
  by (simp_all add: sample_env1_def sample_env2_def zeroEnvelope_def)

lemma sample_codec_simps:
  "ecUnmarshal sample_codec [1] = Inr sample_env1" "ecUnmarshal sample_codec [2] = Inr sample_env2" "ecUnmarshal sample_codec [] = Inr zeroEnvelope"
  "ecMarshal sample_codec sample_env1 = Inr [1]" "ecMarshal sample_codec sample_env2 = Inr [2]" "ecMarshal sample_codec zeroEnvelope = Inr []"
  using sample_envs by (auto simp: sample_codec_def)

lemma sample_laws: "codec_small sample_codec" "zstd_laws sample_zstd sample_decode"
  by (auto simp: codec_small_def sample_codec_def zstd_laws_def sample_zstd_def sample_decode_def split: if_splits)

lemma sample_hour: "deliveryKey (suConfig (sample_archive n)) t sample_env1 = (7200000 * 1000000, 69)"
  "deliveryKey (suConfig (sample_archive n)) t sample_env2 = (7200000 * 1000000, 69)"
  by (simp_all add: deliveryKey_def sample_env1_def sample_env2_def zeroEnvelope_def envelopePartitionTime_def TruncateHour_def hour_def minute_def second_def)

lemma sample_key: "keyOf sample_codec (sample_delivery i [1]) = ''env:e1''" "payloadOf sample_codec (sample_delivery i [1]) = Some [1]"
proof -
  have "Key sample_env1 = ''env:e1''" by (simp add: Key_def sample_env1_def zeroEnvelope_def sample_trim)
  then show "keyOf sample_codec (sample_delivery i [1]) = ''env:e1''" by (simp add: keyOf_def sample_delivery_def sample_codec_simps sample_trim)
  show "payloadOf sample_codec (sample_delivery i [1]) = Some [1]" by (simp add: payloadOf_def sample_delivery_def sample_codec_simps)
qed

lemma sample_first:
  obtains s w1 dd where "sgShard s = 69" "sgRecords s = 1" "w1 = newArchiveWorker (suConfig (sample_archive n)) st
      \<lparr>awDeduper := dd, awPartCounts := [(mapKey (7200000 * 1000000) 69, 1)], awSegments := [(mapKey (7200000 * 1000000) 69, s)]\<rparr>"
    "processDelivery (sample_archive n) grow sample_codec sample_zstd sv sample_clock (sample_delivery i [1])
       (newArchiveWorker (suConfig (sample_archive n)) st) = (if n \<le> 1 then flushSegmentLocked (sample_archive n) sample_zstd sv s w1 else (None, w1))"
    "sgPending s = [sample_delivery i [1]]" "mapKey (sgHour s) (sgShard s) = mapKey (7200000 * 1000000) 69"
proof -
  have z: "zsNew sample_zstd = None" "zsWrite sample_zstd = (\<lambda>_ _. None)" "ecUnmarshal sample_codec (dlData (sample_delivery i [1])) = Inr sample_env1"
    by (simp_all add: sample_zstd_def sample_delivery_def sample_codec_simps)
  have limits: "acMaxRecordsPerPart (suConfig (sample_archive n)) = n" "acMaxBytesPerPart (suConfig (sample_archive n)) = 1000"
    "zsBuffered sample_zstd (frameOf [1]) = 0"
    by (simp_all add: sample_archive_def sample_archive_config_def sample_zstd_def)
  show thesis
    by (rule first_delivery [where su = "sample_archive n" and ck = sample_clock and cfg = "suConfig (sample_archive n)" and st = st and grow = grow and sv = sv,
          OF z sample_codec_simps(4) _ sample_hour(1) refl])
       (use that limits in auto)
qed

lemma sample_upload:
  assumes "ecUnmarshal sample_codec data = Inr env" "ecMarshal sample_codec env = Inr data" "data \<noteq> []" "env = sample_env1 \<or> env = sample_env2"
    and "w = archiveRun (sample_archive 10) grow sample_codec sample_zstd [Deliver sv sample_clock (sample_delivery i data), Shutdown fine_services]
      (newArchiveWorker (suConfig (sample_archive 10)) st)"
  shows "objectHeld (sample_archive 10) (awStore w) (segKey (suConfig (sample_archive 10)) (7200000 * 1000000) 69 1) (40 # frameOf data)"
    "awActions w = [(i, Ack)]"
proof -
  have key: "deliveryKey (suConfig (sample_archive 10)) (ckPartition sample_clock) env = (7200000 * 1000000, 69)" using assms(4) sample_hour by auto
  have s: "suOutbox (sample_archive 10) = None" "TrimSpace (acObjectBucket (suConfig (sample_archive 10))) \<noteq> []"
    "svEnsureBucket fine_services = (\<lambda>_. None)" "svPut fine_services = (\<lambda>_. Done)" "zsNew sample_zstd = None" "zsWrite sample_zstd = (\<lambda>_ _. None)"
    "zsClose sample_zstd (frameOf data) = Inr (40 # frameOf data)" "1 < acMaxRecordsPerPart (suConfig (sample_archive 10))"
    "zsBuffered sample_zstd (frameOf data) < acMaxBytesPerPart (suConfig (sample_archive 10))" "\<not> suManifestStore (sample_archive 10)"
    by (simp_all add: sample_archive_def sample_archive_config_def fine_services_def sample_zstd_def sample_trim)
  have d: "ecUnmarshal sample_codec (dlData (sample_delivery i data)) = Inr env" "dlID (sample_delivery i data) = i"
    using assms(1) by (simp_all add: sample_delivery_def)
  note up = first_upload [OF s(1) sample_prefix s(2,3,4,5,6,7) _ d(1) assms(2,3) s(8,9) key assms(5)]
  show "objectHeld (sample_archive 10) (awStore w) (segKey (suConfig (sample_archive 10)) (7200000 * 1000000) 69 1) (40 # frameOf data)"
    by (rule up(1)) simp
  show "awActions w = [(i, Ack)]" using up(2) s(10) d(2) by simp
qed

theorem acked_is_archived_witness:
  "\<exists>w. w = archiveRun (sample_archive 10) id sample_codec sample_zstd [Deliver fine_services sample_clock (sample_delivery 3 [1]), Shutdown fine_services]
       (newArchiveWorker (suConfig (sample_archive 10)) emptyStore) \<and> (3, Ack) \<in> set (awActions w) \<and> archived sample_decode (awStore w) [1]"
proof -
  define evs where "evs = [Deliver fine_services sample_clock (sample_delivery 3 [1]), Shutdown fine_services]"
  define w where "w = archiveRun (sample_archive 10) id sample_codec sample_zstd evs (newArchiveWorker (suConfig (sample_archive 10)) emptyStore)"
  have acked: "(3, Ack) \<in> set (awActions w)"
    using sample_upload(2) [OF sample_codec_simps(1,4) _ _ w_def [unfolded evs_def]] by simp
  have "outbox_wf (suSha256Hex (sample_archive 10)) emptyStore" by (simp add: outbox_wf_def emptyStore_def)
  from acked_is_archived [OF sample_prefix sample_laws this w_def acked] obtain before d after p where
    d: "deliveries evs = before @ d # after" "payloadOf sample_codec d = Some p" "archived sample_decode (awStore w) p \<or> keyOf sample_codec d \<in> keyOf sample_codec ` set before"
    by blast
  then have "before = []" "d = sample_delivery 3 [1]" by (auto simp: deliveries_def evs_def Cons_eq_append_conv)
  with d sample_key(2) [of 3] have "archived sample_decode (awStore w) [1]" by simp
  with acked show ?thesis by (auto simp: w_def evs_def)
qed

text \<open>C26: When the encoder accepts what it is given, as one that writes into memory does, and no message of the run encodes to
  nothing, a worker that is shut down has settled every message it was given, whatever the object store, the database and
  the outbox answered: each was acknowledged, asked for again or discarded, and no segment is left open.\<close>

theorem shutdown_settles:
  assumes "writes_ok zs" "\<forall>d \<in> set (deliveries evs). payloadOf ec d \<noteq> Some []" "\<forall>ev \<in> set evs. event_ok ev"
    and "w = archiveRun su grow ec zs (evs @ [Shutdown sv]) (newArchiveWorker (suConfig su) st)"
  shows "awSegments w = [] \<and> (\<forall>d \<in> set (deliveries evs). \<exists>a. (dlID d, a) \<in> set (awActions w))"
proof -
  define w1 where "w1 = archiveRun su grow ec zs evs (newArchiveWorker (suConfig su) st)"
  have w: "w = snd (flushAll su zs sv w1) \<or> w = withOutbox su sv (snd (flushAll su zs sv w1))"
    using stopWorker_cases [of su zs sv w1] by (simp add: assms(4) w1_def archiveRun_def)
  have good: "worker_good w1" unfolding w1_def by (rule run_good [OF new_good assms(3)])
  have acc: "\<forall>d \<in> set (deliveries evs). accounted w1 d"
    using run_accounted [OF new_good assms(3,1) _ assms(2), of "[]" _ st su grow] by (simp add: w1_def)
  have segs: "awSegments w = []" using flushAll_keeps(3) [OF good] w by (auto simp: withOutbox_def)
  have "accounted w d" if "d \<in> set (deliveries evs)" for d using flushAll_keeps(2) [OF good] acc that w by (auto simp: withOutbox_keeps)
  then show ?thesis using segs by (fastforce simp: accounted_def)
qed

theorem shutdown_settles_witness:
  "\<exists>a w. w = archiveRun (sample_archive 10) id sample_codec sample_zstd ([Deliver failing_services sample_clock (sample_delivery 3 [1])] @ [Shutdown failing_services])
       (newArchiveWorker (suConfig (sample_archive 10)) emptyStore) \<and> awSegments w = [] \<and> (3, a) \<in> set (awActions w)"
proof -
  let ?evs = "[Deliver failing_services sample_clock (sample_delivery 3 [1])]"
  have "writes_ok sample_zstd" by (simp add: writes_ok_def sample_zstd_def)
  moreover have "\<forall>d \<in> set (deliveries ?evs). payloadOf sample_codec d \<noteq> Some []"
    by (simp add: deliveries_def payloadOf_def sample_delivery_def sample_codec_simps)
  moreover have "\<forall>ev \<in> set ?evs. event_ok ev" by (simp add: sample_clock_def clock_ok_def UnixMilli_def)
  ultimately show ?thesis
    using shutdown_settles [OF _ _ _ refl, of sample_zstd ?evs sample_codec "sample_archive 10" id failing_services emptyStore]
    by (auto simp: deliveries_def sample_delivery_def)
qed

text \<open>C28: The manifest of a segment passes the validation of the manifest store in every respect but one: it is refused exactly
  when the shard, which may come from the envelope, is not below the shard count of the worker.\<close>

theorem manifest_valid:
  assumes "\<forall>ev \<in> set evs. event_ok ev" "w = archiveRun su grow ec zs evs (newArchiveWorker (suConfig su) st)"
    and "gm_get (awSegments w) k = Some s" "0 < sgRecords s" "body \<noteq> []" "prefix_ok (suConfig su)"
    and "TrimSpace (acObjectBucket (suConfig su)) \<noteq> []" "TrimSpace (acWriterID (suConfig su)) \<noteq> []" "scShardCount (acSubjectConfig (suConfig su)) \<noteq> 0"
  shows "validateManifestRecord (normalizeManifestRecord (segmentRecord (suConfig su) s (segmentRequest (suConfig su) s body)) now) =
    (if scShardCount (acSubjectConfig (suConfig su)) \<le> sgShard s then Some ''manifest shard must be less than shard_count'' else None)"
proof -
  have "worker_good w" unfolding assms(2) by (rule run_good [OF new_good assms(1)])
  from segment_valid [OF worker_goodD(2) [OF this assms(3)] assms(4-9)] show ?thesis .
qed

theorem manifest_valid_witness:
  "\<exists>w s. w = archiveRun (sample_archive 10) id sample_codec sample_zstd [Deliver fine_services sample_clock (sample_delivery 3 [1])]
       (newArchiveWorker (suConfig (sample_archive 10)) emptyStore) \<and> gm_get (awSegments w) (mapKey (7200000 * 1000000) 69) = Some s \<and>
     validateManifestRecord (normalizeManifestRecord (segmentRecord (suConfig (sample_archive 10)) s (segmentRequest (suConfig (sample_archive 10)) s [40])) 0) = None"
proof -
  let ?evs = "[Deliver fine_services sample_clock (sample_delivery 3 [1])]"
  define w where "w = archiveRun (sample_archive 10) id sample_codec sample_zstd ?evs (newArchiveWorker (suConfig (sample_archive 10)) emptyStore)"
  have ok: "\<forall>ev \<in> set ?evs. event_ok ev" by (simp add: sample_clock_def clock_ok_def UnixMilli_def)
  obtain s w1 dd where s: "sgShard s = 69" "sgRecords s = 1" "w1 = newArchiveWorker (suConfig (sample_archive 10)) emptyStore
        \<lparr>awDeduper := dd, awPartCounts := [(mapKey (7200000 * 1000000) 69, 1)], awSegments := [(mapKey (7200000 * 1000000) 69, s)]\<rparr>"
      "processDelivery (sample_archive 10) id sample_codec sample_zstd fine_services sample_clock (sample_delivery 3 [1])
         (newArchiveWorker (suConfig (sample_archive 10)) emptyStore) = (if (10 :: int) \<le> 1 then flushSegmentLocked (sample_archive 10) sample_zstd fine_services s w1 else (None, w1))"
    by (rule sample_first [of 10])
  have w: "gm_get (awSegments w) (mapKey (7200000 * 1000000) 69) = Some s" using s(3,4) by (simp add: w_def archiveRun_def gm_get_def)
  have cfg: "TrimSpace (acObjectBucket (suConfig (sample_archive 10))) \<noteq> []" "TrimSpace (acWriterID (suConfig (sample_archive 10))) \<noteq> []"
    "scShardCount (acSubjectConfig (suConfig (sample_archive 10))) = 128"
    by (simp_all add: sample_archive_def sample_archive_config_def sample_trim)
  from manifest_valid [OF ok w_def w _ _ sample_prefix cfg(1,2), of "[40]" 0] s(1,2) cfg(3) w show ?thesis by (auto simp: w_def)
qed

theorem frames_roundtrip_witness:
  "\<exists>w s. w = archiveRun (sample_archive 10) id sample_codec sample_zstd [Deliver fine_services sample_clock (sample_delivery 3 [1])]
       (newArchiveWorker (suConfig (sample_archive 10)) emptyStore) \<and> gm_get (awSegments w) (mapKey (7200000 * 1000000) 69) = Some s \<and>
     zsClose sample_zstd (sgWritten s) = Inr (40 # sgWritten s) \<and> DecodeEnvelopeFrames sample_decode (40 # sgWritten s) = Some (Inr [[1]])"
proof -
  let ?evs = "[Deliver fine_services sample_clock (sample_delivery 3 [1])]"
  define w where "w = archiveRun (sample_archive 10) id sample_codec sample_zstd ?evs (newArchiveWorker (suConfig (sample_archive 10)) emptyStore)"
  obtain s w1 dd where s: "sgPending s = [sample_delivery 3 [1]]" "w1 = newArchiveWorker (suConfig (sample_archive 10)) emptyStore
        \<lparr>awDeduper := dd, awPartCounts := [(mapKey (7200000 * 1000000) 69, 1)], awSegments := [(mapKey (7200000 * 1000000) 69, s)]\<rparr>"
      "processDelivery (sample_archive 10) id sample_codec sample_zstd fine_services sample_clock (sample_delivery 3 [1])
         (newArchiveWorker (suConfig (sample_archive 10)) emptyStore) = (if (10 :: int) \<le> 1 then flushSegmentLocked (sample_archive 10) sample_zstd fine_services s w1 else (None, w1))"
    by (rule sample_first [of 10])
  have w: "gm_get (awSegments w) (mapKey (7200000 * 1000000) 69) = Some s" using s(2,3) by (simp add: w_def archiveRun_def gm_get_def)
  have close: "zsClose sample_zstd (sgWritten s) = Inr (40 # sgWritten s)" by (simp add: sample_zstd_def)
  have box: "outbox_wf (suSha256Hex (sample_archive 10)) emptyStore" by (simp add: outbox_wf_def emptyStore_def)
  from frames_roundtrip [OF sample_prefix sample_laws box w_def w close] obtain ps
    where "map (payloadOf sample_codec) [sample_delivery 3 [1]] = map Some ps" "DecodeEnvelopeFrames sample_decode (40 # sgWritten s) = Some (Inr ps)"
    unfolding s(1) by blast
  then have "DecodeEnvelopeFrames sample_decode (40 # sgWritten s) = Some (Inr [[1]])"
    by (auto simp: payloadOf_def sample_delivery_def sample_codec_simps)
  with w close show ?thesis by (auto simp: w_def)
qed

section \<open>Lost messages\<close>

text \<open>C29: A message whose archiving failed is asked for again, and when it is delivered again within the deduplication window it
  is acknowledged as a duplicate of itself: when the object store had refused, nothing is stored from the first attempt to
  the acknowledgement and no segment holds the message. The message is lost.\<close>

theorem failed_archiving_is_lost:
  assumes "processDelivery su grow ec zs sv ck d w = (Some e, w1)" "payloadOf ec d = Some p" "keyOf ec d \<noteq> []"
    and "dedup_inv t (awDeduper w)" "worker_good w" "t \<le> ckDedup ck" "ckDedup ck \<le> ckDedup ck'"
    and "ckDedup ck' < ckDedup ck + rdWindow (awDeduper w)" "dlData d' = dlData d"
    and "suOutbox su = None" "\<And>r. \<exists>x. svPut sv r = Refused x"
  shows "(dlID d, Nak) \<in> set (awActions w1) \<and>
    (\<exists>w2. processDelivery su grow ec zs sv' ck' d' w1 = (None, w2) \<and> awActions w2 = awActions w1 @ [(dlID d', Ack)] \<and>
       awStore w2 = awStore w \<and> (\<forall>k s. gm_get (awSegments w2) k = Some s \<longrightarrow> gm_get (awSegments w) k = Some s))"
proof -
  note fails = process_fails [OF assms(1-4,6,5)]
  have same: "payloadOf ec d' = Some p" "keyOf ec d' = keyOf ec d" using assms(2,9) by (simp_all add: payloadOf_def keyOf_def)
  have "\<exists>dd. processDelivery su grow ec zs sv' ck' d' w1 = (None, settle Ack [d'] (w1\<lparr>awDeduper := dd\<rparr>))"
    by (rule repeated_acked [OF same(1) _ fails(2) assms(7) _ assms(8)]) (use assms(3) fails(3) same(2) in simp_all)
  then obtain dd where "processDelivery su grow ec zs sv' ck' d' w1 = (None, settle Ack [d'] (w1\<lparr>awDeduper := dd\<rparr>))" by blast
  moreover have "awStore w1 = awStore w" using refused_store [OF assms(10,11)] assms(1) by (metis snd_conv)
  ultimately show ?thesis using fails(1,4) by auto
qed

theorem failed_archiving_is_lost_witness:
  "\<exists>w1 w2 e. processDelivery (sample_archive 1) id sample_codec sample_zstd failing_services sample_clock (sample_delivery 3 [1])
       (newArchiveWorker (suConfig (sample_archive 1)) emptyStore) = (Some e, w1) \<and> (3, Nak) \<in> set (awActions w1) \<and>
     processDelivery (sample_archive 1) id sample_codec sample_zstd fine_services sample_clock (sample_delivery 4 [1]) w1 = (None, w2) \<and>
     (4, Ack) \<in> set (awActions w2) \<and> awStore w2 = emptyStore"
proof -
  let ?w = "newArchiveWorker (suConfig (sample_archive 1)) emptyStore"
  have refused: "suOutbox (sample_archive 1) = None" "\<And>r. \<exists>x. svPut failing_services r = Refused x"
    by (simp_all add: sample_archive_def failing_services_def)
  obtain s w0 where s: "sgRecords s = 1" "processDelivery (sample_archive 1) id sample_codec sample_zstd failing_services sample_clock (sample_delivery 3 [1]) ?w =
      flushSegmentLocked (sample_archive 1) sample_zstd failing_services s w0"
    by (rule sample_first [of 1 emptyStore id failing_services 3]) auto
  then obtain e w1 where fail: "processDelivery (sample_archive 1) id sample_codec sample_zstd failing_services sample_clock (sample_delivery 3 [1]) ?w = (Some e, w1)"
    using refused_flush(2) [OF refused, of s sample_zstd w0] by (metis one_neq_zero prod.collapse)
  have "dedup_inv (ckDedup sample_clock) (awDeduper ?w)" by (simp add: newArchiveWorker_def new_dedup_inv(1))
  moreover have "rdWindow (awDeduper ?w) = minute" "keyOf sample_codec (sample_delivery 3 [1]) \<noteq> []"
    by (simp_all add: newArchiveWorker_def sample_key newRecentEnvelopeDeduper_def sample_archive_def sample_archive_config_def Let_def minute_def second_def)
  ultimately have inv: "dedup_inv (ckDedup sample_clock) (awDeduper ?w)" "rdWindow (awDeduper ?w) = minute" "keyOf sample_codec (sample_delivery 3 [1]) \<noteq> []"
    by blast+
  have "ckDedup sample_clock < ckDedup sample_clock + rdWindow (awDeduper ?w)" by (simp add: inv(2) minute_def second_def)
  from failed_archiving_is_lost [OF fail sample_key(2) inv(3,1) new_good _ _ this _ refused, of "sample_delivery 4 [1]" fine_services] fail
  show ?thesis by (auto simp: sample_delivery_def newArchiveWorker_def)
qed

text \<open>A message that is the encoding of an empty envelope makes the worker drop the open segment of its hour and shard with
  all messages that wait in it: they are neither stored nor settled, and when such a message is delivered again within the
  deduplication window it is acknowledged without having been archived.\<close>

theorem empty_message_loses_segment:
  assumes "gm_get (awSegments w) (mapKey hr shard) = Some s" "worker_good w" "d \<in> set (sgPending s)"
    and "ecUnmarshal ec (dlData d0) = Inr zeroEnvelope" "ecMarshal ec zeroEnvelope = Inr []"
    and "deliveryKey (suConfig su) (ckPartition ck) zeroEnvelope = (hr, shard)" "payloadOf ec d = Some p" "keyOf ec d \<noteq> []"
    and "dedup_inv t (awDeduper w)" "(keyOf ec d, expiry) \<in> set (live (awDeduper w))" "t \<le> ckDedup ck'" "ckDedup ck' < expiry" "dlData d' = dlData d"
    and "w1 = snd (processDelivery su grow ec zs sv ck d0 w)" "w2 = snd (processDelivery su grow ec zs sv' ck' d' w1)"
  shows "awActions w2 = awActions w @ [(dlID d0, Nak), (dlID d', Ack)] \<and> gm_get (awSegments w2) (mapKey hr shard) = None \<and> awStore w2 = awStore w"
proof -
  have k: "mapKey (sgHour s) (sgShard s) = mapKey hr shard" using worker_goodD(1) [OF assms(2,1)] by simp
  have "Key zeroEnvelope = []" by (simp add: Key_def zeroEnvelope_def)
  from empty_drops [OF assms(4,5) this assms(6,1)] have w1: "w1 = dropSegmentLocked s (settle Nak [d0] w)" by (simp add: assms(14))
  have same: "payloadOf ec d' = Some p" "keyOf ec d' = keyOf ec d" using assms(7,13) by (simp_all add: payloadOf_def keyOf_def)
  have "\<exists>dd. processDelivery su grow ec zs sv' ck' d' w1 = (None, settle Ack [d'] (w1\<lparr>awDeduper := dd\<rparr>))"
    by (rule repeated_acked [OF same(1)]) (use assms(8-12) same(2) in \<open>simp_all add: w1\<close>)
  then obtain dd where "w2 = settle Ack [d'] (w1\<lparr>awDeduper := dd\<rparr>)" using assms(15) by auto
  then show ?thesis by (simp add: w1 k)
qed

theorem empty_message_loses_segment_witness:
  "\<exists>w w1 w2. w = snd (processDelivery (sample_archive 10) id sample_codec sample_zstd fine_services sample_clock (sample_delivery 3 [1])
       (newArchiveWorker (suConfig (sample_archive 10)) emptyStore)) \<and>
     w1 = snd (processDelivery (sample_archive 10) id sample_codec sample_zstd fine_services sample_clock (sample_delivery 4 []) w) \<and>
     w2 = snd (processDelivery (sample_archive 10) id sample_codec sample_zstd fine_services sample_clock (sample_delivery 5 [1]) w1) \<and>
     awActions w2 = [(4, Nak), (5, Ack)] \<and> awStore w2 = emptyStore"
proof -
  let ?su = "sample_archive 10" and ?w0 = "newArchiveWorker (suConfig (sample_archive 10)) emptyStore" and ?d = "sample_delivery 3 [1]"
  let ?process = "processDelivery ?su id sample_codec sample_zstd fine_services sample_clock"
  obtain s w dd where s: "w = ?w0\<lparr>awDeduper := dd, awPartCounts := [(mapKey (7200000 * 1000000) 69, 1)], awSegments := [(mapKey (7200000 * 1000000) 69, s)]\<rparr>"
      "?process ?d ?w0 = (None, w)" "sgPending s = [?d]"
    by (rule sample_first [of 10 emptyStore id fine_services 3]) auto
  have at: "gm_get (awSegments w) (mapKey (7200000 * 1000000) 69) = Some s" by (simp add: s(1) gm_get_def)
  have "clock_ok sample_clock" by (simp add: sample_clock_def clock_ok_def UnixMilli_def)
  from process_good(1) [OF new_good this, of ?su id sample_codec sample_zstd fine_services ?d "suConfig ?su" emptyStore] s(2)
  have good: "worker_good w" by simp
  have w0: "dedup_inv (ckDedup sample_clock) (awDeduper ?w0)" "rdWindow (awDeduper ?w0) = minute" "gm_get (rdEntries (awDeduper ?w0)) k = None" for k
    unfolding newArchiveWorker_def
    by (simp_all add: new_dedup_inv(1)) (simp_all add: newRecentEnvelopeDeduper_def sample_archive_def sample_archive_config_def Let_def minute_def second_def)
  have key: "keyOf sample_codec ?d \<noteq> []" by (simp add: sample_key)
  note rem = process_remembers [OF s(2) sample_key(2) key w0(1) order_refl w0(3)]
  have zero: "deliveryKey (suConfig ?su) (ckPartition sample_clock) zeroEnvelope = (7200000 * 1000000, 69)"
    by (simp add: deliveryKey_def zeroEnvelope_def envelopePartitionTime_def sample_clock_def TruncateHour_def hour_def minute_def second_def
        ShardForDevice_def fnv32a_def sample_archive_def sample_archive_config_def)
  have "ckDedup sample_clock < ckDedup sample_clock + rdWindow (awDeduper ?w0)" by (simp add: w0(2) minute_def second_def)
  from empty_message_loses_segment [OF at good _ _ sample_codec_simps(6) zero sample_key(2) key rem order_refl this _ refl refl,
      of "sample_delivery 4 []" "sample_delivery 5 [1]" id sample_zstd fine_services fine_services] s
  show ?thesis by (simp add: sample_delivery_def sample_codec_simps newArchiveWorker_def)
qed

text \<open>C30: A worker that is restarted within the hour under the same writer name numbers its parts from one again: the first object
  it writes for an hour and shard replaces the object a predecessor wrote under that key. Afterwards the object holds the
  one new record, and what the predecessor had archived and acknowledged there is gone.\<close>

theorem restart_overwrites:
  assumes "suOutbox su = None" "prefix_ok (suConfig su)" "TrimSpace (acObjectBucket (suConfig su)) \<noteq> []" "zstd_laws zs decodeAll"
    and "svEnsureBucket sv' = (\<lambda>_. None)" "svPut sv' = (\<lambda>_. Done)" "zsNew zs = None" "zsWrite zs = (\<lambda>_ _. None)"
    and "zsClose zs (frameOf p) = Inr body" "ecUnmarshal ec (dlData d) = Inr env" "ecMarshal ec env = Inr p" "frame_ok p"
    and "1 < acMaxRecordsPerPart (suConfig su)" "zsBuffered zs (frameOf p) < acMaxBytesPerPart (suConfig su)"
    and "deliveryKey (suConfig su) (ckPartition ck) env = (hr, shard)" "objectHeld su st (segKey (suConfig su) hr shard 1) old" "old \<noteq> body"
    and "w = archiveRun su grow ec zs [Deliver sv ck d, Shutdown sv'] (newArchiveWorker (suConfig su) st)"
  shows "objectHeld su (awStore w) (segKey (suConfig su) hr shard 1) body \<and> DecodeEnvelopeFrames decodeAll body = Some (Inr [p]) \<and>
    \<not> objectHeld su (awStore w) (segKey (suConfig su) hr shard 1) old"
proof -
  have b: "body \<noteq> []" "decodeAll body = Inr (frameOf p)" using assms(4,9) by (auto simp: zstd_laws_def)
  have "p \<noteq> []" using assms(12) by (simp add: frame_ok_def)
  note up = first_upload(1) [OF assms(1-3,5-9) b(1) assms(10,11) this assms(13,14,15,18)]
  moreover have "DecodeEnvelopeFrames decodeAll body = Some (Inr [p])"
    using b decodeLoop_frames [of "[p]" "[]"] assms(12) by (simp add: DecodeEnvelopeFrames_def)
  ultimately show ?thesis using assms(17) by (auto simp: objectHeld_def)
qed

theorem restart_overwrites_witness:
  "\<exists>w w' k. w = archiveRun (sample_archive 10) id sample_codec sample_zstd [Deliver fine_services sample_clock (sample_delivery 3 [1]), Shutdown fine_services]
       (newArchiveWorker (suConfig (sample_archive 10)) emptyStore) \<and> awActions w = [(3, Ack)] \<and>
     objectHeld (sample_archive 10) (awStore w) k (40 # frameOf [1]) \<and>
     w' = archiveRun (sample_archive 10) id sample_codec sample_zstd [Deliver fine_services sample_clock (sample_delivery 4 [2]), Shutdown fine_services]
       (newArchiveWorker (suConfig (sample_archive 10)) (awStore w)) \<and> \<not> objectHeld (sample_archive 10) (awStore w') k (40 # frameOf [1])"
proof -
  let ?su = "sample_archive 10" and ?k = "segKey (suConfig (sample_archive 10)) (7200000 * 1000000) 69 1"
  define w where "w = archiveRun ?su id sample_codec sample_zstd [Deliver fine_services sample_clock (sample_delivery 3 [1]), Shutdown fine_services]
      (newArchiveWorker (suConfig ?su) emptyStore)"
  define w' where "w' = archiveRun ?su id sample_codec sample_zstd [Deliver fine_services sample_clock (sample_delivery 4 [2]), Shutdown fine_services]
      (newArchiveWorker (suConfig ?su) (awStore w))"
  note first = sample_upload [OF sample_codec_simps(1,4) _ _ w_def]
  have held: "objectHeld ?su (awStore w) ?k (40 # frameOf [1])" and acked: "awActions w = [(3, Ack)]" using first by simp_all
  have s: "suOutbox ?su = None" "TrimSpace (acObjectBucket (suConfig ?su)) \<noteq> []"
    "svEnsureBucket fine_services = (\<lambda>_. None)" "svPut fine_services = (\<lambda>_. Done)" "zsNew sample_zstd = None" "zsWrite sample_zstd = (\<lambda>_ _. None)"
    "zsClose sample_zstd (frameOf [2]) = Inr (40 # frameOf [2])" "ecUnmarshal sample_codec (dlData (sample_delivery 4 [2])) = Inr sample_env2"
    "frame_ok [2]" "1 < acMaxRecordsPerPart (suConfig ?su)" "zsBuffered sample_zstd (frameOf [2]) < acMaxBytesPerPart (suConfig ?su)"
    by (simp_all add: sample_archive_def sample_archive_config_def fine_services_def sample_zstd_def sample_trim sample_delivery_def sample_codec_simps frame_ok_def)
  have ne: "40 # frameOf [1] \<noteq> 40 # frameOf [2]" by (simp add: frameOf_def)
  from restart_overwrites [OF s(1) sample_prefix s(2) sample_laws(2) s(3-8) sample_codec_simps(5) s(9-11) sample_hour(2) held ne w'_def]
  have "\<not> objectHeld ?su (awStore w') ?k (40 # frameOf [1])" by blast
  with held acked show ?thesis unfolding w_def [symmetric] w'_def [symmetric] by (intro exI [of _ w] exI [of _ w'] exI [of _ ?k]) (simp add: w_def w'_def)
qed

end
