(* ===== verification/Replay_Model.thy ===== *)
theory Replay_Model
  imports Replay_Frames Archive_Store Envelope Gap_Model
begin

text \<open>
  Replaying archived telemetry (\<open>internal/replaycli\<close>): the manifests that match a request are listed,
  their objects read and decoded, and the envelopes in the window that the request is about are
  published again. The manifest store is the table of \<^theory_text>\<open>archive_store\<close>; the two queries are
  translated clause by clause, with texts ordered bytewise. Decompression, the protobuf decoder,
  the reader of objects, the cancellation of the context and the connection are arguments.
\<close>

section \<open>Data\<close>

record ManifestObject =
  moProvider :: string
  moShard :: "32 word"
  moShardCount :: "32 word"
  moPartitionHour :: int
  moTSMinUnixMS :: int
  moTSMaxUnixMS :: int
  moObjectBucket :: string
  moObjectKey :: string
  moObjectSizeBytes :: int
  moRecordCount :: int
  moDeviceIDs :: "string list"
  moProviderDeviceIDs :: "string list"

record DeviceQuery =
  dqProvider :: string
  dqFromUnixMS :: int
  dqToUnixMS :: int
  dqDeviceIDs :: "string list"
  dqProviderDeviceIDs :: "string list"
  dqMaxObjectsReturned :: int

record FleetQuery =
  fqFromUnixMS :: int
  fqToUnixMS :: int
  fqShards :: "32 word list"
  fqMaxObjectsReturned :: int

text \<open>The times at which a replay started and finished are left out.\<close>

record ReplayReport =
  rpMode :: string
  rpObjectsMatched :: int
  rpObjectsProcessed :: int
  rpMessagesDecoded :: int
  rpMessagesPublished :: int
  rpMessagesFiltered :: int
  rpMessagesFailed :: int
  rpPublishedByShard :: "(32 word, int) gomap"
  rpFirstMessageUnixMS :: int
  rpLastMessageUnixMS :: int

definition newReport :: "string \<Rightarrow> ReplayReport" where
  "newReport mode = \<lparr>rpMode = mode, rpObjectsMatched = 0, rpObjectsProcessed = 0, rpMessagesDecoded = 0, rpMessagesPublished = 0,
     rpMessagesFiltered = 0, rpMessagesFailed = 0, rpPublishedByShard = [], rpFirstMessageUnixMS = 0, rpLastMessageUnixMS = 0\<rparr>"

definition Validate :: "ReplayRequest \<Rightarrow> string \<Rightarrow> string option" where
  "Validate r mode0 =
     (let mode = ToLower (TrimSpace mode0)
      in if mode \<noteq> ''device'' \<and> mode \<noteq> ''fleet'' then Some ''mode must be device or fleet''
         else if rrFromUnixMS r \<le> 0 \<or> rrToUnixMS r \<le> 0 then Some ''from and to must be positive unix-millisecond values''
         else if rrFromUnixMS r > rrToUnixMS r then Some ''from must be <= to''
         else if rrMaxObjects r < 0 then Some ''max objects must be >= 0''
         else if mode = ''device'' \<and> rrDeviceIDs r = [] \<and> rrProviderDeviceIDs r = []
         then Some ''device mode requires at least one device-id or provider-device-id''
         else None)"

definition normalizeStrings :: "string list \<Rightarrow> bool \<Rightarrow> string list" where
  "normalizeStrings values upper = sort_by (by_asc id) (dedupStrings upper [] [] values)"

section \<open>The manifest store\<close>

text \<open>\<open>&&\<close> of two arrays: they have an element in common.\<close>

definition overlap :: "string list \<Rightarrow> string list \<Rightarrow> bool" where
  "overlap xs ys \<longleftrightarrow> list_ex (\<lambda>x. x \<in> set ys) xs"

definition deviceRow :: "int \<Rightarrow> int \<Rightarrow> string \<Rightarrow> string list \<Rightarrow> string list \<Rightarrow> ManifestRecord \<Rightarrow> bool" where
  "deviceRow fromMS toMS provider deviceIDs providerDeviceIDs r \<longleftrightarrow>
     mrTSMaxUnixMS r \<ge> fromMS \<and> mrTSMinUnixMS r \<le> toMS \<and> (provider = [] \<or> mrProvider r = provider) \<and>
     (deviceIDs \<noteq> [] \<and> overlap (mrDeviceIDs r) deviceIDs \<or> providerDeviceIDs \<noteq> [] \<and> overlap (mrProviderDeviceIDs r) providerDeviceIDs)"

definition rowOrder :: "ManifestRecord \<Rightarrow> ManifestRecord \<Rightarrow> bool" where
  "rowOrder = then_by mrPartitionHour (by_asc mrPartitionHour) (then_by mrShard (by_asc mrShard) (by_asc mrObjectKey))"

definition limitRows :: "int \<Rightarrow> 'a list \<Rightarrow> 'a list" where
  "limitRows n xs = (if 0 < n then take (nat n) xs else xs)"

definition scanManifestRow :: "ManifestRecord \<Rightarrow> string + ManifestObject" where
  "scanManifestRow r =
     (if sint (mrShard r) < 0 \<or> sint (mrShardCount r) < 0
      then Inl (''invalid shard values shard='' @ Itoa (sint (mrShard r)) @ '' shard_count='' @ Itoa (sint (mrShardCount r)))
      else Inr \<lparr>moProvider = mrProvider r, moShard = mrShard r, moShardCount = mrShardCount r, moPartitionHour = mrPartitionHour r,
             moTSMinUnixMS = mrTSMinUnixMS r, moTSMaxUnixMS = mrTSMaxUnixMS r, moObjectBucket = mrObjectBucket r, moObjectKey = mrObjectKey r,
             moObjectSizeBytes = mrObjectSizeBytes r, moRecordCount = mrRecordCount r, moDeviceIDs = normalizeStrings (mrDeviceIDs r) False,
             moProviderDeviceIDs = normalizeStrings (mrProviderDeviceIDs r) True\<rparr>)"

fun scanManifestRows :: "ManifestRecord list \<Rightarrow> string + ManifestObject list" where
  "scanManifestRows [] = Inr []"
| "scanManifestRows (r # rows) =
     (case scanManifestRow r of
        Inl e \<Rightarrow> Inl e
      | Inr m \<Rightarrow> (case scanManifestRows rows of Inl e \<Rightarrow> Inl e | Inr ms \<Rightarrow> Inr (m # ms)))"

text \<open>\<open>queryErr\<close> is the error of the database, if any.\<close>

definition ListByDevices :: "string option \<Rightarrow> ManifestRecord list \<Rightarrow> DeviceQuery \<Rightarrow> string + ManifestObject list" where
  "ListByDevices queryErr rows q =
     (if dqFromUnixMS q \<le> 0 \<or> dqToUnixMS q \<le> 0 \<or> dqFromUnixMS q > dqToUnixMS q then Inl ''invalid manifest device query window''
      else
        (let deviceIDs = normalizeStrings (dqDeviceIDs q) False; providerDeviceIDs = normalizeStrings (dqProviderDeviceIDs q) True
         in if deviceIDs = [] \<and> providerDeviceIDs = [] then Inl ''manifest device query requires at least one id filter''
            else case queryErr of
                   Some e \<Rightarrow> Inl (''query manifest by device filters: '' @ e)
                 | None \<Rightarrow> scanManifestRows (limitRows (dqMaxObjectsReturned q) (sort_by rowOrder
                     (filter (deviceRow (dqFromUnixMS q) (dqToUnixMS q) (TrimSpace (dqProvider q)) deviceIDs providerDeviceIDs) rows)))))"

definition uint32SliceToInt32 :: "32 word list \<Rightarrow> string \<Rightarrow> string + int list" where
  "uint32SliceToInt32 values field =
     (case find (\<lambda>v. 2147483647 < uint v) values of
        Some v \<Rightarrow> Inl (field @ '' exceeds int32 bounds: '' @ Itoa (uint v))
      | None \<Rightarrow> Inr (map uint values))"

definition ListByFleetRange :: "string option \<Rightarrow> ManifestRecord list \<Rightarrow> FleetQuery \<Rightarrow> string + ManifestObject list" where
  "ListByFleetRange queryErr rows q =
     (if fqFromUnixMS q \<le> 0 \<or> fqToUnixMS q \<le> 0 \<or> fqFromUnixMS q > fqToUnixMS q then Inl ''invalid manifest fleet query window''
      else case uint32SliceToInt32 (fqShards q) ''manifest shard filter'' of
             Inl e \<Rightarrow> Inl e
           | Inr shards \<Rightarrow>
               (case queryErr of
                  Some e \<Rightarrow> Inl (''query manifest by fleet range: '' @ e)
                | None \<Rightarrow> scanManifestRows (limitRows (fqMaxObjectsReturned q) (sort_by rowOrder
                    (filter (\<lambda>r. mrTSMaxUnixMS r \<ge> fqFromUnixMS q \<and> mrTSMinUnixMS r \<le> fqToUnixMS q \<and> (shards = [] \<or> sint (mrShard r) \<in> set shards)) rows)))))"

section \<open>The publisher\<close>

datatype publish_target = ReplayTarget | IngestTarget

definition normalizePublishTarget :: "string \<Rightarrow> publish_target option" where
  "normalizePublishTarget target =
     (let trimmed = ToLower (TrimSpace target)
      in if trimmed = [] \<or> trimmed = ''replay'' then Some ReplayTarget else if trimmed = ''ingest'' then Some IngestTarget else None)"

definition IngestSubject :: "SubjectConfig \<Rightarrow> 32 word \<Rightarrow> string" where
  "IngestSubject cfg shard = scPrefix (Normalized cfg) @ ''.telemetry.ingest.s'' @ dec_padded 3 (unat shard)"

definition ReplaySubject :: "SubjectConfig \<Rightarrow> 32 word \<Rightarrow> string" where
  "ReplaySubject cfg shard = scPrefix (Normalized cfg) @ ''.telemetry.replay.s'' @ dec_padded 3 (unat shard)"

definition subjectForShard :: "publish_target \<Rightarrow> SubjectConfig \<Rightarrow> 32 word \<Rightarrow> string" where
  "subjectForShard target cfg shard = (case target of IngestTarget \<Rightarrow> IngestSubject cfg shard | ReplayTarget \<Rightarrow> ReplaySubject cfg shard)"

text \<open>The bus is the list of the messages it has taken; \<open>send\<close> is the error of the connection for the next message, if any.\<close>

type_synonym replay_bus = "(string \<times> byte list) list"

definition PublishReplay ::
    "publish_target \<Rightarrow> SubjectConfig \<Rightarrow> (replay_bus \<Rightarrow> string option) \<Rightarrow> 32 word \<Rightarrow> byte list \<Rightarrow> replay_bus \<Rightarrow> replay_bus \<times> string option" where
  "PublishReplay target cfg send shard payload bus =
     (if payload = [] then (bus, Some ''replay payload is empty'')
      else
        (let subject = subjectForShard target cfg shard
         in if TrimSpace subject = [] then (bus, Some ''replay subject is empty'')
            else case send bus of
                   Some e \<Rightarrow> (bus, Some (''publish replay envelope subject='' @ subject @ '': '' @ e))
                 | None \<Rightarrow> (bus @ [(subject, payload)], None)))"

section \<open>The runner\<close>

record 'b replay_env =
  rnListByDevices :: "DeviceQuery \<Rightarrow> string + ManifestObject list"
  rnListByFleetRange :: "FleetQuery \<Rightarrow> string + ManifestObject list"
  rnReadObject :: "string \<Rightarrow> string \<Rightarrow> string + byte list"
  rnDecodeAll :: "byte list \<Rightarrow> string + byte list"
  rnUnmarshal :: "byte list \<Rightarrow> string + TelemetryEnvelope"
  rnCtxErr :: "int \<Rightarrow> string option"
  rnPublish :: "32 word \<Rightarrow> byte list \<Rightarrow> 'b \<Rightarrow> 'b \<times> string option"

definition normalizeEnvelopeShard :: "TelemetryEnvelope \<Rightarrow> 32 word \<Rightarrow> 32 word" where
  "normalizeEnvelopeShard env fallback =
     (if ShardCount env = 0 then fallback else if ShardCount env \<le> Shard env then fallback else Shard env)"

definition envelopeTimestampUnixMS :: "TelemetryEnvelope \<Rightarrow> int" where
  "envelopeTimestampUnixMS env =
     (if 0 < IngestedTimeUnixMs env then IngestedTimeUnixMs env
      else if 0 < ObservedTimeUnixMs env then ObservedTimeUnixMs env
      else if 0 < DeviceTimeUnixMs env then DeviceTimeUnixMs env
      else 0)"

text \<open>The first and last timestamps of the report, whether or not the message is in the window.\<close>

definition noteTimestamp :: "int \<Rightarrow> ReplayReport \<Rightarrow> ReplayReport" where
  "noteTimestamp ts rep =
     (if 0 < ts
      then rep\<lparr>rpFirstMessageUnixMS := (if rpFirstMessageUnixMS rep = 0 \<or> ts < rpFirstMessageUnixMS rep then ts else rpFirstMessageUnixMS rep),
               rpLastMessageUnixMS := (if ts > rpLastMessageUnixMS rep then ts else rpLastMessageUnixMS rep)\<rparr>
      else rep)"

fun replayFrames ::
    "'b replay_env \<Rightarrow> ManifestObject \<Rightarrow> string \<Rightarrow> int \<Rightarrow> int \<Rightarrow> (TelemetryEnvelope \<Rightarrow> bool) \<Rightarrow> byte list list \<Rightarrow> ReplayReport \<times> 'b \<Rightarrow>
       (ReplayReport \<times> 'b) \<times> string option" where
  "replayFrames rn obj mode fromMS toMS shouldPublish [] (rep, bus) = ((rep, bus), None)"
| "replayFrames rn obj mode fromMS toMS shouldPublish (frame # frames) (rep, bus) =
     (case rnCtxErr rn (rpMessagesDecoded rep) of
        Some e \<Rightarrow> ((rep, bus), Some e)
      | None \<Rightarrow>
          (let rep1 = rep\<lparr>rpMessagesDecoded := rpMessagesDecoded rep + 1\<rparr>
           in case rnUnmarshal rn frame of
                Inl e \<Rightarrow> ((rep1\<lparr>rpMessagesFailed := rpMessagesFailed rep1 + 1\<rparr>, bus),
                    Some (''unmarshal telemetry envelope from '' @ moObjectBucket obj @ ''/'' @ moObjectKey obj @ '': '' @ e))
              | Inr env \<Rightarrow>
                  (let ts = envelopeTimestampUnixMS env; rep2 = noteTimestamp ts rep1
                   in if 0 < ts \<and> (ts < fromMS \<or> ts > toMS) \<or> \<not> shouldPublish env
                      then replayFrames rn obj mode fromMS toMS shouldPublish frames (rep2\<lparr>rpMessagesFiltered := rpMessagesFiltered rep2 + 1\<rparr>, bus)
                      else
                        (let shard = normalizeEnvelopeShard env (moShard obj)
                         in case rnPublish rn shard frame bus of
                              (bus', Some e) \<Rightarrow> ((rep2\<lparr>rpMessagesFailed := rpMessagesFailed rep2 + 1\<rparr>, bus'),
                                  Some (''publish replay envelope mode='' @ mode @ '' shard='' @ Itoa (uint shard) @ '': '' @ e))
                            | (bus', None) \<Rightarrow> replayFrames rn obj mode fromMS toMS shouldPublish frames
                                (rep2\<lparr>rpMessagesPublished := rpMessagesPublished rep2 + 1,
                                   rpPublishedByShard := gm_put shard ((case gm_get (rpPublishedByShard rep2) shard of None \<Rightarrow> 0 | Some n \<Rightarrow> n) + 1)
                                     (rpPublishedByShard rep2)\<rparr>, bus')))))"

text \<open>The loop over the objects. It returns \<open>None\<close> where the decoder would not return.\<close>

fun processObjects ::
    "'b replay_env \<Rightarrow> string \<Rightarrow> int \<Rightarrow> int \<Rightarrow> (TelemetryEnvelope \<Rightarrow> bool) \<Rightarrow> ManifestObject list \<Rightarrow> ReplayReport \<times> 'b \<Rightarrow>
       ((ReplayReport \<times> 'b) \<times> string option) option" where
  "processObjects rn mode fromMS toMS shouldPublish [] st = Some (st, None)"
| "processObjects rn mode fromMS toMS shouldPublish (obj # objs) (rep, bus) =
     (case rnReadObject rn (moObjectBucket obj) (moObjectKey obj) of
        Inl e \<Rightarrow> Some ((rep\<lparr>rpMessagesFailed := rpMessagesFailed rep + 1\<rparr>, bus),
            Some (''read archive object '' @ moObjectBucket obj @ ''/'' @ moObjectKey obj @ '': '' @ e))
      | Inr body \<Rightarrow>
          (let rep1 = rep\<lparr>rpObjectsProcessed := rpObjectsProcessed rep + 1\<rparr>
           in case DecodeEnvelopeFrames (rnDecodeAll rn) body of
                None \<Rightarrow> None
              | Some (Inl e) \<Rightarrow> Some ((rep1\<lparr>rpMessagesFailed := rpMessagesFailed rep1 + 1\<rparr>, bus),
                  Some (''decode archive object '' @ moObjectBucket obj @ ''/'' @ moObjectKey obj @ '': '' @ e))
              | Some (Inr frames) \<Rightarrow>
                  (case replayFrames rn obj mode fromMS toMS shouldPublish frames (rep1, bus) of
                     (st, Some e) \<Rightarrow> Some (st, Some e)
                   | (st, None) \<Rightarrow> processObjects rn mode fromMS toMS shouldPublish objs st)))"

text \<open>An envelope is about a device when its identifier is asked for, or else the label or serial number that names it.\<close>

definition deviceWanted :: "string list \<Rightarrow> string list \<Rightarrow> TelemetryEnvelope \<Rightarrow> bool" where
  "deviceWanted deviceIDs providerDeviceIDs env \<longleftrightarrow>
     TrimSpace (DeviceId env) \<in> set deviceIDs \<or>
     (let candidate = ToUpper (TrimSpace (label env ''provider_device_id''))
      in (if candidate = [] then ToUpper (TrimSpace (EcoflowSn env)) else candidate) \<in> set providerDeviceIDs)"

definition ReplayDevices :: "'b replay_env \<Rightarrow> ReplayRequest \<Rightarrow> 'b \<Rightarrow> ((ReplayReport \<times> 'b) \<times> string option) option" where
  "ReplayDevices rn request bus =
     (case Validate request ''device'' of
        Some e \<Rightarrow> Some ((newReport [], bus), Some e)
      | None \<Rightarrow>
          (let deviceIDs = normalizeStrings (rrDeviceIDs request) False;
               providerDeviceIDs = normalizeStrings (rrProviderDeviceIDs request) True;
               rep = newReport ''device''
           in case rnListByDevices rn \<lparr>dqProvider = TrimSpace (rrProvider request), dqFromUnixMS = rrFromUnixMS request, dqToUnixMS = rrToUnixMS request,
                     dqDeviceIDs = deviceIDs, dqProviderDeviceIDs = providerDeviceIDs, dqMaxObjectsReturned = rrMaxObjects request\<rparr> of
                Inl e \<Rightarrow> Some ((rep, bus), Some (''query manifests by devices: '' @ e))
              | Inr objects \<Rightarrow>
                  processObjects rn ''device'' (rrFromUnixMS request) (rrToUnixMS request) (deviceWanted deviceIDs providerDeviceIDs) objects
                    (rep\<lparr>rpObjectsMatched := int (length objects)\<rparr>, bus)))"

definition ReplayFleet :: "'b replay_env \<Rightarrow> ReplayRequest \<Rightarrow> 'b \<Rightarrow> ((ReplayReport \<times> 'b) \<times> string option) option" where
  "ReplayFleet rn request bus =
     (case Validate request ''fleet'' of
        Some e \<Rightarrow> Some ((newReport [], bus), Some e)
      | None \<Rightarrow>
          (case rnListByFleetRange rn \<lparr>fqFromUnixMS = rrFromUnixMS request, fqToUnixMS = rrToUnixMS request, fqShards = rrShards request,
                  fqMaxObjectsReturned = rrMaxObjects request\<rparr> of
             Inl e \<Rightarrow> Some ((newReport ''fleet'', bus), Some (''query manifests by fleet window: '' @ e))
           | Inr objects \<Rightarrow>
               processObjects rn ''fleet'' (rrFromUnixMS request) (rrToUnixMS request) (\<lambda>_. True) objects
                 (newReport ''fleet''\<lparr>rpObjectsMatched := int (length objects)\<rparr>, bus)))"

end
