(* ===== verification/Replay_Runs.thy ===== *)
theory Replay_Runs
  imports Replay_Model Archive_Runs
begin

text \<open>
  What a replay publishes. The runner relies on its publisher only through a small contract, that a
  message is either added to what was sent or not sent at all; under it a replay sends the selected
  records of the listed objects, in order, and an error leaves a prefix of them. The manifests the
  archive writes are then found by the queries of the replay.
\<close>

section \<open>What a replay is to send\<close>

definition selected :: "'b replay_env \<Rightarrow> int \<Rightarrow> int \<Rightarrow> (TelemetryEnvelope \<Rightarrow> bool) \<Rightarrow> byte list \<Rightarrow> bool" where
  "selected rn fromMS toMS wanted frame \<longleftrightarrow>
     (case rnUnmarshal rn frame of
        Inl _ \<Rightarrow> False
      | Inr env \<Rightarrow> wanted env \<and> (envelopeTimestampUnixMS env \<le> 0 \<or> fromMS \<le> envelopeTimestampUnixMS env \<and> envelopeTimestampUnixMS env \<le> toMS))"

definition shardOf :: "'b replay_env \<Rightarrow> ManifestObject \<Rightarrow> byte list \<Rightarrow> 32 word" where
  "shardOf rn obj frame = (case rnUnmarshal rn frame of Inl _ \<Rightarrow> 0 | Inr env \<Rightarrow> normalizeEnvelopeShard env (moShard obj))"

definition framesOf :: "'b replay_env \<Rightarrow> ManifestObject \<Rightarrow> byte list list" where
  "framesOf rn obj =
     (case rnReadObject rn (moObjectBucket obj) (moObjectKey obj) of
        Inl _ \<Rightarrow> []
      | Inr body \<Rightarrow> (case DecodeEnvelopeFrames (rnDecodeAll rn) body of Some (Inr frames) \<Rightarrow> frames | _ \<Rightarrow> []))"

definition messagesOf ::
    "(32 word \<Rightarrow> byte list \<Rightarrow> 'm) \<Rightarrow> 'b replay_env \<Rightarrow> int \<Rightarrow> int \<Rightarrow> (TelemetryEnvelope \<Rightarrow> bool) \<Rightarrow> ManifestObject \<Rightarrow> byte list list \<Rightarrow> 'm list" where
  "messagesOf message rn fromMS toMS wanted obj frames =
     map (\<lambda>f. message (shardOf rn obj f) f) (filter (selected rn fromMS toMS wanted) frames)"

definition objectMessages ::
    "(32 word \<Rightarrow> byte list \<Rightarrow> 'm) \<Rightarrow> 'b replay_env \<Rightarrow> int \<Rightarrow> int \<Rightarrow> (TelemetryEnvelope \<Rightarrow> bool) \<Rightarrow> ManifestObject list \<Rightarrow> 'm list" where
  "objectMessages message rn fromMS toMS wanted objs =
     concat (map (\<lambda>obj. messagesOf message rn fromMS toMS wanted obj (framesOf rn obj)) objs)"

text \<open>The counters after \<open>p\<close> messages were sent and \<open>f\<close> left out; the last two numbers are those of a message that failed.\<close>

definition advanced :: "ReplayReport \<Rightarrow> ReplayReport \<Rightarrow> nat \<Rightarrow> nat \<Rightarrow> nat \<Rightarrow> nat \<Rightarrow> bool" where
  "advanced rep rep' p f x y \<longleftrightarrow>
     rpMessagesPublished rep' = rpMessagesPublished rep + int p \<and> rpMessagesFiltered rep' = rpMessagesFiltered rep + int f \<and>
     rpMessagesDecoded rep' = rpMessagesDecoded rep + int (p + f + x) \<and> rpMessagesFailed rep' = rpMessagesFailed rep + int y \<and>
     rpObjectsMatched rep' = rpObjectsMatched rep"

lemma advanced_refl: "advanced rep rep 0 0 0 0"
  by (simp add: advanced_def)

lemma advanced_trans: "advanced rep1 rep2 p f 0 0 \<Longrightarrow> advanced rep2 rep3 p' f' x y \<Longrightarrow> advanced rep1 rep3 (p + p') (f + f') x y"
  by (simp add: advanced_def)

lemma noteTimestamp_same [simp]:
  "rpMessagesPublished (noteTimestamp ts rep) = rpMessagesPublished rep" "rpMessagesFiltered (noteTimestamp ts rep) = rpMessagesFiltered rep"
  "rpMessagesDecoded (noteTimestamp ts rep) = rpMessagesDecoded rep" "rpMessagesFailed (noteTimestamp ts rep) = rpMessagesFailed rep"
  "rpObjectsMatched (noteTimestamp ts rep) = rpObjectsMatched rep"
  by (simp_all add: noteTimestamp_def)

section \<open>The publisher's contract\<close>

locale replay_publisher =
  fixes publish :: "32 word \<Rightarrow> byte list \<Rightarrow> 'b \<Rightarrow> 'b \<times> string option"
    and sent :: "'b \<Rightarrow> 'm list" and message :: "32 word \<Rightarrow> byte list \<Rightarrow> 'm"
  assumes accepted: "publish shard p b = (b', None) \<Longrightarrow> sent b' = sent b @ [message shard p]"
    and refused: "publish shard p b = (b', Some e) \<Longrightarrow> sent b' = sent b"
begin

lemma frames_run:
  assumes "rnPublish rn = publish" "replayFrames rn obj mode fromMS toMS wanted frames (rep, b) = ((rep', b'), err)"
  shows "\<exists>ms rest f x y. sent b' = sent b @ ms \<and> messagesOf message rn fromMS toMS wanted obj frames = ms @ rest \<and>
    advanced rep rep' (length ms) f x y \<and> (err = None \<longrightarrow> rest = [] \<and> x = 0 \<and> y = 0)"
  using assms(2)
proof (induction frames arbitrary: rep b)
  case Nil
  then show ?case by (intro exI [of _ "[]"] exI [of _ 0]) (auto simp: messagesOf_def advanced_def)
next
  case (Cons frame frames)
  have stop: ?case if "sent b' = sent b" "err \<noteq> None" "advanced rep rep' 0 0 x y" for x y
    using that by (intro exI [of _ "[]"] exI [of _ "messagesOf message rn fromMS toMS wanted obj (frame # frames)"] exI [of _ 0] exI [of _ x] exI [of _ y]) auto
  show ?case
  proof (cases "rnCtxErr rn (rpMessagesDecoded rep)")
    case (Some e)
    with Cons(2) have "sent b' = sent b" "err = Some e" "rep' = rep" by simp_all
    then show ?thesis by (intro stop [of 0 0]) (simp_all add: advanced_def)
  next
    case live: None
    define rep1 where "rep1 = rep\<lparr>rpMessagesDecoded := rpMessagesDecoded rep + 1\<rparr>"
    show ?thesis
    proof (cases "rnUnmarshal rn frame")
      case (Inl e)
      with Cons(2) live show ?thesis by (intro stop [of 1 1]) (auto simp: advanced_def)
    next
      case (Inr env)
      define rep2 where "rep2 = noteTimestamp (envelopeTimestampUnixMS env) rep1"
      define shard where "shard = normalizeEnvelopeShard env (moShard obj)"
      have rep2: "advanced rep rep2 0 0 1 0" by (simp add: advanced_def rep2_def rep1_def)
      have sel: "selected rn fromMS toMS wanted frame \<longleftrightarrow>
          \<not> (0 < envelopeTimestampUnixMS env \<and> (envelopeTimestampUnixMS env < fromMS \<or> envelopeTimestampUnixMS env > toMS) \<or> \<not> wanted env)"
        by (auto simp: selected_def Inr)
      show ?thesis
      proof (cases "selected rn fromMS toMS wanted frame")
        case False
        then have "replayFrames rn obj mode fromMS toMS wanted frames (rep2\<lparr>rpMessagesFiltered := rpMessagesFiltered rep2 + 1\<rparr>, b) = ((rep', b'), err)"
          using Cons(2) live Inr sel by (simp add: rep1_def rep2_def Let_def)
        from Cons(1) [OF this] obtain ms rest f x y where ih: "sent b' = sent b @ ms"
            "messagesOf message rn fromMS toMS wanted obj frames = ms @ rest"
            "advanced (rep2\<lparr>rpMessagesFiltered := rpMessagesFiltered rep2 + 1\<rparr>) rep' (length ms) f x y" "err = None \<longrightarrow> rest = [] \<and> x = 0 \<and> y = 0"
          by blast
        have "advanced rep (rep2\<lparr>rpMessagesFiltered := rpMessagesFiltered rep2 + 1\<rparr>) 0 1 0 0" using rep2 by (simp add: advanced_def)
        from advanced_trans [OF this ih(3)] ih False show ?thesis
          by (intro exI [of _ ms] exI [of _ rest] exI [of _ "1 + f"] exI [of _ x] exI [of _ y]) (simp add: messagesOf_def)
      next
        case True
        obtain b1 e1 where pub: "rnPublish rn shard frame b = (b1, e1)" by fastforce
        show ?thesis
        proof (cases e1)
          case (Some e)
          then have "sent b' = sent b" "err \<noteq> None" "rep' = rep2\<lparr>rpMessagesFailed := rpMessagesFailed rep2 + 1\<rparr>"
            using Cons(2) live Inr sel True pub refused [of shard frame b b1] assms(1) by (auto simp: rep1_def rep2_def shard_def Let_def)
          with rep2 show ?thesis by (intro stop [of 1 1]) (auto simp: advanced_def)
        next
          case None
          define rep3 where "rep3 = rep2\<lparr>rpMessagesPublished := rpMessagesPublished rep2 + 1, rpPublishedByShard := gm_put shard
              ((case gm_get (rpPublishedByShard rep2) shard of None \<Rightarrow> 0 | Some n \<Rightarrow> n) + 1) (rpPublishedByShard rep2)\<rparr>"
          have "replayFrames rn obj mode fromMS toMS wanted frames (rep3, b1) = ((rep', b'), err)"
            using Cons(2) live Inr sel True pub None by (auto simp: rep1_def rep2_def rep3_def shard_def Let_def)
          from Cons(1) [OF this] obtain ms rest f x y where ih: "sent b' = sent b1 @ ms" "messagesOf message rn fromMS toMS wanted obj frames = ms @ rest"
              "advanced rep3 rep' (length ms) f x y" "err = None \<longrightarrow> rest = [] \<and> x = 0 \<and> y = 0"
            by blast
          have "advanced rep rep3 1 0 0 0" using rep2 by (simp add: advanced_def rep3_def)
          from advanced_trans [OF this ih(3)] ih True accepted [of shard frame b b1] pub None assms(1) show ?thesis
            by (intro exI [of _ "message shard frame # ms"] exI [of _ rest] exI [of _ f] exI [of _ x] exI [of _ y])
              (simp add: messagesOf_def shardOf_def Inr shard_def)
        qed
      qed
    qed
  qed
qed

lemma objects_run:
  assumes "rnPublish rn = publish"
  shows "\<exists>rep' b' err ms rest f x y. processObjects rn mode fromMS toMS wanted objs (rep, b) = Some ((rep', b'), err) \<and>
    sent b' = sent b @ ms \<and> objectMessages message rn fromMS toMS wanted objs = ms @ rest \<and>
    advanced rep rep' (length ms) f x y \<and> (err = None \<longrightarrow> rest = [] \<and> x = 0 \<and> y = 0)"
proof (induction objs arbitrary: rep b)
  case Nil
  show ?case using advanced_refl by (auto simp: objectMessages_def)
next
  case (Cons obj objs)
  have stop: ?case if "processObjects rn mode fromMS toMS wanted (obj # objs) (rep, b) = Some ((rep', b), Some e)" "advanced rep rep' 0 0 x y" for rep' e x y
    using that by (intro exI [of _ rep'] exI [of _ b] exI [of _ "Some e"] exI [of _ "[]"]
        exI [of _ "objectMessages message rn fromMS toMS wanted (obj # objs)"] exI [of _ 0] exI [of _ x] exI [of _ y]) auto
  show ?case
  proof (cases "rnReadObject rn (moObjectBucket obj) (moObjectKey obj)")
    case (Inl e)
    then show ?thesis by (intro stop [of "rep\<lparr>rpMessagesFailed := rpMessagesFailed rep + 1\<rparr>" _ 0 1]) (simp_all add: advanced_def)
  next
    case read: (Inr body)
    define rep1 where "rep1 = rep\<lparr>rpObjectsProcessed := rpObjectsProcessed rep + 1\<rparr>"
    have rep1: "advanced rep rep1 0 0 0 0" by (simp add: advanced_def rep1_def)
    obtain r where r: "DecodeEnvelopeFrames (rnDecodeAll rn) body = Some r"
      using decodeLoop_returns by (cases "body = []"; cases "rnDecodeAll rn body") (auto simp: DecodeEnvelopeFrames_def)
    show ?thesis
    proof (cases r)
      case (Inl e)
      with read r rep1 show ?thesis
        by (intro stop [of "rep1\<lparr>rpMessagesFailed := rpMessagesFailed rep1 + 1\<rparr>" _ 0 1]) (simp_all add: advanced_def rep1_def Let_def)
    next
      case (Inr frames)
      obtain rep2 b2 err where fr: "replayFrames rn obj mode fromMS toMS wanted frames (rep1, b) = ((rep2, b2), err)" by (metis prod.collapse)
      from frames_run [OF assms fr] obtain ms rest f x y where ih: "sent b2 = sent b @ ms" "messagesOf message rn fromMS toMS wanted obj frames = ms @ rest"
          "advanced rep1 rep2 (length ms) f x y" "err = None \<longrightarrow> rest = [] \<and> x = 0 \<and> y = 0"
        by blast
      have all: "objectMessages message rn fromMS toMS wanted (obj # objs) =
          messagesOf message rn fromMS toMS wanted obj frames @ objectMessages message rn fromMS toMS wanted objs"
        by (simp add: objectMessages_def framesOf_def read r Inr)
      have adv: "advanced rep rep2 (length ms) f x y" using advanced_trans [OF rep1 ih(3)] by simp
      have step: "processObjects rn mode fromMS toMS wanted (obj # objs) (rep, b) =
          (case err of Some e \<Rightarrow> Some ((rep2, b2), Some e) | None \<Rightarrow> processObjects rn mode fromMS toMS wanted objs (rep2, b2))"
        using read r Inr fr by (simp add: rep1_def Let_def split: option.splits)
      show ?thesis
      proof (cases err)
        case (Some e)
        then show ?thesis using step ih(1,2) adv all
          by (intro exI [of _ rep2] exI [of _ b2] exI [of _ err] exI [of _ ms] exI [of _ "rest @ objectMessages message rn fromMS toMS wanted objs"]) auto
      next
        case None
        with ih adv have now: "messagesOf message rn fromMS toMS wanted obj frames = ms" "advanced rep rep2 (length ms) f 0 0" by auto
        from Cons(1) [of rep2 b2] obtain rep' b' err' ms' rest' f' x' y' where tl:
            "processObjects rn mode fromMS toMS wanted objs (rep2, b2) = Some ((rep', b'), err')" "sent b' = sent b2 @ ms'"
            "objectMessages message rn fromMS toMS wanted objs = ms' @ rest'" "advanced rep2 rep' (length ms') f' x' y'"
            "err' = None \<longrightarrow> rest' = [] \<and> x' = 0 \<and> y' = 0"
          by blast
        show ?thesis
          using step None tl ih(1) now all advanced_trans [OF now(2) tl(4)]
          by (intro exI [of _ rep'] exI [of _ b'] exI [of _ err'] exI [of _ "ms @ ms'"] exI [of _ rest'] exI [of _ "f + f'"] exI [of _ x'] exI [of _ y']) simp
      qed
    qed
  qed
qed

text \<open>A run is free of errors when nothing it calls fails.\<close>

lemma frames_fine:
  assumes "rnPublish rn = publish" "rnCtxErr rn = (\<lambda>_. None)"
    and "\<forall>f \<in> set frames. \<exists>env. rnUnmarshal rn f = Inr env \<and> (\<forall>shard b. snd (publish shard f b) = None)"
  shows "snd (replayFrames rn obj mode fromMS toMS wanted frames st) = None"
  using assms(3)
proof (induction frames arbitrary: st)
  case (Cons f frames)
  obtain rep b where st: "st = (rep, b)" by fastforce
  obtain env where env: "rnUnmarshal rn f = Inr env" using Cons(2) by auto
  have ih: "snd (replayFrames rn obj mode fromMS toMS wanted frames st') = None" for st' using Cons(1,2) by simp
  obtain b1 where "publish (normalizeEnvelopeShard env (moShard obj)) f b = (b1, None)"
    using Cons(2) by (metis list.set_intros(1) prod.collapse)
  then show ?case using ih by (simp add: st env assms(1,2) Let_def)
qed (metis prod.collapse replayFrames.simps(1) snd_conv)

lemma objects_fine:
  assumes "rnPublish rn = publish" "rnCtxErr rn = (\<lambda>_. None)"
    and "\<forall>obj \<in> set objs. \<exists>body frames. rnReadObject rn (moObjectBucket obj) (moObjectKey obj) = Inr body \<and>
      DecodeEnvelopeFrames (rnDecodeAll rn) body = Some (Inr frames) \<and>
      (\<forall>f \<in> set frames. \<exists>env. rnUnmarshal rn f = Inr env \<and> (\<forall>shard b. snd (publish shard f b) = None))"
  shows "\<exists>st'. processObjects rn mode fromMS toMS wanted objs st = Some (st', None)"
  using assms(3)
proof (induction objs arbitrary: st)
  case (Cons obj objs)
  obtain rep b where st: "st = (rep, b)" by fastforce
  obtain body frames where o1: "rnReadObject rn (moObjectBucket obj) (moObjectKey obj) = Inr body" "DecodeEnvelopeFrames (rnDecodeAll rn) body = Some (Inr frames)"
      "\<forall>f \<in> set frames. \<exists>env. rnUnmarshal rn f = Inr env \<and> (\<forall>shard b. snd (publish shard f b) = None)"
    using Cons(2) by auto
  obtain st1 where st1: "replayFrames rn obj mode fromMS toMS wanted frames (rep\<lparr>rpObjectsProcessed := rpObjectsProcessed rep + 1\<rparr>, b) = (st1, None)"
    using frames_fine [OF assms(1,2) o1(3)] by (metis prod.collapse)
  have "\<exists>st'. processObjects rn mode fromMS toMS wanted objs st1 = Some (st', None)" using Cons(1,2) by simp
  then show ?case using o1(1,2) st1 by (simp add: st Let_def)
qed simp

end

interpretation nats: replay_publisher "PublishReplay target cfg send" "\<lambda>bus. bus" "\<lambda>shard payload. (subjectForShard target cfg shard, payload)" for target cfg send
  by unfold_locales (auto simp: PublishReplay_def Let_def split: if_splits option.splits)

section \<open>Finding what was archived\<close>

lemma set_dedupStrings:
  assumes "set seen \<subseteq> set out"
  shows "set (dedupStrings upper seen out vs) =
    set out \<union> {if upper then ToUpper (TrimSpace v) else TrimSpace v | v. v \<in> set vs \<and> TrimSpace v \<noteq> []}"
  using assms
proof (induction vs arbitrary: seen out)
  case (Cons v vs)
  let ?n = "if upper then ToUpper (TrimSpace v) else TrimSpace v"
  show ?case
  proof (cases "TrimSpace v = [] \<or> ?n \<in> set seen")
    case True
    have "set (dedupStrings upper seen out (v # vs)) = set (dedupStrings upper seen out vs)" using True by (auto simp: Let_def)
    then show ?thesis using Cons(1) [OF Cons(2)] Cons(2) True by (cases upper) auto
  next
    case False
    have "set (?n # seen) \<subseteq> set (out @ [?n])" using Cons(2) by auto
    from Cons(1) [OF this] False show ?thesis by (cases upper) (auto simp: Let_def)
  qed
qed simp

lemma set_normalizeStringSet:
  "set (normalizeStringSet vs upper) = {if upper then ToUpper (TrimSpace v) else TrimSpace v | v. v \<in> set vs \<and> TrimSpace v \<noteq> []}"
  "set (normalizeStrings vs upper) = set (normalizeStringSet vs upper)"
  by (simp_all add: normalizeStringSet_def normalizeStrings_def set_dedupStrings)

lemma normalizeStringSet_mem:
  assumes "TrimSpace v \<noteq> []" "v \<in> set vs"
  shows "TrimSpace v \<in> set (normalizeStringSet (normalizeStringSet vs False) False)"
    "ToUpper (TrimSpace v) \<in> set (normalizeStringSet (normalizeStringSet vs True) True)"
proof -
  have "TrimSpace v \<in> set (normalizeStringSet vs False)" "ToUpper (TrimSpace v) \<in> set (normalizeStringSet vs True)"
    using assms by (auto simp: set_normalizeStringSet)
  then show "TrimSpace v \<in> set (normalizeStringSet (normalizeStringSet vs False) False)"
    "ToUpper (TrimSpace v) \<in> set (normalizeStringSet (normalizeStringSet vs True) True)"
    unfolding set_normalizeStringSet [of "normalizeStringSet vs _"] using assms(1)
    by (force intro!: exI [of _ "TrimSpace v"], force intro!: exI [of _ "ToUpper (TrimSpace v)"])
qed

lemma normalizeStrings_twice: "set (normalizeStrings (normalizeStrings vs upper) upper) = set (normalizeStrings vs upper)"
proof -
  have "TrimSpace v \<noteq> [] \<and> (if upper then ToUpper (TrimSpace v) else TrimSpace v) = v" if "v \<in> set (normalizeStrings vs upper)" for v
    using that by (cases upper) (auto simp: set_normalizeStringSet)
  then have "{if upper then ToUpper (TrimSpace v) else TrimSpace v | v. v \<in> set (normalizeStrings vs upper) \<and> TrimSpace v \<noteq> []} = set (normalizeStrings vs upper)"
    by (safe; metis)
  then show ?thesis unfolding set_normalizeStringSet(2) [of "normalizeStrings vs upper"] set_normalizeStringSet(1) .
qed

lemma scanManifestRow_fields:
  "scanManifestRow r = Inr obj \<Longrightarrow> moObjectBucket obj = mrObjectBucket r \<and> moObjectKey obj = mrObjectKey r \<and> moShard obj = mrShard r"
  by (auto simp: scanManifestRow_def split: if_splits)

lemma scanManifestRows_all2: "scanManifestRows rows = Inr objs \<Longrightarrow> list_all2 (\<lambda>r obj. scanManifestRow r = Inr obj) rows objs"
  by (induction rows arbitrary: objs) (auto split: sum.splits)

lemma scanManifestRows_mem:
  assumes "scanManifestRows rows = Inr objs"
  shows "r \<in> set rows \<Longrightarrow> \<exists>obj \<in> set objs. moObjectBucket obj = mrObjectBucket r \<and> moObjectKey obj = mrObjectKey r \<and> moShard obj = mrShard r"
    "obj \<in> set objs \<Longrightarrow> \<exists>r \<in> set rows. moObjectBucket obj = mrObjectBucket r \<and> moObjectKey obj = mrObjectKey r"
proof -
  have all: "list_all2 (\<lambda>r obj. scanManifestRow r = Inr obj) rows objs" by (rule scanManifestRows_all2 [OF assms])
  show "\<exists>obj \<in> set objs. moObjectBucket obj = mrObjectBucket r \<and> moObjectKey obj = mrObjectKey r \<and> moShard obj = mrShard r" if "r \<in> set rows"
    using list_all2_left [OF all that] scanManifestRow_fields by blast
  have "list_all2 (\<lambda>obj r. scanManifestRow r = Inr obj) objs rows" using all by (simp add: list_all2_conv_all_nth)
  from list_all2_left [OF this] show "obj \<in> set objs \<Longrightarrow> \<exists>r \<in> set rows. moObjectBucket obj = mrObjectBucket r \<and> moObjectKey obj = mrObjectKey r"
    using scanManifestRow_fields by blast
qed

lemma set_limitRows: "set (limitRows n xs) \<subseteq> set xs" "n \<le> 0 \<Longrightarrow> limitRows n xs = xs"
  by (auto simp: limitRows_def dest: in_set_takeD)

lemma ListByDevices_mem:
  assumes "ListByDevices queryErr rows q = Inr objs"
  defines "matches \<equiv> deviceRow (dqFromUnixMS q) (dqToUnixMS q) (TrimSpace (dqProvider q)) (normalizeStrings (dqDeviceIDs q) False) (normalizeStrings (dqProviderDeviceIDs q) True)"
  shows "r \<in> set rows \<Longrightarrow> matches r \<Longrightarrow> dqMaxObjectsReturned q \<le> 0 \<Longrightarrow>
      \<exists>obj \<in> set objs. moObjectBucket obj = mrObjectBucket r \<and> moObjectKey obj = mrObjectKey r \<and> moShard obj = mrShard r"
    "obj \<in> set objs \<Longrightarrow> \<exists>r \<in> set rows. matches r \<and> moObjectBucket obj = mrObjectBucket r \<and> moObjectKey obj = mrObjectKey r"
proof -
  have scan: "scanManifestRows (limitRows (dqMaxObjectsReturned q) (sort_by rowOrder (filter matches rows))) = Inr objs"
    using assms(1) unfolding ListByDevices_def matches_def by (simp add: Let_def split: if_splits option.splits)
  note mem = scanManifestRows_mem [OF scan]
  show "r \<in> set rows \<Longrightarrow> matches r \<Longrightarrow> dqMaxObjectsReturned q \<le> 0 \<Longrightarrow>
      \<exists>obj \<in> set objs. moObjectBucket obj = mrObjectBucket r \<and> moObjectKey obj = mrObjectKey r \<and> moShard obj = mrShard r"
    by (rule mem(1)) (simp add: set_limitRows(2))
  show "obj \<in> set objs \<Longrightarrow> \<exists>r \<in> set rows. matches r \<and> moObjectBucket obj = mrObjectBucket r \<and> moObjectKey obj = mrObjectKey r"
    using mem(2) set_limitRows(1) [of "dqMaxObjectsReturned q" "sort_by rowOrder (filter matches rows)"] by fastforce
qed

lemma rowOf_fields:
  assumes "rowOf r row"
  shows "mrProvider row = (let p = ToLower (TrimSpace (mrProvider r)) in if p = [] then defaultManifestProvider else p)"
    "mrTSMinUnixMS row = mrTSMinUnixMS r" "mrTSMaxUnixMS row = mrTSMaxUnixMS r" "mrObjectBucket row = TrimSpace (mrObjectBucket r)"
    "mrObjectKey row = trimSlashes (TrimSpace (mrObjectKey r))" "mrDeviceIDs row = normalizeStringSet (mrDeviceIDs r) False"
    "mrProviderDeviceIDs row = normalizeStringSet (mrProviderDeviceIDs r) True" "mrShard row = mrShard r" "mrShardCount row = mrShardCount r"
  using assms by (auto simp: rowOf_def normalizeManifestRecord_def)

lemma stamped_timestamp: "0 < envelopeTimestampUnixMS env \<Longrightarrow> stamped env \<and> recordTimestampUnixMilli 0 env = envelopeTimestampUnixMS env"
  by (auto simp: envelopeTimestampUnixMS_def stamped_def recordTimestampUnixMilli_def split: if_splits)

text \<open>A segment whose envelopes have one provider is recorded under it, and one with two under none of them.\<close>

lemma one_provider:
  assumes "segment_indexed ec s" "sgPending s \<noteq> []" "\<forall>d \<in> set (sgPending s). \<exists>env. ecUnmarshal ec (dlData d) = Inr env \<and> providerOf env = p" "p \<noteq> []"
  shows "segmentProvider (sgProviders s) = p"
proof -
  obtain d where d: "d \<in> set (sgPending s)" using assms(2) by (meson list.set_sel(1))
  have all: "providerOf env = p" if "d' \<in> set (sgPending s)" "ecUnmarshal ec (dlData d') = Inr env" for d' env using assms(3) that by fastforce
  have wf: "distinct (map fst (sgProviders s))" using assms(1) by (simp add: segment_indexed_def gm_wf_def)
  obtain env where "ecUnmarshal ec (dlData d) = Inr env" "providerOf env = p" using assms(3) d by blast
  then have "x \<in> fst ` set (sgProviders s) \<longleftrightarrow> x = p" for x
    using assms(1,4) d all unfolding segment_indexed_def by metis
  then have keys: "fst ` set (sgProviders s) = {p}" by blast
  have "length (map fst (sgProviders s)) = 1" using distinct_card [OF wf] keys by simp
  then obtain x where "sgProviders s = [x]" by (metis One_nat_def length_0_conv length_Suc_conv length_map)
  with keys show ?thesis by (cases x) (simp add: segmentProvider_def)
qed

lemma two_providers:
  assumes "segment_indexed ec s" "d1 \<in> set (sgPending s)" "d2 \<in> set (sgPending s)" "ecUnmarshal ec (dlData d1) = Inr env1" "ecUnmarshal ec (dlData d2) = Inr env2"
    and "providerOf env1 \<noteq> []" "providerOf env2 \<noteq> []" "providerOf env1 \<noteq> providerOf env2"
  shows "segmentProvider (sgProviders s) = ''mixed''"
proof -
  have "providerOf env1 \<in> fst ` set (sgProviders s)" "providerOf env2 \<in> fst ` set (sgProviders s)"
    using assms unfolding segment_indexed_def by blast+
  with assms(8) show ?thesis by (auto simp: segmentProvider_def split: list.splits)
qed

text \<open>The row of a segment matches every query for a device of one of its envelopes.\<close>

lemma covered_row_matches:
  assumes "covers s env" "rowOf (segmentRecord cfg s req) row" "0 < envelopeTimestampUnixMS env"
    and "fromMS \<le> envelopeTimestampUnixMS env" "envelopeTimestampUnixMS env \<le> toMS"
    and "deviceWanted (normalizeStrings ids False) (normalizeStrings pids True) env"
    and "provider = [] \<or> mrProvider row = provider"
  shows "deviceRow fromMS toMS provider (normalizeStrings ids False) (normalizeStrings pids True) row"
proof -
  note f = rowOf_fields [OF assms(2)]
  let ?meta = "manifestRecordMetaFromEnvelope env"
  have ts: "mrTSMaxUnixMS row \<ge> fromMS" "mrTSMinUnixMS row \<le> toMS"
    using assms(1,4,5) stamped_timestamp [OF assms(3)] by (auto simp: covers_def f segmentRecord_def)
  have dev: "rmDeviceID ?meta = TrimSpace (DeviceId env)" by (simp add: manifestRecordMetaFromEnvelope_def Let_def)
  have ne: "[] \<notin> set (normalizeStrings vs upper)" for vs upper by (auto simp: set_normalizeStringSet dest: sym [of "[]"])
  have pdev: "TrimSpace (rmProviderDeviceID ?meta) = rmProviderDeviceID ?meta" "ToUpper (rmProviderDeviceID ?meta) =
      (let candidate = ToUpper (TrimSpace (label env ''provider_device_id'')) in if candidate = [] then ToUpper (TrimSpace (EcoflowSn env)) else candidate)"
    by (simp_all add: manifestRecordMetaFromEnvelope_def Let_def)
  consider "TrimSpace (DeviceId env) \<in> set (normalizeStrings ids False)" | "ToUpper (rmProviderDeviceID ?meta) \<in> set (normalizeStrings pids True)"
    using assms(6) unfolding deviceWanted_def pdev(2) Let_def by blast
  then show ?thesis
  proof cases
    case 1
    then have "TrimSpace (DeviceId env) \<noteq> []" using ne by metis
    then have "TrimSpace (DeviceId env) \<in> set (mrDeviceIDs row)"
      using assms(1) normalizeStringSet_mem(1) [of "TrimSpace (DeviceId env)" "map fst (sgDeviceIDs s)"] by (simp add: covers_def dev f segmentRecord_def)
    then show ?thesis using 1 ts assms(7) ne [of ids] by (auto simp: deviceRow_def overlap_def list_ex_iff)
  next
    case 2
    then have "rmProviderDeviceID ?meta \<noteq> []" using ne ToUpper_Nil_iff by metis
    then have "ToUpper (rmProviderDeviceID ?meta) \<in> set (mrProviderDeviceIDs row)"
      using assms(1) normalizeStringSet_mem(2) [of "rmProviderDeviceID ?meta" "map fst (sgProviderDeviceIDs s)"] by (simp add: covers_def pdev(1) f segmentRecord_def)
    then show ?thesis using 2 ts assms(7) by (auto simp: deviceRow_def overlap_def list_ex_iff)
  qed
qed

text \<open>A segment that is flushed without an outbox has its row in the manifest.\<close>

lemma flushed_row:
  assumes "suOutbox su = None" "suManifestStore su" "prefix_ok (suConfig su)" "codec_small ec"
    and "w = archiveRun su grow ec zs evs (newArchiveWorker (suConfig su) st)" "gm_get (awSegments w) k = Some s"
    and "d \<in> set (sgPending s)" "flushSegmentLocked su zs sv s w = (None, w')"
  obtains req row where "gm_get (asManifests (awStore w')) (TrimSpace (acObjectBucket (suConfig su)), segKey (suConfig su) (sgHour s) (sgShard s) (sgPart s)) = Some row"
    "rowOf (segmentRecord (suConfig su) s req) row" "segment_indexed ec s" "awActions w' = awActions w @ map (\<lambda>d. (dlID d, Ack)) (sgPending s)"
proof -
  have su: "su = su\<lparr>suManifestStore := True, suOutbox := None\<rparr>" using assms(1,2) by simp
  have "run_ok (\<lambda>_. True) (indexedAt su) (suConfig su) ec zs ([] @ deliveries evs) w"
    unfolding assms(5) using indexed.run_keeps [OF indexed.new_ok, where su = su, folded su] assms(3,4) by blast
  then have "segments_ok ec (deliveries evs) w" by (simp add: run_ok_def)
  note seg = segments_okD [OF this assms(6)]
  have ix: "segment_indexed ec s" "sgRecords s \<noteq> 0"
    using seg(2) assms(7) by (auto simp: segment_ok_def)
  obtain body where body: "zsClose zs (sgWritten s) = Inr body"
    using assms(8) ix(2) by (cases "zsClose zs (sgWritten s)") (auto simp: flushSegmentLocked_def Let_def)
  let ?req = "segmentRequest (suConfig su) s body"
  let ?rec = "segmentRecord (suConfig su) s ?req"
  obtain st1 where persist: "persistSegment su sv ?req ?rec (awStore w) = (st1, None)"
    and w': "awStore w' = st1" "awActions w' = awActions w @ map (\<lambda>d. (dlID d, Ack)) (sgPending s)"
    using assms(8) ix(2) body by (auto simp: flushSegmentLocked_def Let_def split: prod.splits option.splits)
  have normal: "normal_key (poKey ?req)" "poKey ?req = segKey (suConfig su) (sgHour s) (sgShard s) (sgPart s)"
    using segKey_normal [OF assms(3)] by (simp_all add: segmentRequest_def segKey_def)
  have "indexedAt su st1 (poKey ?req) (poBody ?req) ?rec"
    by (rule indexed_persist(2) [of su sv ?req ?rec "awStore w" st1 None, folded su])
      (use persist normal(1) in \<open>simp_all add: recordFor_def segmentRecord_def segmentRequest_def\<close>)
  then obtain row where "gm_get (asManifests st1) (TrimSpace (acObjectBucket (suConfig su)), poKey ?req) = Some row" "rowOf ?rec row"
    by (auto simp: indexedAt_def)
  then show thesis using that w' normal(2) ix(1) by metis
qed

end
