(* ===== verification/Replay_Properties.thy ===== *)
theory Replay_Properties
  imports Replay_Runs Archive_Properties
begin

text \<open>
  The properties of a replay: it publishes exactly the records it is asked for, what the archive has
  acknowledged is replayed, and the records of an object that holds two providers are not found by a
  request for either.
\<close>

section \<open>Exactness\<close>

definition replayMessage :: "publish_target \<Rightarrow> SubjectConfig \<Rightarrow> 32 word \<Rightarrow> byte list \<Rightarrow> string \<times> byte list" where
  "replayMessage target cfg shard payload = (subjectForShard target cfg shard, payload)"

definition deviceQuery :: "ReplayRequest \<Rightarrow> DeviceQuery" where
  "deviceQuery r = \<lparr>dqProvider = TrimSpace (rrProvider r), dqFromUnixMS = rrFromUnixMS r, dqToUnixMS = rrToUnixMS r,
     dqDeviceIDs = normalizeStrings (rrDeviceIDs r) False, dqProviderDeviceIDs = normalizeStrings (rrProviderDeviceIDs r) True,
     dqMaxObjectsReturned = rrMaxObjects r\<rparr>"

definition fleetQuery :: "ReplayRequest \<Rightarrow> FleetQuery" where
  "fleetQuery r = \<lparr>fqFromUnixMS = rrFromUnixMS r, fqToUnixMS = rrToUnixMS r, fqShards = rrShards r, fqMaxObjectsReturned = rrMaxObjects r\<rparr>"

definition requestedDevice :: "ReplayRequest \<Rightarrow> TelemetryEnvelope \<Rightarrow> bool" where
  "requestedDevice r = deviceWanted (normalizeStrings (rrDeviceIDs r) False) (normalizeStrings (rrProviderDeviceIDs r) True)"

definition deviceMessages :: "publish_target \<Rightarrow> SubjectConfig \<Rightarrow> 'b replay_env \<Rightarrow> ReplayRequest \<Rightarrow> (string \<times> byte list) list" where
  "deviceMessages target cfg rn r =
     (case rnListByDevices rn (deviceQuery r) of
        Inl _ \<Rightarrow> []
      | Inr objs \<Rightarrow> objectMessages (replayMessage target cfg) rn (rrFromUnixMS r) (rrToUnixMS r) (requestedDevice r) objs)"

definition fleetMessages :: "publish_target \<Rightarrow> SubjectConfig \<Rightarrow> 'b replay_env \<Rightarrow> ReplayRequest \<Rightarrow> (string \<times> byte list) list" where
  "fleetMessages target cfg rn r =
     (case rnListByFleetRange rn (fleetQuery r) of
        Inl _ \<Rightarrow> []
      | Inr objs \<Rightarrow> objectMessages (replayMessage target cfg) rn (rrFromUnixMS r) (rrToUnixMS r) (\<lambda>_. True) objs)"

text \<open>The messages sent are a prefix of those expected, and all of them when there was no error.\<close>

definition replayed :: "replay_bus \<Rightarrow> (string \<times> byte list) list \<Rightarrow> (ReplayReport \<times> replay_bus) \<times> string option \<Rightarrow> bool" where
  "replayed bus expected result =
     (case result of
        ((rep, bus'), err) \<Rightarrow> \<exists>ms rest. bus' = bus @ ms \<and> expected = ms @ rest \<and> rpMessagesPublished rep = int (length ms) \<and>
          (err = None \<longrightarrow> rest = [] \<and> rpMessagesDecoded rep = rpMessagesPublished rep + rpMessagesFiltered rep \<and> rpMessagesFailed rep = 0))"

lemma run_replayed:
  assumes "rnPublish rn = PublishReplay target cfg send" "rep = newReport mode\<lparr>rpObjectsMatched := n\<rparr>"
  shows "\<exists>result. processObjects rn mode fromMS toMS wanted objs (rep, bus) = Some result \<and>
    replayed bus (objectMessages (replayMessage target cfg) rn fromMS toMS wanted objs) result"
proof -
  have m: "(\<lambda>shard payload. (subjectForShard target cfg shard, payload)) = replayMessage target cfg" by (simp add: fun_eq_iff replayMessage_def)
  have zero: "rpMessagesPublished rep = 0" "rpMessagesFiltered rep = 0" "rpMessagesDecoded rep = 0" "rpMessagesFailed rep = 0"
    by (simp_all add: assms(2) newReport_def)
  from nats.objects_run [OF assms(1), of mode fromMS toMS wanted objs rep bus, unfolded m] show ?thesis
    by (fastforce simp: replayed_def advanced_def zero)
qed

lemma nothing_replayed: "replayed bus expected ((newReport mode, bus), Some e)"
  by (simp add: replayed_def newReport_def)

lemma ReplayDevices_replayed:
  assumes "rnPublish rn = PublishReplay target cfg send"
  shows "\<exists>result. ReplayDevices rn request bus = Some result \<and> replayed bus (deviceMessages target cfg rn request) result"
  using run_replayed [OF assms refl] nothing_replayed
  by (cases "Validate request ''device''"; cases "rnListByDevices rn (deviceQuery request)")
    (auto simp: ReplayDevices_def deviceMessages_def deviceQuery_def requestedDevice_def Let_def)

text \<open>C9: A replay of devices or of the fleet always returns. Without an error it has published exactly the records of the
  listed objects that lie in the window and belong to a requested device, in order, each on the subject of its shard, and
  every decoded record is counted as published or as left out. After an error what was published is a prefix of that.\<close>

theorem replay_exact:
  assumes "rnPublish rn = PublishReplay target cfg send"
  shows "(\<exists>result. ReplayDevices rn request bus = Some result \<and> replayed bus (deviceMessages target cfg rn request) result) \<and>
    (\<exists>result. ReplayFleet rn request bus = Some result \<and> replayed bus (fleetMessages target cfg rn request) result)"
proof
  show "\<exists>result. ReplayDevices rn request bus = Some result \<and> replayed bus (deviceMessages target cfg rn request) result"
    by (rule ReplayDevices_replayed [OF assms])
  show "\<exists>result. ReplayFleet rn request bus = Some result \<and> replayed bus (fleetMessages target cfg rn request) result"
    using run_replayed [OF assms refl] nothing_replayed
    by (cases "Validate request ''fleet''"; cases "rnListByFleetRange rn (fleetQuery request)")
      (auto simp: ReplayFleet_def fleetMessages_def fleetQuery_def)
qed

section \<open>Replaying the archive\<close>

text \<open>A replay that reads the manifests and objects of a store.\<close>

definition replayOver ::
    "(byte list \<Rightarrow> string + byte list) \<Rightarrow> envelope_codec \<Rightarrow> (int \<Rightarrow> string option) \<Rightarrow> publish_target \<Rightarrow> SubjectConfig \<Rightarrow>
       (replay_bus \<Rightarrow> string option) \<Rightarrow> archive_store \<Rightarrow> replay_bus replay_env" where
  "replayOver decodeAll ec ctx target cfg send st =
     \<lparr>rnListByDevices = ListByDevices None (map snd (asManifests st)), rnListByFleetRange = ListByFleetRange None (map snd (asManifests st)),
      rnReadObject = (\<lambda>bucket k. case gm_get (asObjects st) (bucket, k) of None \<Rightarrow> Inl ''not found'' | Some o1 \<Rightarrow> Inr (poBody o1)),
      rnDecodeAll = decodeAll, rnUnmarshal = ecUnmarshal ec, rnCtxErr = ctx, rnPublish = PublishReplay target cfg send\<rparr>"

definition codec_inverse :: "envelope_codec \<Rightarrow> bool" where
  "codec_inverse ec \<longleftrightarrow> (\<forall>env p. ecMarshal ec env = Inr p \<longrightarrow> ecUnmarshal ec p = Inr env)"

lemma segment_ok_envelope:
  assumes "segment_ok ec ds s" "d \<in> set (sgPending s)"
  shows "d \<in> set ds \<and> (\<exists>env. ecUnmarshal ec (dlData d) = Inr env)"
proof -
  obtain ps where "list_all2 (\<lambda>d p. d \<in> set ds \<and> payloadOf ec d = Some p) (sgPending s) ps" using assms(1) by (auto simp: segment_ok_def)
  from list_all2_left [OF this assms(2)] show ?thesis by (auto simp: payloadOf_def split: sum.splits)
qed

lemma persisted_is_expected:
  assumes "persisted (indexedAt su) (suConfig su) ec zs ds w d" "prefix_ok (suConfig su)" "zstd_laws zs decodeAll" "codec_inverse ec"
    and "rn = replayOver decodeAll ec ctx target cfg send (awStore w)" "rnListByDevices rn (deviceQuery request) = Inr objs" "rrMaxObjects request = 0"
    and "TrimSpace (rrProvider request) = [] \<or>
      (\<forall>d \<in> set ds. \<forall>env. ecUnmarshal ec (dlData d) = Inr env \<longrightarrow> providerOf env = TrimSpace (rrProvider request))"
    and "ecUnmarshal ec (dlData d) = Inr env" "ecMarshal ec env = Inr p" "requestedDevice request env"
    and "0 < envelopeTimestampUnixMS env" "rrFromUnixMS request \<le> envelopeTimestampUnixMS env" "envelopeTimestampUnixMS env \<le> rrToUnixMS request"
  shows "p \<in> snd ` set (deviceMessages target cfg rn request)"
proof -
  let ?cfg = "suConfig su"
  from assms(1) obtain s body where s: "segment_ok ec ds s" "d \<in> set (sgPending s)" "zsClose zs (sgWritten s) = Inr body"
      "indexedAt su (awStore w) (segKey ?cfg (sgHour s) (sgShard s) (sgPart s)) body (segmentRecord ?cfg s (segmentRequest ?cfg s body))"
    by (auto simp: persisted_def)
  let ?k = "(TrimSpace (acObjectBucket ?cfg), segKey ?cfg (sgHour s) (sgShard s) (sgPart s))" and ?req = "segmentRequest ?cfg s body"
  from s(4) obtain row where row: "gm_get (asManifests (awStore w)) ?k = Some row" "rowOf (segmentRecord ?cfg s ?req) row"
    and held: "map_option poBody (gm_get (asObjects (awStore w)) ?k) = Some body"
    by (auto simp: indexedAt_def objectHeld_def)
  note fields = rowOf_fields [OF row(2)]
  have ix: "segment_indexed ec s" using s(1) by (simp add: segment_ok_def)
  then have cov: "covers s env" using s(2) assms(9) unfolding segment_indexed_def by blast
  have at: "mrObjectBucket row = fst ?k" "mrObjectKey row = snd ?k"
    using segKey_normal [OF assms(2), of "sgHour s" "sgShard s" "sgPart s"]
    by (simp_all add: fields segmentRecord_def segmentRequest_def segKey_def normal_key_def)
  have prov: "TrimSpace (rrProvider request) = [] \<or> mrProvider row = TrimSpace (rrProvider request)"
  proof (cases "TrimSpace (rrProvider request) = []")
    case False
    have "\<forall>d \<in> set (sgPending s). \<exists>env. ecUnmarshal ec (dlData d) = Inr env \<and> providerOf env = TrimSpace (rrProvider request)"
      using segment_ok_envelope [OF s(1)] assms(8) False by blast
    from one_provider [OF ix _ this False] s(2) have "segmentProvider (sgProviders s) = TrimSpace (rrProvider request)" by fastforce
    moreover have "ToLower (TrimSpace (rrProvider request)) = TrimSpace (rrProvider request)"
      using assms(8,9) False segment_ok_envelope [OF s(1,2)] by (metis ToLower_idem providerOf_def)
    ultimately show ?thesis using False by (simp add: fields segmentRecord_def Let_def)
  qed simp
  let ?ids = "normalizeStrings (rrDeviceIDs request) False" and ?pids = "normalizeStrings (rrProviderDeviceIDs request) True"
  have "deviceWanted (normalizeStrings ?ids False) (normalizeStrings ?pids True) env"
    using assms(11) unfolding requestedDevice_def deviceWanted_def normalizeStrings_twice .
  note match = covered_row_matches [OF cov row(2) assms(12-14) this prov]
  have list: "ListByDevices None (map snd (asManifests (awStore w))) (deviceQuery request) = Inr objs"
    using assms(6) by (simp add: assms(5) replayOver_def)
  have "row \<in> set (map snd (asManifests (awStore w)))" using gm_get_SomeD [OF row(1)] by force
  with match obtain obj where obj: "obj \<in> set objs" "moObjectBucket obj = fst ?k" "moObjectKey obj = snd ?k"
    using ListByDevices_mem(1) [OF list, of row] assms(7) at by (auto simp: deviceQuery_def)
  obtain ps q where ps: "DecodeEnvelopeFrames decodeAll body = Some (Inr ps)" "q \<in> set ps" "payloadOf ec d = Some q"
    by (rule segment_frames [OF s(1-3) assms(3)])
  have "q = p" using ps(3) assms(9,10) by (simp add: payloadOf_def)
  then have frames: "p \<in> set (framesOf rn obj)" using held obj(2,3) ps(1,2) by (auto simp: framesOf_def assms(5) replayOver_def)
  have "selected rn (rrFromUnixMS request) (rrToUnixMS request) (requestedDevice request) p"
    using assms(4,10-14) by (auto simp: selected_def assms(5) replayOver_def codec_inverse_def)
  then show ?thesis
    using frames obj(1) assms(6) by (force simp: deviceMessages_def objectMessages_def messagesOf_def replayMessage_def)
qed

text \<open>The record of a message is among what a replay published, if the replay asked for the device and the time of its envelope.\<close>

definition republished :: "envelope_codec \<Rightarrow> ReplayRequest \<Rightarrow> replay_bus \<Rightarrow> delivery \<Rightarrow> bool" where
  "republished ec request sent d \<longleftrightarrow>
     (\<forall>env p. ecUnmarshal ec (dlData d) = Inr env \<longrightarrow> ecMarshal ec env = Inr p \<longrightarrow> requestedDevice request env \<longrightarrow>
        0 < envelopeTimestampUnixMS env \<longrightarrow> rrFromUnixMS request \<le> envelopeTimestampUnixMS env \<longrightarrow> envelopeTimestampUnixMS env \<le> rrToUnixMS request \<longrightarrow>
        p \<in> snd ` set sent)"

text \<open>C1: What the archive acknowledged can be replayed, up to the losses of its deduplication. In every run of an archive worker that
  writes objects and manifests directly, without an outbox and with a manifest store, and for every replay of devices afterwards that ends without an error, has no
  limit of objects and names no provider, or the provider of all the envelopes: of every message that was acknowledged, the record of its
  envelope is published when the replay asks for its device over a window that contains its time; or else an earlier message
  had the same deduplication key, which is not empty, and the record of that one is published under the same condition, or that one
  was never acknowledged, as when its archiving failed (the loss that \<open>Archive_Properties\<close> shows).\<close>

theorem acked_is_replayed:
  assumes "suOutbox su = None" "suManifestStore su" "prefix_ok (suConfig su)" "codec_small ec" "codec_inverse ec" "zstd_laws zs decodeAll"
    and "distinct (map dlID (deliveries evs))"
    and "w = archiveRun su grow ec zs evs (newArchiveWorker (suConfig su) st)" "(i, Ack) \<in> set (awActions w)"
    and "ReplayDevices (replayOver decodeAll ec ctx target cfg send (awStore w)) request bus = Some ((rep, bus'), None)" "rrMaxObjects request = 0"
    and "TrimSpace (rrProvider request) = [] \<or>
      (\<forall>d \<in> set (deliveries evs). \<forall>env. ecUnmarshal ec (dlData d) = Inr env \<longrightarrow> providerOf env = TrimSpace (rrProvider request))"
  shows "\<exists>before d after. deliveries evs = before @ d # after \<and> dlID d = i \<and>
    (republished ec request (drop (length bus) bus') d \<or>
     (\<exists>d0 \<in> set before. keyOf ec d \<noteq> [] \<and> keyOf ec d0 = keyOf ec d \<and>
        (republished ec request (drop (length bus) bus') d0 \<or> (dlID d0, Ack) \<notin> set (awActions w))))"
proof -
  define rn where "rn = replayOver decodeAll ec ctx target cfg send (awStore w)"
  let ?safe = "persisted (indexedAt su) (suConfig su) ec zs (deliveries evs) w"
  have su: "su = su\<lparr>suManifestStore := True, suOutbox := None\<rparr>" using assms(1,2) by simp
  have reason: "ack_reason ec ?safe (deliveries evs) j" if "(j, Ack) \<in> set (awActions w)" for j
    by (rule indexed.acked_persisted [where su = su and st = st, folded su]) (use assms that in simp_all)
  have pub: "rnPublish rn = PublishReplay target cfg send" by (simp add: rn_def replayOver_def)
  have sent: "drop (length bus) bus' = deviceMessages target cfg rn request"
    using ReplayDevices_replayed [OF pub, of request bus] assms(10) by (auto simp: rn_def replayed_def)
  obtain objs where objs: "rnListByDevices rn (deviceQuery request) = Inr objs"
    using assms(10) unfolding rn_def [symmetric]
    by (cases "rnListByDevices rn (deviceQuery request)") (auto simp: ReplayDevices_def deviceQuery_def Let_def split: option.splits)
  have safe: "republished ec request (drop (length bus) bus') d" if "?safe d" for d
    unfolding republished_def sent
    using persisted_is_expected [OF that assms(3,6,5) rn_def objs assms(11,12)] by blast
  obtain before d after where d: "deliveries evs = before @ d # after" "dlID d = i" using reason [OF assms(9)] unfolding ack_reason_def by blast
  then have "?safe d \<or> (\<exists>d0 \<in> set before. keyOf ec d \<noteq> [] \<and> keyOf ec d0 = keyOf ec d \<and> (?safe d0 \<or> (dlID d0, Ack) \<notin> set (awActions w)))"
    using acked_origin [OF reason assms(7) d(1)] assms(9) by simp
  with d safe show ?thesis by blast
qed

text \<open>C31: An object that holds the envelopes of two providers is recorded under the provider \<open>mixed\<close>: although its messages are
  acknowledged, no query that names another provider, as every repair of a gap does, selects it.\<close>

theorem mixed_providers_are_hidden:
  assumes "suOutbox su = None" "suManifestStore su" "prefix_ok (suConfig su)" "codec_small ec"
    and "w = archiveRun su grow ec zs evs (newArchiveWorker (suConfig su) st)" "gm_get (awSegments w) k = Some s"
    and "d1 \<in> set (sgPending s)" "d2 \<in> set (sgPending s)" "ecUnmarshal ec (dlData d1) = Inr env1" "ecUnmarshal ec (dlData d2) = Inr env2"
    and "providerOf env1 \<noteq> []" "providerOf env2 \<noteq> []" "providerOf env1 \<noteq> providerOf env2"
    and "flushSegmentLocked su zs sv s w = (None, w')"
  shows "(dlID d1, Ack) \<in> set (awActions w') \<and> (dlID d2, Ack) \<in> set (awActions w') \<and>
    (\<exists>row. gm_get (asManifests (awStore w')) (TrimSpace (acObjectBucket (suConfig su)), segKey (suConfig su) (sgHour s) (sgShard s) (sgPart s)) = Some row \<and>
       (\<forall>fromMS toMS provider ids pids. provider \<noteq> [] \<longrightarrow> provider \<noteq> ''mixed'' \<longrightarrow> \<not> deviceRow fromMS toMS provider ids pids row))"
proof -
  obtain req row where row: "gm_get (asManifests (awStore w')) (TrimSpace (acObjectBucket (suConfig su)), segKey (suConfig su) (sgHour s) (sgShard s) (sgPart s)) = Some row"
      "rowOf (segmentRecord (suConfig su) s req) row" and ix: "segment_indexed ec s"
      and acked: "awActions w' = awActions w @ map (\<lambda>d. (dlID d, Ack)) (sgPending s)"
    by (rule flushed_row [OF assms(1-7,14)])
  have "mrProvider row = ''mixed''"
  proof -
    have "segmentProvider (sgProviders s) = ''mixed''" by (rule two_providers [OF ix assms(7-13)])
    moreover have "ToLower (TrimSpace ''mixed'') = ''mixed''" by code_simp
    ultimately show ?thesis using rowOf_fields(1) [OF row(2)] by (simp add: segmentRecord_def)
  qed
  then show ?thesis using acked row(1) assms(7,8) by (auto simp: deviceRow_def)
qed

section \<open>An archive in miniature\<close>

definition indexed_sample :: archive_setup where
  "indexed_sample = sample_archive 10\<lparr>suManifestStore := True\<rparr>"

definition sample_replay :: "archive_store \<Rightarrow> replay_bus replay_env" where
  "sample_replay = replayOver sample_decode sample_codec (\<lambda>_. None) ReplayTarget \<lparr>scPrefix = ''pulse'', scShardCount = 128\<rparr> (\<lambda>_. None)"

definition sample_request :: ReplayRequest where
  "sample_request = \<lparr>rrProvider = [], rrFromUnixMS = 1, rrToUnixMS = 8000000, rrDeviceIDs = [''dev''], rrProviderDeviceIDs = [], rrShards = [], rrMaxObjects = 0\<rparr>"

lemma indexed_sample_simps [simp]: "suConfig indexed_sample = suConfig (sample_archive 10)" "suOutbox indexed_sample = None" "suManifestStore indexed_sample"
  by (simp_all add: indexed_sample_def sample_archive_def)

lemma sample_inverse: "codec_inverse sample_codec"
  using sample_codec_simps by (auto simp: codec_inverse_def sample_codec_def split: if_splits)

lemma sample_indexed:
  assumes "w = archiveRun indexed_sample id sample_codec sample_zstd [Deliver fine_services sample_clock (sample_delivery i [1]), Shutdown fine_services]
      (newArchiveWorker (suConfig indexed_sample) emptyStore)"
  obtains row where "awActions w = [(i, Ack)]"
    "asManifests (awStore w) = [((''b'', segKey (suConfig (sample_archive 10)) (7200000 * 1000000) 69 1), row)]"
    "mrShard row = 69" "mrShardCount row = 128" "mrObjectBucket row = ''b''" "mrObjectKey row = segKey (suConfig (sample_archive 10)) (7200000 * 1000000) 69 1"
    "objectHeld indexed_sample (awStore w) (segKey (suConfig (sample_archive 10)) (7200000 * 1000000) 69 1) (40 # frameOf [1])"
proof -
  let ?cfg = "suConfig (sample_archive 10)" and ?k = "segKey (suConfig (sample_archive 10)) (7200000 * 1000000) 69 1"
  have z: "zsNew sample_zstd = None" "zsWrite sample_zstd = (\<lambda>_ _. None)" "zsClose sample_zstd (frameOf [1]) = Inr (40 # frameOf [1])"
    "ecUnmarshal sample_codec (dlData (sample_delivery i [1])) = Inr sample_env1" "1 < acMaxRecordsPerPart ?cfg"
    "zsBuffered sample_zstd (frameOf [1]) < acMaxBytesPerPart ?cfg" "[1 :: byte] \<noteq> []"
    by (simp_all add: sample_zstd_def sample_delivery_def sample_codec_simps sample_archive_def sample_archive_config_def)
  have c: "TrimSpace (acObjectBucket ?cfg) = ''b''" "acObjectBucket ?cfg = ''b''" "TrimSpace (acWriterID ?cfg) \<noteq> []" "scShardCount (acSubjectConfig ?cfg) = 128"
    by (simp_all add: sample_archive_def sample_archive_config_def sample_trim)
  have f: "svEnsureBucket fine_services = (\<lambda>_. None)" "svPut fine_services = (\<lambda>_. Done)" "svExec fine_services = (\<lambda>_. Done)" by (simp_all add: fine_services_def)
  obtain s st1 e1 where s: "sgHour s = 7200000 * 1000000" "sgShard s = 69" "sgPart s = 1" "sgRecords s = 1" "clock_ok sample_clock \<longrightarrow> segment_good s"
    and w: "persistSegment indexed_sample fine_services (segmentRequest ?cfg s (40 # frameOf [1])) (segmentRecord ?cfg s (segmentRequest ?cfg s (40 # frameOf [1]))) emptyStore = (st1, e1)"
      "awStore w = st1" "awActions w = [(dlID (sample_delivery i [1]), if e1 = None then Ack else Nak)]"
    by (rule first_flush [where su = indexed_sample, unfolded indexed_sample_simps(1), OF indexed_sample_simps(2) z(1-4) sample_codec_simps(4) z(7,5,6) sample_hour(1)
          assms [unfolded indexed_sample_simps(1)]])
  define n where "n = normalizeManifestRecord (segmentRecord ?cfg s (segmentRequest ?cfg s (40 # frameOf [1]))) (svNow fine_services)"
  have good: "segment_good s" using s(5) by (simp add: sample_clock_def clock_ok_def UnixMilli_def)
  have valid: "validateManifestRecord n = None"
    using segment_valid [OF good, of "40 # frameOf [1]" ?cfg] s(2,4) c sample_prefix by (simp add: n_def)
  note up = direct_upload [of indexed_sample fine_services "40 # frameOf [1]", unfolded indexed_sample_simps(1), OF indexed_sample_simps(2) sample_prefix _ f(1,2), of s emptyStore, unfolded s(1-3) w(1) fst_conv snd_conv n_def [symmetric]]
  have r: "e1 = None" "asManifests st1 = asManifests (upsertRow n emptyStore)"
    using up(3) valid f(3) s(4) c(1,4) by simp_all
  have key: "trimSlashes (TrimSpace ?k) = ?k" using segKey_normal [OF sample_prefix] by (simp add: normal_key_def)
  have fields: "mrShard n = 69" "mrShardCount n = 128" "mrObjectBucket n = ''b''" "mrObjectKey n = ?k"
    using key c s(1-3) by (simp_all add: n_def normalizeManifestRecord_def segmentRecord_def segmentRequest_def segKey_def)
  have "asManifests st1 = [((''b'', ?k), n)]" by (simp add: r(2) upsertRow_def Let_def fields emptyStore_def gm_put_def)
  then show thesis
    using that [of n] fields w(2,3) r(1) up(1) c(1) by (simp add: sample_delivery_def)
qed

lemma subject_not_blank: "TrimSpace (subjectForShard ReplayTarget \<lparr>scPrefix = ''pulse'', scShardCount = 128\<rparr> shard) \<noteq> []"
proof -
  let ?d = "dec_padded 3 (unat shard)" and ?s = "subjectForShard ReplayTarget \<lparr>scPrefix = ''pulse'', scShardCount = 128\<rparr> shard"
  have s: "?s = ''pulse.telemetry.replay.s'' @ ?d" by (simp add: subjectForShard_def ReplaySubject_def Normalized_def)
  have d: "?d \<noteq> []" by (subst dec_padded_def, subst show_base.simps) simp
  then have "is_digit (last ?d)" using dec_padded_digits by (meson last_in_set)
  then have "is_writer_char (last ?s)" "is_writer_char (hd ?s)" using d by (simp_all add: s is_writer_char_def less_eq_char_def)
  then have "trimmed ?s" by (intro trimmedI) (simp add: writer_char_inner)
  then show ?thesis using TrimSpace_trimmed s by simp
qed

lemma sample_replay_fine:
  assumes "w = archiveRun indexed_sample id sample_codec sample_zstd [Deliver fine_services sample_clock (sample_delivery i [1]), Shutdown fine_services]
      (newArchiveWorker (suConfig indexed_sample) emptyStore)"
  shows "awActions w = [(i, Ack)]" "\<exists>rep bus'. ReplayDevices (sample_replay (awStore w)) sample_request [] = Some ((rep, bus'), None)"
proof -
  let ?k = "segKey (suConfig (sample_archive 10)) (7200000 * 1000000) 69 1" and ?rn = "sample_replay (awStore w)"
  obtain row where row: "awActions w = [(i, Ack)]" "asManifests (awStore w) = [((''b'', ?k), row)]" "mrShard row = 69" "mrShardCount row = 128"
      "mrObjectBucket row = ''b''" "mrObjectKey row = ?k" and held: "objectHeld indexed_sample (awStore w) ?k (40 # frameOf [1])"
    by (rule sample_indexed [OF assms])
  show "awActions w = [(i, Ack)]" by (rule row(1))
  have words: "ToLower (TrimSpace ''device'') = ''device''" "TrimSpace [] = []" by code_simp+
  have ids: "normalizeStrings (normalizeStrings [''dev''] False) False = [''dev'']" "normalizeStrings [''dev''] False = [''dev'']" "normalizeStrings [] True = []" by code_simp+
  have valid: "Validate sample_request ''device'' = None" by (simp add: Validate_def sample_request_def words)
  have "scanManifestRows (filter P [row]) \<noteq> Inl e" for P e using row(3,4) by (simp add: scanManifestRow_def)
  moreover have "sort_by rowOrder (filter P [row]) = filter P [row]" for P by simp
  ultimately obtain objs where objs: "rnListByDevices ?rn (deviceQuery sample_request) = Inr objs"
    by (cases "rnListByDevices ?rn (deviceQuery sample_request)")
      (auto simp: sample_replay_def replayOver_def ListByDevices_def deviceQuery_def sample_request_def Let_def limitRows_def ids row(2) words simp del: filter.simps)
  have list: "ListByDevices None [row] (deviceQuery sample_request) = Inr objs" using objs by (simp add: sample_replay_def replayOver_def row(2))
  have "rnReadObject ?rn ''b'' ?k = Inr (40 # frameOf [1])"
    using held by (auto simp: sample_replay_def replayOver_def objectHeld_def sample_archive_def sample_archive_config_def sample_trim)
  moreover have "DecodeEnvelopeFrames sample_decode (40 # frameOf [1]) = Some (Inr [[1]])"
    using decodeLoop_frames [of "[[1]]" "[]"] by (simp add: DecodeEnvelopeFrames_def sample_decode_def frame_ok_def)
  moreover have "TrimSpace (subjectForShard ReplayTarget \<lparr>scPrefix = ''pulse'', scShardCount = 128\<rparr> shard) \<noteq> []" for shard
    by (rule subject_not_blank)
  ultimately have "\<exists>st'. processObjects ?rn ''device'' 1 8000000 wanted objs st = Some (st', None)" for wanted st
    using ListByDevices_mem(2) [OF list] row(5,6)
    by (intro nats.objects_fine [of _ ReplayTarget "\<lparr>scPrefix = ''pulse'', scShardCount = 128\<rparr>" "\<lambda>_. None"])
      (fastforce simp: sample_replay_def replayOver_def sample_codec_simps PublishReplay_def Let_def)+
  then show "\<exists>rep bus'. ReplayDevices ?rn sample_request [] = Some ((rep, bus'), None)"
    using valid objs by (simp add: ReplayDevices_def Let_def deviceQuery_def sample_request_def)
qed

theorem replay_exact_witness:
  "\<exists>result. ReplayFleet (sample_replay emptyStore) sample_request [] = Some result \<and>
     replayed [] (fleetMessages ReplayTarget \<lparr>scPrefix = ''pulse'', scShardCount = 128\<rparr> (sample_replay emptyStore) sample_request) result"
  using replay_exact [of "sample_replay emptyStore" ReplayTarget "\<lparr>scPrefix = ''pulse'', scShardCount = 128\<rparr>" "\<lambda>_. None" sample_request "[]"]
  by (simp add: sample_replay_def replayOver_def)

theorem acked_is_replayed_witness:
  "\<exists>w rep bus'. w = archiveRun indexed_sample id sample_codec sample_zstd
       [Deliver fine_services sample_clock (sample_delivery 3 [1]), Shutdown fine_services] (newArchiveWorker (suConfig indexed_sample) emptyStore) \<and>
     (3, Ack) \<in> set (awActions w) \<and> ReplayDevices (sample_replay (awStore w)) sample_request [] = Some ((rep, bus'), None) \<and> [1] \<in> snd ` set bus'"
proof -
  define evs where "evs = [Deliver fine_services sample_clock (sample_delivery 3 [1]), Shutdown fine_services]"
  define w where "w = archiveRun indexed_sample id sample_codec sample_zstd evs (newArchiveWorker (suConfig indexed_sample) emptyStore)"
  note fine = sample_replay_fine [OF w_def [unfolded evs_def]]
  obtain rep bus' where run: "ReplayDevices (sample_replay (awStore w)) sample_request [] = Some ((rep, bus'), None)" using fine(2) by blast
  have acked: "(3, Ack) \<in> set (awActions w)" by (simp add: fine(1))
  have pre: "prefix_ok (suConfig indexed_sample)" using sample_prefix by simp
  have req: "rrMaxObjects sample_request = 0" "TrimSpace (rrProvider sample_request) = []" by (simp_all add: sample_request_def)
  have ids: "distinct (map dlID (deliveries evs))" by (simp add: evs_def deliveries_def)
  from acked_is_replayed [OF indexed_sample_simps(2,3) pre sample_laws(1) sample_inverse sample_laws(2) ids w_def acked run [unfolded sample_replay_def]
        req(1) disjI1 [OF req(2)]]
  obtain before d after where d: "deliveries evs = before @ d # after"
      "republished sample_codec sample_request bus' d \<or> (\<exists>d0 \<in> set before. keyOf sample_codec d \<noteq> [])"
    by auto
  then have "before = []" "d = sample_delivery 3 [1]" by (auto simp: deliveries_def evs_def Cons_eq_append_conv)
  with d(2) have out: "republished sample_codec sample_request bus' (sample_delivery 3 [1])" by simp
  have "normalizeStrings [''dev''] False = [''dev'']" by code_simp
  then have "requestedDevice sample_request sample_env1"
    by (simp add: requestedDevice_def deviceWanted_def sample_request_def sample_env1_def zeroEnvelope_def sample_trim)
  moreover have "envelopeTimestampUnixMS sample_env1 = 7200000" by (simp add: envelopeTimestampUnixMS_def sample_env1_def zeroEnvelope_def)
  ultimately have "[1] \<in> snd ` set bus'" using out by (simp add: republished_def sample_delivery_def sample_codec_simps sample_request_def)
  with acked run show ?thesis by (auto simp: w_def evs_def)
qed

definition mixed_env :: "string \<Rightarrow> TelemetryEnvelope" where
  "mixed_env provider = zeroEnvelope\<lparr>DeviceId := ''dev'', Shard := 69, ShardCount := 128, IngestedTimeUnixMs := 7200000, Labels := [(''provider'', provider)]\<rparr>"

definition mixed_codec :: envelope_codec where
  "mixed_codec = \<lparr>ecUnmarshal = (\<lambda>data. if data = [1] then Inr (mixed_env ''ecoflow'') else if data = [2] then Inr (mixed_env ''pecron'') else Inl ''bad wire format''),
     ecMarshal = (\<lambda>env. if env = mixed_env ''ecoflow'' then Inr [1] else if env = mixed_env ''pecron'' then Inr [2] else Inl ''cannot marshal'')\<rparr>"

lemma mixed_codec_simps: "ecUnmarshal mixed_codec [1] = Inr (mixed_env ''ecoflow'')" "ecUnmarshal mixed_codec [2] = Inr (mixed_env ''pecron'')"
  "ecMarshal mixed_codec (mixed_env ''ecoflow'') = Inr [1]" "ecMarshal mixed_codec (mixed_env ''pecron'') = Inr [2]" "codec_small mixed_codec"
  by (auto simp: mixed_codec_def mixed_env_def zeroEnvelope_def codec_small_def split: if_splits)

lemma mixed_env_simps: "TrimSpace (Key (mixed_env p)) = []" "deliveryKey (suConfig (sample_archive 10)) t (mixed_env p) = (7200000 * 1000000, 69)"
  by (simp_all add: Key_def mixed_env_def zeroEnvelope_def deliveryKey_def envelopePartitionTime_def TruncateHour_def hour_def minute_def second_def)

text \<open>Two messages for one segment, and the segment that is flushed.\<close>

lemma pair_flushed:
  assumes codec: "ecUnmarshal ec [1] = Inr e1" "ecUnmarshal ec [2] = Inr e2" "ecMarshal ec e1 = Inr [1]" "ecMarshal ec e2 = Inr [2]"
    and blank: "TrimSpace (Key e1) = []" "TrimSpace (Key e2) = []"
    and key: "deliveryKey (suConfig (sample_archive 10)) (ckPartition sample_clock) e1 = (7200000 * 1000000, 69)"
      "deliveryKey (suConfig (sample_archive 10)) (ckPartition sample_clock) e2 = (7200000 * 1000000, 69)"
    and w: "w = archiveRun indexed_sample id ec sample_zstd [Deliver fine_services sample_clock (sample_delivery 3 [1]),
      Deliver fine_services sample_clock (sample_delivery 4 [2])] (newArchiveWorker (suConfig indexed_sample) emptyStore)"
  obtains s w' where "gm_get (awSegments w) (mapKey (7200000 * 1000000) 69) = Some s" "sgPending s = [sample_delivery 3 [1], sample_delivery 4 [2]]"
    "flushSegmentLocked indexed_sample sample_zstd fine_services s w = (None, w')"
    "map snd (asManifests (awStore w')) = [normalizeManifestRecord (segmentRecord (suConfig (sample_archive 10)) s
       (segmentRequest (suConfig (sample_archive 10)) s (40 # sgWritten s))) (svNow fine_services)]"
    "sgTsMin s = min (recordTimestampUnixMilli (ckRecord sample_clock) e2) (recordTimestampUnixMilli (ckRecord sample_clock) e1)"
    "sgTsMax s = max (recordTimestampUnixMilli (ckRecord sample_clock) e2) (recordTimestampUnixMilli (ckRecord sample_clock) e1)"
    "sgProviderDeviceIDs s = addTo (TrimSpace (rmProviderDeviceID (manifestRecordMetaFromEnvelope e2)))
       (addTo (TrimSpace (rmProviderDeviceID (manifestRecordMetaFromEnvelope e1))) [])"
proof -
  define s1 where "s1 = \<lparr>sgHour = 7200000000000, sgShard = 69, sgPart = 1, sgOpenedAt = ckOpen sample_clock, sgWritten = [], sgPending = [],
      sgRecords = 0, sgTsMin = 0, sgTsMax = 0, sgProviders = [], sgDeviceIDs = [], sgProviderDeviceIDs = []\<rparr>"
  let ?ts = "recordTimestampUnixMilli (ckRecord sample_clock)" and ?cfg = "suConfig (sample_archive 10)"
  have app: "\<exists>t'. appendRecord sample_zstd p d ts meta t = Inr t' \<and> sgPending t' = sgPending t @ [d] \<and> sgShard t' = sgShard t \<and> sgRecords t' = sgRecords t + 1 \<and>
      sgTsMin t' = (if sgRecords t = 0 then ts else min ts (sgTsMin t)) \<and> sgTsMax t' = (if sgRecords t = 0 then ts else max ts (sgTsMax t)) \<and>
      sgProviderDeviceIDs t' = addTo (TrimSpace (rmProviderDeviceID meta)) (sgProviderDeviceIDs t)"
    if "p \<noteq> []" for p d ts meta t using that by (simp add: appendRecord_def sample_zstd_def Let_def)
  obtain s2 where s2: "appendRecord sample_zstd [1] (sample_delivery 3 [1]) (?ts e1) (manifestRecordMetaFromEnvelope e1) s1 = Inr s2"
      "sgPending s2 = [sample_delivery 3 [1]]" "sgShard s2 = 69" "sgRecords s2 = 1"
      "sgTsMin s2 = ?ts e1" "sgTsMax s2 = ?ts e1" "sgProviderDeviceIDs s2 = addTo (TrimSpace (rmProviderDeviceID (manifestRecordMetaFromEnvelope e1))) []"
    using app [of "[1]" "sample_delivery 3 [1]" _ _ s1] by (force simp: s1_def)
  obtain s where s: "appendRecord sample_zstd [2] (sample_delivery 4 [2]) (?ts e2) (manifestRecordMetaFromEnvelope e2) s2 = Inr s"
      "sgPending s = [sample_delivery 3 [1], sample_delivery 4 [2]]" "sgShard s = 69" "sgRecords s = 2"
      "sgTsMin s = min (?ts e2) (?ts e1)" "sgTsMax s = max (?ts e2) (?ts e1)"
      "sgProviderDeviceIDs s = addTo (TrimSpace (rmProviderDeviceID (manifestRecordMetaFromEnvelope e2))) (sgProviderDeviceIDs s2)"
    using app [of "[2]" "sample_delivery 4 [2]" _ _ s2] s2 by force
  have lim: "acMaxRecordsPerPart ?cfg = 10" "acMaxBytesPerPart ?cfg = 1000" "zsBuffered sample_zstd x = 0" "zsNew sample_zstd = None" for x
    by (simp_all add: sample_archive_def sample_archive_config_def sample_zstd_def)
  have d: "ecUnmarshal ec (dlData (sample_delivery 3 [1])) = Inr e1" "ecUnmarshal ec (dlData (sample_delivery 4 [2])) = Inr e2"
    by (simp_all add: sample_delivery_def codec)
  have seg: "gm_get (awSegments w) (mapKey (7200000 * 1000000) 69) = Some s" "awStore w = emptyStore"
    unfolding w
    by (simp_all add: archiveRun_def processDelivery_def d codec blank key bufferDelivery_def segmentForKeyLocked_def newArchiveWorker_def
        s2 [unfolded s1_def] s lim Let_def)
  have "worker_good w" unfolding w by (rule run_good [OF new_good]) (simp add: sample_clock_def clock_ok_def UnixMilli_def)
  from worker_goodD(2) [OF this seg(1)] have good: "segment_good s" .
  have body: "zsClose sample_zstd (sgWritten s) = Inr (40 # sgWritten s)" by (simp add: sample_zstd_def)
  have c: "TrimSpace (acObjectBucket ?cfg) = ''b''" "TrimSpace (acWriterID ?cfg) \<noteq> []" "scShardCount (acSubjectConfig ?cfg) = 128"
    by (simp_all add: sample_archive_def sample_archive_config_def sample_trim)
  have f: "svEnsureBucket fine_services = (\<lambda>_. None)" "svPut fine_services = (\<lambda>_. Done)" "svExec fine_services = (\<lambda>_. Done)" by (simp_all add: fine_services_def)
  have valid: "validateManifestRecord (normalizeManifestRecord (segmentRecord ?cfg s (segmentRequest ?cfg s (40 # sgWritten s))) (svNow fine_services)) = None"
    using segment_valid [OF good, of "40 # sgWritten s" ?cfg] s(3,4) c sample_prefix by simp
  note up = direct_upload(3) [of indexed_sample fine_services "40 # sgWritten s" s "awStore w", unfolded indexed_sample_simps(1), OF indexed_sample_simps(2) sample_prefix _ f(1,2) _ indexed_sample_simps(3) f(3) valid]
  let ?r = "segmentRecord ?cfg s (segmentRequest ?cfg s (40 # sgWritten s))"
  obtain st1 where "persistSegment indexed_sample fine_services (segmentRequest ?cfg s (40 # sgWritten s)) ?r (awStore w) = (st1, None)"
      and st1: "asManifests st1 = asManifests (upsertRow (normalizeManifestRecord ?r (svNow fine_services)) (awStore w))"
    using up c s(3,4) by (cases "persistSegment indexed_sample fine_services (segmentRequest ?cfg s (40 # sgWritten s)) ?r (awStore w)") simp
  then obtain w' where "flushSegmentLocked indexed_sample sample_zstd fine_services s w = (None, w')" "awStore w' = st1"
    using body s(4) by (simp add: flushSegmentLocked_def Let_def dropSegmentLocked_def)
  then show thesis using that seg s s2(7) st1 by (simp add: upsertRow_def emptyStore_def gm_put_def gm_get_def)
qed

theorem mixed_providers_are_hidden_witness:
  "\<exists>w s w' row. w = archiveRun indexed_sample id mixed_codec sample_zstd [Deliver fine_services sample_clock (sample_delivery 3 [1]),
       Deliver fine_services sample_clock (sample_delivery 4 [2])] (newArchiveWorker (suConfig indexed_sample) emptyStore) \<and>
     flushSegmentLocked indexed_sample sample_zstd fine_services s w = (None, w') \<and> (3, Ack) \<in> set (awActions w') \<and> (4, Ack) \<in> set (awActions w') \<and>
     (''b'', row) \<in> (\<lambda>((bucket, k), r). (bucket, r)) ` set (asManifests (awStore w')) \<and> \<not> deviceRow 1 8000000 ''ecoflow'' [''dev''] [] row"
proof -
  define w where "w = archiveRun indexed_sample id mixed_codec sample_zstd [Deliver fine_services sample_clock (sample_delivery 3 [1]),
      Deliver fine_services sample_clock (sample_delivery 4 [2])] (newArchiveWorker (suConfig indexed_sample) emptyStore)"
  let ?cfg = "suConfig (sample_archive 10)"
  obtain s w' where s: "gm_get (awSegments w) (mapKey (7200000 * 1000000) 69) = Some s" "sgPending s = [sample_delivery 3 [1], sample_delivery 4 [2]]"
      and flush: "flushSegmentLocked indexed_sample sample_zstd fine_services s w = (None, w')"
    by (rule pair_flushed [OF mixed_codec_simps(1-4) mixed_env_simps(1,1,2,2) w_def])
  have d: "sample_delivery 3 [1] \<in> set (sgPending s)" "sample_delivery 4 [2] \<in> set (sgPending s)" by (simp_all add: s(2))
  have e: "ecUnmarshal mixed_codec (dlData (sample_delivery 3 [1])) = Inr (mixed_env ''ecoflow'')" "ecUnmarshal mixed_codec (dlData (sample_delivery 4 [2])) = Inr (mixed_env ''pecron'')"
    by (simp_all add: sample_delivery_def mixed_codec_simps)
  have "ToLower (TrimSpace ''ecoflow'') = ''ecoflow''" "ToLower (TrimSpace ''pecron'') = ''pecron''" by code_simp+
  then have p: "providerOf (mixed_env ''ecoflow'') = ''ecoflow''" "providerOf (mixed_env ''pecron'') = ''pecron''"
    by (simp_all add: providerOf_def mixed_env_def label_def gm_get_def)
  have pre: "prefix_ok (suConfig indexed_sample)" using sample_prefix by simp
  have bucket: "TrimSpace (acObjectBucket ?cfg) = ''b''" by (simp add: sample_archive_def sample_archive_config_def sample_trim)
  from mixed_providers_are_hidden [OF indexed_sample_simps(2,3) pre mixed_codec_simps(5) w_def s(1) d e _ _ _ flush] p
  obtain row where row: "(3, Ack) \<in> set (awActions w')" "(4, Ack) \<in> set (awActions w')"
      "\<forall>fromMS toMS provider ids pids. provider \<noteq> [] \<longrightarrow> provider \<noteq> ''mixed'' \<longrightarrow> \<not> deviceRow fromMS toMS provider ids pids row"
      "gm_get (asManifests (awStore w')) (''b'', segKey ?cfg (sgHour s) (sgShard s) (sgPart s)) = Some row"
    by (auto simp: bucket sample_delivery_def)
  have "\<not> deviceRow 1 8000000 ''ecoflow'' [''dev''] [] row" using row(3) by simp
  moreover from gm_get_SomeD [OF row(4)] have "(''b'', row) \<in> (\<lambda>((bucket, k), r). (bucket, r)) ` set (asManifests (awStore w'))" by force
  ultimately show ?thesis using flush row(1,2) w_def by blast
qed

end
