(* ===== verification/Current_Telemetry.thy ===== *)
theory Current_Telemetry
  imports Complex_Main Go_Prelude Ble_Bytes Cp_Types
begin

text \<open>
  Numbers in telemetry (\<open>internal/currenttelemetry\<close>): the metrics of a payload, the metrics that tell of
  the momentary flow of power, and the test for a device that reports power and is idle. A
  floating-point number is a real or one of the special values, and the rounding of a result is the
  argument \<open>rnd\<close>; the sign of zero, which no comparison sees, is left out. The parsing of JSON is the
  argument \<open>parse\<close>, which answers no tree for an invalid text.
\<close>

section \<open>Numbers\<close>

datatype float64 = NaN | Inf bool | Finite real

fun fabs :: "float64 \<Rightarrow> float64" where
  "fabs NaN = NaN"
| "fabs (Inf s) = Inf True"
| "fabs (Finite x) = Finite \<bar>x\<bar>"

fun fadd :: "(real \<Rightarrow> float64) \<Rightarrow> float64 \<Rightarrow> float64 \<Rightarrow> float64" where
  "fadd rnd (Finite x) (Finite y) = rnd (x + y)"
| "fadd rnd (Inf s) (Inf t) = (if s = t then Inf s else NaN)"
| "fadd rnd (Inf s) (Finite y) = Inf s"
| "fadd rnd (Finite x) (Inf t) = Inf t"
| "fadd rnd NaN b = NaN"
| "fadd rnd a NaN = NaN"

fun fneg :: "float64 \<Rightarrow> float64" where
  "fneg NaN = NaN"
| "fneg (Inf s) = Inf (\<not> s)"
| "fneg (Finite x) = Finite (- x)"

definition fsub :: "(real \<Rightarrow> float64) \<Rightarrow> float64 \<Rightarrow> float64 \<Rightarrow> float64" where
  "fsub rnd a b = fadd rnd a (fneg b)"

text \<open>A comparison with \<open>NaN\<close> fails.\<close>

fun fless :: "float64 \<Rightarrow> float64 \<Rightarrow> bool" where
  "fless (Finite x) (Finite y) = (x < y)"
| "fless (Inf s) (Inf t) = (\<not> s \<and> t)"
| "fless (Inf s) (Finite y) = (\<not> s)"
| "fless (Finite x) (Inf t) = t"
| "fless NaN b = False"
| "fless a NaN = False"

definition feq :: "float64 \<Rightarrow> float64 \<Rightarrow> bool" where
  "feq a b \<longleftrightarrow> a = b \<and> a \<noteq> NaN"

definition fle :: "float64 \<Rightarrow> float64 \<Rightarrow> bool" where
  "fle a b \<longleftrightarrow> fless a b \<or> feq a b"

definition fmax :: "float64 \<Rightarrow> float64 \<Rightarrow> float64" where
  "fmax a b = (if a = Inf True \<or> b = Inf True then Inf True else if a = NaN \<or> b = NaN then NaN else if fless a b then b else a)"

definition isFinite :: "float64 \<Rightarrow> bool" where
  "isFinite a = (case a of Finite _ \<Rightarrow> True | _ \<Rightarrow> False)"

section \<open>The metrics of a payload\<close>

text \<open>A parsed value: null and strings carry no metric and are one constructor.\<close>

datatype gjson = JNumber float64 | JTrue | JFalse | JArray "gjson list" | JObject "(string \<times> gjson) list" | JOther

definition sanitizeMetricPathSegment :: "string \<Rightarrow> string" where
  "sanitizeMetricPathSegment s = map (\<lambda>c. if c \<in> {CHR ''{'', CHR ''}'', CHR '' ''} then CHR ''_'' else c) (TrimSpace s)"

definition joinMetricPath :: "string \<Rightarrow> string \<Rightarrow> string" where
  "joinMetricPath parent child =
     (let clean = sanitizeMetricPathSegment child
      in if parent = [] then clean else if clean = [] then parent else parent @ ''.'' @ clean)"

definition putMetric :: "string \<Rightarrow> float64 \<Rightarrow> (string, float64) gomap \<Rightarrow> (string, float64) gomap" where
  "putMetric path v out = (if path = [] then out else gm_put path v out)"

fun walkMetricValue :: "string \<Rightarrow> gjson \<Rightarrow> (string, float64) gomap \<Rightarrow> (string, float64) gomap"
  and walkElements :: "string \<Rightarrow> int \<Rightarrow> gjson list \<Rightarrow> (string, float64) gomap \<Rightarrow> (string, float64) gomap"
  and walkMembers :: "string \<Rightarrow> (string \<times> gjson) list \<Rightarrow> (string, float64) gomap \<Rightarrow> (string, float64) gomap" where
  "walkMetricValue path (JNumber x) out = putMetric path x out"
| "walkMetricValue path JTrue out = putMetric path (Finite 1) out"
| "walkMetricValue path JFalse out = putMetric path (Finite 0) out"
| "walkMetricValue path (JArray vs) out = walkElements path 0 vs out"
| "walkMetricValue path (JObject ms) out = walkMembers path ms out"
| "walkMetricValue path JOther out = out"
| "walkElements path index [] out = out"
| "walkElements path index (child # vs) out =
     walkElements path (index + 1) vs (walkMetricValue (joinMetricPath path (Itoa index)) child out)"
| "walkMembers path [] out = out"
| "walkMembers path ((key, child) # ms) out = walkMembers path ms (walkMetricValue (joinMetricPath path key) child out)"

definition ExtractNumericMetrics :: "(byte list \<Rightarrow> gjson option) \<Rightarrow> byte list \<Rightarrow> (string, float64) gomap" where
  "ExtractNumericMetrics parse payload =
     (if payload = [] then []
      else case parse payload of None \<Rightarrow> [] | Some v \<Rightarrow> walkMetricValue [] v [])"

lemma putMetric_wf: "gm_wf out \<Longrightarrow> gm_wf (putMetric path v out)"
  by (simp add: putMetric_def)

lemma walk_wf:
  "gm_wf out \<Longrightarrow> gm_wf (walkMetricValue path v out)"
  "gm_wf out \<Longrightarrow> gm_wf (walkElements path index vs out)"
  "gm_wf out \<Longrightarrow> gm_wf (walkMembers path ms out)"
  by (induction path v out and path index vs out and path ms out rule: walkMetricValue_walkElements_walkMembers.induct) (simp_all add: putMetric_wf)

lemma ExtractNumericMetrics_wf [simp]: "gm_wf (ExtractNumericMetrics parse payload)"
  by (simp add: ExtractNumericMetrics_def walk_wf split: option.splits)

section \<open>Momentary metrics\<close>

definition IsCurrentMetricKey :: "string \<Rightarrow> bool" where
  "IsCurrentMetricKey key \<longleftrightarrow>
     (let clean = ToLower (TrimSpace key)
      in clean \<noteq> [] \<and>
         (clean \<in> {''pvw'', ''acw'', ''dcw'', ''loadw'', ''batteryw''} \<or> Contains clean ''remaintime'' \<or>
          Contains clean ''watt'' \<or> Contains clean ''pwr'' \<or> Contains clean ''mppt'' \<or>
          Contains clean ''.pv'' \<and> (Contains clean ''invol'' \<or> Contains clean ''inamp'' \<or> Contains clean ''inwatt'' \<or>
            Contains clean ''chargewatt'' \<or> Contains clean ''chgstate'') \<or>
          HasSuffix clean ''.invol'' \<or> HasSuffix clean ''.inamp'' \<or> HasSuffix clean ''.batvol'' \<or> HasSuffix clean ''.batamp'' \<or>
          Contains clean ''.out'' \<and> (Contains clean ''vol'' \<or> Contains clean ''amp'')))"

section \<open>Idle devices\<close>

text \<open>A metric that is missing is \<open>None\<close>; the code returns zero and false for it.\<close>

fun firstMetric :: "(string, float64) gomap \<Rightarrow> string list \<Rightarrow> float64 option" where
  "firstMetric metrics [] = None"
| "firstMetric metrics (key # keys) =
     (case gm_get metrics key of
        Some value \<Rightarrow> if isFinite value then Some value else firstMetric metrics keys
      | None \<Rightarrow> firstMetric metrics keys)"

definition valueOr0 :: "float64 option \<Rightarrow> float64" where
  "valueOr0 m = (case m of None \<Rightarrow> Finite 0 | Some v \<Rightarrow> v)"

definition sumIfPresent :: "(real \<Rightarrow> float64) \<Rightarrow> (string, float64) gomap \<Rightarrow> string list \<Rightarrow> float64 option" where
  "sumIfPresent rnd metrics keys =
     fold (\<lambda>key acc. case firstMetric metrics [key] of None \<Rightarrow> acc | Some value \<Rightarrow> Some (fadd rnd (valueOr0 acc) value)) keys None"

definition sumPositiveIfPresent :: "(real \<Rightarrow> float64) \<Rightarrow> (string, float64) gomap \<Rightarrow> string list \<Rightarrow> float64 option" where
  "sumPositiveIfPresent rnd metrics keys =
     fold (\<lambda>key acc. case firstMetric metrics [key] of
             None \<Rightarrow> acc
           | Some value \<Rightarrow> if fle value (Finite 0) then acc else Some (fadd rnd (valueOr0 acc) value)) keys None"

fun fscale :: "(real \<Rightarrow> float64) \<Rightarrow> float64 \<Rightarrow> float64" where
  "fscale rnd (Finite x) = rnd (x / 1000)"
| "fscale rnd (Inf s) = Inf s"
| "fscale rnd NaN = NaN"

definition normalizePotentialMilliUnit :: "(real \<Rightarrow> float64) \<Rightarrow> float64 \<Rightarrow> real \<Rightarrow> float64" where
  "normalizePotentialMilliUnit rnd value maxAbsCanonical =
     (if fless (Finite maxAbsCanonical) (fabs value) \<and> fle (fabs (fscale rnd value)) (Finite maxAbsCanonical) then fscale rnd value else value)"

fun fmul :: "(real \<Rightarrow> float64) \<Rightarrow> float64 \<Rightarrow> float64 \<Rightarrow> float64" where
  "fmul rnd (Finite x) (Finite y) = rnd (x * y)"
| "fmul rnd (Inf s) (Inf t) = Inf (s = t)"
| "fmul rnd (Inf s) (Finite y) = (if y = 0 then NaN else Inf (s = (0 < y)))"
| "fmul rnd (Finite x) (Inf t) = (if x = 0 then NaN else Inf (t = (0 < x)))"
| "fmul rnd NaN b = NaN"
| "fmul rnd a NaN = NaN"

definition HasPrefix :: "string \<Rightarrow> string \<Rightarrow> bool" where
  "HasPrefix s p \<longleftrightarrow> prefix p s"

definition TrimPrefix :: "string \<Rightarrow> string \<Rightarrow> string" where
  "TrimPrefix s p = (if HasPrefix s p then drop (length p) s else s)"

definition TrimSuffix :: "string \<Rightarrow> string \<Rightarrow> string" where
  "TrimSuffix s p = (if HasSuffix s p then take (length s - length p) s else s)"

definition sumExtraBatteryPackCharge :: "(real \<Rightarrow> float64) \<Rightarrow> (string, float64) gomap \<Rightarrow> float64" where
  "sumExtraBatteryPackCharge rnd metrics =
     fold (\<lambda>(key, value) sum.
         if \<not> HasPrefix key ''params.watts.'' \<or> \<not> HasSuffix key ''.curPower'' \<or> fle value (Finite 0) then sum
         else
           (let index = TrimSuffix (TrimPrefix key ''params.watts.'') ''.curPower''
            in case firstMetric metrics [''params.watts.'' @ index @ ''.avaFlag''] of
                 Some available \<Rightarrow> if fle available (Finite 0) then sum else fadd rnd sum value
               | None \<Rightarrow> fadd rnd sum value))
       metrics (Finite 0)"

definition currentInputWatts :: "(real \<Rightarrow> float64) \<Rightarrow> (string, float64) gomap \<Rightarrow> float64 option" where
  "currentInputWatts rnd metrics =
     (case firstMetric metrics [''pvW'', ''params.wattsInSum'', ''param.wattsInSum'', ''params.inWatts''] of
        Some watts \<Rightarrow> Some watts
      | None \<Rightarrow> sumIfPresent rnd metrics [''params.inLvMpptPwr'', ''params.inHvMpptPwr'', ''params.pv1ChargeWatts'', ''params.pv2ChargeWatts'',
          ''params.pv1InWatts'', ''params.pv2InWatts''])"

definition currentExtraBatteryChargeTransfer :: "(real \<Rightarrow> float64) \<Rightarrow> (string, float64) gomap \<Rightarrow> float64" where
  "currentExtraBatteryChargeTransfer rnd metrics =
     (let xt150Charge = sumPositiveIfPresent rnd metrics [''params.XT150Watts1'', ''params.XT150Watts2'', ''param.XT150Watts1'', ''param.XT150Watts2''];
          kitCharge = sumExtraBatteryPackCharge rnd metrics
      in if xt150Charge = None \<and> fle kitCharge (Finite 0) then Finite 0
         else
           (let input = firstMetric metrics [''params.inputWatts'', ''param.inputWatts''];
                output = firstMetric metrics [''params.outputWatts'', ''param.outputWatts''];
                inputCharge = (case input of
                    Some i \<Rightarrow> if fless (Finite 0) i \<and> (case output of None \<Rightarrow> True | Some out \<Rightarrow> fle out (Finite 0)) then i else Finite 0
                  | None \<Rightarrow> Finite 0)
            in fmax (fmax (valueOr0 xt150Charge) kitCharge) inputCharge))"

definition currentBatterySinkWatts :: "(real \<Rightarrow> float64) \<Rightarrow> (string, float64) gomap \<Rightarrow> float64 option" where
  "currentBatterySinkWatts rnd metrics =
     (case firstMetric metrics [''batteryW''] of
        Some batteryW \<Rightarrow> Some (fabs batteryW)
      | None \<Rightarrow>
          (let extraBatteryCharge = currentExtraBatteryChargeTransfer rnd metrics
           in if fless (Finite 0) extraBatteryCharge then Some extraBatteryCharge
              else
                (let bmsInput = firstMetric metrics [''params.bmsInputWatts'']; bmsOutput = firstMetric metrics [''params.bmsOutputWatts'']
                 in if bmsInput \<noteq> None \<or> bmsOutput \<noteq> None then Some (fadd rnd (fabs (valueOr0 bmsInput)) (fabs (valueOr0 bmsOutput)))
                    else
                      (let input = firstMetric metrics [''params.inputWatts'', ''param.inputWatts''];
                           output = firstMetric metrics [''params.outputWatts'', ''param.outputWatts'']
                       in if input \<noteq> None \<or> output \<noteq> None then Some (fadd rnd (fabs (valueOr0 input)) (fabs (valueOr0 output)))
                          else case (firstMetric metrics [''params.batVol''], firstMetric metrics [''params.batAmp'']) of
                                 (Some volts, Some amps) \<Rightarrow>
                                   Some (fabs (fmul rnd (normalizePotentialMilliUnit rnd volts 1000) (normalizePotentialMilliUnit rnd amps 200)))
                               | _ \<Rightarrow> None))))"

definition hasIdleOrPausedSignal :: "(string, float64) gomap \<Rightarrow> bool" where
  "hasIdleOrPausedSignal metrics \<longleftrightarrow>
     (case firstMetric metrics [''params.chgPauseFlag''] of Some v \<Rightarrow> fle (Finite 1) v | None \<Rightarrow> False) \<or>
     (case firstMetric metrics [''params.chgDsgState''] of Some v \<Rightarrow> feq v (Finite 2) | None \<Rightarrow> False) \<or>
     (case firstMetric metrics [''params.sysState''] of Some v \<Rightarrow> feq v (Finite 2) | None \<Rightarrow> False)"

definition hasSentinelRemainTime :: "(string, float64) gomap \<Rightarrow> bool" where
  "hasSentinelRemainTime metrics \<longleftrightarrow>
     (let remain = firstMetric metrics [''params.remainTime'', ''param.remainTime''];
          charge = firstMetric metrics [''params.chgRemainTime'', ''param.chgRemainTime''];
          discharge = firstMetric metrics [''params.dsgRemainTime'', ''param.dsgRemainTime''];
          far = (\<lambda>m. case m of None \<Rightarrow> True | Some v \<Rightarrow> fle (Finite 5990) v)
      in \<not> (remain = None \<and> charge = None \<and> discharge = None) \<and> far remain \<and> far charge \<and> far discharge)"

definition IdleStale :: "(real \<Rightarrow> float64) \<Rightarrow> (string, float64) gomap \<Rightarrow> bool" where
  "IdleStale rnd metrics \<longleftrightarrow>
     (case currentInputWatts rnd metrics of
        None \<Rightarrow> False
      | Some inputW \<Rightarrow>
          if fle inputW (Finite 5) then False
          else
            (let loadW = firstMetric metrics [''loadW'', ''params.wattsOutSum'', ''param.wattsOutSum'', ''params.invOutWatts''];
                 batterySinkW = currentBatterySinkWatts rnd metrics
             in if (case loadW of Some l \<Rightarrow> fless (Finite 1) (fabs l) | None \<Rightarrow> False) \<or> (case batterySinkW of Some b \<Rightarrow> fless (Finite 1) b | None \<Rightarrow> False) then False
                else if loadW = None \<and> batterySinkW = None then False
                else hasIdleOrPausedSignal metrics \<or> hasSentinelRemainTime metrics))"

end
