(* ===== verification/Projection_Model.thy ===== *)
theory Projection_Model
  imports Current_Telemetry Archive_Store Envelope Gap_Model
begin

text \<open>
  The projection of telemetry (\<open>internal/projectionworker\<close>): every envelope is merged into the live
  snapshot of its device, which is kept under a key of a Valkey server, and readers get the metrics of
  a snapshot that are still fresh. The answers of the server are arguments. A stored snapshot stands
  for its JSON text.
\<close>

definition metricValueChanged :: "(real \<Rightarrow> float64) \<Rightarrow> float64 \<Rightarrow> float64 \<Rightarrow> bool" where
  "metricValueChanged rnd previous next =
     (if previous = NaN \<or> next = NaN then True else fless (Finite (1 / 1000000000)) (fabs (fsub rnd previous next)))"

section \<open>Snapshots\<close>

record LiveSnapshot =
  lsDeviceID :: string
  lsEcoflowSN :: string
  lsCursorSeq :: "64 word"
  lsCursorTsUnixMs :: int
  lsUpdatedAtUnixMs :: int
  lsEnvelopeID :: string
  lsMessageID :: string
  lsTypeCode :: string
  lsShard :: "32 word"
  lsShardCount :: "32 word"
  lsSourceKind :: int
  lsMetrics :: "(string, float64) gomap"
  lsMetricObservedAtUnixMs :: "(string, int) gomap"
  lsMetricChangedAtUnixMs :: "(string, int) gomap"

record snapshot_db =
  sdSeq :: "(string, int) gomap"
  sdSnapshots :: "(string, LiveSnapshot) gomap"

text \<open>What the server does with the next call, by key.\<close>

record valkey_calls =
  vcGet :: "string \<Rightarrow> string option"
  vcIncr :: "string \<Rightarrow> call_outcome"
  vcSet :: "string \<Rightarrow> call_outcome"

record projection_env =
  peKeyPrefix :: string
  peRound :: "real \<Rightarrow> float64"
  peParse :: "byte list \<Rightarrow> gjson option"

section \<open>The store\<close>

record ValkeySnapshotStoreConfig =
  vsKeyPrefix :: string
  vsMetricFreshnessWindow :: int
  vsMetricFlatlineWindow :: int

definition DefaultValkeySnapshotStoreConfig :: ValkeySnapshotStoreConfig where
  "DefaultValkeySnapshotStoreConfig =
     \<lparr>vsKeyPrefix = ''pulse:projection'', vsMetricFreshnessWindow = 2 * minute, vsMetricFlatlineWindow = 30 * minute\<rparr>"

definition NewValkeySnapshotStore :: "bool \<Rightarrow> ValkeySnapshotStoreConfig \<Rightarrow> string + ValkeySnapshotStoreConfig" where
  "NewValkeySnapshotStore hasClient cfg =
     (if \<not> hasClient then Inl ''valkey client is required''
      else Inr \<lparr>vsKeyPrefix = (if TrimSpace (vsKeyPrefix cfg) = [] then vsKeyPrefix DefaultValkeySnapshotStoreConfig else TrimSpace (vsKeyPrefix cfg)),
             vsMetricFreshnessWindow = positiveOr (vsMetricFreshnessWindow cfg) (vsMetricFreshnessWindow DefaultValkeySnapshotStoreConfig),
             vsMetricFlatlineWindow = positiveOr (vsMetricFlatlineWindow cfg) (vsMetricFlatlineWindow DefaultValkeySnapshotStoreConfig)\<rparr>)"

section \<open>Keys\<close>

definition sanitizeKeySegment :: "string \<Rightarrow> string" where
  "sanitizeKeySegment s = map (\<lambda>c. if c \<in> {CHR ''{'', CHR ''}'', CHR '' ''} then CHR ''_'' else c) (TrimSpace s)"

definition snapshotTag :: "string \<Rightarrow> string \<Rightarrow> string + string" where
  "snapshotTag deviceID ecoflowSN =
     (let did = TrimSpace deviceID; sn = TrimSpace ecoflowSN
      in if did = [] \<and> sn = [] then Inl ''snapshot identity requires device_id or ecoflow_sn''
         else if did \<noteq> [] then Inr (''did:'' @ sanitizeKeySegment did)
         else Inr (''sn:'' @ sanitizeKeySegment (ToUpper sn)))"

definition keysForIdentity :: "string \<Rightarrow> string \<Rightarrow> string \<Rightarrow> string + string \<times> string" where
  "keysForIdentity keyPrefix deviceID ecoflowSN =
     (case snapshotTag deviceID ecoflowSN of
        Inl e \<Rightarrow> Inl e
      | Inr tag \<Rightarrow> (let base = keyPrefix @ '':{'' @ tag @ ''}'' in Inr (base @ '':seq'', base @ '':snapshot'')))"

text \<open>The values under the snapshot keys are the ones \<open>storeSnapshot\<close> wrote, the JSON text of a snapshot with its three maps, so the
  map of the database holds the snapshots themselves. The answers of the code for an empty value, which is no snapshot, and for
  one that does not decode, which is an error, are about values that no code of the repository writes.\<close>

definition getBySnapshotKey :: "valkey_calls \<Rightarrow> string \<Rightarrow> snapshot_db \<Rightarrow> string + LiveSnapshot option" where
  "getBySnapshotKey vc key db =
     (case vcGet vc key of
        Some e \<Rightarrow> Inl (''read snapshot key '' @ CHR 0x22 # key @ CHR 0x22 # '': '' @ e)
      | None \<Rightarrow> Inr (gm_get (sdSnapshots db) key))"

definition GetSnapshot :: "projection_env \<Rightarrow> valkey_calls \<Rightarrow> string \<Rightarrow> string \<Rightarrow> snapshot_db \<Rightarrow> string + LiveSnapshot option" where
  "GetSnapshot pe vc deviceID ecoflowSN db =
     (case keysForIdentity (peKeyPrefix pe) deviceID ecoflowSN of
        Inl e \<Rightarrow> Inl e
      | Inr (seqKey, snapKey) \<Rightarrow> getBySnapshotKey vc snapKey db)"

section \<open>Applying an envelope\<close>

definition at0 :: "(string, int) gomap \<Rightarrow> string \<Rightarrow> int" where
  "at0 m k = (case gm_get m k of None \<Rightarrow> 0 | Some v \<Rightarrow> v)"

text \<open>The envelope is one the snapshot already has, or an older one.\<close>

definition keepsExisting :: "LiveSnapshot \<Rightarrow> TelemetryEnvelope \<Rightarrow> bool" where
  "keepsExisting existing env \<longleftrightarrow>
     EnvelopeId env \<noteq> [] \<and> EqualFold (lsEnvelopeID existing) (EnvelopeId env) \<or>
     0 < IngestedTimeUnixMs env \<and> IngestedTimeUnixMs env < lsCursorTsUnixMs existing"

type_synonym merged = "(string, float64) gomap \<times> (string, int) gomap \<times> (string, int) gomap"

definition mergeOld :: "LiveSnapshot \<Rightarrow> merged" where
  "mergeOld existing =
     fold (\<lambda>(k, v) (metrics, observed, changed).
         let observedAt0 = at0 (lsMetricObservedAtUnixMs existing) k;
             observedAt = (if observedAt0 \<le> 0 then lsCursorTsUnixMs existing else observedAt0);
             changedAt0 = at0 (lsMetricChangedAtUnixMs existing) k;
             changedAt = (if changedAt0 \<le> 0 then observedAt else changedAt0)
         in (gm_put k v metrics, if 0 < observedAt then gm_put k observedAt observed else observed,
             if 0 < changedAt then gm_put k changedAt changed else changed))
       (lsMetrics existing) ([], [], [])"

definition mergeNew :: "(real \<Rightarrow> float64) \<Rightarrow> int \<Rightarrow> (string, float64) gomap \<Rightarrow> merged \<Rightarrow> merged" where
  "mergeNew rnd cursorTs incoming =
     fold (\<lambda>(k, v) (metrics, observed, changed).
         (gm_put k v metrics, gm_put k cursorTs observed,
          if (case gm_get metrics k of None \<Rightarrow> True | Some previous \<Rightarrow> metricValueChanged rnd previous v) \<or> at0 changed k \<le> 0
          then gm_put k cursorTs changed else changed))
       incoming"

definition onlyKeysOf :: "('k, 'a) gomap \<Rightarrow> ('k, 'b) gomap \<Rightarrow> ('k, 'b) gomap" where
  "onlyKeysOf m = filter (\<lambda>(k, v). gm_get m k \<noteq> None)"

definition mergeSnapshot :: "projection_env \<Rightarrow> int \<Rightarrow> LiveSnapshot option \<Rightarrow> TelemetryEnvelope \<Rightarrow> int \<Rightarrow> LiveSnapshot" where
  "mergeSnapshot pe nowUnixMs existing env seq0 =
     (let cursorTs = (if IngestedTimeUnixMs env \<le> 0 then nowUnixMs else IngestedTimeUnixMs env);
          old = (case existing of None \<Rightarrow> ([], [], []) | Some x \<Rightarrow> mergeOld x);
          (metrics, observed, changed) = mergeNew (peRound pe) cursorTs (ExtractNumericMetrics (peParse pe) (EnvPayload env)) old;
          seq = (if seq0 < 0 then 0 else seq0);
          deviceID = TrimSpace (DeviceId env);
          ecoflowSN = ToUpper (TrimSpace (EcoflowSn env))
      in \<lparr>lsDeviceID = (case existing of Some x \<Rightarrow> if deviceID = [] then lsDeviceID x else deviceID | None \<Rightarrow> deviceID),
          lsEcoflowSN = (case existing of Some x \<Rightarrow> if ecoflowSN = [] then lsEcoflowSN x else ecoflowSN | None \<Rightarrow> ecoflowSN),
          lsCursorSeq = word_of_int seq, lsCursorTsUnixMs = cursorTs, lsUpdatedAtUnixMs = nowUnixMs,
          lsEnvelopeID = TrimSpace (EnvelopeId env), lsMessageID = TrimSpace (MessageId env), lsTypeCode = TrimSpace (TypeCode env),
          lsShard = Shard env, lsShardCount = ShardCount env, lsSourceKind = SourceKind env,
          lsMetrics = metrics, lsMetricObservedAtUnixMs = onlyKeysOf metrics observed, lsMetricChangedAtUnixMs = onlyKeysOf metrics changed\<rparr>)"

text \<open>A number that is not finite has no JSON text.\<close>

definition marshalSnapshot :: "LiveSnapshot \<Rightarrow> string option" where
  "marshalSnapshot s =
     (case find (\<lambda>(k, v). case v of Finite _ \<Rightarrow> False | _ \<Rightarrow> True) (lsMetrics s) of
        None \<Rightarrow> None
      | Some _ \<Rightarrow> Some ''json: unsupported value'')"

definition incrSeq :: "string \<Rightarrow> snapshot_db \<Rightarrow> snapshot_db" where
  "incrSeq seqKey db = db\<lparr>sdSeq := gm_put seqKey (at0 (sdSeq db) seqKey + 1) (sdSeq db)\<rparr>"

text \<open>The three calls of the server that an application makes, and their composition.\<close>

definition loadSnapshot :: "projection_env \<Rightarrow> valkey_calls \<Rightarrow> TelemetryEnvelope \<Rightarrow> snapshot_db \<Rightarrow> string + string \<times> string \<times> LiveSnapshot option" where
  "loadSnapshot pe vc env db =
     (case keysForIdentity (peKeyPrefix pe) (DeviceId env) (EcoflowSn env) of
        Inl e \<Rightarrow> Inl e
      | Inr (seqKey, snapKey) \<Rightarrow>
          (case getBySnapshotKey vc snapKey db of Inl e \<Rightarrow> Inl e | Inr existing \<Rightarrow> Inr (seqKey, snapKey, existing)))"

definition nextSeq :: "valkey_calls \<Rightarrow> string \<Rightarrow> snapshot_db \<Rightarrow> snapshot_db \<times> (string + int)" where
  "nextSeq vc seqKey db =
     (case callEffect (vcIncr vc seqKey) (incrSeq seqKey) db of
        (db', Some e) \<Rightarrow> (db', Inl (''increment snapshot cursor sequence: '' @ e))
      | (db', None) \<Rightarrow> (db', Inr (at0 (sdSeq db') seqKey)))"

definition storeSnapshot :: "valkey_calls \<Rightarrow> string \<Rightarrow> LiveSnapshot \<Rightarrow> snapshot_db \<Rightarrow> snapshot_db \<times> (string + LiveSnapshot)" where
  "storeSnapshot vc snapKey snapshot db =
     (case marshalSnapshot snapshot of
        Some e \<Rightarrow> (db, Inl (''marshal live snapshot: '' @ e))
      | None \<Rightarrow>
          (case callEffect (vcSet vc snapKey) (sdSnapshots_update (gm_put snapKey snapshot)) db of
             (db', Some e) \<Rightarrow> (db', Inl (''persist live snapshot: '' @ e))
           | (db', None) \<Rightarrow> (db', Inr snapshot)))"

definition ApplyEnvelope :: "projection_env \<Rightarrow> valkey_calls \<Rightarrow> int \<Rightarrow> TelemetryEnvelope \<Rightarrow> snapshot_db \<Rightarrow> snapshot_db \<times> (string + LiveSnapshot)" where
  "ApplyEnvelope pe vc now env db =
     (case loadSnapshot pe vc env db of
        Inl e \<Rightarrow> (db, Inl e)
      | Inr (seqKey, snapKey, existing) \<Rightarrow>
          if (case existing of None \<Rightarrow> False | Some x \<Rightarrow> keepsExisting x env) then (db, Inr (the existing))
          else (case nextSeq vc seqKey db of
                  (db1, Inl e) \<Rightarrow> (db1, Inl e)
                | (db1, Inr seq) \<Rightarrow> storeSnapshot vc snapKey (mergeSnapshot pe (UnixMilli now) existing env seq) db1))"

section \<open>The worker\<close>

definition handleMessage ::
    "projection_env \<Rightarrow> (byte list \<Rightarrow> string + TelemetryEnvelope) \<Rightarrow> valkey_calls \<Rightarrow> int \<Rightarrow> byte list \<Rightarrow> snapshot_db \<Rightarrow> snapshot_db \<times> delivery_action" where
  "handleMessage pe unmarshal vc now data db =
     (case unmarshal data of
        Inl e \<Rightarrow> (db, Term)
      | Inr env \<Rightarrow>
          (case ApplyEnvelope pe vc now env db of
             (db', Inl e) \<Rightarrow> (db', Nak)
           | (db', Inr snapshot) \<Rightarrow> (db', Ack)))"

text \<open>Messages one after the other, each with the answers of the server and the time at which it is handled.\<close>

fun projectionRun ::
    "projection_env \<Rightarrow> (byte list \<Rightarrow> string + TelemetryEnvelope) \<Rightarrow> (valkey_calls \<times> int \<times> byte list) list \<Rightarrow> snapshot_db \<Rightarrow> snapshot_db" where
  "projectionRun pe unmarshal [] db = db"
| "projectionRun pe unmarshal ((vc, now, data) # msgs) db = projectionRun pe unmarshal msgs (fst (handleMessage pe unmarshal vc now data db))"

section \<open>The read model\<close>

definition isVolatileMetricKey :: "string \<Rightarrow> bool" where
  "isVolatileMetricKey key \<longleftrightarrow>
     (let clean = ToLower (TrimSpace key)
      in clean \<noteq> [] \<and>
         (clean \<in> {''pvw'', ''acw'', ''dcw'', ''loadw'', ''batteryw'', ''tempc'', ''temp'', ''temperature''} \<or> Contains clean ''remaintime'' \<or>
          Contains clean ''watt'' \<or> Contains clean ''pwr'' \<or> Contains clean ''mppt'' \<or>
          Contains clean ''.pv'' \<and> (Contains clean ''invol'' \<or> Contains clean ''inamp'' \<or> Contains clean ''inwatt'' \<or>
            Contains clean ''chargewatt'' \<or> Contains clean ''chgstate'') \<or>
          HasSuffix clean ''.invol'' \<or> HasSuffix clean ''.inamp'' \<or> HasSuffix clean ''.chgstate'' \<or> HasSuffix clean ''.dcoutstate'' \<or>
          HasSuffix clean ''.cfgacenabled'' \<or>
          Contains clean ''.out'' \<and> (Contains clean ''vol'' \<or> Contains clean ''amp'' \<or> Contains clean ''state'') \<or>
          HasSuffix clean ''.batvol'' \<or> HasSuffix clean ''.batamp''))"

definition observedAtOf :: "LiveSnapshot \<Rightarrow> string \<Rightarrow> int" where
  "observedAtOf s k = (let observedAt = at0 (lsMetricObservedAtUnixMs s) k in if observedAt \<le> 0 then lsCursorTsUnixMs s else observedAt)"

definition changedAtOf :: "LiveSnapshot \<Rightarrow> string \<Rightarrow> int" where
  "changedAtOf s k = (let changedAt = at0 (lsMetricChangedAtUnixMs s) k in if changedAt \<le> 0 then observedAtOf s k else changedAt)"

record metricFreshnessContext =
  fcCurrentTelemetryFlatlined :: bool
  fcCurrentTelemetryIdleStale :: bool

definition buildMetricFreshnessContext :: "(real \<Rightarrow> float64) \<Rightarrow> LiveSnapshot \<Rightarrow> int \<Rightarrow> metricFreshnessContext" where
  "buildMetricFreshnessContext rnd s flatlineWindow =
     (if flatlineWindow \<le> 0 then \<lparr>fcCurrentTelemetryFlatlined = False, fcCurrentTelemetryIdleStale = False\<rparr>
      else
        (let keys = filter IsCurrentMetricKey (map fst (lsMetrics s));
             newestObservedAt = fold max (map (observedAtOf s) keys) 0;
             newestChangedAt = fold max (map (changedAtOf s) keys) 0
         in \<lparr>fcCurrentTelemetryFlatlined = (0 < newestObservedAt \<and> 0 < newestChangedAt \<and>
               wrap64 (newestObservedAt - newestChangedAt) > Milliseconds flatlineWindow),
             fcCurrentTelemetryIdleStale = IdleStale rnd (lsMetrics s)\<rparr>))"

definition metricExpired :: "string \<Rightarrow> int \<Rightarrow> int \<Rightarrow> int \<Rightarrow> int \<Rightarrow> metricFreshnessContext \<Rightarrow> bool" where
  "metricExpired key observedAtUnixMs changedAtUnixMs nowUnixMs freshnessWindow freshness \<longleftrightarrow>
     (if freshnessWindow \<le> 0 \<or> \<not> isVolatileMetricKey key \<or> observedAtUnixMs \<le> 0 \<or> nowUnixMs \<le> 0 then False
      else if wrap64 (nowUnixMs - observedAtUnixMs) > Milliseconds freshnessWindow then True
      else if \<not> IsCurrentMetricKey key then False
      else fcCurrentTelemetryFlatlined freshness \<and> 0 < changedAtUnixMs \<or> fcCurrentTelemetryIdleStale freshness)"

record SnapshotReadModel =
  smDeviceID :: string
  smEcoflowSN :: string
  smCursorSeq :: "64 word"
  smCursorTsUnixMs :: int
  smMetrics :: "(string, float64) gomap"
  smMetricObservedAtUnixMs :: "(string, int) gomap"
  smMetricChangedAtUnixMs :: "(string, int) gomap"

definition toSnapshotReadModel :: "(real \<Rightarrow> float64) \<Rightarrow> LiveSnapshot \<Rightarrow> int \<Rightarrow> int \<Rightarrow> int \<Rightarrow> SnapshotReadModel" where
  "toSnapshotReadModel rnd s nowUnixMs freshnessWindow flatlineWindow =
     (let freshness = buildMetricFreshnessContext rnd s flatlineWindow;
          live = filter (\<lambda>(k, v). \<not> metricExpired k (observedAtOf s k) (changedAtOf s k) nowUnixMs freshnessWindow freshness) (lsMetrics s)
      in \<lparr>smDeviceID = lsDeviceID s, smEcoflowSN = lsEcoflowSN s, smCursorSeq = lsCursorSeq s, smCursorTsUnixMs = lsCursorTsUnixMs s,
          smMetrics = live,
          smMetricObservedAtUnixMs = filter (\<lambda>(k, t). 0 < t) (map (\<lambda>(k, v). (k, observedAtOf s k)) live),
          smMetricChangedAtUnixMs = filter (\<lambda>(k, t). 0 < t) (map (\<lambda>(k, v). (k, changedAtOf s k)) live)\<rparr>)"

definition ReadSnapshot ::
    "projection_env \<Rightarrow> int \<Rightarrow> int \<Rightarrow> valkey_calls \<Rightarrow> int \<Rightarrow> string \<Rightarrow> string \<Rightarrow> snapshot_db \<Rightarrow>
       string + SnapshotReadModel option" where
  "ReadSnapshot pe freshnessWindow flatlineWindow vc now deviceID ecoflowSN db =
     (case GetSnapshot pe vc (TrimSpace deviceID) (ToUpper (TrimSpace ecoflowSN)) db of
        Inl e \<Rightarrow> Inl e
      | Inr snapshot \<Rightarrow> Inr (map_option (\<lambda>s. toSnapshotReadModel (peRound pe) s (UnixMilli now) freshnessWindow flatlineWindow) snapshot))"

end
