(* ===== verification/Projection_Runs.thy ===== *)
theory Projection_Runs
  imports Projection_Model
begin

text \<open>
  What holds in every sequence of messages that the projection handles one after the other: how an
  application changes the store, that the cursor of a snapshot only moves forward, and where it
  stands after messages that were all applied.
\<close>

section \<open>Keys\<close>

definition snapKeyOf :: "projection_env \<Rightarrow> TelemetryEnvelope \<Rightarrow> string option" where
  "snapKeyOf pe env = (case keysForIdentity (peKeyPrefix pe) (DeviceId env) (EcoflowSn env) of Inl _ \<Rightarrow> None | Inr (_, k) \<Rightarrow> Some k)"

definition seqKeyFor :: "string \<Rightarrow> string" where
  "seqKeyFor snapKey = take (length snapKey - length '':snapshot'') snapKey @ '':seq''"

lemma seqKeyFor_base: "seqKeyFor (base @ '':snapshot'') = base @ '':seq''"
  by (simp add: seqKeyFor_def)

lemma keysForIdentity_seq: "keysForIdentity p did sn = Inr (seqKey, snapKey) \<Longrightarrow> seqKey = seqKeyFor snapKey"
proof -
  assume "keysForIdentity p did sn = Inr (seqKey, snapKey)"
  then obtain base where "snapKey = base @ '':snapshot''" "seqKey = base @ '':seq''"
    by (auto simp: keysForIdentity_def Let_def simp del: append_assoc append.simps split: sum.splits)
  then show ?thesis by (simp add: seqKeyFor_base)
qed

lemma snapKey_suffix: "snapKeyOf pe env = Some k \<Longrightarrow> suffix '':snapshot'' k"
  by (auto simp: snapKeyOf_def keysForIdentity_def Let_def suffix_def split: sum.splits)

lemma seqKeyFor_inj: "suffix '':snapshot'' k \<Longrightarrow> suffix '':snapshot'' k' \<Longrightarrow> seqKeyFor k = seqKeyFor k' \<longleftrightarrow> k = k'"
  by (auto simp: seqKeyFor_def suffix_def)

lemma keysForIdentity_normalized:
  "keysForIdentity p (TrimSpace did) (ToUpper (TrimSpace sn)) = keysForIdentity p did sn"
  by (simp add: keysForIdentity_def snapshotTag_def Let_def)

section \<open>One application\<close>

lemma onlyKeysOf_get: "gm_wf m' \<Longrightarrow> gm_get (onlyKeysOf m m') k = (if gm_get m k = None then None else gm_get m' k)"
proof -
  assume wf: "gm_wf m'"
  then have "gm_wf (onlyKeysOf m m')" by (auto simp: gm_wf_def onlyKeysOf_def distinct_map_filter)
  from gm_mem_iff [OF this, of k] gm_mem_iff [OF wf, of k] show ?thesis
    by (cases "gm_get (onlyKeysOf m m') k"; cases "gm_get m' k") (fastforce simp: onlyKeysOf_def)+
qed

lemma mergeSnapshot_cursor:
  "lsCursorTsUnixMs (mergeSnapshot pe now existing env seq) = (if IngestedTimeUnixMs env \<le> 0 then now else IngestedTimeUnixMs env)"
  "lsCursorSeq (mergeSnapshot pe now existing env seq) = word_of_int (if seq < 0 then 0 else seq)"
  "lsEnvelopeID (mergeSnapshot pe now existing env seq) = TrimSpace (EnvelopeId env)"
  by (simp_all add: mergeSnapshot_def Let_def split: prod.splits)

text \<open>An application leaves the snapshots alone, or replaces the one of its key by the merged snapshot with the next number.\<close>

lemma apply_cases:
  assumes "ApplyEnvelope pe vc now env db = (db', r)"
  obtains (same) "sdSnapshots db' = sdSnapshots db" "sdSeq db' = sdSeq db \<or> (\<exists>k. snapKeyOf pe env = Some k \<and> db' = incrSeq (seqKeyFor k) db)"
  | (put) k where "snapKeyOf pe env = Some k"
      "db' = (incrSeq (seqKeyFor k) db)\<lparr>sdSnapshots := gm_put k (mergeSnapshot pe (UnixMilli now) (gm_get (sdSnapshots db) k) env (at0 (sdSeq db) (seqKeyFor k) + 1)) (sdSnapshots db)\<rparr>"
      "\<And>x. gm_get (sdSnapshots db) k = Some x \<Longrightarrow> \<not> keepsExisting x env"
proof (cases "loadSnapshot pe vc env db")
  case (Inl e)
  with assms show ?thesis by (intro same) (auto simp: ApplyEnvelope_def)
next
  case (Inr t)
  obtain seqKey k ex where t: "t = (seqKey, k, ex)" by (cases t) auto
  have k: "snapKeyOf pe env = Some k" "seqKey = seqKeyFor k" "ex = gm_get (sdSnapshots db) k"
    using Inr t keysForIdentity_seq [of "peKeyPrefix pe" "DeviceId env" "EcoflowSn env" seqKey k]
    by (auto simp: loadSnapshot_def snapKeyOf_def getBySnapshotKey_def split: sum.splits option.splits)
  show ?thesis
  proof (cases "\<exists>x. ex = Some x \<and> keepsExisting x env")
    case True
    with assms Inr t show ?thesis by (intro same) (auto simp: ApplyEnvelope_def)
  next
    case False
    obtain db1 n where seq: "nextSeq vc seqKey db = (db1, n)" by fastforce
    have run: "ApplyEnvelope pe vc now env db = (case n of Inl e \<Rightarrow> (db1, Inl e)
        | Inr q \<Rightarrow> storeSnapshot vc k (mergeSnapshot pe (UnixMilli now) ex env q) db1)"
      using Inr t False seq by (auto simp: ApplyEnvelope_def split: option.splits sum.splits)
    have db1: "db1 = db \<or> db1 = incrSeq seqKey db" "\<And>q. n = Inr q \<Longrightarrow> db1 = incrSeq seqKey db \<and> q = at0 (sdSeq db) seqKey + 1"
      using seq by (auto simp: nextSeq_def callEffect_None incrSeq_def at0_def split: prod.splits option.splits dest!: callEffect_cases)
    show ?thesis
    proof (cases n)
      case (Inl e)
      with run assms db1(1) k show ?thesis by (intro same) (auto simp: incrSeq_def)
    next
      case q: (Inr q)
      let ?s = "mergeSnapshot pe (UnixMilli now) ex env q"
      have "db' = db1 \<or> db' = db1\<lparr>sdSnapshots := gm_put k ?s (sdSnapshots db1)\<rparr>"
        using run assms q by (auto simp: storeSnapshot_def split: option.splits prod.splits dest!: callEffect_cases)
      then show ?thesis
      proof
        assume "db' = db1"
        with db1(1) k show ?thesis by (intro same) (auto simp: incrSeq_def)
      next
        assume "db' = db1\<lparr>sdSnapshots := gm_put k ?s (sdSnapshots db1)\<rparr>"
        then show ?thesis using k False db1(2) [OF q] by (intro put [OF k(1)]) (auto simp: incrSeq_def)
      qed
    qed
  qed
qed

lemma at0_incr: "at0 (sdSeq (incrSeq s db)) s' = at0 (sdSeq db) s' + (if s' = s then 1 else 0)"
  by (simp add: incrSeq_def at0_def)

section \<open>The cursor moves forward\<close>

text \<open>The number of a snapshot is one its counter has given out, and counters stay below \<open>limit\<close>.\<close>

definition seq_ok :: "int \<Rightarrow> snapshot_db \<Rightarrow> bool" where
  "seq_ok limit db \<longleftrightarrow>
     (\<forall>s. 0 \<le> at0 (sdSeq db) s \<and> at0 (sdSeq db) s \<le> limit) \<and>
     (\<forall>k x. gm_get (sdSnapshots db) k = Some x \<longrightarrow> suffix '':snapshot'' k \<and> uint (lsCursorSeq x) \<le> at0 (sdSeq db) (seqKeyFor k))"

definition moves_on :: "bool \<Rightarrow> LiveSnapshot \<Rightarrow> LiveSnapshot \<Rightarrow> bool" where
  "moves_on stamped x y \<longleftrightarrow> y = x \<or> lsCursorSeq x < lsCursorSeq y \<and> (stamped \<longrightarrow> lsCursorTsUnixMs x \<le> lsCursorTsUnixMs y)"

lemma moves_on_trans: "moves_on b x y \<Longrightarrow> moves_on b y z \<Longrightarrow> moves_on b x z"
  by (auto simp: moves_on_def)

lemma uint_counter: "0 \<le> q \<Longrightarrow> q < 2 ^ 64 \<Longrightarrow> uint (word_of_int q :: 64 word) = q"
  by (simp add: uint_word_of_int)

lemma apply_moves:
  assumes "ApplyEnvelope pe vc now env db = (db', r)" "seq_ok limit db" "limit < 2 ^ 63"
  shows "seq_ok (limit + 1) db'"
    "gm_get (sdSnapshots db) k = Some x \<Longrightarrow> (b \<longrightarrow> snapKeyOf pe env = Some k \<longrightarrow> 0 < IngestedTimeUnixMs env) \<Longrightarrow>
       \<exists>y. gm_get (sdSnapshots db') k = Some y \<and> moves_on b x y"
proof -
  have "seq_ok (limit + 1) db' \<and> (gm_get (sdSnapshots db) k = Some x \<longrightarrow> (b \<longrightarrow> snapKeyOf pe env = Some k \<longrightarrow> 0 < IngestedTimeUnixMs env) \<longrightarrow>
       (\<exists>y. gm_get (sdSnapshots db') k = Some y \<and> moves_on b x y))"
    using assms(1)
  proof (cases rule: apply_cases)
    case same
    have "at0 (sdSeq db) s \<le> at0 (sdSeq db') s \<and> at0 (sdSeq db') s \<le> at0 (sdSeq db) s + 1" for s
      using same(2) by (auto simp: at0_incr)
    then show ?thesis using assms(2) same(1) unfolding seq_ok_def moves_on_def by (smt (verit, best))
  next
    case (put k0)
    let ?q = "at0 (sdSeq db) (seqKeyFor k0) + 1"
    let ?s = "mergeSnapshot pe (UnixMilli now) (gm_get (sdSnapshots db) k0) env ?q"
    have "0 \<le> at0 (sdSeq db) (seqKeyFor k0)" "at0 (sdSeq db) (seqKeyFor k0) \<le> limit" using assms(2) unfolding seq_ok_def by blast+
    then have q: "0 \<le> ?q" "?q < 2 ^ 64" using assms(3) by simp_all
    have seq: "uint (lsCursorSeq ?s) = ?q" using uint_counter [OF q] q(1) by (simp only: mergeSnapshot_cursor not_less [symmetric] if_False)
    have sd: "at0 (sdSeq db') s = at0 (sdSeq db) s + (if s = seqKeyFor k0 then 1 else 0)" for s using put(2) by (simp add: at0_incr)
    have get: "gm_get (sdSnapshots db') j = (if j = k0 then Some ?s else gm_get (sdSnapshots db) j)" for j using put(2) by simp
    have "0 \<le> at0 (sdSeq db') s \<and> at0 (sdSeq db') s \<le> limit + 1" for s
      using assms(2) [unfolded seq_ok_def, THEN conjunct1, rule_format, of s] by (cases "s = seqKeyFor k0") (simp_all add: sd)
    moreover have "suffix '':snapshot'' j \<and> uint (lsCursorSeq y) \<le> at0 (sdSeq db') (seqKeyFor j)" if "gm_get (sdSnapshots db') j = Some y" for j y
    proof (cases "j = k0")
      case True
      with that seq snapKey_suffix [OF put(1)] show ?thesis by (simp add: sd get)
    next
      case False
      with that assms(2) [unfolded seq_ok_def, THEN conjunct2, rule_format, of j y] show ?thesis
        by (cases "seqKeyFor j = seqKeyFor k0") (simp_all add: sd get)
    qed
    ultimately have "seq_ok (limit + 1) db'" by (auto simp: seq_ok_def)
    moreover have "moves_on b x ?s" if "gm_get (sdSnapshots db) k0 = Some x" "b \<longrightarrow> 0 < IngestedTimeUnixMs env"
    proof -
      have "uint (lsCursorSeq x) \<le> at0 (sdSeq db) (seqKeyFor k0)" using assms(2) that(1) by (simp add: seq_ok_def)
      then have "lsCursorSeq x < lsCursorSeq ?s" using seq by (simp add: word_less_def)
      then show ?thesis using put(3) [OF that(1)] that(2) by (auto simp: moves_on_def keepsExisting_def mergeSnapshot_cursor)
    qed
    ultimately show ?thesis using put(1) get by (auto simp: moves_on_def)
  qed
  then show "seq_ok (limit + 1) db'"
    "gm_get (sdSnapshots db) k = Some x \<Longrightarrow> (b \<longrightarrow> snapKeyOf pe env = Some k \<longrightarrow> 0 < IngestedTimeUnixMs env) \<Longrightarrow>
       \<exists>y. gm_get (sdSnapshots db') k = Some y \<and> moves_on b x y" by blast+
qed

text \<open>The envelopes of a sequence of messages.\<close>

definition envelopesOf :: "(byte list \<Rightarrow> string + TelemetryEnvelope) \<Rightarrow> (valkey_calls \<times> int \<times> byte list) list \<Rightarrow> TelemetryEnvelope list" where
  "envelopesOf unmarshal msgs = concat (map (\<lambda>(vc, now, data). case unmarshal data of Inl _ \<Rightarrow> [] | Inr env \<Rightarrow> [env]) msgs)"

lemma envelopesOf_simps [simp]:
  "envelopesOf un [] = []" "envelopesOf un (xs @ ys) = envelopesOf un xs @ envelopesOf un ys"
  "envelopesOf un ((vc, now, data) # msgs) = (case un data of Inl _ \<Rightarrow> [] | Inr env \<Rightarrow> [env]) @ envelopesOf un msgs"
  by (simp_all add: envelopesOf_def)

definition emptySnapshots :: snapshot_db where "emptySnapshots = \<lparr>sdSeq = [], sdSnapshots = []\<rparr>"

lemma seq_ok_empty: "seq_ok 0 emptySnapshots"
  by (simp add: seq_ok_def emptySnapshots_def at0_def)

lemma handle_fst: "fst (handleMessage pe un vc now data db) = (case un data of Inl _ \<Rightarrow> db | Inr env \<Rightarrow> fst (ApplyEnvelope pe vc now env db))"
  by (simp add: handleMessage_def split: sum.splits prod.splits)

lemma projectionRun_append: "projectionRun pe un (xs @ ys) db = projectionRun pe un ys (projectionRun pe un xs db)"
  by (induction xs arbitrary: db) auto

lemma seq_ok_mono: "seq_ok l db \<Longrightarrow> l \<le> l' \<Longrightarrow> seq_ok l' db"
  unfolding seq_ok_def by (meson order_trans)

lemma run_moves:
  assumes "seq_ok limit db" "limit + int (length msgs) \<le> 2 ^ 63"
  shows "seq_ok (limit + int (length msgs)) (projectionRun pe un msgs db) \<and>
    (\<forall>x. gm_get (sdSnapshots db) k = Some x \<longrightarrow> (b \<longrightarrow> (\<forall>env \<in> set (envelopesOf un msgs). snapKeyOf pe env = Some k \<longrightarrow> 0 < IngestedTimeUnixMs env)) \<longrightarrow>
       (\<exists>y. gm_get (sdSnapshots (projectionRun pe un msgs db)) k = Some y \<and> moves_on b x y))"
  using assms
proof (induction msgs arbitrary: limit db)
  case Nil
  then show ?case by (auto simp: moves_on_def)
next
  case (Cons m msgs)
  obtain vc now data where m: "m = (vc, now, data)" by (cases m) auto
  define db1 where "db1 = fst (handleMessage pe un vc now data db)"
  have first: "seq_ok (limit + 1) db1 \<and> (\<forall>x. gm_get (sdSnapshots db) k = Some x \<longrightarrow>
      (b \<longrightarrow> (\<forall>env. un data = Inr env \<longrightarrow> snapKeyOf pe env = Some k \<longrightarrow> 0 < IngestedTimeUnixMs env)) \<longrightarrow>
      (\<exists>y. gm_get (sdSnapshots db1) k = Some y \<and> moves_on b x y))"
  proof (cases "un data")
    case (Inl e)
    then show ?thesis using Cons.prems(1) by (auto simp: db1_def handle_fst moves_on_def intro: seq_ok_mono)
  next
    case (Inr env)
    have run: "ApplyEnvelope pe vc now env db = (db1, snd (ApplyEnvelope pe vc now env db))" by (simp add: db1_def handle_fst Inr)
    have "limit < 2 ^ 63" using Cons.prems(2) by simp
    from apply_moves [OF run Cons.prems(1) this] show ?thesis using Inr by blast
  qed
  have "limit + 1 + int (length msgs) \<le> 2 ^ 63" using Cons.prems(2) by simp
  note rest = Cons.IH [OF conjunct1 [OF first] this]
  have "projectionRun pe un (m # msgs) db = projectionRun pe un msgs db1" by (simp add: m db1_def)
  moreover have "limit + 1 + int (length msgs) = limit + int (length (m # msgs))" by simp
  moreover have "\<exists>z. gm_get (sdSnapshots (projectionRun pe un msgs db1)) k = Some z \<and> moves_on b x z"
    if x: "gm_get (sdSnapshots db) k = Some x"
      and stamps: "b \<longrightarrow> (\<forall>env \<in> set (envelopesOf un (m # msgs)). snapKeyOf pe env = Some k \<longrightarrow> 0 < IngestedTimeUnixMs env)" for x
  proof -
    have "\<exists>y. gm_get (sdSnapshots db1) k = Some y \<and> moves_on b x y" using first x stamps by (auto simp: m)
    moreover have "b \<longrightarrow> (\<forall>env \<in> set (envelopesOf un msgs). snapKeyOf pe env = Some k \<longrightarrow> 0 < IngestedTimeUnixMs env)" using stamps by (auto simp: m)
    ultimately show ?thesis using rest moves_on_trans by blast
  qed
  ultimately show ?case using rest by metis
qed

section \<open>Where the cursor stands\<close>

definition provenance :: "projection_env \<Rightarrow> TelemetryEnvelope set \<Rightarrow> snapshot_db \<Rightarrow> bool" where
  "provenance pe envs db \<longleftrightarrow> (\<forall>k x. gm_get (sdSnapshots db) k = Some x \<longrightarrow>
     (\<exists>env \<in> envs. snapKeyOf pe env = Some k \<and> lsEnvelopeID x = TrimSpace (EnvelopeId env) \<and> lsCursorTsUnixMs x = IngestedTimeUnixMs env))"

lemma apply_provenance:
  assumes "ApplyEnvelope pe vc now env db = (db', r)" "provenance pe envs db" "0 < IngestedTimeUnixMs env"
  shows "provenance pe (insert env envs) db'"
  using assms(1)
proof (cases rule: apply_cases)
  case same
  then show ?thesis using assms(2) by (auto simp: provenance_def)
next
  case (put k)
  then show ?thesis using assms(2,3) by (auto simp: provenance_def mergeSnapshot_cursor incrSeq_def)
qed

lemma provenance_mono: "provenance pe envs db \<Longrightarrow> envs \<subseteq> envs' \<Longrightarrow> provenance pe envs' db"
  unfolding provenance_def by (meson subsetD)

lemma run_provenance:
  "provenance pe envs db \<Longrightarrow> (\<forall>env \<in> set (envelopesOf un msgs). 0 < IngestedTimeUnixMs env) \<Longrightarrow>
     provenance pe (envs \<union> set (envelopesOf un msgs)) (projectionRun pe un msgs db)"
proof (induction msgs arbitrary: db envs)
  case (Cons m msgs)
  obtain vc now data where m: "m = (vc, now, data)" by (cases m) auto
  show ?case
  proof (cases "un data")
    case (Inl e)
    then show ?thesis using Cons by (simp add: m handle_fst)
  next
    case (Inr env)
    have "provenance pe (insert env envs) (fst (ApplyEnvelope pe vc now env db))"
      by (rule apply_provenance [OF _ Cons.prems(1)]) (use Inr Cons.prems(2) in \<open>auto simp: m prod_eq_iff\<close>)
    from Cons.IH [OF this] Cons.prems(2) Inr show ?thesis by (simp add: m handle_fst)
  qed
qed simp

text \<open>Envelopes that share an identifier are copies of one envelope and carry its time.\<close>

definition ids_agree :: "TelemetryEnvelope set \<Rightarrow> bool" where
  "ids_agree envs \<longleftrightarrow> (\<forall>e \<in> envs. \<forall>e' \<in> envs. EnvelopeId e' \<noteq> [] \<longrightarrow> EqualFold (TrimSpace (EnvelopeId e)) (EnvelopeId e') \<longrightarrow>
     IngestedTimeUnixMs e = IngestedTimeUnixMs e')"

lemma apply_answered:
  assumes "ApplyEnvelope pe vc now env db = (db', Inr s)"
  obtains k where "snapKeyOf pe env = Some k" "gm_get (sdSnapshots db') k = Some s"
    "db' = db \<and> keepsExisting s env \<or>
     vcIncr vc (seqKeyFor k) = Done \<and> s = mergeSnapshot pe (UnixMilli now) (gm_get (sdSnapshots db) k) env (at0 (sdSeq db) (seqKeyFor k) + 1)"
proof -
  obtain seqKey k ex where load: "loadSnapshot pe vc env db = Inr (seqKey, k, ex)"
    using assms by (auto simp: ApplyEnvelope_def split: sum.splits)
  have k: "snapKeyOf pe env = Some k" "seqKey = seqKeyFor k" "ex = gm_get (sdSnapshots db) k"
    using load keysForIdentity_seq [of "peKeyPrefix pe" "DeviceId env" "EcoflowSn env" seqKey k]
    by (auto simp: loadSnapshot_def snapKeyOf_def getBySnapshotKey_def split: sum.splits option.splits)
  show thesis
  proof (cases "\<exists>x. ex = Some x \<and> keepsExisting x env")
    case True
    then have "db' = db \<and> ex = Some s \<and> keepsExisting s env" using assms load by (auto simp: ApplyEnvelope_def)
    then show thesis using k by (intro that [of k]) auto
  next
    case False
    then have run: "(case nextSeq vc seqKey db of (db1, Inl e) \<Rightarrow> (db1, Inl e)
        | (db1, Inr seq) \<Rightarrow> storeSnapshot vc k (mergeSnapshot pe (UnixMilli now) ex env seq) db1) = (db', Inr s)"
      using assms load by (auto simp: ApplyEnvelope_def split: option.splits)
    then obtain q where q: "nextSeq vc seqKey db = (incrSeq seqKey db, Inr q)" "vcIncr vc seqKey = Done" "q = at0 (sdSeq db) seqKey + 1"
        "storeSnapshot vc k (mergeSnapshot pe (UnixMilli now) ex env q) (incrSeq seqKey db) = (db', Inr s)"
      by (auto simp: nextSeq_def callEffect_None at0_incr split: prod.splits sum.splits option.splits)
    then have "s = mergeSnapshot pe (UnixMilli now) ex env q \<and> gm_get (sdSnapshots db') k = Some s"
      by (auto simp: storeSnapshot_def callEffect_None split: option.splits prod.splits)
    then show thesis using k q by (intro that [of k]) auto
  qed
qed

lemma answered_cursor:
  assumes "ApplyEnvelope pe vc now env db = (db', Inr s)" "provenance pe envs db" "0 < IngestedTimeUnixMs env" "ids_agree (insert env envs)"
  shows "IngestedTimeUnixMs env \<le> lsCursorTsUnixMs s"
  using assms(1)
proof (rule apply_answered)
  fix k
  assume a: "snapKeyOf pe env = Some k" "gm_get (sdSnapshots db') k = Some s"
    "db' = db \<and> keepsExisting s env \<or> vcIncr vc (seqKeyFor k) = Done \<and> s = mergeSnapshot pe (UnixMilli now) (gm_get (sdSnapshots db) k) env (at0 (sdSeq db) (seqKeyFor k) + 1)"
  show ?thesis
  proof (cases "db' = db \<and> keepsExisting s env")
    case True
    with a(2) assms(2) obtain e where "e \<in> envs" "lsEnvelopeID s = TrimSpace (EnvelopeId e)" "lsCursorTsUnixMs s = IngestedTimeUnixMs e"
      by (auto simp: provenance_def)
    then have "IngestedTimeUnixMs e = IngestedTimeUnixMs env" if "EnvelopeId env \<noteq> []" "EqualFold (lsEnvelopeID s) (EnvelopeId env)"
      using assms(4) [unfolded ids_agree_def, rule_format, of e env] that by simp
    with True \<open>lsCursorTsUnixMs s = IngestedTimeUnixMs e\<close> show ?thesis unfolding keepsExisting_def by linarith
  next
    case False
    with a(3) assms(3) show ?thesis by (auto simp: mergeSnapshot_cursor)
  qed
qed

end
