(* ===== verification/Projection_Steps.thy ===== *)
theory Projection_Steps
  imports Projection_Runs
begin

text \<open>
  Applications that interleave. An application makes up to three calls of the server, which handles
  one call at a time; the calls of different applications, of one worker process or of several, come
  in any order. The sequential \<open>ApplyEnvelope\<close> is three steps in a row of one application.
\<close>

section \<open>The steps of an application\<close>

datatype projection_phase =
    Loading
  | Counting string string "LiveSnapshot option"
  | Storing string LiveSnapshot
  | Finished "string + LiveSnapshot"

fun advance :: "projection_env \<Rightarrow> valkey_calls \<Rightarrow> int \<Rightarrow> TelemetryEnvelope \<Rightarrow> projection_phase \<times> snapshot_db \<Rightarrow> projection_phase \<times> snapshot_db" where
  "advance pe vc now env (Loading, db) =
     (case loadSnapshot pe vc env db of
        Inl e \<Rightarrow> (Finished (Inl e), db)
      | Inr (seqKey, snapKey, existing) \<Rightarrow>
          (if (case existing of None \<Rightarrow> False | Some x \<Rightarrow> keepsExisting x env) then (Finished (Inr (the existing)), db)
           else (Counting seqKey snapKey existing, db)))"
| "advance pe vc now env (Counting seqKey snapKey existing, db) =
     (case nextSeq vc seqKey db of
        (db', Inl e) \<Rightarrow> (Finished (Inl e), db')
      | (db', Inr seq) \<Rightarrow> (Storing snapKey (mergeSnapshot pe (UnixMilli now) existing env seq), db'))"
| "advance pe vc now env (Storing snapKey snapshot, db) =
     (case storeSnapshot vc snapKey snapshot db of (db', r) \<Rightarrow> (Finished r, db'))"
| "advance pe vc now env (Finished r, db) = (Finished r, db)"

lemma advance_ApplyEnvelope:
  "(advance pe vc now env ^^ 3) (Loading, db) = (case ApplyEnvelope pe vc now env db of (db', r) \<Rightarrow> (Finished r, db'))"
proof (cases "loadSnapshot pe vc env db")
  case (Inl e)
  then show ?thesis by (simp add: numeral_3_eq_3 ApplyEnvelope_def)
next
  case (Inr t)
  obtain seqKey k ex where t: "t = (seqKey, k, ex)" by (cases t) auto
  obtain db1 n where n: "nextSeq vc seqKey db = (db1, n)" by fastforce
  show ?thesis
    by (cases "case ex of None \<Rightarrow> False | Some x \<Rightarrow> keepsExisting x env"; cases n)
       (simp_all add: numeral_3_eq_3 ApplyEnvelope_def Inr t n split: prod.splits)
qed

section \<open>The system\<close>

type_synonym projection_state = "snapshot_db \<times> (TelemetryEnvelope \<times> projection_phase) list"

inductive projection_step :: "projection_env \<Rightarrow> projection_state \<Rightarrow> projection_state \<Rightarrow> bool" for pe where
  Deliver: "projection_step pe (db, jobs) (db, jobs @ [(env, Loading)])"
| Proceed: "i < length jobs \<Longrightarrow> jobs ! i = (env, ph) \<Longrightarrow> advance pe vc now env (ph, db) = (ph', db') \<Longrightarrow>
    projection_step pe (db, jobs) (db', jobs[i := (env, ph')])"

inductive_cases projection_stepE: "projection_step pe st st'"

section \<open>Numbers\<close>

text \<open>The keys of an application and the number of a snapshot that waits to be stored.\<close>

fun phase_ok :: "snapshot_db \<Rightarrow> projection_phase \<Rightarrow> bool" where
  "phase_ok db (Counting seqKey k ex) \<longleftrightarrow> seqKey = seqKeyFor k \<and> suffix '':snapshot'' k"
| "phase_ok db (Storing k s) \<longleftrightarrow> suffix '':snapshot'' k \<and> uint (lsCursorSeq s) \<le> at0 (sdSeq db) (seqKeyFor k) \<and>
     (\<forall>x. gm_get (sdSnapshots db) k = Some x \<longrightarrow> lsCursorSeq x \<noteq> lsCursorSeq s)"
| "phase_ok db _ \<longleftrightarrow> True"

fun numbers_apart :: "projection_phase \<Rightarrow> projection_phase \<Rightarrow> bool" where
  "numbers_apart (Storing k s) (Storing k' s') \<longleftrightarrow> k = k' \<longrightarrow> lsCursorSeq s \<noteq> lsCursorSeq s'"
| "numbers_apart _ _ \<longleftrightarrow> True"

lemma numbers_apart_sym: "numbers_apart p q \<Longrightarrow> numbers_apart q p"
  by (cases p; cases q) auto

definition numbers_ok :: "int \<Rightarrow> projection_state \<Rightarrow> bool" where
  "numbers_ok limit st \<longleftrightarrow> seq_ok limit (fst st) \<and>
     (\<forall>i < length (snd st). phase_ok (fst st) (snd (snd st ! i))) \<and>
     (\<forall>i < length (snd st). \<forall>j < length (snd st). i \<noteq> j \<longrightarrow> numbers_apart (snd (snd st ! i)) (snd (snd st ! j)))"

text \<open>What one call does to the store, to the phase of its application and to the phases of the others.\<close>

definition call_ok :: "int \<Rightarrow> projection_phase \<times> snapshot_db \<Rightarrow> projection_phase \<times> snapshot_db \<Rightarrow> bool" where
  "call_ok limit pd pd' \<longleftrightarrow> seq_ok (limit + 1) (snd pd') \<and> phase_ok (snd pd') (fst pd') \<and>
     (\<forall>q. phase_ok (snd pd) q \<longrightarrow> numbers_apart (fst pd) q \<longrightarrow> phase_ok (snd pd') q \<and> numbers_apart (fst pd') q)"

lemma incrSeq_snapshots [simp]: "sdSnapshots (incrSeq s db) = sdSnapshots db"
  by (simp add: incrSeq_def)

lemma loading_ok:
  assumes "seq_ok limit db"
  shows "call_ok limit (Loading, db) (advance pe vc now env (Loading, db))"
proof (cases "loadSnapshot pe vc env db")
  case (Inl e)
  then show ?thesis using seq_ok_mono [OF assms, of "limit + 1"] by (simp add: call_ok_def)
next
  case (Inr t)
  obtain seqKey k ex where t: "t = (seqKey, k, ex)" by (cases t) auto
  then have "keysForIdentity (peKeyPrefix pe) (DeviceId env) (EcoflowSn env) = Inr (seqKey, k)"
    using Inr by (auto simp: loadSnapshot_def split: sum.splits)
  then have "seqKey = seqKeyFor k" "suffix '':snapshot'' k"
    using keysForIdentity_seq snapKey_suffix [of pe env k] by (auto simp: snapKeyOf_def)
  then show ?thesis using Inr t seq_ok_mono [OF assms, of "limit + 1"] by (simp add: call_ok_def)
qed

lemma counting_ok:
  assumes "phase_ok db (Counting seqKey k ex)" "seq_ok limit db" "limit < 2 ^ 63"
  shows "call_ok limit (Counting seqKey k ex, db) (advance pe vc now env (Counting seqKey k ex, db))"
proof -
  have key: "seqKey = seqKeyFor k" "suffix '':snapshot'' k" using assms(1) by simp_all
  obtain db' n where n: "nextSeq vc seqKey db = (db', n)" by fastforce
  have eff: "db' = db \<or> db' = incrSeq seqKey db" using n by (auto simp: nextSeq_def split: prod.splits option.splits dest!: callEffect_cases)
  have snaps: "sdSnapshots db' = sdSnapshots db" "\<And>s. at0 (sdSeq db) s \<le> at0 (sdSeq db') s \<and> at0 (sdSeq db') s \<le> at0 (sdSeq db) s + 1"
    using eff by (auto simp: at0_incr)
  have ok: "seq_ok (limit + 1) db'" using assms(2) snaps unfolding seq_ok_def by (smt (verit, best))
  have others: "phase_ok db' q" if "phase_ok db q" for q
    using that snaps(1) snaps(2) [THEN conjunct1] by (cases q) (auto intro: order_trans)
  show ?thesis
  proof (cases n)
    case (Inl e)
    then show ?thesis using n ok others by (simp add: call_ok_def)
  next
    case (Inr v)
    have db': "db' = incrSeq seqKey db" and v: "v = at0 (sdSeq db) seqKey + 1"
      using n Inr by (auto simp: nextSeq_def callEffect_None at0_incr split: prod.splits option.splits)
    let ?s = "mergeSnapshot pe (UnixMilli now) ex env v"
    have "0 \<le> at0 (sdSeq db) seqKey" "at0 (sdSeq db) seqKey \<le> limit" using assms(2) unfolding seq_ok_def by blast+
    then have b: "0 \<le> v" "v < 2 ^ 64" using assms(3) v by simp_all
    have seq: "uint (lsCursorSeq ?s) = v" using uint_counter [OF b] b(1) by (simp only: mergeSnapshot_cursor not_less [symmetric] if_False)
    have fresh: "lsCursorSeq y \<noteq> lsCursorSeq ?s" if "uint (lsCursorSeq y) \<le> at0 (sdSeq db) seqKey" for y
      using that seq v by auto
    have "phase_ok db' (Storing k ?s)" using key seq v fresh assms(2) by (auto simp: db' at0_incr seq_ok_def)
    moreover have "numbers_apart (Storing k ?s) q" if "phase_ok db q" for q using that fresh key(1) by (cases q) (auto dest: sym)
    ultimately show ?thesis using ok others n Inr by (simp add: call_ok_def)
  qed
qed

lemma storing_ok:
  assumes "phase_ok db (Storing k s)" "seq_ok limit db"
  shows "call_ok limit (Storing k s, db) (advance pe vc now env (Storing k s, db))"
proof -
  obtain db' r where r: "storeSnapshot vc k s db = (db', r)" by fastforce
  have eff: "db' = db \<or> db' = db\<lparr>sdSnapshots := gm_put k s (sdSnapshots db)\<rparr>"
    using r by (auto simp: storeSnapshot_def split: option.splits prod.splits dest!: callEffect_cases)
  have "seq_ok (limit + 1) db'"
    using eff seq_ok_mono [OF assms(2), of "limit + 1"] assms(1) by (auto simp: seq_ok_def split: if_splits)
  moreover have "phase_ok db' q" if "phase_ok db q" "numbers_apart (Storing k s) q" for q
    using that eff by (cases q) (auto split: if_splits)
  ultimately show ?thesis using r by (simp add: call_ok_def)
qed

lemma advance_ok:
  assumes "phase_ok db ph" "seq_ok limit db" "limit < 2 ^ 63"
  shows "call_ok limit (ph, db) (advance pe vc now env (ph, db))"
proof (cases ph)
  case (Finished r)
  then show ?thesis using seq_ok_mono [OF assms(2), of "limit + 1"] by (simp add: call_ok_def)
qed (use assms loading_ok counting_ok storing_ok in auto)

lemma step_numbers:
  assumes "projection_step pe st st'" "numbers_ok limit st" "limit < 2 ^ 63"
  shows "numbers_ok (limit + 1) st'"
  using assms(1)
proof (cases rule: projection_step.cases)
  case (Deliver db jobs env)
  have "phase_ok db Loading" "\<And>q. numbers_apart Loading q \<and> numbers_apart q Loading" using numbers_apart_sym by auto
  then show ?thesis using assms(2) Deliver seq_ok_mono [of limit db "limit + 1"]
    by (auto simp: numbers_ok_def nth_append less_Suc_eq)
next
  case (Proceed i jobs env ph vc now db ph' db')
  have ok: "phase_ok db ph" "seq_ok limit db" using assms(2) Proceed by (auto simp: numbers_ok_def dest!: spec [of _ i])
  have eff: "call_ok limit (ph, db) (ph', db')" using advance_ok [OF ok assms(3), of pe vc now env] Proceed(5) by simp
  have others: "phase_ok db' (snd (jobs ! j)) \<and> numbers_apart ph' (snd (jobs ! j))" if "j < length jobs" "j \<noteq> i" for j
    using eff assms(2) Proceed(1,3,4) that by (force simp: numbers_ok_def call_ok_def)
  then show ?thesis using eff [unfolded call_ok_def] assms(2) Proceed numbers_apart_sym
    by (auto simp: numbers_ok_def nth_list_update)
qed

lemma steps_numbers:
  "(projection_step pe ^^ n) st st' \<Longrightarrow> numbers_ok limit st \<Longrightarrow> limit + int n \<le> 2 ^ 63 \<Longrightarrow> numbers_ok (limit + int n) st'"
proof (induction n arbitrary: st')
  case (Suc n)
  from Suc.prems(1) obtain st1 where "(projection_step pe ^^ n) st st1" "projection_step pe st1 st'" by auto
  with Suc.IH [of st1] Suc.prems(2,3) step_numbers [of pe st1 st' "limit + int n"] show ?case by (simp add: algebra_simps)
qed simp

end
