(* ===== verification/Projection_Read.thy ===== *)
theory Projection_Read
  imports Projection_Steps Gap_Repair
begin

text \<open>
  What a reader of the snapshots gets: the values of the merge that are still fresh, and a cursor that
  has reached every envelope whose message was acknowledged. The detector of gaps relies on the cursor
  through the interface \<open>snapshot_reader\<close>.
\<close>

section \<open>The merge\<close>

lemma fold_project: "(\<And>p acc. \<pi> (f p acc) = g p (\<pi> acc)) \<Longrightarrow> \<pi> (fold f m acc) = fold g m (\<pi> acc)"
  by (induction m arbitrary: acc) auto

lemma gm_get_fold_each:
  "gm_wf m \<Longrightarrow> gm_get (fold (\<lambda>(k, v). gm_put k (h k v)) m a) k = (case gm_get m k of Some v \<Rightarrow> Some (h k v) | None \<Rightarrow> gm_get a k)"
proof (induction m arbitrary: a)
  case (Cons p m)
  obtain j v where p: "p = (j, v)" by (cases p)
  have "gm_get m j = None" "gm_wf m" using Cons.prems p by (simp_all add: gm_wf_def gm_get_def map_of_eq_None_iff)
  then show ?case using Cons.IH [of "gm_put j (h j v) a"] by (auto simp: p gm_get_def [of "(j, v) # m"] simp flip: gm_get_def split: option.splits)
qed simp

lemma mergeOld_get:
  assumes "gm_wf (lsMetrics x)"
  shows "gm_get (fst (mergeOld x)) k = gm_get (lsMetrics x) k"
proof -
  have "fst (mergeOld x) = fold (\<lambda>(k, v). gm_put k v) (lsMetrics x) (fst (([], [], []) :: merged))"
    unfolding mergeOld_def by (rule fold_project) (auto simp: Let_def)
  then show ?thesis using gm_get_fold_each [OF assms, of "\<lambda>_ v. v" "[]" k] by (auto split: option.splits)
qed

lemma mergeNew_get:
  assumes "gm_wf incoming"
  shows "gm_get (fst (mergeNew rnd ts incoming old)) k = (case gm_get incoming k of Some v \<Rightarrow> Some v | None \<Rightarrow> gm_get (fst old) k)"
    "gm_get (fst (snd (mergeNew rnd ts incoming old))) k = (if gm_get incoming k \<noteq> None then Some ts else gm_get (fst (snd old)) k)"
proof -
  have "fst (mergeNew rnd ts incoming old) = fold (\<lambda>(k, v). gm_put k v) incoming (fst old)"
    unfolding mergeNew_def by (rule fold_project) auto
  then show "gm_get (fst (mergeNew rnd ts incoming old)) k = (case gm_get incoming k of Some v \<Rightarrow> Some v | None \<Rightarrow> gm_get (fst old) k)"
    using gm_get_fold_each [OF assms, of "\<lambda>_ v. v" "fst old" k] by simp
  have "(fst \<circ> snd) (mergeNew rnd ts incoming old) = fold (\<lambda>(k, v). gm_put k ts) incoming ((fst \<circ> snd) old)"
    unfolding mergeNew_def by (rule fold_project) auto
  then show "gm_get (fst (snd (mergeNew rnd ts incoming old))) k = (if gm_get incoming k \<noteq> None then Some ts else gm_get (fst (snd old)) k)"
    using gm_get_fold_each [OF assms, of "\<lambda>_ _. ts" "fst (snd old)" k] by (auto split: option.splits)
qed

lemma onlyKeysOf_kept: "gm_get m k \<noteq> None \<Longrightarrow> gm_get (onlyKeysOf m m') k = gm_get m' k"
  by (induction m') (auto simp: onlyKeysOf_def gm_get_def)

text \<open>The value of a metric after an envelope: the one it reports, or else the one from before.\<close>

definition mergedValue :: "projection_env \<Rightarrow> TelemetryEnvelope \<Rightarrow> LiveSnapshot option \<Rightarrow> string \<Rightarrow> float64 option" where
  "mergedValue pe env existing k =
     (case gm_get (ExtractNumericMetrics (peParse pe) (EnvPayload env)) k of
        Some v \<Rightarrow> Some v
      | None \<Rightarrow> (case existing of None \<Rightarrow> None | Some x \<Rightarrow> gm_get (lsMetrics x) k))"

lemma mergeSnapshot_fields:
  obtains old where "lsMetrics (mergeSnapshot pe now existing env seq) =
      fst (mergeNew (peRound pe) (if IngestedTimeUnixMs env \<le> 0 then now else IngestedTimeUnixMs env)
        (ExtractNumericMetrics (peParse pe) (EnvPayload env)) old)"
    "lsMetricObservedAtUnixMs (mergeSnapshot pe now existing env seq) =
      onlyKeysOf (lsMetrics (mergeSnapshot pe now existing env seq))
        (fst (snd (mergeNew (peRound pe) (if IngestedTimeUnixMs env \<le> 0 then now else IngestedTimeUnixMs env)
          (ExtractNumericMetrics (peParse pe) (EnvPayload env)) old)))"
    "old = (case existing of None \<Rightarrow> ([], [], []) | Some x \<Rightarrow> mergeOld x)"
  by (rule that [OF _ _ refl]) (simp_all add: mergeSnapshot_def Let_def case_prod_unfold)

lemma mergeSnapshot_reported:
  assumes "gm_get (ExtractNumericMetrics (peParse pe) (EnvPayload env)) k = Some v"
  shows "gm_get (lsMetrics (mergeSnapshot pe now existing env seq)) k = Some v"
    "0 < IngestedTimeUnixMs env \<Longrightarrow> observedAtOf (mergeSnapshot pe now existing env seq) k = IngestedTimeUnixMs env"
proof -
  obtain old where s: "lsMetrics (mergeSnapshot pe now existing env seq) =
      fst (mergeNew (peRound pe) (if IngestedTimeUnixMs env \<le> 0 then now else IngestedTimeUnixMs env)
        (ExtractNumericMetrics (peParse pe) (EnvPayload env)) old)"
    "lsMetricObservedAtUnixMs (mergeSnapshot pe now existing env seq) =
      onlyKeysOf (lsMetrics (mergeSnapshot pe now existing env seq))
        (fst (snd (mergeNew (peRound pe) (if IngestedTimeUnixMs env \<le> 0 then now else IngestedTimeUnixMs env)
          (ExtractNumericMetrics (peParse pe) (EnvPayload env)) old)))"
    by (rule mergeSnapshot_fields)
  show m: "gm_get (lsMetrics (mergeSnapshot pe now existing env seq)) k = Some v"
    using mergeNew_get(1) [OF ExtractNumericMetrics_wf] assms by (simp add: s(1))
  show "observedAtOf (mergeSnapshot pe now existing env seq) k = IngestedTimeUnixMs env" if "0 < IngestedTimeUnixMs env"
    using mergeNew_get(2) [OF ExtractNumericMetrics_wf] assms m that by (simp add: observedAtOf_def at0_def s(2) onlyKeysOf_kept)
qed

lemma mergeSnapshot_metrics:
  assumes "\<And>x. existing = Some x \<Longrightarrow> gm_wf (lsMetrics x)"
  shows "gm_get (lsMetrics (mergeSnapshot pe now existing env seq)) k = mergedValue pe env existing k"
proof -
  obtain old where s: "lsMetrics (mergeSnapshot pe now existing env seq) =
      fst (mergeNew (peRound pe) (if IngestedTimeUnixMs env \<le> 0 then now else IngestedTimeUnixMs env)
        (ExtractNumericMetrics (peParse pe) (EnvPayload env)) old)"
    and old: "old = (case existing of None \<Rightarrow> ([], [], []) | Some x \<Rightarrow> mergeOld x)"
    by (rule mergeSnapshot_fields)
  have "gm_get (fst old) k = (case existing of None \<Rightarrow> None | Some x \<Rightarrow> gm_get (lsMetrics x) k)"
    using mergeOld_get [OF assms] by (auto simp: old split: option.splits)
  then show ?thesis using mergeNew_get(1) [OF ExtractNumericMetrics_wf] by (simp add: s mergedValue_def split: option.splits)
qed

section \<open>Reading\<close>

lemma current_is_volatile: "IsCurrentMetricKey k \<Longrightarrow> isVolatileMetricKey k"
  unfolding IsCurrentMetricKey_def isVolatileMetricKey_def Let_def by blast

lemma toSnapshotReadModel_get:
  "gm_get (smMetrics (toSnapshotReadModel rnd s now fw flw)) k =
     (if metricExpired k (observedAtOf s k) (changedAtOf s k) now fw (buildMetricFreshnessContext rnd s flw) then None else gm_get (lsMetrics s) k)"
proof -
  have "map_of (filter (\<lambda>(k, v). \<not> P k) m) k = (if P k then None else map_of m k)" for P and m :: "(string, float64) gomap"
    by (induction m) auto
  then show ?thesis by (simp add: toSnapshotReadModel_def Let_def gm_get_def)
qed

lemma ReadSnapshot_get:
  assumes "vcGet vc = (\<lambda>_. None)" "keysForIdentity (peKeyPrefix pe) did sn = Inr (seqKey, k)"
  shows "ReadSnapshot pe fw flw vc now did sn db =
    Inr (map_option (\<lambda>s. toSnapshotReadModel (peRound pe) s (UnixMilli now) fw flw) (gm_get (sdSnapshots db) k))"
  using assms by (simp add: ReadSnapshot_def GetSnapshot_def keysForIdentity_normalized getBySnapshotKey_def)

text \<open>What the detector reads of a snapshot.\<close>

definition cursorReader ::
    "projection_env \<Rightarrow> int \<Rightarrow> int \<Rightarrow> valkey_calls \<Rightarrow> int \<Rightarrow> snapshot_db \<Rightarrow> string \<Rightarrow> string \<Rightarrow> string + int option" where
  "cursorReader pe fw flw vc now db did sn =
     (case ReadSnapshot pe fw flw vc now did sn db of Inl e \<Rightarrow> Inl e | Inr m \<Rightarrow> Inr (map_option smCursorTsUnixMs m))"

section \<open>The interface of the detector\<close>

text \<open>A reader whose cursors have reached what \<open>reached\<close> says of a device.\<close>

locale snapshot_reader =
  fixes reader :: "'s \<Rightarrow> string \<Rightarrow> string \<Rightarrow> string + int option"
    and reached :: "'s \<Rightarrow> string \<Rightarrow> string \<Rightarrow> int \<Rightarrow> bool"
  assumes reader_reached: "reached s did sn t \<Longrightarrow> \<exists>c. reader s did sn = Inr (Some c) \<and> t \<le> c \<and> 0 < c \<and> small c"
begin

lemma not_replanned:
  assumes "deReadSnapshot env = reader s" "reached s (iaDeviceID a) (iaProviderDeviceID a) t" "config_ok cfg"
    and "gm_get covs (iaProvider a) = Some pc" "gm_get pc (iaProviderDeviceID a) = Some cov" "cwMaxUnixMS cov \<le> t + Milliseconds (dcLagThreshold cfg)"
  shows "evaluateOne env cfg covs now a = None"
proof -
  obtain c where c: "reader s (iaDeviceID a) (iaProviderDeviceID a) = Inr (Some c)" "t \<le> c" "0 < c" "small c"
    using reader_reached [OF assms(2)] by blast
  have "0 \<le> Milliseconds (dcLagThreshold cfg)" "Milliseconds (dcLagThreshold cfg) < 2 ^ 62"
    using assms(3) Milliseconds_nonneg Milliseconds_bound by (auto simp: config_ok_def)
  then have "wrap64 (c + Milliseconds (dcLagThreshold cfg)) = c + Milliseconds (dcLagThreshold cfg)"
    using c(3,4) by (intro wrap64_id) (auto simp: small_def)
  then have "planWindow cfg cov c now = None" using c(2,3) assms(6) by (simp add: planWindow_def)
  then show ?thesis using assms(1,4,5) c(1) by (simp add: evaluateOne_def planRepair_def)
qed

end

section \<open>The projection as a reader\<close>

definition fineCalls :: valkey_calls where
  "fineCalls = \<lparr>vcGet = (\<lambda>_. None), vcIncr = (\<lambda>_. Done), vcSet = (\<lambda>_. Done)\<rparr>"

lemma fineCalls_get: "vcGet fineCalls = (\<lambda>_. None)"
  by (simp add: fineCalls_def)

text \<open>Among the messages there is one for the device that was acknowledged, with an envelope ingested at \<open>t\<close>. All
  envelopes carry a time, and copies of an envelope the same one.\<close>

definition reachedBy ::
    "projection_env \<Rightarrow> (byte list \<Rightarrow> string + TelemetryEnvelope) \<Rightarrow> (valkey_calls \<times> int \<times> byte list) list \<Rightarrow> string \<Rightarrow> string \<Rightarrow> int \<Rightarrow> bool" where
  "reachedBy pe un msgs did sn t \<longleftrightarrow>
     int (length msgs) < 2 ^ 63 \<and> ids_agree (set (envelopesOf un msgs)) \<and>
     (\<forall>env \<in> set (envelopesOf un msgs). 0 < IngestedTimeUnixMs env \<and> small (IngestedTimeUnixMs env)) \<and>
     (\<exists>xs vc now data ys env. msgs = xs @ (vc, now, data) # ys \<and> un data = Inr env \<and> t = IngestedTimeUnixMs env \<and>
        keysForIdentity (peKeyPrefix pe) did sn = keysForIdentity (peKeyPrefix pe) (DeviceId env) (EcoflowSn env) \<and>
        snd (handleMessage pe un vc now data (projectionRun pe un xs emptySnapshots)) = Ack)"

lemma reachedBy_cursor:
  assumes "reachedBy pe un msgs did sn t"
  obtains seqKey k x where "keysForIdentity (peKeyPrefix pe) did sn = Inr (seqKey, k)"
    "gm_get (sdSnapshots (projectionRun pe un msgs emptySnapshots)) k = Some x" "t \<le> lsCursorTsUnixMs x" "0 < lsCursorTsUnixMs x" "small (lsCursorTsUnixMs x)"
proof -
  obtain xs vc now data ys env where m: "msgs = xs @ (vc, now, data) # ys" "un data = Inr env" "t = IngestedTimeUnixMs env"
      "keysForIdentity (peKeyPrefix pe) did sn = keysForIdentity (peKeyPrefix pe) (DeviceId env) (EcoflowSn env)"
      "snd (handleMessage pe un vc now data (projectionRun pe un xs emptySnapshots)) = Ack"
    and len: "int (length msgs) < 2 ^ 63" and ids: "ids_agree (set (envelopesOf un msgs))"
    and stamps: "\<forall>env \<in> set (envelopesOf un msgs). 0 < IngestedTimeUnixMs env \<and> small (IngestedTimeUnixMs env)"
    using assms unfolding reachedBy_def by blast
  define db where "db = projectionRun pe un xs emptySnapshots"
  have prov: "provenance pe (set (envelopesOf un zs)) (projectionRun pe un zs emptySnapshots)" if "set (envelopesOf un zs) \<subseteq> set (envelopesOf un msgs)" for zs
    using run_provenance [of pe "{}" emptySnapshots un zs] stamps that by (auto simp: provenance_def emptySnapshots_def)
  obtain db' s where app: "ApplyEnvelope pe vc now env db = (db', Inr s)"
    using m(2,5) by (auto simp: handleMessage_def db_def split: prod.splits sum.splits)
  then obtain k where k: "snapKeyOf pe env = Some k" "gm_get (sdSnapshots db') k = Some s" by (rule apply_answered) auto
  have "ids_agree (insert env (set (envelopesOf un xs)))" using ids m(1,2) by (auto simp: ids_agree_def)
  then have t: "t \<le> lsCursorTsUnixMs s" using answered_cursor [OF app, of "set (envelopesOf un xs)"] prov [of xs] stamps m(1-3) by (auto simp: db_def)
  have run: "projectionRun pe un msgs emptySnapshots = projectionRun pe un ys db'"
    using app m(2) by (simp add: m(1) projectionRun_append handle_fst db_def)
  have seq: "seq_ok (int (length xs)) db" using run_moves [OF seq_ok_empty, of xs] len by (simp add: m(1) db_def)
  have seq': "seq_ok (int (length xs) + 1) db'" using apply_moves(1) [OF app seq] len by (simp add: m(1))
  obtain x where x: "gm_get (sdSnapshots (projectionRun pe un msgs emptySnapshots)) k = Some x" "moves_on True s x"
    using run_moves [OF seq', of ys pe un k True] len stamps k(2) unfolding run by (auto simp: m(1))
  have "lsCursorTsUnixMs s \<le> lsCursorTsUnixMs x" using x(2) by (auto simp: moves_on_def)
  moreover have "0 < lsCursorTsUnixMs x \<and> small (lsCursorTsUnixMs x)" using prov [of msgs] x(1) stamps by (force simp: provenance_def)
  moreover obtain seqKey where "keysForIdentity (peKeyPrefix pe) did sn = Inr (seqKey, k)"
    using k(1) m(4) by (auto simp: snapKeyOf_def split: sum.splits)
  ultimately show thesis using that x(1) t by force
qed

interpretation projected: snapshot_reader
  "\<lambda>msgs. cursorReader pe fw flw fineCalls now (projectionRun pe un msgs emptySnapshots)" "reachedBy pe un"
  for pe fw flw now un
proof
  fix msgs did sn t
  assume "reachedBy pe un msgs did sn t"
  then obtain seqKey k x where x: "keysForIdentity (peKeyPrefix pe) did sn = Inr (seqKey, k)"
    "gm_get (sdSnapshots (projectionRun pe un msgs emptySnapshots)) k = Some x" "t \<le> lsCursorTsUnixMs x" "0 < lsCursorTsUnixMs x" "small (lsCursorTsUnixMs x)"
    by (rule reachedBy_cursor)
  then show "\<exists>c. cursorReader pe fw flw fineCalls now (projectionRun pe un msgs emptySnapshots) did sn = Inr (Some c) \<and> t \<le> c \<and> 0 < c \<and> small c"
    by (simp add: cursorReader_def ReadSnapshot_get [OF fineCalls_get] toSnapshotReadModel_def Let_def)
qed

end
