(* ===== verification/Projection_Properties.thy ===== *)
theory Projection_Properties
  imports Projection_Read Gap_Properties
begin

text \<open>
  The properties of the projection: the cursor of a snapshot in sequences and in interleavings of
  applications, what a reader gets, and what the detector of gaps concludes from it.
\<close>

section \<open>A sample projection\<close>

definition sample_projection :: projection_env where
  "sample_projection = \<lparr>peKeyPrefix = ''p'', peRound = Finite,
     peParse = (\<lambda>payload. Some (JObject [if payload = [1] then (''soc'', JNumber (Finite 1)) else (''temp'', JNumber (Finite 2))]))\<rparr>"

lemma sample_metrics:
  "ExtractNumericMetrics (peParse sample_projection) payload =
     (if payload = [] then [] else if payload = [1] then [(''soc'', Finite 1)] else [(''temp'', Finite 2)])"
proof -
  have "joinMetricPath [] ''soc'' = ''soc''" "joinMetricPath [] ''temp'' = ''temp''" by code_simp+
  then show ?thesis by (simp add: ExtractNumericMetrics_def sample_projection_def putMetric_def gm_put_def)
qed

definition sample_update :: "string \<Rightarrow> int \<Rightarrow> byte list \<Rightarrow> TelemetryEnvelope" where
  "sample_update eid ts payload = zeroEnvelope\<lparr>EnvelopeId := eid, EcoflowSn := ''SN1'', IngestedTimeUnixMs := ts, EnvPayload := payload\<rparr>"

definition sample_wire :: "byte list \<Rightarrow> string + TelemetryEnvelope" where
  "sample_wire data = (if data = [1] then Inr (sample_update ''a'' 1000 [1]) else Inr (sample_update ''b'' 2000 [2]))"

lemma sample_strings: "TrimSpace ''SN1'' = ''SN1''" "ToUpper ''SN1'' = ''SN1''" "TrimSpace [] = []" "TrimSpace ''a'' = ''a''" "TrimSpace ''b'' = ''b''"
  "ToLower ''a'' = ''a''" "ToLower ''b'' = ''b''"
  by code_simp+

lemma sample_keys:
  "keysForIdentity (peKeyPrefix sample_projection) [] ''SN1'' = Inr (''p:{sn:SN1}:seq'', ''p:{sn:SN1}:snapshot'')"
  "DeviceId (sample_update eid ts payload) = []" "EcoflowSn (sample_update eid ts payload) = ''SN1''"
  by (simp_all add: keysForIdentity_def snapshotTag_def sanitizeKeySegment_def sample_strings sample_projection_def sample_update_def zeroEnvelope_def)

lemma sample_snapKey: "snapKeyOf sample_projection (sample_update eid ts payload) = Some ''p:{sn:SN1}:snapshot''"
  by (simp add: snapKeyOf_def sample_keys)

lemma sample_update_simps:
  "EnvelopeId (sample_update eid ts payload) = eid" "IngestedTimeUnixMs (sample_update eid ts payload) = ts" "EnvPayload (sample_update eid ts payload) = payload"
  by (simp_all add: sample_update_def)

section \<open>The cursor\<close>

text \<open>C33: When the messages of the projection are handled one after the other, whatever the server answers, a
  snapshot that exists stays, and either it does not change at all or its sequence number grows; its timestamp does not
  go back either, if the envelopes of the device carry the time of their ingestion. The numbers stay below two to the 63
  as long as fewer messages than that are handled.\<close>

theorem cursor_moves_forward:
  assumes "int (length (xs @ ys)) < 2 ^ 63" "gm_get (sdSnapshots (projectionRun pe un xs emptySnapshots)) k = Some x"
  shows "\<exists>y. gm_get (sdSnapshots (projectionRun pe un (xs @ ys) emptySnapshots)) k = Some y \<and>
    (y = x \<or> lsCursorSeq x < lsCursorSeq y \<and> uint (lsCursorSeq y) \<le> int (length (xs @ ys))) \<and>
    ((\<forall>env \<in> set (envelopesOf un ys). snapKeyOf pe env = Some k \<longrightarrow> 0 < IngestedTimeUnixMs env) \<longrightarrow> lsCursorTsUnixMs x \<le> lsCursorTsUnixMs y)"
proof -
  let ?b = "\<forall>env \<in> set (envelopesOf un ys). snapKeyOf pe env = Some k \<longrightarrow> 0 < IngestedTimeUnixMs env"
  have "seq_ok (int (length xs)) (projectionRun pe un xs emptySnapshots)" using run_moves [OF seq_ok_empty, of xs] assms(1) by simp
  from run_moves [OF this, of ys pe un k ?b] assms obtain y where y: "moves_on ?b x y"
      "gm_get (sdSnapshots (projectionRun pe un (xs @ ys) emptySnapshots)) k = Some y"
      "seq_ok (int (length (xs @ ys))) (projectionRun pe un (xs @ ys) emptySnapshots)"
    by (auto simp: projectionRun_append)
  from y(2,3) have "uint (lsCursorSeq y) \<le> int (length (xs @ ys))" unfolding seq_ok_def by (meson order_trans)
  with y show ?thesis by (auto simp: moves_on_def)
qed

text \<open>C34: However the calls of concurrent applications interleave, and whatever the server answers, no number is used
  twice for a device: of the snapshots of one key that wait to be stored no two have the same number, none has that of the
  stored snapshot, and none exceeds the counter of its key.\<close>

theorem numbers_are_given_once:
  assumes "(projection_step pe ^^ n) (emptySnapshots, []) (db, jobs)" "int n < 2 ^ 63"
    and "i < length jobs" "snd (jobs ! i) = Storing k s"
  shows "uint (lsCursorSeq s) \<le> at0 (sdSeq db) (seqKeyFor k) \<and>
    (\<forall>x. gm_get (sdSnapshots db) k = Some x \<longrightarrow> lsCursorSeq x \<noteq> lsCursorSeq s) \<and>
    (\<forall>j t. j < length jobs \<longrightarrow> j \<noteq> i \<longrightarrow> snd (jobs ! j) = Storing k t \<longrightarrow> lsCursorSeq t \<noteq> lsCursorSeq s)"
proof -
  have "numbers_ok 0 (emptySnapshots, [])" by (simp add: numbers_ok_def seq_ok_empty)
  from steps_numbers [OF assms(1) this] assms(2) have ok: "numbers_ok (int n) (db, jobs)" by simp
  then have "phase_ok db (Storing k s)" using assms(3,4) by (auto simp: numbers_ok_def dest!: spec [of _ i])
  moreover have "numbers_apart (Storing k s) (snd (jobs ! j))" if "j < length jobs" "j \<noteq> i" for j
    using ok assms(3,4) that unfolding numbers_ok_def by (metis fst_conv snd_conv)
  ultimately show ?thesis by fastforce
qed

text \<open>C35: Two applications for one device that overlap can lose an envelope that was applied: when both have loaded the
  snapshot before either stores it, the one with the smaller number may store last. Then the stored number has gone back,
  both messages are acknowledged, and of the other envelope nothing is left in the snapshot.\<close>

theorem overlapping_applications_lose:
  assumes keys: "keysForIdentity (peKeyPrefix pe) (DeviceId e1) (EcoflowSn e1) = Inr (q, k)" "keysForIdentity (peKeyPrefix pe) (DeviceId e2) (EcoflowSn e2) = Inr (q, k)"
    and new: "\<forall>x. existing = Some x \<longrightarrow> \<not> keepsExisting x e1 \<and> \<not> keepsExisting x e2"
    and counter: "0 \<le> at0 (sdSeq db) q" "at0 (sdSeq db) q < 2 ^ 63 - 1"
    and wf: "\<forall>x. existing = Some x \<longrightarrow> gm_wf (lsMetrics x)"
    and ex: "existing = gm_get (sdSnapshots db) k"
    and s1: "s1 = mergeSnapshot pe (UnixMilli now) existing e1 (at0 (sdSeq db) q + 1)" "marshalSnapshot s1 = None"
    and s2: "s2 = mergeSnapshot pe (UnixMilli now) existing e2 (at0 (sdSeq db) q + 2)" "marshalSnapshot s2 = None"
  shows "\<exists>mid last. (projection_step pe)\<^sup>*\<^sup>* (db, [(e1, Loading), (e2, Loading)]) mid \<and> (projection_step pe)\<^sup>*\<^sup>* mid last \<and>
    gm_get (sdSnapshots (fst mid)) k = Some s2 \<and> gm_get (sdSnapshots (fst last)) k = Some s1 \<and> lsCursorSeq s1 < lsCursorSeq s2 \<and>
    snd last = [(e1, Finished (Inr s1)), (e2, Finished (Inr s2))] \<and> (\<forall>m. gm_get (lsMetrics s1) m = mergedValue pe e1 existing m)"
proof -
  let ?db1 = "incrSeq q db" and ?db2 = "incrSeq q (incrSeq q db)"
  define db3 where "db3 = ?db2\<lparr>sdSnapshots := gm_put k s2 (sdSnapshots db)\<rparr>"
  define db4 where "db4 = ?db2\<lparr>sdSnapshots := gm_put k s1 (gm_put k s2 (sdSnapshots db))\<rparr>"
  have load: "loadSnapshot pe fineCalls e db = Inr (q, k, existing)" if "keysForIdentity (peKeyPrefix pe) (DeviceId e) (EcoflowSn e) = Inr (q, k)" for e
    using that ex by (simp add: loadSnapshot_def getBySnapshotKey_def fineCalls_def)
  have kept: "\<not> (case existing of None \<Rightarrow> False | Some x \<Rightarrow> keepsExisting x e1)" "\<not> (case existing of None \<Rightarrow> False | Some x \<Rightarrow> keepsExisting x e2)"
    using new by (auto split: option.splits)
  have seq: "nextSeq fineCalls q d = (incrSeq q d, Inr (at0 (sdSeq d) q + 1))" for d by (simp add: nextSeq_def fineCalls_def at0_incr)
  have store: "storeSnapshot fineCalls k s d = (d\<lparr>sdSnapshots := gm_put k s (sdSnapshots d)\<rparr>, Inr s)" if "marshalSnapshot s = None" for s d
    using that by (simp add: storeSnapshot_def fineCalls_def)
  have steps: "advance pe fineCalls now e1 (Loading, db) = (Counting q k existing, db)" "advance pe fineCalls now e2 (Loading, db) = (Counting q k existing, db)"
    "advance pe fineCalls now e1 (Counting q k existing, db) = (Storing k s1, ?db1)" "advance pe fineCalls now e2 (Counting q k existing, ?db1) = (Storing k s2, ?db2)"
    "advance pe fineCalls now e2 (Storing k s2, ?db2) = (Finished (Inr s2), db3)" "advance pe fineCalls now e1 (Storing k s1, db3) = (Finished (Inr s1), db4)"
    using s1 s2 by (simp_all add: load keys kept seq store at0_incr db3_def db4_def add.commute)
  note chain = converse_rtranclp_into_rtranclp [of "projection_step pe"]
  have one: "projection_step pe (d, [(e1, p), b]) (d', [(e1, p'), b])" if "advance pe fineCalls now e1 (p, d) = (p', d')" for d d' p p' b
    using Proceed [of 0 "[(e1, p), b]" e1 p pe fineCalls now d p' d'] that by simp
  have two: "projection_step pe (d, [a, (e2, p)]) (d', [a, (e2, p')])" if "advance pe fineCalls now e2 (p, d) = (p', d')" for d d' p p' a
    using Proceed [of 1 "[a, (e2, p)]" e2 p pe fineCalls now d p' d'] that by simp
  have "(projection_step pe)\<^sup>*\<^sup>* (db, [(e1, Loading), (e2, Loading)]) (db3, [(e1, Storing k s1), (e2, Finished (Inr s2))])"
    by (rule chain [OF one [OF steps(1)]], rule chain [OF two [OF steps(2)]], rule chain [OF one [OF steps(3)]], rule chain [OF two [OF steps(4)]],
        rule r_into_rtranclp, rule two [OF steps(5)])
  moreover have "(projection_step pe)\<^sup>*\<^sup>* (db3, [(e1, Storing k s1), (e2, Finished (Inr s2))]) (db4, [(e1, Finished (Inr s1)), (e2, Finished (Inr s2))])"
    by (rule r_into_rtranclp, rule one [OF steps(6)])
  moreover have "lsCursorSeq s1 < lsCursorSeq s2"
    using uint_counter [of "at0 (sdSeq db) q + 1"] uint_counter [of "at0 (sdSeq db) q + 2"] counter
    by (simp add: s1(1) s2(1) mergeSnapshot_cursor word_less_def del: of_int_add)
  moreover have "gm_get (lsMetrics s1) m = mergedValue pe e1 existing m" for m
    using mergeSnapshot_metrics [of existing] wf by (simp add: s1(1))
  ultimately show ?thesis by (intro exI [of _ "(db3, _)"] exI [of _ "(db4, _)"]) (auto simp: db3_def db4_def)
qed

text \<open>C36: A snapshot with a number that is not finite has no JSON text, so an envelope that reports one is never
  applied: whatever the database holds and whatever the server answers, the snapshots stay as they are, and the message is asked for
  again, until the stored snapshot keeps the envelope out, because it is newer or came from an envelope with the same
  identifier; then the message is acknowledged although the envelope was never applied.\<close>

theorem non_finite_is_never_applied:
  assumes "un data = Inr env" "gm_get (ExtractNumericMetrics (peParse pe) (EnvPayload env)) m = Some v" "\<not> isFinite v"
    and "handleMessage pe un vc now data db = (db', act)"
  shows "sdSnapshots db' = sdSnapshots db \<and>
    (act = Nak \<or> act = Ack \<and> db' = db \<and> (\<exists>k x. snapKeyOf pe env = Some k \<and> gm_get (sdSnapshots db) k = Some x \<and> keepsExisting x env))"
proof -
  obtain r where app: "ApplyEnvelope pe vc now env db = (db', r)" using assms(1,4) by (auto simp: handleMessage_def split: prod.splits sum.splits)
  have unmarshalled: "marshalSnapshot (mergeSnapshot pe t ex env n) \<noteq> None" for ex t n
    using gm_get_SomeD [OF mergeSnapshot_reported(1) [OF assms(2), of t ex n]] assms(3)
    by (cases "find (\<lambda>(k, v). case v of Finite _ \<Rightarrow> False | _ \<Rightarrow> True) (lsMetrics (mergeSnapshot pe t ex env n))")
      (auto simp: marshalSnapshot_def find_None_iff isFinite_def split: float64.splits)
  have "(\<exists>e. r = Inl e) \<and> sdSnapshots db' = sdSnapshots db \<or>
      db' = db \<and> (\<exists>k x. snapKeyOf pe env = Some k \<and> gm_get (sdSnapshots db) k = Some x \<and> keepsExisting x env)"
  proof (cases "loadSnapshot pe vc env db")
    case (Inl e)
    then show ?thesis using app by (auto simp: ApplyEnvelope_def)
  next
    case (Inr t)
    obtain seqKey k ex where t: "t = (seqKey, k, ex)" by (cases t) auto
    have k: "snapKeyOf pe env = Some k" "ex = gm_get (sdSnapshots db) k"
      using Inr t by (auto simp: loadSnapshot_def snapKeyOf_def getBySnapshotKey_def split: sum.splits option.splits)
    obtain db1 n where n: "nextSeq vc seqKey db = (db1, n)" by fastforce
    have "sdSnapshots db1 = sdSnapshots db" using n by (auto simp: nextSeq_def split: prod.splits option.splits dest!: callEffect_cases)
    moreover obtain e where "marshalSnapshot (mergeSnapshot pe (UnixMilli now) ex env (case n of Inr q \<Rightarrow> q | Inl _ \<Rightarrow> 0)) = Some e"
      using unmarshalled by blast
    ultimately show ?thesis
      using app Inr t k n by (cases n) (auto simp: ApplyEnvelope_def storeSnapshot_def split: option.splits if_splits)
  qed
  then show ?thesis using assms(1,4) app by (auto simp: handleMessage_def split: sum.splits)
qed

section \<open>Readers\<close>

text \<open>C37: After an envelope has changed the snapshot of its device, a reader of that device gets its cursor and the values
  of the merge: a value that the envelope reports, or else the one from before. A metric that is not volatile is always
  there; a volatile one only if it was observed within the freshness window, and one that the envelope reports is there
  until the window has passed since its ingestion, unless it tells of the momentary flow of power.\<close>

theorem reader_sees_merge:
  assumes "ApplyEnvelope pe vc now env db = (db', Inr s)" "sdSnapshots db' \<noteq> sdSnapshots db" "snapKeyOf pe env = Some key"
    and "\<forall>x. gm_get (sdSnapshots db) key = Some x \<longrightarrow> gm_wf (lsMetrics x)"
    and "vcGet vc' = (\<lambda>_. None)" "0 < fw" "0 < UnixMilli now'" "0 < IngestedTimeUnixMs env"
  shows "\<exists>m. ReadSnapshot pe fw flw vc' now' (DeviceId env) (EcoflowSn env) db' = Inr (Some m) \<and>
    smCursorSeq m = lsCursorSeq s \<and> smCursorTsUnixMs m = IngestedTimeUnixMs env \<and>
    (\<forall>k. \<not> isVolatileMetricKey k \<longrightarrow> gm_get (smMetrics m) k = mergedValue pe env (gm_get (sdSnapshots db) key) k) \<and>
    (\<forall>k v. gm_get (smMetrics m) k = Some v \<longrightarrow> mergedValue pe env (gm_get (sdSnapshots db) key) k = Some v \<and>
       (isVolatileMetricKey k \<longrightarrow> observedAtOf s k \<le> 0 \<or> wrap64 (UnixMilli now' - observedAtOf s k) \<le> Milliseconds fw)) \<and>
    (\<forall>k v. gm_get (ExtractNumericMetrics (peParse pe) (EnvPayload env)) k = Some v \<longrightarrow> \<not> IsCurrentMetricKey k \<longrightarrow>
       wrap64 (UnixMilli now' - IngestedTimeUnixMs env) \<le> Milliseconds fw \<longrightarrow> gm_get (smMetrics m) k = Some v)"
proof -
  obtain k where "snapKeyOf pe env = Some k" "gm_get (sdSnapshots db') k = Some s"
    "db' = db \<and> keepsExisting s env \<or> vcIncr vc (seqKeyFor k) = Done \<and>
       s = mergeSnapshot pe (UnixMilli now) (gm_get (sdSnapshots db) k) env (at0 (sdSeq db) (seqKeyFor k) + 1)"
    by (rule apply_answered [OF assms(1)])
  then have k: "gm_get (sdSnapshots db') key = Some s"
      "s = mergeSnapshot pe (UnixMilli now) (gm_get (sdSnapshots db) key) env (at0 (sdSeq db) (seqKeyFor key) + 1)"
    using assms(2,3) by auto
  have vals: "gm_get (lsMetrics s) j = mergedValue pe env (gm_get (sdSnapshots db) key) j" for j
    using mergeSnapshot_metrics [of "gm_get (sdSnapshots db) key"] assms(4) by (simp add: k(2))
  have obs: "observedAtOf s j = IngestedTimeUnixMs env" if "gm_get (ExtractNumericMetrics (peParse pe) (EnvPayload env)) j = Some v" for j v
    using mergeSnapshot_reported(2) [OF that assms(8)] by (simp add: k(2))
  define m where "m = toSnapshotReadModel (peRound pe) s (UnixMilli now') fw flw"
  have get: "gm_get (smMetrics m) j = (if metricExpired j (observedAtOf s j) (changedAtOf s j) (UnixMilli now') fw (buildMetricFreshnessContext (peRound pe) s flw)
      then None else gm_get (lsMetrics s) j)" for j by (simp add: m_def toSnapshotReadModel_get)
  obtain seqKey where "keysForIdentity (peKeyPrefix pe) (DeviceId env) (EcoflowSn env) = Inr (seqKey, key)"
    using assms(3) by (auto simp: snapKeyOf_def split: sum.splits)
  then have "ReadSnapshot pe fw flw vc' now' (DeviceId env) (EcoflowSn env) db' = Inr (Some m)"
    using ReadSnapshot_get [OF assms(5)] k(1) by (simp add: m_def)
  moreover have "smCursorSeq m = lsCursorSeq s" "smCursorTsUnixMs m = IngestedTimeUnixMs env"
    using assms(8) by (simp_all add: m_def toSnapshotReadModel_def Let_def k(2) mergeSnapshot_cursor)
  moreover have "gm_get (smMetrics m) j = mergedValue pe env (gm_get (sdSnapshots db) key) j" if "\<not> isVolatileMetricKey j" for j
    using that by (simp add: get vals metricExpired_def)
  moreover have "mergedValue pe env (gm_get (sdSnapshots db) key) j = Some v \<and>
      (isVolatileMetricKey j \<longrightarrow> observedAtOf s j \<le> 0 \<or> wrap64 (UnixMilli now' - observedAtOf s j) \<le> Milliseconds fw)"
    if "gm_get (smMetrics m) j = Some v" for j v
    using that assms(6,7) by (auto simp: get vals metricExpired_def split: if_splits)
  moreover have "gm_get (smMetrics m) j = Some v" if "gm_get (ExtractNumericMetrics (peParse pe) (EnvPayload env)) j = Some v" "\<not> IsCurrentMetricKey j"
      "wrap64 (UnixMilli now' - IngestedTimeUnixMs env) \<le> Milliseconds fw" for j v
    using that obs [OF that(1)] by (simp add: get vals metricExpired_def mergedValue_def)
  ultimately show ?thesis by blast
qed

text \<open>C2: The projection closes the gaps that the detector sees, when it handles its messages one after the other,
  fewer than \<open>2 ^ 63\<close> of them, and every envelope carries a time of ingestion between 0 and \<open>2 ^ 62\<close> milliseconds, which all envelopes with
  the same identifier share (applications that overlap are another matter, see the loss shown above): once the message of an envelope of a device has been acknowledged, the detector plans no further repair for the device
  as long as the archive covers nothing newer than that envelope by more than the lag threshold, whichever such messages
  the projection handled before and after and whatever the server answered to them.\<close>

theorem projected_is_not_repaired:
  assumes "deReadSnapshot env = cursorReader pe fw flw fineCalls now (projectionRun pe un msgs emptySnapshots)"
    and "reachedBy pe un msgs (iaDeviceID a) (iaProviderDeviceID a) t" "config_ok cfg"
    and "gm_get covs (iaProvider a) = Some pc" "gm_get pc (iaProviderDeviceID a) = Some cov" "cwMaxUnixMS cov \<le> t + Milliseconds (dcLagThreshold cfg)"
  shows "evaluateOne env cfg covs nowMS a = None"
  using assms by (rule projected.not_replanned)

section \<open>The sample\<close>

lemma sample_fine:
  "fst (handleMessage sample_projection sample_wire fineCalls now [1] emptySnapshots) =
     \<lparr>sdSeq = [(''p:{sn:SN1}:seq'', 1)],
      sdSnapshots = [(''p:{sn:SN1}:snapshot'', mergeSnapshot sample_projection (UnixMilli now) None (sample_update ''a'' 1000 [1]) 1)]\<rparr>"
  "snd (handleMessage sample_projection sample_wire fineCalls now [1] emptySnapshots) = Ack"
proof -
  have "marshalSnapshot (mergeSnapshot sample_projection (UnixMilli now) None (sample_update ''a'' 1000 [1]) 1) = None"
    by (simp add: marshalSnapshot_def mergeSnapshot_def Let_def mergeNew_def sample_metrics sample_update_simps gm_put_def)
  then have "ApplyEnvelope sample_projection fineCalls now (sample_update ''a'' 1000 [1]) emptySnapshots =
      (\<lparr>sdSeq = [(''p:{sn:SN1}:seq'', 1)],
        sdSnapshots = [(''p:{sn:SN1}:snapshot'', mergeSnapshot sample_projection (UnixMilli now) None (sample_update ''a'' 1000 [1]) 1)]\<rparr>,
       Inr (mergeSnapshot sample_projection (UnixMilli now) None (sample_update ''a'' 1000 [1]) 1))"
    by (simp add: ApplyEnvelope_def loadSnapshot_def getBySnapshotKey_def sample_keys emptySnapshots_def fineCalls_def nextSeq_def incrSeq_def at0_def
        storeSnapshot_def gm_put_def gm_get_def)
  then show "fst (handleMessage sample_projection sample_wire fineCalls now [1] emptySnapshots) =
     \<lparr>sdSeq = [(''p:{sn:SN1}:seq'', 1)],
      sdSnapshots = [(''p:{sn:SN1}:snapshot'', mergeSnapshot sample_projection (UnixMilli now) None (sample_update ''a'' 1000 [1]) 1)]\<rparr>"
    "snd (handleMessage sample_projection sample_wire fineCalls now [1] emptySnapshots) = Ack"
    by (simp_all add: handleMessage_def sample_wire_def)
qed

abbreviation sample_first :: "valkey_calls \<times> int \<times> byte list" where "sample_first \<equiv> (fineCalls, 3000000000, [1])"
abbreviation sample_second :: "valkey_calls \<times> int \<times> byte list" where "sample_second \<equiv> (fineCalls, 3000000000, [2])"

lemma sample_snapshot:
  obtains x where "gm_get (sdSnapshots (projectionRun sample_projection sample_wire [sample_first] emptySnapshots)) ''p:{sn:SN1}:snapshot'' = Some x"
    "lsCursorSeq x = 1" "lsCursorTsUnixMs x = 1000"
  using that by (simp add: sample_fine gm_get_def mergeSnapshot_cursor sample_update_simps)

theorem cursor_moves_forward_witness:
  "\<exists>x y. gm_get (sdSnapshots (projectionRun sample_projection sample_wire [sample_first] emptySnapshots)) ''p:{sn:SN1}:snapshot'' = Some x \<and>
     gm_get (sdSnapshots (projectionRun sample_projection sample_wire [sample_first, sample_second] emptySnapshots)) ''p:{sn:SN1}:snapshot'' = Some y \<and>
     lsCursorSeq x = 1 \<and> lsCursorTsUnixMs x = 1000 \<and> 1000 \<le> lsCursorTsUnixMs y"
proof -
  obtain x where x: "gm_get (sdSnapshots (projectionRun sample_projection sample_wire [sample_first] emptySnapshots)) ''p:{sn:SN1}:snapshot'' = Some x"
    "lsCursorSeq x = 1" "lsCursorTsUnixMs x = 1000" by (rule sample_snapshot)
  have "int (length ([sample_first] @ [sample_second])) < 2 ^ 63" by simp
  from cursor_moves_forward [OF this x(1)] obtain y
    where y: "gm_get (sdSnapshots (projectionRun sample_projection sample_wire ([sample_first] @ [sample_second]) emptySnapshots)) ''p:{sn:SN1}:snapshot'' = Some y"
      "(\<forall>env \<in> set (envelopesOf sample_wire [sample_second]). snapKeyOf sample_projection env = Some ''p:{sn:SN1}:snapshot'' \<longrightarrow> 0 < IngestedTimeUnixMs env) \<longrightarrow>
         lsCursorTsUnixMs x \<le> lsCursorTsUnixMs y" by blast
  have "lsCursorTsUnixMs x \<le> lsCursorTsUnixMs y" using y(2) by (simp add: sample_wire_def sample_update_simps)
  then show ?thesis using x y(1) by auto
qed

theorem numbers_are_given_once_witness:
  "\<exists>db s. (projection_step sample_projection ^^ 3) (emptySnapshots, []) (db, [(sample_update ''a'' 1000 [1], Storing ''p:{sn:SN1}:snapshot'' s)]) \<and>
     uint (lsCursorSeq s) \<le> at0 (sdSeq db) (seqKeyFor ''p:{sn:SN1}:snapshot'')"
proof -
  let ?e = "sample_update ''a'' 1000 [1]" and ?k = "''p:{sn:SN1}:snapshot''" and ?q = "''p:{sn:SN1}:seq''"
  define s where "s = mergeSnapshot sample_projection (UnixMilli 0) None ?e 1"
  have a: "advance sample_projection fineCalls 0 ?e (Loading, emptySnapshots) = (Counting ?q ?k None, emptySnapshots)"
    "advance sample_projection fineCalls 0 ?e (Counting ?q ?k None, emptySnapshots) = (Storing ?k s, incrSeq ?q emptySnapshots)"
    by (simp_all add: loadSnapshot_def getBySnapshotKey_def sample_keys emptySnapshots_def fineCalls_def nextSeq_def at0_incr s_def) (simp add: at0_def)
  have "projection_step sample_projection (emptySnapshots, []) (emptySnapshots, [(?e, Loading)])" using Deliver [of _ emptySnapshots "[]"] by simp
  moreover have "projection_step sample_projection (emptySnapshots, [(?e, Loading)]) (emptySnapshots, [(?e, Counting ?q ?k None)])"
    using Proceed [of 0 "[(?e, Loading)]", OF _ _ a(1)] by simp
  moreover have "projection_step sample_projection (emptySnapshots, [(?e, Counting ?q ?k None)]) (incrSeq ?q emptySnapshots, [(?e, Storing ?k s)])"
    using Proceed [of 0 "[(?e, Counting ?q ?k None)]", OF _ _ a(2)] by simp
  ultimately have run: "(projection_step sample_projection ^^ 3) (emptySnapshots, []) (incrSeq ?q emptySnapshots, [(?e, Storing ?k s)])"
    by (auto simp: numeral_3_eq_3 OO_def)
  from numbers_are_given_once [OF this, of 0 ?k s] run show ?thesis by auto
qed

lemma sample_merges:
  "marshalSnapshot (mergeSnapshot sample_projection now None (sample_update eid ts payload) n) = None"
  by (simp add: marshalSnapshot_def mergeSnapshot_def Let_def mergeNew_def sample_metrics sample_update_simps gm_put_def)

theorem overlapping_applications_lose_witness:
  "\<exists>mid last x y. (projection_step sample_projection)\<^sup>*\<^sup>* (emptySnapshots, [(sample_update ''a'' 1000 [1], Loading), (sample_update ''b'' 2000 [2], Loading)]) mid \<and>
     (projection_step sample_projection)\<^sup>*\<^sup>* mid last \<and> gm_get (sdSnapshots (fst mid)) ''p:{sn:SN1}:snapshot'' = Some x \<and>
     gm_get (sdSnapshots (fst last)) ''p:{sn:SN1}:snapshot'' = Some y \<and> lsCursorSeq y < lsCursorSeq x \<and> lsCursorTsUnixMs y < lsCursorTsUnixMs x \<and>
     gm_get (lsMetrics y) ''temp'' = None"
proof -
  let ?e1 = "sample_update ''a'' 1000 [1]" and ?e2 = "sample_update ''b'' 2000 [2]"
  have keys: "keysForIdentity (peKeyPrefix sample_projection) (DeviceId e) (EcoflowSn e) = Inr (''p:{sn:SN1}:seq'', ''p:{sn:SN1}:snapshot'')"
    if "e = ?e1 \<or> e = ?e2" for e using that by (auto simp: sample_keys)
  have zero: "at0 (sdSeq emptySnapshots) q = 0" "None = gm_get (sdSnapshots emptySnapshots) k" for q k
    by (simp_all add: emptySnapshots_def at0_def)
  from overlapping_applications_lose [OF keys [of ?e1] keys [of ?e2] _ _ _ _ zero(2) refl sample_merges refl sample_merges, of "0 :: int"]
  obtain mid last where run: "(projection_step sample_projection)\<^sup>*\<^sup>* (emptySnapshots, [(?e1, Loading), (?e2, Loading)]) mid" "(projection_step sample_projection)\<^sup>*\<^sup>* mid last"
      "gm_get (sdSnapshots (fst mid)) ''p:{sn:SN1}:snapshot'' = Some (mergeSnapshot sample_projection (UnixMilli 0) None ?e2 2)"
      "gm_get (sdSnapshots (fst last)) ''p:{sn:SN1}:snapshot'' = Some (mergeSnapshot sample_projection (UnixMilli 0) None ?e1 1)"
      "\<forall>m. gm_get (lsMetrics (mergeSnapshot sample_projection (UnixMilli 0) None ?e1 1)) m = mergedValue sample_projection ?e1 None m"
    by (auto simp: zero(1))
  have "gm_get (lsMetrics (mergeSnapshot sample_projection (UnixMilli 0) None ?e1 1)) ''temp'' = None"
    using run(5) by (simp add: mergedValue_def sample_update_simps sample_metrics gm_get_def)
  then show ?thesis using run(1-4)
    by (intro exI [of _ mid] exI [of _ last] exI [of _ "mergeSnapshot sample_projection (UnixMilli 0) None ?e2 2"]
        exI [of _ "mergeSnapshot sample_projection (UnixMilli 0) None ?e1 1"]) (simp add: mergeSnapshot_cursor sample_update_simps)
qed

theorem reader_sees_merge_witness:
  "\<exists>db' m. ApplyEnvelope sample_projection fineCalls 0 (sample_update ''a'' 1000 [1]) emptySnapshots = (db', Inr (mergeSnapshot sample_projection 0 None (sample_update ''a'' 1000 [1]) 1)) \<and>
     ReadSnapshot sample_projection 120000000000 1800000000000 fineCalls 3000000000 [] ''SN1'' db' = Inr (Some m) \<and>
     smCursorSeq m = 1 \<and> gm_get (smMetrics m) ''soc'' = Some (Finite 1)"
proof -
  let ?e = "sample_update ''a'' 1000 [1]"
  let ?s = "mergeSnapshot sample_projection 0 None ?e 1"
  define db' where "db' = \<lparr>sdSeq = [(''p:{sn:SN1}:seq'', 1)], sdSnapshots = [(''p:{sn:SN1}:snapshot'', ?s)]\<rparr>"
  have app: "ApplyEnvelope sample_projection fineCalls 0 ?e emptySnapshots = (db', Inr ?s)"
    using sample_merges [of 0 "''a''" 1000 "[1]" 1]
    by (simp add: ApplyEnvelope_def loadSnapshot_def getBySnapshotKey_def sample_keys emptySnapshots_def fineCalls_def nextSeq_def incrSeq_def at0_def
        storeSnapshot_def gm_put_def gm_get_def UnixMilli_def db'_def)
  have pre: "sdSnapshots db' \<noteq> sdSnapshots emptySnapshots" "0 < (120000000000 :: int)" "0 < UnixMilli 3000000000" "0 < IngestedTimeUnixMs ?e"
    "\<forall>x. gm_get (sdSnapshots emptySnapshots) ''p:{sn:SN1}:snapshot'' = Some x \<longrightarrow> gm_wf (lsMetrics x)"
    by (simp_all add: db'_def emptySnapshots_def UnixMilli_def sample_update_simps)
  have "\<not> isVolatileMetricKey ''soc''" by code_simp
  then show ?thesis
    using app reader_sees_merge [OF app pre(1) sample_snapKey pre(5) fineCalls_get pre(2-4), of 1800000000000]
    by (auto simp: sample_keys mergeSnapshot_cursor mergedValue_def sample_update_simps sample_metrics gm_get_def)
qed

theorem projected_is_not_repaired_witness:
  "evaluateOne (sample_env\<lparr>deReadSnapshot := cursorReader sample_projection 120000000000 1800000000000 fineCalls 3000000000
       (projectionRun sample_projection sample_wire [sample_first] emptySnapshots)\<rparr>) sample_detector
     [(''ecoflow'', [(''SN1'', sample_coverage\<lparr>cwMaxUnixMS := 2000\<rparr>)])] 600000 sample_assignment = None"
proof -
  have ids: "iaDeviceID sample_assignment = []" "iaProviderDeviceID sample_assignment = ''SN1''" "iaProvider sample_assignment = ''ecoflow''"
    by (simp_all add: sample_assignment_def)
  have wire: "sample_wire [1] = Inr (sample_update ''a'' 1000 [1])" by (simp add: sample_wire_def)
  have "reachedBy sample_projection sample_wire [sample_first] (iaDeviceID sample_assignment) (iaProviderDeviceID sample_assignment) 1000"
    unfolding reachedBy_def using sample_fine(2) [of 3000000000] wire
    by (auto simp: ids sample_keys sample_update_simps ids_agree_def small_def
        intro!: exI [of _ "[]"] exI [of _ fineCalls] exI [of _ 3000000000] exI [of _ "[1]"] exI [of _ "sample_update ''a'' 1000 [1]"])
  from projected_is_not_repaired [OF _ this sample_config(1)] show ?thesis
    by (simp add: ids gm_get_def sample_config_values)
qed

theorem non_finite_is_never_applied_witness:
  "\<exists>pe. snd (handleMessage pe sample_wire fineCalls 0 [1] emptySnapshots) = Nak \<and>
     sdSnapshots (fst (handleMessage pe sample_wire fineCalls 0 [1] emptySnapshots)) = [] \<and>
     (let newer = emptySnapshots\<lparr>sdSnapshots := [(''p:{sn:SN1}:snapshot'', mergeSnapshot pe 0 None (sample_update ''b'' 2000 [2]) 1)]\<rparr>
      in handleMessage pe sample_wire fineCalls 0 [1] newer = (newer, Ack))"
proof -
  let ?pe = "sample_projection\<lparr>peParse := \<lambda>_. Some (JObject [(''soc'', JNumber (Inf True))])\<rparr>" and ?e = "sample_update ''a'' 1000 [1]"
  define newer where "newer = emptySnapshots\<lparr>sdSnapshots := [(''p:{sn:SN1}:snapshot'', mergeSnapshot ?pe 0 None (sample_update ''b'' 2000 [2]) 1)]\<rparr>"
  have "joinMetricPath [] ''soc'' = ''soc''" by code_simp
  then have inf: "gm_get (ExtractNumericMetrics (peParse ?pe) (EnvPayload ?e)) ''soc'' = Some (Inf True)" "\<not> isFinite (Inf True)"
    by (simp_all add: ExtractNumericMetrics_def sample_update_simps putMetric_def isFinite_def)
  have un: "sample_wire [1] = Inr ?e" by (simp add: sample_wire_def)
  note never = non_finite_is_never_applied [of sample_wire "[1]" ?e ?pe, OF un inf surjective_pairing [of "handleMessage ?pe sample_wire fineCalls 0 [1] _"]]
  have "handleMessage ?pe sample_wire fineCalls 0 [1] newer = (newer, Ack)"
    by (simp add: handleMessage_def un ApplyEnvelope_def loadSnapshot_def sample_keys getBySnapshotKey_def fineCalls_def newer_def gm_get_def
        keepsExisting_def mergeSnapshot_cursor sample_update_simps)
  moreover have "snd (handleMessage ?pe sample_wire fineCalls 0 [1] emptySnapshots) = Nak"
    "sdSnapshots (fst (handleMessage ?pe sample_wire fineCalls 0 [1] emptySnapshots)) = []"
    using never [of emptySnapshots] by (simp_all add: emptySnapshots_def)
  ultimately show ?thesis by (intro exI [of _ ?pe]) (simp add: newer_def Let_def)
qed

end
