(* ===== verification/Repair_Loop.thy ===== *)
theory Repair_Loop
  imports Replay_Properties Projection_Read Gap_Properties
begin

text \<open>
  The loop through the archive: what the coverage query finds in the manifest that the archive wrote,
  and what the detector concludes from it for a device that shares its objects with others. The query
  is the SQL text of \<open>CoverageByProviderDevices\<close> over the rows of the manifest.
\<close>

section \<open>The coverage query\<close>

definition coverageHits :: "ManifestRecord list \<Rightarrow> string \<Rightarrow> int \<Rightarrow> int \<Rightarrow> ManifestRecord list" where
  "coverageHits rows provider fromMS toMS =
     filter (\<lambda>m. mrProvider m = provider \<and> fromMS \<le> mrTSMaxUnixMS m \<and> mrTSMinUnixMS m \<le> toMS) rows"

definition coverageGroup :: "ManifestRecord list \<Rightarrow> string \<Rightarrow> string \<times> int \<times> int \<times> int" where
  "coverageGroup hits pid =
     (let group = filter (\<lambda>m. pid \<in> set (mrProviderDeviceIDs m)) hits
      in (pid, Min (set (map mrTSMinUnixMS group)), Max (set (map mrTSMaxUnixMS group)),
          sum_list (map (\<lambda>m. int (count_list (mrProviderDeviceIDs m) pid)) group)))"

definition coverageQuery :: "ManifestRecord list \<Rightarrow> string \<Rightarrow> int \<Rightarrow> int \<Rightarrow> string list \<Rightarrow> string + coverage_row list \<times> string option" where
  "coverageQuery rows provider fromMS toMS ids =
     (let hits = coverageHits rows provider fromMS toMS
      in Inr (map (\<lambda>pid. Inr (coverageGroup hits pid)) (filter (\<lambda>pid. \<exists>m \<in> set hits. pid \<in> set (mrProviderDeviceIDs m)) ids), None))"

lemma dedupeUpper_set:
  "distinct out \<Longrightarrow> set seen = set out \<Longrightarrow>
     distinct (dedupeUpper seen out vs) \<and> set (dedupeUpper seen out vs) = set out \<union> {ToUpper (TrimSpace v) | v. v \<in> set vs \<and> ToUpper (TrimSpace v) \<noteq> []}"
proof (induction vs arbitrary: seen out)
  case (Cons v vs)
  show ?case
  proof (cases "ToUpper (TrimSpace v) = [] \<or> ToUpper (TrimSpace v) \<in> set seen")
    case True
    then show ?thesis using Cons by (auto simp: Let_def)
  next
    case False
    then show ?thesis using Cons.IH [of "out @ [ToUpper (TrimSpace v)]" "ToUpper (TrimSpace v) # seen"] Cons.prems by (auto simp: Let_def)
  qed
qed auto

lemma normalizeProviderDeviceIDs_set:
  "distinct (normalizeProviderDeviceIDs vs)" "set (normalizeProviderDeviceIDs vs) = {ToUpper (TrimSpace v) | v. v \<in> set vs \<and> ToUpper (TrimSpace v) \<noteq> []}"
  using dedupeUpper_set [of "[]" "[]" vs] by (simp_all add: normalizeProviderDeviceIDs_def)

lemma scanCoverage_get:
  assumes "distinct ids" "\<forall>i \<in> set ids. fst (g i) = i \<and> ToUpper (TrimSpace i) = i \<and> i \<noteq> [] \<and> 0 \<le> snd (snd (snd (g i))) \<and> snd (snd (snd (g i))) < 2 ^ 63"
  shows "\<exists>out'. scanCoverage out (map (\<lambda>i. Inr (g i)) ids) = Inr out' \<and>
    (\<forall>i. gm_get out' i = (if i \<in> set ids then Some \<lparr>cwProviderDeviceID = i, cwMinUnixMS = fst (snd (g i)), cwMaxUnixMS = fst (snd (snd (g i))),
       cwObjectCount = snd (snd (snd (g i)))\<rparr> else gm_get out i))"
  using assms
proof (induction ids arbitrary: out)
  case (Cons j ids)
  obtain a b c where g: "g j = (j, a, b, c)" using Cons.prems(2) by (cases "g j") auto
  have j: "ToUpper (TrimSpace j) = j" "j \<noteq> []" "0 \<le> c" "c < 2 ^ 63" using Cons.prems(2) g by auto
  let ?out = "gm_put j \<lparr>cwProviderDeviceID = j, cwMinUnixMS = a, cwMaxUnixMS = b, cwObjectCount = c\<rparr> out"
  have "scanCoverage out (map (\<lambda>i. Inr (g i)) (j # ids)) = scanCoverage ?out (map (\<lambda>i. Inr (g i)) ids)"
    using j by (simp add: g Let_def)
  then show ?case using Cons.IH [of ?out] Cons.prems g by auto
qed simp

text \<open>The window of a device spans every object that lists it.\<close>

lemma coverageGroup_count:
  assumes "sum_list (map (\<lambda>m. int (length (mrProviderDeviceIDs m))) rows) < 2 ^ 63"
  shows "0 \<le> snd (snd (snd (coverageGroup (coverageHits rows p f t) i)))" "snd (snd (snd (coverageGroup (coverageHits rows p f t) i))) < 2 ^ 63"
proof -
  have part: "sum_list (map (\<lambda>m. int (count_list (mrProviderDeviceIDs m) i)) (filter P ms)) \<le> sum_list (map (\<lambda>m. int (length (mrProviderDeviceIDs m))) ms)"
    for P and ms :: "ManifestRecord list" by (induction ms) (auto simp: count_le_length add_mono intro: order_trans)
  then show "0 \<le> snd (snd (snd (coverageGroup (coverageHits rows p f t) i)))" "snd (snd (snd (coverageGroup (coverageHits rows p f t) i))) < 2 ^ 63"
    using assms by (auto simp: coverageGroup_def coverageHits_def Let_def intro!: sum_list_nonneg le_less_trans [OF part])
qed

lemma coverage_of_row:
  assumes "row \<in> set rows" "mrProvider row = p" "TrimSpace p = p" "p \<noteq> []" "pid \<in> set (mrProviderDeviceIDs row)" "0 < f" "f \<le> t"
    and "f \<le> mrTSMaxUnixMS row" "mrTSMinUnixMS row \<le> t" "pid = ToUpper (TrimSpace raw)" "pid \<noteq> []" "raw \<in> set ids"
    and "sum_list (map (\<lambda>m. int (length (mrProviderDeviceIDs m))) rows) < 2 ^ 63"
  obtains covs cov r where "CoverageByProviderDevices (coverageQuery rows) p ids f t = Inr covs" "gm_get covs pid = Some cov"
    "cwMinUnixMS cov \<le> mrTSMinUnixMS row" "mrTSMaxUnixMS row \<le> cwMaxUnixMS cov"
    "r \<in> set rows" "cwMinUnixMS cov = mrTSMinUnixMS r" "\<exists>r' \<in> set rows. cwMaxUnixMS cov = mrTSMaxUnixMS r'"
proof -
  define hits where "hits = coverageHits rows p f t"
  define found where "found = filter (\<lambda>pid. \<exists>m \<in> set hits. pid \<in> set (mrProviderDeviceIDs m)) (normalizeProviderDeviceIDs ids)"
  define group where "group = filter (\<lambda>m. pid \<in> set (mrProviderDeviceIDs m)) hits"
  have row: "row \<in> set group" using assms(1,2,5,8,9) by (simp add: group_def hits_def coverageHits_def)
  have norm: "pid \<in> set (normalizeProviderDeviceIDs ids)" using assms(10-12) by (auto simp: normalizeProviderDeviceIDs_set)
  have pid: "pid \<in> set found" using norm row by (auto simp: found_def group_def)
  have ids: "distinct found" "\<forall>i \<in> set found. fst (coverageGroup hits i) = i \<and> ToUpper (TrimSpace i) = i \<and> i \<noteq> [] \<and>
      0 \<le> snd (snd (snd (coverageGroup hits i))) \<and> snd (snd (snd (coverageGroup hits i))) < 2 ^ 63"
    using coverageGroup_count [OF assms(13)] by (auto simp: hits_def found_def normalizeProviderDeviceIDs_set) (simp_all add: coverageGroup_def Let_def)
  obtain covs where covs: "scanCoverage [] (map (\<lambda>i. Inr (coverageGroup hits i)) found) = Inr covs" and
      get: "gm_get covs pid = Some \<lparr>cwProviderDeviceID = pid, cwMinUnixMS = fst (snd (coverageGroup hits pid)), cwMaxUnixMS = fst (snd (snd (coverageGroup hits pid))),
       cwObjectCount = snd (snd (snd (coverageGroup hits pid)))\<rparr>"
    using scanCoverage_get [OF ids, of "[]"] pid by auto
  have "CoverageByProviderDevices (coverageQuery rows) p ids f t = Inr covs"
    using assms(3,4,6,7) norm covs by (auto simp: CoverageByProviderDevices_def Let_def coverageQuery_def hits_def [symmetric] found_def [symmetric])
  moreover have span: "fst (snd (coverageGroup hits pid)) = Min (mrTSMinUnixMS ` set group)" "fst (snd (snd (coverageGroup hits pid))) = Max (mrTSMaxUnixMS ` set group)"
    by (simp_all add: coverageGroup_def Let_def group_def)
  moreover have "Min (mrTSMinUnixMS ` set group) \<le> mrTSMinUnixMS row" "mrTSMaxUnixMS row \<le> Max (mrTSMaxUnixMS ` set group)" using row by simp_all
  moreover have sub: "set group \<subseteq> set rows" by (auto simp: group_def hits_def coverageHits_def)
  moreover have "Min (mrTSMinUnixMS ` set group) \<in> mrTSMinUnixMS ` set group" "Max (mrTSMaxUnixMS ` set group) \<in> mrTSMaxUnixMS ` set group"
    using row by (auto intro!: Min_in Max_in)
  then obtain r r' where "r \<in> set rows" "Min (mrTSMinUnixMS ` set group) = mrTSMinUnixMS r" "r' \<in> set rows" "Max (mrTSMaxUnixMS ` set group) = mrTSMaxUnixMS r'"
    using sub by blast
  ultimately show thesis by (intro that [OF _ get]) auto
qed

section \<open>Shared objects\<close>

lemma replanned:
  assumes "config_ok cfg" "small c" "small now" "small (cwMinUnixMS cov)" "small (cwMaxUnixMS cov)" "deNewV7 env a \<noteq> None"
    and "validCoverage cov" "0 < c" "c + Milliseconds (dcLagThreshold cfg) < t2" "t2 \<le> cwMaxUnixMS cov" "t2 \<le> now" "cwMinUnixMS cov \<le> c"
  obtains plan where "planRepair env cfg a cov c now = Some plan" "t2 \<le> grToUnixMs (plRequest plan)"
proof -
  have ms: "0 \<le> Milliseconds (dcLagThreshold cfg)" "0 \<le> Milliseconds (dcWindowPadding cfg)"
    using assms(1) Milliseconds_nonneg by (auto simp: config_ok_def)
  then have "repairStart cfg cov c < min (cwMaxUnixMS cov) now" using assms(8-12) by (auto simp: repairStart_def)
  then obtain frm reason where "planWindow cfg cov c now = Some (frm, min (cwMaxUnixMS cov) now, reason)"
    using planWindow_eq [OF assms(1-5)] assms(7-10) by (auto split: if_splits)
  moreover obtain rid where "deNewV7 env a = Some rid" using assms(6) by blast
  ultimately show thesis using assms(10,11) by (intro that) (auto simp: planRepair_def Let_def)
qed

lemma covers_device:
  assumes "covers s env" "rowOf (segmentRecord cfg s req) row" "rmProviderDeviceID (manifestRecordMetaFromEnvelope env) \<noteq> []" "0 < envelopeTimestampUnixMS env"
  shows "ToUpper (rmProviderDeviceID (manifestRecordMetaFromEnvelope env)) \<in> set (mrProviderDeviceIDs row)"
    "mrTSMinUnixMS row \<le> envelopeTimestampUnixMS env" "envelopeTimestampUnixMS env \<le> mrTSMaxUnixMS row"
proof -
  note f = rowOf_fields [OF assms(2)]
  let ?p = "rmProviderDeviceID (manifestRecordMetaFromEnvelope env)"
  have trim: "TrimSpace ?p = ?p" by (simp add: manifestRecordMetaFromEnvelope_def Let_def)
  then show "ToUpper ?p \<in> set (mrProviderDeviceIDs row)"
    using assms(1,3) normalizeStringSet_mem(2) [of ?p "map fst (sgProviderDeviceIDs s)"] by (simp add: covers_def f segmentRecord_def)
  show "mrTSMinUnixMS row \<le> envelopeTimestampUnixMS env" "envelopeTimestampUnixMS env \<le> mrTSMaxUnixMS row"
    using assms(1) stamped_timestamp [OF assms(4)] by (auto simp: covers_def f segmentRecord_def)
qed

text \<open>C32: The coverage of a device is that of the objects that list it, not that of its own envelopes. A device that has
  fallen silent, and whose projection has its last envelope, is planned for repair again all the same as long as another
  device that shares an object with it was heard later by more than the lag threshold.\<close>

theorem shared_objects_are_replanned:
  assumes su: "suOutbox su = None" "suManifestStore su" "prefix_ok (suConfig su)" "codec_small ec"
    and w: "w = archiveRun su grow ec zs evs (newArchiveWorker (suConfig su) st)" "gm_get (awSegments w) k = Some s" "flushSegmentLocked su zs sv s w = (None, w')"
    and d: "d1 \<in> set (sgPending s)" "d2 \<in> set (sgPending s)" "ecUnmarshal ec (dlData d1) = Inr e1" "ecUnmarshal ec (dlData d2) = Inr e2"
    and p: "\<forall>d \<in> set (sgPending s). \<exists>env. ecUnmarshal ec (dlData d) = Inr env \<and> providerOf env = p" "p \<noteq> []"
    and rows: "rows = map snd (asManifests (awStore w'))" "\<forall>r \<in> set rows. 0 < mrTSMinUnixMS r \<and> mrTSMinUnixMS r \<le> mrTSMaxUnixMS r \<and> mrTSMaxUnixMS r < 2 ^ 62"
      "sum_list (map (\<lambda>m. int (length (mrProviderDeviceIDs m))) rows) < 2 ^ 63"
    and a: "iaProvider a = p" "iaProviderDeviceID a = ToUpper (rmProviderDeviceID (manifestRecordMetaFromEnvelope e1))" "iaProviderDeviceID a \<noteq> []" "iaProviderDeviceID a \<in> set ids"
    and e: "0 < envelopeTimestampUnixMS e1" "0 < envelopeTimestampUnixMS e2" "envelopeTimestampUnixMS e2 \<le> now" "rmProviderDeviceID (manifestRecordMetaFromEnvelope e2) \<noteq> []"
    and c: "deReadSnapshot env (iaDeviceID a) (iaProviderDeviceID a) = Inr (Some c)" "envelopeTimestampUnixMS e1 \<le> c" "c + Milliseconds (dcLagThreshold cfg) < envelopeTimestampUnixMS e2"
    and win: "0 < f" "f \<le> t" "f \<le> envelopeTimestampUnixMS e2" "envelopeTimestampUnixMS e1 \<le> t"
    and cfg: "config_ok cfg" "now < 2 ^ 62" "deNewV7 env a \<noteq> None"
  shows "\<exists>covs plan. CoverageByProviderDevices (coverageQuery rows) p ids f t = Inr covs \<and> evaluateOne env cfg [(p, covs)] now a = Some plan \<and>
    envelopeTimestampUnixMS e2 \<le> grToUnixMs (plRequest plan)"
proof -
  obtain req row where row: "gm_get (asManifests (awStore w')) (TrimSpace (acObjectBucket (suConfig su)), segKey (suConfig su) (sgHour s) (sgShard s) (sgPart s)) = Some row"
      "rowOf (segmentRecord (suConfig su) s req) row" and ix: "segment_indexed ec s"
    by (rule flushed_row [OF su w(1,2) d(1) w(3)])
  have mem: "row \<in> set rows" using gm_get_SomeD [OF row(1)] by (force simp: rows(1))
  have cov: "covers s e1" "covers s e2" using ix d unfolding segment_indexed_def by blast+
  have ne: "rmProviderDeviceID (manifestRecordMetaFromEnvelope e1) \<noteq> []" using a(2,3) by auto
  note r1 = covers_device [OF cov(1) row(2) ne e(1)] and r2 = covers_device [OF cov(2) row(2) e(4) e(2)]
  have prov: "p = providerOf e1" using p(1) d(1,3) by force
  have tp: "TrimSpace p = p" "ToLower (TrimSpace p) = p" by (simp_all add: prov providerOf_def)
  have "segmentProvider (sgProviders s) = p" using one_provider [OF ix _ p] d(1) by force
  then have pr: "mrProvider row = p" using rowOf_fields(1) [OF row(2)] tp(2) p(2) by (simp add: segmentRecord_def)
  have pid: "iaProviderDeviceID a \<in> set (mrProviderDeviceIDs row)" "iaProviderDeviceID a = ToUpper (TrimSpace (iaProviderDeviceID a))"
    using r1(1) a(2) by (simp_all add: manifestRecordMetaFromEnvelope_def Let_def)
  obtain covs cv r where cv: "CoverageByProviderDevices (coverageQuery rows) p ids f t = Inr covs" "gm_get covs (iaProviderDeviceID a) = Some cv"
      "cwMinUnixMS cv \<le> mrTSMinUnixMS row" "mrTSMaxUnixMS row \<le> cwMaxUnixMS cv" "r \<in> set rows" "cwMinUnixMS cv = mrTSMinUnixMS r" "\<exists>r' \<in> set rows. cwMaxUnixMS cv = mrTSMaxUnixMS r'"
    by (rule coverage_of_row [OF mem pr tp(1) p(2) pid(1) win(1,2) order_trans [OF win(3) r2(3)] order_trans [OF r1(2) win(4)] pid(2) a(3,4) rows(3)])
  have b: "0 < cwMinUnixMS cv" "cwMaxUnixMS cv < 2 ^ 62" "mrTSMinUnixMS row \<le> mrTSMaxUnixMS row" using rows(2) cv(5-7) mem by auto
  have ms: "0 \<le> Milliseconds (dcLagThreshold cfg)" using cfg(1) Milliseconds_nonneg by (auto simp: config_ok_def)
  have small: "small c" "small now" "small (cwMinUnixMS cv)" "small (cwMaxUnixMS cv)"
    using b cv(3,4) c(2,3) e ms r2(3) cfg(2) by (auto simp: small_def)
  have plan: "validCoverage cv" "0 < c" "envelopeTimestampUnixMS e2 \<le> cwMaxUnixMS cv" "cwMinUnixMS cv \<le> c"
    using b cv(3,4) c(2) e(1) r1(2) r2(3) by (auto simp: validCoverage_def)
  obtain pl where "planRepair env cfg a cv c now = Some pl" "envelopeTimestampUnixMS e2 \<le> grToUnixMs (plRequest pl)"
    by (rule replanned [OF cfg(1) small cfg(3) plan(1,2) c(3) plan(3) e(3) plan(4)])
  then show ?thesis using cv(1,2) c(1) a(1) by (intro exI [of _ covs] exI [of _ pl]) (simp add: evaluateOne_def gm_get_def)
qed

section \<open>The sample\<close>

definition shared_env :: "string \<Rightarrow> int \<Rightarrow> TelemetryEnvelope" where
  "shared_env sn ts = zeroEnvelope\<lparr>EcoflowSn := sn, Shard := 69, ShardCount := 128, IngestedTimeUnixMs := ts, Labels := [(''provider'', ''ecoflow'')]\<rparr>"

definition shared_codec :: envelope_codec where
  "shared_codec = \<lparr>ecUnmarshal = (\<lambda>data. if data = [1] then Inr (shared_env ''SN1'' 7200000) else if data = [2] then Inr (shared_env ''SN2'' 7400000) else Inl ''bad wire format''),
     ecMarshal = (\<lambda>env. if env = shared_env ''SN1'' 7200000 then Inr [1] else if env = shared_env ''SN2'' 7400000 then Inr [2] else Inl ''cannot marshal'')\<rparr>"

lemma shared_codec_simps: "ecUnmarshal shared_codec [1] = Inr (shared_env ''SN1'' 7200000)" "ecUnmarshal shared_codec [2] = Inr (shared_env ''SN2'' 7400000)"
  "ecMarshal shared_codec (shared_env ''SN1'' 7200000) = Inr [1]" "ecMarshal shared_codec (shared_env ''SN2'' 7400000) = Inr [2]" "codec_small shared_codec"
  by (auto simp: shared_codec_def shared_env_def zeroEnvelope_def codec_small_def split: if_splits)

lemma shared_env_simps: "TrimSpace (Key (shared_env sn ts)) = []" "envelopeTimestampUnixMS (shared_env sn ts) = (if 0 < ts then ts else 0)"
  "rmProviderDeviceID (manifestRecordMetaFromEnvelope (shared_env sn ts)) = TrimSpace sn" "providerOf (shared_env sn ts) = ''ecoflow''"
  "0 < ts \<Longrightarrow> recordTimestampUnixMilli now (shared_env sn ts) = ts"
proof -
  have "ToLower (TrimSpace ''ecoflow'') = ''ecoflow''" "TrimSpace [] = []" by code_simp+
  then show "TrimSpace (Key (shared_env sn ts)) = []" "envelopeTimestampUnixMS (shared_env sn ts) = (if 0 < ts then ts else 0)"
    "rmProviderDeviceID (manifestRecordMetaFromEnvelope (shared_env sn ts)) = TrimSpace sn" "providerOf (shared_env sn ts) = ''ecoflow''"
    "0 < ts \<Longrightarrow> recordTimestampUnixMilli now (shared_env sn ts) = ts"
    by (simp_all add: Key_def shared_env_def zeroEnvelope_def envelopeTimestampUnixMS_def manifestRecordMetaFromEnvelope_def label_def gm_get_def providerOf_def
        recordTimestampUnixMilli_def)
qed

lemma shared_keys: "deliveryKey (suConfig (sample_archive 10)) t (shared_env ''SN1'' 7200000) = (7200000 * 1000000, 69)"
  "deliveryKey (suConfig (sample_archive 10)) t (shared_env ''SN2'' 7400000) = (7200000 * 1000000, 69)"
  by (simp_all add: shared_env_def zeroEnvelope_def deliveryKey_def envelopePartitionTime_def TruncateHour_def hour_def minute_def second_def)

lemma shared_rows:
  assumes "sgTsMin s = 7200000" "sgTsMax s = 7400000" "sgProviderDeviceIDs s = [(''SN1'', ()), (''SN2'', ())]"
    and "rows = [normalizeManifestRecord (segmentRecord cfg s req) now]"
  shows "\<forall>r \<in> set rows. 0 < mrTSMinUnixMS r \<and> mrTSMinUnixMS r \<le> mrTSMaxUnixMS r \<and> mrTSMaxUnixMS r < 2 ^ 62"
    "sum_list (map (\<lambda>m. int (length (mrProviderDeviceIDs m))) rows) < 2 ^ 63"
proof -
  have "normalizeStringSet (normalizeStringSet [''SN1'', ''SN2''] True) True = [''SN1'', ''SN2'']" by code_simp
  then show "\<forall>r \<in> set rows. 0 < mrTSMinUnixMS r \<and> mrTSMinUnixMS r \<le> mrTSMaxUnixMS r \<and> mrTSMaxUnixMS r < 2 ^ 62"
    "sum_list (map (\<lambda>m. int (length (mrProviderDeviceIDs m))) rows) < 2 ^ 63"
    using assms by (simp_all add: normalizeManifestRecord_def segmentRecord_def)
qed

theorem shared_objects_are_replanned_witness:
  "\<exists>w s w' covs plan. w = archiveRun indexed_sample id shared_codec sample_zstd [Deliver fine_services sample_clock (sample_delivery 3 [1]),
       Deliver fine_services sample_clock (sample_delivery 4 [2])] (newArchiveWorker (suConfig indexed_sample) emptyStore) \<and>
     flushSegmentLocked indexed_sample sample_zstd fine_services s w = (None, w') \<and>
     CoverageByProviderDevices (coverageQuery (map snd (asManifests (awStore w')))) ''ecoflow'' [''SN1''] 1 7500000 = Inr covs \<and>
     evaluateOne (sample_env\<lparr>deReadSnapshot := \<lambda>_ _. Inr (Some 7200000)\<rparr>) sample_detector [(''ecoflow'', covs)] 7500000 sample_assignment = Some plan"
proof -
  define w where "w = archiveRun indexed_sample id shared_codec sample_zstd [Deliver fine_services sample_clock (sample_delivery 3 [1]),
       Deliver fine_services sample_clock (sample_delivery 4 [2])] (newArchiveWorker (suConfig indexed_sample) emptyStore)"
  let ?env = "sample_env\<lparr>deReadSnapshot := \<lambda>_ _. Inr (Some 7200000)\<rparr>"
  have sn: "TrimSpace ''SN1'' = ''SN1''" "TrimSpace ''SN2'' = ''SN2''" "ToUpper ''SN1'' = ''SN1''" by code_simp+
  obtain s w' where s: "gm_get (awSegments w) (mapKey (7200000 * 1000000) 69) = Some s" "sgPending s = [sample_delivery 3 [1], sample_delivery 4 [2]]"
      and flush: "flushSegmentLocked indexed_sample sample_zstd fine_services s w = (None, w')"
      and rows: "map snd (asManifests (awStore w')) = [normalizeManifestRecord (segmentRecord (suConfig (sample_archive 10)) s
         (segmentRequest (suConfig (sample_archive 10)) s (40 # sgWritten s))) (svNow fine_services)]"
      and seg: "sgTsMin s = 7200000" "sgTsMax s = 7400000" "sgProviderDeviceIDs s = [(''SN1'', ()), (''SN2'', ())]"
    by (rule pair_flushed [OF shared_codec_simps(1-4) shared_env_simps(1,1) shared_keys w_def]) (simp add: shared_env_simps sn addTo_def gm_put_def)
  have d: "sample_delivery 3 [1] \<in> set (sgPending s)" "sample_delivery 4 [2] \<in> set (sgPending s)" by (simp_all add: s(2))
  have e: "ecUnmarshal shared_codec (dlData (sample_delivery 3 [1])) = Inr (shared_env ''SN1'' 7200000)" "ecUnmarshal shared_codec (dlData (sample_delivery 4 [2])) = Inr (shared_env ''SN2'' 7400000)"
    by (simp_all add: sample_delivery_def shared_codec_simps)
  have prov: "\<forall>d \<in> set (sgPending s). \<exists>env. ecUnmarshal shared_codec (dlData d) = Inr env \<and> providerOf env = ''ecoflow''"
    using e by (auto simp: s(2) shared_env_simps)
  have pre: "prefix_ok (suConfig indexed_sample)" using sample_prefix by simp
  have a: "iaProvider sample_assignment = ''ecoflow''" "iaProviderDeviceID sample_assignment = ''SN1''" by (simp_all add: sample_assignment_def)
  have "\<exists>covs plan. CoverageByProviderDevices (coverageQuery (map snd (asManifests (awStore w')))) ''ecoflow'' [''SN1''] 1 7500000 = Inr covs \<and>
      evaluateOne ?env sample_detector [(''ecoflow'', covs)] 7500000 sample_assignment = Some plan \<and>
      envelopeTimestampUnixMS (shared_env ''SN2'' 7400000) \<le> grToUnixMs (plRequest plan)"
    by (rule shared_objects_are_replanned [OF indexed_sample_simps(2,3) pre shared_codec_simps(5) w_def s(1) flush d e prov _ refl shared_rows [OF seg rows],
          where c = 7200000])
      (simp_all add: a sn shared_env_simps sample_config sample_config_values sample_env_def)
  with flush show ?thesis using w_def by blast
qed

end
