(* ===== verification/Rollup_Metrics.thy ===== *)
theory Rollup_Metrics
  imports Current_Telemetry Envelope Go_Time
begin

text \<open>
  What a rollup takes from an envelope (\<open>internal/rollupworker/types.go\<close>, \<open>metrics.go\<close>): the metrics that the
  payload reports or that follow from what it reports, the observations of the solar ports, and the
  time. A value with a flag that says whether it is there is an option.
\<close>

section \<open>Samples\<close>

record RollupMetrics =
  rmSOC :: "float64 option"
  rmACIn :: "float64 option"
  rmACOutput :: "float64 option"
  rmPV :: "float64 option"
  rmDC :: "float64 option"
  rmLoad :: "float64 option"
  rmNet :: "float64 option"
  rmBattery :: "float64 option"
  rmTemp :: "float64 option"
  rmSolarGeneratedWh :: "float64 option"

definition noMetrics :: RollupMetrics where
  "noMetrics = \<lparr>rmSOC = None, rmACIn = None, rmACOutput = None, rmPV = None, rmDC = None, rmLoad = None, rmNet = None,
     rmBattery = None, rmTemp = None, rmSolarGeneratedWh = None\<rparr>"

record PVPortObservation =
  poPortID :: string
  poPortLabel :: string
  poVolts :: float64
  poAmps :: float64
  poWatts :: float64

record RollupSample =
  rsProvider :: string
  rsProviderDeviceID :: string
  rsDeviceID :: string
  rsEventTime :: int
  rsEventUnixMs :: int
  rsIngestedUnixMs :: int
  rsMetrics :: RollupMetrics
  rsPVPorts :: "PVPortObservation list"

definition HasAny :: "RollupMetrics \<Rightarrow> bool" where
  "HasAny m \<longleftrightarrow> rmSOC m \<noteq> None \<or> rmACIn m \<noteq> None \<or> rmACOutput m \<noteq> None \<or> rmPV m \<noteq> None \<or> rmDC m \<noteq> None \<or> rmLoad m \<noteq> None \<or>
     rmNet m \<noteq> None \<or> rmBattery m \<noteq> None \<or> rmTemp m \<noteq> None \<or> rmSolarGeneratedWh m \<noteq> None"

datatype rollup_error = ErrInvalidRollupEnvelope | ErrNoRollupMetrics | RollupFailed string

text \<open>The code from outside: whether a text is a UUID, the tree of a payload that is valid JSON, the value at a path of
  a tree, the rounding of numbers, and the conversion to an integer of a number that has no integer of 64 bits.\<close>

record rollup_reader =
  rxIsUUID :: "string \<Rightarrow> bool"
  rxParse :: "byte list \<Rightarrow> gjson option"
  rxGet :: "gjson \<Rightarrow> string \<Rightarrow> gjson option"
  rxRound :: "real \<Rightarrow> float64"
  rxInt64 :: "float64 \<Rightarrow> int"

section \<open>Numbers of a payload\<close>

text \<open>A value that is numeric, and what it counts as.\<close>

fun numericResult :: "gjson \<Rightarrow> float64 option" where
  "numericResult (JNumber x) = Some x"
| "numericResult JTrue = Some (Finite 1)"
| "numericResult JFalse = Some (Finite 0)"
| "numericResult _ = None"

definition numberAt :: "rollup_reader \<Rightarrow> gjson \<Rightarrow> string \<Rightarrow> float64 option" where
  "numberAt rx doc path = (case rxGet rx doc path of None \<Rightarrow> None | Some v \<Rightarrow> numericResult v)"

fun firstNumber :: "rollup_reader \<Rightarrow> gjson \<Rightarrow> string list \<Rightarrow> float64 option" where
  "firstNumber rx doc [] = None"
| "firstNumber rx doc (path # paths) = (case numberAt rx doc path of Some v \<Rightarrow> Some v | None \<Rightarrow> firstNumber rx doc paths)"

fun firstPresentNumber :: "rollup_reader \<Rightarrow> gjson \<Rightarrow> string list \<Rightarrow> float64 option" where
  "firstPresentNumber rx doc [] = None"
| "firstPresentNumber rx doc (path # paths) =
     (case firstNumber rx doc [path] of Some v \<Rightarrow> Some v | None \<Rightarrow> firstPresentNumber rx doc paths)"

definition outOfRange :: "real \<Rightarrow> float64 \<Rightarrow> bool" where
  "outOfRange maxAbs v \<longleftrightarrow> fless v (Finite (- maxAbs)) \<or> fless (Finite maxAbs) v"

fun firstNumberCapped :: "rollup_reader \<Rightarrow> gjson \<Rightarrow> real \<Rightarrow> string list \<Rightarrow> float64 option" where
  "firstNumberCapped rx doc maxAbs [] = None"
| "firstNumberCapped rx doc maxAbs (path # paths) =
     (case numberAt rx doc path of
        None \<Rightarrow> firstNumberCapped rx doc maxAbs paths
      | Some v \<Rightarrow> if outOfRange maxAbs v then firstNumberCapped rx doc maxAbs paths else Some v)"

definition maxPresentCapped :: "rollup_reader \<Rightarrow> gjson \<Rightarrow> real \<Rightarrow> string list \<Rightarrow> float64 option" where
  "maxPresentCapped rx doc maxAbs paths =
     fold (\<lambda>path found.
         case firstNumber rx doc [path] of
           None \<Rightarrow> found
         | Some v \<Rightarrow>
             if outOfRange maxAbs v then found
             else (let normalized = fmax (Finite 0) v
                   in case found of None \<Rightarrow> Some normalized
                                  | Some maxValue \<Rightarrow> Some (if fless maxValue normalized then normalized else maxValue)))
       paths None"

definition sumIfPresent :: "rollup_reader \<Rightarrow> gjson \<Rightarrow> string list \<Rightarrow> float64 option" where
  "sumIfPresent rx doc paths =
     fold (\<lambda>path acc. case numberAt rx doc path of None \<Rightarrow> acc | Some v \<Rightarrow> Some (fadd (rxRound rx) (valueOr0 acc) v)) paths None"

definition sumNonNegativeIfPresent :: "rollup_reader \<Rightarrow> gjson \<Rightarrow> string list \<Rightarrow> float64 option" where
  "sumNonNegativeIfPresent rx doc paths =
     fold (\<lambda>path acc. case numberAt rx doc path of None \<Rightarrow> acc | Some v \<Rightarrow> Some (fadd (rxRound rx) (valueOr0 acc) (fmax (Finite 0) v))) paths None"

definition sumPositiveIfPresent :: "rollup_reader \<Rightarrow> gjson \<Rightarrow> string list \<Rightarrow> float64 option" where
  "sumPositiveIfPresent rx doc paths =
     fold (\<lambda>path acc. case firstNumber rx doc [path] of
             None \<Rightarrow> acc
           | Some v \<Rightarrow> if fle v (Finite 0) then acc else Some (fadd (rxRound rx) (valueOr0 acc) v)) paths None"

text \<open>The conversion of a number to an integer truncates; where the result does not fit, the machine decides.\<close>

definition toInt64 :: "rollup_reader \<Rightarrow> float64 \<Rightarrow> int" where
  "toInt64 rx v =
     (case v of
        Finite x \<Rightarrow> (let n = (if 0 \<le> x then \<lfloor>x\<rfloor> else \<lceil>x\<rceil>) in if - (2 ^ 63) \<le> n \<and> n < 2 ^ 63 then n else rxInt64 rx v)
      | _ \<Rightarrow> rxInt64 rx v)"

definition isWhole :: "float64 \<Rightarrow> bool" where
  "isWhole v = (case v of Finite x \<Rightarrow> x = of_int \<lfloor>x\<rfloor> | Inf s \<Rightarrow> True | NaN \<Rightarrow> False)"

definition clampNonNegative :: "float64 \<Rightarrow> float64" where
  "clampNonNegative v = (if \<not> isFinite v \<or> fless v (Finite 0) then Finite 0 else v)"

definition normalizeMPPTVoltageVolts :: "rollup_reader \<Rightarrow> float64 \<Rightarrow> float64" where
  "normalizeMPPTVoltageVolts rx v =
     (if fle (Finite 100) (fabs v) \<and> isWhole v then fscale (rxRound rx) v
      else if fless (Finite 1000) (fabs v) then fscale (rxRound rx) v else v)"

definition normalizeMPPTCurrentAmps :: "rollup_reader \<Rightarrow> float64 \<Rightarrow> float64" where
  "normalizeMPPTCurrentAmps rx v =
     (if fle (Finite 1) (fabs v) \<and> isWhole v then fscale (rxRound rx) v
      else if fless (Finite 200) (fabs v) then fscale (rxRound rx) v else v)"

definition hasNonZero :: "float64 option \<Rightarrow> bool" where
  "hasNonZero m = (case m of None \<Rightarrow> False | Some v \<Rightarrow> fless (Finite (1/2)) (fabs v))"

definition sign :: "float64 \<Rightarrow> int" where
  "sign v = (if fless (Finite 0) v then 1 else if fless v (Finite 0) then -1 else 0)"

section \<open>Solar ports\<close>

definition solarPowerEstimateMinWatts :: real where "solarPowerEstimateMinWatts = 1/2"

definition hasAnyPVPortKey :: "rollup_reader \<Rightarrow> gjson \<Rightarrow> string list \<Rightarrow> bool" where
  "hasAnyPVPortKey rx doc paths \<longleftrightarrow> list_ex (\<lambda>path. rxGet rx doc path \<noteq> None) paths"

text \<open>The loop over the keys of the state of a port, which both kinds of solar channel have.\<close>

definition idleState :: "rollup_reader \<Rightarrow> gjson \<Rightarrow> string list \<Rightarrow> bool" where
  "idleState rx doc keys \<longleftrightarrow> list_ex (\<lambda>key. case firstNumber rx doc [key] of None \<Rightarrow> False | Some state \<Rightarrow> toInt64 rx state \<le> 0) keys"

definition derivePVChannel :: "rollup_reader \<Rightarrow> gjson \<Rightarrow> string list \<Rightarrow> string list \<Rightarrow> string list \<Rightarrow> string list \<Rightarrow> string list \<Rightarrow> float64 option" where
  "derivePVChannel rx doc primaryKeys fallbackKeys voltsKeys ampsKeys idleStateKeys =
     (let floor = Finite solarPowerEstimateMinWatts;
          primary = maxPresentCapped rx doc 10000 primaryKeys;
          fallback = maxPresentCapped rx doc 10000 fallbackKeys;
          idle = idleState rx doc idleStateKeys;
          zeroIfKnown = (if primary \<noteq> None \<or> fallback \<noteq> None \<or> idle then Some (Finite 0) else None)
      in if primary \<noteq> None \<and> fless floor (valueOr0 primary) then primary
         else if fallback \<noteq> None \<and> fless floor (valueOr0 fallback) then fallback
         else case (firstPresentNumber rx doc voltsKeys, firstPresentNumber rx doc ampsKeys) of
                (Some volts, Some amps) \<Rightarrow>
                  (let power = fabs (fmul (rxRound rx) (normalizeMPPTVoltageVolts rx volts) (normalizeMPPTCurrentAmps rx amps))
                   in if fless (Finite 10000) power then zeroIfKnown
                      else if idle then Some (Finite 0)
                      else if fle power floor then Some (Finite 0)
                      else Some power)
              | _ \<Rightarrow> zeroIfKnown)"

record pvPortSpec =
  psPortID :: string
  psPortLabel :: string
  psVoltsKeys :: "string list"
  psAmpsKeys :: "string list"
  psWattsKeys :: "string list"
  psIdleStateKeys :: "string list"

text \<open>The expression \<open>^pv(\d+)(InVol|InAmp|ChargeWatts|InWatts|ChgState)$\<close> and the number in its first group, which
  \<open>strconv.Atoi\<close> refuses when it does not fit.\<close>

definition numberedPVPort :: "string \<Rightarrow> int option" where
  "numberedPVPort key =
     (if \<not> HasPrefix key ''pv'' then None
      else
        (let rest = drop 2 key; digits = takeWhile is_digit rest; suffix = dropWhile is_digit rest
         in if digits = [] \<or> suffix \<notin> {''InVol'', ''InAmp'', ''ChargeWatts'', ''InWatts'', ''ChgState''} then None
            else if 2 ^ 63 \<le> read_base 10 digits then None
            else Some (int (read_base 10 digits))))"

fun membersOf :: "gjson \<Rightarrow> (string \<times> gjson) list" where
  "membersOf (JObject ms) = ms"
| "membersOf _ = []"

definition numberedSpec :: "int \<Rightarrow> pvPortSpec" where
  "numberedSpec index =
     (if index = 1
      then \<lparr>psPortID = ''pv-1'', psPortLabel = ''PV 1'', psVoltsKeys = [''params.inVol'', ''params.pv1InVol''],
            psAmpsKeys = [''params.inAmp'', ''params.pv1InAmp''], psWattsKeys = [''params.pv1ChargeWatts'', ''params.pv1InWatts''],
            psIdleStateKeys = [''params.chgState'', ''params.pv1ChgState'']\<rparr>
      else
        (let prefix0 = ''params.pv'' @ Itoa index
         in \<lparr>psPortID = ''pv-'' @ Itoa index, psPortLabel = ''PV '' @ Itoa index, psVoltsKeys = [prefix0 @ ''InVol''],
             psAmpsKeys = [prefix0 @ ''InAmp''], psWattsKeys = [prefix0 @ ''ChargeWatts'', prefix0 @ ''InWatts''],
             psIdleStateKeys = [prefix0 @ ''ChgState'']\<rparr>))"

definition buildPVPortSpecs :: "rollup_reader \<Rightarrow> gjson \<Rightarrow> pvPortSpec list" where
  "buildPVPortSpecs rx doc =
     (if hasAnyPVPortKey rx doc [''params.inLvMpptVol'', ''params.inLvMpptAmp'', ''params.inLvMpptPwr'', ''params.inHvMpptVol'', ''params.inHvMpptAmp'', ''params.inHvMpptPwr'']
      then [\<lparr>psPortID = ''pv-low'', psPortLabel = ''PV Low'', psVoltsKeys = [''params.inLvMpptVol'', ''params.inVol''],
             psAmpsKeys = [''params.inLvMpptAmp'', ''params.inAmp''], psWattsKeys = [''params.pv1ChargeWatts'', ''params.inLvMpptPwr'', ''params.pv1InWatts''],
             psIdleStateKeys = [''params.chgState'']\<rparr>,
            \<lparr>psPortID = ''pv-high'', psPortLabel = ''PV High'', psVoltsKeys = [''params.inHvMpptVol'', ''params.pv2InVol''],
             psAmpsKeys = [''params.inHvMpptAmp'', ''params.pv2InAmp''], psWattsKeys = [''params.pv2ChargeWatts'', ''params.inHvMpptPwr'', ''params.pv2InWatts''],
             psIdleStateKeys = [''params.pv2ChgState'']\<rparr>]
      else
        (let keys = (case rxGet rx doc ''params'' of None \<Rightarrow> [] | Some v \<Rightarrow> map fst (membersOf v));
             indexes = filter (\<lambda>i. 0 < i) (List.map_filter (\<lambda>key. numberedPVPort (TrimSpace key)) keys)
         in map numberedSpec (sort (remdups (1 # indexes)))))"

definition derivePVPortObservation :: "rollup_reader \<Rightarrow> gjson \<Rightarrow> pvPortSpec \<Rightarrow> PVPortObservation option" where
  "derivePVPortObservation rx doc spec =
     (let volts = map_option (clampNonNegative \<circ> normalizeMPPTVoltageVolts rx) (firstPresentNumber rx doc (psVoltsKeys spec));
          amps = map_option (clampNonNegative \<circ> normalizeMPPTCurrentAmps rx) (firstPresentNumber rx doc (psAmpsKeys spec));
          idle = idleState rx doc (psIdleStateKeys spec);
          watts0 = (case firstPresentNumber rx doc (psWattsKeys spec) of
                      None \<Rightarrow> None
                    | Some w \<Rightarrow> if fle (Finite 0) w \<and> fle w (Finite 10000) then Some w else None);
          watts1 = (if fle (valueOr0 watts0) (Finite 0) \<and> volts \<noteq> None \<and> amps \<noteq> None \<and> \<not> idle
                    then Some (fmul (rxRound rx) (valueOr0 volts) (valueOr0 amps)) else watts0);
          watts = (if idle then Some (Finite 0) else watts1)
      in if volts = None \<and> amps = None \<and> watts = None then None
         else Some \<lparr>poPortID = psPortID spec, poPortLabel = psPortLabel spec, poVolts = valueOr0 volts, poAmps = valueOr0 amps,
                poWatts = clampNonNegative (valueOr0 watts)\<rparr>)"

definition extractPVPortObservations :: "rollup_reader \<Rightarrow> gjson \<Rightarrow> PVPortObservation list" where
  "extractPVPortObservations rx doc = List.map_filter (derivePVPortObservation rx doc) (buildPVPortSpecs rx doc)"

definition sumPVPortObservationWatts :: "rollup_reader \<Rightarrow> gjson \<Rightarrow> float64 option" where
  "sumPVPortObservationWatts rx doc =
     (let observations = extractPVPortObservations rx doc
      in if observations = [] then None else Some (fold (\<lambda>ob sum. fadd (rxRound rx) sum (poWatts ob)) observations (Finite 0)))"

definition derivePV :: "rollup_reader \<Rightarrow> gjson \<Rightarrow> float64 option" where
  "derivePV rx doc =
     (let low = derivePVChannel rx doc [''params.inLvMpptPwr'', ''param.powGetPvL''] [''params.pv1ChargeWatts'', ''params.pv1InWatts'']
                  [''params.inVol'', ''params.inLvMpptVol''] [''params.inAmp'', ''params.inLvMpptAmp''] [''params.chgState''];
          high = derivePVChannel rx doc [''params.inHvMpptPwr'', ''param.powGetPvH''] [''params.pv2ChargeWatts'', ''params.pv2InWatts'']
                  [''params.pv2InVol'', ''params.inHvMpptVol''] [''params.pv2InAmp'', ''params.inHvMpptAmp''] [''params.pv2ChgState'']
      in if hasAnyPVPortKey rx doc [''params.inLvMpptPwr'', ''param.powGetPvL'', ''params.inHvMpptPwr'', ''param.powGetPvH'',
              ''params.inLvMpptVol'', ''params.inLvMpptAmp'', ''params.inHvMpptVol'', ''params.inHvMpptAmp''] \<and> (low \<noteq> None \<or> high \<noteq> None)
         then Some (fadd (rxRound rx) (valueOr0 low) (valueOr0 high))
         else case sumPVPortObservationWatts rx doc of
                Some portSum \<Rightarrow> Some portSum
              | None \<Rightarrow> firstNumberCapped rx doc 10000 [''pvW''])"

section \<open>Load, battery and temperature\<close>

definition andersonPowerNoiseFloorWatts :: real where "andersonPowerNoiseFloorWatts = 1/2"
definition powerBalanceStateFloorWatts :: real where "powerBalanceStateFloorWatts = 20"
definition batteryVoltageMaxCanonical :: real where "batteryVoltageMaxCanonical = 1000"
definition batteryCurrentMaxCanonical :: real where "batteryCurrentMaxCanonical = 200"

definition externalOutputLoadFields :: "string list" where
  "externalOutputLoadFields =
     [''params.outAcL11Pwr'', ''params.outAcL12Pwr'', ''params.outAcL14Pwr'', ''params.outAcL21Pwr'', ''params.outAcL22Pwr'', ''params.outAcTtPwr'',
      ''params.outAc5p8Pwr'', ''params.outUsb1Pwr'', ''params.outUsb2Pwr'', ''params.outTypec1Pwr'', ''params.outTypec2Pwr'', ''params.outPrPwr'',
      ''params.outAdsPwr'', ''params.invOutWatts'', ''params.carWatts'', ''params.wireWatts'', ''params.usb1Watts'', ''params.usb2Watts'',
      ''params.qcUsb1Watts'', ''params.qcUsb2Watts'', ''params.typec1Watts'', ''params.typec2Watts'']"

definition extraBatteryTransferFields :: "string list" where
  "extraBatteryTransferFields = [''params.XT150Watts1'', ''params.XT150Watts2'', ''param.XT150Watts1'', ''param.XT150Watts2'']"

definition deriveAndersonPower :: "rollup_reader \<Rightarrow> gjson \<Rightarrow> float64 option" where
  "deriveAndersonPower rx doc =
     (let explicit = firstNumber rx doc [''params.outAdsPwr''];
          noise = Finite andersonPowerNoiseFloorWatts
      in case (firstNumber rx doc [''params.outAdsAmp''], firstNumber rx doc [''params.outAdsVol'']) of
           (Some amp, Some vol) \<Rightarrow>
             (let watts0 = fmul (rxRound rx) amp vol;
                  watts = (if fless watts0 (Finite 0) then Finite 0 else watts0)
              in case explicit of
                   None \<Rightarrow> Some watts
                 | Some e \<Rightarrow> if fless noise watts \<or> fle e noise then Some watts else Some e)
         | _ \<Rightarrow> explicit)"

definition deriveDC :: "rollup_reader \<Rightarrow> gjson \<Rightarrow> float64 option" where
  "deriveDC rx doc =
     (let base = sumIfPresent rx doc [''params.carWatts'', ''params.wireWatts'', ''params.usb1Watts'', ''params.usb2Watts'', ''params.qcUsb1Watts'',
            ''params.qcUsb2Watts'', ''params.typec1Watts'', ''params.typec2Watts'', ''params.outUsb1Pwr'', ''params.outUsb2Pwr'', ''params.outTypec1Pwr'',
            ''params.outTypec2Pwr'', ''params.outPrPwr'']
      in case deriveAndersonPower rx doc of
           None \<Rightarrow> base
         | Some anderson \<Rightarrow> Some (fadd (rxRound rx) (valueOr0 base) anderson))"

text \<open>The values that an iteration visits: the elements of an array, the members of an object, or a lone value itself.\<close>

fun valuesOf :: "gjson \<Rightarrow> gjson list" where
  "valuesOf (JArray vs) = vs"
| "valuesOf (JObject ms) = map snd ms"
| "valuesOf v = [v]"

definition sumExtraBatteryPackCharge :: "rollup_reader \<Rightarrow> gjson \<Rightarrow> float64" where
  "sumExtraBatteryPackCharge rx doc =
     (let addRow = (\<lambda>row sum. case numberAt rx row ''curPower'' of
              None \<Rightarrow> sum
            | Some curPower \<Rightarrow>
                if fle curPower (Finite 0) then sum
                else case numberAt rx row ''avaFlag'' of
                       Some available \<Rightarrow> if fle available (Finite 0) then sum else fadd (rxRound rx) sum curPower
                     | None \<Rightarrow> fadd (rxRound rx) sum curPower);
          addRows = (\<lambda>path sum. case rxGet rx doc path of None \<Rightarrow> sum | Some rows \<Rightarrow> fold addRow (valuesOf rows) sum)
      in addRows ''params.watts.values'' (addRows ''params.watts'' (Finite 0)))"

definition extraBatteryChargeTransfer :: "rollup_reader \<Rightarrow> gjson \<Rightarrow> float64" where
  "extraBatteryChargeTransfer rx doc =
     (let xt150Charge = sumPositiveIfPresent rx doc extraBatteryTransferFields;
          kitCharge = sumExtraBatteryPackCharge rx doc;
          output = firstNumber rx doc [''params.outputWatts'', ''param.outputWatts''];
          inputCharge = (case firstNumber rx doc [''params.inputWatts'', ''param.inputWatts''] of
              Some i \<Rightarrow> if fless (Finite 0) i \<and> (case output of None \<Rightarrow> True | Some out \<Rightarrow> fle out (Finite 0)) then i else Finite 0
            | None \<Rightarrow> Finite 0)
      in if xt150Charge = None \<and> fle kitCharge (Finite 0) then Finite 0
         else fmax (fmax (valueOr0 xt150Charge) kitCharge) inputCharge)"

definition deriveLoad :: "rollup_reader \<Rightarrow> gjson \<Rightarrow> float64 option" where
  "deriveLoad rx doc =
     (case firstNumber rx doc [''loadW''] of
        Some explicit \<Rightarrow> Some explicit
      | None \<Rightarrow>
          (let explicitOutputs = sumNonNegativeIfPresent rx doc externalOutputLoadFields;
               extraBatteryCharge = extraBatteryChargeTransfer rx doc
           in case firstNumber rx doc [''params.wattsOutSum'', ''param.wattsOutSum''] of
                Some aggregate \<Rightarrow>
                  if fle extraBatteryCharge (Finite 0) then Some aggregate
                  else Some (fmax (valueOr0 explicitOutputs) (fmax (Finite 0) (fsub (rxRound rx) aggregate extraBatteryCharge)))
              | None \<Rightarrow> explicitOutputs))"

definition deriveACOutput :: "rollup_reader \<Rightarrow> float64 option \<Rightarrow> float64 option \<Rightarrow> float64 option" where
  "deriveACOutput rx load dc =
     (case load of
        None \<Rightarrow> None
      | Some l \<Rightarrow>
          if fle l (Finite 0) then None
          else case dc of
                 Some d \<Rightarrow> if fless (Finite 0) d then Some (fmax (fsub (rxRound rx) l d) (Finite 0)) else Some l
               | None \<Rightarrow> Some l)"

definition reconcileBatteryPower :: "float64 \<Rightarrow> float64 option \<Rightarrow> float64" where
  "reconcileBatteryPower candidate powerBalance =
     (case powerBalance of
        None \<Rightarrow> candidate
      | Some balance \<Rightarrow>
          if fle (fabs balance) (Finite powerBalanceStateFloorWatts) then candidate
          else if fle (fabs candidate) (Finite powerBalanceStateFloorWatts) \<or> sign candidate \<noteq> sign balance then balance
          else candidate)"

definition batteryMetric :: "rollup_reader \<Rightarrow> gjson \<Rightarrow> float64 option \<Rightarrow> float64 option" where
  "batteryMetric rx doc powerBalance =
     (case firstNumber rx doc [''batteryW''] of
        Some explicit \<Rightarrow> Some (reconcileBatteryPower explicit powerBalance)
      | None \<Rightarrow>
          (let bmsInput = firstNumber rx doc [''params.bmsInputWatts'']; bmsOutput = firstNumber rx doc [''params.bmsOutputWatts''];
               input = firstNumber rx doc [''params.inputWatts'', ''param.inputWatts''];
               output = firstNumber rx doc [''params.outputWatts'', ''param.outputWatts''];
               extraBatteryCharge = extraBatteryChargeTransfer rx doc
           in if fless (Finite 0) extraBatteryCharge \<and> \<not> hasNonZero bmsInput \<and> \<not> hasNonZero bmsOutput
              then Some (fsub (rxRound rx) extraBatteryCharge
                     (case output of Some out \<Rightarrow> if fless (Finite 0) out then out else Finite 0 | None \<Rightarrow> Finite 0))
              else if bmsInput \<noteq> None \<or> bmsOutput \<noteq> None
              then Some (reconcileBatteryPower (fsub (rxRound rx) (valueOr0 bmsInput) (valueOr0 bmsOutput)) powerBalance)
              else if input \<noteq> None \<or> output \<noteq> None
              then Some (reconcileBatteryPower (fsub (rxRound rx) (valueOr0 input) (valueOr0 output)) powerBalance)
              else case (firstNumber rx doc [''params.batAmp''], firstNumber rx doc [''params.batVol'']) of
                     (Some batAmp, Some batVol) \<Rightarrow>
                       Some (reconcileBatteryPower
                         (fmul (rxRound rx) (normalizePotentialMilliUnit (rxRound rx) batAmp batteryCurrentMaxCanonical)
                            (normalizePotentialMilliUnit (rxRound rx) batVol batteryVoltageMaxCanonical)) powerBalance)
                   | _ \<Rightarrow> None))"

definition saneTemperature :: "float64 \<Rightarrow> bool" where
  "saneTemperature v \<longleftrightarrow> fle (Finite (- 80)) v \<and> fle v (Finite 120)"

definition collectTemperatures :: "rollup_reader \<Rightarrow> gjson \<Rightarrow> float64 list" where
  "collectTemperatures rx doc =
     filter saneTemperature
       (List.map_filter (\<lambda>path. firstNumber rx doc [path])
          [''params.temp'', ''params.pdTemp'', ''params.outTemp'', ''params.mpptLvTemp'', ''params.mpptHvTemp'', ''params.pcsAcTemp'', ''params.pcsDcTemp'',
           ''params.carTemp'', ''params.dcInTemp'', ''params.typec1Temp'', ''params.typec2Temp''] @
        concat (map (\<lambda>path. case rxGet rx doc path of Some (JArray vs) \<Rightarrow> List.map_filter numericResult vs | _ \<Rightarrow> [])
          [''params.cellTemp'', ''param.cellTemp'']))"

text \<open>The values that are sorted are temperatures, which are finite.\<close>

definition finiteValue :: "float64 \<Rightarrow> real" where
  "finiteValue v = (case v of Finite x \<Rightarrow> x | _ \<Rightarrow> 0)"

definition fdivBy :: "(real \<Rightarrow> float64) \<Rightarrow> float64 \<Rightarrow> real \<Rightarrow> float64" where
  "fdivBy rnd a y = (case a of Finite x \<Rightarrow> rnd (x / y) | _ \<Rightarrow> a)"

definition median :: "rollup_reader \<Rightarrow> float64 list \<Rightarrow> float64" where
  "median rx values =
     (if values = [] then Finite 0
      else
        (let sorted = sort_key finiteValue values; mid = length sorted div 2
         in if odd (length sorted) then sorted ! mid else fdivBy (rxRound rx) (fadd (rxRound rx) (sorted ! (mid - 1)) (sorted ! mid)) 2))"

section \<open>The sample of an envelope\<close>

definition deriveACIn :: "rollup_reader \<Rightarrow> gjson \<Rightarrow> float64 option \<Rightarrow> float64 option" where
  "deriveACIn rx doc pv =
     (case sumIfPresent rx doc [''params.inAcC20Pwr'', ''params.inAc5p8Pwr''] of
        Some acIn \<Rightarrow> Some acIn
      | None \<Rightarrow>
          (case firstNumber rx doc [''params.invInWatts''] of
             Some invIn \<Rightarrow> Some invIn
           | None \<Rightarrow>
               (case firstNumber rx doc [''params.wattsInSum'', ''param.wattsInSum''] of
                  None \<Rightarrow> None
                | Some wattsIn \<Rightarrow>
                    (let acIn = (case pv of Some p \<Rightarrow> fsub (rxRound rx) wattsIn p | None \<Rightarrow> wattsIn)
                     in Some (if fless acIn (Finite 0) then Finite 0 else acIn)))))"

definition extractMetrics :: "rollup_reader \<Rightarrow> gjson \<Rightarrow> RollupMetrics" where
  "extractMetrics rx doc =
     (let rnd = rxRound rx;
          soc = firstNumber rx doc [''params.f32ShowSoc'', ''params.f32LcdShowSoc'', ''params.f32Soc'', ''param.cmsBattSoc'', ''params.cmsBattSoc'',
                  ''params.soc'', ''param.soc''];
          pv = derivePV rx doc;
          acIn = deriveACIn rx doc pv;
          dc = (case firstNumber rx doc [''dcW''] of Some d \<Rightarrow> Some d | None \<Rightarrow> deriveDC rx doc);
          load = deriveLoad rx doc;
          acOutput = deriveACOutput rx load dc;
          net = (case load of
                   Some l \<Rightarrow> if acIn \<noteq> None \<or> pv \<noteq> None then Some (fsub rnd (fadd rnd (valueOr0 acIn) (valueOr0 pv)) l) else None
                 | None \<Rightarrow> None);
          generated = (case firstNumber rx doc [''params.solarGeneratedWh'', ''param.solarGeneratedWh''] of
                   Some g \<Rightarrow> if fle (Finite 0) g then Some g else None
                 | None \<Rightarrow> None);
          battery = (case batteryMetric rx doc net of Some b \<Rightarrow> Some b | None \<Rightarrow> net);
          temps = collectTemperatures rx doc
      in \<lparr>rmSOC = soc, rmACIn = acIn, rmACOutput = acOutput, rmPV = pv, rmDC = dc, rmLoad = load, rmNet = net, rmBattery = battery,
          rmTemp = (if temps = [] then None else Some (median rx temps)), rmSolarGeneratedWh = generated\<rparr>)"

definition suppressCurrentMetrics :: "RollupMetrics \<Rightarrow> RollupMetrics" where
  "suppressCurrentMetrics m =
     (let zero = Some (Finite 0)
      in m\<lparr>rmACIn := zero, rmACOutput := zero, rmPV := zero, rmDC := zero, rmLoad := zero, rmNet := zero, rmBattery := zero,
           rmSolarGeneratedWh := None\<rparr>)"

definition firstPositiveInt64 :: "int list \<Rightarrow> int" where
  "firstPositiveInt64 values = (case find (\<lambda>v. 0 < v) values of None \<Rightarrow> 0 | Some v \<Rightarrow> v)"

text \<open>The payload without space at its ends.\<close>

definition trimPayload :: "byte list \<Rightarrow> byte list" where
  "trimPayload payload = map (\<lambda>c. word_of_nat (of_char c)) (TrimSpace (map (\<lambda>b. char_of (unat b)) payload))"

definition SampleFromEnvelope :: "rollup_reader \<Rightarrow> TelemetryEnvelope \<Rightarrow> rollup_error + RollupSample" where
  "SampleFromEnvelope rx env =
     (let provider = TrimSpace (label env ''provider'');
          providerDeviceID = ToUpper (TrimSpace (EcoflowSn env));
          deviceID = TrimSpace (DeviceId env);
          eventUnixMs = firstPositiveInt64 [ObservedTimeUnixMs env, DeviceTimeUnixMs env, IngestedTimeUnixMs env];
          ingestedUnixMs = (if IngestedTimeUnixMs env \<le> 0 then eventUnixMs else IngestedTimeUnixMs env);
          payload = trimPayload (EnvPayload env)
      in if provider = [] \<or> providerDeviceID = [] \<or> deviceID = [] then Inl ErrInvalidRollupEnvelope
         else if \<not> rxIsUUID rx deviceID then Inl ErrInvalidRollupEnvelope
         else if eventUnixMs \<le> 0 then Inl ErrInvalidRollupEnvelope
         else if payload = [] then Inl ErrInvalidRollupEnvelope
         else case rxParse rx payload of
                None \<Rightarrow> Inl ErrInvalidRollupEnvelope
              | Some doc \<Rightarrow>
                  (let idle = IdleStale (rxRound rx) (ExtractNumericMetrics (rxParse rx) (EnvPayload env));
                       metrics = (if idle then suppressCurrentMetrics (extractMetrics rx doc) else extractMetrics rx doc);
                       ports = (if idle then [] else extractPVPortObservations rx doc)
                   in if \<not> HasAny metrics then Inl ErrNoRollupMetrics
                      else Inr \<lparr>rsProvider = provider, rsProviderDeviceID = providerDeviceID, rsDeviceID = deviceID,
                             rsEventTime = eventUnixMs * 1000000, rsEventUnixMs = eventUnixMs, rsIngestedUnixMs = ingestedUnixMs,
                             rsMetrics = metrics, rsPVPorts = ports\<rparr>))"

end
