(* ===== verification/Rollup_Model.thy ===== *)
theory Rollup_Model
  imports Rollup_Metrics Archive_Store Gap_Model
begin

text \<open>
  The rollups of telemetry (\<open>internal/rollupworker/solar_energy.go\<close>, \<open>store_postgres.go\<close>, \<open>worker.go\<close>): every envelope
  adds its sample to the rows of its minute, hour and day, and the energy since the envelope before it
  to the rows of the time between them. Statements of the database act on the tables of one
  transaction. Instants are nanoseconds since 1970 and the rounding of numbers is the argument \<open>rnd\<close>.
  The columns \<open>created_at\<close> and \<open>updated_at\<close> are left out.
\<close>

section \<open>Integration of power\<close>

text \<open>The three widths of a bucket. The day in UTC of an instant begins at a whole number of days since 1970.\<close>

datatype resolution = ResolutionMinute | ResolutionHour | ResolutionDay

fun bucketWidth :: "resolution \<Rightarrow> int" where
  "bucketWidth ResolutionMinute = minute"
| "bucketWidth ResolutionHour = hour"
| "bucketWidth ResolutionDay = 24 * hour"

definition bucketStart :: "resolution \<Rightarrow> int \<Rightarrow> int" where
  "bucketStart r t = t div bucketWidth r * bucketWidth r"

lemma bucketWidth_pos: "0 < bucketWidth r"
  by (cases r) (simp_all add: hour_def minute_def second_def)

definition DefaultSolarCarryForwardMaxGap :: int where
  "DefaultSolarCarryForwardMaxGap = 20 * minute"

text \<open>A segment: the start of its bucket, its own start and end, and its energy.\<close>

type_synonym segment = "int \<times> int \<times> int \<times> float64"

text \<open>The hours of a duration that is not negative: its whole hours and the rest of it.\<close>

definition Hours :: "(real \<Rightarrow> float64) \<Rightarrow> int \<Rightarrow> float64" where
  "Hours rnd d = fadd rnd (Finite (of_int (d div hour))) (rnd (of_int (d mod hour) / of_int hour))"

function integrateLoop :: "(real \<Rightarrow> float64) \<Rightarrow> resolution \<Rightarrow> float64 \<Rightarrow> int \<Rightarrow> int \<Rightarrow> segment list" where
  "integrateLoop rnd r powerWatts end cursor =
     (if cursor < end
      then let bucket = bucketStart r cursor;
               segmentEnd = (if end < bucket + bucketWidth r then end else bucket + bucketWidth r);
               durationHours = Hours rnd (timeSub segmentEnd cursor)
           in (if fless (Finite 0) durationHours then [(bucket, cursor, segmentEnd, fmul rnd powerWatts durationHours)] else []) @
              integrateLoop rnd r powerWatts end segmentEnd
      else [])"
  by pat_completeness auto

lemma bucketStart_less: "t < bucketStart r t + bucketWidth r" "bucketStart r t \<le> t"
proof -
  have "t mod bucketWidth r < bucketWidth r" "0 \<le> t mod bucketWidth r" using bucketWidth_pos [of r] by simp_all
  moreover have "t = bucketStart r t + t mod bucketWidth r" by (simp add: bucketStart_def)
  ultimately show "t < bucketStart r t + bucketWidth r" "bucketStart r t \<le> t" by linarith+
qed

termination integrateLoop
  by (relation "measure (\<lambda>(rnd, r, w, e, c). nat (e - c))") (use bucketStart_less(1) in \<open>auto simp: Let_def\<close>)

declare integrateLoop.simps [simp del]

definition IntegratePowerWindow :: "(real \<Rightarrow> float64) \<Rightarrow> resolution \<Rightarrow> int \<Rightarrow> int \<Rightarrow> int \<Rightarrow> float64 \<Rightarrow> int \<Rightarrow> segment list" where
  "IntegratePowerWindow rnd r start end0 lastPowerAt powerWatts maxGap =
     (if \<not> start < end0 \<or> fle powerWatts (Finite 0) then []
      else
        (let end = (if 0 < maxGap \<and> lastPowerAt + maxGap < end0 then lastPowerAt + maxGap else end0)
         in if \<not> start < end then [] else integrateLoop rnd r powerWatts end start))"

section \<open>The state of a device\<close>

text \<open>A value with a flag that says whether it is there is an option.\<close>

record powerChannelState =
  pcLastAt :: "int option"
  pcWatts :: "float64 option"

record integrationState =
  isLastEnvelopeAt :: "int option"
  isLastPVAt :: "int option"
  isPV :: "float64 option"
  isACIn :: powerChannelState
  isACOutput :: powerChannelState
  isDCOutput :: powerChannelState
  isLoad :: powerChannelState
  isBatteryCharge :: powerChannelState
  isBatteryDischarge :: powerChannelState

definition zeroChannel :: powerChannelState where "zeroChannel = \<lparr>pcLastAt = None, pcWatts = None\<rparr>"

definition zeroIntegration :: integrationState where
  "zeroIntegration = \<lparr>isLastEnvelopeAt = None, isLastPVAt = None, isPV = None, isACIn = zeroChannel, isACOutput = zeroChannel,
     isDCOutput = zeroChannel, isLoad = zeroChannel, isBatteryCharge = zeroChannel, isBatteryDischarge = zeroChannel\<rparr>"

definition advancePowerChannelState :: "powerChannelState \<Rightarrow> int \<Rightarrow> float64 option \<Rightarrow> powerChannelState" where
  "advancePowerChannelState state ts metric =
     (case metric of
        None \<Rightarrow> state
      | Some value \<Rightarrow>
          if (case pcLastAt state of None \<Rightarrow> False | Some prev \<Rightarrow> ts < prev) then state
          else \<lparr>pcLastAt = Some ts, pcWatts = (if fless (Finite 0) value then Some value else None)\<rparr>)"

definition positiveOptionalFloat :: "float64 option \<Rightarrow> float64 option" where
  "positiveOptionalFloat metric = (case metric of None \<Rightarrow> Some (Finite 0) | Some v \<Rightarrow> if fle v (Finite 0) then Some (Finite 0) else Some v)"

definition negativeOptionalFloat :: "float64 option \<Rightarrow> float64 option" where
  "negativeOptionalFloat metric = (case metric of None \<Rightarrow> Some (Finite 0) | Some v \<Rightarrow> if fle (Finite 0) v then Some (Finite 0) else Some (fneg v))"

definition advanceIntegrationState :: "integrationState \<Rightarrow> RollupSample \<Rightarrow> integrationState" where
  "advanceIntegrationState state sample =
     (let ts = rsEventTime sample; m = rsMetrics sample;
          s1 = (if (case isLastEnvelopeAt state of None \<Rightarrow> True | Some prev \<Rightarrow> prev < ts) then state\<lparr>isLastEnvelopeAt := Some ts\<rparr> else state);
          s2 = (case rmPV m of
                  None \<Rightarrow> s1
                | Some pv \<Rightarrow>
                    if (case isLastPVAt s1 of None \<Rightarrow> True | Some prev \<Rightarrow> \<not> ts < prev)
                    then s1\<lparr>isLastPVAt := Some ts, isPV := (if fless (Finite 0) pv then Some pv else None)\<rparr> else s1)
      in s2\<lparr>isACIn := advancePowerChannelState (isACIn s2) ts (rmACIn m),
            isACOutput := advancePowerChannelState (isACOutput s2) ts (rmACOutput m),
            isDCOutput := advancePowerChannelState (isDCOutput s2) ts (rmDC m),
            isLoad := advancePowerChannelState (isLoad s2) ts (rmLoad m),
            isBatteryCharge := advancePowerChannelState (isBatteryCharge s2) ts (positiveOptionalFloat (rmBattery m)),
            isBatteryDischarge := advancePowerChannelState (isBatteryDischarge s2) ts (negativeOptionalFloat (rmBattery m))\<rparr>)"

definition advanceDuplicateIntegrationState :: "integrationState \<Rightarrow> RollupSample \<Rightarrow> integrationState" where
  "advanceDuplicateIntegrationState state sample =
     (case isLastEnvelopeAt state of
        Some prev \<Rightarrow> if \<not> prev < rsEventTime sample then state else advanceIntegrationState state sample
      | None \<Rightarrow> advanceIntegrationState state sample)"

section \<open>Tables\<close>

text \<open>The columns of a bucket: averages, minima and maxima by metric, energies by channel. \<open>NULL\<close> is \<open>None\<close>. The
  tables have a minimum only for some metrics.\<close>

datatype metric = SOC | ACIn | ACOutput | PV | DC | Load | Net | Battery | Temp
datatype channel = Solar | ACInputEnergy | ACOutputEnergy | DCOutputEnergy | LoadEnergy | BatteryChargeEnergy | BatteryDischargeEnergy

fun metricColumn :: "metric \<Rightarrow> RollupMetrics \<Rightarrow> float64 option" where
  "metricColumn SOC m = rmSOC m"
| "metricColumn ACIn m = rmACIn m"
| "metricColumn ACOutput m = rmACOutput m"
| "metricColumn PV m = rmPV m"
| "metricColumn DC m = rmDC m"
| "metricColumn Load m = rmLoad m"
| "metricColumn Net m = rmNet m"
| "metricColumn Battery m = rmBattery m"
| "metricColumn Temp m = rmTemp m"

definition hasMinimum :: "metric \<Rightarrow> bool" where
  "hasMinimum m \<longleftrightarrow> m \<in> {SOC, Net, Battery, Temp}"

record rollup_row =
  rwDeviceID :: string
  rwSampleCount :: int
  rwFirstTs :: int
  rwLastTs :: int
  rwAvg :: "metric \<Rightarrow> float64 option"
  rwMin :: "metric \<Rightarrow> float64 option"
  rwMax :: "metric \<Rightarrow> float64 option"
  rwEnergy :: "channel \<Rightarrow> float64 option"

record pv_port_row =
  pvDeviceID :: string
  pvPortLabel :: string
  pvSampleCount :: int
  pvFirstTs :: int
  pvLastTs :: int
  pvMaxVolts :: float64
  pvMaxAmps :: float64
  pvMaxWatts :: float64
  pvLastVolts :: float64
  pvLastAmps :: float64
  pvLastWatts :: float64
  pvLastAt :: int

type_synonym bucket_key = "string \<times> string \<times> int"

record rollup_db =
  rdApplied :: "string list"
  rdRows :: "resolution \<Rightarrow> (bucket_key, rollup_row) gomap"
  rdPorts :: "resolution \<Rightarrow> (string \<times> string \<times> string \<times> int, pv_port_row) gomap"

definition emptyRollups :: rollup_db where
  "emptyRollups = \<lparr>rdApplied = [], rdRows = (\<lambda>_. []), rdPorts = (\<lambda>_. [])\<rparr>"

section \<open>Statements\<close>

text \<open>The database has \<open>NaN\<close> above every other number.\<close>

definition pgLess :: "float64 \<Rightarrow> float64 \<Rightarrow> bool" where
  "pgLess a b \<longleftrightarrow> (if b = NaN then a \<noteq> NaN else fless a b)"

definition pgLeast :: "float64 \<Rightarrow> float64 \<Rightarrow> float64" where "pgLeast a b = (if pgLess b a then b else a)"

definition pgGreatest :: "float64 \<Rightarrow> float64 \<Rightarrow> float64" where "pgGreatest a b = (if pgLess a b then b else a)"

text \<open>The expressions of the updates: \<open>old\<close> is the column of the row, \<open>new\<close> that of the excluded one.\<close>

definition nullOr :: "(float64 \<Rightarrow> float64 \<Rightarrow> float64) \<Rightarrow> float64 option \<Rightarrow> float64 option \<Rightarrow> float64 option" where
  "nullOr f old new = (case new of None \<Rightarrow> old | Some n \<Rightarrow> (case old of None \<Rightarrow> Some n | Some v \<Rightarrow> Some (f v n)))"

definition weightedAverageExpr :: "(real \<Rightarrow> float64) \<Rightarrow> int \<Rightarrow> int \<Rightarrow> float64 option \<Rightarrow> float64 option \<Rightarrow> float64 option" where
  "weightedAverageExpr rnd oldCount newCount =
     nullOr (\<lambda>v n. fdivBy rnd (fadd rnd (fmul rnd v (Finite (of_int oldCount))) (fmul rnd n (Finite (of_int newCount)))) (of_int (oldCount + newCount)))"

definition minExpr :: "float64 option \<Rightarrow> float64 option \<Rightarrow> float64 option" where "minExpr = nullOr pgLeast"

definition maxExpr :: "float64 option \<Rightarrow> float64 option \<Rightarrow> float64 option" where "maxExpr = nullOr pgGreatest"

definition sumExpr :: "(real \<Rightarrow> float64) \<Rightarrow> float64 option \<Rightarrow> float64 option \<Rightarrow> float64 option" where "sumExpr rnd = nullOr (fadd rnd)"

text \<open>The row that an insertion offers, and the update of a row that is there already.\<close>

definition sampleRow :: "RollupSample \<Rightarrow> rollup_row" where
  "sampleRow sample =
     (let value = (\<lambda>m. metricColumn m (rsMetrics sample))
      in \<lparr>rwDeviceID = rsDeviceID sample, rwSampleCount = 1, rwFirstTs = rsEventUnixMs sample, rwLastTs = rsEventUnixMs sample,
          rwAvg = value, rwMin = (\<lambda>m. if hasMinimum m then value m else None), rwMax = value,
          rwEnergy = (\<lambda>_. None)(Solar := rmSolarGeneratedWh (rsMetrics sample))\<rparr>)"

definition upsertSample :: "(real \<Rightarrow> float64) \<Rightarrow> rollup_row \<Rightarrow> rollup_row option \<Rightarrow> rollup_row" where
  "upsertSample rnd new old =
     (case old of
        None \<Rightarrow> new
      | Some row \<Rightarrow>
          row\<lparr>rwSampleCount := rwSampleCount row + rwSampleCount new,
            rwFirstTs := (if rwSampleCount row = 0 then rwFirstTs new else min (rwFirstTs row) (rwFirstTs new)),
            rwLastTs := (if rwSampleCount row = 0 then rwLastTs new else max (rwLastTs row) (rwLastTs new)),
            rwAvg := (\<lambda>m. weightedAverageExpr rnd (rwSampleCount row) (rwSampleCount new) (rwAvg row m) (rwAvg new m)),
            rwMin := (\<lambda>m. minExpr (rwMin row m) (rwMin new m)),
            rwMax := (\<lambda>m. maxExpr (rwMax row m) (rwMax new m)),
            rwEnergy := (rwEnergy row)(Solar := sumExpr rnd (rwEnergy row Solar) (rwEnergy new Solar))\<rparr>)"

definition energyRow :: "string \<Rightarrow> int \<Rightarrow> int \<Rightarrow> (channel \<Rightarrow> float64 option) \<Rightarrow> rollup_row" where
  "energyRow deviceID firstTS lastTS energy =
     \<lparr>rwDeviceID = deviceID, rwSampleCount = 0, rwFirstTs = firstTS, rwLastTs = lastTS, rwAvg = (\<lambda>_. None), rwMin = (\<lambda>_. None),
      rwMax = (\<lambda>_. None), rwEnergy = energy\<rparr>"

text \<open>The statements for solar energy and for the other energies; each leaves the columns of the other alone, which are
  \<open>NULL\<close> in the row it offers.\<close>

definition upsertEnergy :: "(real \<Rightarrow> float64) \<Rightarrow> rollup_row \<Rightarrow> rollup_row option \<Rightarrow> rollup_row" where
  "upsertEnergy rnd new old =
     (case old of
        None \<Rightarrow> new
      | Some row \<Rightarrow>
          row\<lparr>rwDeviceID := rwDeviceID new,
            rwFirstTs := (if rwSampleCount row = 0 then min (rwFirstTs row) (rwFirstTs new) else rwFirstTs row),
            rwLastTs := (if rwSampleCount row = 0 then max (rwLastTs row) (rwLastTs new) else rwLastTs row),
            rwEnergy := (\<lambda>ch. sumExpr rnd (rwEnergy row ch) (rwEnergy new ch))\<rparr>)"

definition putRow :: "resolution \<Rightarrow> bucket_key \<Rightarrow> (rollup_row option \<Rightarrow> rollup_row) \<Rightarrow> rollup_db \<Rightarrow> rollup_db" where
  "putRow r key f db = db\<lparr>rdRows := (rdRows db)(r := gm_put key (f (gm_get (rdRows db r) key)) (rdRows db r))\<rparr>"

definition upsertPort :: "RollupSample \<Rightarrow> PVPortObservation \<Rightarrow> pv_port_row option \<Rightarrow> pv_port_row" where
  "upsertPort sample ob old =
     (let ts = rsEventUnixMs sample
      in case old of
           None \<Rightarrow> \<lparr>pvDeviceID = rsDeviceID sample, pvPortLabel = poPortLabel ob, pvSampleCount = 1, pvFirstTs = ts, pvLastTs = ts,
               pvMaxVolts = poVolts ob, pvMaxAmps = poAmps ob, pvMaxWatts = poWatts ob, pvLastVolts = poVolts ob, pvLastAmps = poAmps ob,
               pvLastWatts = poWatts ob, pvLastAt = ts\<rparr>
         | Some row \<Rightarrow>
             (let row1 = row\<lparr>pvDeviceID := rsDeviceID sample, pvSampleCount := pvSampleCount row + 1, pvFirstTs := min (pvFirstTs row) ts,
                        pvLastTs := max (pvLastTs row) ts, pvMaxVolts := pgGreatest (pvMaxVolts row) (poVolts ob), pvMaxAmps := pgGreatest (pvMaxAmps row) (poAmps ob),
                        pvMaxWatts := pgGreatest (pvMaxWatts row) (poWatts ob), pvLastAt := max (pvLastAt row) ts\<rparr>
              in if pvLastAt row \<le> ts
                 then row1\<lparr>pvPortLabel := poPortLabel ob, pvLastVolts := poVolts ob, pvLastAmps := poAmps ob, pvLastWatts := poWatts ob\<rparr>
                 else row1))"

definition putPort :: "resolution \<Rightarrow> RollupSample \<Rightarrow> PVPortObservation \<Rightarrow> rollup_db \<Rightarrow> rollup_db" where
  "putPort r sample ob db =
     (let key = (rsProvider sample, rsProviderDeviceID sample, poPortID ob, bucketStart r (rsEventTime sample))
      in db\<lparr>rdPorts := (rdPorts db)(r := gm_put key (upsertPort sample ob (gm_get (rdPorts db r) key)) (rdPorts db r))\<rparr>)"

section \<open>The statements of an envelope\<close>

text \<open>A statement is the text of its error and its effect.\<close>

type_synonym statement = "string \<times> (rollup_db \<Rightarrow> rollup_db)"

definition rowKey :: "RollupSample \<Rightarrow> int \<Rightarrow> bucket_key" where
  "rowKey sample bucket = (rsProvider sample, rsProviderDeviceID sample, bucket)"

definition execUpsert :: "(real \<Rightarrow> float64) \<Rightarrow> RollupSample \<Rightarrow> resolution \<Rightarrow> statement" where
  "execUpsert rnd sample r =
     (''upsert rollup bucket'', putRow r (rowKey sample (bucketStart r (rsEventTime sample))) (upsertSample rnd (sampleRow sample)))"

definition segmentTimes :: "int \<Rightarrow> int \<Rightarrow> int \<times> int" where
  "segmentTimes segmentStart segmentEnd =
     (let firstTS = UnixMilli segmentStart; lastTS = UnixMilli (segmentEnd - 1000000)
      in (firstTS, if lastTS < firstTS then firstTS else lastTS))"

definition execSolarUpsert :: "(real \<Rightarrow> float64) \<Rightarrow> RollupSample \<Rightarrow> integrationState \<Rightarrow> int \<Rightarrow> float64 \<Rightarrow> resolution \<Rightarrow> statement list" where
  "execSolarUpsert rnd sample state start pv r =
     map (\<lambda>(bucket, segmentStart, segmentEnd, wattHours).
         (''upsert solar rollup bucket'',
          putRow r (rowKey sample bucket)
            (upsertEnergy rnd (energyRow (rsDeviceID sample) (fst (segmentTimes segmentStart segmentEnd)) (snd (segmentTimes segmentStart segmentEnd))
               ((\<lambda>_. None)(Solar := Some wattHours))))))
       (IntegratePowerWindow rnd r start (rsEventTime sample) (case isLastPVAt state of None \<Rightarrow> zeroTime | Some t \<Rightarrow> t) pv DefaultSolarCarryForwardMaxGap)"

definition execSolarUpserts :: "(real \<Rightarrow> float64) \<Rightarrow> RollupSample \<Rightarrow> integrationState \<Rightarrow> statement list" where
  "execSolarUpserts rnd sample state =
     (case (isLastEnvelopeAt state, isPV state) of
        (Some start, Some pv) \<Rightarrow>
          if \<not> start < rsEventTime sample then []
          else concat (map (execSolarUpsert rnd sample state start pv) [ResolutionMinute, ResolutionHour, ResolutionDay])
      | _ \<Rightarrow> [])"

text \<open>What an interval adds to one bucket: its range of time, which is missing at first, and the energies.\<close>

record energyDelta =
  edRange :: "(int \<times> int) option"
  edEnergy :: "channel \<Rightarrow> float64"

definition zeroDelta :: energyDelta where "zeroDelta = \<lparr>edRange = None, edEnergy = (\<lambda>_. Finite 0)\<rparr>"

definition addSegment :: "(real \<Rightarrow> float64) \<Rightarrow> channel \<Rightarrow> segment \<Rightarrow> (int, energyDelta) gomap \<Rightarrow> (int, energyDelta) gomap" where
  "addSegment rnd ch seg accumulated =
     (case seg of (bucket, segmentStart, segmentEnd, wattHours) \<Rightarrow>
        (let delta = (case gm_get accumulated bucket of None \<Rightarrow> zeroDelta | Some d \<Rightarrow> d);
             (firstTS, lastTS) = segmentTimes segmentStart segmentEnd;
             span = (case edRange delta of None \<Rightarrow> (firstTS, lastTS) | Some (f, l) \<Rightarrow> (min f firstTS, max l lastTS))
         in gm_put bucket \<lparr>edRange = Some span, edEnergy = (edEnergy delta)(ch := fadd rnd (edEnergy delta ch) wattHours)\<rparr> accumulated))"

definition integrateEnergyChannel :: "(real \<Rightarrow> float64) \<Rightarrow> resolution \<Rightarrow> int \<Rightarrow> int \<Rightarrow> channel \<times> powerChannelState \<Rightarrow> (int, energyDelta) gomap \<Rightarrow> (int, energyDelta) gomap" where
  "integrateEnergyChannel rnd r start end chs accumulated =
     (case chs of (ch, state) \<Rightarrow>
        (case (pcWatts state, pcLastAt state) of
           (Some watts, Some lastAt) \<Rightarrow>
             fold (addSegment rnd ch) (IntegratePowerWindow rnd r start end lastAt watts DefaultSolarCarryForwardMaxGap) accumulated
         | _ \<Rightarrow> accumulated))"

definition energyChannels :: "integrationState \<Rightarrow> (channel \<times> powerChannelState) list" where
  "energyChannels state =
     [(ACInputEnergy, isACIn state), (ACOutputEnergy, isACOutput state), (DCOutputEnergy, isDCOutput state), (LoadEnergy, isLoad state),
      (BatteryChargeEnergy, isBatteryCharge state), (BatteryDischargeEnergy, isBatteryDischarge state)]"

definition nullableEnergyValue :: "float64 \<Rightarrow> float64 option" where
  "nullableEnergyValue value = (if fle value (Finite 0) then None else Some value)"

definition execEnergyUpsert :: "(real \<Rightarrow> float64) \<Rightarrow> RollupSample \<Rightarrow> integrationState \<Rightarrow> int \<Rightarrow> resolution \<Rightarrow> statement list" where
  "execEnergyUpsert rnd sample state start r =
     (let accumulated = fold (integrateEnergyChannel rnd r start (rsEventTime sample)) (energyChannels state) [];
          bucketStarts = sort_by (by_asc id) (map fst accumulated)
      in List.map_filter (\<lambda>bucket.
             case gm_get accumulated bucket of
               None \<Rightarrow> None
             | Some delta \<Rightarrow>
                 (case edRange delta of
                    None \<Rightarrow> None
                  | Some (firstTS, lastTS) \<Rightarrow>
                      Some (''upsert energy rollup bucket'',
                            putRow r (rowKey sample bucket)
                              (upsertEnergy rnd (energyRow (rsDeviceID sample) firstTS lastTS
                                 ((nullableEnergyValue \<circ> edEnergy delta)(Solar := None)))))))
           bucketStarts)"

definition execEnergyUpserts :: "(real \<Rightarrow> float64) \<Rightarrow> RollupSample \<Rightarrow> integrationState \<Rightarrow> statement list" where
  "execEnergyUpserts rnd sample state =
     (case isLastEnvelopeAt state of
        None \<Rightarrow> []
      | Some start \<Rightarrow>
          if \<not> start < rsEventTime sample then []
          else concat (map (execEnergyUpsert rnd sample state start) [ResolutionMinute, ResolutionHour, ResolutionDay]))"

definition execPVPortUpserts :: "RollupSample \<Rightarrow> statement list" where
  "execPVPortUpserts sample =
     concat (map (\<lambda>ob. map (\<lambda>r. (''upsert pv-port rollup bucket'', putPort r sample ob)) [ResolutionMinute, ResolutionHour, ResolutionDay]) (rsPVPorts sample))"

definition envelopeStatements :: "(real \<Rightarrow> float64) \<Rightarrow> RollupSample \<Rightarrow> integrationState \<Rightarrow> statement list" where
  "envelopeStatements rnd sample state =
     (let sampleForMetrics = sample\<lparr>rsMetrics := (rsMetrics sample)\<lparr>rmSolarGeneratedWh := None\<rparr>\<rparr>
      in map (execUpsert rnd sampleForMetrics) [ResolutionMinute, ResolutionHour, ResolutionDay] @ execSolarUpserts rnd sample state @ execEnergyUpserts rnd sample state @
         execPVPortUpserts sample)"

section \<open>Applying an envelope\<close>

text \<open>The answers of the database in one transaction: the statements are numbered from zero, the claim of the envelope
  first. A sum that overflows is an error of its statement. A transaction that is not committed has no effect. Of the
  message of a failed statement only the time of its bucket is left out.\<close>

record tx_calls =
  txBegin :: "string option"
  txExec :: "nat \<Rightarrow> string option"
  txRowsAffected :: "string option"
  txCommit :: call_outcome

fun execStatements :: "tx_calls \<Rightarrow> nat \<Rightarrow> statement list \<Rightarrow> rollup_db \<Rightarrow> string + rollup_db" where
  "execStatements tx n [] db = Inr db"
| "execStatements tx n ((what, effect) # rest) db =
     (case txExec tx n of
        Some e \<Rightarrow> Inl (what @ '': '' @ e)
      | None \<Rightarrow> execStatements tx (Suc n) rest (effect db))"

definition rollupDedupKey :: "TelemetryEnvelope \<Rightarrow> string" where
  "rollupDedupKey env = TrimSpace (Key env)"

definition claimEnvelopeDedup :: "tx_calls \<Rightarrow> TelemetryEnvelope \<Rightarrow> rollup_db \<Rightarrow> string + bool \<times> rollup_db" where
  "claimEnvelopeDedup tx env db =
     (let dedupKey = rollupDedupKey env
      in if dedupKey = [] then Inr (True, db)
         else case txExec tx 0 of
                Some e \<Rightarrow> Inl (''claim rollup envelope dedup: '' @ e)
              | None \<Rightarrow>
                  (case txRowsAffected tx of
                     Some e \<Rightarrow> Inl (''read rollup envelope dedup result: '' @ e)
                   | None \<Rightarrow>
                       if dedupKey \<in> set (rdApplied db) then Inr (False, db) else Inr (True, db\<lparr>rdApplied := dedupKey # rdApplied db\<rparr>)))"

text \<open>A process keeps the states of the devices in memory, by provider and device.\<close>

type_synonym device_states = "(string, integrationState) gomap"

definition stateKeyOf :: "RollupSample \<Rightarrow> string" where
  "stateKeyOf sample = rsProvider sample @ ''|'' @ rsProviderDeviceID sample"

definition stateOf :: "device_states \<Rightarrow> RollupSample \<Rightarrow> integrationState" where
  "stateOf states sample = (case gm_get states (stateKeyOf sample) of None \<Rightarrow> zeroIntegration | Some st \<Rightarrow> st)"

definition applySample :: "(real \<Rightarrow> float64) \<Rightarrow> tx_calls \<Rightarrow> TelemetryEnvelope \<Rightarrow> RollupSample \<Rightarrow> device_states \<times> rollup_db \<Rightarrow> (device_states \<times> rollup_db) \<times> rollup_error option" where
  "applySample rnd tx env sample st =
     (let (states, db) = st; state = stateOf states sample; stateKey = stateKeyOf sample
      in case txBegin tx of
           Some e \<Rightarrow> (st, Some (RollupFailed (''begin rollup transaction: '' @ e)))
         | None \<Rightarrow>
             (case claimEnvelopeDedup tx env db of
                Inl e \<Rightarrow> (st, Some (RollupFailed e))
              | Inr (claimed, db1) \<Rightarrow>
                  if \<not> claimed then ((gm_put stateKey (advanceDuplicateIntegrationState state sample) states, db), None)
                  else case execStatements tx 1 (envelopeStatements rnd sample state) db1 of
                         Inl e \<Rightarrow> (st, Some (RollupFailed e))
                       | Inr db2 \<Rightarrow>
                           (case callEffect (txCommit tx) (\<lambda>_. db2) db of
                              (db', Some e) \<Rightarrow> ((states, db'), Some (RollupFailed (''commit rollup transaction: '' @ e)))
                            | (db', None) \<Rightarrow> ((gm_put stateKey (advanceIntegrationState state sample) states, db'), None))))"

definition ApplyEnvelope :: "rollup_reader \<Rightarrow> tx_calls \<Rightarrow> TelemetryEnvelope \<Rightarrow> device_states \<times> rollup_db \<Rightarrow> (device_states \<times> rollup_db) \<times> rollup_error option" where
  "ApplyEnvelope rx tx env st =
     (case SampleFromEnvelope rx env of
        Inl e \<Rightarrow> (st, Some e)
      | Inr sample \<Rightarrow> if \<not> HasAny (rsMetrics sample) then (st, Some ErrNoRollupMetrics) else applySample (rxRound rx) tx env sample st)"

definition processDelivery ::
    "rollup_reader \<Rightarrow> (byte list \<Rightarrow> string + TelemetryEnvelope) \<Rightarrow> tx_calls \<Rightarrow> byte list \<Rightarrow> device_states \<times> rollup_db \<Rightarrow>
       (device_states \<times> rollup_db) \<times> delivery_action" where
  "processDelivery rx unmarshal tx data st =
     (case unmarshal data of
        Inl e \<Rightarrow> (st, Term)
      | Inr env \<Rightarrow>
          (case ApplyEnvelope rx tx env st of
             (st', None) \<Rightarrow> (st', Ack)
           | (st', Some ErrNoRollupMetrics) \<Rightarrow> (st', Ack)
           | (st', Some ErrInvalidRollupEnvelope) \<Rightarrow> (st', Term)
           | (st', Some (RollupFailed e)) \<Rightarrow> (st', Nak)))"

end
