(* ===== verification/Rollup_Sums.thy ===== *)
theory Rollup_Sums
  imports Rollup_Model
begin

text \<open>
  What one envelope adds to the tables, in exact arithmetic. The segments of an interval tile it; the
  energy that a bucket receives is the power times the hours that the interval and the bucket have in
  common; and each statement adds to one row.
\<close>

section \<open>Segments\<close>

text \<open>Segments that follow each other from one instant to another, each inside its bucket and with the energy of its
  hours.\<close>

fun tiles :: "(real \<Rightarrow> float64) \<Rightarrow> resolution \<Rightarrow> float64 \<Rightarrow> int \<Rightarrow> int \<Rightarrow> segment list \<Rightarrow> bool" where
  "tiles rnd r w a b [] \<longleftrightarrow> a = b"
| "tiles rnd r w a b ((bucket, s, e, wh) # rest) \<longleftrightarrow>
     s = a \<and> s < e \<and> bucket = bucketStart r s \<and> e \<le> bucket + bucketWidth r \<and> wh = fmul rnd w (Hours rnd (e - s)) \<and> tiles rnd r w e b rest"

definition keeps_positive :: "(real \<Rightarrow> float64) \<Rightarrow> bool" where
  "keeps_positive rnd \<longleftrightarrow> (\<forall>d. 0 < d \<and> d \<le> 24 * hour \<longrightarrow> fless (Finite 0) (Hours rnd d))"

lemma bucketWidth_le: "bucketWidth r \<le> 24 * hour"
  by (cases r) (simp_all add: hour_def minute_def second_def)

lemma timeSub_small: "0 \<le> t - u \<Longrightarrow> t - u \<le> 24 * hour \<Longrightarrow> timeSub t u = t - u"
  by (simp add: timeSub_def hour_def minute_def second_def)

text \<open>The end of the segment that begins at an instant, and induction along the segments.\<close>

definition segmentEnd :: "resolution \<Rightarrow> int \<Rightarrow> int \<Rightarrow> int" where
  "segmentEnd r e c = min e (bucketStart r c + bucketWidth r)"

lemma segmentEnd_bounds: "c < e \<Longrightarrow> c < segmentEnd r e c" "segmentEnd r e c \<le> e" "segmentEnd r e c - c \<le> 24 * hour"
  using bucketStart_less [where t = c and r = r] bucketWidth_le [of r] by (auto simp: segmentEnd_def)

lemma segment_induct [case_names finished step]:
  assumes "\<And>c. \<not> c < e \<Longrightarrow> P c" "\<And>c. c < e \<Longrightarrow> P (segmentEnd r e c) \<Longrightarrow> P c"
  shows "P c"
proof (induction "nat (e - c)" arbitrary: c rule: less_induct)
  case less
  then show ?case using assms segmentEnd_bounds(1) [where c = c and e = e and r = r] by (cases "c < e") force+
qed

lemma integrateLoop_done: "\<not> c < e \<Longrightarrow> integrateLoop rnd r w e c = []"
  by (simp add: integrateLoop.simps)

lemma integrateLoop_step:
  assumes "keeps_positive rnd" "c < e"
  shows "integrateLoop rnd r w e c =
    (bucketStart r c, c, segmentEnd r e c, fmul rnd w (Hours rnd (segmentEnd r e c - c))) # integrateLoop rnd r w e (segmentEnd r e c)"
proof -
  have e: "(if e < bucketStart r c + bucketWidth r then e else bucketStart r c + bucketWidth r) = segmentEnd r e c"
    by (simp add: segmentEnd_def)
  have len: "0 < segmentEnd r e c - c" "segmentEnd r e c - c \<le> 24 * hour" using segmentEnd_bounds [where c = c and e = e and r = r] assms(2) by auto
  then have "fless (Finite 0) (Hours rnd (segmentEnd r e c - c))" using assms(1) by (simp add: keeps_positive_def)
  then show ?thesis using assms(2) len by (subst integrateLoop.simps) (simp add: Let_def e timeSub_small)
qed

lemma integrateLoop_tiles:
  assumes "keeps_positive rnd" "c \<le> e"
  shows "tiles rnd r w c e (integrateLoop rnd r w e c)"
  using assms(2)
proof (induction c rule: segment_induct [where r = r and e = e])
  case (step c)
  then show ?case using segmentEnd_bounds [where c = c and e = e and r = r] by (simp add: integrateLoop_step [OF assms(1)] segmentEnd_def)
qed (simp add: integrateLoop_done)

section \<open>Exact arithmetic\<close>

lemma Hours_exact: "Hours Finite d = Finite (of_int d / of_int hour)"
proof -
  have "real_of_int d = of_int (d div hour) * of_int hour + of_int (d mod hour)"
    by (metis div_mult_mod_eq of_int_add of_int_mult)
  then show ?thesis using hour_pos by (simp add: Hours_def field_simps)
qed

lemma exact_keeps_positive: "keeps_positive Finite"
  using hour_pos by (simp add: keeps_positive_def Hours_exact)

text \<open>The length that two intervals have in common, and the energy that the segments of a bucket have.\<close>

definition commonLength :: "int \<Rightarrow> int \<Rightarrow> int \<Rightarrow> int \<Rightarrow> int" where
  "commonLength a b c d = max 0 (min b d - max a c)"

definition energyFor :: "int \<Rightarrow> segment list \<Rightarrow> real" where
  "energyFor bucket segs = sum_list (map (\<lambda>(bu, s, e, wh). if bu = bucket then finiteValue wh else 0) segs)"

lemma energyFor_simps [simp]:
  "energyFor bucket [] = 0"
  "energyFor bucket ((bu, s, e, wh) # segs) = (if bu = bucket then finiteValue wh else 0) + energyFor bucket segs"
  by (simp_all add: energyFor_def)

lemma bucketStart_eq: "bucketStart r b = b \<Longrightarrow> bucketStart r c = b \<longleftrightarrow> b \<le> c \<and> c < b + bucketWidth r"
proof
  assume b: "bucketStart r b = b" and c: "b \<le> c \<and> c < b + bucketWidth r"
  have "c = bucketWidth r * (b div bucketWidth r) + (c - b)" using b by (simp add: bucketStart_def mult.commute)
  then have "c div bucketWidth r = b div bucketWidth r" using c by (intro int_div_pos_eq [where r = "c - b"]) auto
  then show "bucketStart r c = b" using b by (simp add: bucketStart_def)
qed (use bucketStart_less [where t = c and r = r] in auto)

lemma bucketStart_gap:
  assumes "bucketStart r b = b" "bucketStart r c < b"
  shows "bucketStart r c + bucketWidth r \<le> b"
proof -
  have "(c div bucketWidth r) * bucketWidth r < (b div bucketWidth r) * bucketWidth r" using assms by (simp add: bucketStart_def)
  then have "c div bucketWidth r + 1 \<le> b div bucketWidth r" using bucketWidth_pos [of r] by (simp add: mult_less_cancel_right)
  then have "(c div bucketWidth r + 1) * bucketWidth r \<le> (b div bucketWidth r) * bucketWidth r"
    using bucketWidth_pos [of r] by (intro mult_right_mono) auto
  then show ?thesis using assms(1) by (simp add: bucketStart_def distrib_right)
qed

lemma segment_commonLength:
  assumes "bucketStart r b = b" "c < e"
  shows "commonLength c e b (b + bucketWidth r) =
    (if bucketStart r c = b then segmentEnd r e c - c else 0) + commonLength (segmentEnd r e c) e b (b + bucketWidth r)"
proof (cases "bucketStart r c = b")
  case True
  then have "b \<le> c" "c < b + bucketWidth r" using bucketStart_less [where t = c and r = r] by auto
  then show ?thesis using assms(2) True by (simp add: commonLength_def segmentEnd_def)
next
  case False
  then have off: "c < b \<or> b + bucketWidth r \<le> c" using bucketStart_eq [OF assms(1), where c = c] by linarith
  have "segmentEnd r e c \<le> b" if "c < b"
    using bucketStart_gap [OF assms(1), where c = c] bucketStart_less(2) [where t = c and r = r] that by (simp add: segmentEnd_def)
  then show ?thesis using False off segmentEnd_bounds [where c = c and e = e and r = r] assms(2) by (auto simp: commonLength_def)
qed

lemma integrateLoop_energy:
  assumes "bucketStart r b = b"
  shows "energyFor b (integrateLoop Finite r (Finite w) e c) = w * of_int (commonLength c e b (b + bucketWidth r)) / of_int hour"
proof (induction c rule: segment_induct [where r = r and e = e])
  case (finished c)
  then show ?case using bucketWidth_pos [of r] by (simp add: integrateLoop_done commonLength_def)
next
  case (step c)
  then show ?case
    by (simp add: integrateLoop_step [OF exact_keeps_positive] Hours_exact finiteValue_def segment_commonLength [OF assms step(1)]
        add_divide_distrib distrib_left)
qed

text \<open>The energy of the segments of a window, in a bucket and as a set of numbers.\<close>

lemma window_energy:
  "\<exists>p s e. \<forall>r b. bucketStart r b = b \<longrightarrow>
     energyFor b (IntegratePowerWindow Finite r start end0 lastAt (Finite w) gap) = p * of_int (commonLength s e b (b + bucketWidth r))"
proof -
  let ?e = "if 0 < gap \<and> lastAt + gap < end0 then lastAt + gap else end0"
  show ?thesis
  proof (cases "start < end0 \<and> 0 < w \<and> start < ?e")
    case True
    then have "IntegratePowerWindow Finite r start end0 lastAt (Finite w) gap = integrateLoop Finite r (Finite w) ?e start" for r
      by (auto simp: IntegratePowerWindow_def fle_def feq_def Let_def)
    then show ?thesis by (intro exI [of _ "w / of_int hour"] exI [of _ start] exI [of _ ?e]) (simp add: integrateLoop_energy)
  next
    case False
    then have "IntegratePowerWindow Finite r start end0 lastAt (Finite w) gap = []" for r
      by (auto simp: IntegratePowerWindow_def fle_def feq_def Let_def)
    then show ?thesis by (intro exI [of _ 0]) simp
  qed
qed

lemma integrateLoop_positive:
  assumes "0 < w"
  shows "\<forall>(bu, s, e', wh) \<in> set (integrateLoop Finite r (Finite w) e c). \<exists>x>0. wh = Finite x"
proof (induction c rule: segment_induct [where r = r and e = e])
  case (step c)
  then show ?case using assms segmentEnd_bounds [where c = c and e = e and r = r] hour_pos
    by (simp add: integrateLoop_step [OF exact_keeps_positive] Hours_exact)
qed (simp add: integrateLoop_done)

lemma window_positive:
  assumes "(bu, s, e, wh) \<in> set (IntegratePowerWindow Finite r start end0 lastAt (Finite w) gap)"
  shows "\<exists>x>0. wh = Finite x"
proof -
  have "0 < w" and "(bu, s, e, wh) \<in> set (integrateLoop Finite r (Finite w) (if 0 < gap \<and> lastAt + gap < end0 then lastAt + gap else end0) start)"
    using assms by (auto simp: IntegratePowerWindow_def fle_def feq_def Let_def split: if_splits)
  then show ?thesis using integrateLoop_positive by fastforce
qed

section \<open>What a statement adds\<close>

definition rowEnergy :: "rollup_row \<Rightarrow> channel \<Rightarrow> real" where
  "rowEnergy row ch = (case rwEnergy row ch of None \<Rightarrow> 0 | Some v \<Rightarrow> finiteValue v)"

definition energyAt :: "rollup_db \<Rightarrow> resolution \<Rightarrow> bucket_key \<Rightarrow> channel \<Rightarrow> real" where
  "energyAt db r key ch = (case gm_get (rdRows db r) key of None \<Rightarrow> 0 | Some row \<Rightarrow> rowEnergy row ch)"

definition countAt :: "rollup_db \<Rightarrow> resolution \<Rightarrow> bucket_key \<Rightarrow> int" where
  "countAt db r key = (case gm_get (rdRows db r) key of None \<Rightarrow> 0 | Some row \<Rightarrow> rwSampleCount row)"

definition finite_energies :: "(channel \<Rightarrow> float64 option) \<Rightarrow> bool" where
  "finite_energies en \<longleftrightarrow> (\<forall>ch v. en ch = Some v \<longrightarrow> isFinite v)"

definition rows_finite :: "rollup_db \<Rightarrow> bool" where
  "rows_finite db \<longleftrightarrow> (\<forall>r key row. gm_get (rdRows db r) key = Some row \<longrightarrow> finite_energies (rwEnergy row))"

text \<open>An effect that adds given energies and numbers of samples to the rows.\<close>

definition adds :: "(rollup_db \<Rightarrow> rollup_db) \<Rightarrow> (resolution \<Rightarrow> bucket_key \<Rightarrow> channel \<Rightarrow> real) \<Rightarrow> (resolution \<Rightarrow> bucket_key \<Rightarrow> int) \<Rightarrow> bool" where
  "adds f energy samples \<longleftrightarrow>
     (\<forall>db. rows_finite db \<longrightarrow> rows_finite (f db) \<and> (\<forall>r key ch. energyAt (f db) r key ch = energyAt db r key ch + energy r key ch) \<and>
        (\<forall>r key. countAt (f db) r key = countAt db r key + samples r key))"

definition runStatements :: "statement list \<Rightarrow> rollup_db \<Rightarrow> rollup_db" where
  "runStatements sts db = fold (\<lambda>(what, effect). effect) sts db"

lemma adds_same: "(\<And>db. rdRows (f db) = rdRows db) \<Longrightarrow> adds f (\<lambda>_ _ _. 0) (\<lambda>_ _. 0)"
  by (simp add: adds_def rows_finite_def energyAt_def countAt_def)

lemma adds_Nil: "adds (runStatements []) (\<lambda>_ _ _. 0) (\<lambda>_ _. 0)"
  by (rule adds_same) (simp add: runStatements_def)

lemma adds_append:
  assumes "adds (runStatements xs) e1 n1" "adds (runStatements ys) e2 n2"
  shows "adds (runStatements (xs @ ys)) (\<lambda>r k ch. e1 r k ch + e2 r k ch) (\<lambda>r k. n1 r k + n2 r k)"
  using assms by (simp add: adds_def runStatements_def add.assoc)

lemma adds_Cons:
  assumes "adds effect e1 n1" "adds (runStatements ys) e2 n2"
  shows "adds (runStatements ((what, effect) # ys)) (\<lambda>r k ch. e1 r k ch + e2 r k ch) (\<lambda>r k. n1 r k + n2 r k)"
  using assms by (simp add: adds_def runStatements_def add.assoc)

lemma adds_map:
  assumes "\<And>x. x \<in> set xs \<Longrightarrow> adds (snd (f x)) (e x) (n x)"
  shows "adds (runStatements (map f xs)) (\<lambda>r k ch. sum_list (map (\<lambda>x. e x r k ch) xs)) (\<lambda>r k. sum_list (map (\<lambda>x. n x r k) xs))"
  using assms
proof (induction xs)
  case (Cons x xs)
  then have "adds (runStatements ((fst (f x), snd (f x)) # map f xs)) (\<lambda>r k ch. e x r k ch + sum_list (map (\<lambda>x. e x r k ch) xs))
      (\<lambda>r k. n x r k + sum_list (map (\<lambda>x. n x r k) xs))"
    by (intro adds_Cons) simp_all
  then show ?case by simp
qed (simp add: adds_Nil)

lemma adds_concat:
  assumes "\<And>x. x \<in> set xs \<Longrightarrow> adds (runStatements (f x)) (e x) (n x)"
  shows "adds (runStatements (concat (map f xs))) (\<lambda>r k ch. sum_list (map (\<lambda>x. e x r k ch) xs)) (\<lambda>r k. sum_list (map (\<lambda>x. n x r k) xs))"
  using assms by (induction xs) (simp_all add: adds_Nil adds_append)

lemma nullOr_value:
  assumes "\<And>v. old = Some v \<Longrightarrow> isFinite v" "\<And>v. new = Some v \<Longrightarrow> isFinite v"
  shows "(case sumExpr Finite old new of None \<Rightarrow> 0 | Some v \<Rightarrow> finiteValue v) =
     (case old of None \<Rightarrow> 0 | Some v \<Rightarrow> finiteValue v) + (case new of None \<Rightarrow> 0 | Some v \<Rightarrow> finiteValue v)"
    "sumExpr Finite old new = Some v \<Longrightarrow> isFinite v"
  using assms by (auto simp: sumExpr_def nullOr_def isFinite_def finiteValue_def split: option.splits float64.splits)

lemma finite_energies_sum: "finite_energies a \<Longrightarrow> finite_energies b \<Longrightarrow> finite_energies (\<lambda>ch. sumExpr Finite (a ch) (b ch))"
  unfolding finite_energies_def by (meson nullOr_value(2))

lemma adds_putRow:
  assumes "\<And>row. finite_energies (rwEnergy row) \<Longrightarrow> finite_energies (rwEnergy (f (Some row)))" "finite_energies (rwEnergy (f None))"
    and "\<And>row ch. finite_energies (rwEnergy row) \<Longrightarrow> rowEnergy (f (Some row)) ch = rowEnergy row ch + en ch" "\<And>ch. rowEnergy (f None) ch = en ch"
    and "\<And>row. rwSampleCount (f (Some row)) = rwSampleCount row + c" "rwSampleCount (f None) = c"
  shows "adds (putRow r key f) (\<lambda>r' k ch. if r' = r \<and> k = key then en ch else 0) (\<lambda>r' k. if r' = r \<and> k = key then c else 0)"
  unfolding adds_def
proof (intro allI impI conjI)
  fix db assume fin: "rows_finite db"
  have row: "gm_get (rdRows db r) key = Some row \<Longrightarrow> finite_energies (rwEnergy row)" for row using fin unfolding rows_finite_def by blast
  show "rows_finite (putRow r key f db)" using assms(1,2) fin row
    by (cases "gm_get (rdRows db r) key") (auto simp: rows_finite_def putRow_def)
  show "energyAt (putRow r key f db) r' k ch = energyAt db r' k ch + (if r' = r \<and> k = key then en ch else 0)" for r' k ch
    using assms(3,4) row by (cases "gm_get (rdRows db r) key") (auto simp: energyAt_def putRow_def)
  show "countAt (putRow r key f db) r' k = countAt db r' k + (if r' = r \<and> k = key then c else 0)" for r' k
    using assms(5,6) by (cases "gm_get (rdRows db r) key") (auto simp: countAt_def putRow_def)
qed

lemma adds_upsertEnergy:
  assumes "finite_energies en"
  shows "adds (putRow r key (upsertEnergy Finite (energyRow dev f l en)))
    (\<lambda>r' k ch. if r' = r \<and> k = key then (case en ch of None \<Rightarrow> 0 | Some v \<Rightarrow> finiteValue v) else 0) (\<lambda>_ _. 0)"
proof -
  have "adds (putRow r key (upsertEnergy Finite (energyRow dev f l en)))
    (\<lambda>r' k ch. if r' = r \<and> k = key then (case en ch of None \<Rightarrow> 0 | Some v \<Rightarrow> finiteValue v) else 0) (\<lambda>r' k. if r' = r \<and> k = key then 0 else 0)"
    by (rule adds_putRow) (use assms finite_energies_sum nullOr_value(1) in \<open>auto simp: upsertEnergy_def energyRow_def rowEnergy_def finite_energies_def [of "rwEnergy _"]
      finite_energies_def [of en]\<close>)
  then show ?thesis by (simp cong: if_cong)
qed

lemma adds_execUpsert:
  assumes "rmSolarGeneratedWh (rsMetrics sample) = None"
  shows "adds (snd (execUpsert Finite sample r)) (\<lambda>_ _ _. 0)
    (\<lambda>r' k. if r' = r \<and> k = rowKey sample (bucketStart r (rsEventTime sample)) then 1 else 0)"
proof -
  have same: "sumExpr Finite v None = v" for v by (simp add: sumExpr_def nullOr_def split: option.splits)
  have "adds (snd (execUpsert Finite sample r))
      (\<lambda>r' k ch. if r' = r \<and> k = rowKey sample (bucketStart r (rsEventTime sample)) then 0 else 0)
      (\<lambda>r' k. if r' = r \<and> k = rowKey sample (bucketStart r (rsEventTime sample)) then 1 else 0)"
    unfolding execUpsert_def snd_conv
    by (rule adds_putRow) (use assms in \<open>auto simp: upsertSample_def sampleRow_def Let_def finite_energies_def rowEnergy_def same fun_upd_idem\<close>)
  then show ?thesis by (simp cong: if_cong)
qed

section \<open>What an envelope adds\<close>

text \<open>The segments by which one interval charges a channel.\<close>

definition channelSegments :: "(real \<Rightarrow> float64) \<Rightarrow> int \<Rightarrow> int \<Rightarrow> powerChannelState \<Rightarrow> resolution \<Rightarrow> segment list" where
  "channelSegments rnd start end state r =
     (case (pcWatts state, pcLastAt state) of
        (Some watts, Some lastAt) \<Rightarrow> IntegratePowerWindow rnd r start end lastAt watts DefaultSolarCarryForwardMaxGap
      | _ \<Rightarrow> [])"

definition solarSegments :: "(real \<Rightarrow> float64) \<Rightarrow> int \<Rightarrow> int \<Rightarrow> integrationState \<Rightarrow> resolution \<Rightarrow> segment list" where
  "solarSegments rnd start end state r =
     (case isPV state of
        Some pv \<Rightarrow> IntegratePowerWindow rnd r start end (case isLastPVAt state of None \<Rightarrow> zeroTime | Some t \<Rightarrow> t) pv DefaultSolarCarryForwardMaxGap
      | None \<Rightarrow> [])"

fun channelStateOf :: "integrationState \<Rightarrow> channel \<Rightarrow> powerChannelState" where
  "channelStateOf state Solar = zeroChannel"
| "channelStateOf state ACInputEnergy = isACIn state"
| "channelStateOf state ACOutputEnergy = isACOutput state"
| "channelStateOf state DCOutputEnergy = isDCOutput state"
| "channelStateOf state LoadEnergy = isLoad state"
| "channelStateOf state BatteryChargeEnergy = isBatteryCharge state"
| "channelStateOf state BatteryDischargeEnergy = isBatteryDischarge state"

definition segmentsOf :: "(real \<Rightarrow> float64) \<Rightarrow> integrationState \<Rightarrow> int \<Rightarrow> channel \<Rightarrow> resolution \<Rightarrow> segment list" where
  "segmentsOf rnd state end ch r =
     (case isLastEnvelopeAt state of
        None \<Rightarrow> []
      | Some start \<Rightarrow>
          if \<not> start < end then []
          else if ch = Solar then solarSegments rnd start end state r else channelSegments rnd start end (channelStateOf state ch) r)"

definition finite_channel :: "powerChannelState \<Rightarrow> bool" where
  "finite_channel st \<longleftrightarrow> (\<forall>v. pcWatts st = Some v \<longrightarrow> isFinite v)"

definition finite_state :: "integrationState \<Rightarrow> bool" where
  "finite_state st \<longleftrightarrow> (\<forall>v. isPV st = Some v \<longrightarrow> isFinite v) \<and> (\<forall>ch. finite_channel (channelStateOf st ch))"

lemma isFinite_iff: "isFinite v \<longleftrightarrow> (\<exists>x. v = Finite x)"
  by (cases v) (simp_all add: isFinite_def)

lemma segments_positive:
  "finite_channel st \<Longrightarrow> (bu, s, e, wh) \<in> set (channelSegments Finite start end st r) \<Longrightarrow> \<exists>x>0. wh = Finite x"
  "finite_state state \<Longrightarrow> (bu, s, e, wh) \<in> set (solarSegments Finite start end state r) \<Longrightarrow> \<exists>x>0. wh = Finite x"
proof -
  show "finite_channel st \<Longrightarrow> (bu, s, e, wh) \<in> set (channelSegments Finite start end st r) \<Longrightarrow> \<exists>x>0. wh = Finite x"
    by (cases "pcWatts st"; cases "pcLastAt st") (auto simp: channelSegments_def finite_channel_def isFinite_iff dest!: window_positive)
  show "finite_state state \<Longrightarrow> (bu, s, e, wh) \<in> set (solarSegments Finite start end state r) \<Longrightarrow> \<exists>x>0. wh = Finite x"
    by (cases "isPV state") (auto simp: solarSegments_def finite_state_def isFinite_iff dest!: window_positive)
qed

text \<open>Segments whose energy in a bucket is a power times the commonLength with one interval, at every resolution.\<close>

definition proportional :: "(resolution \<Rightarrow> segment list) \<Rightarrow> bool" where
  "proportional f \<longleftrightarrow> (\<exists>p s e. \<forall>r b. bucketStart r b = b \<longrightarrow> energyFor b (f r) = p * of_int (commonLength s e b (b + bucketWidth r)))"

lemma proportional_Nil: "proportional (\<lambda>_. [])"
  unfolding proportional_def by (intro exI [of _ 0]) simp

lemma proportional_window: "proportional (\<lambda>r. IntegratePowerWindow Finite r start end0 lastAt (Finite w) gap)"
  unfolding proportional_def by (rule window_energy)

lemma segments_proportional:
  assumes "finite_state state"
  shows "proportional (segmentsOf Finite state end ch)"
proof -
  have solar: "proportional (solarSegments Finite start end state)" for start
    using assms by (cases "isPV state") (auto simp: solarSegments_def [abs_def] finite_state_def isFinite_iff proportional_Nil proportional_window)
  have other: "proportional (channelSegments Finite start end st)" if "finite_channel st" for start st
    using that by (cases "pcWatts st"; cases "pcLastAt st") (auto simp: channelSegments_def [abs_def] finite_channel_def isFinite_iff proportional_Nil proportional_window)
  have "segmentsOf Finite state end ch = (\<lambda>_. []) \<or> (\<exists>start. segmentsOf Finite state end ch =
      (if ch = Solar then solarSegments Finite start end state else channelSegments Finite start end (channelStateOf state ch)))"
    by (cases "isLastEnvelopeAt state") (auto simp: segmentsOf_def fun_eq_iff)
  then show ?thesis using assms solar other by (auto simp: proportional_Nil finite_state_def)
qed

text \<open>Solar energy: one statement for each segment.\<close>

definition forDevice :: "RollupSample \<Rightarrow> bucket_key \<Rightarrow> real \<Rightarrow> real" where
  "forDevice sample key x = (if fst key = rsProvider sample \<and> fst (snd key) = rsProviderDeviceID sample then x else 0)"

lemma forDevice_simps [simp]: "forDevice sample key 0 = 0" "forDevice sample key x + forDevice sample key y = forDevice sample key (x + y)"
  by (simp_all add: forDevice_def)

lemma row_sum:
  "sum_list (map (\<lambda>(bu, s, e, wh). if r' = r \<and> key = rowKey sample bu then finiteValue wh else 0) segs) =
     (if r' = r then forDevice sample key (energyFor (snd (snd key)) segs) else 0)"
  by (cases key; induction segs) (auto simp: forDevice_def rowKey_def)

lemma adds_execSolarUpsert:
  assumes "finite_state state" "isPV state = Some pv"
  shows "adds (runStatements (execSolarUpsert Finite sample state start pv r))
    (\<lambda>r' k ch. if r' = r \<and> ch = Solar then forDevice sample k (energyFor (snd (snd k)) (solarSegments Finite start (rsEventTime sample) state r)) else 0) (\<lambda>_ _. 0)"
proof -
  let ?segs = "solarSegments Finite start (rsEventTime sample) state r"
  let ?f = "\<lambda>(bu, s, e, wh). (''upsert solar rollup bucket'', putRow r (rowKey sample bu)
      (upsertEnergy Finite (energyRow (rsDeviceID sample) (fst (segmentTimes s e)) (snd (segmentTimes s e)) ((\<lambda>_. None)(Solar := Some wh)))))"
  let ?e = "\<lambda>x r' k ch. if r' = r \<and> k = rowKey sample (fst x) then (case ((\<lambda>_. None)(Solar := Some (snd (snd (snd x))))) ch of None \<Rightarrow> 0 | Some v \<Rightarrow> finiteValue v) else 0"
  have "adds (snd (?f x)) (?e x) (\<lambda>_ _. 0)" if "x \<in> set ?segs" for x
  proof -
    obtain bu s e wh where x: "x = (bu, s, e, wh)" by (cases x)
    have "finite_energies ((\<lambda>_. None)(Solar := Some wh))" using segments_positive(2) [OF assms(1), of bu s e wh] that x by (fastforce simp: finite_energies_def isFinite_iff)
    then show ?thesis unfolding x prod.case fst_conv snd_conv by (rule adds_upsertEnergy)
  qed
  then have "adds (runStatements (map ?f ?segs)) (\<lambda>r' k ch. sum_list (map (\<lambda>x. ?e x r' k ch) ?segs)) (\<lambda>r' k. sum_list (map (\<lambda>x. 0) ?segs))"
    by (rule adds_map)
  moreover have "map ?f ?segs = execSolarUpsert Finite sample state start pv r" using assms(2) by (simp add: execSolarUpsert_def solarSegments_def)
  moreover have "sum_list (map (\<lambda>x. ?e x r' k ch) ?segs) =
      (if r' = r \<and> ch = Solar then forDevice sample k (energyFor (snd (snd k)) ?segs) else 0)" for r' k ch
  proof (cases "ch = Solar")
    case True
    then show ?thesis using row_sum [of r' r k sample ?segs] by (simp add: case_prod_unfold cong: if_cong)
  next
    case False
    then show ?thesis by (simp cong: if_cong)
  qed
  ultimately show ?thesis by simp
qed

text \<open>The other channels: the segments of an interval are gathered by bucket first.\<close>

definition gathered :: "(int, energyDelta) gomap \<Rightarrow> int \<Rightarrow> channel \<Rightarrow> real" where
  "gathered acc b ch = (case gm_get acc b of None \<Rightarrow> 0 | Some delta \<Rightarrow> finiteValue (edEnergy delta ch))"

definition gathering :: "(int, energyDelta) gomap \<Rightarrow> bool" where
  "gathering acc \<longleftrightarrow> gm_wf acc \<and> (\<forall>b delta. gm_get acc b = Some delta \<longrightarrow> edRange delta \<noteq> None \<and> (\<forall>ch. \<exists>x\<ge>0. edEnergy delta ch = Finite x))"

lemma addSegment_gathers:
  assumes "gathering acc" "0 < x"
  shows "gathering (addSegment Finite ch (bu, s, e, Finite x) acc)"
    "gathered (addSegment Finite ch (bu, s, e, Finite x) acc) b ch' = gathered acc b ch' + (if bu = b \<and> ch' = ch then x else 0)"
proof -
  let ?delta = "case gm_get acc bu of None \<Rightarrow> zeroDelta | Some d \<Rightarrow> d"
  have fin: "\<exists>y\<ge>0. edEnergy ?delta c = Finite y" for c
    using assms(1) by (cases "gm_get acc bu") (auto simp: gathering_def zeroDelta_def)
  have old: "finiteValue (edEnergy ?delta c) = gathered acc bu c" for c
    by (cases "gm_get acc bu") (simp_all add: gathered_def zeroDelta_def finiteValue_def)
  obtain y where y: "0 \<le> y" "edEnergy ?delta ch = Finite y" using fin by blast
  obtain span where acc': "addSegment Finite ch (bu, s, e, Finite x) acc =
      gm_put bu \<lparr>edRange = Some span, edEnergy = (edEnergy ?delta)(ch := Finite (y + x))\<rparr> acc"
    using y(2) by (simp add: addSegment_def Let_def case_prod_unfold)
  show "gathering (addSegment Finite ch (bu, s, e, Finite x) acc)"
    using assms fin y(1) unfolding acc' by (auto simp: gathering_def)
  show "gathered (addSegment Finite ch (bu, s, e, Finite x) acc) b ch' = gathered acc b ch' + (if bu = b \<and> ch' = ch then x else 0)"
  proof (cases "b = bu")
    case True
    then show ?thesis using old [of ch] old [of ch'] y(2) unfolding acc' by (simp add: gathered_def [of "gm_put _ _ _"] finiteValue_def)
  qed (simp add: acc' gathered_def)
qed

lemma fold_addSegment:
  assumes "gathering acc" "\<forall>(bu, s, e, wh) \<in> set segs. \<exists>x>0. wh = Finite x"
  shows "gathering (fold (addSegment Finite ch) segs acc) \<and>
    (\<forall>b ch'. gathered (fold (addSegment Finite ch) segs acc) b ch' = gathered acc b ch' + (if ch' = ch then energyFor b segs else 0))"
  using assms
proof (induction segs arbitrary: acc)
  case (Cons seg segs)
  obtain bu s e x where seg: "seg = (bu, s, e, Finite x)" "0 < x" using Cons(3) by (cases seg) auto
  then have "gathering (addSegment Finite ch seg acc)" using addSegment_gathers(1) Cons(2) by blast
  then show ?case using Cons(1) [of "addSegment Finite ch seg acc"] Cons(2,3) addSegment_gathers(2) [of acc x ch bu s e] seg
    by (auto simp: finiteValue_def)
qed simp

lemma integrateEnergyChannel_gathers:
  assumes "gathering acc" "finite_channel st"
  shows "gathering (integrateEnergyChannel Finite r start end (ch, st) acc) \<and>
    (\<forall>b ch'. gathered (integrateEnergyChannel Finite r start end (ch, st) acc) b ch' =
       gathered acc b ch' + (if ch' = ch then energyFor b (channelSegments Finite start end st r) else 0))"
proof -
  have "integrateEnergyChannel Finite r start end (ch, st) acc = fold (addSegment Finite ch) (channelSegments Finite start end st r) acc"
    by (simp add: integrateEnergyChannel_def channelSegments_def split: option.splits)
  then show ?thesis using fold_addSegment [OF assms(1), of "channelSegments Finite start end st r" ch] segments_positive(1) [OF assms(2)] by fastforce
qed

lemma fold_channels_gathers:
  assumes "gathering acc" "\<forall>(ch, st) \<in> set chs. finite_channel st"
  shows "gathering (fold (integrateEnergyChannel Finite r start end) chs acc) \<and>
    (\<forall>b ch'. gathered (fold (integrateEnergyChannel Finite r start end) chs acc) b ch' =
       gathered acc b ch' + sum_list (map (\<lambda>(ch, st). if ch' = ch then energyFor b (channelSegments Finite start end st r) else 0) chs))"
  using assms
proof (induction chs arbitrary: acc)
  case (Cons c chs)
  obtain ch st where c: "c = (ch, st)" by (cases c)
  then have "gathering (integrateEnergyChannel Finite r start end c acc)" using integrateEnergyChannel_gathers Cons(2,3) by auto
  then show ?case using Cons(1) [of "integrateEnergyChannel Finite r start end c acc"] Cons(2,3) c
      integrateEnergyChannel_gathers [of acc st r start "end" ch] by auto
qed simp

definition gatheredEnergies :: "integrationState \<Rightarrow> int \<Rightarrow> int \<Rightarrow> resolution \<Rightarrow> (int, energyDelta) gomap" where
  "gatheredEnergies state start end r = fold (integrateEnergyChannel Finite r start end) (energyChannels state) []"

lemma gatheredEnergies_value:
  assumes "finite_state state"
  shows "gathering (gatheredEnergies state start end r)"
    "gathered (gatheredEnergies state start end r) b ch =
       (if ch = Solar then 0 else energyFor b (channelSegments Finite start end (channelStateOf state ch) r))"
proof -
  have "\<forall>(ch, st) \<in> set (energyChannels state). finite_channel st"
    using assms by (auto simp: energyChannels_def finite_state_def dest: spec [of _ ACInputEnergy] spec [of _ ACOutputEnergy]
        spec [of _ DCOutputEnergy] spec [of _ LoadEnergy] spec [of _ BatteryChargeEnergy] spec [of _ BatteryDischargeEnergy])
  moreover have "gathering []" by (simp add: gathering_def)
  ultimately show "gathering (gatheredEnergies state start end r)"
      "gathered (gatheredEnergies state start end r) b ch =
       (if ch = Solar then 0 else energyFor b (channelSegments Finite start end (channelStateOf state ch) r))"
    using fold_channels_gathers [of "[]" "energyChannels state" r start "end"]
    by (cases ch; auto simp: gatheredEnergies_def energyChannels_def gathered_def)+
qed

lemma nullable_value:
  "0 \<le> x \<Longrightarrow> (case nullableEnergyValue (Finite x) of None \<Rightarrow> 0 | Some v \<Rightarrow> finiteValue v) = x"
  "nullableEnergyValue (Finite x) = Some v \<Longrightarrow> isFinite v"
  by (auto simp: nullableEnergyValue_def fle_def feq_def finiteValue_def isFinite_def split: if_splits)

lemma map_filter_total: "(\<And>x. x \<in> set xs \<Longrightarrow> f x = Some (g x)) \<Longrightarrow> List.map_filter f xs = map g xs"
  by (induction xs) (simp_all add: map_filter_simps)

text \<open>A statement for each bucket that a gathering has.\<close>

definition energyStatement :: "RollupSample \<Rightarrow> resolution \<Rightarrow> (int, energyDelta) gomap \<Rightarrow> int \<Rightarrow> statement" where
  "energyStatement sample r acc bucket =
     (let delta = the (gm_get acc bucket); (firstTS, lastTS) = the (edRange delta)
      in (''upsert energy rollup bucket'',
          putRow r (rowKey sample bucket)
            (upsertEnergy Finite (energyRow (rsDeviceID sample) firstTS lastTS ((nullableEnergyValue \<circ> edEnergy delta)(Solar := None))))))"

lemma execEnergyUpsert_map:
  assumes "finite_state state" "acc = gatheredEnergies state start (rsEventTime sample) r"
  shows "execEnergyUpsert Finite sample state start r = map (energyStatement sample r acc) (sort_by (by_asc id) (map fst acc))"
proof -
  have "gm_get acc b \<noteq> None \<and> edRange (the (gm_get acc b)) \<noteq> None" if "b \<in> fst ` set acc" for b
    using that gatheredEnergies_value(1) [OF assms(1)] assms(2) by (fastforce simp: gathering_def gm_mem_iff)
  then show ?thesis
    unfolding execEnergyUpsert_def Let_def gatheredEnergies_def [symmetric] assms(2) [symmetric]
    by (intro map_filter_total) (fastforce simp: energyStatement_def)
qed

lemma adds_energyStatement:
  assumes "gathering acc" "gm_get acc b \<noteq> None"
  shows "adds (snd (energyStatement sample r acc b))
    (\<lambda>r' k ch. if r' = r \<and> k = rowKey sample b then (if ch = Solar then 0 else gathered acc b ch) else 0) (\<lambda>_ _. 0)"
proof -
  obtain delta f l where delta: "gm_get acc b = Some delta" "edRange delta = Some (f, l)" using assms by (fastforce simp: gathering_def)
  let ?en = "(nullableEnergyValue \<circ> edEnergy delta)(Solar := None)"
  have fin: "\<exists>x\<ge>0. edEnergy delta ch = Finite x" for ch using assms(1) delta(1) by (simp add: gathering_def)
  have "finite_energies ?en"
    unfolding finite_energies_def fun_upd_apply comp_apply using fin nullable_value(2) by (metis option.distinct(1))
  note en = adds_upsertEnergy [OF this, of r "rowKey sample b" "rsDeviceID sample" f l]
  have val: "(case ?en ch of None \<Rightarrow> 0 | Some v \<Rightarrow> finiteValue v) = (if ch = Solar then 0 else gathered acc b ch)" for ch
    using fin [of ch] delta(1) nullable_value(1) by (auto simp: gathered_def finiteValue_def)
  show ?thesis using en unfolding val using delta by (simp add: energyStatement_def)
qed

lemma sum_distinct_key:
  "distinct bs \<Longrightarrow> sum_list (map (\<lambda>b. if r' = r \<and> key = rowKey sample b then g b else 0) bs) =
     (if r' = r \<and> snd (snd key) \<in> set bs then forDevice sample key (g (snd (snd key))) else 0)"
  by (cases key; induction bs) (auto simp: forDevice_def rowKey_def)

lemma adds_execEnergyUpsert:
  assumes "finite_state state"
  shows "adds (runStatements (execEnergyUpsert Finite sample state start r))
    (\<lambda>r' k ch. if r' = r \<and> ch \<noteq> Solar
       then forDevice sample k (energyFor (snd (snd k)) (channelSegments Finite start (rsEventTime sample) (channelStateOf state ch) r)) else 0) (\<lambda>_ _. 0)"
proof -
  let ?acc = "gatheredEnergies state start (rsEventTime sample) r"
  let ?bs = "sort_by (by_asc id) (map fst ?acc)"
  note acc = gatheredEnergies_value [OF assms, of start "rsEventTime sample" r]
  have bs: "distinct ?bs" "b \<in> set ?bs \<longleftrightarrow> gm_get ?acc b \<noteq> None" for b
    using acc(1) by (simp_all add: gathering_def gm_wf_def gm_get_def map_of_eq_None_iff)
  have "adds (runStatements (map (energyStatement sample r ?acc) ?bs))
      (\<lambda>r' k ch. sum_list (map (\<lambda>b. if r' = r \<and> k = rowKey sample b then (if ch = Solar then 0 else gathered ?acc b ch) else 0) ?bs))
      (\<lambda>_ _. sum_list (map (\<lambda>_. 0) ?bs))"
    using adds_energyStatement [OF acc(1)] bs(2) by (intro adds_map) simp
  moreover have "sum_list (map (\<lambda>b. if r' = r \<and> k = rowKey sample b then (if ch = Solar then 0 else gathered ?acc b ch) else 0) ?bs) =
     (if r' = r \<and> ch \<noteq> Solar
       then forDevice sample k (energyFor (snd (snd k)) (channelSegments Finite start (rsEventTime sample) (channelStateOf state ch) r)) else 0)" for r' k ch
  proof -
    have "snd (snd k) \<notin> set ?bs \<Longrightarrow> gathered ?acc (snd (snd k)) ch = 0" using bs(2) by (simp add: gathered_def)
    then show ?thesis using acc(2) [of "snd (snd k)" ch]
      by (subst sum_distinct_key [OF bs(1)]) (cases "ch = Solar"; cases "snd (snd k) \<in> set ?bs"; simp)
  qed
  ultimately show ?thesis by (simp add: execEnergyUpsert_map [OF assms refl])
qed

lemma adds_cong:
  assumes "adds f e n" "\<And>r k ch. e r k ch = e' r k ch" "\<And>r k. n r k = n' r k"
  shows "adds f e' n'"
  using assms by (simp add: adds_def)

lemma adds_samples:
  assumes "rmSolarGeneratedWh (rsMetrics sample) = None"
  shows "adds (runStatements (map (execUpsert Finite sample) [ResolutionMinute, ResolutionHour, ResolutionDay])) (\<lambda>_ _ _. 0)
    (\<lambda>r k. if k = rowKey sample (bucketStart r (rsEventTime sample)) then 1 else 0)"
proof (rule adds_cong [OF adds_map])
  show "adds (snd (execUpsert Finite sample r)) (\<lambda>_ _ _. 0)
      (\<lambda>r' k. if r' = r \<and> k = rowKey sample (bucketStart r (rsEventTime sample)) then 1 else 0)" for r
    by (rule adds_execUpsert [OF assms])
  show "(\<Sum>x\<leftarrow>[ResolutionMinute, ResolutionHour, ResolutionDay]. if r = x \<and> k = rowKey sample (bucketStart x (rsEventTime sample)) then 1 else 0) =
      (if k = rowKey sample (bucketStart r (rsEventTime sample)) then 1 else (0 :: int))" for r k
    by (cases r) simp_all
qed simp

lemma adds_solar:
  assumes "finite_state state"
  shows "adds (runStatements (execSolarUpserts Finite sample state))
    (\<lambda>r k ch. if ch = Solar then forDevice sample k (energyFor (snd (snd k)) (segmentsOf Finite state (rsEventTime sample) Solar r)) else 0) (\<lambda>_ _. 0)"
proof (cases "\<exists>start pv. isLastEnvelopeAt state = Some start \<and> isPV state = Some pv \<and> start < rsEventTime sample")
  case True
  then obtain start pv where st: "isLastEnvelopeAt state = Some start" "isPV state = Some pv" "start < rsEventTime sample" by blast
  have "adds (runStatements (concat (map (execSolarUpsert Finite sample state start pv) [ResolutionMinute, ResolutionHour, ResolutionDay])))
      (\<lambda>r k ch. if ch = Solar then forDevice sample k (energyFor (snd (snd k)) (segmentsOf Finite state (rsEventTime sample) Solar r)) else 0) (\<lambda>_ _. 0)"
  proof (rule adds_cong [OF adds_concat [OF adds_execSolarUpsert [OF assms st(2)]]])
    fix r k ch
    show "(\<Sum>x\<leftarrow>[ResolutionMinute, ResolutionHour, ResolutionDay]. if r = x \<and> ch = Solar
          then forDevice sample k (energyFor (snd (snd k)) (solarSegments Finite start (rsEventTime sample) state x)) else 0) =
        (if ch = Solar then forDevice sample k (energyFor (snd (snd k)) (segmentsOf Finite state (rsEventTime sample) Solar r)) else 0)"
      using st by (cases r) (simp_all add: segmentsOf_def)
  qed simp_all
  then show ?thesis using st by (simp add: execSolarUpserts_def)
next
  case False
  then have "execSolarUpserts Finite sample state = []" "segmentsOf Finite state (rsEventTime sample) Solar r = []" for r
    by (auto simp: execSolarUpserts_def segmentsOf_def solarSegments_def split: option.splits)
  then show ?thesis by (simp add: adds_Nil cong: if_cong)
qed

lemma adds_energies:
  assumes "finite_state state"
  shows "adds (runStatements (execEnergyUpserts Finite sample state))
    (\<lambda>r k ch. if ch \<noteq> Solar then forDevice sample k (energyFor (snd (snd k)) (segmentsOf Finite state (rsEventTime sample) ch r)) else 0) (\<lambda>_ _. 0)"
proof (cases "\<exists>start. isLastEnvelopeAt state = Some start \<and> start < rsEventTime sample")
  case True
  then obtain start where st: "isLastEnvelopeAt state = Some start" "start < rsEventTime sample" by blast
  have "adds (runStatements (concat (map (execEnergyUpsert Finite sample state start) [ResolutionMinute, ResolutionHour, ResolutionDay])))
      (\<lambda>r k ch. if ch \<noteq> Solar then forDevice sample k (energyFor (snd (snd k)) (segmentsOf Finite state (rsEventTime sample) ch r)) else 0) (\<lambda>_ _. 0)"
  proof (rule adds_cong [OF adds_concat [OF adds_execEnergyUpsert [OF assms]]])
    fix r k ch
    show "(\<Sum>x\<leftarrow>[ResolutionMinute, ResolutionHour, ResolutionDay]. if r = x \<and> ch \<noteq> Solar
          then forDevice sample k (energyFor (snd (snd k)) (channelSegments Finite start (rsEventTime sample) (channelStateOf state ch) x)) else 0) =
        (if ch \<noteq> Solar then forDevice sample k (energyFor (snd (snd k)) (segmentsOf Finite state (rsEventTime sample) ch r)) else 0)"
      using st by (cases r) (simp_all add: segmentsOf_def)
  qed simp_all
  then show ?thesis using st by (simp add: execEnergyUpserts_def)
next
  case False
  then have "execEnergyUpserts Finite sample state = []" "segmentsOf Finite state (rsEventTime sample) ch r = []" for r ch
    by (auto simp: execEnergyUpserts_def segmentsOf_def split: option.splits)
  then show ?thesis by (simp add: adds_Nil cong: if_cong)
qed

lemma adds_ports: "adds (runStatements (execPVPortUpserts sample)) (\<lambda>_ _ _. 0) (\<lambda>_ _. 0)"
proof (rule adds_same)
  have "rdRows (fold (\<lambda>(what, effect). effect) sts db) = rdRows db" if "\<forall>(what, effect) \<in> set sts. \<forall>db. rdRows (effect db) = rdRows db" for sts db
    using that by (induction sts arbitrary: db) auto
  then show "rdRows (runStatements (execPVPortUpserts sample) db) = rdRows db" for db
    unfolding runStatements_def by (rule meta_mp) (auto simp: execPVPortUpserts_def putPort_def Let_def)
qed

theorem adds_envelope:
  assumes "finite_state state"
  shows "adds (runStatements (envelopeStatements Finite sample state))
    (\<lambda>r k ch. forDevice sample k (energyFor (snd (snd k)) (segmentsOf Finite state (rsEventTime sample) ch r)))
    (\<lambda>r k. if k = rowKey sample (bucketStart r (rsEventTime sample)) then 1 else 0)"
proof -
  let ?s = "sample\<lparr>rsMetrics := (rsMetrics sample)\<lparr>rmSolarGeneratedWh := None\<rparr>\<rparr>"
  have "adds (runStatements (map (execUpsert Finite ?s) [ResolutionMinute, ResolutionHour, ResolutionDay])) (\<lambda>_ _ _. 0)
      (\<lambda>r k. if k = rowKey ?s (bucketStart r (rsEventTime ?s)) then 1 else 0)"
    by (rule adds_samples) simp
  note parts = adds_append [OF this adds_append [OF adds_solar [OF assms] adds_append [OF adds_energies [OF assms] adds_ports]]]
  show ?thesis unfolding envelopeStatements_def Let_def
    by (rule adds_cong [OF parts]) (auto simp: rowKey_def)
qed

end
