(* ===== verification/Rollup_Runs.thy ===== *)
theory Rollup_Runs
  imports Rollup_Sums
begin

text \<open>
  Runs of any number of rollup workers over one database, in exact arithmetic: each worker handles its
  deliveries in some order, with every failure of the database, and may start again with an empty
  memory at any time. In every state that such a run reaches, the tables of minutes, hours and days
  agree with each other.
\<close>

section \<open>Runs\<close>

definition finite_metrics :: "RollupMetrics \<Rightarrow> bool" where
  "finite_metrics m \<longleftrightarrow> (\<forall>v \<in> {rmPV m, rmACIn m, rmACOutput m, rmDC m, rmLoad m, rmBattery m}. \<forall>x. v = Some x \<longrightarrow> isFinite x)"

inductive rollup_run ::
    "rollup_reader \<Rightarrow> (byte list \<Rightarrow> string + TelemetryEnvelope) \<Rightarrow> (nat \<Rightarrow> device_states) \<Rightarrow> rollup_db \<Rightarrow> bool" for rx unmarshal where
  rollups_start: "rollup_run rx unmarshal (\<lambda>_. []) emptyRollups"
| rollups_deliver:
    "rollup_run rx unmarshal workers db \<Longrightarrow>
     \<forall>env sample. unmarshal data = Inr env \<longrightarrow> SampleFromEnvelope rx env = Inr sample \<longrightarrow> finite_metrics (rsMetrics sample) \<Longrightarrow>
     Rollup_Model.processDelivery rx unmarshal tx data (workers i, db) = ((states', db'), act) \<Longrightarrow>
     rollup_run rx unmarshal (workers(i := states')) db'"
| rollups_restart: "rollup_run rx unmarshal workers db \<Longrightarrow> rollup_run rx unmarshal (workers(i := [])) db"

section \<open>States in memory\<close>

definition finite_states :: "device_states \<Rightarrow> bool" where
  "finite_states states \<longleftrightarrow> (\<forall>key st. gm_get states key = Some st \<longrightarrow> finite_state st)"

lemma finite_state_iff:
  "finite_state st \<longleftrightarrow> (\<forall>v. isPV st = Some v \<longrightarrow> isFinite v) \<and> finite_channel (isACIn st) \<and> finite_channel (isACOutput st) \<and>
     finite_channel (isDCOutput st) \<and> finite_channel (isLoad st) \<and> finite_channel (isBatteryCharge st) \<and> finite_channel (isBatteryDischarge st)"
proof -
  have "(\<forall>ch. finite_channel (channelStateOf st ch)) \<longleftrightarrow> finite_channel (isACIn st) \<and> finite_channel (isACOutput st) \<and>
     finite_channel (isDCOutput st) \<and> finite_channel (isLoad st) \<and> finite_channel (isBatteryCharge st) \<and> finite_channel (isBatteryDischarge st)"
    by (smt (verit) channel.exhaust channelStateOf.simps finite_channel_def option.distinct(1) powerChannelState.simps(2) zeroChannel_def)
  then show ?thesis by (simp add: finite_state_def)
qed

lemma zero_finite: "finite_state zeroIntegration"
  by (simp add: finite_state_iff zeroIntegration_def zeroChannel_def finite_channel_def)

lemma advance_channel_finite:
  "finite_channel st \<Longrightarrow> (\<And>x. metric = Some x \<Longrightarrow> isFinite x) \<Longrightarrow> finite_channel (advancePowerChannelState st ts metric)"
  by (auto simp: finite_channel_def advancePowerChannelState_def split: option.splits if_splits)

lemma signed_finite:
  assumes "\<And>x. metric = Some x \<Longrightarrow> isFinite x"
  shows "positiveOptionalFloat metric = Some y \<Longrightarrow> isFinite y" "negativeOptionalFloat metric = Some y \<Longrightarrow> isFinite y"
  using assms by (auto simp: positiveOptionalFloat_def negativeOptionalFloat_def isFinite_iff split: option.splits if_splits)

lemma advance_finite:
  assumes "finite_state st" "finite_metrics (rsMetrics sample)"
  shows "finite_state (advanceIntegrationState st sample)" "finite_state (advanceDuplicateIntegrationState st sample)"
proof -
  let ?m = "rsMetrics sample"
  have fin: "rmPV ?m = Some v \<Longrightarrow> isFinite v" "rmACIn ?m = Some v \<Longrightarrow> isFinite v" "rmACOutput ?m = Some v \<Longrightarrow> isFinite v"
      "rmDC ?m = Some v \<Longrightarrow> isFinite v" "rmLoad ?m = Some v \<Longrightarrow> isFinite v" "rmBattery ?m = Some v \<Longrightarrow> isFinite v" for v
    using assms(2) by (simp_all add: finite_metrics_def)
  show 1: "finite_state (advanceIntegrationState st sample)"
    unfolding finite_state_iff advanceIntegrationState_def Let_def
    using assms(1) fin signed_finite [OF fin(6)]
    by (auto simp: finite_state_iff intro!: advance_channel_finite split: option.splits if_splits)
  show "finite_state (advanceDuplicateIntegrationState st sample)"
    using assms(1) 1 by (simp add: advanceDuplicateIntegrationState_def split: option.splits)
qed

lemma stateOf_finite: "finite_states states \<Longrightarrow> finite_state (stateOf states sample)"
  by (simp add: stateOf_def finite_states_def zero_finite split: option.splits)

section \<open>Tables that agree\<close>

definition minutesOf :: "bucket_key \<Rightarrow> bucket_key list" where
  "minutesOf key = (case key of (p, d, b) \<Rightarrow> map (\<lambda>i. (p, d, b + int i * minute)) [0..<60])"

definition hoursOf :: "bucket_key \<Rightarrow> bucket_key list" where
  "hoursOf key = (case key of (p, d, b) \<Rightarrow> map (\<lambda>i. (p, d, b + int i * hour)) [0..<24])"

text \<open>A function of rows that, summed over the minutes of an hour, gives its value for the hour, and likewise for the
  hours of a day.\<close>

definition rolls_up :: "(resolution \<Rightarrow> bucket_key \<Rightarrow> 'a::comm_monoid_add) \<Rightarrow> bool" where
  "rolls_up f \<longleftrightarrow>
     (\<forall>p d b. bucketStart ResolutionHour b = b \<longrightarrow> sum_list (map (f ResolutionMinute) (minutesOf (p, d, b))) = f ResolutionHour (p, d, b)) \<and>
     (\<forall>p d b. bucketStart ResolutionDay b = b \<longrightarrow> sum_list (map (f ResolutionHour) (hoursOf (p, d, b))) = f ResolutionDay (p, d, b))"

lemma rolls_up_zero: "rolls_up (\<lambda>_ _. 0)"
  by (simp add: rolls_up_def minutesOf_def hoursOf_def comp_def sum_list_0)

lemma rolls_up_add:
  assumes "rolls_up f" "rolls_up g"
  shows "rolls_up (\<lambda>r k. f r k + g r k)"
  using assms by (simp add: rolls_up_def sum_list_addf)

lemma minute_pos: "0 < minute"
  by (simp add: minute_def second_def)

lemma commonLength_join: "a \<le> m \<Longrightarrow> m \<le> b \<Longrightarrow> commonLength s e a m + commonLength s e m b = commonLength s e a b"
  by (auto simp: commonLength_def max_def min_def)

lemma commonLength_split:
  assumes "0 \<le> w"
  shows "(\<Sum>i\<leftarrow>[0..<n]. commonLength s e (b + int i * w) (b + int i * w + w)) = commonLength s e b (b + int n * w)"
proof (induction n)
  case (Suc n)
  have "commonLength s e b (b + int n * w) + commonLength s e (b + int n * w) (b + int n * w + w) = commonLength s e b (b + int n * w + w)"
    using assms by (intro commonLength_join) simp_all
  then show ?case using Suc by (simp add: algebra_simps)
qed (simp add: commonLength_def)

lemma aligned_multiple: "bucketWidth r = w \<Longrightarrow> bucketStart r (k * w) = k * w"
  using bucketWidth_pos [of r] by (auto simp: bucketStart_def)

lemma aligned_minute:
  assumes "bucketStart ResolutionHour b = b"
  shows "bucketStart ResolutionMinute (b + int i * minute) = b + int i * minute"
proof -
  have "b = 60 * (b div hour) * minute" using assms by (simp add: bucketStart_def hour_def)
  then have "b + int i * minute = (60 * (b div hour) + int i) * minute" by (simp add: distrib_right)
  then show ?thesis using aligned_multiple [of ResolutionMinute minute "60 * (b div hour) + int i"] by simp
qed

lemma aligned_hour:
  assumes "bucketStart ResolutionDay b = b"
  shows "bucketStart ResolutionHour (b + int i * hour) = b + int i * hour"
proof -
  have "b = 24 * (b div (24 * hour)) * hour" using assms by (simp add: bucketStart_def)
  then have "b + int i * hour = (24 * (b div (24 * hour)) + int i) * hour" by (simp add: distrib_right)
  then show ?thesis using aligned_multiple [of ResolutionHour hour "24 * (b div (24 * hour)) + int i"] by simp
qed

lemma sum_list_scaled: "sum_list (map (\<lambda>i. p * real_of_int (g i)) xs) = p * of_int (sum_list (map g xs))"
  by (induction xs) (simp_all add: distrib_left)

lemma forDevice_sum: "(\<Sum>i\<leftarrow>xs. forDevice sample (p, d, g i) (h i)) = forDevice sample (p, d, b) (sum_list (map h xs))"
  by (induction xs) (simp_all add: forDevice_def)

lemma proportional_rolls_up:
  assumes "proportional f"
  shows "rolls_up (\<lambda>r k. forDevice sample k (energyFor (snd (snd k)) (f r)))"
proof -
  obtain p s e where f: "\<And>r b. bucketStart r b = b \<Longrightarrow> energyFor b (f r) = p * of_int (commonLength s e b (b + bucketWidth r))"
    using assms unfolding proportional_def by blast
  have minutes: "(\<Sum>i\<leftarrow>[0..<60]. energyFor (b + int i * minute) (f ResolutionMinute)) = energyFor b (f ResolutionHour)"
    if "bucketStart ResolutionHour b = b" for b
    using commonLength_split [of minute s e b 60] minute_pos
    by (simp add: f [OF that] f [OF aligned_minute [OF that]] sum_list_scaled hour_def del: upt_conv_Cons upt_rec_numeral)
  have hours: "(\<Sum>i\<leftarrow>[0..<24]. energyFor (b + int i * hour) (f ResolutionHour)) = energyFor b (f ResolutionDay)"
    if "bucketStart ResolutionDay b = b" for b
    using commonLength_split [of hour s e b 24] hour_pos
    by (simp add: f [OF that] f [OF aligned_hour [OF that]] sum_list_scaled del: upt_conv_Cons upt_rec_numeral)
  show ?thesis unfolding rolls_up_def minutesOf_def hoursOf_def prod.case map_map comp_def
  proof (intro conjI allI impI)
    fix dev d b
    show "(\<Sum>i\<leftarrow>[0..<60]. forDevice sample (dev, d, b + int i * minute) (energyFor (snd (snd (dev, d, b + int i * minute))) (f ResolutionMinute))) =
        forDevice sample (dev, d, b) (energyFor (snd (snd (dev, d, b))) (f ResolutionHour))" if "bucketStart ResolutionHour b = b"
      using minutes [OF that] by (subst forDevice_sum [where b = b]) (simp del: upt_conv_Cons upt_rec_numeral)
    show "(\<Sum>i\<leftarrow>[0..<24]. forDevice sample (dev, d, b + int i * hour) (energyFor (snd (snd (dev, d, b + int i * hour))) (f ResolutionHour))) =
        forDevice sample (dev, d, b) (energyFor (snd (snd (dev, d, b))) (f ResolutionDay))" if "bucketStart ResolutionDay b = b"
      using hours [OF that] by (subst forDevice_sum [where b = b]) (simp del: upt_conv_Cons upt_rec_numeral)
  qed
qed

lemma indicator_sum: "distinct xs \<Longrightarrow> (\<Sum>x\<leftarrow>xs. if P \<and> x = a then 1 else 0) = (if P \<and> a \<in> set xs then 1 else (0 :: int))"
  by (induction xs) auto

text \<open>The row of a sample: its minute is one of the minutes of its hour, and its hour one of the hours of its day.\<close>

lemma multiple_le: "0 < w \<Longrightarrow> k * w \<le> t \<longleftrightarrow> k \<le> t div (w :: int)"
  using pos_imp_zdiv_nonneg_iff [of w "t - k * w"] div_mult_self1 [of w t "- k"] by simp

lemma coarser:
  assumes "bucketWidth big = int n * bucketWidth small" "bucketStart big b = b"
  shows "bucketStart big t = b \<longleftrightarrow> (\<exists>i<n. bucketStart small t = b + int i * bucketWidth small)"
proof -
  have w: "0 < bucketWidth small" by (rule bucketWidth_pos)
  obtain k where k: "b = k * bucketWidth small" using assms unfolding bucketStart_def by (metis mult.assoc)
  define j where "j = t div bucketWidth small - k"
  have t: "bucketStart small t = b + j * bucketWidth small" by (simp add: bucketStart_def j_def k algebra_simps)
  have "bucketStart big t = b \<longleftrightarrow> b \<le> t \<and> t < b + int n * bucketWidth small" using bucketStart_eq [OF assms(2)] assms(1) by simp
  also have "\<dots> \<longleftrightarrow> 0 \<le> j \<and> j < int n"
  proof -
    have "b \<le> t \<longleftrightarrow> k \<le> t div bucketWidth small" using multiple_le [OF w, of k t] by (simp add: k)
    moreover have "b + int n * bucketWidth small \<le> t \<longleftrightarrow> k + int n \<le> t div bucketWidth small"
      using multiple_le [OF w, of "k + int n" t] by (simp add: k distrib_right)
    ultimately show ?thesis by (auto simp: j_def)
  qed
  also have "\<dots> \<longleftrightarrow> (\<exists>i<n. bucketStart small t = b + int i * bucketWidth small)"
    using w unfolding t by (auto intro: exI [of _ "nat j"])
  finally show ?thesis .
qed

lemma sample_rolls_up: "rolls_up (\<lambda>r k. if k = rowKey sample (bucketStart r t) then 1 else (0 :: int))"
proof -
  have pick: "(\<Sum>i\<leftarrow>[0..<n]. if (p, d, b + int i * bucketWidth small) = rowKey sample (bucketStart small t) then 1 else 0) =
      (if (p, d, b) = rowKey sample (bucketStart big t) then 1 else (0 :: int))"
    if "bucketWidth big = int n * bucketWidth small" "bucketStart big b = b" for big small n p d b
  proof -
    let ?keys = "map (\<lambda>i. (p, d, b + int i * bucketWidth small)) [0..<n]"
    have "distinct ?keys" using bucketWidth_pos [of small] by (auto simp: distinct_map inj_on_def)
    then have "(\<Sum>k\<leftarrow>?keys. if True \<and> k = rowKey sample (bucketStart small t) then 1 else 0) =
        (if rowKey sample (bucketStart small t) \<in> set ?keys then 1 else (0 :: int))" by (subst indicator_sum) simp_all
    then show ?thesis using coarser [OF that, of t] by (auto simp: comp_def rowKey_def)
  qed
  show ?thesis unfolding rolls_up_def minutesOf_def hoursOf_def prod.case map_map comp_def
    using pick [of ResolutionHour 60 ResolutionMinute] pick [of ResolutionDay 24 ResolutionHour] by (simp add: hour_def del: upt_conv_Cons upt_rec_numeral)
qed

section \<open>The invariant\<close>

lemma execStatements_run: "execStatements tx n sts db = Inr db' \<Longrightarrow> db' = runStatements sts db"
  by (induction tx n sts db rule: execStatements.induct) (auto simp: runStatements_def split: option.splits)

definition agree :: "rollup_db \<Rightarrow> bool" where
  "agree db \<longleftrightarrow> rows_finite db \<and> (\<forall>ch. rolls_up (\<lambda>r k. energyAt db r k ch)) \<and> rolls_up (countAt db)"

lemma agree_rows: "rdRows db = rdRows db' \<Longrightarrow> agree db \<longleftrightarrow> agree db'"
  by (simp add: agree_def rows_finite_def energyAt_def [abs_def] countAt_def [abs_def])

lemma agree_envelope:
  assumes "finite_state state" "agree db"
  shows "agree (runStatements (envelopeStatements Finite sample state) db)"
proof -
  let ?db = "runStatements (envelopeStatements Finite sample state) db"
  note adds = adds_envelope [OF assms(1), of sample, unfolded adds_def, rule_format, of db]
  have db: "rows_finite db" using assms(2) by (simp add: agree_def)
  have energy: "(\<lambda>r k. energyAt ?db r k ch) = (\<lambda>r k. energyAt db r k ch + forDevice sample k (energyFor (snd (snd k)) (segmentsOf Finite state (rsEventTime sample) ch r)))" for ch
    using adds [OF db] by blast
  have samples: "countAt ?db = (\<lambda>r k. countAt db r k + (if k = rowKey sample (bucketStart r (rsEventTime sample)) then 1 else 0))"
    using adds [OF db] by blast
  show ?thesis unfolding agree_def energy samples
    using adds [OF db] assms(2) proportional_rolls_up [OF segments_proportional [OF assms(1)]] sample_rolls_up
    by (auto simp: agree_def intro!: rolls_up_add)
qed

lemma applySample_agree:
  assumes "applySample Finite tx env sample (states, db) = ((states', db'), err)" "finite_metrics (rsMetrics sample)" "finite_states states" "agree db"
  shows "finite_states states' \<and> agree db'"
proof -
  let ?st = "stateOf states sample"
  have st: "finite_state ?st" by (rule stateOf_finite [OF assms(3)])
  have fin: "finite_states (gm_put (stateKeyOf sample) (advanceIntegrationState ?st sample) states)"
      "finite_states (gm_put (stateKeyOf sample) (advanceDuplicateIntegrationState ?st sample) states)"
    using assms(3) advance_finite [OF st assms(2)] by (simp_all add: finite_states_def)
  have claim: "agree (runStatements (envelopeStatements Finite sample ?st) db1)" if "claimEnvelopeDedup tx env db = Inr (True, db1)" for db1
  proof -
    have "rdRows db1 = rdRows db" using that by (auto simp: claimEnvelopeDedup_def Let_def split: if_splits option.splits)
    then show ?thesis using agree_envelope [OF st] agree_rows [of db1 db] assms(4) by blast
  qed
  show ?thesis using assms(1,3,4) fin claim
    by (auto simp: applySample_def Let_def split: option.splits sum.splits if_splits prod.splits dest!: execStatements_run callEffect_cases)
qed

lemma rollup_run_agree:
  assumes "rollup_run rx unmarshal workers db" "rxRound rx = Finite"
  shows "(\<forall>i. finite_states (workers i)) \<and> agree db"
  using assms(1)
proof induction
  case rollups_start
  have "agree emptyRollups"
    by (simp add: rolls_up_zero agree_def emptyRollups_def rows_finite_def energyAt_def [abs_def] countAt_def [abs_def])
  then show ?case by (simp add: finite_states_def)
next
  case (rollups_deliver workers db data tx i states' db' act)
  have "finite_states states' \<and> agree db'"
  proof (cases "\<exists>env sample. unmarshal data = Inr env \<and> SampleFromEnvelope rx env = Inr sample \<and> HasAny (rsMetrics sample)")
    case True
    then obtain env sample where s: "unmarshal data = Inr env" "SampleFromEnvelope rx env = Inr sample" "HasAny (rsMetrics sample)" by blast
    obtain err where "applySample Finite tx env sample (workers i, db) = ((states', db'), err)"
      using rollups_deliver(3) s assms(2)
      by (auto simp: Rollup_Model.processDelivery_def Rollup_Model.ApplyEnvelope_def split: prod.splits option.splits rollup_error.splits)
    then show ?thesis using applySample_agree rollups_deliver(2,4) s by blast
  next
    case False
    then have "states' = workers i \<and> db' = db"
      using rollups_deliver(3)
      by (auto simp: Rollup_Model.processDelivery_def Rollup_Model.ApplyEnvelope_def split: sum.splits if_splits rollup_error.splits)
    then show ?thesis using rollups_deliver(4) by simp
  qed
  then show ?case using rollups_deliver(4) by simp
qed (simp_all add: finite_states_def)

end
