(* ===== verification/Rollup_Rebuild.thy ===== *)
theory Rollup_Rebuild
  imports Rollup_Model
begin

text \<open>
  The rollups that are computed again from the archive (\<open>internal/rolluprebuild/aggregator.go\<close>): the samples in the
  order of their ingestion, gathered in memory in rows whose averages are sums and numbers. The
  states of the devices have the fields of \<open>integrationState\<close> and the names of the device.
\<close>

section \<open>Rows\<close>

text \<open>An accumulator that is not valid is \<open>None\<close>, and so is an energy without its flag.\<close>

record metricAccumulator =
  maSum :: float64
  maCount :: int
  maMin :: float64
  maMax :: float64

definition maAdd :: "(real \<Rightarrow> float64) \<Rightarrow> float64 \<Rightarrow> metricAccumulator option \<Rightarrow> metricAccumulator" where
  "maAdd rnd value m =
     (case m of
        None \<Rightarrow> \<lparr>maSum = value, maCount = 1, maMin = value, maMax = value\<rparr>
      | Some a \<Rightarrow>
          a\<lparr>maSum := fadd rnd (maSum a) value, maCount := maCount a + 1, maMin := (if fless value (maMin a) then value else maMin a),
            maMax := (if fless (maMax a) value then value else maMax a)\<rparr>)"

definition avgValue :: "(real \<Rightarrow> float64) \<Rightarrow> metricAccumulator option \<Rightarrow> float64 option" where
  "avgValue rnd m =
     (case m of None \<Rightarrow> None | Some a \<Rightarrow> if maCount a \<le> 0 then None else Some (fdivBy rnd (maSum a) (of_int (maCount a))))"

definition minValue :: "metricAccumulator option \<Rightarrow> float64 option" where "minValue m = map_option maMin m"

definition maxValue :: "metricAccumulator option \<Rightarrow> float64 option" where "maxValue m = map_option maMax m"

record BucketRow =
  brProvider :: string
  brProviderDeviceID :: string
  brDeviceID :: string
  brBucketStart :: int
  brSampleCount :: int
  brFirstTs :: int
  brLastTs :: int
  brMetric :: "metric \<Rightarrow> metricAccumulator option"
  brEnergy :: "channel \<Rightarrow> float64 option"

record PVPortBucketRow =
  ppProvider :: string
  ppProviderDeviceID :: string
  ppDeviceID :: string
  ppPortID :: string
  ppPortLabel :: string
  ppBucketStart :: int
  ppSampleCount :: int
  ppFirstTs :: int
  ppLastTs :: int
  ppMaxVolts :: float64
  ppMaxAmps :: float64
  ppMaxWatts :: float64
  ppLastVolts :: float64
  ppLastAmps :: float64
  ppLastWatts :: float64
  ppLastAt :: int

record deviceState =
  dsProvider :: string
  dsProviderDeviceID :: string
  dsDeviceID :: string
  dsState :: integrationState

record Aggregator =
  agRows :: "resolution \<Rightarrow> (string, BucketRow) gomap"
  agPorts :: "resolution \<Rightarrow> (string, PVPortBucketRow) gomap"
  agStates :: "(string, deviceState) gomap"
  agMaxGap :: int

definition NewAggregator :: Aggregator where
  "NewAggregator = \<lparr>agRows = (\<lambda>_. []), agPorts = (\<lambda>_. []), agStates = [], agMaxGap = DefaultSolarCarryForwardMaxGap\<rparr>"

definition bucketMapKey :: "string \<Rightarrow> string \<Rightarrow> int \<Rightarrow> string" where
  "bucketMapKey provider providerDeviceID bucket = provider @ ''|'' @ providerDeviceID @ ''|'' @ Itoa (bucket div second)"

definition ensureBucketRow :: "(string, BucketRow) gomap \<Rightarrow> RollupSample \<Rightarrow> int \<Rightarrow> BucketRow" where
  "ensureBucketRow target sample bucket =
     (case gm_get target (bucketMapKey (rsProvider sample) (rsProviderDeviceID sample) bucket) of
        Some row \<Rightarrow> row
      | None \<Rightarrow> \<lparr>brProvider = rsProvider sample, brProviderDeviceID = rsProviderDeviceID sample, brDeviceID = rsDeviceID sample,
            brBucketStart = bucket, brSampleCount = 0, brFirstTs = 0, brLastTs = 0, brMetric = (\<lambda>_. None), brEnergy = (\<lambda>_. None)\<rparr>)"

text \<open>The change of one row through its pointer.\<close>

definition changeRow :: "resolution \<Rightarrow> RollupSample \<Rightarrow> int \<Rightarrow> (BucketRow \<Rightarrow> BucketRow) \<Rightarrow> Aggregator \<Rightarrow> Aggregator" where
  "changeRow r sample bucket f agg =
     agg\<lparr>agRows := (agRows agg)(r :=
       gm_put (bucketMapKey (rsProvider sample) (rsProviderDeviceID sample) bucket) (f (ensureBucketRow (agRows agg r) sample bucket)) (agRows agg r))\<rparr>"

section \<open>Energy\<close>

definition addEnergy :: "(real \<Rightarrow> float64) \<Rightarrow> channel \<Rightarrow> float64 \<Rightarrow> BucketRow \<Rightarrow> BucketRow" where
  "addEnergy rnd ch wattHours row = row\<lparr>brEnergy := (brEnergy row)(ch := Some (fadd rnd (valueOr0 (brEnergy row ch)) wattHours))\<rparr>"

definition addSegments :: "(real \<Rightarrow> float64) \<Rightarrow> RollupSample \<Rightarrow> channel \<Rightarrow> resolution \<Rightarrow> segment list \<Rightarrow> Aggregator \<Rightarrow> Aggregator" where
  "addSegments rnd sample ch r segs agg =
     fold (\<lambda>(bucket, _, _, wattHours). changeRow r sample bucket (addEnergy rnd ch wattHours)) segs agg"

definition integrateSolar :: "(real \<Rightarrow> float64) \<Rightarrow> RollupSample \<Rightarrow> int \<Rightarrow> int \<Rightarrow> float64 \<Rightarrow> int \<Rightarrow> Aggregator \<Rightarrow> Aggregator" where
  "integrateSolar rnd sample start end pvWatts lastPVAt agg =
     (if \<not> start < end \<or> fle pvWatts (Finite 0) then agg
      else fold (\<lambda>r agg. addSegments rnd sample Solar r (IntegratePowerWindow rnd r start end lastPVAt pvWatts (agMaxGap agg)) agg)
             [ResolutionMinute, ResolutionHour, ResolutionDay] agg)"

definition integrateEnergyAcrossBuckets ::
    "(real \<Rightarrow> float64) \<Rightarrow> RollupSample \<Rightarrow> int \<Rightarrow> int \<Rightarrow> channel \<times> powerChannelState \<Rightarrow> resolution \<Rightarrow> Aggregator \<Rightarrow> Aggregator" where
  "integrateEnergyAcrossBuckets rnd sample start end chs r agg =
     (case chs of (ch, state) \<Rightarrow>
        (case (pcWatts state, pcLastAt state) of
           (Some watts, Some lastAt) \<Rightarrow> addSegments rnd sample ch r (IntegratePowerWindow rnd r start end lastAt watts (agMaxGap agg)) agg
         | _ \<Rightarrow> agg))"

definition integrateEnergy :: "(real \<Rightarrow> float64) \<Rightarrow> RollupSample \<Rightarrow> integrationState \<Rightarrow> int \<Rightarrow> int \<Rightarrow> Aggregator \<Rightarrow> Aggregator" where
  "integrateEnergy rnd sample state start end agg =
     (if \<not> start < end then agg
      else fold (\<lambda>chs. fold (integrateEnergyAcrossBuckets rnd sample start end chs) [ResolutionMinute, ResolutionHour, ResolutionDay])
             (energyChannels state) agg)"

section \<open>Points\<close>

definition addPoint :: "(real \<Rightarrow> float64) \<Rightarrow> RollupSample \<Rightarrow> resolution \<Rightarrow> Aggregator \<Rightarrow> Aggregator" where
  "addPoint rnd sample r =
     changeRow r sample (bucketStart r (rsEventTime sample)) (\<lambda>row.
       row\<lparr>brSampleCount := brSampleCount row + 1,
           brFirstTs := (if brFirstTs row = 0 \<or> rsEventUnixMs sample < brFirstTs row then rsEventUnixMs sample else brFirstTs row),
           brLastTs := (if brLastTs row < rsEventUnixMs sample then rsEventUnixMs sample else brLastTs row),
           brMetric := (\<lambda>m. case metricColumn m (rsMetrics sample) of None \<Rightarrow> brMetric row m | Some v \<Rightarrow> Some (maAdd rnd v (brMetric row m)))\<rparr>)"

text \<open>\<open>Format(time.RFC3339Nano)\<close> of an instant that is a whole number of seconds.\<close>

definition formatRFC3339 :: "int \<Rightarrow> string" where
  "formatRFC3339 t =
     (case Date t of (year, month, day) \<Rightarrow>
        dec_signed 4 year @ ''-'' @ dec_padded 2 (nat month) @ ''-'' @ dec_padded 2 (nat day) @ ''T'' @ dec_padded 2 (nat (Go_Time.Hour t)) @ '':'' @
        dec_padded 2 (nat (t mod hour div minute)) @ '':'' @ dec_padded 2 (nat (t mod minute div second)) @ ''Z'')"

definition addPVPortPoint :: "RollupSample \<Rightarrow> int \<Rightarrow> PVPortObservation \<Rightarrow> (string, PVPortBucketRow) gomap \<Rightarrow> (string, PVPortBucketRow) gomap" where
  "addPVPortPoint sample bucket ob target =
     (let key = rsProvider sample @ ''|'' @ rsProviderDeviceID sample @ ''|'' @ poPortID ob @ ''|'' @ formatRFC3339 bucket;
          ts = rsEventUnixMs sample;
          row = (case gm_get target key of
                   Some row \<Rightarrow> row
                 | None \<Rightarrow> \<lparr>ppProvider = rsProvider sample, ppProviderDeviceID = rsProviderDeviceID sample, ppDeviceID = rsDeviceID sample,
                     ppPortID = poPortID ob, ppPortLabel = poPortLabel ob, ppBucketStart = bucket, ppSampleCount = 0, ppFirstTs = 0, ppLastTs = 0,
                     ppMaxVolts = Finite 0, ppMaxAmps = Finite 0, ppMaxWatts = Finite 0, ppLastVolts = Finite 0, ppLastAmps = Finite 0,
                     ppLastWatts = Finite 0, ppLastAt = 0\<rparr>);
          bigger = (\<lambda>new old. if fless old new then new else old);
          row1 = row\<lparr>ppSampleCount := ppSampleCount row + 1,
                     ppFirstTs := (if ppFirstTs row = 0 \<or> ts < ppFirstTs row then ts else ppFirstTs row),
                     ppLastTs := (if ppLastTs row < ts then ts else ppLastTs row),
                     ppMaxVolts := bigger (poVolts ob) (ppMaxVolts row), ppMaxAmps := bigger (poAmps ob) (ppMaxAmps row),
                     ppMaxWatts := bigger (poWatts ob) (ppMaxWatts row)\<rparr>;
          row2 = (if ppLastAt row1 \<le> ts
                  then row1\<lparr>ppPortLabel := poPortLabel ob, ppLastVolts := poVolts ob, ppLastAmps := poAmps ob, ppLastWatts := poWatts ob, ppLastAt := ts\<rparr>
                  else row1)
      in gm_put key row2 target)"

definition addPVPortPoints :: "RollupSample \<Rightarrow> resolution \<Rightarrow> Aggregator \<Rightarrow> Aggregator" where
  "addPVPortPoints sample r agg =
     agg\<lparr>agPorts := (agPorts agg)(r := fold (addPVPortPoint sample (bucketStart r (rsEventTime sample))) (rsPVPorts sample) (agPorts agg r))\<rparr>"

section \<open>Samples\<close>

definition advancePowerState :: "powerChannelState \<Rightarrow> int \<Rightarrow> float64 option \<Rightarrow> powerChannelState" where
  "advancePowerState state ts metric =
     (case metric of
        None \<Rightarrow> state
      | Some value \<Rightarrow> \<lparr>pcLastAt = Some ts, pcWatts = (if fless (Finite 0) value then Some value else None)\<rparr>)"

definition positiveMetricValue :: "float64 option \<Rightarrow> float64 option" where
  "positiveMetricValue metric = (case metric of None \<Rightarrow> Some (Finite 0) | Some v \<Rightarrow> if fle v (Finite 0) then Some (Finite 0) else Some v)"

definition negativeMetricValue :: "float64 option \<Rightarrow> float64 option" where
  "negativeMetricValue metric = (case metric of None \<Rightarrow> Some (Finite 0) | Some v \<Rightarrow> if fle (Finite 0) v then Some (Finite 0) else Some (fneg v))"

definition advanceDeviceState :: "integrationState \<Rightarrow> RollupSample \<Rightarrow> integrationState" where
  "advanceDeviceState state sample =
     (let ts = rsEventTime sample; m = rsMetrics sample;
          s1 = (if (case isLastEnvelopeAt state of None \<Rightarrow> True | Some prev \<Rightarrow> prev < ts) then state\<lparr>isLastEnvelopeAt := Some ts\<rparr> else state);
          s2 = (case rmPV m of None \<Rightarrow> s1 | Some pv \<Rightarrow> s1\<lparr>isLastPVAt := Some ts, isPV := (if fless (Finite 0) pv then Some pv else None)\<rparr>)
      in s2\<lparr>isACIn := advancePowerState (isACIn s2) ts (rmACIn m),
            isACOutput := advancePowerState (isACOutput s2) ts (rmACOutput m),
            isDCOutput := advancePowerState (isDCOutput s2) ts (rmDC m),
            isLoad := advancePowerState (isLoad s2) ts (rmLoad m),
            isBatteryCharge := advancePowerState (isBatteryCharge s2) ts (positiveMetricValue (rmBattery m)),
            isBatteryDischarge := advancePowerState (isBatteryDischarge s2) ts (negativeMetricValue (rmBattery m))\<rparr>)"

definition lastPVAtOf :: "integrationState \<Rightarrow> int" where
  "lastPVAtOf state = (case isLastPVAt state of None \<Rightarrow> zeroTime | Some t \<Rightarrow> t)"

definition ApplySample :: "(real \<Rightarrow> float64) \<Rightarrow> RollupSample \<Rightarrow> Aggregator \<Rightarrow> Aggregator" where
  "ApplySample rnd sample agg =
     (let stateKey = stateKeyOf sample;
          state = (case gm_get (agStates agg) stateKey of None \<Rightarrow> zeroIntegration | Some ds \<Rightarrow> dsState ds);
          ts = rsEventTime sample;
          agg1 = (case (isLastEnvelopeAt state, isPV state) of
                    (Some prev, Some pv) \<Rightarrow> if prev < ts then integrateSolar rnd sample prev ts pv (lastPVAtOf state) agg else agg
                  | _ \<Rightarrow> agg);
          agg2 = (case isLastEnvelopeAt state of
                    Some prev \<Rightarrow> if prev < ts then integrateEnergy rnd sample state prev ts agg1 else agg1
                  | None \<Rightarrow> agg1);
          ds = \<lparr>dsProvider = rsProvider sample, dsProviderDeviceID = rsProviderDeviceID sample, dsDeviceID = rsDeviceID sample,
                dsState = advanceDeviceState state sample\<rparr>;
          agg3 = agg2\<lparr>agStates := gm_put stateKey ds (agStates agg2)\<rparr>
      in fold (addPVPortPoints sample) [ResolutionMinute, ResolutionHour, ResolutionDay]
           (fold (addPoint rnd sample) [ResolutionMinute, ResolutionHour, ResolutionDay] agg3))"

text \<open>The rows of a resolution in the order of their keys.\<close>

definition Rows :: "Aggregator \<Rightarrow> resolution \<Rightarrow> BucketRow list" where
  "Rows agg r = List.map_filter (gm_get (agRows agg r)) (sort_by (by_asc id) (map fst (agRows agg r)))"

definition PVPortRows :: "Aggregator \<Rightarrow> resolution \<Rightarrow> PVPortBucketRow list" where
  "PVPortRows agg r = List.map_filter (gm_get (agPorts agg r)) (sort_by (by_asc id) (map fst (agPorts agg r)))"

text \<open>The order in which a rebuild applies its samples (\<open>runner.go\<close>).\<close>

definition rebuildSampleLess :: "RollupSample \<Rightarrow> RollupSample \<Rightarrow> bool" where
  "rebuildSampleLess left right =
     (if rsIngestedUnixMs left \<noteq> rsIngestedUnixMs right then rsIngestedUnixMs left < rsIngestedUnixMs right
      else if rsEventUnixMs left \<noteq> rsEventUnixMs right then rsEventUnixMs left < rsEventUnixMs right
      else if rsProvider left \<noteq> rsProvider right then rsProvider left < rsProvider right
      else if rsProviderDeviceID left \<noteq> rsProviderDeviceID right then rsProviderDeviceID left < rsProviderDeviceID right
      else if rsDeviceID left \<noteq> rsDeviceID right then rsDeviceID left < rsDeviceID right
      else False)"

interpretation rebuild_order: comparator rebuildSampleLess
  by unfold_locales (auto simp: rebuildSampleLess_def split: if_splits)

definition rebuildSamples :: "(real \<Rightarrow> float64) \<Rightarrow> RollupSample list \<Rightarrow> Aggregator" where
  "rebuildSamples rnd samples = fold (ApplySample rnd) (sort_by rebuildSampleLess samples) NewAggregator"

definition Finalize :: "(real \<Rightarrow> float64) \<Rightarrow> int \<Rightarrow> Aggregator \<Rightarrow> Aggregator" where
  "Finalize rnd windowEnd agg0 =
     (if windowEnd = zeroTime then agg0
      else fold (\<lambda>(key, ds) agg.
             case (isLastEnvelopeAt (dsState ds), isPV (dsState ds)) of
               (Some prev, Some pv) \<Rightarrow>
                 if dsProvider ds = [] \<or> dsProviderDeviceID ds = [] \<or> dsDeviceID ds = [] then agg
                 else
                   (let state = dsState ds;
                        maxEnd = lastPVAtOf state + agMaxGap agg;
                        end = (if 0 < agMaxGap agg \<and> maxEnd < windowEnd then maxEnd else windowEnd)
                    in if \<not> prev < end then agg
                       else
                         (let sample = \<lparr>rsProvider = dsProvider ds, rsProviderDeviceID = dsProviderDeviceID ds, rsDeviceID = dsDeviceID ds,
                                rsEventTime = end, rsEventUnixMs = UnixMilli end, rsIngestedUnixMs = 0, rsMetrics = noMetrics, rsPVPorts = []\<rparr>;
                              agg1 = integrateEnergy rnd sample state prev end (integrateSolar rnd sample prev end pv (lastPVAtOf state) agg)
                          in agg1\<lparr>agStates := gm_put key (ds\<lparr>dsState := state\<lparr>isLastEnvelopeAt := Some end\<rparr>\<rparr>) (agStates agg1)\<rparr>))
             | _ \<Rightarrow> agg)
           (agStates agg0) agg0)"

end
