(* ===== verification/Rollup_Ledger.thy ===== *)
theory Rollup_Ledger
  imports Rollup_Runs Rollup_Rebuild
begin

text \<open>
  The contract that the live rollups and the rebuilt ones share: a ledger remembers the state of each
  device and charges every interval between two samples to the rows of its time. The live tables and
  the rebuilt ones are both ledgers, in exact arithmetic, so they give the same energies and numbers
  of samples.
\<close>

section \<open>The contract\<close>

definition advanceMemory :: "RollupSample \<Rightarrow> (string \<Rightarrow> integrationState) \<Rightarrow> string \<Rightarrow> integrationState" where
  "advanceMemory sample memory = memory(stateKeyOf sample := advanceIntegrationState (memory (stateKeyOf sample)) sample)"

text \<open>What a sample charges to a row, and what a sequence of samples charges.\<close>

definition charge :: "(string \<Rightarrow> integrationState) \<Rightarrow> RollupSample \<Rightarrow> resolution \<Rightarrow> bucket_key \<Rightarrow> channel \<Rightarrow> real" where
  "charge memory sample r key ch =
     forDevice sample key (energyFor (snd (snd key)) (segmentsOf Finite (memory (stateKeyOf sample)) (rsEventTime sample) ch r))"

definition entry :: "RollupSample \<Rightarrow> resolution \<Rightarrow> bucket_key \<Rightarrow> int" where
  "entry sample r key = (if key = rowKey sample (bucketStart r (rsEventTime sample)) then 1 else 0)"

primrec charges :: "(string \<Rightarrow> integrationState) \<Rightarrow> RollupSample list \<Rightarrow> resolution \<Rightarrow> bucket_key \<Rightarrow> channel \<Rightarrow> real" where
  "charges memory [] r key ch = 0"
| "charges memory (sample # samples) r key ch = charge memory sample r key ch + charges (advanceMemory sample memory) samples r key ch"

locale energy_ledger =
  fixes sampleOf :: "'x \<Rightarrow> RollupSample" and enter :: "'x \<Rightarrow> 's \<Rightarrow> 's" and memory :: "'s \<Rightarrow> string \<Rightarrow> integrationState"
    and energy :: "'s \<Rightarrow> resolution \<Rightarrow> bucket_key \<Rightarrow> channel \<Rightarrow> real" and entries :: "'s \<Rightarrow> resolution \<Rightarrow> bucket_key \<Rightarrow> int"
    and ready :: "'x list \<Rightarrow> 's \<Rightarrow> bool" and known :: "bucket_key \<Rightarrow> bool"
  assumes ready_enter: "ready (x # xs) s \<Longrightarrow> ready xs (enter x s)"
    and memory_enter: "ready (x # xs) s \<Longrightarrow> memory (enter x s) = advanceMemory (sampleOf x) (memory s)"
    and energy_enter: "ready (x # xs) s \<Longrightarrow> known key \<Longrightarrow> energy (enter x s) r key ch = energy s r key ch + charge (memory s) (sampleOf x) r key ch"
    and entries_enter: "ready (x # xs) s \<Longrightarrow> known key \<Longrightarrow> entries (enter x s) r key = entries s r key + entry (sampleOf x) r key"
begin

lemma energy_run:
  assumes "ready xs s" "known key"
  shows "energy (fold enter xs s) r key ch = energy s r key ch + charges (memory s) (map sampleOf xs) r key ch"
  using assms by (induction xs arbitrary: s) (simp_all add: ready_enter memory_enter energy_enter)

lemma entries_run:
  assumes "ready xs s" "known key"
  shows "entries (fold enter xs s) r key = entries s r key + sum_list (map (\<lambda>x. entry (sampleOf x) r key) xs)"
  using assms by (induction xs arbitrary: s) (simp_all add: ready_enter entries_enter)

end

section \<open>The live tables\<close>

text \<open>A database that answers every call.\<close>

definition answering :: tx_calls where
  "answering = \<lparr>txBegin = None, txExec = (\<lambda>_. None), txRowsAffected = None, txCommit = Done\<rparr>"

definition liveEnter :: "TelemetryEnvelope \<times> RollupSample \<Rightarrow> device_states \<times> rollup_db \<Rightarrow> device_states \<times> rollup_db" where
  "liveEnter x st = fst (applySample Finite answering (fst x) (snd x) st)"

definition liveMemory :: "device_states \<times> rollup_db \<Rightarrow> string \<Rightarrow> integrationState" where
  "liveMemory st key = (case gm_get (fst st) key of None \<Rightarrow> zeroIntegration | Some state \<Rightarrow> state)"

definition unclaimed :: "TelemetryEnvelope list \<Rightarrow> rollup_db \<Rightarrow> bool" where
  "unclaimed envs db \<longleftrightarrow> (let keys = filter (\<lambda>key. key \<noteq> []) (map rollupDedupKey envs) in distinct keys \<and> set keys \<inter> set (rdApplied db) = {})"

definition liveReady :: "(TelemetryEnvelope \<times> RollupSample) list \<Rightarrow> device_states \<times> rollup_db \<Rightarrow> bool" where
  "liveReady xs st \<longleftrightarrow>
     finite_states (fst st) \<and> rows_finite (snd st) \<and> unclaimed (map fst xs) (snd st) \<and> (\<forall>x \<in> set xs. finite_metrics (rsMetrics (snd x)))"

lemma answering_simps [simp]:
  "txBegin answering = None" "txExec answering n = None" "txRowsAffected answering = None" "txCommit answering = Done"
  by (simp_all add: answering_def)

lemma execStatements_answering: "execStatements answering n sts db = Inr (runStatements sts db)"
  by (induction sts arbitrary: n db) (auto simp: runStatements_def)

lemma map_filter_cases: "y \<in> set (List.map_filter f xs) \<Longrightarrow> \<exists>x \<in> set xs. f x = Some y"
  by (induction xs) (auto simp: map_filter_simps split: option.splits)

lemma runStatements_applied: "rdApplied (runStatements (envelopeStatements rnd sample state) db) = rdApplied db"
proof -
  have keep: "rdApplied (runStatements sts db) = rdApplied db" if "\<forall>(what, effect) \<in> set sts. \<forall>db. rdApplied (effect db) = rdApplied db" for sts db
    using that unfolding runStatements_def by (induction sts arbitrary: db) auto
  have energy: "\<forall>(what, effect) \<in> set (execEnergyUpsert rnd sample state start r). \<forall>db. rdApplied (effect db) = rdApplied db" for start r
    unfolding execEnergyUpsert_def Let_def by (auto dest!: map_filter_cases simp: putRow_def split: option.splits)
  show ?thesis
    using energy by (intro keep) (fastforce simp: envelopeStatements_def Let_def execUpsert_def execSolarUpserts_def execSolarUpsert_def
        execEnergyUpserts_def execPVPortUpserts_def putRow_def putPort_def split: option.splits if_splits)
qed

lemma liveEnter_step:
  assumes "liveReady (x # xs) (states, db)"
  defines "state \<equiv> stateOf states (snd x)"
  shows "\<exists>db1. rdRows db1 = rdRows db \<and> unclaimed (map fst xs) db1 \<and>
    liveEnter x (states, db) = (gm_put (stateKeyOf (snd x)) (advanceIntegrationState state (snd x)) states,
       runStatements (envelopeStatements Finite (snd x) state) db1)"
proof -
  let ?key = "rollupDedupKey (fst x)"
  define db1 where "db1 = (if ?key = [] then db else db\<lparr>rdApplied := ?key # rdApplied db\<rparr>)"
  have "?key \<noteq> [] \<Longrightarrow> ?key \<notin> set (rdApplied db)" using assms(1) by (auto simp: liveReady_def unclaimed_def)
  then have "claimEnvelopeDedup answering (fst x) db = Inr (True, db1)"
    by (simp add: claimEnvelopeDedup_def Let_def db1_def)
  then have "liveEnter x (states, db) = (gm_put (stateKeyOf (snd x)) (advanceIntegrationState state (snd x)) states,
       runStatements (envelopeStatements Finite (snd x) state) db1)"
    by (simp add: liveEnter_def applySample_def Let_def execStatements_answering state_def)
  moreover have "unclaimed (map fst xs) db1"
    using assms(1) by (auto simp: liveReady_def unclaimed_def db1_def Let_def split: if_splits)
  ultimately show ?thesis by (intro exI [of _ db1]) (simp add: db1_def)
qed

lemma rows_finite_same: "rdRows db = rdRows db' \<Longrightarrow> rows_finite db = rows_finite db'"
  by (simp add: rows_finite_def)

interpretation live: energy_ledger snd liveEnter liveMemory "\<lambda>st. energyAt (snd st)" "\<lambda>st. countAt (snd st)" liveReady "\<lambda>_. True"
proof
  fix x :: "TelemetryEnvelope \<times> RollupSample" and xs st
  assume ready: "liveReady (x # xs) st"
  obtain states db where st: "st = (states, db)" by (cases st)
  let ?state = "stateOf states (snd x)"
  have fin: "finite_state ?state" "finite_metrics (rsMetrics (snd x))" "rows_finite db"
    using ready stateOf_finite by (auto simp: liveReady_def st)
  obtain db1 where db1: "rdRows db1 = rdRows db" "unclaimed (map fst xs) db1"
      "liveEnter x st = (gm_put (stateKeyOf (snd x)) (advanceIntegrationState ?state (snd x)) states, runStatements (envelopeStatements Finite (snd x) ?state) db1)"
    using liveEnter_step ready unfolding st by blast
  note adds = adds_envelope [OF fin(1), of "snd x", unfolded adds_def, rule_format, of db1]
  have db1_fin: "rows_finite db1" using fin(3) db1(1) rows_finite_same by blast
  have same: "energyAt db1 = energyAt db" "countAt db1 = countAt db" using db1(1) by (simp_all add: energyAt_def [abs_def] countAt_def [abs_def])
  have mem: "liveMemory st (stateKeyOf (snd x)) = ?state" by (simp add: liveMemory_def st stateOf_def)
  show "liveReady xs (liveEnter x st)"
    using ready db1 adds [OF db1_fin] advance_finite(1) [OF fin(1,2)]
    by (auto simp: liveReady_def st finite_states_def unclaimed_def runStatements_applied)
  show "liveMemory (liveEnter x st) = advanceMemory (snd x) (liveMemory st)"
    unfolding advanceMemory_def mem using db1(3) by (auto simp: liveMemory_def st)
  show "energyAt (snd (liveEnter x st)) r key ch = energyAt (snd st) r key ch + charge (liveMemory st) (snd x) r key ch" for r key ch
    using adds [OF db1_fin] db1(3) same(1) by (cases key, simp add: charge_def mem, simp add: st)
  show "countAt (snd (liveEnter x st)) r key = countAt (snd st) r key + entry (snd x) r key" for r key
    using adds [OF db1_fin] db1(3) same(2) by (cases key) (simp add: entry_def st)
qed

section \<open>The rebuilt tables\<close>

text \<open>Rows are found by a text; it names one row as long as the provider has no bar and the bucket begins at a second.\<close>

definition plainKey :: "bucket_key \<Rightarrow> bool" where
  "plainKey key \<longleftrightarrow> (case key of (p, d, b) \<Rightarrow> CHR ''|'' \<notin> set p \<and> b mod second = 0)"

definition textKey :: "bucket_key \<Rightarrow> string" where
  "textKey key = (case key of (p, d, b) \<Rightarrow> bucketMapKey p d b)"

lemma Itoa_signed: "Itoa n = dec_signed 0 n"
  by (simp add: Itoa_def dec_signed_def dec_padded_def)

lemma Itoa_no_bar: "CHR ''|'' \<notin> set (Itoa n)"
  using dec_signed_chars [of "CHR ''|''" 0 n] by (auto simp: Itoa_signed is_digit_def less_eq_char_def)

lemma textKey_inj:
  assumes "textKey k = textKey k'" "plainKey k" "plainKey k'"
  shows "k = k'"
proof -
  obtain p d b p' d' b' where k: "k = (p, d, b)" "k' = (p', d', b')" by (cases k; cases k')
  have "p @ CHR ''|'' # (d @ CHR ''|'' # Itoa (b div second)) = p' @ CHR ''|'' # (d' @ CHR ''|'' # Itoa (b' div second))"
    using assms(1) by (simp add: k textKey_def bucketMapKey_def)
  then have p: "p = p'" and rest: "d @ CHR ''|'' # Itoa (b div second) = d' @ CHR ''|'' # Itoa (b' div second)"
    using delimited [of p "CHR ''|''" _ p'] assms(2,3) by (auto simp: k plainKey_def)
  have "rev (Itoa (b div second)) @ CHR ''|'' # rev d = rev (Itoa (b' div second)) @ CHR ''|'' # rev d'"
    using arg_cong [OF rest, of rev] by simp
  then have "rev (Itoa (b div second)) = rev (Itoa (b' div second))" "rev d = rev d'"
    using delimited Itoa_no_bar by (metis set_rev)+
  then have "b div second = b' div second" "d = d'" by (simp_all add: Itoa_signed dec_signed_inj)
  moreover have "b = second * (b div second)" "b' = second * (b' div second)" using assms(2,3) by (auto simp: k plainKey_def mod_0_imp_dvd)
  ultimately show ?thesis using p by (simp add: k)
qed

definition rebuiltEnergy :: "Aggregator \<Rightarrow> resolution \<Rightarrow> bucket_key \<Rightarrow> channel \<Rightarrow> real" where
  "rebuiltEnergy agg r key ch =
     (case gm_get (agRows agg r) (textKey key) of None \<Rightarrow> 0 | Some row \<Rightarrow> (case brEnergy row ch of None \<Rightarrow> 0 | Some v \<Rightarrow> finiteValue v))"

definition rebuiltCount :: "Aggregator \<Rightarrow> resolution \<Rightarrow> bucket_key \<Rightarrow> int" where
  "rebuiltCount agg r key = (case gm_get (agRows agg r) (textKey key) of None \<Rightarrow> 0 | Some row \<Rightarrow> brSampleCount row)"

definition rebuilt_finite :: "Aggregator \<Rightarrow> bool" where
  "rebuilt_finite agg \<longleftrightarrow> (\<forall>r key row. gm_get (agRows agg r) key = Some row \<longrightarrow> finite_energies (brEnergy row))"

text \<open>A change of the rows that adds given energies and numbers of samples, and leaves the rest of the aggregator alone.\<close>

definition rebuilds :: "(Aggregator \<Rightarrow> Aggregator) \<Rightarrow> (resolution \<Rightarrow> bucket_key \<Rightarrow> channel \<Rightarrow> real) \<Rightarrow> (resolution \<Rightarrow> bucket_key \<Rightarrow> int) \<Rightarrow> bool" where
  "rebuilds f energy samples \<longleftrightarrow>
     (\<forall>agg. rebuilt_finite agg \<longrightarrow> agMaxGap agg = DefaultSolarCarryForwardMaxGap \<longrightarrow>
        rebuilt_finite (f agg) \<and> agMaxGap (f agg) = agMaxGap agg \<and> agStates (f agg) = agStates agg \<and>
        (\<forall>r key ch. plainKey key \<longrightarrow> rebuiltEnergy (f agg) r key ch = rebuiltEnergy agg r key ch + energy r key ch) \<and>
        (\<forall>r key. plainKey key \<longrightarrow> rebuiltCount (f agg) r key = rebuiltCount agg r key + samples r key))"

lemma rebuilds_id: "rebuilds (\<lambda>agg. agg) (\<lambda>_ _ _. 0) (\<lambda>_ _. 0)"
  by (simp add: rebuilds_def)

lemma rebuilds_comp:
  assumes "rebuilds f e1 n1" "rebuilds g e2 n2"
  shows "rebuilds (\<lambda>agg. g (f agg)) (\<lambda>r k ch. e1 r k ch + e2 r k ch) (\<lambda>r k. n1 r k + n2 r k)"
  using assms by (simp add: rebuilds_def)

lemma rebuilds_cong:
  assumes "rebuilds f e n" "\<And>r k ch. plainKey k \<Longrightarrow> e r k ch = e' r k ch" "\<And>r k. plainKey k \<Longrightarrow> n r k = n' r k"
    "\<And>agg. agMaxGap agg = DefaultSolarCarryForwardMaxGap \<Longrightarrow> f agg = f' agg"
  shows "rebuilds f' e' n'"
  using assms by (simp add: rebuilds_def)

lemma rebuilds_fold:
  assumes "\<And>x. x \<in> set xs \<Longrightarrow> rebuilds (f x) (e x) (n x)"
  shows "rebuilds (fold f xs) (\<lambda>r k ch. sum_list (map (\<lambda>x. e x r k ch) xs)) (\<lambda>r k. sum_list (map (\<lambda>x. n x r k) xs))"
  using assms
proof (induction xs)
  case (Cons x xs)
  then have "rebuilds (\<lambda>agg. fold f xs (f x agg)) (\<lambda>r k ch. e x r k ch + sum_list (map (\<lambda>x. e x r k ch) xs))
      (\<lambda>r k. n x r k + sum_list (map (\<lambda>x. n x r k) xs))"
    by (intro rebuilds_comp) simp_all
  then show ?case by (simp add: comp_def)
qed (simp add: rebuilds_id id_def)

lemma rebuilds_changeRow:
  assumes "plainKey (rowKey sample b)"
    and "\<And>row. finite_energies (brEnergy row) \<Longrightarrow> finite_energies (brEnergy (f row))"
    and "\<And>row ch. finite_energies (brEnergy row) \<Longrightarrow>
      (case brEnergy (f row) ch of None \<Rightarrow> 0 | Some v \<Rightarrow> finiteValue v) = (case brEnergy row ch of None \<Rightarrow> 0 | Some v \<Rightarrow> finiteValue v) + en ch"
    and "\<And>row. brSampleCount (f row) = brSampleCount row + c"
  shows "rebuilds (changeRow r sample b f) (\<lambda>r' k ch. if r' = r \<and> k = rowKey sample b then en ch else 0)
    (\<lambda>r' k. if r' = r \<and> k = rowKey sample b then c else 0)"
  unfolding rebuilds_def
proof (intro allI impI)
  fix agg :: Aggregator assume fin: "rebuilt_finite agg"
  let ?key = "textKey (rowKey sample b)"
  let ?row = "ensureBucketRow (agRows agg r) sample b"
  have key: "bucketMapKey (rsProvider sample) (rsProviderDeviceID sample) b = ?key" by (simp add: textKey_def rowKey_def)
  have row: "finite_energies (brEnergy ?row)" using fin by (auto simp: ensureBucketRow_def rebuilt_finite_def finite_energies_def split: option.splits)
  have old: "rebuiltEnergy agg r (rowKey sample b) ch = (case brEnergy ?row ch of None \<Rightarrow> 0 | Some v \<Rightarrow> finiteValue v)"
      "rebuiltCount agg r (rowKey sample b) = brSampleCount ?row" for ch
    by (auto simp: rebuiltEnergy_def rebuiltCount_def ensureBucketRow_def key split: option.splits)
  have new: "agRows (changeRow r sample b f agg) = (agRows agg)(r := gm_put ?key (f ?row) (agRows agg r))" by (simp add: changeRow_def key)
  have same: "plainKey k \<Longrightarrow> textKey k = ?key \<longleftrightarrow> k = rowKey sample b" for k using textKey_inj [OF _ _ assms(1)] by blast
  have "rebuilt_finite (changeRow r sample b f agg)" using fin assms(2) [OF row] by (auto simp: rebuilt_finite_def new)
  moreover have "rebuiltEnergy (changeRow r sample b f agg) r' k ch = rebuiltEnergy agg r' k ch + (if r' = r \<and> k = rowKey sample b then en ch else 0)"
    if "plainKey k" for r' k ch
  proof (cases "r' = r \<and> k = rowKey sample b")
    case True
    then show ?thesis using old(1) [of ch] assms(3) [OF row, of ch] by (simp add: rebuiltEnergy_def [of "changeRow _ _ _ _ _"] new)
  qed (use same [OF that] in \<open>auto simp: rebuiltEnergy_def new\<close>)
  moreover have "rebuiltCount (changeRow r sample b f agg) r' k = rebuiltCount agg r' k + (if r' = r \<and> k = rowKey sample b then c else 0)"
    if "plainKey k" for r' k
  proof (cases "r' = r \<and> k = rowKey sample b")
    case True
    then show ?thesis using old(2) assms(4) by (simp add: rebuiltCount_def [of "changeRow _ _ _ _ _"] new)
  qed (use same [OF that] in \<open>auto simp: rebuiltCount_def new\<close>)
  moreover have "agMaxGap (changeRow r sample b f agg) = agMaxGap agg" "agStates (changeRow r sample b f agg) = agStates agg"
    by (simp_all add: changeRow_def)
  ultimately show "rebuilt_finite (changeRow r sample b f agg) \<and> agMaxGap (changeRow r sample b f agg) = agMaxGap agg \<and>
      agStates (changeRow r sample b f agg) = agStates agg \<and>
      (\<forall>r' k ch. plainKey k \<longrightarrow> rebuiltEnergy (changeRow r sample b f agg) r' k ch = rebuiltEnergy agg r' k ch + (if r' = r \<and> k = rowKey sample b then en ch else 0)) \<and>
      (\<forall>r' k. plainKey k \<longrightarrow> rebuiltCount (changeRow r sample b f agg) r' k = rebuiltCount agg r' k + (if r' = r \<and> k = rowKey sample b then c else 0))"
    by blast
qed

lemma bucketStart_whole: "bucketStart r t mod second = 0"
  by (cases r) (simp_all add: bucketStart_def hour_def minute_def second_def)

lemma integrateLoop_buckets: "(bu, s, e', wh) \<in> set (integrateLoop rnd r w e c) \<Longrightarrow> bu mod second = 0"
  by (induction rnd r w e c rule: integrateLoop.induct) (subst (asm) integrateLoop.simps, auto simp: Let_def bucketStart_whole split: if_splits)

lemma window_buckets: "(bu, s, e, wh) \<in> set (IntegratePowerWindow rnd r start end0 lastAt w gap) \<Longrightarrow> bu mod second = 0"
  by (auto simp: IntegratePowerWindow_def Let_def integrateLoop_buckets split: if_splits)

lemma segments_buckets:
  "(bu, s, e, wh) \<in> set (channelSegments rnd start end st r) \<Longrightarrow> bu mod second = 0"
  "(bu, s, e, wh) \<in> set (solarSegments rnd start end state r) \<Longrightarrow> bu mod second = 0"
proof -
  show "(bu, s, e, wh) \<in> set (channelSegments rnd start end st r) \<Longrightarrow> bu mod second = 0"
    by (cases "pcWatts st"; cases "pcLastAt st") (simp_all add: channelSegments_def window_buckets)
  show "(bu, s, e, wh) \<in> set (solarSegments rnd start end state r) \<Longrightarrow> bu mod second = 0"
    by (cases "isPV state") (simp_all add: solarSegments_def window_buckets)
qed

lemma addEnergy_value:
  assumes "finite_energies (brEnergy row)"
  shows "finite_energies (brEnergy (addEnergy Finite ch (Finite x) row))"
    "(case brEnergy (addEnergy Finite ch (Finite x) row) ch' of None \<Rightarrow> 0 | Some v \<Rightarrow> finiteValue v) =
       (case brEnergy row ch' of None \<Rightarrow> 0 | Some v \<Rightarrow> finiteValue v) + (if ch' = ch then x else 0)"
proof -
  obtain y where y: "valueOr0 (brEnergy row ch) = Finite y" "(case brEnergy row ch of None \<Rightarrow> 0 | Some v \<Rightarrow> finiteValue v) = y"
    using assms by (cases "brEnergy row ch") (auto simp: finite_energies_def isFinite_iff valueOr0_def finiteValue_def)
  show "finite_energies (brEnergy (addEnergy Finite ch (Finite x) row))"
    using assms y(1) by (simp add: addEnergy_def finite_energies_def isFinite_def)
  show "(case brEnergy (addEnergy Finite ch (Finite x) row) ch' of None \<Rightarrow> 0 | Some v \<Rightarrow> finiteValue v) =
       (case brEnergy row ch' of None \<Rightarrow> 0 | Some v \<Rightarrow> finiteValue v) + (if ch' = ch then x else 0)"
    using y by (simp add: addEnergy_def finiteValue_def)
qed

lemma rebuilds_addSegments:
  assumes "CHR ''|'' \<notin> set (rsProvider sample)" "\<And>bu s e wh. (bu, s, e, wh) \<in> set segs \<Longrightarrow> bu mod second = 0 \<and> (\<exists>x>0. wh = Finite x)"
  shows "rebuilds (addSegments Finite sample ch r segs)
    (\<lambda>r' k ch'. if r' = r \<and> ch' = ch then forDevice sample k (energyFor (snd (snd k)) segs) else 0) (\<lambda>_ _. 0)"
proof -
  let ?e = "\<lambda>seg r' k ch'. if r' = r \<and> k = rowKey sample (fst seg) then (if ch' = ch then finiteValue (snd (snd (snd seg))) else 0) else 0"
  have "rebuilds (\<lambda>agg. (case seg of (bu, _, _, wh) \<Rightarrow> changeRow r sample bu (addEnergy Finite ch wh)) agg) (?e seg) (\<lambda>_ _. 0)" if seg: "seg \<in> set segs" for seg
  proof -
    obtain bu s e x where x: "seg = (bu, s, e, Finite x)" "bu mod second = 0" using assms(2) seg by (cases seg) blast
    have plain: "plainKey (rowKey sample bu)" using assms(1) x(2) by (simp add: plainKey_def rowKey_def)
    have "rebuilds (changeRow r sample bu (addEnergy Finite ch (Finite x)))
        (\<lambda>r' k ch'. if r' = r \<and> k = rowKey sample bu then (if ch' = ch then x else 0) else 0) (\<lambda>r' k. if r' = r \<and> k = rowKey sample bu then 0 else 0)"
      by (rule rebuilds_changeRow [OF plain]) (simp_all add: addEnergy_value, simp add: addEnergy_def)
    then show ?thesis by (simp add: x(1) finiteValue_def cong: if_cong)
  qed
  then have "rebuilds (fold (\<lambda>seg agg. (case seg of (bu, _, _, wh) \<Rightarrow> changeRow r sample bu (addEnergy Finite ch wh)) agg) segs)
      (\<lambda>r' k ch'. sum_list (map (\<lambda>seg. ?e seg r' k ch') segs)) (\<lambda>_ _. sum_list (map (\<lambda>_. 0) segs))"
    by (rule rebuilds_fold)
  moreover have "sum_list (map (\<lambda>seg. ?e seg r' k ch') segs) = (if r' = r \<and> ch' = ch then forDevice sample k (energyFor (snd (snd k)) segs) else 0)" for r' k ch'
    using row_sum [of r' r k sample segs] by (cases "ch' = ch") (simp_all add: case_prod_unfold cong: if_cong)
  ultimately show ?thesis by (simp add: addSegments_def [abs_def])
qed

lemma rebuilds_energies:
  assumes "CHR ''|'' \<notin> set (rsProvider sample)" "finite_state state" "start < rsEventTime sample"
  shows "rebuilds (integrateEnergy Finite sample state start (rsEventTime sample))
    (\<lambda>r k ch. if ch = Solar then 0
       else forDevice sample k (energyFor (snd (snd k)) (channelSegments Finite start (rsEventTime sample) (channelStateOf state ch) r))) (\<lambda>_ _. 0)"
proof -
  let ?segs = "\<lambda>st. channelSegments Finite start (rsEventTime sample) st"
  have one: "rebuilds (integrateEnergyAcrossBuckets Finite sample start (rsEventTime sample) (ch, st) r)
      (\<lambda>r' k ch'. if r' = r \<and> ch' = ch then forDevice sample k (energyFor (snd (snd k)) (?segs st r)) else 0) (\<lambda>_ _. 0)"
    if "finite_channel st" for ch st r
  proof (rule rebuilds_cong)
    show "rebuilds (addSegments Finite sample ch r (?segs st r))
        (\<lambda>r' k ch'. if r' = r \<and> ch' = ch then forDevice sample k (energyFor (snd (snd k)) (?segs st r)) else 0) (\<lambda>_ _. 0)"
      using segments_buckets(1) segments_positive(1) [OF that] by (intro rebuilds_addSegments [OF assms(1)]) blast
    show "addSegments Finite sample ch r (?segs st r) agg = integrateEnergyAcrossBuckets Finite sample start (rsEventTime sample) (ch, st) r agg"
      if "agMaxGap agg = DefaultSolarCarryForwardMaxGap" for agg :: Aggregator
      using that by (simp add: integrateEnergyAcrossBuckets_def channelSegments_def addSegments_def split: option.splits)
  qed simp_all
  have chan: "rebuilds (fold (integrateEnergyAcrossBuckets Finite sample start (rsEventTime sample) chs) [ResolutionMinute, ResolutionHour, ResolutionDay])
      (\<lambda>r k ch. if ch = fst chs then forDevice sample k (energyFor (snd (snd k)) (?segs (snd chs) r)) else 0) (\<lambda>_ _. 0)"
    if "finite_channel (snd chs)" for chs
  proof (rule rebuilds_cong [OF rebuilds_fold [OF one [OF that, of "fst chs", unfolded prod.collapse]]])
    show "(\<Sum>x\<leftarrow>[ResolutionMinute, ResolutionHour, ResolutionDay]. if r = x \<and> ch = fst chs then forDevice sample k (energyFor (snd (snd k)) (?segs (snd chs) x)) else 0) =
        (if ch = fst chs then forDevice sample k (energyFor (snd (snd k)) (?segs (snd chs) r)) else 0)" for r k ch
      by (cases r) simp_all
  qed simp_all
  have "rebuilds (fold (\<lambda>chs. fold (integrateEnergyAcrossBuckets Finite sample start (rsEventTime sample) chs) [ResolutionMinute, ResolutionHour, ResolutionDay]) (energyChannels state))
    (\<lambda>r k ch. if ch = Solar then 0
       else forDevice sample k (energyFor (snd (snd k)) (?segs (channelStateOf state ch) r))) (\<lambda>_ _. 0)"
  proof (rule rebuilds_cong [OF rebuilds_fold [OF chan]])
    show "x \<in> set (energyChannels state) \<Longrightarrow> finite_channel (snd x)" for x
      using assms(2) by (auto simp: energyChannels_def finite_state_iff)
    show "(\<Sum>x\<leftarrow>energyChannels state. if ch = fst x then forDevice sample k (energyFor (snd (snd k)) (?segs (snd x) r)) else 0) =
        (if ch = Solar then 0 else forDevice sample k (energyFor (snd (snd k)) (?segs (channelStateOf state ch) r)))" for r k ch
      by (cases ch) (simp_all add: energyChannels_def)
  qed simp_all
  then show ?thesis using assms(3) by (simp add: integrateEnergy_def [abs_def])
qed

lemma rebuilds_solar:
  assumes "CHR ''|'' \<notin> set (rsProvider sample)" "finite_state state" "isPV state = Some pv" "start < rsEventTime sample"
  shows "rebuilds (integrateSolar Finite sample start (rsEventTime sample) pv (lastPVAtOf state))
    (\<lambda>r k ch. if ch = Solar then forDevice sample k (energyFor (snd (snd k)) (solarSegments Finite start (rsEventTime sample) state r)) else 0) (\<lambda>_ _. 0)"
proof -
  let ?segs = "solarSegments Finite start (rsEventTime sample) state"
  have segs: "?segs r = IntegratePowerWindow Finite r start (rsEventTime sample) (lastPVAtOf state) pv DefaultSolarCarryForwardMaxGap" for r
    using assms(3) by (simp add: solarSegments_def lastPVAtOf_def)
  have one: "rebuilds (addSegments Finite sample Solar r (?segs r))
      (\<lambda>r' k ch. if r' = r \<and> ch = Solar then forDevice sample k (energyFor (snd (snd k)) (?segs r)) else 0) (\<lambda>_ _. 0)" for r
    using segments_buckets(2) segments_positive(2) [OF assms(2)] by (intro rebuilds_addSegments [OF assms(1)]) blast
  have "rebuilds (\<lambda>agg. addSegments Finite sample Solar r (IntegratePowerWindow Finite r start (rsEventTime sample) (lastPVAtOf state) pv (agMaxGap agg)) agg)
      (\<lambda>r' k ch. if r' = r \<and> ch = Solar then forDevice sample k (energyFor (snd (snd k)) (?segs r)) else 0) (\<lambda>_ _. 0)" for r
    by (rule rebuilds_cong [OF one]) (simp_all add: segs)
  then have folded: "rebuilds (fold (\<lambda>r agg. addSegments Finite sample Solar r (IntegratePowerWindow Finite r start (rsEventTime sample) (lastPVAtOf state) pv (agMaxGap agg)) agg)
        [ResolutionMinute, ResolutionHour, ResolutionDay])
      (\<lambda>r k ch. sum_list (map (\<lambda>x. if r = x \<and> ch = Solar then forDevice sample k (energyFor (snd (snd k)) (?segs x)) else 0) [ResolutionMinute, ResolutionHour, ResolutionDay]))
      (\<lambda>r k. sum_list (map (\<lambda>x. 0) [ResolutionMinute, ResolutionHour, ResolutionDay]))"
    by (rule rebuilds_fold)
  show ?thesis
  proof (cases "fle pv (Finite 0)")
    case True
    then have "?segs r = []" for r by (simp add: segs IntegratePowerWindow_def)
    then show ?thesis using True rebuilds_id by (simp add: integrateSolar_def [abs_def] cong: if_cong)
  next
    case False
    show ?thesis
    proof (rule rebuilds_cong [OF folded])
      show "(\<Sum>x\<leftarrow>[ResolutionMinute, ResolutionHour, ResolutionDay]. if r = x \<and> ch = Solar then forDevice sample k (energyFor (snd (snd k)) (?segs x)) else 0) =
          (if ch = Solar then forDevice sample k (energyFor (snd (snd k)) (?segs r)) else 0)" for r k ch
        by (cases r) simp_all
    qed (use False assms(4) in \<open>simp_all add: integrateSolar_def\<close>)
  qed
qed

lemma rebuilds_addPoint:
  assumes "CHR ''|'' \<notin> set (rsProvider sample)"
  shows "rebuilds (fold (addPoint Finite sample) [ResolutionMinute, ResolutionHour, ResolutionDay]) (\<lambda>_ _ _. 0) (entry sample)"
proof -
  have one: "rebuilds (addPoint Finite sample r) (\<lambda>_ _ _. 0)
      (\<lambda>r' k. if r' = r \<and> k = rowKey sample (bucketStart r (rsEventTime sample)) then 1 else 0)" for r
  proof -
    have "plainKey (rowKey sample (bucketStart r (rsEventTime sample)))" using assms by (simp add: plainKey_def rowKey_def bucketStart_whole)
    from rebuilds_changeRow [OF this, where en = "\<lambda>_. 0" and c = 1 and r = r] show ?thesis by (simp add: addPoint_def cong: if_cong)
  qed
  show ?thesis
  proof (rule rebuilds_cong [OF rebuilds_fold [OF one]])
    show "(\<Sum>x\<leftarrow>[ResolutionMinute, ResolutionHour, ResolutionDay]. if r = x \<and> k = rowKey sample (bucketStart x (rsEventTime sample)) then 1 else 0) = entry sample r k" for r k
      by (cases r) (simp_all add: entry_def)
  qed simp_all
qed

lemma rebuilds_ports: "rebuilds (fold (addPVPortPoints sample) rs) (\<lambda>_ _ _. 0) (\<lambda>_ _. 0)"
proof -
  have "rebuilds (addPVPortPoints sample r) (\<lambda>_ _ _. 0) (\<lambda>_ _. 0)" for r
    by (simp add: rebuilds_def addPVPortPoints_def rebuilt_finite_def rebuiltEnergy_def rebuiltCount_def)
  from rebuilds_fold [where f = "addPVPortPoints sample" and xs = rs, OF this] show ?thesis by simp
qed

definition rebuiltMemory :: "Aggregator \<Rightarrow> string \<Rightarrow> integrationState" where
  "rebuiltMemory agg key = (case gm_get (agStates agg) key of None \<Rightarrow> zeroIntegration | Some ds \<Rightarrow> dsState ds)"

text \<open>The part of a sample's application that charges the interval before it.\<close>

definition chargeInterval :: "RollupSample \<Rightarrow> integrationState \<Rightarrow> Aggregator \<Rightarrow> Aggregator" where
  "chargeInterval sample state agg =
     (let ts = rsEventTime sample;
          agg1 = (case (isLastEnvelopeAt state, isPV state) of
                    (Some prev, Some pv) \<Rightarrow> if prev < ts then integrateSolar Finite sample prev ts pv (lastPVAtOf state) agg else agg
                  | _ \<Rightarrow> agg)
      in case isLastEnvelopeAt state of
           Some prev \<Rightarrow> if prev < ts then integrateEnergy Finite sample state prev ts agg1 else agg1
         | None \<Rightarrow> agg1)"

lemma rebuilds_chargeInterval:
  assumes "CHR ''|'' \<notin> set (rsProvider sample)" "finite_state state"
  shows "rebuilds (chargeInterval sample state)
    (\<lambda>r k ch. forDevice sample k (energyFor (snd (snd k)) (segmentsOf Finite state (rsEventTime sample) ch r))) (\<lambda>_ _. 0)"
proof (cases "\<exists>prev. isLastEnvelopeAt state = Some prev \<and> prev < rsEventTime sample")
  case False
  then have "chargeInterval sample state = (\<lambda>agg. agg)" "segmentsOf Finite state (rsEventTime sample) ch r = []" for ch r
    by (auto simp: chargeInterval_def Let_def segmentsOf_def fun_eq_iff split: option.splits)
  then show ?thesis using rebuilds_id by simp
next
  case True
  then obtain prev where prev: "isLastEnvelopeAt state = Some prev" "prev < rsEventTime sample" by blast
  note energies = rebuilds_energies [OF assms prev(2)]
  show ?thesis
  proof (cases "isPV state")
    case None
    then have "chargeInterval sample state = integrateEnergy Finite sample state prev (rsEventTime sample)" using prev by (simp add: chargeInterval_def fun_eq_iff)
    then show ?thesis using None prev by (simp add: rebuilds_cong [OF energies] segmentsOf_def solarSegments_def)
  next
    case (Some pv)
    note both = rebuilds_comp [OF rebuilds_solar [OF assms Some prev(2)] energies]
    show ?thesis by (rule rebuilds_cong [OF both]) (use Some prev in \<open>simp_all add: chargeInterval_def Let_def segmentsOf_def\<close>)
  qed
qed

lemma ApplySample_split:
  "ApplySample Finite sample agg =
     fold (addPVPortPoints sample) [ResolutionMinute, ResolutionHour, ResolutionDay]
       (fold (addPoint Finite sample) [ResolutionMinute, ResolutionHour, ResolutionDay]
         (chargeInterval sample (rebuiltMemory agg (stateKeyOf sample)) agg
            \<lparr>agStates := gm_put (stateKeyOf sample)
               \<lparr>dsProvider = rsProvider sample, dsProviderDeviceID = rsProviderDeviceID sample, dsDeviceID = rsDeviceID sample,
                dsState = advanceDeviceState (rebuiltMemory agg (stateKeyOf sample)) sample\<rparr>
               (agStates (chargeInterval sample (rebuiltMemory agg (stateKeyOf sample)) agg))\<rparr>))"
  by (simp add: ApplySample_def chargeInterval_def rebuiltMemory_def Let_def)

lemma ApplySample_rebuilds:
  assumes "CHR ''|'' \<notin> set (rsProvider sample)" "finite_state (rebuiltMemory agg (stateKeyOf sample))" "rebuilt_finite agg"
    "agMaxGap agg = DefaultSolarCarryForwardMaxGap"
  shows "rebuilt_finite (ApplySample Finite sample agg)" "agMaxGap (ApplySample Finite sample agg) = DefaultSolarCarryForwardMaxGap"
    "rebuiltMemory (ApplySample Finite sample agg) =
       (rebuiltMemory agg)(stateKeyOf sample := advanceDeviceState (rebuiltMemory agg (stateKeyOf sample)) sample)"
    "plainKey key \<Longrightarrow> rebuiltEnergy (ApplySample Finite sample agg) r key ch = rebuiltEnergy agg r key ch + charge (rebuiltMemory agg) sample r key ch"
    "plainKey key \<Longrightarrow> rebuiltCount (ApplySample Finite sample agg) r key = rebuiltCount agg r key + entry sample r key"
proof -
  let ?state = "rebuiltMemory agg (stateKeyOf sample)"
  let ?agg1 = "chargeInterval sample ?state agg"
  let ?agg2 = "?agg1\<lparr>agStates := gm_put (stateKeyOf sample) \<lparr>dsProvider = rsProvider sample, dsProviderDeviceID = rsProviderDeviceID sample,
      dsDeviceID = rsDeviceID sample, dsState = advanceDeviceState ?state sample\<rparr> (agStates ?agg1)\<rparr>"
  note 1 = rebuilds_chargeInterval [OF assms(1,2), unfolded rebuilds_def, rule_format, OF assms(3,4)]
  have same: "rebuilt_finite ?agg2 = rebuilt_finite ?agg1" "rebuiltEnergy ?agg2 = rebuiltEnergy ?agg1" "rebuiltCount ?agg2 = rebuiltCount ?agg1"
    by (simp_all add: rebuilt_finite_def rebuiltEnergy_def [abs_def] rebuiltCount_def [abs_def])
  have "rebuilt_finite ?agg2" "agMaxGap ?agg2 = DefaultSolarCarryForwardMaxGap" using 1 assms(4) same(1) by simp_all
  note 2 = rebuilds_comp [OF rebuilds_addPoint [OF assms(1)] rebuilds_ports [of sample "[ResolutionMinute, ResolutionHour, ResolutionDay]"],
      unfolded rebuilds_def, rule_format, OF this, folded ApplySample_split]
  show "rebuilt_finite (ApplySample Finite sample agg)" "agMaxGap (ApplySample Finite sample agg) = DefaultSolarCarryForwardMaxGap"
    using 1 2 assms(4) by simp_all
  show "rebuiltMemory (ApplySample Finite sample agg) = (rebuiltMemory agg)(stateKeyOf sample := advanceDeviceState ?state sample)"
    using 1 2 by (auto simp: rebuiltMemory_def fun_eq_iff)
  show "rebuiltEnergy (ApplySample Finite sample agg) r key ch = rebuiltEnergy agg r key ch + charge (rebuiltMemory agg) sample r key ch" if "plainKey key"
    using 1 2 that same(2) by (cases key) (simp add: charge_def)
  show "rebuiltCount (ApplySample Finite sample agg) r key = rebuiltCount agg r key + entry sample r key" if "plainKey key"
    using 1 2 that same(3) by (cases key) simp
qed

text \<open>When no time in memory is after the sample, both ways to advance a state agree.\<close>

definition not_after :: "integrationState \<Rightarrow> int \<Rightarrow> bool" where
  "not_after state ts \<longleftrightarrow>
     (\<forall>t \<in> {isLastPVAt state, pcLastAt (isACIn state), pcLastAt (isACOutput state), pcLastAt (isDCOutput state), pcLastAt (isLoad state),
        pcLastAt (isBatteryCharge state), pcLastAt (isBatteryDischarge state)}. \<forall>u. t = Some u \<longrightarrow> u \<le> ts)"

lemma advanceDeviceState_eq:
  assumes "not_after state (rsEventTime sample)"
  shows "advanceDeviceState state sample = advanceIntegrationState state sample"
proof -
  have "advancePowerState st ts metric = advancePowerChannelState st ts metric" if "\<And>u. pcLastAt st = Some u \<Longrightarrow> u \<le> ts" for st ts metric
    using that by (auto simp: advancePowerState_def advancePowerChannelState_def split: option.splits)
  then show ?thesis using assms
    by (auto simp: advanceDeviceState_def advanceIntegrationState_def Let_def not_after_def positiveMetricValue_def [abs_def] positiveOptionalFloat_def [abs_def]
        negativeMetricValue_def [abs_def] negativeOptionalFloat_def [abs_def] split: option.splits)
qed

lemma advance_not_after:
  assumes "not_after state (rsEventTime sample)" "rsEventTime sample \<le> ts"
  shows "not_after (advanceIntegrationState state sample) ts"
proof -
  have chan: "u \<le> ts" if "pcLastAt (advancePowerChannelState st (rsEventTime sample) metric) = Some u" "\<And>u. pcLastAt st = Some u \<Longrightarrow> u \<le> rsEventTime sample" for st metric u
    using that assms(2) by (fastforce simp: advancePowerChannelState_def split: option.splits if_splits)
  show ?thesis
    using assms by (auto simp: not_after_def advanceIntegrationState_def Let_def split: option.splits if_splits dest!: chan) 
qed

definition rebuildReady :: "RollupSample list \<Rightarrow> Aggregator \<Rightarrow> bool" where
  "rebuildReady xs agg \<longleftrightarrow>
     rebuilt_finite agg \<and> agMaxGap agg = DefaultSolarCarryForwardMaxGap \<and> (\<forall>key. finite_state (rebuiltMemory agg key)) \<and>
     sorted (map rsEventTime xs) \<and> (\<forall>x \<in> set xs. CHR ''|'' \<notin> set (rsProvider x) \<and> finite_metrics (rsMetrics x)) \<and>
     (\<forall>key. \<forall>x \<in> set xs. not_after (rebuiltMemory agg key) (rsEventTime x))"

interpretation rebuilt: energy_ledger "\<lambda>x. x" "ApplySample Finite" rebuiltMemory rebuiltEnergy rebuiltCount rebuildReady plainKey
proof
  fix x :: RollupSample and xs agg
  assume ready: "rebuildReady (x # xs) agg"
  note facts = ApplySample_rebuilds [of x agg]
  have pre: "CHR ''|'' \<notin> set (rsProvider x)" "finite_state (rebuiltMemory agg (stateKeyOf x))" "rebuilt_finite agg"
      "agMaxGap agg = DefaultSolarCarryForwardMaxGap" "finite_metrics (rsMetrics x)" "not_after (rebuiltMemory agg (stateKeyOf x)) (rsEventTime x)"
    using ready by (auto simp: rebuildReady_def)
  show mem: "rebuiltMemory (ApplySample Finite x agg) = advanceMemory x (rebuiltMemory agg)"
    using facts(3) [OF pre(1-4)] by (simp add: advanceMemory_def advanceDeviceState_eq [OF pre(6)])
  show "rebuildReady xs (ApplySample Finite x agg)"
    using ready facts(1,2) [OF pre(1-4)] advance_finite(1) [OF pre(2,5)] advance_not_after [OF pre(6)]
    unfolding rebuildReady_def mem by (auto simp: advanceMemory_def)
  show "plainKey key \<Longrightarrow> rebuiltEnergy (ApplySample Finite x agg) r key ch = rebuiltEnergy agg r key ch + charge (rebuiltMemory agg) x r key ch" for r key ch
    by (rule facts(4) [OF pre(1-4)])
  show "plainKey key \<Longrightarrow> rebuiltCount (ApplySample Finite x agg) r key = rebuiltCount agg r key + entry x r key" for r key
    by (rule facts(5) [OF pre(1-4)])
qed

section \<open>Both ledgers from the start\<close>

lemma live_start:
  assumes "unclaimed (map fst xs) emptyRollups" "\<forall>x \<in> set xs. finite_metrics (rsMetrics (snd x))"
  shows "liveReady xs ([], emptyRollups)"
  using assms by (simp add: liveReady_def finite_states_def rows_finite_def emptyRollups_def)

lemma rebuild_start:
  assumes "sorted (map rsEventTime xs)" "\<forall>x \<in> set xs. CHR ''|'' \<notin> set (rsProvider x) \<and> finite_metrics (rsMetrics x)"
  shows "rebuildReady xs NewAggregator"
  using assms zero_finite
  by (auto simp: rebuildReady_def NewAggregator_def rebuilt_finite_def rebuiltMemory_def not_after_def zeroIntegration_def zeroChannel_def)

lemma sort_by_sorted: "sorted_wrt (\<lambda>a b. \<not> lt b a) xs \<Longrightarrow> sort_by lt xs = xs"
proof (induction xs)
  case (Cons x xs)
  then show ?case by (cases xs) simp_all
qed simp

lemma empty_ledgers:
  "energyAt emptyRollups r key ch = 0" "countAt emptyRollups r key = 0" "rebuiltEnergy NewAggregator r key ch = 0" "rebuiltCount NewAggregator r key = 0"
  "liveMemory ([], emptyRollups) = rebuiltMemory NewAggregator"
  by (simp_all add: energyAt_def countAt_def rebuiltEnergy_def rebuiltCount_def emptyRollups_def NewAggregator_def liveMemory_def [abs_def] rebuiltMemory_def [abs_def])

lemma ledgers_agree:
  assumes "liveReady xs ([], emptyRollups)" "rebuildReady (map snd xs) NewAggregator" "plainKey key"
  shows "energyAt (snd (fold liveEnter xs ([], emptyRollups))) r key ch = rebuiltEnergy (fold (ApplySample Finite) (map snd xs) NewAggregator) r key ch"
    "countAt (snd (fold liveEnter xs ([], emptyRollups))) r key = rebuiltCount (fold (ApplySample Finite) (map snd xs) NewAggregator) r key"
  using live.energy_run [OF assms(1), where key = key and r = r and ch = ch] rebuilt.energy_run [OF assms(2,3), where r = r and ch = ch]
    live.entries_run [OF assms(1), where key = key and r = r] rebuilt.entries_run [OF assms(2,3), where r = r]
  by (simp_all add: empty_ledgers comp_def)

end
