(* ===== verification/Rollup_Properties.thy ===== *)
theory Rollup_Properties
  imports Rollup_Ledger
begin

text \<open>
  The properties of the rollups: the segments of a window, the agreement of the three tables, the
  agreement of live and rebuilt rollups, and the averages in which they differ.
\<close>

section \<open>The segments of a window\<close>

lemma tiles_total:
  assumes "tiles Finite r (Finite w) a b segs"
  shows "(\<Sum>(bu, s, e, wh)\<leftarrow>segs. finiteValue wh) = w * of_int (b - a) / of_int hour"
  using assms
proof (induction segs arbitrary: a)
  case (Cons seg segs)
  obtain bu s e wh where seg: "seg = (bu, s, e, wh)" by (cases seg)
  have "(\<Sum>(bu, s, e, wh)\<leftarrow>segs. finiteValue wh) = w * of_int (b - e) / of_int hour" using Cons seg by simp
  then show ?case using Cons(2) seg by (simp add: Hours_exact finiteValue_def diff_divide_distrib algebra_simps)
qed simp

text \<open>C38: The segments over which power is integrated follow each other from the start of the window to its end, or to
  twenty minutes after the power was last reported when that is earlier; each lies in its bucket and has the
  power times its hours as its energy, so that without rounding their sum is the power times the length. The
  loop ends and finds a segment for every part of the window as long as the hours of a positive duration are not
  rounded to zero.\<close>

theorem window_is_tiled:
  assumes "keeps_positive rnd" "\<not> fle w (Finite 0)" "start < end0"
  shows "let segs = IntegratePowerWindow rnd r start end0 lastAt w DefaultSolarCarryForwardMaxGap;
             stop = max start (min end0 (lastAt + 20 * minute))
         in tiles rnd r w start stop segs \<and>
            (rnd = Finite \<longrightarrow> w = Finite x \<longrightarrow> (\<Sum>(bu, s, e, wh)\<leftarrow>segs. finiteValue wh) = x * of_int (stop - start) / of_int hour)"
proof -
  let ?segs = "IntegratePowerWindow rnd r start end0 lastAt w DefaultSolarCarryForwardMaxGap"
  let ?stop = "max start (min end0 (lastAt + 20 * minute))"
  have "?segs = integrateLoop rnd r w ?stop start"
  proof (cases "start < ?stop")
    case True
    then show ?thesis using assms(2,3) minute_pos
      by (auto simp: IntegratePowerWindow_def DefaultSolarCarryForwardMaxGap_def Let_def max_def min_def split: if_splits)
  next
    case False
    then show ?thesis using assms(3) minute_pos
      by (auto simp: IntegratePowerWindow_def DefaultSolarCarryForwardMaxGap_def Let_def integrateLoop_done split: if_splits)
  qed
  then have "tiles rnd r w start ?stop ?segs" using integrateLoop_tiles [OF assms(1)] by simp
  then show ?thesis using tiles_total by (auto simp: Let_def)
qed

theorem window_is_tiled_witness:
  "tiles Finite ResolutionMinute (Finite 60) 0 (90 * second)
     (IntegratePowerWindow Finite ResolutionMinute 0 (90 * second) 0 (Finite 60) DefaultSolarCarryForwardMaxGap) \<and>
   (\<Sum>(bu, s, e, wh)\<leftarrow>IntegratePowerWindow Finite ResolutionMinute 0 (90 * second) 0 (Finite 60) DefaultSolarCarryForwardMaxGap. finiteValue wh) = 3 / 2"
  using window_is_tiled [of Finite "Finite 60" 0 "90 * second" ResolutionMinute 0 60] exact_keeps_positive
  by (simp add: fle_def feq_def Let_def hour_def minute_def second_def)

section \<open>Tables that agree\<close>

text \<open>C10: In every state that any number of workers reach over one database, whatever the order of their
  deliveries, the failures of the database and their restarts, the energy of an hour is the sum of the energies of
  its minutes and the energy of a day that of its hours, in every channel, and likewise for the numbers of samples;
  when the metrics are finite and nothing is rounded.\<close>

theorem tables_agree:
  assumes "rollup_run rx unmarshal workers db" "rxRound rx = Finite"
    and "bucketStart ResolutionHour h = h" "bucketStart ResolutionDay day = day"
  shows "(\<Sum>k\<leftarrow>minutesOf (p, d, h). energyAt db ResolutionMinute k ch) = energyAt db ResolutionHour (p, d, h) ch \<and>
    (\<Sum>k\<leftarrow>hoursOf (p, d, day). energyAt db ResolutionHour k ch) = energyAt db ResolutionDay (p, d, day) ch \<and>
    (\<Sum>k\<leftarrow>minutesOf (p, d, h). countAt db ResolutionMinute k) = countAt db ResolutionHour (p, d, h) \<and>
    (\<Sum>k\<leftarrow>hoursOf (p, d, day). countAt db ResolutionHour k) = countAt db ResolutionDay (p, d, day)"
  using rollup_run_agree [OF assms(1,2)] assms(3,4) by (simp add: agree_def rolls_up_def)

text \<open>A worker that hears of a load of 120 watts in every minute.\<close>

definition loadReader :: rollup_reader where
  "loadReader = \<lparr>rxIsUUID = (\<lambda>_. True), rxParse = (\<lambda>_. Some JOther),
     rxGet = (\<lambda>_ path. if path = ''loadW'' then Some (JNumber (Finite 120)) else None), rxRound = Finite, rxInt64 = (\<lambda>_. 0)\<rparr>"

definition loadEnvelope :: "int \<Rightarrow> TelemetryEnvelope" where
  "loadEnvelope t = zeroEnvelope\<lparr>DeviceId := ''d1'', EcoflowSn := ''SN1'', ObservedTimeUnixMs := t, IngestedTimeUnixMs := t,
     EnvPayload := [123, 125], Labels := [(''provider'', ''ecoflow'')]\<rparr>"

definition loadSample :: "int \<Rightarrow> RollupSample" where
  "loadSample t = \<lparr>rsProvider = ''ecoflow'', rsProviderDeviceID = ''SN1'', rsDeviceID = ''d1'', rsEventTime = t * 1000000, rsEventUnixMs = t,
     rsIngestedUnixMs = t, rsMetrics = noMetrics\<lparr>rmLoad := Some (Finite 120), rmACOutput := Some (Finite 120)\<rparr>, rsPVPorts = []\<rparr>"

lemma load_numbers:
  "numberAt loadReader doc path = (if path = ''loadW'' then Some (Finite 120) else None)"
  "rxGet loadReader doc path = (if path = ''loadW'' then Some (JNumber (Finite 120)) else None)"
  by (simp_all add: numberAt_def loadReader_def)

lemma load_first:
  "firstNumber loadReader doc paths = (if ''loadW'' \<in> set paths then Some (Finite 120) else None)"
  "firstPresentNumber loadReader doc paths = (if ''loadW'' \<in> set paths then Some (Finite 120) else None)"
  "hasAnyPVPortKey loadReader doc paths \<longleftrightarrow> ''loadW'' \<in> set paths"
  "''loadW'' \<notin> set paths \<Longrightarrow> firstNumberCapped loadReader doc m paths = None"
  by (induction paths) (auto simp: load_numbers hasAnyPVPortKey_def)

lemma load_sums:
  assumes "''loadW'' \<notin> set paths"
  shows "Rollup_Metrics.sumIfPresent loadReader doc paths = None" "sumNonNegativeIfPresent loadReader doc paths = None"
    "Rollup_Metrics.sumPositiveIfPresent loadReader doc paths = None" "maxPresentCapped loadReader doc m paths = None"
proof -
  have keep: "fold f paths v = v" if "\<And>path v. path \<noteq> ''loadW'' \<Longrightarrow> f path v = v" for f and v :: "float64 option"
    using assms that by (induction paths arbitrary: v) auto
  show "Rollup_Metrics.sumIfPresent loadReader doc paths = None" "sumNonNegativeIfPresent loadReader doc paths = None"
      "Rollup_Metrics.sumPositiveIfPresent loadReader doc paths = None" "maxPresentCapped loadReader doc m paths = None"
    unfolding Rollup_Metrics.sumIfPresent_def sumNonNegativeIfPresent_def Rollup_Metrics.sumPositiveIfPresent_def maxPresentCapped_def
    by (rule keep; simp add: load_numbers load_first)+
qed

lemma load_derived:
  "derivePV loadReader JOther = None" "deriveACIn loadReader JOther pv = None" "deriveDC loadReader JOther = None"
  "deriveLoad loadReader JOther = Some (Finite 120)" "batteryMetric loadReader JOther None = None" "collectTemperatures loadReader JOther = []"
  "extractPVPortObservations loadReader JOther = []"
proof -
  show ports: "extractPVPortObservations loadReader JOther = []"
    by (simp add: extractPVPortObservations_def buildPVPortSpecs_def load_first load_numbers map_filter_simps numberedSpec_def derivePVPortObservation_def
        idleState_def Let_def valueOr0_def fle_def feq_def)
  show "derivePV loadReader JOther = None"
    by (simp add: derivePV_def load_first load_numbers sumPVPortObservationWatts_def ports Let_def)
  show "deriveACIn loadReader JOther pv = None" by (simp add: deriveACIn_def load_sums load_first load_numbers)
  show "deriveDC loadReader JOther = None" by (simp add: deriveDC_def deriveAndersonPower_def load_sums load_first load_numbers Let_def)
  show "deriveLoad loadReader JOther = Some (Finite 120)" by (simp add: deriveLoad_def load_first load_numbers)
  have "extraBatteryChargeTransfer loadReader JOther = Finite 0"
    by (simp add: extraBatteryChargeTransfer_def extraBatteryTransferFields_def Rollup_Metrics.sumExtraBatteryPackCharge_def load_sums load_first load_numbers
        Let_def fle_def feq_def)
  then show "batteryMetric loadReader JOther None = None" by (simp add: batteryMetric_def load_first load_numbers Let_def hasNonZero_def)
  show "collectTemperatures loadReader JOther = []" by (simp add: collectTemperatures_def load_first load_numbers map_filter_simps)
qed

lemma load_sample:
  assumes "0 < t"
  shows "SampleFromEnvelope loadReader (loadEnvelope t) = Inr (loadSample t)"
proof -
  have metrics: "extractMetrics loadReader JOther = noMetrics\<lparr>rmLoad := Some (Finite 120), rmACOutput := Some (Finite 120)\<rparr>"
    by (simp add: extractMetrics_def Let_def load_derived load_first load_numbers deriveACOutput_def fle_def feq_def noMetrics_def)
  have idle: "\<not> IdleStale (rxRound loadReader) (ExtractNumericMetrics (rxParse loadReader) (EnvPayload (loadEnvelope t)))"
    by (simp add: IdleStale_def currentInputWatts_def ExtractNumericMetrics_def loadReader_def loadEnvelope_def Current_Telemetry.sumIfPresent_def)
  have trim: "trimPayload (EnvPayload (loadEnvelope t)) \<noteq> []" by (simp add: trimPayload_def loadEnvelope_def) code_simp
  have names: "TrimSpace ''ecoflow'' = ''ecoflow''" "TrimSpace ''SN1'' = ''SN1''" "ToUpper ''SN1'' = ''SN1''" "TrimSpace ''d1'' = ''d1''" by code_simp+
  have env: "label (loadEnvelope t) ''provider'' = ''ecoflow''" "EcoflowSn (loadEnvelope t) = ''SN1''" "DeviceId (loadEnvelope t) = ''d1''"
      "ObservedTimeUnixMs (loadEnvelope t) = t" "DeviceTimeUnixMs (loadEnvelope t) = 0" "IngestedTimeUnixMs (loadEnvelope t) = t"
    by (simp_all add: loadEnvelope_def zeroEnvelope_def label_def gm_get_def)
  have reader: "rxIsUUID loadReader x" "rxParse loadReader bytes = Some JOther" for x bytes by (simp_all add: loadReader_def)
  show ?thesis
    using assms idle trim
    by (simp add: SampleFromEnvelope_def loadSample_def Let_def metrics load_derived HasAny_def names env reader firstPositiveInt64_def)
qed

text \<open>The workers of a witness: a message is the number of its minutes.\<close>

definition loadMessages :: "byte list \<Rightarrow> string + TelemetryEnvelope" where
  "loadMessages data = Inr (loadEnvelope (60000 * int (length data + 1)))"

lemma load_run:
  assumes "rollup_run loadReader loadMessages workers db"
  shows "rollup_run loadReader loadMessages (workers(i := fst (fst (Rollup_Model.processDelivery loadReader loadMessages tx data (workers i, db)))))
    (snd (fst (Rollup_Model.processDelivery loadReader loadMessages tx data (workers i, db))))"
proof -
  have "finite_metrics (rsMetrics (loadSample t))" for t by (simp add: finite_metrics_def loadSample_def noMetrics_def isFinite_def)
  then show ?thesis using load_sample
    by (intro rollups_deliver [OF assms, where tx = tx and act = "snd (Rollup_Model.processDelivery loadReader loadMessages tx data (workers i, db))"])
       (auto simp: loadMessages_def)
qed

theorem tables_agree_witness:
  "let (states, db) = fst (Rollup_Model.processDelivery loadReader loadMessages answering [] ([], emptyRollups));
       (states', db') = fst (Rollup_Model.processDelivery loadReader loadMessages answering [0] (states, db))
   in (\<Sum>k\<leftarrow>minutesOf (''ecoflow'', ''SN1'', 0). energyAt db' ResolutionMinute k LoadEnergy) = energyAt db' ResolutionHour (''ecoflow'', ''SN1'', 0) LoadEnergy \<and>
      (\<Sum>k\<leftarrow>hoursOf (''ecoflow'', ''SN1'', 0). countAt db' ResolutionHour k) = countAt db' ResolutionDay (''ecoflow'', ''SN1'', 0)"
proof -
  let ?first = "fst (Rollup_Model.processDelivery loadReader loadMessages answering [] ([], emptyRollups))"
  let ?second = "fst (Rollup_Model.processDelivery loadReader loadMessages answering [0] ?first)"
  have "rollup_run loadReader loadMessages ((\<lambda>_. [])(0 := fst ?first)) (snd ?first)"
    using load_run [OF rollups_start, of 0 answering "[]"] by simp
  from load_run [OF this, of 0 answering "[0]"] have "rollup_run loadReader loadMessages ((\<lambda>_. [])(0 := fst ?second)) (snd ?second)" by simp
  moreover have "rxRound loadReader = Finite" by (simp add: loadReader_def)
  ultimately show ?thesis
    using tables_agree [where rx = loadReader and unmarshal = loadMessages and db = "snd ?second" and h = 0 and day = 0 and p = "''ecoflow''" and d = "''SN1''"
        and ch = LoadEnergy]
    by (simp add: bucketStart_def case_prod_unfold del: upt_conv_Cons upt_rec_numeral)
qed

section \<open>Live and rebuilt rollups\<close>

text \<open>C11: Samples that arrive in the order of their times give the same energies and numbers of samples, in every row and
  channel, whether the worker adds them to the tables as they come, each under its own key, or they are computed
  again from the archive, which lists them in any order and applies them in the order of their ingestion; when the
  metrics are finite, nothing is rounded and no provider has a bar in its name.\<close>

theorem rebuild_matches_live:
  assumes "sort_by rebuildSampleLess archived = map snd xs" "sorted (map (rsEventTime \<circ> snd) xs)"
    and "\<forall>x \<in> set xs. CHR ''|'' \<notin> set (rsProvider (snd x)) \<and> finite_metrics (rsMetrics (snd x))"
    and "unclaimed (map fst xs) emptyRollups" "CHR ''|'' \<notin> set p" "bucketStart r b = b"
  shows "energyAt (snd (fold liveEnter xs ([], emptyRollups))) r (p, d, b) ch = rebuiltEnergy (rebuildSamples Finite archived) r (p, d, b) ch \<and>
    countAt (snd (fold liveEnter xs ([], emptyRollups))) r (p, d, b) = rebuiltCount (rebuildSamples Finite archived) r (p, d, b)"
proof -
  have "liveReady xs ([], emptyRollups)" using assms(3,4) by (intro live_start) auto
  moreover have "rebuildReady (map snd xs) NewAggregator" using assms(2,3) by (intro rebuild_start) (auto simp: comp_def)
  moreover have "plainKey (p, d, b)" using assms(5,6) bucketStart_whole [of r b] by (simp add: plainKey_def)
  ultimately show ?thesis using ledgers_agree by (simp add: rebuildSamples_def assms(1))
qed

theorem rebuild_matches_live_witness:
  "let live = snd (fold liveEnter [(loadEnvelope 60000, loadSample 60000), (loadEnvelope 120000, loadSample 120000)] ([], emptyRollups));
       rebuilt = rebuildSamples Finite [loadSample 120000, loadSample 60000]
   in energyAt live ResolutionHour (''ecoflow'', ''SN1'', 0) LoadEnergy = rebuiltEnergy rebuilt ResolutionHour (''ecoflow'', ''SN1'', 0) LoadEnergy \<and>
      countAt live ResolutionHour (''ecoflow'', ''SN1'', 0) = rebuiltCount rebuilt ResolutionHour (''ecoflow'', ''SN1'', 0)"
proof -
  have key: "rollupDedupKey (loadEnvelope t) = []" for t
    by (simp add: rollupDedupKey_def Key_def loadEnvelope_def zeroEnvelope_def Let_def)
  show ?thesis unfolding Let_def
    by (rule rebuild_matches_live)
      (simp_all add: rebuildSampleLess_def loadSample_def finite_metrics_def noMetrics_def isFinite_def unclaimed_def key bucketStart_def)
qed

section \<open>Averages\<close>

text \<open>C39: The average in a row weighs what was there by all samples of the row, also those that did not report the
  metric: of three samples that report a value, nothing and another value, the first counts twice. The average that
  a rebuild computes from the same samples is that of the two values.\<close>

theorem missing_metrics_weigh:
  assumes "metricColumn m (rsMetrics s1) = Some (Finite x)" "metricColumn m (rsMetrics s2) = None" "metricColumn m (rsMetrics s3) = Some (Finite y)"
    and "\<forall>s \<in> {s1, s2, s3}. rowKey s (bucketStart r (rsEventTime s)) = key"
  shows "let live = fold (\<lambda>s. snd (execUpsert Finite s r)) [s1, s2, s3] emptyRollups;
             rebuilt = fold (\<lambda>s. addPoint Finite s r) [s1, s2, s3] NewAggregator
         in map_option (\<lambda>row. rwAvg row m) (gm_get (rdRows live r) key) = Some (Some (Finite ((2 * x + y) / 3))) \<and>
            map_option (\<lambda>row. avgValue Finite (brMetric row m)) (gm_get (agRows rebuilt r) (textKey key)) = Some (Some (Finite ((x + y) / 2)))"
proof -
  have names: "bucketMapKey (rsProvider s) (rsProviderDeviceID s) (bucketStart r (rsEventTime s)) = textKey key" if "s \<in> {s1, s2, s3}" for s
    using assms(4) that by (auto simp: textKey_def rowKey_def)
  have live: "gm_get (rdRows (fold (\<lambda>s. snd (execUpsert Finite s r)) [s1, s2, s3] emptyRollups) r) key =
      fold (\<lambda>s row. Some (upsertSample Finite (sampleRow s) row)) [s1, s2, s3] None"
    using assms(4) by (simp add: execUpsert_def putRow_def emptyRollups_def)
  show ?thesis unfolding Let_def live using assms(1-3) names
    by (simp add: upsertSample_def sampleRow_def Let_def weightedAverageExpr_def nullOr_def fdivBy_def addPoint_def changeRow_def ensureBucketRow_def NewAggregator_def
        maAdd_def avgValue_def)
qed

theorem missing_metrics_weigh_witness:
  "let silent = (loadSample 2)\<lparr>rsMetrics := noMetrics\<lparr>rmSOC := Some (Finite 50)\<rparr>\<rparr>;
       idle = (loadSample 3)\<lparr>rsMetrics := noMetrics\<lparr>rmLoad := Some (Finite 0)\<rparr>\<rparr>;
       live = fold (\<lambda>s. snd (execUpsert Finite s ResolutionHour)) [loadSample 1, silent, idle] emptyRollups
   in map_option (\<lambda>row. rwAvg row Load) (gm_get (rdRows live ResolutionHour) (''ecoflow'', ''SN1'', 0)) = Some (Some (Finite 80))"
  using missing_metrics_weigh [of Load "loadSample 1" 120 "(loadSample 2)\<lparr>rsMetrics := noMetrics\<lparr>rmSOC := Some (Finite 50)\<rparr>\<rparr>"
      "(loadSample 3)\<lparr>rsMetrics := noMetrics\<lparr>rmLoad := Some (Finite 0)\<rparr>\<rparr>" 0 ResolutionHour "(''ecoflow'', ''SN1'', 0)"]
  by (simp add: loadSample_def noMetrics_def Let_def rowKey_def bucketStart_def hour_def minute_def second_def del: fold_simps)

end
