(* ===== verification/Ingest_Model.thy ===== *)
theory Ingest_Model
  imports Lease_Manager Cp_Devices Go_Time
begin

text \<open>
  The control loop of the ingest worker (\<open>internal/ingestworker/loop.go\<close>): it lists the assignments, stops the
  sessions whose assignment is gone or changed, and starts the missing ones, each under a lease of its
  device. A started session is two goroutines, the runner of the provider and the heartbeat of the
  lease; both report their end on the channel \<open>termCh\<close>. The context of a session with its two
  goroutines is an entry of \<open>lpProcs\<close> and is identified by the token of its lease; a map whose entries
  are visited in any order is a list. Instants are nanoseconds since 1970. The timer of the polls, the
  metrics and the log are left out; the runners of the providers are arguments, as errors they return.
\<close>

section \<open>Identifiers of the providers\<close>

fun Split :: "char \<Rightarrow> string \<Rightarrow> string list" where
  "Split sep [] = [[]]"
| "Split sep (c # cs) =
     (if c = sep then [] # Split sep cs
      else (case Split sep cs of [] \<Rightarrow> [[c]] | part # rest \<Rightarrow> (c # part) # rest))"

record AnkerDeviceRef =
  arProductCode :: string
  arDeviceSN :: string

definition AnkerNormalize :: "AnkerDeviceRef \<Rightarrow> AnkerDeviceRef" where
  "AnkerNormalize r = \<lparr>arProductCode = ToUpper (TrimSpace (arProductCode r)), arDeviceSN = TrimSpace (arDeviceSN r)\<rparr>"

definition AnkerProviderDeviceID :: "AnkerDeviceRef \<Rightarrow> string" where
  "AnkerProviderDeviceID r0 =
     (let r = AnkerNormalize r0
      in if arProductCode r = [] \<or> arDeviceSN r = [] then []
         else ToLower (arProductCode r) @ '':'' @ arDeviceSN r)"

definition AnkerParseProviderDeviceID :: "string \<Rightarrow> string + AnkerDeviceRef" where
  "AnkerParseProviderDeviceID raw =
     (case Split CHR '':'' (TrimSpace raw) of
        [code, sn] \<Rightarrow>
          (let ref = AnkerNormalize \<lparr>arProductCode = code, arDeviceSN = sn\<rparr>
           in if arProductCode ref = [] \<or> arDeviceSN ref = []
              then Inl ''anker solix product_code and device_sn are required'' else Inr ref)
      | _ \<Rightarrow> Inl ''anker solix provider_device_id must use product_code:device_sn'')"

record PecronDeviceRef =
  prProductKey :: string
  prDeviceKey :: string

definition PecronProviderDeviceID :: "PecronDeviceRef \<Rightarrow> string" where
  "PecronProviderDeviceID r =
     (let pk = TrimSpace (prProductKey r); dk = TrimSpace (prDeviceKey r)
      in if pk = [] \<or> dk = [] then [] else pk @ '':'' @ dk)"

definition PecronParseProviderDeviceID :: "string \<Rightarrow> string + PecronDeviceRef" where
  "PecronParseProviderDeviceID raw =
     (case Split CHR '':'' (TrimSpace raw) of
        [product, dev] \<Rightarrow>
          (let ref = \<lparr>prProductKey = TrimSpace product, prDeviceKey = TrimSpace dev\<rparr>
           in if prProductKey ref = [] \<or> prDeviceKey ref = []
              then Inl ''pecron product_key and device_key are required'' else Inr ref)
      | _ \<Rightarrow> Inl ''pecron provider_device_id must use product_key:device_key'')"

definition sanitizeProvider :: "string \<Rightarrow> string" where
  "sanitizeProvider provider = NormalizeProvider provider"

definition normalizeProviderDeviceIDForProvider :: "string \<Rightarrow> string \<Rightarrow> string" where
  "normalizeProviderDeviceIDForProvider provider providerDeviceID0 =
     (let providerDeviceID = TrimSpace providerDeviceID0; p = sanitizeProvider provider
      in if p = ProviderAnkerSolix then
           (case AnkerParseProviderDeviceID providerDeviceID of
              Inr ref \<Rightarrow> AnkerProviderDeviceID ref
            | Inl _ \<Rightarrow> providerDeviceID)
         else if p = ProviderPecron then
           (case PecronParseProviderDeviceID providerDeviceID of
              Inr ref \<Rightarrow> PecronProviderDeviceID ref
            | Inl _ \<Rightarrow> ToLower providerDeviceID)
         else ToUpper providerDeviceID)"

definition assignmentKey :: "string \<Rightarrow> string \<Rightarrow> string" where
  "assignmentKey provider providerDeviceID =
     sanitizeProvider provider @ ''|'' @ normalizeProviderDeviceIDForProvider provider providerDeviceID"

definition sanitizeAssignment :: "IngestAssignment \<Rightarrow> IngestAssignment" where
  "sanitizeAssignment a =
     (let provider = sanitizeProvider (iaProvider a)
      in a\<lparr>iaProvider := provider,
           iaProviderDeviceID := normalizeProviderDeviceIDForProvider provider (iaProviderDeviceID a),
           iaDeviceID := TrimSpace (iaDeviceID a), iaCredentialID := TrimSpace (iaCredentialID a),
           iaProductName := TrimSpace (iaProductName a), iaModel := TrimSpace (iaModel a),
           iaAccessKey := TrimSpace (iaAccessKey a), iaSecretKey := TrimSpace (iaSecretKey a),
           iaIngestDesiredState := ToLower (TrimSpace (iaIngestDesiredState a))\<rparr>)"

definition sameRuntimeAssignment :: "IngestAssignment \<Rightarrow> IngestAssignment \<Rightarrow> bool" where
  "sameRuntimeAssignment current nxt \<longleftrightarrow>
     iaProvider current = iaProvider nxt \<and> iaProviderDeviceID current = iaProviderDeviceID nxt \<and>
     iaCredentialID current = iaCredentialID nxt \<and> iaAccessKey current = iaAccessKey nxt \<and>
     iaSecretKey current = iaSecretKey nxt"

definition shouldRun :: "IngestAssignment \<Rightarrow> bool" where
  "shouldRun a \<longleftrightarrow> iaDeviceIsActive a \<and> iaCredentialIsActive a \<and> iaIngestDesiredState a = ''active''"

definition stopReason :: "IngestAssignment \<Rightarrow> string" where
  "stopReason a =
     (if \<not> iaDeviceIsActive a then ''device_inactive''
      else if \<not> iaCredentialIsActive a then ''credential_inactive''
      else if iaIngestDesiredState a = ''paused'' then ''ingest_paused''
      else if iaIngestDesiredState a = ''draining'' then ''ingest_draining''
      else ''ingest_not_active'')"

section \<open>Configuration\<close>

record LoopConfig =
  lcWorkerID :: string
  lcProviderFilter :: string
  lcPollInterval :: int
  lcPollJitter :: real
  lcStopTimeout :: int
  lcStartWorkers :: int
  lcStartQueueSize :: int
  lcCredentialRejectCooldown :: int
  lcLeaseMissingAlertWindow :: int
  lcLeaseMissingAlertThreshold :: int
  lcLeaseMissingAlertCooldown :: int

text \<open>\<open>procs\<close> is \<open>runtime.GOMAXPROCS(0)\<close>.\<close>

definition RecommendedStartWorkers :: "int \<Rightarrow> int \<Rightarrow> int" where
  "RecommendedStartWorkers procs goMaxProcs =
     (let workers = wrap64 (4 * (if goMaxProcs \<le> 0 then procs else goMaxProcs))
      in if workers < 8 then 8 else if workers > 64 then 64 else workers)"

definition RecommendedStartQueueSize :: "int \<Rightarrow> int \<Rightarrow> int" where
  "RecommendedStartQueueSize procs workers =
     wrap64 ((if workers \<le> 0 then RecommendedStartWorkers procs 0 else workers) * 8)"

definition DefaultLoopConfig :: "int \<Rightarrow> string \<Rightarrow> LoopConfig" where
  "DefaultLoopConfig procs workerID =
     (let workers = RecommendedStartWorkers procs procs
      in \<lparr>lcWorkerID = TrimSpace workerID, lcProviderFilter = [], lcPollInterval = 5 * second, lcPollJitter = 0.20,
          lcStopTimeout = 8 * second, lcStartWorkers = workers, lcStartQueueSize = RecommendedStartQueueSize procs workers,
          lcCredentialRejectCooldown = 5 * minute, lcLeaseMissingAlertWindow = 5 * minute,
          lcLeaseMissingAlertThreshold = 4, lcLeaseMissingAlertCooldown = 2 * minute\<rparr>)"

section \<open>Errors\<close>

text \<open>What the code asks of an error: its text, and what \<open>errors.Is\<close> and \<open>errors.As\<close> find in it.\<close>

record go_err =
  geText :: string
  geCanceled :: bool
  geCredentialRejected :: bool
  geLeaseRejected :: "(string \<times> string) option"

fun refErrorText :: "ref_error \<Rightarrow> string" where
  "refErrorText ProviderRequired = ''provider is required''"
| "refErrorText ProviderDeviceIDRequired = ''provider_device_id is required''"
| "refErrorText ProviderReserved = ''provider contains reserved hash-tag characters''"
| "refErrorText ProviderDeviceIDReserved = ''provider_device_id contains reserved hash-tag characters''"

definition leaseRejectedText :: "string \<Rightarrow> string \<Rightarrow> string" where
  "leaseRejectedText operation reason = ''lease '' @ TrimSpace operation @ '' rejected: '' @ TrimSpace reason"

fun leaseGoErr :: "lease_err \<Rightarrow> go_err" where
  "leaseGoErr (RefError e) =
     \<lparr>geText = refErrorText e, geCanceled = False, geCredentialRejected = False, geLeaseRejected = None\<rparr>"
| "leaseGoErr (TokenGenFailed e) =
     \<lparr>geText = ''generate lease token: '' @ err_text e, geCanceled = err_canceled e, geCredentialRejected = False, geLeaseRejected = None\<rparr>"
| "leaseGoErr (ExecFailed e) =
     \<lparr>geText = err_text e, geCanceled = err_canceled e, geCredentialRejected = False, geLeaseRejected = None\<rparr>"
| "leaseGoErr (ParseFailed what e) =
     \<lparr>geText = ''parse '' @ what @ '': '' @ err_text e, geCanceled = err_canceled e, geCredentialRejected = False, geLeaseRejected = None\<rparr>"
| "leaseGoErr (TupleLength what n) =
     \<lparr>geText = ''invalid '' @ what @ '' response tuple length='' @ Itoa (int n), geCanceled = False, geCredentialRejected = False,
      geLeaseRejected = None\<rparr>"
| "leaseGoErr TokenRequired =
     \<lparr>geText = ''token is required'', geCanceled = False, geCredentialRejected = False, geLeaseRejected = None\<rparr>"
| "leaseGoErr WorkerRequired =
     \<lparr>geText = ''worker_id is required'', geCanceled = False, geCredentialRejected = False, geLeaseRejected = None\<rparr>"
| "leaseGoErr (ReleaseRejected reason) =
     \<lparr>geText = ''lease release rejected: '' @ reason, geCanceled = False, geCredentialRejected = False, geLeaseRejected = None\<rparr>"
| "leaseGoErr (LeaseRejected operation reason) =
     \<lparr>geText = leaseRejectedText operation reason, geCanceled = False, geCredentialRejected = False,
      geLeaseRejected = Some (operation, reason)\<rparr>"
| "leaseGoErr (ReacquireFailed e) =
     (leaseGoErr e)\<lparr>geText := ''lease reacquire after missing failed: '' @ geText (leaseGoErr e)\<rparr>"

definition IsLeaseRejectedReason :: "go_err \<Rightarrow> string \<Rightarrow> string \<Rightarrow> bool" where
  "IsLeaseRejectedReason err operation reason =
     (case geLeaseRejected err of
        Some (op, why) \<Rightarrow>
          EqualFold (TrimSpace op) (TrimSpace operation) \<and> EqualFold (TrimSpace why) (TrimSpace reason)
      | None \<Rightarrow> False)"

definition IsLeaseRenewMissing :: "go_err \<Rightarrow> bool" where
  "IsLeaseRenewMissing err \<longleftrightarrow>
     (if IsLeaseRejectedReason err ''renew'' ''missing'' then True
      else Contains (ToLower (geText err)) ''lease renew rejected: missing'')"

section \<open>Alerts\<close>

text \<open>The rate per minute is only logged and left out; \<open>None\<close> is the zero time.\<close>

record reconnectRateTracker =
  rtWindow :: int
  rtThreshold :: int
  rtCooldown :: int
  rtLastAlert :: "int option"
  rtEvents :: "int list"

definition newReconnectRateTracker :: "int \<Rightarrow> int \<Rightarrow> int \<Rightarrow> reconnectRateTracker" where
  "newReconnectRateTracker window threshold cooldown =
     \<lparr>rtWindow = window, rtThreshold = threshold, rtCooldown = cooldown, rtLastAlert = None, rtEvents = []\<rparr>"

definition RecordReconnect :: "int \<Rightarrow> reconnectRateTracker \<Rightarrow> nat \<times> bool \<times> reconnectRateTracker" where
  "RecordReconnect now t =
     (if rtWindow t \<le> 0 then (0, False, t)
      else
        (let cutoff = now - rtWindow t;
             t' = t\<lparr>rtEvents := filter (\<lambda>ts. \<not> ts < cutoff) (rtEvents t) @ [now]\<rparr>;
             count = length (rtEvents t')
         in if rtThreshold t \<le> 0 \<or> int count < rtThreshold t then (count, False, t')
            else if (case rtLastAlert t of None \<Rightarrow> False | Some l \<Rightarrow> timeSub now l < rtCooldown t) then (count, False, t')
            else (count, True, t'\<lparr>rtLastAlert := Some now\<rparr>)))"

section \<open>The loop and its sessions\<close>

record runningSession =
  rsAssignment :: IngestAssignment
  rsLease :: Lease

record terminationEvent =
  teKey :: string
  teToken :: string
  teSource :: string
  teErr :: "go_err option"

text \<open>
  The two goroutines of a session. \<open>spDone\<close> and \<open>spHeartbeat\<close> hold what the runner and the heartbeat returned,
  once they have; the flags say that the end has been reported. The heartbeat has its own copy of the
  lease, whose fence it follows.
\<close>

record session_proc =
  spKey :: string
  spToken :: string
  spAssignment :: IngestAssignment
  spCancelled :: bool
  spDone :: "go_err option option"
  spDoneSent :: bool
  spHbLease :: Lease
  spHeartbeat :: "go_err option option"
  spHeartbeatSent :: bool

text \<open>\<open>Starting\<close> holds the assignments that the start workers have not taken up yet.\<close>

datatype loop_phase = Idle | Starting "IngestAssignment list" | Stopped

record 'db Loop =
  lpCfg :: LoopConfig
  lpRunning :: "(string, runningSession) gomap"
  lpReject :: "(string, int) gomap"
  lpTokenID :: "64 word"
  lpTokenNS :: string
  lpTermCh :: "terminationEvent list"
  lpRunDone :: bool
  lpTracker :: reconnectRateTracker
  lpProcs :: "session_proc list"
  lpCtxDone :: bool
  lpPhase :: loop_phase
  lpDb :: 'db

definition positiveOrElse :: "int \<Rightarrow> int \<Rightarrow> int" where
  "positiveOrElse v dflt = (if v \<le> 0 then dflt else v)"

definition normalizeLoopConfig :: "int \<Rightarrow> LoopConfig \<Rightarrow> LoopConfig" where
  "normalizeLoopConfig procs c =
     (let workers = positiveOrElse (lcStartWorkers c) (RecommendedStartWorkers procs 0)
      in c\<lparr>lcWorkerID := TrimSpace (lcWorkerID c),
           lcPollInterval := positiveOrElse (lcPollInterval c) (5 * second),
           lcPollJitter := (if lcPollJitter c < 0 then 0 else lcPollJitter c),
           lcStopTimeout := positiveOrElse (lcStopTimeout c) (8 * second),
           lcStartWorkers := workers,
           lcStartQueueSize := positiveOrElse (lcStartQueueSize c) (RecommendedStartQueueSize procs workers),
           lcCredentialRejectCooldown := positiveOrElse (lcCredentialRejectCooldown c) (5 * minute),
           lcLeaseMissingAlertWindow := positiveOrElse (lcLeaseMissingAlertWindow c) (5 * minute),
           lcLeaseMissingAlertThreshold := positiveOrElse (lcLeaseMissingAlertThreshold c) 4,
           lcLeaseMissingAlertCooldown := positiveOrElse (lcLeaseMissingAlertCooldown c) (2 * minute)\<rparr>)"

text \<open>The store, the leases and the runner are always given, so the only error is an empty worker name. \<open>db\<close> is the
  content of the server of the leases.\<close>

definition NewLoop :: "int \<Rightarrow> LoopConfig \<Rightarrow> 'db \<Rightarrow> string + 'db Loop" where
  "NewLoop procs c0 db =
     (let c = normalizeLoopConfig procs c0
      in if lcWorkerID c = [] then Inl ''worker_id is required''
         else Inr \<lparr>lpCfg = c, lpRunning = [], lpReject = [], lpTokenID = 0, lpTokenNS = lcWorkerID c @ ''-'',
                   lpTermCh = [], lpRunDone = False,
                   lpTracker = newReconnectRateTracker (lcLeaseMissingAlertWindow c) (lcLeaseMissingAlertThreshold c)
                     (lcLeaseMissingAlertCooldown c),
                   lpProcs = [], lpCtxDone = False, lpPhase = Idle, lpDb = db\<rparr>)"

text \<open>\<open>strconv.FormatUint(seq, 36)\<close> after the atomic increment.\<close>

definition nextToken :: "'db Loop \<Rightarrow> 'db Loop \<times> string" where
  "nextToken l =
     (let seq = lpTokenID l + 1 in (l\<lparr>lpTokenID := seq\<rparr>, lpTokenNS l @ show_base 36 (unat seq)))"

definition cancelSession :: "string \<Rightarrow> 'db Loop \<Rightarrow> 'db Loop" where
  "cancelSession token l =
     l\<lparr>lpProcs := map (\<lambda>p. if spToken p = token then p\<lparr>spCancelled := True\<rparr> else p) (lpProcs l)\<rparr>"

definition stopSessionLocked :: "string \<Rightarrow> runningSession \<Rightarrow> 'db Loop \<Rightarrow> 'db Loop" where
  "stopSessionLocked key rs l =
     (cancelSession (Token (rsLease rs)) l)\<lparr>lpRunning := gm_del key (lpRunning l)\<rparr>"

section \<open>Ends of sessions\<close>

definition handleTerminationEvent :: "int \<Rightarrow> terminationEvent \<Rightarrow> 'db Loop \<Rightarrow> 'db Loop" where
  "handleTerminationEvent now evt l =
     (case gm_get (lpRunning l) (teKey evt) of
        None \<Rightarrow> l
      | Some rs \<Rightarrow>
          if Token (rsLease rs) \<noteq> teToken evt then l
          else
            (let l' = (cancelSession (Token (rsLease rs)) l)\<lparr>lpRunning := gm_del (teKey evt) (lpRunning l)\<rparr>
             in case teErr evt of
                  None \<Rightarrow> l'
                | Some err \<Rightarrow>
                    if geCanceled err then l'
                    else if geCredentialRejected err then
                      l'\<lparr>lpReject := gm_put (teKey evt) (now + lcCredentialRejectCooldown (lpCfg l)) (lpReject l)\<rparr>
                    else if teSource evt = ''heartbeat'' \<and> IsLeaseRenewMissing err then
                      l'\<lparr>lpTracker := snd (snd (RecordReconnect now (lpTracker l)))\<rparr>
                    else l'))"

text \<open>\<open>clock\<close> is the time at which an event is handled.\<close>

definition drainTerminated :: "(terminationEvent \<Rightarrow> int) \<Rightarrow> 'db Loop \<Rightarrow> 'db Loop" where
  "drainTerminated clock l =
     fold (\<lambda>evt. handleTerminationEvent (clock evt) evt) (lpTermCh l) (l\<lparr>lpTermCh := []\<rparr>)"

section \<open>Reconciling with the assignments\<close>

text \<open>The code keeps the index of an assignment, the model the assignment; the first one of a key counts.\<close>

definition addLatest :: "IngestAssignment \<Rightarrow> (string, IngestAssignment) gomap \<Rightarrow> (string, IngestAssignment) gomap" where
  "addLatest a0 latest =
     (let a = sanitizeAssignment a0; key = assignmentKey (iaProvider a) (iaProviderDeviceID a)
      in if iaProvider a = [] \<or> iaProviderDeviceID a = [] then latest
         else (case gm_get latest key of Some _ \<Rightarrow> latest | None \<Rightarrow> gm_put key a latest))"

definition latestAssignments :: "IngestAssignment list \<Rightarrow> (string, IngestAssignment) gomap" where
  "latestAssignments assignments = fold addLatest assignments []"

record stopEvent =
  seKey :: string
  seReason :: string

text \<open>One running session: stopped for a reason, or kept and taken out of what may be started.\<close>

definition reconcileSession ::
    "string \<times> runningSession \<Rightarrow> 'db Loop \<times> (string, IngestAssignment) gomap \<times> stopEvent list \<Rightarrow>
       'db Loop \<times> (string, IngestAssignment) gomap \<times> stopEvent list" where
  "reconcileSession entry st =
     (let (key, rs) = entry; (l, latest, stops) = st;
          stopped = stopSessionLocked key rs (l\<lparr>lpReject := gm_del key (lpReject l)\<rparr>);
          because = (\<lambda>reason. (stopped, latest, stops @ [\<lparr>seKey = key, seReason = reason\<rparr>]))
      in case gm_get latest key of
           None \<Rightarrow> because ''assignment_missing''
         | Some a \<Rightarrow>
             if \<not> shouldRun a then because (stopReason a)
             else if \<not> sameRuntimeAssignment (rsAssignment rs) a then because ''assignment_updated''
             else (l, gm_del key latest, stops))"

definition reconcileRunning ::
    "(string, IngestAssignment) gomap \<Rightarrow> 'db Loop \<Rightarrow> 'db Loop \<times> (string, IngestAssignment) gomap \<times> stopEvent list" where
  "reconcileRunning latest l = fold reconcileSession (lpRunning l) (l, latest, [])"

text \<open>Whether a key waits after its credential was rejected; a waiting time that is over is forgotten.\<close>

definition coolingDown :: "int \<Rightarrow> string \<Rightarrow> 'db Loop \<Rightarrow> 'db Loop \<times> bool" where
  "coolingDown now key l =
     (case gm_get (lpReject l) key of
        None \<Rightarrow> (l, False)
      | Some until \<Rightarrow> if until > now then (l, True) else (l\<lparr>lpReject := gm_del key (lpReject l)\<rparr>, False))"

definition selectStart :: "int \<Rightarrow> string \<times> IngestAssignment \<Rightarrow> 'db Loop \<times> IngestAssignment list \<Rightarrow> 'db Loop \<times> IngestAssignment list" where
  "selectStart now entry st =
     (let a = snd entry; (l, toStart) = st
      in if \<not> shouldRun a then (l, toStart)
         else
           (let (l', cooling) = coolingDown now (assignmentKey (iaProvider a) (iaProviderDeviceID a)) l
            in (l', if cooling then toStart else toStart @ [a])))"

definition selectStarts :: "int \<Rightarrow> (string, IngestAssignment) gomap \<Rightarrow> 'db Loop \<Rightarrow> 'db Loop \<times> IngestAssignment list" where
  "selectStarts now latest l = fold (selectStart now) latest (l, [])"

text \<open>\<open>listed\<close> is the answer of the store.\<close>

definition reconcileBegin ::
    "(terminationEvent \<Rightarrow> int) \<Rightarrow> string + IngestAssignment list \<Rightarrow> int \<Rightarrow> 'db Loop \<Rightarrow> 'db Loop \<times> string option" where
  "reconcileBegin clock listed now l =
     (let l0 = drainTerminated clock l
      in case listed of
           Inl e \<Rightarrow> (l0, Some e)
         | Inr assignments \<Rightarrow>
             (let (l1, latest, stops) = reconcileRunning (latestAssignments assignments) l0;
                  (l2, toStart) = selectStarts now latest l1
              in (l2\<lparr>lpPhase := Starting toStart\<rparr>, None)))"

section \<open>Starting sessions\<close>

text \<open>The sizes of the pool that starts several sessions: its workers and its queue.\<close>

definition startPool :: "int \<Rightarrow> LoopConfig \<Rightarrow> nat \<Rightarrow> int \<times> int" where
  "startPool procs c n =
     (let w0 = (if lcStartWorkers c \<le> 0 then RecommendedStartWorkers procs 0 else lcStartWorkers c);
          workers = (if w0 > int n then int n else w0);
          q0 = (if lcStartQueueSize c \<le> 0 then RecommendedStartQueueSize procs workers else lcStartQueueSize c);
          q1 = (if q0 > int n then int n else q0)
      in (workers, if q1 \<le> 0 then 1 else q1))"

text \<open>
  The new goroutines start before the session is registered, but the ends they report are handled by
  the goroutine that waits for the starts, so starting and registering are one step. \<open>env\<close> holds the
  outcomes of the calls of the server and what others do there meanwhile.
\<close>

definition newSession :: "IngestAssignment \<Rightarrow> Lease \<Rightarrow> bool \<Rightarrow> session_proc" where
  "newSession a lease cancelled =
     \<lparr>spKey = assignmentKey (iaProvider a) (iaProviderDeviceID a), spToken = Token lease, spAssignment = a,
      spCancelled = cancelled, spDone = None, spDoneSent = False, spHbLease = lease, spHeartbeat = None,
      spHeartbeatSent = False\<rparr>"

definition registerSession :: "IngestAssignment \<Rightarrow> Lease \<Rightarrow> 'db Loop \<Rightarrow> 'db Loop" where
  "registerSession a lease l =
     (let key = assignmentKey (iaProvider a) (iaProviderDeviceID a);
          rs = \<lparr>rsAssignment = a, rsLease = lease\<rparr>;
          l1 = (case gm_get (lpRunning l) key of Some existing \<Rightarrow> stopSessionLocked key existing l | None \<Rightarrow> l)
      in l1\<lparr>lpProcs := newSession a lease (lpCtxDone l) # lpProcs l1, lpRunning := gm_put key rs (lpRunning l1)\<rparr>)"

definition startSession ::
    "Manager \<Rightarrow> 'db valkey \<Rightarrow> client_conv \<Rightarrow> host_env \<Rightarrow> int \<Rightarrow> 'db call_env \<Rightarrow> IngestAssignment \<Rightarrow> 'db Loop \<Rightarrow> 'db Loop" where
  "startSession m vk cl h now env a l =
     (let key = assignmentKey (iaProvider a) (iaProviderDeviceID a); (l1, cooling) = coolingDown now key l
      in if cooling then l1
         else
           (let (l2, token) = nextToken l1
            in case Acquire m vk cl h env \<lparr>Provider = iaProvider a, ProviderDeviceID = iaProviderDeviceID a\<rparr>
                      (lcWorkerID (lpCfg l)) token 0 (lpDb l2) of
                 (db', Inl e) \<Rightarrow> l2\<lparr>lpDb := db'\<rparr>
               | (db', Inr result) \<Rightarrow>
                   if \<not> Acquired result then l2\<lparr>lpDb := db'\<rparr>
                   else registerSession a (ALease result) (l2\<lparr>lpDb := db'\<rparr>)))"

definition reconcileEnd :: "(terminationEvent \<Rightarrow> int) \<Rightarrow> 'db Loop \<Rightarrow> 'db Loop" where
  "reconcileEnd clock l = drainTerminated clock (l\<lparr>lpPhase := Idle\<rparr>)"

section \<open>Goroutines and shutdown\<close>

definition putProc :: "session_proc \<Rightarrow> 'db Loop \<Rightarrow> 'db Loop" where
  "putProc p l = l\<lparr>lpProcs := map (\<lambda>q. if spToken q = spToken p then p else q) (lpProcs l)\<rparr>"

definition termQueueCap :: nat where "termQueueCap = 4096"

text \<open>\<open>emitTermination\<close> blocks while the channel is full and the loop runs; then it sends, or gives up.\<close>

definition emitTermination :: "terminationEvent \<Rightarrow> bool \<Rightarrow> 'db Loop \<Rightarrow> 'db Loop option" where
  "emitTermination evt send l =
     (if send \<and> length (lpTermCh l) < termQueueCap then Some (l\<lparr>lpTermCh := lpTermCh l @ [evt]\<rparr>)
      else if lpRunDone l then Some l else None)"

definition sessionEvent :: "session_proc \<Rightarrow> go_err option \<Rightarrow> terminationEvent" where
  "sessionEvent p err = \<lparr>teKey = spKey p, teToken = spToken p, teSource = ''session'', teErr = err\<rparr>"

definition heartbeatEvent :: "session_proc \<Rightarrow> go_err option \<Rightarrow> terminationEvent" where
  "heartbeatEvent p err = \<lparr>teKey = spKey p, teToken = spToken p, teSource = ''heartbeat'', teErr = err\<rparr>"

definition loopHeartbeatOptions :: HeartbeatOptions where
  "loopHeartbeatOptions = \<lparr>GracefulDrain = True, OptMaxAttempts = 0, StateDuringRenew = []\<rparr>"

text \<open>Cancelling the context of the loop cancels those of its sessions.\<close>

definition cancelAll :: "'db Loop \<Rightarrow> 'db Loop" where
  "cancelAll l = l\<lparr>lpCtxDone := True, lpProcs := map (\<lambda>p. p\<lparr>spCancelled := True\<rparr>) (lpProcs l)\<rparr>"

text \<open>What \<open>stopAll\<close> does before it waits for the goroutines, which changes nothing but the log, and the end of
  \<open>Run\<close>.\<close>

definition stopAll :: "'db Loop \<Rightarrow> 'db Loop" where
  "stopAll l = fold (\<lambda>(key, rs). stopSessionLocked key rs) (lpRunning l) l"

end
