(* ===== verification/Ingest_Runs.thy ===== *)
theory Ingest_Runs
  imports Ingest_Model
begin

text \<open>
  The runs of one ingest worker: the goroutine of the loop, the workers that start sessions, the two
  goroutines of every session and the other clients of the server, in any order of their steps, and
  what holds in every state they reach.
\<close>

section \<open>Steps\<close>

inductive loop_step :: "Manager \<Rightarrow> 'db valkey \<Rightarrow> client_conv \<Rightarrow> host_env \<Rightarrow> 'db Loop \<Rightarrow> 'db Loop \<Rightarrow> bool"
  for m :: Manager and vk :: "'db valkey" and cl :: client_conv and h :: host_env where
  poll: "lpPhase l = Idle \<Longrightarrow> reconcileBegin clock listed now l = (l', err) \<Longrightarrow> loop_step m vk cl h l l'"
| start: "lpPhase l = Starting as \<Longrightarrow> a \<in> set as \<Longrightarrow>
    loop_step m vk cl h l ((startSession m vk cl h now env a l)\<lparr>lpPhase := Starting (remove1 a as)\<rparr>)"
| abandon: "lpPhase l = Starting as \<Longrightarrow> lpCtxDone l \<Longrightarrow> loop_step m vk cl h l (l\<lparr>lpPhase := Starting []\<rparr>)"
| finish: "lpPhase l = Starting [] \<Longrightarrow> loop_step m vk cl h l (reconcileEnd clock l)"
| ended: "lpPhase l = Idle \<Longrightarrow> lpTermCh l = evt # rest \<Longrightarrow>
    loop_step m vk cl h l (drainTerminated clock (handleTerminationEvent now evt (l\<lparr>lpTermCh := rest\<rparr>)))"
| cancel: "loop_step m vk cl h l (cancelAll l)"
| stop: "lpPhase l = Idle \<Longrightarrow> lpCtxDone l \<Longrightarrow>
    loop_step m vk cl h l ((stopAll l)\<lparr>lpPhase := Stopped, lpRunDone := True\<rparr>)"
| session_returns: "p \<in> set (lpProcs l) \<Longrightarrow> spDone p = None \<Longrightarrow>
    loop_step m vk cl h l (putProc (p\<lparr>spDone := Some err\<rparr>) l)"
| session_reports: "p \<in> set (lpProcs l) \<Longrightarrow> spDone p = Some err \<Longrightarrow> \<not> spDoneSent p \<Longrightarrow>
    emitTermination (sessionEvent p err) send l = Some l' \<Longrightarrow>
    loop_step m vk cl h l (putProc (p\<lparr>spDoneSent := True\<rparr>) l')"
| heartbeat_ticks: "p \<in> set (lpProcs l) \<Longrightarrow> spHeartbeat p = None \<Longrightarrow>
    hb_tick m vk cl h loopHeartbeatOptions env1 env2 (spHbLease p) (lpDb l) = (db', Inr lease) \<Longrightarrow>
    loop_step m vk cl h l (putProc (p\<lparr>spHbLease := lease\<rparr>) (l\<lparr>lpDb := db'\<rparr>))"
| heartbeat_fails: "p \<in> set (lpProcs l) \<Longrightarrow> spHeartbeat p = None \<Longrightarrow>
    hb_tick m vk cl h loopHeartbeatOptions env1 env2 (spHbLease p) (lpDb l) = (db', Inl e) \<Longrightarrow>
    loop_step m vk cl h l (putProc (p\<lparr>spHeartbeat := Some (Some (leaseGoErr e))\<rparr>) (l\<lparr>lpDb := db'\<rparr>))"
| heartbeat_drains: "p \<in> set (lpProcs l) \<Longrightarrow> spHeartbeat p = None \<Longrightarrow> spCancelled p \<Longrightarrow>
    hb_cancel m vk cl loopHeartbeatOptions env1 env2 (spHbLease p) (lpDb l) = (db', r) \<Longrightarrow>
    loop_step m vk cl h l (putProc (p\<lparr>spHeartbeat := Some (map_option leaseGoErr r)\<rparr>) (l\<lparr>lpDb := db'\<rparr>))"
| heartbeat_reports: "p \<in> set (lpProcs l) \<Longrightarrow> spHeartbeat p = Some err \<Longrightarrow> \<not> spHeartbeatSent p \<Longrightarrow>
    emitTermination (heartbeatEvent p err) send l = Some l' \<Longrightarrow>
    loop_step m vk cl h l (putProc (p\<lparr>spHeartbeatSent := True\<rparr>) l')"
| others: "loop_step m vk cl h l (l\<lparr>lpDb := db'\<rparr>)"

text \<open>The states a new loop reaches, with the number of steps.\<close>

inductive loop_reaches :: "Manager \<Rightarrow> 'db valkey \<Rightarrow> client_conv \<Rightarrow> host_env \<Rightarrow> nat \<Rightarrow> 'db Loop \<Rightarrow> bool"
  for m :: Manager and vk :: "'db valkey" and cl :: client_conv and h :: host_env where
  new: "NewLoop procs c db = Inr l \<Longrightarrow> loop_reaches m vk cl h 0 l"
| next_step: "loop_reaches m vk cl h n l \<Longrightarrow> loop_step m vk cl h l l' \<Longrightarrow> loop_reaches m vk cl h (Suc n) l'"

section \<open>Tokens\<close>

lemma prefix_before: "prefix p (w @ c # t) \<Longrightarrow> c \<notin> set p \<Longrightarrow> prefix p w"
  by (auto simp: prefix_append prefix_Cons)

lemma digit_char_edge: "d < 36 \<Longrightarrow> digit_char d \<notin> set edge_bytes"
proof -
  assume "d < 36"
  then have "d \<in> set [0..<36]" by simp
  moreover have "list_all (\<lambda>d. digit_char d \<notin> set edge_bytes) [0..<36]" by code_simp
  ultimately show ?thesis unfolding list_all_iff by blast
qed

lemma show_base_nonempty [simp]: "show_base b n \<noteq> []"
  by (subst show_base.simps) auto

lemma minus_in_no_rune: "p \<in> set space_runes \<Longrightarrow> CHR ''-'' \<notin> set p"
  by (auto simp: space_runes_def)

lemma last_rune: "p \<in> set space_runes \<Longrightarrow> last p \<in> set edge_bytes"
  by (auto simp: edge_bytes_def)

lemma trimmed_token:
  assumes "trimmed w" "w \<noteq> []"
  shows "trimmed (w @ ''-'' @ show_base 36 n)"
proof -
  obtain d where d: "d < 36" "last (show_base 36 n) = digit_char d" using last_show_base [of 36 n] by auto
  have "no_prefix space_runes (w @ CHR ''-'' # show_base 36 n)"
    using assms(1) by (auto simp: trimmed_def no_prefix_def dest: prefix_before minus_in_no_rune)
  moreover have "no_prefix (map rev space_runes) (rev (w @ CHR ''-'' # show_base 36 n))"
  proof -
    have "\<not> prefix (rev p) (rev (w @ CHR ''-'' # show_base 36 n))" if p: "p \<in> set space_runes" "p \<noteq> []" for p
    proof
      assume "prefix (rev p) (rev (w @ CHR ''-'' # show_base 36 n))"
      then have "suffix p (w @ CHR ''-'' # show_base 36 n)" by (simp add: suffix_to_prefix)
      then have "last p = digit_char d" using p(2) d(2) by (auto simp: suffix_def dest!: arg_cong [where f = last])
      with last_rune [OF p(1)] digit_char_edge [OF d(1)] show False by simp
    qed
    then show ?thesis by (auto simp: no_prefix_def)
  qed
  ultimately show ?thesis by (simp add: trimmed_def)
qed

lemma Acquire_token:
  assumes "Acquire m vk cl h env ref wid token opt db = (db', Inr a)" "Acquired a" "trimmed token" "token \<noteq> []"
  shows "Token (ALease a) = token"
  using assms
  by (auto simp: Acquire_def parseAcquire_def Let_def TrimSpace_trimmed split: sum.splits prod.splits if_splits)


section \<open>The invariant\<close>

text \<open>
  \<open>queue\<close> holds the ends that are reported and not handled. A session whose context is alive is the
  registered one of its key; a registered session is alive until the loop is cancelled, and when one of
  its goroutines has reported its end, the report waits; a key is never registered while it waits after a
  rejected credential.
\<close>

definition token_of :: "'db Loop \<Rightarrow> nat \<Rightarrow> string" where
  "token_of l k = lpTokenNS l @ show_base 36 k"

definition tokens_inv :: "'db Loop \<Rightarrow> bool" where
  "tokens_inv l \<longleftrightarrow>
     trimmed (lcWorkerID (lpCfg l)) \<and> lcWorkerID (lpCfg l) \<noteq> [] \<and> lpTokenNS l = lcWorkerID (lpCfg l) @ ''-'' \<and>
     (\<forall>p \<in> set (lpProcs l). \<exists>k \<le> unat (lpTokenID l). spToken p = token_of l k) \<and>
     distinct (map spToken (lpProcs l))"

definition registered :: "'db Loop \<Rightarrow> session_proc \<Rightarrow> bool" where
  "registered l p \<longleftrightarrow> (\<exists>rs. gm_get (lpRunning l) (spKey p) = Some rs \<and> Token (rsLease rs) = spToken p)"

definition reported :: "session_proc \<Rightarrow> bool" where
  "reported p \<longleftrightarrow> spDoneSent p \<or> spHeartbeatSent p"

definition names :: "terminationEvent \<Rightarrow> session_proc \<Rightarrow> bool" where
  "names e p \<longleftrightarrow> teKey e = spKey p \<and> teToken e = spToken p"

definition entry_ok :: "terminationEvent list \<Rightarrow> 'db Loop \<Rightarrow> string \<Rightarrow> runningSession \<Rightarrow> bool" where
  "entry_ok queue l key rs \<longleftrightarrow>
     key = assignmentKey (iaProvider (rsAssignment rs)) (iaProviderDeviceID (rsAssignment rs)) \<and>
     (\<exists>p \<in> set (lpProcs l). spKey p = key \<and> spToken p = Token (rsLease rs) \<and> spAssignment p = rsAssignment rs \<and>
        (spCancelled p \<longrightarrow> lpCtxDone l) \<and> (reported p \<longrightarrow> (\<exists>e \<in> set queue. names e p)))"

definition maps_inv :: "terminationEvent list \<Rightarrow> 'db Loop \<Rightarrow> bool" where
  "maps_inv queue l \<longleftrightarrow>
     gm_wf (lpRunning l) \<and> gm_wf (lpReject l) \<and>
     (\<forall>p \<in> set (lpProcs l). \<not> spCancelled p \<longrightarrow> registered l p) \<and>
     gm_all (entry_ok queue l) (lpRunning l) \<and>
     (\<forall>k. gm_get (lpRunning l) k \<noteq> None \<longrightarrow> gm_get (lpReject l) k = None) \<and>
     (lpRunDone l \<longrightarrow> lpRunning l = [])"

definition loop_inv :: "terminationEvent list \<Rightarrow> 'db Loop \<Rightarrow> bool" where
  "loop_inv queue l \<longleftrightarrow> tokens_inv l \<and> maps_inv queue l"

lemmas inv_defs = loop_inv_def tokens_inv_def maps_inv_def token_of_def

text \<open>Fields that a step leaves alone matter neither way.\<close>

lemma loop_inv_cong:
  assumes "loop_inv queue l" "lpCfg l' = lpCfg l" "lpTokenNS l' = lpTokenNS l" "lpTokenID l' = lpTokenID l"
    "lpProcs l' = lpProcs l" "lpRunning l' = lpRunning l" "lpReject l' = lpReject l" "lpCtxDone l' = lpCtxDone l"
    "lpRunDone l' = lpRunDone l"
  shows "loop_inv queue l'"
  using assms by (auto simp: inv_defs registered_def entry_ok_def gm_all_def)

lemma gm_get_Nil_iff: "(\<forall>k. gm_get m k = None) \<longleftrightarrow> m = []"
  by (cases m) (auto simp: gm_get_def split: if_splits)

lemma loop_inv_unique:
  assumes "loop_inv queue l" "p \<in> set (lpProcs l)" "q \<in> set (lpProcs l)" "spToken p = spToken q"
  shows "p = q"
  using assms by (auto simp: inv_defs distinct_map dest: inj_onD)


lemma entryD:
  assumes "loop_inv queue l" "gm_get (lpRunning l) k = Some rs"
  shows "entry_ok queue l k rs"
  using assms by (auto simp: inv_defs dest: gm_allD)

lemma tokens_inv_map:
  assumes inv: "tokens_inv l" and procs: "lpProcs l' = map f (lpProcs l)" and f: "\<And>p. p \<in> set (lpProcs l) \<Longrightarrow> spToken (f p) = spToken p"
    and same: "lpCfg l' = lpCfg l" "lpTokenNS l' = lpTokenNS l" "lpTokenID l' = lpTokenID l"
  shows "tokens_inv l'"
proof -
  have toks: "map spToken (lpProcs l') = map spToken (lpProcs l)" unfolding procs by (simp add: f)
  have "\<exists>k \<le> unat (lpTokenID l'). spToken p = token_of l' k" if "p \<in> set (lpProcs l')" for p
  proof -
    from that obtain q where "q \<in> set (lpProcs l)" "spToken p = spToken q" unfolding procs by (auto simp: f)
    with inv same show ?thesis by (fastforce simp: tokens_inv_def token_of_def)
  qed
  with inv toks same show ?thesis by (auto simp: tokens_inv_def)
qed

lemma unregister_inv:
  assumes inv: "loop_inv queue l" and rs: "gm_get (lpRunning l) key = Some rs"
    and queue: "\<And>e p. e \<in> set queue \<Longrightarrow> p \<in> set (lpProcs l) \<Longrightarrow> names e p \<Longrightarrow> spToken p \<noteq> Token (rsLease rs) \<Longrightarrow>
      \<exists>e' \<in> set queue'. names e' p"
    and R: "gm_wf R" "\<And>k. k \<noteq> key \<Longrightarrow> gm_get R k = gm_get (lpReject l) k"
  shows "loop_inv queue' ((cancelSession (Token (rsLease rs)) l)\<lparr>lpRunning := gm_del key (lpRunning l), lpReject := R\<rparr>)"
    (is "loop_inv _ ?l")
proof -
  let ?T = "Token (rsLease rs)"
  let ?f = "\<lambda>p. if spToken p = ?T then p\<lparr>spCancelled := True\<rparr> else p"
  have procs: "lpProcs ?l = map ?f (lpProcs l)" by (simp add: cancelSession_def)
  have fields: "lpCfg ?l = lpCfg l" "lpTokenNS ?l = lpTokenNS l" "lpTokenID ?l = lpTokenID l" "lpCtxDone ?l = lpCtxDone l"
    "lpRunDone ?l = lpRunDone l" by (simp_all add: cancelSession_def)
  have "tokens_inv l" using inv by (simp add: loop_inv_def)
  then have "tokens_inv ?l" by (rule tokens_inv_map [OF _ procs]) (simp_all add: fields)
  moreover have "gm_all (entry_ok queue' ?l) (lpRunning ?l)"
    unfolding gm_all_def
  proof (intro allI impI)
    fix k rs' assume get: "gm_get (lpRunning ?l) k = Some rs'"
    then have k: "k \<noteq> key" "gm_get (lpRunning l) k = Some rs'" by (simp_all split: if_splits)
    from entryD [OF inv rs] obtain q where q: "q \<in> set (lpProcs l)" "spKey q = key" "spToken q = ?T"
      by (auto simp: entry_ok_def)
    from entryD [OF inv k(2)] obtain p where p: "p \<in> set (lpProcs l)" "spKey p = k" "spToken p = Token (rsLease rs')"
      "spAssignment p = rsAssignment rs'" "spCancelled p \<longrightarrow> lpCtxDone l" "reported p \<longrightarrow> (\<exists>e \<in> set queue. names e p)"
      "k = assignmentKey (iaProvider (rsAssignment rs')) (iaProviderDeviceID (rsAssignment rs'))"
      by (auto simp: entry_ok_def)
    have t: "spToken p \<noteq> ?T" using loop_inv_unique [OF inv p(1) q(1)] p(2) q(2,3) k(1) by auto
    then have "p \<in> set (lpProcs ?l)" using p(1) unfolding procs by force
    moreover have "reported p \<longrightarrow> (\<exists>e \<in> set queue'. names e p)" using p(6) queue [OF _ p(1) _ t] by blast
    ultimately show "entry_ok queue' ?l k rs'" using p(2-5,7) unfolding entry_ok_def fields by blast
  qed
  moreover have "\<forall>p \<in> set (lpProcs ?l). \<not> spCancelled p \<longrightarrow> registered ?l p"
  proof (intro ballI impI)
    fix p' assume "p' \<in> set (lpProcs ?l)" and alive: "\<not> spCancelled p'"
    then have p: "p' \<in> set (lpProcs l)" "spToken p' \<noteq> ?T" unfolding procs by (auto split: if_splits)
    then have "registered l p'" using inv alive by (auto simp: inv_defs)
    with p(2) rs show "registered ?l p'" by (auto simp: registered_def)
  qed
  moreover have "gm_wf (lpRunning ?l)" "gm_wf (lpReject ?l)" using inv R(1) by (simp_all add: inv_defs)
  moreover have "\<forall>k. gm_get (lpRunning ?l) k \<noteq> None \<longrightarrow> gm_get (lpReject ?l) k = None"
    using inv R(2) by (simp add: loop_inv_def maps_inv_def)
  moreover have "lpRunDone ?l \<longrightarrow> lpRunning ?l = []" using inv rs by (auto simp: cancelSession_def loop_inv_def maps_inv_def)
  ultimately show ?thesis by (simp only: loop_inv_def maps_inv_def)
qed

lemma stopSessionLocked_inv:
  assumes "loop_inv queue l" "gm_get (lpRunning l) key = Some rs"
  shows "loop_inv queue (stopSessionLocked key rs l)"
proof -
  have "loop_inv queue ((cancelSession (Token (rsLease rs)) l)\<lparr>lpRunning := gm_del key (lpRunning l), lpReject := lpReject l\<rparr>)"
    using assms by (intro unregister_inv [OF assms]) (auto simp: inv_defs)
  then show ?thesis by (rule loop_inv_cong) (simp_all add: stopSessionLocked_def cancelSession_def)
qed

lemma handleTerminationEvent_inv:
  assumes inv: "loop_inv (evt # queue) l"
  shows "loop_inv queue (handleTerminationEvent now evt l)"
proof (cases "\<exists>rs. gm_get (lpRunning l) (teKey evt) = Some rs \<and> Token (rsLease rs) = teToken evt")
  case True
  then obtain rs where rs: "gm_get (lpRunning l) (teKey evt) = Some rs" "Token (rsLease rs) = teToken evt" by blast
  have un: "loop_inv queue ((cancelSession (Token (rsLease rs)) l)\<lparr>lpRunning := gm_del (teKey evt) (lpRunning l), lpReject := R\<rparr>)"
    if "gm_wf R" "\<And>k. k \<noteq> teKey evt \<Longrightarrow> gm_get R k = gm_get (lpReject l) k" for R
    using that rs by (intro unregister_inv [OF inv rs(1)]) (auto simp: names_def)
  have wf: "gm_wf (lpReject l)" using inv by (simp add: inv_defs)
  have keep: "loop_inv queue l'" if "lpProcs l' = lpProcs (cancelSession (Token (rsLease rs)) l)" "lpCfg l' = lpCfg l"
      "lpTokenNS l' = lpTokenNS l" "lpTokenID l' = lpTokenID l" "lpRunning l' = gm_del (teKey evt) (lpRunning l)"
      "lpReject l' = R" "lpCtxDone l' = lpCtxDone l" "lpRunDone l' = lpRunDone l"
      "gm_wf R" "\<And>k. k \<noteq> teKey evt \<Longrightarrow> gm_get R k = gm_get (lpReject l) k" for l' :: "'a Loop" and R
    using that(1-8) by (intro loop_inv_cong [OF un [OF that(9,10)]]) (simp_all add: cancelSession_def)
  show ?thesis
    using rs wf unfolding handleTerminationEvent_def
    by (auto simp: Let_def cancelSession_def split: option.splits intro: keep)
next
  case False
  then have same: "handleTerminationEvent now evt l = l"
    by (auto simp: handleTerminationEvent_def split: option.splits)
  have "entry_ok queue l k rs" if k: "gm_get (lpRunning l) k = Some rs" for k rs
    using entryD [OF inv k] False k by (auto simp: entry_ok_def names_def)
  with inv show ?thesis unfolding same by (auto simp: inv_defs gm_all_def)
qed

lemma drainTerminated_inv:
  assumes "loop_inv (lpTermCh l) l"
  shows "loop_inv [] (drainTerminated clock l)"
proof -
  have "loop_inv (queue @ rest) l \<Longrightarrow> loop_inv rest (fold (\<lambda>evt. handleTerminationEvent (clock evt) evt) queue l)" for queue rest and l :: "'a Loop"
    by (induction queue arbitrary: l) (auto intro: handleTerminationEvent_inv)
  from this [of "lpTermCh l" "[]" "l\<lparr>lpTermCh := []\<rparr>"] loop_inv_cong [OF assms, of "l\<lparr>lpTermCh := []\<rparr>"]
  show ?thesis by (simp add: drainTerminated_def)
qed


section \<open>Every step keeps it\<close>

lemma reject_del_inv: "loop_inv queue l \<Longrightarrow> loop_inv queue (l\<lparr>lpReject := gm_del k (lpReject l)\<rparr>)"
  by (auto simp: inv_defs registered_def entry_ok_def gm_all_def)

lemma coolingDown_inv: "loop_inv queue l \<Longrightarrow> loop_inv queue (fst (coolingDown now k l))"
  by (auto simp: coolingDown_def reject_del_inv split: option.splits)

lemma coolingDown_fields [simp]:
  "lpRunning (fst (coolingDown now k l)) = lpRunning l" "lpCfg (fst (coolingDown now k l)) = lpCfg l"
  "lpTokenID (fst (coolingDown now k l)) = lpTokenID l" "lpTokenNS (fst (coolingDown now k l)) = lpTokenNS l"
  "lpTermCh (fst (coolingDown now k l)) = lpTermCh l" "lpRunDone (fst (coolingDown now k l)) = lpRunDone l"
  "lpProcs (fst (coolingDown now k l)) = lpProcs l" "lpPhase (fst (coolingDown now k l)) = lpPhase l"
  "lpDb (fst (coolingDown now k l)) = lpDb l" "lpCtxDone (fst (coolingDown now k l)) = lpCtxDone l"
  by (simp_all add: coolingDown_def split: option.splits)

lemma stopSessionLocked_fields [simp]:
  "lpRunning (stopSessionLocked k rs l) = gm_del k (lpRunning l)" "lpReject (stopSessionLocked k rs l) = lpReject l"
  "lpTokenID (stopSessionLocked k rs l) = lpTokenID l" "lpTermCh (stopSessionLocked k rs l) = lpTermCh l"
  "lpRunDone (stopSessionLocked k rs l) = lpRunDone l" "lpPhase (stopSessionLocked k rs l) = lpPhase l"
  "lpDb (stopSessionLocked k rs l) = lpDb l" "lpCtxDone (stopSessionLocked k rs l) = lpCtxDone l"
  "lpCfg (stopSessionLocked k rs l) = lpCfg l"
  by (simp_all add: stopSessionLocked_def cancelSession_def)

definition keeps :: "(string, IngestAssignment) gomap \<Rightarrow> string \<Rightarrow> runningSession \<Rightarrow> bool" where
  "keeps latest k rs \<longleftrightarrow> (\<exists>a. gm_get latest k = Some a \<and> shouldRun a \<and> sameRuntimeAssignment (rsAssignment rs) a)"

definition whyStopped :: "(string, IngestAssignment) gomap \<Rightarrow> string \<Rightarrow> string" where
  "whyStopped latest k =
     (case gm_get latest k of
        None \<Rightarrow> ''assignment_missing''
      | Some a \<Rightarrow> if shouldRun a then ''assignment_updated'' else stopReason a)"

lemma reconcileSession_eq:
  "reconcileSession (k, rs) (l, latest, stops) =
     (if keeps latest k rs then (l, gm_del k latest, stops)
      else (stopSessionLocked k rs (l\<lparr>lpReject := gm_del k (lpReject l)\<rparr>), latest,
            stops @ [\<lparr>seKey = k, seReason = whyStopped latest k\<rparr>]))"
  by (auto simp: reconcileSession_def keeps_def whyStopped_def split: option.splits)

lemma gm_wf_Cons: "gm_wf ((k, v) # m) \<longleftrightarrow> gm_get m k = None \<and> gm_wf m"
  by (auto simp: gm_wf_def gm_get_def map_of_eq_None_iff)

lemma gm_get_Cons [simp]: "gm_get ((k, v) # m) k' = (if k' = k then Some v else gm_get m k')"
  by (simp add: gm_get_def)

lemma reconcile_fold_inv:
  assumes "loop_inv queue l" "gm_wf es" "\<And>k rs. gm_get es k = Some rs \<Longrightarrow> gm_get (lpRunning l) k = Some rs"
  shows "loop_inv queue (fst (fold reconcileSession es (l, latest, stops)))"
  using assms
proof (induction es arbitrary: l latest stops)
  case (Cons e es)
  obtain k rs where e: "e = (k, rs)" by (cases e)
  have wf: "gm_wf es" "gm_get es k = None" and rs: "gm_get (lpRunning l) k = Some rs"
    using Cons.prems(2) Cons.prems(3) [of k] by (simp_all add: e gm_wf_Cons)
  have rest: "k' \<noteq> k" "gm_get (lpRunning l) k' = Some rs'" if "gm_get es k' = Some rs'" for k' rs'
  proof -
    show ne: "k' \<noteq> k" using that wf(2) by auto
    show "gm_get (lpRunning l) k' = Some rs'" using that ne Cons.prems(3) [of k' rs'] by (simp add: e)
  qed
  let ?l = "stopSessionLocked k rs (l\<lparr>lpReject := gm_del k (lpReject l)\<rparr>)"
  have stopped: "loop_inv queue ?l"
    by (rule stopSessionLocked_inv [OF reject_del_inv [OF Cons.prems(1)]]) (simp add: rs)
  show ?case
    using Cons.IH [OF Cons.prems(1) wf(1) rest(2)] Cons.IH [OF stopped wf(1)] rest by (simp add: e reconcileSession_eq)
qed simp

lemma reconcileRunning_inv: "loop_inv queue l \<Longrightarrow> loop_inv queue (fst (reconcileRunning latest l))"
  unfolding reconcileRunning_def by (rule reconcile_fold_inv) (auto simp: inv_defs)

lemma selectStart_inv: "loop_inv queue (fst st) \<Longrightarrow> loop_inv queue (fst (selectStart now e st))"
  by (cases st) (auto simp: selectStart_def case_prod_unfold Let_def coolingDown_inv)

lemma selectStarts_inv: "loop_inv queue l \<Longrightarrow> loop_inv queue (fst (selectStarts now latest l))"
proof -
  have "loop_inv queue (fst st) \<Longrightarrow> loop_inv queue (fst (fold (selectStart now) es st))" for es and st :: "'a Loop \<times> IngestAssignment list"
    by (induction es arbitrary: st) (auto simp: selectStart_inv)
  from this [of "(l, [])"] show "loop_inv queue l \<Longrightarrow> ?thesis" by (simp add: selectStarts_def)
qed

lemma handleTerminationEvent_fields [simp]:
  "lpTermCh (handleTerminationEvent now e l) = lpTermCh l" "lpPhase (handleTerminationEvent now e l) = lpPhase l"
  "lpTokenID (handleTerminationEvent now e l) = lpTokenID l" "lpRunDone (handleTerminationEvent now e l) = lpRunDone l"
  "lpCtxDone (handleTerminationEvent now e l) = lpCtxDone l" "lpDb (handleTerminationEvent now e l) = lpDb l"
  by (auto simp: handleTerminationEvent_def cancelSession_def Let_def split: option.splits)

lemma drainTerminated_fields [simp]:
  "lpTermCh (drainTerminated clock l) = []" "lpPhase (drainTerminated clock l) = lpPhase l"
  "lpTokenID (drainTerminated clock l) = lpTokenID l" "lpRunDone (drainTerminated clock l) = lpRunDone l"
  "lpCtxDone (drainTerminated clock l) = lpCtxDone l" "lpDb (drainTerminated clock l) = lpDb l"
proof -
  have "lpTermCh l' = lpTermCh l \<and> lpPhase l' = lpPhase l \<and> lpTokenID l' = lpTokenID l \<and> lpRunDone l' = lpRunDone l \<and>
      lpCtxDone l' = lpCtxDone l \<and> lpDb l' = lpDb l"
    if "l' = fold (\<lambda>evt. handleTerminationEvent (clock evt) evt) es l" for es and l l' :: "'a Loop"
    using that by (induction es arbitrary: l) auto
  from this [OF refl, of "lpTermCh l" "l\<lparr>lpTermCh := []\<rparr>"]
  show "lpTermCh (drainTerminated clock l) = []" "lpPhase (drainTerminated clock l) = lpPhase l"
    "lpTokenID (drainTerminated clock l) = lpTokenID l" "lpRunDone (drainTerminated clock l) = lpRunDone l"
    "lpCtxDone (drainTerminated clock l) = lpCtxDone l" "lpDb (drainTerminated clock l) = lpDb l"
    by (simp_all add: drainTerminated_def)
qed

lemma selectStarts_fields [simp]:
  "lpRunning (fst (selectStarts now latest l)) = lpRunning l" "lpTermCh (fst (selectStarts now latest l)) = lpTermCh l"
  "lpPhase (fst (selectStarts now latest l)) = lpPhase l" "lpTokenID (fst (selectStarts now latest l)) = lpTokenID l"
  "lpRunDone (fst (selectStarts now latest l)) = lpRunDone l" "lpDb (fst (selectStarts now latest l)) = lpDb l"
  "lpCfg (fst (selectStarts now latest l)) = lpCfg l"
proof -
  have "lpRunning l' = lpRunning (fst st) \<and> lpTermCh l' = lpTermCh (fst st) \<and> lpPhase l' = lpPhase (fst st) \<and>
      lpTokenID l' = lpTokenID (fst st) \<and> lpRunDone l' = lpRunDone (fst st) \<and> lpDb l' = lpDb (fst st) \<and> lpCfg l' = lpCfg (fst st)"
    if "l' = fst (fold (selectStart now) es st)" for es and st :: "'a Loop \<times> IngestAssignment list" and l'
    using that by (induction es arbitrary: st) (auto simp: selectStart_def case_prod_unfold Let_def)
  from this [OF refl, of latest "(l, [])"] show
    "lpRunning (fst (selectStarts now latest l)) = lpRunning l" "lpTermCh (fst (selectStarts now latest l)) = lpTermCh l"
    "lpPhase (fst (selectStarts now latest l)) = lpPhase l" "lpTokenID (fst (selectStarts now latest l)) = lpTokenID l"
    "lpRunDone (fst (selectStarts now latest l)) = lpRunDone l" "lpDb (fst (selectStarts now latest l)) = lpDb l"
    "lpCfg (fst (selectStarts now latest l)) = lpCfg l"
    by (simp_all add: selectStarts_def)
qed


lemma reconcile_fold_fields:
  assumes "st' = fold reconcileSession es st"
  shows "lpTermCh (fst st') = lpTermCh (fst st) \<and> lpPhase (fst st') = lpPhase (fst st) \<and> lpTokenID (fst st') = lpTokenID (fst st) \<and>
    lpRunDone (fst st') = lpRunDone (fst st) \<and> lpDb (fst st') = lpDb (fst st) \<and> lpCfg (fst st') = lpCfg (fst st)"
  using assms
proof (induction es arbitrary: st)
  case (Cons e es)
  obtain k rs l latest stops where e: "e = (k, rs)" "st = (l, latest, stops)" by (metis prod_cases3 surj_pair)
  show ?case using Cons.IH [of "reconcileSession e st"] Cons.prems by (auto simp: e reconcileSession_eq split: if_splits)
qed simp

lemma reconcileRunning_fields [simp]:
  "lpTermCh (fst (reconcileRunning latest l)) = lpTermCh l" "lpPhase (fst (reconcileRunning latest l)) = lpPhase l"
  "lpTokenID (fst (reconcileRunning latest l)) = lpTokenID l" "lpRunDone (fst (reconcileRunning latest l)) = lpRunDone l"
  "lpDb (fst (reconcileRunning latest l)) = lpDb l" "lpCfg (fst (reconcileRunning latest l)) = lpCfg l"
  using reconcile_fold_fields [OF refl, of "lpRunning l" "(l, latest, [])"] by (simp_all add: reconcileRunning_def)

lemma registerNew_inv:
  assumes inv: "loop_inv queue l" and key: "key = assignmentKey (iaProvider a) (iaProviderDeviceID a)"
    and none: "gm_get (lpRunning l) key = None" "gm_get (lpReject l) key = None" "\<not> lpRunDone l"
    and tok: "Token lease = token_of l k" "k \<le> unat (lpTokenID l)" "\<forall>p \<in> set (lpProcs l). spToken p \<noteq> Token lease"
  shows "loop_inv queue (l\<lparr>lpProcs := newSession a lease (lpCtxDone l) # lpProcs l,
    lpRunning := gm_put key \<lparr>rsAssignment = a, rsLease = lease\<rparr> (lpRunning l)\<rparr>)" (is "loop_inv queue ?l")
proof -
  let ?p = "newSession a lease (lpCtxDone l)"
  have p: "spToken ?p = Token lease" "spKey ?p = key" "spAssignment ?p = a" "spCancelled ?p = lpCtxDone l" "\<not> reported ?p"
    by (simp_all add: newSession_def key reported_def)
  have "tokens_inv l" using inv by (simp add: loop_inv_def)
  moreover have "token_of ?l = token_of l" by (simp add: token_of_def fun_eq_iff)
  ultimately have "tokens_inv ?l" using tok p(1) by (auto simp: tokens_inv_def)
  moreover have "\<forall>q \<in> set (lpProcs ?l). \<not> spCancelled q \<longrightarrow> registered ?l q"
    using inv none(1) p(1,2) by (auto simp: loop_inv_def maps_inv_def registered_def)
  moreover have "gm_all (entry_ok queue ?l) (lpRunning ?l)"
    unfolding gm_all_def
  proof (intro allI impI)
    fix k' rs' assume get: "gm_get (lpRunning ?l) k' = Some rs'"
    show "entry_ok queue ?l k' rs'"
    proof (cases "k' = key")
      case True
      with get have "rs' = \<lparr>rsAssignment = a, rsLease = lease\<rparr>" by simp
      then show ?thesis using p key True by (auto simp: entry_ok_def)
    next
      case False
      with get have "gm_get (lpRunning l) k' = Some rs'" by simp
      from entryD [OF inv this] show ?thesis by (auto simp: entry_ok_def)
    qed
  qed
  moreover have "\<forall>k. gm_get (lpRunning ?l) k \<noteq> None \<longrightarrow> gm_get (lpReject ?l) k = None"
    using inv none(2) by (auto simp: loop_inv_def maps_inv_def)
  moreover have "gm_wf (lpRunning ?l)" "gm_wf (lpReject ?l)" "lpRunDone ?l \<longrightarrow> lpRunning ?l = []"
    using inv none(3) by (simp_all add: loop_inv_def maps_inv_def)
  ultimately show ?thesis by (simp only: loop_inv_def maps_inv_def)
qed

lemma stopSessionLocked_procs: "map spToken (lpProcs (stopSessionLocked k rs l)) = map spToken (lpProcs l)"
  by (simp add: stopSessionLocked_def cancelSession_def)

lemma registerSession_inv:
  assumes inv: "loop_inv queue l"
    and "gm_get (lpReject l) (assignmentKey (iaProvider a) (iaProviderDeviceID a)) = None" "\<not> lpRunDone l"
    and tok: "Token lease = token_of l k" "k \<le> unat (lpTokenID l)" "\<forall>p \<in> set (lpProcs l). spToken p \<noteq> Token lease"
  shows "loop_inv queue (registerSession a lease l)"
proof (cases "gm_get (lpRunning l) (assignmentKey (iaProvider a) (iaProviderDeviceID a))")
  case None
  then show ?thesis using registerNew_inv [OF inv refl None assms(2-6)] by (simp add: registerSession_def Let_def)
next
  case (Some rs)
  let ?key = "assignmentKey (iaProvider a) (iaProviderDeviceID a)" and ?s = "stopSessionLocked (assignmentKey (iaProvider a) (iaProviderDeviceID a)) rs l"
  have "\<forall>p \<in> set (lpProcs ?s). spToken p \<noteq> Token lease" using tok(3) arg_cong [OF stopSessionLocked_procs [of ?key rs l], of set] by force
  moreover have "token_of ?s k = token_of l k" by (simp add: token_of_def stopSessionLocked_def cancelSession_def)
  ultimately have "loop_inv queue (?s\<lparr>lpProcs := newSession a lease (lpCtxDone ?s) # lpProcs ?s,
      lpRunning := gm_put ?key \<lparr>rsAssignment = a, rsLease = lease\<rparr> (lpRunning ?s)\<rparr>)"
    using assms(2-5) by (intro registerNew_inv [OF stopSessionLocked_inv [OF inv Some] refl, where k = k]) simp_all
  then show ?thesis using Some by (simp add: registerSession_def Let_def)
qed

lemma startSession_inv:
  assumes inv: "loop_inv queue l" and room: "unat (lpTokenID l) + 1 < 2 ^ 64" and "\<not> lpRunDone l"
  shows "loop_inv queue (startSession m vk cl h now env a l)"
proof -
  let ?key = "assignmentKey (iaProvider a) (iaProviderDeviceID a)"
  let ?l1 = "fst (coolingDown now ?key l)"
  let ?l2 = "fst (nextToken ?l1)" and ?tok = "snd (nextToken ?l1)"
  have inv1: "loop_inv queue ?l1" by (rule coolingDown_inv [OF inv])
  have seq: "unat (lpTokenID l + 1) = unat (lpTokenID l) + 1" using room by (simp add: unat_add_lem [THEN iffD1])
  have l2: "?l2 = ?l1\<lparr>lpTokenID := lpTokenID l + 1\<rparr>" by (simp add: nextToken_def Let_def)
  have tok: "?tok = token_of ?l2 (unat (lpTokenID l) + 1)" by (simp add: nextToken_def Let_def token_of_def seq)
  have inv2: "loop_inv queue ?l2"
  proof -
    have "\<exists>k \<le> unat (lpTokenID ?l2). spToken p = token_of ?l2 k" if "p \<in> set (lpProcs ?l1)" for p
      using inv1 that by (auto simp: inv_defs l2 seq intro: le_SucI dest!: bspec)
    with inv1 show ?thesis by (auto simp: loop_inv_def tokens_inv_def maps_inv_def registered_def entry_ok_def gm_all_def l2)
  qed
  have fresh: "\<forall>p \<in> set (lpProcs ?l2). spToken p \<noteq> ?tok"
    using inv by (fastforce simp: inv_defs tok l2 show_base_inj dest!: bspec)
  have trim: "trimmed ?tok" "?tok \<noteq> []"
    using trimmed_token [of "lcWorkerID (lpCfg l)" "unat (lpTokenID l) + 1"] inv
    by (simp_all add: loop_inv_def tokens_inv_def tok l2 token_of_def)
  have reg: "loop_inv queue (registerSession a (ALease r) (?l2\<lparr>lpDb := db'\<rparr>))"
    if acq: "Acquire m vk cl h env ref wid ?tok 0 db = (db', Inr r)" "Acquired r" and cool: "\<not> snd (coolingDown now ?key l)" for ref wid db db' r
  proof (rule registerSession_inv [where k = "unat (lpTokenID l) + 1"])
    show "loop_inv queue (?l2\<lparr>lpDb := db'\<rparr>)" by (rule loop_inv_cong [OF inv2]) simp_all
    have "gm_get (lpReject ?l1) ?key = None" using cool by (auto simp: coolingDown_def split: option.splits if_splits)
    then show "gm_get (lpReject (?l2\<lparr>lpDb := db'\<rparr>)) ?key = None" by (simp add: l2)
    show "Token (ALease r) = token_of (?l2\<lparr>lpDb := db'\<rparr>) (unat (lpTokenID l) + 1)"
      using Acquire_token [OF acq trim] by (simp add: tok token_of_def)
    show "\<forall>p \<in> set (lpProcs (?l2\<lparr>lpDb := db'\<rparr>)). spToken p \<noteq> Token (ALease r)"
      using fresh Acquire_token [OF acq trim] by simp
  qed (simp_all add: l2 seq assms(3))
  have db: "loop_inv queue (?l2\<lparr>lpDb := db'\<rparr>)" for db' by (rule loop_inv_cong [OF inv2]) simp_all
  show ?thesis
    using inv1 db by (auto simp: startSession_def Let_def case_prod_unfold split: sum.splits intro!: reg prod_eqI)
qed


lemma putProc_inv:
  assumes inv: "loop_inv queue l" and p: "p \<in> set (lpProcs l)"
    and same: "spToken p' = spToken p" "spKey p' = spKey p" "spAssignment p' = spAssignment p" "spCancelled p' = spCancelled p"
    and queue: "set queue \<subseteq> set queue'"
    and rep: "reported p' \<Longrightarrow> reported p \<or> (\<exists>e \<in> set queue'. names e p) \<or> lpRunning l = []"
  shows "loop_inv queue' (putProc p' l)" (is "loop_inv _ ?l")
proof -
  let ?f = "\<lambda>q. if spToken q = spToken p' then p' else q"
  have procs: "lpProcs ?l = map ?f (lpProcs l)" by (simp add: putProc_def)
  have fields: "lpCfg ?l = lpCfg l" "lpTokenNS ?l = lpTokenNS l" "lpTokenID ?l = lpTokenID l" "lpCtxDone ?l = lpCtxDone l"
    "lpRunDone ?l = lpRunDone l" "lpRunning ?l = lpRunning l" "lpReject ?l = lpReject l" by (simp_all add: putProc_def)
  have tok: "tokens_inv l" using inv by (simp add: loop_inv_def)
  have "tokens_inv ?l" by (rule tokens_inv_map [OF tok procs]) (simp_all add: fields)
  moreover have image: "?f q = (if q = p then p' else q)" if "q \<in> set (lpProcs l)" for q
    using loop_inv_unique [OF inv that p] same(1) by auto
  have "\<forall>q \<in> set (lpProcs ?l). \<not> spCancelled q \<longrightarrow> registered ?l q"
  proof (intro ballI impI)
    fix q assume "q \<in> set (lpProcs ?l)" and alive: "\<not> spCancelled q"
    then obtain q0 where q0: "q0 \<in> set (lpProcs l)" "q = (if q0 = p then p' else q0)" unfolding procs using image by auto
    then have "\<not> spCancelled q0" "spKey q = spKey q0" "spToken q = spToken q0" using alive same by (auto split: if_splits)
    with inv q0(1) show "registered ?l q" by (auto simp: loop_inv_def maps_inv_def registered_def fields)
  qed
  moreover have "gm_all (entry_ok queue' ?l) (lpRunning ?l)"
    unfolding gm_all_def fields
  proof (intro allI impI)
    fix k rs assume get: "gm_get (lpRunning l) k = Some rs"
    then have "lpRunning l \<noteq> []" by auto
    from entryD [OF inv get] obtain q where q: "q \<in> set (lpProcs l)" "spKey q = k" "spToken q = Token (rsLease rs)"
      "spAssignment q = rsAssignment rs" "spCancelled q \<longrightarrow> lpCtxDone l" "reported q \<longrightarrow> (\<exists>e \<in> set queue. names e q)"
      "k = assignmentKey (iaProvider (rsAssignment rs)) (iaProviderDeviceID (rsAssignment rs))"
      by (auto simp: entry_ok_def)
    let ?q = "if q = p then p' else q"
    have "?f q \<in> set (lpProcs ?l)" unfolding procs set_map by (rule imageI [OF q(1)])
    then have "?q \<in> set (lpProcs ?l)" by (simp only: image [OF q(1)])
    moreover have "names e ?q = names e q" for e using same by (simp add: names_def)
    moreover have "reported ?q \<longrightarrow> (\<exists>e \<in> set queue'. names e q)"
      using rep q(6) queue \<open>lpRunning l \<noteq> []\<close> by (cases "q = p") auto
    moreover have "spKey ?q = k" "spToken ?q = Token (rsLease rs)" "spAssignment ?q = rsAssignment rs" "spCancelled ?q \<longrightarrow> lpCtxDone l"
      using q(2-5) same by auto
    ultimately show "entry_ok queue' ?l k rs" using q(7) unfolding entry_ok_def fields by blast
  qed
  ultimately show ?thesis using inv unfolding loop_inv_def maps_inv_def fields by blast
qed

lemma serve_inv:
  assumes inv: "loop_inv queue l" and p: "p \<in> set (lpProcs l)"
    and same: "spToken p' = spToken p" "spKey p' = spKey p" "spAssignment p' = spAssignment p" "spCancelled p' = spCancelled p"
      "reported p' = reported p"
  shows "loop_inv queue (putProc p' (l\<lparr>lpDb := db'\<rparr>))"
proof -
  have "loop_inv queue (l\<lparr>lpDb := db'\<rparr>)" by (rule loop_inv_cong [OF inv]) simp_all
  then show ?thesis by (rule putProc_inv [where p = p]) (use p same in simp_all)
qed

lemma emitTermination_cases:
  assumes "emitTermination evt send l = Some l'"
  obtains "l' = l\<lparr>lpTermCh := lpTermCh l @ [evt]\<rparr>" | "l' = l" "lpRunDone l"
  using assms by (auto simp: emitTermination_def split: if_splits)

lemma report_inv:
  assumes inv: "loop_inv (lpTermCh l) l" and p: "p \<in> set (lpProcs l)" and emit: "emitTermination evt send l = Some l'"
    and same: "spToken p' = spToken p" "spKey p' = spKey p" "spAssignment p' = spAssignment p" "spCancelled p' = spCancelled p"
    and evt: "names evt p"
  shows "loop_inv (lpTermCh (putProc p' l')) (putProc p' l')"
  using emit
proof (cases rule: emitTermination_cases)
  case 1
  have "loop_inv (lpTermCh l) l'" by (rule loop_inv_cong [OF inv]) (simp_all add: 1)
  then have "loop_inv (lpTermCh l @ [evt]) (putProc p' l')"
    using same evt p by (intro putProc_inv [where p = p]) (auto simp: 1)
  then show ?thesis by (simp add: 1 putProc_def)
next
  case 2
  then have "lpRunning l = []" using inv by (simp add: loop_inv_def maps_inv_def)
  then have "loop_inv (lpTermCh l) (putProc p' l)"
    using same p by (intro putProc_inv [OF inv, where p = p]) auto
  then show ?thesis by (simp add: 2 putProc_def)
qed

lemma cancelAll_inv: assumes inv: "loop_inv queue l" shows "loop_inv queue (cancelAll l)" (is "loop_inv _ ?l")
proof -
  have tok: "tokens_inv l" using inv by (simp add: loop_inv_def)
  have "tokens_inv ?l" by (rule tokens_inv_map [OF tok, where f = "\<lambda>p. p\<lparr>spCancelled := True\<rparr>"]) (simp_all add: cancelAll_def)
  moreover have "gm_all (entry_ok queue ?l) (lpRunning ?l)"
    unfolding gm_all_def
  proof (intro allI impI)
    fix k rs assume "gm_get (lpRunning ?l) k = Some rs"
    then have "gm_get (lpRunning l) k = Some rs" by (simp add: cancelAll_def)
    from entryD [OF inv this] show "entry_ok queue ?l k rs"
      by (auto simp: entry_ok_def cancelAll_def reported_def names_def)
  qed
  ultimately show ?thesis using inv by (auto simp: loop_inv_def maps_inv_def cancelAll_def)
qed

lemma stopAll_fold:
  assumes "loop_inv queue l" "gm_wf es" "\<And>k rs. gm_get es k = Some rs \<Longrightarrow> gm_get (lpRunning l) k = Some rs"
  shows "loop_inv queue (fold (\<lambda>(key, rs). stopSessionLocked key rs) es l) \<and>
    (\<forall>k. gm_get (lpRunning (fold (\<lambda>(key, rs). stopSessionLocked key rs) es l)) k = (if gm_get es k = None then gm_get (lpRunning l) k else None)) \<and>
    lpTermCh (fold (\<lambda>(key, rs). stopSessionLocked key rs) es l) = lpTermCh l \<and>
    lpTokenID (fold (\<lambda>(key, rs). stopSessionLocked key rs) es l) = lpTokenID l"
  using assms
proof (induction es arbitrary: l)
  case (Cons e es)
  obtain k rs where e: "e = (k, rs)" by (cases e)
  have wf: "gm_wf es" "gm_get es k = None" and rs: "gm_get (lpRunning l) k = Some rs"
    using Cons.prems(2) Cons.prems(3) [of k] by (simp_all add: e gm_wf_Cons)
  have "gm_get (lpRunning (stopSessionLocked k rs l)) k' = Some rs'" if "gm_get es k' = Some rs'" for k' rs'
    using that Cons.prems(3) [of k' rs'] wf(2) by (cases "k' = k") (simp_all add: e)
  from Cons.IH [OF stopSessionLocked_inv [OF Cons.prems(1) rs] wf(1) this] show ?case using wf(2) by (auto simp: e)
qed simp

lemma stopAll_inv:
  assumes "loop_inv queue l"
  shows "loop_inv queue (stopAll l)" "lpRunning (stopAll l) = []" "lpTermCh (stopAll l) = lpTermCh l" "lpTokenID (stopAll l) = lpTokenID l"
proof -
  have "gm_wf (lpRunning l)" using assms by (simp add: loop_inv_def maps_inv_def)
  note f = stopAll_fold [OF assms this]
  show "loop_inv queue (stopAll l)" "lpTermCh (stopAll l) = lpTermCh l" "lpTokenID (stopAll l) = lpTokenID l"
    using f by (simp_all add: stopAll_def)
  have "gm_get (lpRunning (stopAll l)) k = None" for k using f by (simp add: stopAll_def)
  then show "lpRunning (stopAll l) = []" using gm_get_Nil_iff by blast
qed


lemma registerSession_fields [simp]:
  "lpTermCh (registerSession a lease l) = lpTermCh l" "lpRunDone (registerSession a lease l) = lpRunDone l"
  "lpTokenID (registerSession a lease l) = lpTokenID l" "lpCfg (registerSession a lease l) = lpCfg l"
  "lpReject (registerSession a lease l) = lpReject l" "lpDb (registerSession a lease l) = lpDb l"
  "lpPhase (registerSession a lease l) = lpPhase l"
  by (simp_all add: registerSession_def Let_def split: option.splits)

lemma startSession_fields [simp]:
  "lpTermCh (startSession m vk cl h now env a l) = lpTermCh l" "lpRunDone (startSession m vk cl h now env a l) = lpRunDone l"
  "lpCfg (startSession m vk cl h now env a l) = lpCfg l" "lpPhase (startSession m vk cl h now env a l) = lpPhase l"
  by (auto simp: startSession_def nextToken_def Let_def case_prod_unfold split: sum.splits)

lemma startSession_counts: "unat (lpTokenID (startSession m vk cl h now env a l)) \<le> unat (lpTokenID l) + 1"
proof -
  have "unat (lpTokenID l + 1) \<le> unat (lpTokenID l) + 1" by (simp add: unat_word_ariths)
  then show ?thesis by (auto simp: startSession_def nextToken_def Let_def case_prod_unfold split: sum.splits)
qed

text \<open>The whole invariant of a loop between two steps.\<close>

definition state_inv :: "nat \<Rightarrow> 'db Loop \<Rightarrow> bool" where
  "state_inv n l \<longleftrightarrow>
     loop_inv (lpTermCh l) l \<and> unat (lpTokenID l) \<le> n \<and> (lpRunDone l \<longrightarrow> lpPhase l = Stopped)"

lemma reconcileBegin_inv:
  assumes inv: "loop_inv (lpTermCh l) l" and run: "reconcileBegin clock listed now l = (l', err)"
  shows "loop_inv (lpTermCh l') l'" "lpTermCh l' = []" "lpRunDone l' = lpRunDone l" "lpTokenID l' = lpTokenID l"
    "err = None \<or> lpPhase l' = lpPhase l"
proof -
  let ?l0 = "drainTerminated clock l"
  have d: "loop_inv [] ?l0" by (rule drainTerminated_inv [OF inv])
  have "loop_inv (lpTermCh l') l' \<and> lpTermCh l' = [] \<and> lpRunDone l' = lpRunDone l \<and> lpTokenID l' = lpTokenID l \<and>
      (err = None \<or> lpPhase l' = lpPhase l)"
  proof (cases listed)
    case (Inl e)
    with run have "l' = ?l0" by (simp add: reconcileBegin_def Let_def)
    then show ?thesis using d by simp
  next
    case (Inr assignments)
    obtain l1 latest stops where r: "reconcileRunning (latestAssignments assignments) ?l0 = (l1, latest, stops)" by (metis prod_cases3)
    obtain l2 toStart where sel: "selectStarts now latest l1 = (l2, toStart)" by fastforce
    from run Inr r sel have l': "l' = l2\<lparr>lpPhase := Starting toStart\<rparr>" "err = None" by (auto simp: reconcileBegin_def Let_def)
    have "loop_inv [] l2" using selectStarts_inv [OF reconcileRunning_inv [OF d]] r sel by (metis fst_conv)
    moreover have "lpTermCh l2 = []" "lpRunDone l2 = lpRunDone l" "lpTokenID l2 = lpTokenID l"
      using selectStarts_fields [of now latest l1] reconcileRunning_fields [of "latestAssignments assignments" ?l0] by (simp_all add: r sel)
    ultimately show ?thesis using l' loop_inv_cong [of "[]" l2 l'] by simp
  qed
  then show "loop_inv (lpTermCh l') l'" "lpTermCh l' = []" "lpRunDone l' = lpRunDone l" "lpTokenID l' = lpTokenID l"
    "err = None \<or> lpPhase l' = lpPhase l" by blast+
qed

lemma loop_step_inv:
  assumes "loop_step m vk cl h l l'" "state_inv n l" "Suc n < 2 ^ 64"
  shows "state_inv (Suc n) l'"
  using assms
proof (induction rule: loop_step.induct)
  case (poll l clock listed now l' err)
  then show ?case using reconcileBegin_inv [of l clock listed now l' err] by (auto simp: state_inv_def)
next
  case (start l as a now env)
  have "loop_inv (lpTermCh l) (startSession m vk cl h now env a l)"
    using start by (intro startSession_inv) (auto simp: state_inv_def)
  from loop_inv_cong [OF this, of "(startSession m vk cl h now env a l)\<lparr>lpPhase := Starting (remove1 a as)\<rparr>"] start startSession_counts [of m vk cl h now env a l] show ?case by (auto simp: state_inv_def)
next
  case (abandon l as)
  then show ?case using loop_inv_cong [of "lpTermCh l" l "l\<lparr>lpPhase := Starting []\<rparr>"] by (auto simp: state_inv_def)
next
  case (finish l clock)
  then have "loop_inv (lpTermCh (l\<lparr>lpPhase := Idle\<rparr>)) (l\<lparr>lpPhase := Idle\<rparr>)" by (auto simp: state_inv_def intro: loop_inv_cong)
  from drainTerminated_inv [OF this] finish show ?case by (auto simp: state_inv_def reconcileEnd_def)
next
  case (ended l evt rest clock now)
  let ?l = "l\<lparr>lpTermCh := rest\<rparr>" and ?h = "handleTerminationEvent now evt (l\<lparr>lpTermCh := rest\<rparr>)"
  have "loop_inv (evt # rest) ?l" using ended by (auto simp: state_inv_def intro: loop_inv_cong)
  from drainTerminated_inv [of ?h clock] handleTerminationEvent_inv [OF this, of now] ended
  show ?case by (auto simp: state_inv_def)
next
  case (cancel l)
  then show ?case using cancelAll_inv [of "lpTermCh l" l] by (auto simp: state_inv_def cancelAll_def)
next
  case (stop l)
  have i: "loop_inv (lpTermCh l) l" using stop by (simp add: state_inv_def)
  note s = stopAll_inv [OF i]
  from s(1,2) have "loop_inv (lpTermCh l) ((stopAll l)\<lparr>lpPhase := Stopped, lpRunDone := True\<rparr>)"
    by (auto simp: inv_defs registered_def entry_ok_def gm_all_def)
  then show ?case using s(3,4) stop by (auto simp: state_inv_def)
next
  case (session_returns p l err)
  then have "loop_inv (lpTermCh l) (putProc (p\<lparr>spDone := Some err\<rparr>) l)"
    by (intro putProc_inv [where p = p]) (auto simp: state_inv_def reported_def)
  then show ?case using session_returns by (auto simp: state_inv_def putProc_def)
next
  case (session_reports p l err send l')
  then have "loop_inv (lpTermCh (putProc (p\<lparr>spDoneSent := True\<rparr>) l')) (putProc (p\<lparr>spDoneSent := True\<rparr>) l')"
    by (intro report_inv [where p = p]) (auto simp: state_inv_def names_def sessionEvent_def)
  then show ?case using session_reports by (auto simp: state_inv_def putProc_def elim: emitTermination_cases)
next
  case (heartbeat_ticks p l env1 env2 db' lease)
  then have "loop_inv (lpTermCh l) (putProc (p\<lparr>spHbLease := lease\<rparr>) (l\<lparr>lpDb := db'\<rparr>))"
    by (intro serve_inv [where p = p]) (simp_all add: state_inv_def reported_def)
  then show ?case using heartbeat_ticks by (auto simp: state_inv_def putProc_def)
next
  case (heartbeat_fails p l env1 env2 db' e)
  then have "loop_inv (lpTermCh l) (putProc (p\<lparr>spHeartbeat := Some (Some (leaseGoErr e))\<rparr>) (l\<lparr>lpDb := db'\<rparr>))"
    by (intro serve_inv [where p = p]) (simp_all add: state_inv_def reported_def)
  then show ?case using heartbeat_fails by (auto simp: state_inv_def putProc_def)
next
  case (heartbeat_drains p l env1 env2 db' r)
  then have "loop_inv (lpTermCh l) (putProc (p\<lparr>spHeartbeat := Some (map_option leaseGoErr r)\<rparr>) (l\<lparr>lpDb := db'\<rparr>))"
    by (intro serve_inv [where p = p]) (simp_all add: state_inv_def reported_def)
  then show ?case using heartbeat_drains by (auto simp: state_inv_def putProc_def)
next
  case (heartbeat_reports p l err send l')
  then have "loop_inv (lpTermCh (putProc (p\<lparr>spHeartbeatSent := True\<rparr>) l')) (putProc (p\<lparr>spHeartbeatSent := True\<rparr>) l')"
    by (intro report_inv [where p = p]) (auto simp: state_inv_def names_def heartbeatEvent_def)
  then show ?case using heartbeat_reports by (auto simp: state_inv_def putProc_def elim: emitTermination_cases)
next
  case (others l db')
  then show ?case using loop_inv_cong [of "lpTermCh l" l "l\<lparr>lpDb := db'\<rparr>"] by (auto simp: state_inv_def)
qed

lemma loop_reaches_inv:
  assumes "loop_reaches m vk cl h n l" "n < 2 ^ 64"
  shows "state_inv n l"
  using assms
proof (induction rule: loop_reaches.induct)
  case (new procs c db l)
  then show ?case
    by (auto simp: NewLoop_def normalizeLoopConfig_def Let_def state_inv_def inv_defs split: if_splits)
next
  case (next_step n l l')
  then show ?case by (intro loop_step_inv [OF next_step(2)]) auto
qed

end
