(* ===== verification/Ingest_Reconcile.thy ===== *)
theory Ingest_Reconcile
  imports Ingest_Runs
begin

text \<open>
  What one reconciliation of the ingest loop leaves behind, key by key: which sessions it keeps, which
  it stops and which it starts.
\<close>

section \<open>The assignment of a key\<close>

abbreviation keyOf :: "IngestAssignment \<Rightarrow> string" where
  "keyOf a \<equiv> assignmentKey (iaProvider a) (iaProviderDeviceID a)"

text \<open>The reference: the first assignment of the list that has the key once it is sanitized.\<close>

definition wantedAssignment :: "IngestAssignment list \<Rightarrow> string \<Rightarrow> IngestAssignment option" where
  "wantedAssignment assignments k =
     find (\<lambda>a. iaProvider a \<noteq> [] \<and> iaProviderDeviceID a \<noteq> [] \<and> keyOf a = k) (map sanitizeAssignment assignments)"

lemma wantedAssignment_key: "wantedAssignment assignments k = Some a \<Longrightarrow> keyOf a = k"
  by (auto simp: wantedAssignment_def find_Some_iff)

lemma latestAssignments_get: "gm_get (latestAssignments assignments) k = wantedAssignment assignments k"
proof -
  have "gm_get (fold addLatest as m) k = (case gm_get m k of Some a \<Rightarrow> Some a | None \<Rightarrow> wantedAssignment as k)" for as m
    by (induction as arbitrary: m) (auto simp: addLatest_def wantedAssignment_def Let_def split: option.splits)
  from this [of assignments "[]"] show ?thesis by (simp add: latestAssignments_def)
qed

lemma latestAssignments_wf: "gm_wf (latestAssignments assignments)"
proof -
  have "gm_wf m \<Longrightarrow> gm_wf (fold addLatest as m)" for as m
    by (induction as arbitrary: m) (auto simp: addLatest_def Let_def split: option.splits)
  then show ?thesis by (simp add: latestAssignments_def)
qed

section \<open>Running sessions\<close>

text \<open>What the loop over the running sessions does to the entries of one key.\<close>

definition keptAt :: "(string, IngestAssignment) gomap \<Rightarrow> string \<Rightarrow> runningSession option \<Rightarrow> bool" where
  "keptAt latest k e \<longleftrightarrow> (case e of None \<Rightarrow> False | Some rs \<Rightarrow> keeps latest k rs)"

lemma keptAt_simps [simp]: "\<not> keptAt latest k None" "keptAt latest k (Some rs) = keeps latest k rs"
  by (simp_all add: keptAt_def)

lemma reconcile_fold_get:
  assumes "gm_wf es" "gm_wf latest" "\<And>k rs. gm_get es k = Some rs \<Longrightarrow> gm_get (lpRunning l) k = Some rs"
    and "fold reconcileSession es (l, latest, stops) = (l', latest', stops')"
  shows "gm_wf latest' \<and>
    (\<forall>k. gm_get (lpRunning l') k = (if gm_get es k = None \<or> keptAt latest k (gm_get es k) then gm_get (lpRunning l) k else None)) \<and>
    (\<forall>k. gm_get latest' k = (if keptAt latest k (gm_get es k) then None else gm_get latest k)) \<and>
    (\<forall>k. gm_get (lpReject l') k = (if gm_get es k = None \<or> keptAt latest k (gm_get es k) then gm_get (lpReject l) k else None))"
  using assms
proof (induction es arbitrary: l latest stops)
  case Nil
  then show ?case by auto
next
  case (Cons e es)
  obtain k rs where e: "e = (k, rs)" by (cases e)
  have wf: "gm_wf es" "gm_get es k = None" using Cons.prems(1) by (simp_all add: e gm_wf_Cons)
  have rest: "gm_get (lpRunning l) k' = Some rs' \<and> k' \<noteq> k" if "gm_get es k' = Some rs'" for k' rs'
    using that wf(2) Cons.prems(3) [of k' rs'] by (cases "k' = k") (simp_all add: e)
  have other: "keptAt (gm_del k latest) k' (gm_get es k') = keptAt latest k' (gm_get es k')" for k'
    using wf(2) by (cases "k' = k"; cases "gm_get es k'") (simp_all add: keeps_def)
  show ?case
  proof (cases "keeps latest k rs")
    case True
    with Cons.prems(4) have "fold reconcileSession es (l, gm_del k latest, stops) = (l', latest', stops')"
      by (simp add: e reconcileSession_eq)
    from Cons.IH [OF wf(1) _ _ this] Cons.prems(2,3) rest True wf(2) show ?thesis
      by (auto simp: e other)
  next
    case False
    let ?l = "stopSessionLocked k rs (l\<lparr>lpReject := gm_del k (lpReject l)\<rparr>)"
    from Cons.prems(4) False have "fold reconcileSession es (?l, latest, stops @ [\<lparr>seKey = k, seReason = whyStopped latest k\<rparr>]) = (l', latest', stops')"
      by (simp add: e reconcileSession_eq)
    from Cons.IH [OF wf(1) Cons.prems(2) _ this] rest False wf(2) show ?thesis by (auto simp: e)
  qed
qed

lemma reconcileRunning_get:
  assumes "gm_wf (lpRunning l)" "gm_wf latest" "reconcileRunning latest l = (l', latest', stops)"
  shows "gm_wf latest'"
    and "gm_get (lpRunning l') k = (if keptAt latest k (gm_get (lpRunning l) k) then gm_get (lpRunning l) k else None)"
    and "gm_get latest' k = (if keptAt latest k (gm_get (lpRunning l) k) then None else gm_get latest k)"
    and "gm_get (lpReject l') k = (if gm_get (lpRunning l) k = None \<or> keptAt latest k (gm_get (lpRunning l) k) then gm_get (lpReject l) k else None)"
  using reconcile_fold_get [OF assms(1,2), of l "[]" l' latest' stops] assms(3) by (auto simp: reconcileRunning_def keptAt_def)

section \<open>What is to be started\<close>

definition waits :: "int \<Rightarrow> 'db Loop \<Rightarrow> string \<Rightarrow> bool" where
  "waits now l k \<longleftrightarrow> (\<exists>until. gm_get (lpReject l) k = Some until \<and> until > now)"

lemma coolingDown_waits: "snd (coolingDown now k l) = waits now l k"
  by (auto simp: coolingDown_def waits_def split: option.splits)

lemma coolingDown_reject:
  "gm_get (lpReject (fst (coolingDown now k l))) k' = (if k' = k \<and> \<not> waits now l k then None else gm_get (lpReject l) k')"
  by (auto simp: coolingDown_def waits_def split: option.splits)

lemma coolingDown_waits_other: "waits now (fst (coolingDown now k l)) k' = waits now l k'"
  by (auto simp: waits_def coolingDown_reject)

definition startable :: "int \<Rightarrow> 'db Loop \<Rightarrow> IngestAssignment \<Rightarrow> bool" where
  "startable now l a \<longleftrightarrow> shouldRun a \<and> \<not> waits now l (keyOf a)"

lemma selectStart_eq:
  "selectStart now e (l, out) =
     (if shouldRun (snd e) then (fst (coolingDown now (keyOf (snd e)) l), if waits now l (keyOf (snd e)) then out else out @ [snd e])
      else (l, out))"
  by (simp add: selectStart_def Let_def case_prod_unfold coolingDown_waits)

lemma select_fold_get:
  assumes "fold (selectStart now) es (l, out) = (l', out')"
  shows "out' = out @ map snd (filter (\<lambda>e. startable now l (snd e)) es) \<and>
    (\<forall>k. gm_get (lpReject l') k =
       (if (\<exists>e \<in> set es. startable now l (snd e) \<and> keyOf (snd e) = k) then None else gm_get (lpReject l) k))"
  using assms
proof (induction es arbitrary: l out)
  case Nil
  then show ?case by auto
next
  case (Cons e es)
  let ?l = "fst (coolingDown now (keyOf (snd e)) l)"
  have same: "startable now ?l a = startable now l a" for a by (simp add: startable_def coolingDown_waits_other)
  show ?case
  proof (cases "shouldRun (snd e)")
    case False
    then have "fold (selectStart now) es (l, out) = (l', out')" using Cons.prems by (simp add: selectStart_eq)
    from Cons.IH [OF this] False show ?thesis by (simp add: startable_def)
  next
    case True
    then have "fold (selectStart now) es (?l, if waits now l (keyOf (snd e)) then out else out @ [snd e]) = (l', out')"
      using Cons.prems by (simp add: selectStart_eq)
    from Cons.IH [OF this] True show ?thesis
      by (auto simp: same coolingDown_reject) (auto simp: startable_def)
  qed
qed

lemma selectStarts_get:
  assumes "selectStarts now latest l = (l', toStart)"
  shows "toStart = map snd (filter (\<lambda>e. startable now l (snd e)) latest)"
    and "gm_get (lpReject l') k = (if (\<exists>e \<in> set latest. startable now l (snd e) \<and> keyOf (snd e) = k) then None else gm_get (lpReject l) k)"
  using select_fold_get [of now latest l "[]" l' toStart] assms by (simp_all add: selectStarts_def)


section \<open>Starts\<close>

text \<open>Whether the server grants the lease of an assignment to the loop.\<close>

definition granted :: "Manager \<Rightarrow> 'db valkey \<Rightarrow> client_conv \<Rightarrow> host_env \<Rightarrow> 'db call_env \<Rightarrow> IngestAssignment \<Rightarrow> 'db Loop \<Rightarrow> bool" where
  "granted m vk cl h env a l =
     (case Acquire m vk cl h env \<lparr>Provider = iaProvider a, ProviderDeviceID = iaProviderDeviceID a\<rparr>
             (lcWorkerID (lpCfg l)) (snd (nextToken l)) 0 (lpDb l) of
        (_, Inl _) \<Rightarrow> False
      | (_, Inr r) \<Rightarrow> Acquired r)"

lemma nextToken_fields [simp]:
  "lpRunning (fst (nextToken l)) = lpRunning l" "lpReject (fst (nextToken l)) = lpReject l" "lpDb (fst (nextToken l)) = lpDb l"
  "lpCfg (fst (nextToken l)) = lpCfg l"
  by (simp_all add: nextToken_def Let_def)

lemma nextToken_cooling: "snd (nextToken (fst (coolingDown now k l))) = snd (nextToken l)"
  by (simp add: nextToken_def Let_def)

lemma registerSession_running:
  "gm_get (lpRunning (registerSession a lease l)) k =
     (if k = keyOf a then Some \<lparr>rsAssignment = a, rsLease = lease\<rparr> else gm_get (lpRunning l) k)"
  by (auto simp: registerSession_def Let_def split: option.splits)

lemma startSession_granted:
  assumes "\<not> waits now l (keyOf a)" "granted m vk cl h env a l"
  obtains lease where "gm_get (lpRunning (startSession m vk cl h now env a l)) (keyOf a) = Some \<lparr>rsAssignment = a, rsLease = lease\<rparr>"
  using assms
  by (auto simp: startSession_def granted_def Let_def case_prod_unfold coolingDown_waits registerSession_running nextToken_cooling
      split: sum.splits)

lemma startSession_registered:
  assumes "gm_get (lpRunning l) (keyOf a) = None" "gm_get (lpRunning (startSession m vk cl h now env a l)) (keyOf a) = Some rs"
  obtains r where "Acquire m vk cl h env \<lparr>Provider = iaProvider a, ProviderDeviceID = iaProviderDeviceID a\<rparr>
      (lcWorkerID (lpCfg l)) (snd (nextToken l)) 0 (lpDb l) = (lpDb (startSession m vk cl h now env a l), Inr r)" "Acquired r"
    "rs = \<lparr>rsAssignment = a, rsLease = ALease r\<rparr>"
proof -
  let ?A = "Acquire m vk cl h env \<lparr>Provider = iaProvider a, ProviderDeviceID = iaProviderDeviceID a\<rparr>
      (lcWorkerID (lpCfg l)) (snd (nextToken l)) 0 (lpDb l)"
  from assms obtain r where r: "snd ?A = Inr r" "Acquired r" "rs = \<lparr>rsAssignment = a, rsLease = ALease r\<rparr>" "\<not> waits now l (keyOf a)"
    by (auto simp: startSession_def Let_def case_prod_unfold coolingDown_waits nextToken_cooling registerSession_running split: sum.splits if_splits)
  then have "lpDb (startSession m vk cl h now env a l) = fst ?A"
    by (simp add: startSession_def Let_def case_prod_unfold coolingDown_waits nextToken_cooling)
  with r show thesis by (intro that [of r]) (simp_all add: prod_eq_iff)
qed

lemma startSession_refused:
  assumes "waits now l (keyOf a) \<or> \<not> granted m vk cl h env a l"
  shows "lpRunning (startSession m vk cl h now env a l) = lpRunning l"
  using assms
  by (auto simp: startSession_def granted_def Let_def case_prod_unfold coolingDown_waits nextToken_cooling split: sum.splits)

lemma startSession_other:
  "k \<noteq> keyOf a \<Longrightarrow> gm_get (lpRunning (startSession m vk cl h now env a l)) k = gm_get (lpRunning l) k"
  by (auto simp: startSession_def Let_def case_prod_unfold registerSession_running split: sum.splits)

lemma startSession_reject:
  "gm_get (lpReject (startSession m vk cl h now env a l)) k =
     (if k = keyOf a \<and> \<not> waits now l k then None else gm_get (lpReject l) k)"
  by (auto simp: startSession_def Let_def case_prod_unfold coolingDown_reject coolingDown_waits split: sum.splits)

section \<open>A whole reconciliation\<close>

lemma drainTerminated_empty: "lpTermCh l = [] \<Longrightarrow> drainTerminated clock l = l"
  by (simp add: drainTerminated_def)

lemma toStart_facts:
  assumes wf: "gm_wf (lpRunning l0)"
    and r: "reconcileRunning (latestAssignments assignments) l0 = (lr, latest, stops)"
    and sel: "selectStarts now latest lr = (ls, toStart)"
  shows "a \<in> set toStart \<longleftrightarrow> startable now lr a \<and> wantedAssignment assignments (keyOf a) = Some a \<and>
      \<not> keptAt (latestAssignments assignments) (keyOf a) (gm_get (lpRunning l0) (keyOf a))" (is ?start)
    and "distinct (map keyOf toStart)" and "a \<in> set toStart \<Longrightarrow> gm_get (lpReject ls) (keyOf a) = None"
proof -
  note get = reconcileRunning_get [OF wf latestAssignments_wf r] and sel' = selectStarts_get [OF sel]
  have latest: "(k, b) \<in> set latest \<longleftrightarrow> \<not> keptAt (latestAssignments assignments) k (gm_get (lpRunning l0) k) \<and>
      wantedAssignment assignments k = Some b" for k b
    by (simp add: gm_mem_iff [OF get(1)] get(3) latestAssignments_get)
  have keys: "keyOf b = k" if "(k, b) \<in> set latest" for k b using that latest wantedAssignment_key by blast
  have start: "b \<in> set toStart \<longleftrightarrow> (keyOf b, b) \<in> set latest \<and> startable now lr b" for b
    unfolding sel'(1) using keys by force
  then show ?start by (auto simp: latest)
  have "map keyOf toStart = map fst (filter (\<lambda>e. startable now lr (snd e)) latest)"
    unfolding sel'(1) using keys by (auto intro: map_cong)
  then show "distinct (map keyOf toStart)" using get(1) by (simp add: gm_wf_def distinct_map_filter)
  show "gm_get (lpReject ls) (keyOf a) = None" if "a \<in> set toStart"
    using that start [of a] by (auto simp: sel'(2) intro!: bexI [of _ "(keyOf a, a)"])
qed

section \<open>The starts of a reconciliation\<close>

text \<open>
  What happens between the listing of the assignments and the last \<open>drainTerminated\<close> of a reconciliation, while
  \<open>startSessions\<close> waits for its workers: one of them starts the session of an assignment it took up, the dispatch gives
  the rest up when the context is done, and meanwhile sessions and heartbeats return, report and renew, the loop
  may be cancelled and other clients use the server.
\<close>

definition startSessions_step :: "Manager \<Rightarrow> 'db valkey \<Rightarrow> client_conv \<Rightarrow> host_env \<Rightarrow> 'db Loop \<Rightarrow> 'db Loop \<Rightarrow> bool" where
  "startSessions_step m vk cl h l l' \<longleftrightarrow>
     loop_step m vk cl h l l' \<and> (\<exists>as. lpPhase l = Starting as) \<and> (\<exists>as. lpPhase l' = Starting as)"

lemma emitTermination_fields:
  assumes "emitTermination evt send l = Some l'"
  shows "lpPhase l' = lpPhase l \<and> lpRunning l' = lpRunning l \<and> lpReject l' = lpReject l \<and> lpCtxDone l' = lpCtxDone l"
  using assms by (auto simp: emitTermination_def split: if_splits)

lemma startSession_ctx [simp]: "lpCtxDone (startSession m vk cl h now env a l) = lpCtxDone l"
  by (simp add: startSession_def registerSession_def nextToken_def coolingDown_def stopSessionLocked_def cancelSession_def Let_def
      split: sum.splits option.splits prod.splits)

lemma startSessions_stepE:
  assumes "startSessions_step m vk cl h l l'"
  obtains (start) as a now env where "lpPhase l = Starting as" "a \<in> set as"
      "l' = (startSession m vk cl h now env a l)\<lparr>lpPhase := Starting (remove1 a as)\<rparr>"
  | (abandon) as where "lpPhase l = Starting as" "lpCtxDone l" "l' = l\<lparr>lpPhase := Starting []\<rparr>"
  | (meanwhile) "lpPhase l' = lpPhase l" "lpRunning l' = lpRunning l" "lpReject l' = lpReject l" "lpCtxDone l \<longrightarrow> lpCtxDone l'"
proof -
  from assms obtain as where step: "loop_step m vk cl h l l'" and l: "lpPhase l = Starting as" and l': "\<exists>as. lpPhase l' = Starting as"
    by (auto simp: startSessions_step_def)
  from step show thesis
  proof cases
    case (finish clock)
    then show ?thesis using l' by (simp add: reconcileEnd_def)
  next
    case (session_reports p err send l0)
    then show ?thesis using emitTermination_fields [OF session_reports(5)] by (intro meanwhile) (simp_all add: putProc_def)
  next
    case (heartbeat_reports p err send l0)
    then show ?thesis using emitTermination_fields [OF heartbeat_reports(5)] by (intro meanwhile) (simp_all add: putProc_def)
  qed (use l that in \<open>auto simp: putProc_def cancelAll_def\<close>)
qed

text \<open>The server refused to grant a lease to a start on the way from one state to another.\<close>

definition startRefused :: "Manager \<Rightarrow> 'db valkey \<Rightarrow> client_conv \<Rightarrow> host_env \<Rightarrow> IngestAssignment \<Rightarrow> 'db Loop \<Rightarrow> 'db Loop \<Rightarrow> bool" where
  "startRefused m vk cl h a l1 l2 \<longleftrightarrow>
     (\<exists>l as now env. (startSessions_step m vk cl h)\<^sup>*\<^sup>* l1 l \<and> lpPhase l = Starting as \<and> a \<in> set as \<and> \<not> granted m vk cl h env a l \<and>
        (startSessions_step m vk cl h)\<^sup>*\<^sup>* ((startSession m vk cl h now env a l)\<lparr>lpPhase := Starting (remove1 a as)\<rparr>) l2)"

text \<open>What holds throughout, where \<open>toStart\<close> is what the reconciliation wants to start from \<open>l1\<close>.\<close>

definition startStatus ::
    "Manager \<Rightarrow> 'db valkey \<Rightarrow> client_conv \<Rightarrow> host_env \<Rightarrow> 'db Loop \<Rightarrow> IngestAssignment list \<Rightarrow> 'db Loop \<Rightarrow> IngestAssignment \<Rightarrow> bool" where
  "startStatus m vk cl h l1 as l a \<longleftrightarrow>
     (if a \<in> set as then gm_get (lpRunning l) (keyOf a) = None
      else (\<exists>lease. gm_get (lpRunning l) (keyOf a) = Some \<lparr>rsAssignment = a, rsLease = lease\<rparr>) \<or>
           gm_get (lpRunning l) (keyOf a) = None \<and> (lpCtxDone l \<or> startRefused m vk cl h a l1 l))"

definition starts_inv ::
    "Manager \<Rightarrow> 'db valkey \<Rightarrow> client_conv \<Rightarrow> host_env \<Rightarrow> IngestAssignment list \<Rightarrow> 'db Loop \<Rightarrow> IngestAssignment list \<Rightarrow> 'db Loop \<Rightarrow> bool" where
  "starts_inv m vk cl h toStart l1 as l \<longleftrightarrow>
     lpPhase l = Starting as \<and> set as \<subseteq> set toStart \<and> distinct as \<and>
     (\<forall>k. k \<notin> keyOf ` set toStart \<longrightarrow> gm_get (lpRunning l) k = gm_get (lpRunning l1) k) \<and>
     (\<forall>k. gm_get (lpReject l) k = gm_get (lpReject l1) k) \<and>
     (\<forall>a \<in> set toStart. startStatus m vk cl h l1 as l a)"

lemma startRefused_step:
  assumes "startRefused m vk cl h a l1 l" "startSessions_step m vk cl h l l'"
  shows "startRefused m vk cl h a l1 l'"
  using assms unfolding startRefused_def by (meson rtranclp.rtrancl_into_rtrancl)

lemma startStatus_step:
  assumes "startStatus m vk cl h l1 as l a" "startSessions_step m vk cl h l l'" "a \<in> set as' \<longleftrightarrow> a \<in> set as"
    "gm_get (lpRunning l') (keyOf a) = gm_get (lpRunning l) (keyOf a)" "lpCtxDone l \<longrightarrow> lpCtxDone l'"
  shows "startStatus m vk cl h l1 as' l' a"
  using assms startRefused_step [OF _ assms(2)] by (auto simp: startStatus_def)

lemma starts_inv_start:
  assumes inv: "starts_inv m vk cl h toStart l1 as l" and run: "(startSessions_step m vk cl h)\<^sup>*\<^sup>* l1 l"
    and keys: "inj_on keyOf (set toStart)" and free: "\<forall>a \<in> set toStart. gm_get (lpReject l1) (keyOf a) = None"
    and a: "a \<in> set as" and l': "l' = (startSession m vk cl h now env a l)\<lparr>lpPhase := Starting (remove1 a as)\<rparr>"
    and step: "startSessions_step m vk cl h l l'"
  shows "starts_inv m vk cl h toStart l1 (remove1 a as) l'"
proof -
  have as: "lpPhase l = Starting as" "set as \<subseteq> set toStart" "distinct as" and a': "a \<in> set toStart"
    and rej: "gm_get (lpReject l) k = gm_get (lpReject l1) k" for k
    using inv a by (auto simp: starts_inv_def)
  have w: "\<not> waits now l (keyOf a)" using free a' rej by (simp add: waits_def)
  have other: "gm_get (lpRunning l') k = gm_get (lpRunning l) k" if "k \<noteq> keyOf a" for k using that by (simp add: l' startSession_other)
  have "startStatus m vk cl h l1 (remove1 a as) l' b" if b: "b \<in> set toStart" for b
  proof (cases "b = a")
    case False
    then have "keyOf b \<noteq> keyOf a" using keys a' b by (auto dest: inj_onD)
    from other [OF this] show ?thesis
      using inv b False as(3) by (intro startStatus_step [OF _ step, of l1 as]) (auto simp: starts_inv_def l' in_set_remove1)
  next
    case True
    have none: "gm_get (lpRunning l) (keyOf a) = None" using inv a a' by (auto simp: starts_inv_def startStatus_def)
    show ?thesis
    proof (cases "granted m vk cl h env a l")
      case g: True
      from startSession_granted [OF w g] show ?thesis using True as(3) by (auto simp: startStatus_def l')
    next
      case g: False
      then have "startRefused m vk cl h a l1 l'" using run as(1) a unfolding startRefused_def l' by blast
      then show ?thesis using True as(3) none g startSession_refused [of now l a m vk cl h env] by (simp add: startStatus_def l')
    qed
  qed
  moreover have "gm_get (lpReject l') k = gm_get (lpReject l1) k" for k
    using free a' by (simp add: l' startSession_reject rej)
  moreover have "k \<noteq> keyOf a" if "k \<notin> keyOf ` set toStart" for k using that a' by blast
  ultimately show ?thesis using inv as other by (auto simp: starts_inv_def l' dest: notin_set_remove1)
qed

lemma starts_inv_step:
  assumes inv: "starts_inv m vk cl h toStart l1 as l" and run: "(startSessions_step m vk cl h)\<^sup>*\<^sup>* l1 l"
    and keys: "inj_on keyOf (set toStart)" and free: "\<forall>a \<in> set toStart. gm_get (lpReject l1) (keyOf a) = None"
    and step: "startSessions_step m vk cl h l l'"
  shows "\<exists>as'. starts_inv m vk cl h toStart l1 as' l'"
  using step
proof (cases rule: startSessions_stepE)
  case (start bs a now env)
  then have "bs = as" using inv by (simp add: starts_inv_def)
  with starts_inv_start [OF inv run keys free, of a l' now env] start step show ?thesis by blast
next
  case (abandon bs)
  have "startStatus m vk cl h l1 [] l' a" if "a \<in> set toStart" for a
    using inv that abandon startRefused_step [OF _ step] by (auto simp: starts_inv_def startStatus_def split: if_splits)
  then have "starts_inv m vk cl h toStart l1 [] l'" using inv by (simp add: starts_inv_def abandon)
  then show ?thesis by blast
next
  case meanwhile
  have "startStatus m vk cl h l1 as l' a" if "a \<in> set toStart" for a
    using inv that meanwhile by (intro startStatus_step [OF _ step, of _ as]) (auto simp: starts_inv_def)
  then have "starts_inv m vk cl h toStart l1 as l'" using inv by (simp add: starts_inv_def meanwhile)
  then show ?thesis by blast
qed

lemma starts_inv_steps:
  assumes "lpPhase l1 = Starting toStart" "distinct (map keyOf toStart)" "\<forall>a \<in> set toStart. gm_get (lpReject l1) (keyOf a) = None"
    and "\<forall>a \<in> set toStart. gm_get (lpRunning l1) (keyOf a) = None" "(startSessions_step m vk cl h)\<^sup>*\<^sup>* l1 l"
  shows "\<exists>as. starts_inv m vk cl h toStart l1 as l"
  using assms(5)
proof (induction rule: rtranclp_induct)
  case base
  have "starts_inv m vk cl h toStart l1 toStart l1" using assms(1-4) by (auto simp: starts_inv_def startStatus_def distinct_map)
  then show ?case by blast
next
  case (step l l')
  moreover have "inj_on keyOf (set toStart)" using assms(2) by (simp add: distinct_map)
  ultimately show ?case using starts_inv_step assms(3) by blast
qed

section \<open>The whole reconciliation\<close>

text \<open>The last drain ends exactly the sessions of whose goroutines a report waits.\<close>

definition endReported :: "'db Loop \<Rightarrow> string \<Rightarrow> runningSession \<Rightarrow> bool" where
  "endReported l k rs \<longleftrightarrow> (\<exists>e \<in> set (lpTermCh l). teKey e = k \<and> teToken e = Token (rsLease rs))"

lemma drain_get:
  "gm_get (lpRunning (drainTerminated clock l)) k =
     (case gm_get (lpRunning l) k of None \<Rightarrow> None | Some rs \<Rightarrow> if endReported l k rs then None else Some rs)"
proof -
  have step: "gm_get (lpRunning (handleTerminationEvent now e l)) k =
      (case gm_get (lpRunning l) k of None \<Rightarrow> None | Some rs \<Rightarrow> if teKey e = k \<and> teToken e = Token (rsLease rs) then None else Some rs)"
    for now e and l :: "'a Loop"
    by (auto simp: handleTerminationEvent_def cancelSession_def Let_def split: option.splits)
  have "gm_get (lpRunning (fold (\<lambda>evt. handleTerminationEvent (clock evt) evt) es l)) k =
      (case gm_get (lpRunning l) k of None \<Rightarrow> None
       | Some rs \<Rightarrow> if \<exists>e \<in> set es. teKey e = k \<and> teToken e = Token (rsLease rs) then None else Some rs)" for es and l :: "'a Loop"
    by (induction es arbitrary: l) (auto simp: step split: option.splits)
  from this [of "lpTermCh l" "l\<lparr>lpTermCh := []\<rparr>"] show ?thesis by (simp add: drainTerminated_def endReported_def cong: option.case_cong)
qed

lemma reconcileEnd_get:
  "gm_get (lpRunning (reconcileEnd clock l)) k =
     (case gm_get (lpRunning l) k of None \<Rightarrow> None | Some rs \<Rightarrow> if endReported l k rs then None else Some rs)"
  by (auto simp: reconcileEnd_def drain_get endReported_def split: option.split)

lemma drain_waiting:
  assumes "gm_get (lpRunning l) k = None"
  shows "gm_get (lpRunning (drainTerminated clock l)) k = None" "gm_get (lpReject (drainTerminated clock l)) k = gm_get (lpReject l) k"
proof -
  have step: "gm_get (lpRunning (handleTerminationEvent now e l)) k = None \<and>
      gm_get (lpReject (handleTerminationEvent now e l)) k = gm_get (lpReject l) k"
    if "gm_get (lpRunning l) k = None" for now e and l :: "'a Loop"
    using that by (auto simp: handleTerminationEvent_def cancelSession_def Let_def split: option.splits)
  have "gm_get (lpReject (fold (\<lambda>evt. handleTerminationEvent (clock evt) evt) es l)) k = gm_get (lpReject l) k"
    if "gm_get (lpRunning l) k = None" for es and l :: "'a Loop"
    using that by (induction es arbitrary: l) (auto simp: step)
  from this [of "l\<lparr>lpTermCh := []\<rparr>" "lpTermCh l"] assms
  show "gm_get (lpRunning (drainTerminated clock l)) k = None" "gm_get (lpReject (drainTerminated clock l)) k = gm_get (lpReject l) k"
    by (simp_all add: drain_get) (simp add: drainTerminated_def)
qed

text \<open>What a reconciliation whose listing succeeded is about to start, and what it leaves of the rest.\<close>

lemma reconcileBegin_phase:
  assumes "reconcileBegin clock (Inr assignments) now l = (l1, err)"
  obtains toStart where "lpPhase l1 = Starting toStart"
  using assms by (auto simp: reconcileBegin_def case_prod_unfold Let_def)

lemma reconcileBegin_outcome:
  assumes wf: "gm_wf (lpRunning (drainTerminated clock l))" and begun: "reconcileBegin clock (Inr assignments) now l = (l1, err)"
    and phase: "lpPhase l1 = Starting toStart"
  shows "distinct (map keyOf toStart)" "\<forall>a \<in> set toStart. gm_get (lpReject l1) (keyOf a) = None"
    "\<forall>a \<in> set toStart. gm_get (lpRunning l1) (keyOf a) = None"
    "gm_get (lpRunning l1) k = (if keptAt (latestAssignments assignments) k (gm_get (lpRunning (drainTerminated clock l)) k)
        then gm_get (lpRunning (drainTerminated clock l)) k else None)"
    "a \<in> set toStart \<Longrightarrow> shouldRun a \<and> wantedAssignment assignments (keyOf a) = Some a \<and>
       \<not> keptAt (latestAssignments assignments) (keyOf a) (gm_get (lpRunning (drainTerminated clock l)) (keyOf a))"
    "wantedAssignment assignments k = Some a \<Longrightarrow> shouldRun a \<Longrightarrow> \<not> waits now (drainTerminated clock l) k \<Longrightarrow>
       \<not> keptAt (latestAssignments assignments) k (gm_get (lpRunning (drainTerminated clock l)) k) \<Longrightarrow> a \<in> set toStart"
    "gm_get (lpRunning (drainTerminated clock l)) k = None \<Longrightarrow> waits now (drainTerminated clock l) k \<Longrightarrow>
       k \<notin> keyOf ` set toStart \<and> gm_get (lpReject l1) k = gm_get (lpReject (drainTerminated clock l)) k"
proof -
  let ?l0 = "drainTerminated clock l" and ?latest = "latestAssignments assignments"
  obtain lr latest stops where r: "reconcileRunning ?latest ?l0 = (lr, latest, stops)" by (metis prod_cases3)
  obtain ls toStart' where sel': "selectStarts now latest lr = (ls, toStart')" by fastforce
  have l1: "l1 = ls\<lparr>lpPhase := Starting toStart\<rparr>" and sel: "selectStarts now latest lr = (ls, toStart)"
    using begun phase by (auto simp: reconcileBegin_def r sel')
  note get = reconcileRunning_get [OF wf latestAssignments_wf r] and start = toStart_facts [OF wf r sel]
  have running: "lpRunning ls = lpRunning lr" using selectStarts_fields(1) [of now latest lr] by (simp add: sel)
  show "distinct (map keyOf toStart)" by (rule start(2))
  show "\<forall>a \<in> set toStart. gm_get (lpReject l1) (keyOf a) = None" using start(3) by (simp add: l1)
  show "\<forall>a \<in> set toStart. gm_get (lpRunning l1) (keyOf a) = None" using start(1) by (simp add: l1 running get(2))
  show "gm_get (lpRunning l1) k = (if keptAt ?latest k (gm_get (lpRunning ?l0) k) then gm_get (lpRunning ?l0) k else None)"
    by (simp add: l1 running get(2))
  show "shouldRun a \<and> wantedAssignment assignments (keyOf a) = Some a \<and> \<not> keptAt ?latest (keyOf a) (gm_get (lpRunning ?l0) (keyOf a))"
    if "a \<in> set toStart"
    using that start(1) [of a] by (simp add: startable_def)
  show "a \<in> set toStart" if "wantedAssignment assignments k = Some a" "shouldRun a" "\<not> waits now ?l0 k"
    "\<not> keptAt ?latest k (gm_get (lpRunning ?l0) k)"
    using that start(1) [of a] wantedAssignment_key [OF that(1)] by (auto simp: startable_def waits_def get(4) split: if_splits)
  show "k \<notin> keyOf ` set toStart \<and> gm_get (lpReject l1) k = gm_get (lpReject ?l0) k"
    if "gm_get (lpRunning ?l0) k = None" "waits now ?l0 k"
  proof -
    have lr: "gm_get (lpReject lr) k = gm_get (lpReject ?l0) k" using that(1) by (simp add: get(4))
    then have "\<not> startable now lr a" if "keyOf a = k" for a using that \<open>waits now ?l0 k\<close> by (simp add: startable_def waits_def)
    then show ?thesis using start(1) lr by (auto simp: l1 selectStarts_get(2) [OF sel])
  qed
qed

text \<open>What is registered when the starts are over, before the last drain.\<close>

lemma starts_outcome:
  assumes wf: "gm_wf (lpRunning (drainTerminated clock l))" and begun: "reconcileBegin clock (Inr assignments) now l = (l1, err)"
    and run: "(startSessions_step m vk cl h)\<^sup>*\<^sup>* l1 l2" and over: "lpPhase l2 = Starting []"
  shows "gm_get (lpRunning l2) k = Some rs \<Longrightarrow>
      \<exists>a. wantedAssignment assignments k = Some a \<and> shouldRun a \<and> sameRuntimeAssignment (rsAssignment rs) a"
    and "keptAt (latestAssignments assignments) k (gm_get (lpRunning (drainTerminated clock l)) k) \<Longrightarrow>
      gm_get (lpRunning l2) k = gm_get (lpRunning (drainTerminated clock l)) k"
    and "wantedAssignment assignments k = Some a \<Longrightarrow> shouldRun a \<Longrightarrow> \<not> waits now (drainTerminated clock l) k \<Longrightarrow>
      gm_get (lpRunning l2) k = None \<Longrightarrow> lpCtxDone l2 \<or> startRefused m vk cl h a l1 l2"
proof -
  let ?l0 = "drainTerminated clock l" and ?latest = "latestAssignments assignments"
  obtain toStart where phase: "lpPhase l1 = Starting toStart" by (rule reconcileBegin_phase [OF begun])
  note first = reconcileBegin_outcome [OF wf begun phase]
  from starts_inv_steps [OF phase first(1-3) run] over have inv: "starts_inv m vk cl h toStart l1 [] l2" by (auto simp: starts_inv_def)
  have status: "startStatus m vk cl h l1 [] l2 a" if "a \<in> set toStart" for a using inv that by (simp add: starts_inv_def)
  have rest: "gm_get (lpRunning l2) k = gm_get (lpRunning l1) k" if "k \<notin> keyOf ` set toStart" for k
    using inv that by (simp add: starts_inv_def)
  have kept: "gm_get (lpRunning l2) k = gm_get (lpRunning ?l0) k" if "keptAt ?latest k (gm_get (lpRunning ?l0) k)" for k
  proof -
    have "k \<notin> keyOf ` set toStart" using that first(5) by force
    then show ?thesis using rest that first(4) [of k] by simp
  qed
  then show "keptAt ?latest k (gm_get (lpRunning ?l0) k) \<Longrightarrow> gm_get (lpRunning l2) k = gm_get (lpRunning ?l0) k" .
  show "\<exists>a. wantedAssignment assignments k = Some a \<and> shouldRun a \<and> sameRuntimeAssignment (rsAssignment rs) a"
    if rs: "gm_get (lpRunning l2) k = Some rs"
  proof (cases "k \<in> keyOf ` set toStart")
    case True
    then obtain a where a: "a \<in> set toStart" "k = keyOf a" by blast
    then have "rsAssignment rs = a" using status [OF a(1)] rs by (auto simp: startStatus_def)
    with first(5) [OF a(1)] a(2) show ?thesis by (auto simp: sameRuntimeAssignment_def)
  next
    case False
    with rest rs first(4) [of k] show ?thesis by (auto simp: keptAt_def keeps_def latestAssignments_get split: if_splits option.splits)
  qed
  show "lpCtxDone l2 \<or> startRefused m vk cl h a l1 l2"
    if a: "wantedAssignment assignments k = Some a" "shouldRun a" "\<not> waits now ?l0 k" "gm_get (lpRunning l2) k = None"
  proof -
    have "\<not> keptAt ?latest k (gm_get (lpRunning ?l0) k)" using kept a(4) by (cases "gm_get (lpRunning ?l0) k") auto
    from status [OF first(6) [OF a(1-3) this]] a(4) wantedAssignment_key [OF a(1)] show ?thesis by (auto simp: startStatus_def)
  qed
qed

lemma startSession_phase:
  "startSession m vk cl h now env a (l\<lparr>lpPhase := x\<rparr>) = (startSession m vk cl h now env a l)\<lparr>lpPhase := x\<rparr>"
proof -
  have cool: "coolingDown now k (l\<lparr>lpPhase := x\<rparr>) = ((fst (coolingDown now k l))\<lparr>lpPhase := x\<rparr>, snd (coolingDown now k l))" for k
    by (auto simp: coolingDown_def split: option.splits)
  have reg: "registerSession a lease (l\<lparr>lpPhase := x\<rparr>) = (registerSession a lease l)\<lparr>lpPhase := x\<rparr>" for lease and l :: "'a Loop"
    by (auto simp: registerSession_def Let_def stopSessionLocked_def cancelSession_def split: option.splits)
  have tok: "nextToken (l\<lparr>lpPhase := x\<rparr>) = ((fst (nextToken l))\<lparr>lpPhase := x\<rparr>, snd (nextToken l))" for l :: "'a Loop"
    by (simp add: nextToken_def Let_def)
  have db: "l\<lparr>lpPhase := x, lpDb := d\<rparr> = l\<lparr>lpDb := d\<rparr>\<lparr>lpPhase := x\<rparr>" for d and l :: "'a Loop" by simp
  show ?thesis by (simp add: startSession_def Let_def case_prod_unfold cool tok db reg split: sum.splits)
qed

end
