(* ===== verification/Ingest_Properties.thy ===== *)
theory Ingest_Properties
  imports Ingest_Reconcile Lease_Properties
begin

text \<open>
  The properties of the ingest loop. The witnesses run a loop with one assignment on the reference server
  of the leases.
\<close>

section \<open>A sample run\<close>

definition ingest_config :: LoopConfig where
  "ingest_config = (DefaultLoopConfig 4 ''w'')"

definition ingest_assignment :: IngestAssignment where
  "ingest_assignment =
     \<lparr>iaProvider = ''ecoflow'', iaProviderDeviceID = ''SN1'', iaDeviceID = ''dev-1'', iaCredentialID = ''cred-1'',
      iaProductName = [], iaModel = [], iaAccessKey = ''ak'', iaSecretKey = ''sk'', iaCredentialConfig = None,
      iaDeviceIsActive = True, iaCredentialIsActive = True, iaIngestDesiredState = ''active''\<rparr>"

definition ingest_loop :: "ref_db Loop" where
  "ingest_loop = (case NewLoop 4 ingest_config empty_db of Inr l \<Rightarrow> l)"

lemma NewLoop_sample: "NewLoop 4 ingest_config empty_db = Inr ingest_loop"
proof -
  have "TrimSpace ''w'' = ''w''" by code_simp
  then show ?thesis
    by (simp add: ingest_loop_def NewLoop_def normalizeLoopConfig_def ingest_config_def DefaultLoopConfig_def Let_def)
qed

lemma ingest_key: "keyOf ingest_assignment = ''ecoflow|SN1''"
  by code_simp

lemma sample_sanitized: "sanitizeAssignment ingest_assignment = ingest_assignment"
  by code_simp

lemma sample_wanted: "wantedAssignment [ingest_assignment] ''ecoflow|SN1'' = Some ingest_assignment"
  using ingest_key by (simp add: wantedAssignment_def sample_sanitized) (simp add: ingest_assignment_def)

lemma ingest_loop_fields [simp]:
  "lpRunning ingest_loop = []" "lpReject ingest_loop = []" "lpTermCh ingest_loop = []" "lpTokenID ingest_loop = 0"
  "lpTokenNS ingest_loop = ''w-''" "lpProcs ingest_loop = []" "lpPhase ingest_loop = Idle" "lpDb ingest_loop = empty_db"
  "lpCtxDone ingest_loop = False" "lpRunDone ingest_loop = False"
proof -
  have "TrimSpace ''w'' = ''w''" by code_simp
  then show "lpRunning ingest_loop = []" "lpReject ingest_loop = []" "lpTermCh ingest_loop = []" "lpTokenID ingest_loop = 0"
    "lpTokenNS ingest_loop = ''w-''" "lpProcs ingest_loop = []" "lpPhase ingest_loop = Idle" "lpDb ingest_loop = empty_db"
    "lpCtxDone ingest_loop = False" "lpRunDone ingest_loop = False"
    by (simp_all add: ingest_loop_def NewLoop_def normalizeLoopConfig_def ingest_config_def DefaultLoopConfig_def Let_def)
qed

lemma sample_latest: "latestAssignments [ingest_assignment] = [(''ecoflow|SN1'', ingest_assignment)]"
  using ingest_key
  by (simp add: latestAssignments_def addLatest_def Let_def sample_sanitized gm_put_def) (simp add: ingest_assignment_def)

lemma sample_begin:
  "reconcileBegin clock (Inr [ingest_assignment]) now ingest_loop = (ingest_loop\<lparr>lpPhase := Starting [ingest_assignment]\<rparr>, None)"
proof -
  have "shouldRun ingest_assignment" by code_simp
  then show ?thesis
    by (simp add: reconcileBegin_def drainTerminated_empty reconcileRunning_def sample_latest selectStarts_def selectStart_def
        coolingDown_def Let_def)
qed

lemma sample_token: "snd (nextToken ingest_loop) = ''w-1''" "TrimSpace ''w-1'' = ''w-1''"
proof -
  have "show_base 36 1 = ''1''" by code_simp
  then show "snd (nextToken ingest_loop) = ''w-1''" by (simp add: nextToken_def Let_def)
  show "TrimSpace ''w-1'' = ''w-1''" by code_simp
qed

abbreviation ingest_ref :: LeaseRef where
  "ingest_ref \<equiv> \<lparr>Provider = iaProvider ingest_assignment, ProviderDeviceID = iaProviderDeviceID ingest_assignment\<rparr>"

lemma KeysForRef_ingest: "KeysForRef ingest_ref = Inr sample_keys"
  by code_simp

lemma sample_startSession:
  obtains lease db' where "startSession sample_manager ref_server plain_conv sample_host 1 calm_env ingest_assignment ingest_loop =
      registerSession ingest_assignment lease (ingest_loop\<lparr>lpTokenID := 1, lpDb := db'\<rparr>)"
    "Token lease = ''w-1''" "Fence lease = 1"
proof -
  obtain db' r where acq: "Acquire sample_manager ref_server plain_conv sample_host calm_env ingest_ref
      (lcWorkerID (lpCfg ingest_loop)) ''w-1'' 0 empty_db = (db', Inr r)" "Acquired r" "Token (ALease r) = ''w-1''" "Fence (ALease r) = 1"
    using ref_client.Acquire_delivered [OF KeysForRef_ingest _ sample_rep0, of "''w-1''" calm_env 1 0 sample_host "lcWorkerID (lpCfg ingest_loop)"]
    by (auto simp: fence_limit_def sample_token)
  show thesis
    by (rule that [of "ALease r" db'])
      (use acq sample_token(1) in \<open>simp_all add: startSession_def Let_def coolingDown_def nextToken_def\<close>)
qed

text \<open>The states of the first reconciliation: before the start, after it, and at the end.\<close>

definition ingest_starting :: "ref_db Loop" where
  "ingest_starting = ingest_loop\<lparr>lpPhase := Starting [ingest_assignment]\<rparr>"

definition ingest_dispatched :: "ref_db Loop" where
  "ingest_dispatched =
     (startSession sample_manager ref_server plain_conv sample_host 1 calm_env ingest_assignment ingest_starting)\<lparr>lpPhase := Starting []\<rparr>"

definition ingest_started :: "ref_db Loop" where
  "ingest_started = reconcileEnd (\<lambda>_. 1) ingest_dispatched"

lemma ingest_started_eq:
  "ingest_started = (startSession sample_manager ref_server plain_conv sample_host 1 calm_env ingest_assignment ingest_loop)\<lparr>lpPhase := Idle\<rparr>"
  by (simp add: ingest_started_def ingest_dispatched_def ingest_starting_def reconcileEnd_def drainTerminated_empty startSession_phase)

lemma ingest_dispatched_step:
  "startSessions_step sample_manager ref_server plain_conv sample_host ingest_starting ingest_dispatched"
  using start [of ingest_starting "[ingest_assignment]" ingest_assignment]
  by (simp add: startSessions_step_def ingest_starting_def ingest_dispatched_def)

lemma ingest_started_fields:
  obtains lease where "gm_get (lpRunning ingest_started) ''ecoflow|SN1'' = Some \<lparr>rsAssignment = ingest_assignment, rsLease = lease\<rparr>"
    "lpProcs ingest_started = [newSession ingest_assignment lease False]" "lpPhase ingest_started = Idle" "lpTermCh ingest_started = []"
    "lpReject ingest_started = []" "lpCfg ingest_started = lpCfg ingest_loop"
    "lpRunning ingest_started = [(''ecoflow|SN1'', \<lparr>rsAssignment = ingest_assignment, rsLease = lease\<rparr>)]"
proof (rule sample_startSession)
  fix lease db' assume "startSession sample_manager ref_server plain_conv sample_host 1 calm_env ingest_assignment ingest_loop =
      registerSession ingest_assignment lease (ingest_loop\<lparr>lpTokenID := 1, lpDb := db'\<rparr>)"
  then show thesis
    by (intro that [of lease]) (simp_all add: ingest_started_eq registerSession_running ingest_key registerSession_def gm_put_def Let_def)
qed

lemma ingest_started_reached: "loop_reaches sample_manager ref_server plain_conv sample_host 3 ingest_started"
proof -
  have "loop_reaches sample_manager ref_server plain_conv sample_host (Suc 0) ingest_starting"
    using next_step [OF new [OF NewLoop_sample] poll [OF _ sample_begin]] by (simp add: ingest_starting_def)
  then have "loop_reaches sample_manager ref_server plain_conv sample_host (Suc (Suc 0)) ingest_dispatched"
    by (rule next_step) (use ingest_dispatched_step in \<open>simp add: startSessions_step_def\<close>)
  then have "loop_reaches sample_manager ref_server plain_conv sample_host (Suc (Suc (Suc 0))) (reconcileEnd (\<lambda>_. 1) ingest_dispatched)"
    by (rule next_step) (rule finish, simp add: ingest_dispatched_def)
  then show ?thesis by (simp add: ingest_started_def numeral_3_eq_3)
qed

text \<open>The runner of a session returns the rejection of its credential, and the end is reported.\<close>

definition rejected_err :: go_err where
  "rejected_err = \<lparr>geText = ''ecoflow credential rejected'', geCanceled = False, geCredentialRejected = True, geLeaseRejected = None\<rparr>"

definition rejected_proc :: "Lease \<Rightarrow> session_proc" where
  "rejected_proc lease = (newSession ingest_assignment lease False)\<lparr>spDone := Some (Some rejected_err)\<rparr>"

definition rejected_end :: "Lease \<Rightarrow> 'db Loop \<Rightarrow> 'db Loop" where
  "rejected_end lease l =
     putProc ((rejected_proc lease)\<lparr>spDoneSent := True\<rparr>)
       ((putProc (rejected_proc lease) l)\<lparr>lpTermCh := [sessionEvent (rejected_proc lease) (Some rejected_err)]\<rparr>)"

lemma rejected_end_steps:
  assumes "lpProcs l = [newSession ingest_assignment lease False]" "lpTermCh l = []"
  shows "loop_step m vk cl h l (putProc (rejected_proc lease) l)"
    "loop_step m vk cl h (putProc (rejected_proc lease) l) (rejected_end lease l)"
proof -
  show "loop_step m vk cl h l (putProc (rejected_proc lease) l)"
    unfolding rejected_proc_def by (rule session_returns) (simp_all add: assms(1) newSession_def)
  let ?l1 = "putProc (rejected_proc lease) l"
  have "emitTermination (sessionEvent (rejected_proc lease) (Some rejected_err)) True ?l1 =
      Some (?l1\<lparr>lpTermCh := [sessionEvent (rejected_proc lease) (Some rejected_err)]\<rparr>)"
    by (simp add: emitTermination_def putProc_def assms(2) termQueueCap_def)
  from session_reports [OF _ _ _ this] show "loop_step m vk cl h ?l1 (rejected_end lease l)"
    unfolding rejected_end_def by (simp add: putProc_def assms(1) rejected_proc_def newSession_def)
qed

lemma rejected_end_fields [simp]:
  "lpRunning (rejected_end lease l) = lpRunning l" "lpReject (rejected_end lease l) = lpReject l" "lpCfg (rejected_end lease l) = lpCfg l"
  "lpPhase (rejected_end lease l) = lpPhase l" "lpTermCh (rejected_end lease l) = [sessionEvent (rejected_proc lease) (Some rejected_err)]"
  by (simp_all add: rejected_end_def putProc_def)

section \<open>Sessions\<close>

text \<open>C12: In every state a loop reaches, whatever the store lists, the order in which its workers start sessions, the
  moments at which runners and heartbeats end and what other clients do to the leases: a session whose
  context is alive is the registered one of its device, so a device has at most one of them; a registered session is
  alive unless the whole loop is cancelled, and if one of its goroutines has reported its end the report still
  waits in the channel, so no end is missed and none of another session of the device is taken for it.\<close>

theorem one_session_per_device:
  assumes "loop_reaches m vk cl h n l" "n < 2 ^ 64"
  shows "(\<forall>p \<in> set (lpProcs l). \<not> spCancelled p \<longrightarrow>
      (\<exists>rs. gm_get (lpRunning l) (spKey p) = Some rs \<and> Token (rsLease rs) = spToken p \<and> rsAssignment rs = spAssignment p)) \<and>
    (\<forall>p \<in> set (lpProcs l). \<forall>q \<in> set (lpProcs l). \<not> spCancelled p \<longrightarrow> \<not> spCancelled q \<longrightarrow> spKey p = spKey q \<longrightarrow> p = q) \<and>
    (\<forall>k rs. gm_get (lpRunning l) k = Some rs \<longrightarrow>
      (\<exists>p \<in> set (lpProcs l). spKey p = k \<and> spToken p = Token (rsLease rs) \<and> (spCancelled p \<longrightarrow> lpCtxDone l) \<and>
         (spDoneSent p \<or> spHeartbeatSent p \<longrightarrow> (\<exists>e \<in> set (lpTermCh l). teKey e = k \<and> teToken e = spToken p)))) \<and>
    (lpRunDone l \<longrightarrow> (\<forall>p \<in> set (lpProcs l). spCancelled p))"
proof -
  have inv: "loop_inv (lpTermCh l) l" using loop_reaches_inv [OF assms] by (simp add: state_inv_def)
  have alive: "\<exists>rs. gm_get (lpRunning l) (spKey p) = Some rs \<and> Token (rsLease rs) = spToken p \<and> rsAssignment rs = spAssignment p"
    if p: "p \<in> set (lpProcs l)" "\<not> spCancelled p" for p
  proof -
    from inv p obtain rs where rs: "gm_get (lpRunning l) (spKey p) = Some rs" "Token (rsLease rs) = spToken p"
      by (auto simp: loop_inv_def maps_inv_def registered_def)
    from entryD [OF inv rs(1)] obtain q where "q \<in> set (lpProcs l)" "spToken q = spToken p" "spAssignment q = rsAssignment rs"
      using rs(2) by (auto simp: entry_ok_def)
    with loop_inv_unique [OF inv _ p(1), of q] rs show ?thesis by auto
  qed
  moreover have "p = q" if "p \<in> set (lpProcs l)" "q \<in> set (lpProcs l)" "\<not> spCancelled p" "\<not> spCancelled q" "spKey p = spKey q" for p q
    using alive [OF that(1,3)] alive [OF that(2,4)] that(5) loop_inv_unique [OF inv that(1,2)] by auto
  moreover have "\<exists>p \<in> set (lpProcs l). spKey p = k \<and> spToken p = Token (rsLease rs) \<and> (spCancelled p \<longrightarrow> lpCtxDone l) \<and>
      (spDoneSent p \<or> spHeartbeatSent p \<longrightarrow> (\<exists>e \<in> set (lpTermCh l). teKey e = k \<and> teToken e = spToken p))"
    if "gm_get (lpRunning l) k = Some rs" for k rs
    using entryD [OF inv that] unfolding entry_ok_def reported_def names_def by metis
  moreover have "spCancelled p" if "lpRunDone l" "p \<in> set (lpProcs l)" for p
    using alive [OF that(2)] that(1) inv by (auto simp: loop_inv_def maps_inv_def)
  ultimately show ?thesis by blast
qed

theorem one_session_per_device_witness:
  "loop_reaches sample_manager ref_server plain_conv sample_host 3 ingest_started \<and> (3 :: nat) < 2 ^ 64 \<and>
     (\<exists>p \<in> set (lpProcs ingest_started). \<not> spCancelled p \<and> spKey p = ''ecoflow|SN1'' \<and>
        (\<exists>rs. gm_get (lpRunning ingest_started) (spKey p) = Some rs \<and> Token (rsLease rs) = spToken p \<and> rsAssignment rs = spAssignment p))"
proof (rule ingest_started_fields)
  fix lease assume procs: "lpProcs ingest_started = [newSession ingest_assignment lease False]"
  let ?p = "newSession ingest_assignment lease False"
  have p: "?p \<in> set (lpProcs ingest_started)" "\<not> spCancelled ?p" "spKey ?p = ''ecoflow|SN1''"
    using procs ingest_key by (simp_all add: newSession_def)
  have small: "(3 :: nat) < 2 ^ 64" by simp
  from conjunct1 [OF one_session_per_device [OF ingest_started_reached small]] p ingest_started_reached small show ?thesis by blast
qed

text \<open>C14: A session is registered only by the owner of the lease: when \<open>startSession\<close> registers one for a device that had
  none, the server stores the token of the session as the owner of the lease, with the fence of the session, the
  last one granted, whatever attempts failed or lost their reply and whatever other clients did meanwhile.\<close>

theorem session_starts_as_owner:
  assumes "valkey_server vk counter" "reply_reader cl" "manager_ok m"
    and "KeysForRef \<lparr>Provider = iaProvider a, ProviderDeviceID = iaProviderDeviceID a\<rparr> = Inr ks"
    and "env_ok vk counter ks b env" "lease_room vk counter ks (call_cost m 0 b) (lpDb l)"
    and "gm_get (lpRunning l) (keyOf a) = None" "gm_get (lpRunning (startSession m vk cl h now env a l)) (keyOf a) = Some rs"
  shows "\<exists>st. lease_rep vk counter ks (lpDb (startSession m vk cl h now env a l)) st \<and>
    owner st = Some (Token (rsLease rs), Fence (rsLease rs)) \<and> last_fence st = Fence (rsLease rs) \<and> rsAssignment rs = a"
proof (rule startSession_registered [OF assms(7,8)])
  fix r assume r: "Acquire m vk cl h env \<lparr>Provider = iaProvider a, ProviderDeviceID = iaProviderDeviceID a\<rparr>
      (lcWorkerID (lpCfg l)) (snd (nextToken l)) 0 (lpDb l) = (lpDb (startSession m vk cl h now env a l), Inr r)" "Acquired r"
    "rs = \<lparr>rsAssignment = a, rsLease = ALease r\<rparr>"
  have "lease_client vk counter ks cl m" using assms(1-4) by (rule lease_clientI)
  from lease_client.Acquire_sound [OF this assms(4,5), where j = 0, OF _ r(1)] assms(6) r(2,3) show ?thesis by auto
qed

theorem session_starts_as_owner_witness:
  "\<exists>rs st. gm_get (lpRunning (startSession sample_manager ref_server plain_conv sample_host 1 calm_env ingest_assignment ingest_loop)) ''ecoflow|SN1'' = Some rs \<and>
     lease_rep ref_server ref_counter sample_keys
       (lpDb (startSession sample_manager ref_server plain_conv sample_host 1 calm_env ingest_assignment ingest_loop)) st \<and>
     owner st = Some (''w-1'', 1) \<and> Token (rsLease rs) = ''w-1''"
proof (rule sample_startSession)
  fix lease db' assume l: "startSession sample_manager ref_server plain_conv sample_host 1 calm_env ingest_assignment ingest_loop =
      registerSession ingest_assignment lease (ingest_loop\<lparr>lpTokenID := 1, lpDb := db'\<rparr>)" "Token lease = ''w-1''" "Fence lease = 1"
  have room: "lease_room ref_server ref_counter sample_keys (call_cost sample_manager 0 0) (lpDb ingest_loop)"
    by (simp, rule sample_room [OF sample_rep0]) (simp_all add: loop_budget_def)
  have run: "gm_get (lpRunning (startSession sample_manager ref_server plain_conv sample_host 1 calm_env ingest_assignment ingest_loop))
      (keyOf ingest_assignment) = Some \<lparr>rsAssignment = ingest_assignment, rsLease = lease\<rparr>"
    by (simp add: l registerSession_running)
  have free: "gm_get (lpRunning ingest_loop) (keyOf ingest_assignment) = None" by simp
  from session_starts_as_owner [OF sample_laws KeysForRef_ingest env_ok_calm room free run] run l(2,3) ingest_key
  show ?thesis by auto
qed

section \<open>Reconciliations\<close>

text \<open>The pool that starts several sessions has at least one worker and one place, and no more than there are sessions to start.\<close>

lemma startPool_bounds:
  assumes "0 < n" "startPool procs c n = (workers, queueSize)"
  shows "1 \<le> workers" "workers \<le> int n" "1 \<le> queueSize" "queueSize \<le> int n"
proof -
  have "8 \<le> RecommendedStartWorkers procs 0" by (simp add: RecommendedStartWorkers_def Let_def)
  then show "1 \<le> workers" "workers \<le> int n" "1 \<le> queueSize" "queueSize \<le> int n"
    using assms by (auto simp: startPool_def Let_def split: if_splits)
qed

text \<open>C13: What a reconciliation that got its listing leaves behind, whatever happens while its sessions start: the order of the
  starts, ends of sessions and heartbeats reported meanwhile, a cancelled loop, other clients of the server. Every session registered at
  the end belongs to the first listed assignment of its key, which should run, with the same device and credential. A session
  whose assignment has not changed is still the one it was, unless its end was reported before the last drain, and then
  it is gone. A device that should run and does not wait after a rejected credential is without a session at the end
  only because the loop was cancelled, because the server refused the lease to its start, or because the end of its session
  was reported before the last drain.\<close>

theorem reconcile_converges:
  assumes "loop_reaches m vk cl h n l" "n < 2 ^ 64" "reconcileBegin clock (Inr assignments) now l = (l1, None)"
    and "(startSessions_step m vk cl h)\<^sup>*\<^sup>* l1 l2" "lpPhase l2 = Starting []" "l' = reconcileEnd clock' l2"
  shows "(\<forall>k rs. gm_get (lpRunning l') k = Some rs \<longrightarrow>
       (\<exists>a. wantedAssignment assignments k = Some a \<and> shouldRun a \<and> sameRuntimeAssignment (rsAssignment rs) a)) \<and>
    (\<forall>k rs a. gm_get (lpRunning (drainTerminated clock l)) k = Some rs \<longrightarrow> wantedAssignment assignments k = Some a \<longrightarrow> shouldRun a \<longrightarrow>
       sameRuntimeAssignment (rsAssignment rs) a \<longrightarrow>
       gm_get (lpRunning l') k = (if \<exists>e \<in> set (lpTermCh l2). teKey e = k \<and> teToken e = Token (rsLease rs) then None else Some rs)) \<and>
    (\<forall>k a. wantedAssignment assignments k = Some a \<longrightarrow> shouldRun a \<longrightarrow> \<not> waits now (drainTerminated clock l) k \<longrightarrow>
       gm_get (lpRunning l') k = None \<longrightarrow>
       lpCtxDone l2 \<or> startRefused m vk cl h a l1 l2 \<or>
       (\<exists>rs e. gm_get (lpRunning l2) k = Some rs \<and> e \<in> set (lpTermCh l2) \<and> teKey e = k \<and> teToken e = Token (rsLease rs)))"
proof -
  let ?l0 = "drainTerminated clock l"
  have "loop_inv [] ?l0" using drainTerminated_inv [of l clock] loop_reaches_inv [OF assms(1,2)] by (simp add: state_inv_def)
  then have wf: "gm_wf (lpRunning ?l0)" by (simp add: loop_inv_def maps_inv_def)
  note over = starts_outcome [OF wf assms(3-5)] and l' = reconcileEnd_get [of clock' l2, folded assms(6)]
  have "\<exists>a. wantedAssignment assignments k = Some a \<and> shouldRun a \<and> sameRuntimeAssignment (rsAssignment rs) a"
    if "gm_get (lpRunning l') k = Some rs" for k rs
    using that by (intro over(1)) (auto simp: l' split: option.splits if_splits)
  moreover have "gm_get (lpRunning l') k = (if \<exists>e \<in> set (lpTermCh l2). teKey e = k \<and> teToken e = Token (rsLease rs) then None else Some rs)"
    if "gm_get (lpRunning ?l0) k = Some rs" "wantedAssignment assignments k = Some a" "shouldRun a" "sameRuntimeAssignment (rsAssignment rs) a"
    for k rs a
    using that over(2) [of k] by (simp add: l' endReported_def keeps_def latestAssignments_get)
  moreover have "lpCtxDone l2 \<or> startRefused m vk cl h a l1 l2 \<or>
       (\<exists>rs e. gm_get (lpRunning l2) k = Some rs \<and> e \<in> set (lpTermCh l2) \<and> teKey e = k \<and> teToken e = Token (rsLease rs))"
    if "wantedAssignment assignments k = Some a" "shouldRun a" "\<not> waits now ?l0 k" "gm_get (lpRunning l') k = None" for k a
    using that over(3) [OF that(1-3)] by (cases "gm_get (lpRunning l2) k") (auto simp: l' endReported_def split: if_splits)
  ultimately show ?thesis by blast
qed

text \<open>The next reconciliation of the sample when nothing has changed, and when nothing is assigned any more.\<close>

definition ingest_again :: "ref_db Loop" where
  "ingest_again = fst (reconcileBegin (\<lambda>_. 2) (Inr [ingest_assignment]) 2 ingest_started)"

definition ingest_unassigned :: "ref_db Loop" where
  "ingest_unassigned = fst (reconcileBegin (\<lambda>_. 2) (Inr []) 2 ingest_started)"

lemma ingest_again_eq:
  "reconcileBegin (\<lambda>_. 2) (Inr [ingest_assignment]) 2 ingest_started = (ingest_again, None)"
  "ingest_again = ingest_started\<lparr>lpPhase := Starting []\<rparr>"
proof (rule_tac [2] ingest_started_fields)
  show "reconcileBegin (\<lambda>_. 2) (Inr [ingest_assignment]) 2 ingest_started = (ingest_again, None)"
    by (simp add: ingest_again_def reconcileBegin_def case_prod_unfold Let_def)
next
  fix lease assume s: "lpTermCh ingest_started = []"
    "lpRunning ingest_started = [(''ecoflow|SN1'', \<lparr>rsAssignment = ingest_assignment, rsLease = lease\<rparr>)]"
  have "shouldRun ingest_assignment" by code_simp
  moreover have "sameRuntimeAssignment ingest_assignment ingest_assignment" by code_simp
  ultimately show "ingest_again = ingest_started\<lparr>lpPhase := Starting []\<rparr>"
    by (simp add: ingest_again_def reconcileBegin_def drainTerminated_empty [OF s(1)] reconcileRunning_def s(2) reconcileSession_def
        sample_latest selectStarts_def gm_del_def)
qed

lemma ingest_unassigned_eq:
  "reconcileBegin (\<lambda>_. 2) (Inr []) 2 ingest_started = (ingest_unassigned, None)" "lpPhase ingest_unassigned = Starting []"
proof -
  show run: "reconcileBegin (\<lambda>_. 2) (Inr []) 2 ingest_started = (ingest_unassigned, None)"
    by (simp add: ingest_unassigned_def reconcileBegin_def case_prod_unfold Let_def)
  have wf: "gm_wf (lpRunning (drainTerminated clock ingest_started))" for clock
    using drainTerminated_inv [of ingest_started clock] loop_reaches_inv [OF ingest_started_reached] by (simp add: state_inv_def loop_inv_def maps_inv_def)
  obtain toStart where phase: "lpPhase ingest_unassigned = Starting toStart" by (rule reconcileBegin_phase [OF run])
  have "set toStart = {}" using reconcileBegin_outcome(5) [OF wf run phase] by (force simp: wantedAssignment_def)
  then show "lpPhase ingest_unassigned = Starting []" using phase by simp
qed

theorem reconcile_converges_witness:
  "(\<exists>rs. gm_get (lpRunning ingest_started) ''ecoflow|SN1'' = Some rs \<and> sameRuntimeAssignment (rsAssignment rs) ingest_assignment \<and>
      gm_get (lpRunning (reconcileEnd (\<lambda>_. 2) ingest_again)) ''ecoflow|SN1'' = Some rs \<and>
      gm_get (lpRunning (reconcileEnd (\<lambda>_. 2) (rejected_end (rsLease rs) ingest_again))) ''ecoflow|SN1'' = None) \<and>
   (\<forall>k. gm_get (lpRunning (reconcileEnd (\<lambda>_. 2) ingest_unassigned)) k = None)"
proof (rule ingest_started_fields)
  fix lease assume run: "gm_get (lpRunning ingest_started) ''ecoflow|SN1'' = Some \<lparr>rsAssignment = ingest_assignment, rsLease = lease\<rparr>"
    and procs: "lpProcs ingest_started = [newSession ingest_assignment lease False]" and empty: "lpTermCh ingest_started = []"
  let ?steps = "(startSessions_step sample_manager ref_server plain_conv sample_host)\<^sup>*\<^sup>*" and ?gone = "rejected_end lease ingest_again"
  have small: "(0 :: nat) < 2 ^ 64" "(3 :: nat) < 2 ^ 64" by simp_all
  have run': "shouldRun ingest_assignment" "sameRuntimeAssignment ingest_assignment ingest_assignment" by code_simp+
  have idle: "lpPhase ingest_dispatched = Starting []" "lpPhase ingest_again = Starting []" "lpPhase ?gone = Starting []"
    by (simp_all add: ingest_dispatched_def ingest_again_eq(2))
  have first: "?steps ingest_starting ingest_dispatched" using ingest_dispatched_step by blast
  have meanwhile: "?steps ingest_again ?gone"
  proof -
    note e = rejected_end_steps [of ingest_again lease, unfolded ingest_again_eq(2), simplified, OF procs empty, folded ingest_again_eq(2)]
    have "startSessions_step sample_manager ref_server plain_conv sample_host ingest_again (putProc (rejected_proc lease) ingest_again)"
      "startSessions_step sample_manager ref_server plain_conv sample_host (putProc (rejected_proc lease) ingest_again) ?gone"
      using e idle(2,3) by (simp_all add: startSessions_step_def putProc_def)
    then show ?thesis by (meson converse_rtranclp_into_rtranclp r_into_rtranclp)
  qed
  note began = sample_begin [of "\<lambda>_. 1" 1, folded ingest_starting_def]
  have own: "sameRuntimeAssignment (rsAssignment rs) ingest_assignment" if "gm_get (lpRunning ingest_started) ''ecoflow|SN1'' = Some rs" for rs
    using conjunct1 [OF reconcile_converges [OF new [OF NewLoop_sample] small(1) began first idle(1) ingest_started_def], rule_format, OF that]
    by (auto simp: sample_wanted)
  note kept = conjunct1 [OF conjunct2 [OF reconcile_converges [OF ingest_started_reached small(2) ingest_again_eq(1) _ _ refl]], rule_format,
      unfolded drainTerminated_empty [OF empty], OF _ _ run sample_wanted run'(1), simplified, OF _ _ run'(2)]
  have evt: "sessionEvent (rejected_proc lease) err = \<lparr>teKey = ''ecoflow|SN1'', teToken = Token lease, teSource = ''session'', teErr = err\<rparr>" for err
    by (simp add: sessionEvent_def rejected_proc_def newSession_def ingest_key)
  have "gm_get (lpRunning (reconcileEnd (\<lambda>_. 2) ingest_again)) ''ecoflow|SN1'' = Some \<lparr>rsAssignment = ingest_assignment, rsLease = lease\<rparr>"
    using kept [OF _ idle(2)] empty by (simp add: ingest_again_eq(2))
  moreover have "gm_get (lpRunning (reconcileEnd (\<lambda>_. 2) ?gone)) ''ecoflow|SN1'' = None"
    using kept [OF meanwhile idle(3)] by (simp add: evt)
  moreover have "gm_get (lpRunning (reconcileEnd (\<lambda>_. 2) ingest_unassigned)) k = None" for k
    using conjunct1 [OF reconcile_converges [OF ingest_started_reached small(2) ingest_unassigned_eq(1) rtranclp.rtrancl_refl
        ingest_unassigned_eq(2) refl], of "\<lambda>_. 2"] by (cases "gm_get (lpRunning (reconcileEnd (\<lambda>_. 2) ingest_unassigned)) k") (auto simp: wantedAssignment_def)
  ultimately show ?thesis using own [OF run] run by (intro conjI exI [of _ "\<lparr>rsAssignment = ingest_assignment, rsLease = lease\<rparr>"]) simp_all
qed

text \<open>C40: A device that waits after its credential was rejected is started by no reconciliation that takes its time before the end
  of the wait, whatever the store answers and whatever happens while sessions start: replaced credentials do not end the wait,
  although the loop deletes the wait when the assignment of a running session is gone or has changed, because a device that waits
  has no running session; and the wait of a device that is not assigned any more stays in the map.\<close>

theorem cooldown_outlasts_changes:
  assumes "loop_reaches m vk cl h n l" "n < 2 ^ 64" "gm_get (lpReject l) k = Some until" "now < until"
    and "reconcileBegin clock listed now l = (l1, err)"
  shows "gm_get (lpRunning l1) k = None \<and> gm_get (lpReject l1) k = Some until \<and>
    (err = None \<longrightarrow> (\<forall>l2 clock'. (startSessions_step m vk cl h)\<^sup>*\<^sup>* l1 l2 \<longrightarrow>
       gm_get (lpRunning l2) k = None \<and> gm_get (lpReject l2) k = Some until \<and>
       gm_get (lpRunning (reconcileEnd clock' l2)) k = None \<and> gm_get (lpReject (reconcileEnd clock' l2)) k = Some until))"
proof -
  let ?l0 = "drainTerminated clock l"
  have inv: "loop_inv (lpTermCh l) l" using loop_reaches_inv [OF assms(1,2)] by (simp add: state_inv_def)
  then have "gm_get (lpRunning l) k = None" using assms(3) by (auto simp: loop_inv_def maps_inv_def)
  then have d: "gm_get (lpRunning ?l0) k = None" "gm_get (lpReject ?l0) k = Some until" using drain_waiting [of l k clock] assms(3) by auto
  then have w: "waits now ?l0 k" using assms(4) by (simp add: waits_def)
  show ?thesis
  proof (cases listed)
    case (Inl e)
    then have "l1 = ?l0" "err = Some e" using assms(5) by (auto simp: reconcileBegin_def)
    with d show ?thesis by simp
  next
    case (Inr assignments)
    have wf: "gm_wf (lpRunning ?l0)" using drainTerminated_inv [OF inv] by (simp add: loop_inv_def maps_inv_def)
    note begun = assms(5) [unfolded Inr]
    obtain toStart where phase: "lpPhase l1 = Starting toStart" by (rule reconcileBegin_phase [OF begun])
    note first = reconcileBegin_outcome [OF wf begun phase]
    have run1: "gm_get (lpRunning l1) k = None" and k: "k \<notin> keyOf ` set toStart" "gm_get (lpReject l1) k = Some until"
      using first(4) [of k] first(7) [OF d(1) w] d by simp_all
    have "gm_get (lpRunning l2) k = None \<and> gm_get (lpReject l2) k = Some until" if steps: "(startSessions_step m vk cl h)\<^sup>*\<^sup>* l1 l2" for l2
      using starts_inv_steps [OF phase first(1-3) steps] run1 k by (auto simp: starts_inv_def)
    moreover have "gm_get (lpRunning (reconcileEnd clock' l2)) k = None \<and> gm_get (lpReject (reconcileEnd clock' l2)) k = gm_get (lpReject l2) k"
      if "gm_get (lpRunning l2) k = None" for l2 :: "'a Loop" and clock'
      using drain_waiting [of "l2\<lparr>lpPhase := Idle\<rparr>" k clock'] that by (simp add: reconcileEnd_def)
    ultimately show ?thesis using run1 k(2) by simp
  qed
qed

lemma ingest_rejected:
  "\<exists>l. loop_reaches sample_manager ref_server plain_conv sample_host 6 l \<and> gm_get (lpReject l) ''ecoflow|SN1'' = Some (1 + 5 * minute)"
proof (rule ingest_started_fields)
  fix lease assume s: "gm_get (lpRunning ingest_started) ''ecoflow|SN1'' = Some \<lparr>rsAssignment = ingest_assignment, rsLease = lease\<rparr>"
    "lpProcs ingest_started = [newSession ingest_assignment lease False]" "lpPhase ingest_started = Idle" "lpTermCh ingest_started = []"
    "lpReject ingest_started = []" "lpCfg ingest_started = lpCfg ingest_loop"
  let ?evt = "sessionEvent (rejected_proc lease) (Some rejected_err)" and ?l2 = "rejected_end lease ingest_started"
  let ?l3 = "drainTerminated (\<lambda>_. 1) (handleTerminationEvent 1 ?evt (?l2\<lparr>lpTermCh := []\<rparr>))"
  let ?R = "loop_reaches sample_manager ref_server plain_conv sample_host"
  note steps = rejected_end_steps [OF s(2,4), of sample_manager ref_server plain_conv sample_host]
  have "?R (Suc (Suc 3)) ?l2" by (rule next_step [OF next_step [OF ingest_started_reached steps(1)] steps(2)])
  then have "?R (Suc (Suc (Suc 3))) ?l3" by (rule next_step [OF _ ended]) (simp_all add: s(3))
  moreover have "gm_get (lpReject ?l3) ''ecoflow|SN1'' = Some (1 + 5 * minute)"
  proof -
    have "TrimSpace ''w'' = ''w''" by code_simp
    then have cfg: "lcCredentialRejectCooldown (lpCfg ingest_loop) = 5 * minute"
      by (simp add: ingest_loop_def NewLoop_def normalizeLoopConfig_def ingest_config_def DefaultLoopConfig_def positiveOrElse_def
          minute_def second_def Let_def)
    show ?thesis
      by (simp add: drainTerminated_empty handleTerminationEvent_def sessionEvent_def rejected_proc_def cancelSession_def rejected_err_def s
          newSession_def ingest_key Let_def cfg)
  qed
  ultimately show ?thesis by (auto simp: numeral_eq_Suc)
qed

theorem cooldown_outlasts_changes_witness:
  "\<exists>l l1. loop_reaches sample_manager ref_server plain_conv sample_host 6 l \<and> gm_get (lpReject l) ''ecoflow|SN1'' = Some (1 + 5 * minute) \<and>
     reconcileBegin (\<lambda>_. 1) (Inr [ingest_assignment\<lparr>iaCredentialID := ''cred-2'', iaSecretKey := ''new''\<rparr>]) 1 l = (l1, None) \<and>
     gm_get (lpRunning (reconcileEnd (\<lambda>_. 1) l1)) ''ecoflow|SN1'' = None \<and>
     gm_get (lpReject (reconcileEnd (\<lambda>_. 1) l1)) ''ecoflow|SN1'' = Some (1 + 5 * minute)"
proof -
  obtain l where l: "loop_reaches sample_manager ref_server plain_conv sample_host 6 l" "gm_get (lpReject l) ''ecoflow|SN1'' = Some (1 + 5 * minute)"
    using ingest_rejected by blast
  have small: "(6 :: nat) < 2 ^ 64" and early: "(1 :: int) < 1 + 5 * minute" by (simp_all add: minute_def second_def)
  obtain l1 where run: "reconcileBegin (\<lambda>_. 1) (Inr [ingest_assignment\<lparr>iaCredentialID := ''cred-2'', iaSecretKey := ''new''\<rparr>]) 1 l = (l1, None)"
    by (simp add: reconcileBegin_def case_prod_unfold Let_def)
  from cooldown_outlasts_changes [OF l(1) small l(2) early run] l run show ?thesis by blast
qed

end
