(* ===== verification/Spec2Isabelle.thy ===== *)
theory Spec2Isabelle
  imports Lease_Properties Cp_Queries Ble_Properties Gap_Properties Archive_Properties Replay_Properties
    Projection_Properties Repair_Loop Rollup_Properties Ingest_Properties
begin

text \<open>
  A verification development for EcoFlow Pulse, a platform that collects the telemetry of power stations, archives it,
  projects it into live snapshots, rolls it up into history and repairs the gaps. The paths below are relative to the
  repository. This theory imports the others and proves nothing itself; the properties are in the theories whose names
  end in \<open>_Properties\<close>, in \<open>Lease_Scripts\<close> and in \<open>Repair_Loop\<close>, each after a text with its number.

  \<^bold>\<open>The program.\<close> Ingest workers hold a lease in Valkey for each provider device (\<open>internal/ingestlease\<close>); the devices, the
  credentials and the edge collectors are rows of the control plane (\<open>internal/controlplane\<close>). An ingest worker publishes
  envelopes on NATS subjects by shard (\<open>internal/telemetrybus/subjects.go\<close>, \<open>internal/envelopededup\<close>). Three consumers read
  them. The archive worker (\<open>internal/archiveworker\<close>) collects them in segments and writes objects and their manifests, from
  which a replay (\<open>internal/replaycli\<close>) publishes them again. The projection worker (\<open>internal/projectionworker\<close>) merges them
  into a snapshot of each device. The rollup worker (\<open>internal/rollupworker\<close>) adds them to rows by minute, hour and day, which
  \<open>internal/rolluprebuild\<close> can compute again from the archive. The gap detector (\<open>internal/gaprepair\<close>) compares what the
  archive covers with what the projection has seen and asks a worker for a replay. Beside this, \<open>cmd/ecoflow-ble-discover\<close>
  talks to devices over Bluetooth.

  \<^bold>\<open>Shared theories.\<close> \<open>Go_Prelude\<close> has the parts of Go the sources use: trimming, case mapping of ASCII letters, decimal numbers,
  maps as association lists in which the order of the list is the order in which a loop meets the entries, sorting with a
  comparison (locale \<open>comparator\<close>), and reachable states (locale \<open>invariant_system\<close>). \<open>Go_Time\<close> has durations, instants and the
  calendar, \<open>Go_Varint\<close> variable-length integers, \<open>Envelope\<close> the telemetry envelope and its key, \<open>Current_Telemetry\<close>
  (\<open>internal/currenttelemetry\<close>) floating-point numbers with their rounding as an argument and the metrics of a payload.

  \<^bold>\<open>Ingest leases.\<close> \<open>Lease_Keys\<close> models \<open>keys.go\<close>, \<open>Lease_Scripts\<close> the Lua scripts of \<open>scripts.go\<close> over any server with the laws of
  the locale \<open>valkey_server\<close>, and \<open>Lease_Manager\<close> the manager of \<open>manager.go\<close> with its retries and its heartbeat, over any client
  library with the laws of \<open>reply_reader\<close>. The scripts refine abstract operations on a lease; fences strictly increase in every
  run (locale \<open>lease_group\<close>); the manager owns what it reports (locale \<open>lease_client\<close>, \<open>Lease_Properties\<close>). A reference server
  and a plain client interpret the locales.

  \<^bold>\<open>Ingest loop.\<close> \<open>Ingest_Model\<close> models \<open>internal/ingestworker/loop.go\<close>: the loop as a record with the running sessions, the waits after
  rejected credentials and the channel of ends, one definition for each function, and the goroutines of the sessions as a list.
  \<open>Ingest_Runs\<close> lets the loop, the starts, the runners, the heartbeats and other clients of the leases take steps in any order; the
  server is the one of the leases. A reconciliation is a sequence of such steps: its listing, the starts with whatever happens
  meanwhile, among it a cancellation, and the last drain. \<open>Ingest_Reconcile\<close> shows what it does to each key, \<open>Ingest_Properties\<close> that a device
  has one live session, registered under a lease it owned when it started, and that reconciliations follow the assignments.

  \<^bold>\<open>Control plane.\<close> \<open>Cp_Types\<close> has the rows of \<open>store.go\<close> and the helpers of \<open>keys.go\<close>; \<open>Cp_Users\<close>, \<open>Cp_Credentials\<close>,
  \<open>Cp_Devices\<close>, \<open>Cp_Edge\<close> and \<open>Cp_Admin\<close> have the operations of \<open>store_memory.go\<close> on one record of tables. Each operation holds
  the lock, so a run is a sequence of operations (\<open>Cp_Store\<close>). \<open>Cp_Invariant\<close> states what every table owes the others; the
  lemmas show that every operation keeps it, that one credential of a user and provider is active, who may change roles, and that
  a setup token enrols once (\<open>Cp_Properties\<close>, \<open>Cp_Queries\<close>).

  \<^bold>\<open>Bluetooth.\<close> \<open>Ble_Bytes\<close> has slices, where a read outside is \<open>None\<close>, and the checksums (locale \<open>checksum\<close>, interpreted for eight
  and sixteen bits); \<open>Ble_Frames\<close> models \<open>ecoflow_frames.go\<close>, \<open>Ble_Crypto\<close>, \<open>Ble_Curve\<close> and \<open>Ble_Session\<close> model
  \<open>ecoflow_active.go\<close>, and \<open>Ble_Runs\<close> the session of a probe (the transports, the first requests and
  the listening loop of \<open>main.go\<close>; not the connection, the enabling of notifications and the reads of known characteristics). The
  lemmas show that nothing panics, that what is built is read back, that damaged frames are rejected, that the stages of a session have
  their keys and that authentication is requested once on a transport (locale \<open>auth_budget\<close>, \<open>Ble_Lemmas\<close>, \<open>Ble_Properties\<close>).

  \<^bold>\<open>Archive and replay.\<close> \<open>Archive_Dedup\<close> models the memory of recent envelopes and shows that it answers as a plain list.
  \<open>Archive_Store\<close> models the object store, the manifest table and the outbox, \<open>Archive_Worker\<close> the worker as events of a run.
  \<open>Archive_Uploads\<close> has the contract of persisting (locale \<open>upload_path\<close>, interpreted for direct, indexed and outbox uploads);
  \<open>Archive_Runs\<close>, \<open>Archive_Settling\<close> and \<open>Archive_Losses\<close> have the invariants of runs and the steps that lose messages.
  \<open>Replay_Frames\<close> models the decoder, \<open>Replay_Model\<close> the queries and the runner, \<open>Replay_Runs\<close> what is published (locale
  \<open>replay_publisher\<close>). An acknowledged message is archived and a replay that asks for it publishes it,
  unless it was taken for a repetition of an earlier message that was not itself acknowledged; how that loses messages is shown too.

  \<^bold>\<open>Projection.\<close> \<open>Projection_Model\<close> models the merge of an envelope into a snapshot, the three calls of the server and the read
  model; \<open>Projection_Runs\<close> has messages handled one after the other, \<open>Projection_Steps\<close> the calls of concurrent applications in
  any order, \<open>Projection_Read\<close> what a reader gets (locale \<open>snapshot_reader\<close>, which the detector relies on).

  \<^bold>\<open>Gap repair.\<close> \<open>Gap_Model\<close> models the detector, the publisher and the worker; concurrent evaluation delivers its results in any
  order. \<open>Gap_Repair\<close> has the contracts with the coverage table and the control plane (locales \<open>coverage_store\<close>,
  \<open>assignment_store\<close>, \<open>repair_cycle\<close>). \<open>Repair_Loop\<close> closes the loop: the coverage query over the manifest that the archive
  wrote. A projected device is not repaired while nothing newer is archived, when messages are
  projected one after the other, and what is published is replayed.

  \<^bold>\<open>Rollups.\<close> \<open>Rollup_Metrics\<close> models the sample of an envelope with its derived metrics, \<open>Rollup_Model\<close> the integration of power
  and the statements of a transaction, \<open>Rollup_Rebuild\<close> the aggregator of a rebuild. \<open>Rollup_Sums\<close> shows what each statement adds
  to each row, \<open>Rollup_Runs\<close> that the three tables agree in every run of any number of workers, and \<open>Rollup_Ledger\<close> that live and
  rebuilt tables keep one contract (locale \<open>energy_ledger\<close>) and hence agree.

  \<^bold>\<open>Arguments of the model.\<close> Code from outside the repository is an argument: AES, MD5, SHA-256, the text of a floating-point number,
  the laws of Valkey, the answers of databases, of NATS and of the object store, protobuf, zstd, the parser of JSON and its path
  lookup, the rounding of numbers. A call of a service is carried out, refused, or carried out with its answer lost. Clocks,
  random tokens and the order of map iteration are arguments too.

  \<^bold>\<open>Bounds.\<close> Fences stay below \<open>10 ^ 14\<close>, so that Lua prints them exactly. Row counters of the store stay below \<open>2 ^ 64 - 2\<close>
  and runs of the ingest loop are shorter than \<open>2 ^ 64\<close> steps, so that its tokens do not repeat.
  Payloads of frames are shorter than \<open>2 ^ 16\<close> bytes, which is the length field, and records shorter than \<open>2 ^ 64\<close>. Times used in
  sums with windows are below \<open>2 ^ 62\<close> and message counts below \<open>2 ^ 63\<close>, so that no 64-bit sum wraps. That the modulus of the curve
  is prime is a hypothesis. The decoder of records is a partial function that is shown to return; every other loop terminates by a
  measure. The properties of rollups that add energies are for exact arithmetic.

  \<^bold>\<open>Not modelled.\<close> The Postgres implementation of the control plane (it implements the interface of the memory store, which is
  modelled); the sessions of the ingest worker with the providers and the building of envelopes, the provider clients (\<open>pkg/ecoflow\<close>, \<open>pkg/pecron\<close>, \<open>pkg/ankersolix\<close>,
  \<open>internal/provideradapter\<close>) and the edge collector, which are sessions with services and devices outside; set-up and supervision of
  NATS consumers; the window, the writer and the reports of a rollup rebuild; the forecast and weather services and inference, which
  are numeric models of their data; the gRPC and REST layers and the dashboards, which pass on what is stored; caches, migrations,
  audits and command-line tools; the MQTT emulator, which is a test double; and the applications in TypeScript. Configuration from
  the environment, logging and metrics are left out everywhere.
\<close>

end
